(* ===== verification/Pms_Prelude.thy ===== *)
theory Pms_Prelude
  imports Complex_Main
begin

text \<open>
  What every component of the model shares: thrown errors as values, JavaScript numbers and
  strings, the character classes of the code's regular expressions, decimal digits, sorting
  with a comparator, and the proof automation (the collection \<open>outcome\<close>) that inverts a
  successful run of a chain of checks.
\<close>

named_theorems outcome \<open>inversion of successful and failing runs\<close>

section \<open>Thrown errors\<close>

text \<open>
  A function of the source that may throw returns a value of \<open>'a res\<close>: \<open>Inl\<close> the error
  object with its class and message, \<open>Inr\<close> the returned value.  \<open>Failure\<close> is a plain
  \<open>Error\<close> (or one of its subclasses without a class of its own here), \<open>SyntaxError\<close> is
  what \<open>BigInt\<close> throws on a text that is not an integer, \<open>Coded_Error\<close> an error that also carries a
  code and the action it asks for.
\<close>

datatype js_error =
    TypeError string
  | RangeError string
  | SyntaxError string
  | Failure string
  | Coded_Error string string string

type_synonym 'a res = "js_error + 'a"

definition and_then :: "'a res \<Rightarrow> ('a \<Rightarrow> 'b res) \<Rightarrow> 'b res" where
  "and_then m f = (case m of Inl e \<Rightarrow> Inl e | Inr x \<Rightarrow> f x)"

definition ok :: "'a res \<Rightarrow> bool" where
  "ok m = (case m of Inl _ \<Rightarrow> False | Inr _ \<Rightarrow> True)"

lemma and_then_simps [simp]:
  "and_then (Inl e) f = Inl e"
  "and_then (Inr x) f = f x"
  by (simp_all add: and_then_def)

lemma ok_simps [simp]: "ok (Inl e) = False" "ok (Inr x) = True"
  by (simp_all add: ok_def)

lemma ok_iff: "ok m \<longleftrightarrow> (\<exists>x. m = Inr x)"
  by (cases m) auto

lemma not_ok_iff: "\<not> ok m \<longleftrightarrow> (\<exists>e. m = Inl e)"
  by (cases m) auto

lemma and_then_Inr [outcome]:
  "and_then m f = Inr y \<longleftrightarrow> (\<exists>x. m = Inr x \<and> f x = Inr y)"
  by (cases m) auto

lemma and_then_Inl [outcome]:
  "and_then m f = Inl e \<longleftrightarrow> m = Inl e \<or> (\<exists>x. m = Inr x \<and> f x = Inl e)"
  by (cases m) auto

lemma if_throw_Inr [outcome]:
  "(if b then Inl e else m) = Inr y \<longleftrightarrow> \<not> b \<and> m = Inr y"
  "(if b then m else Inl e) = Inr y \<longleftrightarrow> b \<and> m = Inr y"
  by auto

lemma ok_and_then [outcome]: "ok (and_then m f) \<longleftrightarrow> (\<exists>x. m = Inr x \<and> ok (f x))"
  by (cases m) auto

lemma ok_if_throw [outcome]:
  "ok (if b then Inl e else m) \<longleftrightarrow> \<not> b \<and> ok m"
  "ok (if b then m else Inl e) \<longleftrightarrow> b \<and> ok m"
  by auto

lemma and_then_cong [fundef_cong]:
  "m = m' \<Longrightarrow> (\<And>x. m' = Inr x \<Longrightarrow> f x = f' x) \<Longrightarrow> and_then m f = and_then m' f'"
  by (cases m') auto

text \<open>For evaluation on literal arguments: the continuation is left alone until its argument is known.\<close>

lemma and_then_weak_cong: "m = m' \<Longrightarrow> and_then m f = and_then m' f"
  by simp


lemma and_then_assoc: "and_then (and_then m f) g = and_then m (\<lambda>x. and_then (f x) g)"
  by (cases m) auto

text \<open>\<open>xs.map(f)\<close> with a callback that may throw: the first throw ends the loop.\<close>

fun traverse :: "('a \<Rightarrow> 'b res) \<Rightarrow> 'a list \<Rightarrow> 'b list res" where
  "traverse f [] = Inr []"
| "traverse f (x # xs) = and_then (f x) (\<lambda>y. and_then (traverse f xs) (\<lambda>ys. Inr (y # ys)))"

lemma traverse_cong [fundef_cong]:
  "xs = ys \<Longrightarrow> (\<And>x. x \<in> set ys \<Longrightarrow> f x = g x) \<Longrightarrow> traverse f xs = traverse g ys"
proof (induction ys arbitrary: xs)
  case Nil
  then show ?case by simp
next
  case (Cons y ys)
  from Cons.prems(2) have "f y = g y" and "traverse f ys = traverse g ys"
    using Cons.IH [of ys] by auto
  with Cons.prems(1) show ?case by simp
qed

lemma traverse_Inr_iff [outcome]:
  "traverse f xs = Inr ys \<longleftrightarrow> list_all2 (\<lambda>x y. f x = Inr y) xs ys"
  by (induction xs arbitrary: ys) (auto simp: outcome list_all2_Cons1)

lemma traverse_length: "traverse f xs = Inr ys \<Longrightarrow> length ys = length xs"
  by (auto simp: outcome dest: list_all2_lengthD)

lemma traverse_ok_iff [outcome]: "ok (traverse f xs) \<longleftrightarrow> (\<forall>x\<in>set xs. ok (f x))"
  by (induction xs) (auto simp: outcome ok_iff)

lemma traverse_pure: "(\<And>x. x \<in> set xs \<Longrightarrow> f x = Inr (g x)) \<Longrightarrow> traverse f xs = Inr (map g xs)"
  by (induction xs) auto

text \<open>\<open>for (const x of xs) check(x)\<close>: a loop run only for the errors it throws.\<close>

fun each :: "('a \<Rightarrow> unit res) \<Rightarrow> 'a list \<Rightarrow> unit res" where
  "each f [] = Inr ()"
| "each f (x # xs) = and_then (f x) (\<lambda>_. each f xs)"

lemma each_Inr_iff [outcome]: "each f xs = Inr u \<longleftrightarrow> (\<forall>x\<in>set xs. f x = Inr ())"
  by (induction xs) (auto simp: outcome)

lemma traverse_weak_cong: "xs = ys \<Longrightarrow> traverse f xs = traverse f ys"
  by simp

lemma each_weak_cong: "xs = ys \<Longrightarrow> each f xs = each f ys"
  by simp

lemmas eval_cong = and_then_weak_cong traverse_weak_cong each_weak_cong let_weak_cong option.case_cong_weak

lemma find_SomeD: "find P xs = Some x \<Longrightarrow> x \<in> set xs \<and> P x"
  by (induction xs) (auto split: if_splits)

section \<open>JavaScript numbers\<close>

text \<open>
  A \<open>number\<close> of the source, as far as the code inspects it: NaN, an infinity, or a finite
  value.  \<open>Number.isInteger\<close> and \<open>Number.isSafeInteger\<close> are the tests the code guards
  its numeric arguments with.
\<close>

datatype jsnum = NaN | Infinite bool | Num rat

definition js_int :: "jsnum \<Rightarrow> int option" where
  "js_int x = (case x of Num q \<Rightarrow> if snd (quotient_of q) = 1 then Some (fst (quotient_of q)) else None
                       | _ \<Rightarrow> None)"

abbreviation of_js :: "int \<Rightarrow> jsnum" where
  "of_js n \<equiv> Num (of_int n)"

lemma js_int_of_js [simp]: "js_int (of_js n) = Some n"
  by (simp add: js_int_def)

lemma js_int_of_nat [simp]: "js_int (Num (of_nat n)) = Some (int n)"
  using js_int_of_js [of "int n"] by simp

lemma js_int_numeral [simp]:
  "js_int (Num 0) = Some 0" "js_int (Num 1) = Some 1"
  "js_int (Num (numeral k)) = Some (numeral k)" "js_int (Num (- numeral k)) = Some (- numeral k)"
  "js_int (Num (- 1)) = Some (- 1)"
  using js_int_of_js [of 0] js_int_of_js [of 1] js_int_of_js [of "numeral k"]
    js_int_of_js [of "- numeral k"] js_int_of_js [of "- 1"] by simp_all

lemma js_int_SomeD: "js_int x = Some n \<Longrightarrow> x = of_js n"
proof (cases x)
  case (Num q)
  assume "js_int x = Some n"
  with Num have "quotient_of q = (n, 1)"
    by (auto simp: js_int_def prod_eq_iff split: if_splits)
  then have "q = of_int n" using quotient_of_div by fastforce
  with Num show ?thesis by simp
qed (simp_all add: js_int_def)

text \<open>The guard \<open>!Number.isInteger(scale) || scale < lo || scale > hi\<close> of a scale argument.\<close>

definition int_between :: "int \<Rightarrow> int \<Rightarrow> jsnum \<Rightarrow> nat option" where
  "int_between lo hi x = (case js_int x of None \<Rightarrow> None
     | Some n \<Rightarrow> if n < lo \<or> n > hi then None else Some (nat n))"

lemma int_between_SomeD:
  "int_between lo hi x = Some n \<Longrightarrow> 0 \<le> lo \<Longrightarrow> lo \<le> int n \<and> int n \<le> hi"
  by (auto simp: int_between_def split: option.splits if_splits)

lemma int_between_of_js [simp]:
  "int_between lo hi (of_js n) = (if n < lo \<or> n > hi then None else Some (nat n))"
  by (simp add: int_between_def)

lemma int_between_numeral [simp]:
  "int_between lo hi (Num 0) = (if 0 < lo \<or> 0 > hi then None else Some 0)"
  "int_between lo hi (Num 1) = (if 1 < lo \<or> 1 > hi then None else Some 1)"
  "int_between lo hi (Num (numeral k)) =
     (if numeral k < lo \<or> numeral k > hi then None else Some (numeral k))"
  by (simp_all add: int_between_def)

lemma int_between_of_nat [simp]:
  "int_between lo hi (Num (of_nat n)) = (if int n < lo \<or> int n > hi then None else Some n)"
  by (simp add: int_between_def)

section \<open>Strings\<close>

text \<open>
  A string of the source is the list of its code units; the model covers the code units
  below 256.  \<open>js_space\<close> is the white space and line terminators of ECMAScript in that
  range.
\<close>

abbreviation code :: "char \<Rightarrow> nat" where
  "code \<equiv> of_char"

definition between :: "nat \<Rightarrow> nat \<Rightarrow> char \<Rightarrow> bool" where
  "between lo hi c \<longleftrightarrow> lo \<le> code c \<and> code c \<le> hi"

definition is_digit :: "char \<Rightarrow> bool" where "is_digit c \<longleftrightarrow> between 48 57 c"
definition is_upper :: "char \<Rightarrow> bool" where "is_upper c \<longleftrightarrow> between 65 90 c"
definition is_lower :: "char \<Rightarrow> bool" where "is_lower c \<longleftrightarrow> between 97 122 c"
definition is_alnum :: "char \<Rightarrow> bool" where
  "is_alnum c \<longleftrightarrow> is_digit c \<or> is_upper c \<or> is_lower c"
definition is_hex :: "char \<Rightarrow> bool" where "is_hex c \<longleftrightarrow> is_digit c \<or> between 97 102 c"
definition is_hex_ci :: "char \<Rightarrow> bool" where "is_hex_ci c \<longleftrightarrow> is_hex c \<or> between 65 70 c"
definition upper_digit :: "char \<Rightarrow> bool" where "upper_digit c \<longleftrightarrow> is_upper c \<or> is_digit c"

lemmas char_class_defs =
  between_def is_digit_def is_upper_def is_lower_def is_alnum_def is_hex_def is_hex_ci_def
  upper_digit_def

definition js_space :: "char \<Rightarrow> bool" where
  "js_space c \<longleftrightarrow> code c \<in> {9, 10, 11, 12, 13, 32, 160}"

definition trim :: "string \<Rightarrow> string" where
  "trim s = rev (dropWhile js_space (rev (dropWhile js_space s)))"

text \<open>The guard \<open>!s.trim()\<close>.\<close>

abbreviation blank :: "string \<Rightarrow> bool" where
  "blank s \<equiv> trim s = []"

lemma blank_iff: "blank s \<longleftrightarrow> list_all js_space s"
proof -
  have "blank s \<longleftrightarrow> (\<forall>c\<in>set (dropWhile js_space s). js_space c)"
    by (simp add: trim_def dropWhile_eq_Nil_conv)
  also have "\<dots> \<longleftrightarrow> list_all js_space s"
    by (induction s) (auto simp: list_all_iff)
  finally show ?thesis .
qed

lemma blank_Nil [simp]: "blank []"
  by (simp add: trim_def)

lemma dropWhile_all_append:
  "list_all P xs \<Longrightarrow> dropWhile P (xs @ ys) = dropWhile P ys"
  by (induction xs) auto

lemma dropWhile_head: "dropWhile P xs = c # cs \<Longrightarrow> \<not> P c"
  by (metis dropWhile_eq_Cons_conv)

lemma trim_idem [simp]: "trim (trim s) = trim s"
proof -
  define t where "t = dropWhile js_space s"
  have t: "dropWhile js_space t = t" by (simp add: t_def)
  define u where "u = rev (dropWhile js_space (rev t))"
  have u: "trim s = u" by (simp add: trim_def t_def u_def)
  have "dropWhile js_space u = u"
  proof (cases u)
    case (Cons c cs)
    have "t = u @ rev (takeWhile js_space (rev t))"
      unfolding u_def by (metis rev_append rev_rev_ident takeWhile_dropWhile_id)
    with Cons have "t = c # cs @ rev (takeWhile js_space (rev t))" by simp
    with t have "\<not> js_space c" by (metis dropWhile_head)
    with Cons show ?thesis by simp
  qed simp
  moreover have "rev (dropWhile js_space (rev u)) = u"
    by (simp add: u_def)
  ultimately show ?thesis by (simp add: u trim_def [of u])
qed

text \<open>
  A quantified character class anchored at both ends, \<open>/^[..]{lo,hi}$/\<close>, and one whose
  first character has a class of its own, \<open>/^[..][..]{lo,hi}$/\<close>.
\<close>

definition run_of :: "(char \<Rightarrow> bool) \<Rightarrow> nat \<Rightarrow> nat \<Rightarrow> string \<Rightarrow> bool" where
  "run_of cls lo hi s \<longleftrightarrow> lo \<le> length s \<and> length s \<le> hi \<and> list_all cls s"

definition headed_run :: "(char \<Rightarrow> bool) \<Rightarrow> (char \<Rightarrow> bool) \<Rightarrow> nat \<Rightarrow> nat \<Rightarrow> string \<Rightarrow> bool" where
  "headed_run hd_cls cls lo hi s = (case s of [] \<Rightarrow> False | c # cs \<Rightarrow> hd_cls c \<and> run_of cls lo hi cs)"

text \<open>\<open>/^[A-Z]{3}$/\<close>, \<open>/^[0-9a-f]{64}$/\<close> and \<open>/^[A-Za-z0-9._:-]{lo,hi}$/\<close>.\<close>

definition is_currency_code :: "string \<Rightarrow> bool" where
  "is_currency_code s \<longleftrightarrow> run_of is_upper 3 3 s"

definition is_sha256_hex :: "string \<Rightarrow> bool" where
  "is_sha256_hex s \<longleftrightarrow> run_of is_hex 64 64 s"

definition safe_char :: "char \<Rightarrow> bool" where
  "safe_char c \<longleftrightarrow> is_alnum c \<or> c \<in> {CHR ''.'', CHR ''_'', CHR '':'', CHR ''-''}"

definition safe_key :: "nat \<Rightarrow> nat \<Rightarrow> string \<Rightarrow> bool" where
  "safe_key lo hi s \<longleftrightarrow> run_of safe_char lo hi s"

text \<open>\<open>/^[A-Z][A-Z0-9_-]{1,63}$/\<close> and \<open>/^[A-Za-z0-9._-]{lo,hi}$/\<close>.\<close>

definition upper_code :: "nat \<Rightarrow> nat \<Rightarrow> string \<Rightarrow> bool" where
  "upper_code lo hi s \<longleftrightarrow>
     headed_run is_upper (\<lambda>c. upper_digit c \<or> c = CHR ''_'' \<or> c = CHR ''-'') lo hi s"

definition dotted_char :: "char \<Rightarrow> bool" where
  "dotted_char c \<longleftrightarrow> is_alnum c \<or> c \<in> {CHR ''.'', CHR ''_'', CHR ''-''}"

definition dotted_name :: "nat \<Rightarrow> nat \<Rightarrow> string \<Rightarrow> bool" where
  "dotted_name lo hi s \<longleftrightarrow> run_of dotted_char lo hi s"

text \<open>\<open>/^[A-Za-z0-9][A-Za-z0-9._-]{lo,hi}$/\<close>, the identifiers of pools, accounts and users.\<close>

definition is_identifier :: "nat \<Rightarrow> nat \<Rightarrow> string \<Rightarrow> bool" where
  "is_identifier lo hi s \<longleftrightarrow> headed_run is_alnum dotted_char lo hi s"

text \<open>
  The UUID pattern used throughout,
  \<open>/^[0-9a-f]{8}-[0-9a-f]{4}-[1-5][0-9a-f]{3}-[89ab][0-9a-f]{3}-[0-9a-f]{12}$/\<close>, with the
  flag \<open>i\<close> (\<open>is_uuid\<close>) and without it (\<open>is_uuid_lower\<close>).
\<close>

definition uuid_of :: "(char \<Rightarrow> bool) \<Rightarrow> char set \<Rightarrow> string \<Rightarrow> bool" where
  "uuid_of hex variants s \<longleftrightarrow> length s = 36
     \<and> list_all hex (take 8 s) \<and> s ! 8 = CHR ''-''
     \<and> list_all hex (take 4 (drop 9 s)) \<and> s ! 13 = CHR ''-''
     \<and> between 49 53 (s ! 14) \<and> list_all hex (take 3 (drop 15 s)) \<and> s ! 18 = CHR ''-''
     \<and> s ! 19 \<in> variants \<and> list_all hex (take 3 (drop 20 s)) \<and> s ! 23 = CHR ''-''
     \<and> list_all hex (drop 24 s)"

definition is_uuid :: "string \<Rightarrow> bool" where
  "is_uuid s \<longleftrightarrow> uuid_of is_hex_ci
     {CHR ''8'', CHR ''9'', CHR ''a'', CHR ''b'', CHR ''A'', CHR ''B''} s"

definition is_uuid_lower :: "string \<Rightarrow> bool" where
  "is_uuid_lower s \<longleftrightarrow> uuid_of is_hex {CHR ''8'', CHR ''9'', CHR ''a'', CHR ''b''} s"

text \<open>The looser \<open>/^[0-9a-f-]{36}$/i\<close>.\<close>

definition is_uuid_shape :: "string \<Rightarrow> bool" where
  "is_uuid_shape s \<longleftrightarrow> run_of (\<lambda>c. is_hex_ci c \<or> c = CHR ''-'') 36 36 s"

lemma is_uuid_lower_imp: "is_uuid_lower s \<Longrightarrow> is_uuid s"
  by (auto simp: is_uuid_lower_def is_uuid_def uuid_of_def is_hex_ci_def list_all_iff)

text \<open>\<open>toLowerCase\<close> on the code units below 256.\<close>

definition lower_char :: "char \<Rightarrow> char" where
  "lower_char c = (if is_upper c \<or> (between 192 222 c \<and> code c \<noteq> 215)
                   then char_of (code c + 32) else c)"

definition to_lower :: "string \<Rightarrow> string" where
  "to_lower s = map lower_char s"

text \<open>Relational comparison of strings, by code units.\<close>

fun str_less :: "string \<Rightarrow> string \<Rightarrow> bool" where
  "str_less _ [] = False"
| "str_less [] (_ # _) = True"
| "str_less (x # xs) (y # ys) = (code x < code y \<or> (code x = code y \<and> str_less xs ys))"

abbreviation str_le :: "string \<Rightarrow> string \<Rightarrow> bool" where
  "str_le a b \<equiv> \<not> str_less b a"

lemma code_inj: "code x = code y \<longleftrightarrow> x = y"
  by simp

lemma str_less_irrefl [simp]: "\<not> str_less s s"
  by (induction s) auto

lemma str_less_trans: "str_less a b \<Longrightarrow> str_less b c \<Longrightarrow> str_less a c"
proof (induction a b arbitrary: c rule: str_less.induct)
  case (2 y ys)
  then show ?case by (cases c) auto
next
  case (3 x xs y ys)
  then show ?case by (cases c) auto
qed simp

lemma str_less_linear: "str_less a b \<or> a = b \<or> str_less b a"
  by (induction a b rule: str_less.induct) (auto simp: neq_Nil_conv, metis list.exhaust str_less.simps(2))

lemma str_less_asym: "str_less a b \<Longrightarrow> \<not> str_less b a"
  using str_less_trans str_less_irrefl by blast

lemma str_le_trans: "str_le a b \<Longrightarrow> str_le b c \<Longrightarrow> str_le a c"
  by (metis str_less_linear str_less_trans)

text \<open>\<open>padStart(n, '0')\<close>, \<open>padEnd(n, '0')\<close>, \<open>slice(0, -n)\<close> and \<open>slice(-n)\<close>.\<close>

definition pad_start :: "nat \<Rightarrow> string \<Rightarrow> string" where
  "pad_start n s = replicate (n - length s) (CHR ''0'') @ s"

definition pad_end :: "nat \<Rightarrow> string \<Rightarrow> string" where
  "pad_end n s = s @ replicate (n - length s) (CHR ''0'')"

definition drop_last :: "nat \<Rightarrow> string \<Rightarrow> string" where
  "drop_last n s = take (length s - n) s"

definition last_chars :: "nat \<Rightarrow> string \<Rightarrow> string" where
  "last_chars n s = drop (length s - n) s"

lemma length_pad_start [simp]: "length (pad_start n s) = max n (length s)"
  by (simp add: pad_start_def)

lemma length_pad_end [simp]: "length (pad_end n s) = max n (length s)"
  by (simp add: pad_end_def)

section \<open>Decimal digits\<close>

definition digit_val :: "char \<Rightarrow> nat" where
  "digit_val c = code c - 48"

definition digit_char :: "nat \<Rightarrow> char" where
  "digit_char d = char_of (48 + d)"

fun nat_of_digits_acc :: "nat \<Rightarrow> string \<Rightarrow> nat" where
  "nat_of_digits_acc acc [] = acc"
| "nat_of_digits_acc acc (c # cs) = nat_of_digits_acc (10 * acc + digit_val c) cs"

text \<open>\<open>BigInt(s)\<close> on a text of digits (the empty text is \<open>0n\<close>).\<close>

definition nat_of_digits :: "string \<Rightarrow> nat" where
  "nat_of_digits s = nat_of_digits_acc 0 s"

text \<open>\<open>toString()\<close> of a non-negative \<open>bigint\<close>.\<close>

fun digits_of :: "nat \<Rightarrow> string" where
  "digits_of n = (if n < 10 then [digit_char n] else digits_of (n div 10) @ [digit_char (n mod 10)])"

declare digits_of.simps [simp del]

lemma digit_char_val [simp]: "d < 10 \<Longrightarrow> digit_val (digit_char d) = d"
  by (simp add: digit_char_def digit_val_def)

lemma is_digit_digit_char [simp]: "d < 10 \<Longrightarrow> is_digit (digit_char d)"
  by (simp add: digit_char_def char_class_defs)

lemma char_of_48 [simp]: "char_of (48 :: nat) = CHR ''0''"
  by code_simp

lemma digit_char_simps [simp]:
  "digit_char 0 = CHR ''0''" "digit_char 1 = CHR ''1''" "digit_char (Suc 0) = CHR ''1''"
  "digit_char 2 = CHR ''2''" "digit_char 3 = CHR ''3''" "digit_char 4 = CHR ''4''"
  "digit_char 5 = CHR ''5''" "digit_char 6 = CHR ''6''" "digit_char 7 = CHR ''7''"
  "digit_char 8 = CHR ''8''" "digit_char 9 = CHR ''9''"
  by code_simp+

lemma digit_val_0 [simp]: "digit_val (CHR ''0'') = 0"
  by (simp add: digit_val_def)

lemma is_digit_0 [simp]: "is_digit (CHR ''0'')"
  by (simp add: char_class_defs)

lemma digit_val_less: "is_digit c \<Longrightarrow> digit_val c < 10"
  unfolding char_class_defs digit_val_def by linarith

lemma digit_char_digit_val: "is_digit c \<Longrightarrow> digit_char (digit_val c) = c"
  by (auto simp: char_class_defs digit_val_def digit_char_def)

lemma nat_of_digits_acc_eq:
  "nat_of_digits_acc a s = a * 10 ^ length s + nat_of_digits_acc 0 s"
proof (induction s arbitrary: a)
  case (Cons c s)
  show ?case
    using Cons.IH [of "10 * a + digit_val c"] Cons.IH [of "digit_val c"]
    by (simp add: algebra_simps)
qed simp

lemma nat_of_digits_Nil [simp]: "nat_of_digits [] = 0"
  by (simp add: nat_of_digits_def)

lemma nat_of_digits_Cons:
  "nat_of_digits (c # s) = digit_val c * 10 ^ length s + nat_of_digits s"
  using nat_of_digits_acc_eq [of "digit_val c" s] by (simp add: nat_of_digits_def)

lemma nat_of_digits_append:
  "nat_of_digits (s @ t) = nat_of_digits s * 10 ^ length t + nat_of_digits t"
  by (induction s) (simp_all add: nat_of_digits_Cons power_add algebra_simps)

lemma nat_of_digits_zeros [simp]: "nat_of_digits (replicate n (CHR ''0'')) = 0"
  by (induction n) (simp_all add: nat_of_digits_Cons digit_val_def)

lemma nat_of_digits_acc_zeros: "nat_of_digits_acc a (replicate n (CHR ''0'')) = a * 10 ^ n"
  using nat_of_digits_acc_eq [of a "replicate n (CHR ''0'')"] nat_of_digits_zeros [of n]
  by (simp add: nat_of_digits_def)

lemma nat_of_digits_pad_start [simp]: "nat_of_digits (pad_start n s) = nat_of_digits s"
  by (simp add: pad_start_def nat_of_digits_append)

lemma nat_of_digits_pad_end:
  "length s \<le> n \<Longrightarrow> nat_of_digits (pad_end n s) = nat_of_digits s * 10 ^ (n - length s)"
  by (simp add: pad_end_def nat_of_digits_append)

lemma nat_of_digits_bound: "list_all is_digit s \<Longrightarrow> nat_of_digits s < 10 ^ length s"
proof (induction s)
  case (Cons c s)
  then have "digit_val c \<le> 9" and "nat_of_digits s < 10 ^ length s"
    using digit_val_less [of c] by auto
  then have "digit_val c * 10 ^ length s + nat_of_digits s < 9 * 10 ^ length s + 10 ^ length s"
    by (intro add_le_less_mono mult_right_mono) auto
  then show ?case by (simp add: nat_of_digits_Cons)
qed simp

lemma nat_of_digits_digits_of [simp]: "nat_of_digits (digits_of n) = n"
proof (induction n rule: digits_of.induct)
  case (1 n)
  show ?case
  proof (cases "n < 10")
    case True
    then show ?thesis by (subst digits_of.simps) (simp add: nat_of_digits_Cons)
  next
    case False
    with "1.IH" show ?thesis
      by (subst digits_of.simps) (simp add: nat_of_digits_append nat_of_digits_Cons)
  qed
qed

lemma digits_of_digits [simp]: "list_all is_digit (digits_of n)"
proof (induction n rule: digits_of.induct)
  case (1 n)
  show ?case
    using "1.IH" by (subst digits_of.simps) simp
qed

lemma digits_of_nonempty [simp]: "digits_of n \<noteq> []"
  by (subst digits_of.simps) simp

lemma digits_of_0: "digits_of 0 = ''0''"
  by (subst digits_of.simps) simp

lemma digits_of_numeral:
  "digits_of 0 = ''0''" "digits_of 1 = ''1''" "digits_of (Suc 0) = ''1''"
  "digits_of (numeral k) = (if numeral k < (10 :: nat) then [digit_char (numeral k)]
     else digits_of (numeral k div 10) @ [digit_char (numeral k mod 10)])"
  by (subst digits_of.simps; simp)+

text \<open>The rules that evaluate the text functions on literal arguments.\<close>

lemma replicate_literal: "replicate (numeral k) x = x # replicate (pred_numeral k) x"
  by (simp add: numeral_eq_Suc)

lemmas digits_eval = replicate_literal nat_of_digits_def nat_of_digits_acc_zeros digit_val_def digits_of_numeral pad_start_def pad_end_def
  drop_last_def last_chars_def

lemma digits_of_no_leading_zero: "0 < n \<Longrightarrow> hd (digits_of n) \<noteq> CHR ''0''"
proof (induction n rule: digits_of.induct)
  case (1 n)
  show ?case
  proof (cases "n < 10")
    case True
    have "digit_val (digit_char n) \<noteq> digit_val (CHR ''0'')"
      using True "1.prems" by (simp only: digit_char_val) simp
    then have "digit_char n \<noteq> CHR ''0''" by metis
    with True show ?thesis by (subst digits_of.simps) simp
  next
    case False
    then have "hd (digits_of (n div 10)) \<noteq> CHR ''0''" using "1.IH" by simp
    with False show ?thesis by (subst digits_of.simps) simp
  qed
qed

lemma nat_of_digits_ge:
  assumes "list_all is_digit s" "s \<noteq> []" "hd s \<noteq> CHR ''0''"
  shows "10 ^ (length s - 1) \<le> nat_of_digits s"
proof -
  from assms obtain c t where s: "s = c # t" and c: "is_digit c" "c \<noteq> CHR ''0''"
    by (cases s) auto
  have "digit_val c \<noteq> 0"
  proof
    assume "digit_val c = 0"
    then have "digit_char (digit_val c) = CHR ''0''" by (simp add: digit_char_def)
    with c digit_char_digit_val [of c] show False by simp
  qed
  then have "10 ^ length t \<le> digit_val c * 10 ^ length t" by simp
  then have "10 ^ length t \<le> digit_val c * 10 ^ length t + nat_of_digits t"
    by (rule trans_le_add1)
  then show ?thesis by (simp only: s nat_of_digits_Cons length_Cons diff_Suc_1)
qed

text \<open>Two texts of the same length with the same value are the same text.\<close>

lemma nat_of_digits_inj:
  "list_all is_digit s \<Longrightarrow> list_all is_digit t \<Longrightarrow> length s = length t \<Longrightarrow>
   nat_of_digits s = nat_of_digits t \<Longrightarrow> s = t"
proof (induction s arbitrary: t)
  case (Cons c s)
  then obtain d u where t: "t = d # u" by (cases t) auto
  with Cons.prems have c: "is_digit c" "is_digit d" "list_all is_digit s" "list_all is_digit u"
    "length s = length u" by auto
  let ?p = "10 ^ length s :: nat"
  have eq: "digit_val c * ?p + nat_of_digits s = digit_val d * ?p + nat_of_digits u"
    using Cons.prems(4) c(5) by (simp add: t nat_of_digits_Cons)
  have b: "nat_of_digits s < ?p" "nat_of_digits u < ?p"
    using nat_of_digits_bound [OF c(3)] nat_of_digits_bound [OF c(4)] c(5) by simp_all
  have "digit_val c = digit_val d"
    using arg_cong [OF eq, of "\<lambda>x. x div ?p"] b by simp
  moreover with eq have "nat_of_digits s = nat_of_digits u" by simp
  ultimately show ?case
    using Cons.IH [OF c(3) c(4) c(5)] digit_char_digit_val [of c] digit_char_digit_val [of d] c t
    by metis
qed simp

section \<open>\<open>Array.prototype.sort\<close>\<close>

text \<open>
  \<open>[...xs].sort(cmp)\<close>: a stable sort of a copy, with a comparator whose negative results
  put the left argument first.
\<close>

fun insert_by :: "('a \<Rightarrow> 'a \<Rightarrow> int) \<Rightarrow> 'a \<Rightarrow> 'a list \<Rightarrow> 'a list" where
  "insert_by cmp x [] = [x]"
| "insert_by cmp x (y # ys) = (if cmp x y \<le> 0 then x # y # ys else y # insert_by cmp x ys)"

definition sort_by :: "('a \<Rightarrow> 'a \<Rightarrow> int) \<Rightarrow> 'a list \<Rightarrow> 'a list" where
  "sort_by cmp xs = foldr (insert_by cmp) xs []"

lemma length_insert_by [simp]: "length (insert_by cmp x ys) = Suc (length ys)"
  by (induction ys) auto

lemma set_insert_by [simp]: "set (insert_by cmp x ys) = insert x (set ys)"
  by (induction ys) auto

lemma distinct_insert_by [simp]: "distinct (insert_by cmp x ys) \<longleftrightarrow> x \<notin> set ys \<and> distinct ys"
  by (induction ys) auto

lemma sort_by_simps [simp]:
  "sort_by cmp [] = []" "sort_by cmp (x # xs) = insert_by cmp x (sort_by cmp xs)"
  by (simp_all add: sort_by_def)

lemma length_sort_by [simp]: "length (sort_by cmp xs) = length xs"
  by (induction xs) auto

lemma set_sort_by [simp]: "set (sort_by cmp xs) = set xs"
  by (induction xs) auto

lemma distinct_sort_by [simp]: "distinct (sort_by cmp xs) \<longleftrightarrow> distinct xs"
  by (induction xs) auto

text \<open>With a total preorder for a comparator the result is sorted.\<close>

definition total_comparator :: "('a \<Rightarrow> 'a \<Rightarrow> int) \<Rightarrow> bool" where
  "total_comparator cmp \<longleftrightarrow> (\<forall>x y. cmp x y \<le> 0 \<or> cmp y x \<le> 0)
     \<and> (\<forall>x y z. cmp x y \<le> 0 \<longrightarrow> cmp y z \<le> 0 \<longrightarrow> cmp x z \<le> 0)"

lemma sorted_insert_by:
  assumes "total_comparator cmp" "sorted_wrt (\<lambda>a b. cmp a b \<le> 0) ys"
  shows "sorted_wrt (\<lambda>a b. cmp a b \<le> 0) (insert_by cmp x ys)"
  using assms(2)
proof (induction ys)
  case (Cons y ys)
  have total: "cmp x y \<le> 0 \<or> cmp y x \<le> 0"
    and trans: "\<And>z. cmp x y \<le> 0 \<Longrightarrow> cmp y z \<le> 0 \<Longrightarrow> cmp x z \<le> 0"
    using assms(1) unfolding total_comparator_def by blast+
  from Cons show ?case using total trans by auto
qed simp

lemma sorted_sort_by:
  "total_comparator cmp \<Longrightarrow> sorted_wrt (\<lambda>a b. cmp a b \<le> 0) (sort_by cmp xs)"
  by (induction xs) (simp_all add: sorted_insert_by)

section \<open>\<open>Map\<close>\<close>

text \<open>
  A JavaScript \<open>Map\<close> in insertion order: \<open>set\<close> replaces the value of a present key where it
  stands and appends an absent one; \<open>get\<close> is \<open>map_of\<close>.
\<close>

fun map_set :: "'k \<Rightarrow> 'v \<Rightarrow> ('k \<times> 'v) list \<Rightarrow> ('k \<times> 'v) list" where
  "map_set k v [] = [(k, v)]"
| "map_set k v ((k', v') # m) = (if k' = k then (k', v) # m else (k', v') # map_set k v m)"

definition set_all :: "('k \<times> 'v) list \<Rightarrow> ('k \<times> 'v) list \<Rightarrow> ('k \<times> 'v) list" where
  "set_all m kvs = foldl (\<lambda>m (k, v). map_set k v m) m kvs"

definition new_map :: "('k \<times> 'v) list \<Rightarrow> ('k \<times> 'v) list" where
  "new_map kvs = set_all [] kvs"

lemma map_of_map_set [simp]: "map_of (map_set k v m) = (map_of m)(k \<mapsto> v)"
  by (induction k v m rule: map_set.induct) (auto simp: fun_eq_iff)

lemma keys_map_set [simp]: "fst ` set (map_set k v m) = insert k (fst ` set m)"
  by (induction k v m rule: map_set.induct) auto

lemma distinct_map_set: "distinct (map fst m) \<Longrightarrow> distinct (map fst (map_set k v m))"
proof (induction k v m rule: map_set.induct)
  case (2 k v k' v' m)
  then show ?case using keys_map_set [of k v m] by (auto simp del: keys_map_set)
qed simp

lemma map_set_append: "k \<notin> fst ` set m \<Longrightarrow> map_set k v m = m @ [(k, v)]"
  by (induction k v m rule: map_set.induct) auto

lemma set_all_append:
  "distinct (map fst kvs) \<Longrightarrow> fst ` set kvs \<inter> fst ` set m = {} \<Longrightarrow> set_all m kvs = m @ kvs"
proof (induction kvs arbitrary: m)
  case (Cons kv kvs)
  obtain k v where kv: "kv = (k, v)" by fastforce
  with Cons.prems have "map_set k v m = m @ [(k, v)]" by (intro map_set_append) auto
  with Cons.IH [of "m @ [(k, v)]"] Cons.prems kv show ?case by (auto simp: set_all_def)
qed (simp add: set_all_def)

lemma new_map_distinct [simp]: "distinct (map fst kvs) \<Longrightarrow> new_map kvs = kvs"
  by (simp add: new_map_def set_all_append)

lemma set_all_simps: "set_all m [] = m" "set_all m (kv # kvs) = set_all (map_set (fst kv) (snd kv) m) kvs"
  by (simp_all add: set_all_def split_def)

lemma set_all_keys: "fst ` set (set_all m kvs) = fst ` set m \<union> fst ` set kvs"
  by (induction kvs arbitrary: m) (simp_all only: set_all_simps keys_map_set, simp_all)

lemma map_set_values: "set (map snd (map_set k v m)) \<subseteq> insert v (set (map snd m))"
  by (induction k v m rule: map_set.induct) auto

lemma set_all_values: "set (map snd (set_all m kvs)) \<subseteq> set (map snd m) \<union> set (map snd kvs)"
proof (induction kvs arbitrary: m)
  case (Cons kv kvs)
  from Cons.IH [of "map_set (fst kv) (snd kv) m"] map_set_values [of "fst kv" "snd kv" m]
  show ?case by (auto simp: set_all_simps)
qed (simp add: set_all_simps)

lemma set_all_distinct: "distinct (map fst m) \<Longrightarrow> distinct (map fst (set_all m kvs))"
  unfolding set_all_def by (induction kvs arbitrary: m) (auto simp: distinct_map_set)

text \<open>Adding up a map by its keys.\<close>

lemma sum_map_get:
  assumes "distinct (map fst m)" "fst ` set m \<subseteq> set ids" "distinct ids"
  shows "sum_list (map (\<lambda>i. case map_of m i of None \<Rightarrow> 0 | Some u \<Rightarrow> u) ids)
    = (sum_list (map snd m) :: 'v::comm_monoid_add)"
proof -
  let ?g = "\<lambda>i. case map_of m i of None \<Rightarrow> 0 | Some u \<Rightarrow> u"
  have "sum_list (map ?g ids) = sum ?g (set ids)"
    using assms(3) by (simp add: sum_list_distinct_conv_sum_set)
  also have "\<dots> = sum ?g (fst ` set m)"
  proof (rule sum.mono_neutral_right)
    show "\<forall>i\<in>set ids - fst ` set m. ?g i = 0"
    proof
      fix i assume "i \<in> set ids - fst ` set m"
      then have "map_of m i = None" by (simp add: map_of_eq_None_iff)
      then show "?g i = 0" by simp
    qed
  qed (simp_all add: assms(2))
  also have "\<dots> = sum_list (map ?g (map fst m))"
    using assms(1) by (simp add: sum_list_distinct_conv_sum_set del: map_map)
  also have "map ?g (map fst m) = map snd m"
    using assms(1) by (auto simp: map_of_is_SomeI)
  finally show ?thesis .
qed

text \<open>The order of \<open>sort()\<close> on strings.\<close>

definition text_order :: "string \<Rightarrow> string \<Rightarrow> int" where
  "text_order a b = (if a = b then 0 else if str_less a b then - 1 else 1)"

lemma text_order_le: "text_order a b \<le> 0 \<longleftrightarrow> str_le a b"
  using str_less_linear [of a b] str_less_asym [of a b] by (auto simp: text_order_def)

lemma text_order_total: "total_comparator text_order"
  unfolding total_comparator_def text_order_le using str_less_linear str_le_trans str_less_asym by blast

lemma text_order_antisym: "text_order a b \<le> 0 \<Longrightarrow> text_order b a \<le> 0 \<Longrightarrow> a = b"
  unfolding text_order_le using str_less_linear by blast

end
