(* ===== verification/Decimal_Text.thy ===== *)
theory Decimal_Text
  imports Pms_Prelude
begin

text \<open>
  The decimal texts of the program: the regular expressions that accept them, the scaled
  integers (``units'') they stand for, and the text printed back from units.  The same
  helpers are repeated in most files of the source; each component instantiates the shared
  functions below with its own sign, scale and messages.
\<close>

section \<open>Recognising a canonical decimal\<close>

text \<open>\<open>(0|[1-9]\\d*)\<close>: no leading zero.\<close>

definition canonical_int :: "string \<Rightarrow> bool" where
  "canonical_int s \<longleftrightarrow> s = ''0'' \<or> (s \<noteq> [] \<and> hd s \<noteq> CHR ''0'' \<and> list_all is_digit s)"

definition fraction_ok :: "string option \<Rightarrow> bool" where
  "fraction_ok f = (case f of None \<Rightarrow> True | Some g \<Rightarrow> g \<noteq> [] \<and> list_all is_digit g)"

definition split_dot :: "string \<Rightarrow> string \<times> string option" where
  "split_dot s = (takeWhile (\<lambda>c. c \<noteq> CHR ''.'') s,
     case dropWhile (\<lambda>c. c \<noteq> CHR ''.'') s of [] \<Rightarrow> None | _ # f \<Rightarrow> Some f)"

text \<open>
  \<open>/^(0|[1-9]\\d*)(?:\\.(\\d+))?$/\<close> with its two groups, and the same with \<open>(-?)\<close> in front:
  the first component of the result says whether the sign was matched.
\<close>

definition unsigned_decimal :: "string \<Rightarrow> (string \<times> string option) option" where
  "unsigned_decimal s = (let (i, f) = split_dot s in
     if canonical_int i \<and> fraction_ok f then Some (i, f) else None)"

definition signed_decimal :: "string \<Rightarrow> (bool \<times> string \<times> string option) option" where
  "signed_decimal s =
     (if s \<noteq> [] \<and> hd s = CHR ''-'' then map_option (Pair True) (unsigned_decimal (tl s))
      else map_option (Pair False) (unsigned_decimal s))"

text \<open>\<open>match[k] ?? ''\<close>.\<close>

definition fraction_text :: "string option \<Rightarrow> string" where
  "fraction_text f = (case f of None \<Rightarrow> [] | Some g \<Rightarrow> g)"

lemma fraction_text_simps [simp]: "fraction_text None = []" "fraction_text (Some g) = g"
  by (simp_all add: fraction_text_def)

text \<open>\<open>BigInt(`${integer}${fraction.padEnd(scale, '0')}`)\<close>.\<close>

definition units_of :: "nat \<Rightarrow> string \<Rightarrow> string option \<Rightarrow> nat" where
  "units_of scale i f = nat_of_digits (i @ pad_end scale (fraction_text f))"

text \<open>The rational number a decimal text stands for.\<close>

definition text_value :: "string \<Rightarrow> string option \<Rightarrow> rat" where
  "text_value i f = of_nat (nat_of_digits i)
     + of_nat (nat_of_digits (fraction_text f)) / 10 ^ length (fraction_text f)"

lemma canonical_int_digits: "canonical_int i \<Longrightarrow> list_all is_digit i"
  by (auto simp: canonical_int_def char_class_defs)

lemma canonical_int_nonempty: "canonical_int i \<Longrightarrow> i \<noteq> []"
  by (auto simp: canonical_int_def)

lemma fraction_ok_digits: "fraction_ok f \<Longrightarrow> list_all is_digit (fraction_text f)"
  by (auto simp: fraction_ok_def split: option.splits)

lemma digit_not_dot: "is_digit c \<Longrightarrow> c \<noteq> CHR ''.''"
  by (auto simp: char_class_defs)

lemma digit_not_minus: "is_digit c \<Longrightarrow> c \<noteq> CHR ''-''"
  by (auto simp: char_class_defs)

lemma split_dot_join:
  assumes "list_all is_digit i"
  shows "split_dot (i @ (case f of None \<Rightarrow> [] | Some g \<Rightarrow> CHR ''.'' # g)) = (i, f)"
proof -
  have nodot: "\<forall>c\<in>set i. c \<noteq> CHR ''.''"
    using assms digit_not_dot by (auto simp: list_all_iff)
  show ?thesis
  proof (cases f)
    case None
    with nodot have "takeWhile (\<lambda>c. c \<noteq> CHR ''.'') i = i"
      "dropWhile (\<lambda>c. c \<noteq> CHR ''.'') i = []"
      by (auto simp: takeWhile_eq_all_conv dropWhile_eq_Nil_conv)
    then have "dropWhile (\<lambda>c. c \<noteq> CHR ''.'') i = []" "takeWhile (\<lambda>c. c \<noteq> CHR ''.'') i = i"
      by blast+
    with None show ?thesis by (simp only: split_dot_def option.case append_Nil2 list.case)
  next
    case (Some g)
    have "takeWhile (\<lambda>c. c \<noteq> CHR ''.'') (i @ CHR ''.'' # g) = i"
      "dropWhile (\<lambda>c. c \<noteq> CHR ''.'') (i @ CHR ''.'' # g) = CHR ''.'' # g"
      using nodot by (auto simp: takeWhile_append2 dropWhile_append2)
    with Some show ?thesis by (simp add: split_dot_def)
  qed
qed

lemma split_dot_parts:
  "split_dot s = (i, f) \<Longrightarrow> s = i @ (case f of None \<Rightarrow> [] | Some g \<Rightarrow> CHR ''.'' # g)"
proof -
  assume "split_dot s = (i, f)"
  then have i: "i = takeWhile (\<lambda>c. c \<noteq> CHR ''.'') s"
    and f: "f = (case dropWhile (\<lambda>c. c \<noteq> CHR ''.'') s of [] \<Rightarrow> None | _ # g \<Rightarrow> Some g)"
    by (auto simp: split_dot_def)
  have split: "s = i @ dropWhile (\<lambda>c. c \<noteq> CHR ''.'') s" by (simp add: i)
  show ?thesis
  proof (cases "dropWhile (\<lambda>c. c \<noteq> CHR ''.'') s")
    case Nil
    have "f = None" by (simp only: f Nil list.case)
    with split Nil show ?thesis by (simp only: option.case)
  next
    case (Cons d g)
    have "\<not> d \<noteq> CHR ''.''" by (rule dropWhile_head [OF Cons])
    then have d: "d = CHR ''.''" by blast
    have "f = Some g" by (simp only: f Cons list.case)
    with split Cons d show ?thesis by (simp only: option.case)
  qed
qed

text \<open>What the two patterns accept, exactly.\<close>

lemma unsigned_decimal_iff:
  "unsigned_decimal s = Some (i, f) \<longleftrightarrow>
     s = i @ (case f of None \<Rightarrow> [] | Some g \<Rightarrow> CHR ''.'' # g) \<and> canonical_int i \<and> fraction_ok f"
  by (auto simp: unsigned_decimal_def split_dot_join canonical_int_digits
      dest: split_dot_parts split: prod.splits if_splits)

lemma unsigned_decimal_SomeD:
  "unsigned_decimal s = Some (i, f) \<Longrightarrow>
   canonical_int i \<and> fraction_ok f \<and> list_all is_digit i \<and> i \<noteq> []
   \<and> list_all is_digit (fraction_text f)"
  by (simp add: unsigned_decimal_iff canonical_int_digits canonical_int_nonempty fraction_ok_digits)

lemma unsigned_decimal_no_minus:
  "unsigned_decimal s = Some p \<Longrightarrow> s \<noteq> [] \<and> hd s \<noteq> CHR ''-''"
proof -
  assume s: "unsigned_decimal s = Some p"
  obtain i f where p: "p = (i, f)" by (cases p)
  from s p have i: "canonical_int i" and
    seq: "s = i @ (case f of None \<Rightarrow> [] | Some g \<Rightarrow> CHR ''.'' # g)"
    by (auto simp: unsigned_decimal_iff)
  from i obtain c t where ct: "i = c # t" "is_digit c"
    by (cases i) (auto dest: canonical_int_digits canonical_int_nonempty)
  with seq digit_not_minus show ?thesis by auto
qed

lemma signed_decimal_unsigned: "unsigned_decimal s = Some p \<Longrightarrow> signed_decimal s = Some (False, p)"
  using unsigned_decimal_no_minus [of s p] by (simp add: signed_decimal_def)

lemma signed_decimal_minus:
  "unsigned_decimal s = Some p \<Longrightarrow> signed_decimal (CHR ''-'' # s) = Some (True, p)"
  by (simp add: signed_decimal_def)

lemma signed_decimal_SomeD:
  "signed_decimal s = Some (neg, i, f) \<Longrightarrow>
   unsigned_decimal (if neg then tl s else s) = Some (i, f) \<and> (neg \<longrightarrow> s \<noteq> [] \<and> hd s = CHR ''-'')"
  by (auto simp: signed_decimal_def split: if_splits)

text \<open>\<open>/^-?(?:0|[1-9]\\d*)(?:\\.\\d{1,n})?$/\<close>, and without the sign.\<close>

definition short_decimal :: "bool \<Rightarrow> nat \<Rightarrow> string \<Rightarrow> bool" where
  "short_decimal signed n s = (case (if signed then map_option snd (signed_decimal s) else unsigned_decimal s) of
     None \<Rightarrow> False | Some (i, f) \<Rightarrow> length (fraction_text f) \<le> n)"

section \<open>Printing units\<close>

text \<open>
  \<open>digits = units.toString().padStart(scale + 1, '0')\<close>, then the text with the point before
  the last \<open>scale\<close> digits.
\<close>

definition render_nat :: "nat \<Rightarrow> nat \<Rightarrow> string" where
  "render_nat scale n = (let digits = pad_start (scale + 1) (digits_of n) in
     if scale = 0 then digits
     else drop_last scale digits @ CHR ''.'' # last_chars scale digits)"

definition render_units :: "nat \<Rightarrow> int \<Rightarrow> string" where
  "render_units scale u = (let text = render_nat scale (nat \<bar>u\<bar>) in
     if u < 0 then CHR ''-'' # text else text)"

lemma length_digits_of_le: "0 < n \<Longrightarrow> n < 10 ^ k \<Longrightarrow> length (digits_of n) \<le> k"
proof (rule ccontr)
  assume n: "0 < n" "n < 10 ^ k" and len: "\<not> length (digits_of n) \<le> k"
  have "10 ^ (length (digits_of n) - 1) \<le> n"
    using nat_of_digits_ge [OF digits_of_digits digits_of_nonempty digits_of_no_leading_zero [OF n(1)]]
    by simp
  moreover have "(10 :: nat) ^ k \<le> 10 ^ (length (digits_of n) - 1)"
    using len by (intro power_increasing) auto
  ultimately show False using n(2) by linarith
qed

lemma length_digits_of_ge: "10 ^ k \<le> n \<Longrightarrow> k < length (digits_of n)"
proof (rule ccontr)
  assume n: "10 ^ k \<le> n" and len: "\<not> k < length (digits_of n)"
  have "n < 10 ^ length (digits_of n)"
    using nat_of_digits_bound [OF digits_of_digits, of n] by simp
  also have "\<dots> \<le> 10 ^ k" using len by (intro power_increasing) auto
  finally show False using n by simp
qed

definition padded_digits :: "nat \<Rightarrow> nat \<Rightarrow> string" where
  "padded_digits scale n = pad_start (scale + 1) (digits_of n)"

lemma padded_digits_digits [simp]: "list_all is_digit (padded_digits scale n)"
  using digits_of_digits [of n] by (auto simp: padded_digits_def pad_start_def list_all_iff)

lemma padded_digits_value [simp]: "nat_of_digits (padded_digits scale n) = n"
  by (simp add: padded_digits_def)

lemma padded_digits_length: "scale < length (padded_digits scale n)"
  by (simp add: padded_digits_def)

text \<open>The integer part of the printed text never has a superfluous zero.\<close>

lemma canonical_int_drop_last: "canonical_int (drop_last scale (padded_digits scale n))"
proof (cases "length (digits_of n) \<le> scale")
  case True
  then have "padded_digits scale n
      = CHR ''0'' # replicate (scale - length (digits_of n)) (CHR ''0'') @ digits_of n"
    by (simp add: padded_digits_def pad_start_def Suc_diff_le)
  with True have "drop_last scale (padded_digits scale n) = ''0''"
    by (simp add: drop_last_def)
  then show ?thesis by (simp add: canonical_int_def)
next
  case False
  then have p: "padded_digits scale n = digits_of n"
    by (simp add: padded_digits_def pad_start_def)
  show ?thesis
  proof (cases "n = 0")
    case True
    with False have "scale = 0" by (simp add: digits_of_0)
    with True p show ?thesis by (simp add: drop_last_def digits_of_0 canonical_int_def)
  next
    case n: False
    obtain k where k: "length (digits_of n) - scale = Suc k"
      using False by (metis Suc_diff_Suc not_le)
    have "hd (drop_last scale (digits_of n)) = hd (digits_of n)"
      unfolding drop_last_def k by (cases "digits_of n") simp_all
    moreover have "drop_last scale (digits_of n) \<noteq> []"
      using False by (simp add: drop_last_def)
    moreover have "list_all is_digit (drop_last scale (digits_of n))"
      using digits_of_digits [of n] by (auto simp: drop_last_def list_all_iff dest: in_set_takeD)
    ultimately show ?thesis
      using digits_of_no_leading_zero [of n] n by (simp add: p canonical_int_def)
  qed
qed

lemma unsigned_decimal_render_nat:
  "unsigned_decimal (render_nat scale n) =
     Some (drop_last scale (padded_digits scale n),
           if scale = 0 then None else Some (last_chars scale (padded_digits scale n)))"
proof -
  have last: "list_all is_digit (last_chars scale (padded_digits scale n))"
    using padded_digits_digits [of scale n]
    by (auto simp: last_chars_def list_all_iff dest: in_set_dropD)
  have ne: "scale \<noteq> 0 \<Longrightarrow> last_chars scale (padded_digits scale n) \<noteq> []"
    using padded_digits_length [of scale n] by (simp add: last_chars_def)
  have zero: "drop_last 0 (padded_digits 0 n) = padded_digits 0 n" by (simp add: drop_last_def)
  show ?thesis
    using canonical_int_drop_last [of scale n] last ne zero
    by (auto simp: unsigned_decimal_iff render_nat_def fraction_ok_def Let_def
        simp flip: padded_digits_def [simplified])
qed

lemma units_of_render_nat:
  "units_of scale (drop_last scale (padded_digits scale n))
     (if scale = 0 then None else Some (last_chars scale (padded_digits scale n))) = n"
proof -
  have "drop_last scale (padded_digits scale n) @ last_chars scale (padded_digits scale n)
      = padded_digits scale n"
    by (simp add: drop_last_def last_chars_def)
  moreover have "length (last_chars scale (padded_digits scale n)) = scale"
    using padded_digits_length [of scale n] by (simp add: last_chars_def)
  ultimately show ?thesis
    by (auto simp: units_of_def pad_end_def drop_last_def)
qed

text \<open>Printing what was read: the text comes back with its fraction padded to the scale.\<close>

lemma render_nat_units_of:
  assumes "canonical_int i" "fraction_ok f" "length (fraction_text f) \<le> scale"
  shows "render_nat scale (units_of scale i f)
    = i @ (if scale = 0 then [] else CHR ''.'' # pad_end scale (fraction_text f))"
proof -
  define t where "t = i @ pad_end scale (fraction_text f)"
  define n where "n = units_of scale i f"
  have n: "n = nat_of_digits t" by (simp add: n_def t_def units_of_def)
  have dt: "list_all is_digit t"
    using assms(1) fraction_ok_digits [OF assms(2)]
    by (auto simp: t_def pad_end_def list_all_iff canonical_int_digits [unfolded list_all_iff])
  have lt: "length t = length i + scale" using assms(3) by (simp add: t_def)
  have i: "i \<noteq> []" using assms(1) by (rule canonical_int_nonempty)
  have len: "length (padded_digits scale n) = length t"
  proof (cases "i = ''0''")
    case True
    have "n < 10 ^ scale"
    proof -
      have "list_all is_digit (pad_end scale (fraction_text f))"
        using dt by (simp add: t_def)
      from nat_of_digits_bound [OF this] assms(3) show ?thesis
        by (simp add: n t_def True nat_of_digits_Cons)
    qed
    then have "length (digits_of n) \<le> Suc scale"
      using length_digits_of_le [of n scale] by (cases "n = 0") (auto simp: digits_of_0)
    then show ?thesis by (simp add: padded_digits_def lt True)
  next
    case False
    with assms(1) have "hd t \<noteq> CHR ''0''" by (auto simp: canonical_int_def t_def)
    then have ge: "10 ^ (length t - 1) \<le> n"
      using nat_of_digits_ge [OF dt] i by (simp add: n t_def)
    then have "0 < n" by (metis gr0I not_le zero_less_power zero_less_numeral)
    moreover have "n < 10 ^ length t" using nat_of_digits_bound [OF dt] by (simp add: n)
    ultimately have "length (digits_of n) \<le> length t" by (rule length_digits_of_le)
    moreover have "length t - 1 < length (digits_of n)" using ge by (rule length_digits_of_ge)
    moreover obtain k where "length i = Suc k" using i by (cases i) auto
    ultimately show ?thesis by (simp add: padded_digits_def lt)
  qed
  have "padded_digits scale n = t"
    by (rule nat_of_digits_inj [OF padded_digits_digits dt len]) (simp add: n)
  then have "render_nat scale n = (if scale = 0 then t else drop_last scale t @ CHR ''.'' # last_chars scale t)"
    by (simp add: render_nat_def padded_digits_def Let_def)
  also have "\<dots> = i @ (if scale = 0 then [] else CHR ''.'' # pad_end scale (fraction_text f))"
    using assms(3) by (auto simp: t_def drop_last_def last_chars_def pad_end_def)
  finally show ?thesis by (simp add: n_def)
qed

lemma units_of_value:
  assumes "length (fraction_text f) \<le> scale"
  shows "of_nat (units_of scale i f) = text_value i f * 10 ^ scale"
proof -
  have "(10 :: rat) ^ scale = 10 ^ (scale - length (fraction_text f)) * 10 ^ length (fraction_text f)"
    using assms by (simp flip: power_add)
  then show ?thesis
    using assms by (simp add: units_of_def text_value_def nat_of_digits_append
        nat_of_digits_pad_end algebra_simps)
qed

section \<open>A scaled-integer codec\<close>

text \<open>
  The contract the components rely on when they keep amounts as texts and compute on units:
  what is printed reads back as the same units.  The texts of equal units are then equal, and
  the comparison of two printed texts decides the comparison of the amounts.
\<close>

locale units_codec =
  fixes read :: "string \<Rightarrow> int res"
    and show_units :: "int \<Rightarrow> string"
    and domain :: "int \<Rightarrow> bool"
  assumes read_show: "domain u \<Longrightarrow> read (show_units u) = Inr u"
begin

lemma show_inj: "domain u \<Longrightarrow> domain v \<Longrightarrow> show_units u = show_units v \<longleftrightarrow> u = v"
  using read_show by (metis sum.inject(2))

lemma read_ok: "domain u \<Longrightarrow> ok (read (show_units u))"
  by (simp add: read_show)

end

text \<open>The signed reader shared by the components: match, then scale check, then units.\<close>

definition read_units :: "bool \<Rightarrow> nat \<Rightarrow> js_error \<Rightarrow> js_error \<Rightarrow> string \<Rightarrow> int res" where
  "read_units signed scale bad_text bad_scale s =
     (case (if signed then signed_decimal s else map_option (Pair False) (unsigned_decimal s)) of
        None \<Rightarrow> Inl bad_text
      | Some (neg, i, f) \<Rightarrow>
          if length (fraction_text f) > scale then Inl bad_scale
          else Inr (if neg then - int (units_of scale i f) else int (units_of scale i f)))"

lemma length_last_chars: "length (last_chars n s) = min n (length s)"
  by (simp add: last_chars_def)

lemma read_units_render:
  assumes "signed \<or> 0 \<le> u"
  shows "read_units signed scale e1 e2 (render_units scale u) = Inr u"
proof -
  let ?p = "(drop_last scale (padded_digits scale (nat \<bar>u\<bar>)),
    if scale = 0 then None else Some (last_chars scale (padded_digits scale (nat \<bar>u\<bar>))))"
  have p: "unsigned_decimal (render_nat scale (nat \<bar>u\<bar>)) = Some ?p"
    by (rule unsigned_decimal_render_nat)
  have len: "\<not> length (fraction_text (snd ?p)) > scale"
    by (simp add: length_last_chars)
  show ?thesis
  proof (cases "u < 0")
    case True
    with assms have "signed" by simp
    with True p len units_of_render_nat [of scale "nat \<bar>u\<bar>"] show ?thesis
      by (simp add: read_units_def render_units_def signed_decimal_minus Let_def)
  next
    case False
    with p len units_of_render_nat [of scale "nat \<bar>u\<bar>"] show ?thesis
      by (cases signed) (simp_all add: read_units_def render_units_def signed_decimal_unsigned Let_def)
  qed
qed

interpretation signed_units: units_codec "read_units True scale e1 e2" "render_units scale" "\<lambda>_. True"
  by unfold_locales (simp add: read_units_render)

interpretation unsigned_units: units_codec "read_units False scale e1 e2" "render_units scale" "\<lambda>u. 0 \<le> u"
  by unfold_locales (simp add: read_units_render)

lemma render_units_inj: "render_units scale u = render_units scale v \<longleftrightarrow> u = v"
  by (rule signed_units.show_inj) simp_all

text \<open>The signed value of an accepted text, and what reading it gives.\<close>

definition signed_value :: "bool \<Rightarrow> string \<Rightarrow> string option \<Rightarrow> rat" where
  "signed_value neg i f = (if neg then - text_value i f else text_value i f)"

definition decimal_value :: "string \<Rightarrow> rat option" where
  "decimal_value s = map_option (\<lambda>(neg, i, f). signed_value neg i f) (signed_decimal s)"

lemma read_units_value:
  assumes "read_units signed scale e1 e2 s = Inr u"
  shows "\<exists>q. decimal_value s = Some q \<and> of_int u = q * 10 ^ scale"
proof -
  obtain neg i f where m: "signed_decimal s = Some (neg, i, f)"
    and len: "length (fraction_text f) \<le> scale"
    and u: "u = (if neg then - int (units_of scale i f) else int (units_of scale i f))"
    using assms by (fastforce simp: read_units_def signed_decimal_unsigned
        split: if_splits option.splits)
  have "of_int u = signed_value neg i f * 10 ^ scale"
    using units_of_value [OF len, of i] by (simp add: u signed_value_def)
  with m show ?thesis by (simp add: decimal_value_def)
qed

lemma read_units_nonneg: "read_units False scale e1 e2 s = Inr u \<Longrightarrow> 0 \<le> u"
  by (auto simp: read_units_def split: option.splits if_splits)

text \<open>Amounts in units of the same scale compare and add as their units do.\<close>

lemma scaled_compare:
  "of_int a / 10 ^ k \<le> (of_int b / 10 ^ k :: rat) \<longleftrightarrow> a \<le> b"
  "of_int a / 10 ^ k < (of_int b / 10 ^ k :: rat) \<longleftrightarrow> a < b"
  "of_int a / 10 ^ k = (of_int b / 10 ^ k :: rat) \<longleftrightarrow> a = b"
  by (simp_all add: divide_le_cancel divide_less_cancel)

lemma scaled_sign:
  "0 \<le> (of_int a / 10 ^ k :: rat) \<longleftrightarrow> 0 \<le> a" "(of_int a / 10 ^ k :: rat) < 0 \<longleftrightarrow> a < 0"
  "0 < (of_int a / 10 ^ k :: rat) \<longleftrightarrow> 0 < a"
  using scaled_compare(1) [of 0 k a] scaled_compare(2) [of a k 0] scaled_compare(2) [of 0 k a]
  by (simp_all only: of_int_0 div_0)

lemma scaled_arith:
  "of_int a / 10 ^ k + of_int b / 10 ^ k = (of_int (a + b) / 10 ^ k :: rat)"
  "of_int a / 10 ^ k - of_int b / 10 ^ k = (of_int (a - b) / 10 ^ k :: rat)"
  "\<bar>of_int a / 10 ^ k\<bar> = (of_int \<bar>a\<bar> / 10 ^ k :: rat)"
  by (simp_all add: add_divide_distrib diff_divide_distrib)

text \<open>Evaluation of the readers and printers on literal texts.\<close>

lemmas text_eval = digits_eval char_class_defs signed_decimal_def unsigned_decimal_def split_dot_def
  canonical_int_def fraction_ok_def fraction_text_def units_of_def render_nat_def render_units_def
  decimal_value_def signed_value_def text_value_def Let_def

end
