(* ===== verification/Money.thy ===== *)
theory Money
  imports Decimal_Text
begin

text \<open>
  \<open>src/shared-kernel/money.ts\<close>: an amount is a signed number of minor units with a currency
  and a scale.  The class \<open>Money\<close> is the record \<open>money\<close>, each of its methods a definition;
  the lemmas give the exact rational arithmetic behind the texts and the round trip between
  an amount and its decimal text.
\<close>

section \<open>The class\<close>

record money =
  money_currency :: string
  money_units :: int
  money_scale :: nat

definition bad_currency :: js_error where
  "bad_currency = TypeError ''Money currency must be ISO 4217 uppercase''"

definition bad_money_scale :: js_error where
  "bad_money_scale = RangeError ''Money scale must be between 0 and 12''"

definition exceeds_money_scale :: "nat \<Rightarrow> js_error" where
  "exceeds_money_scale scale = RangeError (''Money amount exceeds scale '' @ digits_of scale)"

definition money_parse :: "string \<Rightarrow> string \<Rightarrow> jsnum \<Rightarrow> money res" where
  "money_parse amount currency scale =
     (if \<not> is_currency_code currency then Inl bad_currency
      else case int_between 0 12 scale of
        None \<Rightarrow> Inl bad_money_scale
      | Some k \<Rightarrow>
          (case signed_decimal amount of
             None \<Rightarrow> Inl (TypeError ''Money amount must be a canonical decimal string'')
           | Some (neg, i, f) \<Rightarrow>
               if length (fraction_text f) > k then Inl (exceeds_money_scale k)
               else (let units = int (units_of k i f) in
                 Inr \<lparr>money_currency = currency, money_units = (if neg then - units else units),
                      money_scale = k\<rparr>)))"

definition from_minor_units :: "int \<Rightarrow> string \<Rightarrow> jsnum \<Rightarrow> money res" where
  "from_minor_units units currency scale =
     (if \<not> is_currency_code currency then Inl bad_currency
      else case int_between 0 12 scale of
        None \<Rightarrow> Inl bad_money_scale
      | Some k \<Rightarrow> Inr \<lparr>money_currency = currency, money_units = units, money_scale = k\<rparr>)"

definition to_minor_units :: "money \<Rightarrow> int" where
  "to_minor_units m = money_units m"

definition assert_compatible :: "money \<Rightarrow> money \<Rightarrow> unit res" where
  "assert_compatible m n =
     (if money_currency m \<noteq> money_currency n \<or> money_scale m \<noteq> money_scale n
      then Inl (TypeError ''Money operations require identical currency and scale'') else Inr ())"

definition money_add :: "money \<Rightarrow> money \<Rightarrow> money res" where
  "money_add m n = and_then (assert_compatible m n)
     (\<lambda>_. Inr (m\<lparr>money_units := money_units m + money_units n\<rparr>))"

definition money_subtract :: "money \<Rightarrow> money \<Rightarrow> money res" where
  "money_subtract m n = and_then (assert_compatible m n)
     (\<lambda>_. Inr (m\<lparr>money_units := money_units m - money_units n\<rparr>))"

definition money_compare :: "money \<Rightarrow> money \<Rightarrow> int res" where
  "money_compare m n = and_then (assert_compatible m n)
     (\<lambda>_. Inr (if money_units m < money_units n then - 1
       else if money_units m > money_units n then 1 else 0))"

definition to_decimal_string :: "money \<Rightarrow> string" where
  "to_decimal_string m = (let negative = money_units m < 0;
     digits = pad_start (money_scale m + 1) (digits_of (nat (if negative then - money_units m else money_units m)));
     value = (if money_scale m = 0 then digits
       else drop_last (money_scale m) digits @ CHR ''.'' # last_chars (money_scale m) digits) in
     if negative \<and> money_units m \<noteq> 0 then CHR ''-'' # value else value)"

section \<open>Well-formed amounts\<close>

definition wf_money :: "money \<Rightarrow> bool" where
  "wf_money m \<longleftrightarrow> is_currency_code (money_currency m) \<and> money_scale m \<le> 12"

definition money_value :: "money \<Rightarrow> rat" where
  "money_value m = of_int (money_units m) / 10 ^ money_scale m"

lemma to_decimal_string_render: "to_decimal_string m = render_units (money_scale m) (money_units m)"
  by (simp add: to_decimal_string_def render_units_def render_nat_def Let_def)

lemma money_parse_eq:
  "money_parse amount currency scale =
     (if \<not> is_currency_code currency then Inl bad_currency
      else case int_between 0 12 scale of None \<Rightarrow> Inl bad_money_scale
      | Some k \<Rightarrow> and_then (read_units True k
            (TypeError ''Money amount must be a canonical decimal string'') (exceeds_money_scale k) amount)
          (\<lambda>u. Inr \<lparr>money_currency = currency, money_units = u, money_scale = k\<rparr>))"
  by (auto simp: money_parse_def read_units_def Let_def split: option.splits)

lemma money_parse_SomeD:
  assumes "money_parse amount currency scale = Inr m"
  shows "wf_money m \<and> money_currency m = currency \<and> scale = of_js (int (money_scale m))
    \<and> decimal_value amount = Some (money_value m)"
proof -
  obtain k where k: "int_between 0 12 scale = Some k" and c: "is_currency_code currency"
    and r: "read_units True k (TypeError ''Money amount must be a canonical decimal string'')
        (exceeds_money_scale k) amount = Inr (money_units m)"
    and m: "money_currency m = currency" "money_scale m = k"
    using assms by (auto simp: money_parse_eq outcome split: option.splits)
  from read_units_value [OF r] obtain q where q: "decimal_value amount = Some q"
    "of_int (money_units m) = q * 10 ^ k" by blast
  have "scale = of_js (int k)"
    using k by (auto simp: int_between_def dest!: js_int_SomeD split: option.splits if_splits)
  moreover have "k \<le> 12" using int_between_SomeD [OF k] by simp
  ultimately show ?thesis using c m q by (simp add: wf_money_def money_value_def)
qed

lemma from_minor_units_wf:
  "from_minor_units u currency scale = Inr m \<Longrightarrow> wf_money m \<and> money_units m = u"
  by (auto simp: from_minor_units_def wf_money_def outcome split: option.splits
      dest: int_between_SomeD)

lemma from_minor_units_same [simp]:
  "wf_money m \<Longrightarrow> from_minor_units u (money_currency m) (of_js (int (money_scale m))) =
     Inr (m\<lparr>money_units := u\<rparr>)"
  by (simp add: from_minor_units_def wf_money_def)

lemma money_units_update_wf [simp]: "wf_money (m\<lparr>money_units := u\<rparr>) = wf_money m"
  by (simp add: wf_money_def)

lemma money_add_wf: "money_add m n = Inr r \<Longrightarrow> wf_money m \<Longrightarrow> wf_money r"
  by (auto simp: money_add_def outcome)

section \<open>Properties\<close>

lemma money_print_parse:
  "wf_money m \<Longrightarrow>
   money_parse (to_decimal_string m) (money_currency m) (of_js (int (money_scale m))) = Inr m"
  by (simp add: money_parse_eq to_decimal_string_render signed_units.read_show wf_money_def)

lemma to_decimal_string_inj:
  "wf_money m \<Longrightarrow> wf_money n \<Longrightarrow> money_currency m = money_currency n \<Longrightarrow>
   money_scale m = money_scale n \<Longrightarrow> to_decimal_string m = to_decimal_string n \<longleftrightarrow> m = n"
  by (auto simp: to_decimal_string_render render_units_inj)

lemma to_decimal_string_value: "decimal_value (to_decimal_string m) = Some (money_value m)"
proof -
  have "read_units True (money_scale m) bad_currency bad_currency (to_decimal_string m)
      = Inr (money_units m)"
    by (simp add: to_decimal_string_render signed_units.read_show)
  from read_units_value [OF this] show ?thesis by (auto simp: money_value_def)
qed

lemma money_add_value:
  "money_add m n = Inr r \<Longrightarrow> money_value r = money_value m + money_value n"
  by (auto simp: money_add_def assert_compatible_def money_value_def outcome add_divide_distrib)

lemma money_subtract_value:
  "money_subtract m n = Inr r \<Longrightarrow> money_value r = money_value m - money_value n"
  by (auto simp: money_subtract_def assert_compatible_def money_value_def outcome diff_divide_distrib)

lemma money_compare_value:
  "money_compare m n = Inr c \<Longrightarrow>
   (c = - 1 \<longleftrightarrow> money_value m < money_value n) \<and> (c = 0 \<longleftrightarrow> money_value m = money_value n)
   \<and> (c = 1 \<longleftrightarrow> money_value m > money_value n)"
  by (auto simp: money_compare_def assert_compatible_def money_value_def outcome divide_less_cancel
      split: if_splits)

lemma money_add_total:
  "money_currency m = money_currency n \<Longrightarrow> money_scale m = money_scale n \<Longrightarrow> ok (money_add m n)"
  by (simp add: money_add_def assert_compatible_def)

lemma money_subtract_add:
  "money_add m n = Inr r \<Longrightarrow> money_subtract r n = Inr m"
  by (auto simp: money_add_def money_subtract_def assert_compatible_def outcome)

text \<open>
  Amounts of one currency and scale, as every computation of the program parses them: adding,
  subtracting and comparing them never throws.
\<close>

definition amount_in :: "string \<Rightarrow> jsnum \<Rightarrow> money \<Rightarrow> bool" where
  "amount_in currency scale m \<longleftrightarrow> wf_money m \<and> money_currency m = currency \<and> scale = of_js (int (money_scale m))"

lemma amount_in_parse: "money_parse amount currency scale = Inr m \<Longrightarrow> amount_in currency scale m"
  using money_parse_SomeD by (simp add: amount_in_def)

lemma amount_in_parse_value:
  "money_parse amount currency scale = Inr m \<Longrightarrow> decimal_value amount = Some (money_value m)"
  using money_parse_SomeD by blast

lemma amount_in_update [simp]: "amount_in c k (m\<lparr>money_units := u\<rparr>) = amount_in c k m"
  by (simp add: amount_in_def wf_money_def)

lemma amount_in_compatible:
  "amount_in c k m \<Longrightarrow> amount_in c k n \<Longrightarrow> assert_compatible m n = Inr ()"
  by (auto simp: amount_in_def assert_compatible_def)

lemma amount_in_add:
  "amount_in c k m \<Longrightarrow> amount_in c k n \<Longrightarrow> money_add m n = Inr (m\<lparr>money_units := money_units m + money_units n\<rparr>)"
  by (simp add: money_add_def amount_in_compatible)

lemma amount_in_subtract:
  "amount_in c k m \<Longrightarrow> amount_in c k n \<Longrightarrow> money_subtract m n = Inr (m\<lparr>money_units := money_units m - money_units n\<rparr>)"
  by (simp add: money_subtract_def amount_in_compatible)

lemma amount_in_compare:
  "amount_in c k m \<Longrightarrow> amount_in c k n \<Longrightarrow> money_compare m n = Inr (if money_units m < money_units n then - 1
     else if money_units m > money_units n then 1 else 0)"
  by (simp add: money_compare_def amount_in_compatible)

lemma amount_in_scale_eq: "amount_in c k m \<Longrightarrow> amount_in c k n \<Longrightarrow> money_scale m = money_scale n"
  by (auto simp: amount_in_def)

lemma amount_in_value_less:
  "amount_in c k m \<Longrightarrow> amount_in c k n \<Longrightarrow> money_value m < money_value n \<longleftrightarrow> money_units m < money_units n"
  "amount_in c k m \<Longrightarrow> amount_in c k n \<Longrightarrow> money_value m = money_value n \<longleftrightarrow> money_units m = money_units n"
  using amount_in_scale_eq [of c k m n] by (simp_all add: money_value_def divide_less_cancel)

lemma amount_in_from_units:
  "amount_in c k m \<Longrightarrow> from_minor_units u c k = Inr (m\<lparr>money_units := u\<rparr>)"
  using from_minor_units_same [of m u] by (auto simp: amount_in_def)

text \<open>Zero parses in every currency and scale in which some amount does.\<close>

lemma money_parse_zero:
  assumes "amount_in c k m"
  shows "money_parse ''0'' c k = Inr (m\<lparr>money_units := 0\<rparr>)"
proof -
  have "signed_decimal ''0'' = Some (False, ''0'', None)" by (simp add: text_eval)
  moreover have "units_of n ''0'' None = 0" for n
    by (simp add: units_of_def nat_of_digits_append nat_of_digits_Cons pad_end_def)
  ultimately show ?thesis
    using assms by (auto simp: money_parse_def amount_in_def wf_money_def Let_def)
qed

lemmas amount_ops = amount_in_add amount_in_subtract amount_in_compare amount_in_from_units money_parse_zero

text \<open>
  C1. An amount survives the trip through its text: for an amount with a valid currency and
  a scale of at most 12, parsing what \<open>toDecimalString\<close> prints, with the same currency and
  scale, gives the same amount back; and whatever text \<open>C1. Money.parse\<close> accepts denotes exactly
  the rational number of the amount it returns, with the requested currency and scale.
\<close>

theorem money_round_trip:
  "(wf_money m \<longrightarrow>
      money_parse (to_decimal_string m) (money_currency m) (of_js (int (money_scale m))) = Inr m)
   \<and> (money_parse amount currency scale = Inr n \<longrightarrow>
        wf_money n \<and> money_currency n = currency \<and> scale = of_js (int (money_scale n))
        \<and> decimal_value amount = Some (money_value n)
        \<and> decimal_value (to_decimal_string n) = decimal_value amount)"
  using money_print_parse money_parse_SomeD to_decimal_string_value by metis

theorem money_round_trip_witness:
  "money_parse ''-12.34'' ''DZD'' (of_js 2) =
     Inr \<lparr>money_currency = ''DZD'', money_units = - 1234, money_scale = 2\<rparr>
   \<and> decimal_value ''-12.34'' = Some (- 1234 / 100)
   \<and> money_parse (to_decimal_string \<lparr>money_currency = ''DZD'', money_units = - 1234, money_scale = 2\<rparr>)
        ''DZD'' (of_js 2) = Inr \<lparr>money_currency = ''DZD'', money_units = - 1234, money_scale = 2\<rparr>"
proof -
  have p: "money_parse ''-12.34'' ''DZD'' (of_js 2) =
     Inr \<lparr>money_currency = ''DZD'', money_units = - 1234, money_scale = 2\<rparr>"
    by (simp add: money_parse_def) code_simp
  have w: "wf_money \<lparr>money_currency = ''DZD'', money_units = - 1234, money_scale = 2\<rparr>"
    by code_simp
  from money_round_trip [of "\<lparr>money_currency = ''DZD'', money_units = - 1234, money_scale = 2\<rparr>"
      "''-12.34''" "''DZD''" "of_js 2" "\<lparr>money_currency = ''DZD'', money_units = - 1234, money_scale = 2\<rparr>"]
  show ?thesis using p w by (simp add: money_value_def)
qed

end
