(* ===== verification/Largest_Remainder.thy ===== *)
theory Largest_Remainder
  imports Pms_Prelude
begin

text \<open>
  The residual loop that two files of the program share: quotas rounded down, and the units
  left over handed out one by one in the order of a priority list.  In the source the priority
  list holds the same objects as the list of shares, so the increments are seen there; the
  model keeps the indices of the shares in priority order and updates the shares by index.
\<close>

section \<open>The loop\<close>

record 'r alloc_share =
  share_id :: string
  share_units :: int
  share_remainder :: 'r

definition bump :: "'r alloc_share \<Rightarrow> 'r alloc_share" where
  "bump s = s\<lparr>share_units := share_units s + 1\<rparr>"

lemma bump_simps [simp]:
  "share_id (bump s) = share_id s" "share_units (bump s) = share_units s + 1"
  "share_remainder (bump s) = share_remainder s"
  by (simp_all add: bump_def)

text \<open>
  \<open>for (index = 0; residual > 0n; index += 1, residual -= 1n)\<close>
  \<open>priority[index % priority.length].units += 1n\<close>, with the residual as the fuel.
\<close>

fun hand_out :: "nat list \<Rightarrow> nat \<Rightarrow> nat \<Rightarrow> 'r alloc_share list \<Rightarrow> 'r alloc_share list" where
  "hand_out priority index 0 shares = shares"
| "hand_out priority index (Suc residual) shares =
     (let i = priority ! (index mod length priority) in
      hand_out priority (Suc index) residual (shares[i := bump (shares ! i)]))"

lemma hand_out_step:
  "0 < r \<Longrightarrow> hand_out p k r xs = (let i = p ! (k mod length p) in hand_out p (Suc k) (r - 1) (xs[i := bump (xs ! i)]))"
  by (cases r) auto

definition priority_of :: "('r alloc_share \<Rightarrow> 'r alloc_share \<Rightarrow> int) \<Rightarrow> 'r alloc_share list \<Rightarrow> nat list" where
  "priority_of cmp shares = sort_by (\<lambda>i j. cmp (shares ! i) (shares ! j)) [0..<length shares]"

definition settle :: "('r alloc_share \<Rightarrow> 'r alloc_share \<Rightarrow> int) \<Rightarrow> int \<Rightarrow> 'r alloc_share list \<Rightarrow> 'r alloc_share list" where
  "settle cmp amount shares =
     hand_out (priority_of cmp shares) 0 (nat (amount - sum_list (map share_units shares))) shares"

section \<open>What the loop does\<close>

lemma sum_units_update:
  "i < length xs \<Longrightarrow> sum_list (map share_units (xs[i := bump (xs ! i)])) = sum_list (map share_units xs) + 1"
proof (induction xs arbitrary: i)
  case (Cons x xs)
  then show ?case by (cases i) auto
qed simp

lemma map_id_update: "map share_id (xs[i := bump (xs ! i)]) = map share_id xs"
  by (cases "i < length xs") (simp_all add: map_update list_update_same_conv list_update_beyond)

lemma hand_out_ids [simp]: "map share_id (hand_out p k r xs) = map share_id xs"
  by (induction p k r xs rule: hand_out.induct) (auto simp: map_id_update Let_def)

lemma hand_out_length [simp]: "length (hand_out p k r xs) = length xs"
  by (rule map_eq_imp_length_eq [OF hand_out_ids])

lemma hand_out_sum:
  "p \<noteq> [] \<Longrightarrow> set p \<subseteq> {..<length xs} \<Longrightarrow>
   sum_list (map share_units (hand_out p k r xs)) = sum_list (map share_units xs) + int r"
proof (induction p k r xs rule: hand_out.induct)
  case (2 p k r xs)
  have "p ! (k mod length p) \<in> set p" using "2.prems" by simp
  then have i: "p ! (k mod length p) < length xs" using "2.prems" by blast
  show ?case using "2.IH" [OF refl] "2.prems" by (simp add: Let_def sum_units_update [OF i])
qed simp

text \<open>As long as the priority list is not exhausted, its first entries get one unit each.\<close>

lemma hand_out_nth:
  assumes "distinct p" "set p \<subseteq> {..<length xs}" "k + r \<le> length p" "i < length xs"
  shows "hand_out p k r xs ! i = (if i \<in> set (take r (drop k p)) then bump (xs ! i) else xs ! i)"
  using assms
proof (induction p k r xs rule: hand_out.induct)
  case (2 p k r xs)
  let ?j = "p ! k"
  have k: "k < length p" using "2.prems" by simp
  have j: "?j < length xs" using "2.prems"(2) nth_mem [OF k] by blast
  have notin: "?j \<notin> set (take r (drop (Suc k) p))"
  proof
    assume "?j \<in> set (take r (drop (Suc k) p))"
    then have "?j \<in> set (drop (Suc k) p)" by (rule in_set_takeD)
    moreover have "drop k p = ?j # drop (Suc k) p" using k by (simp add: Cons_nth_drop_Suc)
    ultimately show False using distinct_drop [OF "2.prems"(1), of k] by simp
  qed
  have split: "take (Suc r) (drop k p) = ?j # take r (drop (Suc k) p)"
    using k by (simp add: Cons_nth_drop_Suc [symmetric])
  have IH: "hand_out p (Suc k) r (xs[?j := bump (xs ! ?j)]) ! i
      = (if i \<in> set (take r (drop (Suc k) p)) then bump (xs[?j := bump (xs ! ?j)] ! i)
         else xs[?j := bump (xs ! ?j)] ! i)"
    using "2.IH" [of ?j] "2.prems" k by simp
  show ?case using IH k j notin split by (auto simp: Let_def nth_list_update)
qed simp

lemma priority_of_set [simp]: "set (priority_of cmp shares) = {..<length shares}"
  by (auto simp: priority_of_def)

lemma priority_of_distinct [simp]: "distinct (priority_of cmp shares)"
  by (simp add: priority_of_def)

lemma priority_of_length [simp]: "length (priority_of cmp shares) = length shares"
  by (simp add: priority_of_def)

text \<open>In a list sorted by a strict comparator, an element's place is the number of those before it.\<close>

definition strict_comparator :: "('a \<Rightarrow> 'a \<Rightarrow> int) \<Rightarrow> 'a set \<Rightarrow> bool" where
  "strict_comparator cmp A \<longleftrightarrow>
     (\<forall>x\<in>A. \<forall>y\<in>A. (cmp x y < 0 \<longleftrightarrow> cmp y x > 0) \<and> (cmp x y = 0 \<longleftrightarrow> x = y))
     \<and> (\<forall>x\<in>A. \<forall>y\<in>A. \<forall>z\<in>A. cmp x y < 0 \<longrightarrow> cmp y z < 0 \<longrightarrow> cmp x z < 0)"

lemma strict_comparatorD:
  assumes "strict_comparator cmp A" "x \<in> A" "y \<in> A"
  shows "cmp x y < 0 \<longleftrightarrow> cmp y x > 0" "cmp x y = 0 \<longleftrightarrow> x = y"
    "z \<in> A \<Longrightarrow> cmp x y < 0 \<Longrightarrow> cmp y z < 0 \<Longrightarrow> cmp x z < 0"
  using assms unfolding strict_comparator_def by blast+

lemma sorted_insert_by_on:
  assumes "strict_comparator cmp A" "x \<in> A" "set ys \<subseteq> A" "x \<notin> set ys"
    "sorted_wrt (\<lambda>a b. cmp a b < 0) ys"
  shows "sorted_wrt (\<lambda>a b. cmp a b < 0) (insert_by cmp x ys)"
  using assms(3-5)
proof (induction ys)
  case (Cons y ys)
  have y: "y \<in> A" and ne: "x \<noteq> y" using Cons.prems by auto
  note D = strict_comparatorD [OF assms(1)]
  show ?case
  proof (cases "cmp x y \<le> 0")
    case True
    then have less: "cmp x y < 0" using D(2) [OF assms(2) y] ne by linarith
    have "\<forall>z\<in>set ys. cmp x z < 0"
    proof
      fix z assume z: "z \<in> set ys"
      then have "cmp y z < 0" using Cons.prems(3) by simp
      moreover have "z \<in> A" using z Cons.prems(1) by auto
      ultimately show "cmp x z < 0" using D(3) [OF assms(2) y] less by blast
    qed
    with True less Cons.prems show ?thesis by simp
  next
    case False
    then have "cmp y x < 0" using D(1) [OF y assms(2)] by simp
    with False Cons show ?thesis by auto
  qed
qed simp

lemma sorted_sort_by_on:
  "strict_comparator cmp A \<Longrightarrow> set xs \<subseteq> A \<Longrightarrow> distinct xs \<Longrightarrow> sorted_wrt (\<lambda>a b. cmp a b < 0) (sort_by cmp xs)"
  by (induction xs) (auto intro!: sorted_insert_by_on)

lemma take_sorted_iff:
  assumes "strict_comparator cmp A" "set ys \<subseteq> A" "sorted_wrt (\<lambda>a b. cmp a b < 0) ys" "x \<in> set ys"
  shows "x \<in> set (take r ys) \<longleftrightarrow> card {y \<in> set ys. cmp y x < 0} < r"
proof -
  note D = strict_comparatorD [OF assms(1)]
  obtain k where k: "k < length ys" "ys ! k = x" using assms(4) by (auto simp: in_set_conv_nth)
  have less: "cmp (ys ! i) (ys ! j) < 0" if "i < j" "j < length ys" for i j
    using sorted_wrt_nth_less [OF assms(3) that] .
  have dist: "distinct ys"
  proof (rule ccontr)
    assume "\<not> distinct ys"
    then obtain i j where "i < j" "j < length ys" "ys ! i = ys ! j"
      by (metis distinct_conv_nth nat_neq_iff)
    with less [of i j] D(2) [of "ys ! i" "ys ! i"] assms(2) show False by (auto simp: subset_iff)
  qed
  have "{y \<in> set ys. cmp y x < 0} = set (take k ys)"
  proof (intro equalityI subsetI)
    fix y assume y: "y \<in> {y \<in> set ys. cmp y x < 0}"
    then obtain i where i: "i < length ys" "ys ! i = y" by (auto simp: in_set_conv_nth)
    have "i < k"
    proof (rule ccontr)
      assume "\<not> i < k"
      then consider "i = k" | "k < i" by linarith
      then show False
      proof cases
        case 1
        with y i k D(2) [of x x] assms(2,4) show False by auto
      next
        case 2
        with less [of k i] i k have "cmp x y < 0" by simp
        moreover have "x \<in> A" "y \<in> A" using y assms(2,4) by auto
        ultimately show False using y D(1) [of x y] by auto
      qed
    qed
    with i show "y \<in> set (take k ys)" by (auto simp: in_set_conv_nth)
  next
    fix y assume "y \<in> set (take k ys)"
    then obtain i where "i < k" "ys ! i = y" using k by (auto simp: in_set_conv_nth)
    with less [of i k] k show "y \<in> {y \<in> set ys. cmp y x < 0}" by auto
  qed
  moreover have "card (set (take k ys)) = k"
    using k dist by (simp add: distinct_card)
  moreover have "x \<in> set (take r ys) \<longleftrightarrow> k < r"
  proof
    assume "x \<in> set (take r ys)"
    then obtain i where "i < r" "i < length ys" "ys ! i = x" by (auto simp: in_set_conv_nth)
    with k dist show "k < r" by (metis nth_eq_iff_index_eq)
  next
    assume "k < r"
    with k show "x \<in> set (take r ys)" by (auto simp: in_set_conv_nth intro!: exI [of _ k])
  qed
  ultimately show ?thesis by simp
qed

text \<open>A strict order of strings, by code units; it stands in for \<open>localeCompare\<close> in examples.\<close>

definition code_unit_order :: "string \<Rightarrow> string \<Rightarrow> int" where
  "code_unit_order a b = (if a = b then 0 else if str_less a b then - 1 else 1)"

lemma code_unit_order_strict: "strict_comparator code_unit_order A"
proof -
  have "code_unit_order x y < 0 \<longleftrightarrow> str_less x y" for x y
    by (auto simp: code_unit_order_def)
  moreover have "code_unit_order x y > 0 \<longleftrightarrow> str_less y x" for x y
    using str_less_linear [of x y] str_less_asym [of x y] by (auto simp: code_unit_order_def)
  moreover have "code_unit_order x y = 0 \<longleftrightarrow> x = y" for x y
    by (simp add: code_unit_order_def)
  ultimately show ?thesis unfolding strict_comparator_def using str_less_trans by simp
qed

section \<open>The contract of a largest-remainder allocator\<close>

text \<open>
  A client gives the quotas (which may fail, in the decimal variant) and the order of priority.
  The laws below hold for every such pair: nobody loses the quota, the total is met whenever
  the quotas do not exceed it, and the surplus goes to the front of the priority list.
\<close>

locale largest_remainder =
  fixes quota :: "int \<Rightarrow> 'w list \<Rightarrow> 'r alloc_share list res"
    and before :: "'r alloc_share \<Rightarrow> 'r alloc_share \<Rightarrow> int"
    and key :: "'w \<Rightarrow> string"
  assumes quota_ids: "quota amount ws = Inr shares \<Longrightarrow> map share_id shares = map key ws"
begin

lemma settled_ids:
  "quota amount ws = Inr shares \<Longrightarrow> map share_id (settle before amount shares) = map key ws"
  using quota_ids by (simp add: settle_def)

lemma settled_sum:
  assumes "quota amount ws = Inr shares" "ws \<noteq> []" "sum_list (map share_units shares) \<le> amount"
  shows "sum_list (map share_units (settle before amount shares)) = amount"
proof -
  have "length shares = length ws" using quota_ids [OF assms(1)] by (metis length_map)
  then have "priority_of before shares \<noteq> []"
    using assms(2) by (metis length_0_conv priority_of_length)
  then show ?thesis using assms(3) by (simp add: settle_def hand_out_sum)
qed

lemma settled_over:
  "amount \<le> sum_list (map share_units shares) \<Longrightarrow> settle before amount shares = shares"
  by (simp add: settle_def)

lemma settled_nth:
  assumes "quota amount ws = Inr shares" "i < length ws"
    "amount - sum_list (map share_units shares) \<le> int (length ws)"
  shows "share_units (settle before amount shares ! i) = share_units (shares ! i)
    + (if i \<in> set (take (nat (amount - sum_list (map share_units shares))) (priority_of before shares))
       then 1 else 0)"
proof -
  have len: "length shares = length ws" using quota_ids [OF assms(1)] by (metis length_map)
  with assms(2,3) show ?thesis by (simp add: settle_def hand_out_nth)
qed

text \<open>With a strict order of priority the winners do not depend on the order of the entries.\<close>

lemma settled_winners:
  assumes "quota amount ws = Inr shares" "i < length ws"
    "amount - sum_list (map share_units shares) \<le> int (length ws)"
    "strict_comparator (\<lambda>i j. before (shares ! i) (shares ! j)) {..<length ws}"
  shows "share_units (settle before amount shares ! i) = share_units (shares ! i)
    + (if card {j. j < length ws \<and> before (shares ! j) (shares ! i) < 0}
          < nat (amount - sum_list (map share_units shares)) then 1 else 0)"
proof -
  let ?cmp = "\<lambda>i j. before (shares ! i) (shares ! j)"
  let ?p = "priority_of before shares"
  have len: "length shares = length ws" using quota_ids [OF assms(1)] by (metis length_map)
  have "sorted_wrt (\<lambda>i j. ?cmp i j < 0) ?p"
    unfolding priority_of_def using assms(4) by (rule sorted_sort_by_on) (auto simp: len)
  with assms(2,4) have "i \<in> set (take r ?p) \<longleftrightarrow> card {j \<in> set ?p. ?cmp j i < 0} < r" for r
    by (intro take_sorted_iff) (auto simp: len)
  then show ?thesis using settled_nth [OF assms(1-3)] by (simp add: len lessThan_def)
qed

end

end
