(* ===== verification/Allocation.thy ===== *)
theory Allocation
  imports Money Largest_Remainder "HOL-Library.Multiset"
begin

text \<open>
  \<open>src/modules/profit-calculation/domain/proportional-allocation.ts\<close>: an amount is divided
  among weighted participants in whole minor units; the units lost to rounding go to the
  largest remainders, ties by \<open>localeCompare\<close> of the participants.  \<open>localeCompare\<close> depends
  on the locale data of the platform and is a parameter.
\<close>

section \<open>The function\<close>

record allocation_weight =
  aw_participant :: string
  aw_weight :: string

record allocation_result =
  ar_participant :: string
  ar_amount :: string
  ar_currency :: string

definition weight_scale :: nat where
  "weight_scale = 12"

definition weight_to_units :: "string \<Rightarrow> nat \<Rightarrow> int res" where
  "weight_to_units value scale =
     (case signed_decimal value of
        None \<Rightarrow> Inl (TypeError ''Allocation weight must be a canonical decimal string'')
      | Some (neg, i, f) \<Rightarrow>
          if length (fraction_text f) > scale
          then Inl (RangeError (''Allocation weight exceeds scale '' @ digits_of scale))
          else (let units = int (units_of scale i f) in Inr (if neg then - units else units)))"

text \<open>The callback of \<open>weights.map\<close>, with the set \<open>seen\<close> it updates.\<close>

fun normalize_weights :: "string set \<Rightarrow> allocation_weight list \<Rightarrow> (string \<times> int) list res" where
  "normalize_weights seen [] = Inr []"
| "normalize_weights seen (entry # rest) =
     (if aw_participant entry = [] \<or> aw_participant entry \<in> seen
      then Inl (TypeError (''Duplicate or empty participant: '' @ aw_participant entry))
      else and_then (weight_to_units (aw_weight entry) weight_scale) (\<lambda>weight.
        if weight < 0 then Inl (RangeError ''Allocation weight cannot be negative'')
        else and_then (normalize_weights (insert (aw_participant entry) seen) rest)
          (\<lambda>ns. Inr ((aw_participant entry, weight) # ns))))"

definition proportional_shares :: "int \<Rightarrow> (string \<times> int) list \<Rightarrow> int alloc_share list" where
  "proportional_shares amount normalized =
     (let total_weight = sum_list (map snd normalized) in
      map (\<lambda>(participant, weight). \<lparr>share_id = participant,
             share_units = amount * weight div total_weight,
             share_remainder = amount * weight mod total_weight\<rparr>) normalized)"

definition remainder_priority :: "(string \<Rightarrow> string \<Rightarrow> int) \<Rightarrow> int alloc_share \<Rightarrow> int alloc_share \<Rightarrow> int" where
  "remainder_priority lc left right =
     (if share_remainder left = share_remainder right then lc (share_id left) (share_id right)
      else if share_remainder left > share_remainder right then - 1 else 1)"

text \<open>The final \<open>shares.map\<close>.\<close>

definition allocation_report :: "money \<Rightarrow> int \<Rightarrow> int alloc_share list \<Rightarrow> allocation_result list res" where
  "allocation_report distributable sign shares = traverse (\<lambda>entry.
     and_then (from_minor_units (share_units entry * sign) (money_currency distributable)
         (of_js (int (money_scale distributable)))) (\<lambda>share.
       Inr \<lparr>ar_participant = share_id entry, ar_amount = to_decimal_string share,
            ar_currency = money_currency distributable\<rparr>)) shares"

definition allocate_proportionally ::
  "(string \<Rightarrow> string \<Rightarrow> int) \<Rightarrow> money \<Rightarrow> allocation_weight list \<Rightarrow> allocation_result list res" where
  "allocate_proportionally lc distributable weights =
     (if weights = [] then Inl (TypeError ''At least one allocation weight is required'')
      else and_then (normalize_weights {} weights) (\<lambda>normalized.
        if sum_list (map snd normalized) = 0
        then Inl (RangeError ''Total allocation weight must be positive'')
        else (let signed_total = to_minor_units distributable;
                  sign = (if signed_total < 0 then - 1 else 1);
                  amount = (if signed_total < 0 then - signed_total else signed_total);
                  shares = settle (remainder_priority lc) amount (proportional_shares amount normalized)
              in allocation_report distributable sign shares)))"

section \<open>The integer allocator as a largest-remainder allocator\<close>

interpretation proportional: largest_remainder
  "\<lambda>amount normalized. Inr (proportional_shares amount normalized)" "remainder_priority lc" fst
  for lc :: "string \<Rightarrow> string \<Rightarrow> int"
  by unfold_locales (auto simp: proportional_shares_def Let_def split: prod.splits)

lemma proportional_shares_nth:
  "i < length ns \<Longrightarrow> proportional_shares amount ns ! i =
     \<lparr>share_id = fst (ns ! i), share_units = amount * snd (ns ! i) div sum_list (map snd ns),
      share_remainder = amount * snd (ns ! i) mod sum_list (map snd ns)\<rparr>"
  by (simp add: proportional_shares_def Let_def split: prod.splits)

lemma length_proportional_shares [simp]: "length (proportional_shares amount ns) = length ns"
  by (simp add: proportional_shares_def Let_def)

lemma quotas_bounds:
  assumes "ns \<noteq> []" "0 < sum_list (map snd ns)"
  shows "sum_list (map share_units (proportional_shares amount ns)) \<le> amount"
    and "amount - sum_list (map share_units (proportional_shares amount ns)) < int (length ns)"
proof -
  define total_weight where "total_weight = sum_list (map snd ns)"
  have W: "0 < total_weight" using assms(2) by (simp add: total_weight_def)
  let ?u = "sum_list (map (\<lambda>n. amount * snd n div total_weight) ns)"
  let ?r = "sum_list (map (\<lambda>n. amount * snd n mod total_weight) ns)"
  have units: "sum_list (map share_units (proportional_shares amount ns)) = ?u"
    by (simp add: proportional_shares_def Let_def total_weight_def o_def split_def)
  have "amount * sum_list (map snd xs) = total_weight * sum_list (map (\<lambda>n. amount * snd n div total_weight) xs)
      + sum_list (map (\<lambda>n. amount * snd n mod total_weight) xs)" for xs :: "(string \<times> int) list"
  proof (induction xs)
    case (Cons x xs)
    then show ?case
      using mult_div_mod_eq [of total_weight "amount * snd x"] by (simp add: distrib_left algebra_simps)
  qed simp
  from this [of ns] have split: "total_weight * (amount - ?u) = ?r"
    by (simp add: total_weight_def [symmetric] algebra_simps)
  have "0 \<le> ?r" by (rule sum_list_nonneg) (use W in auto)
  with split W have "0 \<le> amount - ?u" by (metis mult.commute zero_le_mult_iff not_le)
  then show "sum_list (map share_units (proportional_shares amount ns)) \<le> amount"
    unfolding units by simp
  have "?r < total_weight * int (length ns)"
  proof -
    have "sum_list (map (\<lambda>n. amount * snd n mod total_weight) xs) < total_weight * int (length xs)"
      if "xs \<noteq> []" for xs :: "(string \<times> int) list"
      using that
    proof (induction xs rule: list_nonempty_induct)
      case (single x)
      then show ?case using W by simp
    next
      case (cons x xs)
      then show ?case using pos_mod_bound [OF W, of "amount * snd x"] by (simp add: algebra_simps)
    qed
    then show ?thesis using assms(1) .
  qed
  with split have "total_weight * (amount - ?u) < total_weight * int (length ns)" by simp
  with W show "amount - sum_list (map share_units (proportional_shares amount ns)) < int (length ns)"
    unfolding units by simp
qed

text \<open>What an accepted list of weights is.\<close>

lemma weight_to_units_eq:
  "weight_to_units value scale = read_units True scale
     (TypeError ''Allocation weight must be a canonical decimal string'')
     (RangeError (''Allocation weight exceeds scale '' @ digits_of scale)) value"
  by (auto simp: weight_to_units_def read_units_def Let_def split: option.splits)

definition weight_units :: "allocation_weight \<Rightarrow> int" where
  "weight_units w = projr (weight_to_units (aw_weight w) weight_scale)"

definition normalized_of :: "allocation_weight \<Rightarrow> string \<times> int" where
  "normalized_of w = (aw_participant w, weight_units w)"

lemma normalized_of_simps [simp]:
  "fst (normalized_of w) = aw_participant w" "snd (normalized_of w) = weight_units w"
  "fst \<circ> normalized_of = aw_participant" "snd \<circ> normalized_of = weight_units"
  by (auto simp: normalized_of_def fun_eq_iff)

definition accepted_weights :: "string set \<Rightarrow> allocation_weight list \<Rightarrow> bool" where
  "accepted_weights seen ws \<longleftrightarrow> distinct (map aw_participant ws)
     \<and> aw_participant ` set ws \<inter> seen = {} \<and> [] \<notin> aw_participant ` set ws
     \<and> (\<forall>w\<in>set ws. weight_to_units (aw_weight w) weight_scale = Inr (weight_units w) \<and> 0 \<le> weight_units w)"

lemma normalize_weights_iff:
  "normalize_weights seen ws = Inr ns \<longleftrightarrow> accepted_weights seen ws \<and> ns = map normalized_of ws"
proof (induction seen ws arbitrary: ns rule: normalize_weights.induct)
  case (2 seen entry rest)
  let ?p = "aw_participant entry"
  show ?case
  proof (cases "weight_to_units (aw_weight entry) weight_scale")
    case (Inl e)
    then show ?thesis by (auto simp: outcome accepted_weights_def)
  next
    case (Inr weight)
    then have unit: "weight_units entry = weight" by (simp add: weight_units_def)
    show ?thesis
    proof (cases "?p = [] \<or> ?p \<in> seen \<or> weight < 0")
      case True
      with Inr unit show ?thesis by (auto simp: outcome accepted_weights_def split: if_splits)
    next
      case False
      have acc: "accepted_weights seen (entry # rest) \<longleftrightarrow> accepted_weights (insert ?p seen) rest"
        using False Inr unit by (auto simp: accepted_weights_def)
      have IH: "normalize_weights (insert ?p seen) rest = Inr ms \<longleftrightarrow>
          accepted_weights (insert ?p seen) rest \<and> ms = map normalized_of rest" for ms
        using "2.IH" [OF _ Inr] False by blast
      have "normalize_weights seen (entry # rest) = Inr ns \<longleftrightarrow>
          (\<exists>ms. normalize_weights (insert ?p seen) rest = Inr ms \<and> (?p, weight) # ms = ns)"
        using False Inr by (simp add: outcome)
      also have "\<dots> \<longleftrightarrow> accepted_weights (insert ?p seen) rest \<and> ns = map normalized_of (entry # rest)"
        unfolding IH using unit by (auto simp: normalized_of_def)
      finally show ?thesis by (simp only: acc)
    qed
  qed
qed (auto simp: accepted_weights_def)

lemma weight_units_value:
  "weight_to_units (aw_weight w) weight_scale = Inr (weight_units w) \<Longrightarrow>
   decimal_value (aw_weight w) = Some (of_int (weight_units w) / 10 ^ 12)"
  using read_units_value [of True 12] by (fastforce simp: weight_to_units_eq weight_scale_def)

lemma sum_list_pos_nonzero:
  "(\<forall>x\<in>set xs. 0 \<le> x) \<Longrightarrow> sum_list xs \<noteq> 0 \<Longrightarrow> (0 :: int) < sum_list xs"
  using sum_list_nonneg [of xs] by fastforce

text \<open>The result in terms of the settled units.\<close>

definition settled_units :: "(string \<Rightarrow> string \<Rightarrow> int) \<Rightarrow> int \<Rightarrow> (string \<times> int) list \<Rightarrow> int list" where
  "settled_units lc amount ns =
     map share_units (settle (remainder_priority lc) amount (proportional_shares amount ns))"

definition result_of :: "money \<Rightarrow> string \<Rightarrow> int \<Rightarrow> allocation_result" where
  "result_of m participant units = \<lparr>ar_participant = participant,
     ar_amount = to_decimal_string (m\<lparr>money_units := units * (if money_units m < 0 then - 1 else 1)\<rparr>),
     ar_currency = money_currency m\<rparr>"

lemma length_settled_units [simp]: "length (settled_units lc amount ns) = length ns"
  by (simp add: settled_units_def settle_def)

lemma allocate_proportionally_Inr:
  assumes "wf_money m"
  shows "allocate_proportionally lc m ws = Inr rs \<longleftrightarrow>
    ws \<noteq> [] \<and> accepted_weights {} ws \<and> sum_list (map weight_units ws) \<noteq> 0
    \<and> rs = map2 (\<lambda>w u. result_of m (aw_participant w) u) ws
        (settled_units lc \<bar>money_units m\<bar> (map normalized_of ws))"
proof -
  let ?ns = "map normalized_of ws"
  let ?sign = "if money_units m < 0 then - 1 else 1 :: int"
  let ?shares = "settle (remainder_priority lc) \<bar>money_units m\<bar> (proportional_shares \<bar>money_units m\<bar> ?ns)"
  have ids: "map share_id ?shares = map aw_participant ws"
    using proportional.settled_ids [OF refl, of lc "\<bar>money_units m\<bar>" ?ns]
    by (simp add: normalized_of_def o_def)
  have t: "allocation_report m ?sign ?shares
      = Inr (map (\<lambda>entry. result_of m (share_id entry) (share_units entry)) ?shares)"
    unfolding allocation_report_def
    using assms by (intro traverse_pure) (simp del: of_int_of_nat_eq add: result_of_def)
  have "map (\<lambda>entry. result_of m (share_id entry) (share_units entry)) ?shares
      = map2 (result_of m) (map share_id ?shares) (map share_units ?shares)"
    by (rule nth_equalityI) simp_all
  also have "\<dots> = map2 (\<lambda>w u. result_of m (aw_participant w) u) ws (settled_units lc \<bar>money_units m\<bar> ?ns)"
    by (simp only: ids settled_units_def zip_map1 map_map o_def split_def fst_conv snd_conv)
  finally have r: "map (\<lambda>entry. result_of m (share_id entry) (share_units entry)) ?shares = \<dots>" .
  have sum: "map snd ?ns = map weight_units ws" by (simp add: normalized_of_def)
  have n: "(if money_units m < 0 then - money_units m else money_units m) = \<bar>money_units m\<bar>" by simp
  show ?thesis
  proof (cases "ws \<noteq> [] \<and> accepted_weights {} ws \<and> sum_list (map weight_units ws) \<noteq> 0")
    case True
    then have "normalize_weights {} ws = Inr ?ns" by (simp only: normalize_weights_iff)
    with True show ?thesis
      unfolding allocate_proportionally_def to_minor_units_def Let_def n
      by (simp only: if_False and_then_simps sum t r) auto
  next
    case False
    have "allocate_proportionally lc m ws \<noteq> Inr rs"
      using False by (auto simp: allocate_proportionally_def outcome normalize_weights_iff sum)
    with False show ?thesis by blast
  qed
qed

section \<open>Conservation\<close>

lemma settled_units_sum:
  "ns \<noteq> [] \<Longrightarrow> 0 < sum_list (map snd ns) \<Longrightarrow> sum_list (settled_units lc amount ns) = amount"
  unfolding settled_units_def by (rule proportional.settled_sum [OF refl]) (simp_all add: quotas_bounds)

text \<open>Each share is its quota or one more.\<close>

lemma settled_units_nth:
  assumes "i < length ns" "0 < sum_list (map snd ns)"
  shows "settled_units lc amount ns ! i = amount * snd (ns ! i) div sum_list (map snd ns)
    \<or> settled_units lc amount ns ! i = amount * snd (ns ! i) div sum_list (map snd ns) + 1"
proof -
  have ne: "ns \<noteq> []" using assms(1) by auto
  have "settled_units lc amount ns ! i = share_units (settle (remainder_priority lc) amount (proportional_shares amount ns) ! i)"
    using assms(1) by (simp add: settled_units_def settle_def)
  then show ?thesis
    using proportional.settled_nth [OF refl assms(1), of amount lc] quotas_bounds [OF ne assms(2), of amount]
      proportional_shares_nth [OF assms(1), of amount]
    by auto
qed

lemma div_near:
  fixes x W :: int
  assumes "0 < W" "u = x div W \<or> u = x div W + 1"
  shows "\<bar>of_int u - of_int x / of_int W :: rat\<bar> \<le> 1"
proof -
  have "\<lfloor>of_int x / of_int W :: rat\<rfloor> = x div W" by (simp add: floor_divide_of_int_eq)
  then have "of_int (x div W) \<le> (of_int x / of_int W :: rat)"
    "(of_int x / of_int W :: rat) < of_int (x div W) + 1" by linarith+
  with assms(2) show ?thesis by auto
qed

text \<open>The same bound on the printed amounts, with the sign and the two scales put back.\<close>

lemma share_near:
  fixes amount w W u sg :: int
  assumes "0 < W" "u = amount * w div W \<or> u = amount * w div W + 1" "sg = 1 \<or> sg = - 1"
  shows "\<bar>of_int (u * sg) / 10 ^ k - of_int (sg * amount) / 10 ^ k * (of_int w / 10 ^ 12) / (of_int W / 10 ^ 12)\<bar>
    \<le> (1 / 10 ^ k :: rat)"
proof -
  have "of_int (u * sg) / 10 ^ k - of_int (sg * amount) / 10 ^ k * (of_int w / 10 ^ 12) / (of_int W / 10 ^ 12)
      = (of_int sg * (of_int u - of_int (amount * w) / of_int W) / 10 ^ k :: rat)"
    using assms(1) by (simp add: field_simps)
  moreover have "\<bar>of_int u - of_int (amount * w) / of_int W :: rat\<bar> \<le> 1"
    using assms by (intro div_near)
  ultimately show ?thesis using assms(3) by (auto simp: abs_mult divide_right_mono)
qed

lemma scaled_sum: "sum_list (map (\<lambda>x. of_int (f x) / c) xs) = (of_int (sum_list (map f xs)) / c :: rat)"
  by (induction xs) (simp_all add: add_divide_distrib)

lemma signed_amount: "(if money_units m < 0 then - 1 else 1) * \<bar>money_units m\<bar> = money_units m"
  by auto

text \<open>
  C2. Proportional allocation conserves the amount and is proportional: whenever
  \<open>allocateProportionally\<close> returns, the results name the participants in the order given, the
  printed amounts add up to exactly the distributable amount (also a negative one), and no
  printed amount differs from the exact rational share by more than one minor unit.
\<close>

theorem proportional_allocation_conserves:
  assumes "wf_money m" "allocate_proportionally lc m ws = Inr rs"
  shows "map ar_participant rs = map aw_participant ws
    \<and> (\<exists>vs qs. list_all2 (\<lambda>r v. decimal_value (ar_amount r) = Some v) rs vs
         \<and> list_all2 (\<lambda>w q. decimal_value (aw_weight w) = Some q) ws qs
         \<and> sum_list vs = money_value m \<and> 0 < sum_list qs
         \<and> (\<forall>i < length ws. \<bar>vs ! i - money_value m * qs ! i / sum_list qs\<bar> \<le> 1 / 10 ^ money_scale m))"
proof -
  define sg :: int where "sg = (if money_units m < 0 then - 1 else 1)"
  define us where "us = settled_units lc \<bar>money_units m\<bar> (map normalized_of ws)"
  define vs :: "rat list" where "vs = map (\<lambda>u. of_int (u * sg) / 10 ^ money_scale m) us"
  define qs :: "rat list" where "qs = map (\<lambda>w. of_int (weight_units w) / 10 ^ 12) ws"
  define W where "W = sum_list (map weight_units ws)"
  have ne: "ws \<noteq> []" and acc: "accepted_weights {} ws" and "W \<noteq> 0"
    and rs: "rs = map2 (\<lambda>w u. result_of m (aw_participant w) u) ws us"
    using assms by (simp_all add: allocate_proportionally_Inr us_def W_def)
  then have W: "0 < W"
    using sum_list_pos_nonzero [of "map weight_units ws"] by (auto simp: W_def accepted_weights_def)
  have len: "length us = length ws" by (simp add: us_def)
  have sg: "sg = 1 \<or> sg = - 1" "money_value m = of_int (sg * \<bar>money_units m\<bar>) / 10 ^ money_scale m"
    by (auto simp: sg_def money_value_def)
  have "sum_list us = \<bar>money_units m\<bar>"
    unfolding us_def using ne W by (intro settled_units_sum) (simp_all add: W_def)
  then have sum: "sum_list vs = money_value m"
    using scaled_sum [of "\<lambda>u. u * sg" "10 ^ money_scale m" us]
    by (simp only: vs_def sg(2) sum_list_mult_const map_ident mult.commute)
  have sq: "sum_list qs = of_int W / 10 ^ 12"
    by (simp only: qs_def W_def scaled_sum)
  have "\<bar>vs ! i - money_value m * qs ! i / sum_list qs\<bar> \<le> 1 / 10 ^ money_scale m" if i: "i < length ws" for i
  proof -
    have "us ! i = \<bar>money_units m\<bar> * weight_units (ws ! i) div W
        \<or> us ! i = \<bar>money_units m\<bar> * weight_units (ws ! i) div W + 1"
      using settled_units_nth [of i "map normalized_of ws" lc "\<bar>money_units m\<bar>"] i W
      by (simp add: us_def W_def)
    from share_near [OF W this sg(1), of "money_scale m"] show ?thesis
      using i len by (simp only: sq sg(2)) (simp add: vs_def qs_def)
  qed
  moreover have "list_all2 (\<lambda>r v. decimal_value (ar_amount r) = Some v) rs vs"
    using len by (auto simp: list_all2_conv_all_nth rs vs_def result_of_def sg_def
        to_decimal_string_value money_value_def)
  moreover have "list_all2 (\<lambda>w q. decimal_value (aw_weight w) = Some q) ws qs"
    using acc weight_units_value by (auto simp: list_all2_conv_all_nth qs_def accepted_weights_def)
  moreover have "map ar_participant rs = map aw_participant ws"
    using len by (intro nth_equalityI) (auto simp: rs result_of_def)
  moreover have "0 < sum_list qs" using W sq by simp
  ultimately show ?thesis using sum by blast
qed

section \<open>Independence of the order of the participants\<close>

definition quota_share :: "int \<Rightarrow> int \<Rightarrow> string \<times> int \<Rightarrow> int alloc_share" where
  "quota_share amount W n = \<lparr>share_id = fst n, share_units = amount * snd n div W,
     share_remainder = amount * snd n mod W\<rparr>"

text \<open>The units of an entry, from the set of all entries.\<close>

definition winner_units :: "(string \<Rightarrow> string \<Rightarrow> int) \<Rightarrow> int \<Rightarrow> (string \<times> int) set \<Rightarrow> string \<times> int \<Rightarrow> int" where
  "winner_units lc amount N n = (let W = sum snd N; q = quota_share amount W in
     share_units (q n) + (if card {n' \<in> N. remainder_priority lc (q n') (q n) < 0}
       < nat (amount - sum (share_units \<circ> q) N) then 1 else 0))"

lemma remainder_priority_less:
  "remainder_priority lc a b < 0 \<longleftrightarrow> share_remainder b < share_remainder a
     \<or> (share_remainder a = share_remainder b \<and> lc (share_id a) (share_id b) < 0)"
  "remainder_priority lc a b > 0 \<longleftrightarrow> share_remainder a < share_remainder b
     \<or> (share_remainder a = share_remainder b \<and> lc (share_id a) (share_id b) > 0)"
  "remainder_priority lc a b = 0 \<longleftrightarrow> share_remainder a = share_remainder b \<and> lc (share_id a) (share_id b) = 0"
  by (auto simp: remainder_priority_def)

lemma remainder_priority_strict:
  assumes "strict_comparator lc A" "inj_on f I" "\<And>i. i \<in> I \<Longrightarrow> f i = share_id (g i) \<and> f i \<in> A"
  shows "strict_comparator (\<lambda>i j. remainder_priority lc (g i) (g j)) I"
proof -
  note D = strict_comparatorD [OF assms(1)]
  have mem: "share_id (g i) \<in> A" if "i \<in> I" for i using assms(3) [OF that] by metis
  have eq: "share_id (g i) = share_id (g j) \<longleftrightarrow> i = j" if "i \<in> I" "j \<in> I" for i j
    using assms(2,3) that by (metis inj_onD)
  have "(remainder_priority lc (g i) (g j) < 0 \<longleftrightarrow> remainder_priority lc (g j) (g i) > 0)
      \<and> (remainder_priority lc (g i) (g j) = 0 \<longleftrightarrow> i = j)" if ij: "i \<in> I" "j \<in> I" for i j
    unfolding remainder_priority_less using D(1,2) [OF mem [OF ij(1)] mem [OF ij(2)]] eq [OF ij]
    by auto
  moreover have "remainder_priority lc (g i) (g k) < 0"
    if I: "i \<in> I" "j \<in> I" "k \<in> I" and less: "remainder_priority lc (g i) (g j) < 0"
      "remainder_priority lc (g j) (g k) < 0" for i j k
    using less D(3) [OF mem [OF I(1)] mem [OF I(2)] mem [OF I(3)]] unfolding remainder_priority_less
    by linarith
  ultimately show ?thesis unfolding strict_comparator_def by blast
qed

lemma settled_units_winners:
  assumes "ns \<noteq> []" "distinct (map fst ns)" "strict_comparator lc (fst ` set ns)" "0 < sum_list (map snd ns)"
  shows "settled_units lc amount ns = map (winner_units lc amount (set ns)) ns"
proof (rule nth_equalityI)
  fix i assume "i < length (settled_units lc amount ns)"
  then have i: "i < length ns" by simp
  have dist: "distinct ns" using assms(2) by (simp add: distinct_map)
  define W where "W = sum_list (map snd ns)"
  have W: "sum snd (set ns) = W" using dist by (simp add: W_def sum_list_distinct_conv_sum_set)
  let ?q = "quota_share amount W"
  have shares: "proportional_shares amount ns = map ?q ns"
    by (simp add: proportional_shares_def quota_share_def W_def Let_def split_def fun_eq_iff)
  have sum: "sum_list (map share_units (proportional_shares amount ns)) = sum (share_units \<circ> ?q) (set ns)"
    using dist by (simp add: shares sum_list_distinct_conv_sum_set)
  have strict: "strict_comparator (\<lambda>i j. remainder_priority lc (proportional_shares amount ns ! i)
      (proportional_shares amount ns ! j)) {..<length ns}"
    using assms(2) by (intro remainder_priority_strict [OF assms(3), of "\<lambda>i. fst (ns ! i)"])
      (auto simp: inj_on_def shares quota_share_def distinct_conv_nth)
  have "(!) ns ` {j. j < length ns \<and> P (ns ! j)} = {n' \<in> set ns. P n'}" for P
    by (auto simp: set_conv_nth)
  then have "bij_betw ((!) ns) {j. j < length ns \<and> remainder_priority lc (?q (ns ! j)) (?q (ns ! i)) < 0}
      {n' \<in> set ns. remainder_priority lc (?q n') (?q (ns ! i)) < 0}"
    using dist by (simp add: bij_betw_def inj_on_def nth_eq_iff_index_eq)
  from bij_betw_same_card [OF this]
  have card: "card {j. j < length ns \<and> remainder_priority lc (proportional_shares amount ns ! j)
       (proportional_shares amount ns ! i) < 0} = card {n' \<in> set ns. remainder_priority lc (?q n') (?q (ns ! i)) < 0}"
    using i by (simp add: shares cong: conj_cong)
  have "settled_units lc amount ns ! i = share_units (settle (remainder_priority lc) amount (proportional_shares amount ns) ! i)"
    using i by (simp add: settled_units_def settle_def)
  also have "\<dots> = winner_units lc amount (set ns) (ns ! i)"
    using proportional.settled_winners [OF refl i _ strict] quotas_bounds [OF assms(1,4), of amount] i
    by (simp only: card sum winner_units_def Let_def W) (simp add: shares)
  finally show "settled_units lc amount ns ! i = map (winner_units lc amount (set ns)) ns ! i"
    using i by simp
qed simp

lemma allocate_proportionally_winners:
  assumes "wf_money m" "allocate_proportionally lc m ws = Inr rs"
    "strict_comparator lc (aw_participant ` set ws)"
  shows "rs = map (\<lambda>w. result_of m (aw_participant w)
    (winner_units lc \<bar>money_units m\<bar> (normalized_of ` set ws) (normalized_of w))) ws"
proof -
  have *: "ws \<noteq> []" "accepted_weights {} ws" "sum_list (map weight_units ws) \<noteq> 0"
    and rs: "rs = map2 (\<lambda>w u. result_of m (aw_participant w) u) ws
        (settled_units lc \<bar>money_units m\<bar> (map normalized_of ws))"
    using assms(1,2) by (simp_all add: allocate_proportionally_Inr)
  have "0 < sum_list (map weight_units ws)"
    using * sum_list_pos_nonzero [of "map weight_units ws"] by (auto simp: accepted_weights_def)
  then have "settled_units lc \<bar>money_units m\<bar> (map normalized_of ws)
      = map (winner_units lc \<bar>money_units m\<bar> (set (map normalized_of ws))) (map normalized_of ws)"
    using * assms(3) by (intro settled_units_winners) (simp_all add: accepted_weights_def image_image)
  then show ?thesis by (auto simp: rs intro: nth_equalityI)
qed

text \<open>
  C3. The outcome does not depend on the order in which the participants are listed: if
  \<open>localeCompare\<close> orders the participants strictly, any permutation of an accepted list of
  weights is accepted too and every participant receives the same amount.
\<close>

theorem proportional_allocation_order_independent:
  assumes "wf_money m" "strict_comparator lc (aw_participant ` set ws)" "mset ws' = mset ws"
    "allocate_proportionally lc m ws = Inr rs"
  shows "\<exists>rs'. allocate_proportionally lc m ws' = Inr rs' \<and> mset rs' = mset rs"
proof -
  have set: "set ws' = set ws" using assms(3) by (rule mset_eq_setD)
  have dist: "distinct (map aw_participant ws') \<longleftrightarrow> distinct (map aw_participant ws)"
    by (rule mset_eq_imp_distinct_iff) (simp add: assms(3))
  have "sum_list (map weight_units ws') = sum_list (map weight_units ws)"
    by (metis assms(3) mset_map sum_mset_sum_list)
  then have "\<exists>rs'. allocate_proportionally lc m ws' = Inr rs'"
    using assms(1,4) set dist by (auto simp: allocate_proportionally_Inr accepted_weights_def)
  then obtain rs' where rs': "allocate_proportionally lc m ws' = Inr rs'" by blast
  have "mset rs' = mset rs"
    using allocate_proportionally_winners [OF assms(1) rs'] allocate_proportionally_winners [OF assms(1,4,2)]
      assms(2) set by (simp add: assms(3))
  with rs' show ?thesis by blast
qed

text \<open>Evaluation on literal arguments, in the three stages of the function.\<close>

lemmas normalize_eval = weight_to_units_def weight_scale_def text_eval
lemmas settle_eval = settle_def proportional_shares_def remainder_priority_def priority_of_def
  code_unit_order_def hand_out_step bump_def upt_rec
lemmas report_eval = allocation_report_def from_minor_units_def is_currency_code_def run_of_def
  to_decimal_string_def text_eval

lemma allocate_stages:
  assumes "ws \<noteq> []" "normalize_weights {} ws = Inr ns" "sum_list (map snd ns) \<noteq> 0"
    "settle (remainder_priority lc) \<bar>money_units m\<bar> (proportional_shares \<bar>money_units m\<bar> ns) = ss"
    "allocation_report m (if money_units m < 0 then - 1 else 1) ss = r"
  shows "allocate_proportionally lc m ws = r"
  using assms by (cases "money_units m < 0") (simp_all add: allocate_proportionally_def to_minor_units_def Let_def)

theorem proportional_allocation_conserves_witness:
  "allocate_proportionally code_unit_order
       \<lparr>money_currency = ''DZD'', money_units = - 100, money_scale = 2\<rparr>
       [\<lparr>aw_participant = ''b'', aw_weight = ''1''\<rparr>, \<lparr>aw_participant = ''a'', aw_weight = ''2''\<rparr>] =
     Inr [\<lparr>ar_participant = ''b'', ar_amount = ''-0.33'', ar_currency = ''DZD''\<rparr>,
          \<lparr>ar_participant = ''a'', ar_amount = ''-0.67'', ar_currency = ''DZD''\<rparr>]
   \<and> (\<exists>vs. list_all2 (\<lambda>t v. decimal_value t = Some v) [''-0.33'', ''-0.67''] vs \<and> sum_list vs = - 1)"
proof -
  let ?m = "\<lparr>money_currency = ''DZD'', money_units = - 100, money_scale = 2\<rparr>"
  let ?ws = "[\<lparr>aw_participant = ''b'', aw_weight = ''1''\<rparr>, \<lparr>aw_participant = ''a'', aw_weight = ''2''\<rparr>]"
  have "normalize_weights {} ?ws = Inr [(''b'', 1000000000000), (''a'', 2000000000000)]"
    by (simp add: normalize_eval)
  moreover have "settle (remainder_priority code_unit_order) 100
      (proportional_shares 100 [(''b'', 1000000000000), (''a'', 2000000000000)]) =
      [\<lparr>share_id = ''b'', share_units = 33, share_remainder = 1000000000000\<rparr>,
       \<lparr>share_id = ''a'', share_units = 67, share_remainder = 2000000000000\<rparr>]"
    by (simp add: settle_eval)
  moreover have "allocation_report ?m (- 1) [\<lparr>share_id = ''b'', share_units = 33, share_remainder = 1000000000000\<rparr>,
       \<lparr>share_id = ''a'', share_units = 67, share_remainder = 2000000000000\<rparr>] =
      Inr [\<lparr>ar_participant = ''b'', ar_amount = ''-0.33'', ar_currency = ''DZD''\<rparr>,
          \<lparr>ar_participant = ''a'', ar_amount = ''-0.67'', ar_currency = ''DZD''\<rparr>]"
    by (simp add: report_eval)
  ultimately have r: "allocate_proportionally code_unit_order ?m ?ws =
      Inr [\<lparr>ar_participant = ''b'', ar_amount = ''-0.33'', ar_currency = ''DZD''\<rparr>,
          \<lparr>ar_participant = ''a'', ar_amount = ''-0.67'', ar_currency = ''DZD''\<rparr>]"
    by (intro allocate_stages) simp_all
  have "wf_money ?m" by (simp add: wf_money_def is_currency_code_def run_of_def text_eval)
  from proportional_allocation_conserves [OF this r] obtain vs where
    "list_all2 (\<lambda>t v. decimal_value t = Some v) [''-0.33'', ''-0.67''] vs" "sum_list vs = money_value ?m"
    by (auto simp: list_all2_Cons1)
  then have "\<exists>vs. list_all2 (\<lambda>t v. decimal_value t = Some v) [''-0.33'', ''-0.67''] vs \<and> sum_list vs = - 1"
    by (intro exI [of _ vs] conjI) (simp_all add: money_value_def)
  with r show ?thesis by blast
qed

theorem proportional_allocation_order_independent_witness:
  "\<exists>rs'. allocate_proportionally code_unit_order
       \<lparr>money_currency = ''DZD'', money_units = 100, money_scale = 2\<rparr>
       [\<lparr>aw_participant = ''b'', aw_weight = ''2''\<rparr>, \<lparr>aw_participant = ''a'', aw_weight = ''1''\<rparr>] = Inr rs'
     \<and> mset rs' = {#\<lparr>ar_participant = ''a'', ar_amount = ''0.33'', ar_currency = ''DZD''\<rparr>,
                   \<lparr>ar_participant = ''b'', ar_amount = ''0.67'', ar_currency = ''DZD''\<rparr>#}"
proof -
  let ?m = "\<lparr>money_currency = ''DZD'', money_units = 100, money_scale = 2\<rparr>"
  let ?a = "\<lparr>aw_participant = ''a'', aw_weight = ''1''\<rparr>" and ?b = "\<lparr>aw_participant = ''b'', aw_weight = ''2''\<rparr>"
  let ?r = "[\<lparr>ar_participant = ''a'', ar_amount = ''0.33'', ar_currency = ''DZD''\<rparr>,
           \<lparr>ar_participant = ''b'', ar_amount = ''0.67'', ar_currency = ''DZD''\<rparr>]"
  have "normalize_weights {} [?a, ?b] = Inr [(''a'', 1000000000000), (''b'', 2000000000000)]"
    by (simp add: normalize_eval)
  moreover have "settle (remainder_priority code_unit_order) 100
      (proportional_shares 100 [(''a'', 1000000000000), (''b'', 2000000000000)]) =
      [\<lparr>share_id = ''a'', share_units = 33, share_remainder = 1000000000000\<rparr>,
       \<lparr>share_id = ''b'', share_units = 67, share_remainder = 2000000000000\<rparr>]"
    by (simp add: settle_eval)
  moreover have "allocation_report ?m 1 [\<lparr>share_id = ''a'', share_units = 33, share_remainder = 1000000000000\<rparr>,
       \<lparr>share_id = ''b'', share_units = 67, share_remainder = 2000000000000\<rparr>] = Inr ?r"
    by (simp add: report_eval)
  ultimately have r: "allocate_proportionally code_unit_order ?m [?a, ?b] = Inr ?r"
    by (intro allocate_stages) simp_all
  have "wf_money ?m" by (simp add: wf_money_def is_currency_code_def run_of_def text_eval)
  from proportional_allocation_order_independent [OF this code_unit_order_strict _ r, of "[?b, ?a]"]
  show ?thesis by (simp add: add_mset_commute)
qed

end
