(* ===== verification/Decimal_Lib.thy ===== *)
theory Decimal_Lib
  imports Decimal_Text
begin

text \<open>
  The package decimal.js, which the engine and the risk module compute with.  Its code is not
  part of the repository, so its operations are a parameter: a record of functions on an
  unspecified type of decimals.  \<open>decimal_laws\<close> states the documented behaviour that some
  properties rely on (results rounded to the configured number of significant digits, exact
  comparison, exact rounding to decimal places); \<open>exact_lib\<close>, with unlimited precision, is a
  concrete instance used to show that the laws can hold.
\<close>

section \<open>The operations used\<close>

record 'd decimal_lib =
  of_text :: "string \<Rightarrow> 'd"
  d_plus :: "'d \<Rightarrow> 'd \<Rightarrow> 'd"
  d_minus :: "'d \<Rightarrow> 'd \<Rightarrow> 'd"
  d_times :: "'d \<Rightarrow> 'd \<Rightarrow> 'd"
  d_divided_by :: "'d \<Rightarrow> 'd \<Rightarrow> 'd"
  d_floor :: "'d \<Rightarrow> 'd"
  d_compared_to :: "'d \<Rightarrow> 'd \<Rightarrow> int option"
  d_is_zero :: "'d \<Rightarrow> bool"
  d_is_negative :: "'d \<Rightarrow> bool"
  d_is_positive :: "'d \<Rightarrow> bool"
  d_to_places :: "nat \<Rightarrow> 'd \<Rightarrow> 'd"
  d_to_fixed :: "nat \<Rightarrow> 'd \<Rightarrow> string"

text \<open>
  \<open>comparedTo\<close> is NaN (here \<open>None\<close>) when an operand is; \<open>equals\<close>, \<open>greaterThan\<close>,
  \<open>greaterThanOrEqualTo\<close>, \<open>lessThanOrEqualTo\<close> are read off it.
\<close>

definition d_equals :: "'d decimal_lib \<Rightarrow> 'd \<Rightarrow> 'd \<Rightarrow> bool" where
  "d_equals lib x y = (d_compared_to lib x y = Some 0)"

definition d_greater :: "'d decimal_lib \<Rightarrow> 'd \<Rightarrow> 'd \<Rightarrow> bool" where
  "d_greater lib x y = (case d_compared_to lib x y of None \<Rightarrow> False | Some c \<Rightarrow> c > 0)"

definition d_at_least :: "'d decimal_lib \<Rightarrow> 'd \<Rightarrow> 'd \<Rightarrow> bool" where
  "d_at_least lib x y = (case d_compared_to lib x y of None \<Rightarrow> False | Some c \<Rightarrow> c \<ge> 0)"

definition d_at_most :: "'d decimal_lib \<Rightarrow> 'd \<Rightarrow> 'd \<Rightarrow> bool" where
  "d_at_most lib x y = (case d_compared_to lib x y of None \<Rightarrow> False | Some c \<Rightarrow> c \<le> 0)"

text \<open>\<open>Decimal.max\<close> and \<open>Decimal.min\<close> of two arguments.\<close>

definition d_max :: "'d decimal_lib \<Rightarrow> 'd \<Rightarrow> 'd \<Rightarrow> 'd" where
  "d_max lib x y = (if d_greater lib y x then y else x)"

definition d_min :: "'d decimal_lib \<Rightarrow> 'd \<Rightarrow> 'd \<Rightarrow> 'd" where
  "d_min lib x y = (if d_greater lib x y then y else x)"

text \<open>\<open>toDecimalPlaces(scale, ROUND_HALF_EVEN).toFixed(scale)\<close>, the formatter of every file.\<close>

definition d_formatted :: "'d decimal_lib \<Rightarrow> 'd \<Rightarrow> nat \<Rightarrow> string" where
  "d_formatted lib x scale = d_to_fixed lib scale (d_to_places lib scale x)"

text \<open>\<open>new ExactDecimal(n.toString())\<close> for a bigint or a literal integer.\<close>

definition text_of_int :: "int \<Rightarrow> string" where
  "text_of_int n = (if n < 0 then CHR ''-'' # digits_of (nat (- n)) else digits_of (nat n))"

lemma pad_start_1 [simp]: "pad_start (Suc 0) (digits_of n) = digits_of n"
proof -
  have "Suc 0 \<le> length (digits_of n)" by (simp add: Suc_le_eq)
  then show ?thesis by (simp add: pad_start_def)
qed

lemma text_of_int_render: "text_of_int n = render_units 0 n"
  by (simp add: text_of_int_def render_units_def render_nat_def Let_def)

text \<open>
  \<open>unitsToDecimal\<close> in the files that only print non-negative amounts: the sign, if there were
  one, would be padded along with the digits.
\<close>

definition unsigned_text :: "int \<Rightarrow> nat \<Rightarrow> string" where
  "unsigned_text units scale = (let digits = pad_start (scale + 1) (text_of_int units) in
     if scale = 0 then digits else drop_last scale digits @ CHR ''.'' # last_chars scale digits)"

lemma unsigned_text_render [simp]: "0 \<le> u \<Longrightarrow> unsigned_text u scale = render_units scale u"
  by (simp add: unsigned_text_def text_of_int_def render_units_def render_nat_def Let_def)

definition d_of_int :: "'d decimal_lib \<Rightarrow> int \<Rightarrow> 'd" where
  "d_of_int lib n = of_text lib (text_of_int n)"

text \<open>\<open>BigInt(text)\<close>; the texts that occur are results of \<open>toFixed(0)\<close>.\<close>

definition big_int :: "string \<Rightarrow> int res" where
  "big_int s = (let neg = (s \<noteq> [] \<and> hd s = CHR ''-''); t = (if neg then tl s else s) in
     if t \<noteq> [] \<and> list_all is_digit t
     then Inr (if neg then - int (nat_of_digits t) else int (nat_of_digits t))
     else Inl (SyntaxError (''Cannot convert '' @ s @ '' to a BigInt'')))"

text \<open>The two readers repeated in the files: \<open>/^(0|[1-9]\\d*)(?:\\.\\d+)?$/\<close> and the signed one.\<close>

definition canonical_message :: "string \<Rightarrow> js_error" where
  "canonical_message field = TypeError (field @ '' must be a canonical decimal string'')"

definition non_negative_message :: "string \<Rightarrow> js_error" where
  "non_negative_message field = TypeError (field @ '' must be a canonical non-negative decimal string'')"

definition read_non_negative :: "'d decimal_lib \<Rightarrow> string \<Rightarrow> string \<Rightarrow> 'd res" where
  "read_non_negative lib value field =
     (if unsigned_decimal value = None then Inl (non_negative_message field)
      else Inr (of_text lib value))"

definition read_signed :: "'d decimal_lib \<Rightarrow> string \<Rightarrow> string \<Rightarrow> 'd res" where
  "read_signed lib value field =
     (if signed_decimal value = None then Inl (canonical_message field)
      else Inr (of_text lib value))"

text \<open>
  The scale arguments: \<open>input.currencyScale ?? 2\<close> checked against 0 and 12 and
  \<open>input.outputScale ?? 12\<close> checked against 0 and 24.
\<close>

definition optional_scale :: "int \<Rightarrow> int \<Rightarrow> string \<Rightarrow> jsnum option \<Rightarrow> nat res" where
  "optional_scale default_scale hi message scale =
     (case int_between 0 hi (case scale of None \<Rightarrow> of_js default_scale | Some x \<Rightarrow> x) of
        None \<Rightarrow> Inl (RangeError message) | Some k \<Rightarrow> Inr k)"

definition currency_scale :: "jsnum option \<Rightarrow> nat res" where
  "currency_scale = optional_scale 2 12 ''currencyScale must be an integer between 0 and 12''"

definition output_scale :: "jsnum option \<Rightarrow> nat res" where
  "output_scale = optional_scale 12 24 ''outputScale must be an integer between 0 and 24''"

lemma currency_scale_None [simp]: "currency_scale None = Inr 2"
  by (simp add: currency_scale_def optional_scale_def)

lemma output_scale_None [simp]: "output_scale None = Inr 12"
  by (simp add: output_scale_def optional_scale_def)

lemma currency_scale_le: "currency_scale s = Inr k \<Longrightarrow> k \<le> 12"
  by (auto simp: currency_scale_def optional_scale_def split: option.splits dest: int_between_SomeD)

text \<open>Amounts in units: \<open>decimalToUnits(value, scale, field)\<close> and its inverse.\<close>

definition exceeds_scale :: "string \<Rightarrow> nat \<Rightarrow> js_error" where
  "exceeds_scale field scale = RangeError (field @ '' exceeds currency scale '' @ digits_of scale)"

definition units_unsigned :: "string \<Rightarrow> nat \<Rightarrow> string \<Rightarrow> int res" where
  "units_unsigned value scale field =
     read_units False scale (non_negative_message field) (exceeds_scale field scale) value"

definition units_signed :: "string \<Rightarrow> nat \<Rightarrow> string \<Rightarrow> int res" where
  "units_signed value scale field =
     read_units True scale (canonical_message field) (exceeds_scale field scale) value"

lemma units_unsigned_nonneg: "units_unsigned value scale field = Inr u \<Longrightarrow> 0 \<le> u"
  unfolding units_unsigned_def by (rule read_units_nonneg)

lemma units_unsigned_value:
  "units_unsigned value scale field = Inr u \<Longrightarrow> decimal_value value = Some (of_int u / 10 ^ scale)"
  unfolding units_unsigned_def using read_units_value by fastforce

lemma units_signed_value:
  "units_signed value scale field = Inr u \<Longrightarrow> decimal_value value = Some (of_int u / 10 ^ scale)"
  unfolding units_signed_def using read_units_value by fastforce

lemma render_units_decimal [simp]:
  "decimal_value (render_units scale u) = Some (of_int u / 10 ^ scale)"
  using read_units_value [OF signed_units.read_show [OF TrueI, of scale e e u]] by auto

section \<open>The documented behaviour\<close>

text \<open>A rational with at most \<open>p\<close> significant decimal digits.\<close>

definition representable :: "nat \<Rightarrow> rat \<Rightarrow> bool" where
  "representable p q \<longleftrightarrow> (\<exists>m k. \<bar>m\<bar> < 10 ^ p \<and> (q = of_int m * 10 ^ k \<or> q = of_int m / 10 ^ k))"

text \<open>A correct rounding, in whatever mode, never crosses a representable number.\<close>

definition rounded :: "nat \<Rightarrow> rat \<Rightarrow> rat \<Rightarrow> bool" where
  "rounded p exact r \<longleftrightarrow> (\<forall>q. representable p q \<longrightarrow> (exact \<le> q \<longrightarrow> r \<le> q) \<and> (q \<le> exact \<longrightarrow> q \<le> r))"

lemma rounded_representable: "rounded p x r \<Longrightarrow> representable p x \<Longrightarrow> r = x"
  unfolding rounded_def by (meson order_antisym order_refl)

lemma rounded_le: "rounded p x r \<Longrightarrow> representable p q \<Longrightarrow> x \<le> q \<Longrightarrow> r \<le> q"
  by (simp add: rounded_def)

lemma rounded_ge: "rounded p x r \<Longrightarrow> representable p q \<Longrightarrow> q \<le> x \<Longrightarrow> q \<le> r"
  by (simp add: rounded_def)

lemma representable_of_int: "\<bar>m\<bar> < 10 ^ p \<Longrightarrow> representable p (of_int m)"
  unfolding representable_def by (metis mult.right_neutral power_0)

lemma representable_scaled: "\<bar>m\<bar> < 10 ^ p \<Longrightarrow> representable p (of_int m / 10 ^ k)"
  unfolding representable_def by blast

lemma representable_0 [simp]: "representable p 0"
  using representable_of_int [of 0 p] by simp

lemma rounded_nonneg: "rounded p x r \<Longrightarrow> 0 \<le> x \<Longrightarrow> 0 \<le> r"
  by (rule rounded_ge) simp_all

definition binary_laws :: "'d decimal_lib \<Rightarrow> nat \<Rightarrow> ('d \<Rightarrow> rat option) \<Rightarrow> 'd \<Rightarrow> 'd \<Rightarrow> rat \<Rightarrow> rat \<Rightarrow> bool" where
  "binary_laws lib p val a b x y \<longleftrightarrow>
     (\<exists>r. val (d_plus lib a b) = Some r \<and> rounded p (x + y) r)
   \<and> (\<exists>r. val (d_minus lib a b) = Some r \<and> rounded p (x - y) r)
   \<and> (\<exists>r. val (d_times lib a b) = Some r \<and> rounded p (x * y) r)
   \<and> (y \<noteq> 0 \<longrightarrow> (\<exists>r. val (d_divided_by lib a b) = Some r \<and> rounded p (x / y) r))
   \<and> (y = 0 \<longrightarrow> val (d_divided_by lib a b) = None)
   \<and> d_compared_to lib a b = Some (if x < y then - 1 else if x = y then 0 else 1)"

definition unary_laws :: "'d decimal_lib \<Rightarrow> ('d \<Rightarrow> rat option) \<Rightarrow> 'd \<Rightarrow> rat \<Rightarrow> bool" where
  "unary_laws lib val a x \<longleftrightarrow>
     val (d_floor lib a) = Some (of_int \<lfloor>x\<rfloor>)
   \<and> d_is_zero lib a = (x = 0)
   \<and> (x < 0 \<longrightarrow> d_is_negative lib a) \<and> (0 < x \<longrightarrow> \<not> d_is_negative lib a)
   \<and> (0 < x \<longrightarrow> d_is_positive lib a) \<and> (x < 0 \<longrightarrow> \<not> d_is_positive lib a)
   \<and> (\<forall>k. \<exists>u. val (d_to_places lib k a) = Some (of_int u / 10 ^ k) \<and> \<bar>of_int u - x * 10 ^ k\<bar> \<le> 1 / 2)
   \<and> (\<forall>k u. x = of_int u / 10 ^ k \<longrightarrow> d_to_fixed lib k a = render_units k u)"

definition no_value_laws :: "'d decimal_lib \<Rightarrow> ('d \<Rightarrow> rat option) \<Rightarrow> 'd \<Rightarrow> bool" where
  "no_value_laws lib val a \<longleftrightarrow> val (d_floor lib a) = None
   \<and> (\<forall>k. val (d_to_places lib k a) = None \<and> d_to_fixed lib k a \<in> {''NaN'', ''Infinity'', ''-Infinity''})"

text \<open>
  The laws: a canonical text is read exactly; \<open>val\<close> is the value of a decimal that is not NaN or
  infinite; also the positive zero read from a text is positive for \<open>isPositive\<close> and not negative for
  \<open>isNegative\<close>, which look at the sign only.
\<close>

definition decimal_laws :: "'d decimal_lib \<Rightarrow> nat \<Rightarrow> ('d \<Rightarrow> rat option) \<Rightarrow> bool" where
  "decimal_laws lib p val \<longleftrightarrow>
     (\<forall>s q. decimal_value s = Some q \<longrightarrow> val (of_text lib s) = Some q)
   \<and> (\<forall>s i f. unsigned_decimal s = Some (i, f) \<longrightarrow>
        d_is_positive lib (of_text lib s) \<and> \<not> d_is_negative lib (of_text lib s))
   \<and> (\<forall>a b x y. val a = Some x \<longrightarrow> val b = Some y \<longrightarrow> binary_laws lib p val a b x y)
   \<and> (\<forall>a x. val a = Some x \<longrightarrow> unary_laws lib val a x)
   \<and> (\<forall>a. val a = None \<longrightarrow> no_value_laws lib val a)"

lemma decimal_laws_text: "decimal_laws lib p val \<Longrightarrow> decimal_value s = Some q \<Longrightarrow> val (of_text lib s) = Some q"
  by (simp add: decimal_laws_def)

lemma decimal_laws_unsigned:
  "decimal_laws lib p val \<Longrightarrow> unsigned_decimal s = Some (i, f) \<Longrightarrow>
   d_is_positive lib (of_text lib s) \<and> \<not> d_is_negative lib (of_text lib s)"
  by (simp add: decimal_laws_def)

lemma decimal_laws_ops:
  assumes "decimal_laws lib p val" "val a = Some x" "val b = Some y"
  shows "\<exists>r. val (d_plus lib a b) = Some r \<and> rounded p (x + y) r"
    "\<exists>r. val (d_minus lib a b) = Some r \<and> rounded p (x - y) r"
    "\<exists>r. val (d_times lib a b) = Some r \<and> rounded p (x * y) r"
    "y \<noteq> 0 \<Longrightarrow> \<exists>r. val (d_divided_by lib a b) = Some r \<and> rounded p (x / y) r"
    "d_compared_to lib a b = Some (if x < y then - 1 else if x = y then 0 else 1)"
    "y = 0 \<Longrightarrow> val (d_divided_by lib a b) = None"
proof -
  have "binary_laws lib p val a b x y" using assms by (simp add: decimal_laws_def)
  then show "\<exists>r. val (d_plus lib a b) = Some r \<and> rounded p (x + y) r"
    "\<exists>r. val (d_minus lib a b) = Some r \<and> rounded p (x - y) r"
    "\<exists>r. val (d_times lib a b) = Some r \<and> rounded p (x * y) r"
    "y \<noteq> 0 \<Longrightarrow> \<exists>r. val (d_divided_by lib a b) = Some r \<and> rounded p (x / y) r"
    "d_compared_to lib a b = Some (if x < y then - 1 else if x = y then 0 else 1)"
    "y = 0 \<Longrightarrow> val (d_divided_by lib a b) = None"
    unfolding binary_laws_def by blast+
qed

lemma decimal_laws_unary:
  assumes "decimal_laws lib p val" "val a = Some x"
  shows "val (d_floor lib a) = Some (of_int \<lfloor>x\<rfloor>)" "d_is_zero lib a = (x = 0)"
    "x < 0 \<Longrightarrow> d_is_negative lib a" "0 < x \<Longrightarrow> \<not> d_is_negative lib a"
    "0 < x \<Longrightarrow> d_is_positive lib a" "x < 0 \<Longrightarrow> \<not> d_is_positive lib a"
    "\<exists>u. val (d_to_places lib k a) = Some (of_int u / 10 ^ k) \<and> \<bar>of_int u - x * 10 ^ k\<bar> \<le> 1 / 2"
    "x = of_int u / 10 ^ k \<Longrightarrow> d_to_fixed lib k a = render_units k u"
proof -
  have "unary_laws lib val a x" using assms by (simp add: decimal_laws_def)
  then show "val (d_floor lib a) = Some (of_int \<lfloor>x\<rfloor>)" "d_is_zero lib a = (x = 0)"
    "x < 0 \<Longrightarrow> d_is_negative lib a" "0 < x \<Longrightarrow> \<not> d_is_negative lib a"
    "0 < x \<Longrightarrow> d_is_positive lib a" "x < 0 \<Longrightarrow> \<not> d_is_positive lib a"
    "\<exists>u. val (d_to_places lib k a) = Some (of_int u / 10 ^ k) \<and> \<bar>of_int u - x * 10 ^ k\<bar> \<le> 1 / 2"
    "x = of_int u / 10 ^ k \<Longrightarrow> d_to_fixed lib k a = render_units k u"
    unfolding unary_laws_def by blast+
qed

lemma decimal_laws_no_value:
  assumes "decimal_laws lib p val" "val a = None"
  shows "val (d_floor lib a) = None" "val (d_to_places lib k a) = None"
    "d_to_fixed lib k a \<in> {''NaN'', ''Infinity'', ''-Infinity''}"
proof -
  have "no_value_laws lib val a" using assms by (simp add: decimal_laws_def)
  then show "val (d_floor lib a) = None" "val (d_to_places lib k a) = None"
    "d_to_fixed lib k a \<in> {''NaN'', ''Infinity'', ''-Infinity''}"
    by (simp_all only: no_value_laws_def)
qed

lemma unsigned_value:
  "unsigned_decimal s = Some (i, f) \<Longrightarrow> decimal_value s = Some (text_value i f) \<and> 0 \<le> text_value i f"
  by (simp add: decimal_value_def signed_decimal_unsigned signed_value_def text_value_def)

lemma decimal_laws_compare:
  assumes "decimal_laws lib p val" "val a = Some x" "val b = Some y"
  shows "d_equals lib a b \<longleftrightarrow> x = y" "d_greater lib a b \<longleftrightarrow> y < x"
    "d_at_least lib a b \<longleftrightarrow> y \<le> x" "d_at_most lib a b \<longleftrightarrow> x \<le> y"
  using decimal_laws_ops(5) [OF assms]
  by (auto simp: d_equals_def d_greater_def d_at_least_def d_at_most_def)

lemma decimal_laws_of_int:
  "decimal_laws lib p val \<Longrightarrow> val (d_of_int lib n) = Some (of_int n)"
  by (rule decimal_laws_text [of lib p val "text_of_int n", folded d_of_int_def])
    (simp_all add: text_of_int_render)

text \<open>A text prints a number to so many places: it denotes a value at most half of the last place away.\<close>

definition printed_near :: "nat \<Rightarrow> string \<Rightarrow> rat \<Rightarrow> bool" where
  "printed_near k s x \<longleftrightarrow> (\<exists>q. decimal_value s = Some q \<and> \<bar>q - x\<bar> \<le> 1 / 2 / 10 ^ k)"

lemma formatted_near:
  assumes "decimal_laws lib p val" "val a = Some x"
  shows "printed_near k (d_formatted lib a k) x"
proof -
  obtain u where u: "val (d_to_places lib k a) = Some (of_int u / 10 ^ k)" "\<bar>of_int u - x * 10 ^ k\<bar> \<le> 1 / 2"
    using decimal_laws_unary(7) [OF assms] by blast
  have "d_formatted lib a k = render_units k u"
    unfolding d_formatted_def by (rule decimal_laws_unary(8) [OF assms(1) u(1) refl])
  moreover have "of_int u / 10 ^ k - x = (of_int u - x * 10 ^ k) / 10 ^ k" by (simp add: field_simps)
  then have "\<bar>of_int u / 10 ^ k - x\<bar> = \<bar>of_int u - x * 10 ^ k\<bar> / 10 ^ k" by (simp add: abs_divide)
  moreover have "\<bar>of_int u - x * 10 ^ k\<bar> / 10 ^ k \<le> 1 / 2 / 10 ^ k" using u(2) by (rule divide_right_mono) simp
  ultimately show ?thesis by (simp add: printed_near_def)
qed

text \<open>The text of an integer decimal read back as a bigint.\<close>

lemma big_int_render: "big_int (render_units 0 u) = Inr u"
proof -
  have d: "list_all is_digit (render_nat 0 n)" "render_nat 0 n \<noteq> []" "nat_of_digits (render_nat 0 n) = n" for n
    using padded_digits_digits [of 0 n] by (simp_all add: render_nat_def padded_digits_def pad_start_def nat_of_digits_append Let_def)
  have m: "hd (render_nat 0 n) \<noteq> CHR ''-''" for n
    using d(1,2) [of n] digit_not_minus by (cases "render_nat 0 n") auto
  show ?thesis
  proof (cases "u < 0")
    case True
    then show ?thesis using d by (simp add: big_int_def render_units_def Let_def)
  next
    case False
    then show ?thesis using d m by (simp add: big_int_def render_units_def Let_def)
  qed
qed

text \<open>\<open>BigInt\<close> of a decimal printed without places.\<close>

lemma big_int_no_value:
  "s \<in> {''NaN'', ''Infinity'', ''-Infinity''} \<Longrightarrow> \<exists>e. big_int s = Inl e"
  by (auto simp: big_int_def char_class_defs)

lemma big_int_floor:
  assumes "decimal_laws lib p val"
  shows "big_int (d_to_fixed lib 0 (d_floor lib a)) = Inr u \<longleftrightarrow> (\<exists>x. val a = Some x \<and> u = \<lfloor>x\<rfloor>)"
proof (cases "val a")
  case None
  with decimal_laws_no_value [OF assms] show ?thesis
    using big_int_no_value [of "d_to_fixed lib 0 (d_floor lib a)"] by auto
next
  case (Some x)
  have "d_to_fixed lib 0 (d_floor lib a) = render_units 0 \<lfloor>x\<rfloor>"
    by (rule decimal_laws_unary(8) [OF assms decimal_laws_unary(1) [OF assms Some]]) simp
  with Some show ?thesis by (auto simp: big_int_render)
qed

section \<open>An instance without rounding\<close>

definition round_half_even :: "rat \<Rightarrow> int" where
  "round_half_even x = (let f = \<lfloor>x\<rfloor>; d = x - of_int f in
     if d < 1 / 2 then f else if d > 1 / 2 then f + 1 else if even f then f else f + 1)"

lemma round_half_even_near: "\<bar>of_int (round_half_even x) - x\<bar> \<le> 1 / 2"
  unfolding round_half_even_def Let_def using of_int_floor_le [of x] floor_correct [of x]
  by (auto simp: abs_le_iff)

lemma round_half_even_of_int [simp]: "round_half_even (of_int u) = u"
  by (simp add: round_half_even_def)

fun lift_num :: "(rat \<Rightarrow> rat \<Rightarrow> rat) \<Rightarrow> jsnum \<Rightarrow> jsnum \<Rightarrow> jsnum" where
  "lift_num f (Num x) (Num y) = Num (f x y)"
| "lift_num f _ _ = NaN"

fun num_compare :: "jsnum \<Rightarrow> jsnum \<Rightarrow> int option" where
  "num_compare (Num x) (Num y) = Some (if x < y then - 1 else if x = y then 0 else 1)"
| "num_compare _ _ = None"

fun num_value :: "jsnum \<Rightarrow> rat option" where
  "num_value (Num x) = Some x"
| "num_value _ = None"

definition exact_lib :: "jsnum decimal_lib" where
  "exact_lib = \<lparr>of_text = (\<lambda>s. case decimal_value s of None \<Rightarrow> NaN | Some q \<Rightarrow> Num q),
     d_plus = lift_num (+), d_minus = lift_num (-), d_times = lift_num (*),
     d_divided_by = (\<lambda>x y. if y = Num 0 then NaN else lift_num (/) x y),
     d_floor = (\<lambda>x. case x of Num q \<Rightarrow> Num (of_int \<lfloor>q\<rfloor>) | _ \<Rightarrow> NaN),
     d_compared_to = num_compare,
     d_is_zero = (\<lambda>x. x = Num 0),
     d_is_negative = (\<lambda>x. case x of Num q \<Rightarrow> q < 0 | _ \<Rightarrow> False),
     d_is_positive = (\<lambda>x. case x of Num q \<Rightarrow> q \<ge> 0 | _ \<Rightarrow> False),
     d_to_places = (\<lambda>k x. case x of Num q \<Rightarrow> Num (of_int (round_half_even (q * 10 ^ k)) / 10 ^ k) | _ \<Rightarrow> NaN),
     d_to_fixed = (\<lambda>k x. case x of Num q \<Rightarrow> render_units k (round_half_even (q * 10 ^ k)) | _ \<Rightarrow> ''NaN'')\<rparr>"

lemma num_value_Some: "num_value a = Some x \<longleftrightarrow> a = Num x"
  by (cases a) auto

lemma num_value_None: "num_value a = None \<longleftrightarrow> a = NaN \<or> (\<exists>s. a = Infinite s)"
  by (cases a) auto

lemma exact_lib_laws: "decimal_laws exact_lib p num_value"
proof -
  have "binary_laws exact_lib p num_value (Num x) (Num y) x y" for x y
    by (simp add: binary_laws_def exact_lib_def rounded_def)
  moreover have "unary_laws exact_lib num_value (Num x) x" for x
    using round_half_even_near by (auto simp: unary_laws_def exact_lib_def simp flip: of_int_mult)
  moreover have "no_value_laws exact_lib num_value NaN" "no_value_laws exact_lib num_value (Infinite s)" for s
    by (simp_all add: no_value_laws_def exact_lib_def)
  moreover have "d_is_positive exact_lib (of_text exact_lib s) \<and> \<not> d_is_negative exact_lib (of_text exact_lib s)"
    if "unsigned_decimal s = Some (i, f)" for s i f
    using unsigned_value [OF that] by (simp add: exact_lib_def)
  moreover have "num_value (of_text exact_lib s) = Some q" if "decimal_value s = Some q" for s q
    using that by (simp add: exact_lib_def)
  ultimately show ?thesis
    unfolding decimal_laws_def num_value_Some num_value_None by blast
qed

lemmas exact_lib_simps [simp] = exact_lib_def [THEN arg_cong, of of_text, simplified]
  exact_lib_def [THEN arg_cong, of d_plus, simplified]
  exact_lib_def [THEN arg_cong, of d_minus, simplified]
  exact_lib_def [THEN arg_cong, of d_times, simplified]
  exact_lib_def [THEN arg_cong, of d_divided_by, simplified]
  exact_lib_def [THEN arg_cong, of d_floor, simplified]
  exact_lib_def [THEN arg_cong, of d_compared_to, simplified]
  exact_lib_def [THEN arg_cong, of d_is_zero, simplified]
  exact_lib_def [THEN arg_cong, of d_is_negative, simplified]
  exact_lib_def [THEN arg_cong, of d_is_positive, simplified]
  exact_lib_def [THEN arg_cong, of d_to_places, simplified]
  exact_lib_def [THEN arg_cong, of d_to_fixed, simplified]

text \<open>The rules that evaluate the shared readers on literal texts.\<close>

lemma floor_quotient:
  "\<lfloor>numeral a / numeral b :: rat\<rfloor> = numeral a div numeral b"
  "\<lfloor>1 / numeral b :: rat\<rfloor> = 1 div numeral b"
  "\<lfloor>- numeral a / numeral b :: rat\<rfloor> = (- numeral a) div numeral b"
  using floor_divide_of_int_eq [of "numeral a" "numeral b", where ?'a = rat]
    floor_divide_of_int_eq [of 1 "numeral b", where ?'a = rat]
    floor_divide_of_int_eq [of "- numeral a" "numeral b", where ?'a = rat] by simp_all

lemmas lib_eval = d_equals_def d_greater_def d_at_least_def d_at_most_def d_max_def d_min_def
  d_formatted_def text_of_int_def unsigned_text_def d_of_int_def big_int_def read_non_negative_def read_signed_def
  units_unsigned_def units_signed_def read_units_def round_half_even_def floor_quotient text_eval

end
