(* ===== verification/Loss.thy ===== *)
theory Loss
  imports Decimal_Lib
begin

text \<open>
  \<open>libs/engine/src/loss-classification.ts\<close>: who bears a loss.  A loss caused by the bank is
  the bank's; any other runs down the investment risk reserve (if its use is approved), the
  profit equalisation reserve and the depositors' capital, in that order.
\<close>

section \<open>Types\<close>

datatype loss_cause =
    Ordinary_Market_Loss
  | Credit_Loss
  | External_Operational_Event
  | Manager_Fault_Or_Negligence
  | Mandate_Violation
  | Sharia_Non_Compliance

datatype irr_policy = Irr_Approved | Irr_Not_Approved | Irr_Not_Applicable

record loss_input =
  li_loss :: string
  li_cause :: loss_cause
  li_irr_policy :: irr_policy
  li_irr :: string
  li_per :: string
  li_capital :: string
  li_scale :: "jsnum option"

datatype liability = Bank_Liable | Investors_Liable

record loss_result =
  lr_cause :: loss_cause
  lr_liability :: liability
  lr_irr :: string
  lr_per :: string
  lr_capital :: string
  lr_bank :: string
  lr_unabsorbed :: string
  lr_difference :: string
  lr_cascade :: "string list"

section \<open>Operations\<close>

definition bank_liability_causes :: "loss_cause list" where
  "bank_liability_causes = [Manager_Fault_Or_Negligence, Mandate_Violation, Sharia_Non_Compliance]"

definition is_bank_liability_cause :: "loss_cause \<Rightarrow> bool" where
  "is_bank_liability_cause cause \<longleftrightarrow> cause \<in> set bank_liability_causes"

definition loss_take :: "int \<Rightarrow> int \<Rightarrow> int" where
  "loss_take available required = (if available < required then available else required)"

definition loss_units :: "string \<Rightarrow> nat \<Rightarrow> string \<Rightarrow> int res" where
  "loss_units = units_unsigned"

definition loss_decimal :: "int \<Rightarrow> nat \<Rightarrow> string" where
  "loss_decimal = unsigned_text"

definition loss_result_of ::
  "loss_cause \<Rightarrow> int \<Rightarrow> int \<Rightarrow> int \<Rightarrow> int \<Rightarrow> int \<Rightarrow> int \<Rightarrow> nat \<Rightarrow> string list \<Rightarrow> loss_result res" where
  "loss_result_of cause loss irr per capital bank unabsorbed scale cascade =
     (let difference = loss - irr - per - capital - bank - unabsorbed in
      if difference \<noteq> 0 then Inl (Failure ''Loss conservation invariant violated'')
      else Inr \<lparr>lr_cause = cause,
        lr_liability = (if is_bank_liability_cause cause then Bank_Liable else Investors_Liable),
        lr_irr = loss_decimal irr scale, lr_per = loss_decimal per scale,
        lr_capital = loss_decimal capital scale, lr_bank = loss_decimal bank scale,
        lr_unabsorbed = loss_decimal unabsorbed scale,
        lr_difference = loss_decimal difference scale, lr_cascade = cascade\<rparr>)"

text \<open>The body after the arguments are read: the cascade on units.\<close>

definition loss_cascade :: "loss_input \<Rightarrow> nat \<Rightarrow> int \<Rightarrow> int \<Rightarrow> int \<Rightarrow> int \<Rightarrow> loss_result res" where
  "loss_cascade input scale loss available_irr available_per available_capital =
     (if is_bank_liability_cause (li_cause input)
      then loss_result_of (li_cause input) loss 0 0 0 loss 0 scale [''BANK_CAUSAL_LIABILITY'']
      else (let remaining = loss;
                irr = (if li_irr_policy input = Irr_Approved then loss_take available_irr remaining else 0);
                remaining = remaining - irr;
                per = loss_take available_per remaining;
                remaining = remaining - per;
                depositor_capital = loss_take available_capital remaining;
                remaining = remaining - depositor_capital
            in loss_result_of (li_cause input) loss irr per depositor_capital 0 remaining scale
                 ((if irr > 0 then [''IRR''] else []) @ (if per > 0 then [''PER''] else [])
                  @ (if depositor_capital > 0 then [''DEPOSITOR_CAPITAL''] else []))))"

definition classify_loss_absorption :: "loss_input \<Rightarrow> loss_result res" where
  "classify_loss_absorption input =
     and_then (currency_scale (li_scale input)) (\<lambda>scale.
     and_then (loss_units (li_loss input) scale ''lossAmount'') (\<lambda>loss.
     if loss \<le> 0 then Inl (RangeError ''lossAmount must be positive'')
     else
     and_then (loss_units (li_irr input) scale ''availableIrr'') (\<lambda>available_irr.
     and_then (loss_units (li_per input) scale ''availablePer'') (\<lambda>available_per.
     and_then (loss_units (li_capital input) scale ''availableDepositorCapital'') (\<lambda>available_capital.
       loss_cascade input scale loss available_irr available_per available_capital)))))"

section \<open>Properties\<close>

lemma loss_take_min [simp]: "loss_take a r = min a r"
  by (simp add: loss_take_def min_def)

lemma loss_units_eqs:
  "loss_units v k f = Inr u \<Longrightarrow> 0 \<le> u \<and> decimal_value v = Some (of_int u / 10 ^ k)"
  unfolding loss_units_def using units_unsigned_nonneg units_unsigned_value by blast

lemma loss_result_of_Inr:
  assumes "loss_result_of cause loss irr per capital bank unabsorbed scale cascade = Inr r"
    "0 \<le> irr" "0 \<le> per" "0 \<le> capital" "0 \<le> bank" "0 \<le> unabsorbed"
  shows "loss = irr + per + capital + bank + unabsorbed
    \<and> map decimal_value [lr_irr r, lr_per r, lr_capital r, lr_bank r, lr_unabsorbed r]
      = map (\<lambda>u. Some (of_int u / 10 ^ scale)) [irr, per, capital, bank, unabsorbed]
    \<and> lr_liability r = (if is_bank_liability_cause cause then Bank_Liable else Investors_Liable)
    \<and> lr_cascade r = cascade \<and> lr_cause r = cause"
  using assms by (auto simp: loss_result_of_def loss_decimal_def Let_def split: if_splits)

text \<open>The conservation check of the code never fires: the cascade always returns.\<close>

lemma loss_cascade_total:
  "ok (loss_cascade input scale loss available_irr available_per available_capital)"
  by (simp add: loss_cascade_def loss_result_of_def Let_def)

lemma classify_loss_absorption_Inr:
  "classify_loss_absorption input = Inr r \<longleftrightarrow> (\<exists>scale loss irr per capital.
     currency_scale (li_scale input) = Inr scale
     \<and> loss_units (li_loss input) scale ''lossAmount'' = Inr loss \<and> 0 < loss
     \<and> loss_units (li_irr input) scale ''availableIrr'' = Inr irr
     \<and> loss_units (li_per input) scale ''availablePer'' = Inr per
     \<and> loss_units (li_capital input) scale ''availableDepositorCapital'' = Inr capital
     \<and> loss_cascade input scale loss irr per capital = Inr r)"
  by (auto simp: classify_loss_absorption_def outcome not_le)

lemma loss_cascade_bank:
  assumes "is_bank_liability_cause (li_cause input)" "0 < loss"
    "loss_cascade input scale loss a b c = Inr r"
  shows "lr_liability r = Bank_Liable \<and> lr_cascade r = [''BANK_CAUSAL_LIABILITY'']
    \<and> map decimal_value [lr_irr r, lr_per r, lr_capital r, lr_bank r, lr_unabsorbed r]
      = map (\<lambda>u. Some (of_int u / 10 ^ scale)) [0, 0, 0, loss, 0]"
  using assms loss_result_of_Inr [of "li_cause input" loss 0 0 0 loss 0 scale "[''BANK_CAUSAL_LIABILITY'']" r]
  by (simp add: loss_cascade_def)

text \<open>
  The specification: a loss falls through a list of layers, each taking what it can of what the
  layers before it left.
\<close>

fun waterfall :: "'a::linordered_idom \<Rightarrow> 'a list \<Rightarrow> 'a list \<times> 'a" where
  "waterfall loss [] = ([], loss)"
| "waterfall loss (capacity # layers) =
     (let taken = min capacity loss; (rest, left) = waterfall (loss - taken) layers in (taken # rest, left))"

lemma waterfall_conserves: "waterfall loss layers = (xs, left) \<Longrightarrow> sum_list xs + left = loss"
proof (induction layers arbitrary: loss xs left)
  case (Cons c cs)
  obtain ys l where w: "waterfall (loss - min c loss) cs = (ys, l)" by fastforce
  from Cons.IH [OF w] Cons.prems w show ?case by (auto simp: Let_def algebra_simps)
qed simp

lemma waterfall_bounds:
  "waterfall loss layers = (xs, left) \<Longrightarrow> 0 \<le> loss \<Longrightarrow> \<forall>c\<in>set layers. 0 \<le> c \<Longrightarrow>
   list_all2 (\<lambda>x c. 0 \<le> x \<and> x \<le> c) xs layers \<and> 0 \<le> left"
proof (induction layers arbitrary: loss xs left)
  case (Cons c cs)
  obtain ys l where w: "waterfall (loss - min c loss) cs = (ys, l)" by fastforce
  with Cons.prems have "xs = min c loss # ys" "left = l" by (auto simp: Let_def)
  moreover have "list_all2 (\<lambda>x c. 0 \<le> x \<and> x \<le> c) ys cs \<and> 0 \<le> l"
    using Cons.IH [OF w] Cons.prems by simp
  ultimately show ?case using Cons.prems by simp
qed simp

text \<open>A layer is reached only when those before it are used up.\<close>

lemma waterfall_order:
  "waterfall loss layers = (xs, left) \<Longrightarrow> 0 \<le> loss \<Longrightarrow> \<forall>c\<in>set layers. 0 \<le> c \<Longrightarrow>
   i < j \<Longrightarrow> j < length layers \<Longrightarrow> xs ! j > 0 \<Longrightarrow> xs ! i = layers ! i"
proof (induction layers arbitrary: loss xs left i j)
  case (Cons c cs)
  obtain ys l where w: "waterfall (loss - min c loss) cs = (ys, l)" by fastforce
  with Cons.prems have xs: "xs = min c loss # ys" by (auto simp: Let_def)
  from Cons.prems obtain k where j: "j = Suc k" "k < length cs" by (cases j) auto
  show ?case
  proof (cases i)
    case 0
    have "min c loss = c"
    proof (rule ccontr)
      assume "min c loss \<noteq> c"
      then have "loss - min c loss = 0" by (auto simp: min_def split: if_splits)
      with w waterfall_conserves [OF w] waterfall_bounds [OF w] Cons.prems(3)
      have "list_all2 (\<lambda>x c. 0 \<le> x \<and> x \<le> c) ys cs" "sum_list ys + l = 0" "0 \<le> l" by auto
      moreover from this(1) have "\<forall>y\<in>set ys. 0 \<le> y" by (auto simp: list_all2_conv_all_nth in_set_conv_nth)
      ultimately have "sum_list ys = 0" using sum_list_nonneg [of ys] by auto
      with \<open>\<forall>y\<in>set ys. 0 \<le> y\<close> have "\<forall>y\<in>set ys. y = 0" by (simp add: sum_list_nonneg_eq_0_iff)
      moreover have "k < length ys" using \<open>list_all2 _ ys cs\<close> j by (simp add: list_all2_lengthD)
      ultimately show False using Cons.prems(6) j xs nth_mem [of k ys] by fastforce
    qed
    with 0 xs show ?thesis by simp
  next
    case (Suc i')
    with Cons.IH [OF w, of i' k] Cons.prems j xs show ?thesis by simp
  qed
qed simp

lemma waterfall_scale:
  fixes s :: rat
  assumes "0 < s"
  shows "waterfall (of_int loss / s) (map (\<lambda>c. of_int c / s) layers)
    = (case waterfall loss layers of (xs, left) \<Rightarrow> (map (\<lambda>x. of_int x / s) xs, of_int left / s))"
proof (induction layers arbitrary: loss)
  case (Cons c cs)
  have "min (of_int c / s) (of_int loss / s) = of_int (min c loss) / s"
    using assms by (auto simp: min_def divide_le_cancel)
  moreover have "of_int loss / s - of_int (min c loss) / s = of_int (loss - min c loss) / s"
    by (simp add: diff_divide_distrib)
  ultimately show ?case using Cons.IH [of "loss - min c loss"]
    by (simp only: waterfall.simps list.map Let_def) (simp split: prod.splits)
qed simp

definition loss_layers :: "irr_policy \<Rightarrow> 'a::linordered_idom \<Rightarrow> 'a \<Rightarrow> 'a \<Rightarrow> 'a list" where
  "loss_layers policy irr per capital = [if policy = Irr_Approved then irr else 0, per, capital]"

lemma loss_cascade_investors:
  assumes "\<not> is_bank_liability_cause (li_cause input)" "0 < loss" "0 \<le> a" "0 \<le> b" "0 \<le> c"
    "loss_cascade input scale loss a b c = Inr r"
  shows "lr_liability r = Investors_Liable
    \<and> map decimal_value [lr_irr r, lr_per r, lr_capital r, lr_bank r, lr_unabsorbed r]
      = map (\<lambda>u. Some (of_int u / 10 ^ scale))
          (case waterfall loss (loss_layers (li_irr_policy input) a b c) of (xs, left) \<Rightarrow> xs @ [0, left])"
proof -
  define irr where "irr = (if li_irr_policy input = Irr_Approved then min a loss else 0)"
  define per where "per = min b (loss - irr)"
  define capital where "capital = min c (loss - irr - per)"
  have irr: "0 \<le> irr" "irr \<le> loss" using assms(2,3) by (auto simp: irr_def)
  have per: "0 \<le> per" "per \<le> loss - irr" using irr assms(4) by (auto simp: per_def)
  have capital: "0 \<le> capital" "capital \<le> loss - irr - per" using per assms(5) by (auto simp: capital_def)
  have "irr = min (if li_irr_policy input = Irr_Approved then a else 0) loss"
    using assms(2) by (simp add: irr_def)
  then have w: "waterfall loss (loss_layers (li_irr_policy input) a b c)
      = ([irr, per, capital], loss - irr - per - capital)"
    by (simp add: loss_layers_def Let_def per_def capital_def)
  have "loss_result_of (li_cause input) loss irr per capital 0 (loss - irr - per - capital) scale
      ((if irr > 0 then [''IRR''] else []) @ (if per > 0 then [''PER''] else [])
        @ (if capital > 0 then [''DEPOSITOR_CAPITAL''] else [])) = Inr r"
    using assms(1,6) by (simp add: loss_cascade_def Let_def irr_def per_def capital_def cong: if_cong)
  from loss_result_of_Inr [OF this] irr per capital assms(1) w show ?thesis by simp
qed

text \<open>
  C4. Loss absorption: when \<open>classifyLossAbsorption\<close> returns, the loss it was given is positive
  and the five printed amounts are exactly those of the contract.  A loss caused by the bank's
  fault is borne by the bank alone; any other falls through the IRR (with capacity zero unless
  its use is approved), the PER and the depositors' capital, in that order, and what is left is
  reported as unabsorbed.  In both cases the printed amounts add up to the loss.
\<close>

theorem loss_absorption_cascade:
  assumes "classify_loss_absorption input = Inr r"
  shows "\<exists>loss irr per capital shares.
     map decimal_value [li_loss input, li_irr input, li_per input, li_capital input]
       = map Some [loss, irr, per, capital] \<and> 0 < loss
   \<and> map decimal_value [lr_irr r, lr_per r, lr_capital r, lr_bank r, lr_unabsorbed r] = map Some shares
   \<and> shares = (if is_bank_liability_cause (li_cause input) then [0, 0, 0, loss, 0]
       else case waterfall loss (loss_layers (li_irr_policy input) irr per capital) of
         (xs, left) \<Rightarrow> xs @ [0, left])
   \<and> sum_list shares = loss
   \<and> lr_liability r = (if is_bank_liability_cause (li_cause input) then Bank_Liable else Investors_Liable)"
proof -
  obtain scale loss irr per capital where
    l: "loss_units (li_loss input) scale ''lossAmount'' = Inr loss" "0 < loss"
    and a: "loss_units (li_irr input) scale ''availableIrr'' = Inr irr"
    "loss_units (li_per input) scale ''availablePer'' = Inr per"
    "loss_units (li_capital input) scale ''availableDepositorCapital'' = Inr capital"
    and r: "loss_cascade input scale loss irr per capital = Inr r"
    using assms by (auto simp: classify_loss_absorption_Inr)
  let ?q = "\<lambda>u. of_int u / 10 ^ scale :: rat"
  note units = loss_units_eqs [OF l(1)] loss_units_eqs [OF a(1)] loss_units_eqs [OF a(2)] loss_units_eqs [OF a(3)]
  have inputs: "map decimal_value [li_loss input, li_irr input, li_per input, li_capital input]
      = map Some [?q loss, ?q irr, ?q per, ?q capital] \<and> 0 < ?q loss"
    using units l(2) by simp
  show ?thesis
  proof (cases "is_bank_liability_cause (li_cause input)")
    case True
    show ?thesis
      using inputs loss_cascade_bank [OF True l(2) r] True
      by (intro exI [of _ "?q loss"] exI [of _ "?q irr"] exI [of _ "?q per"] exI [of _ "?q capital"]
          exI [of _ "[0, 0, 0, ?q loss, 0]"]) simp
  next
    case False
    obtain xs left where w: "waterfall loss (loss_layers (li_irr_policy input) irr per capital) = (xs, left)"
      by fastforce
    have "loss_layers (li_irr_policy input) (?q irr) (?q per) (?q capital)
        = map ?q (loss_layers (li_irr_policy input) irr per capital)"
      by (simp add: loss_layers_def)
    then have wq: "waterfall (?q loss) (loss_layers (li_irr_policy input) (?q irr) (?q per) (?q capital))
        = (map ?q xs, ?q left)"
      using waterfall_scale [of "10 ^ scale" loss "loss_layers (li_irr_policy input) irr per capital"] w
      by simp
    have "lr_liability r = Investors_Liable
      \<and> map decimal_value [lr_irr r, lr_per r, lr_capital r, lr_bank r, lr_unabsorbed r]
        = map Some (map ?q xs @ [0, ?q left])"
      using loss_cascade_investors [OF False l(2) _ _ _ r] units w by simp
    with inputs waterfall_conserves [OF wq] wq False show ?thesis
      by - (rule exI [of _ "?q loss"],
        rule exI [of _ "?q irr"],
        rule exI [of _ "?q per"],
        rule exI [of _ "?q capital"],
        rule exI [of _ "map ?q xs @ [0, ?q left]"], simp only: if_False prod.case, simp)
  qed
qed

definition loss_example :: loss_input where
  "loss_example = \<lparr>li_loss = ''100.00'', li_cause = Credit_Loss, li_irr_policy = Irr_Approved,
     li_irr = ''30.00'', li_per = ''20.00'', li_capital = ''10.00'', li_scale = None\<rparr>"

theorem loss_absorption_cascade_witness:
  "\<exists>r shares. classify_loss_absorption loss_example = Inr r
    \<and> lr_cascade r = [''IRR'', ''PER'', ''DEPOSITOR_CAPITAL''] \<and> lr_unabsorbed r = ''40.00''
    \<and> map decimal_value [lr_irr r, lr_per r, lr_capital r, lr_bank r, lr_unabsorbed r] = map Some shares
    \<and> sum_list shares = 100"
proof -
  have "\<exists>r. classify_loss_absorption loss_example = Inr r
    \<and> lr_cascade r = [''IRR'', ''PER'', ''DEPOSITOR_CAPITAL''] \<and> lr_unabsorbed r = ''40.00''"
    by (simp add: classify_loss_absorption_def loss_example_def loss_cascade_def loss_result_of_def
        loss_units_def loss_decimal_def is_bank_liability_cause_def bank_liability_causes_def lib_eval
        cong: eval_cong)
  then obtain r where r: "classify_loss_absorption loss_example = Inr r"
    "lr_cascade r = [''IRR'', ''PER'', ''DEPOSITOR_CAPITAL'']" "lr_unabsorbed r = ''40.00''" by blast
  from loss_absorption_cascade [OF r(1)] obtain loss irr per capital shares where
    l: "map decimal_value [li_loss loss_example, li_irr loss_example, li_per loss_example,
      li_capital loss_example] = map Some [loss, irr, per, capital]"
    and s: "map decimal_value [lr_irr r, lr_per r, lr_capital r, lr_bank r, lr_unabsorbed r] = map Some shares"
    "sum_list shares = loss" by blast
  from l have "loss = 100" by (simp add: loss_example_def text_eval)
  with r s show ?thesis by blast
qed

end
