(* ===== verification/Wakala.thy ===== *)
theory Wakala
  imports Loss
begin

text \<open>
  \<open>libs/engine/src/wakala-allocation.ts\<close>: the result of an investment agency mandate.  A profit
  pays the agent's fee (less an approved waiver, and never more than the profit), then the
  mandant's expected profit, and the surplus pays an incentive at a rate of at most one.  A loss
  is the mandant's unless it is the bank's fault.  The rate is a decimal of decimal.js.
\<close>

section \<open>Types\<close>

datatype surplus_policy = Bank_Performance_Incentive | Return_To_Mandant

record fee_waiver =
  fw_amount :: string
  fw_rationale :: string
  fw_approved :: bool

record wakala_input =
  wi_mandate :: string
  wi_realized :: string
  wi_expected :: string
  wi_fee :: string
  wi_waiver :: "fee_waiver option"
  wi_policy :: surplus_policy
  wi_rate :: string
  wi_bank_fault :: "bool option"
  wi_loss_cause :: "loss_cause option"
  wi_scale :: "jsnum option"

datatype performance = Wakala_Loss | Underperformance | At_Or_Above_Expectation

datatype loss_attribution = Nobody | Mandant | Bank

record wakala_result =
  wr_mandate :: string
  wr_performance :: performance
  wr_realized :: string
  wr_expected :: string
  wr_fee :: string
  wr_waived :: string
  wr_charged :: string
  wr_incentive :: string
  wr_mandant :: string
  wr_bank :: string
  wr_attribution :: loss_attribution
  wr_difference :: string

section \<open>Operations\<close>

definition wakala_units :: "string \<Rightarrow> nat \<Rightarrow> string \<Rightarrow> bool \<Rightarrow> int res" where
  "wakala_units value scale field is_signed =
     (if is_signed then units_signed value scale field else units_unsigned value scale field)"

definition wakala_rate :: "'d decimal_lib \<Rightarrow> string \<Rightarrow> string \<Rightarrow> 'd res" where
  "wakala_rate lib value field = read_non_negative lib value field"

definition rounded_product :: "'d decimal_lib \<Rightarrow> int \<Rightarrow> 'd \<Rightarrow> int res" where
  "rounded_product lib units multiplier =
     big_int (d_to_fixed lib 0 (d_to_places lib 0 (d_times lib (d_of_int lib units) multiplier)))"

definition minimum :: "int \<Rightarrow> int \<Rightarrow> int" where
  "minimum left right = (if left < right then left else right)"

definition wakala_text :: "int \<Rightarrow> nat \<Rightarrow> string" where
  "wakala_text units scale = render_units scale units"

definition attributed_to_bank :: "wakala_input \<Rightarrow> bool" where
  "attributed_to_bank input = (case wi_loss_cause input of
     None \<Rightarrow> wi_bank_fault input = Some True
   | Some cause \<Rightarrow> is_bank_liability_cause cause)"

text \<open>The two return statements on the amounts in units: a loss, and a profit.\<close>

definition wakala_loss :: "wakala_input \<Rightarrow> nat \<Rightarrow> int \<Rightarrow> int \<Rightarrow> int \<Rightarrow> wakala_result" where
  "wakala_loss input scale realized expected contractual_fee = (let to_bank = attributed_to_bank input in
     \<lparr>wr_mandate = wi_mandate input, wr_performance = Wakala_Loss,
      wr_realized = wakala_text realized scale, wr_expected = wakala_text expected scale,
      wr_fee = wakala_text contractual_fee scale, wr_waived = wakala_text contractual_fee scale,
      wr_charged = wakala_text 0 scale, wr_incentive = wakala_text 0 scale,
      wr_mandant = wakala_text (if to_bank then 0 else realized) scale,
      wr_bank = wakala_text (if to_bank then realized else 0) scale,
      wr_attribution = (if to_bank then Bank else Mandant),
      wr_difference = wakala_text 0 scale\<rparr>)"

definition wakala_profit ::
  "'d decimal_lib \<Rightarrow> wakala_input \<Rightarrow> nat \<Rightarrow> int \<Rightarrow> int \<Rightarrow> int \<Rightarrow> int \<Rightarrow> 'd \<Rightarrow> wakala_result res" where
  "wakala_profit lib input scale realized expected contractual_fee waiver incentive_rate =
     (let charged_fee = minimum (contractual_fee - waiver) realized;
          after_fee = realized - charged_fee;
          surplus = (if after_fee > expected then after_fee - expected else 0) in
      and_then (if wi_policy input = Bank_Performance_Incentive
                then rounded_product lib surplus incentive_rate else Inr 0) (\<lambda>incentive.
      let mandant_result = after_fee - incentive;
          bank_total = charged_fee + incentive;
          difference = realized - mandant_result - bank_total in
      if difference \<noteq> 0 then Inl (Failure ''Wakala allocation conservation invariant violated'')
      else Inr \<lparr>wr_mandate = wi_mandate input,
        wr_performance = (if realized < expected then Underperformance else At_Or_Above_Expectation),
        wr_realized = wakala_text realized scale, wr_expected = wakala_text expected scale,
        wr_fee = wakala_text contractual_fee scale, wr_waived = wakala_text waiver scale,
        wr_charged = wakala_text charged_fee scale, wr_incentive = wakala_text incentive scale,
        wr_mandant = wakala_text mandant_result scale, wr_bank = wakala_text bank_total scale,
        wr_attribution = Nobody, wr_difference = wakala_text difference scale\<rparr>))"

definition waiver_documented :: "fee_waiver option \<Rightarrow> bool" where
  "waiver_documented w = (case w of None \<Rightarrow> False
     | Some v \<Rightarrow> fw_approved v \<and> \<not> blank (fw_rationale v))"

definition allocate_wakala_profit :: "'d decimal_lib \<Rightarrow> wakala_input \<Rightarrow> wakala_result res" where
  "allocate_wakala_profit lib input =
     (if blank (wi_mandate input) then Inl (TypeError ''mandateId is required'') else
      and_then (currency_scale (wi_scale input)) (\<lambda>scale.
      and_then (wakala_units (wi_realized input) scale ''realizedProfit'' True) (\<lambda>realized.
      and_then (wakala_units (wi_expected input) scale ''indicativeExpectedProfit'' False) (\<lambda>expected.
      and_then (wakala_units (wi_fee input) scale ''contractualFee'' False) (\<lambda>contractual_fee.
      and_then (wakala_rate lib (wi_rate input) ''performanceIncentiveRate'') (\<lambda>incentive_rate.
      if d_greater lib incentive_rate (d_of_int lib 1)
      then Inl (RangeError ''performanceIncentiveRate cannot exceed 1'') else
      and_then (case wi_waiver input of None \<Rightarrow> Inr 0
                | Some w \<Rightarrow> wakala_units (fw_amount w) scale ''feeWaiver.amount'' False) (\<lambda>waiver.
      if waiver > contractual_fee then Inl (RangeError ''feeWaiver.amount cannot exceed contractualFee'')
      else if waiver > 0 \<and> \<not> waiver_documented (wi_waiver input)
      then Inl (TypeError ''A fee waiver must be approved and documented'')
      else if realized < 0 then Inr (wakala_loss input scale realized expected contractual_fee)
      else wakala_profit lib input scale realized expected contractual_fee waiver incentive_rate)))))))"

section \<open>Properties\<close>

lemma minimum_min [simp]: "minimum a b = min a b"
  by (simp add: minimum_def min_def)

lemma wakala_text_value [simp]: "decimal_value (wakala_text u scale) = Some (of_int u / 10 ^ scale)"
  by (simp add: wakala_text_def)

lemma wakala_units_value:
  "wakala_units v k f s = Inr u \<Longrightarrow> decimal_value v = Some (of_int u / 10 ^ k) \<and> (\<not> s \<longrightarrow> 0 \<le> u)"
  using units_signed_value [of v k f u] units_unsigned_value [of v k f u] units_unsigned_nonneg [of v k f u]
  by (auto simp: wakala_units_def split: if_splits)

text \<open>The incentive: a rounded product with a rate of at most one stays within the surplus.\<close>

lemma half_near_mono:
  fixes x :: rat
  assumes "\<bar>of_int u - x\<bar> \<le> 1 / 2" "of_int a \<le> x" "x \<le> of_int b"
  shows "a \<le> u \<and> u \<le> b"
proof -
  have "of_int a - 1 < (of_int u :: rat)" "(of_int u :: rat) < of_int b + 1"
    using assms(2,3) abs_le_D1 [OF assms(1)] abs_le_D2 [OF assms(1)] by linarith+
  then show ?thesis by linarith
qed

lemma rounded_product_bounds:
  assumes laws: "decimal_laws lib p val" and rate: "val m = Some q" "0 \<le> q" "q \<le> 1"
    and units: "0 \<le> units" "units < 10 ^ p"
  shows "\<exists>u. rounded_product lib units m = Inr u \<and> 0 \<le> u \<and> u \<le> units"
proof -
  have n: "val (d_of_int lib units) = Some (of_int units)"
    using laws by (rule decimal_laws_of_int)
  from decimal_laws_ops(3) [OF laws n rate(1)] obtain r where
    r: "val (d_times lib (d_of_int lib units) m) = Some r" "rounded p (of_int units * q) r" by blast
  have "representable p (of_int units)" using units by (intro representable_of_int) simp
  then have "r \<le> of_int units" using rate units by (intro rounded_le [OF r(2)]) (simp_all add: mult_left_le)
  moreover have "0 \<le> r" using rate units by (intro rounded_ge [OF r(2)]) simp_all
  moreover obtain u where u: "val (d_to_places lib 0 (d_times lib (d_of_int lib units) m)) = Some (of_int u / 10 ^ 0)"
    "\<bar>of_int u - r * 10 ^ 0\<bar> \<le> 1 / 2"
    using decimal_laws_unary(7) [OF laws r(1), of 0] by blast
  ultimately have "0 \<le> u \<and> u \<le> units" using half_near_mono [of u r 0 units] by simp
  moreover have "d_to_fixed lib 0 (d_to_places lib 0 (d_times lib (d_of_int lib units) m)) = render_units 0 u"
    using laws u(1) by (rule decimal_laws_unary(8)) simp
  ultimately show ?thesis by (simp add: rounded_product_def big_int_render)
qed

lemma wakala_rate_value:
  assumes "decimal_laws lib p val" "wakala_rate lib s f = Inr m" "\<not> d_greater lib m (d_of_int lib 1)"
  shows "\<exists>q. val m = Some q \<and> 0 \<le> q \<and> q \<le> 1"
proof -
  obtain i g where s: "unsigned_decimal s = Some (i, g)" and m: "m = of_text lib s"
    using assms(2) by (auto simp: wakala_rate_def read_non_negative_def split: if_splits)
  then have "decimal_value s = Some (text_value i g)"
    by (simp add: decimal_value_def signed_decimal_unsigned signed_value_def)
  with assms(1) have v: "val m = Some (text_value i g)" unfolding m by (rule decimal_laws_text)
  moreover have "0 \<le> text_value i g" by (simp add: text_value_def)
  moreover have "text_value i g \<le> 1"
    using decimal_laws_compare(2) [OF assms(1) v decimal_laws_of_int [OF assms(1), of 1]] assms(3) by simp
  ultimately show ?thesis by blast
qed

lemma wakala_profit_Inr:
  "wakala_profit lib input scale realized expected fee waiver m = Inr r \<longleftrightarrow> (\<exists>incentive charged.
     (if wi_policy input = Bank_Performance_Incentive
      then rounded_product lib (max (realized - charged - expected) 0) m = Inr incentive else incentive = 0)
   \<and> charged = min (fee - waiver) realized
   \<and> r = \<lparr>wr_mandate = wi_mandate input,
        wr_performance = (if realized < expected then Underperformance else At_Or_Above_Expectation),
        wr_realized = wakala_text realized scale, wr_expected = wakala_text expected scale,
        wr_fee = wakala_text fee scale, wr_waived = wakala_text waiver scale,
        wr_charged = wakala_text charged scale, wr_incentive = wakala_text incentive scale,
        wr_mandant = wakala_text (realized - charged - incentive) scale,
        wr_bank = wakala_text (charged + incentive) scale,
        wr_attribution = Nobody, wr_difference = wakala_text 0 scale\<rparr>)"
proof -
  have "(if realized - min (fee - waiver) realized > expected
      then realized - min (fee - waiver) realized - expected else 0)
      = max (realized - min (fee - waiver) realized - expected) 0" by simp
  then show ?thesis
    by (auto simp: wakala_profit_def Let_def outcome split: if_splits)
qed

lemma allocate_wakala_profit_Inr:
  assumes "allocate_wakala_profit lib input = Inr r"
  obtains scale realized expected fee waiver m where "scale \<le> 12"
    "wakala_units (wi_realized input) scale ''realizedProfit'' True = Inr realized"
    "wakala_units (wi_expected input) scale ''indicativeExpectedProfit'' False = Inr expected"
    "wakala_units (wi_fee input) scale ''contractualFee'' False = Inr fee"
    "wakala_rate lib (wi_rate input) ''performanceIncentiveRate'' = Inr m"
    "\<not> d_greater lib m (d_of_int lib 1)" "0 \<le> waiver" "waiver \<le> fee"
    "waiver > 0 \<longrightarrow> waiver_documented (wi_waiver input)"
    "(if realized < 0 then Inr (wakala_loss input scale realized expected fee)
      else wakala_profit lib input scale realized expected fee waiver m) = Inr r"
proof -
  from assms obtain scale realized expected fee m waiver where
    s: "currency_scale (wi_scale input) = Inr scale"
    and u: "wakala_units (wi_realized input) scale ''realizedProfit'' True = Inr realized"
    "wakala_units (wi_expected input) scale ''indicativeExpectedProfit'' False = Inr expected"
    "wakala_units (wi_fee input) scale ''contractualFee'' False = Inr fee"
    "wakala_rate lib (wi_rate input) ''performanceIncentiveRate'' = Inr m"
    "\<not> d_greater lib m (d_of_int lib 1)"
    and w: "(case wi_waiver input of None \<Rightarrow> Inr 0
      | Some w \<Rightarrow> wakala_units (fw_amount w) scale ''feeWaiver.amount'' False) = Inr waiver"
    and g: "\<not> waiver > fee" "\<not> (waiver > 0 \<and> \<not> waiver_documented (wi_waiver input))"
    and r: "(if realized < 0 then Inr (wakala_loss input scale realized expected fee)
      else wakala_profit lib input scale realized expected fee waiver m) = Inr r"
    unfolding allocate_wakala_profit_def and_then_Inr if_throw_Inr(1) by blast
  have "0 \<le> waiver"
    using w wakala_units_value [of _ scale _ False waiver] by (auto split: option.splits)
  with that [OF currency_scale_le [OF s] u _ _ _ r] g show thesis by linarith
qed

text \<open>The incentive of a profit: within the surplus, whatever the policy.\<close>

lemma wakala_incentive_bounds:
  assumes laws: "decimal_laws lib 50 val" and scale: "scale \<le> 12"
    and m: "wakala_rate lib t f = Inr m" "\<not> d_greater lib m (d_of_int lib 1)"
    and small: "of_int realized / 10 ^ scale < (10 ^ 38 :: rat)"
    and c: "0 \<le> charged" "charged \<le> realized"
    and inc: "if policy = Bank_Performance_Incentive
      then rounded_product lib (max (realized - charged - expected) 0) m = Inr incentive else incentive = 0"
    and e: "0 \<le> expected"
  shows "0 \<le> incentive \<and> min expected (realized - charged) \<le> realized - charged - incentive"
proof -
  let ?s = "max (realized - charged - expected) 0"
  have "(10 :: rat) ^ scale \<le> 10 ^ 12" using scale by (intro power_increasing) simp_all
  then have "(10 :: rat) ^ 38 * 10 ^ scale \<le> 10 ^ 38 * 10 ^ 12" by (intro mult_left_mono) simp_all
  moreover have "(of_int realized :: rat) < 10 ^ 38 * 10 ^ scale" using small by (simp add: divide_less_eq)
  ultimately have "(of_int realized :: rat) < 10 ^ 38 * 10 ^ 12" by linarith
  then have "(of_int realized :: rat) < of_int (10 ^ 50)" by simp
  then have "realized < 10 ^ 50" by (simp only: of_int_less_iff)
  then have "0 \<le> ?s" "?s < 10 ^ 50" using c e by simp_all
  moreover obtain q where "val m = Some q" "0 \<le> q" "q \<le> 1"
    using wakala_rate_value [OF laws m] by blast
  ultimately obtain u where "rounded_product lib ?s m = Inr u" "0 \<le> u" "u \<le> ?s"
    using rounded_product_bounds [OF laws, of m q ?s] by blast
  with inc c e show ?thesis by (auto split: if_splits)
qed

text \<open>
  C5. Agency result: the mandant's and the bank's printed amounts always add up to the realized
  result.  A loss is borne entirely by one side, the bank exactly when it is at fault, and no fee
  is charged.  A profit pays a fee between zero and the smaller of the profit and the contractual
  fee; and under the documented behaviour of decimal.js (for amounts of at most 50 digits) the
  incentive lies between zero and the surplus, so that the mandant keeps at least the expected
  profit or everything left after the fee.
\<close>

theorem wakala_shares:
  assumes "decimal_laws lib 50 val" "allocate_wakala_profit lib input = Inr r"
  shows "\<exists>realized expected fee charged incentive mandant bank.
     map decimal_value [wi_realized input, wi_expected input, wi_fee input] = map Some [realized, expected, fee]
   \<and> map decimal_value [wr_charged r, wr_incentive r, wr_mandant r, wr_bank r]
       = map Some [charged, incentive, mandant, bank]
   \<and> mandant + bank = realized
   \<and> (realized < 0 \<longrightarrow> charged = 0 \<and> incentive = 0
        \<and> (if attributed_to_bank input then mandant = 0 \<and> wr_attribution r = Bank
           else bank = 0 \<and> wr_attribution r = Mandant))
   \<and> (0 \<le> realized \<longrightarrow> bank = charged + incentive \<and> 0 \<le> charged \<and> charged \<le> min fee realized
        \<and> (realized < 10 ^ 38 \<longrightarrow> 0 \<le> incentive \<and> min expected (realized - charged) \<le> mandant))"
  using assms(2)
proof (cases rule: allocate_wakala_profit_Inr)
  case (1 scale realized expected fee waiver m)
  let ?q = "\<lambda>u. of_int u / 10 ^ scale :: rat"
  note units = wakala_units_value [OF 1(2)] wakala_units_value [OF 1(3)] wakala_units_value [OF 1(4)]
  have inputs: "map decimal_value [wi_realized input, wi_expected input, wi_fee input]
      = map Some [?q realized, ?q expected, ?q fee]" using units by simp
  show ?thesis
  proof (cases "realized < 0")
    case True
    with 1(10) have r: "r = wakala_loss input scale realized expected fee" by simp
    have "?q realized < 0" using True by (simp add: divide_less_0_iff)
    then show ?thesis
      using inputs
      by - (rule exI [of _ "?q realized"],
        rule exI [of _ "?q expected"],
        rule exI [of _ "?q fee"],
        rule exI [of _ 0],
        rule exI [of _ 0],
        rule exI [of _ "if attributed_to_bank input then 0 else ?q realized"],
        rule exI [of _ "if attributed_to_bank input then ?q realized else 0"], simp add: r wakala_loss_def Let_def)
  next
    case False
    from False 1(10) have "wakala_profit lib input scale realized expected fee waiver m = Inr r" by simp
    then obtain incentive charged where
      inc: "if wi_policy input = Bank_Performance_Incentive
        then rounded_product lib (max (realized - charged - expected) 0) m = Inr incentive else incentive = 0"
      and charged_def: "charged = min (fee - waiver) realized"
      and r0: "wr_charged r = wakala_text charged scale" "wr_incentive r = wakala_text incentive scale"
        "wr_mandant r = wakala_text (realized - charged - incentive) scale"
        "wr_bank r = wakala_text (charged + incentive) scale"
      unfolding wakala_profit_Inr by (metis wakala_result.select_convs)
    have r: "map decimal_value [wr_charged r, wr_incentive r, wr_mandant r, wr_bank r]
        = map Some [?q charged, ?q incentive, ?q (realized - charged - incentive), ?q (charged + incentive)]"
      by (simp add: r0)
    have c: "0 \<le> charged" "charged \<le> realized" "charged \<le> fee"
      using False 1(7,8) by (auto simp: charged_def)
    have bound: "0 \<le> incentive \<and> min expected (realized - charged) \<le> realized - charged - incentive"
      if small: "?q realized < 10 ^ 38"
      using wakala_incentive_bounds [OF assms(1) 1(1,5,6) small c(1,2) inc] units by simp
    have scaled: "?q a \<le> ?q b \<longleftrightarrow> a \<le> b" "?q 0 = 0" "?q (a + b) = ?q a + ?q b" "?q (a - b) = ?q a - ?q b"
      "min (?q a) (?q b) = ?q (min a b)" for a b
      by (auto simp: divide_le_cancel add_divide_distrib diff_divide_distrib min_def)
    have sign: "\<not> ?q realized < 0" using False by (simp add: divide_less_0_iff)
    have "0 \<le> ?q charged \<and> ?q charged \<le> min (?q fee) (?q realized)"
      using c by (simp add: scaled(5) divide_le_cancel)
    moreover have "0 \<le> ?q incentive \<and> min (?q expected) (?q realized - ?q charged) \<le> ?q realized - ?q charged - ?q incentive"
      if "?q realized < 10 ^ 38"
      using bound [OF that] scaled(1) [of 0 incentive]
      by (simp only: scaled(4) [symmetric] scaled(5) scaled(1)) (simp add: scaled(2))
    ultimately show ?thesis
      using inputs r sign
      by - (rule exI [of _ "?q realized"],
        rule exI [of _ "?q expected"],
        rule exI [of _ "?q fee"],
        rule exI [of _ "?q charged"],
        rule exI [of _ "?q incentive"],
        rule exI [of _ "?q (realized - charged - incentive)"],
        rule exI [of _ "?q (charged + incentive)"], simp only: scaled(3,4), simp)
  qed
qed

definition wakala_example :: wakala_input where
  "wakala_example = \<lparr>wi_mandate = ''m-1'', wi_realized = ''1000.00'', wi_expected = ''600.00'',
     wi_fee = ''100.00'', wi_waiver = None, wi_policy = Bank_Performance_Incentive, wi_rate = ''0.5'',
     wi_bank_fault = None, wi_loss_cause = None, wi_scale = None\<rparr>"

theorem wakala_shares_witness:
  "\<exists>r. allocate_wakala_profit exact_lib wakala_example = Inr r \<and> wr_incentive r = ''150.00''
     \<and> wr_mandant r = ''750.00'' \<and> wr_bank r = ''250.00''
     \<and> (\<exists>mandant bank. decimal_value (wr_mandant r) = Some mandant
         \<and> decimal_value (wr_bank r) = Some bank \<and> mandant + bank = 1000)"
proof -
  have "\<exists>r. allocate_wakala_profit exact_lib wakala_example = Inr r \<and> wr_incentive r = ''150.00''
     \<and> wr_mandant r = ''750.00'' \<and> wr_bank r = ''250.00''"
    by (simp add: allocate_wakala_profit_def wakala_example_def trim_def js_space_def wakala_units_def
        wakala_rate_def wakala_profit_def rounded_product_def wakala_text_def lib_eval cong: eval_cong)
  then obtain r where r: "allocate_wakala_profit exact_lib wakala_example = Inr r"
    "wr_incentive r = ''150.00''" "wr_mandant r = ''750.00''" "wr_bank r = ''250.00''" by blast
  from wakala_shares [OF exact_lib_laws r(1)] obtain realized mandant bank where
    "decimal_value (wi_realized wakala_example) = Some realized" "decimal_value (wr_mandant r) = Some mandant"
    "decimal_value (wr_bank r) = Some bank" "mandant + bank = realized"
    by (clarsimp simp only: list.map list.inject)
  moreover from this(1) have "realized = 1000" by (simp add: wakala_example_def text_eval)
  ultimately show ?thesis using r by blast
qed

end
