(* ===== verification/Moudaraba.thy ===== *)
theory Moudaraba
  imports Decimal_Lib Largest_Remainder
begin

text \<open>
  \<open>libs/engine/src/moudaraba-allocation.ts\<close>: the profit of a participation pool is split
  between investors and bank by their agreed ratio (the Nisba), a reserve contribution is taken
  from the investors' part, and the rest is divided among the accounts, either by weight or by
  fixed category keys and then by weight.  Every division is the largest-remainder allocator
  \<open>allocateUnits\<close>, here over decimals of decimal.js.
\<close>

section \<open>Types\<close>

datatype moudaraba_method = Fixed_Category_Key | Weighted_Average

record moudaraba_participant =
  mp_account :: string
  mp_category :: string
  mp_base :: string

record category_key =
  ck_category :: string
  ck_key :: string

record moudaraba_input =
  mi_profit :: string
  mi_investor_nisba :: string
  mi_bank_nisba :: string
  mi_irr :: string
  mi_method :: moudaraba_method
  mi_participants :: "moudaraba_participant list"
  mi_keys :: "category_key list option"
  mi_scale :: "jsnum option"

record account_allocation =
  aa_account :: string
  aa_category :: string
  aa_base :: string
  aa_profit :: string

record moudaraba_result =
  mr_method :: moudaraba_method
  mr_profit :: string
  mr_bank :: string
  mr_investor_before_irr :: string
  mr_irr :: string
  mr_investor_after_irr :: string
  mr_accounts :: "account_allocation list"
  mr_remainder :: string

section \<open>Helpers of the file\<close>

fun moudaraba_unique :: "string \<Rightarrow> string set \<Rightarrow> string list \<Rightarrow> unit res" where
  "moudaraba_unique field seen [] = Inr ()"
| "moudaraba_unique field seen (value # rest) =
     (if value = [] \<or> value \<in> seen
      then Inl (TypeError (''Duplicate or empty '' @ field @ '': '' @ value))
      else moudaraba_unique field (insert value seen) rest)"

definition moudaraba_units :: "string \<Rightarrow> nat \<Rightarrow> string \<Rightarrow> int res" where
  "moudaraba_units = units_unsigned"

definition moudaraba_text :: "int \<Rightarrow> nat \<Rightarrow> string" where
  "moudaraba_text = unsigned_text"

definition moudaraba_decimal :: "'d decimal_lib \<Rightarrow> string \<Rightarrow> string \<Rightarrow> 'd res" where
  "moudaraba_decimal = read_non_negative"

section \<open>\<open>allocateUnits\<close>\<close>

definition decimal_sum :: "'d decimal_lib \<Rightarrow> 'd list \<Rightarrow> 'd" where
  "decimal_sum lib ws = foldl (d_plus lib) (d_of_int lib 0) ws"

definition decimal_quota :: "'d decimal_lib \<Rightarrow> int \<Rightarrow> (string \<times> 'd) list \<Rightarrow> 'd alloc_share list res" where
  "decimal_quota lib amount entries = (let total_weight = decimal_sum lib (map snd entries) in
     traverse (\<lambda>(ident, weight).
       let exact = d_divided_by lib (d_times lib (d_of_int lib amount) weight) total_weight in
       and_then (big_int (d_to_fixed lib 0 (d_floor lib exact))) (\<lambda>units.
         Inr \<lparr>share_id = ident, share_units = units,
              share_remainder = d_minus lib exact (d_of_int lib units)\<rparr>)) entries)"

definition decimal_priority ::
  "'d decimal_lib \<Rightarrow> (string \<Rightarrow> string \<Rightarrow> int) \<Rightarrow> 'd alloc_share \<Rightarrow> 'd alloc_share \<Rightarrow> int" where
  "decimal_priority lib lc left right =
     (case d_compared_to lib (share_remainder right) (share_remainder left) of
        None \<Rightarrow> 0
      | Some order \<Rightarrow> if order = 0 then lc (share_id left) (share_id right) else order)"

definition allocate_units ::
  "'d decimal_lib \<Rightarrow> (string \<Rightarrow> string \<Rightarrow> int) \<Rightarrow> int \<Rightarrow> (string \<times> 'd) list \<Rightarrow> (string \<times> int) list res" where
  "allocate_units lib lc amount entries =
     (if entries = [] then Inl (TypeError ''At least one allocation weight is required'')
      else if \<not> d_is_positive lib (decimal_sum lib (map snd entries))
      then Inl (RangeError ''Total allocation weight must be positive'')
      else and_then (decimal_quota lib amount entries) (\<lambda>shares.
        Inr (new_map (map (\<lambda>s. (share_id s, share_units s))
          (settle (decimal_priority lib lc) amount shares)))))"

section \<open>\<open>allocateByFixedCategoryKey\<close>\<close>

text \<open>A participant with its parsed weight, \<open>{ ...participant, basis }\<close>.\<close>

type_synonym 'd based = "moudaraba_participant \<times> 'd"

definition get_units :: "(string \<times> int) list \<Rightarrow> string \<Rightarrow> int" where
  "get_units m k = (case map_of m k of None \<Rightarrow> 0 | Some u \<Rightarrow> u)"

definition members_of :: "string \<Rightarrow> 'd based list \<Rightarrow> 'd based list" where
  "members_of category participants = filter (\<lambda>(p, _). mp_category p = category) participants"

text \<open>The loop over the keys that fills the result map.\<close>

fun category_loop ::
  "'d decimal_lib \<Rightarrow> (string \<Rightarrow> string \<Rightarrow> int) \<Rightarrow> (string \<times> int) list \<Rightarrow> 'd based list \<Rightarrow>
   (string \<times> int) list \<Rightarrow> (string \<times> 'd) list \<Rightarrow> (string \<times> int) list res" where
  "category_loop lib lc category_units participants acc [] = Inr acc"
| "category_loop lib lc category_units participants acc ((key, _) # rest) =
     (let members = members_of key participants in
      if members = [] then category_loop lib lc category_units participants acc rest
      else and_then (allocate_units lib lc (get_units category_units key)
              (map (\<lambda>(p, basis). (mp_account p, basis)) members)) (\<lambda>allocations.
             category_loop lib lc category_units participants (set_all acc allocations) rest))"

definition allocate_by_fixed_category_key ::
  "'d decimal_lib \<Rightarrow> (string \<Rightarrow> string \<Rightarrow> int) \<Rightarrow> int \<Rightarrow> 'd based list \<Rightarrow> category_key list option \<Rightarrow>
   (string \<times> int) list res" where
  "allocate_by_fixed_category_key lib lc amount participants keys =
     (let category_keys = (case keys of None \<Rightarrow> [] | Some ks \<Rightarrow> ks) in
      if category_keys = [] then Inl (TypeError ''categoryKeys are required for FIXED_CATEGORY_KEY'')
      else and_then (moudaraba_unique ''categoryId'' {} (map ck_category category_keys)) (\<lambda>_.
      and_then (traverse (\<lambda>entry. and_then
          (moudaraba_decimal lib (ck_key entry) (''allocationKey:'' @ ck_category entry))
          (\<lambda>w. Inr (ck_category entry, w))) category_keys) (\<lambda>parsed_keys.
      if \<not> d_equals lib (decimal_sum lib (map snd parsed_keys)) (d_of_int lib 1)
      then Inl (RangeError ''Fixed category keys must total exactly 1'')
      else and_then (each (\<lambda>(p, _). if mp_category p \<in> fst ` set parsed_keys then Inr ()
             else Inl (RangeError (''Missing fixed key for category '' @ mp_category p))) participants) (\<lambda>_.
      and_then (each (\<lambda>(key, w). if \<not> list_ex (\<lambda>(p, _). mp_category p = key) participants \<and> \<not> d_is_zero lib w
             then Inl (RangeError (''Category '' @ key @ '' has a non-zero key but no participant''))
             else Inr ()) parsed_keys) (\<lambda>_.
      and_then (allocate_units lib lc amount parsed_keys) (\<lambda>category_units.
        category_loop lib lc category_units participants [] parsed_keys))))))"

section \<open>\<open>allocateMoudarabaProfit\<close>\<close>

definition parse_bases :: "'d decimal_lib \<Rightarrow> moudaraba_participant list \<Rightarrow> 'd based list res" where
  "parse_bases lib participants = traverse (\<lambda>p. and_then
     (moudaraba_decimal lib (mp_base p) (''weightedParticipationBase:'' @ mp_account p))
     (\<lambda>basis. Inr (p, basis))) participants"

definition moudaraba_accounts ::
  "'d decimal_lib \<Rightarrow> (string \<Rightarrow> string \<Rightarrow> int) \<Rightarrow> moudaraba_input \<Rightarrow> int \<Rightarrow> 'd based list \<Rightarrow> (string \<times> int) list res" where
  "moudaraba_accounts lib lc input amount bases =
     (if mi_method input = Weighted_Average
      then allocate_units lib lc amount (map (\<lambda>(p, basis). (mp_account p, basis)) bases)
      else allocate_by_fixed_category_key lib lc amount bases (mi_keys input))"

text \<open>From the split of the Nisba to the result.\<close>

definition moudaraba_settlement ::
  "'d decimal_lib \<Rightarrow> (string \<Rightarrow> string \<Rightarrow> int) \<Rightarrow> moudaraba_input \<Rightarrow> nat \<Rightarrow> int \<Rightarrow> int \<Rightarrow>
   (string \<times> int) list \<Rightarrow> moudaraba_result res" where
  "moudaraba_settlement lib lc input scale profit_units irr_units nisba_shares =
     (let investor_before_irr = get_units nisba_shares ''INVESTOR'';
          bank_share = get_units nisba_shares ''BANK'' in
      if irr_units > investor_before_irr
      then Inl (RangeError ''irrAllocation cannot exceed the investor share'')
      else (let investor_after_irr = investor_before_irr - irr_units in
      and_then (parse_bases lib (mi_participants input)) (\<lambda>bases.
      and_then (moudaraba_accounts lib lc input investor_after_irr bases) (\<lambda>account_units.
      let allocated_total = sum_list (map snd account_units);
          remainder = investor_after_irr - allocated_total in
      if remainder \<noteq> 0 then Inl (Failure ''Moudaraba allocation conservation invariant violated'')
      else if bank_share + irr_units + allocated_total \<noteq> profit_units
      then Inl (Failure ''Moudaraba profit conservation invariant violated'')
      else Inr \<lparr>mr_method = mi_method input, mr_profit = moudaraba_text profit_units scale,
        mr_bank = moudaraba_text bank_share scale,
        mr_investor_before_irr = moudaraba_text investor_before_irr scale,
        mr_irr = moudaraba_text irr_units scale,
        mr_investor_after_irr = moudaraba_text investor_after_irr scale,
        mr_accounts = map (\<lambda>(p, _). \<lparr>aa_account = mp_account p, aa_category = mp_category p,
          aa_base = mp_base p,
          aa_profit = moudaraba_text (get_units account_units (mp_account p)) scale\<rparr>) bases,
        mr_remainder = moudaraba_text remainder scale\<rparr>))))"

definition allocate_moudaraba_profit ::
  "'d decimal_lib \<Rightarrow> (string \<Rightarrow> string \<Rightarrow> int) \<Rightarrow> moudaraba_input \<Rightarrow> moudaraba_result res" where
  "allocate_moudaraba_profit lib lc input =
     and_then (currency_scale (mi_scale input)) (\<lambda>scale.
     if mi_participants input = [] then Inl (TypeError ''At least one participant is required'') else
     and_then (moudaraba_unique ''accountId'' {} (map mp_account (mi_participants input))) (\<lambda>_.
     and_then (moudaraba_units (mi_profit input) scale ''profitAfterPer'') (\<lambda>profit_units.
     if profit_units < 0 then Inl (RangeError ''profitAfterPer cannot be negative'') else
     and_then (moudaraba_units (mi_irr input) scale ''irrAllocation'') (\<lambda>irr_units.
     if irr_units < 0 then Inl (RangeError ''irrAllocation cannot be negative'') else
     and_then (moudaraba_decimal lib (mi_investor_nisba input) ''investorNisba'') (\<lambda>investor_nisba.
     and_then (moudaraba_decimal lib (mi_bank_nisba input) ''bankNisba'') (\<lambda>bank_nisba.
     if \<not> d_equals lib (d_plus lib investor_nisba bank_nisba) (d_of_int lib 1)
     then Inl (RangeError ''Investor and bank Nisba must total exactly 1'')
     else and_then (allocate_units lib lc profit_units
        [(''INVESTOR'', investor_nisba), (''BANK'', bank_nisba)]) (\<lambda>nisba_shares.
       moudaraba_settlement lib lc input scale profit_units irr_units nisba_shares)))))))"

section \<open>The decimal allocator as a largest-remainder allocator\<close>

interpretation decimal_remainder: largest_remainder "decimal_quota lib" "decimal_priority lib lc" fst
  for lib :: "'d decimal_lib" and lc
proof
  fix amount ws and shares :: "'d alloc_share list"
  assume "decimal_quota lib amount ws = Inr shares"
  then have "list_all2 (\<lambda>w s. share_id s = fst w) ws shares"
    unfolding decimal_quota_def Let_def traverse_Inr_iff
    by (rule list_all2_mono) (auto simp: outcome split: prod.splits)
  then show "map share_id shares = map fst ws"
    by (auto simp: list_all2_conv_all_nth intro: nth_equalityI)
qed

lemma moudaraba_unique_iff:
  "moudaraba_unique field seen xs = Inr u \<longleftrightarrow> distinct xs \<and> [] \<notin> set xs \<and> set xs \<inter> seen = {}"
  by (induction field seen xs rule: moudaraba_unique.induct) auto

lemma allocate_units_Inr:
  assumes "allocate_units lib lc amount entries = Inr m" "distinct (map fst entries)"
  obtains shares where "decimal_quota lib amount entries = Inr shares" "entries \<noteq> []"
    "map fst m = map fst entries"
    "map snd m = map share_units (settle (decimal_priority lib lc) amount shares)"
proof -
  obtain shares where s: "decimal_quota lib amount entries = Inr shares" and ne: "entries \<noteq> []"
    and m: "m = new_map (map (\<lambda>s. (share_id s, share_units s)) (settle (decimal_priority lib lc) amount shares))"
    using assms(1) by (auto simp: allocate_units_def outcome split: if_splits)
  have "map share_id (settle (decimal_priority lib lc) amount shares) = map fst entries"
    using s by (rule decimal_remainder.settled_ids)
  with m assms(2) s ne show thesis by (intro that) (simp_all add: o_def)
qed

text \<open>Under the laws of decimal.js no share is negative.\<close>

lemma decimal_sum_nonneg:
  assumes laws: "decimal_laws lib p val"
  shows "\<forall>w\<in>set ws. \<exists>q. val w = Some q \<and> 0 \<le> q \<Longrightarrow> \<exists>q. val (decimal_sum lib ws) = Some q \<and> 0 \<le> q"
proof -
  have "\<exists>q. val (foldl (d_plus lib) a ws) = Some q \<and> 0 \<le> q"
    if "\<forall>w\<in>set ws. \<exists>q. val w = Some q \<and> 0 \<le> q" "val a = Some x" "0 \<le> x" for a x
    using that
  proof (induction ws arbitrary: a x)
    case (Cons w ws)
    then obtain y where y: "val w = Some y" "0 \<le> y" by auto
    with Cons.prems decimal_laws_ops(1) [OF laws Cons.prems(2) y(1)] obtain r where
      r: "val (d_plus lib a w) = Some r" "rounded p (x + y) r" by blast
    have "0 \<le> x + y" using y(2) Cons.prems(3) by simp
    with r(2) have "0 \<le> r" by (rule rounded_nonneg)
    with r(1) Cons show ?case by simp
  qed simp
  moreover have "val (d_of_int lib 0) = Some 0" using decimal_laws_of_int [OF laws, of 0] by simp
  ultimately show "\<forall>w\<in>set ws. \<exists>q. val w = Some q \<and> 0 \<le> q \<Longrightarrow> ?thesis"
    unfolding decimal_sum_def by blast
qed

lemma decimal_quota_nonneg:
  assumes laws: "decimal_laws lib p val" and "0 \<le> amount"
    and weights: "\<forall>w\<in>set (map snd entries). \<exists>q. val w = Some q \<and> 0 \<le> q"
    and quota: "decimal_quota lib amount entries = Inr shares"
  shows "\<forall>s\<in>set shares. 0 \<le> share_units s"
proof
  fix s assume "s \<in> set shares"
  then obtain i where i: "i < length shares" "s = shares ! i" by (auto simp: in_set_conv_nth)
  let ?W = "decimal_sum lib (map snd entries)"
  from quota have all: "list_all2 (\<lambda>(ident, weight) s.
      \<exists>u. big_int (d_to_fixed lib 0 (d_floor lib (d_divided_by lib (d_times lib (d_of_int lib amount) weight) ?W)))
        = Inr u \<and> share_units s = u) entries shares"
    unfolding decimal_quota_def Let_def traverse_Inr_iff
    by (rule list_all2_mono) (auto simp: outcome split: prod.splits)
  define w where "w = snd (entries ! i)"
  have w: "w \<in> set (map snd entries)"
    using all i by (auto simp: w_def list_all2_lengthD [OF all] intro!: imageI nth_mem)
  let ?e = "d_divided_by lib (d_times lib (d_of_int lib amount) w) ?W"
  have "big_int (d_to_fixed lib 0 (d_floor lib ?e)) = Inr (share_units s)"
    using list_all2_nthD2 [OF all i(1)] by (auto simp: w_def i(2) split: prod.splits)
  then obtain x where x: "val ?e = Some x" "share_units s = \<lfloor>x\<rfloor>"
    unfolding big_int_floor [OF laws] by blast
  from weights w obtain q where q: "val w = Some q" "0 \<le> q" by blast
  from decimal_laws_ops(3) [OF laws decimal_laws_of_int [OF laws] q(1)] obtain y where
    y: "val (d_times lib (d_of_int lib amount) w) = Some y" "rounded p (of_int amount * q) y" by blast
  have "0 \<le> y" using assms(2) q(2) by (intro rounded_nonneg [OF y(2)]) simp
  from decimal_sum_nonneg [OF laws weights] obtain W where W: "val ?W = Some W" "0 \<le> W" by blast
  have "W \<noteq> 0" using decimal_laws_ops(6) [OF laws y(1) W(1)] x(1) by auto
  with decimal_laws_ops(4) [OF laws y(1) W(1)] x(1) have "rounded p (y / W) x" by auto
  then have "0 \<le> x" by (rule rounded_nonneg) (use \<open>0 \<le> y\<close> W(2) in simp)
  with x(2) show "0 \<le> share_units s" by simp
qed

lemma settle_nonneg:
  assumes "\<forall>s\<in>set shares. 0 \<le> share_units s"
  shows "\<forall>s\<in>set (settle cmp amount shares). 0 \<le> share_units s"
proof -
  have "\<forall>s\<in>set (hand_out p k r xs). 0 \<le> share_units s"
    if "\<forall>s\<in>set xs. 0 \<le> share_units s" for p k r and xs :: "'a alloc_share list"
    using that
  proof (induction p k r xs rule: hand_out.induct)
    case (2 p k r xs)
    let ?i = "p ! (k mod length p)"
    have "\<forall>s\<in>set (xs[?i := bump (xs ! ?i)]). 0 \<le> share_units s"
    proof (cases "?i < length xs")
      case True
      then have "0 \<le> share_units (xs ! ?i)" using "2.prems" by simp
      then show ?thesis using "2.prems" set_update_subset_insert [of xs ?i "bump (xs ! ?i)"] by fastforce
    qed (use "2.prems" in \<open>simp add: list_update_beyond\<close>)
    with "2.IH" show ?case by (simp add: Let_def)
  qed simp
  with assms show ?thesis by (simp add: settle_def)
qed

lemma allocate_units_nonneg:
  assumes "decimal_laws lib p val" "0 \<le> amount"
    "\<forall>w\<in>set (map snd entries). \<exists>q. val w = Some q \<and> 0 \<le> q"
    "allocate_units lib lc amount entries = Inr m" "distinct (map fst entries)"
  shows "\<forall>u\<in>set (map snd m). 0 \<le> u"
  using assms(4,5)
proof (cases rule: allocate_units_Inr)
  case (1 shares)
  from settle_nonneg [OF decimal_quota_nonneg [OF assms(1-3) 1(1)]] 1(4) show ?thesis by fastforce
qed

lemma get_units_nonneg: "\<forall>u\<in>set (map snd m). 0 \<le> u \<Longrightarrow> 0 \<le> get_units m k"
  using map_of_SomeD [of m k] by (force simp: get_units_def split: option.splits)

text \<open>Reading a decimal gives a non-negative value.\<close>

lemma moudaraba_decimal_value:
  assumes "decimal_laws lib p val" "moudaraba_decimal lib s f = Inr w"
  shows "\<exists>q. val w = Some q \<and> 0 \<le> q"
proof -
  obtain i g where s: "unsigned_decimal s = Some (i, g)" and w: "w = of_text lib s"
    using assms(2) by (auto simp: moudaraba_decimal_def read_non_negative_def split: if_splits)
  with unsigned_value [OF s] decimal_laws_text [OF assms(1), of s] show ?thesis by auto
qed

lemma parse_bases_Inr:
  assumes "parse_bases lib ps = Inr bases"
  shows "map fst bases = ps"
    "decimal_laws lib p val \<Longrightarrow> \<forall>w\<in>set (map snd bases). \<exists>q. val w = Some q \<and> 0 \<le> q"
proof -
  have all: "list_all2 (\<lambda>pt b. fst b = pt \<and>
      moudaraba_decimal lib (mp_base pt) (''weightedParticipationBase:'' @ mp_account pt) = Inr (snd b)) ps bases"
    using assms unfolding parse_bases_def traverse_Inr_iff by (rule list_all2_mono) (auto simp: outcome)
  then show "map fst bases = ps" by (auto simp: list_all2_conv_all_nth intro: nth_equalityI)
  show "\<forall>w\<in>set (map snd bases). \<exists>q. val w = Some q \<and> 0 \<le> q" if "decimal_laws lib p val"
    using all moudaraba_decimal_value [OF that]
    by (fastforce simp: list_all2_conv_all_nth in_set_conv_nth)
qed

text \<open>The accounts of the result map, in both methods.\<close>

lemma category_loop_Inr:
  assumes laws: "decimal_laws lib p val"
    and weights: "\<forall>w\<in>set (map snd participants). \<exists>q. val w = Some q \<and> 0 \<le> q"
    and units: "\<And>k. 0 \<le> get_units category_units k"
    and dist: "distinct (map (\<lambda>(p, _). mp_account p) participants)"
  shows "category_loop lib lc category_units participants acc keys = Inr m \<Longrightarrow>
    distinct (map fst acc) \<Longrightarrow> fst ` set acc \<subseteq> (\<lambda>(p, _). mp_account p) ` set participants \<Longrightarrow>
    \<forall>u\<in>set (map snd acc). 0 \<le> u \<Longrightarrow>
    distinct (map fst m) \<and> fst ` set m \<subseteq> (\<lambda>(p, _). mp_account p) ` set participants
    \<and> (\<forall>u\<in>set (map snd m). 0 \<le> u)"
proof (induction keys arbitrary: acc)
  case (Cons kw rest)
  obtain key w where kw: "kw = (key, w)" by fastforce
  let ?members = "members_of key participants"
  let ?entries = "map (\<lambda>(p, basis). (mp_account p, basis)) ?members"
  show ?case
  proof (cases "?members = []")
    case True
    with Cons kw show ?thesis by simp
  next
    case False
    with Cons.prems(1) kw obtain al where al: "allocate_units lib lc (get_units category_units key) ?entries = Inr al"
      and rest: "category_loop lib lc category_units participants (set_all acc al) rest = Inr m"
      by (auto simp: outcome)
    have ids: "map fst ?entries = map (\<lambda>(p, _). mp_account p) ?members" by (auto simp: split_def)
    have dist': "distinct (map fst ?entries)"
    proof -
      have "distinct (map (\<lambda>(p, _). mp_account p) ?members)"
        unfolding members_of_def using dist by (rule distinct_map_filter)
      then show ?thesis by (simp only: ids)
    qed
    have sub: "set (map snd ?entries) \<subseteq> set (map snd participants)"
      by (force simp: members_of_def)
    have nonneg: "\<forall>u\<in>set (map snd al). 0 \<le> u"
      using weights sub by (intro allocate_units_nonneg [OF laws units _ al dist']) blast
    obtain keys: "map fst al = map fst ?entries"
      using al dist' by (rule allocate_units_Inr)
    have "fst ` set al = set (map fst ?entries)" by (simp only: keys [symmetric] set_map)
    also have "\<dots> \<subseteq> (\<lambda>(p, _). mp_account p) ` set participants"
      unfolding ids by (auto simp: members_of_def)
    finally have sub_al: "fst ` set al \<subseteq> (\<lambda>(p, _). mp_account p) ` set participants" .
    show ?thesis
    proof (rule Cons.IH [OF rest])
      show "distinct (map fst (set_all acc al))" using Cons.prems(2) by (rule set_all_distinct)
      show "fst ` set (set_all acc al) \<subseteq> (\<lambda>(p, _). mp_account p) ` set participants"
        using sub_al Cons.prems(3) by (simp add: set_all_keys)
      show "\<forall>u\<in>set (map snd (set_all acc al)). 0 \<le> u"
        using set_all_values [of acc al] nonneg Cons.prems(4) by blast
    qed
  qed
qed simp

lemma moudaraba_accounts_Inr:
  assumes laws: "decimal_laws lib p val" and "0 \<le> amount"
    and bases: "parse_bases lib (mi_participants input) = Inr bases"
    and dist: "distinct (map mp_account (mi_participants input))"
    and m: "moudaraba_accounts lib lc input amount bases = Inr m"
  shows "distinct (map fst m) \<and> fst ` set m \<subseteq> set (map mp_account (mi_participants input))
    \<and> (\<forall>u\<in>set (map snd m). 0 \<le> u)"
proof -
  note weights = parse_bases_Inr(2) [OF bases laws]
  have ids: "map (\<lambda>(p, _). mp_account p) bases = map mp_account (mi_participants input)"
  proof -
    have "map (\<lambda>(p, _). mp_account p) bases = map mp_account (map fst bases)"
      by (simp add: split_def)
    then show ?thesis by (simp only: parse_bases_Inr(1) [OF bases])
  qed
  have entries: "map fst (map (\<lambda>(p, basis). (mp_account p, basis)) bases) = map mp_account (mi_participants input)"
    "map snd (map (\<lambda>(p, basis). (mp_account p, basis)) bases) = map snd bases"
    using ids by (auto simp: split_def o_def)
  show ?thesis
  proof (cases "mi_method input = Weighted_Average")
    case True
    with m have al: "allocate_units lib lc amount (map (\<lambda>(p, basis). (mp_account p, basis)) bases) = Inr m"
      by (simp add: moudaraba_accounts_def)
    have d: "distinct (map fst (map (\<lambda>(p, basis). (mp_account p, basis)) bases))"
      using dist by (simp only: entries)
    have "map fst m = map mp_account (mi_participants input)"
      using al d by (rule allocate_units_Inr) (simp only: entries)
    moreover have "\<forall>u\<in>set (map snd m). 0 \<le> u"
      using weights by (intro allocate_units_nonneg [OF laws assms(2) _ al d]) (simp only: entries)
    ultimately show ?thesis using dist by (metis order_refl set_map)
  next
    case False
    with m obtain parsed category_units where
      keys: "moudaraba_unique ''categoryId'' {} (map ck_category (case mi_keys input of None \<Rightarrow> [] | Some ks \<Rightarrow> ks)) = Inr ()"
      and parsed: "traverse (\<lambda>entry. and_then
          (moudaraba_decimal lib (ck_key entry) (''allocationKey:'' @ ck_category entry))
          (\<lambda>w. Inr (ck_category entry, w))) (case mi_keys input of None \<Rightarrow> [] | Some ks \<Rightarrow> ks) = Inr parsed"
      and cat: "allocate_units lib lc amount parsed = Inr category_units"
      and loop: "category_loop lib lc category_units bases [] parsed = Inr m"
      unfolding moudaraba_accounts_def allocate_by_fixed_category_key_def Let_def
      by (auto simp: outcome split: if_splits)
    have all: "list_all2 (\<lambda>e k. fst k = ck_category e \<and>
        moudaraba_decimal lib (ck_key e) (''allocationKey:'' @ ck_category e) = Inr (snd k))
        (case mi_keys input of None \<Rightarrow> [] | Some ks \<Rightarrow> ks) parsed"
      using parsed unfolding traverse_Inr_iff by (rule list_all2_mono) (auto simp: outcome)
    then have fst_parsed: "map fst parsed = map ck_category (case mi_keys input of None \<Rightarrow> [] | Some ks \<Rightarrow> ks)"
      by (auto simp: list_all2_conv_all_nth intro: nth_equalityI)
    have d: "distinct (map fst parsed)" using keys by (simp only: fst_parsed moudaraba_unique_iff)
    have w: "\<forall>w\<in>set (map snd parsed). \<exists>q. val w = Some q \<and> 0 \<le> q"
      using all moudaraba_decimal_value [OF laws]
      by (fastforce simp: list_all2_conv_all_nth in_set_conv_nth)
    have u: "0 \<le> get_units category_units k" for k
      using allocate_units_nonneg [OF laws assms(2) w cat d] by (rule get_units_nonneg)
    from category_loop_Inr [OF laws weights u _ loop] dist ids
    have "distinct (map fst m) \<and> fst ` set m \<subseteq> (\<lambda>(p, _). mp_account p) ` set bases
      \<and> (\<forall>u\<in>set (map snd m). 0 \<le> u)" by simp
    moreover have "(\<lambda>(p, _). mp_account p) ` set bases = set (map mp_account (mi_participants input))"
      by (simp only: ids [symmetric] set_map)
    ultimately show ?thesis by simp
  qed
qed

section \<open>Conservation of the profit\<close>

lemma moudaraba_text_value: "0 \<le> u \<Longrightarrow> decimal_value (moudaraba_text u scale) = Some (of_int u / 10 ^ scale)"
  by (simp add: moudaraba_text_def)

lemma moudaraba_units_value:
  "moudaraba_units s k f = Inr u \<Longrightarrow> 0 \<le> u \<and> decimal_value s = Some (of_int u / 10 ^ k)"
  unfolding moudaraba_units_def using units_unsigned_nonneg units_unsigned_value by blast

text \<open>What is printed, in terms of units.\<close>

lemma moudaraba_settlement_Inr:
  assumes "moudaraba_settlement lib lc input scale profit irr nisba = Inr r"
  obtains bases m where "parse_bases lib (mi_participants input) = Inr bases"
    "irr \<le> get_units nisba ''INVESTOR''"
    "moudaraba_accounts lib lc input (get_units nisba ''INVESTOR'' - irr) bases = Inr m"
    "sum_list (map snd m) = get_units nisba ''INVESTOR'' - irr"
    "get_units nisba ''BANK'' + irr + sum_list (map snd m) = profit"
    "mr_profit r = moudaraba_text profit scale" "mr_bank r = moudaraba_text (get_units nisba ''BANK'') scale"
    "mr_irr r = moudaraba_text irr scale"
    "mr_investor_after_irr r = moudaraba_text (get_units nisba ''INVESTOR'' - irr) scale"
    "map aa_account (mr_accounts r) = map mp_account (map fst bases)"
    "map aa_profit (mr_accounts r)
      = map (\<lambda>i. moudaraba_text (get_units m i) scale) (map mp_account (map fst bases))"
  using assms unfolding moudaraba_settlement_def Let_def
  by (auto simp: outcome split_def o_def not_less split: if_splits)

lemma allocate_moudaraba_profit_Inr:
  assumes "allocate_moudaraba_profit lib lc input = Inr r"
  obtains scale profit irr inv bank nisba where
    "distinct (map mp_account (mi_participants input))"
    "moudaraba_units (mi_profit input) scale ''profitAfterPer'' = Inr profit"
    "moudaraba_units (mi_irr input) scale ''irrAllocation'' = Inr irr"
    "moudaraba_decimal lib (mi_investor_nisba input) ''investorNisba'' = Inr inv"
    "moudaraba_decimal lib (mi_bank_nisba input) ''bankNisba'' = Inr bank"
    "allocate_units lib lc profit [(''INVESTOR'', inv), (''BANK'', bank)] = Inr nisba"
    "moudaraba_settlement lib lc input scale profit irr nisba = Inr r"
  using assms unfolding allocate_moudaraba_profit_def and_then_Inr if_throw_Inr moudaraba_unique_iff
  by blast

text \<open>
  C6. Profit sharing conserves the profit: under the documented behaviour of decimal.js, when
  \<open>allocateMoudarabaProfit\<close> returns, the bank's share, the reserve contribution and the account
  allocations, as printed, are non-negative and add up to exactly the profit; the accounts
  together receive exactly the printed investor share after the reserve; and the accounts are
  the participants, in their order.  This covers both allocation methods.
\<close>

theorem moudaraba_conserves_profit:
  assumes "decimal_laws lib 60 val" "allocate_moudaraba_profit lib lc input = Inr r"
  shows "map aa_account (mr_accounts r) = map mp_account (mi_participants input)
    \<and> (\<exists>profit bank irr investors accounts.
         decimal_value (mi_profit input) = Some profit \<and> decimal_value (mi_irr input) = Some irr
       \<and> map decimal_value [mr_profit r, mr_bank r, mr_irr r, mr_investor_after_irr r]
           = map Some [profit, bank, irr, investors]
       \<and> map (\<lambda>a. decimal_value (aa_profit a)) (mr_accounts r) = map Some accounts
       \<and> 0 \<le> bank \<and> 0 \<le> irr \<and> (\<forall>a\<in>set accounts. 0 \<le> a)
       \<and> sum_list accounts = investors \<and> bank + irr + sum_list accounts = profit)"
  using assms(2)
proof (cases rule: allocate_moudaraba_profit_Inr)
  case (1 scale profit irr inv bk nisba)
  let ?q = "\<lambda>u. of_int u / 10 ^ scale :: rat"
  note pv = moudaraba_units_value [OF 1(2)] and iv = moudaraba_units_value [OF 1(3)]
  have nisba: "0 \<le> get_units nisba k" for k
    using moudaraba_decimal_value [OF assms(1) 1(4)] moudaraba_decimal_value [OF assms(1) 1(5)] pv
    by (intro get_units_nonneg allocate_units_nonneg [OF assms(1) _ _ 1(6)]) simp_all
  from 1(7) show ?thesis
  proof (cases rule: moudaraba_settlement_Inr)
    case (1 bases m)
    define ids where "ids = map mp_account (mi_participants input)"
    define inv_after where "inv_after = get_units nisba ''INVESTOR'' - irr"
    have ids: "map mp_account (map fst bases) = ids"
      using parse_bases_Inr(1) [OF 1(1)] by (simp add: ids_def)
    have acc: "distinct (map fst m)" "fst ` set m \<subseteq> set ids" "\<forall>u\<in>set (map snd m). 0 \<le> u"
      using moudaraba_accounts_Inr [OF assms(1) _ 1(1) _ 1(3)] 1(2) \<open>distinct (map mp_account _)\<close>
      by (simp_all add: ids_def)
    have "sum_list (map (get_units m) ids) = sum_list (map snd m)"
      using sum_map_get [OF acc(1,2)] \<open>distinct (map mp_account _)\<close>
      by (simp add: get_units_def [abs_def] ids_def)
    then have sum: "sum_list (map (get_units m) ids) = inv_after"
      using 1(4) by (simp add: inv_after_def)
    define accounts where "accounts = map (\<lambda>i. ?q (get_units m i)) ids"
    have "map (\<lambda>a. decimal_value (aa_profit a)) (mr_accounts r) = map decimal_value (map aa_profit (mr_accounts r))"
      by simp
    also have "\<dots> = map Some accounts"
      unfolding 1(11) ids by (simp add: accounts_def moudaraba_text_value get_units_nonneg [OF acc(3)])
    finally have printed: "map (\<lambda>a. decimal_value (aa_profit a)) (mr_accounts r) = map Some accounts" .
    have total: "sum_list accounts = ?q inv_after"
      unfolding accounts_def sum [symmetric] by (induction ids) (simp_all add: add_divide_distrib)
    have split: "get_units nisba ''BANK'' + irr + inv_after = profit"
      using 1(4,5) by (simp add: inv_after_def)
    have "?q (get_units nisba ''BANK'') + ?q irr + sum_list accounts = ?q profit"
      unfolding split [symmetric] total by (simp add: add_divide_distrib)
    moreover have "\<forall>a\<in>set accounts. 0 \<le> a"
      using get_units_nonneg [OF acc(3)] by (auto simp: accounts_def)
    moreover have "0 \<le> inv_after" using 1(2) by (simp add: inv_after_def)
    ultimately show ?thesis
      using pv iv printed total nisba 1(6-10) ids
      by (intro conjI exI [of _ "?q profit"] exI [of _ "?q (get_units nisba ''BANK'')"] exI [of _ "?q irr"]
          exI [of _ "?q inv_after"] exI [of _ accounts])
        (simp_all add: moudaraba_text_value inv_after_def ids_def)
  qed
qed

definition moudaraba_example :: moudaraba_input where
  "moudaraba_example = \<lparr>mi_profit = ''100.00'', mi_investor_nisba = ''0.6'', mi_bank_nisba = ''0.4'',
     mi_irr = ''5.00'', mi_method = Weighted_Average,
     mi_participants = [\<lparr>mp_account = ''a'', mp_category = ''c'', mp_base = ''1''\<rparr>,
       \<lparr>mp_account = ''b'', mp_category = ''c'', mp_base = ''2''\<rparr>],
     mi_keys = None, mi_scale = None\<rparr>"

lemmas moudaraba_eval = allocate_moudaraba_profit_def moudaraba_example_def moudaraba_units_def
  moudaraba_decimal_def allocate_units_def decimal_quota_def decimal_sum_def decimal_priority_def
  moudaraba_settlement_def parse_bases_def moudaraba_accounts_def moudaraba_text_def get_units_def
  settle_def priority_of_def hand_out_step code_unit_order_def bump_def upt_rec lib_eval

text \<open>The example, stage by stage.\<close>

lemma example_nisba: "allocate_units exact_lib code_unit_order 10000 [(''INVESTOR'', Num (3/5)), (''BANK'', Num (2/5))] = Inr [(''INVESTOR'', 6000::int), (''BANK'', 4000)]"
  by (simp add: moudaraba_eval cong: eval_cong)

lemma example_accounts: "allocate_units exact_lib code_unit_order 5500 [(''a'', Num 1), (''b'', Num 2)] = Inr [(''a'', 1833), (''b'', 3667)]"
  by (simp add: moudaraba_eval cong: eval_cong)

lemma example_bases: "parse_bases exact_lib [\<lparr>mp_account = ''a'', mp_category = ''c'', mp_base = ''1''\<rparr>,
       \<lparr>mp_account = ''b'', mp_category = ''c'', mp_base = ''2''\<rparr>] = Inr [(\<lparr>mp_account = ''a'', mp_category = ''c'', mp_base = ''1''\<rparr>, Num 1),
       (\<lparr>mp_account = ''b'', mp_category = ''c'', mp_base = ''2''\<rparr>, Num 2)]"
  by (simp add: moudaraba_eval cong: eval_cong)

definition moudaraba_example_result :: moudaraba_result where
  "moudaraba_example_result = \<lparr>mr_method = Weighted_Average, mr_profit = ''100.00'',
     mr_bank = ''40.00'', mr_investor_before_irr = ''60.00'', mr_irr = ''5.00'',
     mr_investor_after_irr = ''55.00'',
     mr_accounts = [\<lparr>aa_account = ''a'', aa_category = ''c'', aa_base = ''1'', aa_profit = ''18.33''\<rparr>,
       \<lparr>aa_account = ''b'', aa_category = ''c'', aa_base = ''2'', aa_profit = ''36.67''\<rparr>],
     mr_remainder = ''0.00''\<rparr>"

lemma example_settlement:
  "moudaraba_settlement exact_lib code_unit_order moudaraba_example 2 10000 500
     [(''INVESTOR'', 6000), (''BANK'', 4000)] = Inr moudaraba_example_result"
  by (simp add: moudaraba_settlement_def example_bases moudaraba_example_def moudaraba_accounts_def
      example_accounts get_units_def moudaraba_text_def moudaraba_example_result_def lib_eval cong: eval_cong)

lemma example_input: "allocate_moudaraba_profit exact_lib code_unit_order moudaraba_example = 
  moudaraba_settlement exact_lib code_unit_order moudaraba_example 2 10000 500  [(''INVESTOR'', 6000::int), (''BANK'', 4000)]"
by (simp add: allocate_moudaraba_profit_def moudaraba_example_def moudaraba_units_def moudaraba_decimal_def example_nisba lib_eval cong: eval_cong)

theorem moudaraba_conserves_profit_witness:
  "\<exists>r. allocate_moudaraba_profit exact_lib code_unit_order moudaraba_example = Inr r
     \<and> mr_bank r = ''40.00'' \<and> map aa_profit (mr_accounts r) = [''18.33'', ''36.67'']
     \<and> (\<exists>accounts. map (\<lambda>a. decimal_value (aa_profit a)) (mr_accounts r) = map Some accounts
         \<and> sum_list accounts = 55)"
proof -
  let ?r = moudaraba_example_result
  have r: "allocate_moudaraba_profit exact_lib code_unit_order moudaraba_example = Inr ?r"
    by (simp add: example_input example_settlement)
  have texts: "mr_bank ?r = ''40.00''" "map aa_profit (mr_accounts ?r) = [''18.33'', ''36.67'']"
    "mr_investor_after_irr ?r = ''55.00''"
    by (simp_all add: moudaraba_example_result_def)
  from moudaraba_conserves_profit [OF exact_lib_laws r] obtain investors accounts where
    inv: "decimal_value (mr_investor_after_irr ?r) = Some investors"
    and a: "map (\<lambda>a. decimal_value (aa_profit a)) (mr_accounts ?r) = map Some accounts"
    and s: "sum_list accounts = investors"
    by (elim exE conjE) (simp only: list.map list.inject)
  have "investors = 55" using inv unfolding texts(3) by (simp add: text_eval)
  with r texts a s show ?thesis
    by (intro exI [of _ ?r] conjI exI [of _ accounts]) (simp_all only:)
qed

end
