(* ===== verification/Pool_Profit.thy ===== *)
theory Pool_Profit
  imports Decimal_Lib
begin

text \<open>
  \<open>libs/engine/src/distributable-pool-profit.ts\<close>: the profit waterfall of a pool, from the
  gross result through purification, the bank's shares and the reserves to the investors.
\<close>

section \<open>Types\<close>

record pool_profit_input =
  pi_pool :: string
  pi_revenue :: string
  pi_charges :: string
  pi_losses :: string
  pi_non_compliant :: string
  pi_adjustments :: string
  pi_bank_share :: string
  pi_moudarib :: string
  pi_per :: string
  pi_irr :: string
  pi_base :: string
  pi_backing :: "string option"
  pi_scale :: "jsnum option"

record pool_profit_result =
  pr_pool :: string
  pr_gross :: string
  pr_purified :: string
  pr_net :: string
  pr_bank_share :: string
  pr_moudarib :: string
  pr_bank_total :: string
  pr_investor :: string
  pr_per :: string
  pr_irr :: string
  pr_return_rate :: string
  pr_backing_rate :: "string option"
  pr_difference :: string

section \<open>Operations\<close>

definition pool_amount :: "'d decimal_lib \<Rightarrow> string \<Rightarrow> string \<Rightarrow> 'd res" where
  "pool_amount lib value field = read_signed lib value field"

definition pool_non_negative :: "'d decimal_lib \<Rightarrow> string \<Rightarrow> string \<Rightarrow> 'd res" where
  "pool_non_negative lib value field = and_then (pool_amount lib value field) (\<lambda>parsed.
     if d_is_negative lib parsed then Inl (RangeError (field @ '' cannot be negative'')) else Inr parsed)"

definition pool_positive :: "'d decimal_lib \<Rightarrow> string \<Rightarrow> string \<Rightarrow> 'd res" where
  "pool_positive lib value field = and_then (pool_non_negative lib value field) (\<lambda>parsed.
     if d_is_zero lib parsed then Inl (RangeError (field @ '' must be positive'')) else Inr parsed)"

definition pool_formatted :: "'d decimal_lib \<Rightarrow> 'd \<Rightarrow> nat \<Rightarrow> string" where
  "pool_formatted = d_formatted"

text \<open>The amounts once they are read, and the waterfall over them.\<close>

record 'd pool_amounts =
  pa_revenue :: 'd
  pa_charges :: 'd
  pa_losses :: 'd
  pa_purification :: 'd
  pa_adjustments :: 'd
  pa_bank :: 'd
  pa_moudarib :: 'd
  pa_per :: 'd
  pa_irr :: 'd
  pa_base :: 'd

definition read_pool_amounts :: "'d decimal_lib \<Rightarrow> pool_profit_input \<Rightarrow> 'd pool_amounts res" where
  "read_pool_amounts lib input =
     and_then (pool_amount lib (pi_revenue input) ''revenue'') (\<lambda>revenue.
     and_then (pool_non_negative lib (pi_charges input) ''approvedCharges'') (\<lambda>charges.
     and_then (pool_non_negative lib (pi_losses input) ''losses'') (\<lambda>losses.
     and_then (pool_non_negative lib (pi_non_compliant input) ''nonCompliantIncome'') (\<lambda>purification.
     and_then (pool_amount lib (pi_adjustments input) ''adjustments'') (\<lambda>adjustments.
     and_then (pool_non_negative lib (pi_bank_share input) ''bankEconomicShare'') (\<lambda>bank.
     and_then (pool_non_negative lib (pi_moudarib input) ''moudaribRemuneration'') (\<lambda>moudarib.
     and_then (pool_non_negative lib (pi_per input) ''perAllocation'') (\<lambda>per.
     and_then (pool_non_negative lib (pi_irr input) ''irrAllocation'') (\<lambda>irr.
     and_then (pool_positive lib (pi_base input) ''poolParticipationBase'') (\<lambda>base.
       Inr \<lparr>pa_revenue = revenue, pa_charges = charges, pa_losses = losses,
         pa_purification = purification, pa_adjustments = adjustments, pa_bank = bank,
         pa_moudarib = moudarib, pa_per = per, pa_irr = irr, pa_base = base\<rparr>))))))))))"

definition gross_result :: "'d decimal_lib \<Rightarrow> 'd pool_amounts \<Rightarrow> 'd" where
  "gross_result lib a =
     d_minus lib (d_minus lib (d_plus lib (pa_revenue a) (pa_adjustments a)) (pa_charges a)) (pa_losses a)"

definition calculate_distributable_pool_profit ::
  "'d decimal_lib \<Rightarrow> pool_profit_input \<Rightarrow> pool_profit_result res" where
  "calculate_distributable_pool_profit lib input =
     (if blank (pi_pool input) then Inl (TypeError ''poolId is required'') else
      and_then (output_scale (pi_scale input)) (\<lambda>scale.
      and_then (read_pool_amounts lib input) (\<lambda>a.
      let gross = gross_result lib a in
      if d_is_negative lib gross
      then Inl (RangeError ''grossResult cannot be negative in the profit waterfall'') else
      let net = d_minus lib gross (pa_purification a) in
      if d_is_negative lib net then Inl (RangeError ''nonCompliantIncome cannot exceed grossResult'') else
      let fixed = d_plus lib (d_plus lib (d_plus lib (pa_bank a) (pa_moudarib a)) (pa_per a)) (pa_irr a);
          investor = d_minus lib net fixed in
      if d_is_negative lib investor
      then Inl (RangeError ''Bank and reserve allocations exceed net distributable profit'') else
      let bank_total = d_plus lib (pa_bank a) (pa_moudarib a);
          conserved = d_plus lib (d_plus lib (d_plus lib (d_plus lib bank_total investor) (pa_per a)) (pa_irr a))
            (pa_purification a);
          difference = d_minus lib gross conserved in
      if \<not> d_is_zero lib difference then Inl (Failure ''Profit conservation invariant violated'') else
      and_then (case pi_backing input of None \<Rightarrow> Inr None
        | Some b \<Rightarrow> and_then (pool_positive lib b ''partialBackingBase'')
            (\<lambda>base. Inr (Some (d_divided_by lib gross base)))) (\<lambda>backing_rate.
      Inr \<lparr>pr_pool = pi_pool input, pr_gross = pool_formatted lib gross scale,
        pr_purified = pool_formatted lib (pa_purification a) scale,
        pr_net = pool_formatted lib net scale,
        pr_bank_share = pool_formatted lib (pa_bank a) scale,
        pr_moudarib = pool_formatted lib (pa_moudarib a) scale,
        pr_bank_total = pool_formatted lib bank_total scale,
        pr_investor = pool_formatted lib investor scale,
        pr_per = pool_formatted lib (pa_per a) scale,
        pr_irr = pool_formatted lib (pa_irr a) scale,
        pr_return_rate = pool_formatted lib (d_divided_by lib gross (pa_base a)) scale,
        pr_backing_rate = map_option (\<lambda>r. pool_formatted lib r scale) backing_rate,
        pr_difference = pool_formatted lib difference scale\<rparr>))))"

section \<open>Exact arithmetic on amounts with twelve decimals\<close>

text \<open>
  Amounts with at most twelve decimals and at most \<open>b\<close> units of \<open>10 ^ - 12\<close> are added and
  subtracted exactly as long as the bounds stay below \<open>10 ^ 50\<close>.
\<close>

definition on_grid :: "int \<Rightarrow> rat \<Rightarrow> bool" where
  "on_grid b x \<longleftrightarrow> (\<exists>m. x = of_int m / 10 ^ 12 \<and> \<bar>m\<bar> \<le> b)"

lemma grid_scaled:
  "\<bar>m\<bar> \<le> c \<Longrightarrow> c < 10 ^ 50 \<Longrightarrow> representable 50 (of_int m / 10 ^ 12)"
  "\<bar>m\<bar> \<le> c \<Longrightarrow> on_grid c (of_int m / 10 ^ 12)"
  unfolding on_grid_def using representable_scaled [of m 50 12] by (linarith, blast)

definition holds :: "('d \<Rightarrow> rat option) \<Rightarrow> int \<Rightarrow> 'd \<Rightarrow> rat \<Rightarrow> bool" where
  "holds val b d x \<longleftrightarrow> val d = Some x \<and> on_grid b x"

lemma grid_plus:
  assumes laws: "decimal_laws lib 50 val" and "holds val a d x" "holds val b e y" "a + b < 10 ^ 50"
  shows "holds val (a + b) (d_plus lib d e) (x + y)" "holds val (a + b) (d_minus lib d e) (x - y)"
proof -
  from assms obtain m n where m: "x = of_int m / 10 ^ 12" "\<bar>m\<bar> \<le> a" and n: "y = of_int n / 10 ^ 12" "\<bar>n\<bar> \<le> b"
    and v: "val d = Some x" "val e = Some y" by (auto simp: holds_def on_grid_def)
  have plus: "x + y = of_int (m + n) / 10 ^ 12" and minus: "x - y = of_int (m - n) / 10 ^ 12"
    using m n by (simp_all add: add_divide_distrib diff_divide_distrib)
  have "\<bar>m + n\<bar> \<le> a + b" "\<bar>m - n\<bar> \<le> a + b" using m n by linarith+
  then have "representable 50 (x + y)" "representable 50 (x - y)"
    and grid: "on_grid (a + b) (x + y)" "on_grid (a + b) (x - y)"
    unfolding plus minus using assms(4) by (blast intro: grid_scaled)+
  with decimal_laws_ops(1,2) [OF laws v] show "holds val (a + b) (d_plus lib d e) (x + y)"
    "holds val (a + b) (d_minus lib d e) (x - y)"
    unfolding holds_def using rounded_representable by blast+
qed

lemma grid_formatted:
  assumes laws: "decimal_laws lib p val" and "holds val b d x"
  shows "pool_formatted lib d 12 = render_units 12 \<lfloor>x * 10 ^ 12\<rfloor>"
    "decimal_value (pool_formatted lib d 12) = Some x"
proof -
  from assms obtain m where v: "val d = Some x" and m: "x = of_int m / 10 ^ 12"
    by (auto simp: holds_def on_grid_def)
  obtain u where u: "val (d_to_places lib 12 d) = Some (of_int u / 10 ^ 12)"
    "\<bar>of_int u - x * 10 ^ 12\<bar> \<le> 1 / 2"
    using decimal_laws_unary(7) [OF laws v] by blast
  have "\<bar>of_int u - of_int m\<bar> \<le> (1 / 2 :: rat)" using u(2) m by simp
  then have "u = m" by linarith
  then show "pool_formatted lib d 12 = render_units 12 \<lfloor>x * 10 ^ 12\<rfloor>"
    using decimal_laws_unary(8) [OF laws u(1)] m by (simp add: pool_formatted_def d_formatted_def)
  then show "decimal_value (pool_formatted lib d 12) = Some x" using m by simp
qed

section \<open>The waterfall\<close>

text \<open>The inputs of the theorem: texts with at most 12 decimals and at most 42 digits in all.\<close>

definition grid_text :: "string \<Rightarrow> rat \<Rightarrow> bool" where
  "grid_text s x \<longleftrightarrow> decimal_value s = Some x \<and> on_grid (10 ^ 42) x"

lemma pool_amount_grid:
  assumes "decimal_laws lib 50 val" "grid_text s x"
  shows "\<exists>d. pool_amount lib s f = Inr d \<and> holds val (10 ^ 42) d x"
proof -
  have "signed_decimal s \<noteq> None" using assms(2) by (auto simp: grid_text_def decimal_value_def)
  with assms decimal_laws_text [OF assms(1)] show ?thesis
    by (simp add: pool_amount_def read_signed_def grid_text_def holds_def)
qed

lemma read_pool_amounts_values:
  assumes "decimal_laws lib p val" "read_pool_amounts lib input = Inr a"
  shows "decimal_value (pi_revenue input) = Some x \<Longrightarrow> val (pa_revenue a) = Some x"
    "decimal_value (pi_charges input) = Some x \<Longrightarrow> val (pa_charges a) = Some x"
    "decimal_value (pi_losses input) = Some x \<Longrightarrow> val (pa_losses a) = Some x"
    "decimal_value (pi_non_compliant input) = Some x \<Longrightarrow> val (pa_purification a) = Some x"
    "decimal_value (pi_adjustments input) = Some x \<Longrightarrow> val (pa_adjustments a) = Some x"
    "decimal_value (pi_bank_share input) = Some x \<Longrightarrow> val (pa_bank a) = Some x"
    "decimal_value (pi_moudarib input) = Some x \<Longrightarrow> val (pa_moudarib a) = Some x"
    "decimal_value (pi_per input) = Some x \<Longrightarrow> val (pa_per a) = Some x"
    "decimal_value (pi_irr input) = Some x \<Longrightarrow> val (pa_irr a) = Some x"
  using assms(2) decimal_laws_text [OF assms(1)]
  by (auto simp: read_pool_amounts_def pool_amount_def pool_non_negative_def read_signed_def outcome)

text \<open>
  C7. The profit waterfall is exact: for amounts with at most 12 decimals and 42 digits, and under
  the documented behaviour of decimal.js, what \<open>calculateDistributablePoolProfit\<close> prints (at the
  default scale) satisfies the two identities of the waterfall as rational numbers: the gross
  result is revenue plus adjustments minus charges and losses, and it is exactly the sum of the
  purified amount, the bank's two shares, the two reserve allocations and the investors' share,
  none of which is negative.
\<close>

theorem pool_profit_waterfall:
  assumes laws: "decimal_laws lib 50 val" and run: "calculate_distributable_pool_profit lib input = Inr r"
    and scale: "pi_scale input = None"
    and grid: "grid_text (pi_revenue input) revenue" "grid_text (pi_adjustments input) adjustments"
      "grid_text (pi_charges input) charges" "grid_text (pi_losses input) losses"
      "grid_text (pi_non_compliant input) purified" "grid_text (pi_bank_share input) bank"
      "grid_text (pi_moudarib input) moudarib" "grid_text (pi_per input) per" "grid_text (pi_irr input) irr"
  shows "\<exists>gross investor.
     map decimal_value [pr_gross r, pr_purified r, pr_bank_share r, pr_moudarib r, pr_per r, pr_irr r, pr_investor r]
       = map Some [gross, purified, bank, moudarib, per, irr, investor]
   \<and> gross = revenue + adjustments - charges - losses
   \<and> gross = purified + bank + moudarib + per + irr + investor \<and> 0 \<le> investor \<and> purified \<le> gross"
proof -
  from run obtain a where a: "read_pool_amounts lib input = Inr a"
    and net: "\<not> d_is_negative lib (d_minus lib (gross_result lib a) (pa_purification a))"
    and inv: "\<not> d_is_negative lib (d_minus lib (d_minus lib (gross_result lib a) (pa_purification a))
        (d_plus lib (d_plus lib (d_plus lib (pa_bank a) (pa_moudarib a)) (pa_per a)) (pa_irr a)))"
    and r: "pr_gross r = pool_formatted lib (gross_result lib a) 12"
      "pr_purified r = pool_formatted lib (pa_purification a) 12"
      "pr_bank_share r = pool_formatted lib (pa_bank a) 12" "pr_moudarib r = pool_formatted lib (pa_moudarib a) 12"
      "pr_per r = pool_formatted lib (pa_per a) 12" "pr_irr r = pool_formatted lib (pa_irr a) 12"
      "pr_investor r = pool_formatted lib (d_minus lib (d_minus lib (gross_result lib a) (pa_purification a))
        (d_plus lib (d_plus lib (d_plus lib (pa_bank a) (pa_moudarib a)) (pa_per a)) (pa_irr a))) 12"
    using scale unfolding calculate_distributable_pool_profit_def Let_def
    by (auto simp: outcome split: if_splits)
  note v = read_pool_amounts_values [OF laws a]
  have h: "holds val (10 ^ 42) (pa_revenue a) revenue" "holds val (10 ^ 42) (pa_adjustments a) adjustments"
    "holds val (10 ^ 42) (pa_charges a) charges" "holds val (10 ^ 42) (pa_losses a) losses"
    "holds val (10 ^ 42) (pa_purification a) purified" "holds val (10 ^ 42) (pa_bank a) bank"
    "holds val (10 ^ 42) (pa_moudarib a) moudarib" "holds val (10 ^ 42) (pa_per a) per"
    "holds val (10 ^ 42) (pa_irr a) irr"
    using grid v unfolding grid_text_def holds_def by blast+
  note plus = grid_plus(1) [OF laws] and minus = grid_plus(2) [OF laws]
  define gross where "gross = revenue + adjustments - charges - losses"
  have g: "holds val (4 * 10 ^ 42) (gross_result lib a) gross"
    using minus [OF minus [OF plus [OF h(1,2)] h(3)] h(4)] by (simp add: gross_result_def gross_def)
  have n: "holds val (5 * 10 ^ 42) (d_minus lib (gross_result lib a) (pa_purification a)) (gross - purified)"
    using minus [OF g h(5)] by simp
  have f: "holds val (4 * 10 ^ 42) (d_plus lib (d_plus lib (d_plus lib (pa_bank a) (pa_moudarib a)) (pa_per a)) (pa_irr a))
      (bank + moudarib + per + irr)"
    using plus [OF plus [OF plus [OF h(6,7)] h(8)] h(9)] by simp
  have i: "holds val (9 * 10 ^ 42) (d_minus lib (d_minus lib (gross_result lib a) (pa_purification a))
      (d_plus lib (d_plus lib (d_plus lib (pa_bank a) (pa_moudarib a)) (pa_per a)) (pa_irr a)))
      (gross - purified - (bank + moudarib + per + irr))"
    using minus [OF n f] by simp
  have "0 \<le> gross - purified" "0 \<le> gross - purified - (bank + moudarib + per + irr)"
    using net inv n i decimal_laws_unary(3) [OF laws] unfolding holds_def by (meson not_le)+
  moreover have "map decimal_value [pr_gross r, pr_purified r, pr_bank_share r, pr_moudarib r, pr_per r, pr_irr r, pr_investor r]
      = map Some [gross, purified, bank, moudarib, per, irr, gross - purified - (bank + moudarib + per + irr)]"
    unfolding r using grid_formatted(2) [OF laws] g h(5-9) i by simp
  ultimately show ?thesis
    by (intro exI [of _ gross] exI [of _ "gross - purified - (bank + moudarib + per + irr)"])
      (simp add: gross_def)
qed

definition pool_profit_example :: pool_profit_input where
  "pool_profit_example = \<lparr>pi_pool = ''p'', pi_revenue = ''100'', pi_charges = ''10'', pi_losses = ''5'',
     pi_non_compliant = ''1.5'', pi_adjustments = ''-2'', pi_bank_share = ''20'', pi_moudarib = ''8'',
     pi_per = ''4'', pi_irr = ''3'', pi_base = ''1000'', pi_backing = None, pi_scale = None\<rparr>"

lemma pool_profit_example_amounts:
  "read_pool_amounts exact_lib pool_profit_example = Inr \<lparr>pa_revenue = Num 100, pa_charges = Num 10,
     pa_losses = Num 5, pa_purification = Num (3 / 2), pa_adjustments = Num (- 2), pa_bank = Num 20,
     pa_moudarib = Num 8, pa_per = Num 4, pa_irr = Num 3, pa_base = Num 1000\<rparr>"
  by (simp add: read_pool_amounts_def pool_profit_example_def pool_amount_def pool_non_negative_def
      pool_positive_def lib_eval cong: eval_cong)

lemma pool_profit_example_fields:
  "pi_pool pool_profit_example = ''p''" "pi_scale pool_profit_example = None"
  "pi_backing pool_profit_example = None"
  by (simp_all add: pool_profit_example_def)

lemma pool_profit_example_run:
  "\<exists>r. calculate_distributable_pool_profit exact_lib pool_profit_example = Inr r"
  by (simp add: calculate_distributable_pool_profit_def pool_profit_example_amounts gross_result_def
      pool_profit_example_fields trim_def js_space_def d_of_int_def cong: eval_cong)

theorem pool_profit_waterfall_witness:
  "\<exists>r investor. calculate_distributable_pool_profit exact_lib pool_profit_example = Inr r
     \<and> decimal_value (pr_gross r) = Some 83 \<and> decimal_value (pr_investor r) = Some investor
     \<and> 83 = 3 / 2 + 20 + 8 + 4 + 3 + investor"
proof -
  have grid: "grid_text s x" if "decimal_value s = Some x" "x = of_int m / 10 ^ 12" "\<bar>m\<bar> \<le> 10 ^ 42" for s x m
    using that(1) grid_scaled(2) [OF that(3)] by (simp only: grid_text_def that(2) simp_thms)
  have texts: "decimal_value (pi_revenue pool_profit_example) = Some 100"
    "decimal_value (pi_adjustments pool_profit_example) = Some (- 2)"
    "decimal_value (pi_charges pool_profit_example) = Some 10"
    "decimal_value (pi_losses pool_profit_example) = Some 5"
    "decimal_value (pi_non_compliant pool_profit_example) = Some (3 / 2)"
    "decimal_value (pi_bank_share pool_profit_example) = Some 20"
    "decimal_value (pi_moudarib pool_profit_example) = Some 8"
    "decimal_value (pi_per pool_profit_example) = Some 4"
    "decimal_value (pi_irr pool_profit_example) = Some 3"
    by (simp_all add: pool_profit_example_def text_eval)
  note grids = grid [OF texts(1), of "100 * 10 ^ 12", simplified]
    grid [OF texts(2), of "- 2 * 10 ^ 12", simplified]
    grid [OF texts(3), of "10 * 10 ^ 12", simplified]
    grid [OF texts(4), of "5 * 10 ^ 12", simplified]
    grid [OF texts(5), of "15 * 10 ^ 11", simplified]
    grid [OF texts(6), of "20 * 10 ^ 12", simplified]
    grid [OF texts(7), of "8 * 10 ^ 12", simplified]
    grid [OF texts(8), of "4 * 10 ^ 12", simplified]
    grid [OF texts(9), of "3 * 10 ^ 12", simplified]
  from pool_profit_example_run obtain r where
    r: "calculate_distributable_pool_profit exact_lib pool_profit_example = Inr r" by blast
  from pool_profit_waterfall [OF exact_lib_laws r pool_profit_example_fields(2) grids]
  obtain gross investor where "decimal_value (pr_gross r) = Some gross"
    "decimal_value (pr_investor r) = Some investor" "gross = 100 + - 2 - 10 - 5"
    "gross = 3 / 2 + 20 + 8 + 4 + 3 + investor"
    by (elim exE conjE) (simp only: list.map list.inject)
  with r show ?thesis by auto
qed

end
