(* ===== verification/Musharaka.thy ===== *)
theory Musharaka
  imports Loss
begin

text \<open>
  \<open>libs/engine/src/musharaka-allocation.ts\<close>: partnership results (profit by negotiated ratios,
  losses by capital or, when the bank is at fault, by the bank alone) and the schedule of a
  diminishing partnership, in which the partner buys the bank's capital over time.
\<close>

section \<open>Types\<close>

datatype passive_partner = Bank_Passive | Partner_Passive | No_Passive

record musharaka_input =
  mu_result :: string
  mu_bank_capital :: string
  mu_partner_capital :: string
  mu_bank_ratio :: string
  mu_partner_ratio :: string
  mu_passive :: passive_partner
  mu_loss_cause :: "loss_cause option"
  mu_scale :: "jsnum option"

datatype result_type = Musharaka_Profit | Musharaka_Loss | Musharaka_Zero

datatype applied_rule =
    Negotiated_Profit_Ratio | Capital_Loss_Ratio | Causal_Bank_Liability | No_Rule

record musharaka_result =
  mz_type :: result_type
  mz_bank :: string
  mz_partner :: string
  mz_bank_ratio :: string
  mz_partner_ratio :: string
  mz_rule :: applied_rule
  mz_difference :: string

record purchase =
  pu_period :: jsnum
  pu_capital :: string

record schedule_input =
  si_bank :: string
  si_partner :: string
  si_purchases :: "purchase list"
  si_maturity :: bool
  si_scale :: "jsnum option"

record schedule_period =
  sp_period :: jsnum
  sp_purchased :: string
  sp_remaining :: string
  sp_partner :: string
  sp_bank_ratio :: string
  sp_partner_ratio :: string
  sp_ratio_total :: string

record schedule_result =
  sr_periods :: "schedule_period list"
  sr_bank :: string
  sr_partner :: string
  sr_acquired :: bool

section \<open>Helpers of the file\<close>

definition musharaka_scale :: "jsnum option \<Rightarrow> nat res" where
  "musharaka_scale = currency_scale"

definition musharaka_non_negative :: "'d decimal_lib \<Rightarrow> string \<Rightarrow> string \<Rightarrow> 'd res" where
  "musharaka_non_negative = read_non_negative"

definition musharaka_positive :: "'d decimal_lib \<Rightarrow> string \<Rightarrow> string \<Rightarrow> 'd res" where
  "musharaka_positive lib value field = and_then (musharaka_non_negative lib value field) (\<lambda>parsed.
     if \<not> d_is_positive lib parsed then Inl (RangeError (field @ '' must be positive'')) else Inr parsed)"

definition musharaka_ratio :: "'d decimal_lib \<Rightarrow> string \<Rightarrow> string \<Rightarrow> 'd res" where
  "musharaka_ratio lib value field = and_then (musharaka_non_negative lib value field) (\<lambda>parsed.
     if d_greater lib parsed (d_of_int lib 1) then Inl (RangeError (field @ '' cannot exceed 1'')) else Inr parsed)"

definition musharaka_units :: "string \<Rightarrow> nat \<Rightarrow> string \<Rightarrow> bool \<Rightarrow> int res" where
  "musharaka_units value scale field is_signed =
     read_units is_signed scale (canonical_message field) (exceeds_scale field scale) value"

definition musharaka_text :: "int \<Rightarrow> nat \<Rightarrow> string" where
  "musharaka_text units scale = render_units scale units"

definition musharaka_formatted :: "'d decimal_lib \<Rightarrow> 'd \<Rightarrow> nat \<Rightarrow> string" where
  "musharaka_formatted = d_formatted"

definition split_units :: "'d decimal_lib \<Rightarrow> int \<Rightarrow> 'd \<Rightarrow> 'd \<Rightarrow> (int \<times> int) res" where
  "split_units lib amount first_ratio second_ratio =
     (let exact_first = d_times lib (d_of_int lib amount) first_ratio;
          exact_second = d_times lib (d_of_int lib amount) second_ratio in
      and_then (big_int (d_to_fixed lib 0 (d_floor lib exact_first))) (\<lambda>first.
      and_then (big_int (d_to_fixed lib 0 (d_floor lib exact_second))) (\<lambda>second.
      let residual = amount - first - second in
      Inr (if residual > 0 then
             if d_at_least lib (d_minus lib exact_first (d_of_int lib first))
                 (d_minus lib exact_second (d_of_int lib second))
             then (first + residual, second) else (first, second + residual)
           else (first, second)))))"

definition musharaka_result_of ::
  "'d decimal_lib \<Rightarrow> int \<Rightarrow> int \<Rightarrow> int \<Rightarrow> nat \<Rightarrow> 'd \<Rightarrow> 'd \<Rightarrow> applied_rule \<Rightarrow> musharaka_result res" where
  "musharaka_result_of lib amount bank partner scale bank_ratio partner_ratio rule =
     (let difference = amount - bank - partner in
      if difference \<noteq> 0 then Inl (Failure ''Musharaka allocation conservation invariant violated'')
      else Inr \<lparr>mz_type = (if amount > 0 then Musharaka_Profit
          else if amount < 0 then Musharaka_Loss else Musharaka_Zero),
        mz_bank = musharaka_text bank scale, mz_partner = musharaka_text partner scale,
        mz_bank_ratio = musharaka_formatted lib bank_ratio 12,
        mz_partner_ratio = musharaka_formatted lib partner_ratio 12,
        mz_rule = rule, mz_difference = musharaka_text difference scale\<rparr>)"

section \<open>Operations\<close>

text \<open>The distribution once the arguments are checked.\<close>

definition musharaka_distribution ::
  "'d decimal_lib \<Rightarrow> musharaka_input \<Rightarrow> nat \<Rightarrow> int \<Rightarrow> 'd \<Rightarrow> 'd \<Rightarrow> 'd \<Rightarrow> 'd \<Rightarrow> musharaka_result res" where
  "musharaka_distribution lib input scale units bank_cap partner_cap bank_profit partner_profit =
     (if units = 0 then musharaka_result_of lib 0 0 0 scale bank_cap partner_cap No_Rule
      else if units > 0 then
        and_then (split_units lib units bank_profit partner_profit) (\<lambda>(bank, partner).
          musharaka_result_of lib units bank partner scale bank_cap partner_cap Negotiated_Profit_Ratio)
      else if (case mu_loss_cause input of None \<Rightarrow> False | Some c \<Rightarrow> is_bank_liability_cause c) then
        musharaka_result_of lib units units 0 scale bank_cap partner_cap Causal_Bank_Liability
      else and_then (split_units lib (- units) bank_cap partner_cap) (\<lambda>(bank_loss, partner_loss).
        musharaka_result_of lib units (- bank_loss) (- partner_loss) scale bank_cap partner_cap Capital_Loss_Ratio))"

definition allocate_musharaka_result :: "'d decimal_lib \<Rightarrow> musharaka_input \<Rightarrow> musharaka_result res" where
  "allocate_musharaka_result lib input =
     and_then (musharaka_scale (mu_scale input)) (\<lambda>scale.
     and_then (musharaka_units (mu_result input) scale ''result'' True) (\<lambda>units.
     and_then (musharaka_positive lib (mu_bank_capital input) ''bankCapital'') (\<lambda>bank_capital.
     and_then (musharaka_positive lib (mu_partner_capital input) ''partnerCapital'') (\<lambda>partner_capital.
     let total_capital = d_plus lib bank_capital partner_capital;
         bank_cap = d_divided_by lib bank_capital total_capital;
         partner_cap = d_divided_by lib partner_capital total_capital in
     and_then (musharaka_ratio lib (mu_bank_ratio input) ''bankProfitRatio'') (\<lambda>bank_profit.
     and_then (musharaka_ratio lib (mu_partner_ratio input) ''partnerProfitRatio'') (\<lambda>partner_profit.
     if \<not> d_equals lib (d_plus lib bank_profit partner_profit) (d_of_int lib 1)
     then Inl (RangeError ''Musharaka profit ratios must total exactly 1'')
     else if mu_passive input = Bank_Passive \<and> d_greater lib bank_profit bank_cap
     then Inl (RangeError ''Passive bank profit ratio cannot exceed its capital ratio'')
     else if mu_passive input = Partner_Passive \<and> d_greater lib partner_profit partner_cap
     then Inl (RangeError ''Passive partner profit ratio cannot exceed its capital ratio'')
     else musharaka_distribution lib input scale units bank_cap partner_cap bank_profit partner_profit))))))"

text \<open>The callback of \<open>purchases.map\<close>, with the three variables it updates.\<close>

definition period_text :: "jsnum \<Rightarrow> string" where
  "period_text x = (case js_int x of None \<Rightarrow> ''?'' | Some n \<Rightarrow> text_of_int n)"

fun schedule_loop ::
  "'d decimal_lib \<Rightarrow> nat \<Rightarrow> 'd \<Rightarrow> 'd \<Rightarrow> 'd \<Rightarrow> int \<Rightarrow> purchase list \<Rightarrow> (schedule_period list \<times> 'd \<times> 'd) res" where
  "schedule_loop lib scale initial_total bank partner previous [] = Inr ([], bank, partner)"
| "schedule_loop lib scale initial_total bank partner previous (p # rest) =
     (case js_int (pu_period p) of
        None \<Rightarrow> Inl (RangeError ''Purchase periods must be positive and strictly increasing'')
      | Some period \<Rightarrow>
          if period \<le> previous
          then Inl (RangeError ''Purchase periods must be positive and strictly increasing'')
          else and_then (musharaka_positive lib (pu_capital p)
              (''bankCapitalPurchased:'' @ period_text (pu_period p))) (\<lambda>purchased.
          if d_greater lib purchased bank
          then Inl (RangeError (''Purchase at period '' @ period_text (pu_period p)
            @ '' exceeds remaining bank capital''))
          else let bank' = d_minus lib bank purchased; partner' = d_plus lib partner purchased;
                   bank_ratio = d_divided_by lib bank' initial_total;
                   partner_ratio = d_divided_by lib partner' initial_total;
                   ratio_total = d_plus lib bank_ratio partner_ratio in
          if \<not> d_equals lib ratio_total (d_of_int lib 1)
          then Inl (Failure ''Moutanaqissa ownership ratio invariant violated'')
          else and_then (schedule_loop lib scale initial_total bank' partner' period rest)
            (\<lambda>(periods, final_bank, final_partner).
              Inr (\<lparr>sp_period = pu_period p, sp_purchased = musharaka_formatted lib purchased scale,
                sp_remaining = musharaka_formatted lib bank' scale,
                sp_partner = musharaka_formatted lib partner' scale,
                sp_bank_ratio = musharaka_formatted lib bank_ratio scale,
                sp_partner_ratio = musharaka_formatted lib partner_ratio scale,
                sp_ratio_total = musharaka_formatted lib ratio_total scale\<rparr> # periods,
               final_bank, final_partner))))"

definition build_moutanaqissa_schedule :: "'d decimal_lib \<Rightarrow> schedule_input \<Rightarrow> schedule_result res" where
  "build_moutanaqissa_schedule lib input =
     and_then (output_scale (si_scale input)) (\<lambda>scale.
     and_then (musharaka_positive lib (si_bank input) ''bankCapital'') (\<lambda>bank.
     and_then (musharaka_positive lib (si_partner input) ''partnerCapital'') (\<lambda>partner.
     and_then (schedule_loop lib scale (d_plus lib bank partner) bank partner 0 (si_purchases input))
       (\<lambda>(periods, final_bank, final_partner).
     if si_maturity input \<and> \<not> d_is_zero lib final_bank
     then Inl (RangeError ''Bank capital must be fully acquired at maturity'')
     else Inr \<lparr>sr_periods = periods, sr_bank = musharaka_formatted lib final_bank scale,
       sr_partner = musharaka_formatted lib final_partner scale,
       sr_acquired = d_is_zero lib final_bank\<rparr>))))"

section \<open>Properties\<close>

lemma musharaka_text_value [simp]: "decimal_value (musharaka_text u scale) = Some (of_int u / 10 ^ scale)"
  by (simp add: musharaka_text_def)

lemma musharaka_result_of_Inr:
  "musharaka_result_of lib amount bank partner scale br pr rule = Inr r \<Longrightarrow>
   amount = bank + partner \<and> decimal_value (mz_bank r) = Some (of_int bank / 10 ^ scale)
   \<and> decimal_value (mz_partner r) = Some (of_int partner / 10 ^ scale) \<and> mz_rule r = rule"
  by (auto simp: musharaka_result_of_def Let_def split: if_splits)

lemma split_units_bounds:
  assumes laws: "decimal_laws lib p val" and run: "split_units lib amount a b = Inr (f, s)"
    and v: "val a = Some x" "0 \<le> x" "val b = Some y" "0 \<le> y" and "0 \<le> amount"
  shows "0 \<le> f \<and> 0 \<le> s"
proof -
  let ?n = "d_of_int lib amount"
  have n: "val ?n = Some (of_int amount)" using laws by (rule decimal_laws_of_int)
  from decimal_laws_ops(3) [OF laws n v(1)] obtain u where u: "val (d_times lib ?n a) = Some u"
    "rounded p (of_int amount * x) u" by blast
  from decimal_laws_ops(3) [OF laws n v(3)] obtain w where w: "val (d_times lib ?n b) = Some w"
    "rounded p (of_int amount * y) w" by blast
  have "0 \<le> u" using rounded_nonneg [OF u(2)] v(2) assms(7) by simp
  moreover have "0 \<le> w" using rounded_nonneg [OF w(2)] v(4) assms(7) by simp
  moreover obtain f0 s0 where "big_int (d_to_fixed lib 0 (d_floor lib (d_times lib ?n a))) = Inr f0"
    "big_int (d_to_fixed lib 0 (d_floor lib (d_times lib ?n b))) = Inr s0"
    and fs: "f0 \<le> f" "s0 \<le> s"
    using run by (auto simp: split_units_def Let_def outcome split: if_splits)
  ultimately have "0 \<le> f0" "0 \<le> s0"
    using u(1) w(1) unfolding big_int_floor [OF laws] by auto
  with fs show ?thesis by linarith
qed

lemma musharaka_read_value:
  assumes "decimal_laws lib p val" "musharaka_non_negative lib s f = Inr d"
  shows "\<exists>q. decimal_value s = Some q \<and> val d = Some q \<and> 0 \<le> q"
proof -
  obtain i g where s: "unsigned_decimal s = Some (i, g)" and d: "d = of_text lib s"
    using assms(2) by (auto simp: musharaka_non_negative_def read_non_negative_def split: if_splits)
  with unsigned_value [OF s] decimal_laws_text [OF assms(1), of s] show ?thesis by auto
qed

lemma musharaka_ratio_read:
  assumes "decimal_laws lib p val" "musharaka_ratio lib s f = Inr d"
  shows "\<exists>q. decimal_value s = Some q \<and> val d = Some q \<and> 0 \<le> q \<and> q \<le> 1"
proof -
  have t: "musharaka_non_negative lib s f = Inr d" and le: "\<not> d_greater lib d (d_of_int lib 1)"
    using assms(2) by (auto simp: musharaka_ratio_def outcome)
  obtain q where q: "decimal_value s = Some q" "val d = Some q" "0 \<le> q" using musharaka_read_value [OF assms(1) t] by blast
  moreover have "q \<le> 1"
    using le decimal_laws_compare(2) [OF assms(1) q(2) decimal_laws_of_int [OF assms(1), of 1]] by simp
  ultimately show ?thesis by blast
qed

lemma musharaka_positive_read:
  "decimal_laws lib p val \<Longrightarrow> musharaka_positive lib s f = Inr d \<Longrightarrow> \<exists>q. decimal_value s = Some q \<and> val d = Some q \<and> 0 \<le> q"
  by (auto simp: musharaka_positive_def outcome dest: musharaka_read_value)

text \<open>The sixty digits of the decimals and the two floors move a share by less than one unit and a trace.\<close>

lemma representable_grid:
  assumes "0 \<le> k" "k \<le> 10 ^ 60"
  shows "representable 60 (of_int k / 10 ^ 60)"
proof (cases "k = 10 ^ 60")
  case True
  have "representable 60 (of_int 1)" by (rule representable_of_int) simp
  with True show ?thesis by simp
next
  case False
  with assms show ?thesis by (intro representable_scaled) simp
qed

lemma rounded_unit_interval:
  assumes "rounded 60 q r" "0 \<le> q" "q \<le> 1"
  shows "\<bar>r - q\<bar> \<le> 1 / 10 ^ 60"
proof -
  define c :: rat where "c = 10 ^ 60"
  have c: "0 < c" "of_int (10 ^ 60) = c" by (simp_all add: c_def)
  define k where "k = \<lfloor>q * c\<rfloor>"
  have k: "of_int k \<le> q * c" "q * c < of_int k + 1" unfolding k_def by linarith+
  have "q * c \<le> c" using assms(3) c(1) by simp
  with k(1) have "of_int k \<le> (of_int (10 ^ 60) :: rat)" unfolding c(2) by linarith
  then have le: "k \<le> 10 ^ 60" by (simp only: of_int_le_iff)
  have ge: "0 \<le> k" using assms(2) c(1) by (simp add: k_def)
  have grid: "representable 60 (of_int n / c)" if "0 \<le> n" "n \<le> 10 ^ 60" for n
    unfolding c_def using that by (rule representable_grid)
  show ?thesis
  proof (cases "k = 10 ^ 60")
    case True
    with k(1) c have "c \<le> q * c" by simp
    with c(1) assms(3) have "q = 1" by (simp add: mult_le_cancel_right1)
    with grid [of "10 ^ 60"] c rounded_representable [OF assms(1)] show ?thesis by simp
  next
    case False
    have "of_int k / c \<le> r" using rounded_ge [OF assms(1) grid [OF ge le]] k(1) c(1) by (simp add: divide_le_eq)
    moreover have "r \<le> of_int (k + 1) / c"
      using rounded_le [OF assms(1) grid [of "k + 1"]] k(2) le ge False c(1) by (simp add: le_divide_eq)
    moreover have "of_int k / c \<le> q" "q \<le> of_int (k + 1) / c" using k c(1) by (simp_all add: divide_le_eq le_divide_eq)
    moreover have "of_int (k + 1) / c = of_int k / c + 1 / c" by (simp add: add_divide_distrib)
    ultimately show ?thesis unfolding c_def [symmetric] by linarith
  qed
qed

lemma rounded_to_one:
  assumes "rounded 60 z 1"
  shows "\<bar>1 - z\<bar> < 1 / 10 ^ 59"
proof -
  define c :: rat where "c = 1 / 10 ^ 59"
  have "representable 60 (of_int (10 ^ 59 + 1) / 10 ^ 59)" "representable 60 (of_int (10 ^ 59 - 1) / 10 ^ 59)"
    by (rule representable_scaled, simp)+
  moreover have "of_int (10 ^ 59 + 1) / 10 ^ 59 = 1 + c" "of_int (10 ^ 59 - 1) / 10 ^ 59 = 1 - c" by (simp_all add: c_def)
  ultimately have "1 + c \<le> z \<longrightarrow> 1 + c \<le> 1" "z \<le> 1 - c \<longrightarrow> 1 \<le> 1 - c"
    using rounded_ge [OF assms] rounded_le [OF assms] by metis+
  moreover have "0 < c" by (simp add: c_def)
  ultimately show ?thesis unfolding c_def [symmetric] by linarith
qed

lemma rounded_floor_near:
  assumes "rounded 60 x u" "0 \<le> x" "x \<le> of_int n" "n < 10 ^ 60"
  shows "\<bar>of_int \<lfloor>u\<rfloor> - x\<bar> < 1"
proof -
  have c: "\<lceil>x\<rceil> \<le> n" "\<lfloor>x\<rfloor> \<le> n" "0 \<le> \<lfloor>x\<rfloor>" "0 \<le> \<lceil>x\<rceil>" using assms(2,3) by (simp_all add: ceiling_le_iff floor_le_iff)
  have b: "\<bar>\<lfloor>x\<rfloor>\<bar> < 10 ^ 60" "\<bar>\<lceil>x\<rceil>\<bar> < 10 ^ 60" using c assms(4) by linarith+
  have "of_int \<lfloor>x\<rfloor> \<le> u" using rounded_ge [OF assms(1) representable_of_int [OF b(1)]] by simp
  moreover have "u \<le> of_int \<lceil>x\<rceil>" using rounded_le [OF assms(1) representable_of_int [OF b(2)]] by simp
  ultimately have "\<lfloor>x\<rfloor> \<le> \<lfloor>u\<rfloor>" "\<lfloor>u\<rfloor> \<le> \<lceil>x\<rceil>" by (simp_all add: le_floor_iff) linarith
  then have "(of_int \<lfloor>x\<rfloor> :: rat) \<le> of_int \<lfloor>u\<rfloor>" "(of_int \<lfloor>u\<rfloor> :: rat) \<le> of_int \<lceil>x\<rceil>" by simp_all
  moreover have "x < of_int \<lfloor>x\<rfloor> + 1" "of_int \<lceil>x\<rceil> < x + 1" by linarith+
  ultimately show ?thesis by linarith
qed

lemma split_units_near:
  assumes laws: "decimal_laws lib 60 val" and run: "split_units lib n a b = Inr (f, s)" and sum: "f + s = n"
    and v: "val a = Some x" "0 \<le> x" "x \<le> 1" "val b = Some y" "0 \<le> y" "y \<le> 1" and n: "0 \<le> n" "n < 10 ^ 60"
    and near: "\<bar>x - q\<bar> \<le> e" "\<bar>y - (1 - q)\<bar> \<le> e"
  shows "\<bar>of_int f - of_int n * q\<bar> < 1 + of_int n * e"
proof -
  let ?n = "d_of_int lib n" let ?m = "of_int n :: rat"
  have nv: "val ?n = Some ?m" using laws by (rule decimal_laws_of_int)
  obtain u where u: "val (d_times lib ?n a) = Some u" "rounded 60 (?m * x) u" using decimal_laws_ops(3) [OF laws nv v(1)] by blast
  obtain w where w: "val (d_times lib ?n b) = Some w" "rounded 60 (?m * y) w" using decimal_laws_ops(3) [OF laws nv v(4)] by blast
  have "f = \<lfloor>u\<rfloor> \<or> s = \<lfloor>w\<rfloor>"
    using run u(1) w(1) by (auto simp: split_units_def Let_def and_then_Inr big_int_floor [OF laws] split: if_splits)
  moreover have nu: "\<bar>of_int \<lfloor>u\<rfloor> - ?m * x\<bar> < 1" "\<bar>of_int \<lfloor>w\<rfloor> - ?m * y\<bar> < 1"
    using rounded_floor_near [OF u(2) _ _ n(2)] rounded_floor_near [OF w(2) _ _ n(2)] v n(1) by (simp_all add: mult_left_le)
  moreover have scaled: "\<bar>?m * x - ?m * q\<bar> \<le> ?m * e" "\<bar>?m * y - ?m * (1 - q)\<bar> \<le> ?m * e"
    using mult_left_mono [OF near(1), of ?m] mult_left_mono [OF near(2), of ?m] n(1)
    by (simp_all add: abs_mult flip: right_diff_distrib)
  moreover have "of_int f - ?m * q = ?m * (1 - q) - of_int s" using sum by (simp add: algebra_simps flip: of_int_add)
  ultimately show ?thesis by (elim disjE) linarith+
qed

text \<open>A share is the ratio of the result, but for less than one unit and the rounding to sixty digits.\<close>

definition shared_by :: "nat \<Rightarrow> rat \<Rightarrow> rat \<Rightarrow> rat \<Rightarrow> bool" where
  "shared_by scale result ratio share \<longleftrightarrow>
     (\<bar>result\<bar> < 10 ^ 48 \<longrightarrow> \<bar>share - result * ratio\<bar> < 1 / 10 ^ scale + \<bar>result\<bar> / 10 ^ 59)"

lemma shared_by_units:
  assumes "\<bar>n\<bar> < 10 ^ 60 \<Longrightarrow> \<bar>of_int f - of_int n * ratio\<bar> < 1 + \<bar>of_int n\<bar> / 10 ^ 59" "scale \<le> 12"
  shows "shared_by scale (of_int n / 10 ^ scale) ratio (of_int f / 10 ^ scale)"
  unfolding shared_by_def
proof
  let ?c = "10 ^ scale :: rat"
  assume "\<bar>of_int n / ?c\<bar> < 10 ^ 48"
  then have "\<bar>of_int n\<bar> < 10 ^ 48 * ?c" by (simp add: abs_divide divide_less_eq)
  also have "\<dots> \<le> 10 ^ 48 * 10 ^ 12" using assms(2) by (intro mult_left_mono power_increasing) simp_all
  also have "\<dots> = of_int (10 ^ 60)" by simp
  finally have "\<bar>n\<bar> < 10 ^ 60" by (simp only: of_int_less_iff flip: of_int_abs)
  from divide_strict_right_mono [OF assms(1) [OF this], of ?c]
  have "\<bar>of_int f - of_int n * ratio\<bar> / ?c < 1 / ?c + \<bar>of_int n\<bar> / 10 ^ 59 / ?c" by (simp add: add_divide_distrib)
  moreover have "of_int f / ?c - of_int n / ?c * ratio = (of_int f - of_int n * ratio) / ?c" by (simp add: diff_divide_distrib)
  ultimately show "\<bar>of_int f / ?c - of_int n / ?c * ratio\<bar> < 1 / ?c + \<bar>of_int n / ?c\<bar> / 10 ^ 59"
    by (simp add: abs_divide mult.commute)
qed

text \<open>A profit is split by the negotiated ratios, which add up to one within sixty digits.\<close>

lemma profit_split:
  assumes laws: "decimal_laws lib 60 val" and run: "split_units lib n bp pp = Inr (f, s)" and sum: "f + s = n"
    and bp: "musharaka_ratio lib t1 g1 = Inr bp" and pp: "musharaka_ratio lib t2 g2 = Inr pp"
    and one: "d_equals lib (d_plus lib bp pp) (d_of_int lib 1)" and n: "0 < n"
  shows "\<exists>ratio. decimal_value t1 = Some ratio \<and> (n < 10 ^ 60 \<longrightarrow> \<bar>of_int f - of_int n * ratio\<bar> < 1 + of_int n / 10 ^ 59)"
proof -
  obtain x where x: "decimal_value t1 = Some x" "val bp = Some x" "0 \<le> x" "x \<le> 1" using musharaka_ratio_read [OF laws bp] by blast
  obtain y where y: "val pp = Some y" "0 \<le> y" "y \<le> 1" using musharaka_ratio_read [OF laws pp] by blast
  obtain z where z: "val (d_plus lib bp pp) = Some z" "rounded 60 (x + y) z" using decimal_laws_ops(1) [OF laws x(2) y(1)] by blast
  have "z = 1" using one decimal_laws_compare(1) [OF laws z(1) decimal_laws_of_int [OF laws, of 1]] by simp
  with z(2) have "\<bar>1 - (x + y)\<bar> < 1 / 10 ^ 59" by (intro rounded_to_one) simp
  then have "\<bar>y - (1 - x)\<bar> \<le> 1 / 10 ^ 59" by linarith
  with split_units_near [OF laws run sum x(2-4) y(1-3), of x "1 / 10 ^ 59"] n x(1) show ?thesis by auto
qed

text \<open>A loss is split by the capitals.\<close>

lemma capital_split:
  assumes laws: "decimal_laws lib 60 val" and sum: "f + s = n"
    and run: "split_units lib n (d_divided_by lib bc (d_plus lib bc pc)) (d_divided_by lib pc (d_plus lib bc pc)) = Inr (f, s)"
    and b: "val bc = Some b" "0 \<le> b" and p: "val pc = Some p" "0 \<le> p" and n: "0 < n" and digits: "representable 60 (b + p)"
    and pos: "b + p \<noteq> 0"
  shows "n < 10 ^ 60 \<longrightarrow> \<bar>of_int f - of_int n * (b / (b + p))\<bar> < 1 + of_int n / 10 ^ 59"
proof -
  have t: "val (d_plus lib bc pc) = Some (b + p)"
    using decimal_laws_ops(1) [OF laws b(1) p(1)] rounded_representable [OF _ digits] by blast
  obtain x where x: "val (d_divided_by lib bc (d_plus lib bc pc)) = Some x" "rounded 60 (b / (b + p)) x"
    using decimal_laws_ops(4) [OF laws b(1) t pos] by blast
  obtain y where y: "val (d_divided_by lib pc (d_plus lib bc pc)) = Some y" "rounded 60 (p / (b + p)) y"
    using decimal_laws_ops(4) [OF laws p(1) t pos] by blast
  have u: "0 \<le> b / (b + p)" "b / (b + p) \<le> 1" "0 \<le> p / (b + p)" "p / (b + p) \<le> 1" "p / (b + p) = 1 - b / (b + p)"
    using b(2) p(2) pos by (simp_all add: divide_le_eq field_simps)
  have one: "representable 60 1" using representable_of_int [of 1 60] by simp
  have r: "0 \<le> x" "x \<le> 1" "0 \<le> y" "y \<le> 1"
    using rounded_nonneg [OF x(2) u(1)] rounded_le [OF x(2) one u(2)] rounded_nonneg [OF y(2) u(3)] rounded_le [OF y(2) one u(4)] by auto
  have "\<bar>x - b / (b + p)\<bar> \<le> 1 / 10 ^ 59" "\<bar>y - (1 - b / (b + p))\<bar> \<le> 1 / 10 ^ 59"
    using rounded_unit_interval [OF x(2) u(1,2)] rounded_unit_interval [OF y(2) u(3,4)] unfolding u(5) by simp_all
  from split_units_near [OF laws run sum x(1) r(1,2) y(1) r(3,4) _ _ this] n show ?thesis by simp
qed

text \<open>The shares of the branches in units.\<close>

definition profit_shares :: "musharaka_input \<Rightarrow> nat \<Rightarrow> rat \<Rightarrow> rat \<Rightarrow> rat \<Rightarrow> bool" where
  "profit_shares input scale result bank partner \<longleftrightarrow> 0 \<le> bank \<and> 0 \<le> partner
     \<and> (\<exists>ratio. decimal_value (mu_bank_ratio input) = Some ratio \<and> shared_by scale result ratio bank)"

definition capital_shares :: "musharaka_input \<Rightarrow> nat \<Rightarrow> rat \<Rightarrow> rat \<Rightarrow> rat \<Rightarrow> bool" where
  "capital_shares input scale result bank partner \<longleftrightarrow>
     (\<exists>b p. decimal_value (mu_bank_capital input) = Some b \<and> decimal_value (mu_partner_capital input) = Some p
       \<and> (0 < b + p \<and> representable 60 (b + p) \<longrightarrow> shared_by scale result (b / (b + p)) bank))"

lemma musharaka_profit:
  assumes laws: "decimal_laws lib 60 val" and sum: "f + s = n" and n: "0 < n" and k: "scale \<le> 12"
    and bp: "musharaka_ratio lib (mu_bank_ratio input) g1 = Inr bp" and pp: "musharaka_ratio lib t g2 = Inr pp"
    and one: "d_equals lib (d_plus lib bp pp) (d_of_int lib 1)" and run: "split_units lib n bp pp = Inr (f, s)"
  shows "profit_shares input scale (of_int n / 10 ^ scale) (of_int f / 10 ^ scale) (of_int s / 10 ^ scale)"
proof -
  have "0 \<le> f \<and> 0 \<le> s"
    using split_units_bounds [OF laws run] musharaka_ratio_read [OF laws bp] musharaka_ratio_read [OF laws pp] n by auto
  moreover obtain ratio where "decimal_value (mu_bank_ratio input) = Some ratio"
    "n < 10 ^ 60 \<longrightarrow> \<bar>of_int f - of_int n * ratio\<bar> < 1 + of_int n / 10 ^ 59"
    using profit_split [OF laws run sum bp pp one n] by blast
  moreover from this(2) n have "shared_by scale (of_int n / 10 ^ scale) ratio (of_int f / 10 ^ scale)"
    by (intro shared_by_units [OF _ k]) simp
  ultimately show ?thesis unfolding profit_shares_def by (simp add: zero_le_divide_iff)
qed

lemma musharaka_loss:
  assumes laws: "decimal_laws lib 60 val" and sum: "f + s = n" and n: "0 < n" and k: "scale \<le> 12"
    and b: "musharaka_positive lib (mu_bank_capital input) g1 = Inr bc" and p: "musharaka_positive lib (mu_partner_capital input) g2 = Inr pc"
    and run: "split_units lib n (d_divided_by lib bc (d_plus lib bc pc)) (d_divided_by lib pc (d_plus lib bc pc)) = Inr (f, s)"
  shows "capital_shares input scale (of_int (- n) / 10 ^ scale) (of_int (- f) / 10 ^ scale) (of_int (- s) / 10 ^ scale)"
proof -
  obtain x where x: "decimal_value (mu_bank_capital input) = Some x" "val bc = Some x" "0 \<le> x"
    using musharaka_positive_read [OF laws b] by blast
  obtain y where y: "decimal_value (mu_partner_capital input) = Some y" "val pc = Some y" "0 \<le> y"
    using musharaka_positive_read [OF laws p] by blast
  have "shared_by scale (of_int (- n) / 10 ^ scale) (x / (x + y)) (of_int (- f) / 10 ^ scale)"
    if "0 < x + y" "representable 60 (x + y)"
  proof (rule shared_by_units [OF _ k])
    assume "\<bar>- n\<bar> < 10 ^ 60"
    with capital_split [OF laws sum run x(2,3) y(2,3) n that(2)] that(1) n
    have "\<bar>of_int f - of_int n * (x / (x + y))\<bar> < 1 + of_int n / (10 ^ 59 :: rat)" by simp
    moreover have "of_int (- f) - of_int (- n) * (x / (x + y)) = - (of_int f - of_int n * (x / (x + y)))" by simp
    ultimately show "\<bar>of_int (- f) - of_int (- n) * (x / (x + y))\<bar> < 1 + \<bar>of_int (- n)\<bar> / 10 ^ 59"
      using n by (simp only: abs_minus_cancel)
  qed
  with x(1) y(1) show ?thesis unfolding capital_shares_def by blast
qed

definition bank_liable :: "musharaka_input \<Rightarrow> bool" where
  "bank_liable input \<longleftrightarrow> (\<exists>c. mu_loss_cause input = Some c \<and> is_bank_liability_cause c)"

lemma musharaka_distribution_shares:
  assumes laws: "decimal_laws lib 60 val" and k: "scale \<le> 12"
    and b: "musharaka_positive lib (mu_bank_capital input) g1 = Inr bc" and p: "musharaka_positive lib (mu_partner_capital input) g2 = Inr pc"
    and bp: "musharaka_ratio lib (mu_bank_ratio input) g3 = Inr bp" and pp: "musharaka_ratio lib t g4 = Inr pp"
    and one: "d_equals lib (d_plus lib bp pp) (d_of_int lib 1)"
    and run: "musharaka_distribution lib input scale units (d_divided_by lib bc (d_plus lib bc pc))
      (d_divided_by lib pc (d_plus lib bc pc)) bp pp = Inr r"
  obtains bank partner where "bank + partner = units" "decimal_value (mz_bank r) = Some (of_int bank / 10 ^ scale)"
    "decimal_value (mz_partner r) = Some (of_int partner / 10 ^ scale)"
    "if units = 0 then mz_rule r = No_Rule \<and> bank = 0 \<and> partner = 0
     else if units > 0 then mz_rule r = Negotiated_Profit_Ratio
       \<and> profit_shares input scale (of_int units / 10 ^ scale) (of_int bank / 10 ^ scale) (of_int partner / 10 ^ scale)
     else if bank_liable input then mz_rule r = Causal_Bank_Liability \<and> partner = 0
     else mz_rule r = Capital_Loss_Ratio
       \<and> capital_shares input scale (of_int units / 10 ^ scale) (of_int bank / 10 ^ scale) (of_int partner / 10 ^ scale)"
proof -
  let ?bc = "d_divided_by lib bc (d_plus lib bc pc)" and ?pc = "d_divided_by lib pc (d_plus lib bc pc)"
  consider "units = 0" | "units > 0" | "units < 0" "bank_liable input" | "units < 0" "\<not> bank_liable input"
    by (cases "units = 0"; cases "units > 0"; cases "bank_liable input"; simp)
  then show thesis
  proof cases
    case 1
    with run have "musharaka_result_of lib 0 0 0 scale ?bc ?pc No_Rule = Inr r" by (simp add: musharaka_distribution_def)
    from musharaka_result_of_Inr [OF this] 1 show ?thesis by (intro that [of 0 0]) simp_all
  next
    case 2
    with run obtain f s where fs: "split_units lib units bp pp = Inr (f, s)"
      and r: "musharaka_result_of lib units f s scale ?bc ?pc Negotiated_Profit_Ratio = Inr r"
      by (auto simp: musharaka_distribution_def outcome)
    note r = musharaka_result_of_Inr [OF r]
    from r have "f + s = units" by simp
    from musharaka_profit [OF laws this 2 k bp pp one fs] r 2 show ?thesis by (intro that [of f s]) simp_all
  next
    case 3
    with run have "musharaka_result_of lib units units 0 scale ?bc ?pc Causal_Bank_Liability = Inr r"
      by (auto simp: musharaka_distribution_def bank_liable_def)
    from musharaka_result_of_Inr [OF this] 3 show ?thesis by (intro that [of units 0]) simp_all
  next
    case 4
    with run obtain f s where fs: "split_units lib (- units) ?bc ?pc = Inr (f, s)"
      and r: "musharaka_result_of lib units (- f) (- s) scale ?bc ?pc Capital_Loss_Ratio = Inr r"
      by (auto simp: musharaka_distribution_def bank_liable_def outcome split: option.splits)
    note r = musharaka_result_of_Inr [OF r]
    from r have "f + s = - units" by simp
    note shares = musharaka_loss [OF laws this _ k b p fs]
    show ?thesis
    proof (rule that [of "- f" "- s"])
      show "- f + - s = units" using r by simp
      show "decimal_value (mz_bank r) = Some (of_int (- f) / 10 ^ scale)" "decimal_value (mz_partner r) = Some (of_int (- s) / 10 ^ scale)"
        using r by simp_all
      show "if units = 0 then mz_rule r = No_Rule \<and> - f = 0 \<and> - s = 0
        else if units > 0 then mz_rule r = Negotiated_Profit_Ratio
          \<and> profit_shares input scale (of_int units / 10 ^ scale) (of_int (- f) / 10 ^ scale) (of_int (- s) / 10 ^ scale)
        else if bank_liable input then mz_rule r = Causal_Bank_Liability \<and> - s = 0
        else mz_rule r = Capital_Loss_Ratio
          \<and> capital_shares input scale (of_int units / 10 ^ scale) (of_int (- f) / 10 ^ scale) (of_int (- s) / 10 ^ scale)"
        using shares 4 conjunct2 [OF conjunct2 [OF conjunct2 [OF r]]] by simp
    qed
  qed
qed

text \<open>
  C8. Partnership results are shared completely and by the rule of the branch: when
  \<open>allocateMusharakaResult\<close> returns, the printed allocations of bank and partner add up to exactly the
  result.  Under the documented behaviour of decimal.js, with sixty digits, a profit is split by the negotiated
  ratio, and neither share is negative; a loss the bank caused is the bank's alone; and any other loss is split by
  the capitals, where their sum is positive and has at most sixty digits.  For results below \<open>10 ^ 48\<close> the
  bank's share differs from its exact part by less than one minor unit and a \<open>10 ^ 59\<close>th of the result.
\<close>

theorem musharaka_shares:
  assumes "decimal_laws lib 60 val" "allocate_musharaka_result lib input = Inr r"
  shows "\<exists>scale result bank partner. musharaka_scale (mu_scale input) = Inr scale
   \<and> map decimal_value [mu_result input, mz_bank r, mz_partner r] = map Some [result, bank, partner]
   \<and> bank + partner = result
   \<and> (if result = 0 then mz_rule r = No_Rule \<and> bank = 0 \<and> partner = 0
      else if result > 0 then mz_rule r = Negotiated_Profit_Ratio \<and> profit_shares input scale result bank partner
      else if bank_liable input then mz_rule r = Causal_Bank_Liability \<and> partner = 0
      else mz_rule r = Capital_Loss_Ratio \<and> capital_shares input scale result bank partner)"
proof -
  from assms(2) obtain scale units bc pc bp pp where sc: "musharaka_scale (mu_scale input) = Inr scale"
    and u: "musharaka_units (mu_result input) scale ''result'' True = Inr units"
    and b: "musharaka_positive lib (mu_bank_capital input) ''bankCapital'' = Inr bc"
    and p: "musharaka_positive lib (mu_partner_capital input) ''partnerCapital'' = Inr pc"
    and bp: "musharaka_ratio lib (mu_bank_ratio input) ''bankProfitRatio'' = Inr bp"
    and pp: "musharaka_ratio lib (mu_partner_ratio input) ''partnerProfitRatio'' = Inr pp"
    and one: "d_equals lib (d_plus lib bp pp) (d_of_int lib 1)"
    and d: "musharaka_distribution lib input scale units (d_divided_by lib bc (d_plus lib bc pc))
      (d_divided_by lib pc (d_plus lib bc pc)) bp pp = Inr r"
    unfolding allocate_musharaka_result_def Let_def and_then_Inr if_throw_Inr by blast
  have k: "scale \<le> 12" using sc by (auto simp: musharaka_scale_def dest: currency_scale_le)
  have res: "decimal_value (mu_result input) = Some (of_int units / 10 ^ scale)"
    using read_units_value [OF u [unfolded musharaka_units_def]] by fastforce
  from musharaka_distribution_shares [OF assms(1) k b p bp pp one d] obtain bank partner where sum: "bank + partner = units"
    and v: "decimal_value (mz_bank r) = Some (of_int bank / 10 ^ scale)" "decimal_value (mz_partner r) = Some (of_int partner / 10 ^ scale)"
    and shares: "if units = 0 then mz_rule r = No_Rule \<and> bank = 0 \<and> partner = 0
     else if units > 0 then mz_rule r = Negotiated_Profit_Ratio
       \<and> profit_shares input scale (of_int units / 10 ^ scale) (of_int bank / 10 ^ scale) (of_int partner / 10 ^ scale)
     else if bank_liable input then mz_rule r = Causal_Bank_Liability \<and> partner = 0
     else mz_rule r = Capital_Loss_Ratio
       \<and> capital_shares input scale (of_int units / 10 ^ scale) (of_int bank / 10 ^ scale) (of_int partner / 10 ^ scale)" .
  have "of_int bank / 10 ^ scale + of_int partner / 10 ^ scale = (of_int units / 10 ^ scale :: rat)"
    by (simp add: sum [symmetric] add_divide_distrib)
  moreover have sign: "(of_int units / 10 ^ scale :: rat) = 0 \<longleftrightarrow> units = 0" "(of_int units / 10 ^ scale :: rat) > 0 \<longleftrightarrow> units > 0"
    by (simp_all add: zero_less_divide_iff)
  ultimately show ?thesis
    using sc res v shares
    by - (rule exI [of _ scale], rule exI [of _ "of_int units / 10 ^ scale"], rule exI [of _ "of_int bank / 10 ^ scale"],
      rule exI [of _ "of_int partner / 10 ^ scale"], simp only: sign, auto)
qed

definition musharaka_example :: musharaka_input where
  "musharaka_example = \<lparr>mu_result = ''-100.00'', mu_bank_capital = ''600'', mu_partner_capital = ''400'',
     mu_bank_ratio = ''0.5'', mu_partner_ratio = ''0.5'', mu_passive = No_Passive,
     mu_loss_cause = Some Credit_Loss, mu_scale = None\<rparr>"

lemma musharaka_example_fields:
  "mu_result musharaka_example = ''-100.00''" "mu_bank_capital musharaka_example = ''600''"
  "mu_partner_capital musharaka_example = ''400''" "mu_bank_ratio musharaka_example = ''0.5''"
  "mu_partner_ratio musharaka_example = ''0.5''" "mu_passive musharaka_example = No_Passive"
  "mu_loss_cause musharaka_example = Some Credit_Loss" "mu_scale musharaka_example = None"
  by (simp_all add: musharaka_example_def)

lemma musharaka_example_run:
  "\<exists>r. allocate_musharaka_result exact_lib musharaka_example = Inr r \<and> mz_bank r = ''-60.00''
     \<and> mz_partner r = ''-40.00''"
proof -
  have "split_units exact_lib 10000 (Num (3 / 5)) (Num (2 / 5)) = Inr (6000, 4000)"
    by (simp add: split_units_def lib_eval cong: eval_cong)
  then have "\<exists>r. musharaka_distribution exact_lib musharaka_example 2 (- 10000) (Num (3 / 5)) (Num (2 / 5))
       (Num (1 / 2)) (Num (1 / 2)) = Inr r \<and> mz_bank r = ''-60.00'' \<and> mz_partner r = ''-40.00''"
    by (simp add: musharaka_distribution_def musharaka_example_fields is_bank_liability_cause_def
        bank_liability_causes_def musharaka_result_of_def musharaka_text_def text_eval cong: eval_cong)
  then show ?thesis
    by (simp add: allocate_musharaka_result_def musharaka_example_fields musharaka_scale_def
        musharaka_units_def musharaka_positive_def musharaka_ratio_def musharaka_non_negative_def
        lib_eval cong: eval_cong)
qed

theorem musharaka_shares_witness:
  "\<exists>r bank partner. allocate_musharaka_result exact_lib musharaka_example = Inr r
     \<and> mz_bank r = ''-60.00'' \<and> mz_rule r = Capital_Loss_Ratio
     \<and> bank + partner = - 100 \<and> capital_shares musharaka_example 2 (- 100) bank partner"
proof -
  from musharaka_example_run obtain r where r: "allocate_musharaka_result exact_lib musharaka_example = Inr r"
    "mz_bank r = ''-60.00''" by (elim exE conjE) (rule that)
  have v: "decimal_value (mu_result musharaka_example) = Some (- 100)"
    by (simp add: musharaka_example_fields text_eval)
  have free: "\<not> bank_liable musharaka_example"
    by (simp add: bank_liable_def musharaka_example_fields is_bank_liability_cause_def bank_liability_causes_def)
  from musharaka_shares [OF exact_lib_laws r(1)] obtain scale result bank partner where
    sc: "musharaka_scale (mu_scale musharaka_example) = Inr scale" "decimal_value (mu_result musharaka_example) = Some result"
    and "bank + partner = result"
    and n: "if result = 0 then mz_rule r = No_Rule \<and> bank = 0 \<and> partner = 0
      else if result > 0 then mz_rule r = Negotiated_Profit_Ratio \<and> profit_shares musharaka_example scale result bank partner
      else if bank_liable musharaka_example then mz_rule r = Causal_Bank_Liability \<and> partner = 0
      else mz_rule r = Capital_Loss_Ratio \<and> capital_shares musharaka_example scale result bank partner"
    by (elim exE conjE) (simp only: list.map list.inject)
  moreover have "scale = 2" "result = - 100" using sc v by (simp_all add: musharaka_example_fields musharaka_scale_def)
  ultimately show ?thesis using r free by auto
qed

text \<open>The guard named \<open>positive\<close> looks at the sign only and lets a capital of zero through.\<close>

lemma musharaka_positive_zero:
  assumes "decimal_laws lib p val"
  shows "musharaka_positive lib ''0'' field = Inr (of_text lib ''0'')"
proof -
  have "unsigned_decimal ''0'' = Some (''0'', None)" by (simp add: text_eval)
  with decimal_laws_unsigned [OF assms this] show ?thesis
    by (simp add: musharaka_positive_def musharaka_non_negative_def read_non_negative_def)
qed

text \<open>The schedule keeps the purchases in order.\<close>

lemma schedule_loop_periods:
  "schedule_loop lib scale initial_total bank partner previous ps = Inr (periods, fb, fp) \<Longrightarrow>
   map sp_period periods = map pu_period ps
   \<and> (\<exists>ns. map (\<lambda>p. js_int (pu_period p)) ps = map Some ns \<and> sorted_wrt (<) (previous # ns))"
proof (induction lib scale initial_total bank partner previous ps arbitrary: periods fb fp rule: schedule_loop.induct)
  case (2 lib scale initial_total bank partner previous p rest)
  obtain n where n: "js_int (pu_period p) = Some n" "previous < n"
    using "2.prems" by (auto simp: not_le split: option.splits if_splits)
  from "2.prems" n obtain purchased periods' where
    "musharaka_positive lib (pu_capital p) (''bankCapitalPurchased:'' @ period_text (pu_period p)) = Inr purchased"
    and rest: "\<not> d_greater lib purchased bank"
    "d_equals lib (d_plus lib (d_divided_by lib (d_minus lib bank purchased) initial_total)
        (d_divided_by lib (d_plus lib partner purchased) initial_total)) (d_of_int lib 1)"
    "schedule_loop lib scale initial_total (d_minus lib bank purchased) (d_plus lib partner purchased) n rest
      = Inr (periods', fb, fp)"
    and periods: "map sp_period periods = pu_period p # map sp_period periods'"
    by (auto simp: outcome Let_def split: if_splits)
  from "2.IH" [OF n(1) _ this(1,2) refl refl refl refl refl _ rest(3)] rest(1,2) n(2)
  obtain ns where "map sp_period periods' = map pu_period rest"
    "map (\<lambda>p. js_int (pu_period p)) rest = map Some ns" "sorted_wrt (<) (n # ns)" by auto
  with n periods show ?case by (intro conjI exI [of _ "n # ns"]) auto
qed (auto intro: exI [of _ "[]"])

end
