(* ===== verification/Profit_Target.thy ===== *)
theory Profit_Target
  imports Decimal_Lib
begin

text \<open>
  \<open>libs/engine/src/profit-target-solver.ts\<close>: which adjustment of a lever (distribution key,
  waiver of the bank's share, or one of the two reserves) would bring the investors' profit to
  a target rate, and whether it is available.
\<close>

section \<open>Types\<close>

datatype lever = Distribution_Key | Tanazul | Per_Lever | Irr_Lever

datatype solver_status = Applicable | Next_Period_Or_Tanazul | Governance_Required | Out_Of_Range

record target_input =
  ti_base :: string
  ti_rate :: string
  ti_current :: string
  ti_distributable :: string
  ti_key :: string
  ti_bank_share :: string
  ti_per_min :: string
  ti_per_max :: string
  ti_irr_min :: string
  ti_irr_max :: string
  ti_lever :: lever
  ti_scale :: "jsnum option"

record target_result =
  tr_lever :: lever
  tr_status :: solver_status
  tr_required :: "string option"
  tr_adjustment :: string
  tr_profit :: string
  tr_min_rate :: string
  tr_max_rate :: string
  tr_governance :: "string list"
  tr_alternatives :: "string list"

section \<open>Operations\<close>

definition target_non_negative :: "'d decimal_lib \<Rightarrow> string \<Rightarrow> string \<Rightarrow> 'd res" where
  "target_non_negative = read_non_negative"

definition target_signed :: "'d decimal_lib \<Rightarrow> string \<Rightarrow> string \<Rightarrow> 'd res" where
  "target_signed = read_signed"

definition target_positive :: "'d decimal_lib \<Rightarrow> string \<Rightarrow> string \<Rightarrow> 'd res" where
  "target_positive lib value field = and_then (target_non_negative lib value field) (\<lambda>parsed.
     if \<not> d_is_positive lib parsed then Inl (RangeError (field @ '' must be positive'')) else Inr parsed)"

definition bounded_rate :: "'d decimal_lib \<Rightarrow> string \<Rightarrow> string \<Rightarrow> 'd res" where
  "bounded_rate lib value field = and_then (target_non_negative lib value field) (\<lambda>parsed.
     if d_greater lib parsed (d_of_int lib 1) then Inl (RangeError (field @ '' cannot exceed 1'')) else Inr parsed)"

definition target_formatted :: "'d decimal_lib \<Rightarrow> 'd \<Rightarrow> nat \<Rightarrow> string" where
  "target_formatted = d_formatted"

definition target_response ::
  "'d decimal_lib \<Rightarrow> lever \<Rightarrow> solver_status \<Rightarrow> 'd option \<Rightarrow> 'd \<Rightarrow> 'd \<Rightarrow> 'd \<Rightarrow> 'd \<Rightarrow> 'd \<Rightarrow> nat \<Rightarrow>
   string list \<Rightarrow> string list \<Rightarrow> target_result" where
  "target_response lib lev status required adjustment profit min_profit max_profit base scale governance alternatives =
     \<lparr>tr_lever = lev, tr_status = status,
      tr_required = map_option (\<lambda>v. target_formatted lib v scale) required,
      tr_adjustment = target_formatted lib adjustment scale,
      tr_profit = target_formatted lib profit scale,
      tr_min_rate = target_formatted lib (d_divided_by lib (d_max lib min_profit (d_of_int lib 0)) base) scale,
      tr_max_rate = target_formatted lib (d_divided_by lib (d_max lib max_profit (d_of_int lib 0)) base) scale,
      tr_governance = governance, tr_alternatives = alternatives\<rparr>"

text \<open>The three branches, on the numbers read from the input.\<close>

definition solve_distribution_key ::
  "'d decimal_lib \<Rightarrow> 'd \<Rightarrow> 'd \<Rightarrow> 'd \<Rightarrow> 'd \<Rightarrow> 'd \<Rightarrow> nat \<Rightarrow> target_result" where
  "solve_distribution_key lib target_profit adjustment distributable current_key base scale =
     (let required_key = d_divided_by lib target_profit distributable;
          respond = (\<lambda>status required. target_response lib Distribution_Key status required adjustment
            target_profit (d_of_int lib 0) distributable base scale) in
      if d_is_negative lib required_key \<or> d_greater lib required_key (d_of_int lib 1)
      then respond Out_Of_Range None [] []
      else if d_greater lib required_key current_key
      then respond Next_Period_Or_Tanazul (Some required_key)
        [''CONTRACTUAL_KEY_CANNOT_INCREASE_DURING_CURRENT_PERIOD'']
        [''PUBLISH_KEY_FOR_NEXT_PERIOD'', ''USE_DOCUMENTED_TANAZUL'']
      else respond Applicable (Some required_key) [] [])"

definition solve_tanazul ::
  "'d decimal_lib \<Rightarrow> 'd \<Rightarrow> 'd \<Rightarrow> 'd \<Rightarrow> 'd \<Rightarrow> 'd \<Rightarrow> nat \<Rightarrow> target_result" where
  "solve_tanazul lib target_profit adjustment current_profit bank_share base scale =
     (let min_adjustment = d_of_int lib 0; max_adjustment = bank_share;
          reachable = d_at_least lib adjustment min_adjustment \<and> d_at_most lib adjustment max_adjustment in
      target_response lib Tanazul (if reachable then Applicable else Out_Of_Range)
        (if reachable then Some adjustment else None) adjustment target_profit
        (d_plus lib current_profit min_adjustment) (d_plus lib current_profit max_adjustment) base scale
        [''DOCUMENT_TANAZUL'', ''REPORT_TO_SHARIA_COMMITTEE''] [])"

definition solve_reserve ::
  "'d decimal_lib \<Rightarrow> target_input \<Rightarrow> 'd \<Rightarrow> 'd \<Rightarrow> 'd \<Rightarrow> 'd \<Rightarrow> nat \<Rightarrow> target_result res" where
  "solve_reserve lib input target_profit adjustment current_profit base scale =
     (let per = (ti_lever input = Per_Lever) in
      and_then (target_signed lib (if per then ti_per_min input else ti_irr_min input)
          (if per then ''perMinimumAdjustment'' else ''irrMinimumAdjustment'')) (\<lambda>minimum.
      and_then (target_signed lib (if per then ti_per_max input else ti_irr_max input)
          (if per then ''perMaximumAdjustment'' else ''irrMaximumAdjustment'')) (\<lambda>maximum.
      if d_greater lib minimum maximum
      then Inl (RangeError ((if per then ''PER'' else ''IRR'')
        @ '' minimum adjustment cannot exceed maximum adjustment''))
      else let reachable = d_at_least lib adjustment minimum \<and> d_at_most lib adjustment maximum in
        Inr (target_response lib (ti_lever input) (if reachable then Governance_Required else Out_Of_Range)
          (if reachable then Some adjustment else None) adjustment target_profit
          (d_plus lib current_profit minimum) (d_plus lib current_profit maximum) base scale
          [''ALCO_APPROVAL_REQUIRED'', ''SHARIA_COMMITTEE_APPROVAL_REQUIRED''] []))))"

definition solve_profit_target :: "'d decimal_lib \<Rightarrow> target_input \<Rightarrow> target_result res" where
  "solve_profit_target lib input =
     and_then (output_scale (ti_scale input)) (\<lambda>scale.
     and_then (target_positive lib (ti_base input) ''backingBase'') (\<lambda>base.
     and_then (target_non_negative lib (ti_rate input) ''targetNetRate'') (\<lambda>target_rate.
     and_then (target_non_negative lib (ti_current input) ''currentInvestorProfit'') (\<lambda>current_profit.
     and_then (target_positive lib (ti_distributable input) ''distributableProfitBeforeShare'') (\<lambda>distributable.
     and_then (bounded_rate lib (ti_key input) ''currentInvestorKey'') (\<lambda>current_key.
     and_then (target_non_negative lib (ti_bank_share input) ''availableBankShareForTanazul'') (\<lambda>bank_share.
     let target_profit = d_times lib base target_rate;
         adjustment = d_minus lib target_profit current_profit in
     if ti_lever input = Distribution_Key
     then Inr (solve_distribution_key lib target_profit adjustment distributable current_key base scale)
     else if ti_lever input = Tanazul
     then Inr (solve_tanazul lib target_profit adjustment current_profit bank_share base scale)
     else solve_reserve lib input target_profit adjustment current_profit base scale)))))))"

section \<open>Properties\<close>

lemma target_read_value:
  assumes "decimal_laws lib p val" "target_non_negative lib s f = Inr d"
  shows "\<exists>q. decimal_value s = Some q \<and> val d = Some q \<and> 0 \<le> q"
proof -
  obtain i g where s: "unsigned_decimal s = Some (i, g)" and d: "d = of_text lib s"
    using assms(2) by (auto simp: target_non_negative_def read_non_negative_def split: if_splits)
  with unsigned_value [OF s] decimal_laws_text [OF assms(1), of s] show ?thesis by auto
qed

lemma bounded_rate_value:
  assumes "decimal_laws lib p val" "bounded_rate lib s f = Inr d"
  shows "\<exists>q. decimal_value s = Some q \<and> val d = Some q \<and> 0 \<le> q \<and> q \<le> 1"
proof -
  have t: "target_non_negative lib s f = Inr d" and le: "\<not> d_greater lib d (d_of_int lib 1)"
    using assms(2) by (auto simp: bounded_rate_def outcome)
  obtain q where "decimal_value s = Some q" and q: "val d = Some q" and "0 \<le> q"
    using target_read_value [OF assms(1) t] by blast
  moreover have "q \<le> 1"
    using le decimal_laws_compare(2) [OF assms(1) q decimal_laws_of_int [OF assms(1), of 1]] by simp
  ultimately show ?thesis by blast
qed

text \<open>When a required value is proposed, and under which status.\<close>

lemma solve_profit_target_required:
  assumes "solve_profit_target lib input = Inr r"
  shows "tr_lever r = ti_lever input \<and> (tr_required r = None \<longleftrightarrow> tr_status r = Out_Of_Range)
    \<and> (tr_status r = Governance_Required \<longrightarrow> ti_lever input \<in> {Per_Lever, Irr_Lever}
         \<and> tr_governance r = [''ALCO_APPROVAL_REQUIRED'', ''SHARIA_COMMITTEE_APPROVAL_REQUIRED''])
    \<and> (tr_status r = Applicable \<longrightarrow> ti_lever input \<in> {Distribution_Key, Tanazul})"
  using assms
  by (cases "ti_lever input")
    (auto simp: solve_profit_target_def solve_distribution_key_def solve_tanazul_def solve_reserve_def
      target_response_def outcome Let_def split: if_splits)

lemma target_signed_value:
  assumes "decimal_laws lib p val" "target_signed lib s f = Inr d"
  shows "\<exists>q. decimal_value s = Some q \<and> val d = Some q"
proof -
  have s: "signed_decimal s \<noteq> None" and d: "d = of_text lib s"
    using assms(2) by (auto simp: target_signed_def read_signed_def split: if_splits)
  from s obtain q where "decimal_value s = Some q" by (auto simp: decimal_value_def)
  with decimal_laws_text [OF assms(1) this] d show ?thesis by simp
qed

lemma target_positive_value:
  assumes "decimal_laws lib p val" "target_positive lib s f = Inr d"
  shows "\<exists>q. decimal_value s = Some q \<and> val d = Some q \<and> 0 \<le> q"
  using assms(2) target_read_value [OF assms(1), of s f d] by (simp add: target_positive_def outcome)

text \<open>What each lever answers, given the adjustment that would reach the target.\<close>

definition key_outcome :: "nat \<Rightarrow> rat \<Rightarrow> rat \<Rightarrow> target_result \<Rightarrow> bool" where
  "key_outcome scale required key r \<longleftrightarrow>
     (if required > 1 then tr_status r = Out_Of_Range \<and> tr_required r = None
      else tr_status r = (if required \<le> key then Applicable else Next_Period_Or_Tanazul)
        \<and> (\<exists>s. tr_required r = Some s \<and> printed_near scale s required))"

definition range_outcome :: "solver_status \<Rightarrow> rat \<Rightarrow> rat \<Rightarrow> rat \<Rightarrow> target_result \<Rightarrow> bool" where
  "range_outcome status lo hi adjustment r \<longleftrightarrow>
     (if lo \<le> adjustment \<and> adjustment \<le> hi then tr_status r = status \<and> tr_required r = Some (tr_adjustment r)
      else tr_status r = Out_Of_Range \<and> tr_required r = None)"

definition reserve_outcome :: "string \<Rightarrow> string \<Rightarrow> rat \<Rightarrow> target_result \<Rightarrow> bool" where
  "reserve_outcome lo hi adjustment r \<longleftrightarrow> (\<exists>x y. decimal_value lo = Some x \<and> decimal_value hi = Some y \<and> x \<le> y
     \<and> range_outcome Governance_Required x y adjustment r
     \<and> tr_governance r = [''ALCO_APPROVAL_REQUIRED'', ''SHARIA_COMMITTEE_APPROVAL_REQUIRED''])"

lemma key_outcome_solved:
  assumes laws: "decimal_laws lib 60 val" and v: "val profit = Some pv" "val di = Some dv" "val k = Some kv" and "0 < dv"
  shows "\<exists>required. rounded 60 (pv / dv) required \<and> (0 < required \<longrightarrow>
    key_outcome scale required kv (solve_distribution_key lib profit adjustment di k base scale))"
proof -
  let ?key = "d_divided_by lib profit di"
  obtain q where q: "val ?key = Some q" "rounded 60 (pv / dv) q"
    using decimal_laws_ops(4) [OF laws v(1,2)] \<open>0 < dv\<close> by auto
  have "d_greater lib ?key (d_of_int lib 1) \<longleftrightarrow> 1 < q"
    using decimal_laws_compare(2) [OF laws q(1) decimal_laws_of_int [OF laws, of 1]] by simp
  moreover have "d_greater lib ?key k \<longleftrightarrow> kv < q" by (rule decimal_laws_compare(2) [OF laws q(1) v(3)])
  moreover have "0 < q \<Longrightarrow> \<not> d_is_negative lib ?key" by (rule decimal_laws_unary(4) [OF laws q(1)])
  ultimately have "0 < q \<longrightarrow> key_outcome scale q kv (solve_distribution_key lib profit adjustment di k base scale)"
    using formatted_near [OF laws q(1), of scale]
    by (auto simp: key_outcome_def solve_distribution_key_def target_response_def target_formatted_def Let_def)
  with q(2) show ?thesis by blast
qed

lemma tanazul_outcome_solved:
  assumes "decimal_laws lib 60 val" "val adjustment = Some a" "val share = Some x"
  shows "range_outcome Applicable 0 x a (solve_tanazul lib profit adjustment current share base scale)"
  using decimal_laws_compare(3) [OF assms(1,2) decimal_laws_of_int [OF assms(1), of 0]] decimal_laws_compare(4) [OF assms]
  by (simp add: range_outcome_def solve_tanazul_def target_response_def Let_def)

lemma reserve_outcome_solved:
  assumes laws: "decimal_laws lib 60 val" and a: "val adjustment = Some a"
    and run: "solve_reserve lib input profit adjustment current base scale = Inr r"
  shows "reserve_outcome (if ti_lever input = Per_Lever then ti_per_min input else ti_irr_min input)
    (if ti_lever input = Per_Lever then ti_per_max input else ti_irr_max input) a r"
proof -
  let ?lo = "if ti_lever input = Per_Lever then ti_per_min input else ti_irr_min input"
  let ?hi = "if ti_lever input = Per_Lever then ti_per_max input else ti_irr_max input"
  from run obtain f g lo hi where lo: "target_signed lib ?lo f = Inr lo" and hi: "target_signed lib ?hi g = Inr hi"
    and le: "\<not> d_greater lib lo hi"
    and r: "r = target_response lib (ti_lever input)
        (if d_at_least lib adjustment lo \<and> d_at_most lib adjustment hi then Governance_Required else Out_Of_Range)
        (if d_at_least lib adjustment lo \<and> d_at_most lib adjustment hi then Some adjustment else None) adjustment profit
        (d_plus lib current lo) (d_plus lib current hi) base scale
        [''ALCO_APPROVAL_REQUIRED'', ''SHARIA_COMMITTEE_APPROVAL_REQUIRED''] []"
    unfolding solve_reserve_def Let_def and_then_Inr if_throw_Inr by blast
  obtain x y where x: "decimal_value ?lo = Some x" "val lo = Some x" and y: "decimal_value ?hi = Some y" "val hi = Some y"
    using target_signed_value [OF laws lo] target_signed_value [OF laws hi] by blast
  have "x \<le> y" using le decimal_laws_compare(2) [OF laws x(2) y(2)] by simp
  moreover have "range_outcome Governance_Required x y a r"
    using decimal_laws_compare(3) [OF laws a x(2)] decimal_laws_compare(4) [OF laws a y(2)]
    by (simp add: r range_outcome_def target_response_def)
  moreover have "tr_governance r = [''ALCO_APPROVAL_REQUIRED'', ''SHARIA_COMMITTEE_APPROVAL_REQUIRED'']"
    by (simp add: r target_response_def)
  ultimately show ?thesis unfolding reserve_outcome_def using x(1) y(1) by blast
qed

text \<open>The numbers of the input, the target profit and the adjustment, and the branch that is taken.\<close>

lemma solve_profit_target_numbers:
  assumes laws: "decimal_laws lib 60 val" and run: "solve_profit_target lib input = Inr r"
  obtains scale base rate current distributable key share profit adjustment b tp cp d k sh av where
    "output_scale (ti_scale input) = Inr scale"
    "map decimal_value [ti_base input, ti_rate input, ti_current input, ti_distributable input, ti_key input, ti_bank_share input]
      = map Some [base, rate, current, distributable, key, share]"
    "rounded 60 (base * rate) profit" "rounded 60 (profit - current) adjustment"
    "val tp = Some profit" "val av = Some adjustment" "val d = Some distributable" "val k = Some key" "val sh = Some share"
    "(if ti_lever input = Distribution_Key then Inr (solve_distribution_key lib tp av d k b scale)
      else if ti_lever input = Tanazul then Inr (solve_tanazul lib tp av cp sh b scale)
      else solve_reserve lib input tp av cp b scale) = Inr r"
proof -
  from run obtain scale b rt cp d k sh where sc: "output_scale (ti_scale input) = Inr scale"
    and b: "target_positive lib (ti_base input) ''backingBase'' = Inr b"
    and rt: "target_non_negative lib (ti_rate input) ''targetNetRate'' = Inr rt"
    and cp: "target_non_negative lib (ti_current input) ''currentInvestorProfit'' = Inr cp"
    and d: "target_positive lib (ti_distributable input) ''distributableProfitBeforeShare'' = Inr d"
    and k: "bounded_rate lib (ti_key input) ''currentInvestorKey'' = Inr k"
    and sh: "target_non_negative lib (ti_bank_share input) ''availableBankShareForTanazul'' = Inr sh"
    and branch: "(if ti_lever input = Distribution_Key
      then Inr (solve_distribution_key lib (d_times lib b rt) (d_minus lib (d_times lib b rt) cp) d k b scale)
      else if ti_lever input = Tanazul then Inr (solve_tanazul lib (d_times lib b rt) (d_minus lib (d_times lib b rt) cp) cp sh b scale)
      else solve_reserve lib input (d_times lib b rt) (d_minus lib (d_times lib b rt) cp) cp b scale) = Inr r"
    unfolding solve_profit_target_def Let_def and_then_Inr by blast
  obtain bv where bv: "decimal_value (ti_base input) = Some bv" "val b = Some bv" using target_positive_value [OF laws b] by blast
  obtain rv where rv: "decimal_value (ti_rate input) = Some rv" "val rt = Some rv" using target_read_value [OF laws rt] by blast
  obtain cv where cv: "decimal_value (ti_current input) = Some cv" "val cp = Some cv" using target_read_value [OF laws cp] by blast
  obtain dv where dv: "decimal_value (ti_distributable input) = Some dv" "val d = Some dv" using target_positive_value [OF laws d] by blast
  obtain kv where kv: "decimal_value (ti_key input) = Some kv" "val k = Some kv" using bounded_rate_value [OF laws k] by blast
  obtain sv where sv: "decimal_value (ti_bank_share input) = Some sv" "val sh = Some sv" using target_read_value [OF laws sh] by blast
  obtain pv where pv: "val (d_times lib b rt) = Some pv" "rounded 60 (bv * rv) pv" using decimal_laws_ops(3) [OF laws bv(2) rv(2)] by blast
  obtain av where av: "val (d_minus lib (d_times lib b rt) cp) = Some av" "rounded 60 (pv - cv) av"
    using decimal_laws_ops(2) [OF laws pv(1) cv(2)] by blast
  from that [OF sc _ pv(2) av(2) pv(1) av(1) dv(2) kv(2) sv(2) branch] bv(1) rv(1) cv(1) dv(1) kv(1) sv(1) show thesis by simp
qed

lemma target_response_printed:
  assumes "decimal_laws lib 60 val" "val tp = Some profit" "val av = Some adjustment"
    "(if ti_lever input = Distribution_Key then Inr (solve_distribution_key lib tp av d k b scale)
      else if ti_lever input = Tanazul then Inr (solve_tanazul lib tp av cp sh b scale)
      else solve_reserve lib input tp av cp b scale) = Inr r"
  shows "tr_lever r = ti_lever input" "printed_near scale (tr_profit r) profit" "printed_near scale (tr_adjustment r) adjustment"
proof -
  have "tr_lever r = ti_lever input \<and> tr_profit r = d_formatted lib tp scale \<and> tr_adjustment r = d_formatted lib av scale"
    using assms(4) by (auto simp: solve_distribution_key_def solve_tanazul_def solve_reserve_def target_response_def
      target_formatted_def outcome Let_def split: if_splits)
  then show "tr_lever r = ti_lever input" "printed_near scale (tr_profit r) profit" "printed_near scale (tr_adjustment r) adjustment"
    using formatted_near [OF assms(1,2)] formatted_near [OF assms(1,3)] by simp_all
qed

text \<open>
  C9. The solver aims at the backing base times the target rate, computed with sixty digits, and reports the
  difference to the current profit as the adjustment.  With the distribution key as the lever the required
  key is the target over a positive distributable profit: above one it is out of range and withheld; a
  positive one that does not exceed the current contractual key is applicable; a higher one is only
  proposed for the next period or to be replaced by a documented waiver, never applicable at once.  A
  waiver is applicable exactly when the adjustment lies between zero and the available bank share.  For the
  two reserves an adjustment within the bounds requires the approval of the committees, and any other
  is out of range and withheld.  The printed numbers are within half of their last place.
\<close>

theorem profit_target_respects_contract:
  assumes "decimal_laws lib 60 val" "solve_profit_target lib input = Inr r"
  shows "tr_lever r = ti_lever input \<and> (\<exists>scale base rate current distributable key share profit adjustment.
     output_scale (ti_scale input) = Inr scale
   \<and> map decimal_value [ti_base input, ti_rate input, ti_current input, ti_distributable input, ti_key input, ti_bank_share input]
       = map Some [base, rate, current, distributable, key, share]
   \<and> rounded 60 (base * rate) profit \<and> printed_near scale (tr_profit r) profit
   \<and> rounded 60 (profit - current) adjustment \<and> printed_near scale (tr_adjustment r) adjustment
   \<and> (case ti_lever input of
        Distribution_Key \<Rightarrow> 0 < distributable \<longrightarrow>
          (\<exists>required. rounded 60 (profit / distributable) required \<and> (0 < required \<longrightarrow> key_outcome scale required key r))
      | Tanazul \<Rightarrow> range_outcome Applicable 0 share adjustment r
      | Per_Lever \<Rightarrow> reserve_outcome (ti_per_min input) (ti_per_max input) adjustment r
      | Irr_Lever \<Rightarrow> reserve_outcome (ti_irr_min input) (ti_irr_max input) adjustment r))"
proof -
  from solve_profit_target_numbers [OF assms] obtain scale base rate current distributable key share profit adjustment b tp cp d k sh av where
    n: "output_scale (ti_scale input) = Inr scale"
    "map decimal_value [ti_base input, ti_rate input, ti_current input, ti_distributable input, ti_key input, ti_bank_share input]
      = map Some [base, rate, current, distributable, key, share]"
    "rounded 60 (base * rate) profit" "rounded 60 (profit - current) adjustment"
    and v: "val tp = Some profit" "val av = Some adjustment" "val d = Some distributable" "val k = Some key" "val sh = Some share"
    and branch: "(if ti_lever input = Distribution_Key then Inr (solve_distribution_key lib tp av d k b scale)
      else if ti_lever input = Tanazul then Inr (solve_tanazul lib tp av cp sh b scale)
      else solve_reserve lib input tp av cp b scale) = Inr r" .
  note printed = target_response_printed [OF assms(1) v(1,2) branch]
  have "case ti_lever input of
        Distribution_Key \<Rightarrow> 0 < distributable \<longrightarrow>
          (\<exists>required. rounded 60 (profit / distributable) required \<and> (0 < required \<longrightarrow> key_outcome scale required key r))
      | Tanazul \<Rightarrow> range_outcome Applicable 0 share adjustment r
      | Per_Lever \<Rightarrow> reserve_outcome (ti_per_min input) (ti_per_max input) adjustment r
      | Irr_Lever \<Rightarrow> reserve_outcome (ti_irr_min input) (ti_irr_max input) adjustment r"
  proof (cases "ti_lever input")
    case Distribution_Key
    with branch have r: "r = solve_distribution_key lib tp av d k b scale" by simp
    from Distribution_Key key_outcome_solved [OF assms(1) v(1,3,4)] show ?thesis by (simp add: r)
  next
    case Tanazul
    with branch have r: "r = solve_tanazul lib tp av cp sh b scale" by simp
    from Tanazul tanazul_outcome_solved [OF assms(1) v(2,5)] show ?thesis by (simp add: r)
  next
    case Per_Lever
    with branch have "solve_reserve lib input tp av cp b scale = Inr r" by simp
    from reserve_outcome_solved [OF assms(1) v(2) this] Per_Lever show ?thesis by simp
  next
    case Irr_Lever
    with branch have "solve_reserve lib input tp av cp b scale = Inr r" by simp
    from reserve_outcome_solved [OF assms(1) v(2) this] Irr_Lever show ?thesis by simp
  qed
  with n printed show ?thesis by blast
qed

definition target_example :: target_input where
  "target_example = \<lparr>ti_base = ''10000'', ti_rate = ''0.08'', ti_current = ''700'', ti_distributable = ''1000'',
     ti_key = ''0.70'', ti_bank_share = ''200'', ti_per_min = ''-100'', ti_per_max = ''150'',
     ti_irr_min = ''-50'', ti_irr_max = ''75'', ti_lever = Distribution_Key, ti_scale = None\<rparr>"

lemmas target_eval = solve_profit_target_def target_non_negative_def target_positive_def bounded_rate_def
  solve_distribution_key_def target_response_def target_formatted_def

theorem profit_target_respects_contract_witness:
  "\<exists>r. solve_profit_target exact_lib target_example = Inr r \<and> tr_status r = Next_Period_Or_Tanazul
     \<and> (\<exists>s scale. tr_required r = Some s \<and> printed_near scale s (4 / 5))"
proof -
  have "\<exists>r. solve_profit_target exact_lib target_example = Inr r \<and> tr_status r = Next_Period_Or_Tanazul"
    by (simp add: target_example_def target_eval read_non_negative_def d_greater_def d_of_int_def text_of_int_def
        text_eval cong: eval_cong)
  then obtain r where r: "solve_profit_target exact_lib target_example = Inr r"
    "tr_status r = Next_Period_Or_Tanazul" by blast
  have key: "ti_lever target_example = Distribution_Key" by (simp add: target_example_def)
  from profit_target_respects_contract [OF exact_lib_laws r(1), unfolded key lever.case]
  obtain scale base rate distributable key profit where
    v: "decimal_value (ti_base target_example) = Some base" "decimal_value (ti_rate target_example) = Some rate"
      "decimal_value (ti_distributable target_example) = Some distributable" "decimal_value (ti_key target_example) = Some key"
      "rounded 60 (base * rate) profit"
    and out: "0 < distributable \<longrightarrow> (\<exists>required. rounded 60 (profit / distributable) required
      \<and> (0 < required \<longrightarrow> key_outcome scale required key r))"
    unfolding list.map list.inject by blast
  have n: "base = 10000" "rate = 2 / 25" "distributable = 1000" "key = 7 / 10"
    using v(1-4) by (simp_all add: target_example_def text_eval)
  have "profit = 800" using rounded_representable [OF v(5)] representable_of_int [of 800 60] by (simp add: n)
  with out obtain required where q: "rounded 60 (4 / 5) required" "0 < required \<longrightarrow> key_outcome scale required key r"
    by (auto simp: n)
  have "required = 4 / 5" using rounded_representable [OF q(1)] representable_scaled [of 8 60 1] by simp
  with q(2) r n show ?thesis by (auto simp: key_outcome_def)
qed

text \<open>
  The guard \<open>positive\<close> lets a distributable profit of zero through; with a target of zero the key
  is then not a number, which the comparisons do not catch: it is reported as applicable.
\<close>

lemma zero_distributable_applicable:
  "\<exists>r. solve_profit_target exact_lib (target_example\<lparr>ti_rate := ''0'', ti_distributable := ''0''\<rparr>) = Inr r
     \<and> tr_status r = Applicable \<and> tr_required r = Some ''NaN''"
  by (simp add: target_example_def target_eval read_non_negative_def d_greater_def d_of_int_def text_of_int_def
      d_formatted_def text_eval cong: eval_cong)

end
