(* ===== verification/Js_Date.thy ===== *)
theory Js_Date
  imports Pms_Prelude
begin

text \<open>
  Business dates.  The program keeps dates as texts \<open>YYYY-MM-DD\<close>, checks them with the
  regular expression \<open>/^\\d{4}-\\d{2}-\\d{2}$/\<close> and with \<open>Date.parse\<close>, and in part also by
  printing the parsed instant back (\<open>toISOString().slice(0, 10) === value\<close>).  \<open>Date.parse\<close>
  of such a text takes a month from 1 to 12 and a day from 1 to 31 and lets the day run over
  the end of a short month, which is why the second check exists.  Only dates at midnight UTC
  occur, so an instant is the number of its day.
\<close>

section \<open>The calendar\<close>

definition leap_year :: "nat \<Rightarrow> bool" where
  "leap_year y \<longleftrightarrow> 4 dvd y \<and> (\<not> 100 dvd y \<or> 400 dvd y)"

definition year_length :: "nat \<Rightarrow> nat" where
  "year_length y = (if leap_year y then 366 else 365)"

definition month_length :: "nat \<Rightarrow> nat \<Rightarrow> nat" where
  "month_length y m = (if m = 2 then if leap_year y then 29 else 28
     else if m \<in> {4, 6, 9, 11} then 30 else 31)"

text \<open>Days from 0000-01-01 to the first day of a year, and from there to the first of a month.\<close>

definition days_before_year :: "nat \<Rightarrow> nat" where
  "days_before_year y = 365 * y + (y + 3) div 4 + (y + 399) div 400 - (y + 99) div 100"

fun days_before_month :: "nat \<Rightarrow> nat \<Rightarrow> nat" where
  "days_before_month y 0 = 0"
| "days_before_month y (Suc m) = (if m = 0 then 0 else days_before_month y m + month_length y m)"

definition day_number :: "nat \<Rightarrow> nat \<Rightarrow> nat \<Rightarrow> nat" where
  "day_number y m d = days_before_year y + days_before_month y m + (d - 1)"

definition valid_date :: "nat \<Rightarrow> nat \<Rightarrow> nat \<Rightarrow> bool" where
  "valid_date y m d \<longleftrightarrow> 1 \<le> m \<and> m \<le> 12 \<and> 1 \<le> d \<and> d \<le> month_length y m"

lemma days_before_year_ge: "365 * y \<le> days_before_year y"
  by (simp add: days_before_year_def)

text \<open>\<open>getUTCFullYear\<close>, \<open>getUTCMonth\<close> and \<open>getUTCDate\<close>: the largest year, then month, not after the day.\<close>

function year_from :: "nat \<Rightarrow> nat \<Rightarrow> nat" where
  "year_from n y = (if days_before_year (Suc y) \<le> n then year_from n (Suc y) else y)"
  by pat_completeness auto

termination
proof (relation "measure (\<lambda>(n, y). Suc n - y)")
  fix n y
  assume "days_before_year (Suc y) \<le> n"
  with days_before_year_ge [of "Suc y"] show "((n, Suc y), n, y) \<in> measure (\<lambda>(n, y). Suc n - y)"
    by simp
qed simp

declare year_from.simps [simp del]

fun month_from :: "nat \<Rightarrow> nat \<Rightarrow> nat \<Rightarrow> nat \<Rightarrow> nat" where
  "month_from 0 y r m = m"
| "month_from (Suc k) y r m =
     (if days_before_month y (Suc m) \<le> r then month_from k y r (Suc m) else m)"

definition civil_date :: "nat \<Rightarrow> nat \<times> nat \<times> nat" where
  "civil_date n = (let y = year_from n (n div 366); r = n - days_before_year y;
     m = month_from 11 y r 1 in (y, m, r - days_before_month y m + 1))"

lemma ceil_div_Suc:
  fixes k :: nat
  assumes "0 < k"
  shows "(Suc y + (k - 1)) div k = (y + (k - 1)) div k + (if k dvd y then 1 else 0)"
proof -
  have "(Suc y + (k - 1)) div k = (y + k) div k" using assms by simp
  also have "\<dots> = Suc (y div k)" using assms by simp
  finally have l: "(Suc y + (k - 1)) div k = Suc (y div k)" .
  have r: "(y + (k - 1)) div k = (if k dvd y then y div k else Suc (y div k))"
  proof (cases "k dvd y")
    case True
    then obtain q where q: "y = k * q" by (auto elim: dvdE)
    have "(k * q + (k - 1)) div k = q" using assms by (intro div_nat_eqI) (auto simp: algebra_simps)
    with True q assms show ?thesis by simp
  next
    case False
    then have "0 < y mod k" by (simp add: mod_greater_zero_iff_not_dvd)
    then have "k \<le> y mod k + (k - 1)" "y mod k + (k - 1) < 2 * k"
      using assms mod_less_divisor [OF assms, of y] by linarith+
    moreover have "y = k * (y div k) + y mod k" by simp
    ultimately have "k * Suc (y div k) \<le> y + (k - 1)" "y + (k - 1) < k * Suc (Suc (y div k))"
      unfolding mult_Suc_right by linarith+
    with False show ?thesis by (intro trans [OF div_nat_eqI]) auto
  qed
  show ?thesis by (simp only: l r split: if_split) simp
qed

lemma days_before_year_Suc: "days_before_year (Suc y) = days_before_year y + year_length y"
proof -
  have four: "(Suc y + 3) div 4 = (y + 3) div 4 + (if 4 dvd y then 1 else 0)"
    and hundred: "(Suc y + 99) div 100 = (y + 99) div 100 + (if 100 dvd y then 1 else 0)"
    and fourhundred: "(Suc y + 399) div 400 = (y + 399) div 400 + (if 400 dvd y then 1 else 0)"
    using ceil_div_Suc [of 4 y] ceil_div_Suc [of 100 y] ceil_div_Suc [of 400 y] by simp_all
  define q where "q = (y + 3) div 4"
  have "y + 3 < 4 * Suc q" 
    using dividend_less_times_div [of 4 "y + 3"] by (simp add: q_def)
  then have "y + 99 < Suc q * 100" by simp
  then have "(y + 99) div 100 < Suc q" by (rule less_mult_imp_div_less)
  then have le: "(y + 99) div 100 \<le> (y + 3) div 4" by (simp add: q_def)
  have "400 dvd y \<longrightarrow> 100 dvd y" and "100 dvd y \<longrightarrow> 4 dvd y"
    using dvd_trans [of 100 400 y] dvd_trans [of 4 100 y] by simp_all
  have arith: "365 * Suc y + (a + (if p then 1 else 0)) + (f + (if r then 1 else 0)) - (c + (if q then 1 else 0))
      = 365 * y + a + f - c + (if p \<and> (\<not> q \<or> r) then 366 else 365)"
    if "c \<le> a" "r \<longrightarrow> q" "q \<longrightarrow> p" for a c f :: nat and p q r
  proof -
    obtain k where k: "a = c + k" using \<open>c \<le> a\<close> by (auto simp: le_iff_add)
    show ?thesis unfolding k using that(2,3) by (cases p; cases q; cases r; simp)
  qed
  show ?thesis
    unfolding days_before_year_def four hundred fourhundred year_length_def leap_year_def
    by (rule arith) (use le \<open>400 dvd y \<longrightarrow> 100 dvd y\<close> \<open>100 dvd y \<longrightarrow> 4 dvd y\<close> in blast)+
qed

lemma days_before_year_mono: "y \<le> z \<Longrightarrow> days_before_year y \<le> days_before_year z"
  by (rule lift_Suc_mono_le [of days_before_year]) (simp_all add: days_before_year_Suc)

lemma days_before_year_le: "days_before_year y \<le> 366 * y"
proof (induction y)
  case (Suc y)
  then show ?case by (simp add: days_before_year_Suc year_length_def split: if_splits)
qed (simp add: days_before_year_def)

lemma days_before_month_13: "days_before_month y 13 = year_length y"
  by (simp add: numeral_eq_Suc month_length_def year_length_def)

lemma days_before_month_Suc:
  "1 \<le> m \<Longrightarrow> days_before_month y (Suc m) = days_before_month y m + month_length y m"
  by (cases m) auto

lemma days_before_month_mono:
  assumes "1 \<le> m" "m \<le> k"
  shows "days_before_month y m \<le> days_before_month y k"
  using assms(2)
proof (induction rule: dec_induct)
  case (step n)
  with assms(1) show ?case by (simp add: days_before_month_Suc del: days_before_month.simps)
qed simp

lemma year_from_eq:
  "x \<le> y \<Longrightarrow> days_before_year y \<le> n \<Longrightarrow> n < days_before_year (Suc y) \<Longrightarrow> year_from n x = y"
proof (induction n x rule: year_from.induct)
  case (1 n x)
  show ?case
  proof (cases "x = y")
    case True
    with "1.prems" show ?thesis by (subst year_from.simps) simp
  next
    case False
    with "1.prems" have "Suc x \<le> y" by simp
    then have "days_before_year (Suc x) \<le> n"
      using days_before_year_mono [of "Suc x" y] "1.prems" by simp
    with "1.IH" "1.prems" \<open>Suc x \<le> y\<close> show ?thesis by (subst year_from.simps) simp
  qed
qed

lemma month_from_eq:
  assumes "1 \<le> x" "x \<le> m" "m \<le> x + k" "days_before_month y m \<le> r" "r < days_before_month y (Suc m)"
  shows "month_from k y r x = m"
  using assms
proof (induction k arbitrary: x)
  case (Suc k)
  show ?case
  proof (cases "x = m")
    case True
    with Suc.prems show ?thesis by (simp del: days_before_month.simps)
  next
    case False
    then have "days_before_month y (Suc x) \<le> r"
      using days_before_month_mono [of "Suc x" m y] Suc.prems by simp
    with Suc False show ?thesis by (simp del: days_before_month.simps)
  qed
qed simp

text \<open>The calendar functions invert the numbering of the days.\<close>

lemma civil_date_day_number:
  assumes "valid_date y m d"
  shows "civil_date (day_number y m d) = (y, m, d)"
proof -
  define n where "n = day_number y m d"
  define r where "r = days_before_month y m + (d - 1)"
  have m: "1 \<le> m" "m \<le> 12" "1 \<le> d" "d \<le> month_length y m"
    using assms by (auto simp: valid_date_def)
  have n: "n = days_before_year y + r" by (simp add: n_def r_def day_number_def)
  have r: "r < days_before_month y (Suc m)"
    using m by (simp add: r_def days_before_month_Suc del: days_before_month.simps)
  also have "\<dots> \<le> days_before_month y 13" using m by (intro days_before_month_mono) auto
  finally have "n < days_before_year (Suc y)"
    by (simp add: n days_before_year_Suc days_before_month_13)
  moreover have "n div 366 \<le> y"
  proof -
    have "n < 366 * Suc y" using calculation days_before_year_le [of "Suc y"] by simp
    then show ?thesis by (simp add: less_mult_imp_div_less mult.commute flip: less_Suc_eq_le)
  qed
  ultimately have "year_from n (n div 366) = y" by (intro year_from_eq) (simp_all add: n)
  moreover have "month_from 11 y r 1 = m"
    using m r by (intro month_from_eq) (simp_all add: r_def)
  ultimately show ?thesis
    using m by (simp add: civil_date_def Let_def n_def [symmetric] n r_def)
qed

text \<open>An accepted day that does not exist is read as a day of the next month.\<close>

lemma civil_date_overflow:
  assumes "1 \<le> m" "m \<le> 12" "month_length y m < d" "d \<le> 31"
  shows "civil_date (day_number y m d) = (y, Suc m, d - month_length y m)"
proof -
  have m: "m < 12" using assms by (auto simp: month_length_def split: if_splits)
  have "d - month_length y m \<le> 3"
    using assms by (auto simp: month_length_def split: if_splits)
  then have "valid_date y (Suc m) (d - month_length y m)"
    using assms m by (auto simp: valid_date_def month_length_def)
  moreover have "day_number y m d = day_number y (Suc m) (d - month_length y m)"
    using assms by (simp add: day_number_def days_before_month_Suc del: days_before_month.simps)
  ultimately show ?thesis by (simp add: civil_date_day_number)
qed

section \<open>Texts of dates\<close>

definition iso_shape :: "string \<Rightarrow> bool" where
  "iso_shape s \<longleftrightarrow> length s = 10 \<and> s ! 4 = CHR ''-'' \<and> s ! 7 = CHR ''-''
     \<and> list_all is_digit (take 4 s) \<and> list_all is_digit (take 2 (drop 5 s))
     \<and> list_all is_digit (drop 8 s)"

definition iso_year :: "string \<Rightarrow> nat" where "iso_year s = nat_of_digits (take 4 s)"
definition iso_month :: "string \<Rightarrow> nat" where "iso_month s = nat_of_digits (take 2 (drop 5 s))"
definition iso_day :: "string \<Rightarrow> nat" where "iso_day s = nat_of_digits (drop 8 s)"

text \<open>\<open>Date.parse(`${s}T00:00:00Z`)\<close> for a text of that shape, in days; \<open>None\<close> is NaN.\<close>

definition date_parse_day :: "string \<Rightarrow> nat option" where
  "date_parse_day s = (if iso_shape s \<and> 1 \<le> iso_month s \<and> iso_month s \<le> 12 \<and> 1 \<le> iso_day s \<and> iso_day s \<le> 31
     then Some (day_number (iso_year s) (iso_month s) (iso_day s)) else None)"

text \<open>\<open>new Date(day).toISOString().slice(0, 10)\<close> up to the year 9999.\<close>

definition iso_text :: "nat \<Rightarrow> nat \<Rightarrow> nat \<Rightarrow> string" where
  "iso_text y m d = pad_start 4 (digits_of y) @ CHR ''-'' # pad_start 2 (digits_of m)
     @ CHR ''-'' # pad_start 2 (digits_of d)"

definition iso_of_day :: "nat \<Rightarrow> string" where
  "iso_of_day n = (case civil_date n of (y, m, d) \<Rightarrow> iso_text y m d)"

text \<open>The three checks of the source: shape, parseable, and unchanged by a round trip.\<close>

definition parseable_date :: "string \<Rightarrow> bool" where
  "parseable_date s \<longleftrightarrow> iso_shape s \<and> date_parse_day s \<noteq> None"

definition calendar_date :: "string \<Rightarrow> bool" where
  "calendar_date s \<longleftrightarrow> iso_shape s
     \<and> (case date_parse_day s of None \<Rightarrow> False | Some n \<Rightarrow> iso_of_day n = s)"

lemma length_padded: "n < 10 ^ k \<Longrightarrow> 0 < k \<Longrightarrow> length (pad_start k (digits_of n)) = k"
proof -
  assume n: "n < 10 ^ k" "0 < k"
  have "length (digits_of n) \<le> k"
  proof (cases "n = 0")
    case True
    with n show ?thesis by (simp add: digits_of_0)
  next
    case False
    show ?thesis
    proof (rule ccontr)
      assume "\<not> length (digits_of n) \<le> k"
      then have "(10 :: nat) ^ k \<le> 10 ^ (length (digits_of n) - 1)"
        by (intro power_increasing) auto
      also have "\<dots> \<le> n"
        using nat_of_digits_ge [OF digits_of_digits digits_of_nonempty digits_of_no_leading_zero, of n] False
        by simp
      finally show False using n by simp
    qed
  qed
  then show ?thesis by simp
qed

lemma padded_text_eq:
  assumes "list_all is_digit s" "length s = k" "0 < k"
  shows "pad_start k (digits_of (nat_of_digits s)) = s"
proof (rule nat_of_digits_inj)
  show "list_all is_digit (pad_start k (digits_of (nat_of_digits s)))"
    using digits_of_digits [of "nat_of_digits s"] by (auto simp: pad_start_def list_all_iff)
  have "nat_of_digits s < 10 ^ k" using nat_of_digits_bound [OF assms(1)] assms(2) by simp
  then show "length (pad_start k (digits_of (nat_of_digits s))) = length s"
    using assms by (simp only: length_padded)
qed (simp_all add: assms)

lemma padded_inj:
  "pad_start k (digits_of a) = pad_start k (digits_of b) \<Longrightarrow> a = b"
  by (metis nat_of_digits_digits_of nat_of_digits_pad_start)

lemma iso_shape_split:
  assumes "iso_shape s"
  shows "s = take 4 s @ CHR ''-'' # take 2 (drop 5 s) @ CHR ''-'' # drop 8 s"
    and "length (take 4 s) = 4" "length (take 2 (drop 5 s)) = 2" "length (drop 8 s) = 2"
proof -
  have l: "length s = 10" using assms by (simp add: iso_shape_def)
  obtain a b c d e f g h i j where "s = [a, b, c, d, e, f, g, h, i, j]"
    using l by (auto simp: length_Suc_conv numeral_eq_Suc)
  with assms show "s = take 4 s @ CHR ''-'' # take 2 (drop 5 s) @ CHR ''-'' # drop 8 s"
    by (simp add: iso_shape_def numeral_eq_Suc)
  show "length (take 4 s) = 4" "length (take 2 (drop 5 s)) = 2" "length (drop 8 s) = 2"
    using l by simp_all
qed

lemma iso_text_of_shape:
  "iso_shape s \<Longrightarrow> iso_text (iso_year s) (iso_month s) (iso_day s) = s"
  using iso_shape_split [of s]
  by (simp add: iso_text_def iso_year_def iso_month_def iso_day_def padded_text_eq iso_shape_def)

lemma iso_day_bounds: "iso_shape s \<Longrightarrow> iso_year s < 10000 \<and> iso_month s < 100 \<and> iso_day s < 100"
  using iso_shape_split [of s] nat_of_digits_bound [of "take 4 s"]
    nat_of_digits_bound [of "take 2 (drop 5 s)"] nat_of_digits_bound [of "drop 8 s"]
  by (simp add: iso_year_def iso_month_def iso_day_def iso_shape_def)

lemma iso_text_inj:
  assumes "y < 10000" "m < 100" "d < 100" "y' < 10000" "m' < 100" "d' < 100"
  shows "iso_text y m d = iso_text y' m' d' \<longleftrightarrow> y = y' \<and> m = m' \<and> d = d'"
proof
  assume eq: "iso_text y m d = iso_text y' m' d'"
  have l: "length (pad_start 4 (digits_of y)) = 4" "length (pad_start 4 (digits_of y')) = 4"
    "length (pad_start 2 (digits_of m)) = 2" "length (pad_start 2 (digits_of m')) = 2"
    using assms by (intro length_padded; simp)+
  from eq l have "pad_start 4 (digits_of y) = pad_start 4 (digits_of y')"
    and rest: "pad_start 2 (digits_of m) @ CHR ''-'' # pad_start 2 (digits_of d)
      = pad_start 2 (digits_of m') @ CHR ''-'' # pad_start 2 (digits_of d')"
    by (auto simp: iso_text_def append_eq_append_conv)
  moreover from rest l have "pad_start 2 (digits_of m) = pad_start 2 (digits_of m')"
    "pad_start 2 (digits_of d) = pad_start 2 (digits_of d')"
    by (auto simp: append_eq_append_conv)
  ultimately show "y = y' \<and> m = m' \<and> d = d'" by (blast dest: padded_inj)
qed simp

text \<open>
  The round trip accepts exactly the days of the calendar; the plain \<open>Date.parse\<close> check also
  accepts the 29th to 31st of a month that does not have them.
\<close>

lemma calendar_date_iff:
  "calendar_date s \<longleftrightarrow> iso_shape s \<and> valid_date (iso_year s) (iso_month s) (iso_day s)"
proof (cases "iso_shape s \<and> 1 \<le> iso_month s \<and> iso_month s \<le> 12 \<and> 1 \<le> iso_day s \<and> iso_day s \<le> 31")
  case True
  then have p: "date_parse_day s = Some (day_number (iso_year s) (iso_month s) (iso_day s))"
    by (simp add: date_parse_day_def)
  show ?thesis
  proof (cases "iso_day s \<le> month_length (iso_year s) (iso_month s)")
    case in_month: True
    with True have "valid_date (iso_year s) (iso_month s) (iso_day s)" by (simp add: valid_date_def)
    with True p show ?thesis
      by (simp add: calendar_date_def iso_of_day_def civil_date_day_number iso_text_of_shape)
  next
    case False
    let ?d = "iso_day s - month_length (iso_year s) (iso_month s)"
    have "iso_of_day (day_number (iso_year s) (iso_month s) (iso_day s))
        = iso_text (iso_year s) (Suc (iso_month s)) ?d"
      using True False by (simp add: iso_of_day_def civil_date_overflow)
    moreover have "\<dots> \<noteq> iso_text (iso_year s) (iso_month s) (iso_day s)"
      using True iso_day_bounds [of s] by (subst iso_text_inj) auto
    ultimately have "iso_of_day (day_number (iso_year s) (iso_month s) (iso_day s)) \<noteq> s"
      using True iso_text_of_shape [of s] by simp
    with p False show ?thesis by (simp add: calendar_date_def valid_date_def)
  qed
next
  case False
  then show ?thesis
    by (auto simp: calendar_date_def date_parse_day_def valid_date_def month_length_def split: if_splits)
qed

lemma calendar_date_parseable: "calendar_date s \<Longrightarrow> parseable_date s"
  by (auto simp: calendar_date_def parseable_date_def split: option.splits)

text \<open>
  The third way, of the purification and DCR files: \<open>new Date(Date.UTC(y, m - 1, d))\<close> and a
  comparison of the three components.  \<open>Date.UTC\<close> reads a year below 100 as 19xx, and carries
  months and days over.
\<close>

definition utc_day :: "nat \<Rightarrow> int \<Rightarrow> int \<Rightarrow> int" where
  "utc_day y m0 d = (let year = int (if y \<le> 99 then 1900 + y else y) + m0 div 12 in
     int (day_number (nat year) (nat (m0 mod 12 + 1)) 1) + (d - 1))"

definition utc_components_match :: "string \<Rightarrow> bool" where
  "utc_components_match s \<longleftrightarrow> iso_shape s \<and>
     civil_date (nat (utc_day (iso_year s) (int (iso_month s) - 1) (int (iso_day s))))
       = (iso_year s, iso_month s, iso_day s)"

text \<open>Business dates compare as texts the way they compare as days.\<close>

lemma str_less_append:
  "length a = length b \<Longrightarrow> str_less (a @ x) (b @ y) \<longleftrightarrow> str_less a b \<or> (a = b \<and> str_less x y)"
  by (induction a b rule: list_induct2) auto

lemma str_less_digits:
  "list_all is_digit a \<Longrightarrow> list_all is_digit b \<Longrightarrow> length a = length b \<Longrightarrow>
   str_less a b \<longleftrightarrow> nat_of_digits a < nat_of_digits b"
proof (induction a arbitrary: b)
  case (Cons c s)
  then obtain d t where b: "b = d # t" by (cases b) auto
  with Cons.prems have p: "is_digit c" "is_digit d" "list_all is_digit s" "list_all is_digit t"
    "length s = length t" by auto
  let ?p = "10 ^ length s :: nat"
  have bd: "nat_of_digits s < ?p" "nat_of_digits t < ?p"
    using nat_of_digits_bound p by fastforce+
  have val: "code c = 48 + digit_val c" "code d = 48 + digit_val d"
    using p by (auto simp: char_class_defs digit_val_def)
  consider "digit_val c < digit_val d" | "digit_val c = digit_val d" | "digit_val d < digit_val c"
    by linarith
  then show ?case
  proof cases
    case 1
    then have "Suc (digit_val c) * ?p \<le> digit_val d * ?p" by (intro mult_right_mono) auto
    with bd have "digit_val c * ?p + nat_of_digits s < digit_val d * ?p + nat_of_digits t" by simp
    with 1 p val show ?thesis by (simp add: b nat_of_digits_Cons)
  next
    case 2
    with val have "code c = code d" by simp
    then have "c = d" by (simp only: code_inj)
    with Cons.IH [of t] p show ?thesis by (simp add: b nat_of_digits_Cons)
  next
    case 3
    then have "Suc (digit_val d) * ?p \<le> digit_val c * ?p" by (intro mult_right_mono) auto
    with bd have "digit_val d * ?p + nat_of_digits t < digit_val c * ?p + nat_of_digits s" by simp
    with 3 p val show ?thesis by (simp add: b nat_of_digits_Cons)
  qed
qed simp

definition date_before :: "nat \<times> nat \<times> nat \<Rightarrow> nat \<times> nat \<times> nat \<Rightarrow> bool" where
  "date_before a b = (case (a, b) of ((y, m, d), (y', m', d')) \<Rightarrow>
     y < y' \<or> (y = y' \<and> (m < m' \<or> (m = m' \<and> d < d'))))"

lemma iso_text_order:
  assumes "iso_shape s" "iso_shape t"
  shows "str_less s t \<longleftrightarrow>
    date_before (iso_year s, iso_month s, iso_day s) (iso_year t, iso_month t, iso_day t)"
proof -
  note s = iso_shape_split [OF assms(1)] and t = iso_shape_split [OF assms(2)]
  have ds: "list_all is_digit (take 4 s)" "list_all is_digit (take 2 (drop 5 s))"
    "list_all is_digit (drop 8 s)" and dt: "list_all is_digit (take 4 t)"
    "list_all is_digit (take 2 (drop 5 t))" "list_all is_digit (drop 8 t)"
    using assms by (simp_all add: iso_shape_def)
  have inj: "take 4 s = take 4 t \<longleftrightarrow> iso_year s = iso_year t"
    "take 2 (drop 5 s) = take 2 (drop 5 t) \<longleftrightarrow> iso_month s = iso_month t"
    using nat_of_digits_inj [OF ds(1) dt(1)] nat_of_digits_inj [OF ds(2) dt(2)] s t
    by (auto simp: iso_year_def iso_month_def)
  have "str_less s t \<longleftrightarrow> str_less (take 4 s @ CHR ''-'' # take 2 (drop 5 s) @ CHR ''-'' # drop 8 s)
      (take 4 t @ CHR ''-'' # take 2 (drop 5 t) @ CHR ''-'' # drop 8 t)"
    by (simp only: s(1) [symmetric] t(1) [symmetric])
  also have "\<dots> \<longleftrightarrow> date_before (iso_year s, iso_month s, iso_day s) (iso_year t, iso_month t, iso_day t)"
    using s(2-4) t(2-4) ds dt inj
    by (simp add: str_less_append str_less_digits date_before_def iso_year_def iso_month_def iso_day_def)
  finally show ?thesis .
qed

text \<open>Evaluation on literal dates.\<close>

lemma days_before_month_numeral:
  "days_before_month y 1 = 0" "days_before_month y (Suc 0) = 0" "days_before_month y 2 = 31"
  "days_before_month y 3 = 31 + month_length y 2" "days_before_month y 4 = 62 + month_length y 2"
  "days_before_month y 5 = 92 + month_length y 2" "days_before_month y 6 = 123 + month_length y 2"
  "days_before_month y 7 = 153 + month_length y 2" "days_before_month y 8 = 184 + month_length y 2"
  "days_before_month y 9 = 215 + month_length y 2" "days_before_month y 10 = 245 + month_length y 2"
  "days_before_month y 11 = 276 + month_length y 2" "days_before_month y 12 = 306 + month_length y 2"
  by (simp_all add: numeral_eq_Suc month_length_def)

lemmas date_eval = date_parse_day_def calendar_date_iff valid_date_def month_length_def leap_year_def
  day_number_def days_before_year_def days_before_month_numeral iso_shape_def iso_year_def iso_month_def
  iso_day_def digits_eval char_class_defs

section \<open>Instants\<close>

text \<open>The instants of \<open>Date\<close>: \<open>Date.parse\<close> and the printing of \<open>toISOString\<close>, which throws out of range.\<close>

record clock_lib =
  date_parse :: "string \<Rightarrow> int option"
  print_instant :: "int \<Rightarrow> string"

definition to_iso_string :: "clock_lib \<Rightarrow> int \<Rightarrow> string res" where
  "to_iso_string clock t =
     (if \<bar>t\<bar> \<le> 8640000000000000 then Inr (print_instant clock t) else Inl (RangeError ''Invalid time value''))"

end
