(* ===== verification/Participation.thy ===== *)
theory Participation
  imports Decimal_Lib Js_Date
begin

text \<open>
  \<open>libs/engine/src/weighted-participation-base.ts\<close>: the weighted base of an account over a
  period, from one observation per calendar day.
\<close>

section \<open>Types\<close>

datatype balance_convention =
    Daily_Balance | Average_Daily_Balance | Minimum_Daily_Balance | Participation_Units

datatype day_count = Actual_365 | Actual_360

record observation =
  ob_date :: string
  ob_balance :: string
  ob_units :: "string option"
  ob_unit_value :: "string option"

record participation_input =
  wp_account :: string
  wp_start :: string
  wp_end :: string
  wp_balance :: balance_convention
  wp_day_count :: day_count
  wp_category_weight :: string
  wp_maturity_weight :: string
  wp_observations :: "observation list"
  wp_scale :: "jsnum option"

record daily_base =
  db_date :: string
  db_eligible :: string
  db_weighted :: string
  db_fraction :: string
  db_accrual :: string

record participation_result =
  wq_account :: string
  wq_start :: string
  wq_end :: string
  wq_count :: nat
  wq_day_count :: day_count
  wq_balance :: balance_convention
  wq_average :: string
  wq_minimum :: string
  wq_amount_days :: string
  wq_base :: string
  wq_daily :: "daily_base list"

section \<open>Operations\<close>

definition participation_decimal :: "'d decimal_lib \<Rightarrow> string \<Rightarrow> string \<Rightarrow> 'd res" where
  "participation_decimal = read_non_negative"

definition participation_format_date :: "nat \<Rightarrow> string" where
  "participation_format_date = iso_of_day"

definition participation_parse_date :: "string \<Rightarrow> string \<Rightarrow> nat res" where
  "participation_parse_date value field =
     (if \<not> iso_shape value then Inl (TypeError (field @ '' must use YYYY-MM-DD''))
      else case date_parse_day value of
        None \<Rightarrow> Inl (RangeError (field @ '' is not a valid date''))
      | Some day \<Rightarrow> if participation_format_date day \<noteq> value
          then Inl (RangeError (field @ '' is not a valid date'')) else Inr day)"

definition participation_formatted :: "'d decimal_lib \<Rightarrow> 'd \<Rightarrow> nat \<Rightarrow> string" where
  "participation_formatted = d_formatted"

definition observation_field :: "nat \<Rightarrow> string \<Rightarrow> string" where
  "observation_field index name = ''observations['' @ digits_of index @ ''].'' @ name"

definition basis_for_observation ::
  "'d decimal_lib \<Rightarrow> observation \<Rightarrow> balance_convention \<Rightarrow> nat \<Rightarrow> 'd res" where
  "basis_for_observation lib obs convention index =
     (if convention \<noteq> Participation_Units
      then participation_decimal lib (ob_balance obs) (observation_field index ''eligibleBalance'')
      else case (ob_units obs, ob_unit_value obs) of
        (Some units, Some unit_value) \<Rightarrow>
          and_then (participation_decimal lib units (observation_field index ''participationUnits'')) (\<lambda>u.
          and_then (participation_decimal lib unit_value (observation_field index ''participationUnitValue'')) (\<lambda>v.
            Inr (d_times lib u v)))
      | _ \<Rightarrow> Inl (TypeError (''Observation '' @ digits_of index
          @ '' requires participationUnits and participationUnitValue'')))"

text \<open>The callback that dates and reads each observation.\<close>

definition raw_base :: "'d decimal_lib \<Rightarrow> participation_input \<Rightarrow> nat \<Rightarrow> nat \<times> observation \<Rightarrow> 'd res" where
  "raw_base lib input start io = (case io of (index, obs) \<Rightarrow>
     and_then (participation_parse_date (ob_date obs) (observation_field index ''businessDate'')) (\<lambda>date.
     if date \<noteq> start + index
     then Inl (RangeError (''Observation '' @ digits_of index @ '' must be dated ''
       @ participation_format_date (start + index)))
     else basis_for_observation lib obs (wp_balance input) index))"

text \<open>The final loop over the observations, with its two running totals.\<close>

fun daily_loop ::
  "'d decimal_lib \<Rightarrow> nat \<Rightarrow> 'd \<Rightarrow> 'd \<Rightarrow> 'd \<Rightarrow> 'd \<Rightarrow> (observation \<times> 'd) list \<Rightarrow> daily_base list \<times> 'd \<times> 'd" where
  "daily_loop lib scale weight fraction amount_days base [] = ([], amount_days, base)"
| "daily_loop lib scale weight fraction amount_days base ((obs, eligible) # rest) =
     (let weighted = d_times lib eligible weight;
          accrual = d_times lib weighted fraction;
          (days, final_amount, final_base) = daily_loop lib scale weight fraction
            (d_plus lib amount_days weighted) (d_plus lib base accrual) rest in
      (\<lparr>db_date = ob_date obs, db_eligible = participation_formatted lib eligible scale,
         db_weighted = participation_formatted lib weighted scale,
         db_fraction = participation_formatted lib fraction scale,
         db_accrual = participation_formatted lib accrual scale\<rparr> # days, final_amount, final_base))"

definition weighted_result ::
  "'d decimal_lib \<Rightarrow> participation_input \<Rightarrow> nat \<Rightarrow> nat \<Rightarrow> 'd \<Rightarrow> 'd list \<Rightarrow> participation_result" where
  "weighted_result lib input scale expected_days weight raw_bases =
     (let denominator = d_of_int lib (if wp_day_count input = Actual_365 then 365 else 360);
          total = foldl (d_plus lib) (d_of_int lib 0) raw_bases;
          average = d_divided_by lib total (d_of_int lib (int expected_days));
          minimum = foldl (d_min lib) (hd raw_bases) raw_bases;
          effective = (case wp_balance input of
             Average_Daily_Balance \<Rightarrow> map (\<lambda>_. average) raw_bases
           | Minimum_Daily_Balance \<Rightarrow> map (\<lambda>_. minimum) raw_bases
           | _ \<Rightarrow> raw_bases);
          fraction = d_divided_by lib (d_of_int lib 1) denominator;
          (daily, amount_days, base) = daily_loop lib scale weight fraction (d_of_int lib 0) (d_of_int lib 0)
            (zip (wp_observations input) effective) in
      \<lparr>wq_account = wp_account input, wq_start = wp_start input, wq_end = wp_end input,
       wq_count = expected_days, wq_day_count = wp_day_count input, wq_balance = wp_balance input,
       wq_average = participation_formatted lib average scale,
       wq_minimum = participation_formatted lib minimum scale,
       wq_amount_days = participation_formatted lib amount_days scale,
       wq_base = participation_formatted lib base scale, wq_daily = daily\<rparr>)"

definition calculate_weighted_participation_base ::
  "'d decimal_lib \<Rightarrow> participation_input \<Rightarrow> participation_result res" where
  "calculate_weighted_participation_base lib input =
     (if blank (wp_account input) then Inl (TypeError ''accountId is required'') else
      and_then (participation_parse_date (wp_start input) ''periodStart'') (\<lambda>start.
      and_then (participation_parse_date (wp_end input) ''periodEnd'') (\<lambda>end_day.
      if end_day < start then Inl (RangeError ''periodEnd must be on or after periodStart'') else
      let expected_days = end_day - start + 1; observations = wp_observations input in
      if length observations \<noteq> expected_days
      then Inl (RangeError (''Expected '' @ digits_of expected_days @ '' daily observations, received ''
        @ digits_of (length observations))) else
      and_then (output_scale (wp_scale input)) (\<lambda>scale.
      and_then (participation_decimal lib (wp_category_weight input) ''categoryWeight'') (\<lambda>category_weight.
      and_then (participation_decimal lib (wp_maturity_weight input) ''maturityWeight'') (\<lambda>maturity_weight.
      and_then (traverse (raw_base lib input start) (zip [0..<length observations] observations)) (\<lambda>raw_bases.
        Inr (weighted_result lib input scale expected_days
          (d_times lib category_weight maturity_weight) raw_bases))))))))"

section \<open>Properties\<close>

lemma participation_parse_date_Inr:
  "participation_parse_date s f = Inr n \<longleftrightarrow> calendar_date s \<and> date_parse_day s = Some n"
  by (auto simp: participation_parse_date_def calendar_date_def participation_format_date_def
      split: option.splits if_splits)

text \<open>A parsed date prints back as itself, so that the day determines the text.\<close>

lemma participation_parse_date_text: "participation_parse_date s f = Inr n \<Longrightarrow> s = iso_of_day n"
  by (auto simp: participation_parse_date_Inr calendar_date_def split: option.splits)

lemma raw_base_date: "raw_base lib input start (i, obs) = Inr d \<Longrightarrow> ob_date obs = iso_of_day (start + i)"
  by (auto simp: raw_base_def outcome dest: participation_parse_date_text)

lemma daily_loop_dates:
  "daily_loop lib scale w f a b xs = (days, x, y) \<Longrightarrow> map db_date days = map (ob_date \<circ> fst) xs"
proof (induction lib scale w f a b xs arbitrary: days x y rule: daily_loop.induct)
  case (2 lib scale w f a b obs e rest)
  obtain ds u v where r: "daily_loop lib scale w f (d_plus lib a (d_times lib e w))
      (d_plus lib b (d_times lib (d_times lib e w) f)) rest = (ds, u, v)"
    by (metis prod_cases3)
  from "2.IH" [OF refl refl r] "2.prems" r show ?case by (auto simp: Let_def)
qed simp

lemma weighted_result_dates:
  assumes "length raw = length (wp_observations input)"
  shows "map db_date (wq_daily (weighted_result lib input scale n w raw)) = map ob_date (wp_observations input)
    \<and> wq_count (weighted_result lib input scale n w raw) = n"
proof -
  have "map (ob_date \<circ> fst) (zip (wp_observations input) ys) = map ob_date (wp_observations input)"
    if "length ys = length (wp_observations input)" for ys :: "'a list"
    using that by (simp flip: map_map)
  then show ?thesis
    using assms daily_loop_dates [of lib scale w]
    by (auto simp: weighted_result_def Let_def split: prod.splits balance_convention.splits)
qed

text \<open>
  The base covers every day of the period exactly once: when
  \<open>calculateWeightedParticipationBase\<close> returns, start and end are dates of the calendar, the
  number of observations is the number of days from the one to the other inclusive, and the
  daily lines carry the consecutive calendar days of the period in order, whatever the balance
  convention.
\<close>

theorem participation_covers_period:
  assumes "calculate_weighted_participation_base lib input = Inr r"
  shows "\<exists>first last. calendar_date (wp_start input) \<and> calendar_date (wp_end input)
    \<and> date_parse_day (wp_start input) = Some first \<and> date_parse_day (wp_end input) = Some last \<and> first \<le> last
    \<and> wq_count r = last - first + 1
    \<and> map db_date (wq_daily r) = map iso_of_day [first..<last + 1]
    \<and> map ob_date (wp_observations input) = map iso_of_day [first..<last + 1]"
proof -
  from assms obtain first last scale w raw where
    s: "participation_parse_date (wp_start input) ''periodStart'' = Inr first"
    and e: "participation_parse_date (wp_end input) ''periodEnd'' = Inr last" and le: "\<not> last < first"
    and n: "length (wp_observations input) = last - first + 1"
    and raw: "traverse (raw_base lib input first)
        (zip [0..<length (wp_observations input)] (wp_observations input)) = Inr raw"
    and r: "r = weighted_result lib input scale (last - first + 1) w raw"
    unfolding calculate_weighted_participation_base_def Let_def
    by (auto simp: outcome split: if_splits)
  have len: "length raw = length (wp_observations input)" using traverse_length [OF raw] by simp
  have dates: "map ob_date (wp_observations input) = map iso_of_day [first..<last + 1]"
  proof (rule nth_equalityI)
    fix i assume "i < length (map ob_date (wp_observations input))"
    then have i: "i < length (wp_observations input)" by simp
    with raw have "raw_base lib input first (i, wp_observations input ! i) = Inr (raw ! i)"
      unfolding traverse_Inr_iff by (auto simp: list_all2_conv_all_nth)
    from raw_base_date [OF this] i n le show "map ob_date (wp_observations input) ! i = map iso_of_day [first..<last + 1] ! i"
      by (simp add: nth_append not_less_eq del: upt_Suc)
  qed (use n le in simp)
  with weighted_result_dates [OF len] r s e le show ?thesis
    by (intro exI [of _ first] exI [of _ last]) (auto simp: participation_parse_date_Inr)
qed

definition participation_example :: participation_input where
  "participation_example = \<lparr>wp_account = ''a'', wp_start = ''2024-02-28'', wp_end = ''2024-02-29'',
     wp_balance = Daily_Balance, wp_day_count = Actual_365, wp_category_weight = ''1'',
     wp_maturity_weight = ''1'',
     wp_observations = [\<lparr>ob_date = ''2024-02-28'', ob_balance = ''10'', ob_units = None, ob_unit_value = None\<rparr>,
       \<lparr>ob_date = ''2024-02-29'', ob_balance = ''20'', ob_units = None, ob_unit_value = None\<rparr>],
     wp_scale = None\<rparr>"

lemma participation_example_dates:
  "participation_parse_date ''2024-02-28'' f = Inr 739309"
  "participation_parse_date ''2024-02-29'' f = Inr 739310"
  by (simp_all add: participation_parse_date_Inr date_eval)

lemma calculate_weighted_participation_base_run:
  assumes "\<not> blank (wp_account input)" "participation_parse_date (wp_start input) ''periodStart'' = Inr first"
    "participation_parse_date (wp_end input) ''periodEnd'' = Inr final" "first \<le> final"
    "length (wp_observations input) = final - first + 1" "output_scale (wp_scale input) = Inr scale"
    "participation_decimal lib (wp_category_weight input) ''categoryWeight'' = Inr c"
    "participation_decimal lib (wp_maturity_weight input) ''maturityWeight'' = Inr m"
    "traverse (raw_base lib input first) (zip [0..<length (wp_observations input)] (wp_observations input)) = Inr raw"
  shows "calculate_weighted_participation_base lib input =
    Inr (weighted_result lib input scale (final - first + 1) (d_times lib c m) raw)"
  using assms(4) unfolding calculate_weighted_participation_base_def Let_def assms(2,3,6-9) and_then_simps
  by (simp add: assms(1,5))

theorem participation_covers_period_witness:
  "\<exists>r. calculate_weighted_participation_base exact_lib participation_example = Inr r \<and> wq_count r = 2
     \<and> map db_date (wq_daily r) = [iso_of_day 739309, iso_of_day 739310]"
proof -
  let ?i = participation_example
  have t: "traverse (raw_base exact_lib ?i 739309) (zip [0..<length (wp_observations ?i)] (wp_observations ?i))
    = Inr [Num 10, Num 20]"
    by (simp add: participation_example_def raw_base_def participation_example_dates basis_for_observation_def
        participation_decimal_def read_non_negative_def upt_rec text_eval cong: eval_cong)
  have "\<not> blank (wp_account ?i)" "participation_parse_date (wp_start ?i) ''periodStart'' = Inr 739309"
    "participation_parse_date (wp_end ?i) ''periodEnd'' = Inr 739310" "(739309 :: nat) \<le> 739310"
    "length (wp_observations ?i) = 739310 - 739309 + 1" "output_scale (wp_scale ?i) = Inr 12"
    "participation_decimal exact_lib (wp_category_weight ?i) ''categoryWeight'' = Inr (Num 1)"
    "participation_decimal exact_lib (wp_maturity_weight ?i) ''maturityWeight'' = Inr (Num 1)"
    by (simp_all add: participation_example_def participation_example_dates participation_decimal_def
        read_non_negative_def trim_def js_space_def text_eval)
  from calculate_weighted_participation_base_run [OF this t] obtain r where
    r: "calculate_weighted_participation_base exact_lib ?i = Inr r" by blast
  have "date_parse_day (wp_start participation_example) = Some 739309"
    "date_parse_day (wp_end participation_example) = Some 739310"
    by (simp_all add: participation_example_def date_eval)
  with participation_covers_period [OF r] r show ?thesis
    by (intro exI [of _ r]) (auto simp: upt_rec)
qed

end
