(* ===== verification/Reserves.thy ===== *)
theory Reserves
  imports Money Decimal_Lib
begin

text \<open>
  \<open>src/modules/reserves/domain\<close>: movements of the two reserves (profit equalisation, PER, and
  investment risk, IRR), their ownership by investors and bank and the approval they need; and
  the comparison of generations of investors with the simulation of a movement.
\<close>

section \<open>Reserve movements (\<open>reserve-movement.ts\<close>)\<close>

datatype reserve_type = PER | IRR

datatype movement_kind = Fund | Release | Utilize | Adjust

record reserve_request =
  rq_type :: reserve_type
  rq_kind :: movement_kind
  rq_opening :: string
  rq_movement :: string
  rq_currency :: string
  rq_scale :: jsnum

record reserve_movement = reserve_request +
  rm_closing :: string

record governed_request = reserve_request +
  gr_pool :: string
  gr_investor_opening :: string
  gr_bank_opening :: string
  gr_investor_movement :: string
  gr_bank_movement :: string
  gr_minimum :: string
  gr_maximum :: string
  gr_threshold :: string
  gr_approval :: "string option"

record governed_movement = reserve_movement +
  gm_pool :: string
  gm_investor_closing :: string
  gm_bank_closing :: string
  gm_approval_required :: bool
  gm_approval :: "string option"

definition reserve_name :: "reserve_type \<Rightarrow> string" where
  "reserve_name t = (case t of PER \<Rightarrow> ''PER'' | IRR \<Rightarrow> ''IRR'')"

definition reserve_parse :: "('a reserve_request_scheme) \<Rightarrow> string \<Rightarrow> money res" where
  "reserve_parse input text = money_parse text (rq_currency input) (rq_scale input)"

definition calculate_reserve_movement :: "'a reserve_request_scheme \<Rightarrow> reserve_movement res" where
  "calculate_reserve_movement input =
     and_then (reserve_parse input (rq_opening input)) (\<lambda>opened.
     and_then (reserve_parse input (rq_movement input)) (\<lambda>movement.
     and_then (money_add opened movement) (\<lambda>closing.
     and_then (reserve_parse input ''0'') (\<lambda>zero.
     and_then (money_compare closing zero) (\<lambda>c.
     if c < 0 then Inl (RangeError (reserve_name (rq_type input) @ '' reserve cannot become negative''))
     else and_then (money_compare movement zero) (\<lambda>m.
     if rq_kind input = Fund \<and> m < 0 then Inl (RangeError ''Reserve funding must be positive'')
     else if (rq_kind input = Release \<or> rq_kind input = Utilize) \<and> m > 0
     then Inl (RangeError ''Reserve release or utilization must be negative'')
     else Inr \<lparr>rq_type = rq_type input, rq_kind = rq_kind input, rq_opening = rq_opening input,
       rq_movement = rq_movement input, rq_currency = rq_currency input, rq_scale = rq_scale input,
       rm_closing = to_decimal_string closing\<rparr>))))))"

definition approval_given :: "string option \<Rightarrow> bool" where
  "approval_given a = (case a of None \<Rightarrow> False | Some t \<Rightarrow> \<not> blank t)"

text \<open>The second half of \<open>authorizeReserveMovement\<close>: limits, approval and the result.\<close>

definition reserve_limits ::
  "governed_request \<Rightarrow> reserve_movement \<Rightarrow> money \<Rightarrow> money \<Rightarrow> money \<Rightarrow> governed_movement res" where
  "reserve_limits input base movement investor_closing bank_closing =
     and_then (reserve_parse input (rm_closing base)) (\<lambda>closing.
     and_then (reserve_parse input (gr_minimum input)) (\<lambda>minimum.
     and_then (reserve_parse input (gr_maximum input)) (\<lambda>maximum.
     and_then (reserve_parse input (gr_threshold input)) (\<lambda>threshold.
     and_then (money_compare minimum maximum) (\<lambda>mm.
     if mm > 0 then Inl (RangeError ''Reserve minimum cannot exceed maximum'') else
     and_then (from_minor_units (if to_minor_units movement < 0 then - to_minor_units movement
         else to_minor_units movement) (rq_currency input) (rq_scale input)) (\<lambda>absolute.
     and_then (money_compare absolute threshold) (\<lambda>a.
     and_then (money_compare closing minimum) (\<lambda>lo.
     and_then (money_compare closing maximum) (\<lambda>hi.
     let approval_required = (a > 0 \<or> lo < 0 \<or> hi > 0) in
     if approval_required \<and> \<not> approval_given (gr_approval input)
     then Inl (Failure ''Reserve movement requires explicit approval before application'')
     else Inr \<lparr>rq_type = rq_type input, rq_kind = rq_kind input, rq_opening = rq_opening input,
       rq_movement = rq_movement input, rq_currency = rq_currency input, rq_scale = rq_scale input,
       rm_closing = rm_closing base, gm_pool = gr_pool input,
       gm_investor_closing = to_decimal_string investor_closing,
       gm_bank_closing = to_decimal_string bank_closing,
       gm_approval_required = approval_required, gm_approval = gr_approval input\<rparr>)))))))))"

definition authorize_reserve_movement :: "governed_request \<Rightarrow> governed_movement res" where
  "authorize_reserve_movement input =
     (if blank (gr_pool input) then Inl (TypeError ''poolId is required'') else
      and_then (calculate_reserve_movement input) (\<lambda>base.
      and_then (reserve_parse input (rq_opening input)) (\<lambda>opened.
      and_then (reserve_parse input (rq_movement input)) (\<lambda>movement.
      and_then (reserve_parse input (gr_investor_opening input)) (\<lambda>investor_opening.
      and_then (reserve_parse input (gr_bank_opening input)) (\<lambda>bank_opening.
      and_then (reserve_parse input (gr_investor_movement input)) (\<lambda>investor_movement.
      and_then (reserve_parse input (gr_bank_movement input)) (\<lambda>bank_movement.
      and_then (money_add investor_opening bank_opening) (\<lambda>openings.
      and_then (money_compare openings opened) (\<lambda>c1.
      if c1 \<noteq> 0
      then Inl (RangeError ''Investor and bank opening shares must equal the reserve opening balance'') else
      and_then (money_add investor_movement bank_movement) (\<lambda>movements.
      and_then (money_compare movements movement) (\<lambda>c2.
      if c2 \<noteq> 0
      then Inl (RangeError ''Investor and bank movement shares must equal the reserve movement'') else
      and_then (money_add investor_opening investor_movement) (\<lambda>investor_closing.
      and_then (money_add bank_opening bank_movement) (\<lambda>bank_closing.
      and_then (reserve_parse input ''0'') (\<lambda>zero.
      and_then (money_compare investor_closing zero) (\<lambda>c3.
      and_then (money_compare bank_closing zero) (\<lambda>c4.
      if c3 < 0 \<or> c4 < 0
      then Inl (RangeError ''Investor and bank reserve shares cannot become negative'')
      else reserve_limits input base movement investor_closing bank_closing)))))))))))))))))"

subsection \<open>Properties\<close>

lemma reserve_parse_in:
  "reserve_parse input s = Inr m \<Longrightarrow> amount_in (rq_currency input) (rq_scale input) m
     \<and> decimal_value s = Some (money_value m)"
  unfolding reserve_parse_def using amount_in_parse amount_in_parse_value by blast

lemma calculate_reserve_movement_Inr:
  assumes "calculate_reserve_movement input = Inr r"
  obtains opened movement where "reserve_parse input (rq_opening input) = Inr opened"
    "reserve_parse input (rq_movement input) = Inr movement"
    "0 \<le> money_units opened + money_units movement"
    "rm_closing r = to_decimal_string (opened\<lparr>money_units := money_units opened + money_units movement\<rparr>)"
    "rq_kind input = Fund \<Longrightarrow> 0 \<le> money_units movement"
    "rq_kind input \<in> {Release, Utilize} \<Longrightarrow> money_units movement \<le> 0"
proof -
  from assms obtain opened movement where o: "reserve_parse input (rq_opening input) = Inr opened"
    and m: "reserve_parse input (rq_movement input) = Inr movement"
    by (auto simp: calculate_reserve_movement_def outcome)
  note io = reserve_parse_in [OF o, THEN conjunct1] and im = reserve_parse_in [OF m, THEN conjunct1]
  have z: "reserve_parse input ''0'' = Inr (opened\<lparr>money_units := 0\<rparr>)"
    unfolding reserve_parse_def using io by (rule money_parse_zero)
  have add: "money_add opened movement = Inr (opened\<lparr>money_units := money_units opened + money_units movement\<rparr>)"
    using io im by (rule amount_in_add)
  have "amount_in (rq_currency input) (rq_scale input) (opened\<lparr>money_units := u\<rparr>)" for u using io by simp
  note cmp = amount_in_compare [OF this this] amount_in_compare [OF im this]
  show thesis
    using assms o m z add cmp by (intro that [of opened movement])
      (auto simp: calculate_reserve_movement_def split: if_splits)
qed

text \<open>
  C10. A reserve movement keeps the books of the reserve: when \<open>authorizeReserveMovement\<close> accepts,
  the printed closing balance is opening plus movement, the closing shares of investors and bank
  are non-negative and add up to it, funding never lowers and release or utilisation never raises
  the reserve, and a movement above the threshold or a closing balance outside the limits was
  accepted only with an approval.
\<close>

theorem reserve_movement_authorized:
  assumes "authorize_reserve_movement input = Inr r"
  shows "\<exists>opened movement closing investor bank minimum maximum threshold.
     map decimal_value [rq_opening input, rq_movement input, rm_closing r, gm_investor_closing r, gm_bank_closing r,
         gr_minimum input, gr_maximum input, gr_threshold input]
       = map Some [opened, movement, closing, investor, bank, minimum, maximum, threshold]
   \<and> closing = opened + movement \<and> investor + bank = closing \<and> 0 \<le> investor \<and> 0 \<le> bank
   \<and> (rq_kind input = Fund \<longrightarrow> opened \<le> closing)
   \<and> (rq_kind input \<in> {Release, Utilize} \<longrightarrow> closing \<le> opened)
   \<and> (gm_approval_required r \<longleftrightarrow> threshold < \<bar>movement\<bar> \<or> closing < minimum \<or> maximum < closing)
   \<and> (gm_approval_required r \<longrightarrow> approval_given (gm_approval r))"
proof -
  let ?c = "rq_currency input" and ?k = "rq_scale input"
  from assms obtain base opened movement io bo im bm where
    base: "calculate_reserve_movement input = Inr base"
    and p: "reserve_parse input (rq_opening input) = Inr opened"
    "reserve_parse input (rq_movement input) = Inr movement"
    "reserve_parse input (gr_investor_opening input) = Inr io"
    "reserve_parse input (gr_bank_opening input) = Inr bo"
    "reserve_parse input (gr_investor_movement input) = Inr im"
    "reserve_parse input (gr_bank_movement input) = Inr bm"
    unfolding authorize_reserve_movement_def and_then_Inr if_throw_Inr by blast
  note in_p = p [THEN reserve_parse_in, THEN conjunct1]
  note val_p = p [THEN reserve_parse_in, THEN conjunct2]
  define ic where "ic = io\<lparr>money_units := money_units io + money_units im\<rparr>"
  define bc where "bc = bo\<lparr>money_units := money_units bo + money_units bm\<rparr>"
  have in_c: "amount_in ?c ?k ic" "amount_in ?c ?k bc" using in_p by (simp_all add: ic_def bc_def)
  have sums: "money_add io bo = Inr (io\<lparr>money_units := money_units io + money_units bo\<rparr>)"
    "money_add im bm = Inr (im\<lparr>money_units := money_units im + money_units bm\<rparr>)"
    "money_add io im = Inr ic" "money_add bo bm = Inr bc"
    using amount_in_add [OF in_p(3,4)] amount_in_add [OF in_p(5,6)] amount_in_add [OF in_p(3,5)]
      amount_in_add [OF in_p(4,6)] by (simp_all add: ic_def bc_def)
  have z: "reserve_parse input ''0'' = Inr (opened\<lparr>money_units := 0\<rparr>)"
    unfolding reserve_parse_def using in_p(1) by (rule money_parse_zero)
  have in_z: "amount_in ?c ?k (opened\<lparr>money_units := 0\<rparr>)" using in_p(1) by simp
  have io_bo: "amount_in ?c ?k (io\<lparr>money_units := money_units io + money_units bo\<rparr>)"
    and im_bm: "amount_in ?c ?k (im\<lparr>money_units := money_units im + money_units bm\<rparr>)"
    using in_p by simp_all
  note cmp = amount_in_compare [OF io_bo in_p(1)] amount_in_compare [OF im_bm in_p(2)]
    amount_in_compare [OF in_c(1) in_z] amount_in_compare [OF in_c(2) in_z]
  have split: "money_units io + money_units bo = money_units opened"
    "money_units im + money_units bm = money_units movement" "0 \<le> money_units ic" "0 \<le> money_units bc"
    and limits: "reserve_limits input base movement ic bc = Inr r"
    using assms unfolding authorize_reserve_movement_def base p and_then_simps sums z cmp if_throw_Inr
    by (auto split: if_splits)
  obtain closing minimum maximum threshold where
    q: "reserve_parse input (rm_closing base) = Inr closing" "reserve_parse input (gr_minimum input) = Inr minimum"
    "reserve_parse input (gr_maximum input) = Inr maximum" "reserve_parse input (gr_threshold input) = Inr threshold"
    using limits unfolding reserve_limits_def and_then_Inr if_throw_Inr by blast
  note in_q = q [THEN reserve_parse_in, THEN conjunct1] and val_q = q [THEN reserve_parse_in, THEN conjunct2]
  define absolute where "absolute = movement\<lparr>money_units := \<bar>money_units movement\<bar>\<rparr>"
  have "(if money_units movement < 0 then - money_units movement else money_units movement) = \<bar>money_units movement\<bar>"
    by simp
  then have abs: "from_minor_units (if to_minor_units movement < 0 then - to_minor_units movement
      else to_minor_units movement) ?c ?k = Inr absolute" and in_a: "amount_in ?c ?k absolute"
    using amount_in_from_units [OF in_p(2), of "\<bar>money_units movement\<bar>"] in_p(2)
    by (simp_all only: to_minor_units_def absolute_def amount_in_update)
  note cmp2 = amount_in_compare [OF in_q(2,3)] amount_in_compare [OF in_a in_q(4)]
    amount_in_compare [OF in_q(1,2)] amount_in_compare [OF in_q(1,3)]
  have res: "rm_closing r = rm_closing base" "gm_investor_closing r = to_decimal_string ic"
    "gm_bank_closing r = to_decimal_string bc" "gm_approval r = gr_approval input"
    and req: "gm_approval_required r \<longleftrightarrow> money_units threshold < money_units absolute
      \<or> money_units closing < money_units minimum \<or> money_units maximum < money_units closing"
    and app: "gm_approval_required r \<longrightarrow> approval_given (gr_approval input)"
    using limits unfolding reserve_limits_def q and_then_simps cmp2 abs Let_def
    by (auto split: if_splits)
  obtain closed: "rm_closing base = to_decimal_string (opened\<lparr>money_units := money_units opened + money_units movement\<rparr>)"
    and kinds: "rq_kind input = Fund \<Longrightarrow> 0 \<le> money_units movement"
      "rq_kind input \<in> {Release, Utilize} \<Longrightarrow> money_units movement \<le> 0"
    by (rule calculate_reserve_movement_Inr [OF base]) (use p(1,2) in auto)
  define k where "k = money_scale opened"
  have scales: "money_scale movement = k" "money_scale ic = k" "money_scale bc = k" "money_scale closing = k"
    "money_scale minimum = k" "money_scale maximum = k" "money_scale threshold = k"
    using amount_in_scale_eq [OF _ in_p(1)] in_p(2) in_c in_q by (simp_all add: k_def)
  let ?q = "\<lambda>u. of_int u / 10 ^ k :: rat"
  have "decimal_value (rm_closing base) = Some (?q (money_units opened + money_units movement))"
    unfolding closed to_decimal_string_value by (simp add: money_value_def k_def)
  then have cu: "money_units closing = money_units opened + money_units movement"
    using val_q(1) scales(4) by (simp add: money_value_def)
  have texts: "map decimal_value [rq_opening input, rq_movement input, rm_closing r, gm_investor_closing r,
      gm_bank_closing r, gr_minimum input, gr_maximum input, gr_threshold input]
    = map Some [?q (money_units opened), ?q (money_units movement), ?q (money_units closing),
      ?q (money_units ic), ?q (money_units bc), ?q (money_units minimum), ?q (money_units maximum),
      ?q (money_units threshold)]"
    using val_p val_q scales by (simp add: res to_decimal_string_value money_value_def k_def)
  have shares: "money_units ic + money_units bc = money_units closing"
    using split(1,2) cu by (simp add: ic_def bc_def)
  show ?thesis
  proof (rule exI [of _ "?q (money_units opened)"], rule exI [of _ "?q (money_units movement)"],
      rule exI [of _ "?q (money_units closing)"], rule exI [of _ "?q (money_units ic)"],
      rule exI [of _ "?q (money_units bc)"], rule exI [of _ "?q (money_units minimum)"],
      rule exI [of _ "?q (money_units maximum)"], rule exI [of _ "?q (money_units threshold)"],
      intro conjI, rule texts)
    show "?q (money_units closing) = ?q (money_units opened) + ?q (money_units movement)"
      "?q (money_units ic) + ?q (money_units bc) = ?q (money_units closing)"
      by (simp_all only: scaled_arith cu [symmetric] shares)
    show "0 \<le> ?q (money_units ic)" "0 \<le> ?q (money_units bc)"
      unfolding scaled_sign by (fact split)+
    show "rq_kind input = Fund \<longrightarrow> ?q (money_units opened) \<le> ?q (money_units closing)"
      "rq_kind input \<in> {Release, Utilize} \<longrightarrow> ?q (money_units closing) \<le> ?q (money_units opened)"
      unfolding scaled_compare cu using kinds by auto
    show "gm_approval_required r \<longleftrightarrow> ?q (money_units threshold) < \<bar>?q (money_units movement)\<bar>
        \<or> ?q (money_units closing) < ?q (money_units minimum) \<or> ?q (money_units maximum) < ?q (money_units closing)"
      unfolding scaled_arith scaled_compare req by (simp add: absolute_def)
    show "gm_approval_required r \<longrightarrow> approval_given (gm_approval r)"
      using app by (simp add: res)
  qed
qed

definition reserve_example :: governed_request where
  "reserve_example = \<lparr>rq_type = PER, rq_kind = Release, rq_opening = ''10'', rq_movement = ''-4'',
     rq_currency = ''DZD'', rq_scale = Num 0, gr_pool = ''p'', gr_investor_opening = ''7'',
     gr_bank_opening = ''3'', gr_investor_movement = ''-3'', gr_bank_movement = ''-1'', gr_minimum = ''0'',
     gr_maximum = ''20'', gr_threshold = ''3'', gr_approval = Some ''ok''\<rparr>"

lemmas reserve_eval = reserve_parse_def money_parse_def money_add_def money_compare_def assert_compatible_def
  from_minor_units_def to_minor_units_def to_decimal_string_def is_currency_code_def run_of_def text_eval

lemma reserve_example_fields:
  "rq_type reserve_example = PER" "rq_kind reserve_example = Release" "rq_opening reserve_example = ''10''"
  "rq_movement reserve_example = ''-4''" "rq_currency reserve_example = ''DZD''" "rq_scale reserve_example = Num 0"
  "gr_pool reserve_example = ''p''" "gr_investor_opening reserve_example = ''7''"
  "gr_bank_opening reserve_example = ''3''" "gr_investor_movement reserve_example = ''-3''"
  "gr_bank_movement reserve_example = ''-1''" "gr_minimum reserve_example = ''0''"
  "gr_maximum reserve_example = ''20''" "gr_threshold reserve_example = ''3''"
  "gr_approval reserve_example = Some ''ok''"
  by (simp_all add: reserve_example_def)

lemma reserve_example_run:
  "\<exists>r. authorize_reserve_movement reserve_example = Inr r \<and> gm_approval_required r \<and> rm_closing r = ''6''"
  by (simp add: authorize_reserve_movement_def calculate_reserve_movement_def reserve_limits_def
      reserve_example_fields approval_given_def trim_def js_space_def reserve_eval cong: eval_cong)

theorem reserve_movement_authorized_witness:
  "\<exists>r. authorize_reserve_movement reserve_example = Inr r \<and> rm_closing r = ''6''
     \<and> (\<exists>investor bank. decimal_value (gm_investor_closing r) = Some investor
         \<and> decimal_value (gm_bank_closing r) = Some bank \<and> investor + bank = 6)"
proof -
  from reserve_example_run obtain r where r: "authorize_reserve_movement reserve_example = Inr r"
    "rm_closing r = ''6''" by blast
  from reserve_movement_authorized [OF r(1)] obtain closing investor bank where
    "decimal_value (rm_closing r) = Some closing" "decimal_value (gm_investor_closing r) = Some investor"
    "decimal_value (gm_bank_closing r) = Some bank" "investor + bank = closing"
    by (elim exE conjE) (simp only: list.map list.inject)
  moreover from this(1) r(2) have "closing = 6" by (simp add: text_eval)
  ultimately show ?thesis using r by blast
qed

section \<open>Generations of investors and simulations (\<open>intergenerational-equity.ts\<close>)\<close>

record generation =
  ge_id :: string
  ge_base :: string
  ge_realized :: string
  ge_distributed :: string

record generation_view = generation +
  gv_realized_rate :: string
  gv_distributed_rate :: string
  gv_gap_rate :: string

record equity_result =
  eq_generations :: "generation_view list"
  eq_minimum :: string
  eq_maximum :: string
  eq_spread :: string
  eq_imbalance :: bool

record simulation_input =
  sm_type :: reserve_type
  sm_investor :: string
  sm_bank :: string
  sm_investor_movement :: string
  sm_bank_movement :: string
  sm_scale :: "jsnum option"

record simulation_result =
  so_type :: reserve_type
  so_before :: "string \<times> string"
  so_after :: "string \<times> string"
  so_total :: string

definition equity_signed :: "'d decimal_lib \<Rightarrow> string \<Rightarrow> string \<Rightarrow> 'd res" where
  "equity_signed = read_signed"

definition equity_non_negative :: "'d decimal_lib \<Rightarrow> string \<Rightarrow> string \<Rightarrow> 'd res" where
  "equity_non_negative lib value field = and_then (equity_signed lib value field) (\<lambda>parsed.
     if d_is_negative lib parsed then Inl (RangeError (field @ '' cannot be negative'')) else Inr parsed)"

definition equity_positive :: "'d decimal_lib \<Rightarrow> string \<Rightarrow> string \<Rightarrow> 'd res" where
  "equity_positive lib value field = and_then (equity_non_negative lib value field) (\<lambda>parsed.
     if d_is_zero lib parsed then Inl (RangeError (field @ '' must be positive'')) else Inr parsed)"

definition equity_scale :: "jsnum option \<Rightarrow> nat res" where
  "equity_scale = output_scale"

definition equity_formatted :: "'d decimal_lib \<Rightarrow> 'd \<Rightarrow> nat \<Rightarrow> string" where
  "equity_formatted = d_formatted"

text \<open>The callback over the generations, with the set \<open>seen\<close>; each view comes with its exact rate.\<close>

fun generation_views ::
  "'d decimal_lib \<Rightarrow> nat \<Rightarrow> string set \<Rightarrow> generation list \<Rightarrow> (generation_view \<times> 'd) list res" where
  "generation_views lib scale seen [] = Inr []"
| "generation_views lib scale seen (g # rest) =
     (if ge_id g = [] \<or> ge_id g \<in> seen
      then Inl (TypeError (''Duplicate or empty generationId: '' @ ge_id g))
      else and_then (equity_positive lib (ge_base g) (''participationBase:'' @ ge_id g)) (\<lambda>base.
      and_then (equity_signed lib (ge_realized g) (''realizedProfit:'' @ ge_id g)) (\<lambda>realized.
      and_then (equity_signed lib (ge_distributed g) (''distributedProfit:'' @ ge_id g)) (\<lambda>distributed.
      let realized_rate = d_divided_by lib realized base;
          distributed_rate = d_divided_by lib distributed base in
      and_then (generation_views lib scale (insert (ge_id g) seen) rest) (\<lambda>views.
      Inr ((\<lparr>ge_id = ge_id g, ge_base = ge_base g, ge_realized = ge_realized g,
          ge_distributed = ge_distributed g,
          gv_realized_rate = equity_formatted lib realized_rate scale,
          gv_distributed_rate = equity_formatted lib distributed_rate scale,
          gv_gap_rate = equity_formatted lib (d_minus lib distributed_rate realized_rate) scale\<rparr>,
        distributed_rate) # views))))))"

definition analyze_intergenerational_equity ::
  "'d decimal_lib \<Rightarrow> generation list \<Rightarrow> string \<Rightarrow> jsnum option \<Rightarrow> equity_result res" where
  "analyze_intergenerational_equity lib generations tolerated_spread scale_arg =
     (if length generations < 2 then Inl (TypeError ''At least two investor generations are required'') else
      and_then (equity_scale scale_arg) (\<lambda>scale.
      and_then (equity_non_negative lib tolerated_spread ''toleratedSpread'') (\<lambda>tolerance.
      and_then (generation_views lib scale {} generations) (\<lambda>views.
      let rates = map snd views;
          minimum = foldl (d_min lib) (hd rates) (tl rates);
          maximum = foldl (d_max lib) (hd rates) (tl rates);
          spread = d_minus lib maximum minimum in
      Inr \<lparr>eq_generations = map fst views, eq_minimum = equity_formatted lib minimum scale,
        eq_maximum = equity_formatted lib maximum scale, eq_spread = equity_formatted lib spread scale,
        eq_imbalance = d_greater lib spread tolerance\<rparr>))))"

definition simulate_reserve_movement :: "'d decimal_lib \<Rightarrow> simulation_input \<Rightarrow> simulation_result res" where
  "simulate_reserve_movement lib input =
     and_then (equity_scale (sm_scale input)) (\<lambda>scale.
     and_then (equity_non_negative lib (sm_investor input) ''investorBalance'') (\<lambda>investor_before.
     and_then (equity_non_negative lib (sm_bank input) ''bankBalance'') (\<lambda>bank_before.
     and_then (equity_signed lib (sm_investor_movement input) ''investorMovement'') (\<lambda>investor_movement.
     and_then (equity_signed lib (sm_bank_movement input) ''bankMovement'') (\<lambda>bank_movement.
     let investor_after = d_plus lib investor_before investor_movement;
         bank_after = d_plus lib bank_before bank_movement in
     if d_is_negative lib investor_after \<or> d_is_negative lib bank_after
     then Inl (RangeError ''Simulated reserve ownership cannot become negative'')
     else Inr \<lparr>so_type = sm_type input,
       so_before = (equity_formatted lib investor_before scale, equity_formatted lib bank_before scale),
       so_after = (equity_formatted lib investor_after scale, equity_formatted lib bank_after scale),
       so_total = equity_formatted lib (d_minus lib (d_minus lib (d_plus lib investor_after bank_after)
         investor_before) bank_before) scale\<rparr>)))))"

text \<open>The views are the generations, in order, and their identifiers are unique.\<close>

lemma generation_views_ids:
  "generation_views lib scale seen gs = Inr vs \<Longrightarrow>
   map (ge_id \<circ> fst) vs = map ge_id gs \<and> distinct (map ge_id gs) \<and> set (map ge_id gs) \<inter> seen = {}"
proof (induction lib scale seen gs arbitrary: vs rule: generation_views.induct)
  case (2 lib scale seen g rest)
  from "2.prems" obtain b x y ws where "ge_id g \<notin> seen"
    and p: "equity_positive lib (ge_base g) (''participationBase:'' @ ge_id g) = Inr b"
      "equity_signed lib (ge_realized g) (''realizedProfit:'' @ ge_id g) = Inr x"
      "equity_signed lib (ge_distributed g) (''distributedProfit:'' @ ge_id g) = Inr y"
    and ws: "generation_views lib scale (insert (ge_id g) seen) rest = Inr ws"
    and vs: "map (ge_id \<circ> fst) vs = ge_id g # map (ge_id \<circ> fst) ws"
    by (auto simp: outcome Let_def split: if_splits)
  moreover have guard: "\<not> (ge_id g = [] \<or> ge_id g \<in> seen)" using "2.prems" by (auto split: if_splits)
  note IH = "2.IH" [OF guard p refl refl ws]
  ultimately show ?case using IH by (simp only: list.map list.set distinct.simps) blast
qed simp

end
