(* ===== verification/Risk.thy ===== *)
theory Risk
  imports Money Decimal_Lib Js_Date
begin

text \<open>
  \<open>src/modules/risk-alm\<close>: the displaced commercial risk ratio (DCR), its consolidated variant,
  and stress scenarios, with the commands that check their arguments before the repository runs
  the calculation.
\<close>

section \<open>Displaced commercial risk (\<open>domain/dcr.ts\<close>)\<close>

record dcr_input =
  di_capital :: string
  di_exposure :: string
  di_currency :: string
  di_scale :: jsnum
  di_threshold :: string

datatype dcr_state = Within_Limit | Breach

record dcr_result =
  dr_value :: string
  dr_threshold :: string
  dr_state :: dcr_state

definition ratio_scale :: nat where "ratio_scale = 6"
definition ratio_factor :: int where "ratio_factor = 1000000"

definition parse_ratio :: "string \<Rightarrow> int res" where
  "parse_ratio value = (case unsigned_decimal value of
     None \<Rightarrow> Inl (TypeError ''DCR threshold must be a non-negative decimal'')
   | Some (whole, f) \<Rightarrow>
       if length (fraction_text f) > ratio_scale
       then Inl (RangeError (''DCR threshold exceeds scale '' @ digits_of ratio_scale))
       else Inr (int (units_of ratio_scale whole f)))"

definition format_ratio :: "int \<Rightarrow> string" where
  "format_ratio units = (let digits = pad_start (ratio_scale + 1) (text_of_int units) in
     drop_last ratio_scale digits @ CHR ''.'' # last_chars ratio_scale digits)"

definition calculate_dcr :: "dcr_input \<Rightarrow> dcr_result res" where
  "calculate_dcr input =
     and_then (money_parse (di_capital input) (di_currency input) (di_scale input)) (\<lambda>capital.
     and_then (money_parse (di_exposure input) (di_currency input) (di_scale input)) (\<lambda>exposure.
     if to_minor_units capital < 0 then Inl (RangeError ''Capital duration amount cannot be negative'')
     else if to_minor_units exposure \<le> 0
     then Inl (RangeError ''Risk-weighted duration amount must be positive'')
     else and_then (parse_ratio (di_threshold input)) (\<lambda>threshold_units.
     let numerator = to_minor_units capital * ratio_factor;
         quotient = numerator div to_minor_units exposure;
         rest = numerator mod to_minor_units exposure;
         value_units = (if rest * 2 \<ge> to_minor_units exposure then quotient + 1 else quotient) in
     Inr \<lparr>dr_value = format_ratio value_units, dr_threshold = format_ratio threshold_units,
       dr_state = (if value_units \<ge> threshold_units then Within_Limit else Breach)\<rparr>)))"

lemma format_ratio_value: "0 \<le> u \<Longrightarrow> decimal_value (format_ratio u) = Some (of_int u / 10 ^ 6)"
proof -
  assume u: "0 \<le> u"
  then have "format_ratio u = render_units 6 u"
    by (simp add: format_ratio_def ratio_scale_def text_of_int_def render_units_def render_nat_def Let_def)
  then show ?thesis by simp
qed

lemma parse_ratio_value:
  assumes "parse_ratio s = Inr u"
  shows "0 \<le> u \<and> decimal_value s = Some (of_int u / 10 ^ 6)"
proof -
  from assms obtain i f where f: "unsigned_decimal s = Some (i, f)" "length (fraction_text f) \<le> 6"
    "u = int (units_of 6 i f)"
    by (auto simp: parse_ratio_def ratio_scale_def split: option.splits if_splits)
  from units_of_value [OF f(2), of i] f(1) show ?thesis
    by (simp add: decimal_value_def signed_decimal_unsigned signed_value_def f(3))
qed

lemma round_half_up_near:
  fixes n d :: int
  assumes "0 < d"
  defines "v \<equiv> if n mod d * 2 \<ge> d then n div d + 1 else n div d"
  shows "of_int v - 1 / 2 \<le> (of_int n / of_int d :: rat)" "(of_int n / of_int d :: rat) < of_int v + 1 / 2"
proof -
  have n: "(of_int n :: rat) = of_int d * of_int (n div d) + of_int (n mod d)"
    by (simp flip: of_int_mult of_int_add)
  have d: "0 < (of_int d :: rat)" using assms(1) by simp
  have m: "0 \<le> n mod d" "n mod d < d" using assms(1) by simp_all
  have q: "(of_int n / of_int d :: rat) = of_int (n div d) + of_int (n mod d) / of_int d"
    using d by (simp add: n add_divide_distrib)
  have "of_int (n mod d) / of_int d < (1 :: rat)" "0 \<le> (of_int (n mod d) / of_int d :: rat)"
    using m d by simp_all
  moreover have "n mod d * 2 \<ge> d \<longleftrightarrow> (1 / 2 :: rat) \<le> of_int (n mod d) / of_int d"
  proof -
    have "(1 / 2 :: rat) \<le> of_int (n mod d) / of_int d \<longleftrightarrow> (of_int d :: rat) \<le> of_int (n mod d * 2)"
      using d by (simp add: field_simps)
    then show ?thesis by (simp only: of_int_le_iff)
  qed
  ultimately show "of_int v - 1 / 2 \<le> (of_int n / of_int d :: rat)" "(of_int n / of_int d :: rat) < of_int v + 1 / 2"
    unfolding q v_def by (cases "d \<le> n mod d * 2"; simp only: if_True if_False of_int_add of_int_1; linarith)+
qed

text \<open>
  C11. The ratio is the correctly rounded quotient: when \<open>calculateDcr\<close> returns, the printed
  value has six decimals and lies within half a unit of the last one (ties upwards) of capital
  over exposure; the threshold is printed with its value unchanged; and the state is a breach
  exactly when the printed value is below the threshold.
\<close>

theorem dcr_rounding:
  assumes "calculate_dcr input = Inr r"
  shows "\<exists>capital exposure threshold value.
     map decimal_value [di_capital input, di_exposure input, di_threshold input, dr_value r, dr_threshold r]
       = map Some [capital, exposure, threshold, value, threshold]
   \<and> 0 \<le> capital \<and> 0 < exposure \<and> value - 1 / 2000000 \<le> capital / exposure \<and> capital / exposure < value + 1 / 2000000
   \<and> (dr_state r = Breach \<longleftrightarrow> value < threshold)"
proof -
  from assms obtain c e t where
    c: "money_parse (di_capital input) (di_currency input) (di_scale input) = Inr c" "0 \<le> money_units c"
    and e: "money_parse (di_exposure input) (di_currency input) (di_scale input) = Inr e" "0 < money_units e"
    and t: "parse_ratio (di_threshold input) = Inr t"
    by (auto simp: calculate_dcr_def to_minor_units_def outcome not_less not_le)
  define v where "v = (if money_units c * 1000000 mod money_units e * 2 \<ge> money_units e
    then money_units c * 1000000 div money_units e + 1 else money_units c * 1000000 div money_units e)"
  have r: "dr_value r = format_ratio v" "dr_threshold r = format_ratio t"
    "dr_state r = (if v \<ge> t then Within_Limit else Breach)"
    using assms c e t by (auto simp: calculate_dcr_def to_minor_units_def ratio_factor_def v_def Let_def)
  define k where "k = money_scale c"
  have k: "money_scale e = k"
    using amount_in_scale_eq [OF amount_in_parse [OF e(1)] amount_in_parse [OF c(1)]] by (simp add: k_def)
  have "0 \<le> v" using c(2) e(2) by (auto simp: v_def pos_imp_zdiv_nonneg_iff)
  note tv = parse_ratio_value [OF t]
  have texts: "map decimal_value [di_capital input, di_exposure input, di_threshold input, dr_value r, dr_threshold r]
     = map Some [money_value c, money_value e, of_int t / 10 ^ 6, of_int v / 10 ^ 6, of_int t / 10 ^ 6]"
    using amount_in_parse_value [OF c(1)] amount_in_parse_value [OF e(1)] tv \<open>0 \<le> v\<close>
    by (simp add: r format_ratio_value)
  have q: "money_value c / money_value e = of_int (money_units c * 1000000) / of_int (money_units e) / 10 ^ 6"
    using e(2) by (simp add: money_value_def k k_def [symmetric])
  note near = round_half_up_near [OF e(2), of "money_units c * 1000000", folded v_def]
  show ?thesis
  proof (rule exI [of _ "money_value c"], rule exI [of _ "money_value e"], rule exI [of _ "of_int t / 10 ^ 6"],
      rule exI [of _ "of_int v / 10 ^ 6"], intro conjI, rule texts)
    show "0 \<le> money_value c" "0 < money_value e" using c(2) e(2) by (simp_all add: money_value_def)
    show "of_int v / 10 ^ 6 - 1 / 2000000 \<le> money_value c / money_value e"
      "money_value c / money_value e < of_int v / 10 ^ 6 + 1 / 2000000"
      unfolding q using near by (simp_all add: field_simps)
    show "dr_state r = Breach \<longleftrightarrow> of_int v / 10 ^ 6 < (of_int t / 10 ^ 6 :: rat)"
      unfolding scaled_compare by (simp add: r not_le)
  qed
qed

definition dcr_example :: dcr_input where
  "dcr_example = \<lparr>di_capital = ''1.00'', di_exposure = ''3.00'', di_currency = ''DZD'', di_scale = Num 2,
     di_threshold = ''0.4''\<rparr>"

theorem dcr_rounding_witness:
  "\<exists>r. calculate_dcr dcr_example = Inr r \<and> dr_value r = ''0.333333'' \<and> dr_state r = Breach
     \<and> (\<exists>value threshold. decimal_value (dr_value r) = Some value \<and> value < threshold
         \<and> decimal_value ''0.4'' = Some threshold)"
proof -
  have "\<exists>r. calculate_dcr dcr_example = Inr r \<and> dr_value r = ''0.333333'' \<and> dr_state r = Breach"
    by (simp add: calculate_dcr_def dcr_example_def money_parse_def is_currency_code_def run_of_def
        parse_ratio_def ratio_scale_def ratio_factor_def to_minor_units_def format_ratio_def text_of_int_def
        text_eval cong: eval_cong)
  then obtain r where r: "calculate_dcr dcr_example = Inr r" "dr_value r = ''0.333333''" "dr_state r = Breach"
    by blast
  from dcr_rounding [OF r(1)] obtain threshold v where
    "decimal_value (di_threshold dcr_example) = Some threshold" "decimal_value (dr_value r) = Some v"
    "dr_state r = Breach \<longleftrightarrow> v < threshold"
    by (elim exE conjE) (simp only: list.map list.inject)
  moreover have "di_threshold dcr_example = ''0.4''" by (simp add: dcr_example_def)
  ultimately show ?thesis using r by metis
qed

section \<open>The DCR command (\<open>application/calculate-dcr.ts\<close>)\<close>

record dcr_command =
  dc_pool :: string
  dc_business_date :: string
  dc_currency :: string
  dc_capital :: string
  dc_exposure :: string
  dc_threshold :: string
  dc_formula :: string
  dc_checksum :: string
  dc_actor :: string

definition dcr_calendar_date :: "string \<Rightarrow> bool" where
  "dcr_calendar_date = utc_components_match"

text \<open>The repository is a parameter: it receives the normalized command and the calculation.\<close>

definition execute_calculate_dcr ::
  "(dcr_command \<Rightarrow> (dcr_input \<Rightarrow> dcr_result res) \<Rightarrow> 'r res) \<Rightarrow> dcr_command \<Rightarrow> 'r res" where
  "execute_calculate_dcr calculate_atomically command =
     (let pool = trim (dc_pool command); actor = trim (dc_actor command) in
      if pool = [] then Inl (TypeError ''DCR pool is required'')
      else if \<not> dcr_calendar_date (dc_business_date command)
      then Inl (TypeError ''DCR business date must be a valid YYYY-MM-DD date'')
      else if \<not> is_currency_code (dc_currency command) then Inl (TypeError ''DCR currency must be ISO uppercase'')
      else if \<not> short_decimal True 12 (dc_capital command) \<or> \<not> short_decimal True 12 (dc_exposure command)
      then Inl (TypeError ''DCR amounts must be canonical decimals with at most 12 decimals'')
      else if \<not> dotted_name 1 64 (dc_formula command) then Inl (TypeError ''Invalid DCR formula version'')
      else if \<not> is_sha256_hex (dc_checksum command)
      then Inl (TypeError ''DCR input checksum must be lowercase SHA-256'')
      else if actor = [] then Inl (TypeError ''DCR calculation actor is required'')
      else calculate_atomically (command\<lparr>dc_pool := pool, dc_actor := actor\<rparr>) calculate_dcr)"

lemma execute_calculate_dcr_checked:
  assumes "execute_calculate_dcr repo command = Inr r"
  shows "\<exists>pool actor. pool = trim (dc_pool command) \<and> pool \<noteq> [] \<and> actor = trim (dc_actor command) \<and> actor \<noteq> []
    \<and> repo (command\<lparr>dc_pool := pool, dc_actor := actor\<rparr>) calculate_dcr = Inr r
    \<and> is_currency_code (dc_currency command) \<and> is_sha256_hex (dc_checksum command)"
  using assms by (auto simp: execute_calculate_dcr_def Let_def split: if_splits)

section \<open>Consolidated DCR (\<open>domain/consolidated-dcr.ts\<close>)\<close>

record consolidated_input =
  cd_theoretical :: string
  cd_releases :: "string list"
  cd_tanazul :: "string list"
  cd_scale :: "jsnum option"

record consolidated_result =
  ce_theoretical :: string
  ce_reserve :: string
  ce_tanazul :: string
  ce_support :: string
  ce_ratio :: string

definition consolidated_non_negative :: "'d decimal_lib \<Rightarrow> string \<Rightarrow> string \<Rightarrow> 'd res" where
  "consolidated_non_negative = read_non_negative"

definition consolidated_positive :: "'d decimal_lib \<Rightarrow> string \<Rightarrow> string \<Rightarrow> 'd res" where
  "consolidated_positive lib value field = and_then (consolidated_non_negative lib value field) (\<lambda>parsed.
     if \<not> d_is_positive lib parsed then Inl (RangeError (field @ '' must be positive'')) else Inr parsed)"

fun consolidated_sum :: "'d decimal_lib \<Rightarrow> string \<Rightarrow> nat \<Rightarrow> 'd \<Rightarrow> string list \<Rightarrow> 'd res" where
  "consolidated_sum lib field index acc [] = Inr acc"
| "consolidated_sum lib field index acc (value # rest) =
     and_then (consolidated_non_negative lib value (field @ ''['' @ digits_of index @ '']'')) (\<lambda>x.
       consolidated_sum lib field (Suc index) (d_plus lib acc x) rest)"

definition consolidated_formatted :: "'d decimal_lib \<Rightarrow> 'd \<Rightarrow> nat \<Rightarrow> string" where
  "consolidated_formatted = d_formatted"

definition calculate_consolidated_dcr :: "'d decimal_lib \<Rightarrow> consolidated_input \<Rightarrow> consolidated_result res" where
  "calculate_consolidated_dcr lib input =
     and_then (output_scale (cd_scale input)) (\<lambda>scale.
     and_then (consolidated_positive lib (cd_theoretical input) ''theoreticalShareholderProfit'') (\<lambda>theoretical.
     and_then (consolidated_sum lib ''reserveReleases'' 0 (d_of_int lib 0) (cd_releases input)) (\<lambda>reserves.
     and_then (consolidated_sum lib ''tanazulAmounts'' 0 (d_of_int lib 0) (cd_tanazul input)) (\<lambda>tanazul.
     let support = d_plus lib reserves tanazul in
     Inr \<lparr>ce_theoretical = consolidated_formatted lib theoretical scale,
       ce_reserve = consolidated_formatted lib reserves scale,
       ce_tanazul = consolidated_formatted lib tanazul scale,
       ce_support = consolidated_formatted lib support scale,
       ce_ratio = consolidated_formatted lib (d_divided_by lib support theoretical) scale\<rparr>))))"

section \<open>Stress scenarios (\<open>domain/stress-scenario.ts\<close>)\<close>

record stress_shock =
  sk_bucket :: string
  sk_points :: jsnum

record stress_result =
  st_bucket :: string
  st_points :: jsnum
  st_stressed :: string
  st_impact :: string

definition is_bucket :: "string \<Rightarrow> bool" where
  "is_bucket s \<longleftrightarrow> upper_code 1 63 s"

text \<open>The impact of a shock in minor units: half away from zero.\<close>

definition impact_minor :: "int \<Rightarrow> int" where
  "impact_minor numerator =
     (let absolute = \<bar>numerator\<bar>;
          impact = absolute div 10000;
          impact = (if absolute mod 10000 * 2 \<ge> 10000 then impact + 1 else impact) in
      if numerator < 0 then - impact else impact)"

fun stress_loop :: "money \<Rightarrow> string \<Rightarrow> jsnum \<Rightarrow> string set \<Rightarrow> stress_shock list \<Rightarrow> stress_result list res" where
  "stress_loop base currency scale buckets [] = Inr []"
| "stress_loop base currency scale buckets (shock # rest) =
     (if \<not> is_bucket (sk_bucket shock) \<or> sk_bucket shock \<in> buckets
      then Inl (TypeError ''Stress buckets must be unique uppercase codes'')
      else case js_int (sk_points shock) of
        None \<Rightarrow> Inl (RangeError ''Stress shock must be an integer between -10000 and 10000 basis points'')
      | Some points \<Rightarrow>
          if points < - 10000 \<or> points > 10000
          then Inl (RangeError ''Stress shock must be an integer between -10000 and 10000 basis points'')
          else and_then (from_minor_units (impact_minor (to_minor_units base * points)) currency scale) (\<lambda>impact.
          and_then (money_add base impact) (\<lambda>stressed.
          if to_minor_units stressed < 0 then Inl (RangeError ''Stress shock produces a negative amount'')
          else and_then (stress_loop base currency scale (insert (sk_bucket shock) buckets) rest) (\<lambda>results.
            Inr (\<lparr>st_bucket = sk_bucket shock, st_points = sk_points shock,
              st_stressed = to_decimal_string stressed, st_impact = to_decimal_string impact\<rparr> # results)))))"

definition execute_stress_scenario ::
  "string \<Rightarrow> string \<Rightarrow> jsnum \<Rightarrow> stress_shock list \<Rightarrow> stress_result list res" where
  "execute_stress_scenario base_amount currency scale shocks =
     and_then (money_parse base_amount currency scale) (\<lambda>base.
     if to_minor_units base < 0 then Inl (RangeError ''Stress base amount cannot be negative'')
     else if shocks = [] \<or> length shocks > 100
     then Inl (RangeError ''Stress scenario requires between 1 and 100 shocks'')
     else stress_loop base currency scale {} shocks)"

subsection \<open>Properties of the scenarios\<close>

lemma impact_minor_bounds:
  assumes "0 \<le> b" "- 10000 \<le> p" "p \<le> 10000"
  shows "2 * \<bar>10000 * impact_minor (b * p) - b * p\<bar> \<le> 10000" "0 \<le> b + impact_minor (b * p)"
    "impact_minor (b * p) \<le> b"
proof -
  define a where "a = \<bar>b * p\<bar>"
  define i where "i = (if a mod 10000 * 2 \<ge> 10000 then a div 10000 + 1 else a div 10000)"
  have "b * p \<le> b * 10000" "b * (- 10000) \<le> b * p"
    using assms by (intro mult_left_mono; simp)+
  then have a: "0 \<le> a" "a \<le> 10000 * b" by (auto simp: a_def)
  have split: "a = 10000 * (a div 10000) + a mod 10000" by simp
  have near: "2 * \<bar>10000 * i - a\<bar> \<le> 10000" unfolding i_def by (auto; presburger)
  have "0 \<le> i" using a by (simp add: i_def pos_imp_zdiv_nonneg_iff)
  have "i \<le> b" using a near by (simp add: i_def; presburger)
  have im: "impact_minor (b * p) = (if b * p < 0 then - i else i)"
    by (simp add: impact_minor_def i_def a_def Let_def)
  show "2 * \<bar>10000 * impact_minor (b * p) - b * p\<bar> \<le> 10000"
    using near by (auto simp: im a_def)
  show "0 \<le> b + impact_minor (b * p)" "impact_minor (b * p) \<le> b"
    using \<open>0 \<le> i\<close> \<open>i \<le> b\<close> assms(1) by (auto simp: im)
qed

text \<open>
  The guard against a negative amount is never reached: with valid shocks the scenario always
  returns.
\<close>

definition valid_shock :: "stress_shock \<Rightarrow> int \<Rightarrow> bool" where
  "valid_shock s p \<longleftrightarrow> is_bucket (sk_bucket s) \<and> js_int (sk_points s) = Some p \<and> - 10000 \<le> p \<and> p \<le> 10000"

definition stress_outcome :: "money \<Rightarrow> stress_shock \<times> int \<Rightarrow> stress_result \<Rightarrow> bool" where
  "stress_outcome base sp r \<longleftrightarrow> (case sp of (shock, p) \<Rightarrow>
     let impact = impact_minor (money_units base * p) in
     st_bucket r = sk_bucket shock \<and> st_points r = sk_points shock
     \<and> st_impact r = render_units (money_scale base) impact
     \<and> st_stressed r = render_units (money_scale base) (money_units base + impact))"

lemma stress_loop_total:
  assumes base: "amount_in c k base" "0 \<le> money_units base"
  shows "list_all2 valid_shock shocks ps \<Longrightarrow> distinct (map sk_bucket shocks) \<Longrightarrow>
    sk_bucket ` set shocks \<inter> buckets = {} \<Longrightarrow>
    \<exists>rs. stress_loop base c k buckets shocks = Inr rs \<and> list_all2 (stress_outcome base) (zip shocks ps) rs"
proof (induction shocks arbitrary: ps buckets)
  case (Cons shock rest)
  then obtain p qs where ps: "ps = p # qs" "valid_shock shock p" "list_all2 valid_shock rest qs"
    by (auto simp: list_all2_Cons1)
  define i where "i = impact_minor (money_units base * p)"
  from ps(2) have v: "is_bucket (sk_bucket shock)" "js_int (sk_points shock) = Some p" "- 10000 \<le> p" "p \<le> 10000"
    by (simp_all add: valid_shock_def)
  have i: "0 \<le> money_units base + i" using impact_minor_bounds [OF base(2) v(3,4)] by (simp add: i_def)
  from Cons.IH [OF ps(3), of "insert (sk_bucket shock) buckets"] Cons.prems(2,3) obtain rs where
    rs: "stress_loop base c k (insert (sk_bucket shock) buckets) rest = Inr rs"
      "list_all2 (stress_outcome base) (zip rest qs) rs" by auto
  define r where "r = \<lparr>st_bucket = sk_bucket shock, st_points = sk_points shock,
    st_stressed = render_units (money_scale base) (money_units base + i), st_impact = render_units (money_scale base) i\<rparr>"
  have "stress_loop base c k buckets (shock # rest) = Inr (r # rs)"
    using i Cons.prems(3) v base rs(1)
    by (simp add: to_minor_units_def amount_ops i_def [symmetric] to_decimal_string_render r_def)
  moreover have "stress_outcome base (shock, p) r" by (simp add: stress_outcome_def r_def i_def Let_def)
  ultimately show ?case using rs(2) by (simp add: ps(1))
qed simp

text \<open>
  A stress scenario always returns on valid input, the guard against a negative stressed
  amount being unreachable: for a non-negative base amount and between 1 and 100 shocks with
  distinct bucket codes and whole basis points within 10000 either way, the result lists the
  shocks in order, each with an impact in minor units within half a unit of base times points
  over 10000 and with a stressed amount equal to base plus impact, never negative and never
  above twice the base.
\<close>

theorem stress_scenario_total:
  assumes "money_parse amount currency scale = Inr base" "0 \<le> money_units base"
    and "shocks \<noteq> []" "length shocks \<le> 100" "list_all2 valid_shock shocks ps" "distinct (map sk_bucket shocks)"
  shows "\<exists>rs. execute_stress_scenario amount currency scale shocks = Inr rs
    \<and> list_all2 (\<lambda>(shock, p) r. st_bucket r = sk_bucket shock \<and> st_points r = sk_points shock
        \<and> (\<exists>impact. 2 * \<bar>10000 * impact - money_units base * p\<bar> \<le> 10000
            \<and> st_impact r = render_units (money_scale base) impact
            \<and> st_stressed r = render_units (money_scale base) (money_units base + impact)
            \<and> 0 \<le> money_units base + impact \<and> impact \<le> money_units base)) (zip shocks ps) rs"
proof -
  have "\<exists>rs. stress_loop base currency scale {} shocks = Inr rs \<and> list_all2 (stress_outcome base) (zip shocks ps) rs"
    using stress_loop_total [OF amount_in_parse [OF assms(1)] assms(2,5,6), of "{}"] by simp
  then obtain rs where rs: "stress_loop base currency scale {} shocks = Inr rs"
    "list_all2 (stress_outcome base) (zip shocks ps) rs" by blast
  have valid: "\<forall>(shock, p)\<in>set (zip shocks ps). valid_shock shock p"
    using assms(5) by (auto simp: list_all2_iff)
  have "execute_stress_scenario amount currency scale shocks = Inr rs"
    using assms rs by (simp add: execute_stress_scenario_def to_minor_units_def)
  moreover have "list_all2 (\<lambda>(shock, p) r. st_bucket r = sk_bucket shock \<and> st_points r = sk_points shock
        \<and> (\<exists>impact. 2 * \<bar>10000 * impact - money_units base * p\<bar> \<le> 10000
            \<and> st_impact r = render_units (money_scale base) impact
            \<and> st_stressed r = render_units (money_scale base) (money_units base + impact)
            \<and> 0 \<le> money_units base + impact \<and> impact \<le> money_units base)) (zip shocks ps) rs"
  proof (rule list.rel_mono_strong [OF rs(2)])
    fix sp r assume "sp \<in> set (zip shocks ps)" "r \<in> set rs" and out: "stress_outcome base sp r"
    obtain s p where sp: "sp = (s, p)" by fastforce
    with \<open>sp \<in> set (zip shocks ps)\<close> valid have "valid_shock s p" by blast
    then have "- 10000 \<le> p" "p \<le> 10000" by (simp_all add: valid_shock_def)
    from impact_minor_bounds [OF assms(2) this] out
    show "(case sp of (shock, p) \<Rightarrow> \<lambda>r. st_bucket r = sk_bucket shock \<and> st_points r = sk_points shock
        \<and> (\<exists>impact. 2 * \<bar>10000 * impact - money_units base * p\<bar> \<le> 10000
            \<and> st_impact r = render_units (money_scale base) impact
            \<and> st_stressed r = render_units (money_scale base) (money_units base + impact)
            \<and> 0 \<le> money_units base + impact \<and> impact \<le> money_units base)) r"
      by (auto simp: sp stress_outcome_def Let_def)
  qed
  ultimately show ?thesis by blast
qed

lemma list_all2_zip_single: "list_all2 P (zip [x] [y]) rs \<Longrightarrow> \<exists>r. rs = [r] \<and> P (x, y) r"
  by (auto simp: list_all2_Cons1)

definition example_shock :: stress_shock where
  "example_shock = \<lparr>sk_bucket = ''CASH'', sk_points = Num (- 250)\<rparr>"

theorem stress_scenario_total_witness:
  "\<exists>r. execute_stress_scenario ''10.01'' ''DZD'' (Num 2) [example_shock] = Inr [r] \<and> st_stressed r = ''9.76''"
proof -
  define base where "base = \<lparr>money_currency = ''DZD'', money_units = 1001, money_scale = 2\<rparr>"
  have parse: "money_parse ''10.01'' ''DZD'' (Num 2) = Inr base"
    by (simp add: base_def money_parse_def is_currency_code_def run_of_def text_eval cong: eval_cong)
  have base: "0 \<le> money_units base" "money_units base = 1001" "money_scale base = 2" by (simp_all add: base_def)
  have valid: "list_all2 valid_shock [example_shock] [- 250]"
    by (simp add: valid_shock_def example_shock_def is_bucket_def upper_code_def headed_run_def run_of_def char_class_defs)
  have one: "[example_shock] \<noteq> []" "length [example_shock] \<le> 100" "distinct (map sk_bucket [example_shock])"
    by simp_all
  from stress_scenario_total [OF parse base(1) one(1,2) valid one(3)] obtain rs where
    rs: "execute_stress_scenario ''10.01'' ''DZD'' (Num 2) [example_shock] = Inr rs"
    and out: "list_all2 (\<lambda>(shock, p) r. st_bucket r = sk_bucket shock \<and> st_points r = sk_points shock
        \<and> (\<exists>impact. 2 * \<bar>10000 * impact - money_units base * p\<bar> \<le> 10000
            \<and> st_impact r = render_units (money_scale base) impact
            \<and> st_stressed r = render_units (money_scale base) (money_units base + impact)
            \<and> 0 \<le> money_units base + impact \<and> impact \<le> money_units base)) (zip [example_shock] [- 250]) rs"
    by (elim exE conjE) (rule that)
  from list_all2_zip_single [OF out] obtain r impact where r: "rs = [r]"
    "2 * \<bar>10000 * impact - money_units base * (- 250)\<bar> \<le> 10000"
    "st_stressed r = render_units (money_scale base) (money_units base + impact)"
    unfolding prod.case by (elim exE conjE) (rule that)
  from r(2) have near: "\<bar>10000 * impact + 250250\<bar> \<le> 5000" by (simp add: base)
  have "- 5000 \<le> 10000 * impact + 250250" using abs_le_D2 [OF near] by simp
  moreover have "10000 * impact + 250250 \<le> 5000" by (rule abs_le_D1 [OF near])
  ultimately have impact: "impact = - 25" by linarith
  have "st_stressed r = ''9.76''" unfolding r(3) base impact by (simp add: text_eval)
  with rs r(1) show ?thesis by simp
qed

end
