(* ===== verification/Journal.thy ===== *)
theory Journal
  imports Money "HOL-Library.Multiset"
begin

text \<open>
  \<open>src/modules/accounting/domain/balanced-journal.ts\<close>: the lines of a journal, the check that a
  journal is balanced in every currency, its reversal, and the lines built from the allocation of
  a profit or a loss.  The lemmas reduce the check, a loop over two maps of running totals, to a
  declarative specification of a balanced journal.
\<close>

section \<open>Lines and the balance check\<close>

record journal_line =
  jl_account :: string
  jl_currency :: string
  jl_debit :: string
  jl_credit :: string
  jl_participant :: "string option"

text \<open>\<open>/^[A-Z0-9a-f:_-]{2,128}$/\<close>\<close>

definition account_char :: "char \<Rightarrow> bool" where
  "account_char c \<longleftrightarrow> upper_digit c \<or> between 97 102 c \<or> c \<in> {CHR '':'', CHR ''_'', CHR ''-''}"

definition is_account_code :: "string \<Rightarrow> bool" where
  "is_account_code s \<longleftrightarrow> run_of account_char 2 128 s"

text \<open>One pass of the loop: the checks on a line and the new running totals of its currency.\<close>

definition balance_line ::
  "jsnum \<Rightarrow> (string \<times> money \<times> money) list \<Rightarrow> journal_line \<Rightarrow> (string \<times> money \<times> money) list res" where
  "balance_line scale totals line =
     (if \<not> is_account_code (jl_account line) then Inl (TypeError ''Invalid ledger account code'') else
      and_then (money_parse (jl_debit line) (jl_currency line) scale) (\<lambda>debit.
      and_then (money_parse (jl_credit line) (jl_currency line) scale) (\<lambda>credit.
      and_then (money_parse ''0'' (jl_currency line) scale) (\<lambda>zero.
      and_then (money_compare debit zero) (\<lambda>d.
      and_then (money_compare credit zero) (\<lambda>c.
      if (d > 0) = (c > 0) then Inl (Failure ''Each journal line must contain exactly one positive side'') else
      let current = (case map_of totals (jl_currency line) of None \<Rightarrow> (zero, zero) | Some t \<Rightarrow> t) in
      and_then (money_add (fst current) debit) (\<lambda>debits.
      and_then (money_add (snd current) credit) (\<lambda>credits.
      Inr (map_set (jl_currency line) (debits, credits) totals)))))))))"

fun balance_loop ::
  "jsnum \<Rightarrow> (string \<times> money \<times> money) list \<Rightarrow> journal_line list \<Rightarrow> (string \<times> money \<times> money) list res" where
  "balance_loop scale totals [] = Inr totals"
| "balance_loop scale totals (line # rest) =
     and_then (balance_line scale totals line) (\<lambda>totals. balance_loop scale totals rest)"

definition balance_total :: "string \<times> money \<times> money \<Rightarrow> unit res" where
  "balance_total = (\<lambda>(currency, debit, credit). and_then (money_compare debit credit) (\<lambda>c.
     if c \<noteq> 0 then Inl (Failure (''Journal is not balanced in '' @ currency)) else Inr ()))"

definition assert_balanced_journal :: "journal_line list \<Rightarrow> jsnum \<Rightarrow> unit res" where
  "assert_balanced_journal lines scale =
     (if length lines < 2 then Inl (TypeError ''A journal requires at least two lines'') else
      and_then (balance_loop scale [] lines) (\<lambda>totals. each balance_total totals))"

section \<open>Reversal\<close>

definition swap_sides :: "journal_line \<Rightarrow> journal_line" where
  "swap_sides line = line\<lparr>jl_debit := jl_credit line, jl_credit := jl_debit line\<rparr>"

definition reverse_journal_lines :: "journal_line list \<Rightarrow> jsnum \<Rightarrow> journal_line list res" where
  "reverse_journal_lines lines scale =
     and_then (assert_balanced_journal lines scale) (\<lambda>_.
     let reversed = map swap_sides lines in
     and_then (assert_balanced_journal reversed scale) (\<lambda>_. Inr reversed))"

section \<open>The lines of an allocation\<close>

record posted_allocation =
  pa_participant :: string
  pa_amount :: string
  pa_currency :: string

definition allocation_line ::
  "string \<Rightarrow> jsnum \<Rightarrow> bool \<Rightarrow> money \<Rightarrow> posted_allocation \<Rightarrow> journal_line res" where
  "allocation_line currency scale profit zero allocation =
     (if pa_currency allocation \<noteq> currency
      then Inl (Failure ''Allocation currency differs from journal currency'') else
      and_then (money_parse (pa_amount allocation) currency scale) (\<lambda>amount.
      and_then (money_compare amount zero) (\<lambda>c.
      and_then (if c < 0 then and_then (from_minor_units (- to_minor_units amount) currency scale)
                  (\<lambda>m. Inr (to_decimal_string m))
                else Inr (to_decimal_string amount)) (\<lambda>absolute.
      Inr \<lparr>jl_account = ''INVESTMENT:'' @ pa_participant allocation, jl_currency = currency,
        jl_debit = if profit then ''0'' else absolute, jl_credit = if profit then absolute else ''0'',
        jl_participant = None\<rparr>))))"

definition allocation_journal_lines ::
  "posted_allocation list \<Rightarrow> string \<Rightarrow> string \<Rightarrow> jsnum \<Rightarrow> journal_line list res" where
  "allocation_journal_lines allocations distributable currency scale =
     and_then (money_parse distributable currency scale) (\<lambda>amount.
     and_then (money_parse ''0'' currency scale) (\<lambda>zero.
     and_then (money_compare amount zero) (\<lambda>c.
     let profit = (c \<ge> 0) in
     and_then (if profit then Inr ''0''
               else and_then (from_minor_units (- to_minor_units amount) currency scale)
                 (\<lambda>m. Inr (to_decimal_string m))) (\<lambda>pool_credit.
     and_then (traverse (allocation_line currency scale profit zero) allocations) (\<lambda>rest.
     let lines = \<lparr>jl_account = ''POOL:DISTRIBUTABLE'', jl_currency = currency,
         jl_debit = if profit then to_decimal_string amount else ''0'', jl_credit = pool_credit,
         jl_participant = None\<rparr> # rest in
     and_then (assert_balanced_journal lines scale) (\<lambda>_. Inr lines))))))"

section \<open>Specification of a balanced journal\<close>

text \<open>The minor units of the two sides of a line, where they can be read.\<close>

definition side_units :: "jsnum \<Rightarrow> string \<Rightarrow> string \<Rightarrow> int" where
  "side_units scale currency text = (case money_parse text currency scale of Inl _ \<Rightarrow> 0 | Inr m \<Rightarrow> money_units m)"

definition debit_units :: "jsnum \<Rightarrow> journal_line \<Rightarrow> int" where
  "debit_units scale l = side_units scale (jl_currency l) (jl_debit l)"

definition credit_units :: "jsnum \<Rightarrow> journal_line \<Rightarrow> int" where
  "credit_units scale l = side_units scale (jl_currency l) (jl_credit l)"

definition one_sided :: "jsnum \<Rightarrow> journal_line \<Rightarrow> bool" where
  "one_sided scale l \<longleftrightarrow> is_account_code (jl_account l)
     \<and> ok (money_parse (jl_debit l) (jl_currency l) scale) \<and> ok (money_parse (jl_credit l) (jl_currency l) scale)
     \<and> (0 < debit_units scale l) \<noteq> (0 < credit_units scale l)"

definition in_currency :: "string \<Rightarrow> journal_line list \<Rightarrow> journal_line list" where
  "in_currency c lines = filter (\<lambda>l. jl_currency l = c) lines"

definition balanced :: "jsnum \<Rightarrow> journal_line list \<Rightarrow> bool" where
  "balanced scale lines \<longleftrightarrow> 2 \<le> length lines \<and> list_all (one_sided scale) lines
     \<and> (\<forall>c\<in>jl_currency ` set lines. sum_list (map (debit_units scale) (in_currency c lines))
          = sum_list (map (credit_units scale) (in_currency c lines)))"

lemma side_units_parse: "money_parse text c scale = Inr m \<Longrightarrow> side_units scale c text = money_units m"
  by (simp add: side_units_def)

text \<open>The running totals after the lines \<open>finished\<close>.\<close>

definition totals_inv :: "jsnum \<Rightarrow> journal_line list \<Rightarrow> (string \<times> money \<times> money) list \<Rightarrow> bool" where
  "totals_inv scale finished totals \<longleftrightarrow> distinct (map fst totals)
     \<and> fst ` set totals = jl_currency ` set finished
     \<and> (\<forall>c d e. map_of totals c = Some (d, e) \<longrightarrow> amount_in c scale d \<and> amount_in c scale e
          \<and> money_units d = sum_list (map (debit_units scale) (in_currency c finished))
          \<and> money_units e = sum_list (map (credit_units scale) (in_currency c finished)))"

lemma totals_inv_Nil: "totals_inv scale [] []"
  by (simp add: totals_inv_def)

lemma totals_inv_set:
  assumes inv: "totals_inv scale finished totals"
    and in_c: "amount_in (jl_currency l) scale d" "amount_in (jl_currency l) scale e"
    and units: "money_units d = sum_list (map (debit_units scale) (in_currency (jl_currency l) (finished @ [l])))"
      "money_units e = sum_list (map (credit_units scale) (in_currency (jl_currency l) (finished @ [l])))"
  shows "totals_inv scale (finished @ [l]) (map_set (jl_currency l) (d, e) totals)"
  unfolding totals_inv_def
proof (intro conjI allI impI, goal_cases)
  case 1
  show ?case using inv by (simp add: totals_inv_def distinct_map_set)
next
  case 2
  show ?case using inv by (simp add: totals_inv_def)
next
  case (3 c d' e')
  then show ?case using inv in_c by (auto simp: totals_inv_def split: if_splits)
next
  case (4 c d' e')
  then show ?case using inv in_c by (auto simp: totals_inv_def split: if_splits)
next
  case (5 c d' e')
  then show ?case using inv units by (auto simp: totals_inv_def in_currency_def split: if_splits)
next
  case (6 c d' e')
  then show ?case using inv units by (auto simp: totals_inv_def in_currency_def split: if_splits)
qed

lemma balance_line_spec:
  assumes inv: "totals_inv scale finished totals"
  shows "case balance_line scale totals l of Inl _ \<Rightarrow> \<not> one_sided scale l
    | Inr totals' \<Rightarrow> one_sided scale l \<and> totals_inv scale (finished @ [l]) totals'"
proof (cases "is_account_code (jl_account l) \<and> ok (money_parse (jl_debit l) (jl_currency l) scale)
    \<and> ok (money_parse (jl_credit l) (jl_currency l) scale)")
  case False
  then have "\<not> one_sided scale l" by (auto simp: one_sided_def)
  moreover have "\<not> ok (balance_line scale totals l)" using False by (auto simp: balance_line_def outcome ok_iff)
  ultimately show ?thesis by (auto simp: not_ok_iff)
next
  case True
  then obtain d e where d: "money_parse (jl_debit l) (jl_currency l) scale = Inr d"
    and e: "money_parse (jl_credit l) (jl_currency l) scale = Inr e" and code: "is_account_code (jl_account l)"
    by (auto simp: ok_iff)
  define z where "z = d\<lparr>money_units := 0\<rparr>"
  note in_d = amount_in_parse [OF d] and in_e = amount_in_parse [OF e]
  have in_z: "amount_in (jl_currency l) scale z" using in_d by (simp add: z_def)
  have z: "money_parse ''0'' (jl_currency l) scale = Inr z" unfolding z_def using in_d by (rule money_parse_zero)
  have units: "debit_units scale l = money_units d" "credit_units scale l = money_units e"
    using d e by (simp_all add: debit_units_def credit_units_def side_units_parse)
  obtain a b where cur: "(case map_of totals (jl_currency l) of None \<Rightarrow> (z, z) | Some t \<Rightarrow> t) = (a, b)"
    by fastforce
  have ab: "amount_in (jl_currency l) scale a" "amount_in (jl_currency l) scale b"
    "money_units a = sum_list (map (debit_units scale) (in_currency (jl_currency l) finished))"
    "money_units b = sum_list (map (credit_units scale) (in_currency (jl_currency l) finished))"
  proof -
    have none: "map_of totals (jl_currency l) = None \<Longrightarrow> in_currency (jl_currency l) finished = []"
      using inv by (auto simp: totals_inv_def map_of_eq_None_iff in_currency_def filter_empty_conv) (metis imageI)
    show "amount_in (jl_currency l) scale a" "amount_in (jl_currency l) scale b"
      "money_units a = sum_list (map (debit_units scale) (in_currency (jl_currency l) finished))"
      "money_units b = sum_list (map (credit_units scale) (in_currency (jl_currency l) finished))"
      using cur none inv in_z by (auto simp: totals_inv_def z_def split: option.splits)
  qed
  have cmp: "money_compare d z = Inr (if money_units d < 0 then - 1 else if money_units d > 0 then 1 else 0)"
    "money_compare e z = Inr (if money_units e < 0 then - 1 else if money_units e > 0 then 1 else 0)"
    using amount_in_compare [OF in_d in_z] amount_in_compare [OF in_e in_z] by (simp_all add: z_def)
  have run: "balance_line scale totals l =
    (if (0 < money_units d) = (0 < money_units e)
     then Inl (Failure ''Each journal line must contain exactly one positive side'')
     else Inr (map_set (jl_currency l) (a\<lparr>money_units := money_units a + money_units d\<rparr>,
       b\<lparr>money_units := money_units b + money_units e\<rparr>) totals))"
    using code by (simp add: balance_line_def d e z cmp cur amount_in_add [OF ab(1) in_d] amount_in_add [OF ab(2) in_e])
  have side: "one_sided scale l \<longleftrightarrow> (0 < money_units d) \<noteq> (0 < money_units e)"
    using True by (simp add: one_sided_def units)
  have "totals_inv scale (finished @ [l]) (map_set (jl_currency l)
      (a\<lparr>money_units := money_units a + money_units d\<rparr>, b\<lparr>money_units := money_units b + money_units e\<rparr>) totals)"
    using ab units by (intro totals_inv_set [OF inv]) (simp_all add: in_currency_def)
  with run side show ?thesis by simp
qed

lemma balance_loop_spec:
  "totals_inv scale finished totals \<Longrightarrow>
   case balance_loop scale totals lines of Inl _ \<Rightarrow> \<not> list_all (one_sided scale) lines
   | Inr totals' \<Rightarrow> list_all (one_sided scale) lines \<and> totals_inv scale (finished @ lines) totals'"
proof (induction lines arbitrary: totals finished)
  case (Cons l lines)
  show ?case
  proof (cases "balance_line scale totals l")
    case (Inl e)
    with balance_line_spec [OF Cons.prems, of l] show ?thesis by simp
  next
    case (Inr t)
    with balance_line_spec [OF Cons.prems, of l] have t: "one_sided scale l" "totals_inv scale (finished @ [l]) t"
      by simp_all
    from Cons.IH [OF t(2)] Inr t(1) show ?thesis by (simp split: sum.splits)
  qed
qed simp

lemma balance_total_spec:
  assumes "totals_inv scale lines totals"
  shows "each balance_total totals = Inr () \<longleftrightarrow> (\<forall>c\<in>jl_currency ` set lines.
    sum_list (map (debit_units scale) (in_currency c lines)) = sum_list (map (credit_units scale) (in_currency c lines)))"
proof -
  have "balance_total (c, d, e) = Inr () \<longleftrightarrow>
      sum_list (map (debit_units scale) (in_currency c lines)) = sum_list (map (credit_units scale) (in_currency c lines))"
    if "(c, d, e) \<in> set totals" for c d e
  proof -
    from that assms have "map_of totals c = Some (d, e)" by (simp add: totals_inv_def)
    with assms have "amount_in c scale d" "amount_in c scale e"
      "money_units d = sum_list (map (debit_units scale) (in_currency c lines))"
      "money_units e = sum_list (map (credit_units scale) (in_currency c lines))"
      by (auto simp: totals_inv_def)
    then show ?thesis by (simp add: balance_total_def amount_in_compare)
  qed
  moreover have "fst ` set totals = jl_currency ` set lines" using assms by (simp add: totals_inv_def)
  ultimately show ?thesis unfolding each_Inr_iff by force
qed

text \<open>The balance check accepts exactly the balanced journals.\<close>

lemma assert_balanced_journal_iff:
  "assert_balanced_journal lines scale = Inr () \<longleftrightarrow> balanced scale lines"
proof (cases "balance_loop scale [] lines")
  case (Inl e)
  with balance_loop_spec [OF totals_inv_Nil, of scale lines] show ?thesis
    by (simp add: assert_balanced_journal_def balanced_def)
next
  case (Inr totals)
  with balance_loop_spec [OF totals_inv_Nil, of scale lines]
  have t: "list_all (one_sided scale) lines" "totals_inv scale lines totals" by simp_all
  from balance_total_spec [OF t(2)] t(1) Inr show ?thesis
    by (auto simp: assert_balanced_journal_def balanced_def)
qed

lemma swap_swap [simp]: "swap_sides (swap_sides l) = l"
  by (simp add: swap_sides_def)

lemma swap_sides_units [simp]:
  "debit_units scale (swap_sides l) = credit_units scale l" "credit_units scale (swap_sides l) = debit_units scale l"
  "jl_currency (swap_sides l) = jl_currency l"
  by (simp_all add: debit_units_def credit_units_def swap_sides_def)

lemma one_sided_swap [simp]: "one_sided scale (swap_sides l) = one_sided scale l"
  unfolding one_sided_def by (auto simp: swap_sides_def debit_units_def credit_units_def)

lemma in_currency_swap: "in_currency c (map swap_sides lines) = map swap_sides (in_currency c lines)"
  by (simp add: in_currency_def filter_map o_def)

lemma balanced_swap [simp]: "balanced scale (map swap_sides lines) = balanced scale lines"
  by (auto simp: balanced_def in_currency_swap list_all_iff o_def image_image)

lemma reverse_journal_lines_eq:
  "reverse_journal_lines lines scale =
     (if balanced scale lines then Inr (map swap_sides lines)
      else Inl (case assert_balanced_journal lines scale of Inl e \<Rightarrow> e))"
  using assert_balanced_journal_iff [of lines scale] assert_balanced_journal_iff [of "map swap_sides lines" scale]
  by (auto simp: reverse_journal_lines_def Let_def split: sum.splits)

text \<open>
  C12. The balance check refines its specification, and a reversal swaps the sides of a journal:
  \<open>assertBalancedJournal\<close> returns exactly for the journals of at least two lines whose lines have
  a valid account code, two readable amounts and exactly one positive side, and whose debits and
  credits add up to the same minor units in every currency; \<open>reverseJournalLines\<close> returns exactly
  on those, its second check never failing, and what it returns is balanced again and has, line by
  line, the debit as the credit and the credit as the debit of the same account, currency and participant.
\<close>

theorem journal_balance_and_reversal:
  "(assert_balanced_journal lines scale = Inr () \<longleftrightarrow> balanced scale lines)
   \<and> (case reverse_journal_lines lines scale of
        Inl _ \<Rightarrow> \<not> balanced scale lines
      | Inr reversed \<Rightarrow> balanced scale lines \<and> balanced scale reversed
          \<and> map (\<lambda>l. (jl_account l, jl_currency l, jl_debit l, jl_credit l, jl_participant l)) reversed
            = map (\<lambda>l. (jl_account l, jl_currency l, jl_credit l, jl_debit l, jl_participant l)) lines)"
  by (auto simp: assert_balanced_journal_iff reverse_journal_lines_eq swap_sides_def o_def split: sum.splits)

section \<open>The journal of an allocation\<close>

text \<open>What an allocation contributes: its units, where the amount can be read.\<close>

definition allocation_units :: "string \<Rightarrow> jsnum \<Rightarrow> posted_allocation \<Rightarrow> int" where
  "allocation_units currency scale a = side_units scale currency (pa_amount a)"

definition readable :: "string \<Rightarrow> jsnum \<Rightarrow> posted_allocation \<Rightarrow> bool" where
  "readable currency scale a \<longleftrightarrow> pa_currency a = currency \<and> ok (money_parse (pa_amount a) currency scale)"

definition investment_line :: "string \<Rightarrow> nat \<Rightarrow> bool \<Rightarrow> string \<Rightarrow> int \<Rightarrow> journal_line" where
  "investment_line currency k profit participant units =
     \<lparr>jl_account = ''INVESTMENT:'' @ participant, jl_currency = currency,
       jl_debit = if profit then ''0'' else render_units k \<bar>units\<bar>,
       jl_credit = if profit then render_units k \<bar>units\<bar> else ''0'', jl_participant = None\<rparr>"

lemma amount_text_parse:
  assumes "amount_in currency scale m"
  shows "money_parse (render_units (money_scale m) u) currency scale = Inr (m\<lparr>money_units := u\<rparr>)"
  using assms money_print_parse [of "m\<lparr>money_units := u\<rparr>"] by (auto simp: amount_in_def to_decimal_string_render)

lemma side_units_render: "amount_in currency scale m \<Longrightarrow> side_units scale currency (render_units (money_scale m) u) = u"
  by (simp add: side_units_def amount_text_parse)

lemma side_units_zero: "amount_in currency scale m \<Longrightarrow> side_units scale currency ''0'' = 0"
  by (simp add: side_units_def money_parse_zero)

lemma allocation_line_eq:
  assumes z: "amount_in currency scale zero" "money_units zero = 0"
  shows "allocation_line currency scale profit zero a =
    (if pa_currency a \<noteq> currency then Inl (Failure ''Allocation currency differs from journal currency'')
     else case money_parse (pa_amount a) currency scale of Inl e \<Rightarrow> Inl e
       | Inr m \<Rightarrow> Inr (investment_line currency (money_scale zero) profit (pa_participant a) (money_units m)))"
proof (cases "money_parse (pa_amount a) currency scale")
  case (Inr m)
  note in_m = amount_in_parse [OF Inr]
  have "money_scale m = money_scale zero" using amount_in_scale_eq [OF in_m z(1)] .
  with Inr in_m z show ?thesis
    by (simp add: allocation_line_def investment_line_def amount_ops to_minor_units_def to_decimal_string_render)
qed (simp add: allocation_line_def)

lemma one_sided_investment:
  assumes "amount_in currency scale zero"
  shows "one_sided scale (investment_line currency (money_scale zero) profit participant u) \<longleftrightarrow>
    is_account_code (''INVESTMENT:'' @ participant) \<and> u \<noteq> 0"
    "debit_units scale (investment_line currency (money_scale zero) profit participant u) = (if profit then 0 else \<bar>u\<bar>)"
    "credit_units scale (investment_line currency (money_scale zero) profit participant u) = (if profit then \<bar>u\<bar> else 0)"
  using assms
  by (auto simp: one_sided_def debit_units_def credit_units_def investment_line_def side_units_render side_units_zero
      amount_text_parse money_parse_zero)

text \<open>
  \<open>allocationJournalLines\<close> returns exactly when there is an allocation, the distributable amount
  and every allocation are readable in the journal's currency and not zero, the account codes are
  valid, and the absolute amounts add up.
\<close>

definition postable :: "string \<Rightarrow> jsnum \<Rightarrow> int \<Rightarrow> posted_allocation list \<Rightarrow> bool" where
  "postable currency scale units allocations \<longleftrightarrow> allocations \<noteq> [] \<and> units \<noteq> 0
     \<and> (\<forall>a\<in>set allocations. readable currency scale a \<and> is_account_code (''INVESTMENT:'' @ pa_participant a)
          \<and> allocation_units currency scale a \<noteq> 0)
     \<and> sum_list (map (\<lambda>a. \<bar>allocation_units currency scale a\<bar>) allocations) = \<bar>units\<bar>"

definition pool_line :: "string \<Rightarrow> nat \<Rightarrow> int \<Rightarrow> journal_line" where
  "pool_line currency k units = \<lparr>jl_account = ''POOL:DISTRIBUTABLE'', jl_currency = currency,
     jl_debit = if 0 \<le> units then render_units k units else ''0'',
     jl_credit = if 0 \<le> units then ''0'' else render_units k (- units), jl_participant = None\<rparr>"

lemma one_sided_pool:
  assumes "amount_in currency scale zero"
  shows "one_sided scale (pool_line currency (money_scale zero) u) \<longleftrightarrow> u \<noteq> 0"
    "debit_units scale (pool_line currency (money_scale zero) u) = max u 0"
    "credit_units scale (pool_line currency (money_scale zero) u) = max (- u) 0"
proof -
  have "is_account_code ''POOL:DISTRIBUTABLE''"
    by (simp add: is_account_code_def run_of_def account_char_def upper_digit_def char_class_defs)
  with assms show "one_sided scale (pool_line currency (money_scale zero) u) \<longleftrightarrow> u \<noteq> 0"
    "debit_units scale (pool_line currency (money_scale zero) u) = max u 0"
    "credit_units scale (pool_line currency (money_scale zero) u) = max (- u) 0"
    by (auto simp: one_sided_def debit_units_def credit_units_def pool_line_def side_units_render side_units_zero
        amount_text_parse money_parse_zero)
qed

lemma traverse_allocation_lines:
  assumes z: "amount_in currency scale zero" "money_units zero = 0"
  shows "traverse (allocation_line currency scale profit zero) as = Inr lines \<longleftrightarrow>
    list_all (readable currency scale) as
    \<and> lines = map (\<lambda>a. investment_line currency (money_scale zero) profit (pa_participant a)
        (allocation_units currency scale a)) as"
proof (induction as arbitrary: lines)
  case (Cons a as)
  have "allocation_line currency scale profit zero a = Inr l \<longleftrightarrow> readable currency scale a \<and>
      l = investment_line currency (money_scale zero) profit (pa_participant a) (allocation_units currency scale a)" for l
    by (auto simp: allocation_line_eq [OF z] readable_def allocation_units_def side_units_def ok_def split: sum.splits)
  with Cons.IH show ?case by (auto simp: outcome)
qed auto

lemma in_currency_all: "list_all (\<lambda>l. jl_currency l = c) lines \<Longrightarrow> in_currency c lines = lines"
  by (simp add: in_currency_def list_all_iff)

lemma allocation_journal_lines_Inr:
  assumes pot: "money_parse distributable currency scale = Inr pot"
  shows "allocation_journal_lines as distributable currency scale = Inr lines \<longleftrightarrow>
    postable currency scale (money_units pot) as
    \<and> lines = pool_line currency (money_scale pot) (money_units pot)
        # map (\<lambda>a. investment_line currency (money_scale pot) (0 \<le> money_units pot) (pa_participant a)
            (allocation_units currency scale a)) as"
proof -
  define z where "z = pot\<lparr>money_units := 0\<rparr>"
  define profit where "profit = (0 \<le> money_units pot)"
  define rest where "rest = map (\<lambda>a. investment_line currency (money_scale z) profit (pa_participant a)
    (allocation_units currency scale a)) as"
  define ls where "ls = pool_line currency (money_scale z) (money_units pot) # rest"
  note in_t = amount_in_parse [OF pot]
  have z: "amount_in currency scale z" "money_units z = 0" "money_scale z = money_scale pot"
    using in_t by (simp_all add: z_def)
  have run: "allocation_journal_lines as distributable currency scale = Inr lines \<longleftrightarrow>
      list_all (readable currency scale) as \<and> balanced scale ls \<and> lines = ls"
    using pot in_t z(1,2) unfolding allocation_journal_lines_def
    by (auto simp: money_parse_zero [OF in_t, folded z_def] amount_ops and_then_Inr Let_def traverse_allocation_lines
        to_minor_units_def ls_def rest_def profit_def pool_line_def z(3) to_decimal_string_render
        assert_balanced_journal_iff)
  have cur: "list_all (\<lambda>l. jl_currency l = currency) ls"
    by (simp add: ls_def rest_def pool_line_def investment_line_def list_all_iff)
  have sums: "sum_list (map (debit_units scale) ls) = max (money_units pot) 0
      + (if profit then 0 else sum_list (map (\<lambda>a. \<bar>allocation_units currency scale a\<bar>) as))"
    "sum_list (map (credit_units scale) ls) = max (- money_units pot) 0
      + (if profit then sum_list (map (\<lambda>a. \<bar>allocation_units currency scale a\<bar>) as) else 0)"
    by (simp_all add: ls_def rest_def o_def one_sided_pool [OF z(1)] one_sided_investment [OF z(1)])
  have ne: "jl_currency ` set ls = {currency}" using cur by (auto simp: list_all_iff ls_def)
  have "balanced scale ls \<longleftrightarrow> as \<noteq> [] \<and> money_units pot \<noteq> 0
      \<and> (\<forall>a\<in>set as. is_account_code (''INVESTMENT:'' @ pa_participant a) \<and> allocation_units currency scale a \<noteq> 0)
      \<and> sum_list (map (\<lambda>a. \<bar>allocation_units currency scale a\<bar>) as) = \<bar>money_units pot\<bar>"
    unfolding balanced_def ne using sums in_currency_all [OF cur]
    by (auto simp: ls_def rest_def list_all_iff one_sided_pool [OF z(1)] one_sided_investment [OF z(1)] profit_def
        Suc_le_eq)
  with run show ?thesis
    by (auto simp: postable_def list_all_iff ls_def rest_def z(3) profit_def)
qed

end
