(* ===== verification/Accounting.thy ===== *)
theory Accounting
  imports Journal Decimal_Lib Js_Date
begin

text \<open>
  \<open>src/modules/accounting\<close>: the life cycle of an accounting event, reconciliation with the general
  ledger, discrepancies, the certification of opening balances, and the application services that
  check a command before the repository runs it.  \<open>Date.parse\<close> on arbitrary texts, the printing
  of an instant, JSON and SHA-256 are parameters.
\<close>

section \<open>Life cycle of an accounting event (\<open>domain/accounting-lifecycle.ts\<close>)\<close>

datatype event_type = Revenue_Event | Profit_Share | Per_Movement | Irr_Movement | Purification
  | Withholding_Tax | Remainder_Event | Correction

datatype ack_state = Pending | Acknowledged | Rejected | Retried | Reversed

record source_key =
  sk_run :: string
  sk_pool :: string
  sk_product :: string
  sk_event :: event_type
  sk_event_id :: string

definition event_name :: "event_type \<Rightarrow> string" where
  "event_name t = (case t of Revenue_Event \<Rightarrow> ''REVENUE'' | Profit_Share \<Rightarrow> ''PROFIT_SHARE''
     | Per_Movement \<Rightarrow> ''PER_MOVEMENT'' | Irr_Movement \<Rightarrow> ''IRR_MOVEMENT'' | Purification \<Rightarrow> ''PURIFICATION''
     | Withholding_Tax \<Rightarrow> ''WITHHOLDING_TAX'' | Remainder_Event \<Rightarrow> ''REMAINDER'' | Correction \<Rightarrow> ''CORRECTION'')"

definition ack_name :: "ack_state \<Rightarrow> string" where
  "ack_name s = (case s of Pending \<Rightarrow> ''PENDING'' | Acknowledged \<Rightarrow> ''ACKNOWLEDGED'' | Rejected \<Rightarrow> ''REJECTED''
     | Retried \<Rightarrow> ''RETRIED'' | Reversed \<Rightarrow> ''REVERSED'')"

text \<open>
  \<open>Object.entries(source)\<close> lists every property the object has at run time; a property that is not
  a string (\<open>Other_Property\<close>, a number or an array) has no method \<open>trim\<close>.
\<close>

datatype property_value = Text_Property string | Other_Property

fun check_entries :: "(string \<times> property_value) list \<Rightarrow> unit res" where
  "check_entries [] = Inr ()"
| "check_entries ((name, Text_Property v) # rest) =
     (if blank v then Inl (TypeError (''Accounting source '' @ name @ '' is required'')) else check_entries rest)"
| "check_entries ((name, Other_Property) # rest) = Inl (TypeError ''value.trim is not a function'')"

definition source_entries :: "'a source_key_scheme \<Rightarrow> (string \<times> property_value) list" where
  "source_entries s = [(''runId'', Text_Property (sk_run s)), (''poolId'', Text_Property (sk_pool s)),
     (''productId'', Text_Property (sk_product s)), (''eventType'', Text_Property (event_name (sk_event s))),
     (''eventId'', Text_Property (sk_event_id s))]"

definition accounting_source_key ::
  "(string \<times> property_value) list \<Rightarrow> 'a source_key_scheme \<Rightarrow> string res" where
  "accounting_source_key entries source = and_then (check_entries entries) (\<lambda>_.
     Inr (sk_run source @ '':'' @ sk_pool source @ '':'' @ sk_product source @ '':''
       @ event_name (sk_event source) @ '':'' @ sk_event_id source))"

record prepared_event =
  pe_source_key :: string
  pe_entity :: string
  pe_lines :: "journal_line list"

definition prepare_accounting_event ::
  "(string \<times> property_value) list \<Rightarrow> 'a source_key_scheme \<Rightarrow> string \<Rightarrow> journal_line list \<Rightarrow> jsnum
     \<Rightarrow> prepared_event res" where
  "prepare_accounting_event entries source entity lines scale =
     (if blank entity then Inl (TypeError ''Accounting entity is required'') else
      and_then (assert_balanced_journal lines scale) (\<lambda>_.
      and_then (accounting_source_key entries source) (\<lambda>key.
      Inr \<lparr>pe_source_key = key, pe_entity = entity, pe_lines = lines\<rparr>)))"

definition ack_allowed :: "ack_state \<Rightarrow> ack_state list" where
  "ack_allowed s = (case s of Pending \<Rightarrow> [Acknowledged, Rejected] | Acknowledged \<Rightarrow> [] | Rejected \<Rightarrow> [Retried]
     | Retried \<Rightarrow> [Acknowledged, Rejected, Reversed] | Reversed \<Rightarrow> [])"

definition next_acknowledgement_state :: "ack_state \<Rightarrow> ack_state \<Rightarrow> ack_state res" where
  "next_acknowledgement_state current action =
     (if action \<notin> set (ack_allowed current)
      then Inl (Failure (''Accounting acknowledgement cannot transition from '' @ ack_name current @ '' to ''
        @ ack_name action))
      else Inr action)"

section \<open>Commands on accounting events (\<open>application/manage-accounting-event.ts\<close>)\<close>

record emit_command = source_key +
  em_entity :: string
  em_business_date :: string
  em_scale :: jsnum
  em_lines :: "journal_line list"
  em_actor :: string
  em_key :: string

record acknowledge_command =
  ak_journal :: string
  ak_action :: ack_state
  ak_reference :: string
  ak_reason :: "string option"
  ak_actor :: string
  ak_key :: string

text \<open>\<open>/^\\d{4}-\\d{2}-\\d{2}$/\<close> is \<open>iso_shape\<close>; the command itself is passed as the source.\<close>

definition command_entries :: "emit_command \<Rightarrow> (string \<times> property_value) list" where
  "command_entries c = source_entries c @ [(''entityId'', Text_Property (em_entity c)),
     (''businessDate'', Text_Property (em_business_date c)), (''currencyScale'', Other_Property),
     (''lines'', Other_Property), (''actorId'', Text_Property (em_actor c)),
     (''idempotencyKey'', Text_Property (em_key c))]"

definition emit_accounting_event :: "(emit_command \<Rightarrow> string \<Rightarrow> 'r res) \<Rightarrow> emit_command \<Rightarrow> 'r res" where
  "emit_accounting_event emit_atomically command =
     (if \<not> iso_shape (em_business_date command) then Inl (TypeError ''Business date must use YYYY-MM-DD'')
      else if blank (em_actor command) then Inl (TypeError ''Accounting actor is required'')
      else if length (trim (em_key command)) < 16
      then Inl (TypeError ''Idempotency key must contain at least 16 characters'')
      else and_then (prepare_accounting_event (command_entries command) command (em_entity command)
          (em_lines command) (em_scale command)) (\<lambda>event.
        emit_atomically command (pe_source_key event)))"

definition acknowledge_accounting_event ::
  "(acknowledge_command \<Rightarrow> (ack_state \<Rightarrow> ack_state \<Rightarrow> ack_state res) \<Rightarrow> 'r res) \<Rightarrow> acknowledge_command \<Rightarrow> 'r res" where
  "acknowledge_accounting_event acknowledge_atomically command =
     (if blank (ak_reference command) \<or> blank (ak_actor command)
      then Inl (TypeError ''Acknowledgement reference and actor are required'')
      else if length (trim (ak_key command)) < 16
      then Inl (TypeError ''Idempotency key must contain at least 16 characters'')
      else if \<not> is_uuid_shape (ak_journal command)
      then Inl (TypeError ''Journal entry identifier must be a UUID'')
      else if ak_action command = Rejected
        \<and> (case ak_reason command of None \<Rightarrow> 0 | Some r \<Rightarrow> length (trim r)) < 10
      then Inl (TypeError ''Accounting rejection requires a documented reason'')
      else acknowledge_atomically command next_acknowledgement_state)"

section \<open>Posting and reversing (\<open>post-approved-calculation.ts\<close>, \<open>reverse-posted-journal.ts\<close>)\<close>

record posting_command =
  pc_run :: string
  pc_actor :: string
  pc_justification :: string
  pc_key :: string

record calculation_snapshot =
  cs_distributable :: string
  cs_currency :: string
  cs_scale :: jsnum
  cs_allocations :: "posted_allocation list"

definition snapshot_lines :: "calculation_snapshot \<Rightarrow> journal_line list res" where
  "snapshot_lines s = allocation_journal_lines (cs_allocations s) (cs_distributable s) (cs_currency s) (cs_scale s)"

definition execute_post_calculation ::
  "(posting_command \<Rightarrow> (calculation_snapshot \<Rightarrow> journal_line list res) \<Rightarrow> 'r res) \<Rightarrow> posting_command \<Rightarrow> 'r res" where
  "execute_post_calculation post_atomically command =
     (if \<not> is_uuid (pc_run command) then Inl (TypeError ''Calculation run identifier must be a UUID'')
      else if blank (pc_actor command) then Inl (TypeError ''Posting actor is required'')
      else if length (trim (pc_justification command)) < 10
      then Inl (TypeError ''Posting justification must contain at least 10 characters'')
      else if length (trim (pc_key command)) < 16 \<or> length (trim (pc_key command)) > 128
      then Inl (TypeError ''Posting idempotency key must contain between 16 and 128 characters'')
      else post_atomically (command\<lparr>pc_justification := trim (pc_justification command)\<rparr>) snapshot_lines)"

record reversal_command =
  rc_journal :: string
  rc_business_date :: string
  rc_actor :: string
  rc_justification :: string
  rc_key :: string

record journal_snapshot =
  js_scale :: jsnum
  js_lines :: "journal_line list"

definition execute_reverse_journal ::
  "(reversal_command \<Rightarrow> (journal_snapshot \<Rightarrow> journal_line list res) \<Rightarrow> 'r res) \<Rightarrow> reversal_command \<Rightarrow> 'r res" where
  "execute_reverse_journal reverse_atomically command =
     (if \<not> is_uuid (rc_journal command) then Inl (TypeError ''Journal entry identifier must be a UUID'')
      else if \<not> parseable_date (rc_business_date command)
      then Inl (TypeError ''Reversal business date must use YYYY-MM-DD'')
      else if blank (rc_actor command) then Inl (TypeError ''Reversal actor is required'')
      else if length (trim (rc_justification command)) < 10
      then Inl (TypeError ''Reversal justification must contain at least 10 characters'')
      else if length (trim (rc_key command)) < 16 \<or> length (trim (rc_key command)) > 128
      then Inl (TypeError ''Reversal idempotency key must contain between 16 and 128 characters'')
      else reverse_atomically (command\<lparr>rc_justification := trim (rc_justification command)\<rparr>)
        (\<lambda>s. reverse_journal_lines (js_lines s) (js_scale s)))"

section \<open>Properties of the commands\<close>

lemma check_entries_Inr: "check_entries es = Inr u \<Longrightarrow> \<forall>(name, v)\<in>set es. \<exists>t. v = Text_Property t \<and> \<not> blank t"
  by (induction es rule: check_entries.induct) (auto split: if_splits)

lemma accounting_source_key_ok:
  "ok (accounting_source_key (source_entries s) s) \<longleftrightarrow>
     \<not> blank (sk_run s) \<and> \<not> blank (sk_pool s) \<and> \<not> blank (sk_product s) \<and> \<not> blank (sk_event_id s)"
  by (cases "sk_event s") (simp_all add: accounting_source_key_def source_entries_def event_name_def
      trim_def js_space_def outcome ok_iff)

text \<open>
  C20. No accounting event can be emitted: \<open>ManageAccountingEvent.emit\<close> passes the whole command as
  the source, whose entries include the number \<open>currencyScale\<close> and the array \<open>lines\<close>, and
  \<open>accountingSourceKey\<close> calls \<open>trim\<close> on every entry; so it throws for every command and every
  repository, although the same source without the other fields has a key.
\<close>

theorem emit_never_succeeds:
  "\<not> ok (emit_accounting_event repository command)
   \<and> (ok (accounting_source_key (source_entries command) command) \<longleftrightarrow>
        \<not> blank (sk_run command) \<and> \<not> blank (sk_pool command) \<and> \<not> blank (sk_product command)
        \<and> \<not> blank (sk_event_id command))"
proof -
  have "\<not> ok (check_entries (command_entries command))"
    using check_entries_Inr [of "command_entries command"] by (auto simp: command_entries_def ok_iff)
  then have "\<not> ok (emit_accounting_event repository command)"
    by (auto simp: emit_accounting_event_def prepare_accounting_event_def accounting_source_key_def outcome)
  then show ?thesis using accounting_source_key_ok [of command] by blast
qed

text \<open>Acknowledgement: an accepted or reversed entry is final.\<close>

fun_cases check_entries_InrE: "check_entries ((name, Text_Property v) # rest) = Inr u"

lemma next_acknowledgement_state_Inr [outcome]:
  "next_acknowledgement_state s a = Inr t \<longleftrightarrow> t = a \<and> a \<in> set (ack_allowed s)"
  by (auto simp: next_acknowledgement_state_def)

lemma ack_allowed_cases:
  "a \<in> set (ack_allowed s) \<longleftrightarrow> (s = Pending \<and> a \<in> {Acknowledged, Rejected}) \<or> (s = Rejected \<and> a = Retried)
     \<or> (s = Retried \<and> a \<in> {Acknowledged, Rejected, Reversed})"
  by (cases s) (auto simp: ack_allowed_def)

end
