(* ===== verification/Reconciliation.thy ===== *)
theory Reconciliation
  imports Money Decimal_Lib Js_Date "HOL-Library.Multiset"
begin

text \<open>
  \<open>src/modules/accounting\<close>, second half: the comparison of a sub-ledger amount with the general
  ledger, discrepancies with their deadlines, and the certification of opening balances.
  \<open>Date.parse\<close> on arbitrary texts, the printing of an instant, JSON and SHA-256 are parameters.
\<close>

section \<open>Comparison of amounts (\<open>domain/reconciliation.ts\<close>)\<close>

datatype reconciliation_state = Matched | Variance

record reconciliation_result =
  rr_difference :: string
  rr_state :: reconciliation_state

text \<open>The scales are those of the currencies, natural numbers.\<close>

definition normalize_exact_scale :: "string \<Rightarrow> nat \<Rightarrow> string res" where
  "normalize_exact_scale amount scale = (case signed_decimal amount of
     None \<Rightarrow> Inr amount
   | Some (neg, whole, f) \<Rightarrow>
       (let fraction = fraction_text f; sign = (if neg then ''-'' else []) in
        if length fraction \<le> scale then Inr amount
        else if \<exists>c\<in>set (drop scale fraction). c \<noteq> CHR ''0'' then Inl (exceeds_money_scale scale)
        else Inr (if scale = 0 then sign @ whole else sign @ whole @ CHR ''.'' # take scale fraction)))"

definition reconcile_amounts :: "string \<Rightarrow> string \<Rightarrow> string \<Rightarrow> nat \<Rightarrow> reconciliation_result res" where
  "reconcile_amounts subledger_amount ledger_amount currency scale =
     and_then (normalize_exact_scale subledger_amount scale) (\<lambda>s.
     and_then (money_parse s currency (of_js (int scale))) (\<lambda>subledger.
     and_then (normalize_exact_scale ledger_amount scale) (\<lambda>g.
     and_then (money_parse g currency (of_js (int scale))) (\<lambda>general_ledger.
     and_then (money_subtract subledger general_ledger) (\<lambda>d.
     let difference = to_decimal_string d in
     and_then (money_parse ''0'' currency (of_js (int scale))) (\<lambda>zero.
     Inr \<lparr>rr_difference = difference,
       rr_state = if difference = to_decimal_string zero then Matched else Variance\<rparr>))))))"

section \<open>Discrepancies (\<open>domain/reconciliation-discrepancy.ts\<close>)\<close>

datatype severity = Low | Medium | High | Critical

datatype discrepancy_status = Detected | Qualified | Assigned | In_Progress | Corrected | Controlled
  | Closed | Accepted_Risk

definition maximum_resolution_hours :: "severity \<Rightarrow> int" where
  "maximum_resolution_hours s = (case s of Low \<Rightarrow> 72 | Medium \<Rightarrow> 24 | High \<Rightarrow> 8 | Critical \<Rightarrow> 2)"

definition discrepancy_deadline :: "clock_lib \<Rightarrow> string \<Rightarrow> severity \<Rightarrow> string res" where
  "discrepancy_deadline clock detected_at sev = (case date_parse clock detected_at of
     None \<Rightarrow> Inl (TypeError ''Detected date must be ISO'')
   | Some timestamp \<Rightarrow> to_iso_string clock (timestamp + maximum_resolution_hours sev * 3600000))"

record discrepancy_input =
  dy_owner :: string
  dy_cause :: string
  dy_action :: string
  dy_status :: discrepancy_status
  dy_risk_reference :: "string option"

definition validate_discrepancy :: "discrepancy_input \<Rightarrow> discrepancy_input res" where
  "validate_discrepancy input =
     (if blank (dy_owner input) \<or> length (trim (dy_cause input)) < 5 \<or> length (trim (dy_action input)) < 5
      then Inl (TypeError ''Discrepancy ownership, cause and corrective action are required'')
      else if dy_status input = Accepted_Risk
        \<and> (case dy_risk_reference input of None \<Rightarrow> True | Some r \<Rightarrow> blank r)
      then Inl (TypeError ''Accepted discrepancy risk requires an explicit reference'')
      else Inr input)"

section \<open>The reconciliation command (\<open>application/reconcile-general-ledger.ts\<close>)\<close>

record discrepancy_note =
  dn_severity :: severity
  dn_owner :: string
  dn_cause :: string
  dn_action :: string
  dn_detected_at :: string

record reconciliation_command =
  re_business_date :: string
  re_currency :: string
  re_ledger_amount :: string
  re_reference :: string
  re_checksum :: string
  re_actor :: string
  re_correlation :: "string option"
  re_discrepancy :: "discrepancy_note option"

text \<open>\<open>/^-?\\d+(\\.\\d+)?$/\<close>\<close>

definition plain_decimal :: "string \<Rightarrow> bool" where
  "plain_decimal s = (let t = (if s \<noteq> [] \<and> hd s = CHR ''-'' then tl s else s); (i, f) = split_dot t in
     i \<noteq> [] \<and> list_all is_digit i \<and> fraction_ok f)"

definition reconcile_calendar_date :: "string \<Rightarrow> bool" where
  "reconcile_calendar_date = calendar_date"

definition normalized_discrepancy :: "clock_lib \<Rightarrow> discrepancy_note \<Rightarrow> discrepancy_note res" where
  "normalized_discrepancy clock note =
     and_then (discrepancy_deadline clock (dn_detected_at note) (dn_severity note)) (\<lambda>_.
     case date_parse clock (dn_detected_at note) of None \<Rightarrow> Inl (RangeError ''Invalid time value'')
     | Some t \<Rightarrow> and_then (to_iso_string clock t) (\<lambda>detected.
       let normalized = note\<lparr>dn_owner := trim (dn_owner note), dn_cause := trim (dn_cause note),
         dn_action := trim (dn_action note), dn_detected_at := detected\<rparr> in
       and_then (validate_discrepancy \<lparr>dy_owner = dn_owner normalized, dy_cause = dn_cause normalized,
         dy_action = dn_action normalized, dy_status = Detected, dy_risk_reference = None\<rparr>) (\<lambda>_.
       Inr normalized)))"

definition execute_reconcile_ledger ::
  "clock_lib \<Rightarrow> (reconciliation_command \<Rightarrow> 'r res) \<Rightarrow> reconciliation_command \<Rightarrow> 'r res" where
  "execute_reconcile_ledger clock reconcile_atomically command =
     (let reference = trim (re_reference command); actor = trim (re_actor command);
          correlation = map_option (to_lower \<circ> trim) (re_correlation command) in
      if \<not> reconcile_calendar_date (re_business_date command)
      then Inl (TypeError ''Business date must use YYYY-MM-DD'')
      else if \<not> is_currency_code (re_currency command)
      then Inl (TypeError ''Currency must be an ISO uppercase code'')
      else if \<not> plain_decimal (re_ledger_amount command)
      then Inl (TypeError ''General ledger amount must be decimal'')
      else if length reference < 3 \<or> length reference > 256
      then Inl (TypeError ''Source reference must contain between 3 and 256 characters'')
      else if \<not> is_sha256_hex (re_checksum command)
      then Inl (TypeError ''Source checksum must be lowercase SHA-256'')
      else if actor = [] then Inl (TypeError ''Reconciliation actor is required'')
      else if (case correlation of None \<Rightarrow> False | Some c \<Rightarrow> \<not> is_uuid_lower c)
      then Inl (TypeError ''Reconciliation correlation identifier must be a UUID'')
      else and_then (case re_discrepancy command of None \<Rightarrow> Inr None
          | Some note \<Rightarrow> and_then (normalized_discrepancy clock note) (\<lambda>n. Inr (Some n))) (\<lambda>discrepancy.
        reconcile_atomically (command\<lparr>re_reference := reference, re_actor := actor,
          re_correlation := correlation, re_discrepancy := discrepancy\<rparr>)))"

section \<open>Opening balances (\<open>domain/opening-balance-certification.ts\<close>)\<close>

datatype opening_component = Historical_Accounts | Component_Per | Component_Irr | Past_Distributions

definition opening_components :: "opening_component list" where
  "opening_components = [Historical_Accounts, Component_Per, Component_Irr, Past_Distributions]"

definition component_name :: "opening_component \<Rightarrow> string" where
  "component_name c = (case c of Historical_Accounts \<Rightarrow> ''HISTORICAL_ACCOUNTS'' | Component_Per \<Rightarrow> ''PER''
     | Component_Irr \<Rightarrow> ''IRR'' | Past_Distributions \<Rightarrow> ''PAST_DISTRIBUTIONS'')"

record opening_evidence =
  oe_component :: opening_component
  oe_currency :: string
  oe_migrated :: string
  oe_ledger :: string
  oe_reference :: string

record certified_line = opening_evidence +
  cl_difference :: string

record certification_input =
  ci_id :: string
  ci_signed_by :: string
  ci_signed_at :: string
  ci_correlation :: "string option"
  ci_lines :: "opening_evidence list"

record certification =
  ce_id :: string
  ce_signed_by :: string
  ce_signed_at :: string
  ce_correlation :: "string option"
  ce_checksum :: string
  ce_lines :: "certified_line list"

text \<open>
  \<open>new Decimal(text)\<close> on an unchecked text is \<open>new_decimal\<close>, which may throw; \<open>toFixed()\<close> without
  places is \<open>print_decimal\<close>.
\<close>

record 'd opening_lib =
  ol_decimal :: "'d decimal_lib"
  ol_new_decimal :: "string \<Rightarrow> 'd res"
  ol_print :: "'d \<Rightarrow> string"
  ol_checksum :: "certified_line list \<Rightarrow> string"

fun certify_lines :: "'d opening_lib \<Rightarrow> opening_component set \<Rightarrow> opening_evidence list \<Rightarrow> certified_line list res" where
  "certify_lines lib seen [] = Inr []"
| "certify_lines lib seen (line # rest) =
     (if oe_component line \<in> seen
      then Inl (TypeError (''Duplicate opening balance component: '' @ component_name (oe_component line)))
      else if \<not> is_currency_code (oe_currency line)
      then Inl (TypeError ''Opening balance currency must be ISO 4217'')
      else if blank (oe_reference line)
      then Inl (TypeError (''Evidence is required for '' @ component_name (oe_component line)))
      else and_then (ol_new_decimal lib (oe_migrated line)) (\<lambda>migrated.
      and_then (ol_new_decimal lib (oe_ledger line)) (\<lambda>ledger.
      let difference = d_minus (ol_decimal lib) migrated ledger in
      if \<not> d_is_zero (ol_decimal lib) difference
      then Inl (Failure (''Opening balance variance for '' @ component_name (oe_component line) @ '': ''
        @ ol_print lib difference))
      else and_then (certify_lines lib (insert (oe_component line) seen) rest) (\<lambda>lines.
        Inr (\<lparr>oe_component = oe_component line, oe_currency = oe_currency line, oe_migrated = oe_migrated line,
          oe_ledger = oe_ledger line, oe_reference = oe_reference line,
          cl_difference = d_to_fixed (ol_decimal lib) 12 difference\<rparr> # lines)))))"

fun join_with :: "string \<Rightarrow> string list \<Rightarrow> string" where
  "join_with sep [] = []"
| "join_with sep [s] = s"
| "join_with sep (s # ss) = s @ sep @ join_with sep ss"

definition certify_opening_balances ::
  "'d opening_lib \<Rightarrow> (string \<Rightarrow> int option) \<Rightarrow> (string \<Rightarrow> string \<Rightarrow> int) \<Rightarrow> certification_input
     \<Rightarrow> certification res" where
  "certify_opening_balances lib parse_date lc input =
     (if blank (ci_signed_by input) then Inl (TypeError ''Finance signer is required'')
      else if parse_date (ci_signed_at input) = None
      then Inl (TypeError ''Finance signature timestamp is invalid'')
      else if (case ci_correlation input of None \<Rightarrow> False | Some c \<Rightarrow> \<not> is_uuid (trim c))
      then Inl (TypeError ''Opening balance correlation identifier must be a UUID'')
      else and_then (certify_lines lib {} (ci_lines input)) (\<lambda>lines.
      let missing = filter (\<lambda>c. c \<notin> oe_component ` set (ci_lines input)) opening_components in
      if missing \<noteq> []
      then Inl (Failure (''Opening balance certification is incomplete: ''
        @ join_with '', '' (map component_name missing)))
      else Inr \<lparr>ce_id = ci_id input, ce_signed_by = trim (ci_signed_by input), ce_signed_at = ci_signed_at input,
        ce_correlation = map_option (to_lower \<circ> trim) (ci_correlation input),
        ce_checksum = ol_checksum lib (sort_by (\<lambda>a b. lc (component_name (oe_component a))
          (component_name (oe_component b))) lines),
        ce_lines = lines\<rparr>))"

definition execute_certify_opening ::
  "'d opening_lib \<Rightarrow> (string \<Rightarrow> int option) \<Rightarrow> (string \<Rightarrow> string \<Rightarrow> int) \<Rightarrow> (certification \<Rightarrow> 'r res)
     \<Rightarrow> certification_input \<Rightarrow> 'r res" where
  "execute_certify_opening lib parse_date lc save command =
     (if \<not> is_uuid (ci_id command)
      then Inl (TypeError ''Opening balance certification identifier must be a UUID'')
      else and_then (certify_opening_balances lib parse_date lc command) save)"

section \<open>Properties of the comparison\<close>

lemma all_zeros_iff:
  assumes "list_all is_digit g"
  shows "nat_of_digits g = 0 \<longleftrightarrow> (\<forall>c\<in>set g. c = CHR ''0'')"
proof
  assume "nat_of_digits g = 0"
  moreover have "list_all is_digit (replicate (length g) (CHR ''0''))" by (simp add: list_all_iff)
  ultimately have "g = replicate (length g) (CHR ''0'')"
    using nat_of_digits_inj [OF assms] by simp
  then show "\<forall>c\<in>set g. c = CHR ''0''" by (metis in_set_replicate)
next
  assume "\<forall>c\<in>set g. c = CHR ''0''"
  then have "g = replicate (length g) (CHR ''0'')" by (simp add: replicate_eqI)
  then show "nat_of_digits g = 0" by (metis nat_of_digits_zeros)
qed

lemma text_value_take:
  assumes "\<forall>c\<in>set (drop k g). c = CHR ''0''" "list_all is_digit g" "k \<le> length g"
  shows "of_nat (nat_of_digits (take k g)) / 10 ^ k = (of_nat (nat_of_digits g) / 10 ^ length g :: rat)"
proof -
  have "list_all is_digit (drop k g)" using assms(2) by (auto simp: list_all_iff dest: in_set_dropD)
  then have "nat_of_digits (drop k g) = 0" using all_zeros_iff assms(1) by simp
  then have "nat_of_digits g = nat_of_digits (take k g) * 10 ^ (length g - k)"
    using nat_of_digits_append [of "take k g" "drop k g"] by simp
  then have "(of_nat (nat_of_digits g) :: rat) = of_nat (nat_of_digits (take k g)) * 10 ^ (length g - k)" by simp
  moreover have "(10 :: rat) ^ length g = 10 ^ k * 10 ^ (length g - k)"
    using assms(3) by (simp flip: power_add)
  ultimately show ?thesis by simp
qed

text \<open>The text cut to the scale has the value of the amount and is read at that scale.\<close>

lemma normalize_exact_scale_parts:
  assumes amount: "signed_decimal amount = Some (neg, i, f)"
    and long: "k < length (fraction_text f)" "\<forall>c\<in>set (drop k (fraction_text f)). c = CHR ''0''"
  defines "short \<equiv> (if k = 0 then None else Some (take k (fraction_text f)))"
  shows "\<exists>s. normalize_exact_scale amount k = Inr s \<and> signed_decimal s = Some (neg, i, short)"
    and "length (fraction_text short) \<le> k" "signed_value neg i short = signed_value neg i f"
proof -
  obtain g where g: "f = Some g" using long(1) by (cases f) auto
  from signed_decimal_SomeD [OF amount] have u: "unsigned_decimal (if neg then tl amount else amount) = Some (i, f)"
    by simp
  with unsigned_decimal_SomeD [OF u] g have i: "canonical_int i" "list_all is_digit g" by (auto simp: fraction_ok_def)
  have cut_ok: "fraction_ok short"
    using i(2) long(1) g by (auto simp: short_def fraction_ok_def list_all_iff dest: in_set_takeD)
  define t where "t = i @ (case short of None \<Rightarrow> [] | Some g \<Rightarrow> CHR ''.'' # g)"
  have t: "unsigned_decimal t = Some (i, short)"
    using i(1) cut_ok by (simp add: unsigned_decimal_iff t_def)
  have "normalize_exact_scale amount k = Inr (if neg then CHR ''-'' # t else t)"
    using amount long g by (simp add: normalize_exact_scale_def t_def short_def Let_def not_le)
  then show "\<exists>s. normalize_exact_scale amount k = Inr s \<and> signed_decimal s = Some (neg, i, short)"
    using t by (cases neg) (simp_all add: signed_decimal_minus signed_decimal_unsigned)
  show "length (fraction_text short) \<le> k" by (simp add: short_def)
  show "signed_value neg i short = signed_value neg i f"
    using text_value_take [OF long(2)] i(2) long(1) g by (auto simp: signed_value_def text_value_def short_def)
qed

lemma on_grid_zeros:
  assumes "text_value i f * 10 ^ k = of_int u" "k < length (fraction_text f)" "list_all is_digit (fraction_text f)"
  shows "\<forall>c\<in>set (drop k (fraction_text f)). c = CHR ''0''"
proof -
  let ?g = "fraction_text f" let ?n = "length ?g - k"
  have n: "(10 :: rat) ^ length ?g = 10 ^ k * 10 ^ ?n" using assms(2) by (simp flip: power_add)
  have "nat_of_digits ?g = nat_of_digits (take k ?g) * 10 ^ ?n + nat_of_digits (drop k ?g)"
    using nat_of_digits_append [of "take k ?g" "drop k ?g"] by simp
  moreover have "of_nat (nat_of_digits ?g) = (of_int ((u - int (nat_of_digits i) * 10 ^ k) * 10 ^ ?n) :: rat)"
  proof -
    have "(of_nat (nat_of_digits ?g) :: rat) = (text_value i f * 10 ^ k - of_nat (nat_of_digits i) * 10 ^ k) * 10 ^ ?n"
      by (simp add: text_value_def n algebra_simps)
    then show ?thesis by (simp add: assms(1))
  qed
  ultimately have "int (nat_of_digits (take k ?g) * 10 ^ ?n + nat_of_digits (drop k ?g))
      = (u - int (nat_of_digits i) * 10 ^ k) * 10 ^ ?n"
    by (metis of_int_eq_iff of_int_of_nat_eq)
  then have "int (nat_of_digits (drop k ?g)) =
      (u - int (nat_of_digits i) * 10 ^ k - int (nat_of_digits (take k ?g))) * 10 ^ ?n"
    by (simp add: algebra_simps)
  then have "(10 :: int) ^ ?n dvd int (nat_of_digits (drop k ?g))" by simp
  moreover have digits: "list_all is_digit (drop k ?g)" using assms(3) by (auto simp: list_all_iff dest: in_set_dropD)
  have "nat_of_digits (drop k ?g) < 10 ^ ?n" using nat_of_digits_bound [OF digits] by simp
  ultimately have "nat_of_digits (drop k ?g) = 0"
    by (metis dvd_imp_le int_dvd_int_iff linorder_not_le neq0_conv of_nat_numeral of_nat_power)
  then show ?thesis using all_zeros_iff [OF digits] by simp
qed

lemma normalized_parse:
  assumes "is_currency_code currency" "k \<le> 12"
  shows "and_then (normalize_exact_scale amount k) (\<lambda>s. money_parse s currency (of_js (int k))) = Inr m \<longleftrightarrow>
    (\<exists>u. decimal_value amount = Some (of_int u / 10 ^ k)
      \<and> m = \<lparr>money_currency = currency, money_units = u, money_scale = k\<rparr>)"
proof -
  have parse: "money_parse s currency (of_js (int k)) = Inr m \<longleftrightarrow> (\<exists>u. decimal_value s = Some (of_int u / 10 ^ k)
      \<and> m = \<lparr>money_currency = currency, money_units = u, money_scale = k\<rparr>)"
    if s: "signed_decimal s = Some (neg, i, f)" "length (fraction_text f) \<le> k" for s neg i f
  proof -
    define u where "u = (if neg then - int (units_of k i f) else int (units_of k i f))"
    have "of_int u = signed_value neg i f * 10 ^ k"
      using units_of_value [OF s(2), of i] by (simp add: u_def signed_value_def)
    then have v: "decimal_value s = Some (of_int u / 10 ^ k)" using s(1) by (simp add: decimal_value_def)
    have "read_units True k e1 e2 s = Inr u" for e1 e2 using s by (simp add: read_units_def u_def)
    then have "money_parse s currency (of_js (int k)) =
        Inr \<lparr>money_currency = currency, money_units = u, money_scale = k\<rparr>"
      using assms by (simp add: money_parse_eq)
    then show ?thesis using v by auto
  qed
  show ?thesis
  proof (cases "signed_decimal amount")
    case None
    then show ?thesis
      by (auto simp: normalize_exact_scale_def decimal_value_def money_parse_eq read_units_def assms split: option.splits)
  next
    case (Some p)
    then obtain neg i f where s: "signed_decimal amount = Some (neg, i, f)" by (cases p) auto
    show ?thesis
    proof (cases "length (fraction_text f) \<le> k")
      case True
      then show ?thesis using parse [OF s True] s by (simp add: normalize_exact_scale_def Let_def)
    next
      case False
      note long = False [unfolded not_le]
      from signed_decimal_SomeD [OF s] have digits: "list_all is_digit (fraction_text f)"
        using unsigned_decimal_SomeD fraction_ok_digits by blast
      show ?thesis
      proof (cases "\<forall>c\<in>set (drop k (fraction_text f)). c = CHR ''0''")
        case True
        from normalize_exact_scale_parts [OF s long True] obtain t where
          t: "normalize_exact_scale amount k = Inr t"
            "signed_decimal t = Some (neg, i, if k = 0 then None else Some (take k (fraction_text f)))" by blast
        have "decimal_value t = decimal_value amount"
          using normalize_exact_scale_parts(3) [OF s long True] s t(2) by (simp add: decimal_value_def)
        with parse [OF t(2) normalize_exact_scale_parts(2) [OF s long True]] t(1) show ?thesis by simp
      next
        case off: False
        have "normalize_exact_scale amount k = Inl (exceeds_money_scale k)"
          using off long s by (auto simp: normalize_exact_scale_def Let_def)
        moreover have "decimal_value amount \<noteq> Some (of_int u / 10 ^ k)" for u
        proof
          assume "decimal_value amount = Some (of_int u / 10 ^ k)"
          then have "signed_value neg i f * 10 ^ k = of_int u" using s by (simp add: decimal_value_def)
          then have "text_value i f * 10 ^ k = of_int (if neg then - u else u)"
            by (cases neg) (simp_all add: signed_value_def)
          from on_grid_zeros [OF this long digits] off show False by simp
        qed
        ultimately show ?thesis by simp
      qed
    qed
  qed
qed

lemma reconcile_amounts_iff:
  assumes "is_currency_code currency" "scale \<le> 12"
  shows "reconcile_amounts a b currency scale = Inr r \<longleftrightarrow>
    (\<exists>u v. decimal_value a = Some (of_int u / 10 ^ scale) \<and> decimal_value b = Some (of_int v / 10 ^ scale)
      \<and> r = \<lparr>rr_difference = render_units scale (u - v), rr_state = if u = v then Matched else Variance\<rparr>)"
proof -
  let ?p = "\<lambda>a. and_then (normalize_exact_scale a scale) (\<lambda>s. money_parse s currency (of_js (int scale)))"
  let ?m = "\<lambda>u. \<lparr>money_currency = currency, money_units = u, money_scale = scale\<rparr>"
  have in_m: "amount_in currency (of_js (int scale)) (?m u)" for u using assms by (simp add: amount_in_def wf_money_def)
  have zero: "money_parse ''0'' currency (of_js (int scale)) = Inr (?m 0)"
    using money_parse_zero [OF in_m [of 0]] by simp
  have "reconcile_amounts a b currency scale = and_then (?p a) (\<lambda>x. and_then (?p b) (\<lambda>y.
      and_then (money_subtract x y) (\<lambda>d. and_then (money_parse ''0'' currency (of_js (int scale))) (\<lambda>zero.
      Inr \<lparr>rr_difference = to_decimal_string d,
        rr_state = if to_decimal_string d = to_decimal_string zero then Matched else Variance\<rparr>))))"
    by (simp add: reconcile_amounts_def and_then_assoc Let_def)
  note eq = this and parsed = normalized_parse [OF assms]
  show ?thesis
  proof (cases "(\<exists>u. decimal_value a = Some (of_int u / 10 ^ scale)) \<and> (\<exists>v. decimal_value b = Some (of_int v / 10 ^ scale))")
    case True
    then obtain u v where uv: "decimal_value a = Some (of_int u / 10 ^ scale)" "decimal_value b = Some (of_int v / 10 ^ scale)"
      by blast
    then have "?p a = Inr (?m u)" "?p b = Inr (?m v)" using parsed by blast+
    then have "reconcile_amounts a b currency scale =
        Inr \<lparr>rr_difference = render_units scale (u - v), rr_state = if u = v then Matched else Variance\<rparr>"
      unfolding eq by (simp add: amount_in_subtract [OF in_m in_m] zero [unfolded of_int_of_nat_eq]
        to_decimal_string_render render_units_inj)
    then show ?thesis using uv by auto
  next
    case False
    then have "\<not> ok (?p a) \<or> \<not> ok (?p b)" using parsed unfolding ok_iff by blast
    then have "\<not> ok (reconcile_amounts a b currency scale)" unfolding eq by (cases "?p a"; cases "?p b") simp_all
    with False show ?thesis unfolding ok_iff by blast
  qed
qed

text \<open>
  Reconciliation is exact whatever the number of trailing zeros of the texts (the database
  prints 12 decimals): in a valid currency of at most 12 decimals, \<open>reconcileAmounts\<close> returns
  exactly when both amounts are decimals with a whole number of minor units; the difference it
  prints is then the exact difference, and the state is matched exactly when the amounts are equal.
\<close>

theorem reconciliation_exact:
  assumes "is_currency_code currency" "scale \<le> 12"
  shows "reconcile_amounts a b currency scale = Inr r \<longleftrightarrow>
    (\<exists>u v. decimal_value a = Some (of_int u / 10 ^ scale) \<and> decimal_value b = Some (of_int v / 10 ^ scale)
      \<and> r = \<lparr>rr_difference = render_units scale (u - v), rr_state = if u = v then Matched else Variance\<rparr>)"
  using assms by (rule reconcile_amounts_iff)

theorem reconciliation_exact_witness:
  "reconcile_amounts ''1250.500000000000'' ''1250.4'' ''DZD'' 2 =
     Inr \<lparr>rr_difference = ''0.10'', rr_state = Variance\<rparr>"
proof -
  have v: "decimal_value ''1250.500000000000'' = Some (of_int 125050 / 10 ^ 2)"
    "decimal_value ''1250.4'' = Some (of_int 125040 / 10 ^ 2)" by (simp_all add: text_eval)
  have d: "render_units 2 10 = ''0.10''" by (simp add: text_eval)
  have "is_currency_code ''DZD''" by (simp add: is_currency_code_def run_of_def char_class_defs)
  then show ?thesis
    by (rule reconciliation_exact [THEN iffD2]) (simp, rule exI [of _ 125050], rule exI [of _ 125040], simp add: v d)
qed

lemma reconcile_amounts_currency: "reconcile_amounts a b currency scale = Inr r \<Longrightarrow> is_currency_code currency \<and> scale \<le> 12"
  by (auto simp: reconcile_amounts_def and_then_Inr dest!: money_parse_SomeD [of _ currency] simp: wf_money_def)

section \<open>Properties of the certification\<close>

lemma certify_lines_components:
  "certify_lines lib seen ls = Inr rs \<Longrightarrow> map oe_component rs = map oe_component ls
     \<and> distinct (map oe_component ls) \<and> oe_component ` set ls \<inter> seen = {}
     \<and> (\<forall>l\<in>set ls. \<exists>m g. ol_new_decimal lib (oe_migrated l) = Inr m \<and> ol_new_decimal lib (oe_ledger l) = Inr g
          \<and> d_is_zero (ol_decimal lib) (d_minus (ol_decimal lib) m g) \<and> \<not> blank (oe_reference l))"
proof (induction lib seen ls arbitrary: rs rule: certify_lines.induct)
  case (2 lib seen line rest)
  from "2.prems" obtain m g lines where
    guards: "oe_component line \<notin> seen" "is_currency_code (oe_currency line)" "\<not> blank (oe_reference line)"
    and m: "ol_new_decimal lib (oe_migrated line) = Inr m" and g: "ol_new_decimal lib (oe_ledger line) = Inr g"
    and z: "d_is_zero (ol_decimal lib) (d_minus (ol_decimal lib) m g)"
    and lines: "certify_lines lib (insert (oe_component line) seen) rest = Inr lines"
    and rs: "map oe_component rs = oe_component line # map oe_component lines"
    by (auto simp: and_then_Inr Let_def split: if_splits)
  note IH = "2.IH" [OF guards(1) _ guards(3) m g refl _ lines]
  from IH guards m g z rs show ?case by auto
qed simp

lemma rounded_zero:
  assumes "rounded p x 0" "0 < p"
  shows "x = 0"
proof (rule ccontr)
  assume "x \<noteq> 0"
  obtain k where k: "1 / \<bar>x\<bar> < of_nat k" using reals_Archimedean2 by blast
  also have "(of_nat k :: rat) < 10 ^ k"
  proof -
    have "k < 10 ^ k" by (induction k) auto
    then have "(of_nat k :: rat) < of_nat (10 ^ k)" by (simp only: of_nat_less_iff)
    then show ?thesis by simp
  qed
  finally have small: "1 / 10 ^ k < \<bar>x\<bar>" using \<open>x \<noteq> 0\<close> by (simp add: field_simps)
  have rep: "representable p (1 / 10 ^ k)" "representable p (- (1 / 10 ^ k))"
    using representable_scaled [of 1 p k] representable_scaled [of "- 1" p k] assms(2) by simp_all
  have "(0 :: rat) < 1 / 10 ^ k" by simp
  moreover have "1 / 10 ^ k \<le> x \<Longrightarrow> 1 / 10 ^ k \<le> (0 :: rat)" "x \<le> - (1 / 10 ^ k) \<Longrightarrow> 0 \<le> (- (1 / 10 ^ k) :: rat)"
    using rep assms(1) unfolding rounded_def by blast+
  ultimately show False using small by (cases "0 \<le> x") linarith+
qed

text \<open>
  A certification is complete and without variance: when \<open>certifyOpeningBalances\<close> returns, each
  of the four components of the opening balances occurs exactly once among the lines, and every
  line has evidence and, under the documented behaviour of decimal.js, a migrated amount equal to
  the ledger amount.
\<close>

theorem certification_complete:
  assumes "certify_opening_balances lib parse_date lc input = Inr c"
    and laws: "decimal_laws (ol_decimal lib) p val" "0 < p"
  shows "mset (map oe_component (ce_lines c)) = mset opening_components
    \<and> map oe_component (ce_lines c) = map oe_component (ci_lines input)
    \<and> (\<forall>l\<in>set (ci_lines input). \<not> blank (oe_reference l)
        \<and> (\<exists>m g. ol_new_decimal lib (oe_migrated l) = Inr m \<and> ol_new_decimal lib (oe_ledger l) = Inr g
            \<and> (val m \<noteq> None \<longrightarrow> val g \<noteq> None \<longrightarrow> val m = val g)))"
proof -
  from assms(1) obtain lines where lines: "certify_lines lib {} (ci_lines input) = Inr lines" "ce_lines c = lines"
    and missing: "filter (\<lambda>c. c \<notin> oe_component ` set (ci_lines input)) opening_components = []"
    by (auto simp: certify_opening_balances_def and_then_Inr Let_def split: if_splits)
  note comp = certify_lines_components [OF lines(1)]
  have every: "set opening_components = UNIV"
    using opening_component.exhaust by (auto simp: opening_components_def)
  have "\<forall>c\<in>set opening_components. c \<in> oe_component ` set (ci_lines input)"
    using missing unfolding filter_empty_conv by blast
  then have all: "set (map oe_component (ci_lines input)) = set opening_components" unfolding every by auto
  have "distinct opening_components" by (simp add: opening_components_def)
  then have "mset (map oe_component (ce_lines c)) = mset opening_components"
    using comp all by (metis lines(2) set_eq_iff_mset_eq_distinct)
  moreover have "val m = val g" if z: "d_is_zero (ol_decimal lib) (d_minus (ol_decimal lib) m g)"
    and v: "val m = Some x" "val g = Some y" for m g x y
  proof -
    from decimal_laws_ops(2) [OF laws(1) v] obtain r where r: "val (d_minus (ol_decimal lib) m g) = Some r" "rounded p (x - y) r"
      by blast
    from decimal_laws_unary(2) [OF laws(1) r(1)] z have "r = 0" by simp
    with r(2) rounded_zero laws(2) have "x - y = 0" by blast
    with v show ?thesis by simp
  qed
  ultimately show ?thesis using comp lines(2) by (auto simp: not_None_eq) metis
qed

definition example_evidence :: "opening_component \<Rightarrow> opening_evidence" where
  "example_evidence c = \<lparr>oe_component = c, oe_currency = ''DZD'', oe_migrated = ''10.5'', oe_ledger = ''10.50'',
     oe_reference = ''GL''\<rparr>"

definition certification_example :: certification_input where
  "certification_example = \<lparr>ci_id = ''c'', ci_signed_by = ''finance'', ci_signed_at = ''2024-01-31'',
     ci_correlation = None, ci_lines = map example_evidence opening_components\<rparr>"

definition exact_opening_lib :: "jsnum opening_lib" where
  "exact_opening_lib = \<lparr>ol_decimal = exact_lib, ol_new_decimal = (\<lambda>s. Inr (of_text exact_lib s)),
     ol_print = (\<lambda>_. []), ol_checksum = (\<lambda>_. [])\<rparr>"

lemma example_line_ok:
  assumes "c \<notin> seen" "ok (certify_lines exact_opening_lib (insert c seen) rest)"
  shows "ok (certify_lines exact_opening_lib seen (example_evidence c # rest))"
proof -
  have "ol_new_decimal exact_opening_lib ''10.5'' = Inr (Num (105 / 10))"
    "ol_new_decimal exact_opening_lib ''10.50'' = Inr (Num (105 / 10))"
    by (simp_all add: exact_opening_lib_def exact_lib_def text_eval)
  moreover have "d_is_zero (ol_decimal exact_opening_lib) (d_minus (ol_decimal exact_opening_lib) (Num (105 / 10)) (Num (105 / 10)))"
    by (simp add: exact_opening_lib_def exact_lib_def)
  moreover have "is_currency_code ''DZD''" "\<not> blank ''GL''"
    by (simp_all add: is_currency_code_def run_of_def char_class_defs trim_def js_space_def)
  moreover have "oe_component (example_evidence c) = c" "oe_currency (example_evidence c) = ''DZD''"
    "oe_migrated (example_evidence c) = ''10.5''" "oe_ledger (example_evidence c) = ''10.50''"
    "oe_reference (example_evidence c) = ''GL''" by (simp_all add: example_evidence_def)
  ultimately show ?thesis
    using assms unfolding certify_lines.simps ok_iff and_then_Inr by (auto simp: Let_def)
qed

lemma certification_example_run:
  "\<exists>c. certify_opening_balances exact_opening_lib (\<lambda>_. Some 0) (\<lambda>_ _. 0) certification_example = Inr c"
proof -
  have "ok (certify_lines exact_opening_lib {} (map example_evidence opening_components))"
    by (simp only: opening_components_def list.map) (intro example_line_ok; simp)
  then obtain ls where "certify_lines exact_opening_lib {} (map example_evidence opening_components) = Inr ls"
    unfolding ok_iff by blast
  moreover have "\<not> blank ''finance''" by (simp add: trim_def js_space_def)
  moreover have "oe_component ` set (map example_evidence opening_components) = set opening_components"
    by (simp add: image_image example_evidence_def)
  ultimately show ?thesis
    by (simp add: certify_opening_balances_def certification_example_def del: set_map)
qed

theorem certification_complete_witness:
  "\<exists>c. certify_opening_balances exact_opening_lib (\<lambda>_. Some 0) (\<lambda>_ _. 0) certification_example = Inr c
     \<and> mset (map oe_component (ce_lines c)) = mset opening_components"
proof -
  obtain c where c: "certify_opening_balances exact_opening_lib (\<lambda>_. Some 0) (\<lambda>_ _. 0) certification_example = Inr c"
    using certification_example_run by blast
  have "decimal_laws (ol_decimal exact_opening_lib) 20 num_value"
    by (simp add: exact_opening_lib_def exact_lib_laws)
  from certification_complete [OF c this, THEN conjunct1] c show ?thesis by simp
qed

end
