(* ===== verification/Accounting_Store.thy ===== *)
theory Accounting_Store
  imports Accounting Reconciliation
begin

text \<open>
  The PostgreSQL repositories of the accounting module
  (\<open>src/infrastructure/persistence/postgres-accounting-*.repository.ts\<close>) as functions on a record
  of tables.  A transaction that throws leaves the tables as they were, so each operation returns
  either an error or the new tables.  A \<open>numeric(n,12)\<close> column holds units of \<open>10 ^ -12\<close> and is
  printed by \<open>::text\<close> with 12 decimals.  The unique keys the code relies on are checked on
  insertion; the other constraints of the schema can only turn a success into an error.
  \<open>gen_random_uuid()\<close> is a parameter, the list of the identifiers it will return.
\<close>

section \<open>Tables\<close>

record stored_line =
  sl_account :: string
  sl_currency :: string
  sl_debit :: int
  sl_credit :: int
  sl_participant :: "string option"
  sl_entity :: "string option"

datatype entry_kind = Profit_Allocation | Reversal_Entry | Business_Event

datatype entry_status = Draft_Entry | Posted_Entry

record journal_row =
  jr_id :: string
  jr_run :: "string option"
  jr_business_date :: string
  jr_kind :: entry_kind
  jr_status :: entry_status
  jr_reversal_of :: "string option"
  jr_correlation :: string
  jr_created_by :: string
  jr_source_key :: "string option"
  jr_ack :: ack_state
  jr_lines :: "stored_line list"

record ack_row =
  ar_journal :: string
  ar_previous :: ack_state
  ar_resulting :: ack_state
  ar_reference :: string
  ar_reason :: "string option"
  ar_actor :: string
  ar_key :: string

record approval_row =
  ap_key :: string
  ap_resource_type :: string
  ap_resource :: string
  ap_action :: string
  ap_actor :: string
  ap_justification :: string
  ap_result :: string

datatype run_status = Run_Draft | Run_Calculated | Run_Controlled | Run_Approved | Run_Posted | Run_Archived | Run_Failed

record run_row =
  rn_id :: string
  rn_status :: run_status
  rn_maker :: "string option"
  rn_business_date :: string
  rn_correlation :: string
  rn_distributable :: int
  rn_currency :: string

record allocation_row =
  al_run :: string
  al_participant :: string
  al_amount :: int
  al_currency :: string

record currency_row =
  cu_code :: string
  cu_digits :: nat
  cu_from :: string
  cu_until :: "string option"

record outbox_event =
  ob_id :: string
  ob_aggregate :: string
  ob_type :: string

record ledger =
  lg_journals :: "journal_row list"
  lg_acks :: "ack_row list"
  lg_approvals :: "approval_row list"
  lg_runs :: "run_row list"
  lg_allocations :: "allocation_row list"
  lg_currencies :: "currency_row list"
  lg_outbox :: "outbox_event list"

definition run_status_name :: "run_status \<Rightarrow> string" where
  "run_status_name s = (case s of Run_Draft \<Rightarrow> ''DRAFT'' | Run_Calculated \<Rightarrow> ''CALCULATED''
     | Run_Controlled \<Rightarrow> ''CONTROLLED'' | Run_Approved \<Rightarrow> ''APPROVED'' | Run_Posted \<Rightarrow> ''POSTED''
     | Run_Archived \<Rightarrow> ''ARCHIVED'' | Run_Failed \<Rightarrow> ''FAILED'')"

text \<open>A text stored in a \<open>numeric(digits,12)\<close> column, rounded half away from zero.\<close>

definition round_away :: "rat \<Rightarrow> int" where
  "round_away q = (if q < 0 then - \<lfloor>- q + 1 / 2\<rfloor> else \<lfloor>q + 1 / 2\<rfloor>)"

definition numeric_of :: "nat \<Rightarrow> string \<Rightarrow> int res" where
  "numeric_of digits text = (case decimal_value text of
     None \<Rightarrow> Inl (Failure ''invalid input syntax for type numeric'')
   | Some q \<Rightarrow> let u = round_away (q * 10 ^ 12) in
       if \<bar>u\<bar> < 10 ^ digits then Inr u else Inl (Failure ''numeric field overflow''))"

definition numeric_text :: "int \<Rightarrow> string" where
  "numeric_text u = render_units 12 u"

definition unique_violation :: js_error where
  "unique_violation = Failure ''duplicate key value violates unique constraint''"

definition insert_approval :: "approval_row \<Rightarrow> ledger \<Rightarrow> ledger res" where
  "insert_approval row db =
     (if \<exists>r\<in>set (lg_approvals db). ap_key r = ap_key row
        \<or> (ap_resource_type r = ap_resource_type row \<and> ap_resource r = ap_resource row
           \<and> ap_action r = ap_action row \<and> ap_actor r = ap_actor row)
      then Inl unique_violation else Inr (db\<lparr>lg_approvals := lg_approvals db @ [row]\<rparr>))"

definition insert_journal :: "journal_row \<Rightarrow> ledger \<Rightarrow> ledger res" where
  "insert_journal row db =
     (if \<exists>r\<in>set (lg_journals db). jr_id r = jr_id row
        \<or> (jr_source_key row \<noteq> None \<and> jr_source_key r = jr_source_key row)
        \<or> (jr_reversal_of row \<noteq> None \<and> jr_reversal_of r = jr_reversal_of row)
      then Inl unique_violation else Inr (db\<lparr>lg_journals := lg_journals db @ [row]\<rparr>))"

definition update_journal :: "string \<Rightarrow> (journal_row \<Rightarrow> journal_row) \<Rightarrow> ledger \<Rightarrow> ledger" where
  "update_journal i f db = db\<lparr>lg_journals := map (\<lambda>r. if jr_id r = i then f r else r) (lg_journals db)\<rparr>"

definition emit_outbox :: "string \<Rightarrow> string \<Rightarrow> string \<Rightarrow> ledger \<Rightarrow> ledger" where
  "emit_outbox event aggregate type db =
     db\<lparr>lg_outbox := lg_outbox db @ [\<lparr>ob_id = event, ob_aggregate = aggregate, ob_type = type\<rparr>]\<rparr>"

definition stored_line_of :: "string option \<Rightarrow> journal_line \<Rightarrow> string option \<Rightarrow> stored_line res" where
  "stored_line_of entity line participant =
     and_then (numeric_of 30 (jl_debit line)) (\<lambda>d. and_then (numeric_of 30 (jl_credit line)) (\<lambda>c.
       Inr \<lparr>sl_account = jl_account line, sl_currency = jl_currency line, sl_debit = d, sl_credit = c,
         sl_participant = participant, sl_entity = entity\<rparr>))"

section \<open>Events (\<open>postgres-accounting-event.repository.ts\<close>)\<close>

definition emit_atomically ::
  "string \<times> string \<times> string \<Rightarrow> emit_command \<Rightarrow> string \<Rightarrow> ledger \<Rightarrow> (ledger \<times> string \<times> ack_state) res" where
  "emit_atomically uuids command key db =
     (case find (\<lambda>r. jr_source_key r = Some key) (lg_journals db) of
        Some r \<Rightarrow> Inr (db, jr_id r, Pending)
      | None \<Rightarrow> (case uuids of (journal, correlation, event) \<Rightarrow>
          and_then (traverse (\<lambda>l. stored_line_of (Some (em_entity command)) l None) (em_lines command)) (\<lambda>lines.
          and_then (insert_journal \<lparr>jr_id = journal, jr_run = Some (sk_run command),
              jr_business_date = em_business_date command, jr_kind = Business_Event, jr_status = Draft_Entry,
              jr_reversal_of = None, jr_correlation = correlation, jr_created_by = em_actor command,
              jr_source_key = Some key, jr_ack = Pending, jr_lines = lines\<rparr> db) (\<lambda>db.
          let db = update_journal journal (\<lambda>r. r\<lparr>jr_status := Posted_Entry\<rparr>) db;
              db = emit_outbox event journal ''AccountingEntryEmitted.v1'' db in
          Inr (db, journal, Pending)))))"

definition acknowledge_atomically ::
  "string \<Rightarrow> acknowledge_command \<Rightarrow> (ack_state \<Rightarrow> ack_state \<Rightarrow> ack_state res) \<Rightarrow> ledger
     \<Rightarrow> (ledger \<times> ack_state) res" where
  "acknowledge_atomically event command decide db =
     (case find (\<lambda>a. ar_key a = ak_key command) (lg_acks db) of
        Some a \<Rightarrow>
          if ar_journal a \<noteq> ak_journal command \<or> ar_reference a \<noteq> ak_reference command
            \<or> ar_reason a \<noteq> ak_reason command \<or> ar_actor a \<noteq> ak_actor command
          then Inl (Failure ''Idempotency-Key was already used for a different acknowledgement'')
          else Inr (db, ar_resulting a)
      | None \<Rightarrow> (case find (\<lambda>r. jr_id r = ak_journal command) (lg_journals db) of
          None \<Rightarrow> Inl (Failure ''Journal entry not found'')
        | Some r \<Rightarrow> and_then (decide (jr_ack r) (ak_action command)) (\<lambda>new_state.
            let db = db\<lparr>lg_acks := lg_acks db @ [\<lparr>ar_journal = ak_journal command, ar_previous = jr_ack r,
                  ar_resulting = new_state, ar_reference = ak_reference command, ar_reason = ak_reason command,
                  ar_actor = ak_actor command, ar_key = ak_key command\<rparr>]\<rparr>;
                db = update_journal (ak_journal command) (\<lambda>r. r\<lparr>jr_ack := new_state\<rparr>) db;
                db = emit_outbox event (ak_journal command) ''AccountingAcknowledgementRecorded.v1'' db in
            Inr (db, new_state))))"

section \<open>Posting (\<open>postgres-accounting-posting.repository.ts\<close>)\<close>

definition effective_currency :: "string \<Rightarrow> string \<Rightarrow> currency_row \<Rightarrow> bool" where
  "effective_currency currency date c \<longleftrightarrow> cu_code c = currency \<and> str_le (cu_from c) date
     \<and> (case cu_until c of None \<Rightarrow> True | Some u \<Rightarrow> str_less date u)"

definition run_snapshot :: "run_row \<Rightarrow> currency_row \<Rightarrow> ledger \<Rightarrow> calculation_snapshot" where
  "run_snapshot r c db = \<lparr>cs_distributable = numeric_text (rn_distributable r), cs_currency = rn_currency r,
     cs_scale = of_js (int (cu_digits c)),
     cs_allocations = map (\<lambda>a. \<lparr>pa_participant = al_participant a, pa_amount = numeric_text (al_amount a),
         pa_currency = al_currency a\<rparr>)
       (sort_by (\<lambda>a b. if str_less (al_participant a) (al_participant b) then - 1
           else if al_participant a = al_participant b then 0 else 1)
         (filter (\<lambda>a. al_run a = rn_id r) (lg_allocations db)))\<rparr>"

definition investment_participant :: "string \<Rightarrow> string option" where
  "investment_participant account =
     (if take 11 account = ''INVESTMENT:'' then Some (drop 11 account) else None)"

definition record_posting ::
  "string \<times> string \<Rightarrow> posting_command \<Rightarrow> run_row \<Rightarrow> journal_line list \<Rightarrow> ledger \<Rightarrow> (ledger \<times> string) res" where
  "record_posting uuids command r lines db = (case uuids of (journal, event) \<Rightarrow>
     and_then (traverse (\<lambda>l. stored_line_of None l (investment_participant (jl_account l))) lines) (\<lambda>stored.
     and_then (insert_journal \<lparr>jr_id = journal, jr_run = Some (pc_run command),
         jr_business_date = rn_business_date r, jr_kind = Profit_Allocation, jr_status = Draft_Entry,
         jr_reversal_of = None, jr_correlation = rn_correlation r, jr_created_by = pc_actor command,
         jr_source_key = None, jr_ack = Pending, jr_lines = stored\<rparr> db) (\<lambda>db.
     let db = update_journal journal (\<lambda>j. j\<lparr>jr_status := Posted_Entry\<rparr>) db;
         row_count = length (filter (\<lambda>x. rn_id x = pc_run command \<and> rn_status x = Run_Approved) (lg_runs db));
         db = db\<lparr>lg_runs := map (\<lambda>x. if rn_id x = pc_run command \<and> rn_status x = Run_Approved
             then x\<lparr>rn_status := Run_Posted\<rparr> else x) (lg_runs db)\<rparr> in
     if row_count \<noteq> 1 then Inl (Failure ''Calculation run was concurrently modified'') else
     and_then (insert_approval \<lparr>ap_key = pc_key command, ap_resource_type = ''CalculationRun'',
         ap_resource = pc_run command, ap_action = ''POST_CALCULATION'', ap_actor = pc_actor command,
         ap_justification = pc_justification command, ap_result = ''POSTED''\<rparr> db) (\<lambda>db.
     Inr (emit_outbox event journal ''CalculationPosted.v1'' db, journal)))))"

definition post_atomically ::
  "string \<times> string \<Rightarrow> posting_command \<Rightarrow> (calculation_snapshot \<Rightarrow> journal_line list res) \<Rightarrow> ledger
     \<Rightarrow> (ledger \<times> string) res" where
  "post_atomically uuids command build_lines db =
     (case find (\<lambda>a. ap_key a = pc_key command \<and> ap_action a = ''POST_CALCULATION'') (lg_approvals db) of
        Some a \<Rightarrow>
          if ap_resource a \<noteq> pc_run command \<or> ap_actor a \<noteq> pc_actor command
            \<or> ap_justification a \<noteq> pc_justification command
          then Inl (Failure ''Idempotency key was already used for a different posting'')
          else (case find (\<lambda>r. jr_run r = Some (pc_run command)) (lg_journals db) of
              None \<Rightarrow> Inl (Failure ''Posted calculation has no journal entry'')
            | Some j \<Rightarrow> Inr (db, jr_id j))
      | None \<Rightarrow> (case find (\<lambda>(r, c). rn_id r = pc_run command \<and> effective_currency (rn_currency r) (rn_business_date r) c)
            (List.product (lg_runs db) (lg_currencies db)) of
          None \<Rightarrow> Inl (Failure ''Calculation run not found'')
        | Some (r, c) \<Rightarrow>
            if rn_status r \<noteq> Run_Approved
            then Inl (Failure (''Calculation cannot be posted from '' @ run_status_name (rn_status r)))
            else if rn_maker r = Some (pc_actor command)
            then Inl (Failure ''Maker cannot post their own calculation'')
            else and_then (build_lines (run_snapshot r c db)) (\<lambda>lines. record_posting uuids command r lines db)))"

section \<open>Reversal (\<open>postgres-accounting-reversal.repository.ts\<close>)\<close>

definition line_text :: "stored_line \<Rightarrow> journal_line" where
  "line_text l = \<lparr>jl_account = sl_account l, jl_currency = sl_currency l, jl_debit = numeric_text (sl_debit l),
     jl_credit = numeric_text (sl_credit l), jl_participant = sl_participant l\<rparr>"

text \<open>The lateral join: the digits of the first line's currency on the entry's date, latest version first.\<close>

definition journal_scale :: "journal_row \<Rightarrow> ledger \<Rightarrow> nat option" where
  "journal_scale j db = (case jr_lines j of [] \<Rightarrow> None | l # _ \<Rightarrow>
     (case sort_by (\<lambda>a b. if str_less (cu_from b) (cu_from a) then - 1 else if cu_from a = cu_from b then 0 else 1)
         (filter (effective_currency (sl_currency l) (jr_business_date j)) (lg_currencies db)) of
        [] \<Rightarrow> None | c # _ \<Rightarrow> Some (cu_digits c)))"

definition record_reversal ::
  "string \<times> string \<Rightarrow> reversal_command \<Rightarrow> journal_row \<Rightarrow> journal_line list \<Rightarrow> ledger \<Rightarrow> (ledger \<times> string) res" where
  "record_reversal uuids command j lines db = (case uuids of (reversal, event) \<Rightarrow>
     and_then (traverse (\<lambda>l. stored_line_of None l (jl_participant l)) lines) (\<lambda>stored.
     and_then (insert_journal \<lparr>jr_id = reversal, jr_run = None,
         jr_business_date = rc_business_date command, jr_kind = Reversal_Entry, jr_status = Draft_Entry,
         jr_reversal_of = Some (rc_journal command), jr_correlation = jr_correlation j,
         jr_created_by = rc_actor command, jr_source_key = None, jr_ack = Pending,
         jr_lines = stored\<rparr> db) (\<lambda>db.
     let db = update_journal reversal (\<lambda>j. j\<lparr>jr_status := Posted_Entry\<rparr>) db in
     and_then (insert_approval \<lparr>ap_key = rc_key command, ap_resource_type = ''JournalEntry'',
         ap_resource = rc_journal command, ap_action = ''REVERSE_JOURNAL'', ap_actor = rc_actor command,
         ap_justification = rc_justification command, ap_result = ''POSTED''\<rparr> db) (\<lambda>db.
     Inr (emit_outbox event reversal ''JournalEntryReversed.v1'' db, reversal)))))"

definition reverse_atomically ::
  "string \<times> string \<Rightarrow> reversal_command \<Rightarrow> (journal_snapshot \<Rightarrow> journal_line list res) \<Rightarrow> ledger
     \<Rightarrow> (ledger \<times> string) res" where
  "reverse_atomically uuids command build_lines db =
     (case find (\<lambda>a. ap_key a = rc_key command \<and> ap_action a = ''REVERSE_JOURNAL'') (lg_approvals db) of
        Some a \<Rightarrow>
          if ap_resource a \<noteq> rc_journal command \<or> ap_actor a \<noteq> rc_actor command
            \<or> ap_justification a \<noteq> rc_justification command
          then Inl (Failure ''Idempotency key was already used for a different reversal'')
          else (case find (\<lambda>r. jr_reversal_of r = Some (rc_journal command)) (lg_journals db) of
              None \<Rightarrow> Inl (Failure ''Reversal replay does not match the requested business date'')
            | Some j \<Rightarrow> if jr_business_date j \<noteq> rc_business_date command
                then Inl (Failure ''Reversal replay does not match the requested business date'')
                else Inr (db, jr_id j))
      | None \<Rightarrow> (case find (\<lambda>j. jr_id j = rc_journal command \<and> journal_scale j db \<noteq> None) (lg_journals db) of
          None \<Rightarrow> Inl (Failure ''Journal entry not found'')
        | Some j \<Rightarrow>
            if jr_status j \<noteq> Posted_Entry then Inl (Failure ''Only a posted journal entry can be reversed'')
            else if jr_kind j = Reversal_Entry then Inl (Failure ''A reversal cannot itself be reversed'')
            else if jr_created_by j = rc_actor command
            then Inl (Failure ''Journal creator cannot reverse their own entry'')
            else and_then (build_lines \<lparr>js_scale = of_js (int (case journal_scale j db of None \<Rightarrow> 0 | Some k \<Rightarrow> k)),
                js_lines = map line_text (jr_lines j)\<rparr>) (\<lambda>lines. record_reversal uuids command j lines db)))"

section \<open>What the database can post and reverse\<close>

text \<open>A numeric(30,12) text has 12 decimals and is refused at any smaller scale.\<close>

lemma numeric_text_unreadable:
  assumes "k < 12"
  shows "\<not> ok (money_parse (numeric_text u) currency (of_js (int k)))"
proof -
  let ?d = "padded_digits 12 (nat \<bar>u\<bar>)"
  have "unsigned_decimal (render_nat 12 (nat \<bar>u\<bar>)) = Some (drop_last 12 ?d, Some (last_chars 12 ?d))"
    by (simp add: unsigned_decimal_render_nat)
  then obtain neg where s: "signed_decimal (numeric_text u) = Some (neg, drop_last 12 ?d, Some (last_chars 12 ?d))"
    by (cases "u < 0") (auto simp: numeric_text_def render_units_def signed_decimal_minus signed_decimal_unsigned Let_def)
  have "length (last_chars 12 ?d) = 12"
    using padded_digits_length [of 12 "nat \<bar>u\<bar>"] by (simp add: length_last_chars)
  with s assms have "\<not> ok (read_units True k e1 e2 (numeric_text u))" for e1 e2 by (simp add: read_units_def)
  then show ?thesis using assms by (auto simp: money_parse_eq outcome ok_iff)
qed

text \<open>
  C19. An approved calculation cannot be posted: the amounts the repository reads back from the
  \<open>numeric(30,12)\<close> columns have 12 decimals, currencies have at most 6 (the check of
  \<open>reference.currency_version\<close>), and \<open>Money.parse\<close> refuses them; so on a database without an
  earlier posting \<open>postAtomically\<close> always throws, whatever the run.
\<close>

theorem posting_never_succeeds:
  assumes "\<forall>a\<in>set (lg_approvals db). ap_action a \<noteq> ''POST_CALCULATION''"
    and "\<forall>c\<in>set (lg_currencies db). cu_digits c \<le> 6"
  shows "\<not> ok (execute_post_calculation (\<lambda>c build. post_atomically uuids c build db) command)"
proof -
  have "\<not> ok (post_atomically uuids c snapshot_lines db)" for c
  proof
    assume "ok (post_atomically uuids c snapshot_lines db)"
    moreover have "find (\<lambda>a. ap_key a = pc_key c \<and> ap_action a = ''POST_CALCULATION'') (lg_approvals db) = None"
      using assms(1) by (auto simp: find_None_iff)
    ultimately obtain r cu where
      f: "find (\<lambda>(r, cu). rn_id r = pc_run c \<and> effective_currency (rn_currency r) (rn_business_date r) cu)
          (List.product (lg_runs db) (lg_currencies db)) = Some (r, cu)"
      and ok: "ok (snapshot_lines (run_snapshot r cu db))"
      by (auto simp: post_atomically_def ok_iff and_then_Inr split: option.splits prod.splits if_splits)
    from f have "cu \<in> set (lg_currencies db)" by (auto dest!: find_SomeD)
    with assms(2) have "cu_digits cu < 12" by fastforce
    from numeric_text_unreadable [OF this, of "rn_distributable r" "rn_currency r"] obtain e where
      "money_parse (numeric_text (rn_distributable r)) (rn_currency r) (of_js (int (cu_digits cu))) = Inl e"
      unfolding not_ok_iff by blast
    with ok show False by (simp add: snapshot_lines_def run_snapshot_def allocation_journal_lines_def)
  qed
  then show ?thesis by (simp add: execute_post_calculation_def)
qed

lemma journal_scale_Some:
  assumes "journal_scale j db = Some k"
  shows "\<exists>l ls cu. jr_lines j = l # ls \<and> cu \<in> set (lg_currencies db) \<and> k = cu_digits cu"
proof -
  from assms obtain l ls where j: "jr_lines j = l # ls" by (auto simp: journal_scale_def split: list.splits)
  let ?xs = "filter (effective_currency (sl_currency l) (jr_business_date j)) (lg_currencies db)"
  from assms j obtain cmp c cs where "sort_by cmp ?xs = c # cs" "k = cu_digits c"
    by (auto simp: journal_scale_def split: list.splits)
  then have "c \<in> set ?xs" by (metis list.set_intros(1) set_sort_by)
  with j \<open>k = cu_digits c\<close> show ?thesis by auto
qed

text \<open>
  A posted journal cannot be reversed, for the same reason: on a database without an earlier
  reversal \<open>reverseAtomically\<close> always throws.
\<close>

theorem reversal_never_succeeds:
  assumes "\<forall>a\<in>set (lg_approvals db). ap_action a \<noteq> ''REVERSE_JOURNAL''"
    and "\<forall>c\<in>set (lg_currencies db). cu_digits c \<le> 6"
  shows "\<not> ok (execute_reverse_journal (\<lambda>c build. reverse_atomically uuids c build db) command)"
proof -
  let ?build = "\<lambda>s. reverse_journal_lines (js_lines s) (js_scale s)"
  have "\<not> ok (reverse_atomically uuids c ?build db)" for c
  proof
    assume "ok (reverse_atomically uuids c ?build db)"
    moreover have "find (\<lambda>a. ap_key a = rc_key c \<and> ap_action a = ''REVERSE_JOURNAL'') (lg_approvals db) = None"
      using assms(1) by (auto simp: find_None_iff)
    ultimately obtain j where f: "find (\<lambda>j. jr_id j = rc_journal c \<and> journal_scale j db \<noteq> None) (lg_journals db) = Some j"
      and ok: "ok (?build \<lparr>js_scale = of_js (int (case journal_scale j db of None \<Rightarrow> 0 | Some k \<Rightarrow> k)),
        js_lines = map line_text (jr_lines j)\<rparr>)"
      by (fastforce simp: reverse_atomically_def ok_iff and_then_Inr split: option.splits prod.splits if_splits)
    from f obtain k where k: "journal_scale j db = Some k" by (auto dest: find_SomeD)
    from journal_scale_Some [OF this] obtain l ls cu where
      j: "jr_lines j = l # ls" and "cu \<in> set (lg_currencies db)" "k = cu_digits cu" by blast
    with assms(2) have "k < 12" by fastforce
    from ok k j have "balanced (of_js (int k)) (line_text l # map line_text ls)"
      by (auto simp: reverse_journal_lines_eq split: if_splits)
    then have "ok (money_parse (numeric_text (sl_debit l)) (sl_currency l) (of_js (int k)))"
      by (simp add: balanced_def one_sided_def line_text_def)
    with numeric_text_unreadable [OF \<open>k < 12\<close>] show False by blast
  qed
  then show ?thesis by (simp add: execute_reverse_journal_def)
qed

section \<open>Acknowledgement histories\<close>

text \<open>The acknowledgements of an entry, and what makes them a history from one state to another.\<close>

definition history :: "ledger \<Rightarrow> string \<Rightarrow> ack_row list" where
  "history db i = filter (\<lambda>a. ar_journal a = i) (lg_acks db)"

fun ack_chain :: "ack_state \<Rightarrow> ack_row list \<Rightarrow> ack_state \<Rightarrow> bool" where
  "ack_chain s [] t \<longleftrightarrow> s = t"
| "ack_chain s (a # as) t \<longleftrightarrow> ar_previous a = s \<and> ar_resulting a \<in> set (ack_allowed s) \<and> ack_chain (ar_resulting a) as t"

lemma ack_chain_snoc:
  "ack_chain s (as @ [a]) t \<longleftrightarrow> ack_chain s as (ar_previous a) \<and> ar_resulting a \<in> set (ack_allowed (ar_previous a))
     \<and> ar_resulting a = t"
  by (induction as arbitrary: s) auto

definition ack_inv :: "ledger \<Rightarrow> bool" where
  "ack_inv db \<longleftrightarrow> distinct (map jr_id (lg_journals db)) \<and> distinct (map ar_key (lg_acks db))
     \<and> ar_journal ` set (lg_acks db) \<subseteq> jr_id ` set (lg_journals db)
     \<and> (\<forall>j\<in>set (lg_journals db). ack_chain Pending (history db (jr_id j)) (jr_ack j))"

text \<open>The states the repositories can bring about, with any commands.\<close>

inductive ledger_step :: "ledger \<Rightarrow> ledger \<Rightarrow> bool" where
  emit: "assert_balanced_journal (em_lines c) (em_scale c) = Inr () \<Longrightarrow>
    emit_atomically uuids c key db = Inr (db', r) \<Longrightarrow> ledger_step db db'"
| acknowledge: "acknowledge_atomically event c next_acknowledgement_state db = Inr (db', s) \<Longrightarrow> ledger_step db db'"
| post: "post_atomically ids c snapshot_lines db = Inr (db', j) \<Longrightarrow> ledger_step db db'"
| reversal: "reverse_atomically ids c (\<lambda>s. reverse_journal_lines (js_lines s) (js_scale s)) db = Inr (db', j)
    \<Longrightarrow> ledger_step db db'"

inductive_cases ledger_stepE: "ledger_step db db'"

inductive ledger_reachable :: "ledger \<Rightarrow> bool" where
  start: "lg_journals db = [] \<Longrightarrow> lg_acks db = [] \<Longrightarrow> ledger_reachable db"
| step: "ledger_reachable db \<Longrightarrow> ledger_step db db' \<Longrightarrow> ledger_reachable db'"

text \<open>What a step does to the two tables: nothing, a new posted entry, or an acknowledgement.\<close>

definition adds_entry :: "ledger \<Rightarrow> journal_row \<Rightarrow> ledger \<Rightarrow> bool" where
  "adds_entry db j db' \<longleftrightarrow> jr_id j \<notin> jr_id ` set (lg_journals db) \<and> jr_ack j = Pending \<and> jr_status j = Posted_Entry
     \<and> lg_journals db' = lg_journals db @ [j] \<and> lg_acks db' = lg_acks db"

definition acknowledges :: "ledger \<Rightarrow> ack_row \<Rightarrow> ledger \<Rightarrow> bool" where
  "acknowledges db a db' \<longleftrightarrow> ar_key a \<notin> ar_key ` set (lg_acks db)
     \<and> (\<exists>j\<in>set (lg_journals db). jr_id j = ar_journal a \<and> jr_ack j = ar_previous a)
     \<and> ar_resulting a \<in> set (ack_allowed (ar_previous a)) \<and> lg_acks db' = lg_acks db @ [a]
     \<and> lg_journals db' = map (\<lambda>r. if jr_id r = ar_journal a then r\<lparr>jr_ack := ar_resulting a\<rparr> else r) (lg_journals db)"

lemma insert_journal_Inr:
  "insert_journal j db = Inr db' \<Longrightarrow> jr_id j \<notin> jr_id ` set (lg_journals db) \<and> db' = db\<lparr>lg_journals := lg_journals db @ [j]\<rparr>"
  by (auto simp: insert_journal_def split: if_splits)

lemma insert_approval_Inr:
  "insert_approval a db = Inr db' \<Longrightarrow> db' = db\<lparr>lg_approvals := lg_approvals db @ [a]\<rparr>"
  by (auto simp: insert_approval_def split: if_splits)

lemma ledger_fields [simp]:
  "lg_journals (update_journal i f db) = map (\<lambda>r. if jr_id r = i then f r else r) (lg_journals db)"
  "lg_acks (update_journal i f db) = lg_acks db"
  "lg_journals (emit_outbox e a t db) = lg_journals db" "lg_acks (emit_outbox e a t db) = lg_acks db"
  "lg_runs (emit_outbox e a t db) = lg_runs db" "lg_runs (update_journal i f db) = lg_runs db"
  by (simp_all add: update_journal_def emit_outbox_def)

lemma post_new_entry:
  assumes "jr_id j \<notin> jr_id ` set js"
  shows "map (\<lambda>r. if jr_id r = jr_id j then r\<lparr>jr_status := Posted_Entry\<rparr> else r) (js @ [j])
    = js @ [j\<lparr>jr_status := Posted_Entry\<rparr>]"
proof -
  have "map (\<lambda>r. if jr_id r = jr_id j then r\<lparr>jr_status := Posted_Entry\<rparr> else r) js = js"
  proof (intro map_idI)
    fix x assume "x \<in> set js"
    with assms have "jr_id x \<noteq> jr_id j" by (metis imageI)
    then show "(if jr_id x = jr_id j then x\<lparr>jr_status := Posted_Entry\<rparr> else x) = x" by simp
  qed
  then show ?thesis by simp
qed

lemma insert_and_post:
  assumes "insert_journal j db = Inr db1" "jr_ack j = Pending"
    "lg_journals db' = lg_journals (update_journal (jr_id j) (\<lambda>r. r\<lparr>jr_status := Posted_Entry\<rparr>) db1)"
    "lg_acks db' = lg_acks db1"
  shows "adds_entry db (j\<lparr>jr_status := Posted_Entry\<rparr>) db'"
  using insert_journal_Inr [OF assms(1)] assms(2-4) post_new_entry [of j "lg_journals db"]
  by (simp add: adds_entry_def)

text \<open>The lines of an entry written by one of the repositories.\<close>

definition written_from :: "journal_line list \<Rightarrow> jsnum \<Rightarrow> stored_line list \<Rightarrow> bool" where
  "written_from lines scale stored \<longleftrightarrow> balanced scale lines
     \<and> list_all2 (\<lambda>l s. \<exists>entity participant. stored_line_of entity l participant = Inr s) lines stored"

lemma allocation_journal_lines_balanced:
  "allocation_journal_lines as d c k = Inr lines \<Longrightarrow> balanced k lines"
  by (auto simp: allocation_journal_lines_def and_then_Inr Let_def assert_balanced_journal_iff)

lemma reverse_journal_lines_balanced: "reverse_journal_lines ls k = Inr lines \<Longrightarrow> balanced k lines"
  by (auto simp: reverse_journal_lines_eq split: if_splits)

lemma written_from_traverse:
  assumes "balanced scale lines" "traverse (\<lambda>l. stored_line_of entity l (f l)) lines = Inr stored"
  shows "written_from lines scale stored"
  using assms by (auto simp: written_from_def traverse_Inr_iff elim!: list.rel_mono_strong)

text \<open>Every step leaves the two tables alone, adds a new balanced entry, or records an acknowledgement.\<close>

lemma emit_step:
  assumes "emit_atomically uuids c key db = Inr (db', r)" "assert_balanced_journal (em_lines c) (em_scale c) = Inr ()"
  shows "db' = db \<or> (\<exists>j lines scale. adds_entry db j db' \<and> written_from lines scale (jr_lines j))"
proof (cases "find (\<lambda>r. jr_source_key r = Some key) (lg_journals db)")
  case (Some j)
  with assms show ?thesis by (simp add: emit_atomically_def)
next
  case None
  obtain journal correlation event where u: "uuids = (journal, correlation, event)" by (cases uuids)
  from assms(1) None u obtain lines j db1 where
    lines: "traverse (\<lambda>l. stored_line_of (Some (em_entity c)) l None) (em_lines c) = Inr lines"
    and j: "insert_journal j db = Inr db1" "jr_ack j = Pending" "jr_id j = journal" "jr_lines j = lines"
    and db': "db' = emit_outbox event journal ''AccountingEntryEmitted.v1''
      (update_journal journal (\<lambda>r. r\<lparr>jr_status := Posted_Entry\<rparr>) db1)"
    by (auto simp: emit_atomically_def and_then_Inr Let_def)
  have "adds_entry db (j\<lparr>jr_status := Posted_Entry\<rparr>) db'"
    using j by (intro insert_and_post [OF j(1,2)]) (simp_all add: db')
  moreover have "written_from (em_lines c) (em_scale c) (jr_lines (j\<lparr>jr_status := Posted_Entry\<rparr>))"
    using assms(2) lines j(4) by (simp add: written_from_traverse assert_balanced_journal_iff)
  ultimately show ?thesis by blast
qed

lemma acknowledge_step:
  assumes "acknowledge_atomically event c next_acknowledgement_state db = Inr (db', s)"
  shows "db' = db \<or> (\<exists>a. acknowledges db a db')"
proof (cases "find (\<lambda>a. ar_key a = ak_key c) (lg_acks db)")
  case (Some a)
  with assms show ?thesis by (auto simp: acknowledge_atomically_def split: if_splits)
next
  case None
  with assms obtain r where r: "find (\<lambda>r. jr_id r = ak_journal c) (lg_journals db) = Some r"
    and allowed: "ak_action c \<in> set (ack_allowed (jr_ack r))"
    and db': "db' = emit_outbox event (ak_journal c) ''AccountingAcknowledgementRecorded.v1''
      (update_journal (ak_journal c) (\<lambda>r. r\<lparr>jr_ack := ak_action c\<rparr>) (db\<lparr>lg_acks := lg_acks db @ [
        \<lparr>ar_journal = ak_journal c, ar_previous = jr_ack r, ar_resulting = ak_action c, ar_reference = ak_reference c,
          ar_reason = ak_reason c, ar_actor = ak_actor c, ar_key = ak_key c\<rparr>]\<rparr>))"
    by (auto simp: acknowledge_atomically_def and_then_Inr next_acknowledgement_state_Inr Let_def split: option.splits)
  have "ak_key c \<notin> ar_key ` set (lg_acks db)" using None by (auto simp: find_None_iff)
  with find_SomeD [OF r] allowed have "acknowledges db \<lparr>ar_journal = ak_journal c, ar_previous = jr_ack r,
      ar_resulting = ak_action c, ar_reference = ak_reference c, ar_reason = ak_reason c, ar_actor = ak_actor c,
      ar_key = ak_key c\<rparr> db'"
    by (auto simp: acknowledges_def db')
  then show ?thesis by blast
qed

lemma record_posting_step:
  assumes "record_posting uuids c r lines db = Inr (db', i)" "balanced scale lines"
  shows "\<exists>j. adds_entry db j db' \<and> written_from lines scale (jr_lines j)"
proof -
  obtain journal event where u: "uuids = (journal, event)" by (cases uuids)
  from assms(1) u obtain stored j db1 where
    stored: "traverse (\<lambda>l. stored_line_of None l (investment_participant (jl_account l))) lines = Inr stored"
    and j: "insert_journal j db = Inr db1" "jr_ack j = Pending" "jr_lines j = stored"
    and db': "lg_journals db' = lg_journals (update_journal (jr_id j) (\<lambda>r. r\<lparr>jr_status := Posted_Entry\<rparr>) db1)"
      "lg_acks db' = lg_acks db1"
    unfolding record_posting_def by (fastforce simp: and_then_Inr Let_def dest!: insert_approval_Inr split: if_splits)
  from insert_and_post [OF j(1,2) db'] stored assms(2) j(3) show ?thesis
    by (intro exI [of _ "j\<lparr>jr_status := Posted_Entry\<rparr>"]) (simp add: written_from_traverse)
qed

lemma record_reversal_step:
  assumes "record_reversal uuids c r lines db = Inr (db', i)" "balanced scale lines"
  shows "\<exists>j. adds_entry db j db' \<and> written_from lines scale (jr_lines j)"
proof -
  obtain journal event where u: "uuids = (journal, event)" by (cases uuids)
  from assms(1) u obtain stored j db1 where
    stored: "traverse (\<lambda>l. stored_line_of None l (jl_participant l)) lines = Inr stored"
    and j: "insert_journal j db = Inr db1" "jr_ack j = Pending" "jr_lines j = stored"
    and db': "lg_journals db' = lg_journals (update_journal (jr_id j) (\<lambda>r. r\<lparr>jr_status := Posted_Entry\<rparr>) db1)"
      "lg_acks db' = lg_acks db1"
    unfolding record_reversal_def by (fastforce simp: and_then_Inr Let_def dest!: insert_approval_Inr)
  from insert_and_post [OF j(1,2) db'] stored assms(2) j(3) show ?thesis
    by (intro exI [of _ "j\<lparr>jr_status := Posted_Entry\<rparr>"]) (simp add: written_from_traverse)
qed

lemma post_step:
  assumes "post_atomically ids c snapshot_lines db = Inr (db', i)"
  shows "db' = db \<or> (\<exists>j lines scale. adds_entry db j db' \<and> written_from lines scale (jr_lines j))"
proof (cases "find (\<lambda>a. ap_key a = pc_key c \<and> ap_action a = ''POST_CALCULATION'') (lg_approvals db)")
  case (Some a)
  with assms show ?thesis by (auto simp: post_atomically_def split: if_splits option.splits)
next
  case None
  with assms obtain r lines scale where "balanced scale lines" "record_posting ids c r lines db = Inr (db', i)"
    by (auto simp: post_atomically_def and_then_Inr snapshot_lines_def dest!: allocation_journal_lines_balanced
        split: option.splits prod.splits if_splits)
  with record_posting_step show ?thesis by blast
qed

lemma reverse_step:
  assumes "reverse_atomically ids c (\<lambda>s. reverse_journal_lines (js_lines s) (js_scale s)) db = Inr (db', i)"
  shows "db' = db \<or> (\<exists>j lines scale. adds_entry db j db' \<and> written_from lines scale (jr_lines j))"
proof (cases "find (\<lambda>a. ap_key a = rc_key c \<and> ap_action a = ''REVERSE_JOURNAL'') (lg_approvals db)")
  case (Some a)
  with assms show ?thesis by (auto simp: reverse_atomically_def split: if_splits option.splits)
next
  case None
  with assms obtain r lines scale where "balanced scale lines" "record_reversal ids c r lines db = Inr (db', i)"
    by (auto simp: reverse_atomically_def and_then_Inr dest!: reverse_journal_lines_balanced
        split: option.splits if_splits)
  with record_reversal_step show ?thesis by blast
qed

lemma ledger_step_cases:
  assumes "ledger_step db db'"
  shows "db' = db \<or> (\<exists>j lines scale. adds_entry db j db' \<and> written_from lines scale (jr_lines j))
    \<or> (\<exists>a. acknowledges db a db')"
  using assms
proof cases
  case emit
  from emit_step [OF emit(2,1)] show ?thesis by blast
next
  case acknowledge
  from acknowledge_step [OF this] show ?thesis by blast
next
  case post
  from post_step [OF this] show ?thesis by blast
next
  case reversal
  from reverse_step [OF this] show ?thesis by blast
qed

lemma history_append: "history (db\<lparr>lg_acks := lg_acks db @ [a]\<rparr>) i = history db i @ (if ar_journal a = i then [a] else [])"
  by (simp add: history_def)

lemma history_cong: "lg_acks db' = lg_acks db \<Longrightarrow> history db' i = history db i"
  by (simp add: history_def)

lemma ack_inv_step:
  assumes "ledger_step db db'" "ack_inv db"
  shows "ack_inv db'"
proof -
  from ledger_step_cases [OF assms(1)] consider "db' = db"
    | j where "adds_entry db j db'" | a where "acknowledges db a db'" by blast
  then show ?thesis
  proof cases
    case 1
    with assms(2) show ?thesis by simp
  next
    case (2 j)
    then have acks: "lg_acks db' = lg_acks db" and new: "jr_id j \<notin> jr_id ` set (lg_journals db)"
      by (simp_all add: adds_entry_def)
    have "ar_journal ` set (lg_acks db) \<subseteq> jr_id ` set (lg_journals db)" using assms(2) by (simp add: ack_inv_def)
    with new have "\<forall>a\<in>set (lg_acks db). ar_journal a \<noteq> jr_id j" by (metis imageI subsetD)
    then have "history db' (jr_id j) = []" by (simp add: history_def acks filter_empty_conv)
    with 2 assms(2) show ?thesis by (auto simp: adds_entry_def ack_inv_def history_cong [of db' db])
  next
    case (3 a)
    then have h: "history db' i = history db i @ (if ar_journal a = i then [a] else [])" for i
      by (simp add: acknowledges_def history_def)
    have "ack_chain Pending (history db' (jr_id j')) (jr_ack j')" if "j' \<in> set (lg_journals db')" for j'
    proof -
      from that 3 obtain j where j: "j \<in> set (lg_journals db)" "jr_id j' = jr_id j"
        "jr_ack j' = (if jr_id j = ar_journal a then ar_resulting a else jr_ack j)"
        by (auto simp: acknowledges_def)
      have chain: "ack_chain Pending (history db (jr_id j)) (jr_ack j)" using assms(2) j(1) by (simp add: ack_inv_def)
      show ?thesis
      proof (cases "jr_id j = ar_journal a")
        case True
        from 3 obtain j0 where "j0 \<in> set (lg_journals db)" "jr_id j0 = ar_journal a" "jr_ack j0 = ar_previous a"
          by (auto simp: acknowledges_def)
        moreover have "j0 = j" if "j0 \<in> set (lg_journals db)" "jr_id j0 = jr_id j" for j0
          using assms(2) that j(1) by (auto simp: ack_inv_def distinct_map inj_on_def)
        ultimately have "jr_ack j = ar_previous a" using True by metis
        with chain True 3 j show ?thesis by (simp add: h ack_chain_snoc acknowledges_def)
      next
        case False
        with chain j show ?thesis by (simp add: h)
      qed
    qed
    note chains = this
    have ids: "map jr_id (lg_journals db') = map jr_id (lg_journals db)"
      using 3 by (simp add: acknowledges_def o_def if_distrib cong: if_cong)
    then have set_ids: "jr_id ` set (lg_journals db') = jr_id ` set (lg_journals db)" by (metis set_map)
    have acks: "lg_acks db' = lg_acks db @ [a]" "ar_key a \<notin> ar_key ` set (lg_acks db)"
      "ar_journal a \<in> jr_id ` set (lg_journals db)" using 3 by (force simp: acknowledges_def)+
    show ?thesis
      unfolding ack_inv_def ids set_ids using acks chains assms(2) by (simp add: ack_inv_def)
  qed
qed

lemma ack_chain_final:
  "ack_chain s as t \<Longrightarrow> t = Reversed \<Longrightarrow> s = Pending \<Longrightarrow> \<exists>a\<in>set as. ar_resulting a = Retried"
  "ack_chain s as t \<Longrightarrow> (\<exists>a\<in>set as. ar_resulting a \<in> {Acknowledged, Reversed}) \<Longrightarrow> ar_resulting (last as) = t \<and> t \<in> {Acknowledged, Reversed}"
proof -
  show "ack_chain s as t \<Longrightarrow> t = Reversed \<Longrightarrow> s = Pending \<Longrightarrow> \<exists>a\<in>set as. ar_resulting a = Retried"
  proof (induction as arbitrary: t rule: rev_induct)
    case (snoc a as)
    then have "ar_previous a = Retried" "ack_chain Pending as Retried"
      by (auto simp: ack_chain_snoc ack_allowed_cases)
    then have "as \<noteq> []" "ar_resulting (last as) = Retried"
      by (cases as rule: rev_cases; simp add: ack_chain_snoc)+
    then show ?case by (metis Un_iff last_in_set set_append)
  qed simp
  show "ack_chain s as t \<Longrightarrow> (\<exists>a\<in>set as. ar_resulting a \<in> {Acknowledged, Reversed}) \<Longrightarrow>
      ar_resulting (last as) = t \<and> t \<in> {Acknowledged, Reversed}"
  proof (induction s as t rule: ack_chain.induct)
    case (2 s a as t)
    show ?case
    proof (cases "ar_resulting a \<in> {Acknowledged, Reversed}")
      case True
      then have "as = []" using "2.prems"(1) by (cases as) (auto simp: ack_allowed_cases)
      with "2.prems" True show ?thesis by auto
    next
      case False
      with "2.prems" have "\<exists>a\<in>set as. ar_resulting a \<in> {Acknowledged, Reversed}" by auto
      with "2.IH" "2.prems"(1) show ?thesis by (cases as) auto
    qed
  qed simp
qed

text \<open>
  C14. Acknowledgements form a history: in every state the accounting repositories can reach, each
  idempotency key is used by one acknowledgement, every acknowledgement belongs to an entry, and
  the acknowledgements of an entry lead in permitted transitions from PENDING to its current
  state; hence an entry is acknowledged or reversed at most once and then for good, and reversed
  only after a retry.
\<close>

theorem acknowledgement_histories:
  assumes "ledger_reachable db"
  shows "distinct (map ar_key (lg_acks db)) \<and> ar_journal ` set (lg_acks db) \<subseteq> jr_id ` set (lg_journals db)
    \<and> (\<forall>j\<in>set (lg_journals db). ack_chain Pending (history db (jr_id j)) (jr_ack j)
        \<and> (jr_ack j = Reversed \<longrightarrow> (\<exists>a\<in>set (history db (jr_id j)). ar_resulting a = Retried))
        \<and> ((\<exists>a\<in>set (history db (jr_id j)). ar_resulting a \<in> {Acknowledged, Reversed}) \<longrightarrow>
             jr_ack j \<in> {Acknowledged, Reversed}))"
proof -
  from assms have "ack_inv db"
  proof induction
    case (start db)
    then show ?case by (simp add: ack_inv_def)
  next
    case (step db db')
    then show ?case using ack_inv_step by blast
  qed
  note inv = this [unfolded ack_inv_def]
  show ?thesis
  proof (intro conjI ballI)
    fix j assume "j \<in> set (lg_journals db)"
    then have chain: "ack_chain Pending (history db (jr_id j)) (jr_ack j)" using inv by blast
    then show "ack_chain Pending (history db (jr_id j)) (jr_ack j)" .
    show "jr_ack j = Reversed \<longrightarrow> (\<exists>a\<in>set (history db (jr_id j)). ar_resulting a = Retried)"
      using ack_chain_final(1) [OF chain] by simp
    show "(\<exists>a\<in>set (history db (jr_id j)). ar_resulting a \<in> {Acknowledged, Reversed}) \<longrightarrow>
        jr_ack j \<in> {Acknowledged, Reversed}"
      using ack_chain_final(2) [OF chain] by blast
  qed (use inv in simp_all)
qed

section \<open>Balance of the stored entries\<close>

text \<open>An entry is balanced in units of the columns, in every currency.\<close>

definition stored_balanced :: "stored_line list \<Rightarrow> bool" where
  "stored_balanced ls \<longleftrightarrow> 2 \<le> length ls \<and> (\<forall>c. sum_list (map sl_debit (filter (\<lambda>l. sl_currency l = c) ls))
     = sum_list (map sl_credit (filter (\<lambda>l. sl_currency l = c) ls)))"

lemma round_away_of_int: "round_away (of_int u) = u"
proof -
  have "\<lfloor>(of_int v :: rat) + 1 / 2\<rfloor> = v" for v by linarith
  from this [of u] this [of "- u"] show ?thesis by (simp add: round_away_def)
qed

lemma numeric_of_parse:
  assumes "numeric_of digits text = Inr n" "money_parse text currency (of_js (int k)) = Inr m" "k \<le> 12"
  shows "n = money_units m * 10 ^ (12 - k)"
proof -
  from money_parse_SomeD [OF assms(2)] have v: "decimal_value text = Some (of_int (money_units m) / 10 ^ k)"
    by (auto simp: money_value_def)
  have "(10 :: rat) ^ 12 = 10 ^ k * 10 ^ (12 - k)" using assms(3) by (simp flip: power_add)
  then have "of_int (money_units m) / 10 ^ k * (10 :: rat) ^ 12 = of_int (money_units m) / 10 ^ k * (10 ^ k * 10 ^ (12 - k))"
    by (simp only:)
  also have "\<dots> = of_int (money_units m * 10 ^ (12 - k))" by simp
  finally have "of_int (money_units m) / 10 ^ k * (10 :: rat) ^ 12 = of_int (money_units m * 10 ^ (12 - k))" .
  with assms(1) v show ?thesis
    by (simp only: numeric_of_def option.case Let_def round_away_of_int) (simp split: if_splits)
qed

lemma written_from_balanced:
  assumes "written_from lines scale stored"
  shows "stored_balanced stored"
proof -
  from assms have bal: "balanced scale lines"
    and rel: "list_all2 (\<lambda>l s. \<exists>entity participant. stored_line_of entity l participant = Inr s) lines stored"
    by (simp_all add: written_from_def)
  from bal obtain l0 ls where l0: "lines = l0 # ls" by (cases lines) (auto simp: balanced_def)
  with bal obtain m0 where m0: "money_parse (jl_debit l0) (jl_currency l0) scale = Inr m0"
    by (auto simp: balanced_def one_sided_def ok_iff)
  define k where "k = money_scale m0"
  from money_parse_SomeD [OF m0] have k: "scale = of_js (int k)" "k \<le> 12" by (simp_all add: k_def wf_money_def)
  define f :: int where "f = 10 ^ (12 - k)"
  have line: "sl_currency s = jl_currency l \<and> sl_debit s = debit_units scale l * f \<and> sl_credit s = credit_units scale l * f"
    if "one_sided scale l" "stored_line_of entity l participant = Inr s" for l s entity participant
  proof -
    from that(1) obtain d c where d: "money_parse (jl_debit l) (jl_currency l) scale = Inr d"
      and c: "money_parse (jl_credit l) (jl_currency l) scale = Inr c" by (auto simp: one_sided_def ok_iff)
    from that(2) obtain n m where n: "numeric_of 30 (jl_debit l) = Inr n" "numeric_of 30 (jl_credit l) = Inr m"
      and s: "sl_currency s = jl_currency l" "sl_debit s = n" "sl_credit s = m"
      by (auto simp: stored_line_of_def and_then_Inr)
    from numeric_of_parse [OF n(1) d [unfolded k(1)] k(2)] numeric_of_parse [OF n(2) c [unfolded k(1)] k(2)] d c
    show ?thesis by (simp add: s f_def debit_units_def credit_units_def side_units_parse)
  qed
  have rel': "list_all2 (\<lambda>l s. sl_currency s = jl_currency l \<and> sl_debit s = debit_units scale l * f
      \<and> sl_credit s = credit_units scale l * f) lines stored"
    by (rule list.rel_mono_strong [OF rel]) (use bal line in \<open>auto simp: balanced_def list_all_iff\<close>)
  have sums: "sum_list (map sl_debit (filter (\<lambda>l. sl_currency l = c) stored))
        = sum_list (map (debit_units scale) (in_currency c lines)) * f
      \<and> sum_list (map sl_credit (filter (\<lambda>l. sl_currency l = c) stored))
        = sum_list (map (credit_units scale) (in_currency c lines)) * f" for c
    using rel' by (induction rule: list_all2_induct) (auto simp: in_currency_def algebra_simps)
  have "sum_list (map (debit_units scale) (in_currency c lines)) = sum_list (map (credit_units scale) (in_currency c lines))" for c
  proof (cases "c \<in> jl_currency ` set lines")
    case False
    then have "in_currency c lines = []" by (auto simp: in_currency_def filter_empty_conv)
    then show ?thesis by simp
  qed (use bal in \<open>auto simp: balanced_def\<close>)
  with sums bal list_all2_lengthD [OF rel] show ?thesis by (simp add: stored_balanced_def balanced_def)
qed

text \<open>
  C13. The ledger always balances: in every state the accounting repositories can reach, every
  entry is posted, has at least two lines, and its stored debits and credits add up to the same
  amount in every currency; entry identifiers are unique, and a step never changes the lines of
  an existing entry.
\<close>

theorem ledger_balances:
  "(ledger_reachable db \<longrightarrow> distinct (map jr_id (lg_journals db))
     \<and> (\<forall>j\<in>set (lg_journals db). jr_status j = Posted_Entry \<and> stored_balanced (jr_lines j)))
   \<and> (ledger_step db db' \<longrightarrow> (\<forall>j\<in>set (lg_journals db). \<exists>j'\<in>set (lg_journals db'). jr_id j' = jr_id j
        \<and> jr_lines j' = jr_lines j \<and> jr_business_date j' = jr_business_date j \<and> jr_kind j' = jr_kind j))"
proof (intro conjI impI)
  assume "ledger_reachable db"
  then have "distinct (map jr_id (lg_journals db))
     \<and> (\<forall>j\<in>set (lg_journals db). jr_status j = Posted_Entry \<and> stored_balanced (jr_lines j))"
  proof induction
    case (step db db')
    from ledger_step_cases [OF step(2)] consider "db' = db"
      | j lines scale where "adds_entry db j db'" "written_from lines scale (jr_lines j)" | a where "acknowledges db a db'"
      by blast
    then show ?case
    proof cases
      case (2 j lines scale)
      with written_from_balanced [OF 2(2)] step.IH show ?thesis by (auto simp: adds_entry_def)
    next
      case (3 a)
      with step.IH show ?thesis
        by (auto simp: acknowledges_def o_def if_distrib cong: if_cong)
    qed (use step in simp)
  qed simp
  then show "distinct (map jr_id (lg_journals db))"
    "\<forall>j\<in>set (lg_journals db). jr_status j = Posted_Entry \<and> stored_balanced (jr_lines j)" by blast+
next
  assume step: "ledger_step db db'"
  show "\<forall>j\<in>set (lg_journals db). \<exists>j'\<in>set (lg_journals db'). jr_id j' = jr_id j
        \<and> jr_lines j' = jr_lines j \<and> jr_business_date j' = jr_business_date j \<and> jr_kind j' = jr_kind j"
  proof
    fix j assume j: "j \<in> set (lg_journals db)"
    from ledger_step_cases [OF step] consider "db' = db" | e where "adds_entry db e db'" | a where "acknowledges db a db'"
      by blast
    then show "\<exists>j'\<in>set (lg_journals db'). jr_id j' = jr_id j
        \<and> jr_lines j' = jr_lines j \<and> jr_business_date j' = jr_business_date j \<and> jr_kind j' = jr_kind j"
    proof cases
      case (3 a)
      let ?j = "if jr_id j = ar_journal a then j\<lparr>jr_ack := ar_resulting a\<rparr> else j"
      have "?j \<in> set (lg_journals db')" using 3 j by (auto simp: acknowledges_def)
      then show ?thesis by (rule rev_bexI) simp
    qed (use j in \<open>auto simp: adds_entry_def\<close>)
  qed
qed

section \<open>An example\<close>

definition example_line :: "string \<Rightarrow> string \<Rightarrow> string \<Rightarrow> journal_line" where
  "example_line account debit credit = \<lparr>jl_account = account, jl_currency = ''DZD'', jl_debit = debit,
     jl_credit = credit, jl_participant = None\<rparr>"

definition example_emit :: emit_command where
  "example_emit = \<lparr>sk_run = ''r'', sk_pool = ''p'', sk_product = ''q'', sk_event = Revenue_Event, sk_event_id = ''e'',
     em_entity = ''bank'', em_business_date = ''2024-01-31'', em_scale = Num 2,
     em_lines = [example_line ''CASH'' ''10.00'' ''0'', example_line ''REVENUE'' ''0'' ''10.00''],
     em_actor = ''maker'', em_key = ''k''\<rparr>"

definition example_acknowledge :: acknowledge_command where
  "example_acknowledge = \<lparr>ak_journal = ''j1'', ak_action = Acknowledged, ak_reference = ''CBS'', ak_reason = None,
     ak_actor = ''clerk'', ak_key = ''k1''\<rparr>"

definition empty_ledger :: ledger where
  "empty_ledger = \<lparr>lg_journals = [], lg_acks = [], lg_approvals = [], lg_runs = [], lg_allocations = [],
     lg_currencies = [\<lparr>cu_code = ''DZD'', cu_digits = 2, cu_from = ''2020-01-01'', cu_until = None\<rparr>], lg_outbox = []\<rparr>"

lemma example_parse:
  "money_parse ''10.00'' ''DZD'' (Num 2) = Inr \<lparr>money_currency = ''DZD'', money_units = 1000, money_scale = 2\<rparr>"
  "money_parse ''0'' ''DZD'' (Num 2) = Inr \<lparr>money_currency = ''DZD'', money_units = 0, money_scale = 2\<rparr>"
  by (simp_all add: money_parse_def is_currency_code_def run_of_def text_eval cong: eval_cong)

lemma example_balanced: "assert_balanced_journal (em_lines example_emit) (em_scale example_emit) = Inr ()"
proof -
  have "is_account_code ''CASH''" "is_account_code ''REVENUE''"
    by (simp_all add: is_account_code_def run_of_def account_char_def upper_digit_def char_class_defs)
  then show ?thesis
    by (simp add: assert_balanced_journal_iff balanced_def one_sided_def debit_units_def credit_units_def
        side_units_def in_currency_def example_emit_def example_line_def example_parse)
qed

lemma example_stored:
  "numeric_of 30 ''10.00'' = Inr 10000000000000" "numeric_of 30 ''0'' = Inr 0"
proof -
  have "decimal_value ''10.00'' = Some 10" "decimal_value ''0'' = Some 0" by (simp_all add: text_eval)
  then show "numeric_of 30 ''10.00'' = Inr 10000000000000" "numeric_of 30 ''0'' = Inr 0"
    using round_away_of_int [of 10000000000000] round_away_of_int [of 0] by (simp_all add: numeric_of_def Let_def)
qed

lemma example_reachable:
  "\<exists>db j. ledger_reachable db \<and> lg_journals db = [j] \<and> jr_ack j = Acknowledged
     \<and> map ar_resulting (lg_acks db) = [Acknowledged]"
proof -
  obtain db1 j where e: "emit_atomically (''j1'', ''c1'', ''e1'') example_emit ''key'' empty_ledger = Inr (db1, ''j1'', Pending)"
    and db1: "lg_journals db1 = [j]" "lg_acks db1 = []" "jr_id j = ''j1''" "jr_ack j = Pending"
    by (simp add: emit_atomically_def empty_ledger_def example_emit_def example_line_def stored_line_of_def
        example_stored insert_journal_def Let_def update_journal_def emit_outbox_def)
  obtain db2 j2 where a: "acknowledge_atomically ''e2'' example_acknowledge next_acknowledgement_state db1 = Inr (db2, Acknowledged)"
    and db2: "lg_journals db2 = [j2]" "jr_id j2 = ''j1''" "jr_ack j2 = Acknowledged" "map ar_resulting (lg_acks db2) = [Acknowledged]"
    using db1 by (simp add: acknowledge_atomically_def example_acknowledge_def next_acknowledgement_state_def
        ack_allowed_def Let_def)
  have "ledger_reachable empty_ledger" by (rule ledger_reachable.start) (simp_all add: empty_ledger_def)
  then have "ledger_reachable db1" by (rule ledger_reachable.step) (rule ledger_step.emit [OF example_balanced e])
  then have "ledger_reachable db2" by (rule ledger_reachable.step) (rule ledger_step.acknowledge [OF a])
  with db2 show ?thesis by - (rule exI [of _ db2], rule exI [of _ j2], simp)
qed

theorem acknowledgement_histories_witness:
  "\<exists>db. ledger_reachable db \<and> lg_acks db \<noteq> [] \<and> (\<forall>j\<in>set (lg_journals db). ack_chain Pending (history db (jr_id j)) (jr_ack j))"
proof -
  obtain db where db: "ledger_reachable db" "map ar_resulting (lg_acks db) = [Acknowledged]"
    using example_reachable by (elim exE conjE) (rule that)
  from acknowledgement_histories [OF db(1)] have "\<forall>j\<in>set (lg_journals db). ack_chain Pending (history db (jr_id j)) (jr_ack j)"
    by blast
  moreover have "lg_acks db \<noteq> []" using db(2) by auto
  ultimately show ?thesis using db(1) by blast
qed

theorem ledger_balances_witness:
  "\<exists>db j. ledger_reachable db \<and> lg_journals db = [j] \<and> stored_balanced (jr_lines j)"
proof -
  obtain db j where db: "ledger_reachable db" "lg_journals db = [j]" using example_reachable by (elim exE conjE) (rule that)
  from ledger_balances [of db db] db show ?thesis by auto
qed

definition approved_ledger :: ledger where
  "approved_ledger = empty_ledger\<lparr>lg_runs := [\<lparr>rn_id = ''11111111-1111-4111-8111-111111111111'', rn_status = Run_Approved, rn_maker = Some ''maker'',
     rn_business_date = ''2024-01-31'', rn_correlation = ''c'', rn_distributable = 10000000000000, rn_currency = ''DZD''\<rparr>],
     lg_allocations := [\<lparr>al_run = ''11111111-1111-4111-8111-111111111111'', al_participant = ''a'', al_amount = 10000000000000, al_currency = ''DZD''\<rparr>],
     lg_journals := [\<lparr>jr_id = ''22222222-2222-4222-8222-222222222222'', jr_run = None, jr_business_date = ''2024-01-31'',
       jr_kind = Business_Event, jr_status = Posted_Entry, jr_reversal_of = None, jr_correlation = ''c'',
       jr_created_by = ''maker'', jr_source_key = None, jr_ack = Pending, jr_lines =
         [\<lparr>sl_account = ''CASH'', sl_currency = ''DZD'', sl_debit = 10000000000000, sl_credit = 0, sl_participant = None, sl_entity = None\<rparr>,
          \<lparr>sl_account = ''REVENUE'', sl_currency = ''DZD'', sl_debit = 0, sl_credit = 10000000000000, sl_participant = None, sl_entity = None\<rparr>]\<rparr>]\<rparr>"

theorem posting_never_succeeds_witness:
  "\<not> ok (execute_post_calculation (\<lambda>c build. post_atomically (''j'', ''e'') c build approved_ledger)
      \<lparr>pc_run = ''11111111-1111-4111-8111-111111111111'', pc_actor = ''checker'', pc_justification = ''month end close'', pc_key = ''0123456789abcdef''\<rparr>)"
  by (rule posting_never_succeeds) (simp_all add: approved_ledger_def empty_ledger_def)

theorem reversal_never_succeeds_witness:
  "\<not> ok (execute_reverse_journal (\<lambda>c build. reverse_atomically (''j'', ''e'') c build approved_ledger)
      \<lparr>rc_journal = ''22222222-2222-4222-8222-222222222222'', rc_business_date = ''2024-02-01'', rc_actor = ''checker'', rc_justification = ''wrong period'',
       rc_key = ''0123456789abcdef''\<rparr>)"
  by (rule reversal_never_succeeds) (simp_all add: approved_ledger_def empty_ledger_def)

end
