(* ===== verification/Reconciliation_Store.thy ===== *)
theory Reconciliation_Store
  imports Accounting_Store
begin

text \<open>
  \<open>postgres-accounting-reconciliation.repository.ts\<close>: the sub-ledger total is read from the posted
  entries, compared with the general ledger, and stored once per date, currency and checksum of
  the source, with its discrepancy.  The tables extend those of the ledger; the columns of instants
  hold milliseconds, which the driver hands back as a \<open>Date\<close>.  How PostgreSQL reads a text as
  \<open>timestamptz\<close>, and whether it accepts the insertion into the outbox, whose parameters
  \<open>$3\<close> to \<open>$8\<close> have no type but that of the variadic \<open>jsonb_build_object\<close>, are parameters.
\<close>

section \<open>Tables\<close>

record reconciliation_row =
  rv_id :: string
  rv_date :: string
  rv_currency :: string
  rv_subledger :: int
  rv_ledger :: int
  rv_difference :: int
  rv_reference :: string
  rv_checksum :: string
  rv_state :: reconciliation_state
  rv_created_by :: string

record discrepancy_row =
  dw_id :: string
  dw_reconciliation :: string
  dw_amount :: int
  dw_currency :: string
  dw_severity :: severity
  dw_owner :: string
  dw_cause :: string
  dw_action :: string
  dw_detected_at :: int
  dw_due_at :: int

record reconciliation_db = ledger +
  rd_reconciliations :: "reconciliation_row list"
  rd_discrepancies :: "discrepancy_row list"

record reconciliation_outcome =
  ro_id :: string
  ro_state :: reconciliation_state
  ro_difference :: string
  ro_discrepancy :: "string option"

record postgres_lib =
  pg_timestamptz :: "string \<Rightarrow> int option"
  pg_infers_types :: bool

text \<open>
  The documented reading of what \<open>toISOString\<close> prints: the instant itself, unless the text is
  refused (years beyond four digits).
\<close>

definition timestamptz_laws :: "clock_lib \<Rightarrow> postgres_lib \<Rightarrow> bool" where
  "timestamptz_laws clock pg \<longleftrightarrow>
     (\<forall>t s u. to_iso_string clock t = Inr s \<longrightarrow> pg_timestamptz pg s = Some u \<longrightarrow> u = t)"

definition as_timestamptz :: "postgres_lib \<Rightarrow> string \<Rightarrow> int res" where
  "as_timestamptz pg s = (case pg_timestamptz pg s of
     None \<Rightarrow> Inl (Failure ''invalid input syntax for type timestamp with time zone'') | Some t \<Rightarrow> Inr t)"

section \<open>The repository\<close>

text \<open>
  The total of the credits less the debits of the investment accounts up to the business date; at
  most one version of a currency is effective on a day (an exclusion constraint of the schema).
\<close>

definition investment_lines :: "string \<Rightarrow> string \<Rightarrow> 'a ledger_scheme \<Rightarrow> stored_line list" where
  "investment_lines date currency db =
     filter (\<lambda>l. sl_currency l = currency \<and> investment_participant (sl_account l) \<noteq> None)
       (concat (map jr_lines (filter (\<lambda>j. jr_status j = Posted_Entry \<and> str_le (jr_business_date j) date)
         (lg_journals db))))"

definition subledger_text :: "string \<Rightarrow> string \<Rightarrow> 'a ledger_scheme \<Rightarrow> string" where
  "subledger_text date currency db = (let ls = investment_lines date currency db in
     if ls = [] then ''0'' else numeric_text (sum_list (map (\<lambda>l. sl_credit l - sl_debit l) ls)))"

definition assert_replay_matches :: "reconciliation_row \<Rightarrow> reconciliation_command \<Rightarrow> nat \<Rightarrow> unit res" where
  "assert_replay_matches row command scale =
     and_then (reconcile_amounts (numeric_text (rv_ledger row)) (re_ledger_amount command) (re_currency command) scale)
       (\<lambda>c. if rr_state c \<noteq> Matched \<or> rv_reference row \<noteq> re_reference command
         then Inl (Failure ''Reconciliation replay payload differs'') else Inr ())"

text \<open>The instants are compared as \<open>toISOString\<close> prints the stored ones; \<open>||\<close> stops at the first difference.\<close>

definition assert_discrepancy_replay ::
  "clock_lib \<Rightarrow> discrepancy_row \<Rightarrow> discrepancy_note \<Rightarrow> string \<Rightarrow> string \<Rightarrow> string \<Rightarrow> nat \<Rightarrow> unit res" where
  "assert_discrepancy_replay clock row note currency difference due_at scale =
     (let differs = Inl (Failure ''Reconciliation discrepancy replay payload differs'') in
     and_then (reconcile_amounts (numeric_text (dw_amount row)) difference currency scale) (\<lambda>c.
     if rr_state c \<noteq> Matched \<or> dw_severity row \<noteq> dn_severity note \<or> dw_owner row \<noteq> dn_owner note
       \<or> dw_cause row \<noteq> dn_cause note \<or> dw_action row \<noteq> dn_action note
     then differs
     else and_then (to_iso_string clock (dw_detected_at row)) (\<lambda>detected.
       if detected \<noteq> dn_detected_at note then differs
       else and_then (to_iso_string clock (dw_due_at row)) (\<lambda>due.
       if due \<noteq> due_at then differs else Inr ()))))"

definition normalize_stored_amount :: "int \<Rightarrow> string \<Rightarrow> nat \<Rightarrow> string res" where
  "normalize_stored_amount amount currency scale =
     and_then (reconcile_amounts (numeric_text amount) ''0'' currency scale) (\<lambda>c. Inr (rr_difference c))"

text \<open>\<open>INSERT ... ON CONFLICT DO NOTHING\<close>, then the stored row: new, or checked against the command.\<close>

definition reconciliation_row_of ::
  "string \<Rightarrow> reconciliation_command \<Rightarrow> string \<Rightarrow> reconciliation_result \<Rightarrow> nat \<Rightarrow> 'a reconciliation_db_scheme
     \<Rightarrow> (bool \<times> reconciliation_row \<times> 'a reconciliation_db_scheme) res" where
  "reconciliation_row_of new_id command subledger calculated scale db =
     (case find (\<lambda>r. rv_date r = re_business_date command \<and> rv_currency r = re_currency command
            \<and> rv_checksum r = re_checksum command) (rd_reconciliations db) of
        Some row \<Rightarrow> and_then (assert_replay_matches row command scale) (\<lambda>_. Inr (False, row, db))
      | None \<Rightarrow>
          and_then (numeric_of 38 subledger) (\<lambda>s.
          and_then (numeric_of 38 (re_ledger_amount command)) (\<lambda>g.
          and_then (numeric_of 38 (rr_difference calculated)) (\<lambda>d.
          let row = \<lparr>rv_id = new_id, rv_date = re_business_date command, rv_currency = re_currency command,
            rv_subledger = s, rv_ledger = g, rv_difference = d, rv_reference = re_reference command,
            rv_checksum = re_checksum command, rv_state = rr_state calculated, rv_created_by = re_actor command\<rparr> in
          Inr (True, row, db\<lparr>rd_reconciliations := rd_reconciliations db @ [row]\<rparr>)))))"

definition reconciliation_discrepancy ::
  "clock_lib \<Rightarrow> postgres_lib \<Rightarrow> string \<Rightarrow> reconciliation_command \<Rightarrow> reconciliation_row \<Rightarrow> string \<Rightarrow> nat
     \<Rightarrow> 'a reconciliation_db_scheme \<Rightarrow> (string option \<times> 'a reconciliation_db_scheme) res" where
  "reconciliation_discrepancy clock pg new_id command row difference scale db =
     (if rv_state row = Variance then
        (case re_discrepancy command of
           None \<Rightarrow> Inl (Failure
             ''Variance requires documented discrepancy ownership, cause and corrective action'')
         | Some note \<Rightarrow>
             and_then (discrepancy_deadline clock (dn_detected_at note) (dn_severity note)) (\<lambda>due_at.
             case find (\<lambda>d. dw_reconciliation d = rv_id row) (rd_discrepancies db) of
               None \<Rightarrow> and_then (numeric_of 38 difference) (\<lambda>amount.
                 and_then (as_timestamptz pg due_at) (\<lambda>due. and_then (as_timestamptz pg (dn_detected_at note)) (\<lambda>detected.
                 Inr (Some new_id, db\<lparr>rd_discrepancies := rd_discrepancies db @ [\<lparr>dw_id = new_id,
                   dw_reconciliation = rv_id row, dw_amount = amount, dw_currency = re_currency command,
                   dw_severity = dn_severity note, dw_owner = dn_owner note, dw_cause = dn_cause note,
                   dw_action = dn_action note, dw_detected_at = detected, dw_due_at = due\<rparr>]\<rparr>))))
             | Some d \<Rightarrow>
                 and_then (assert_discrepancy_replay clock d note (re_currency command) difference due_at scale)
                 (\<lambda>_. Inr (Some (dw_id d), db))))
      else if re_discrepancy command \<noteq> None
      then Inl (Failure ''Matched reconciliation cannot include discrepancy details'')
      else Inr (None, db))"

definition completion_event ::
  "postgres_lib \<Rightarrow> string \<Rightarrow> reconciliation_row \<Rightarrow> 'a reconciliation_db_scheme \<Rightarrow> 'a reconciliation_db_scheme res" where
  "completion_event pg event row db =
     (if pg_infers_types pg
      then Inr (db\<lparr>lg_outbox := lg_outbox db @ [\<lparr>ob_id = event, ob_aggregate = rv_id row,
        ob_type = ''AccountingReconciliationCompleted.v1''\<rparr>]\<rparr>)
      else Inl (Failure ''could not determine data type of parameter $3''))"

definition reconcile_atomically ::
  "clock_lib \<Rightarrow> postgres_lib \<Rightarrow> string \<times> string \<times> string \<Rightarrow> 'a reconciliation_db_scheme \<Rightarrow> reconciliation_command
     \<Rightarrow> ('a reconciliation_db_scheme \<times> reconciliation_outcome) res" where
  "reconcile_atomically clock pg uuids db command = (case uuids of (row_id, discrepancy_id, event) \<Rightarrow>
     (case find (effective_currency (re_currency command) (re_business_date command)) (lg_currencies db) of
        None \<Rightarrow> Inl (Failure ''Currency not effective on reconciliation business date'')
      | Some c \<Rightarrow>
          let scale = cu_digits c; subledger = subledger_text (re_business_date command) (re_currency command) db in
          and_then (reconcile_amounts subledger (re_ledger_amount command) (re_currency command) scale) (\<lambda>calculated.
          and_then (reconciliation_row_of row_id command subledger calculated scale db) (\<lambda>(created, row, db).
          and_then (reconcile_amounts (numeric_text (rv_subledger row)) (numeric_text (rv_ledger row))
              (re_currency command) scale) (\<lambda>persisted.
          if rr_state persisted \<noteq> rv_state row
          then Inl (Failure ''Persisted reconciliation result is inconsistent'') else
          and_then (normalize_stored_amount (rv_difference row) (re_currency command) scale) (\<lambda>stored.
          if rr_difference persisted \<noteq> stored
          then Inl (Failure ''Persisted reconciliation result is inconsistent'') else
          and_then (reconciliation_discrepancy clock pg discrepancy_id command row (rr_difference persisted) scale db)
            (\<lambda>(discrepancy, db).
          and_then (if created then completion_event pg event row db else Inr db) (\<lambda>db.
          Inr (db, \<lparr>ro_id = rv_id row, ro_state = rr_state persisted, ro_difference = rr_difference persisted,
            ro_discrepancy = discrepancy\<rparr>)))))))))"

section \<open>Replays\<close>

text \<open>A stored amount reads back as the amount that was stored.\<close>

lemma numeric_of_grid:
  assumes "decimal_value text = Some (of_int u / 10 ^ k)" "numeric_of digits text = Inr n" "k \<le> 12"
  shows "decimal_value (numeric_text n) = Some (of_int u / 10 ^ k)"
proof -
  have ten: "(10 :: rat) ^ 12 = 10 ^ k * 10 ^ (12 - k)" using assms(3) by (simp flip: power_add)
  have "of_int u / 10 ^ k * (10 :: rat) ^ 12 = of_int u / 10 ^ k * (10 ^ k * 10 ^ (12 - k))"
    by (simp only: ten)
  also have "\<dots> = of_int (u * 10 ^ (12 - k))" by simp
  finally have "n = u * 10 ^ (12 - k)"
    using assms(1,2) by (simp only: numeric_of_def option.case Let_def round_away_of_int) (simp split: if_splits)
  then have "of_int n / 10 ^ 12 = (of_int u / 10 ^ k :: rat)" unfolding ten by simp
  then show ?thesis by (simp add: numeric_text_def)
qed

lemma find_snoc: "find P xs = None \<Longrightarrow> P y \<Longrightarrow> find P (xs @ [y]) = Some y"
  by (induction xs) (auto split: if_splits)

text \<open>An amount that was compared and stored matches itself when it is read back.\<close>

lemma reconcile_stored:
  assumes "reconcile_amounts a b currency k = Inr r" "numeric_of digits b = Inr n"
  shows "\<exists>r'. reconcile_amounts (numeric_text n) b currency k = Inr r' \<and> rr_state r' = Matched"
proof -
  from reconcile_amounts_currency [OF assms(1)] have c: "is_currency_code currency" "k \<le> 12" by blast+
  from assms(1) obtain v where b: "decimal_value b = Some (of_int v / 10 ^ k)"
    unfolding reconcile_amounts_iff [OF c] by blast
  from numeric_of_grid [OF b assms(2) c(2)] b show ?thesis
    unfolding reconcile_amounts_iff [OF c] by auto
qed

lemma row_of_replay:
  assumes "reconcile_amounts subledger (re_ledger_amount command) (re_currency command) scale = Inr calculated"
    "reconciliation_row_of i command subledger calculated scale db = Inr (created, row, db1)"
    "rd_reconciliations db2 = rd_reconciliations db1"
  shows "reconciliation_row_of i' command subledger calculated scale db2 = Inr (False, row, db2)
    \<and> rd_discrepancies db1 = rd_discrepancies db \<and> lg_journals db1 = lg_journals db \<and> lg_currencies db1 = lg_currencies db"
proof (cases "find (\<lambda>r. rv_date r = re_business_date command \<and> rv_currency r = re_currency command
    \<and> rv_checksum r = re_checksum command) (rd_reconciliations db)")
  case (Some r)
  with assms show ?thesis by (auto simp: reconciliation_row_of_def and_then_Inr)
next
  case None
  with assms(2) obtain g where g: "numeric_of 38 (re_ledger_amount command) = Inr g" and row: "rv_ledger row = g"
      "rv_date row = re_business_date command" "rv_currency row = re_currency command"
      "rv_checksum row = re_checksum command" "rv_reference row = re_reference command"
    and db1: "rd_reconciliations db1 = rd_reconciliations db @ [row]" "rd_discrepancies db1 = rd_discrepancies db"
      "lg_journals db1 = lg_journals db" "lg_currencies db1 = lg_currencies db"
    by (auto simp: reconciliation_row_of_def and_then_Inr Let_def)
  from reconcile_stored [OF assms(1) g] have "assert_replay_matches row command scale = Inr ()"
    by (auto simp: assert_replay_matches_def row and_then_Inr)
  with find_snoc [OF None, of row] show ?thesis
    by (simp add: reconciliation_row_of_def assms(3) db1 row)
qed

text \<open>What the use case hands on: the detection as \<open>toISOString\<close> prints an instant.\<close>

definition printed_detection :: "clock_lib \<Rightarrow> reconciliation_command \<Rightarrow> bool" where
  "printed_detection clock command \<longleftrightarrow>
     (\<forall>note. re_discrepancy command = Some note \<longrightarrow> (\<exists>t. to_iso_string clock t = Inr (dn_detected_at note)))"

lemma stored_instant:
  "timestamptz_laws clock pg \<Longrightarrow> to_iso_string clock t = Inr s \<Longrightarrow> as_timestamptz pg s = Inr u \<Longrightarrow> to_iso_string clock u = Inr s"
  unfolding timestamptz_laws_def as_timestamptz_def by (auto split: option.splits)

lemma deadline_printed: "discrepancy_deadline clock s sev = Inr due \<Longrightarrow> \<exists>t. to_iso_string clock t = Inr due"
  by (auto simp: discrepancy_deadline_def split: option.splits)

lemma discrepancy_replay:
  assumes "reconcile_amounts a b (re_currency command) scale = Inr persisted"
    "reconciliation_discrepancy clock pg i command row (rr_difference persisted) scale db = Inr (d, db1)"
    "rd_discrepancies db2 = rd_discrepancies db1" "timestamptz_laws clock pg" "printed_detection clock command"
  shows "reconciliation_discrepancy clock pg i' command row (rr_difference persisted) scale db2 = Inr (d, db2)
    \<and> rd_reconciliations db1 = rd_reconciliations db \<and> lg_journals db1 = lg_journals db \<and> lg_currencies db1 = lg_currencies db"
proof (cases "rv_state row = Variance")
  case False
  with assms(2) show ?thesis by (auto simp: reconciliation_discrepancy_def split: if_splits)
next
  case True
  with assms(2) obtain nt due where nt: "re_discrepancy command = Some nt"
    and due: "discrepancy_deadline clock (dn_detected_at nt) (dn_severity nt) = Inr due"
    by (auto simp: reconciliation_discrepancy_def and_then_Inr split: option.splits)
  show ?thesis
  proof (cases "find (\<lambda>d. dw_reconciliation d = rv_id row) (rd_discrepancies db)")
    case (Some x)
    with assms(2,3) True nt due show ?thesis by (auto simp: reconciliation_discrepancy_def and_then_Inr)
  next
    case None
    with assms(2) True nt due obtain n v w where n: "numeric_of 38 (rr_difference persisted) = Inr n"
      and v: "as_timestamptz pg due = Inr v" and w: "as_timestamptz pg (dn_detected_at nt) = Inr w"
      and d: "d = Some i" and db1: "db1 = db\<lparr>rd_discrepancies := rd_discrepancies db @ [\<lparr>dw_id = i,
        dw_reconciliation = rv_id row, dw_amount = n, dw_currency = re_currency command, dw_severity = dn_severity nt,
        dw_owner = dn_owner nt, dw_cause = dn_cause nt, dw_action = dn_action nt, dw_detected_at = w, dw_due_at = v\<rparr>]\<rparr>"
      by (auto simp: reconciliation_discrepancy_def and_then_Inr)
    let ?r = "\<lparr>dw_id = i, dw_reconciliation = rv_id row, dw_amount = n, dw_currency = re_currency command,
      dw_severity = dn_severity nt, dw_owner = dn_owner nt, dw_cause = dn_cause nt, dw_action = dn_action nt,
      dw_detected_at = w, dw_due_at = v\<rparr>"
    obtain t t' where t: "to_iso_string clock t = Inr (dn_detected_at nt)" "to_iso_string clock t' = Inr due"
      using assms(5) nt deadline_printed [OF due] by (auto simp: printed_detection_def)
    note printed = stored_instant [OF assms(4) t(1) w] stored_instant [OF assms(4) t(2) v]
    from reconcile_amounts_currency [OF assms(1)] have c: "is_currency_code (re_currency command)" "scale \<le> 12" by blast+
    from assms(1) obtain u where p: "rr_difference persisted = render_units scale u"
      unfolding reconcile_amounts_iff [OF c] by auto
    have val: "decimal_value (rr_difference persisted) = Some (of_int u / 10 ^ scale)" by (simp add: p)
    from numeric_of_grid [OF val n c(2)] val obtain r' where
      "reconcile_amounts (numeric_text n) (rr_difference persisted) (re_currency command) scale = Inr r'" "rr_state r' = Matched"
      using reconcile_amounts_iff [OF c] by fastforce
    then have "assert_discrepancy_replay clock ?r nt (re_currency command) (rr_difference persisted) due scale = Inr ()"
      using printed by (simp add: assert_discrepancy_replay_def)
    with find_snoc [OF None, of ?r] True nt due show ?thesis
      by (simp add: reconciliation_discrepancy_def assms(3) db1 d)
  qed
qed

lemma subledger_cong: "lg_journals db' = lg_journals db \<Longrightarrow> subledger_text date c db' = subledger_text date c db"
  by (simp add: subledger_text_def investment_lines_def)

lemma reconcile_atomically_replay:
  assumes "reconcile_atomically clock pg uuids db command = Inr (db', outcome)"
    and "timestamptz_laws clock pg" "printed_detection clock command"
  shows "reconcile_atomically clock pg uuids' db' command = Inr (db', outcome)"
proof -
  obtain i d e where u: "uuids = (i, d, e)" by (cases uuids)
  obtain i' d' e' where u': "uuids' = (i', d', e')" by (cases uuids')
  from assms(1) u obtain c calculated created row db1 persisted disc db2 where
    c: "find (effective_currency (re_currency command) (re_business_date command)) (lg_currencies db) = Some c"
    and calc: "reconcile_amounts (subledger_text (re_business_date command) (re_currency command) db)
      (re_ledger_amount command) (re_currency command) (cu_digits c) = Inr calculated"
    and row: "reconciliation_row_of i command (subledger_text (re_business_date command) (re_currency command) db)
      calculated (cu_digits c) db = Inr (created, row, db1)"
    and per: "reconcile_amounts (numeric_text (rv_subledger row)) (numeric_text (rv_ledger row)) (re_currency command)
      (cu_digits c) = Inr persisted" "rr_state persisted = rv_state row"
    and stored: "normalize_stored_amount (rv_difference row) (re_currency command) (cu_digits c) = Inr (rr_difference persisted)"
    and disc: "reconciliation_discrepancy clock pg d command row (rr_difference persisted) (cu_digits c) db1 = Inr (disc, db2)"
    and db': "(if created then completion_event pg e row db2 else Inr db2) = Inr db'"
    and out: "outcome = \<lparr>ro_id = rv_id row, ro_state = rr_state persisted, ro_difference = rr_difference persisted,
            ro_discrepancy = disc\<rparr>"
    by (auto simp: reconcile_atomically_def and_then_Inr Let_def split: option.splits if_splits)
  have rd': "rd_discrepancies db' = rd_discrepancies db2" "rd_reconciliations db' = rd_reconciliations db2"
    "lg_journals db' = lg_journals db2" "lg_currencies db' = lg_currencies db2"
    using db' by (auto simp: completion_event_def split: if_splits)
  note dr = discrepancy_replay [OF per(1) disc rd'(1) assms(2,3), of d']
  have "rd_reconciliations db' = rd_reconciliations db1" using dr rd' by simp
  note rr = row_of_replay [OF calc row this, of i']
  have same: "lg_journals db' = lg_journals db" "lg_currencies db' = lg_currencies db" using dr rr rd' by simp_all
  show ?thesis
    using c calc rr dr per stored
    by (simp add: reconcile_atomically_def u' same subledger_cong [OF same(1)] out)
qed

lemma normalized_printed:
  "normalized_discrepancy clock note = Inr n \<Longrightarrow> \<exists>t. to_iso_string clock t = Inr (dn_detected_at n)"
  by (auto simp: normalized_discrepancy_def and_then_Inr Let_def split: option.splits)

lemma executed_command:
  fixes f :: "reconciliation_command \<Rightarrow> 'a res"
  assumes "execute_reconcile_ledger clock f command = Inr r"
  obtains command' where "f command' = Inr r" "printed_detection clock command'"
    "\<And>g :: reconciliation_command \<Rightarrow> 'a res. execute_reconcile_ledger clock g command = g command'"
proof -
  from assms obtain x where x: "(case re_discrepancy command of None \<Rightarrow> Inr None
      | Some note \<Rightarrow> and_then (normalized_discrepancy clock note) (\<lambda>n. Inr (Some n))) = Inr x"
    by (auto simp: execute_reconcile_ledger_def Let_def and_then_Inr split: if_splits)
  let ?c = "command\<lparr>re_reference := trim (re_reference command), re_actor := trim (re_actor command),
      re_correlation := map_option (to_lower \<circ> trim) (re_correlation command), re_discrepancy := x\<rparr>"
  have run: "execute_reconcile_ledger clock g command = g ?c" for g :: "reconciliation_command \<Rightarrow> 'a res"
    using assms x by (auto simp: execute_reconcile_ledger_def Let_def split: if_splits)
  have "printed_detection clock ?c"
    using x by (auto simp: printed_detection_def and_then_Inr dest: normalized_printed split: option.splits)
  with run [of f] assms run show thesis by (intro that [of ?c]) simp_all
qed

text \<open>
  C15. Reconciliation is idempotent: repeating a request that succeeded returns the same
  identifier, state, difference and discrepancy and leaves the database unchanged, even though
  the amounts went through \<open>numeric(38,12)\<close> columns and the instants through \<open>timestamptz\<close> columns
  in between and fresh identifiers are drawn.  The use case prints the detection with \<open>toISOString\<close>;
  of PostgreSQL it is assumed that it reads such a text as its instant or not at all.
\<close>

theorem reconciliation_replay:
  assumes "timestamptz_laws clock pg"
    and "execute_reconcile_ledger clock (reconcile_atomically clock pg uuids db) command = Inr (db', outcome)"
  shows "execute_reconcile_ledger clock (reconcile_atomically clock pg uuids' db') command = Inr (db', outcome)"
proof -
  from executed_command [OF assms(2)] obtain command' where
    ran: "reconcile_atomically clock pg uuids db command' = Inr (db', outcome)" "printed_detection clock command'"
    and run: "execute_reconcile_ledger clock (reconcile_atomically clock pg uuids' db') command
      = reconcile_atomically clock pg uuids' db' command'" by blast
  from reconcile_atomically_replay [OF ran(1) assms(1) ran(2)] show ?thesis by (simp add: run)
qed

section \<open>Example\<close>

definition example_detected :: string where
  "example_detected = ''2024-02-01T08:00:00.000Z''"

definition example_due :: string where
  "example_due = ''2024-02-01T16:00:00.000Z''"

definition example_recon_clock :: clock_lib where
  "example_recon_clock = \<lparr>date_parse = (\<lambda>s. if s = example_detected then Some 1706774400000 else None),
     print_instant = (\<lambda>t. if t = 1706774400000 then example_detected else if t = 1706803200000 then example_due else [])\<rparr>"

definition example_postgres :: postgres_lib where
  "example_postgres = \<lparr>pg_timestamptz = (\<lambda>s. if s = example_detected then Some 1706774400000
     else if s = example_due then Some 1706803200000 else None), pg_infers_types = True\<rparr>"

definition example_note :: discrepancy_note where
  "example_note = \<lparr>dn_severity = High, dn_owner = ''owner'', dn_cause = ''late entry'', dn_action = ''post it'',
     dn_detected_at = example_detected\<rparr>"

definition example_reconciliation :: reconciliation_command where
  "example_reconciliation = \<lparr>re_business_date = ''2024-01-31'', re_currency = ''DZD'', re_ledger_amount = ''10.00'',
     re_reference = ''GL-01'', re_checksum = replicate 64 (CHR ''a''), re_actor = ''clerk'', re_correlation = None,
     re_discrepancy = Some example_note\<rparr>"

definition example_reconciliation_db :: reconciliation_db where
  "example_reconciliation_db = \<lparr>lg_journals = [], lg_acks = [], lg_approvals = [], lg_runs = [], lg_allocations = [],
     lg_currencies = [\<lparr>cu_code = ''DZD'', cu_digits = 2, cu_from = ''2020-01-01'', cu_until = None\<rparr>], lg_outbox = [],
     rd_reconciliations = [], rd_discrepancies = []\<rparr>"

lemma example_instants: "timestamptz_laws example_recon_clock example_postgres"
  "as_timestamptz example_postgres example_detected = Inr 1706774400000"
  "as_timestamptz example_postgres example_due = Inr 1706803200000"
  "discrepancy_deadline example_recon_clock example_detected High = Inr example_due"
  by (auto simp: timestamptz_laws_def as_timestamptz_def to_iso_string_def example_postgres_def example_recon_clock_def
    discrepancy_deadline_def maximum_resolution_hours_def example_detected_def example_due_def split: if_splits)

lemma example_difference:
  assumes "decimal_value a = Some x" "decimal_value b = Some y" "x * 100 = of_int u" "y * 100 = of_int v" "u \<noteq> v"
  shows "reconcile_amounts a b ''DZD'' 2 = Inr \<lparr>rr_difference = render_units 2 (u - v), rr_state = Variance\<rparr>"
proof -
  have c: "is_currency_code ''DZD''" by (simp add: is_currency_code_def run_of_def char_class_defs)
  have "decimal_value a = Some (of_int u / 10 ^ 2)" "decimal_value b = Some (of_int v / 10 ^ 2)"
    using assms(1,2) by (simp_all flip: assms(3,4))
  with assms(5) show ?thesis by (intro reconcile_amounts_iff [THEN iffD2, OF c]) auto
qed

lemma example_amounts:
  "reconcile_amounts ''0'' ''10.00'' ''DZD'' 2 = Inr \<lparr>rr_difference = ''-10.00'', rr_state = Variance\<rparr>"
  "reconcile_amounts (numeric_text 0) (numeric_text 10000000000000) ''DZD'' 2 = Inr \<lparr>rr_difference = ''-10.00'', rr_state = Variance\<rparr>"
  "reconcile_amounts (numeric_text (- 10000000000000)) ''0'' ''DZD'' 2 = Inr \<lparr>rr_difference = ''-10.00'', rr_state = Variance\<rparr>"
proof -
  have r: "render_units 2 (- 1000) = ''-10.00''"
    by (simp add: render_units_def render_nat_def Let_def text_eval digits_eval)
  have v: "decimal_value ''0'' = Some 0" "decimal_value ''10.00'' = Some 10" by (simp_all add: text_eval)
  have n: "decimal_value (numeric_text u) = Some (of_int u / 10 ^ 12)" for u by (simp add: numeric_text_def)
  show "reconcile_amounts ''0'' ''10.00'' ''DZD'' 2 = Inr \<lparr>rr_difference = ''-10.00'', rr_state = Variance\<rparr>"
    using example_difference [OF v, of 0 1000] r by simp
  show "reconcile_amounts (numeric_text 0) (numeric_text 10000000000000) ''DZD'' 2 = Inr \<lparr>rr_difference = ''-10.00'', rr_state = Variance\<rparr>"
    using example_difference [OF n n, of 0 0 10000000000000 1000] r by simp
  show "reconcile_amounts (numeric_text (- 10000000000000)) ''0'' ''DZD'' 2 = Inr \<lparr>rr_difference = ''-10.00'', rr_state = Variance\<rparr>"
    using example_difference [OF n v(1), of "- 10000000000000" "- 1000" 0] r by simp
qed

lemma example_reconciliation_run:
  "\<exists>db' outcome. reconcile_atomically example_recon_clock example_postgres (''r'', ''d'', ''e'')
     example_reconciliation_db example_reconciliation = Inr (db', outcome) \<and> ro_discrepancy outcome = Some ''d''"
proof -
  have z: "decimal_value ''0'' = Some 0" "decimal_value ''10.00'' = Some 10" "decimal_value ''-10.00'' = Some (- 10)"
    by (simp_all add: text_eval)
  have n: "numeric_of 38 ''0'' = Inr 0" "numeric_of 38 ''10.00'' = Inr 10000000000000"
    "numeric_of 38 ''-10.00'' = Inr (- 10000000000000)"
    using z round_away_of_int [of 0] round_away_of_int [of 10000000000000] round_away_of_int [of "- 10000000000000"]
    by (simp_all add: numeric_of_def Let_def)
  have eff: "effective_currency ''DZD'' ''2024-01-31''
      \<lparr>cu_code = ''DZD'', cu_digits = 2, cu_from = ''2020-01-01'', cu_until = None\<rparr>"
    by (simp add: effective_currency_def)
  have sub: "subledger_text ''2024-01-31'' ''DZD'' example_reconciliation_db = ''0''"
    by (simp add: subledger_text_def investment_lines_def example_reconciliation_db_def)
  have pg: "pg_infers_types example_postgres" by (simp add: example_postgres_def)
  have db: "lg_currencies example_reconciliation_db = [\<lparr>cu_code = ''DZD'', cu_digits = 2, cu_from = ''2020-01-01'', cu_until = None\<rparr>]"
    "rd_reconciliations example_reconciliation_db = []" "rd_discrepancies example_reconciliation_db = []"
    by (simp_all add: example_reconciliation_db_def)
  show ?thesis
    by (simp add: reconcile_atomically_def example_reconciliation_def sub db eff example_note_def example_amounts n
        reconciliation_row_of_def Let_def example_instants normalize_stored_amount_def reconciliation_discrepancy_def
        completion_event_def pg)
qed

lemma example_command: "execute_reconcile_ledger example_recon_clock f example_reconciliation = f example_reconciliation"
proof -
  have "calendar_date ''2024-01-31''"
    by (simp add: calendar_date_iff iso_shape_def valid_date_def iso_year_def iso_month_def iso_day_def month_length_def
      leap_year_def char_class_defs digits_eval)
  moreover have "is_currency_code ''DZD''" by (simp add: is_currency_code_def run_of_def char_class_defs)
  moreover have "plain_decimal ''10.00''" "trim ''GL-01'' = ''GL-01''" "is_sha256_hex (replicate 64 (CHR ''a''))" "trim ''clerk'' = ''clerk''"
    "trim ''owner'' = ''owner''" "trim ''late entry'' = ''late entry''" "trim ''post it'' = ''post it''" "\<not> blank ''owner''"
    by code_simp+
  moreover have "to_iso_string example_recon_clock 1706774400000 = Inr example_detected"
    "date_parse example_recon_clock example_detected = Some 1706774400000"
    by (simp_all add: to_iso_string_def example_recon_clock_def)
  ultimately show ?thesis
    by (simp add: execute_reconcile_ledger_def example_reconciliation_def reconcile_calendar_date_def example_note_def
      normalized_discrepancy_def validate_discrepancy_def example_instants)
qed

theorem reconciliation_replay_witness:
  "\<exists>(db' :: reconciliation_db) outcome. execute_reconcile_ledger example_recon_clock
       (reconcile_atomically example_recon_clock example_postgres (''r2'', ''d2'', ''e2'') db') example_reconciliation = Inr (db', outcome)
     \<and> ro_discrepancy outcome = Some ''d''"
proof -
  obtain db' outcome where run: "reconcile_atomically example_recon_clock example_postgres (''r'', ''d'', ''e'')
     example_reconciliation_db example_reconciliation = Inr (db', outcome)" and m: "ro_discrepancy outcome = Some ''d''"
    using example_reconciliation_run by (elim exE conjE) (rule that)
  from run have "execute_reconcile_ledger example_recon_clock (reconcile_atomically example_recon_clock example_postgres (''r'', ''d'', ''e'')
     example_reconciliation_db) example_reconciliation = Inr (db', outcome)" by (simp add: example_command)
  from reconciliation_replay [OF example_instants(1) this, of "(''r2'', ''d2'', ''e2'')"] m show ?thesis
    by - (rule exI [of _ db'], rule exI [of _ outcome], rule conjI, assumption, assumption)
qed

end
