(* ===== verification/Authorization.thy ===== *)
theory Authorization
  imports Decimal_Text Js_Date
begin

text \<open>
  Who may do what: \<open>src/modules/identity-access/domain/authorization.ts\<close> with the contracts of
  \<open>src/shared-kernel/authorization-contracts.ts\<close>, and the HTTP guard that applies them
  (\<open>apps/api/src/authorization\<close>).  \<open>Date.parse\<close>, the current time and the audit writer are
  parameters.
\<close>

section \<open>Contracts\<close>

datatype role = Finance_Analyst | Finance_Controller | Relationship_Manager | Risk_Analyst | Sharia_Auditor | System_Admin

definition pms_roles :: "(string \<times> role) list" where
  "pms_roles = [(''FINANCE_ANALYST'', Finance_Analyst), (''FINANCE_CONTROLLER'', Finance_Controller),
     (''RELATIONSHIP_MANAGER'', Relationship_Manager), (''RISK_ANALYST'', Risk_Analyst),
     (''SHARIA_AUDITOR'', Sharia_Auditor), (''SYSTEM_ADMIN'', System_Admin)]"

record subject =
  su_user :: string
  su_roles :: "role list"
  su_entities :: "string list"
  su_branches :: "string list"
  su_pools :: "string list"
  su_level :: rat
  su_maximum :: string
  su_from :: "string option"
  su_until :: "string option"
  su_review_due :: "string option"
  su_manager :: "string option"

record resource =
  rs_entity :: "string option"
  rs_branch :: "string option"
  rs_pool :: "string option"
  rs_status :: "string option"
  rs_previous_actor :: "string option"

record policy =
  po_operation :: string
  po_roles :: "role list"
  po_statuses :: "string list option"
  po_level :: "rat option"
  po_sensitive :: bool

record authorization_request =
  aq_subject :: subject
  aq_resource :: resource
  aq_policy :: policy
  aq_amount :: "string option"
  aq_evaluated_at :: "string option"

datatype denial = Role_Not_Allowed | Entity_Out_Of_Scope | Branch_Out_Of_Scope | Pool_Out_Of_Scope
  | Status_Not_Allowed | Insufficient_Delegation | Delegation_Not_Active | Delegation_Expired
  | Invalid_Delegation_Period | Amount_Exceeds_Limit | Previous_Actor_Conflict | Invalid_Amount

record decision =
  de_allowed :: bool
  de_reasons :: "denial list"

section \<open>The decision (\<open>evaluateAuthorization\<close>)\<close>

definition timestamp :: "clock_lib \<Rightarrow> string \<Rightarrow> int res" where
  "timestamp clock value = (case date_parse clock value of
     None \<Rightarrow> Inl (TypeError (''Invalid ISO date: '' @ value)) | Some t \<Rightarrow> Inr t)"

definition optional_timestamp :: "clock_lib \<Rightarrow> string option \<Rightarrow> int option res" where
  "optional_timestamp clock value = (case value of None \<Rightarrow> Inr None
     | Some v \<Rightarrow> and_then (timestamp clock v) (\<lambda>t. Inr (Some t)))"

text \<open>\<open>undefined\<close> is \<open>Inr None\<close>, an instant \<open>Inr (Some t)\<close>, and \<open>null\<close> is \<open>Inl ()\<close>.\<close>

definition safe_optional_timestamp :: "clock_lib \<Rightarrow> string option \<Rightarrow> unit + int option" where
  "safe_optional_timestamp clock value = (case value of None \<Rightarrow> Inr None
     | Some v \<Rightarrow> (case date_parse clock v of None \<Rightarrow> Inl () | Some t \<Rightarrow> Inr (Some t)))"

definition is_unsigned_decimal :: "string \<Rightarrow> bool" where
  "is_unsigned_decimal s \<longleftrightarrow> unsigned_decimal s \<noteq> None"

definition compare_unsigned_decimals :: "string \<Rightarrow> string \<Rightarrow> int" where
  "compare_unsigned_decimals left right =
     (case (split_dot left, split_dot right) of ((li, lf), (ri, rf)) \<Rightarrow>
        if length li \<noteq> length ri then (if length li > length ri then 1 else - 1)
        else if li \<noteq> ri then (if str_less ri li then 1 else - 1)
        else (let n = max (length (fraction_text lf)) (length (fraction_text rf));
                  a = pad_end n (fraction_text lf); b = pad_end n (fraction_text rf) in
              if a = b then 0 else if str_less b a then 1 else - 1))"

text \<open>The guard \<open>x && !xs.includes(x)\<close>: an absent or empty identifier is not checked.\<close>

definition out_of_scope :: "string option \<Rightarrow> string list \<Rightarrow> bool" where
  "out_of_scope x xs = (case x of None \<Rightarrow> False | Some i \<Rightarrow> i \<noteq> [] \<and> i \<notin> set xs)"

definition delegation_reasons :: "clock_lib \<Rightarrow> int \<Rightarrow> subject \<Rightarrow> rat \<Rightarrow> denial list" where
  "delegation_reasons clock now s required =
     (case (safe_optional_timestamp clock (su_from s), safe_optional_timestamp clock (su_until s)) of
        (Inr from_date, Inr until) \<Rightarrow>
          if (case (from_date, until) of (Some f, Some u) \<Rightarrow> f > u | _ \<Rightarrow> False) then [Invalid_Delegation_Period]
          else if (case from_date of Some f \<Rightarrow> now < f | None \<Rightarrow> False) then [Delegation_Not_Active]
          else if (case until of Some u \<Rightarrow> now > u | None \<Rightarrow> False) then [Delegation_Expired]
          else if su_level s < required then [Insufficient_Delegation] else []
      | _ \<Rightarrow> [Invalid_Delegation_Period])"

definition amount_reasons :: "subject \<Rightarrow> string option \<Rightarrow> denial list" where
  "amount_reasons s amount = (case amount of None \<Rightarrow> [] | Some a \<Rightarrow>
     if \<not> is_unsigned_decimal a \<or> \<not> is_unsigned_decimal (su_maximum s) then [Invalid_Amount]
     else if compare_unsigned_decimals a (su_maximum s) > 0 then [Amount_Exceeds_Limit] else [])"

definition reason_if :: "bool \<Rightarrow> denial \<Rightarrow> denial list" where
  "reason_if b d = (if b then [d] else [])"

definition evaluate_authorization :: "clock_lib \<Rightarrow> int \<Rightarrow> authorization_request \<Rightarrow> decision res" where
  "evaluate_authorization clock now request =
     (let s = aq_subject request; r = aq_resource request; p = aq_policy request;
          admin = System_Admin \<in> set (su_roles s) in
      and_then (case aq_evaluated_at request of None \<Rightarrow> Inr now | Some t \<Rightarrow> timestamp clock t) (\<lambda>evaluated_at.
      let reasons = reason_if (\<not> (\<exists>role\<in>set (po_roles p). role \<in> set (su_roles s))) Role_Not_Allowed
          @ reason_if (\<not> admin \<and> out_of_scope (rs_entity r) (su_entities s)) Entity_Out_Of_Scope
          @ reason_if (\<not> admin \<and> out_of_scope (rs_branch r) (su_branches s)) Branch_Out_Of_Scope
          @ reason_if (\<not> admin \<and> out_of_scope (rs_pool r) (su_pools s)) Pool_Out_Of_Scope
          @ reason_if (case po_statuses p of None \<Rightarrow> False | Some allowed \<Rightarrow> out_of_scope (rs_status r) allowed)
              Status_Not_Allowed
          @ (case po_level p of None \<Rightarrow> [] | Some required \<Rightarrow> delegation_reasons clock evaluated_at s required)
          @ amount_reasons s (aq_amount request)
          @ reason_if (case rs_previous_actor r of None \<Rightarrow> False | Some a \<Rightarrow> a \<noteq> [] \<and> a = su_user s)
              Previous_Actor_Conflict in
      Inr \<lparr>de_allowed = (length reasons = 0), de_reasons = reasons\<rparr>))"

section \<open>Access governance (\<open>evaluateAccessGovernance\<close>)\<close>

datatype grant_kind = Entitlement | Delegation

record access_grant =
  ag_id :: string
  ag_subject :: string
  ag_manager :: string
  ag_kind :: grant_kind
  ag_granted_at :: string
  ag_reviewed_at :: "string option"
  ag_interval_days :: int
  ag_from :: "string option"
  ag_until :: "string option"

record review_notification =
  nt_grant :: string
  nt_subject :: string
  nt_manager :: string
  nt_due_at :: string

record governance_evaluation =
  gv_effective :: "string list"
  gv_expired :: "string list"
  gv_reviews :: "review_notification list"

definition grant_expired :: "access_grant \<Rightarrow> int option \<Rightarrow> int \<Rightarrow> bool" where
  "grant_expired g until now = (ag_kind g = Delegation \<and> (case until of None \<Rightarrow> False | Some u \<Rightarrow> now > u))"

fun governance_loop :: "clock_lib \<Rightarrow> int \<Rightarrow> access_grant list \<Rightarrow> governance_evaluation res" where
  "governance_loop clock now [] = Inr \<lparr>gv_effective = [], gv_expired = [], gv_reviews = []\<rparr>"
| "governance_loop clock now (g # rest) =
     and_then (optional_timestamp clock (ag_from g)) (\<lambda>valid_from.
     and_then (optional_timestamp clock (ag_until g)) (\<lambda>valid_until.
     let expired = grant_expired g valid_until now;
         not_started = (case valid_from of None \<Rightarrow> False | Some f \<Rightarrow> now < f) in
     and_then (timestamp clock (case ag_reviewed_at g of None \<Rightarrow> ag_granted_at g | Some r \<Rightarrow> r)) (\<lambda>anchor.
     let due_at = anchor + ag_interval_days g * 86400000 in
     and_then (if now \<ge> due_at then and_then (to_iso_string clock due_at) (\<lambda>text.
         Inr [\<lparr>nt_grant = ag_id g, nt_subject = ag_subject g, nt_manager = ag_manager g, nt_due_at = text\<rparr>])
       else Inr []) (\<lambda>reviews.
     and_then (governance_loop clock now rest) (\<lambda>e.
     Inr \<lparr>gv_effective = (if \<not> expired \<and> \<not> not_started then [ag_id g] else []) @ gv_effective e,
       gv_expired = (if expired then [ag_id g] else []) @ gv_expired e,
       gv_reviews = reviews @ gv_reviews e\<rparr>)))))"

definition evaluate_access_governance :: "clock_lib \<Rightarrow> access_grant list \<Rightarrow> string \<Rightarrow> governance_evaluation res" where
  "evaluate_access_governance clock grants evaluated_at =
     and_then (timestamp clock evaluated_at) (\<lambda>now. governance_loop clock now grants)"

section \<open>The subject of a request (\<open>authorization-subject.ts\<close>)\<close>

text \<open>Claims are values of a JSON document.\<close>

datatype claim = Claim_Text string | Claim_Number rat | Claim_Array "claim list" | Claim_Other

record user_claims =
  uc_sub :: string
  uc_sid :: "claim option"
  uc_roles :: "claim option"
  uc_groups :: "claim option"
  uc_entities :: "claim option"
  uc_branches :: "claim option"
  uc_pools :: "claim option"
  uc_level :: "claim option"
  uc_maximum :: "claim option"
  uc_from :: "claim option"
  uc_until :: "claim option"
  uc_review_due :: "claim option"
  uc_manager :: "claim option"

definition group_role_mapping :: "(string \<times> role) list" where
  "group_role_mapping = [(''pms-finance-analysts'', Finance_Analyst), (''pms-finance-controllers'', Finance_Controller),
     (''pms-relationship-managers'', Relationship_Manager), (''pms-risk-analysts'', Risk_Analyst),
     (''pms-sharia-auditors'', Sharia_Auditor), (''pms-system-admins'', System_Admin)]"

fun claim_texts :: "claim list \<Rightarrow> string list" where
  "claim_texts [] = []"
| "claim_texts (Claim_Text t # cs) = t # claim_texts cs"
| "claim_texts (_ # cs) = claim_texts cs"

definition string_array :: "claim option \<Rightarrow> string list" where
  "string_array v = (case v of Some (Claim_Array cs) \<Rightarrow> claim_texts cs | _ \<Rightarrow> [])"

definition optional_string :: "claim option \<Rightarrow> string option" where
  "optional_string v = (case v of Some (Claim_Text t) \<Rightarrow> Some t | _ \<Rightarrow> None)"

text \<open>\<open>[...new Set(xs)]\<close> keeps first occurrences.\<close>

definition unique_roles :: "role list \<Rightarrow> role list" where
  "unique_roles xs = rev (remdups (rev xs))"

definition group_role :: "string \<Rightarrow> role option" where
  "group_role g = map_of group_role_mapping
     (to_lower (if g \<noteq> [] \<and> hd g = CHR ''/'' then tl g else g))"

definition roles_from_claims :: "user_claims \<Rightarrow> role list" where
  "roles_from_claims c = unique_roles (List.map_filter (map_of pms_roles) (string_array (uc_roles c))
     @ List.map_filter group_role (string_array (uc_groups c)))"

definition subject_from_claims :: "user_claims \<Rightarrow> subject" where
  "subject_from_claims c = \<lparr>su_user = uc_sub c, su_roles = roles_from_claims c,
     su_entities = string_array (uc_entities c), su_branches = string_array (uc_branches c),
     su_pools = string_array (uc_pools c),
     su_level = (case uc_level c of Some (Claim_Number n) \<Rightarrow> n | _ \<Rightarrow> 0),
     su_maximum = (case uc_maximum c of Some (Claim_Text t) \<Rightarrow> t | _ \<Rightarrow> ''0''),
     su_from = optional_string (uc_from c), su_until = optional_string (uc_until c),
     su_review_due = optional_string (uc_review_due c), su_manager = optional_string (uc_manager c)\<rparr>"

section \<open>The guard (\<open>authorization.guard.ts\<close>)\<close>

record http_request =
  hr_method :: string
  hr_correlation :: "claim option"
  hr_idempotency :: "claim option"
  hr_user :: user_claims
  hr_pool_param :: "string option"
  hr_address :: "string option"
  hr_body :: "string \<Rightarrow> claim option"

datatype http_error = Bad_Request string | Forbidden "denial list" string | Thrown js_error

text \<open>
  The denial handed to the audit trail, with the reasons and the resource of the decision as the
  authorized changes; its identifier and its instants are drawn by the writer of the model.
\<close>

record denial_event =
  dv_correlation :: string
  dv_actor :: string
  dv_action :: string
  dv_resource :: string
  dv_session :: "string option"
  dv_address :: "string option"
  dv_reasons :: "denial list"
  dv_decided :: resource

definition method_upper :: "string \<Rightarrow> string" where
  "method_upper s = map (\<lambda>c. if is_lower c then char_of (of_char c - (32 :: nat)) else c) s"

definition is_safe_method :: "string \<Rightarrow> bool" where
  "is_safe_method m \<longleftrightarrow> method_upper m \<in> {''GET'', ''HEAD'', ''OPTIONS''}"

definition request_resource :: "http_request \<Rightarrow> resource" where
  "request_resource r = \<lparr>rs_entity = optional_string (hr_body r ''legalEntityId''),
     rs_branch = optional_string (hr_body r ''branchId''),
     rs_pool = (case hr_pool_param r of Some p \<Rightarrow> Some p | None \<Rightarrow> optional_string (hr_body r ''poolId'')),
     rs_status = optional_string (hr_body r ''workflowStatus''),
     rs_previous_actor = optional_string (hr_body r ''previousActorId'')\<rparr>"

definition authorization_resource_id :: "policy \<Rightarrow> resource \<Rightarrow> string" where
  "authorization_resource_id p r = (case rs_pool r of Some i \<Rightarrow> i | None \<Rightarrow>
     (case rs_entity r of Some i \<Rightarrow> i | None \<Rightarrow> (case rs_branch r of Some i \<Rightarrow> i | None \<Rightarrow> po_operation p)))"

text \<open>\<open>...(x ? { key: x } : {})\<close>: an empty text is left out.\<close>

definition non_empty :: "string option \<Rightarrow> string option" where
  "non_empty t = (case t of None \<Rightarrow> None | Some s \<Rightarrow> if s = [] then None else Some s)"

text \<open>
  \<open>canActivate\<close>: the outcome and the denial handed to the audit writer, if any; the guard catches
  whatever the writer throws.
\<close>

definition can_activate ::
  "clock_lib \<Rightarrow> int \<Rightarrow> bool \<Rightarrow> policy option \<Rightarrow> http_request \<Rightarrow> (http_error + unit) \<times> denial_event list" where
  "can_activate clock now public_route policy_option r =
     (if public_route then (Inr (), [])
      else case optional_string (hr_correlation r) of
        None \<Rightarrow> (Inl (Bad_Request ''X-Correlation-Id header must be a UUID''), [])
      | Some correlation \<Rightarrow>
          if \<not> is_uuid correlation then (Inl (Bad_Request ''X-Correlation-Id header must be a UUID''), [])
          else case policy_option of None \<Rightarrow> (Inr (), [])
          | Some p \<Rightarrow>
              if po_sensitive p \<and> \<not> is_safe_method (hr_method r)
                \<and> (case optional_string (hr_idempotency r) of None \<Rightarrow> True | Some k \<Rightarrow> \<not> safe_key 16 128 k)
              then (Inl (Bad_Request ''Idempotency-Key header is required for sensitive operations''), [])
              else case evaluate_authorization clock now \<lparr>aq_subject = subject_from_claims (hr_user r),
                  aq_resource = request_resource r, aq_policy = p,
                  aq_amount = optional_string (hr_body r ''amount''), aq_evaluated_at = None\<rparr> of
                Inl e \<Rightarrow> (Inl (Thrown e), [])
              | Inr d \<Rightarrow>
                  if \<not> de_allowed d then (Inl (Forbidden (de_reasons d) correlation),
                    [\<lparr>dv_correlation = correlation, dv_actor = uc_sub (hr_user r), dv_action = po_operation p,
                      dv_resource = authorization_resource_id p (request_resource r),
                      dv_session = non_empty (optional_string (uc_sid (hr_user r))), dv_address = non_empty (hr_address r),
                      dv_reasons = de_reasons d, dv_decided = request_resource r\<rparr>])
                  else (Inr (), []))"

section \<open>Properties of the comparison\<close>

lemma str_less_same_length:
  "list_all is_digit a \<Longrightarrow> list_all is_digit b \<Longrightarrow> length a = length b \<Longrightarrow>
   (if a = b then 0 else if str_less b a then 1 else - 1 :: int) = sgn (int (nat_of_digits a) - int (nat_of_digits b))"
proof -
  assume d: "list_all is_digit a" "list_all is_digit b" and l: "length a = length b"
  note ab = str_less_digits [OF d l] str_less_digits [OF d(2,1) l [symmetric]] nat_of_digits_inj [OF d l]
  show ?thesis using ab by (auto simp: sgn_if)
qed

lemma canonical_longer:
  assumes "canonical_int a" "canonical_int b" "length b < length a"
  shows "nat_of_digits b < nat_of_digits a"
proof -
  have "a \<noteq> ''0''" using assms canonical_int_nonempty [OF assms(2)] by (cases b) auto
  with assms(1) have a: "list_all is_digit a" "a \<noteq> []" "hd a \<noteq> CHR ''0''" by (auto simp: canonical_int_def)
  have "nat_of_digits b < 10 ^ length b" using nat_of_digits_bound [OF canonical_int_digits [OF assms(2)]] .
  also have "\<dots> \<le> 10 ^ (length a - 1)" using assms(3) by (intro power_increasing) auto
  also have "\<dots> \<le> nat_of_digits a" by (rule nat_of_digits_ge [OF a])
  finally show ?thesis .
qed

lemma text_value_padded:
  assumes "length (fraction_text f) \<le> n"
  shows "text_value i f = of_nat (nat_of_digits i * 10 ^ n + nat_of_digits (pad_end n (fraction_text f))) / 10 ^ n"
proof -
  have "(10 :: rat) ^ n = 10 ^ length (fraction_text f) * 10 ^ (n - length (fraction_text f))"
    using assms by (simp flip: power_add)
  then show ?thesis
    by (simp add: text_value_def nat_of_digits_pad_end [OF assms] add_divide_distrib)
qed

lemma compare_unsigned_sgn:
  assumes "unsigned_decimal left = Some (li, lf)" "unsigned_decimal right = Some (ri, rf)"
  shows "of_int (compare_unsigned_decimals left right) = sgn (text_value li lf - text_value ri rf)"
proof -
  note L = unsigned_decimal_SomeD [OF assms(1)] and R = unsigned_decimal_SomeD [OF assms(2)]
  have sp: "split_dot left = (li, lf)" "split_dot right = (ri, rf)"
    using assms by (auto simp: unsigned_decimal_def split: prod.splits if_splits)
  define n where "n = max (length (fraction_text lf)) (length (fraction_text rf))"
  let ?a = "pad_end n (fraction_text lf)" and ?b = "pad_end n (fraction_text rf)"
  have len: "length (fraction_text lf) \<le> n" "length (fraction_text rf) \<le> n" by (simp_all add: n_def)
  have ab: "list_all is_digit ?a" "list_all is_digit ?b" "length ?a = length ?b"
    using L R fraction_ok_digits len by (auto simp: pad_end_def list_all_iff)
  have bounds: "nat_of_digits ?a < 10 ^ n" "nat_of_digits ?b < 10 ^ n"
    using nat_of_digits_bound [OF ab(1)] nat_of_digits_bound [OF ab(2)] len by simp_all
  define x where "x = int (nat_of_digits li * 10 ^ n + nat_of_digits ?a)"
  define y where "y = int (nat_of_digits ri * 10 ^ n + nat_of_digits ?b)"
  have "text_value li lf - text_value ri rf = of_int (x - y) / 10 ^ n"
    unfolding text_value_padded [OF len(1), of li] text_value_padded [OF len(2), of ri] x_def y_def
    by (simp add: diff_divide_distrib)
  then have sgn: "sgn (text_value li lf - text_value ri rf) = of_int (sgn (x - y))"
    by (simp add: sgn_if zero_less_divide_iff)
  have step: "p < q \<Longrightarrow> r < 10 ^ n \<Longrightarrow> p * 10 ^ n + r < q * 10 ^ n + s" for p q r s :: nat
  proof -
    assume "p < q" "r < 10 ^ n"
    then have "p * 10 ^ n + r < (p + 1) * 10 ^ n" by simp
    also have "\<dots> \<le> q * 10 ^ n" using \<open>p < q\<close> by (intro mult_right_mono) auto
    finally show ?thesis by simp
  qed
  have int_less: "nat_of_digits li < nat_of_digits ri \<Longrightarrow> x < y" "nat_of_digits ri < nat_of_digits li \<Longrightarrow> y < x"
    unfolding x_def y_def of_nat_less_iff using step bounds by blast+
  have "compare_unsigned_decimals left right = sgn (x - y)"
  proof (cases "length li = length ri")
    case False
    then consider "length ri < length li" | "length li < length ri" by linarith
    then show ?thesis
    proof cases
      case 1
      with canonical_longer L R int_less show ?thesis by (auto simp: compare_unsigned_decimals_def sp)
    next
      case 2
      with canonical_longer L R int_less show ?thesis by (auto simp: compare_unsigned_decimals_def sp)
    qed
  next
    case same: True
    show ?thesis
    proof (cases "li = ri")
      case True
      have "compare_unsigned_decimals left right = (if ?a = ?b then 0 else if str_less ?b ?a then 1 else - 1)"
        unfolding compare_unsigned_decimals_def sp prod.case Let_def n_def using True by (simp only: if_False simp_thms)
      also have "\<dots> = sgn (int (nat_of_digits ?a) - int (nat_of_digits ?b))" by (rule str_less_same_length [OF ab])
      also have "\<dots> = sgn (x - y)" unfolding x_def y_def True by simp
      finally show ?thesis .
    next
      case False
      have d: "list_all is_digit li" "list_all is_digit ri" using L R by blast+
      have "compare_unsigned_decimals left right = (if li = ri then 0 else if str_less ri li then 1 else - 1)"
        unfolding compare_unsigned_decimals_def sp prod.case using False same by (simp only: if_False if_True simp_thms)
      also have "\<dots> = sgn (int (nat_of_digits li) - int (nat_of_digits ri))" by (rule str_less_same_length [OF d same])
      also have "\<dots> = sgn (x - y)"
      proof (cases "nat_of_digits li < nat_of_digits ri")
        case True
        with int_less(1) show ?thesis by (simp add: sgn_if)
      next
        case ge: False
        with nat_of_digits_inj [OF d same] False have "nat_of_digits ri < nat_of_digits li" by linarith
        with int_less(2) show ?thesis by (simp add: sgn_if)
      qed
      finally show ?thesis .
    qed
  qed
  with sgn show ?thesis by simp
qed

text \<open>
  The comparison of amounts as texts is the comparison of the numbers they denote: on two
  canonical unsigned decimals of any length \<open>compareUnsignedDecimals\<close> returns the sign of the
  difference of their values.
\<close>

theorem compare_unsigned_decimals_exact:
  assumes "is_unsigned_decimal left" "is_unsigned_decimal right"
  shows "\<exists>x y. decimal_value left = Some x \<and> decimal_value right = Some y
    \<and> of_int (compare_unsigned_decimals left right) = sgn (x - y)"
proof -
  from assms obtain li lf ri rf where p: "unsigned_decimal left = Some (li, lf)" "unsigned_decimal right = Some (ri, rf)"
    by (auto simp: is_unsigned_decimal_def)
  have "decimal_value left = Some (text_value li lf)" "decimal_value right = Some (text_value ri rf)"
    using p by (simp_all add: decimal_value_def signed_decimal_unsigned signed_value_def)
  with compare_unsigned_sgn [OF p] show ?thesis by blast
qed

theorem compare_unsigned_decimals_exact_witness:
  "compare_unsigned_decimals ''1000.50'' ''999.99'' = 1"
proof -
  have u: "is_unsigned_decimal ''1000.50''" "is_unsigned_decimal ''999.99''"
    by (simp_all add: is_unsigned_decimal_def text_eval)
  have v: "decimal_value ''1000.50'' = Some (100050 / 100)" "decimal_value ''999.99'' = Some (99999 / 100)"
    by (simp_all add: text_eval)
  from compare_unsigned_decimals_exact [OF u] obtain x y where
    "decimal_value ''1000.50'' = Some x" "decimal_value ''999.99'' = Some y"
    "of_int (compare_unsigned_decimals ''1000.50'' ''999.99'') = sgn (x - y)" by (elim exE conjE) (rule that)
  with v have "(of_int (compare_unsigned_decimals ''1000.50'' ''999.99'') :: rat) = 1" by (auto simp: sgn_if)
  then show ?thesis by (simp only: of_int_eq_1_iff)
qed

section \<open>Properties of the decision\<close>

text \<open>When a delegation is required: a valid period that contains the instant, and the level.\<close>

definition period_contains :: "clock_lib \<Rightarrow> subject \<Rightarrow> int \<Rightarrow> bool" where
  "period_contains clock s now \<longleftrightarrow>
     (case su_from s of None \<Rightarrow> True | Some t \<Rightarrow> (case date_parse clock t of None \<Rightarrow> False | Some f \<Rightarrow> f \<le> now))
   \<and> (case su_until s of None \<Rightarrow> True | Some t \<Rightarrow> (case date_parse clock t of None \<Rightarrow> False | Some u \<Rightarrow> now \<le> u))"

definition within_limit :: "subject \<Rightarrow> string option \<Rightarrow> bool" where
  "within_limit s amount \<longleftrightarrow> (case amount of None \<Rightarrow> True | Some a \<Rightarrow>
     (\<exists>i f j g. unsigned_decimal a = Some (i, f) \<and> unsigned_decimal (su_maximum s) = Some (j, g)
        \<and> text_value i f \<le> text_value j g))"

definition in_scope :: "subject \<Rightarrow> resource \<Rightarrow> bool" where
  "in_scope s r \<longleftrightarrow> System_Admin \<in> set (su_roles s)
     \<or> \<not> out_of_scope (rs_entity r) (su_entities s) \<and> \<not> out_of_scope (rs_branch r) (su_branches s)
       \<and> \<not> out_of_scope (rs_pool r) (su_pools s)"

lemma delegation_reasons_Nil:
  "delegation_reasons clock now s required = [] \<longleftrightarrow> period_contains clock s now \<and> required \<le> su_level s"
  by (auto simp: delegation_reasons_def period_contains_def safe_optional_timestamp_def split: option.splits)

lemma amount_reasons_Nil: "amount_reasons s amount = [] \<longleftrightarrow> within_limit s amount"
proof (cases amount)
  case (Some a)
  show ?thesis
  proof (cases "unsigned_decimal a = None \<or> unsigned_decimal (su_maximum s) = None")
    case True
    with Some show ?thesis by (auto simp: amount_reasons_def within_limit_def is_unsigned_decimal_def)
  next
    case False
    then obtain i f j g where p: "unsigned_decimal a = Some (i, f)" "unsigned_decimal (su_maximum s) = Some (j, g)" by auto
    have "compare_unsigned_decimals a (su_maximum s) > 0 \<longleftrightarrow> text_value i f > text_value j g"
    proof -
      have "compare_unsigned_decimals a (su_maximum s) > 0 \<longleftrightarrow>
          (of_int (compare_unsigned_decimals a (su_maximum s)) :: rat) > 0" by simp
      also have "\<dots> \<longleftrightarrow> text_value i f > text_value j g" unfolding compare_unsigned_sgn [OF p] by (simp add: sgn_if)
      finally show ?thesis .
    qed
    with Some p show ?thesis by (auto simp: amount_reasons_def within_limit_def is_unsigned_decimal_def)
  qed
qed (simp add: amount_reasons_def within_limit_def)

lemma reason_if_Nil [simp]: "reason_if b d = [] \<longleftrightarrow> \<not> b"
  by (simp add: reason_if_def)

lemma evaluate_authorization_allowed:
  assumes "evaluate_authorization clock now request = Inr d" "aq_evaluated_at request = None"
  shows "(de_allowed d \<longleftrightarrow> de_reasons d = []) \<and> (de_allowed d \<longleftrightarrow>
       set (po_roles (aq_policy request)) \<inter> set (su_roles (aq_subject request)) \<noteq> {}
     \<and> in_scope (aq_subject request) (aq_resource request)
     \<and> (\<forall>allowed. po_statuses (aq_policy request) = Some allowed \<longrightarrow> \<not> out_of_scope (rs_status (aq_resource request)) allowed)
     \<and> (\<forall>level. po_level (aq_policy request) = Some level \<longrightarrow>
          period_contains clock (aq_subject request) now \<and> level \<le> su_level (aq_subject request))
     \<and> within_limit (aq_subject request) (aq_amount request)
     \<and> \<not> (\<exists>a. rs_previous_actor (aq_resource request) = Some a \<and> a \<noteq> [] \<and> a = su_user (aq_subject request)))"
  using assms unfolding evaluate_authorization_def Let_def and_then_Inr
  by (auto simp: delegation_reasons_Nil amount_reasons_Nil in_scope_def split: option.splits)

text \<open>
  C17. The authorization decision is complete: an evaluation at the current time never throws, and
  it allows the operation exactly when the subject has one of the allowed roles, the entity, the
  branch and the pool of the resource are in scope (or the subject is a system administrator), the
  workflow status is permitted, the required delegation level is held within a valid period that
  contains the instant, the amount does not exceed the limit as a number, and the subject is not
  the previous actor.
\<close>

theorem authorization_decision:
  assumes "aq_evaluated_at request = None"
  shows "\<exists>d. evaluate_authorization clock now request = Inr d
   \<and> (de_allowed d \<longleftrightarrow>
       set (po_roles (aq_policy request)) \<inter> set (su_roles (aq_subject request)) \<noteq> {}
     \<and> in_scope (aq_subject request) (aq_resource request)
     \<and> (\<forall>allowed. po_statuses (aq_policy request) = Some allowed \<longrightarrow> \<not> out_of_scope (rs_status (aq_resource request)) allowed)
     \<and> (\<forall>level. po_level (aq_policy request) = Some level \<longrightarrow>
          period_contains clock (aq_subject request) now \<and> level \<le> su_level (aq_subject request))
     \<and> within_limit (aq_subject request) (aq_amount request)
     \<and> \<not> (\<exists>a. rs_previous_actor (aq_resource request) = Some a \<and> a \<noteq> [] \<and> a = su_user (aq_subject request)))"
proof -
  have "\<exists>d. evaluate_authorization clock now request = Inr d"
    using assms by (simp add: evaluate_authorization_def Let_def)
  then show ?thesis using evaluate_authorization_allowed [OF _ assms] by blast
qed

definition example_subject :: subject where
  "example_subject = \<lparr>su_user = ''u'', su_roles = [Finance_Controller], su_entities = [], su_branches = [],
     su_pools = [''p1''], su_level = 3, su_maximum = ''1000'', su_from = None, su_until = None,
     su_review_due = None, su_manager = None\<rparr>"

definition example_request :: authorization_request where
  "example_request = \<lparr>aq_subject = example_subject,
     aq_resource = \<lparr>rs_entity = None, rs_branch = None, rs_pool = Some ''p1'', rs_status = None, rs_previous_actor = Some ''v''\<rparr>,
     aq_policy = \<lparr>po_operation = ''POST'', po_roles = [Finance_Controller], po_statuses = None, po_level = Some 3, po_sensitive = True\<rparr>,
     aq_amount = Some ''999.99'', aq_evaluated_at = None\<rparr>"

definition example_clock :: clock_lib where
  "example_clock = \<lparr>date_parse = (\<lambda>_. None), print_instant = (\<lambda>_. [])\<rparr>"

theorem authorization_decision_witness:
  "\<exists>d. evaluate_authorization example_clock 0 example_request = Inr d \<and> de_allowed d"
proof -
  have "unsigned_decimal ''999.99'' = Some (''999'', Some ''99'')" "unsigned_decimal ''1000'' = Some (''1000'', None)"
    by (simp_all add: text_eval)
  moreover have "text_value ''999'' (Some ''99'') \<le> text_value ''1000'' None" by (simp add: text_eval)
  ultimately have "within_limit example_subject (Some ''999.99'')" by (simp add: within_limit_def example_subject_def)
  moreover have "in_scope example_subject (aq_resource example_request)"
    by (simp add: in_scope_def example_request_def example_subject_def out_of_scope_def)
  moreover have "period_contains example_clock example_subject 0" by (simp add: period_contains_def example_subject_def)
  moreover have "aq_evaluated_at example_request = None" by (simp add: example_request_def)
  ultimately show ?thesis
    using authorization_decision [of example_request example_clock 0]
    by (auto simp: example_request_def example_subject_def)
qed

text \<open>
  When a request deserves a reason, read off the claims, the path and the body of the request: the
  specification of the guard.  The period of the delegation is judged before its level.
\<close>

definition amount_of :: "http_request \<Rightarrow> string option" where
  "amount_of r = optional_string (hr_body r ''amount'')"

definition scope_denied :: "http_request \<Rightarrow> string option \<Rightarrow> string list \<Rightarrow> bool" where
  "scope_denied r x xs \<longleftrightarrow> System_Admin \<notin> set (roles_from_claims (hr_user r)) \<and> (\<exists>i. x = Some i \<and> i \<noteq> [] \<and> i \<notin> set xs)"

definition period_reason :: "clock_lib \<Rightarrow> int \<Rightarrow> subject \<Rightarrow> rat \<Rightarrow> denial \<Rightarrow> bool" where
  "period_reason clock now s level d \<longleftrightarrow>
     (let bad = (\<exists>t. (su_from s = Some t \<or> su_until s = Some t) \<and> date_parse clock t = None)
        \<or> (\<exists>t u f g. su_from s = Some t \<and> su_until s = Some u \<and> date_parse clock t = Some f \<and> date_parse clock u = Some g \<and> g < f);
        early = (\<exists>t f. su_from s = Some t \<and> date_parse clock t = Some f \<and> now < f);
        late = (\<exists>t g. su_until s = Some t \<and> date_parse clock t = Some g \<and> g < now) in
      case d of Invalid_Delegation_Period \<Rightarrow> bad | Delegation_Not_Active \<Rightarrow> \<not> bad \<and> early
        | Delegation_Expired \<Rightarrow> \<not> bad \<and> \<not> early \<and> late
        | Insufficient_Delegation \<Rightarrow> \<not> bad \<and> \<not> early \<and> \<not> late \<and> su_level s < level | _ \<Rightarrow> False)"

definition denial_due :: "clock_lib \<Rightarrow> int \<Rightarrow> policy \<Rightarrow> http_request \<Rightarrow> denial \<Rightarrow> bool" where
  "denial_due clock now p r d \<longleftrightarrow> (let c = hr_user r; s = subject_from_claims c in case d of
     Role_Not_Allowed \<Rightarrow> set (po_roles p) \<inter> set (roles_from_claims c) = {}
   | Entity_Out_Of_Scope \<Rightarrow> scope_denied r (optional_string (hr_body r ''legalEntityId'')) (string_array (uc_entities c))
   | Branch_Out_Of_Scope \<Rightarrow> scope_denied r (optional_string (hr_body r ''branchId'')) (string_array (uc_branches c))
   | Pool_Out_Of_Scope \<Rightarrow> scope_denied r
       (case hr_pool_param r of Some i \<Rightarrow> Some i | None \<Rightarrow> optional_string (hr_body r ''poolId'')) (string_array (uc_pools c))
   | Status_Not_Allowed \<Rightarrow> (\<exists>allowed t. po_statuses p = Some allowed
       \<and> optional_string (hr_body r ''workflowStatus'') = Some t \<and> t \<noteq> [] \<and> t \<notin> set allowed)
   | Invalid_Amount \<Rightarrow> (\<exists>a. amount_of r = Some a \<and> (unsigned_decimal a = None \<or> unsigned_decimal (su_maximum s) = None))
   | Amount_Exceeds_Limit \<Rightarrow> (\<exists>a i f j g. amount_of r = Some a \<and> unsigned_decimal a = Some (i, f)
       \<and> unsigned_decimal (su_maximum s) = Some (j, g) \<and> text_value j g < text_value i f)
   | Previous_Actor_Conflict \<Rightarrow> uc_sub c \<noteq> [] \<and> optional_string (hr_body r ''previousActorId'') = Some (uc_sub c)
   | _ \<Rightarrow> (\<exists>level. po_level p = Some level \<and> period_reason clock now s level d))"

lemma period_reason_other [simp]:
  "\<not> period_reason clock now s level Role_Not_Allowed" "\<not> period_reason clock now s level Entity_Out_Of_Scope"
  "\<not> period_reason clock now s level Branch_Out_Of_Scope" "\<not> period_reason clock now s level Pool_Out_Of_Scope"
  "\<not> period_reason clock now s level Status_Not_Allowed" "\<not> period_reason clock now s level Invalid_Amount"
  "\<not> period_reason clock now s level Amount_Exceeds_Limit" "\<not> period_reason clock now s level Previous_Actor_Conflict"
  by (simp_all add: period_reason_def Let_def)

lemma delegation_reasons_due: "set (delegation_reasons clock now s level) = {d. period_reason clock now s level d}"
proof (rule set_eqI)
  fix d
  show "d \<in> set (delegation_reasons clock now s level) \<longleftrightarrow> d \<in> {d. period_reason clock now s level d}"
    by (cases d) (auto simp: delegation_reasons_def period_reason_def safe_optional_timestamp_def Let_def split: option.splits)
qed

lemma amount_reasons_due:
  "set (amount_reasons s amount) = {d. (d = Invalid_Amount \<and> (\<exists>a. amount = Some a
       \<and> (unsigned_decimal a = None \<or> unsigned_decimal (su_maximum s) = None)))
     \<or> (d = Amount_Exceeds_Limit \<and> (\<exists>a i f j g. amount = Some a \<and> unsigned_decimal a = Some (i, f)
       \<and> unsigned_decimal (su_maximum s) = Some (j, g) \<and> text_value j g < text_value i f))}"
proof (cases amount)
  case (Some a)
  have exceeds: "compare_unsigned_decimals a (su_maximum s) > 0 \<longleftrightarrow> text_value j g < text_value i f"
    if "unsigned_decimal a = Some (i, f)" "unsigned_decimal (su_maximum s) = Some (j, g)" for i f j g
  proof -
    have "compare_unsigned_decimals a (su_maximum s) > 0 \<longleftrightarrow>
        (of_int (compare_unsigned_decimals a (su_maximum s)) :: rat) > 0" by simp
    also have "\<dots> \<longleftrightarrow> text_value j g < text_value i f" unfolding compare_unsigned_sgn [OF that] by (simp add: sgn_if)
    finally show ?thesis .
  qed
  show ?thesis
    using Some exceeds by (cases "unsigned_decimal a"; cases "unsigned_decimal (su_maximum s)")
      (auto simp: amount_reasons_def is_unsigned_decimal_def)
qed (simp add: amount_reasons_def)

lemma set_reason_if: "set (reason_if b d) = {x. b \<and> x = d}"
  by (auto simp: reason_if_def)

lemma guard_decision:
  "\<exists>d. evaluate_authorization clock now \<lparr>aq_subject = subject_from_claims (hr_user r), aq_resource = request_resource r,
      aq_policy = p, aq_amount = optional_string (hr_body r ''amount''), aq_evaluated_at = None\<rparr> = Inr d
    \<and> (de_allowed d \<longleftrightarrow> de_reasons d = []) \<and> set (de_reasons d) = {x. denial_due clock now p r x}"
proof -
  let ?s = "subject_from_claims (hr_user r)" and ?q = "request_resource r"
  have s: "su_roles ?s = roles_from_claims (hr_user r)" "su_entities ?s = string_array (uc_entities (hr_user r))"
    "su_branches ?s = string_array (uc_branches (hr_user r))" "su_pools ?s = string_array (uc_pools (hr_user r))"
    "su_user ?s = uc_sub (hr_user r)" by (simp_all add: subject_from_claims_def)
  have scope: "(System_Admin \<notin> set (roles_from_claims (hr_user r)) \<and> out_of_scope x xs) = scope_denied r x xs" for x xs
    by (auto simp: scope_denied_def out_of_scope_def split: option.splits)
  have level: "set (case po_level p of None \<Rightarrow> [] | Some required \<Rightarrow> delegation_reasons clock now ?s required)
      = {d. \<exists>level. po_level p = Some level \<and> period_reason clock now ?s level d}"
    by (cases "po_level p") (simp_all add: delegation_reasons_due)
  let ?status = "case po_statuses p of None \<Rightarrow> False | Some allowed \<Rightarrow> out_of_scope (rs_status ?q) allowed"
  let ?previous = "case rs_previous_actor ?q of None \<Rightarrow> False | Some a \<Rightarrow> a \<noteq> [] \<and> a = su_user ?s"
  let ?reasons = "reason_if (\<not> (\<exists>role\<in>set (po_roles p). role \<in> set (su_roles ?s))) Role_Not_Allowed
    @ reason_if (scope_denied r (rs_entity ?q) (su_entities ?s)) Entity_Out_Of_Scope
    @ reason_if (scope_denied r (rs_branch ?q) (su_branches ?s)) Branch_Out_Of_Scope
    @ reason_if (scope_denied r (rs_pool ?q) (su_pools ?s)) Pool_Out_Of_Scope
    @ reason_if ?status Status_Not_Allowed
    @ (case po_level p of None \<Rightarrow> [] | Some required \<Rightarrow> delegation_reasons clock now ?s required)
    @ amount_reasons ?s (optional_string (hr_body r ''amount'')) @ reason_if ?previous Previous_Actor_Conflict"
  define d where "d = \<lparr>de_allowed = (length ?reasons = 0), de_reasons = ?reasons\<rparr>"
  have d: "evaluate_authorization clock now \<lparr>aq_subject = ?s, aq_resource = ?q, aq_policy = p,
      aq_amount = optional_string (hr_body r ''amount''), aq_evaluated_at = None\<rparr> = Inr d"
    unfolding d_def scope [symmetric] s(1) [symmetric] by (simp only: evaluate_authorization_def Let_def authorization_request.simps
      option.case and_then_def sum.case)
  have allowed: "de_allowed d \<longleftrightarrow> de_reasons d = []" unfolding d_def decision.simps length_0_conv by (rule refl)
  have "x \<in> set (de_reasons d) \<longleftrightarrow> denial_due clock now p r x" for x
  proof -
    have "set (de_reasons d) = {x. (\<not> (\<exists>role\<in>set (po_roles p). role \<in> set (su_roles ?s))) \<and> x = Role_Not_Allowed}
        \<union> ({x. scope_denied r (rs_entity ?q) (su_entities ?s) \<and> x = Entity_Out_Of_Scope}
        \<union> ({x. scope_denied r (rs_branch ?q) (su_branches ?s) \<and> x = Branch_Out_Of_Scope}
        \<union> ({x. scope_denied r (rs_pool ?q) (su_pools ?s) \<and> x = Pool_Out_Of_Scope}
        \<union> ({x. ?status \<and> x = Status_Not_Allowed}
        \<union> ({d. \<exists>level. po_level p = Some level \<and> period_reason clock now ?s level d}
        \<union> (set (amount_reasons ?s (optional_string (hr_body r ''amount'')))
        \<union> {x. ?previous \<and> x = Previous_Actor_Conflict}))))))"
      unfolding d_def decision.simps set_append set_reason_if level by (rule refl)
    moreover have "?status \<longleftrightarrow> (\<exists>allowed t. po_statuses p = Some allowed
        \<and> optional_string (hr_body r ''workflowStatus'') = Some t \<and> t \<noteq> [] \<and> t \<notin> set allowed)"
      by (simp add: request_resource_def out_of_scope_def split: option.splits)
    moreover have "?previous \<longleftrightarrow> uc_sub (hr_user r) \<noteq> [] \<and> optional_string (hr_body r ''previousActorId'') = Some (uc_sub (hr_user r))"
      by (auto simp: request_resource_def s split: option.splits)
    moreover have "(\<not> (\<exists>role\<in>set (po_roles p). role \<in> set (su_roles ?s))) \<longleftrightarrow> set (po_roles p) \<inter> set (roles_from_claims (hr_user r)) = {}"
      unfolding s by blast
    ultimately show ?thesis
      by (cases x) (simp_all add: amount_reasons_due denial_due_def amount_of_def s request_resource_def Let_def)
  qed
  with d allowed show ?thesis by blast
qed

definition guard_headers :: "policy option \<Rightarrow> http_request \<Rightarrow> bool" where
  "guard_headers policy r \<longleftrightarrow> (\<exists>c. optional_string (hr_correlation r) = Some c \<and> is_uuid c)
     \<and> (\<forall>p. policy = Some p \<longrightarrow> po_sensitive p \<longrightarrow> \<not> is_safe_method (hr_method r)
          \<longrightarrow> (\<exists>k. optional_string (hr_idempotency r) = Some k \<and> safe_key 16 128 k))"

text \<open>
  C18. The guard is fail-closed and its audit exact.  A request passes only to a public route, or with a
  UUID as correlation identifier and either no policy or no reason against it: an idempotency key when
  the operation is sensitive and the method unsafe, an allowed role, entity, branch and pool in scope (or a
  system administrator), a permitted workflow status, the required delegation within its period, a
  readable amount within the limit, and a user other than the previous actor, all as the claims, the path
  and the body of the request give them.  A request that is forbidden is so for exactly the reasons
  that apply, and one denial with these reasons, the actor, the operation, the resource, the session and
  the address of the request is handed to the audit trail; nothing else is.  Without the headers the
  request is refused as a bad one, and the guard never throws otherwise.
\<close>

theorem guard_fail_closed:
  "case can_activate clock now public_route policy r of
     (Inr _, events) \<Rightarrow> events = [] \<and> (public_route \<or> (guard_headers policy r
       \<and> (case policy of None \<Rightarrow> True | Some p \<Rightarrow> (\<nexists>d. denial_due clock now p r d))))
   | (Inl (Forbidden reasons c), events) \<Rightarrow> \<not> public_route \<and> guard_headers policy r \<and> reasons \<noteq> []
       \<and> (\<exists>p. policy = Some p \<and> set reasons = {d. denial_due clock now p r d}
         \<and> optional_string (hr_correlation r) = Some c
         \<and> events = [\<lparr>dv_correlation = c, dv_actor = uc_sub (hr_user r), dv_action = po_operation p,
              dv_resource = authorization_resource_id p (request_resource r),
              dv_session = non_empty (optional_string (uc_sid (hr_user r))), dv_address = non_empty (hr_address r),
              dv_reasons = reasons, dv_decided = request_resource r\<rparr>])
   | (Inl (Bad_Request _), events) \<Rightarrow> events = [] \<and> \<not> public_route \<and> \<not> guard_headers policy r
   | (Inl (Thrown _), _) \<Rightarrow> False"
proof (cases policy)
  case None
  then show ?thesis by (auto simp: can_activate_def guard_headers_def split: option.splits)
next
  case (Some p)
  obtain d where d: "evaluate_authorization clock now \<lparr>aq_subject = subject_from_claims (hr_user r), aq_resource = request_resource r,
      aq_policy = p, aq_amount = optional_string (hr_body r ''amount''), aq_evaluated_at = None\<rparr> = Inr d"
    and allowed: "de_allowed d \<longleftrightarrow> de_reasons d = []" and reasons: "set (de_reasons d) = {x. denial_due clock now p r x}"
    using guard_decision [of clock now r p] by blast
  from reasons have none: "de_reasons d = [] \<longleftrightarrow> (\<nexists>x. denial_due clock now p r x)" by (auto simp flip: set_empty)
  show ?thesis
    using allowed reasons none
    by (auto simp: can_activate_def guard_headers_def Some d split: option.splits)
qed

definition example_claims :: user_claims where
  "example_claims = \<lparr>uc_sub = ''u'', uc_sid = None, uc_roles = Some (Claim_Array [Claim_Text ''FINANCE_CONTROLLER'']),
     uc_groups = None, uc_entities = None, uc_branches = None, uc_pools = None, uc_level = None, uc_maximum = None,
     uc_from = None, uc_until = None, uc_review_due = None, uc_manager = None\<rparr>"

definition example_http :: http_request where
  "example_http = \<lparr>hr_method = ''GET'', hr_correlation = Some (Claim_Text ''11111111-1111-4111-8111-111111111111''),
     hr_idempotency = None, hr_user = example_claims, hr_pool_param = None, hr_address = None, hr_body = (\<lambda>_. None)\<rparr>"

definition example_policy :: policy where
  "example_policy = \<lparr>po_operation = ''READ'', po_roles = [Finance_Controller], po_statuses = None, po_level = None,
     po_sensitive = False\<rparr>"

lemma example_guard_run: "can_activate example_clock 0 False (Some example_policy) example_http = (Inr (), [])"
proof -
  have u: "is_uuid ''11111111-1111-4111-8111-111111111111''" by code_simp
  have r: "roles_from_claims example_claims = [Finance_Controller]" by code_simp
  have e: "evaluate_authorization example_clock 0 \<lparr>aq_subject = subject_from_claims example_claims,
     aq_resource = request_resource example_http, aq_policy = example_policy, aq_amount = None, aq_evaluated_at = None\<rparr>
     = Inr \<lparr>de_allowed = True, de_reasons = []\<rparr>"
    by (simp add: evaluate_authorization_def subject_from_claims_def r request_resource_def example_http_def
      example_policy_def optional_string_def out_of_scope_def amount_reasons_def reason_if_def)
  show ?thesis
    using u e by (simp add: can_activate_def example_http_def example_policy_def optional_string_def)
qed

end
