(* ===== verification/Effects.thy ===== *)
theory Effects
  imports Pms_Prelude
begin

text \<open>
  Asynchronous code that changes a store and may throw: an action maps the state to its outcome
  and the new state, and a state changed before a throw stays changed.  \<open>and_do\<close> is \<open>await\<close>
  followed by the rest of the function, \<open>recover\<close> is \<open>try ... catch\<close>.
\<close>

type_synonym ('s, 'a) action = "'s \<Rightarrow> 'a res \<times> 's"

definition give :: "'a \<Rightarrow> ('s, 'a) action" where
  "give x s = (Inr x, s)"

definition throw :: "js_error \<Rightarrow> ('s, 'a) action" where
  "throw e s = (Inl e, s)"

definition lift_res :: "'a res \<Rightarrow> ('s, 'a) action" where
  "lift_res r s = (r, s)"

definition and_do :: "('s, 'a) action \<Rightarrow> ('a \<Rightarrow> ('s, 'b) action) \<Rightarrow> ('s, 'b) action" where
  "and_do m f s = (case m s of (Inl e, s') \<Rightarrow> (Inl e, s') | (Inr x, s') \<Rightarrow> f x s')"

definition recover :: "('s, 'a) action \<Rightarrow> (js_error \<Rightarrow> ('s, 'a) action) \<Rightarrow> ('s, 'a) action" where
  "recover m h s = (case m s of (Inl e, s') \<Rightarrow> h e s' | (Inr x, s') \<Rightarrow> (Inr x, s'))"

lemma action_simps [simp]:
  "give x s = (Inr x, s)" "throw e s = (Inl e, s)" "lift_res r s = (r, s)"
  by (simp_all add: give_def throw_def lift_res_def)

lemma and_do_simps:
  "m s = (Inl e, s') \<Longrightarrow> and_do m f s = (Inl e, s')"
  "m s = (Inr x, s') \<Longrightarrow> and_do m f s = f x s'"
  by (simp_all add: and_do_def)

lemma recover_simps:
  "m s = (Inl e, s') \<Longrightarrow> recover m h s = h e s'"
  "m s = (Inr x, s') \<Longrightarrow> recover m h s = (Inr x, s')"
  by (simp_all add: recover_def)

lemma and_do_Inr [outcome]:
  "and_do m f s = (Inr y, t) \<longleftrightarrow> (\<exists>x s'. m s = (Inr x, s') \<and> f x s' = (Inr y, t))"
  by (auto simp: and_do_def split: prod.splits sum.splits)

lemma and_do_Inl [outcome]:
  "and_do m f s = (Inl e, t) \<longleftrightarrow> m s = (Inl e, t) \<or> (\<exists>x s'. m s = (Inr x, s') \<and> f x s' = (Inl e, t))"
  by (auto simp: and_do_def split: prod.splits sum.splits)

lemma recover_Inr [outcome]:
  "recover m h s = (Inr y, t) \<longleftrightarrow> m s = (Inr y, t) \<or> (\<exists>e s'. m s = (Inl e, s') \<and> h e s' = (Inr y, t))"
  by (auto simp: recover_def split: prod.splits sum.splits)

lemma recover_Inl [outcome]:
  "recover m h s = (Inl e, t) \<longleftrightarrow> (\<exists>e' s'. m s = (Inl e', s') \<and> h e' s' = (Inl e, t))"
  by (auto simp: recover_def split: prod.splits sum.splits)

lemma and_do_assoc: "and_do (and_do m f) g = and_do m (\<lambda>x. and_do (f x) g)"
  by (rule ext) (simp add: and_do_def split: prod.splits sum.splits)

lemma and_do_give [simp]: "and_do (give x) f = f x"
  by (rule ext) (simp add: and_do_def)

text \<open>A database transaction: what it wrote before a throw is rolled back.\<close>

definition transaction :: "('s \<Rightarrow> ('a \<times> 's) res) \<Rightarrow> ('s, 'a) action" where
  "transaction f s = (case f s of Inl e \<Rightarrow> (Inl e, s) | Inr (x, s') \<Rightarrow> (Inr x, s'))"

lemma transaction_Inr [outcome]: "transaction f s = (Inr x, s') \<longleftrightarrow> f s = Inr (x, s')"
  by (auto simp: transaction_def split: sum.splits prod.splits)

lemma transaction_Inl [outcome]: "transaction f s = (Inl e, s') \<longleftrightarrow> f s = Inl e \<and> s' = s"
  by (auto simp: transaction_def split: sum.splits prod.splits)

text \<open>A state property every action of a chain preserves.\<close>

definition keeps :: "('s \<Rightarrow> bool) \<Rightarrow> ('s, 'a) action \<Rightarrow> bool" where
  "keeps P m \<longleftrightarrow> (\<forall>s. P s \<longrightarrow> P (snd (m s)))"

named_theorems keeps_rule \<open>preservation of a state property along an action\<close>

lemma keepsD: "keeps P m \<Longrightarrow> P s \<Longrightarrow> m s = (r, s') \<Longrightarrow> P s'"
  unfolding keeps_def by (metis snd_conv)

lemma keeps_give [keeps_rule]: "keeps P (give x)" "keeps P (throw e)" "keeps P (lift_res r)"
  by (simp_all add: keeps_def)

lemma keeps_and_do [keeps_rule]: "keeps P m \<Longrightarrow> (\<And>x. keeps P (f x)) \<Longrightarrow> keeps P (and_do m f)"
  unfolding keeps_def and_do_def by (auto split: prod.splits sum.splits)

lemma keeps_recover [keeps_rule]: "keeps P m \<Longrightarrow> (\<And>e. keeps P (h e)) \<Longrightarrow> keeps P (recover m h)"
  unfolding keeps_def recover_def by (auto split: prod.splits sum.splits)

lemma keeps_if [keeps_rule]: "keeps P m \<Longrightarrow> keeps P n \<Longrightarrow> keeps P (if b then m else n)"
  by simp

end
