(* ===== verification/Json.thy ===== *)
theory Json
  imports Pms_Prelude
begin

text \<open>
  JSON values and their printing: the escapes of \<open>JSON.stringify\<close> on strings, and the canonical
  form of \<open>src/modules/audit/domain/audit-chain.ts\<close>, whose keys are sorted with
  \<open>localeCompare\<close>.  \<open>localeCompare\<close>, the printing of numbers and SHA-256 are parameters.
\<close>

datatype json = J_Null | J_Undefined | J_Bool bool | J_String string | J_Number jsnum
  | J_Array "json list" | J_Object "(string \<times> json) list"

record json_lib =
  locale_compare :: "string \<Rightarrow> string \<Rightarrow> int"
  print_number :: "rat \<Rightarrow> string"
  sha256 :: "string \<Rightarrow> string"

section \<open>Strings\<close>

definition hex_char :: "nat \<Rightarrow> char" where
  "hex_char d = (if d < 10 then char_of (48 + d) else char_of (87 + d))"

definition escape_char :: "char \<Rightarrow> string" where
  "escape_char c =
     (if c = CHR 0x22 then [CHR 0x5C, CHR 0x22] else if c = CHR 0x5C then [CHR 0x5C, CHR 0x5C]
      else if code c = 8 then [CHR 0x5C, CHR ''b''] else if code c = 12 then [CHR 0x5C, CHR ''f'']
      else if code c = 10 then [CHR 0x5C, CHR ''n''] else if code c = 13 then [CHR 0x5C, CHR ''r'']
      else if code c = 9 then [CHR 0x5C, CHR ''t'']
      else if code c < 32 then CHR 0x5C # ''u00'' @ [hex_char (code c div 16), hex_char (code c mod 16)]
      else [c])"

definition quote_string :: "string \<Rightarrow> string" where
  "quote_string s = CHR 0x22 # concat (map escape_char s) @ [CHR 0x22]"

fun join_texts :: "string \<Rightarrow> string list \<Rightarrow> string" where
  "join_texts sep [] = []"
| "join_texts sep [t] = t"
| "join_texts sep (t # ts) = t @ sep @ join_texts sep ts"

section \<open>The canonical form\<close>

definition is_undefined :: "json \<Rightarrow> bool" where
  "is_undefined v = (case v of J_Undefined \<Rightarrow> True | _ \<Rightarrow> False)"

lemma size_entry [termination_simp]: "kv \<in> set kvs \<Longrightarrow> size (snd kv) < Suc (size_list (size_prod (\<lambda>_. 0) size) kvs)"
  by (induction kvs) auto

lemma size_element [termination_simp]: "v \<in> set vs \<Longrightarrow> size v < Suc (size_list size vs)"
  by (induction vs) auto

fun canonical_json :: "json_lib \<Rightarrow> json \<Rightarrow> string res" where
  "canonical_json lib J_Null = Inr ''null''"
| "canonical_json lib (J_Bool b) = Inr (if b then ''true'' else ''false'')"
| "canonical_json lib (J_String s) = Inr (quote_string s)"
| "canonical_json lib (J_Number x) = (case x of Num q \<Rightarrow> Inr (print_number lib q)
     | _ \<Rightarrow> Inl (TypeError ''Audit payload contains a non-finite number''))"
| "canonical_json lib (J_Array vs) =
     and_then (traverse (canonical_json lib) vs) (\<lambda>ts. Inr (''['' @ join_texts '','' ts @ '']''))"
| "canonical_json lib (J_Object kvs) =
     and_then (traverse (\<lambda>kv. and_then (canonical_json lib (snd kv)) (\<lambda>t. Inr (quote_string (fst kv) @ '':'' @ t)))
       (sort_by (\<lambda>a b. locale_compare lib (fst a) (fst b)) (filter (\<lambda>kv. \<not> is_undefined (snd kv)) kvs)))
     (\<lambda>ts. Inr (''{'' @ join_texts '','' ts @ ''}''))"
| "canonical_json lib J_Undefined = Inl (TypeError ''Audit payload contains an unsupported value'')"

lemma canonical_object_ok:
  assumes "\<forall>v\<in>snd ` set kvs. is_undefined v \<or> ok (canonical_json lib v)"
  shows "ok (canonical_json lib (J_Object kvs))"
proof -
  have "ok (and_then (canonical_json lib (snd kv)) (\<lambda>t. Inr (quote_string (fst kv) @ '':'' @ t)))"
    if "kv \<in> set kvs" "\<not> is_undefined (snd kv)" for kv using assms that by (auto simp: ok_iff)
  then show ?thesis by (simp add: ok_and_then traverse_ok_iff) (auto simp: ok_iff traverse_ok_iff [unfolded ok_iff] and_then_Inr)
qed

lemma canonical_array_ok: "(\<And>v. v \<in> set vs \<Longrightarrow> ok (canonical_json lib v)) \<Longrightarrow> ok (canonical_json lib (J_Array vs))"
  by (simp add: ok_and_then traverse_ok_iff) (auto simp: ok_iff traverse_ok_iff [unfolded ok_iff])

section \<open>\<open>JSON.stringify\<close>\<close>

fun stringify :: "json_lib \<Rightarrow> json \<Rightarrow> string" where
  "stringify lib J_Null = ''null''"
| "stringify lib J_Undefined = ''null''"
| "stringify lib (J_Bool b) = (if b then ''true'' else ''false'')"
| "stringify lib (J_String s) = quote_string s"
| "stringify lib (J_Number x) = (case x of Num q \<Rightarrow> print_number lib q | _ \<Rightarrow> ''null'')"
| "stringify lib (J_Array vs) = ''['' @ join_texts '','' (map (stringify lib) vs) @ '']''"
| "stringify lib (J_Object kvs) = ''{'' @ join_texts '',''
     (map (\<lambda>kv. quote_string (fst kv) @ '':'' @ stringify lib (snd kv)) (filter (\<lambda>kv. \<not> is_undefined (snd kv)) kvs)) @ ''}''"

section \<open>Changing one text changes the canonical form\<close>

lemma code_eq: "(code c = code d) = (c = d)"
  by (rule code_inj)

lemma code_hex_char: "k < 16 \<Longrightarrow> code (hex_char k) = (if k < 10 then 48 + k else 87 + k)"
  by (simp add: hex_char_def)

lemma hex_char_inj:
  assumes "m < 16" "n < 16" "hex_char m = hex_char n"
  shows "m = n"
proof -
  have "code (hex_char m) = code (hex_char n)" using assms(3) by simp
  then show ?thesis unfolding code_hex_char [OF assms(1)] code_hex_char [OF assms(2)] by (auto split: if_splits)
qed

text \<open>A plain character stands for itself, any other is a backslash and a letter.\<close>

definition plain_char :: "char \<Rightarrow> bool" where
  "plain_char c \<longleftrightarrow> 32 \<le> code c \<and> c \<noteq> CHR 0x22 \<and> c \<noteq> CHR 0x5C"

definition escape_letter :: "char \<Rightarrow> char" where
  "escape_letter c = (if c = CHR 0x22 then CHR 0x22 else if c = CHR 0x5C then CHR 0x5C
     else if code c = 8 then CHR ''b'' else if code c = 12 then CHR ''f'' else if code c = 10 then CHR ''n''
     else if code c = 13 then CHR ''r'' else if code c = 9 then CHR ''t'' else CHR ''u'')"

lemma escape_plain: "plain_char c \<Longrightarrow> escape_char c = [c]"
  by (simp add: plain_char_def escape_char_def)

lemma escape_other:
  "\<not> plain_char c \<Longrightarrow> escape_char c = CHR 0x5C # escape_letter c #
     (if escape_letter c = CHR ''u'' then ''00'' @ [hex_char (code c div 16), hex_char (code c mod 16)] else [])"
  by (cases "code c < 32") (auto simp: plain_char_def escape_char_def escape_letter_def)

lemma code_unique: "code c = n \<Longrightarrow> code d = n \<Longrightarrow> c = d"
  by (simp add: code_inj [symmetric])

definition letter_code :: "char \<Rightarrow> nat" where
  "letter_code l = (if l = CHR 0x22 then 34 else if l = CHR 0x5C then 92 else if l = CHR ''b'' then 8
     else if l = CHR ''f'' then 12 else if l = CHR ''n'' then 10 else if l = CHR ''r'' then 13 else 9)"

lemma letter_code: "escape_letter c \<noteq> CHR ''u'' \<Longrightarrow> code c = letter_code (escape_letter c)"
  unfolding escape_letter_def by (simp add: letter_code_def split: if_splits)

lemma escape_letter_inj: "escape_letter c = escape_letter d \<Longrightarrow> escape_letter c \<noteq> CHR ''u'' \<Longrightarrow> c = d"
  using letter_code [of c] letter_code [of d] by (simp add: code_unique)

lemma escape_char_head: "\<exists>c' cs. escape_char c = c' # cs \<and> c' \<noteq> CHR 0x22"
  by (cases "plain_char c") (simp_all add: escape_plain escape_other, simp add: plain_char_def)

lemma escape_char_prefix:
  assumes "escape_char c @ x = escape_char d @ y"
  shows "c = d \<and> x = y"
proof (cases "plain_char c")
  case c: True
  show ?thesis
  proof (cases "plain_char d")
    case True
    with c assms show ?thesis by (simp add: escape_plain)
  next
    case False
    with c assms show ?thesis by (simp add: escape_plain escape_other) (simp add: plain_char_def)
  qed
next
  case c: False
  show ?thesis
  proof (cases "plain_char d")
    case True
    with c assms show ?thesis by (simp add: escape_plain escape_other) (simp add: plain_char_def)
  next
    case False
    with c assms have l: "escape_letter c = escape_letter d" by (simp add: escape_other)
    show ?thesis
    proof (cases "escape_letter c = CHR ''u''")
      case True
      with l c False assms have h: "hex_char (code c div 16) = hex_char (code d div 16)"
        "hex_char (code c mod 16) = hex_char (code d mod 16)" "x = y" by (simp_all add: escape_other)
      have "code c < 256" "code d < 256" by simp_all
      then have "code c div 16 = code d div 16" "code c mod 16 = code d mod 16"
        using hex_char_inj [OF _ _ h(1)] hex_char_inj [OF _ _ h(2)] by (simp_all add: less_mult_imp_div_less)
      then have "code c = code d" by (metis mult_div_mod_eq)
      with h show ?thesis by (simp add: code_inj)
    next
      case other: False
      from escape_letter_inj [OF l other] l c False assms other show ?thesis by (simp add: escape_other)
    qed
  qed
qed

lemma escaped_inj:
  "concat (map escape_char a) @ [CHR 0x22] = concat (map escape_char b) @ [CHR 0x22] \<Longrightarrow> a = b"
proof (induction a arbitrary: b)
  case Nil
  show ?case
  proof (cases b)
    case (Cons d b')
    obtain c' cs where "escape_char d = c' # cs" "c' \<noteq> CHR 0x22" using escape_char_head by blast
    with Nil Cons show ?thesis by simp
  qed simp
next
  case (Cons c a)
  obtain c' cs where "escape_char c = c' # cs" "c' \<noteq> CHR 0x22" using escape_char_head by blast
  with Cons.prems obtain d b' where b: "b = d # b'" by (cases b) auto
  with Cons.prems have "escape_char c @ (concat (map escape_char a) @ [CHR 0x22]) = escape_char d @ (concat (map escape_char b') @ [CHR 0x22])"
    by simp
  from escape_char_prefix [OF this] Cons.IH [of b'] b show ?case by blast
qed

lemma quote_string_inj: "quote_string a = quote_string b \<Longrightarrow> a = b"
  unfolding quote_string_def by (auto intro: escaped_inj)

lemma join_texts_middle: "\<exists>p s. \<forall>t. join_texts sep (xs @ t # ys) = p @ t @ s"
proof (induction xs)
  case Nil
  show ?case
  proof (cases ys)
    case Nil
    then show ?thesis by (intro exI [of _ "[]"]) simp
  next
    case (Cons y ys')
    then show ?thesis by (intro exI [of _ "[]"] exI [of _ "sep @ join_texts sep ys"]) simp
  qed
next
  case (Cons x xs)
  then obtain p s where "\<forall>t. join_texts sep (xs @ t # ys) = p @ t @ s" by blast
  moreover have "join_texts sep ((x # xs) @ t # ys) = x @ sep @ join_texts sep (xs @ t # ys)" for t
    by (cases "xs @ t # ys") auto
  ultimately show ?case by (intro exI [of _ "x @ sep @ p"] exI [of _ s]) simp
qed

lemma traverse_append:
  "traverse f (xs @ ys) = and_then (traverse f xs) (\<lambda>us. and_then (traverse f ys) (\<lambda>vs. Inr (us @ vs)))"
  by (induction xs) (simp_all add: and_then_assoc, cases "traverse f ys", simp_all)

lemma insert_by_map: "(\<And>a b. cmp (f a) (f b) = cmp a b) \<Longrightarrow> insert_by cmp (f x) (map f ys) = map f (insert_by cmp x ys)"
  by (induction ys) auto

lemma sort_by_map: "(\<And>a b. cmp (f a) (f b) = cmp a b) \<Longrightarrow> sort_by cmp (map f xs) = map f (sort_by cmp xs)"
  by (induction xs) (simp_all add: insert_by_map)

definition replace_text :: "string \<Rightarrow> string \<Rightarrow> string \<times> json \<Rightarrow> string \<times> json" where
  "replace_text k b kv = (if fst kv = k then (k, J_String b) else kv)"

lemma fst_replace_text [simp]: "fst (replace_text k b kv) = fst kv"
  by (simp add: replace_text_def)

text \<open>Values with the same canonical forms under the same keys give the same canonical form.\<close>

lemma canonical_object_cong:
  assumes "\<And>kv. kv \<in> set kvs \<Longrightarrow> canonical_json lib (snd (g kv)) = canonical_json lib (snd kv)"
    "\<And>kv. fst (g kv) = fst kv" "\<And>kv. kv \<in> set kvs \<Longrightarrow> is_undefined (snd (g kv)) = is_undefined (snd kv)"
  shows "canonical_json lib (J_Object (map g kvs)) = canonical_json lib (J_Object kvs)"
proof -
  let ?P = "\<lambda>kv. \<not> is_undefined (snd kv)" and ?cmp = "\<lambda>x y. locale_compare lib (fst x) (fst y)"
  let ?f = "\<lambda>kv. and_then (canonical_json lib (snd kv)) (\<lambda>t. Inr (quote_string (fst kv) @ '':'' @ t))"
  have "filter ?P (map g kvs) = map g (filter ?P kvs)" using assms(3) by (simp add: filter_map o_def cong: filter_cong)
  then have "sort_by ?cmp (filter ?P (map g kvs)) = map g (sort_by ?cmp (filter ?P kvs))" by (simp add: sort_by_map assms(2))
  moreover have "traverse ?f (map g xs) = traverse ?f xs" if "set xs \<subseteq> set kvs" for xs
    using that by (induction xs) (simp_all add: assms(1,2))
  moreover have "set (sort_by ?cmp (filter ?P kvs)) \<subseteq> set kvs" by auto
  ultimately show ?thesis by simp
qed

text \<open>Objects whose keys are different texts that the order tells apart.\<close>

fun told_apart :: "json_lib \<Rightarrow> json \<Rightarrow> bool" where
  "told_apart lib (J_Array vs) \<longleftrightarrow> (\<forall>v\<in>set vs. told_apart lib v)"
| "told_apart lib (J_Object kvs) \<longleftrightarrow> distinct (map fst kvs)
     \<and> (\<forall>a\<in>set kvs. \<forall>b\<in>set kvs. fst a \<noteq> fst b \<longrightarrow> locale_compare lib (fst a) (fst b) \<noteq> 0)
     \<and> (\<forall>kv\<in>set kvs. told_apart lib (snd kv))"
| "told_apart lib v \<longleftrightarrow> True"

lemma canonical_replace:
  assumes "distinct (map fst es)" "(k, J_String a) \<in> set es" "a \<noteq> b"
    "canonical_json lib (J_Object es) = Inr t" "canonical_json lib (J_Object (map (replace_text k b) es)) = Inr t'"
  shows "t \<noteq> t'"
proof -
  let ?P = "\<lambda>kv. \<not> is_undefined (snd kv)" and ?cmp = "\<lambda>x y. locale_compare lib (fst x) (fst y)"
  let ?f = "\<lambda>kv. and_then (canonical_json lib (snd kv)) (\<lambda>t. Inr (quote_string (fst kv) @ '':'' @ t))"
  have only: "kv = (k, J_String a)" if "kv \<in> set es" "fst kv = k" for kv
    using eq_key_imp_eq_value [OF assms(1), of k "snd kv" "J_String a"] assms(2) that by (cases kv) auto
  have "?P (replace_text k b kv) = ?P kv" if "kv \<in> set es" for kv
    using only [OF that] by (cases kv) (auto simp: replace_text_def is_undefined_def)
  then have "filter ?P (map (replace_text k b) es) = map (replace_text k b) (filter ?P es)"
    by (simp add: filter_map o_def cong: filter_cong)
  then have sorted: "sort_by ?cmp (filter ?P (map (replace_text k b) es)) = map (replace_text k b) (sort_by ?cmp (filter ?P es))"
    by (simp add: sort_by_map)
  define L where "L = sort_by ?cmp (filter ?P es)"
  have "(k, J_String a) \<in> set L" using assms(2) by (simp add: L_def is_undefined_def)
  then obtain xs ys where L: "L = xs @ (k, J_String a) # ys" by (meson split_list)
  have "distinct es" using assms(1) by (simp add: distinct_map)
  then have "distinct L" by (simp add: L_def)
  have fixed: "map (replace_text k b) xs = xs" "map (replace_text k b) ys = ys"
  proof -
    have "set L \<subseteq> set es" by (auto simp: L_def)
    then have sub: "set xs \<subseteq> set es" "set ys \<subseteq> set es" by (auto simp: L)
    have out: "(k, J_String a) \<notin> set xs" "(k, J_String a) \<notin> set ys" using \<open>distinct L\<close> L by auto
    have other: "fst kv \<noteq> k" if kv: "kv \<in> set xs \<or> kv \<in> set ys" for kv
    proof
      assume "fst kv = k"
      moreover have "kv \<in> set es" using kv sub by blast
      ultimately have "kv = (k, J_String a)" by (intro only)
      with kv out show False by simp
    qed
    show "map (replace_text k b) xs = xs" using other by (intro map_idI) (simp add: replace_text_def)
    show "map (replace_text k b) ys = ys" using other by (intro map_idI) (simp add: replace_text_def)
  qed
  have L': "map (replace_text k b) L = xs @ (k, J_String b) # ys" using fixed by (simp add: L replace_text_def)
  from assms(4) obtain ts where ts: "traverse ?f L = Inr ts" "t = ''{'' @ join_texts '','' ts @ ''}''"
    by (auto simp: and_then_Inr simp flip: L_def)
  from assms(5) obtain ts' where ts': "traverse ?f (map (replace_text k b) L) = Inr ts'" "t' = ''{'' @ join_texts '','' ts' @ ''}''"
    unfolding canonical_json.simps sorted by (auto simp: and_then_Inr simp flip: L_def)
  from ts(1) ts'(1) obtain us vs where "ts = us @ (quote_string k @ '':'' @ quote_string a) # vs"
      "ts' = us @ (quote_string k @ '':'' @ quote_string b) # vs"
    unfolding L' unfolding L traverse_append by (auto simp: and_then_Inr)
  moreover obtain p s where "\<forall>t. join_texts '','' (us @ t # vs) = p @ t @ s" using join_texts_middle by blast
  ultimately show ?thesis using ts(2) ts'(2) assms(3) quote_string_inj by auto
qed

end
