(* ===== verification/Inbox.thy ===== *)
theory Inbox
  imports Effects Json
begin

text \<open>
  Exactly-once consumption of messages: the consumer of
  \<open>src/infrastructure/messaging/idempotent-consumer.ts\<close>, the interface of
  \<open>message-contracts.ts\<close> and the repository of
  \<open>src/infrastructure/persistence/postgres-inbox.repository.ts\<close> on its table, with the time
  of the database in milliseconds.
\<close>

section \<open>The consumer\<close>

record outbox_message =
  ms_event_id :: string
  ms_event_type :: string
  ms_schema_version :: int
  ms_aggregate_type :: string
  ms_aggregate_id :: string
  ms_correlation :: string
  ms_causation :: "string option"
  ms_occurred_at :: string
  ms_payload :: "(string \<times> json) list"

datatype consumption = Processed | Duplicate

definition handle_message ::
  "(string \<Rightarrow> outbox_message \<Rightarrow> ('s, bool) action) \<Rightarrow> (string \<Rightarrow> string \<Rightarrow> string option \<Rightarrow> ('s, unit) action)
     \<Rightarrow> (string \<Rightarrow> string \<Rightarrow> ('s, unit) action) \<Rightarrow> string \<Rightarrow> outbox_message
     \<Rightarrow> (outbox_message \<Rightarrow> ('s, string option) action) \<Rightarrow> ('s, consumption) action" where
  "handle_message start finish abandon consumer message effect =
     and_do (start consumer message) (\<lambda>acquired.
       if \<not> acquired then give Duplicate
       else recover
         (and_do (effect message) (\<lambda>checksum.
            and_do (finish consumer (ms_event_id message) checksum) (\<lambda>_. give Processed)))
         (\<lambda>e. and_do (abandon consumer (ms_event_id message)) (\<lambda>_. throw e)))"

section \<open>The repository\<close>

record inbox_row =
  ir_consumer :: string
  ir_message :: string
  ir_event_type :: string
  ir_started :: int
  ir_attempts :: nat
  ir_processed :: "int option"
  ir_checksum :: "string option"

record inbox_db =
  ib_rows :: "inbox_row list"
  ib_clock :: int

definition row_key :: "inbox_row \<Rightarrow> string \<times> string" where
  "row_key r = (ir_consumer r, ir_message r)"

text \<open>The condition of the \<open>ON CONFLICT DO UPDATE\<close>: unprocessed, and started over five minutes ago.\<close>

definition lease_expired :: "int \<Rightarrow> inbox_row \<Rightarrow> bool" where
  "lease_expired now r \<longleftrightarrow> ir_processed r = None \<and> ir_started r < now - 300000"

definition inbox_begin :: "string \<Rightarrow> outbox_message \<Rightarrow> ('a inbox_db_scheme, bool) action" where
  "inbox_begin consumer m db = (let k = (consumer, ms_event_id m); now = ib_clock db in
     case find (\<lambda>r. row_key r = k) (ib_rows db) of
       None \<Rightarrow> (Inr True, db\<lparr>ib_rows := ib_rows db @ [\<lparr>ir_consumer = consumer, ir_message = ms_event_id m,
           ir_event_type = ms_event_type m, ir_started = now, ir_attempts = 1, ir_processed = None, ir_checksum = None\<rparr>]\<rparr>)
     | Some old \<Rightarrow>
         if lease_expired now old then
           (Inr True, db\<lparr>ib_rows := map (\<lambda>r. if row_key r = k
              then r\<lparr>ir_started := now, ir_attempts := ir_attempts r + 1\<rparr> else r) (ib_rows db)\<rparr>)
         else (Inr False, db))"

definition inbox_complete :: "string \<Rightarrow> string \<Rightarrow> string option \<Rightarrow> ('a inbox_db_scheme, unit) action" where
  "inbox_complete consumer i checksum db =
     (Inr (), db\<lparr>ib_rows := map (\<lambda>r. if row_key r = (consumer, i)
        then r\<lparr>ir_processed := Some (ib_clock db), ir_checksum := checksum\<rparr> else r) (ib_rows db)\<rparr>)"

definition inbox_abandon :: "string \<Rightarrow> string \<Rightarrow> ('a inbox_db_scheme, unit) action" where
  "inbox_abandon consumer i db =
     (Inr (), db\<lparr>ib_rows := filter (\<lambda>r. \<not> (row_key r = (consumer, i) \<and> ir_processed r = None)) (ib_rows db)\<rparr>)"

abbreviation consume ::
  "string \<Rightarrow> outbox_message \<Rightarrow> (outbox_message \<Rightarrow> ('a inbox_db_scheme, string option) action)
     \<Rightarrow> ('a inbox_db_scheme, consumption) action" where
  "consume \<equiv> handle_message inbox_begin inbox_complete inbox_abandon"

section \<open>The interface\<close>

text \<open>
  What a consumer relies on: a processed message is refused, an accepted one is held until it is
  completed or abandoned, and completing a held message makes it processed.
\<close>

locale inbox_store =
  fixes start :: "string \<Rightarrow> outbox_message \<Rightarrow> ('s, bool) action"
    and finish :: "string \<Rightarrow> string \<Rightarrow> string option \<Rightarrow> ('s, unit) action"
    and abandon :: "string \<Rightarrow> string \<Rightarrow> ('s, unit) action"
    and held :: "string \<Rightarrow> string \<Rightarrow> 's \<Rightarrow> bool"
    and processed :: "string \<Rightarrow> string \<Rightarrow> 's \<Rightarrow> bool"
  assumes start_processed: "processed c (ms_event_id m) s \<Longrightarrow> start c m s = (Inr False, s)"
    and start_held: "start c m s = (Inr True, s') \<Longrightarrow> held c (ms_event_id m) s'"
    and finish_held: "held c i s \<Longrightarrow> finish c i k s = (Inr (), s') \<Longrightarrow> processed c i s'"
    and start_keeps: "keeps (processed c i) (start c' m)"
    and finish_keeps: "keeps (processed c i) (finish c' i' k)"
    and abandon_keeps: "keeps (processed c i) (abandon c' i')"
begin

lemma duplicate_runs_nothing:
  assumes "processed c (ms_event_id m) s"
  shows "handle_message start finish abandon c m effect s = (Inr Duplicate, s)"
  using start_processed [OF assms] by (simp add: handle_message_def and_do_def)

lemma processed_after:
  assumes "handle_message start finish abandon c m effect s = (Inr Processed, s')"
    "\<And>s. held c (ms_event_id m) s \<Longrightarrow> held c (ms_event_id m) (snd (effect m s))"
  shows "processed c (ms_event_id m) s'"
proof -
  from assms(1) obtain k s1 s2 where run: "start c m s = (Inr True, s1)" "effect m s1 = (Inr k, s2)"
    "finish c (ms_event_id m) k s2 = (Inr (), s')"
    unfolding handle_message_def and_do_Inr by (auto simp: outcome split: if_splits)
  from start_held [OF run(1)] have "held c (ms_event_id m) s2" using assms(2) [of s1] run(2) by simp
  from finish_held [OF this run(3)] show ?thesis .
qed

lemma handle_keeps:
  assumes "\<And>m. keeps (processed c i) (effect m)"
  shows "keeps (processed c i) (handle_message start finish abandon c' m effect)"
  unfolding handle_message_def
  by (intro keeps_rule start_keeps finish_keeps abandon_keeps assms)

end

section \<open>The repository provides the interface\<close>

definition row_of :: "string \<Rightarrow> string \<Rightarrow> 'a inbox_db_scheme \<Rightarrow> inbox_row option" where
  "row_of c i db = find (\<lambda>r. row_key r = (c, i)) (ib_rows db)"

definition inbox_held :: "string \<Rightarrow> string \<Rightarrow> 'a inbox_db_scheme \<Rightarrow> bool" where
  "inbox_held c i db \<longleftrightarrow> row_of c i db \<noteq> None"

definition inbox_processed :: "string \<Rightarrow> string \<Rightarrow> 'a inbox_db_scheme \<Rightarrow> bool" where
  "inbox_processed c i db \<longleftrightarrow> (\<exists>r. row_of c i db = Some r \<and> ir_processed r \<noteq> None)"

lemma find_update:
  assumes "\<And>r. row_key (f r) = row_key r"
  shows "find (\<lambda>r. row_key r = k) (map (\<lambda>r. if row_key r = k' then f r else r) rs) =
    (if k = k' then map_option f (find (\<lambda>r. row_key r = k) rs) else find (\<lambda>r. row_key r = k) rs)"
  using assms by (induction rs) auto

lemma find_append: "find P (xs @ ys) = (case find P xs of None \<Rightarrow> find P ys | Some x \<Rightarrow> Some x)"
  by (induction xs) auto

lemma find_kept:
  "find P rs = Some r \<Longrightarrow> Q r \<Longrightarrow> find P (filter Q rs) = Some r"
  by (induction rs) (auto split: if_splits)

lemma row_key_updates [simp]:
  "row_key (r\<lparr>ir_started := t, ir_attempts := n\<rparr>) = row_key r"
  "row_key (r\<lparr>ir_processed := p, ir_checksum := k\<rparr>) = row_key r"
  "row_key \<lparr>ir_consumer = c, ir_message = i, ir_event_type = e, ir_started = t, ir_attempts = n,
     ir_processed = p, ir_checksum = k\<rparr> = (c, i)"
  by (simp_all add: row_key_def)

interpretation postgres_inbox: inbox_store inbox_begin inbox_complete inbox_abandon inbox_held inbox_processed
proof
  show "inbox_begin c m s = (Inr False, s)" if "inbox_processed c (ms_event_id m) s"
    for c m and s :: "'a inbox_db_scheme"
    using that by (auto simp: inbox_begin_def inbox_processed_def row_of_def lease_expired_def)
  show "inbox_held c (ms_event_id m) s'" if "inbox_begin c m s = (Inr True, s')"
    for c m and s s' :: "'a inbox_db_scheme"
    using that by (auto simp: inbox_begin_def inbox_held_def row_of_def Let_def find_append find_update
        split: option.splits if_splits)
  show "inbox_processed c i s'" if "inbox_held c i s" "inbox_complete c i k s = (Inr (), s')"
    for c i k and s s' :: "'a inbox_db_scheme"
    using that by (auto simp: inbox_complete_def inbox_held_def inbox_processed_def row_of_def find_update)
  show "keeps (inbox_processed c i) (inbox_begin c' m :: 'a inbox_db_scheme \<Rightarrow> _)" for c i c' m
    by (auto simp: keeps_def inbox_begin_def inbox_processed_def row_of_def Let_def find_append find_update
        split: option.splits)
  show "keeps (inbox_processed c i) (inbox_complete c' i' k :: 'a inbox_db_scheme \<Rightarrow> _)" for c i c' i' k
    by (auto simp: keeps_def inbox_complete_def inbox_processed_def row_of_def find_update)
  show "keeps (inbox_processed c i) (inbox_abandon c' i' :: 'a inbox_db_scheme \<Rightarrow> _)" for c i c' i'
    by (auto simp: keeps_def inbox_abandon_def inbox_processed_def row_of_def intro!: find_kept)
qed

section \<open>Deliveries one after the other\<close>

type_synonym 'a delivery = "string \<times> outbox_message \<times> (outbox_message \<Rightarrow> ('a inbox_db_scheme, string option) action)"

fun deliver :: "'a delivery list \<Rightarrow> 'a inbox_db_scheme \<Rightarrow> consumption res list" where
  "deliver [] db = []"
| "deliver ((c, m, effect) # ds) db = (case consume c m effect db of (r, db') \<Rightarrow> r # deliver ds db')"

text \<open>An effect leaves the inbox table alone; the clock and every other table are its own.\<close>

definition leaves_inbox :: "(outbox_message \<Rightarrow> ('a inbox_db_scheme, string option) action) \<Rightarrow> bool" where
  "leaves_inbox effect \<longleftrightarrow> (\<forall>m db. ib_rows (snd (effect m db)) = ib_rows db)"

lemma leaves_inbox_keeps:
  assumes "leaves_inbox effect"
  shows "keeps (inbox_processed c i) (effect m)" "inbox_held c i db \<Longrightarrow> inbox_held c i (snd (effect m db))"
  using assms by (auto simp: leaves_inbox_def keeps_def inbox_processed_def inbox_held_def row_of_def)

lemma deliver_processed:
  assumes "inbox_processed c (ms_event_id m) db" "\<forall>(c, m, effect) \<in> set ds. leaves_inbox effect"
    "j < length ds" "ds ! j = (c, m', effect')" "ms_event_id m' = ms_event_id m"
  shows "deliver ds db ! j = Inr Duplicate"
  using assms
proof (induction ds arbitrary: db j)
  case (Cons d ds)
  obtain c2 m2 e2 where d: "d = (c2, m2, e2)" by (cases d) auto
  obtain r db' where run: "consume c2 m2 e2 db = (r, db')" by (cases "consume c2 m2 e2 db") auto
  have "keeps (inbox_processed c (ms_event_id m)) (consume c2 m2 e2)"
    using Cons.prems(2) leaves_inbox_keeps(1) by (intro postgres_inbox.handle_keeps) (auto simp: d)
  then have later: "inbox_processed c (ms_event_id m) db'"
    using Cons.prems(1) run keepsD [where P = "inbox_processed c (ms_event_id m)" and m = "consume c2 m2 e2"] by blast
  show ?case
  proof (cases j)
    case 0
    then have "consume c2 m2 e2 db = (Inr Duplicate, db)"
      using Cons.prems by (intro postgres_inbox.duplicate_runs_nothing) (auto simp: d)
    then show ?thesis by (simp add: d 0)
  next
    case (Suc k)
    have "deliver ds db' ! k = Inr Duplicate"
      using Cons.prems Suc by (intro Cons.IH [OF later]) (auto simp: d)
    then show ?thesis using run by (simp add: d Suc)
  qed
qed simp

text \<open>
  Deliveries one after the other are consumed once: whatever messages are delivered to
  whatever consumers, in whatever order and with whatever effects outside the inbox table, once a
  consumer answered PROCESSED for a message, each later delivery of a message with that identifier
  to it is answered DUPLICATE.
\<close>

theorem consumed_once:
  assumes "\<forall>(c, m, effect) \<in> set ds. leaves_inbox effect"
    "i < j" "j < length ds" "ds ! i = (c, m, effect)" "ds ! j = (c, m', effect')" "ms_event_id m' = ms_event_id m"
    "deliver ds db ! i = Inr Processed"
  shows "deliver ds db ! j = Inr Duplicate"
  using assms
proof (induction ds arbitrary: db i j)
  case (Cons d ds)
  obtain c2 m2 e2 where d: "d = (c2, m2, e2)" by (cases d) auto
  obtain r db' where run: "consume c2 m2 e2 db = (r, db')" by (cases "consume c2 m2 e2 db") auto
  from Cons.prems obtain k where j: "j = Suc k" by (cases j) auto
  show ?case
  proof (cases i)
    case 0
    with Cons.prems d run have first: "consume c m effect db = (Inr Processed, db')" and e: "leaves_inbox effect"
      by auto
    from first have "inbox_processed c (ms_event_id m) db'"
      by (rule postgres_inbox.processed_after) (rule leaves_inbox_keeps(2) [OF e])
    from deliver_processed [OF this] Cons.prems j run show ?thesis by (simp add: d)
  next
    case (Suc l)
    with Cons.prems j run have "deliver ds db' ! k = Inr Duplicate" by (intro Cons.IH [of l]) (auto simp: d)
    then show ?thesis using run by (simp add: d j)
  qed
qed simp

definition example_message :: outbox_message where
  "example_message = \<lparr>ms_event_id = ''e1'', ms_event_type = ''T'', ms_schema_version = 1, ms_aggregate_type = ''A'',
     ms_aggregate_id = ''a'', ms_correlation = ''c'', ms_causation = None, ms_occurred_at = ''t'', ms_payload = []\<rparr>"

definition example_inbox :: inbox_db where
  "example_inbox = \<lparr>ib_rows = [], ib_clock = 0\<rparr>"

theorem consumed_once_witness:
  "deliver [(''worker'', example_message, \<lambda>_. give None), (''worker'', example_message, \<lambda>_. throw (Failure []))] example_inbox ! 1
     = Inr Duplicate"
proof (rule consumed_once [where i = 0])
  show "deliver [(''worker'', example_message, \<lambda>_. give None), (''worker'', example_message, \<lambda>_. throw (Failure []))]
      example_inbox ! 0 = Inr Processed"
    by (simp add: example_inbox_def example_message_def handle_message_def and_do_def recover_def inbox_begin_def
        inbox_complete_def)
qed (auto simp: leaves_inbox_def)

section \<open>Redelivery\<close>

text \<open>
  Deliveries one after the other, each after a delay, to a consumer whose effect answers or throws; the calls of
  the effects are recorded beside the table.  \<open>once\<close> is the specification: an effect runs until it has
  succeeded for the consumer and the message, and never again.
\<close>

record watched_inbox = inbox_db +
  iw_calls :: "(string \<times> outbox_message) list"

definition watched_effect :: "string \<Rightarrow> string option res \<Rightarrow> outbox_message \<Rightarrow> (watched_inbox, string option) action" where
  "watched_effect c answer m db = (answer, db\<lparr>iw_calls := iw_calls db @ [(c, m)]\<rparr>)"

type_synonym timed_delivery = "nat \<times> string \<times> outbox_message \<times> string option res"

fun deliver_all :: "timed_delivery list \<Rightarrow> watched_inbox \<Rightarrow> consumption res list \<times> watched_inbox" where
  "deliver_all [] db = ([], db)"
| "deliver_all ((d, c, m, answer) # ds) db =
     (case consume c m (watched_effect c answer) (db\<lparr>ib_clock := ib_clock db + int d\<rparr>) of
        (r, db1) \<Rightarrow> (case deliver_all ds db1 of (rs, db2) \<Rightarrow> (r # rs, db2)))"

fun once :: "(string \<times> string) set \<Rightarrow> timed_delivery list \<Rightarrow> consumption res list \<times> (string \<times> outbox_message) list" where
  "once settled [] = ([], [])"
| "once settled ((d, c, m, answer) # ds) =
     (if (c, ms_event_id m) \<in> settled then (case once settled ds of (rs, cs) \<Rightarrow> (Inr Duplicate # rs, cs))
      else case answer of
        Inr _ \<Rightarrow> (case once (insert (c, ms_event_id m) settled) ds of (rs, cs) \<Rightarrow> (Inr Processed # rs, (c, m) # cs))
      | Inl e \<Rightarrow> (case once settled ds of (rs, cs) \<Rightarrow> (Inl e # rs, (c, m) # cs)))"

definition settled_inbox :: "(string \<times> string) set \<Rightarrow> 'a inbox_db_scheme \<Rightarrow> bool" where
  "settled_inbox settled db \<longleftrightarrow> row_key ` set (ib_rows db) = settled \<and> (\<forall>r\<in>set (ib_rows db). ir_processed r \<noteq> None)"

lemma begin_new:
  assumes "settled_inbox settled db" "(c, ms_event_id m) \<notin> settled"
  shows "inbox_begin c m db = (Inr True, db\<lparr>ib_rows := ib_rows db @ [\<lparr>ir_consumer = c, ir_message = ms_event_id m,
    ir_event_type = ms_event_type m, ir_started = ib_clock db, ir_attempts = 1, ir_processed = None, ir_checksum = None\<rparr>]\<rparr>)"
proof -
  have "find (\<lambda>r. row_key r = (c, ms_event_id m)) (ib_rows db) = None"
    unfolding find_None_iff using assms by (metis imageI settled_inbox_def)
  then show ?thesis by (simp add: inbox_begin_def)
qed

lemma consume_settled:
  assumes "settled_inbox settled db" "(c, ms_event_id m) \<in> settled"
  shows "consume c m effect db = (Inr Duplicate, db)"
proof -
  obtain r where r: "find (\<lambda>r. row_key r = (c, ms_event_id m)) (ib_rows db) = Some r"
    using assms by (cases "find (\<lambda>r. row_key r = (c, ms_event_id m)) (ib_rows db)") (auto simp: find_None_iff settled_inbox_def)
  then have "r \<in> set (ib_rows db)" by (auto simp: find_Some_iff)
  with assms(1) have "\<not> lease_expired (ib_clock db) r" by (auto simp: settled_inbox_def lease_expired_def)
  with r show ?thesis by (simp add: handle_message_def and_do_def inbox_begin_def)
qed

lemma consume_new:
  assumes "settled_inbox settled db" "(c, ms_event_id m) \<notin> settled"
  obtains db' where "consume c m (watched_effect c answer) db = (map_sum id (\<lambda>_. Processed) answer, db')"
    "iw_calls db' = iw_calls db @ [(c, m)]" "settled_inbox (if ok answer then insert (c, ms_event_id m) settled else settled) db'"
proof -
  have other: "row_key r \<noteq> (c, ms_event_id m)" if "r \<in> set (ib_rows db)" for r
    using that assms by (metis imageI settled_inbox_def)
  then have same: "filter (\<lambda>r. \<not> (row_key r = (c, ms_event_id m) \<and> ir_processed r = None)) (ib_rows db) = ib_rows db"
    "map (\<lambda>r. if row_key r = (c, ms_event_id m) then f r else r) (ib_rows db) = ib_rows db" for f
    by (auto intro: filter_True map_idI)
  show thesis
  proof (cases answer)
    case (Inl e)
    then show thesis using assms(1) same
      by (intro that [of "db\<lparr>iw_calls := iw_calls db @ [(c, m)]\<rparr>"])
        (simp_all add: handle_message_def and_do_def recover_def begin_new [OF assms] watched_effect_def inbox_abandon_def
          row_key_def settled_inbox_def ok_def)
  next
    case (Inr k)
    define row where "row = \<lparr>ir_consumer = c, ir_message = ms_event_id m, ir_event_type = ms_event_type m, ir_started = ib_clock db,
      ir_attempts = 1, ir_processed = Some (ib_clock db), ir_checksum = k\<rparr>"
    from Inr show thesis using assms(1) same
      by (intro that [of "db\<lparr>ib_rows := ib_rows db @ [row], iw_calls := iw_calls db @ [(c, m)]\<rparr>"])
        (simp_all add: handle_message_def and_do_def recover_def begin_new [OF assms] watched_effect_def inbox_complete_def
          row_key_def row_def settled_inbox_def ok_def)
  qed
qed

lemma deliver_all_once:
  "settled_inbox settled db \<Longrightarrow> deliver_all ds db = (rs, db') \<Longrightarrow>
    rs = fst (once settled ds) \<and> iw_calls db' = iw_calls db @ snd (once settled ds)"
proof (induction ds arbitrary: settled db rs)
  case (Cons delivery ds)
  obtain d c m answer where dl: "delivery = (d, c, m, answer)" by (cases delivery)
  let ?db = "db\<lparr>ib_clock := ib_clock db + int d\<rparr>"
  have inv: "settled_inbox settled ?db" using Cons.prems(1) by (simp add: settled_inbox_def)
  show ?case
  proof (cases "(c, ms_event_id m) \<in> settled")
    case True
    with Cons.prems(2) consume_settled [OF inv True] obtain rs' where "deliver_all ds ?db = (rs', db')" "rs = Inr Duplicate # rs'"
      by (auto simp: dl split: prod.splits)
    with Cons.IH [OF inv] True show ?thesis by (auto simp: dl split: prod.splits)
  next
    case False
    from consume_new [OF inv False] obtain db1 where db1: "consume c m (watched_effect c answer) ?db = (map_sum id (\<lambda>_. Processed) answer, db1)"
      "iw_calls db1 = iw_calls ?db @ [(c, m)]" "settled_inbox (if ok answer then insert (c, ms_event_id m) settled else settled) db1" .
    with Cons.prems(2) obtain rs' where "deliver_all ds db1 = (rs', db')" "rs = map_sum id (\<lambda>_. Processed) answer # rs'"
      by (auto simp: dl split: prod.splits)
    with Cons.IH [OF db1(3)] False db1(2) show ?thesis
      by (cases answer) (auto simp: dl ok_def split: prod.splits)
  qed
qed simp

lemma once_applied:
  "distinct (map (\<lambda>(d, c, m, a). (c, ms_event_id m)) (map fst (filter (\<lambda>(_, r). r = Inr Processed) (zip ds (fst (once settled ds))))))
   \<and> (\<forall>(d, c, m, a)\<in>set (map fst (filter (\<lambda>(_, r). r = Inr Processed) (zip ds (fst (once settled ds))))). (c, ms_event_id m) \<notin> settled)"
proof (induction settled ds rule: once.induct)
  case (2 settled d c m answer ds)
  then show ?case by (cases answer; cases "(c, ms_event_id m) \<in> settled") (fastforce split: prod.splits)+
qed simp

text \<open>
  C21. Consumption of redelivered messages refines the specification \<open>once\<close>: for every sequence of deliveries
  one after the other, to any consumers, at any times, with effects that succeed or throw, the answers and
  the calls of the effects are those of the specification.  The effect of a message runs at each delivery to a
  consumer until it has succeeded there, a failure being answered with its error, and from then on every
  delivery is answered DUPLICATE without a call; so no message is processed twice by a consumer.
\<close>

theorem redelivery_refines_once:
  "case deliver_all ds \<lparr>ib_rows = [], ib_clock = t, iw_calls = []\<rparr> of (answers, db) \<Rightarrow>
     (answers, iw_calls db) = once {} ds
     \<and> distinct (map (\<lambda>(d, c, m, a). (c, ms_event_id m)) (map fst (filter (\<lambda>(_, r). r = Inr Processed) (zip ds answers))))"
proof -
  have "settled_inbox {} \<lparr>ib_rows = [], ib_clock = t, iw_calls = []\<rparr>" by (simp add: settled_inbox_def)
  from deliver_all_once [OF this, of ds] once_applied [of ds "{}"] show ?thesis by (auto split: prod.splits)
qed

section \<open>Concurrent consumers\<close>

text \<open>
  Workers that run at the same time: each is known by the consumer, the message and the instant it
  was let in; \<open>ru_applied\<close> records the effects whose completion was stored.  In a \<open>strict\<close>
  run a worker completes or abandons within the five minutes after which another may take over.
\<close>

record inbox_run = inbox_db +
  ru_active :: "(string \<times> string \<times> int) list"
  ru_applied :: "(string \<times> string) list"

definition in_time :: "inbox_run \<Rightarrow> string \<times> string \<times> int \<Rightarrow> bool" where
  "in_time s w \<longleftrightarrow> ib_clock s \<le> snd (snd w) + 300000"

inductive inbox_step :: "bool \<Rightarrow> inbox_run \<Rightarrow> inbox_run \<Rightarrow> bool" for strict where
  pass: "0 \<le> d \<Longrightarrow> inbox_step strict s (s\<lparr>ib_clock := ib_clock s + d\<rparr>)"
| accept: "inbox_begin c m s = (Inr True, s') \<Longrightarrow>
    inbox_step strict s (s'\<lparr>ru_active := ru_active s @ [(c, ms_event_id m, ib_clock s)]\<rparr>)"
| apply_effect: "(c, i, t) \<in> set (ru_active s) \<Longrightarrow> strict \<longrightarrow> in_time s (c, i, t) \<Longrightarrow>
    inbox_complete c i k s = (Inr (), s') \<Longrightarrow>
    inbox_step strict s (s'\<lparr>ru_active := remove1 (c, i, t) (ru_active s), ru_applied := ru_applied s @ [(c, i)]\<rparr>)"
| fail: "(c, i, t) \<in> set (ru_active s) \<Longrightarrow> strict \<longrightarrow> in_time s (c, i, t) \<Longrightarrow>
    inbox_abandon c i s = (Inr (), s') \<Longrightarrow>
    inbox_step strict s (s'\<lparr>ru_active := remove1 (c, i, t) (ru_active s)\<rparr>)"
| crash: "inbox_step strict s (s\<lparr>ru_active := remove1 w (ru_active s)\<rparr>)"

inductive inbox_reachable :: "bool \<Rightarrow> inbox_run \<Rightarrow> bool" for strict where
  start: "inbox_reachable strict \<lparr>ib_rows = [], ib_clock = t, ru_active = [], ru_applied = []\<rparr>"
| step: "inbox_reachable strict s \<Longrightarrow> inbox_step strict s s' \<Longrightarrow> inbox_reachable strict s'"

definition open_row :: "inbox_run \<Rightarrow> string \<times> string \<times> int \<Rightarrow> bool" where
  "open_row s w \<longleftrightarrow> (\<exists>r\<in>set (ib_rows s). row_key r = (fst w, fst (snd w)) \<and> ir_started r = snd (snd w) \<and> ir_processed r = None)"

definition processed_keys :: "inbox_run \<Rightarrow> (string \<times> string) set" where
  "processed_keys s = row_key ` {r \<in> set (ib_rows s). ir_processed r \<noteq> None}"

definition inbox_inv :: "inbox_run \<Rightarrow> bool" where
  "inbox_inv s \<longleftrightarrow> distinct (map row_key (ib_rows s)) \<and> distinct (filter (in_time s) (ru_active s))
     \<and> (\<forall>w\<in>set (ru_active s). in_time s w \<longrightarrow> open_row s w)
     \<and> distinct (ru_applied s) \<and> set (ru_applied s) = processed_keys s"

lemma same_row: "distinct (map row_key rs) \<Longrightarrow> r \<in> set rs \<Longrightarrow> q \<in> set rs \<Longrightarrow> row_key r = row_key q \<Longrightarrow> r = q"
  by (simp add: distinct_map inj_on_def)

text \<open>The key of a live worker is not that of any other live worker.\<close>

lemma live_alone:
  assumes "inbox_inv s" "(c, i, t) \<in> set (ru_active s)" "in_time s (c, i, t)"
    "w \<in> set (remove1 (c, i, t) (ru_active s))" "in_time s w"
  shows "(fst w, fst (snd w)) \<noteq> (c, i)"
proof
  assume k: "(fst w, fst (snd w)) = (c, i)"
  from assms have w: "w \<in> set (ru_active s)" by (meson notin_set_remove1)
  from assms w have o: "open_row s w" "open_row s (c, i, t)" by (auto simp: inbox_inv_def)
  then obtain r q where "r \<in> set (ib_rows s)" "q \<in> set (ib_rows s)" "row_key r = row_key q"
      "ir_started r = snd (snd w)" "ir_started q = t" using k unfolding open_row_def by auto
  with same_row [of "ib_rows s" r q] assms(1) have "snd (snd w) = t" by (auto simp: inbox_inv_def)
  with k have "w = (c, i, t)" by (cases w) auto
  with assms have "(c, i, t) \<in> set (filter (in_time s) (remove1 (c, i, t) (ru_active s)))" by simp
  moreover have "distinct (filter (in_time s) (ru_active s))" using assms(1) by (simp add: inbox_inv_def)
  ultimately show False by (simp add: filter_remove1)
qed

lemma distinct_filter_weaker:
  "distinct (filter P xs) \<Longrightarrow> (\<And>x. Q x \<Longrightarrow> P x) \<Longrightarrow> distinct (filter Q xs)"
proof -
  assume "distinct (filter P xs)" "\<And>x. Q x \<Longrightarrow> P x"
  then have "filter Q xs = filter Q (filter P xs)" by (auto intro: filter_cong)
  then show ?thesis using \<open>distinct (filter P xs)\<close> by (metis distinct_filter)
qed

lemma distinct_filter_remove1: "distinct (filter P xs) \<Longrightarrow> distinct (filter P (remove1 x xs))"
  by (simp add: distinct_remove1 filter_remove1)

lemma inv_pass:
  assumes "inbox_inv s" "0 \<le> d"
  shows "inbox_inv (s\<lparr>ib_clock := ib_clock s + d\<rparr>)"
proof -
  let ?s = "s\<lparr>ib_clock := ib_clock s + d\<rparr>"
  have "in_time ?s w \<Longrightarrow> in_time s w" for w using assms(2) by (simp add: in_time_def)
  then show ?thesis using assms(1) distinct_filter_weaker [of "in_time s" "ru_active s" "in_time ?s"]
    by (auto simp: inbox_inv_def open_row_def processed_keys_def)
qed

lemma inbox_inv_drop:
  assumes "inbox_inv s" "ru_active s' = remove1 w (ru_active s)" "ib_clock s' = ib_clock s"
    "distinct (map row_key (ib_rows s'))"
    "\<And>v. v \<in> set (remove1 w (ru_active s)) \<Longrightarrow> in_time s v \<Longrightarrow> open_row s v \<Longrightarrow> open_row s' v"
    "distinct (ru_applied s')" "set (ru_applied s') = processed_keys s'"
  shows "inbox_inv s'"
proof -
  have time: "in_time s' = in_time s" using assms(3) by (simp add: fun_eq_iff in_time_def)
  have "\<forall>v\<in>set (ru_active s'). in_time s' v \<longrightarrow> open_row s' v"
    using assms(1,2,5) unfolding time inbox_inv_def by (metis notin_set_remove1)
  moreover have "distinct (filter (in_time s') (ru_active s'))"
    unfolding time assms(2) using assms(1) by (intro distinct_filter_remove1) (simp add: inbox_inv_def)
  moreover note assms(4,6,7)
  ultimately show ?thesis unfolding inbox_inv_def by (intro conjI)
qed

lemma inv_crash:
  assumes "inbox_inv s"
  shows "inbox_inv (s\<lparr>ru_active := remove1 w (ru_active s)\<rparr>)"
  by (rule inbox_inv_drop [OF assms]) (use assms in \<open>auto simp: inbox_inv_def open_row_def processed_keys_def\<close>)

lemma inv_fail:
  assumes inv: "inbox_inv s" and w: "(c, i, t) \<in> set (ru_active s)" "in_time s (c, i, t)"
    and run: "inbox_abandon c i s = (Inr (), s')"
  shows "inbox_inv (s'\<lparr>ru_active := remove1 (c, i, t) (ru_active s)\<rparr>)"
proof -
  let ?s = "s'\<lparr>ru_active := remove1 (c, i, t) (ru_active s)\<rparr>"
  have s': "s' = s\<lparr>ib_rows := filter (\<lambda>r. \<not> (row_key r = (c, i) \<and> ir_processed r = None)) (ib_rows s)\<rparr>"
    using run by (simp add: inbox_abandon_def)
  show ?thesis
  proof (rule inbox_inv_drop [OF inv])
    fix v assume v: "v \<in> set (remove1 (c, i, t) (ru_active s))" "in_time s v" "open_row s v"
    with live_alone [OF inv w v(1,2)] show "open_row ?s v" by (auto simp: open_row_def s')
  next
    have "inj_on row_key (set (ib_rows s))" "distinct (ib_rows s)" using inv by (auto simp: inbox_inv_def distinct_map)
    then show "distinct (map row_key (ib_rows ?s))" by (auto simp: s' distinct_map intro: inj_on_subset)
  next
    show "set (ru_applied ?s) = processed_keys ?s" using inv by (auto simp: inbox_inv_def processed_keys_def s')
  qed (use inv in \<open>auto simp: inbox_inv_def s'\<close>)
qed

lemma inv_apply:
  assumes inv: "inbox_inv s" and w: "(c, i, t) \<in> set (ru_active s)" "in_time s (c, i, t)"
    and run: "inbox_complete c i k s = (Inr (), s')"
  shows "inbox_inv (s'\<lparr>ru_active := remove1 (c, i, t) (ru_active s), ru_applied := ru_applied s @ [(c, i)]\<rparr>)"
proof -
  let ?s = "s'\<lparr>ru_active := remove1 (c, i, t) (ru_active s), ru_applied := ru_applied s @ [(c, i)]\<rparr>"
  let ?u = "\<lambda>r. if row_key r = (c, i) then r\<lparr>ir_processed := Some (ib_clock s), ir_checksum := k\<rparr> else r"
  have s': "s' = s\<lparr>ib_rows := map ?u (ib_rows s)\<rparr>" using run by (simp add: inbox_complete_def)
  have time: "in_time ?s = in_time s" by (simp add: fun_eq_iff in_time_def s')
  have key: "row_key (?u r) = row_key r" for r by simp
  have keys: "map row_key (map ?u (ib_rows s)) = map row_key (ib_rows s)" using key by (auto simp del: row_key_updates)
  obtain r where r: "r \<in> set (ib_rows s)" "row_key r = (c, i)" "ir_processed r = None"
    using inv w by (auto simp: inbox_inv_def open_row_def)
  have grown: "processed_keys ?s = insert (c, i) (processed_keys s)"
  proof (intro set_eqI iffI)
    fix x assume "x \<in> insert (c, i) (processed_keys s)"
    then show "x \<in> processed_keys ?s"
    proof
      assume "x = (c, i)"
      with r have "x = row_key (?u r)" "?u r \<in> set (ib_rows ?s)" "ir_processed (?u r) \<noteq> None" by (auto simp: s')
      then show ?thesis unfolding processed_keys_def by blast
    next
      assume "x \<in> processed_keys s"
      then obtain q where "q \<in> set (ib_rows s)" "x = row_key q" "ir_processed q \<noteq> None" by (auto simp: processed_keys_def)
      then have "x = row_key (?u q)" "?u q \<in> set (ib_rows ?s)" "ir_processed (?u q) \<noteq> None" by (auto simp: s')
      then show ?thesis unfolding processed_keys_def by blast
    qed
  next
    fix x assume "x \<in> processed_keys ?s"
    then show "x \<in> insert (c, i) (processed_keys s)" by (auto simp: processed_keys_def s' split: if_splits)
  qed
  have fresh: "(c, i) \<notin> processed_keys s"
  proof
    assume "(c, i) \<in> processed_keys s"
    then obtain q where q: "q \<in> set (ib_rows s)" "row_key q = (c, i)" "ir_processed q \<noteq> None"
      by (auto simp: processed_keys_def)
    have "q = r" by (rule same_row) (use inv q r in \<open>simp_all add: inbox_inv_def\<close>)
    with q r show False by simp
  qed
  show ?thesis
  proof (rule inbox_inv_drop [OF inv])
    fix v assume v: "v \<in> set (remove1 (c, i, t) (ru_active s))" "in_time s v" "open_row s v"
    with live_alone [OF inv w v(1,2)] show "open_row ?s v" by (auto simp: open_row_def s')
  next
    show "distinct (map row_key (ib_rows ?s))" using inv keys by (simp add: inbox_inv_def s' del: map_map)
  next
    show "distinct (ru_applied ?s)" using inv fresh by (simp add: inbox_inv_def)
  next
    show "set (ru_applied ?s) = processed_keys ?s" unfolding grown using inv by (simp add: inbox_inv_def)
  qed (simp_all add: s')
qed

lemma processed_image:
  assumes "\<And>r. row_key (f r) = row_key r" "\<And>r. ir_processed (f r) = ir_processed r"
  shows "row_key ` {r \<in> f ` R. ir_processed r \<noteq> None} = row_key ` {r \<in> R. ir_processed r \<noteq> None}"
  using assms by (auto simp: image_iff) metis+

lemma inv_accept:
  assumes inv: "inbox_inv s" and run: "inbox_begin c m s = (Inr True, s')"
  shows "inbox_inv (s'\<lparr>ru_active := ru_active s @ [(c, ms_event_id m, ib_clock s)]\<rparr>)"
proof -
  let ?k = "(c, ms_event_id m)" and ?w = "(c, ms_event_id m, ib_clock s)"
  let ?s = "s'\<lparr>ru_active := ru_active s @ [?w]\<rparr>"
  have "ib_clock s' = ib_clock s" using run by (auto simp: inbox_begin_def Let_def split: option.splits if_splits)
  then have time: "in_time ?s = in_time s" by (simp add: fun_eq_iff in_time_def)
  have facts: "distinct (map row_key (ib_rows ?s)) \<and> open_row ?s ?w \<and> ru_applied s' = ru_applied s
    \<and> processed_keys ?s = processed_keys s
    \<and> (\<forall>v\<in>set (ru_active s). in_time s v \<longrightarrow> open_row ?s v \<and> (fst v, fst (snd v)) \<noteq> ?k)"
  proof (cases "find (\<lambda>r. row_key r = ?k) (ib_rows s)")
    case None
    then have absent: "\<forall>r\<in>set (ib_rows s). row_key r \<noteq> ?k" by (auto simp: find_None_iff)
    obtain new where s': "s' = s\<lparr>ib_rows := ib_rows s @ [new]\<rparr>" and new: "row_key new = ?k"
        "ir_started new = ib_clock s" "ir_processed new = None"
      using run None by (auto simp: inbox_begin_def Let_def)
    have "open_row ?s v \<and> (fst v, fst (snd v)) \<noteq> ?k" if "v \<in> set (ru_active s)" "in_time s v" for v
    proof -
      have "open_row s v" using inv that by (simp add: inbox_inv_def)
      with absent show ?thesis by (auto simp: open_row_def s')
    qed
    moreover have "distinct (map row_key (ib_rows ?s))" using inv absent new by (auto simp: inbox_inv_def s')
    moreover have "open_row ?s ?w" using new by (simp add: open_row_def s')
    moreover have "processed_keys ?s = processed_keys s" using new by (auto simp: processed_keys_def s')
    ultimately show ?thesis by (simp add: s')
  next
    case (Some old)
    let ?u = "\<lambda>r. if row_key r = ?k then r\<lparr>ir_started := ib_clock s, ir_attempts := ir_attempts r + 1\<rparr> else r"
    have old: "old \<in> set (ib_rows s)" "row_key old = ?k" using find_SomeD [OF Some] by auto
    have s': "s' = s\<lparr>ib_rows := map ?u (ib_rows s)\<rparr>" and expired: "lease_expired (ib_clock s) old"
      using run Some by (auto simp: inbox_begin_def Let_def split: if_splits)
    have only: "r = old" if "r \<in> set (ib_rows s)" "row_key r = ?k" for r
      by (rule same_row) (use inv old that in \<open>simp_all add: inbox_inv_def\<close>)
    have "open_row ?s v \<and> (fst v, fst (snd v)) \<noteq> ?k" if v: "v \<in> set (ru_active s)" "in_time s v" for v
    proof -
      obtain r where r: "r \<in> set (ib_rows s)" "row_key r = (fst v, fst (snd v))" "ir_started r = snd (snd v)"
          "ir_processed r = None"
        using inv v by (auto simp: inbox_inv_def open_row_def)
      have other: "row_key r \<noteq> ?k"
      proof
        assume "row_key r = ?k"
        with only r(1) have "r = old" by blast
        with expired r(3) v(2) show False by (simp add: lease_expired_def in_time_def)
      qed
      then have "?u r = r" by (rule if_not_P)
      with r have "r \<in> set (ib_rows ?s)" by (force simp: s')
      with r other show ?thesis by (auto simp: open_row_def)
    qed
    moreover have "distinct (map row_key (ib_rows ?s))"
    proof -
      have "map row_key (ib_rows ?s) = map row_key (ib_rows s)" by (simp add: s')
      then show ?thesis using inv by (simp only: inbox_inv_def)
    qed
    moreover have "open_row ?s ?w"
    proof -
      have "?u old \<in> set (ib_rows ?s)" using old by (simp add: s')
      moreover have "row_key (?u old) = ?k" "ir_started (?u old) = ib_clock s" "ir_processed (?u old) = None"
        using old expired by (simp_all add: lease_expired_def)
      ultimately show ?thesis unfolding open_row_def by (intro bexI [of _ "?u old"]) simp_all
    qed
    moreover have "processed_keys ?s = processed_keys s"
    proof -
      have "row_key (?u r) = row_key r" "ir_processed (?u r) = ir_processed r" for r by simp_all
      from processed_image [OF this] show ?thesis by (simp add: processed_keys_def s')
    qed
    moreover have "ru_applied s' = ru_applied s" by (simp add: s')
    ultimately show ?thesis by blast
  qed
  have "?w \<notin> set (filter (in_time s) (ru_active s))" using facts by auto
  moreover have "in_time s ?w" by (simp add: in_time_def)
  ultimately show ?thesis using inv facts unfolding inbox_inv_def time by simp
qed

lemma inbox_step_inv: "inbox_step True s s' \<Longrightarrow> inbox_inv s \<Longrightarrow> inbox_inv s'"
proof (induction rule: inbox_step.induct)
  case (apply_effect c i t s k s')
  then show ?case by (intro inv_apply) auto
next
  case (fail c i t s s')
  then show ?case by (intro inv_fail) auto
qed (auto intro: inv_pass inv_accept inv_crash)

lemma inbox_reachable_inv: "inbox_reachable True s \<Longrightarrow> inbox_inv s"
proof (induction rule: inbox_reachable.induct)
  case (start t)
  then show ?case by (simp add: inbox_inv_def processed_keys_def)
qed (auto intro: inbox_step_inv)

text \<open>
  C22. Concurrent consumption is exclusive: in every interleaving of any number of workers in which
  those that finish do so within five minutes of being let in - time passing, workers crashing,
  failing and taking over in between - the effect of a message is applied at most once for each
  consumer, and the processed rows are exactly the applied effects.
\<close>

theorem inbox_exclusive:
  assumes "inbox_reachable True s"
  shows "distinct (ru_applied s) \<and> set (ru_applied s) = processed_keys s"
  using inbox_reachable_inv [OF assms] by (simp add: inbox_inv_def)

definition run_row :: "int \<Rightarrow> nat \<Rightarrow> int option \<Rightarrow> inbox_row" where
  "run_row t n p = \<lparr>ir_consumer = ''worker'', ir_message = ''e1'', ir_event_type = ''T'', ir_started = t, ir_attempts = n,
     ir_processed = p, ir_checksum = None\<rparr>"

lemma accepted_once:
  "inbox_reachable strict \<lparr>ib_rows = [run_row 0 1 None], ib_clock = 0, ru_active = [(''worker'', ''e1'', 0)], ru_applied = []\<rparr>"
proof -
  let ?s = "\<lparr>ib_rows = [], ib_clock = 0, ru_active = [], ru_applied = []\<rparr>"
  have "inbox_begin ''worker'' example_message ?s = (Inr True, ?s\<lparr>ib_rows := [run_row 0 1 None]\<rparr>)"
    by (simp add: inbox_begin_def example_message_def run_row_def)
  from inbox_reachable.step [OF inbox_reachable.start inbox_step.accept [OF this]]
  show ?thesis by (simp add: example_message_def)
qed

theorem inbox_exclusive_witness:
  "\<exists>s. inbox_reachable True s \<and> ru_applied s = [(''worker'', ''e1'')] \<and> processed_keys s = {(''worker'', ''e1'')}"
proof -
  let ?s = "\<lparr>ib_rows = [run_row 0 1 None], ib_clock = 0, ru_active = [(''worker'', ''e1'', 0)], ru_applied = []\<rparr>"
  have "inbox_complete ''worker'' ''e1'' None ?s = (Inr (), ?s\<lparr>ib_rows := [run_row 0 1 (Some 0)]\<rparr>)"
    by (simp add: inbox_complete_def run_row_def row_key_def)
  from inbox_reachable.step [OF accepted_once inbox_step.apply_effect [OF _ _ this]]
  have "inbox_reachable True \<lparr>ib_rows = [run_row 0 1 (Some 0)], ib_clock = 0, ru_active = [], ru_applied = [(''worker'', ''e1'')]\<rparr>"
    by (simp add: in_time_def)
  from inbox_exclusive [OF this] this show ?thesis by (intro exI conjI) auto
qed

text \<open>
  Without the time limit exclusion is lost even between two workers that respect it: a late worker
  that fails deletes the row of the one that took over, and a third is let in beside the second.
\<close>

lemma late_failure_breaks_exclusion:
  "\<exists>s. inbox_reachable False s \<and> ru_applied s = [(''worker'', ''e1''), (''worker'', ''e1'')]"
proof -
  let ?w = "(''worker'', ''e1'', 300001)"
  let ?at = "\<lambda>rows ws ap. \<lparr>ib_rows = rows, ib_clock = 300001, ru_active = ws, ru_applied = ap\<rparr>"
  have "inbox_reachable False (?at [run_row 0 1 None] [(''worker'', ''e1'', 0)] [])"
    using inbox_reachable.step [OF accepted_once inbox_step.pass [of 300001]] by simp
  from inbox_reachable.step [OF this inbox_step.accept [of "''worker''" example_message]]
  have "inbox_reachable False (?at [run_row 300001 2 None] [(''worker'', ''e1'', 0), ?w] [])"
    by (simp add: inbox_begin_def example_message_def run_row_def row_key_def lease_expired_def numeral_2_eq_2)
  from inbox_reachable.step [OF this inbox_step.fail [of "''worker''" "''e1''" 0]]
  have "inbox_reachable False (?at [] [?w] [])"
    by (simp add: inbox_abandon_def run_row_def row_key_def)
  from inbox_reachable.step [OF this inbox_step.accept [of "''worker''" example_message]]
  have "inbox_reachable False (?at [run_row 300001 1 None] [?w, ?w] [])"
    by (simp add: inbox_begin_def example_message_def run_row_def)
  from inbox_reachable.step [OF this inbox_step.apply_effect [of "''worker''" "''e1''" 300001 _ _ None]]
  have "inbox_reachable False (?at [run_row 300001 1 (Some 300001)] [?w] [(''worker'', ''e1'')])"
    by (simp add: inbox_complete_def run_row_def row_key_def)
  from inbox_reachable.step [OF this inbox_step.apply_effect [of "''worker''" "''e1''" 300001 _ _ None]]
  have "inbox_reachable False (?at [run_row 300001 1 (Some 300001)] [] [(''worker'', ''e1''), (''worker'', ''e1'')])"
    by (simp add: inbox_complete_def run_row_def row_key_def)
  then show ?thesis by (intro exI conjI) auto
qed

end
