(* ===== verification/Outbox.thy ===== *)
theory Outbox
  imports Inbox Js_Date
begin

text \<open>
  The transactional outbox: the relay of \<open>src/infrastructure/messaging/outbox-relay.ts\<close>, its
  repository \<open>src/infrastructure/persistence/postgres-outbox.repository.ts\<close> on the table
  \<open>integration.outbox_event\<close>, and the scheduler of \<open>apps/scheduler/src/outbox-scheduler.ts\<close>.
  The publisher is a parameter, instants of the table are milliseconds, and \<open>RETURNING\<close> gives
  the claimed rows in the order of the table.
\<close>

section \<open>The repository\<close>

record outbox_record = outbox_message +
  or_available :: string
  or_created :: string
  or_attempts :: nat

record outbox_row =
  ox_message :: outbox_message
  ox_available :: int
  ox_created :: int
  ox_published :: "int option"
  ox_locked_by :: "string option"
  ox_locked_until :: "int option"
  ox_attempts :: nat
  ox_error :: "string option"

record outbox_db =
  ox_rows :: "outbox_row list"

abbreviation ox_id :: "outbox_row \<Rightarrow> string" where
  "ox_id r \<equiv> ms_event_id (ox_message r)"

definition map_outbox_record :: "clock_lib \<Rightarrow> outbox_row \<Rightarrow> outbox_record" where
  "map_outbox_record clock r = (let m = ox_message r in
     \<lparr>ms_event_id = ms_event_id m, ms_event_type = ms_event_type m, ms_schema_version = ms_schema_version m,
      ms_aggregate_type = ms_aggregate_type m, ms_aggregate_id = ms_aggregate_id m, ms_correlation = ms_correlation m,
      ms_causation = ms_causation m, ms_occurred_at = ms_occurred_at m, ms_payload = ms_payload m,
      or_available = print_instant clock (ox_available r), or_created = print_instant clock (ox_created r),
      or_attempts = ox_attempts r\<rparr>)"

text \<open>A text cast to \<open>timestamptz\<close>.\<close>

definition instant_of :: "clock_lib \<Rightarrow> string \<Rightarrow> int res" where
  "instant_of clock text = (case date_parse clock text of
     None \<Rightarrow> Inl (Failure ''invalid input syntax for type timestamp with time zone'') | Some t \<Rightarrow> Inr t)"

definition claimable :: "int \<Rightarrow> outbox_row \<Rightarrow> bool" where
  "claimable now r \<longleftrightarrow> ox_published r = None \<and> ox_available r \<le> now
     \<and> (case ox_locked_until r of None \<Rightarrow> True | Some u \<Rightarrow> u < now)"

definition older :: "outbox_row \<Rightarrow> outbox_row \<Rightarrow> int" where
  "older a b = (if ox_available a \<noteq> ox_available b then sgn (ox_available a - ox_available b)
     else sgn (ox_created a - ox_created b))"

definition candidates :: "nat \<Rightarrow> int \<Rightarrow> outbox_row list \<Rightarrow> string set" where
  "candidates limit now rows = ox_id ` set (take limit (sort_by older (filter (claimable now) rows)))"

definition claim_pending ::
  "clock_lib \<Rightarrow> string \<Rightarrow> int \<Rightarrow> nat \<Rightarrow> string \<Rightarrow> ('a outbox_db_scheme, outbox_record list) action" where
  "claim_pending clock worker lease_seconds limit now_text =
     and_do (lift_res (instant_of clock now_text)) (\<lambda>now db.
       let ids = candidates limit now (ox_rows db);
           rows = map (\<lambda>r. if ox_id r \<in> ids
             then r\<lparr>ox_locked_by := Some worker, ox_locked_until := Some (now + lease_seconds * 1000)\<rparr> else r) (ox_rows db) in
       (Inr (map (map_outbox_record clock) (filter (\<lambda>r. ox_id r \<in> ids) rows)), db\<lparr>ox_rows := rows\<rparr>))"

definition owned_row :: "string \<Rightarrow> string \<Rightarrow> outbox_row \<Rightarrow> bool" where
  "owned_row worker i r \<longleftrightarrow> ox_id r = i \<and> ox_locked_by r = Some worker"

definition published_row :: "int \<Rightarrow> outbox_row \<Rightarrow> outbox_row" where
  "published_row t r = r\<lparr>ox_published := Some t, ox_locked_by := None, ox_locked_until := None, ox_error := None\<rparr>"

definition failed_row :: "int \<Rightarrow> string \<Rightarrow> outbox_row \<Rightarrow> outbox_row" where
  "failed_row t reason r = r\<lparr>ox_available := t, ox_attempts := ox_attempts r + 1, ox_error := Some reason,
     ox_locked_by := None, ox_locked_until := None\<rparr>"

definition mark_published :: "clock_lib \<Rightarrow> string \<Rightarrow> string \<Rightarrow> string \<Rightarrow> ('a outbox_db_scheme, unit) action" where
  "mark_published clock worker i published_at =
     and_do (lift_res (instant_of clock published_at)) (\<lambda>t db.
       (Inr (), db\<lparr>ox_rows := map (\<lambda>r. if owned_row worker i r then published_row t r else r) (ox_rows db)\<rparr>))"

definition mark_failed ::
  "clock_lib \<Rightarrow> string \<Rightarrow> string \<Rightarrow> string \<Rightarrow> string \<Rightarrow> ('a outbox_db_scheme, unit) action" where
  "mark_failed clock worker i next_attempt reason =
     and_do (lift_res (instant_of clock next_attempt)) (\<lambda>t db.
       (Inr (), db\<lparr>ox_rows := map (\<lambda>r. if owned_row worker i r then failed_row t reason r else r) (ox_rows db)\<rparr>))"

section \<open>The relay\<close>

record relay_result =
  rl_published :: "string list"
  rl_failed :: "string list"

definition retry_delay :: "int \<Rightarrow> nat \<Rightarrow> int" where
  "retry_delay base_seconds attempts = min (base_seconds * 2 ^ min attempts 10) 3600"

definition retry_at :: "clock_lib \<Rightarrow> string \<Rightarrow> nat \<Rightarrow> int \<Rightarrow> string res" where
  "retry_at clock now attempts base_seconds = (case date_parse clock now of
     None \<Rightarrow> Inl (RangeError ''Invalid time value'')
   | Some t \<Rightarrow> to_iso_string clock (t + retry_delay base_seconds attempts * 1000))"

definition error_message :: "js_error \<Rightarrow> string" where
  "error_message e = (case e of TypeError m \<Rightarrow> m | RangeError m \<Rightarrow> m | SyntaxError m \<Rightarrow> m | Failure m \<Rightarrow> m)"

definition safe_error_message :: "js_error \<Rightarrow> string" where
  "safe_error_message e = take 500 (error_message e)"

text \<open>The body of the loop: true when the message was published and marked.\<close>

definition relay_one ::
  "clock_lib \<Rightarrow> string \<Rightarrow> int \<Rightarrow> (outbox_record \<Rightarrow> ('a outbox_db_scheme, unit) action) \<Rightarrow> string
     \<Rightarrow> outbox_record \<Rightarrow> ('a outbox_db_scheme, bool) action" where
  "relay_one clock worker base_seconds publish now r =
     recover (and_do (publish r) (\<lambda>_. and_do (mark_published clock worker (ms_event_id r) now) (\<lambda>_. give True)))
       (\<lambda>e. and_do (lift_res (retry_at clock now (or_attempts r) base_seconds)) (\<lambda>next_attempt.
          and_do (mark_failed clock worker (ms_event_id r) next_attempt (safe_error_message e)) (\<lambda>_. give False)))"

fun relay_loop ::
  "clock_lib \<Rightarrow> string \<Rightarrow> int \<Rightarrow> (outbox_record \<Rightarrow> ('a outbox_db_scheme, unit) action) \<Rightarrow> string
     \<Rightarrow> outbox_record list \<Rightarrow> ('a outbox_db_scheme, relay_result) action" where
  "relay_loop clock worker base_seconds publish now [] = give \<lparr>rl_published = [], rl_failed = []\<rparr>"
| "relay_loop clock worker base_seconds publish now (r # rs) =
     and_do (relay_one clock worker base_seconds publish now r) (\<lambda>was_published.
     and_do (relay_loop clock worker base_seconds publish now rs) (\<lambda>result.
       give (if was_published then result\<lparr>rl_published := ms_event_id r # rl_published result\<rparr>
             else result\<lparr>rl_failed := ms_event_id r # rl_failed result\<rparr>)))"

definition run_batch ::
  "clock_lib \<Rightarrow> string \<Rightarrow> int \<Rightarrow> int \<Rightarrow> (outbox_record \<Rightarrow> ('a outbox_db_scheme, unit) action) \<Rightarrow> jsnum \<Rightarrow> string
     \<Rightarrow> ('a outbox_db_scheme, relay_result) action" where
  "run_batch clock worker lease_seconds base_seconds publish limit now =
     (case js_int limit of
        None \<Rightarrow> throw (RangeError ''Outbox batch limit must be a positive integer'')
      | Some n \<Rightarrow> if n < 1 then throw (RangeError ''Outbox batch limit must be a positive integer'')
          else and_do (claim_pending clock worker lease_seconds (nat n) now)
            (relay_loop clock worker base_seconds publish now))"

section \<open>The scheduler\<close>

text \<open>
  \<open>sc_running\<close> is the promise of the batch under way, \<open>sc_batches\<close> counts the batches of the
  relay that have started and not settled.
\<close>

record scheduler =
  sc_timer :: bool
  sc_running :: bool
  sc_batches :: nat

datatype run_answer = Executed | Skipped

definition run_once :: "scheduler \<Rightarrow> run_answer \<times> scheduler" where
  "run_once s = (if sc_running s then (Skipped, s)
     else (Executed, s\<lparr>sc_running := True, sc_batches := sc_batches s + 1\<rparr>))"

definition batch_settled :: "scheduler \<Rightarrow> scheduler" where
  "batch_settled s = s\<lparr>sc_running := False, sc_batches := sc_batches s - 1\<rparr>"

definition start_scheduler :: "scheduler \<Rightarrow> scheduler" where
  "start_scheduler s = (if sc_timer s then s else (snd (run_once s))\<lparr>sc_timer := True\<rparr>)"

definition stop_scheduler :: "scheduler \<Rightarrow> scheduler" where
  "stop_scheduler s = s\<lparr>sc_timer := False\<rparr>"

inductive scheduler_reachable :: "scheduler \<Rightarrow> bool" where
  idle: "scheduler_reachable \<lparr>sc_timer = False, sc_running = False, sc_batches = 0\<rparr>"
| started: "scheduler_reachable s \<Longrightarrow> scheduler_reachable (start_scheduler s)"
| ticked: "scheduler_reachable s \<Longrightarrow> sc_timer s \<Longrightarrow> scheduler_reachable (snd (run_once s))"
| settled: "scheduler_reachable s \<Longrightarrow> 0 < sc_batches s \<Longrightarrow> scheduler_reachable (batch_settled s)"
| stopped: "scheduler_reachable s \<Longrightarrow> scheduler_reachable (stop_scheduler s)"

text \<open>Batches never overlap, however often the timer fires or the scheduler is restarted.\<close>

lemma scheduler_no_overlap:
  "scheduler_reachable s \<Longrightarrow> sc_batches s = (if sc_running s then 1 else 0)"
  by (induction rule: scheduler_reachable.induct)
    (auto simp: start_scheduler_def run_once_def batch_settled_def stop_scheduler_def)

section \<open>A batch settles what it claims\<close>

text \<open>Printing an instant of \<open>Date\<close> and parsing it gives it back.\<close>

definition clock_laws :: "clock_lib \<Rightarrow> bool" where
  "clock_laws clock \<longleftrightarrow> (\<forall>t. \<bar>t\<bar> \<le> 8640000000000000 \<longrightarrow> date_parse clock (print_instant clock t) = Some t)"

definition leaves_outbox :: "('r \<Rightarrow> ('a outbox_db_scheme, unit) action) \<Rightarrow> bool" where
  "leaves_outbox publish \<longleftrightarrow> (\<forall>r db. ox_rows (snd (publish r db)) = ox_rows db)"

text \<open>What a row becomes when its message was published or failed.\<close>

definition settled_row :: "int \<Rightarrow> int \<Rightarrow> string set \<Rightarrow> string set \<Rightarrow> outbox_row \<Rightarrow> outbox_row \<Rightarrow> bool" where
  "settled_row t base_seconds ok_ids failed_ids r r' \<longleftrightarrow>
     (if ox_id r \<in> ok_ids then r' = published_row t r
      else if ox_id r \<in> failed_ids
        then \<exists>reason. r' = failed_row (t + retry_delay base_seconds (ox_attempts r) * 1000) reason r
      else r' = r)"

definition relay_ready :: "string \<Rightarrow> outbox_record list \<Rightarrow> outbox_row list \<Rightarrow> bool" where
  "relay_ready worker recs rows \<longleftrightarrow> (\<forall>rc\<in>set recs. \<forall>r\<in>set rows. ox_id r = ms_event_id rc \<longrightarrow>
     ox_locked_by r = Some worker \<and> ox_attempts r = or_attempts rc)"

lemma ox_id_updates [simp]:
  "ox_message (published_row t r) = ox_message r" "ox_message (failed_row t reason r) = ox_message r"
  by (simp_all add: published_row_def failed_row_def)

lemma retry_delay_bounds: "0 \<le> base_seconds \<Longrightarrow> 0 \<le> retry_delay base_seconds n" "retry_delay base_seconds n \<le> 3600"
  by (simp_all add: retry_delay_def)

lemma leaves_outboxD: "leaves_outbox publish \<Longrightarrow> publish r db = (x, db') \<Longrightarrow> ox_rows db' = ox_rows db"
  unfolding leaves_outbox_def by (metis snd_conv)

lemma mark_published_Inr:
  assumes "mark_published clock worker i now db = (Inr u, db')" "date_parse clock now = Some t"
  shows "ox_rows db' = map (\<lambda>r. if owned_row worker i r then published_row t r else r) (ox_rows db)"
  using assms by (auto simp: mark_published_def instant_of_def and_do_def)

lemma mark_published_ok:
  assumes "date_parse clock now = Some t"
  shows "\<exists>db'. mark_published clock worker i now db = (Inr (), db')"
  using assms by (simp add: mark_published_def instant_of_def and_do_def)

lemma retry_at_Inr:
  assumes "clock_laws clock" "date_parse clock now = Some t" "retry_at clock now n base_seconds = Inr text"
  shows "date_parse clock text = Some (t + retry_delay base_seconds n * 1000)"
  using assms by (auto simp: retry_at_def to_iso_string_def clock_laws_def split: if_splits)

lemma mark_failed_Inr:
  assumes "mark_failed clock worker i text reason db = (Inr u, db')" "date_parse clock text = Some t"
  shows "ox_rows db' = map (\<lambda>r. if owned_row worker i r then failed_row t reason r else r) (ox_rows db)"
  using assms by (auto simp: mark_failed_def instant_of_def and_do_def)

lemma relay_one_settles:
  assumes laws: "clock_laws clock" "leaves_outbox publish" "date_parse clock now = Some t"
    and ready: "relay_ready worker [rc] (ox_rows db)"
    and run: "relay_one clock worker base_seconds publish now rc db = (Inr b, db')"
  shows "list_all2 (settled_row t base_seconds (if b then {ms_event_id rc} else {}) (if b then {} else {ms_event_id rc}))
    (ox_rows db) (ox_rows db')"
proof (cases b)
  case True
  then obtain db1 where "publish rc db = (Inr (), db1)" "mark_published clock worker (ms_event_id rc) now db1 = (Inr (), db')"
    using run by (auto simp: relay_one_def outcome)
  note p = this
  have "ox_rows db' = map (\<lambda>r. if owned_row worker (ms_event_id rc) r then published_row t r else r) (ox_rows db)"
    using mark_published_Inr [OF p(2) laws(3)] leaves_outboxD [OF laws(2) p(1)] by simp
  then show ?thesis using ready True
    by (simp add: list_all2_map2 list_all2_same settled_row_def relay_ready_def owned_row_def)
next
  case False
  with run obtain e db1 where
    a: "and_do (publish rc) (\<lambda>_. and_do (mark_published clock worker (ms_event_id rc) now) (\<lambda>_. give True)) db = (Inl e, db1)"
    and h: "and_do (lift_res (retry_at clock now (or_attempts rc) base_seconds)) (\<lambda>next_attempt.
      and_do (mark_failed clock worker (ms_event_id rc) next_attempt (safe_error_message e)) (\<lambda>_. give False)) db1 = (Inr b, db')"
    unfolding relay_one_def recover_Inr by (auto simp: and_do_Inr)
  have no_mark: "mark_published clock worker (ms_event_id rc) now db2 \<noteq> (Inl e, db1)" for db2
    using mark_published_ok [OF laws(3), of worker "ms_event_id rc" db2] by auto
  have "publish rc db = (Inl e, db1)" using a no_mark unfolding and_do_Inl by auto
  then have rows: "ox_rows db1 = ox_rows db" by (rule leaves_outboxD [OF laws(2)])
  from h obtain nx where m: "ox_rows db1 = ox_rows db" "retry_at clock now (or_attempts rc) base_seconds = Inr nx"
      "mark_failed clock worker (ms_event_id rc) nx (safe_error_message e) db1 = (Inr (), db')"
    using rows unfolding and_do_Inr by auto
  have rows': "ox_rows db' = map (\<lambda>r. if owned_row worker (ms_event_id rc) r
    then failed_row (t + retry_delay base_seconds (or_attempts rc) * 1000) (safe_error_message e) r else r) (ox_rows db)"
    using mark_failed_Inr [OF m(3) retry_at_Inr [OF laws(1,3) m(2)]] m(1) by simp
  have "settled_row t base_seconds {} {ms_event_id rc} r (if owned_row worker (ms_event_id rc) r
    then failed_row (t + retry_delay base_seconds (or_attempts rc) * 1000) (safe_error_message e) r else r)"
    if "r \<in> set (ox_rows db)" for r
  proof (cases "ox_id r = ms_event_id rc")
    case True
    with ready that have "ox_locked_by r = Some worker" "ox_attempts r = or_attempts rc" by (auto simp: relay_ready_def)
    with True show ?thesis by (auto simp: settled_row_def owned_row_def)
  qed (simp add: settled_row_def owned_row_def)
  then show ?thesis unfolding rows' using False by (simp add: list_all2_map2 list_all2_same)
qed

lemma settled_row_message: "settled_row t base_seconds p f r r' \<Longrightarrow> ox_message r' = ox_message r"
  by (auto simp: settled_row_def split: if_splits)

lemma settled_row_other: "settled_row t base_seconds p f r r' \<Longrightarrow> ox_id r \<notin> p \<union> f \<Longrightarrow> r' = r"
  by (auto simp: settled_row_def)

lemma settled_row_join:
  assumes "settled_row t base_seconds p f r r1" "settled_row t base_seconds q g r1 r2" "(p \<union> f) \<inter> (q \<union> g) = {}"
  shows "settled_row t base_seconds (p \<union> q) (f \<union> g) r r2"
  using assms settled_row_message [OF assms(1)] by (auto simp: settled_row_def split: if_splits)

lemma list_all2_in_set_right: "y \<in> set ys \<Longrightarrow> list_all2 P xs ys \<Longrightarrow> \<exists>x\<in>set xs. P x y"
  by (induction ys arbitrary: xs) (auto simp: list_all2_Cons2)

lemma relay_loop_settles:
  assumes laws: "clock_laws clock" "leaves_outbox publish" "date_parse clock now = Some t"
    and "relay_ready worker recs (ox_rows db)" "distinct (map ms_event_id recs)"
    and "relay_loop clock worker base_seconds publish now recs db = (Inr result, db')"
  shows "list_all2 (settled_row t base_seconds (set (rl_published result)) (set (rl_failed result))) (ox_rows db) (ox_rows db')
    \<and> set (rl_published result) \<union> set (rl_failed result) = ms_event_id ` set recs
    \<and> set (rl_published result) \<inter> set (rl_failed result) = {}"
  using assms(4-)
proof (induction recs arbitrary: db result)
  case Nil
  then show ?case by (auto simp: list_all2_conv_all_nth settled_row_def)
next
  case (Cons rc recs)
  let ?i = "ms_event_id rc"
  from Cons.prems(3) obtain b db1 rest where run: "relay_one clock worker base_seconds publish now rc db = (Inr b, db1)"
      "relay_loop clock worker base_seconds publish now recs db1 = (Inr rest, db')"
      "result = (if b then rest\<lparr>rl_published := ?i # rl_published rest\<rparr> else rest\<lparr>rl_failed := ?i # rl_failed rest\<rparr>)"
    unfolding relay_loop.simps and_do_Inr by auto
  have one: "list_all2 (settled_row t base_seconds (if b then {?i} else {}) (if b then {} else {?i})) (ox_rows db) (ox_rows db1)"
    using Cons.prems(1) by (intro relay_one_settles [OF laws _ run(1)]) (simp add: relay_ready_def)
  have ready: "relay_ready worker recs (ox_rows db1)"
    unfolding relay_ready_def
  proof (intro ballI impI)
    fix rec' r' assume a: "rec' \<in> set recs" "r' \<in> set (ox_rows db1)" "ox_id r' = ms_event_id rec'"
    from a(2) one obtain r where r: "r \<in> set (ox_rows db)"
        "settled_row t base_seconds (if b then {?i} else {}) (if b then {} else {?i}) r r'"
      by (meson list_all2_in_set_right)
    have "ox_id r \<noteq> ?i" using settled_row_message [OF r(2)] a Cons.prems(2) by force
    then have "r' = r" by (intro settled_row_other [OF r(2)]) auto
    with a r Cons.prems(1) show "ox_locked_by r' = Some worker \<and> ox_attempts r' = or_attempts rec'"
      by (simp add: relay_ready_def)
  qed
  have IH: "list_all2 (settled_row t base_seconds (set (rl_published rest)) (set (rl_failed rest))) (ox_rows db1) (ox_rows db')"
      "set (rl_published rest) \<union> set (rl_failed rest) = ms_event_id ` set recs"
      "set (rl_published rest) \<inter> set (rl_failed rest) = {}"
    using Cons.IH [OF ready _ run(2)] Cons.prems(2) by simp_all
  have new: "?i \<notin> set (rl_published rest) \<union> set (rl_failed rest)" unfolding IH(2) using Cons.prems(2) by simp
  have "list_all2 (settled_row t base_seconds (set (rl_published result)) (set (rl_failed result))) (ox_rows db) (ox_rows db')"
  proof (rule list_all2_trans [OF _ one IH(1)])
    fix r r1 r2
    assume s: "settled_row t base_seconds (if b then {?i} else {}) (if b then {} else {?i}) r r1"
      "settled_row t base_seconds (set (rl_published rest)) (set (rl_failed rest)) r1 r2"
    have "settled_row t base_seconds ((if b then {?i} else {}) \<union> set (rl_published rest))
        ((if b then {} else {?i}) \<union> set (rl_failed rest)) r r2"
      by (rule settled_row_join [OF s]) (use new in auto)
    then show "settled_row t base_seconds (set (rl_published result)) (set (rl_failed result)) r r2"
      using run(3) by (cases b) simp_all
  qed
  moreover have "set (rl_published result) \<union> set (rl_failed result) = ms_event_id ` set (rc # recs)"
    using run(3) IH(2) by (cases b) auto
  moreover have "set (rl_published result) \<inter> set (rl_failed result) = {}"
    using run(3) IH(3) new by (cases b) auto
  ultimately show ?case by simp
qed

text \<open>What the claim does.\<close>

lemma claim_pending_Inr:
  assumes "claim_pending clock worker lease n now db = (Inr recs, db1)"
  obtains t where "date_parse clock now = Some t"
    "ms_event_id ` set recs = candidates n t (ox_rows db)"
    "ox_rows db1 = map (\<lambda>r. if ox_id r \<in> candidates n t (ox_rows db)
       then r\<lparr>ox_locked_by := Some worker, ox_locked_until := Some (t + lease * 1000)\<rparr> else r) (ox_rows db)"
    "distinct (map ox_id (ox_rows db)) \<Longrightarrow> distinct (map ms_event_id recs)"
    "distinct (map ox_id (ox_rows db)) \<Longrightarrow> relay_ready worker recs (ox_rows db1)"
proof -
  let ?C = "\<lambda>t. candidates n t (ox_rows db)"
  let ?lock = "\<lambda>t r. if ox_id r \<in> ?C t then r\<lparr>ox_locked_by := Some worker, ox_locked_until := Some (t + lease * 1000)\<rparr> else r"
  from assms obtain t where t: "date_parse clock now = Some t"
    and rows: "ox_rows db1 = map (?lock t) (ox_rows db)"
    and recs: "recs = map (map_outbox_record clock) (filter (\<lambda>r. ox_id r \<in> ?C t) (map (?lock t) (ox_rows db)))"
    by (auto simp: claim_pending_def and_do_def instant_of_def Let_def split: option.splits)
  have id [simp]: "ox_message (?lock t r) = ox_message r" for r by simp
  have same: "ms_event_id (map_outbox_record clock r) = ox_id r" "or_attempts (map_outbox_record clock r) = ox_attempts r" for r
    by (simp_all add: map_outbox_record_def Let_def)
  have sub: "?C t \<subseteq> ox_id ` set (ox_rows db)"
    using set_take_subset [of n "sort_by older (filter (claimable t) (ox_rows db))"] by (auto simp: candidates_def)
  have ids: "map ms_event_id recs = filter (\<lambda>i. i \<in> ?C t) (map ox_id (ox_rows db))"
    unfolding recs by (simp add: filter_map o_def same)
  have "set (map ms_event_id recs) = ?C t" unfolding ids using sub by auto
  moreover have "distinct (map ms_event_id recs)" if "distinct (map ox_id (ox_rows db))"
    unfolding ids using that by (rule distinct_filter)
  moreover have "relay_ready worker recs (ox_rows db1)" if d: "distinct (map ox_id (ox_rows db))"
    unfolding relay_ready_def
  proof (intro ballI impI)
    fix rc r assume a: "rc \<in> set recs" "r \<in> set (ox_rows db1)" "ox_id r = ms_event_id rc"
    obtain q where q: "q \<in> set (ox_rows db)" "rc = map_outbox_record clock (?lock t q)" "ox_id q \<in> ?C t"
      using a(1) unfolding recs by auto
    obtain u where u: "u \<in> set (ox_rows db)" "r = ?lock t u" using a(2) unfolding rows by auto
    have "ox_id u = ox_id q" using a(3) u(2) q(2) by (simp only: same id)
    with d u(1) q(1) have "u = q" by (simp add: distinct_map inj_on_def)
    with u q show "ox_locked_by r = Some worker \<and> ox_attempts r = or_attempts rc" by (simp add: same)
  qed
  ultimately show ?thesis using that t rows by simp
qed

lemma settled_row_locked:
  assumes "settled_row t base_seconds p f (r\<lparr>ox_locked_by := w, ox_locked_until := u\<rparr>) r'" "ox_id r \<in> p \<union> f"
  shows "settled_row t base_seconds p f r r'"
  using assms by (auto simp: settled_row_def published_row_def failed_row_def split: if_splits)

lemma card_candidates: "card (candidates n t rows) \<le> n"
proof -
  have "card (candidates n t rows) \<le> card (set (take n (sort_by older (filter (claimable t) rows))))"
    unfolding candidates_def by (rule card_image_le) simp
  also have "\<dots> \<le> n" using card_length [of "take n (sort_by older (filter (claimable t) rows))"] by simp
  finally show ?thesis .
qed

section \<open>What is published\<close>

text \<open>
  A broker answers each message, or refuses it with an error; the calls of \<open>publish\<close> are recorded beside
  the table in the order in which they are made.
\<close>

record watched_db = outbox_db +
  wd_calls :: "outbox_record list"

definition watched_publish :: "(outbox_record \<Rightarrow> js_error option) \<Rightarrow> outbox_record \<Rightarrow> (watched_db, unit) action" where
  "watched_publish broker r db = (case broker r of None \<Rightarrow> Inr () | Some e \<Rightarrow> Inl e, db\<lparr>wd_calls := wd_calls db @ [r]\<rparr>)"

lemma watched_leaves_outbox: "leaves_outbox (watched_publish broker)"
  by (simp add: leaves_outbox_def watched_publish_def)

lemma mark_keeps_calls:
  "mark_published clock worker i now db = (out, db') \<Longrightarrow> wd_calls db' = wd_calls db"
  "mark_failed clock worker i now reason db = (out, db') \<Longrightarrow> wd_calls db' = wd_calls db"
  by (auto simp: mark_published_def mark_failed_def and_do_def split: sum.splits)

lemma relay_one_calls:
  assumes "date_parse clock now = Some t" "relay_one clock worker base_seconds (watched_publish broker) now rc db = (Inr b, db')"
  shows "wd_calls db' = wd_calls db @ [rc] \<and> (b \<longleftrightarrow> broker rc = None)"
proof (cases "broker rc")
  case None
  obtain db2 where m: "mark_published clock worker (ms_event_id rc) now (db\<lparr>wd_calls := wd_calls db @ [rc]\<rparr>) = (Inr (), db2)"
    using mark_published_ok [OF assms(1)] by blast
  with assms(2) None have "b" "db' = db2" by (simp_all add: relay_one_def recover_def and_do_def watched_publish_def)
  with mark_keeps_calls(1) [OF m] None show ?thesis by simp
next
  case (Some e)
  with assms(2) have "\<not> b \<and> (\<exists>nx reason out. mark_failed clock worker (ms_event_id rc) nx reason
      (db\<lparr>wd_calls := wd_calls db @ [rc]\<rparr>) = (out, db'))"
    by (auto simp: relay_one_def recover_def and_do_def watched_publish_def split: sum.splits prod.splits)
  then show ?thesis using Some by (auto dest: mark_keeps_calls(2))
qed

lemma relay_loop_calls:
  assumes "date_parse clock now = Some t"
  shows "relay_loop clock worker base_seconds (watched_publish broker) now recs db = (Inr result, db') \<Longrightarrow>
    wd_calls db' = wd_calls db @ recs
    \<and> rl_published result = map ms_event_id (filter (\<lambda>r. broker r = None) recs)
    \<and> rl_failed result = map ms_event_id (filter (\<lambda>r. broker r \<noteq> None) recs)"
proof (induction recs arbitrary: db result)
  case (Cons rc recs)
  from Cons.prems obtain b db1 rest where one: "relay_one clock worker base_seconds (watched_publish broker) now rc db = (Inr b, db1)"
    and rest: "relay_loop clock worker base_seconds (watched_publish broker) now recs db1 = (Inr rest, db')"
    and r: "result = (if b then rest\<lparr>rl_published := ms_event_id rc # rl_published rest\<rparr>
      else rest\<lparr>rl_failed := ms_event_id rc # rl_failed rest\<rparr>)"
    unfolding relay_loop.simps and_do_Inr by auto
  from relay_one_calls [OF assms one] Cons.IH [OF rest] show ?case by (auto simp: r)
qed simp

text \<open>The claim hands out the rows as they are, and calls nobody.\<close>

lemma claim_pending_records:
  assumes "claim_pending clock worker lease n now db = (Inr recs, db1)"
  shows "set recs \<subseteq> map_outbox_record clock ` set (ox_rows db)"
  using assms by (auto simp: claim_pending_def and_do_def Let_def map_outbox_record_def split: sum.splits if_splits)

lemma claim_keeps_calls: "claim_pending clock worker lease n now db = (Inr recs, db1) \<Longrightarrow> wd_calls db1 = wd_calls db"
  by (auto simp: claim_pending_def and_do_def Let_def split: sum.splits)

text \<open>
  C23. A batch publishes what it claims, each message once, and records every outcome.  When \<open>runBatch\<close>
  returns, it has called \<open>publish\<close> once for each of the oldest at most \<open>limit\<close> messages that were
  unpublished, due and not leased, with the message as the table holds it, and for nothing else; it reports
  as published exactly those the broker took and as failed exactly those it refused; a message the
  broker took is marked as published at that instant, a refused one stays unpublished with one attempt more
  and is due again at most an hour later, and every other row is untouched.
\<close>

theorem outbox_batch:
  assumes "clock_laws clock" "distinct (map ox_id (ox_rows db))"
    and "run_batch clock worker lease base_seconds (watched_publish broker) limit now db = (Inr result, db')"
  shows "\<exists>t n calls. date_parse clock now = Some t \<and> js_int limit = Some n \<and> 1 \<le> n
    \<and> wd_calls db' = wd_calls db @ calls \<and> distinct (map ms_event_id calls)
    \<and> ms_event_id ` set calls = candidates (nat n) t (ox_rows db) \<and> card (candidates (nat n) t (ox_rows db)) \<le> nat n
    \<and> set calls \<subseteq> map_outbox_record clock ` set (ox_rows db)
    \<and> rl_published result = map ms_event_id (filter (\<lambda>r. broker r = None) calls)
    \<and> rl_failed result = map ms_event_id (filter (\<lambda>r. broker r \<noteq> None) calls)
    \<and> list_all2 (settled_row t base_seconds (set (rl_published result)) (set (rl_failed result))) (ox_rows db) (ox_rows db')
    \<and> (\<forall>attempts. retry_delay base_seconds attempts \<le> 3600)"
proof -
  from assms(3) obtain n recs db1 where n: "js_int limit = Some n" "1 \<le> n"
    and c: "claim_pending clock worker lease (nat n) now db = (Inr recs, db1)"
    and l: "relay_loop clock worker base_seconds (watched_publish broker) now recs db1 = (Inr result, db')"
    by (auto simp: run_batch_def and_do_Inr split: option.splits if_splits)
  from c obtain t where t: "date_parse clock now = Some t"
    "ms_event_id ` set recs = candidates (nat n) t (ox_rows db)"
    "ox_rows db1 = map (\<lambda>r. if ox_id r \<in> candidates (nat n) t (ox_rows db)
       then r\<lparr>ox_locked_by := Some worker, ox_locked_until := Some (t + lease * 1000)\<rparr> else r) (ox_rows db)"
    "distinct (map ms_event_id recs)" "relay_ready worker recs (ox_rows db1)"
    by (rule claim_pending_Inr) (use assms(2) in blast)
  note L = relay_loop_settles [OF assms(1) watched_leaves_outbox t(1,5,4) l]
  have rows: "list_all2 (settled_row t base_seconds (set (rl_published result)) (set (rl_failed result))) (ox_rows db) (ox_rows db')"
    using L unfolding t(3) list_all2_map1
    by (elim conjE, elim list_all2_mono) (auto split: if_splits simp: t(2) intro: settled_row_locked)
  show ?thesis
    using relay_loop_calls [OF t(1) l] claim_keeps_calls [OF c] claim_pending_records [OF c] rows t(1,2,4) n card_candidates
    by - (rule exI [of _ t], rule exI [of _ n], rule exI [of _ recs], simp add: retry_delay_bounds(2))
qed

text \<open>A clock that satisfies the laws: instants printed as decimal numbers.\<close>

definition counting_clock :: clock_lib where
  "counting_clock = \<lparr>date_parse = (\<lambda>s. Some (if s \<noteq> [] \<and> hd s = CHR ''-'' then - int (nat_of_digits (tl s))
       else int (nat_of_digits s))),
     print_instant = (\<lambda>t. if t < 0 then CHR ''-'' # digits_of (nat (- t)) else digits_of (nat t))\<rparr>"

lemma digits_of_not_minus: "hd (digits_of n) \<noteq> CHR ''-''"
proof
  assume "hd (digits_of n) = CHR ''-''"
  moreover have "is_digit (hd (digits_of n))"
    using digits_of_digits [of n] digits_of_nonempty [of n] by (metis list_all_iff hd_in_set)
  ultimately show False by (simp add: char_class_defs)
qed

lemma counting_clock_laws: "clock_laws counting_clock"
  by (simp add: clock_laws_def counting_clock_def digits_of_not_minus)

definition example_outbox_row :: outbox_row where
  "example_outbox_row = \<lparr>ox_message = example_message, ox_available = 0, ox_created = 0, ox_published = None,
     ox_locked_by = None, ox_locked_until = None, ox_attempts = 0, ox_error = None\<rparr>"

definition example_outbox :: watched_db where
  "example_outbox = \<lparr>ox_rows = [example_outbox_row], wd_calls = []\<rparr>"

lemma example_batch_run:
  "\<exists>db'. run_batch counting_clock ''w1'' 60 5 (watched_publish (\<lambda>_. Some (Failure ''broker down''))) (Num 10) ''0'' example_outbox
    = (Inr \<lparr>rl_published = [], rl_failed = [''e1'']\<rparr>, db')"
  by (simp add: run_batch_def and_do_def recover_def claim_pending_def instant_of_def counting_clock_def
      nat_of_digits_def digit_val_def example_outbox_def candidates_def claimable_def example_outbox_row_def
      relay_one_def map_outbox_record_def Let_def example_message_def retry_at_def to_iso_string_def retry_delay_def
      mark_failed_def watched_publish_def)

theorem outbox_batch_witness:
  "\<exists>db' r'. run_batch counting_clock ''w1'' 60 5 (watched_publish (\<lambda>_. Some (Failure ''broker down''))) (Num 10) ''0'' example_outbox
      = (Inr \<lparr>rl_published = [], rl_failed = [''e1'']\<rparr>, db') \<and> map ms_event_id (wd_calls db') = [''e1'']
    \<and> ox_rows db' = [r'] \<and> ox_available r' = 5000 \<and> ox_attempts r' = 1 \<and> ox_published r' = None"
proof -
  obtain db' where run: "run_batch counting_clock ''w1'' 60 5 (watched_publish (\<lambda>_. Some (Failure ''broker down''))) (Num 10) ''0''
      example_outbox = (Inr \<lparr>rl_published = [], rl_failed = [''e1'']\<rparr>, db')" using example_batch_run by (elim exE) (rule that)
  have d: "distinct (map ox_id (ox_rows example_outbox))" by (simp add: example_outbox_def)
  obtain t calls where t: "date_parse counting_clock ''0'' = Some t"
    and calls: "wd_calls db' = wd_calls example_outbox @ calls"
      "rl_failed \<lparr>rl_published = [], rl_failed = [''e1'']\<rparr> = map ms_event_id (filter (\<lambda>r. Some (Failure ''broker down'') \<noteq> None) calls)"
    and rows: "list_all2 (settled_row t 5 (set (rl_published \<lparr>rl_published = [], rl_failed = [''e1'']\<rparr>))
        (set (rl_failed \<lparr>rl_published = [], rl_failed = [''e1'']\<rparr>))) (ox_rows example_outbox) (ox_rows db')"
    using outbox_batch [OF counting_clock_laws d run] by (elim exE conjE) (rule that)
  from t have "t = 0" by (simp add: counting_clock_def nat_of_digits_def digit_val_def)
  with rows obtain r' where r': "ox_rows db' = [r']" "settled_row 0 5 {} {''e1''} example_outbox_row r'"
    by (auto simp: example_outbox_def list_all2_Cons1)
  from r'(2) obtain reason where "r' = failed_row 5000 reason example_outbox_row"
    by (auto simp: settled_row_def example_outbox_row_def example_message_def retry_delay_def)
  moreover have "map ms_event_id (wd_calls db') = [''e1'']" using calls by (simp add: example_outbox_def)
  ultimately show ?thesis using run r'(1)
    by - (rule exI [of _ db'], rule exI [of _ r'], simp add: failed_row_def example_outbox_row_def)
qed

section \<open>Leases\<close>

text \<open>
  A leased message belongs to the relay that claimed it: until the lease of a claim has run
  out no other claim returns any of its messages, and another worker can neither mark one of them
  as published nor as failed.
\<close>

theorem outbox_lease:
  assumes "claim_pending clock w1 lease n1 now1 db = (Inr recs1, db1)" "claim_pending clock w2 lease2 n2 now2 db1 = (Inr recs2, db2)"
    "date_parse clock now1 = Some t1" "date_parse clock now2 = Some t2" "t2 \<le> t1 + lease * 1000" "w1 \<noteq> w2"
  shows "ms_event_id ` set recs1 \<inter> ms_event_id ` set recs2 = {}
    \<and> (\<forall>i\<in>ms_event_id ` set recs1. \<forall>text reason db3.
          (mark_published clock w2 i text db1 = (Inr (), db3) \<longrightarrow> ox_rows db3 = ox_rows db1)
        \<and> (mark_failed clock w2 i text reason db1 = (Inr (), db3) \<longrightarrow> ox_rows db3 = ox_rows db1))"
proof -
  from assms(1,3) have c1: "ms_event_id ` set recs1 = candidates n1 t1 (ox_rows db)"
    "ox_rows db1 = map (\<lambda>r. if ox_id r \<in> candidates n1 t1 (ox_rows db)
       then r\<lparr>ox_locked_by := Some w1, ox_locked_until := Some (t1 + lease * 1000)\<rparr> else r) (ox_rows db)"
    by (auto elim!: claim_pending_Inr)
  have held: "ox_locked_by r = Some w1 \<and> ox_locked_until r = Some (t1 + lease * 1000)"
    if "r \<in> set (ox_rows db1)" "ox_id r \<in> ms_event_id ` set recs1" for r
    using that by (auto simp: c1 split: if_splits)
  have sub: "candidates n2 t2 (ox_rows db1) \<subseteq> ox_id ` {r \<in> set (ox_rows db1). claimable t2 r}"
    using set_take_subset [of n2 "sort_by older (filter (claimable t2) (ox_rows db1))"] by (auto simp: candidates_def)
  have ids2: "ms_event_id ` set recs2 = candidates n2 t2 (ox_rows db1)"
    using assms(2,4) by (auto elim!: claim_pending_Inr)
  have "i \<notin> ms_event_id ` set recs2" if i: "i \<in> ms_event_id ` set recs1" for i
  proof
    assume "i \<in> ms_event_id ` set recs2"
    with sub ids2 obtain r where r: "r \<in> set (ox_rows db1)" "claimable t2 r" "i = ox_id r" by auto
    with held [of r] i assms(5) show False by (simp add: claimable_def)
  qed
  then have disjoint: "ms_event_id ` set recs1 \<inter> ms_event_id ` set recs2 = {}" by (intro equals0I) (elim IntE, blast)
  have "\<not> owned_row w2 i r" if "i \<in> ms_event_id ` set recs1" "r \<in> set (ox_rows db1)" for i r
    using held that assms(6) unfolding owned_row_def by auto
  then have "map (\<lambda>r. if owned_row w2 i r then f r else r) (ox_rows db1) = ox_rows db1"
    if "i \<in> ms_event_id ` set recs1" for i f using that by (intro map_idI) auto
  note same = this
  have "ox_rows db3 = ox_rows db1" if "i \<in> ms_event_id ` set recs1" "mark_published clock w2 i nx db1 = (Inr (), db3)"
    for i nx db3 using that(2) same [OF that(1)] unfolding mark_published_def and_do_Inr by auto
  moreover have "ox_rows db3 = ox_rows db1" if "i \<in> ms_event_id ` set recs1" "mark_failed clock w2 i nx reason db1 = (Inr (), db3)"
    for i nx reason db3 using that(2) same [OF that(1)] unfolding mark_failed_def and_do_Inr by auto
  ultimately show ?thesis using disjoint by (intro conjI ballI allI impI)
qed

theorem outbox_lease_witness:
  "\<exists>(db1 :: watched_db) recs1 recs2 db2. claim_pending counting_clock ''w1'' 60 10 ''0'' example_outbox = (Inr recs1, db1)
     \<and> claim_pending counting_clock ''w2'' 60 10 ''1'' db1 = (Inr recs2, db2)
     \<and> map ms_event_id recs1 = [''e1''] \<and> ms_event_id ` set recs1 \<inter> ms_event_id ` set recs2 = {}"
proof -
  have p: "date_parse counting_clock ''0'' = Some 0" "date_parse counting_clock ''1'' = Some 1"
    by (simp_all add: counting_clock_def nat_of_digits_def digit_val_def)
  have "\<exists>recs1 (db1 :: watched_db). claim_pending counting_clock ''w1'' 60 10 ''0'' example_outbox = (Inr recs1, db1)
      \<and> map ms_event_id recs1 = [''e1'']"
    by (simp add: claim_pending_def and_do_def instant_of_def p example_outbox_def candidates_def claimable_def
        example_outbox_row_def map_outbox_record_def Let_def example_message_def)
  then obtain recs1 and db1 :: watched_db where c1: "claim_pending counting_clock ''w1'' 60 10 ''0'' example_outbox = (Inr recs1, db1)"
      "map ms_event_id recs1 = [''e1'']" by (elim exE conjE) (rule that)
  have "\<exists>recs2 (db2 :: watched_db). claim_pending counting_clock ''w2'' 60 10 ''1'' db1 = (Inr recs2, db2)"
    by (simp add: claim_pending_def and_do_def instant_of_def p Let_def)
  then obtain recs2 and db2 :: watched_db where c2: "claim_pending counting_clock ''w2'' 60 10 ''1'' db1 = (Inr recs2, db2)"
    by (elim exE) (rule that)
  have "ms_event_id ` set recs1 \<inter> ms_event_id ` set recs2 = {}"
    using outbox_lease [OF c1(1) c2 p] by simp
  with c1 c2 show ?thesis by (intro exI conjI)
qed

end
