(* ===== verification/Audit_Trail.thy ===== *)
theory Audit_Trail
  imports Inbox Js_Date
begin

text \<open>
  The audit trail: the hash chain of \<open>src/modules/audit/domain/audit-chain.ts\<close>, appending
  (\<open>postgres-audit.repository.ts\<close>), reading and verifying (\<open>query-audit-trail.ts\<close>,
  \<open>postgres-audit-trail.repository.ts\<close>) and the worker that records workflow actions
  (\<open>apps/audit-worker/src/audit-message-handler.ts\<close>).  The signer and what a column gives back
  for a stored text are parameters.
\<close>

section \<open>The hash chain\<close>

datatype audit_outcome = Success | Denied | Failed

record audit_draft =
  ad_id :: string
  ad_correlation :: string
  ad_actor :: string
  ad_technical :: string
  ad_session :: "string option"
  ad_action :: string
  ad_resource_type :: string
  ad_resource :: string
  ad_outcome :: audit_outcome
  ad_business_date :: string
  ad_occurred_at :: string
  ad_application :: string
  ad_address :: "string option"
  ad_justification :: "string option"
  ad_run :: "string option"
  ad_batch :: "string option"
  ad_document :: "string option"
  ad_changes :: "(string \<times> json) list option"

record signed_event = audit_draft +
  se_previous :: "string option"
  se_hash :: string
  se_key :: string
  se_signature :: string

text \<open>\<open>signSha256Digest\<close> is given the digest in hexadecimal; a signature is a list of bytes.\<close>

record audit_signer =
  sg_key :: string
  sg_sign :: "string \<Rightarrow> nat list res"

definition outcome_name :: "audit_outcome \<Rightarrow> string" where
  "outcome_name x = (case x of Success \<Rightarrow> ''SUCCESS'' | Denied \<Rightarrow> ''DENIED'' | Failed \<Rightarrow> ''FAILURE'')"

definition optional_text :: "string option \<Rightarrow> json" where
  "optional_text x = (case x of None \<Rightarrow> J_Undefined | Some t \<Rightarrow> J_String t)"

definition draft_entries :: "'a audit_draft_scheme \<Rightarrow> (string \<times> json) list" where
  "draft_entries d =
     [(''auditEventId'', J_String (ad_id d)), (''correlationId'', J_String (ad_correlation d)),
      (''actorId'', J_String (ad_actor d)), (''technicalIdentity'', J_String (ad_technical d)),
      (''sessionId'', optional_text (ad_session d)), (''action'', J_String (ad_action d)),
      (''resourceType'', J_String (ad_resource_type d)), (''resourceId'', J_String (ad_resource d)),
      (''outcome'', J_String (outcome_name (ad_outcome d))), (''businessDate'', J_String (ad_business_date d)),
      (''occurredAt'', J_String (ad_occurred_at d)), (''sourceApplication'', J_String (ad_application d)),
      (''sourceAddress'', optional_text (ad_address d)), (''justification'', optional_text (ad_justification d)),
      (''runId'', optional_text (ad_run d)), (''batchId'', optional_text (ad_batch d)),
      (''documentReferenceId'', optional_text (ad_document d)),
      (''authorizedChanges'', case ad_changes d of None \<Rightarrow> J_Undefined | Some c \<Rightarrow> J_Object c)]"

definition chain_payload :: "'a audit_draft_scheme \<Rightarrow> string option \<Rightarrow> json" where
  "chain_payload d previous = J_Object (draft_entries d @
     [(''previousHash'', case previous of None \<Rightarrow> J_Null | Some h \<Rightarrow> J_String h)])"

definition calculate_audit_hash :: "json_lib \<Rightarrow> 'a audit_draft_scheme \<Rightarrow> string option \<Rightarrow> string res" where
  "calculate_audit_hash lib d previous =
     (if (case previous of None \<Rightarrow> False | Some h \<Rightarrow> h \<noteq> [] \<and> \<not> is_sha256_hex h)
      then Inl (TypeError ''Previous audit hash is invalid'')
      else and_then (canonical_json lib (chain_payload d previous)) (\<lambda>text. Inr (sha256 lib text)))"

text \<open>\<open>Buffer.from(bytes).toString('base64')\<close>.\<close>

definition base64_char :: "nat \<Rightarrow> char" where
  "base64_char n = (if n < 26 then char_of (65 + n) else if n < 52 then char_of (71 + n)
     else if n < 62 then char_of (n - 4) else if n = 62 then CHR ''+'' else CHR ''/'')"

fun base64 :: "nat list \<Rightarrow> string" where
  "base64 [] = []"
| "base64 [a] = [base64_char (a div 4), base64_char (a mod 4 * 16), CHR ''='', CHR ''='']"
| "base64 [a, b] = [base64_char (a div 4), base64_char (a mod 4 * 16 + b div 16), base64_char (b mod 16 * 4), CHR ''='']"
| "base64 (a # b # c # rest) = base64_char (a div 4) # base64_char (a mod 4 * 16 + b div 16)
     # base64_char (b mod 16 * 4 + c div 64) # base64_char (c mod 64) # base64 rest"

definition signed :: "audit_draft \<Rightarrow> string option \<Rightarrow> string \<Rightarrow> string \<Rightarrow> string \<Rightarrow> signed_event" where
  "signed d previous h key signature = audit_draft.extend d
     (signed_event.fields previous h key signature)"

definition create_signed_event :: "json_lib \<Rightarrow> audit_signer \<Rightarrow> audit_draft \<Rightarrow> string option \<Rightarrow> signed_event res" where
  "create_signed_event lib signer d previous =
     and_then (calculate_audit_hash lib d previous) (\<lambda>h.
     and_then (sg_sign signer h) (\<lambda>signature.
     if length signature = 0 then Inl (Failure ''Audit signer returned an empty signature'')
     else Inr (signed d previous h (sg_key signer) (base64 signature))))"

definition verify_audit_hash :: "json_lib \<Rightarrow> signed_event \<Rightarrow> bool res" where
  "verify_audit_hash lib e =
     and_then (calculate_audit_hash lib (audit_draft.truncate e) (se_previous e)) (\<lambda>h. Inr (se_hash e = h))"

section \<open>Appending\<close>

record audit_row =
  ro_event :: signed_event
  ro_created :: int

record audit_db = inbox_db +
  au_rows :: "audit_row list"

text \<open>
  What the columns give back, as texts: \<open>uuid\<close>, \<open>inet\<close>, \<open>timestamptz\<close> printed by \<open>toISOString\<close>, \<open>date\<close>;
  and \<open>jsonb\<close>, as the object parsed from what is stored.
\<close>

record audit_columns =
  cl_uuid :: "string \<Rightarrow> string"
  cl_inet :: "string \<Rightarrow> string"
  cl_instant :: "string \<Rightarrow> string"
  cl_date :: "string \<Rightarrow> string"
  cl_jsonb :: "(string \<times> json) list \<Rightarrow> (string \<times> json) list"

definition audit_order :: "audit_columns \<Rightarrow> audit_row \<Rightarrow> audit_row \<Rightarrow> int" where
  "audit_order cols a b = (if ro_created a \<noteq> ro_created b then sgn (ro_created a - ro_created b)
     else if cl_uuid cols (ad_id (ro_event a)) = cl_uuid cols (ad_id (ro_event b)) then 0
     else if str_less (cl_uuid cols (ad_id (ro_event a))) (cl_uuid cols (ad_id (ro_event b))) then - 1 else 1)"

definition ordered_rows :: "audit_columns \<Rightarrow> 'a audit_db_scheme \<Rightarrow> audit_row list" where
  "ordered_rows cols db = sort_by (audit_order cols) (au_rows db)"

definition latest_hash :: "audit_columns \<Rightarrow> 'a audit_db_scheme \<Rightarrow> string option" where
  "latest_hash cols db = (case rev (ordered_rows cols db) of [] \<Rightarrow> None | r # _ \<Rightarrow> Some (se_hash (ro_event r)))"

text \<open>The insertion, with the unique indexes on the hash and on the previous hash.\<close>

definition insert_audit_event :: "signed_event \<Rightarrow> 'a audit_db_scheme \<Rightarrow> 'a audit_db_scheme res" where
  "insert_audit_event e db =
     (if \<exists>r\<in>set (au_rows db). se_hash (ro_event r) = se_hash e
        \<or> se_previous e \<noteq> None \<and> se_previous (ro_event r) = se_previous e
      then Inl (Failure ''duplicate key value violates unique constraint'')
      else Inr (db\<lparr>au_rows := au_rows db @ [\<lparr>ro_event = e, ro_created = ib_clock db\<rparr>]\<rparr>))"

definition append_event ::
  "json_lib \<Rightarrow> audit_columns \<Rightarrow> audit_signer \<Rightarrow> audit_draft \<Rightarrow> ('a audit_db_scheme, signed_event) action" where
  "append_event lib cols signer d = transaction (\<lambda>db.
     case find (\<lambda>r. cl_uuid cols (ad_id (ro_event r)) = cl_uuid cols (ad_id d)) (au_rows db) of
       Some r \<Rightarrow>
         and_then (calculate_audit_hash lib d (se_previous (ro_event r))) (\<lambda>h.
         if h \<noteq> se_hash (ro_event r) then Inl (Failure ''Audit event identifier was already used for a different payload'')
         else Inr (signed d (se_previous (ro_event r)) (se_hash (ro_event r)) (se_key (ro_event r)) (se_signature (ro_event r)), db))
     | None \<Rightarrow>
         and_then (create_signed_event lib signer d (latest_hash cols db)) (\<lambda>e.
         and_then (insert_audit_event e db) (\<lambda>db'. Inr (e, db'))))"

section \<open>Reading and verifying\<close>

record audit_filters =
  af_action :: "string option"
  af_resource_type :: "string option"
  af_outcome :: "string option"
  af_correlation :: "string option"
  af_from :: "string option"
  af_to :: "string option"

record audit_window =
  aw_events :: "signed_event list"
  aw_matches :: "bool list"
  aw_predecessors :: "bool list"

record audit_result =
  at_events :: "signed_event list"
  at_valid :: bool
  at_count :: nat
  at_broken :: "string option"

definition opt_holds :: "('a \<Rightarrow> bool) \<Rightarrow> 'a option \<Rightarrow> bool" where
  "opt_holds P x = (case x of None \<Rightarrow> True | Some a \<Rightarrow> P a)"

definition matches_filter :: "audit_columns \<Rightarrow> audit_filters \<Rightarrow> signed_event \<Rightarrow> bool" where
  "matches_filter cols f e \<longleftrightarrow> opt_holds (\<lambda>a. ad_action e = a) (af_action f)
     \<and> opt_holds (\<lambda>a. ad_resource_type e = a) (af_resource_type f)
     \<and> opt_holds (\<lambda>a. outcome_name (ad_outcome e) = a) (af_outcome f)
     \<and> opt_holds (\<lambda>a. cl_uuid cols (ad_correlation e) = cl_uuid cols a) (af_correlation f)
     \<and> opt_holds (\<lambda>a. str_le a (cl_date cols (ad_business_date e))) (af_from f)
     \<and> opt_holds (\<lambda>a. str_le (cl_date cols (ad_business_date e)) a) (af_to f)"

text \<open>\<open>...(row.x ? { x: row.x } : {})\<close>: an empty text reads as absent.\<close>

definition present :: "string option \<Rightarrow> string option" where
  "present x = (case x of None \<Rightarrow> None | Some t \<Rightarrow> if t = [] then None else Some t)"

definition read_event :: "audit_columns \<Rightarrow> signed_event \<Rightarrow> signed_event" where
  "read_event cols e = e\<lparr>ad_id := cl_uuid cols (ad_id e), se_previous := present (se_previous e),
     ad_correlation := cl_uuid cols (ad_correlation e), ad_session := present (ad_session e),
     ad_business_date := cl_date cols (ad_business_date e), ad_occurred_at := cl_instant cols (ad_occurred_at e),
     ad_address := present (map_option (cl_inet cols) (ad_address e)), ad_justification := present (ad_justification e),
     ad_run := present (map_option (cl_uuid cols) (ad_run e)), ad_batch := present (map_option (cl_uuid cols) (ad_batch e)),
     ad_document := present (map_option (cl_uuid cols) (ad_document e)), ad_changes := map_option (cl_jsonb cols) (ad_changes e)\<rparr>"

text \<open>Each row with whether its previous hash is that of its predecessor in the whole table.\<close>

fun with_predecessors :: "string option \<Rightarrow> audit_row list \<Rightarrow> (audit_row \<times> bool) list" where
  "with_predecessors h [] = []"
| "with_predecessors h (r # rs) =
     (r, se_previous (ro_event r) = h) # with_predecessors (Some (se_hash (ro_event r))) rs"

definition latest_window :: "audit_columns \<Rightarrow> nat \<Rightarrow> audit_filters \<Rightarrow> 'a audit_db_scheme \<Rightarrow> audit_window" where
  "latest_window cols n filters db =
     (let all_rows = with_predecessors None (ordered_rows cols db);
          latest = drop (length all_rows - n) all_rows in
      \<lparr>aw_events = map (\<lambda>(r, _). read_event cols (ro_event r)) latest,
       aw_matches = map (\<lambda>(r, _). matches_filter cols filters (ro_event r)) latest,
       aw_predecessors = map snd latest\<rparr>)"

definition upper_start :: "char \<Rightarrow> bool" where
  "upper_start c \<longleftrightarrow> is_upper c \<or> is_digit c \<or> c \<in> {CHR ''_'', CHR ''.'', CHR '':'', CHR ''-''}"

definition action_filter :: "string \<Rightarrow> bool" where
  "action_filter s = headed_run is_upper upper_start 0 127 s"

definition resource_filter :: "string \<Rightarrow> bool" where
  "resource_filter s = headed_run (\<lambda>c. is_upper c \<or> is_lower c) (\<lambda>c. upper_start c \<or> is_lower c) 0 127 s"

definition validate_filters :: "audit_filters \<Rightarrow> unit res" where
  "validate_filters f =
     (if \<not> opt_holds action_filter (af_action f) then Inl (TypeError ''Invalid audit action filter'')
      else if \<not> opt_holds resource_filter (af_resource_type f) then Inl (TypeError ''Invalid audit resource type filter'')
      else if \<not> opt_holds (\<lambda>x. x \<in> {''SUCCESS'', ''DENIED'', ''FAILURE''}) (af_outcome f)
        then Inl (TypeError ''Invalid audit outcome filter'')
      else if \<not> opt_holds is_uuid (af_correlation f) then Inl (TypeError ''Invalid audit correlation identifier filter'')
      else if \<not> opt_holds calendar_date (af_from f) then Inl (TypeError ''Invalid audit businessDateFrom filter'')
      else if \<not> opt_holds calendar_date (af_to f) then Inl (TypeError ''Invalid audit businessDateTo filter'')
      else if (case (af_from f, af_to f) of (Some a, Some b) \<Rightarrow> str_less b a | _ \<Rightarrow> False)
        then Inl (RangeError ''Audit business date range is inverted'')
      else Inr ())"

definition has_filter :: "audit_filters \<Rightarrow> bool" where
  "has_filter f \<longleftrightarrow> af_action f \<noteq> None \<or> af_resource_type f \<noteq> None \<or> af_outcome f \<noteq> None
     \<or> af_correlation f \<noteq> None \<or> af_from f \<noteq> None \<or> af_to f \<noteq> None"

text \<open>The loop: the index of the first event that breaks the chain.\<close>

fun verify_loop :: "json_lib \<Rightarrow> nat \<Rightarrow> signed_event option \<Rightarrow> (signed_event \<times> bool) list \<Rightarrow> (nat \<times> signed_event) option res" where
  "verify_loop lib i previous [] = Inr None"
| "verify_loop lib i previous ((e, linked) # rest) =
     and_then (verify_audit_hash lib e) (\<lambda>good.
     if \<not> good \<or> \<not> linked \<or> (case previous of None \<Rightarrow> False | Some p \<Rightarrow> se_previous e \<noteq> Some (se_hash p))
     then Inr (Some (i, e)) else verify_loop lib (i + 1) (Some e) rest)"

definition query_audit_trail ::
  "json_lib \<Rightarrow> (nat \<Rightarrow> audit_filters \<Rightarrow> audit_window) \<Rightarrow> jsnum \<Rightarrow> audit_filters \<Rightarrow> audit_result res" where
  "query_audit_trail lib window_of limit filters =
     (case int_between 1 200 limit of
        None \<Rightarrow> Inl (RangeError ''Audit trail limit must be between 1 and 200'')
      | Some n \<Rightarrow>
          and_then (validate_filters filters) (\<lambda>_.
          let w = window_of (if has_filter filters then min (n * 10) 2000 else n) filters in
          if length (aw_events w) \<noteq> length (aw_matches w) \<or> length (aw_events w) \<noteq> length (aw_predecessors w)
          then Inl (Failure ''Invalid audit trail verification window'')
          else let hits = map fst (filter snd (zip (aw_events w) (aw_matches w)));
                   projected = drop (length hits - n) hits in
          and_then (verify_loop lib 0 None (zip (aw_events w) (aw_predecessors w))) (\<lambda>broken.
          Inr (case broken of
              Some (i, e) \<Rightarrow> \<lparr>at_events = projected, at_valid = False, at_count = i, at_broken = Some (ad_id e)\<rparr>
            | None \<Rightarrow> \<lparr>at_events = projected, at_valid = True, at_count = length (aw_events w), at_broken = None\<rparr>))))"

section \<open>The worker\<close>

definition payload_field :: "(string \<times> json) list \<Rightarrow> string \<Rightarrow> json" where
  "payload_field payload k = (case map_of payload k of None \<Rightarrow> J_Undefined | Some v \<Rightarrow> v)"

record workflow_payload =
  wp_resource_type :: string
  wp_resource :: string
  wp_action :: string
  wp_actor :: string
  wp_justification :: string
  wp_result_state :: string
  wp_business_date :: string
  wp_session :: "string option"
  wp_address :: "string option"

definition required_fields :: "string list" where
  "required_fields = [''resourceType'', ''resourceId'', ''action'', ''actorId'', ''justification'', ''resultState'', ''businessDate'']"

definition invalid_field :: "string \<Rightarrow> js_error" where
  "invalid_field k = TypeError (''Invalid audit workflow event field: '' @ k)"

definition text_of :: "json \<Rightarrow> string" where
  "text_of v = (case v of J_String t \<Rightarrow> t | _ \<Rightarrow> [])"

definition check_required :: "(string \<times> json) list \<Rightarrow> string \<Rightarrow> unit res" where
  "check_required payload k = (case payload_field payload k of
     J_String t \<Rightarrow> if blank t then Inl (invalid_field k) else Inr () | _ \<Rightarrow> Inl (invalid_field k))"

definition check_optional :: "(string \<times> json) list \<Rightarrow> string \<Rightarrow> unit res" where
  "check_optional payload k = (case payload_field payload k of
     J_Undefined \<Rightarrow> Inr () | J_String t \<Rightarrow> if t = [] then Inl (invalid_field k) else Inr () | _ \<Rightarrow> Inl (invalid_field k))"

definition optional_field :: "(string \<times> json) list \<Rightarrow> string \<Rightarrow> string option" where
  "optional_field payload k = (case payload_field payload k of J_String t \<Rightarrow> Some t | _ \<Rightarrow> None)"

definition workflow_action_payload :: "(string \<times> json) list \<Rightarrow> workflow_payload res" where
  "workflow_action_payload payload =
     and_then (each (check_required payload) required_fields) (\<lambda>_.
     if \<not> iso_shape (text_of (payload_field payload ''businessDate'')) then Inl (invalid_field ''businessDate'')
     else and_then (each (check_optional payload) [''sessionId'', ''sourceAddress'']) (\<lambda>_.
     let f = (\<lambda>k. trim (text_of (payload_field payload k))) in
     Inr \<lparr>wp_resource_type = f ''resourceType'', wp_resource = f ''resourceId'', wp_action = f ''action'',
       wp_actor = f ''actorId'', wp_justification = f ''justification'', wp_result_state = f ''resultState'',
       wp_business_date = text_of (payload_field payload ''businessDate''),
       wp_session = optional_field payload ''sessionId'', wp_address = optional_field payload ''sourceAddress''\<rparr>))"

definition workflow_draft :: "outbox_message \<Rightarrow> workflow_payload \<Rightarrow> audit_draft" where
  "workflow_draft m p =
     \<lparr>ad_id = ms_event_id m, ad_correlation = ms_correlation m, ad_actor = wp_actor p, ad_technical = ''audit-worker'',
      ad_session = wp_session p, ad_action = wp_action p, ad_resource_type = wp_resource_type p, ad_resource = wp_resource p,
      ad_outcome = Success, ad_business_date = wp_business_date p, ad_occurred_at = ms_occurred_at m,
      ad_application = ''pms-api'', ad_address = wp_address p, ad_justification = Some (wp_justification p),
      ad_run = None, ad_batch = None, ad_document = None,
      ad_changes = Some [(''state'', J_Object [(''after'', J_String (wp_result_state p))])]\<rparr>"

definition audit_effect ::
  "(audit_draft \<Rightarrow> ('s, signed_event) action) \<Rightarrow> outbox_message \<Rightarrow> ('s, string option) action" where
  "audit_effect appender m =
     (if ms_event_type m \<noteq> ''pms.audit.workflow-action-recorded.v1'' \<or> ms_schema_version m \<noteq> 1
      then throw (TypeError ''Unsupported audit workflow event'')
      else and_do (lift_res (workflow_action_payload (ms_payload m))) (\<lambda>p.
           and_do (appender (workflow_draft m p)) (\<lambda>e. give (Some (se_hash e)))))"

definition handle_audit_message ::
  "(audit_draft \<Rightarrow> ('a inbox_db_scheme, signed_event) action) \<Rightarrow> outbox_message \<Rightarrow> ('a inbox_db_scheme, consumption) action" where
  "handle_audit_message appender m = consume ''audit-worker'' m (audit_effect appender)"

section \<open>The chain of a log\<close>

lemma insert_by_first: "(\<forall>y\<in>set ys. cmp x y \<le> 0) \<Longrightarrow> insert_by cmp x ys = x # ys"
  by (cases ys) auto

lemma sort_by_sorted: "sorted_wrt (\<lambda>a b. cmp a b \<le> 0) xs \<Longrightarrow> sort_by cmp xs = xs"
  by (induction xs) (simp_all add: insert_by_first)

fun linked :: "string option \<Rightarrow> audit_row list \<Rightarrow> bool" where
  "linked h [] \<longleftrightarrow> True"
| "linked h (r # rs) \<longleftrightarrow> se_previous (ro_event r) = h \<and> linked (Some (se_hash (ro_event r))) rs"

definition last_hash :: "string option \<Rightarrow> audit_row list \<Rightarrow> string option" where
  "last_hash h rs = (if rs = [] then h else Some (se_hash (ro_event (last rs))))"

lemma linked_snoc: "linked h (rs @ [r]) \<longleftrightarrow> linked h rs \<and> se_previous (ro_event r) = last_hash h rs"
  by (induction rs arbitrary: h) (auto simp: last_hash_def)

lemma linked_drop: "linked h rs \<Longrightarrow> \<exists>h'. linked h' (drop k rs)"
proof (induction rs arbitrary: h k)
  case (Cons r rs)
  then show ?case by (cases k) auto
qed simp

lemma with_predecessors_linked: "linked h rs \<Longrightarrow> with_predecessors h rs = map (\<lambda>r. (r, True)) rs"
  by (induction rs arbitrary: h) auto

lemma verify_loop_linked:
  assumes "linked h rs" "\<forall>r\<in>set rs. verify_audit_hash lib (f (ro_event r)) = Inr True
      \<and> se_previous (f (ro_event r)) = se_previous (ro_event r) \<and> se_hash (f (ro_event r)) = se_hash (ro_event r)"
    "previous = None \<or> h = Some (se_hash (the previous))"
  shows "verify_loop lib i previous (map (\<lambda>r. (f (ro_event r), True)) rs) = Inr None"
  using assms
proof (induction rs arbitrary: h i previous)
  case (Cons r rs)
  have "verify_loop lib (i + 1) (Some (f (ro_event r))) (map (\<lambda>r. (f (ro_event r), True)) rs) = Inr None"
    using Cons.prems by (intro Cons.IH [of "Some (se_hash (ro_event r))"]) auto
  with Cons.prems show ?case by (auto split: option.splits)
qed simp

lemma verify_loop_valid:
  "verify_loop lib i previous xs = Inr None \<Longrightarrow> (e, l) \<in> set xs \<Longrightarrow> verify_audit_hash lib e = Inr True"
proof (induction xs arbitrary: i previous)
  case (Cons x xs)
  then show ?case by (cases x) (auto simp: and_then_Inr split: if_splits)
qed simp

section \<open>Every log is a chain\<close>

inductive audit_reachable :: "json_lib \<Rightarrow> audit_columns \<Rightarrow> audit_signer \<Rightarrow> audit_db \<Rightarrow> bool" for lib cols signer where
  start: "audit_reachable lib cols signer \<lparr>ib_rows = [], ib_clock = t, au_rows = []\<rparr>"
| append: "audit_reachable lib cols signer db \<Longrightarrow> ib_clock db < t \<Longrightarrow>
    append_event lib cols signer d (db\<lparr>ib_clock := t\<rparr>) = (r, db') \<Longrightarrow> audit_reachable lib cols signer db'"

definition audit_inv :: "json_lib \<Rightarrow> 'a audit_db_scheme \<Rightarrow> bool" where
  "audit_inv lib db \<longleftrightarrow> sorted_wrt (\<lambda>a b. ro_created a < ro_created b) (au_rows db)
     \<and> (\<forall>r\<in>set (au_rows db). ro_created r \<le> ib_clock db) \<and> linked None (au_rows db)
     \<and> (\<forall>r\<in>set (au_rows db). verify_audit_hash lib (ro_event r) = Inr True)"

lemma signed_simps [simp]:
  "audit_draft.truncate (signed d previous h key signature) = d"
  "se_previous (signed d previous h key signature) = previous" "se_hash (signed d previous h key signature) = h"
  by (simp_all add: signed_def signed_event.defs audit_draft.defs)

lemma ordered_rows_id:
  assumes "sorted_wrt (\<lambda>a b. ro_created a < ro_created b) (au_rows db)"
  shows "ordered_rows cols db = au_rows db"
  unfolding ordered_rows_def
  by (rule sort_by_sorted, rule sorted_wrt_mono_rel [OF _ assms]) (simp add: audit_order_def)

lemma latest_hash_last:
  assumes "sorted_wrt (\<lambda>a b. ro_created a < ro_created b) (au_rows db)"
  shows "latest_hash cols db = last_hash None (au_rows db)"
  unfolding latest_hash_def ordered_rows_id [OF assms]
  by (cases "au_rows db" rule: rev_cases) (auto simp: last_hash_def)

lemma created_verifies:
  assumes "create_signed_event lib signer d previous = Inr e"
  shows "verify_audit_hash lib e = Inr True" "se_previous e = previous"
  using assms by (auto simp: create_signed_event_def verify_audit_hash_def and_then_Inr split: if_splits)

lemma append_keeps_inv:
  assumes "audit_inv lib db" "ib_clock db < t" "append_event lib cols signer d (db\<lparr>ib_clock := t\<rparr>) = (r, db')"
  shows "audit_inv lib db'"
proof (cases r)
  case (Inl e)
  with assms show ?thesis by (auto simp: append_event_def transaction_Inl audit_inv_def)
next
  case (Inr e)
  let ?db = "db\<lparr>ib_clock := t\<rparr>"
  have same: "audit_inv lib ?db" using assms by (auto simp: audit_inv_def)
  show ?thesis
  proof (cases "find (\<lambda>r. cl_uuid cols (ad_id (ro_event r)) = cl_uuid cols (ad_id d)) (au_rows db)")
    case (Some row)
    with assms(3) Inr have "db' = ?db" by (auto simp: append_event_def transaction_Inr and_then_Inr split: if_splits)
    with same show ?thesis by simp
  next
    case None
    with assms(3) Inr have c: "create_signed_event lib signer d (latest_hash cols ?db) = Inr e"
      and i: "insert_audit_event e ?db = Inr db'"
      by (auto simp: append_event_def transaction_Inr and_then_Inr)
    have db': "db' = ?db\<lparr>au_rows := au_rows db @ [\<lparr>ro_event = e, ro_created = t\<rparr>]\<rparr>"
      using i by (auto simp: insert_audit_event_def split: if_splits)
    have sorted: "sorted_wrt (\<lambda>a b. ro_created a < ro_created b) (au_rows ?db)" using assms(1) by (simp add: audit_inv_def)
    from created_verifies [OF c] latest_hash_last [OF sorted] assms(1,2) show ?thesis
      by (auto simp: audit_inv_def db' sorted_wrt_append linked_snoc)
  qed
qed

lemma audit_reachable_inv: "audit_reachable lib cols signer db \<Longrightarrow> audit_inv lib db"
proof (induction rule: audit_reachable.induct)
  case (start t)
  then show ?case by (simp add: audit_inv_def)
qed (rule append_keeps_inv)

section \<open>What a query reports\<close>

lemma latest_window_chain:
  assumes "audit_inv lib db"
  shows "latest_window cols n filters db = (let rs = drop (length (au_rows db) - n) (au_rows db) in
    \<lparr>aw_events = map (\<lambda>r. read_event cols (ro_event r)) rs, aw_matches = map (\<lambda>r. matches_filter cols filters (ro_event r)) rs,
     aw_predecessors = map (\<lambda>_. True) rs\<rparr>)"
proof -
  have "with_predecessors None (ordered_rows cols db) = map (\<lambda>r. (r, True)) (au_rows db)"
    using assms by (simp add: audit_inv_def ordered_rows_id with_predecessors_linked)
  then show ?thesis by (simp add: latest_window_def Let_def drop_map o_def)
qed

definition scan_limit :: "nat \<Rightarrow> audit_filters \<Rightarrow> nat" where
  "scan_limit n filters = (if has_filter filters then min (n * 10) 2000 else n)"

text \<open>
  The documented behaviour of the columns on texts in the form in which PostgreSQL and \<open>toISOString\<close> print
  them, and of \<open>jsonb\<close>, which keeps the members and the values of a document but not the order of its
  members.  A digest is not empty.
\<close>

definition column_laws :: "json_lib \<Rightarrow> clock_lib \<Rightarrow> audit_columns \<Rightarrow> bool" where
  "column_laws lib clock cols \<longleftrightarrow> (\<forall>t. is_uuid_lower t \<longrightarrow> cl_uuid cols t = t) \<and> (\<forall>t. calendar_date t \<longrightarrow> cl_date cols t = t)
     \<and> (\<forall>t s. to_iso_string clock t = Inr s \<longrightarrow> cl_instant cols s = s)
     \<and> (\<forall>c t. told_apart lib (J_Object c) \<longrightarrow> canonical_json lib (J_Object c) = Inr t
          \<longrightarrow> canonical_json lib (J_Object (cl_jsonb cols c)) = Inr t)
     \<and> (\<forall>t. sha256 lib t \<noteq> [])"

text \<open>An event in these forms, without a source address and without empty texts.\<close>

definition plain_event :: "json_lib \<Rightarrow> clock_lib \<Rightarrow> signed_event \<Rightarrow> bool" where
  "plain_event lib clock e \<longleftrightarrow> is_uuid_lower (ad_id e) \<and> is_uuid_lower (ad_correlation e) \<and> calendar_date (ad_business_date e)
     \<and> (\<exists>t. to_iso_string clock t = Inr (ad_occurred_at e)) \<and> ad_address e = None \<and> ad_session e \<noteq> Some [] \<and> ad_justification e \<noteq> Some []
     \<and> opt_holds is_uuid_lower (ad_run e) \<and> opt_holds is_uuid_lower (ad_batch e) \<and> opt_holds is_uuid_lower (ad_document e)
     \<and> opt_holds (\<lambda>c. told_apart lib (J_Object c)) (ad_changes e)"

lemma present_uuid: "column_laws lib clock cols \<Longrightarrow> opt_holds is_uuid_lower x \<Longrightarrow> present (map_option (cl_uuid cols) x) = x"
  by (auto simp: column_laws_def opt_holds_def present_def is_uuid_lower_def uuid_of_def split: option.splits)

lemma present_same: "x \<noteq> Some [] \<Longrightarrow> present x = x"
  by (auto simp: present_def split: option.splits)

text \<open>Reading a plain event back changes the order of the members of its changes at most.\<close>

lemma read_plain:
  assumes "column_laws lib clock cols" "plain_event lib clock e" "se_previous e \<noteq> Some []"
  shows "read_event cols e = e\<lparr>ad_changes := map_option (cl_jsonb cols) (ad_changes e)\<rparr>"
proof -
  from assms(1,2) have "cl_uuid cols (ad_id e) = ad_id e" "cl_uuid cols (ad_correlation e) = ad_correlation e"
    "cl_date cols (ad_business_date e) = ad_business_date e" "cl_instant cols (ad_occurred_at e) = ad_occurred_at e"
    by (auto simp: column_laws_def plain_event_def)
  moreover from assms have "present (se_previous e) = se_previous e" "present (ad_session e) = ad_session e"
    "present (ad_justification e) = ad_justification e" "present (map_option (cl_inet cols) (ad_address e)) = ad_address e"
    by (simp_all add: plain_event_def present_same)
  moreover from assms present_uuid have "present (map_option (cl_uuid cols) (ad_run e)) = ad_run e"
    "present (map_option (cl_uuid cols) (ad_batch e)) = ad_batch e" "present (map_option (cl_uuid cols) (ad_document e)) = ad_document e"
    by (auto simp: plain_event_def)
  ultimately show ?thesis unfolding read_event_def by simp
qed

definition jsonb_entry :: "audit_columns \<Rightarrow> string \<times> json \<Rightarrow> string \<times> json" where
  "jsonb_entry cols kv = (fst kv, if fst kv = ''authorizedChanges'' then (case snd kv of J_Object c \<Rightarrow> J_Object (cl_jsonb cols c) | v \<Rightarrow> v)
     else snd kv)"

lemma canonical_member:
  assumes "canonical_json lib (J_Object kvs) = Inr t" "(k, v) \<in> set kvs" "\<not> is_undefined v"
  shows "\<exists>u. canonical_json lib v = Inr u"
proof -
  from assms(1) obtain ts where "traverse (\<lambda>kv. and_then (canonical_json lib (snd kv)) (\<lambda>t. Inr (quote_string (fst kv) @ '':'' @ t)))
      (sort_by (\<lambda>a b. locale_compare lib (fst a) (fst b)) (filter (\<lambda>kv. \<not> is_undefined (snd kv)) kvs)) = Inr ts"
    by (auto simp: and_then_Inr)
  then have "ok (traverse (\<lambda>kv. and_then (canonical_json lib (snd kv)) (\<lambda>t. Inr (quote_string (fst kv) @ '':'' @ t)))
      (sort_by (\<lambda>a b. locale_compare lib (fst a) (fst b)) (filter (\<lambda>kv. \<not> is_undefined (snd kv)) kvs)))"
    unfolding ok_iff by blast
  then have "ok (and_then (canonical_json lib v) (\<lambda>t. Inr (quote_string k @ '':'' @ t)))"
    unfolding traverse_ok_iff using assms(2,3) by fastforce
  then show ?thesis by (cases "canonical_json lib v") (simp_all add: ok_def)
qed

lemma read_verifies:
  assumes laws: "column_laws lib clock cols" and plain: "plain_event lib clock e" and "se_previous e \<noteq> Some []"
    and good: "verify_audit_hash lib e = Inr True"
  shows "verify_audit_hash lib (read_event cols e) = Inr True \<and> se_previous (read_event cols e) = se_previous e
    \<and> se_hash (read_event cols e) = se_hash e"
proof -
  note read = read_plain [OF laws plain assms(3)]
  let ?d = "audit_draft.truncate e" and ?d' = "audit_draft.truncate (read_event cols e)"
  let ?entries = "\<lambda>d. draft_entries d @ [(''previousHash'', case se_previous e of None \<Rightarrow> J_Null | Some h \<Rightarrow> J_String h)]"
  obtain t where t: "canonical_json lib (J_Object (?entries ?d)) = Inr t"
    using good unfolding verify_audit_hash_def calculate_audit_hash_def chain_payload_def by (auto simp: and_then_Inr split: if_splits)
  have changed: "?entries ?d' = map (jsonb_entry cols) (?entries ?d)"
    unfolding read by (simp add: draft_entries_def jsonb_entry_def audit_draft.defs optional_text_def split: option.split)
  have "canonical_json lib (J_Object (map (jsonb_entry cols) (?entries ?d))) = canonical_json lib (J_Object (?entries ?d))"
  proof (rule canonical_object_cong)
    show "fst (jsonb_entry cols kv) = fst kv" for kv by (simp add: jsonb_entry_def)
  next
    fix kv assume kv: "kv \<in> set (?entries ?d)"
    show "is_undefined (snd (jsonb_entry cols kv)) = is_undefined (snd kv)" by (simp add: jsonb_entry_def is_undefined_def split: json.split)
    show "canonical_json lib (snd (jsonb_entry cols kv)) = canonical_json lib (snd kv)"
    proof (cases "fst kv = ''authorizedChanges'' \<and> (\<exists>c. snd kv = J_Object c)")
      case True
      then obtain c where c: "kv = (''authorizedChanges'', J_Object c)" by (cases kv) auto
      with kv have "ad_changes e = Some c" by (auto simp: draft_entries_def audit_draft.defs optional_text_def split: option.splits)
      with plain have "told_apart lib (J_Object c)" by (simp add: plain_event_def opt_holds_def del: told_apart.simps)
      moreover have "\<not> is_undefined (J_Object c)" by (simp add: is_undefined_def)
      from canonical_member [OF t kv [unfolded c] this] obtain u where "canonical_json lib (J_Object c) = Inr u" by blast
      ultimately have "canonical_json lib (J_Object (cl_jsonb cols c)) = canonical_json lib (J_Object c)"
        using laws unfolding column_laws_def by metis
      then show ?thesis by (simp add: c jsonb_entry_def del: canonical_json.simps)
    next
      case False
      then show ?thesis by (auto simp: jsonb_entry_def split: json.splits)
    qed
  qed
  then have "calculate_audit_hash lib ?d' (se_previous e) = calculate_audit_hash lib ?d (se_previous e)"
    unfolding calculate_audit_hash_def chain_payload_def changed by simp
  moreover have "se_previous (read_event cols e) = se_previous e" "se_hash (read_event cols e) = se_hash e" unfolding read by simp_all
  ultimately show ?thesis using good by (simp add: verify_audit_hash_def)
qed

lemma last_hash_present: "linked h rs \<Longrightarrow> h \<noteq> Some [] \<Longrightarrow> \<forall>r\<in>set rs. se_hash (ro_event r) \<noteq> [] \<Longrightarrow> r \<in> set rs \<Longrightarrow> se_previous (ro_event r) \<noteq> Some []"
  by (induction rs arbitrary: h) auto

lemma verified_hash: "verify_audit_hash lib e = Inr True \<Longrightarrow> \<exists>t. se_hash e = sha256 lib t"
  unfolding verify_audit_hash_def calculate_audit_hash_def by (auto simp: and_then_Inr simp del: canonical_json.simps split: if_splits) metis

text \<open>
  C24. The audit trail verifies itself: for every log that appending can produce - with any drafts, replays
  and refused appends in between - whose events are plain, that is, have lower-case identifiers, a calendar
  date, an instant as \<open>toISOString\<close> prints it and no source address, a query with valid arguments reports an
  unbroken chain over the whole window, although \<open>jsonb\<close> reorders the members of the changes; and the events
  it returns are at most \<open>limit\<close> stored events that match the filters, as the columns give them back.
\<close>

theorem audit_chain_valid:
  assumes "column_laws lib clock cols" "audit_reachable lib cols signer db" "\<forall>r\<in>set (au_rows db). plain_event lib clock (ro_event r)"
    "int_between 1 200 limit = Some n" "validate_filters filters = Inr ()"
  shows "\<exists>result. query_audit_trail lib (\<lambda>k f. latest_window cols k f db) limit filters = Inr result
    \<and> at_valid result \<and> at_broken result = None \<and> at_count result = min (scan_limit n filters) (length (au_rows db))
    \<and> length (at_events result) \<le> n
    \<and> (\<forall>e\<in>set (at_events result). \<exists>r\<in>set (au_rows db). e = read_event cols (ro_event r) \<and> matches_filter cols filters (ro_event r))"
proof -
  have inv: "audit_inv lib db" by (rule audit_reachable_inv [OF assms(2)])
  define k where "k = scan_limit n filters"
  define rs where "rs = drop (length (au_rows db) - k) (au_rows db)"
  have sub: "set rs \<subseteq> set (au_rows db)" by (simp add: rs_def set_drop_subset)
  define w where "w = latest_window cols k filters db"
  have w: "aw_events w = map (\<lambda>r. read_event cols (ro_event r)) rs" "aw_matches w = map (\<lambda>r. matches_filter cols filters (ro_event r)) rs"
    "aw_predecessors w = map (\<lambda>_. True) rs"
    unfolding w_def latest_window_chain [OF inv] by (simp_all add: rs_def [symmetric] Let_def)
  obtain h where h: "linked h rs" using linked_drop inv unfolding audit_inv_def rs_def by blast
  have good: "verify_audit_hash lib (ro_event r) = Inr True" if "r \<in> set (au_rows db)" for r using inv that by (simp add: audit_inv_def)
  have some: "se_hash (ro_event r) \<noteq> []" if "r \<in> set (au_rows db)" for r
    using verified_hash [OF good [OF that]] assms(1) unfolding column_laws_def by metis
  have "se_previous (ro_event r) \<noteq> Some []" if "r \<in> set (au_rows db)" for r
    by (rule last_hash_present [of None "au_rows db"]) (use inv some that in \<open>auto simp: audit_inv_def\<close>)
  with read_verifies [OF assms(1)] good assms(3) sub have "verify_audit_hash lib (read_event cols (ro_event r)) = Inr True
      \<and> se_previous (read_event cols (ro_event r)) = se_previous (ro_event r) \<and> se_hash (read_event cols (ro_event r)) = se_hash (ro_event r)"
    if "r \<in> set rs" for r using that by blast
  with h have v: "verify_loop lib 0 None (map (\<lambda>r. (read_event cols (ro_event r), True)) rs) = Inr None"
    by (intro verify_loop_linked [where f = "read_event cols"]) auto
  define hits where "hits = map fst (filter snd (zip (aw_events w) (aw_matches w)))"
  have "hits = map (\<lambda>r. read_event cols (ro_event r)) (filter (\<lambda>r. matches_filter cols filters (ro_event r)) rs)"
    by (simp add: hits_def w filter_map o_def zip_map_map zip_same_conv_map)
  then have hits: "\<forall>e\<in>set hits. \<exists>r\<in>set (au_rows db). e = read_event cols (ro_event r) \<and> matches_filter cols filters (ro_event r)"
    using sub by auto
  have "zip (aw_events w) (aw_predecessors w) = map (\<lambda>r. (read_event cols (ro_event r), True)) rs"
    by (simp add: w zip_map_map zip_same_conv_map)
  then have "query_audit_trail lib (\<lambda>k f. latest_window cols k f db) limit filters =
      Inr \<lparr>at_events = drop (length hits - n) hits, at_valid = True, at_count = length rs, at_broken = None\<rparr>"
    using assms(4,5) v unfolding query_audit_trail_def
    by (simp add: k_def [unfolded scan_limit_def, symmetric] w_def [symmetric] hits_def [symmetric])
       (simp add: w)
  moreover have "length rs = min k (length (au_rows db))" by (simp add: rs_def)
  moreover have "set (drop (length hits - n) hits) \<subseteq> set hits" by (rule set_drop_subset)
  ultimately show ?thesis using hits unfolding k_def by fastforce
qed

lemma payload_keys_distinct: "distinct (map fst (draft_entries d @ [(''previousHash'', v)]))"
  by (simp add: draft_entries_def)

lemma canonical_payload_ok:
  assumes "ad_changes d = None"
  shows "\<exists>t. canonical_json lib (chain_payload d previous) = Inr t"
proof -
  have "ok (canonical_json lib v)" if "v = J_String t \<or> v = J_Null" for v t using that by auto
  then have "ok (canonical_json lib (chain_payload d previous))"
    using assms by (auto simp: chain_payload_def ok_and_then traverse_ok_iff ok_iff [symmetric] draft_entries_def
        optional_text_def is_undefined_def split: option.splits)
  then show ?thesis by (simp add: ok_iff)
qed

definition collision :: "json_lib \<Rightarrow> bool" where
  "collision lib \<longleftrightarrow> (\<exists>x y. x \<noteq> y \<and> sha256 lib x = sha256 lib y)"

text \<open>A signed event whose source address was replaced, or that was read back with another one.\<close>

lemma changed_address_detected:
  assumes "verify_audit_hash lib e = Inr True" "ad_address e = Some a" "a \<noteq> b"
    "verify_audit_hash lib (e\<lparr>ad_address := Some b\<rparr>) = Inr True"
  shows "collision lib"
proof -
  let ?d = "audit_draft.truncate e" and ?d' = "audit_draft.truncate (e\<lparr>ad_address := Some b\<rparr>)"
  let ?entries = "\<lambda>d. draft_entries d @ [(''previousHash'', case se_previous e of None \<Rightarrow> J_Null | Some h \<Rightarrow> J_String h)]"
  have changed: "?entries ?d' = map (replace_text ''sourceAddress'' b) (?entries ?d)"
    using assms(2) by (simp add: draft_entries_def replace_text_def audit_draft.defs optional_text_def)
  have "(''sourceAddress'', J_String a) \<in> set (?entries ?d)"
    using assms(2) by (simp add: draft_entries_def audit_draft.defs optional_text_def)
  moreover obtain t where t: "canonical_json lib (J_Object (?entries ?d)) = Inr t" "sha256 lib t = se_hash e"
    using assms(1) unfolding verify_audit_hash_def calculate_audit_hash_def chain_payload_def
    by (auto simp: and_then_Inr split: if_splits)
  moreover obtain t' where t': "canonical_json lib (J_Object (?entries ?d')) = Inr t'" "sha256 lib t' = se_hash e"
    using assms(4) unfolding verify_audit_hash_def calculate_audit_hash_def chain_payload_def
    by (auto simp: and_then_Inr split: if_splits)
  ultimately have "t \<noteq> t'"
    using canonical_replace [OF payload_keys_distinct _ assms(3)] unfolding changed by blast
  with t t' show ?thesis unfolding collision_def by metis
qed

text \<open>
  C25. An event with a source address makes the trail report a broken chain: the \<open>inet\<close> column
  gives the address back with its netmask, the hash was computed without it, and so an untampered
  log that contains such an event is reported as broken - or two texts with the same SHA-256
  digest are at hand.
\<close>

theorem source_address_breaks_chain:
  assumes "audit_reachable lib cols signer db" "r \<in> set (au_rows db)" "ad_address (ro_event r) = Some a" "a \<noteq> b"
    "read_event cols (ro_event r) = (ro_event r)\<lparr>ad_address := Some b\<rparr>"
    "int_between 1 200 limit = Some n" "length (au_rows db) \<le> n" "\<not> has_filter filters"
    "query_audit_trail lib (\<lambda>k f. latest_window cols k f db) limit filters = Inr result" "\<not> collision lib"
  shows "\<not> at_valid result"
proof
  assume valid: "at_valid result"
  have inv: "audit_inv lib db" by (rule audit_reachable_inv [OF assms(1)])
  define w where "w = latest_window cols n filters db"
  have w: "aw_events w = map (\<lambda>r. read_event cols (ro_event r)) (au_rows db)" "aw_predecessors w = map (\<lambda>_. True) (au_rows db)"
    using assms(7) unfolding w_def latest_window_chain [OF inv] by (simp_all add: Let_def)
  have "verify_loop lib 0 None (zip (aw_events w) (aw_predecessors w)) = Inr None"
    using assms(6,8,9) valid unfolding query_audit_trail_def
    by (auto simp: w_def [symmetric] and_then_Inr Let_def split: if_splits option.splits) (metis not_None_eq surj_pair)
  moreover have "(read_event cols (ro_event r), True) \<in> set (zip (aw_events w) (aw_predecessors w))"
    using assms(2) by (auto simp: w zip_map_map zip_same_conv_map)
  ultimately have "verify_audit_hash lib ((ro_event r)\<lparr>ad_address := Some b\<rparr>) = Inr True"
    using verify_loop_valid assms(5) by metis
  moreover have "verify_audit_hash lib (ro_event r) = Inr True" using inv assms(2) by (auto simp: audit_inv_def)
  ultimately have "collision lib" using changed_address_detected assms(3,4) by blast
  with assms(10) show False by blast
qed

section \<open>Concrete logs\<close>

definition example_draft :: "string option \<Rightarrow> audit_draft" where
  "example_draft address = \<lparr>ad_id = ''11111111-1111-4111-8111-111111111111'',
     ad_correlation = ''22222222-2222-4222-8222-222222222222'', ad_actor = ''u'', ad_technical = ''pms-api'', ad_session = None,
     ad_action = ''READ'', ad_resource_type = ''Pool'', ad_resource = ''p'', ad_outcome = Denied, ad_business_date = ''2024-01-31'',
     ad_occurred_at = ''t'', ad_application = ''pms-api'', ad_address = address, ad_justification = None, ad_run = None,
     ad_batch = None, ad_document = None, ad_changes = None\<rparr>"

definition plain_lib :: json_lib where
  "plain_lib = \<lparr>locale_compare = (\<lambda>_ _. 0), print_number = (\<lambda>_. []), sha256 = (\<lambda>t. CHR ''h'' # t)\<rparr>"

definition example_signer :: audit_signer where
  "example_signer = \<lparr>sg_key = ''k'', sg_sign = (\<lambda>_. Inr [1, 2, 3])\<rparr>"

definition example_columns :: audit_columns where
  "example_columns = \<lparr>cl_uuid = (\<lambda>t. t), cl_inet = (\<lambda>t. t @ ''/32''), cl_instant = (\<lambda>t. t), cl_date = (\<lambda>t. t), cl_jsonb = (\<lambda>c. c)\<rparr>"

definition no_filters :: audit_filters where
  "no_filters = \<lparr>af_action = None, af_resource_type = None, af_outcome = None, af_correlation = None, af_from = None, af_to = None\<rparr>"

lemma no_collision: "\<not> collision plain_lib"
  by (simp add: collision_def plain_lib_def)

lemma example_log:
  "\<exists>db h. audit_reachable plain_lib example_columns example_signer db
     \<and> au_rows db = [\<lparr>ro_event = signed (example_draft address) None h ''k'' (base64 [1, 2, 3]), ro_created = 1\<rparr>]"
proof -
  let ?db = "\<lparr>ib_rows = [], ib_clock = 0, au_rows = []\<rparr>"
  obtain h where h: "calculate_audit_hash plain_lib (example_draft address) None = Inr h"
    using canonical_payload_ok [of "example_draft address" plain_lib None]
    by (auto simp: calculate_audit_hash_def example_draft_def)
  then have "append_event plain_lib example_columns example_signer (example_draft address) (?db\<lparr>ib_clock := 1\<rparr>) =
    (Inr (signed (example_draft address) None h ''k'' (base64 [1, 2, 3])), ?db\<lparr>ib_clock := 1,
      au_rows := [\<lparr>ro_event = signed (example_draft address) None h ''k'' (base64 [1, 2, 3]), ro_created = 1\<rparr>]\<rparr>)"
    by (simp add: append_event_def transaction_def latest_hash_def ordered_rows_def create_signed_event_def
        insert_audit_event_def example_signer_def del: base64.simps)
  note run = this
  have "audit_reachable plain_lib example_columns example_signer (?db\<lparr>ib_clock := 1,
      au_rows := [\<lparr>ro_event = signed (example_draft address) None h ''k'' (base64 [1, 2, 3]), ro_created = 1\<rparr>]\<rparr>)"
    by (rule audit_reachable.append [OF audit_reachable.start _ run]) simp
  then show ?thesis by - (rule exI, rule exI [of _ h], rule conjI, assumption, simp)
qed

lemma example_read:
  "read_event example_columns (signed (example_draft None) None h k g) = signed (example_draft None) None h k g"
  "read_event example_columns (signed (example_draft (Some ''10.0.0.1'')) None h k g) =
     (signed (example_draft (Some ''10.0.0.1'')) None h k g)\<lparr>ad_address := Some ''10.0.0.1/32''\<rparr>"
  by (simp_all add: read_event_def signed_def signed_event.defs audit_draft.defs example_draft_def example_columns_def present_def)

definition example_audit_clock :: clock_lib where
  "example_audit_clock = \<lparr>date_parse = (\<lambda>_. None), print_instant = (\<lambda>_. ''t'')\<rparr>"

lemma example_column_laws: "column_laws plain_lib example_audit_clock example_columns"
  by (simp add: column_laws_def example_columns_def plain_lib_def)

lemma example_plain: "plain_event plain_lib example_audit_clock (signed (example_draft None) None h k g)"
proof -
  have "is_uuid_lower ''11111111-1111-4111-8111-111111111111''" "is_uuid_lower ''22222222-2222-4222-8222-222222222222''" by code_simp+
  moreover have "calendar_date ''2024-01-31''"
    by (simp add: calendar_date_iff iso_shape_def valid_date_def iso_year_def iso_month_def iso_day_def month_length_def
      leap_year_def char_class_defs digits_eval)
  moreover have "to_iso_string example_audit_clock 0 = Inr ''t''" by (simp add: to_iso_string_def example_audit_clock_def)
  ultimately show ?thesis
    by (auto simp: plain_event_def signed_def signed_event.defs audit_draft.defs example_draft_def opt_holds_def)
qed

theorem audit_chain_valid_witness:
  "\<exists>db result. audit_reachable plain_lib example_columns example_signer db \<and> length (au_rows db) = 1
    \<and> query_audit_trail plain_lib (\<lambda>k f. latest_window example_columns k f db) (Num 50) no_filters = Inr result \<and> at_valid result"
proof -
  obtain db h where db: "audit_reachable plain_lib example_columns example_signer db"
      "au_rows db = [\<lparr>ro_event = signed (example_draft None) None h ''k'' (base64 [1, 2, 3]), ro_created = 1\<rparr>]"
    using example_log [of None] by (elim exE conjE) (rule that)
  have "validate_filters no_filters = Inr ()" by (simp add: validate_filters_def no_filters_def opt_holds_def)
  moreover have "\<forall>r\<in>set (au_rows db). plain_event plain_lib example_audit_clock (ro_event r)" by (simp add: db(2) example_plain)
  ultimately obtain result where
    "query_audit_trail plain_lib (\<lambda>k f. latest_window example_columns k f db) (Num 50) no_filters = Inr result" "at_valid result"
    using audit_chain_valid [OF example_column_laws db(1), of "Num 50" 50 no_filters] by auto
  with db show ?thesis by - (rule exI [of _ db], rule exI [of _ result], simp)
qed

theorem source_address_breaks_chain_witness:
  "\<exists>db result. audit_reachable plain_lib example_columns example_signer db
    \<and> query_audit_trail plain_lib (\<lambda>k f. latest_window example_columns k f db) (Num 50) no_filters = Inr result
    \<and> at_valid result = False"
proof -
  obtain db h where db: "audit_reachable plain_lib example_columns example_signer db"
      "au_rows db = [\<lparr>ro_event = signed (example_draft (Some ''10.0.0.1'')) None h ''k'' (base64 [1, 2, 3]), ro_created = 1\<rparr>]"
    using example_log [of "Some ''10.0.0.1''"] by (elim exE conjE) (rule that)
  define e where "e = signed (example_draft (Some ''10.0.0.1'')) None h ''k'' (base64 [1, 2, 3])"
  have rows: "au_rows db = [\<lparr>ro_event = e, ro_created = 1\<rparr>]" using db(2) by (simp only: e_def)
  have read: "read_event example_columns e = e\<lparr>ad_address := Some ''10.0.0.1/32''\<rparr>" unfolding e_def by (rule example_read)
  have e: "ad_address e = Some ''10.0.0.1''" "ad_changes e = None"
    by (simp_all add: e_def signed_def signed_event.defs audit_draft.defs example_draft_def)
  have inv: "audit_inv plain_lib db" by (rule audit_reachable_inv [OF db(1)])
  let ?e = "e\<lparr>ad_address := Some ''10.0.0.1/32''\<rparr>"
  obtain v where v: "verify_audit_hash plain_lib ?e = Inr v"
    using canonical_payload_ok [of "audit_draft.truncate ?e" plain_lib "se_previous ?e"] e(2)
    by (auto simp: verify_audit_hash_def calculate_audit_hash_def audit_draft.defs e_def split: option.splits)
  have "\<exists>result. query_audit_trail plain_lib (\<lambda>k f. latest_window example_columns k f db) (Num 50) no_filters = Inr result"
    using v by (simp add: query_audit_trail_def validate_filters_def no_filters_def opt_holds_def has_filter_def
        latest_window_chain [OF inv] rows read)
  then obtain result where q: "query_audit_trail plain_lib (\<lambda>k f. latest_window example_columns k f db) (Num 50) no_filters = Inr result"
    by blast
  have "\<not> at_valid result"
    by (rule source_address_breaks_chain [OF db(1), where r = "\<lparr>ro_event = e, ro_created = 1\<rparr>" and limit = "Num 50" and n = 50
        and a = "''10.0.0.1''" and b = "''10.0.0.1/32''"])
      (use q e read rows no_collision in \<open>simp_all add: no_filters_def has_filter_def\<close>)
  with db q show ?thesis by - (rule exI [of _ db], rule exI [of _ result], simp)
qed

end
