(* ===== verification/Closing.thy ===== *)
theory Closing
  imports Json Js_Date "HOL-Library.Multiset"
begin

text \<open>
  The closing workflow of \<open>src/modules/closing-workflow\<close>: the 19 steps
  (\<open>domain/closing-workflow.ts\<close>), the controls (\<open>domain/closing-controls.ts\<close>), the evidence
  manifest (\<open>domain/closing-governance.ts\<close>) and the use cases that validate their commands.
\<close>

section \<open>The steps\<close>

definition closing_steps :: "string list" where
  "closing_steps = [''PERIOD_OPENING'', ''SCOPE_FREEZE'', ''DATA_IMPORT'', ''QUALITY_CONTROLS'', ''RECONCILIATIONS'',
     ''ASSET_VALIDATION'', ''PROVISIONAL_CALCULATION'', ''EXCEPTION_HANDLING'', ''RESERVE_DCR_SIMULATIONS'',
     ''FINANCE_VALIDATION'', ''RISK_ALM_VALIDATION'', ''SHARIA_COMPLIANCE_CONTROL'', ''DELEGATED_APPROVAL'',
     ''RUN_LOCKING'', ''JOURNAL_GENERATION'', ''CORE_BANKING_CREDIT'', ''POST_PAYMENT_RECONCILIATION'',
     ''STATEMENT_PRODUCTION'', ''EVIDENCE_ARCHIVING'']"

datatype closing_status = St_Draft | St_Fed | St_Anomaly | St_Reconciled | St_Calculated | St_In_Validation
  | St_Approved | St_Accounted | St_Paid | St_Closed | St_Cancelled | St_Corrected

record closing_state =
  cl_step :: string
  cl_status :: closing_status
  cl_cancelled :: bool

record quality_evidence =
  qe_green :: bool
  qe_blocking :: "string list"
  qe_accepted :: "string list"

record closing_transition =
  ct_step :: string
  ct_status :: closing_status
  ct_number :: nat
  ct_previous :: string

definition status_by_step :: "closing_status list" where
  "status_by_step = [St_Draft, St_Draft, St_Fed, St_Fed, St_Reconciled, St_Reconciled, St_Calculated, St_Calculated,
     St_Calculated, St_In_Validation, St_In_Validation, St_In_Validation, St_Approved, St_Approved, St_Accounted,
     St_Paid, St_Paid, St_Paid, St_Closed]"

definition closing_status_name :: "closing_status \<Rightarrow> string" where
  "closing_status_name s = (case s of St_Draft \<Rightarrow> ''DRAFT'' | St_Fed \<Rightarrow> ''FED'' | St_Anomaly \<Rightarrow> ''ANOMALY''
     | St_Reconciled \<Rightarrow> ''RECONCILED'' | St_Calculated \<Rightarrow> ''CALCULATED'' | St_In_Validation \<Rightarrow> ''IN_VALIDATION''
     | St_Approved \<Rightarrow> ''APPROVED'' | St_Accounted \<Rightarrow> ''ACCOUNTED'' | St_Paid \<Rightarrow> ''PAID'' | St_Closed \<Rightarrow> ''CLOSED''
     | St_Cancelled \<Rightarrow> ''CANCELLED'' | St_Corrected \<Rightarrow> ''CORRECTED_BY_SUPPLEMENTARY_RUN'')"

text \<open>\<open>indexOf\<close>: the first index, or -1.\<close>

fun index_from :: "int \<Rightarrow> 'a \<Rightarrow> 'a list \<Rightarrow> int" where
  "index_from i x [] = - 1"
| "index_from i x (y # ys) = (if y = x then i else index_from (i + 1) x ys)"

definition index_of :: "'a \<Rightarrow> 'a list \<Rightarrow> int" where
  "index_of x xs = index_from 0 x xs"

definition assert_quality_evidence :: "quality_evidence \<Rightarrow> unit res" where
  "assert_quality_evidence e =
     (if qe_green e then Inr ()
      else if qe_blocking e = [] then Inr ()
      else if \<exists>i\<in>set (qe_blocking e). blank i \<or> i \<notin> set (qe_accepted e)
      then Inl (Failure ''Provisional calculation requires green controls or documented acceptance of every blocking anomaly'')
      else Inr ())"

definition advance_closing :: "closing_state \<Rightarrow> string \<Rightarrow> quality_evidence \<Rightarrow> closing_transition res" where
  "advance_closing s target_step e =
     (if cl_cancelled s \<or> cl_status s = St_Cancelled \<or> cl_status s = St_Closed
      then Inl (Failure (''Closing workflow cannot advance from '' @ closing_status_name (cl_status s)))
      else let current = index_of (cl_step s) closing_steps; target = index_of target_step closing_steps in
        if current < 0 \<or> target < 0 then Inl (TypeError ''Unknown closing workflow step'')
        else if target \<noteq> current + 1 then Inl (Failure ''Closing workflow cannot skip or repeat a step'')
        else and_then (if target \<ge> index_of ''PROVISIONAL_CALCULATION'' closing_steps
            then assert_quality_evidence e else Inr ()) (\<lambda>_.
          Inr \<lparr>ct_step = target_step, ct_status = status_by_step ! nat target, ct_number = nat target + 1,
            ct_previous = cl_step s\<rparr>))"

definition mark_closing_anomaly :: "closing_state \<Rightarrow> closing_state res" where
  "mark_closing_anomaly s =
     (if cl_status s = St_Closed \<or> cl_status s = St_Cancelled
      then Inl (Failure (''Closing anomaly cannot be recorded from '' @ closing_status_name (cl_status s)))
      else Inr (s\<lparr>cl_status := St_Anomaly\<rparr>))"

definition mark_supplementary_correction :: "closing_state \<Rightarrow> closing_state res" where
  "mark_supplementary_correction s =
     (if cl_status s \<noteq> St_Closed then Inl (Failure ''Only a closed workflow can be corrected by a supplementary run'')
      else Inr (s\<lparr>cl_status := St_Corrected\<rparr>))"

section \<open>The controls\<close>

record control_counts =
  cc_pending_batches :: jsnum
  cc_failed_batches :: jsnum
  cc_unapproved_runs :: jsnum
  cc_approved_runs :: jsnum
  cc_missing_reconciliations :: "jsnum option"
  cc_open_discrepancies :: "jsnum option"

datatype blocker = Cbs_Batches_Pending | Cbs_Batches_Failed | Calculations_Not_Approved | No_Approved_Calculation
  | Required_Reconciliations_Missing | Reconciliation_Discrepancies_Open

record control_decision =
  cd_passed :: bool
  cd_blockers :: "blocker list"

definition count_entries :: "control_counts \<Rightarrow> (string \<times> jsnum) list" where
  "count_entries c =
     [(''pendingCbsBatches'', cc_pending_batches c), (''failedCbsBatches'', cc_failed_batches c),
      (''unapprovedCalculationRuns'', cc_unapproved_runs c), (''approvedCalculationRuns'', cc_approved_runs c)]
     @ (case cc_missing_reconciliations c of None \<Rightarrow> [] | Some v \<Rightarrow> [(''missingRequiredReconciliations'', v)])
     @ (case cc_open_discrepancies c of None \<Rightarrow> [] | Some v \<Rightarrow> [(''unresolvedReconciliationDiscrepancies'', v)])"

definition check_count :: "string \<times> jsnum \<Rightarrow> unit res" where
  "check_count entry = (case js_int (snd entry) of
     None \<Rightarrow> Inl (TypeError (''Invalid closing control count: '' @ fst entry))
   | Some n \<Rightarrow> if n < 0 then Inl (TypeError (''Invalid closing control count: '' @ fst entry)) else Inr ())"

text \<open>\<open>value > 0\<close> and \<open>value === 0\<close> on a number that was checked.\<close>

definition count_positive :: "jsnum \<Rightarrow> bool" where
  "count_positive x = (case js_int x of None \<Rightarrow> False | Some n \<Rightarrow> n > 0)"

definition count_zero :: "jsnum \<Rightarrow> bool" where
  "count_zero x = (js_int x = Some 0)"

definition block_if :: "bool \<Rightarrow> blocker \<Rightarrow> blocker list" where
  "block_if b x = (if b then [x] else [])"

definition evaluate_closing_controls :: "control_counts \<Rightarrow> control_decision res" where
  "evaluate_closing_controls c =
     and_then (each check_count (count_entries c)) (\<lambda>_.
     let blockers = block_if (count_positive (cc_pending_batches c)) Cbs_Batches_Pending
         @ block_if (count_positive (cc_failed_batches c)) Cbs_Batches_Failed
         @ block_if (count_positive (cc_unapproved_runs c)) Calculations_Not_Approved
         @ block_if (count_zero (cc_approved_runs c)) No_Approved_Calculation
         @ block_if (case cc_missing_reconciliations c of None \<Rightarrow> False | Some v \<Rightarrow> count_positive v) Required_Reconciliations_Missing
         @ block_if (case cc_open_discrepancies c of None \<Rightarrow> False | Some v \<Rightarrow> count_positive v) Reconciliation_Discrepancies_Open in
     Inr \<lparr>cd_passed = (length blockers = 0), cd_blockers = blockers\<rparr>)"

section \<open>The evidence manifest\<close>

record accepted_risk =
  ak_anomaly :: string
  ak_reference :: string
  ak_rationale :: string

record evidence_input =
  ei_closing :: string
  ei_steps :: "string list"
  ei_approvals :: "string list"
  ei_rejections :: "string list"
  ei_risks :: "accepted_risk list"
  ei_generated_at :: string

record evidence_manifest = evidence_input +
  em_checksum :: string

definition risk_json :: "accepted_risk \<Rightarrow> json" where
  "risk_json r = J_Object [(''anomalyId'', J_String (ak_anomaly r)), (''acceptanceReference'', J_String (ak_reference r)),
     (''rationale'', J_String (ak_rationale r))]"

definition evidence_json :: "evidence_input \<Rightarrow> json" where
  "evidence_json i = J_Object [(''formatVersion'', J_Number (Num 1)), (''closingId'', J_String (ei_closing i)),
     (''workflowStatus'', J_String ''CLOSED''), (''stepEventIds'', J_Array (map J_String (ei_steps i))),
     (''approvalActionIds'', J_Array (map J_String (ei_approvals i))),
     (''rejectionIds'', J_Array (map J_String (ei_rejections i))),
     (''acceptedRisks'', J_Array (map risk_json (ei_risks i))), (''generatedAt'', J_String (ei_generated_at i))]"

definition canonical_evidence :: "json_lib \<Rightarrow> evidence_input \<Rightarrow> evidence_input" where
  "canonical_evidence lib i = i\<lparr>ei_steps := sort_by text_order (ei_steps i),
     ei_approvals := sort_by text_order (ei_approvals i), ei_rejections := sort_by text_order (ei_rejections i),
     ei_risks := sort_by (\<lambda>a b. locale_compare lib (ak_anomaly a) (ak_anomaly b)) (ei_risks i)\<rparr>"

definition build_evidence_manifest :: "json_lib \<Rightarrow> clock_lib \<Rightarrow> evidence_input \<Rightarrow> evidence_manifest res" where
  "build_evidence_manifest lib clock i =
     (if blank (ei_closing i) then Inl (TypeError ''closingId is required'')
      else if date_parse clock (ei_generated_at i) = None then Inl (TypeError ''generatedAt must be an ISO date'')
      else if \<exists>r\<in>set (ei_risks i). blank (ak_anomaly r) \<or> blank (ak_reference r) \<or> blank (ak_rationale r)
      then Inl (TypeError ''Accepted risks require anomaly, acceptance reference and rationale'')
      else let c = canonical_evidence lib i in
        Inr (evidence_input.extend c (evidence_manifest.fields (sha256 lib (stringify lib (evidence_json c))))))"

section \<open>The use cases\<close>

record advance_command =
  av_closing :: string
  av_target :: string
  av_actor :: string
  av_evidence :: quality_evidence
  av_key :: string

definition execute_advance_closing :: "(advance_command \<Rightarrow> 'r res) \<Rightarrow> advance_command \<Rightarrow> 'r res" where
  "execute_advance_closing advance c =
     (if \<not> is_uuid (av_closing c) then Inl (TypeError ''closingId must be a UUID'')
      else if trim (av_actor c) = [] then Inl (TypeError ''Closing actor is required'')
      else if \<not> safe_key 16 128 (trim (av_key c))
      then Inl (TypeError ''Closing idempotency key must contain between 16 and 128 safe characters'')
      else advance (c\<lparr>av_actor := trim (av_actor c), av_key := trim (av_key c)\<rparr>))"

record closing_request =
  cq_closing :: string
  cq_date :: string
  cq_requested_by :: string
  cq_correlation :: string

definition execute_evaluate_closing :: "(closing_request \<Rightarrow> 'r res) \<Rightarrow> closing_request \<Rightarrow> 'r res" where
  "execute_evaluate_closing evaluate r =
     (if \<not> is_uuid (cq_closing r) then Inl (TypeError ''Closing identifier must be a UUID'')
      else if \<not> calendar_date (cq_date r) then Inl (TypeError ''Invalid closing business date'')
      else if blank (cq_requested_by r) then Inl (TypeError ''Closing requester is required'')
      else let correlation = to_lower (trim (cq_correlation r)) in
        if \<not> is_uuid_lower correlation then Inl (TypeError ''Closing correlation identifier must be a UUID'')
        else evaluate (r\<lparr>cq_requested_by := trim (cq_requested_by r), cq_correlation := correlation\<rparr>))"

datatype workflow_action = Control_Calculation | Approve_Calculation | Approve_Closing | Reject_Closing

record approval_command =
  wa_action :: workflow_action
  wa_resource :: string
  wa_actor :: string
  wa_justification :: string
  wa_key :: string
  wa_correlation :: string
  wa_session :: "string option"

definition execute_workflow_approval :: "(approval_command \<Rightarrow> 'r res) \<Rightarrow> approval_command \<Rightarrow> 'r res" where
  "execute_workflow_approval transition c =
     (if \<not> is_uuid (wa_resource c) then Inl (TypeError ''Workflow resource identifier must be a UUID'')
      else if blank (wa_actor c) then Inl (TypeError ''Workflow actor is required'')
      else if length (trim (wa_justification c)) < 10
      then Inl (TypeError ''Workflow justification must contain at least 10 characters'')
      else if \<not> safe_key 16 128 (trim (wa_key c))
      then Inl (TypeError ''Workflow idempotency key must contain between 16 and 128 characters'')
      else if \<not> is_uuid (trim (wa_correlation c)) then Inl (TypeError ''Workflow correlation identifier must be a UUID'')
      else transition (c\<lparr>wa_actor := trim (wa_actor c), wa_key := trim (wa_key c),
        wa_correlation := to_lower (trim (wa_correlation c)), wa_justification := trim (wa_justification c)\<rparr>))"

definition execute_closing_governance :: "clock_lib \<Rightarrow> (string \<Rightarrow> 'r res) \<Rightarrow> string \<Rightarrow> 'r res" where
  "execute_closing_governance clock escalate now =
     (if date_parse clock now = None then Inl (TypeError ''now must be an ISO date'') else escalate now)"

section \<open>Sorting forgets the order\<close>

lemma mset_insert_by [simp]: "mset (insert_by cmp x ys) = add_mset x (mset ys)"
  by (induction ys) auto

lemma mset_sort_by [simp]: "mset (sort_by cmp xs) = mset xs"
  by (induction xs) simp_all

lemma sorted_unique:
  assumes "sorted_wrt P xs" "sorted_wrt P ys" "mset xs = mset ys"
    "\<And>a b. a \<in> set xs \<Longrightarrow> b \<in> set xs \<Longrightarrow> P a b \<Longrightarrow> P b a \<Longrightarrow> a = b"
  shows "xs = ys"
  using assms
proof (induction xs arbitrary: ys)
  case (Cons x xs)
  from Cons.prems(3) obtain y ys' where ys: "ys = y # ys'" by (cases ys) auto
  have sets: "set (x # xs) = set (y # ys')" using Cons.prems(3) unfolding ys by (rule mset_eq_setD)
  have "x = y"
  proof (rule ccontr)
    assume "x \<noteq> y"
    with sets have "x \<in> set ys'" "y \<in> set xs" by auto
    with Cons.prems(1,2) ys have "P x y" "P y x" by auto
    with Cons.prems(4) \<open>y \<in> set xs\<close> \<open>x \<noteq> y\<close> show False by auto
  qed
  with Cons.prems ys Cons.IH [of ys'] show ?case by auto
qed simp

lemma sort_by_order_free:
  assumes "total_comparator cmp" "mset xs = mset ys"
    "\<And>a b. a \<in> set xs \<Longrightarrow> b \<in> set xs \<Longrightarrow> cmp a b \<le> 0 \<Longrightarrow> cmp b a \<le> 0 \<Longrightarrow> a = b"
  shows "sort_by cmp xs = sort_by cmp ys"
  by (rule sorted_unique [OF sorted_sort_by [OF assms(1)] sorted_sort_by [OF assms(1)]]) (use assms in auto)

lemma sort_texts: "mset xs = mset ys \<Longrightarrow> sort_by text_order xs = sort_by text_order ys"
  by (rule sort_by_order_free [OF text_order_total _ text_order_antisym])

text \<open>
  The evidence manifest does not depend on the order in which the evidence was collected:
  permuting the step events, the approvals, the rejections and the accepted risks (of different
  anomalies) gives the same manifest with the same checksum, or the same error.
\<close>

theorem evidence_manifest_canonical:
  assumes "ei_closing j = ei_closing i" "ei_generated_at j = ei_generated_at i" "mset (ei_steps j) = mset (ei_steps i)"
    "mset (ei_approvals j) = mset (ei_approvals i)" "mset (ei_rejections j) = mset (ei_rejections i)"
    "mset (ei_risks j) = mset (ei_risks i)" "inj_on ak_anomaly (set (ei_risks i))"
    "total_comparator (locale_compare lib)"
    "\<forall>a b. locale_compare lib a b \<le> 0 \<longrightarrow> locale_compare lib b a \<le> 0 \<longrightarrow> a = b"
  shows "build_evidence_manifest lib clock j = build_evidence_manifest lib clock i"
proof -
  let ?cmp = "\<lambda>a b. locale_compare lib (ak_anomaly a) (ak_anomaly b)"
  have total: "total_comparator ?cmp" using assms(8) unfolding total_comparator_def by blast
  have risks: "set (ei_risks j) = set (ei_risks i)" using assms(6) by (rule mset_eq_setD)
  have "sort_by ?cmp (ei_risks j) = sort_by ?cmp (ei_risks i)"
  proof (rule sort_by_order_free [OF total assms(6)])
    fix a b assume "a \<in> set (ei_risks j)" "b \<in> set (ei_risks j)" "?cmp a b \<le> 0" "?cmp b a \<le> 0"
    then show "a = b" using assms(7,9) unfolding risks by (meson inj_onD)
  qed
  moreover have "sort_by text_order (ei_steps j) = sort_by text_order (ei_steps i)"
    "sort_by text_order (ei_approvals j) = sort_by text_order (ei_approvals i)"
    "sort_by text_order (ei_rejections j) = sort_by text_order (ei_rejections i)"
    by (rule sort_texts, fact)+
  ultimately have "canonical_evidence lib j = canonical_evidence lib i"
    using assms(1,2) by (simp add: canonical_evidence_def)
  then show ?thesis using assms(1,2) risks by (simp add: build_evidence_manifest_def)
qed

definition ordered_lib :: json_lib where
  "ordered_lib = \<lparr>locale_compare = text_order, print_number = (\<lambda>_. ''1''), sha256 = (\<lambda>t. t)\<rparr>"

definition example_evidence_input :: "string list \<Rightarrow> evidence_input" where
  "example_evidence_input steps = \<lparr>ei_closing = ''c'', ei_steps = steps, ei_approvals = [], ei_rejections = [], ei_risks = [],
     ei_generated_at = ''t''\<rparr>"

theorem evidence_manifest_canonical_witness:
  "build_evidence_manifest ordered_lib \<lparr>date_parse = (\<lambda>_. Some 0), print_instant = (\<lambda>_. [])\<rparr> (example_evidence_input [''b'', ''a''])
   = build_evidence_manifest ordered_lib \<lparr>date_parse = (\<lambda>_. Some 0), print_instant = (\<lambda>_. [])\<rparr> (example_evidence_input [''a'', ''b''])"
  by (rule evidence_manifest_canonical)
    (simp_all add: example_evidence_input_def ordered_lib_def text_order_total text_order_antisym)

end
