(* ===== verification/Closing_Store.thy ===== *)
theory Closing_Store
  imports Closing Accounting_Store Audit_Trail
begin

text \<open>
  The workflow tables and their repositories: the controls of a closing
  (\<open>postgres-closing-control.repository.ts\<close>), its steps
  (\<open>postgres-closing-workflow.repository.ts\<close>) and the four-eyes approvals of calculations and
  closings (\<open>postgres-workflow-approval.repository.ts\<close>).  A transaction that throws changes
  nothing; the identifier and the instant of an outbox row are parameters.
\<close>

datatype period_state = Requested | Controls_Passed | Blocked | Period_Approved | Period_Closed | Period_Failed

record closing_row =
  cp_id :: string
  cp_date :: string
  cp_requested_by :: string
  cp_correlation :: string
  cp_state :: period_state
  cp_blockers :: "blocker list"
  cp_checksum :: "string option"
  cp_checker :: "string option"
  cp_step :: string
  cp_status :: closing_status

record step_event =
  sv_closing :: string
  sv_number :: nat
  sv_previous :: string
  sv_resulting :: string
  sv_status :: closing_status
  sv_actor :: string
  sv_evidence :: quality_evidence
  sv_key :: string

record calculation_row =
  ca_id :: string
  ca_status :: run_status
  ca_maker :: "string option"
  ca_controller :: "string option"
  ca_approver :: "string option"
  ca_kind :: string
  ca_pool :: string
  ca_date :: string

record rejection_row =
  rj_closing :: string
  rj_actor :: string
  rj_comment :: string
  rj_key :: string

record workflow_db =
  wf_periods :: "closing_row list"
  wf_events :: "step_event list"
  wf_runs :: "calculation_row list"
  wf_approvals :: "approval_row list"
  wf_rejections :: "rejection_row list"
  wf_outbox :: "outbox_message list"
  wf_batches :: "(string \<times> string) list"
  wf_required :: "string list"
  wf_reconciled :: "(string \<times> string \<times> string) list"
  wf_discrepancies :: "(string \<times> string) list"
  wf_certifications :: "(string \<times> nat) list"
  wf_purifications :: "(string \<times> string \<times> string) list"

definition period_state_name :: "period_state \<Rightarrow> string" where
  "period_state_name s = (case s of Requested \<Rightarrow> ''REQUESTED'' | Controls_Passed \<Rightarrow> ''CONTROLS_PASSED''
     | Blocked \<Rightarrow> ''BLOCKED'' | Period_Approved \<Rightarrow> ''APPROVED'' | Period_Closed \<Rightarrow> ''CLOSED'' | Period_Failed \<Rightarrow> ''FAILED'')"

definition find_period :: "string \<Rightarrow> workflow_db \<Rightarrow> closing_row option" where
  "find_period i db = find (\<lambda>p. cp_id p = i) (wf_periods db)"

definition update_period :: "string \<Rightarrow> (closing_row \<Rightarrow> closing_row) \<Rightarrow> workflow_db \<Rightarrow> workflow_db" where
  "update_period i f db = db\<lparr>wf_periods := map (\<lambda>p. if cp_id p = i then f p else p) (wf_periods db)\<rparr>"

definition update_run :: "string \<Rightarrow> (calculation_row \<Rightarrow> calculation_row) \<Rightarrow> workflow_db \<Rightarrow> workflow_db" where
  "update_run i f db = db\<lparr>wf_runs := map (\<lambda>r. if ca_id r = i then f r else r) (wf_runs db)\<rparr>"

section \<open>The controls of a closing (\<open>evaluateAndRecord\<close>)\<close>

definition tally :: "('a \<Rightarrow> bool) \<Rightarrow> 'a list \<Rightarrow> jsnum" where
  "tally P xs = Num (of_nat (length (filter P xs)))"

definition run_counts :: "run_status \<Rightarrow> bool" where
  "run_counts s \<longleftrightarrow> s = Run_Approved \<or> s = Run_Posted \<or> s = Run_Archived"

definition open_discrepancy :: "string \<Rightarrow> workflow_db \<Rightarrow> string \<times> string \<Rightarrow> bool" where
  "open_discrepancy date db d \<longleftrightarrow> snd d \<notin> {''CLOSED'', ''ACCEPTED_RISK''}
     \<and> (\<exists>r\<in>set (wf_reconciled db). fst r = fst d \<and> fst (snd r) = date)"

definition closing_counts :: "string \<Rightarrow> workflow_db \<Rightarrow> control_counts" where
  "closing_counts date db =
     \<lparr>cc_pending_batches = tally (\<lambda>b. fst b = date
         \<and> snd b \<notin> {''PUBLISHED'', ''REJECTED'', ''QUARANTINED'', ''FAILED'', ''CANCELLED''}) (wf_batches db),
      cc_failed_batches = tally (\<lambda>b. fst b = date \<and> snd b \<in> {''REJECTED'', ''QUARANTINED'', ''FAILED''}) (wf_batches db),
      cc_unapproved_runs = tally (\<lambda>r. ca_date r = date \<and> \<not> run_counts (ca_status r)) (wf_runs db),
      cc_approved_runs = tally (\<lambda>r. ca_date r = date \<and> run_counts (ca_status r)) (wf_runs db),
      cc_missing_reconciliations = Some (tally (\<lambda>t. \<not> (\<exists>r\<in>set (wf_reconciled db).
         fst (snd r) = date \<and> snd (snd r) = t)) (wf_required db)),
      cc_open_discrepancies = Some (tally (open_discrepancy date db) (wf_discrepancies db))\<rparr>"

definition counts_json :: "control_counts \<Rightarrow> json" where
  "counts_json c = J_Object (map (\<lambda>(k, v). (k, J_Number v)) (count_entries c))"

text \<open>\<open>INSERT ... ON CONFLICT (closing_id) DO NOTHING\<close>; the business date of a period is unique.\<close>

definition insert_period :: "closing_request \<Rightarrow> workflow_db \<Rightarrow> workflow_db res" where
  "insert_period r db =
     (if find_period (cq_closing r) db \<noteq> None then Inr db
      else if \<exists>p\<in>set (wf_periods db). cp_date p = cq_date r then Inl unique_violation
      else Inr (db\<lparr>wf_periods := wf_periods db @ [\<lparr>cp_id = cq_closing r, cp_date = cq_date r,
        cp_requested_by = cq_requested_by r, cp_correlation = cq_correlation r, cp_state = Requested, cp_blockers = [],
        cp_checksum = None, cp_checker = None, cp_step = ''PERIOD_OPENING'', cp_status = St_Draft\<rparr>]\<rparr>))"

definition evaluate_and_record ::
  "json_lib \<Rightarrow> (control_counts \<Rightarrow> control_decision res) \<Rightarrow> closing_request \<Rightarrow> workflow_db
     \<Rightarrow> (workflow_db \<times> period_state \<times> blocker list) res" where
  "evaluate_and_record lib decide r db =
     and_then (insert_period r db) (\<lambda>db1.
     case find_period (cq_closing r) db1 of
       None \<Rightarrow> Inl (Failure ''Closing identifier conflicts with a different request'')
     | Some p \<Rightarrow>
         if cp_date p \<noteq> cq_date r \<or> cp_requested_by p \<noteq> cq_requested_by r \<or> cp_correlation p \<noteq> cq_correlation r
         then Inl (Failure ''Closing identifier conflicts with a different request'')
         else let counts = closing_counts (cq_date r) db1 in
           and_then (decide counts) (\<lambda>d.
           let state = (if cd_passed d then Controls_Passed else Blocked) in
           if cp_state p \<notin> {Requested, Blocked, Controls_Passed}
           then Inl (Failure ''Closing request cannot be controlled from its current state'')
           else Inr (update_period (cq_closing r) (\<lambda>p. p\<lparr>cp_state := state, cp_blockers := cd_blockers d,
               cp_checksum := Some (sha256 lib (stringify lib (counts_json counts)))\<rparr>) db1, state, cd_blockers d)))"

section \<open>The steps of a closing (\<open>advanceAtomically\<close>)\<close>

definition advance_atomically ::
  "(closing_state \<Rightarrow> string \<Rightarrow> quality_evidence \<Rightarrow> closing_transition res) \<Rightarrow> advance_command \<Rightarrow> workflow_db
     \<Rightarrow> (workflow_db \<times> closing_transition) res" where
  "advance_atomically transition c db =
     (case find (\<lambda>e. sv_closing e = av_closing c \<and> sv_key e = av_key c) (wf_events db) of
        Some e \<Rightarrow>
          if sv_resulting e \<noteq> av_target c \<or> sv_actor e \<noteq> av_actor c \<or> sv_evidence e \<noteq> av_evidence c
          then Inl (Failure ''Closing idempotency key was already used with a different command'')
          else Inr (db, \<lparr>ct_step = sv_resulting e, ct_status = sv_status e, ct_number = sv_number e, ct_previous = sv_previous e\<rparr>)
      | None \<Rightarrow> (case find_period (av_closing c) db of
            None \<Rightarrow> Inl (Failure ''Closing workflow not found'')
          | Some p \<Rightarrow>
              and_then (transition \<lparr>cl_step = cp_step p, cl_status = cp_status p, cl_cancelled = False\<rparr>
                  (av_target c) (av_evidence c)) (\<lambda>t.
              if \<exists>e\<in>set (wf_events db). sv_closing e = av_closing c \<and> sv_number e = ct_number t then Inl unique_violation
              else Inr (update_period (av_closing c) (\<lambda>p. p\<lparr>cp_step := ct_step t, cp_status := ct_status t\<rparr>)
                (db\<lparr>wf_events := wf_events db @ [\<lparr>sv_closing = av_closing c, sv_number = ct_number t,
                   sv_previous = ct_previous t, sv_resulting = ct_step t, sv_status = ct_status t, sv_actor = av_actor c,
                   sv_evidence = av_evidence c, sv_key = av_key c\<rparr>]\<rparr>), t))))"

section \<open>Approvals (\<open>transition\<close>)\<close>

definition action_name :: "workflow_action \<Rightarrow> string" where
  "action_name a = (case a of Control_Calculation \<Rightarrow> ''CONTROL_CALCULATION'' | Approve_Calculation \<Rightarrow> ''APPROVE_CALCULATION''
     | Approve_Closing \<Rightarrow> ''APPROVE_CLOSING'' | Reject_Closing \<Rightarrow> ''REJECT_CLOSING'')"

definition closing_action :: "workflow_action \<Rightarrow> bool" where
  "closing_action a \<longleftrightarrow> a = Approve_Closing \<or> a = Reject_Closing"

definition resource_type_of :: "workflow_action \<Rightarrow> string" where
  "resource_type_of a = (if closing_action a then ''ClosingPeriod'' else ''CalculationRun'')"

definition existing_action :: "approval_command \<Rightarrow> workflow_db \<Rightarrow> string option res" where
  "existing_action c db = (case find (\<lambda>a. ap_key a = wa_key c) (wf_approvals db) of
     None \<Rightarrow> Inr None
   | Some a \<Rightarrow>
       if ap_resource a \<noteq> wa_resource c \<or> ap_action a \<noteq> action_name (wa_action c) \<or> ap_actor a \<noteq> wa_actor c
         \<or> ap_justification a \<noteq> wa_justification c
       then Inl (Failure ''Idempotency key was already used for a different workflow action'')
       else Inr (Some (ap_result a)))"

definition opening_certified :: "workflow_db \<Rightarrow> bool" where
  "opening_certified db \<longleftrightarrow> (\<exists>(status, n)\<in>set (wf_certifications db). status = ''CERTIFIED'' \<and> n = 4)"

definition undocumented_purification :: "calculation_row \<Rightarrow> workflow_db \<Rightarrow> bool" where
  "undocumented_purification r db \<longleftrightarrow> (\<exists>(pool, date, status)\<in>set (wf_purifications db).
     pool = ca_pool r \<and> str_le date (ca_date r) \<and> status = ''PENDING_DOCUMENTATION'')"

text \<open>The resulting state, the business date and the changed tables.\<close>

definition transition_calculation :: "approval_command \<Rightarrow> workflow_db \<Rightarrow> (string \<times> string \<times> workflow_db) res" where
  "transition_calculation c db = (case find (\<lambda>r. ca_id r = wa_resource c) (wf_runs db) of
     None \<Rightarrow> Inl (Failure ''Calculation run not found'')
   | Some r \<Rightarrow>
       if ca_maker r = None \<or> ca_maker r = Some [] then Inl (Failure ''Calculation run has no Maker identity'')
       else if ca_maker r = Some (wa_actor c) then Inl (Failure ''Maker cannot control or approve their own calculation'')
       else if wa_action c = Approve_Calculation \<and> ca_controller r = Some (wa_actor c)
       then Inl (Failure ''Controller cannot approve their own controlled calculation'')
       else if wa_action c = Control_Calculation then
         (if ca_status r \<noteq> Run_Calculated
          then Inl (Failure (''Calculation cannot be controlled from '' @ run_status_name (ca_status r)))
          else Inr (''CONTROLLED'', ca_date r,
            update_run (wa_resource c) (\<lambda>r. r\<lparr>ca_status := Run_Controlled, ca_controller := Some (wa_actor c)\<rparr>) db))
       else if ca_status r \<noteq> Run_Controlled
       then Inl (Failure (''Calculation cannot be approved from '' @ run_status_name (ca_status r)))
       else if ca_kind r = ''PRODUCTION'' \<and> \<not> opening_certified db
       then Inl (Failure ''Production calculation publication blocked: opening balances are not Finance-certified'')
       else if undocumented_purification r db
       then Inl (Failure ''Calculation publication blocked by undocumented purification'')
       else Inr (''APPROVED'', ca_date r,
         update_run (wa_resource c) (\<lambda>r. r\<lparr>ca_status := Run_Approved, ca_approver := Some (wa_actor c)\<rparr>) db))"

definition transition_closing :: "approval_command \<Rightarrow> workflow_db \<Rightarrow> (string \<times> string \<times> workflow_db) res" where
  "transition_closing c db = (case find_period (wa_resource c) db of
     None \<Rightarrow> Inl (Failure ''Closing period not found'')
   | Some p \<Rightarrow>
       if cp_requested_by p = wa_actor c then Inl (Failure ''Maker cannot control, approve or reject their own closing'')
       else if cp_state p \<noteq> Controls_Passed
       then Inl (Failure (''Closing cannot be reviewed from '' @ period_state_name (cp_state p)))
       else if wa_action c = Reject_Closing then
         (if \<exists>j\<in>set (wf_rejections db). rj_key j = wa_key c then Inl unique_violation
          else Inr (''ANOMALY'', cp_date p,
            (update_period (wa_resource c) (\<lambda>p. p\<lparr>cp_state := Blocked, cp_status := St_Anomaly, cp_checker := Some (wa_actor c)\<rparr>) db)
              \<lparr>wf_rejections := wf_rejections db @ [\<lparr>rj_closing = wa_resource c, rj_actor = wa_actor c,
                 rj_comment = wa_justification c, rj_key = wa_key c\<rparr>]\<rparr>))
       else Inr (''APPROVED'', cp_date p,
         update_period (wa_resource c) (\<lambda>p. p\<lparr>cp_state := Period_Approved, cp_checker := Some (wa_actor c)\<rparr>) db))"

text \<open>The audit intent written with the action; absent members of the payload are stripped.\<close>

definition audit_intent :: "string \<times> string \<Rightarrow> approval_command \<Rightarrow> string \<Rightarrow> string \<Rightarrow> outbox_message" where
  "audit_intent stamp c state date = (case stamp of (event, now) \<Rightarrow>
     \<lparr>ms_event_id = event, ms_event_type = ''pms.audit.workflow-action-recorded.v1'', ms_schema_version = 1,
      ms_aggregate_type = resource_type_of (wa_action c), ms_aggregate_id = wa_resource c,
      ms_correlation = wa_correlation c, ms_causation = None, ms_occurred_at = now,
      ms_payload = [(''action'', J_String (action_name (wa_action c))), (''actorId'', J_String (wa_actor c)),
        (''resourceType'', J_String (resource_type_of (wa_action c))), (''resourceId'', J_String (wa_resource c)),
        (''businessDate'', J_String date), (''justification'', J_String (wa_justification c)), (''resultState'', J_String state)]
        @ (case wa_session c of None \<Rightarrow> [] | Some s \<Rightarrow> [(''sessionId'', J_String s)])\<rparr>)"

definition record_action :: "approval_row \<Rightarrow> workflow_db \<Rightarrow> workflow_db res" where
  "record_action row db =
     (if \<exists>a\<in>set (wf_approvals db). ap_key a = ap_key row
        \<or> (ap_resource_type a = ap_resource_type row \<and> ap_resource a = ap_resource row
           \<and> ap_action a = ap_action row \<and> ap_actor a = ap_actor row)
      then Inl unique_violation else Inr (db\<lparr>wf_approvals := wf_approvals db @ [row]\<rparr>))"

definition approval_transition ::
  "string \<times> string \<Rightarrow> approval_command \<Rightarrow> workflow_db \<Rightarrow> (workflow_db \<times> string) res" where
  "approval_transition stamp c db =
     and_then (existing_action c db) (\<lambda>replay. case replay of
       Some state \<Rightarrow> Inr (db, state)
     | None \<Rightarrow>
         and_then (if closing_action (wa_action c) then transition_closing c db else transition_calculation c db)
           (\<lambda>(state, date, db1).
         and_then (record_action \<lparr>ap_key = wa_key c, ap_resource_type = resource_type_of (wa_action c),
             ap_resource = wa_resource c, ap_action = action_name (wa_action c), ap_actor = wa_actor c,
             ap_justification = wa_justification c, ap_result = state\<rparr> db1) (\<lambda>db2.
         Inr (db2\<lparr>wf_outbox := wf_outbox db2 @ [audit_intent stamp c state date]\<rparr>, state))))"

section \<open>Reachable workflow states\<close>

text \<open>
  What happens to the tables: runs are registered and calculated, closings are controlled and
  advanced, runs and closings are reviewed, and approved runs are posted.
\<close>

inductive workflow_step :: "workflow_db \<Rightarrow> workflow_db \<Rightarrow> bool" where
  register: "ca_id r \<notin> ca_id ` set (wf_runs db) \<Longrightarrow> ca_status r = Run_Draft \<or> ca_status r = Run_Calculated \<Longrightarrow>
    workflow_step db (db\<lparr>wf_runs := wf_runs db @ [r]\<rparr>)"
| calculate: "s = Run_Calculated \<or> s = Run_Failed \<Longrightarrow>
    workflow_step db (update_run i (\<lambda>r. if ca_status r = Run_Draft then r\<lparr>ca_status := s\<rparr> else r) db)"
| control: "evaluate_and_record lib evaluate_closing_controls q db = Inr (db', st, bs) \<Longrightarrow> workflow_step db db'"
| advance: "advance_atomically advance_closing a db = Inr (db', t) \<Longrightarrow> workflow_step db db'"
| review: "approval_transition stamp c db = Inr (db', state) \<Longrightarrow> workflow_step db db'"
| post: "workflow_step db (update_run i (\<lambda>r. if ca_status r = Run_Approved then r\<lparr>ca_status := Run_Posted\<rparr> else r) db)"

inductive workflow_reachable :: "workflow_db \<Rightarrow> bool" where
  start: "wf_periods db = [] \<Longrightarrow> wf_events db = [] \<Longrightarrow> wf_runs db = [] \<Longrightarrow> workflow_reachable db"
| step: "workflow_reachable db \<Longrightarrow> workflow_step db db' \<Longrightarrow> workflow_reachable db'"

inductive_cases workflow_stepE: "workflow_step db db'"

definition run_reviewed :: "calculation_row \<Rightarrow> bool" where
  "run_reviewed r \<longleftrightarrow>
     (ca_status r = Run_Controlled \<longrightarrow> (\<exists>m c. ca_maker r = Some m \<and> ca_controller r = Some c \<and> m \<noteq> c))
   \<and> (run_counts (ca_status r) \<longrightarrow> (\<exists>m c a. ca_maker r = Some m \<and> ca_controller r = Some c \<and> ca_approver r = Some a
        \<and> distinct [m, c, a]))"

definition period_reviewed :: "closing_row \<Rightarrow> bool" where
  "period_reviewed p \<longleftrightarrow> (cp_state p = Period_Approved \<longrightarrow> (\<exists>k. cp_checker p = Some k \<and> k \<noteq> cp_requested_by p))"

definition duties_inv :: "workflow_db \<Rightarrow> bool" where
  "duties_inv db \<longleftrightarrow> distinct (map ca_id (wf_runs db)) \<and> distinct (map cp_id (wf_periods db))
     \<and> (\<forall>r\<in>set (wf_runs db). run_reviewed r) \<and> (\<forall>p\<in>set (wf_periods db). period_reviewed p)"

lemma update_run_simps [simp]:
  "wf_periods (update_run i f db) = wf_periods db" "wf_events (update_run i f db) = wf_events db"
  "wf_runs (update_run i f db) = map (\<lambda>r. if ca_id r = i then f r else r) (wf_runs db)"
  "wf_approvals (update_run i f db) = wf_approvals db" "wf_outbox (update_run i f db) = wf_outbox db"
  by (simp_all add: update_run_def)

lemma update_period_simps [simp]:
  "wf_periods (update_period i g db) = map (\<lambda>p. if cp_id p = i then g p else p) (wf_periods db)"
  "wf_events (update_period i g db) = wf_events db" "wf_runs (update_period i g db) = wf_runs db"
  "wf_approvals (update_period i g db) = wf_approvals db" "wf_outbox (update_period i g db) = wf_outbox db"
  by (simp_all add: update_period_def)

lemma map_key_update: "(\<And>r. key (f r) = key r) \<Longrightarrow> map key (map (\<lambda>r. if key r = i then f r else r) rs) = map key rs"
  by simp

text \<open>The row that \<open>find\<close> returns is the only one the update changes.\<close>

lemma found_only:
  assumes "find (\<lambda>r. key r = i) rs = Some x" "distinct (map key rs)" "r \<in> set rs" "key r = i"
  shows "r = x"
proof -
  have "x \<in> set rs" "key x = i" using find_SomeD [OF assms(1)] by auto
  with assms show ?thesis by (simp add: distinct_map inj_on_def)
qed

lemma duties_runs:
  assumes "duties_inv db" "\<And>r. ca_id (f r) = ca_id r" "\<And>r. r \<in> set (wf_runs db) \<Longrightarrow> ca_id r = i \<Longrightarrow> run_reviewed (f r)"
  shows "duties_inv (update_run i f db)"
  using assms map_key_update [of ca_id f i "wf_runs db"] by (auto simp: duties_inv_def simp del: map_map)

lemma duties_periods:
  assumes "duties_inv db" "\<And>p. cp_id (g p) = cp_id p" "\<And>p. p \<in> set (wf_periods db) \<Longrightarrow> cp_id p = i \<Longrightarrow> period_reviewed (g p)"
  shows "duties_inv (update_period i g db)"
  using assms map_key_update [of cp_id g i "wf_periods db"] by (auto simp: duties_inv_def simp del: map_map)

lemma duties_same: "duties_inv db \<Longrightarrow> wf_runs db' = wf_runs db \<Longrightarrow> wf_periods db' = wf_periods db \<Longrightarrow> duties_inv db'"
  by (simp add: duties_inv_def)

lemma transition_calculation_duties:
  assumes inv: "duties_inv db" and run: "transition_calculation c db = Inr (state, date, db')"
    and kind: "\<not> closing_action (wa_action c)"
  shows "duties_inv db'"
proof -
  obtain r where f: "find (\<lambda>r. ca_id r = wa_resource c) (wf_runs db) = Some r"
    using run by (auto simp: transition_calculation_def split: option.splits)
  have only: "q = r" if "q \<in> set (wf_runs db)" "ca_id q = wa_resource c" for q
    using found_only [OF f _ that] inv by (simp add: duties_inv_def)
  have r: "run_reviewed r" using find_SomeD [OF f] inv by (auto simp: duties_inv_def)
  obtain m where m: "ca_maker r = Some m" "m \<noteq> wa_actor c"
    using run f by (auto simp: transition_calculation_def split: if_splits)
  show ?thesis
  proof (cases "wa_action c = Control_Calculation")
    case True
    with run f have db': "db' = update_run (wa_resource c) (\<lambda>r. r\<lparr>ca_status := Run_Controlled, ca_controller := Some (wa_actor c)\<rparr>) db"
      by (simp add: transition_calculation_def split: if_splits)
    show ?thesis unfolding db'
      by (rule duties_runs [OF inv]) (use only m in \<open>auto simp: run_reviewed_def run_counts_def\<close>)
  next
    case False
    with run f have db': "db' = update_run (wa_resource c) (\<lambda>r. r\<lparr>ca_status := Run_Approved, ca_approver := Some (wa_actor c)\<rparr>) db"
      and s: "ca_status r = Run_Controlled" and a: "wa_action c = Approve_Calculation \<longrightarrow> ca_controller r \<noteq> Some (wa_actor c)"
      by (simp_all add: transition_calculation_def split: if_splits)
    show ?thesis unfolding db'
    proof (rule duties_runs [OF inv])
      fix q assume "q \<in> set (wf_runs db)" "ca_id q = wa_resource c"
      then have "q = r" by (rule only)
      moreover have "wa_action c = Approve_Calculation" using kind False by (cases "wa_action c") (auto simp: closing_action_def)
      ultimately show "run_reviewed (q\<lparr>ca_status := Run_Approved, ca_approver := Some (wa_actor c)\<rparr>)"
        using r s m a by (auto simp: run_reviewed_def run_counts_def)
    qed simp
  qed
qed

lemma transition_closing_duties:
  assumes inv: "duties_inv db" and run: "transition_closing c db = Inr (state, date, db')"
  shows "duties_inv db'"
proof -
  obtain p where f: "find (\<lambda>p. cp_id p = wa_resource c) (wf_periods db) = Some p"
    using run by (auto simp: transition_closing_def find_period_def split: option.splits)
  have only: "q = p" if "q \<in> set (wf_periods db)" "cp_id q = wa_resource c" for q
    using found_only [OF f _ that] inv by (simp add: duties_inv_def)
  have p: "cp_requested_by p \<noteq> wa_actor c" using run f by (auto simp: transition_closing_def find_period_def split: if_splits)
  show ?thesis
  proof (cases "wa_action c = Reject_Closing")
    case True
    let ?db = "update_period (wa_resource c) (\<lambda>p. p\<lparr>cp_state := Blocked, cp_status := St_Anomaly, cp_checker := Some (wa_actor c)\<rparr>) db"
    have "duties_inv ?db" by (rule duties_periods [OF inv]) (simp_all add: period_reviewed_def)
    moreover have "wf_runs db' = wf_runs ?db" "wf_periods db' = wf_periods ?db"
      using run f True by (auto simp: transition_closing_def find_period_def split: if_splits)
    ultimately show ?thesis by (rule duties_same)
  next
    case False
    with run f have db': "db' = update_period (wa_resource c) (\<lambda>p. p\<lparr>cp_state := Period_Approved, cp_checker := Some (wa_actor c)\<rparr>) db"
      by (simp add: transition_closing_def find_period_def split: if_splits)
    show ?thesis unfolding db'
      by (rule duties_periods [OF inv]) (use only p in \<open>auto simp: period_reviewed_def\<close>)
  qed
qed

definition approval_of :: "approval_command \<Rightarrow> string \<Rightarrow> approval_row" where
  "approval_of c state = \<lparr>ap_key = wa_key c, ap_resource_type = resource_type_of (wa_action c),
     ap_resource = wa_resource c, ap_action = action_name (wa_action c), ap_actor = wa_actor c,
     ap_justification = wa_justification c, ap_result = state\<rparr>"

definition answers_again :: "approval_command \<Rightarrow> string \<Rightarrow> approval_row \<Rightarrow> bool" where
  "answers_again c state a \<longleftrightarrow> ap_key a = wa_key c \<and> ap_resource a = wa_resource c \<and> ap_action a = action_name (wa_action c)
     \<and> ap_actor a = wa_actor c \<and> ap_justification a = wa_justification c \<and> ap_result a = state"

lemma transition_keeps_approvals:
  "transition_calculation c db = Inr (state, date, db1) \<Longrightarrow> wf_approvals db1 = wf_approvals db"
  "transition_closing c db = Inr (state, date, db1) \<Longrightarrow> wf_approvals db1 = wf_approvals db"
  by (auto simp: transition_calculation_def transition_closing_def update_run_def update_period_def split: option.splits if_splits)

lemma approval_transition_Inr:
  assumes "approval_transition stamp c db = Inr (db', state)"
  obtains a where "db' = db" "a \<in> set (wf_approvals db)" "answers_again c state a"
  | date db1 where "\<not> closing_action (wa_action c)" "transition_calculation c db = Inr (state, date, db1)"
      "wf_runs db' = wf_runs db1" "wf_periods db' = wf_periods db1" "wf_events db' = wf_events db1"
      "wf_outbox db' = wf_outbox db1 @ [audit_intent stamp c state date]"
      "wa_key c \<notin> ap_key ` set (wf_approvals db)" "wf_approvals db' = wf_approvals db @ [approval_of c state]"
  | date db1 where "closing_action (wa_action c)" "transition_closing c db = Inr (state, date, db1)"
      "wf_runs db' = wf_runs db1" "wf_periods db' = wf_periods db1" "wf_events db' = wf_events db1"
      "wf_outbox db' = wf_outbox db1 @ [audit_intent stamp c state date]"
      "wa_key c \<notin> ap_key ` set (wf_approvals db)" "wf_approvals db' = wf_approvals db @ [approval_of c state]"
proof -
  from assms obtain replay where e: "existing_action c db = Inr replay" and r: "(case replay of Some state \<Rightarrow> Inr (db, state)
     | None \<Rightarrow> and_then (if closing_action (wa_action c) then transition_closing c db else transition_calculation c db)
           (\<lambda>(state, date, db1).
         and_then (record_action (approval_of c state) db1) (\<lambda>db2.
         Inr (db2\<lparr>wf_outbox := wf_outbox db2 @ [audit_intent stamp c state date]\<rparr>, state)))) = Inr (db', state)"
    unfolding approval_transition_def approval_of_def and_then_Inr by blast
  show ?thesis
  proof (cases replay)
    case (Some st)
    with e obtain a where a: "find (\<lambda>a. ap_key a = wa_key c) (wf_approvals db) = Some a" "answers_again c st a"
      by (auto simp: existing_action_def answers_again_def dest: find_SomeD split: option.splits if_splits)
    from a(1) have "a \<in> set (wf_approvals db)" by (auto dest: find_SomeD)
    with r Some a(2) show ?thesis using that(1) by simp
  next
    case None
    with e have fresh: "wa_key c \<notin> ap_key ` set (wf_approvals db)"
      by (auto simp: existing_action_def find_None_iff split: option.splits if_splits)
    from None r obtain date db1 db2 where t: "(if closing_action (wa_action c) then transition_closing c db
          else transition_calculation c db) = Inr (state, date, db1)"
      and a: "record_action (approval_of c state) db1 = Inr db2"
      and db': "db' = db2\<lparr>wf_outbox := wf_outbox db2 @ [audit_intent stamp c state date]\<rparr>"
      by (auto simp: and_then_Inr split: prod.splits)
    from a have "wf_runs db2 = wf_runs db1" "wf_periods db2 = wf_periods db1" "wf_events db2 = wf_events db1"
      "wf_outbox db2 = wf_outbox db1" "wf_approvals db2 = wf_approvals db1 @ [approval_of c state]"
      by (auto simp: record_action_def split: if_splits)
    moreover have "wf_approvals db1 = wf_approvals db"
      using t transition_keeps_approvals by (cases "closing_action (wa_action c)") auto
    ultimately show ?thesis using t db' fresh that(2,3) by (cases "closing_action (wa_action c)") simp_all
  qed
qed

lemma evaluate_and_record_Inr:
  assumes "evaluate_and_record lib decide q db = Inr (db', st, bs)"
  obtains db1 where "insert_period q db = Inr db1" "st = Controls_Passed \<or> st = Blocked"
    "wf_runs db1 = wf_runs db" "wf_events db1 = wf_events db"
    "\<exists>k. db' = update_period (cq_closing q) (\<lambda>p. p\<lparr>cp_state := st, cp_blockers := bs, cp_checksum := k\<rparr>) db1"
  using assms by (auto simp: evaluate_and_record_def and_then_Inr Let_def insert_period_def split: option.splits if_splits)

lemma insert_period_duties: "insert_period q db = Inr db1 \<Longrightarrow> duties_inv db \<Longrightarrow> duties_inv db1"
proof (cases "find_period (cq_closing q) db")
  case None
  then have "cq_closing q \<notin> cp_id ` set (wf_periods db)" by (auto simp: find_period_def find_None_iff)
  moreover assume "insert_period q db = Inr db1" "duties_inv db"
  ultimately show ?thesis using None
    by (auto simp: insert_period_def duties_inv_def split: if_splits) (simp add: period_reviewed_def)
qed (simp add: insert_period_def)

lemma advance_atomically_Inr:
  assumes "advance_atomically decide a db = Inr (db', t)"
  obtains "db' = db"
  | p e where "find_period (av_closing a) db = Some p" "sv_key e = av_key a" "sv_closing e = av_closing a"
      "decide \<lparr>cl_step = cp_step p, cl_status = cp_status p, cl_cancelled = False\<rparr> (av_target a) (av_evidence a) = Inr t"
      "sv_number e = ct_number t" "sv_resulting e = ct_step t" "sv_evidence e = av_evidence a"
      "db' = update_period (av_closing a) (\<lambda>p. p\<lparr>cp_step := ct_step t, cp_status := ct_status t\<rparr>)
         (db\<lparr>wf_events := wf_events db @ [e]\<rparr>)"
proof (cases "find (\<lambda>e. sv_closing e = av_closing a \<and> sv_key e = av_key a) (wf_events db)")
  case (Some e)
  with assms that(1) show ?thesis by (auto simp: advance_atomically_def split: if_splits)
next
  case None
  with assms obtain p where p: "find_period (av_closing a) db = Some p"
    and d: "decide \<lparr>cl_step = cp_step p, cl_status = cp_status p, cl_cancelled = False\<rparr> (av_target a) (av_evidence a) = Inr t"
    and db': "db' = update_period (av_closing a) (\<lambda>p. p\<lparr>cp_step := ct_step t, cp_status := ct_status t\<rparr>)
      (db\<lparr>wf_events := wf_events db @ [\<lparr>sv_closing = av_closing a, sv_number = ct_number t,
         sv_previous = ct_previous t, sv_resulting = ct_step t, sv_status = ct_status t, sv_actor = av_actor a,
         sv_evidence = av_evidence a, sv_key = av_key a\<rparr>]\<rparr>)"
    unfolding advance_atomically_def by (auto simp: and_then_Inr split: option.splits if_splits)
  show ?thesis by (rule that(2) [OF p _ _ d _ _ _ db']) simp_all
qed

lemma workflow_step_duties:
  assumes "workflow_step db db'" "duties_inv db"
  shows "duties_inv db'"
  using assms
proof (induction rule: workflow_step.induct)
  case (register r db)
  then show ?case by (auto simp: duties_inv_def run_reviewed_def run_counts_def)
next
  case (calculate s db i)
  then show ?case by (intro duties_runs) (auto simp: duties_inv_def run_reviewed_def run_counts_def)
next
  case (control lib q db db' st bs)
  from control(1) show ?case
  proof (rule evaluate_and_record_Inr)
    fix db1 assume a: "insert_period q db = Inr db1" "st = Controls_Passed \<or> st = Blocked"
      "\<exists>k. db' = update_period (cq_closing q) (\<lambda>p. p\<lparr>cp_state := st, cp_blockers := bs, cp_checksum := k\<rparr>) db1"
    from a(3) obtain k where db': "db' = update_period (cq_closing q) (\<lambda>p. p\<lparr>cp_state := st, cp_blockers := bs, cp_checksum := k\<rparr>) db1"
      by blast
    show ?thesis unfolding db'
      by (rule duties_periods [OF insert_period_duties [OF a(1) control(2)]]) (use a(2) in \<open>auto simp: period_reviewed_def\<close>)
  qed
next
  case (advance a db db' t)
  from advance(1) show ?case
  proof (rule advance_atomically_Inr)
    fix p e assume db': "db' = update_period (av_closing a) (\<lambda>p. p\<lparr>cp_step := ct_step t, cp_status := ct_status t\<rparr>)
         (db\<lparr>wf_events := wf_events db @ [e]\<rparr>)"
    have "duties_inv (db\<lparr>wf_events := wf_events db @ [e]\<rparr>)" using advance(2) by (rule duties_same) simp_all
    moreover have "\<forall>p\<in>set (wf_periods db). period_reviewed p" using advance(2) by (simp add: duties_inv_def)
    ultimately show ?thesis unfolding db' by (intro duties_periods) (auto simp: period_reviewed_def)
  qed (use advance(2) in simp)
next
  case (review stamp c db db' state)
  from review(1) show ?case
  proof (rule approval_transition_Inr)
    fix date db1 assume "\<not> closing_action (wa_action c)" "transition_calculation c db = Inr (state, date, db1)"
      "wf_runs db' = wf_runs db1" "wf_periods db' = wf_periods db1"
    then show ?thesis using transition_calculation_duties [OF review(2)] duties_same by blast
  next
    fix date db1 assume "transition_closing c db = Inr (state, date, db1)"
      "wf_runs db' = wf_runs db1" "wf_periods db' = wf_periods db1"
    then show ?thesis using transition_closing_duties [OF review(2)] duties_same by blast
  qed (use review(2) in simp)
next
  case (post db i)
  then show ?case by (intro duties_runs) (auto simp: duties_inv_def run_reviewed_def run_counts_def)
qed

lemma workflow_reachable_duties: "workflow_reachable db \<Longrightarrow> duties_inv db"
proof (induction rule: workflow_reachable.induct)
  case (start db)
  then show ?case by (simp add: duties_inv_def)
qed (rule workflow_step_duties)

text \<open>
  C26. Segregation of duties: in every reachable state of the workflow tables, a calculation that is
  approved, posted or archived has a maker, a controller and an approver who are three different
  persons, and an approved closing was checked by somebody other than its requester.
\<close>

theorem segregation_of_duties:
  assumes "workflow_reachable db"
  shows "(\<forall>r\<in>set (wf_runs db). run_counts (ca_status r) \<longrightarrow>
      (\<exists>m c a. ca_maker r = Some m \<and> ca_controller r = Some c \<and> ca_approver r = Some a \<and> distinct [m, c, a]))
    \<and> (\<forall>p\<in>set (wf_periods db). cp_state p = Period_Approved \<longrightarrow> (\<exists>k. cp_checker p = Some k \<and> k \<noteq> cp_requested_by p))"
  using workflow_reachable_duties [OF assms] by (simp add: duties_inv_def run_reviewed_def period_reviewed_def)

definition empty_workflow :: workflow_db where
  "empty_workflow = \<lparr>wf_periods = [], wf_events = [], wf_runs = [], wf_approvals = [], wf_rejections = [], wf_outbox = [],
     wf_batches = [], wf_required = [], wf_reconciled = [], wf_discrepancies = [], wf_certifications = [], wf_purifications = []\<rparr>"

definition example_run :: calculation_row where
  "example_run = \<lparr>ca_id = ''r1'', ca_status = Run_Calculated, ca_maker = Some ''maker'', ca_controller = None,
     ca_approver = None, ca_kind = ''SIMULATION'', ca_pool = ''p'', ca_date = ''2024-01-31''\<rparr>"

definition example_approval :: "workflow_action \<Rightarrow> string \<Rightarrow> string \<Rightarrow> approval_command" where
  "example_approval action actor key = \<lparr>wa_action = action, wa_resource = ''r1'', wa_actor = actor,
     wa_justification = ''reviewed'', wa_key = key, wa_correlation = ''c'', wa_session = None\<rparr>"

theorem segregation_of_duties_witness:
  "\<exists>db r. workflow_reachable db \<and> wf_runs db = [r] \<and> ca_status r = Run_Approved
     \<and> (\<exists>m c a. ca_maker r = Some m \<and> ca_controller r = Some c \<and> ca_approver r = Some a \<and> distinct [m, c, a])"
proof -
  let ?db0 = "empty_workflow\<lparr>wf_runs := [example_run]\<rparr>"
  have "workflow_reachable empty_workflow" by (rule workflow_reachable.start) (simp_all add: empty_workflow_def)
  moreover have "workflow_step empty_workflow ?db0"
    using workflow_step.register [of example_run empty_workflow] by (simp add: empty_workflow_def example_run_def)
  ultimately have r0: "workflow_reachable ?db0" by (rule workflow_reachable.step)
  have "\<exists>db1. approval_transition (''e1'', ''t'') (example_approval Control_Calculation ''checker'' ''k1'') ?db0 = Inr (db1, ''CONTROLLED'')
      \<and> wf_runs db1 = [example_run\<lparr>ca_status := Run_Controlled, ca_controller := Some ''checker''\<rparr>]
      \<and> wf_purifications db1 = [] \<and> map ap_key (wf_approvals db1) = [''k1''] \<and> map ap_actor (wf_approvals db1) = [''checker'']"
    by (simp add: approval_transition_def existing_action_def empty_workflow_def example_approval_def closing_action_def
        transition_calculation_def example_run_def record_action_def update_run_def)
  then obtain db1 where d1: "approval_transition (''e1'', ''t'') (example_approval Control_Calculation ''checker'' ''k1'') ?db0 = Inr (db1, ''CONTROLLED'')"
      "wf_runs db1 = [example_run\<lparr>ca_status := Run_Controlled, ca_controller := Some ''checker''\<rparr>]" "wf_purifications db1 = []"
      "map ap_key (wf_approvals db1) = [''k1'']" "map ap_actor (wf_approvals db1) = [''checker'']" by (elim exE conjE) (rule that)
  have r1: "workflow_reachable db1" by (rule workflow_reachable.step [OF r0 workflow_step.review [OF d1(1)]])
  obtain a where a: "wf_approvals db1 = [a]" "ap_key a = ''k1''" "ap_actor a = ''checker''"
    using d1(4,5) by (auto simp: map_eq_Cons_conv)
  have "\<exists>db2. approval_transition (''e2'', ''t'') (example_approval Approve_Calculation ''approver'' ''k2'') db1 = Inr (db2, ''APPROVED'')
      \<and> wf_runs db2 = [example_run\<lparr>ca_status := Run_Approved, ca_controller := Some ''checker'', ca_approver := Some ''approver''\<rparr>]"
    using d1(2,3) a
    by (simp add: approval_transition_def existing_action_def example_approval_def closing_action_def
        transition_calculation_def example_run_def record_action_def update_run_def undocumented_purification_def)
  then obtain db2 where d2: "approval_transition (''e2'', ''t'') (example_approval Approve_Calculation ''approver'' ''k2'') db1 = Inr (db2, ''APPROVED'')"
      "wf_runs db2 = [example_run\<lparr>ca_status := Run_Approved, ca_controller := Some ''checker'', ca_approver := Some ''approver''\<rparr>]"
    by (elim exE conjE) (rule that)
  have r2: "workflow_reachable db2" by (rule workflow_reachable.step [OF r1 workflow_step.review [OF d2(1)]])
  from segregation_of_duties [OF r2] d2(2) have
    "\<exists>m c a. ca_maker (hd (wf_runs db2)) = Some m \<and> ca_controller (hd (wf_runs db2)) = Some c
       \<and> ca_approver (hd (wf_runs db2)) = Some a \<and> distinct [m, c, a]"
    by (simp add: run_counts_def)
  with r2 d2(2) show ?thesis by - (rule exI [of _ db2], rule exI [of _ "hd (wf_runs db2)"], simp)
qed

section \<open>The history of a closing\<close>

lemma index_from_shift: "index_from (i + k) x xs = (if x \<in> set xs then index_from i x xs + k else - 1)"
proof (induction xs arbitrary: i)
  case (Cons y ys)
  from Cons.IH [of "i + 1"] show ?case by (simp add: algebra_simps)
qed simp

lemma index_of_bounds: "x \<in> set xs \<Longrightarrow> 0 \<le> index_of x xs \<and> nat (index_of x xs) < length xs \<and> xs ! nat (index_of x xs) = x"
proof (induction xs)
  case (Cons y ys)
  show ?case
  proof (cases "y = x")
    case False
    with Cons.prems have "x \<in> set ys" by simp
    moreover from this have "index_of x (y # ys) = index_of x ys + 1"
      using False index_from_shift [of 0 1 x ys] by (simp add: index_of_def)
    ultimately show ?thesis using Cons.IH by (simp add: nat_add_distrib)
  qed (simp add: index_of_def)
qed simp

lemma index_of_absent: "x \<notin> set xs \<Longrightarrow> index_of x xs = - 1"
  unfolding index_of_def by (induction xs arbitrary: x) (auto simp: index_from_shift [of 0 1, simplified])

lemma index_of_nth: "distinct xs \<Longrightarrow> n < length xs \<Longrightarrow> index_of (xs ! n) xs = int n"
  using index_of_bounds [of "xs ! n" xs] nth_eq_iff_index_eq [of xs "nat (index_of (xs ! n) xs)" n] by auto

lemma closing_steps_distinct: "distinct closing_steps" "length closing_steps = 19" "length status_by_step = 19"
  by (simp_all add: closing_steps_def status_by_step_def)

lemma provisional_index: "index_of ''PROVISIONAL_CALCULATION'' closing_steps = 6"
  by (simp add: closing_steps_def index_of_def)

definition evidence_ok :: "quality_evidence \<Rightarrow> bool" where
  "evidence_ok e \<longleftrightarrow> qe_green e \<or> set (qe_blocking e) \<subseteq> set (qe_accepted e)"

lemma assert_quality_evidence_ok: "assert_quality_evidence e = Inr u \<Longrightarrow> evidence_ok e"
  by (auto simp: assert_quality_evidence_def evidence_ok_def split: if_splits)

lemma advance_closing_Inr:
  assumes "advance_closing s target e = Inr t" "cl_step s = closing_steps ! n" "n < 19"
  shows "n + 1 < 19 \<and> ct_step t = closing_steps ! (n + 1) \<and> ct_number t = n + 2 \<and> ct_previous t = closing_steps ! n
    \<and> ct_status t = status_by_step ! (n + 1) \<and> (6 \<le> n + 1 \<longrightarrow> evidence_ok e)"
proof -
  have i: "index_of (cl_step s) closing_steps = int n"
    using assms(3) index_of_nth [of closing_steps n] closing_steps_distinct by (simp add: assms(2))
  let ?k = "index_of target closing_steps"
  from assms(1) have k: "?k = int n + 1"
    and t: "t = \<lparr>ct_step = target, ct_status = status_by_step ! nat ?k, ct_number = nat ?k + 1, ct_previous = cl_step s\<rparr>"
    and q: "6 \<le> ?k \<longrightarrow> assert_quality_evidence e = Inr ()"
    unfolding advance_closing_def Let_def i provisional_index by (auto simp: and_then_Inr split: if_splits)
  have "target \<in> set closing_steps" using k index_of_absent [of target closing_steps] by (cases "target \<in> set closing_steps") auto
  from index_of_bounds [OF this] k have "n + 1 < 19" "closing_steps ! (n + 1) = target"
    by (simp_all add: closing_steps_distinct nat_add_distrib)
  with t q k assms(2) show ?thesis by (auto simp: nat_add_distrib intro: assert_quality_evidence_ok)
qed

text \<open>The events of a period are the steps after the opening, in order, numbered from 2.\<close>

definition period_history :: "workflow_db \<Rightarrow> closing_row \<Rightarrow> bool" where
  "period_history db p \<longleftrightarrow> (let es = filter (\<lambda>e. sv_closing e = cp_id p) (wf_events db) in
     length es < 19 \<and> cp_step p = closing_steps ! length es
     \<and> map sv_resulting es = take (length es) (tl closing_steps) \<and> map sv_number es = [2..<length es + 2]
     \<and> (\<forall>e\<in>set es. 7 \<le> sv_number e \<longrightarrow> evidence_ok (sv_evidence e)))"

definition history_inv :: "workflow_db \<Rightarrow> bool" where
  "history_inv db \<longleftrightarrow> (\<forall>p\<in>set (wf_periods db). period_history db p)
     \<and> sv_closing ` set (wf_events db) \<subseteq> cp_id ` set (wf_periods db)"

lemma period_history_cong:
  assumes "wf_events db' = wf_events db" "cp_id p' = cp_id p" "cp_step p' = cp_step p"
  shows "period_history db' p' = period_history db p"
  by (simp only: period_history_def assms)

lemma history_same_events:
  assumes "history_inv db" "wf_events db' = wf_events db"
    "\<And>p'. p' \<in> set (wf_periods db') \<Longrightarrow> (\<exists>p\<in>set (wf_periods db). cp_id p' = cp_id p \<and> cp_step p' = cp_step p)
       \<or> (cp_id p' \<notin> cp_id ` set (wf_periods db) \<and> cp_step p' = ''PERIOD_OPENING'')"
    "cp_id ` set (wf_periods db) \<subseteq> cp_id ` set (wf_periods db')"
  shows "history_inv db'"
proof -
  have "period_history db' p'" if p': "p' \<in> set (wf_periods db')" for p'
    using assms(3) [OF p']
  proof
    assume "\<exists>p\<in>set (wf_periods db). cp_id p' = cp_id p \<and> cp_step p' = cp_step p"
    then obtain p where p: "p \<in> set (wf_periods db)" "cp_id p' = cp_id p" "cp_step p' = cp_step p" by blast
    have "period_history db p" using assms(1) p(1) by (simp add: history_inv_def)
    then show ?thesis by (simp only: period_history_cong [OF assms(2) p(2,3)])
  next
    assume new: "cp_id p' \<notin> cp_id ` set (wf_periods db) \<and> cp_step p' = ''PERIOD_OPENING''"
    then have "filter (\<lambda>e. sv_closing e = cp_id p') (wf_events db) = []"
    proof (intro filter_False ballI notI)
      fix e assume "e \<in> set (wf_events db)" "sv_closing e = cp_id p'"
      then have "cp_id p' \<in> sv_closing ` set (wf_events db)" by force
      with assms(1) new show False unfolding history_inv_def by blast
    qed
    with new assms(2) show ?thesis by (simp add: period_history_def closing_steps_def)
  qed
  moreover have "sv_closing ` set (wf_events db') \<subseteq> cp_id ` set (wf_periods db')"
  proof -
    have "sv_closing ` set (wf_events db) \<subseteq> cp_id ` set (wf_periods db)" using assms(1) by (simp add: history_inv_def)
    from subset_trans [OF this assms(4)] show ?thesis by (simp only: assms(2))
  qed
  ultimately show ?thesis by (simp add: history_inv_def)
qed

lemma history_update:
  assumes "history_inv db" "\<And>p. cp_id (g p) = cp_id p" "\<And>p. cp_step (g p) = cp_step p"
  shows "history_inv (update_period i g db)"
proof (rule history_same_events [OF assms(1)])
  have "cp_id ` set (wf_periods (update_period i g db)) = cp_id ` set (wf_periods db)"
    unfolding update_period_simps set_map image_image by (rule image_cong) (simp_all add: assms(2))
  then show "cp_id ` set (wf_periods db) \<subseteq> cp_id ` set (wf_periods (update_period i g db))" by simp
qed (use assms(2,3) in auto)

lemma history_other:
  assumes "history_inv db" "wf_events db' = wf_events db" "wf_periods db' = wf_periods db"
  shows "history_inv db'"
  using assms period_history_cong [OF assms(2)] by (simp add: history_inv_def)

lemma insert_period_history: "insert_period q db = Inr db1 \<Longrightarrow> history_inv db \<Longrightarrow> history_inv db1"
proof (cases "find_period (cq_closing q) db")
  case None
  then have "cq_closing q \<notin> cp_id ` set (wf_periods db)" by (auto simp: find_period_def find_None_iff)
  note fresh = this
  assume i: "insert_period q db = Inr db1" and h: "history_inv db"
  obtain p where db1: "db1 = db\<lparr>wf_periods := wf_periods db @ [p]\<rparr>" "cp_id p = cq_closing q" "cp_step p = ''PERIOD_OPENING''"
    using i None by (auto simp: insert_period_def split: if_splits)
  show ?thesis
  proof (rule history_same_events [OF h])
    fix p' assume "p' \<in> set (wf_periods db1)"
    then have "p' \<in> set (wf_periods db) \<or> p' = p" by (simp add: db1(1) disj_commute)
    then show "(\<exists>p\<in>set (wf_periods db). cp_id p' = cp_id p \<and> cp_step p' = cp_step p)
       \<or> (cp_id p' \<notin> cp_id ` set (wf_periods db) \<and> cp_step p' = ''PERIOD_OPENING'')"
    proof
      assume "p' = p"
      with db1 fresh show ?thesis by simp
    qed blast
  qed (auto simp: db1(1))
qed (simp add: insert_period_def)

lemma advance_history:
  assumes inv: "history_inv db" and duties: "duties_inv db" and p: "find_period (av_closing a) db = Some p"
    and t: "advance_closing \<lparr>cl_step = cp_step p, cl_status = cp_status p, cl_cancelled = False\<rparr> (av_target a) (av_evidence a) = Inr t"
    and e: "sv_closing e = av_closing a" "sv_number e = ct_number t" "sv_resulting e = ct_step t" "sv_evidence e = av_evidence a"
  shows "history_inv (update_period (av_closing a) (\<lambda>p. p\<lparr>cp_step := ct_step t, cp_status := ct_status t\<rparr>)
    (db\<lparr>wf_events := wf_events db @ [e]\<rparr>))" (is "history_inv ?db")
proof -
  have pp: "p \<in> set (wf_periods db)" "cp_id p = av_closing a" using find_SomeD [OF p [unfolded find_period_def]] by auto
  let ?es = "filter (\<lambda>e. sv_closing e = av_closing a) (wf_events db)" and ?n = "length (filter (\<lambda>e. sv_closing e = av_closing a) (wf_events db))"
  have h: "?n < 19" "cp_step p = closing_steps ! ?n" "map sv_resulting ?es = take ?n (tl closing_steps)"
    "map sv_number ?es = [2..<?n + 2]" "\<forall>e\<in>set ?es. 7 \<le> sv_number e \<longrightarrow> evidence_ok (sv_evidence e)"
    using inv pp by (auto simp: history_inv_def period_history_def Let_def)
  have adv: "?n + 1 < 19" "ct_step t = closing_steps ! (?n + 1)" "ct_number t = ?n + 2" "6 \<le> ?n + 1 \<longrightarrow> evidence_ok (av_evidence a)"
    using advance_closing_Inr [OF t, of ?n] h(1,2) by simp_all
  have new: "period_history ?db (q\<lparr>cp_step := ct_step t, cp_status := ct_status t\<rparr>)" if "cp_id q = av_closing a" for q
  proof -
    have "map sv_resulting (?es @ [e]) = take (?n + 1) (tl closing_steps)"
      using h(3) adv(1,2) e(3) closing_steps_distinct(2) by (simp add: take_Suc_conv_app_nth nth_tl)
    moreover have "map sv_number (?es @ [e]) = [2..<(?n + 1) + 2]" using h(4) e(2) adv(3) by simp
    moreover have "\<forall>x\<in>set (?es @ [e]). 7 \<le> sv_number x \<longrightarrow> evidence_ok (sv_evidence x)"
      using h(5) e adv(3,4) by auto
    ultimately show ?thesis using that e(1) adv(1,2) by (simp add: period_history_def Let_def)
  qed
  have old: "period_history ?db q" if "q \<in> set (wf_periods db)" "cp_id q \<noteq> av_closing a" for q
  proof -
    have "filter (\<lambda>e. sv_closing e = cp_id q) (wf_events ?db) = filter (\<lambda>e. sv_closing e = cp_id q) (wf_events db)"
      using that(2) e(1) by simp
    moreover have "period_history db q" using inv that(1) by (simp add: history_inv_def)
    ultimately show ?thesis by (simp only: period_history_def)
  qed
  have "period_history ?db q" if "q \<in> set (wf_periods ?db)" for q
    using that new old by (auto split: if_splits)
  moreover have "sv_closing ` set (wf_events ?db) \<subseteq> cp_id ` set (wf_periods ?db)"
  proof -
    have ids: "cp_id ` set (wf_periods ?db) = cp_id ` set (wf_periods db)"
      unfolding update_period_simps set_map image_image by (rule image_cong) simp_all
    have events: "sv_closing ` set (wf_events ?db) = insert (sv_closing e) (sv_closing ` set (wf_events db))" by simp
    have "sv_closing e \<in> cp_id ` set (wf_periods db)" using pp e(1) by force
    moreover have "sv_closing ` set (wf_events db) \<subseteq> cp_id ` set (wf_periods db)" using inv by (simp add: history_inv_def)
    ultimately show ?thesis unfolding ids events by (simp only: insert_subset)
  qed
  ultimately show ?thesis by (simp add: history_inv_def)
qed

lemma transition_closing_history:
  assumes "history_inv db" "transition_closing c db = Inr (state, date, db')"
  shows "history_inv db'"
proof (cases "wa_action c = Reject_Closing")
  case True
  let ?db = "update_period (wa_resource c) (\<lambda>p. p\<lparr>cp_state := Blocked, cp_status := St_Anomaly, cp_checker := Some (wa_actor c)\<rparr>) db"
  have "history_inv ?db" by (rule history_update [OF assms(1)]) simp_all
  moreover have "wf_events db' = wf_events ?db" "wf_periods db' = wf_periods ?db"
    using assms(2) True by (auto simp: transition_closing_def split: option.splits if_splits)
  ultimately show ?thesis by (rule history_other)
next
  case False
  with assms(2) have db': "db' = update_period (wa_resource c) (\<lambda>p. p\<lparr>cp_state := Period_Approved, cp_checker := Some (wa_actor c)\<rparr>) db"
    by (auto simp: transition_closing_def split: option.splits if_splits)
  show ?thesis unfolding db' by (rule history_update [OF assms(1)]) simp_all
qed

lemma transition_calculation_periods:
  "transition_calculation c db = Inr (state, date, db') \<Longrightarrow> wf_events db' = wf_events db \<and> wf_periods db' = wf_periods db"
  by (auto simp: transition_calculation_def split: option.splits if_splits)

lemma workflow_step_history:
  assumes "workflow_step db db'" "history_inv db" "duties_inv db"
  shows "history_inv db'"
  using assms
proof (induction rule: workflow_step.induct)
  case (control lib q db db' st bs)
  from control(1) show ?case
  proof (rule evaluate_and_record_Inr)
    fix db1 assume a: "insert_period q db = Inr db1"
      "\<exists>k. db' = update_period (cq_closing q) (\<lambda>p. p\<lparr>cp_state := st, cp_blockers := bs, cp_checksum := k\<rparr>) db1"
    from a(2) obtain k where db': "db' = update_period (cq_closing q) (\<lambda>p. p\<lparr>cp_state := st, cp_blockers := bs, cp_checksum := k\<rparr>) db1"
      by blast
    show ?thesis unfolding db' by (rule history_update [OF insert_period_history [OF a(1) control(2)]]) simp_all
  qed
next
  case (advance a db db' t)
  from advance(1) show ?case
  proof (rule advance_atomically_Inr)
    fix p e assume e: "find_period (av_closing a) db = Some p" "sv_closing e = av_closing a"
      "advance_closing \<lparr>cl_step = cp_step p, cl_status = cp_status p, cl_cancelled = False\<rparr> (av_target a) (av_evidence a) = Inr t"
      "sv_number e = ct_number t" "sv_resulting e = ct_step t" "sv_evidence e = av_evidence a"
      and db': "db' = update_period (av_closing a) (\<lambda>p. p\<lparr>cp_step := ct_step t, cp_status := ct_status t\<rparr>)
         (db\<lparr>wf_events := wf_events db @ [e]\<rparr>)"
    show ?thesis unfolding db' by (rule advance_history [OF advance(2,3) e(1,3,2,4,5,6)])
  qed (use advance(2) in simp)
next
  case (review stamp c db db' state)
  from review(1) show ?case
  proof (rule approval_transition_Inr)
    fix date db1 assume "transition_calculation c db = Inr (state, date, db1)"
      "wf_periods db' = wf_periods db1" "wf_events db' = wf_events db1"
    with transition_calculation_periods have "wf_events db' = wf_events db" "wf_periods db' = wf_periods db" by simp_all
    then show ?thesis by (rule history_other [OF review(2)])
  next
    fix date db1 assume t: "transition_closing c db = Inr (state, date, db1)"
      "wf_periods db' = wf_periods db1" "wf_events db' = wf_events db1"
    show ?thesis by (rule history_other [OF transition_closing_history [OF review(2) t(1)] t(3,2)])
  qed (use review(2) in simp)
qed (rule history_other, simp, simp, simp)+

text \<open>
  C27. A closing goes through its steps one by one: in every reachable state the recorded events of
  a period are the steps after the opening in their order, numbered from 2 without gaps and without
  repetition, the period stands at the last of them, and no event from the provisional calculation
  on was recorded without green controls or an accepted risk for every blocking anomaly.
\<close>

theorem closing_history:
  assumes "workflow_reachable db" "p \<in> set (wf_periods db)"
  shows "\<exists>es. es = filter (\<lambda>e. sv_closing e = cp_id p) (wf_events db)
    \<and> length es < 19 \<and> cp_step p = closing_steps ! length es
    \<and> map sv_resulting es = take (length es) (tl closing_steps) \<and> map sv_number es = [2..<length es + 2]
    \<and> (\<forall>e\<in>set es. 7 \<le> sv_number e \<longrightarrow> evidence_ok (sv_evidence e))"
proof -
  from assms(1) have "history_inv db"
  proof (induction rule: workflow_reachable.induct)
    case (start db)
    then show ?case by (simp add: history_inv_def)
  next
    case (step db db')
    show ?case by (rule workflow_step_history [OF step(2,3) workflow_reachable_duties [OF step(1)]])
  qed
  with assms(2) have "period_history db p" by (simp add: history_inv_def)
  then show ?thesis by (simp add: period_history_def Let_def)
qed

definition example_request :: closing_request where
  "example_request = \<lparr>cq_closing = ''c1'', cq_date = ''2024-01-31'', cq_requested_by = ''maker'', cq_correlation = ''k''\<rparr>"

definition example_advance :: advance_command where
  "example_advance = \<lparr>av_closing = ''c1'', av_target = ''SCOPE_FREEZE'', av_actor = ''maker'',
     av_evidence = \<lparr>qe_green = False, qe_blocking = [], qe_accepted = []\<rparr>, av_key = ''key''\<rparr>"

theorem closing_history_witness:
  "\<exists>db p e. workflow_reachable db \<and> wf_periods db = [p] \<and> wf_events db = [e] \<and> sv_closing e = cp_id p
     \<and> cp_step p = closing_steps ! 1 \<and> sv_number e = 2"
proof -
  have r: "workflow_reachable empty_workflow" by (rule workflow_reachable.start) (simp_all add: empty_workflow_def)
  have "\<exists>db p bs. evaluate_and_record ordered_lib evaluate_closing_controls example_request empty_workflow = Inr (db, Blocked, bs)
     \<and> wf_periods db = [p] \<and> cp_id p = ''c1'' \<and> cp_step p = ''PERIOD_OPENING'' \<and> cp_status p = St_Draft \<and> wf_events db = []"
    by (simp add: evaluate_and_record_def insert_period_def empty_workflow_def example_request_def find_period_def
        closing_counts_def tally_def evaluate_closing_controls_def count_entries_def check_count_def count_positive_def
        count_zero_def block_if_def update_period_def)
  then obtain db p bs where c: "evaluate_and_record ordered_lib evaluate_closing_controls example_request empty_workflow = Inr (db, Blocked, bs)"
    and p: "wf_periods db = [p]" "cp_id p = ''c1''" "cp_step p = ''PERIOD_OPENING''" "cp_status p = St_Draft" and e: "wf_events db = []"
    by (elim exE conjE) (rule that)
  have r1: "workflow_reachable db" by (rule workflow_reachable.step [OF r workflow_step.control [OF c]])
  have "\<exists>db2 t. advance_atomically advance_closing example_advance db = Inr (db2, t)
     \<and> wf_periods db2 = [p\<lparr>cp_step := ''SCOPE_FREEZE'', cp_status := St_Draft\<rparr>] \<and> map sv_closing (wf_events db2) = [''c1'']"
    using p e by (simp add: advance_atomically_def example_advance_def find_period_def advance_closing_def index_of_def
        closing_steps_def status_by_step_def)
  then obtain db2 t where a: "advance_atomically advance_closing example_advance db = Inr (db2, t)"
    and q: "wf_periods db2 = [p\<lparr>cp_step := ''SCOPE_FREEZE'', cp_status := St_Draft\<rparr>]"
    and "map sv_closing (wf_events db2) = [''c1'']" by (elim exE conjE) (rule that)
  then obtain ev where ev: "wf_events db2 = [ev]" "sv_closing ev = ''c1''" by (auto simp: map_eq_Cons_conv)
  have r2: "workflow_reachable db2" by (rule workflow_reachable.step [OF r1 workflow_step.advance [OF a]])
  let ?p = "p\<lparr>cp_step := ''SCOPE_FREEZE'', cp_status := St_Draft\<rparr>"
  have id: "cp_id ?p = ''c1''" using p(2) by simp
  from closing_history [OF r2, of ?p] have "cp_step ?p = closing_steps ! 1" "map sv_number [ev] = [2..<3]"
    by (simp_all add: q ev id numeral_3_eq_3)
  with r2 q ev id show ?thesis
    by - (rule exI [of _ db2], rule exI [of _ ?p], rule exI [of _ ev], simp add: upt_rec)
qed

end
