(* ===== verification/Csv.thy ===== *)
theory Csv
  imports Money Json Js_Date
begin

text \<open>
  The CSV files of the core banking system
  (\<open>src/modules/cbs-ingestion/application/stage-investment-positions.ts\<close>): the parser
  \<open>parseCsv\<close>, the checks of a row of investment positions, and the file format they accept.
  The byte order mark \<open>parseInvestmentPositionsCsv\<close> removes is no code unit of the model.
\<close>

section \<open>The parser\<close>

abbreviation dquote :: char where
  "dquote \<equiv> CHR 0x22"

text \<open>\<open>field.replace(/\r$/, '')\<close>\<close>

definition strip_cr :: "string \<Rightarrow> string" where
  "strip_cr f = (if f \<noteq> [] \<and> List.last f = CHR 0x0D then butlast f else f)"

text \<open>The loop, with \<open>rows\<close>, \<open>row\<close>, \<open>field\<close>, \<open>quoted\<close> and the rest of the input.\<close>

fun csv_loop :: "string list list \<Rightarrow> string list \<Rightarrow> string \<Rightarrow> bool \<Rightarrow> string \<Rightarrow> string list list res" where
  "csv_loop rows row field quoted [] =
     (if quoted then Inl (TypeError ''Unterminated quoted CSV field'')
      else if field \<noteq> [] \<or> row \<noteq> [] then Inr (rows @ [row @ [strip_cr field]])
      else Inr rows)"
| "csv_loop rows row field quoted (c # cs) =
     (if quoted then
        (if c = dquote \<and> cs \<noteq> [] \<and> hd cs = dquote then csv_loop rows row (field @ [dquote]) True (tl cs)
         else if c = dquote then csv_loop rows row field False cs
         else csv_loop rows row (field @ [c]) True cs)
      else if c = dquote \<and> field = [] then csv_loop rows row field True cs
      else if c = CHR '','' then csv_loop rows (row @ [field]) [] False cs
      else if c = CHR 0x0A then csv_loop (rows @ [row @ [strip_cr field]]) [] [] False cs
      else csv_loop rows row (field @ [c]) False cs)"

definition parse_csv :: "string \<Rightarrow> string list list res" where
  "parse_csv input = csv_loop [] [] [] False input"

section \<open>Investment positions\<close>

record position_row =
  po_account :: string
  po_reference :: string
  po_product :: string
  po_currency :: string
  po_opened :: string
  po_business :: string
  po_value :: string
  po_balance :: string

definition position_columns :: "string list" where
  "position_columns = [''account_id'', ''customer_id'', ''product_code'', ''currency'', ''opened_on'', ''business_date'',
     ''value_date'', ''balance'']"

definition at_row :: "string \<Rightarrow> nat \<Rightarrow> js_error" where
  "at_row message index = TypeError (message @ '' at row '' @ digits_of (index + 2))"

definition check_iso_shapes :: "nat \<Rightarrow> (string \<times> string) list \<Rightarrow> unit res" where
  "check_iso_shapes index = each (\<lambda>(name, d).
     if \<not> iso_shape d then Inl (at_row (''Invalid '' @ name) index) else Inr ())"

definition parse_position :: "nat \<times> string list \<Rightarrow> position_row res" where
  "parse_position entry = (case entry of (index, cells) \<Rightarrow> (case cells of
       [account, reference, product, currency, opened, business, valued, balance] \<Rightarrow>
         if [] \<in> set cells then Inl (at_row ''Missing investment position value'' index)
         else if \<not> is_uuid_shape account then Inl (at_row ''Invalid account identifier'' index)
         else if \<not> dotted_name 1 128 reference then Inl (at_row ''Invalid customer identifier'' index)
         else and_then (check_iso_shapes index [(''opened_on'', opened), (''business_date'', business), (''value_date'', valued)]) (\<lambda>_.
           and_then (money_parse balance currency (Num 12)) (\<lambda>_.
           Inr \<lparr>po_account = account, po_reference = reference, po_product = product, po_currency = currency,
             po_opened = opened, po_business = business, po_value = valued, po_balance = balance\<rparr>))
     | _ \<Rightarrow> Inl (at_row ''Invalid CSV column count'' index)))"

definition parse_positions :: "string \<Rightarrow> position_row list res" where
  "parse_positions csv = and_then (parse_csv csv) (\<lambda>records. case records of
       [] \<Rightarrow> Inl (TypeError ''Unexpected investment positions CSV header'')
     | header # rest \<Rightarrow>
         if join_texts '','' header \<noteq> join_texts '','' position_columns
         then Inl (TypeError ''Unexpected investment positions CSV header'')
         else traverse parse_position (enumerate 0 (filter (\<lambda>r. r \<noteq> [[]]) rest)))"

section \<open>The file format\<close>

text \<open>
  A file as RFC 4180 writes it: fields separated by commas, a field in quotes with its quotes
  doubled or, if it has no comma, quote or line break, as it is; lines end with LF or CR LF.
\<close>

definition plain_field :: "string \<Rightarrow> bool" where
  "plain_field f \<longleftrightarrow> (\<forall>c\<in>set f. c \<noteq> dquote \<and> c \<noteq> CHR '','' \<and> c \<noteq> CHR 0x0A)"

definition double_quotes :: "string \<Rightarrow> string" where
  "double_quotes f = concat (map (\<lambda>c. if c = dquote then [dquote, dquote] else [c]) f)"

definition csv_field :: "(string \<Rightarrow> bool) \<Rightarrow> string \<Rightarrow> string" where
  "csv_field quote f = (if quote f then dquote # double_quotes f @ [dquote] else f)"

definition csv_record :: "string \<Rightarrow> (string \<Rightarrow> bool) \<Rightarrow> string list \<Rightarrow> string" where
  "csv_record eol quote fs = join_texts '','' (map (csv_field quote) fs) @ eol"

definition line_ending :: "string \<Rightarrow> bool" where
  "line_ending eol \<longleftrightarrow> eol = [CHR 0x0A] \<or> eol = [CHR 0x0D, CHR 0x0A]"

definition position_fields :: "position_row \<Rightarrow> string list" where
  "position_fields p = [po_account p, po_reference p, po_product p, po_currency p, po_opened p, po_business p,
     po_value p, po_balance p]"

definition positions_csv :: "string \<Rightarrow> (string \<Rightarrow> bool) \<Rightarrow> position_row list \<Rightarrow> string" where
  "positions_csv eol quote ps = concat (map (csv_record eol quote) (position_columns # map position_fields ps))"

lemma csv_quoted:
  assumes "rest = [] \<or> hd rest \<noteq> dquote"
  shows "csv_loop rows row field True (double_quotes f @ dquote # rest) = csv_loop rows row (field @ f) False rest"
proof (induction f arbitrary: field)
  case Nil
  with assms show ?case by (cases rest) (auto simp: double_quotes_def)
next
  case (Cons c f)
  then show ?case by (cases "c = dquote") (simp_all add: double_quotes_def)
qed

lemma csv_plain:
  "plain_field f \<Longrightarrow> csv_loop rows row field False (f @ rest) = csv_loop rows row (field @ f) False rest"
  by (induction f arbitrary: field) (auto simp: plain_field_def)

lemma csv_field_read:
  assumes "quote f \<or> plain_field f" "rest = [] \<or> hd rest \<noteq> dquote"
  shows "csv_loop rows row [] False (csv_field quote f @ rest) = csv_loop rows row f False rest"
  using assms csv_quoted [OF assms(2), of rows row "[]" f] csv_plain [of f rows row "[]" rest]
  by (auto simp: csv_field_def)

lemma csv_record_read:
  assumes "\<forall>f\<in>set fs. quote f \<or> plain_field f" "fs \<noteq> []" "line_ending eol" "strip_cr (List.last fs) = List.last fs"
  shows "csv_loop rows row [] False (csv_record eol quote fs @ rest) = csv_loop (rows @ [row @ fs]) [] [] False rest"
  using assms(1,2,4)
proof (induction fs arbitrary: row)
  case (Cons f fs)
  from Cons.prems(1) have f: "quote f \<or> plain_field f" by simp
  show ?case
  proof (cases fs)
    case Nil
    have e: "csv_record eol quote [f] @ rest = csv_field quote f @ eol @ rest" by (simp add: csv_record_def)
    have "eol @ rest = [] \<or> hd (eol @ rest) \<noteq> dquote" using assms(3) by (auto simp: line_ending_def)
    from csv_field_read [where quote = quote and f = f and rest = "eol @ rest", OF f this] have
      "csv_loop rows row [] False (csv_record eol quote [f] @ rest) = csv_loop rows row f False (eol @ rest)"
      unfolding e .
    also have "\<dots> = csv_loop (rows @ [row @ [f]]) [] [] False rest"
      using assms(3) Cons.prems(3) Nil by (auto simp: line_ending_def strip_cr_def)
    finally show ?thesis by (simp add: Nil)
  next
    case (Cons g gs)
    have e: "csv_record eol quote (f # fs) @ rest = csv_field quote f @ CHR '','' # csv_record eol quote fs @ rest"
      by (simp add: Cons csv_record_def)
    have "csv_loop rows row [] False (csv_record eol quote (f # fs) @ rest)
        = csv_loop rows row f False (CHR '','' # csv_record eol quote fs @ rest)"
      unfolding e by (rule csv_field_read [where quote = quote and f = f, OF f]) simp
    also have "\<dots> = csv_loop rows (row @ [f]) [] False (csv_record eol quote fs @ rest)" by simp
    also have "\<dots> = csv_loop (rows @ [(row @ [f]) @ fs]) [] [] False rest"
      by (rule Cons.IH) (use Cons.prems Cons in auto)
    finally show ?thesis by simp
  qed
qed simp

lemma csv_records_read:
  assumes "line_ending eol"
    "\<forall>fs\<in>set rs. (\<forall>f\<in>set fs. quote f \<or> plain_field f) \<and> fs \<noteq> [] \<and> strip_cr (List.last fs) = List.last fs"
  shows "csv_loop rows [] [] False (concat (map (csv_record eol quote) rs)) = Inr (rows @ rs)"
  using assms(2)
proof (induction rs arbitrary: rows)
  case (Cons r rs)
  from Cons.prems have "csv_loop rows [] [] False (csv_record eol quote r @ concat (map (csv_record eol quote) rs))
     = csv_loop (rows @ [[] @ r]) [] [] False (concat (map (csv_record eol quote) rs))"
    by (intro csv_record_read [OF _ _ assms(1)]) simp_all
  with Cons show ?case by simp
qed simp

section \<open>Reading back what was written\<close>

definition position_ok :: "position_row \<Rightarrow> bool" where
  "position_ok p \<longleftrightarrow> is_uuid_shape (po_account p) \<and> dotted_name 1 128 (po_reference p) \<and> po_product p \<noteq> []
     \<and> iso_shape (po_opened p) \<and> iso_shape (po_business p) \<and> iso_shape (po_value p)
     \<and> ok (money_parse (po_balance p) (po_currency p) (Num 12))"

lemma check_iso_shapes_ok: "check_iso_shapes index ds = Inr u \<longleftrightarrow> (\<forall>(name, d)\<in>set ds. iso_shape d)"
  unfolding check_iso_shapes_def each_Inr_iff by (auto simp: split_def)

lemma signed_decimal_chars:
  assumes "signed_decimal s = Some (neg, i, f)"
  shows "s \<noteq> [] \<and> (\<forall>c\<in>set s. is_digit c \<or> c = CHR ''.'' \<or> c = CHR ''-'')"
proof -
  let ?t = "if neg then tl s else s"
  have u: "unsigned_decimal ?t = Some (i, f)" and neg: "neg \<longrightarrow> s = CHR ''-'' # tl s"
    using signed_decimal_SomeD [OF assms] by (auto simp: list.expand)
  from u have t: "?t = i @ (case f of None \<Rightarrow> [] | Some g \<Rightarrow> CHR ''.'' # g)" by (simp add: unsigned_decimal_iff)
  have digits: "list_all is_digit i" "i \<noteq> []" "list_all is_digit (fraction_text f)"
    using unsigned_decimal_SomeD [OF u] by simp_all
  have "\<forall>c\<in>set ?t. is_digit c \<or> c = CHR ''.''" "?t \<noteq> []"
    using digits unfolding t by (auto simp: list_all_iff split: option.splits)
  with neg show ?thesis by (cases neg) (auto split: if_splits, metis set_ConsD)
qed

lemma money_parse_nonempty:
  assumes "ok (money_parse b c s)"
  shows "b \<noteq> [] \<and> c \<noteq> [] \<and> strip_cr b = b"
proof -
  from assms obtain neg i f where d: "signed_decimal b = Some (neg, i, f)" and c: "is_currency_code c"
    by (auto simp: money_parse_def ok_iff split: if_splits option.splits)
  have b: "b \<noteq> []" "\<forall>c\<in>set b. is_digit c \<or> c = CHR ''.'' \<or> c = CHR ''-''" using signed_decimal_chars [OF d] by simp_all
  have "List.last b \<noteq> CHR 0x0D"
  proof
    assume "List.last b = CHR 0x0D"
    with last_in_set [OF b(1)] have "CHR 0x0D \<in> set b" by simp
    with b(2) show False by (auto simp: char_class_defs)
  qed
  with c b(1) show ?thesis by (auto simp: is_currency_code_def run_of_def strip_cr_def)
qed

lemma parse_position_Inr:
  "parse_position (index, cells) = Inr p \<longleftrightarrow> cells = position_fields p \<and> position_ok p"
proof (cases "length cells = 8")
  case True
  then obtain a r d c u b v m where cells: "cells = [a, r, d, c, u, b, v, m]"
    by (auto simp: length_Suc_conv numeral_eq_Suc)
  show ?thesis
  proof
    assume run: "parse_position (index, cells) = Inr p"
    then have "p = \<lparr>po_account = a, po_reference = r, po_product = d, po_currency = c, po_opened = u, po_business = b,
        po_value = v, po_balance = m\<rparr>" "[] \<notin> set cells" "is_uuid_shape a" "dotted_name 1 128 r"
      "iso_shape u \<and> iso_shape b \<and> iso_shape v" "ok (money_parse m c (Num 12))"
      unfolding parse_position_def cells by (auto simp: outcome check_iso_shapes_ok ok_iff split: if_splits)
    then show "cells = position_fields p \<and> position_ok p" by (auto simp: position_fields_def position_ok_def cells)
  next
    assume "cells = position_fields p \<and> position_ok p"
    then have e: "cells = position_fields p" and k: "position_ok p" by simp_all
    have "[] \<notin> set (position_fields p)"
      using k money_parse_nonempty [of "po_balance p" "po_currency p" "Num 12"]
      by (auto simp: position_fields_def position_ok_def is_uuid_shape_def dotted_name_def run_of_def iso_shape_def)
    moreover from k obtain x where "money_parse (po_balance p) (po_currency p) (Num 12) = Inr x"
      by (auto simp: position_ok_def ok_iff)
    moreover have "check_iso_shapes index [(''opened_on'', po_opened p), (''business_date'', po_business p), (''value_date'', po_value p)] = Inr ()"
      using k by (simp add: check_iso_shapes_ok position_ok_def)
    ultimately show "parse_position (index, cells) = Inr p"
      using k unfolding e parse_position_def by (simp add: position_fields_def position_ok_def)
  qed
next
  case False
  then have "parse_position (index, cells) \<noteq> Inr p" by (auto simp: parse_position_def split: list.splits)
  moreover have "cells \<noteq> position_fields p" using False by (auto simp: position_fields_def)
  ultimately show ?thesis by blast
qed

lemma parsed_ok: "list_all2 (\<lambda>x p. parse_position x = Inr p) xs ps \<Longrightarrow> \<forall>p\<in>set ps. position_ok p"
  by (induction rule: list_all2_induct) (auto simp: parse_position_Inr split_paired_all)

lemma parse_positions_ok: "parse_positions csv = Inr ps \<Longrightarrow> \<forall>p\<in>set ps. position_ok p"
proof -
  assume run: "parse_positions csv = Inr ps"
  then obtain records where r: "parse_csv csv = Inr records" by (auto simp: parse_positions_def and_then_Inr)
  with run obtain header rest where "records = header # rest"
    "traverse parse_position (enumerate 0 (filter (\<lambda>r. r \<noteq> [[]]) rest)) = Inr ps"
    by (cases records) (auto simp: parse_positions_def if_throw_Inr simp del: traverse.simps)
  from this(2) show ?thesis unfolding traverse_Inr_iff by (rule parsed_ok)
qed

lemma enumerate_positions:
  "list_all2 (\<lambda>x p. parse_position x = Inr p) (enumerate n (map position_fields ps)) qs
     \<longleftrightarrow> qs = ps \<and> (\<forall>p\<in>set ps. position_ok p)"
proof (induction ps arbitrary: n qs)
  case (Cons p ps)
  have inj: "position_fields p = position_fields q \<longleftrightarrow> p = q" for p q :: position_row
    by (auto simp: position_fields_def)
  show ?case by (cases qs) (auto simp: Cons.IH parse_position_Inr inj)
qed simp

lemma parse_written:
  assumes "line_ending eol" "\<forall>f. quote f \<or> plain_field f"
    and "\<forall>p\<in>set ps. strip_cr (po_balance p) = po_balance p"
  shows "parse_positions (positions_csv eol quote ps) = Inr qs \<longleftrightarrow> qs = ps \<and> (\<forall>p\<in>set ps. position_ok p)"
proof -
  have "\<forall>fs\<in>set (position_columns # map position_fields ps).
      (\<forall>f\<in>set fs. quote f \<or> plain_field f) \<and> fs \<noteq> [] \<and> strip_cr (List.last fs) = List.last fs"
    using assms(2,3) by (auto simp: position_fields_def position_columns_def strip_cr_def)
  from csv_records_read [OF assms(1) this, of "[]"]
  have "parse_csv (positions_csv eol quote ps) = Inr (position_columns # map position_fields ps)"
    unfolding parse_csv_def positions_csv_def by simp
  moreover have "filter (\<lambda>r. r \<noteq> [[]]) (map position_fields ps) = map position_fields ps"
    by (rule filter_True) (auto simp: position_fields_def)
  ultimately show ?thesis
    by (simp add: parse_positions_def traverse_Inr_iff enumerate_positions)
qed

text \<open>
  C28. A file of investment positions is read back exactly: whichever fields are quoted (those with a
  comma, a quote or a line feed have to be) and whether lines end with LF or CR LF, the parser
  returns the written rows when each satisfies the checks of a row, and throws otherwise; and every
  row it ever returns, from any text, satisfies them.
\<close>

theorem positions_csv_round_trip:
  assumes "line_ending eol" "\<forall>f. quote f \<or> plain_field f"
    and "\<forall>p\<in>set ps. strip_cr (po_balance p) = po_balance p"
  shows "(parse_positions (positions_csv eol quote ps) = Inr ps \<longleftrightarrow> (\<forall>p\<in>set ps. position_ok p))
    \<and> (\<forall>qs. parse_positions (positions_csv eol quote ps) = Inr qs \<longrightarrow> qs = ps)
    \<and> (\<forall>csv qs. parse_positions csv = Inr qs \<longrightarrow> (\<forall>q\<in>set qs. position_ok q))"
  using parse_written [OF assms] parse_positions_ok by blast

definition example_position :: position_row where
  "example_position = \<lparr>po_account = ''0f8fad5b-d9cb-469f-a165-70867728950e'', po_reference = ''C-1'',
     po_product = ''A,\"B\"'', po_currency = ''EUR'', po_opened = ''2023-01-02'', po_business = ''2024-01-31'',
     po_value = ''2024-01-30'', po_balance = ''-12.5''\<rparr>"

lemma example_position_ok: "position_ok example_position" "strip_cr (po_balance example_position) = po_balance example_position"
  by (simp_all add: example_position_def position_ok_def is_uuid_shape_def dotted_name_def run_of_def dotted_char_def
      iso_shape_def char_class_defs money_parse_def is_currency_code_def text_eval canonical_int_def fraction_ok_def
      ok_def units_of_def pad_end_def strip_cr_def)

theorem positions_csv_round_trip_witness:
  "parse_positions (positions_csv [CHR 0x0A] (\<lambda>f. \<not> plain_field f) [example_position]) = Inr [example_position]"
  using positions_csv_round_trip [of "[CHR 0x0A]" "\<lambda>f. \<not> plain_field f" "[example_position]"] example_position_ok
  by (simp add: line_ending_def)

end
