(* ===== verification/Cbs.thy ===== *)
theory Cbs
  imports Csv Inbox
begin

text \<open>
  The ingestion of batches from the core banking system: the states of a batch
  (\<open>src/modules/cbs-ingestion/domain/batch-state.ts\<close>), the use cases of its \<open>application\<close>
  directory and the worker that runs them for a message
  (\<open>apps/ingestion-worker/src/cbs-batch-message-handler.ts\<close>).  The repositories are arguments;
  so are the landing storage, the antivirus, SHA-256, the signature verifier, the decoder of UTF-8
  and the token vault.  Bytes are characters.
\<close>

section \<open>The states of a batch\<close>

datatype batch_state = Batch_Received | Batch_Authenticated | Batch_Scanned | Batch_Staged | Batch_Validated
  | Batch_Approved | Batch_Published | Batch_Quarantined | Batch_Rejected | Batch_Partially_Rejected
  | Batch_Failed | Batch_Cancelled

definition batch_states :: "batch_state list" where
  "batch_states = [Batch_Received, Batch_Authenticated, Batch_Scanned, Batch_Staged, Batch_Validated, Batch_Approved,
     Batch_Published, Batch_Quarantined, Batch_Rejected, Batch_Partially_Rejected, Batch_Failed, Batch_Cancelled]"

definition batch_state_name :: "batch_state \<Rightarrow> string" where
  "batch_state_name s = (case s of Batch_Received \<Rightarrow> ''RECEIVED'' | Batch_Authenticated \<Rightarrow> ''AUTHENTICATED''
     | Batch_Scanned \<Rightarrow> ''SCANNED'' | Batch_Staged \<Rightarrow> ''STAGED'' | Batch_Validated \<Rightarrow> ''VALIDATED''
     | Batch_Approved \<Rightarrow> ''APPROVED'' | Batch_Published \<Rightarrow> ''PUBLISHED'' | Batch_Quarantined \<Rightarrow> ''QUARANTINED''
     | Batch_Rejected \<Rightarrow> ''REJECTED'' | Batch_Partially_Rejected \<Rightarrow> ''PARTIALLY_REJECTED''
     | Batch_Failed \<Rightarrow> ''FAILED'' | Batch_Cancelled \<Rightarrow> ''CANCELLED'')"

definition batch_transitions :: "batch_state \<Rightarrow> batch_state list" where
  "batch_transitions s = (case s of
       Batch_Received \<Rightarrow> [Batch_Authenticated, Batch_Rejected, Batch_Failed, Batch_Cancelled]
     | Batch_Authenticated \<Rightarrow> [Batch_Scanned, Batch_Quarantined, Batch_Failed, Batch_Cancelled]
     | Batch_Scanned \<Rightarrow> [Batch_Staged, Batch_Quarantined, Batch_Failed, Batch_Cancelled]
     | Batch_Staged \<Rightarrow> [Batch_Validated, Batch_Rejected, Batch_Partially_Rejected, Batch_Failed, Batch_Cancelled]
     | Batch_Validated \<Rightarrow> [Batch_Approved, Batch_Rejected, Batch_Partially_Rejected, Batch_Cancelled]
     | Batch_Approved \<Rightarrow> [Batch_Published, Batch_Failed, Batch_Cancelled]
     | _ \<Rightarrow> [])"

definition assert_batch_transition :: "batch_state \<Rightarrow> batch_state \<Rightarrow> unit res" where
  "assert_batch_transition from to =
     (if to \<notin> set (batch_transitions from)
      then Inl (Failure (''Invalid CBS batch transition: '' @ batch_state_name from @ '' -> '' @ batch_state_name to))
      else Inr ())"

text \<open>The states the worker does not touch any more.\<close>

definition batch_settled :: "batch_state \<Rightarrow> bool" where
  "batch_settled s \<longleftrightarrow> s \<in> {Batch_Published, Batch_Quarantined, Batch_Rejected, Batch_Partially_Rejected, Batch_Failed,
     Batch_Cancelled}"

section \<open>Registration\<close>

record cbs_descriptor =
  ba_batch :: string
  ba_source :: string
  ba_date :: string
  ba_flow :: string
  ba_sequence :: jsnum
  ba_schema :: jsnum
  ba_checksum :: string
  ba_object :: string
  ba_rows :: jsnum
  ba_balance :: string

definition integer_from :: "int \<Rightarrow> jsnum \<Rightarrow> bool" where
  "integer_from lo x = (case js_int x of None \<Rightarrow> False | Some n \<Rightarrow> n \<ge> lo)"

definition validate_descriptor :: "cbs_descriptor \<Rightarrow> unit res" where
  "validate_descriptor b =
     (if \<not> is_sha256_hex (ba_checksum b) then Inl (TypeError ''Invalid CBS batch checksum'')
      else if \<not> iso_shape (ba_date b) then Inl (TypeError ''Invalid CBS business date'')
      else if \<not> integer_from 0 (ba_sequence b) then Inl (TypeError ''Invalid CBS sequence'')
      else if \<not> integer_from 1 (ba_schema b) then Inl (TypeError ''Invalid CBS schema version'')
      else if \<not> integer_from 0 (ba_rows b) then Inl (TypeError ''Invalid CBS manifest row count'')
      else if \<not> short_decimal True 12 (ba_balance b) then Inl (TypeError ''Invalid CBS manifest balance total'')
      else each (\<lambda>(name, t). if blank t then Inl (TypeError (''Invalid CBS '' @ name)) else Inr ())
        [(''source'', ba_source b), (''flowType'', ba_flow b), (''objectKey'', ba_object b)])"

record registration =
  rg_created :: bool
  rg_batch :: string
  rg_state :: batch_state

definition register_batch :: "(cbs_descriptor \<Rightarrow> ('s, registration) action) \<Rightarrow> cbs_descriptor \<Rightarrow> ('s, registration) action" where
  "register_batch register_received b = and_do (lift_res (validate_descriptor b)) (\<lambda>_. register_received b)"

section \<open>Authentication of the manifest\<close>

record signed_manifest = cbs_descriptor +
  mf_signature :: string
  mf_received :: string

definition ingestion_window :: "jsnum \<Rightarrow> jsnum \<Rightarrow> (nat \<times> nat) res" where
  "ingestion_window first_hour last_hour = (case (int_between 0 23 first_hour, int_between 0 23 last_hour) of
     (Some a, Some b) \<Rightarrow> Inr (a, b)
   | _ \<Rightarrow> Inl (TypeError ''CBS ingestion window hours must be between 0 and 23''))"

definition inside_window :: "nat \<Rightarrow> nat \<times> nat \<Rightarrow> bool" where
  "inside_window hour w = (case w of (a, b) \<Rightarrow> if a \<le> b then a \<le> hour \<and> hour \<le> b else a \<le> hour \<or> hour \<le> b)"

definition canonical_manifest :: "json_lib \<Rightarrow> 'a cbs_descriptor_scheme \<Rightarrow> string" where
  "canonical_manifest lib m = stringify lib (J_Object
     [(''batchId'', J_String (ba_batch m)), (''businessDate'', J_String (ba_date m)),
      (''checksumSha256'', J_String (ba_checksum m)), (''flowType'', J_String (ba_flow m)),
      (''objectKey'', J_String (ba_object m)), (''schemaVersion'', J_Number (ba_schema m)),
      (''sequence'', J_Number (ba_sequence m)), (''source'', J_String (ba_source m)),
      (''manifestRowCount'', J_Number (ba_rows m)), (''manifestBalanceTotal'', J_String (ba_balance m))])"

definition base64_text :: "string \<Rightarrow> bool" where
  "base64_text s = (let data = takeWhile (\<lambda>c. c \<noteq> CHR ''='') s; padding = dropWhile (\<lambda>c. c \<noteq> CHR ''='') s in
     data \<noteq> [] \<and> list_all (\<lambda>c. is_alnum c \<or> c = CHR ''+'' \<or> c = CHR ''/'') data
     \<and> length padding \<le> 2 \<and> list_all (\<lambda>c. c = CHR ''='') padding)"

text \<open>\<open>Buffer.from(s, 'base64').byteLength\<close> of such a text: six bits for each character of the data.\<close>

definition base64_length :: "string \<Rightarrow> nat" where
  "base64_length s = length (takeWhile (\<lambda>c. c \<noteq> CHR ''='') s) * 6 div 8"

definition validate_manifest :: "clock_lib \<Rightarrow> signed_manifest \<Rightarrow> int res" where
  "validate_manifest clock m =
     (if \<not> base64_text (mf_signature m) then Inl (TypeError ''Invalid CBS signature encoding'')
      else case date_parse clock (mf_received m) of
        None \<Rightarrow> Inl (TypeError ''Invalid CBS reception timestamp'')
      | Some t \<Rightarrow> if print_instant clock t \<noteq> mf_received m then Inl (TypeError ''Invalid CBS reception timestamp'')
          else Inr t)"

definition utc_hours :: "int \<Rightarrow> nat" where
  "utc_hours t = nat (t div 3600000 mod 24)"

definition authenticate_manifest ::
  "json_lib \<Rightarrow> clock_lib \<Rightarrow> (string \<Rightarrow> string \<Rightarrow> string \<Rightarrow> bool res)
     \<Rightarrow> (string \<Rightarrow> batch_state \<Rightarrow> string option \<Rightarrow> ('s, unit) action) \<Rightarrow> nat \<times> nat \<Rightarrow> signed_manifest
     \<Rightarrow> ('s, batch_state) action" where
  "authenticate_manifest lib clock verify record_authentication window m =
     and_do (lift_res (validate_manifest clock m)) (\<lambda>received.
     if \<not> inside_window (utc_hours received) window
     then and_do (record_authentication (ba_batch m) Batch_Rejected (Some ''OUTSIDE_INGESTION_WINDOW'')) (\<lambda>_. give Batch_Rejected)
     else and_do (if base64_length (mf_signature m) < 32 then give False
          else lift_res (verify (canonical_manifest lib m) (mf_signature m) (ba_source m))) (\<lambda>verified.
       if \<not> verified
       then and_do (record_authentication (ba_batch m) Batch_Rejected (Some ''INVALID_SOURCE_SIGNATURE'')) (\<lambda>_. give Batch_Rejected)
       else and_do (record_authentication (ba_batch m) Batch_Authenticated None) (\<lambda>_. give Batch_Authenticated)))"

section \<open>Scanning\<close>

record document_content =
  dc_bytes :: string
  dc_filename :: string
  dc_media_type :: string

record scan_result =
  sc_clean :: bool
  sc_signature :: "string option"

text \<open>\<open>Some content\<close> is the state SCANNED, \<open>None\<close> is QUARANTINED.\<close>

definition malware_reason :: "string option \<Rightarrow> string" where
  "malware_reason found = (case found of None \<Rightarrow> ''MALWARE'' | Some s \<Rightarrow> if s = [] then ''MALWARE'' else ''MALWARE:'' @ s)"

definition scan_batch ::
  "(string \<Rightarrow> document_content res) \<Rightarrow> (string \<Rightarrow> string) \<Rightarrow> (document_content \<Rightarrow> scan_result res)
     \<Rightarrow> (string \<Rightarrow> batch_state \<Rightarrow> batch_state \<Rightarrow> string option \<Rightarrow> ('s, unit) action) \<Rightarrow> cbs_descriptor
     \<Rightarrow> ('s, document_content option) action" where
  "scan_batch load digest antivirus transition b =
     and_do (lift_res (load (ba_object b))) (\<lambda>content.
     if digest (dc_bytes content) \<noteq> ba_checksum b
     then and_do (transition (ba_batch b) Batch_Authenticated Batch_Quarantined (Some ''CHECKSUM_MISMATCH'')) (\<lambda>_. give None)
     else and_do (lift_res (antivirus content)) (\<lambda>found.
       if \<not> sc_clean found
       then and_do (transition (ba_batch b) Batch_Authenticated Batch_Quarantined (Some (malware_reason (sc_signature found))))
         (\<lambda>_. give None)
       else and_do (transition (ba_batch b) Batch_Authenticated Batch_Scanned None) (\<lambda>_. give (Some content))))"

section \<open>Staging\<close>

definition stage_positions ::
  "(string \<Rightarrow> string res) \<Rightarrow> (string \<Rightarrow> position_row list \<Rightarrow> ('s, unit) action) \<Rightarrow> string \<Rightarrow> document_content
     \<Rightarrow> ('s, nat) action" where
  "stage_positions decode stage batch content =
     (if dc_media_type content \<noteq> ''text/csv'' \<and> dc_media_type content \<noteq> ''application/csv''
      then throw (TypeError ''Investment positions batch must be CSV'')
      else and_do (lift_res (and_then (decode (dc_bytes content)) parse_positions)) (\<lambda>rows.
        if length rows = 0 then throw (TypeError ''Investment positions batch is empty'')
        else and_do (stage batch rows) (\<lambda>_. give (length rows))))"

section \<open>Validation\<close>

record inspection =
  in_rows :: int
  in_invalid_dates :: int
  in_manifest_rows :: int
  in_manifest_balance :: string
  in_staged_balance :: string
  in_unknown_currencies :: int
  in_unknown_products :: int
  in_invalid_chronology :: int

text \<open>\<open>BigInt\<close> of a text of digits; the empty text is zero.\<close>

definition digits_int :: "string \<Rightarrow> int res" where
  "digits_int s = (if list_all is_digit s then Inr (int (nat_of_digits s)) else Inl (SyntaxError ''Cannot convert to a BigInt''))"

text \<open>\<open>scale\<close> of \<open>decimalEqual\<close>: the parts of \<open>split('.')\<close> after the second are ignored.\<close>

definition scaled_text :: "string \<Rightarrow> int res" where
  "scaled_text t = (let negative = t \<noteq> [] \<and> hd t = CHR ''-''; unsigned = (if negative then tl t else t);
     whole = takeWhile (\<lambda>c. c \<noteq> CHR ''.'') unsigned;
     fraction = takeWhile (\<lambda>c. c \<noteq> CHR ''.'') (drop (length whole + 1) unsigned) in
     and_then (digits_int whole) (\<lambda>w. and_then (digits_int (pad_end 12 fraction)) (\<lambda>f.
     let result = w * 1000000000000 + f in Inr (if negative then - result else result))))"

definition decimal_equal :: "string \<Rightarrow> string \<Rightarrow> bool res" where
  "decimal_equal a b = and_then (scaled_text a) (\<lambda>x. and_then (scaled_text b) (\<lambda>y. Inr (x = y)))"

definition failure_if :: "bool \<Rightarrow> string \<Rightarrow> string list" where
  "failure_if b name = (if b then [name] else [])"

definition validation_failures :: "inspection \<Rightarrow> string list res" where
  "validation_failures r = and_then (decimal_equal (in_staged_balance r) (in_manifest_balance r)) (\<lambda>same. Inr
     (failure_if (in_rows r = 0) ''EMPTY_BATCH'' @ failure_if (in_invalid_dates r > 0) ''BUSINESS_DATE_MISMATCH''
      @ failure_if (in_rows r \<noteq> in_manifest_rows r) ''MANIFEST_ROW_COUNT_MISMATCH''
      @ failure_if (\<not> same) ''MANIFEST_BALANCE_MISMATCH'' @ failure_if (in_unknown_currencies r > 0) ''UNKNOWN_CURRENCY''
      @ failure_if (in_unknown_products r > 0) ''UNKNOWN_PRODUCT''
      @ failure_if (in_invalid_chronology r > 0) ''INVALID_DATE_CHRONOLOGY''))"

definition validate_positions ::
  "(string \<Rightarrow> string \<Rightarrow> ('s, inspection) action) \<Rightarrow> (string \<Rightarrow> string \<Rightarrow> ('s, int) action)
     \<Rightarrow> (string \<Rightarrow> batch_state \<Rightarrow> string option \<Rightarrow> ('s, unit) action) \<Rightarrow> string \<Rightarrow> string
     \<Rightarrow> ('s, batch_state) action" where
  "validate_positions inspect quarantine record_decision batch date =
     and_do (inspect batch date) (\<lambda>found. and_do (lift_res (validation_failures found)) (\<lambda>failures.
     if length failures > 0
     then and_do (quarantine batch date) (\<lambda>_.
       and_do (record_decision batch Batch_Rejected (Some (join_texts '','' failures))) (\<lambda>_. give Batch_Rejected))
     else and_do (record_decision batch Batch_Validated None) (\<lambda>_. give Batch_Validated)))"

section \<open>Publication\<close>

text \<open>A column that may be null gives \<open>None\<close>; \<open>new Set\<close> keeps the first of equal values.\<close>

fun first_occurrences :: "'a list \<Rightarrow> 'a list" where
  "first_occurrences [] = []"
| "first_occurrences (x # xs) = x # filter (\<lambda>y. y \<noteq> x) (first_occurrences xs)"

definition publish_positions ::
  "(string \<Rightarrow> ('s, bool) action) \<Rightarrow> (string \<Rightarrow> ('s, string option list) action)
     \<Rightarrow> (string option list \<Rightarrow> string \<Rightarrow> string \<Rightarrow> string list res)
     \<Rightarrow> (string \<Rightarrow> (string option \<times> string) list \<Rightarrow> ('s, nat) action) \<Rightarrow> string \<Rightarrow> string \<Rightarrow> ('s, nat) action" where
  "publish_positions is_published customer_references tokenize publish batch correlation =
     and_do (is_published batch) (\<lambda>already.
     if already then give 0
     else and_do (customer_references batch) (\<lambda>references.
       let unique = first_occurrences references in
       and_do (lift_res (tokenize unique batch correlation)) (\<lambda>tokens.
       if length tokens \<noteq> length unique then throw (Failure ''Token Vault returned an incomplete CBS batch'')
       else publish batch (new_map (zip unique tokens)))))"

section \<open>The worker\<close>

definition cbs_field_error :: "string \<Rightarrow> js_error" where
  "cbs_field_error name = TypeError (''Invalid CBS event field: '' @ name)"

definition string_field :: "(string \<times> json) list \<Rightarrow> string \<Rightarrow> string res" where
  "string_field payload name = (case map_of payload name of
     Some (J_String t) \<Rightarrow> if t = [] then Inl (cbs_field_error name) else Inr t
   | _ \<Rightarrow> Inl (cbs_field_error name))"

definition integer_field :: "(string \<times> json) list \<Rightarrow> string \<Rightarrow> jsnum res" where
  "integer_field payload name = (case map_of payload name of
     Some (J_Number x) \<Rightarrow> if js_int x = None then Inl (cbs_field_error name) else Inr x
   | _ \<Rightarrow> Inl (cbs_field_error name))"

definition read_descriptor :: "outbox_message \<Rightarrow> cbs_descriptor res" where
  "read_descriptor m = (let p = ms_payload m in
     and_then (string_field p ''batchId'') (\<lambda>batch. and_then (string_field p ''source'') (\<lambda>source.
     and_then (string_field p ''businessDate'') (\<lambda>date. and_then (string_field p ''flowType'') (\<lambda>flow.
     and_then (integer_field p ''sequence'') (\<lambda>sequence. and_then (string_field p ''checksumSha256'') (\<lambda>checksum.
     and_then (string_field p ''objectKey'') (\<lambda>object. and_then (integer_field p ''manifestRowCount'') (\<lambda>rows.
     and_then (string_field p ''manifestBalanceTotal'') (\<lambda>balance.
     Inr \<lparr>ba_batch = batch, ba_source = source, ba_date = date, ba_flow = flow, ba_sequence = sequence,
       ba_schema = of_js (ms_schema_version m), ba_checksum = checksum, ba_object = object, ba_rows = rows,
       ba_balance = balance\<rparr>))))))))))"

text \<open>The use cases the worker was built with; all but the first are optional.\<close>

record 's cbs_worker =
  wk_register :: "cbs_descriptor \<Rightarrow> ('s, registration) action"
  wk_scan :: "(cbs_descriptor \<Rightarrow> ('s, document_content option) action) option"
  wk_stage :: "(string \<Rightarrow> document_content \<Rightarrow> ('s, nat) action) option"
  wk_validate :: "(string \<Rightarrow> string \<Rightarrow> ('s, batch_state) action) option"
  wk_publish :: "(string \<Rightarrow> string \<Rightarrow> ('s, nat) action) option"
  wk_authenticate :: "(signed_manifest \<Rightarrow> ('s, batch_state) action) option"

text \<open>The call of an optional use case that has to be there.\<close>

definition required_case :: "'f option \<Rightarrow> string \<Rightarrow> ('f \<Rightarrow> ('s, 'a) action) \<Rightarrow> ('s, 'a) action" where
  "required_case w message run = (case w of None \<Rightarrow> throw (Failure (message @ '' is not configured'')) | Some f \<Rightarrow> run f)"

definition authenticate_step :: "'s cbs_worker \<Rightarrow> outbox_message \<Rightarrow> cbs_descriptor \<Rightarrow> batch_state \<Rightarrow> ('s, batch_state option) action" where
  "authenticate_step w m b state =
     (if state \<noteq> Batch_Received then give None
      else required_case (wk_authenticate w) ''CBS manifest authentication'' (\<lambda>authenticate.
        and_do (lift_res (string_field (ms_payload m) ''signatureBase64'')) (\<lambda>signature.
        and_do (lift_res (string_field (ms_payload m) ''receivedAt'')) (\<lambda>received.
        and_do (authenticate (cbs_descriptor.extend b (signed_manifest.fields signature received))) (\<lambda>r. give (Some r))))))"

definition scan_step ::
  "'s cbs_worker \<Rightarrow> cbs_descriptor \<Rightarrow> registration \<Rightarrow> batch_state option \<Rightarrow> ('s, document_content option) action" where
  "scan_step w b r authentication =
     (if rg_state r = Batch_Authenticated \<or> authentication = Some Batch_Authenticated \<or> rg_state r = Batch_Scanned
      then (case wk_scan w of None \<Rightarrow> give None | Some scan \<Rightarrow> scan (b\<lparr>ba_batch := rg_batch r\<rparr>))
      else give None)"

definition publish_step :: "'s cbs_worker \<Rightarrow> outbox_message \<Rightarrow> string \<Rightarrow> ('s, unit) action" where
  "publish_step w m batch = required_case (wk_publish w) ''Investment positions publication'' (\<lambda>publish.
     and_do (publish batch (ms_correlation m)) (\<lambda>_. give ()))"

definition positions_flow :: "cbs_descriptor \<Rightarrow> bool" where
  "positions_flow b \<longleftrightarrow> ba_flow b = ''INVESTMENT_POSITIONS''"

definition stage_step :: "'s cbs_worker \<Rightarrow> cbs_descriptor \<Rightarrow> registration \<Rightarrow> document_content option \<Rightarrow> ('s, unit) action" where
  "stage_step w b r scanned = (case scanned of
       Some content \<Rightarrow>
         if positions_flow b then required_case (wk_stage w) ''Investment positions staging'' (\<lambda>stage.
           and_do (stage (rg_batch r) content) (\<lambda>_. give ()))
         else give ()
     | None \<Rightarrow> give ())"

definition validate_step ::
  "'s cbs_worker \<Rightarrow> outbox_message \<Rightarrow> cbs_descriptor \<Rightarrow> registration \<Rightarrow> document_content option \<Rightarrow> ('s, unit) action" where
  "validate_step w m b r scanned =
     (if positions_flow b \<and> (rg_state r = Batch_Staged \<or> scanned \<noteq> None)
      then required_case (wk_validate w) ''Investment positions validation'' (\<lambda>validate.
        and_do (validate (rg_batch r) (ba_date b)) (\<lambda>validation.
        if validation = Batch_Validated then publish_step w m (rg_batch r) else give ()))
      else give ())"

definition resume_step :: "'s cbs_worker \<Rightarrow> outbox_message \<Rightarrow> cbs_descriptor \<Rightarrow> registration \<Rightarrow> ('s, unit) action" where
  "resume_step w m b r =
     (if positions_flow b \<and> (rg_state r = Batch_Validated \<or> rg_state r = Batch_Approved)
      then publish_step w m (rg_batch r) else give ())"

definition process_batch :: "'s cbs_worker \<Rightarrow> outbox_message \<Rightarrow> ('s, string option) action" where
  "process_batch w m =
     and_do (lift_res (read_descriptor m)) (\<lambda>b. and_do (wk_register w b) (\<lambda>r.
     if batch_settled (rg_state r) then give None
     else and_do (authenticate_step w m b (rg_state r)) (\<lambda>authentication.
       if authentication = Some Batch_Rejected then give None
       else and_do (scan_step w b r authentication) (\<lambda>scanned.
         and_do (stage_step w b r scanned) (\<lambda>_. and_do (validate_step w m b r scanned) (\<lambda>_.
         and_do (resume_step w m b r) (\<lambda>_. give None)))))))"

definition handle_cbs_message ::
  "(string \<Rightarrow> outbox_message \<Rightarrow> ('s, bool) action) \<Rightarrow> (string \<Rightarrow> string \<Rightarrow> string option \<Rightarrow> ('s, unit) action)
     \<Rightarrow> (string \<Rightarrow> string \<Rightarrow> ('s, unit) action) \<Rightarrow> 's cbs_worker \<Rightarrow> outbox_message \<Rightarrow> ('s, consumption) action" where
  "handle_cbs_message start finish abandon w m = handle_message start finish abandon ''ingestion-worker'' m (process_batch w)"

end
