(* ===== verification/Sql.thy ===== *)
theory Sql
  imports Accounting_Store Js_Date
begin

text \<open>
  How PostgreSQL reads the texts the repositories hand over: casts to \<open>uuid\<close>, \<open>date\<close> and the
  integer types.  The database's reading of a UUID, which also puts it into lower case, is a
  parameter; what is printed reads back as itself (\<open>uuid_laws\<close>).
\<close>

definition uuid_error :: js_error where
  "uuid_error = Failure ''invalid input syntax for type uuid''"

definition as_uuid :: "(string \<Rightarrow> string option) \<Rightarrow> string \<Rightarrow> string res" where
  "as_uuid uuid s = (case uuid s of None \<Rightarrow> Inl uuid_error | Some t \<Rightarrow> Inr t)"

text \<open>A text as a date of the database; its calendar has no year zero.\<close>

definition as_date :: "string \<Rightarrow> string res" where
  "as_date s = (if calendar_date s \<and> iso_year s > 0 then Inr s else Inl (Failure ''date/time field value out of range''))"

definition as_integer :: "nat \<Rightarrow> jsnum \<Rightarrow> int res" where
  "as_integer bits x = (case js_int x of
     None \<Rightarrow> Inl (Failure ''invalid input syntax for type integer'')
   | Some n \<Rightarrow> if - (2 ^ (bits - 1)) \<le> n \<and> n < 2 ^ (bits - 1) then Inr n else Inl (Failure ''value out of range''))"

text \<open>A text cast to \<open>numeric(p,s)\<close>, in units of \<open>10 ^ -s\<close>.\<close>

definition numeric_cast :: "nat \<Rightarrow> nat \<Rightarrow> string \<Rightarrow> int res" where
  "numeric_cast p s text = (case decimal_value text of
     None \<Rightarrow> Inl (Failure ''invalid input syntax for type numeric'')
   | Some q \<Rightarrow> let u = round_away (q * 10 ^ s) in
       if \<bar>u\<bar> < 10 ^ p then Inr u else Inl (Failure ''numeric field overflow''))"

text \<open>An optional column: \<open>NULL\<close> stays \<open>NULL\<close>.\<close>

definition nullable :: "('a \<Rightarrow> 'b res) \<Rightarrow> 'a option \<Rightarrow> 'b option res" where
  "nullable cast v = (case v of None \<Rightarrow> Inr None | Some x \<Rightarrow> and_then (cast x) (\<lambda>y. Inr (Some y)))"

definition uuid_laws :: "(string \<Rightarrow> string option) \<Rightarrow> bool" where
  "uuid_laws uuid \<longleftrightarrow> (\<forall>s t. uuid s = Some t \<longrightarrow> uuid t = Some t)"

text \<open>The canonical text of an accepted UUID is accepted again.\<close>

definition uuid_texts :: "(string \<Rightarrow> string option) \<Rightarrow> bool" where
  "uuid_texts uuid \<longleftrightarrow> (\<forall>s t. is_uuid s \<longrightarrow> uuid s = Some t \<longrightarrow> is_uuid t)"

lemma as_simps:
  "as_uuid uuid t = Inr i \<longleftrightarrow> uuid t = Some i" "as_date d = Inr e \<longleftrightarrow> e = d \<and> calendar_date d \<and> iso_year d > 0"
  by (auto simp: as_uuid_def as_date_def split: option.splits)

lemma as_integer_Inr: "as_integer k x = Inr n \<Longrightarrow> js_int x = Some n"
  by (auto simp: as_integer_def split: option.splits if_splits)

end
