(* ===== verification/Cbs_Store.thy ===== *)
theory Cbs_Store
  imports Cbs Sql
begin

text \<open>
  The tables of the ingestion and the repositories on them: the batches
  (\<open>postgres-cbs-batch.repository.ts\<close>), the staged positions
  (\<open>postgres-investment-position-staging\<close>, \<open>-validation\<close> and \<open>-publication.repository.ts\<close>),
  with the guards the database puts on a change of state, and the worker built on them
  (\<open>apps/ingestion-worker/src/main.ts\<close>).  Amounts are counted in units of the twelfth decimal.
  The database's reading of a UUID is the parameter \<open>uuid\<close>.
\<close>

section \<open>The tables\<close>

record cbs_row =
  cb_id :: string
  cb_source :: string
  cb_date :: string
  cb_flow :: string
  cb_sequence :: int
  cb_schema :: int
  cb_checksum :: string
  cb_object :: string
  cb_rows :: int
  cb_balance :: int
  cb_state :: batch_state
  cb_reason :: "string option"

record staged_row =
  sx_batch :: string
  sx_number :: nat
  sx_account :: string
  sx_reference :: "string option"
  sx_token :: "string option"
  sx_product :: string
  sx_currency :: string
  sx_opened :: string
  sx_business :: string
  sx_value :: string
  sx_balance :: int

record account_row =
  iv_id :: string
  iv_token :: string
  iv_product :: string
  iv_currency :: string
  iv_opened :: string

record snapshot_row =
  sn_account :: string
  sn_business :: string
  sn_value :: string
  sn_currency :: string
  sn_balance :: int
  sn_batch :: string

record cbs_db = inbox_db +
  cb_batches :: "cbs_row list"
  cb_history :: "(string \<times> batch_state \<times> batch_state) list"
  cb_staging :: "staged_row list"
  cb_accounts :: "account_row list"
  cb_snapshots :: "snapshot_row list"
  cb_outbox :: "outbox_message list"
  cb_currencies :: "(string \<times> string \<times> string option) list"
  cb_products :: "string list"
  cb_blocked :: "string list"

definition find_batch :: "string \<Rightarrow> cbs_db \<Rightarrow> cbs_row option" where
  "find_batch i db = find (\<lambda>b. cb_id b = i) (cb_batches db)"

definition staged_of :: "string \<Rightarrow> cbs_db \<Rightarrow> staged_row list" where
  "staged_of i db = filter (\<lambda>r. sx_batch r = i) (cb_staging db)"

section \<open>Batches\<close>

text \<open>
  \<open>UPDATE integration.cbs_batch SET state = ... WHERE batch_id = ... AND state IN (...)\<close> with the
  triggers of the table; the number of rows it changed.
\<close>

definition set_batch_state ::
  "string \<Rightarrow> batch_state list \<Rightarrow> batch_state \<Rightarrow> (string option \<Rightarrow> string option) \<Rightarrow> cbs_db \<Rightarrow> (nat \<times> cbs_db) res" where
  "set_batch_state i from to reason db = (case find (\<lambda>b. cb_id b = i \<and> cb_state b \<in> set from) (cb_batches db) of
     None \<Rightarrow> Inr (0, db)
   | Some old \<Rightarrow>
       and_then (if cb_state old = to then Inr () else assert_batch_transition (cb_state old) to) (\<lambda>_.
       if cb_state old \<noteq> to \<and> to = Batch_Published \<and> i \<in> set (cb_blocked db)
       then Inl (Failure ''Publication blocked by unresolved critical exception'')
       else Inr (1, db\<lparr>cb_batches := map (\<lambda>b. if cb_id b = i then b\<lparr>cb_state := to, cb_reason := reason (cb_reason b)\<rparr> else b)
             (cb_batches db),
           cb_history := cb_history db @ (if cb_state old = to then [] else [(i, cb_state old, to)])\<rparr>)))"

definition replay_key :: "cbs_row \<Rightarrow> string \<times> string \<times> string \<times> int" where
  "replay_key b = (cb_source b, cb_date b, cb_flow b, cb_sequence b)"

definition insert_received :: "cbs_row \<Rightarrow> cbs_db \<Rightarrow> (registration \<times> cbs_db) res" where
  "insert_received row db = (case find (\<lambda>s. replay_key s = replay_key row) (cb_batches db) of
     Some s \<Rightarrow>
       if cb_checksum s \<noteq> cb_checksum row \<or> cb_object s \<noteq> cb_object row
       then Inl (Failure ''CBS replay key conflicts with a different payload'')
       else Inr (\<lparr>rg_created = False, rg_batch = cb_id s, rg_state = cb_state s\<rparr>, db)
   | None \<Rightarrow>
       if cb_id row \<in> cb_id ` set (cb_batches db) then Inl unique_violation
       else Inr (\<lparr>rg_created = True, rg_batch = cb_id row, rg_state = cb_state row\<rparr>,
         db\<lparr>cb_batches := cb_batches db @ [row]\<rparr>))"

definition received_row :: "(string \<Rightarrow> string option) \<Rightarrow> cbs_descriptor \<Rightarrow> cbs_row res" where
  "received_row uuid b =
     and_then (as_uuid uuid (ba_batch b)) (\<lambda>i. and_then (as_date (ba_date b)) (\<lambda>date.
     and_then (as_integer 64 (ba_sequence b)) (\<lambda>sequence. and_then (as_integer 32 (ba_schema b)) (\<lambda>schema.
     and_then (as_integer 32 (ba_rows b)) (\<lambda>rows. and_then (numeric_of 30 (ba_balance b)) (\<lambda>balance.
     Inr \<lparr>cb_id = i, cb_source = ba_source b, cb_date = date, cb_flow = ba_flow b, cb_sequence = sequence,
       cb_schema = schema, cb_checksum = ba_checksum b, cb_object = ba_object b, cb_rows = rows,
       cb_balance = balance, cb_state = Batch_Received, cb_reason = None\<rparr>))))))"

definition register_received :: "(string \<Rightarrow> string option) \<Rightarrow> cbs_descriptor \<Rightarrow> cbs_db \<Rightarrow> (registration \<times> cbs_db) res" where
  "register_received uuid b db = and_then (received_row uuid b) (\<lambda>row. insert_received row db)"

text \<open>A change of state that has to reach exactly one row.\<close>

definition move_batch ::
  "(string \<Rightarrow> string option) \<Rightarrow> string \<Rightarrow> batch_state list \<Rightarrow> batch_state \<Rightarrow> (string option \<Rightarrow> string option) \<Rightarrow> string
     \<Rightarrow> cbs_db \<Rightarrow> (unit \<times> cbs_db) res" where
  "move_batch uuid batch from to reason problem db =
     and_then (as_uuid uuid batch) (\<lambda>i. and_then (set_batch_state i from to reason db) (\<lambda>(n, db').
     if n \<noteq> 1 then Inl (Failure (''CBS batch '' @ batch @ problem)) else Inr ((), db')))"

definition transition_batch ::
  "(string \<Rightarrow> string option) \<Rightarrow> string \<Rightarrow> batch_state \<Rightarrow> batch_state \<Rightarrow> string option \<Rightarrow> cbs_db \<Rightarrow> (unit \<times> cbs_db) res" where
  "transition_batch uuid batch expected to reason =
     move_batch uuid batch [expected, to] to (\<lambda>_. reason) ('' is no longer in '' @ batch_state_name expected)"

definition record_authentication ::
  "(string \<Rightarrow> string option) \<Rightarrow> string \<Rightarrow> batch_state \<Rightarrow> string option \<Rightarrow> cbs_db \<Rightarrow> (unit \<times> cbs_db) res" where
  "record_authentication uuid batch result reason = transition_batch uuid batch Batch_Received result reason"

section \<open>Staging\<close>

definition normalize_decimal :: "string \<Rightarrow> string" where
  "normalize_decimal t = (let whole = takeWhile (\<lambda>c. c \<noteq> CHR ''.'') t;
     fraction = takeWhile (\<lambda>c. c \<noteq> CHR ''.'') (drop (length whole + 1) t);
     kept = rev (dropWhile (\<lambda>c. c = CHR ''0'') (rev fraction)) in
     if kept \<noteq> [] then whole @ CHR ''.'' # kept else whole)"

definition staged_differs :: "staged_row \<Rightarrow> position_row \<Rightarrow> bool" where
  "staged_differs s p \<longleftrightarrow> sx_reference s \<noteq> Some (po_reference p) \<or> sx_product s \<noteq> po_product p
     \<or> sx_account s \<noteq> po_account p \<or> sx_currency s \<noteq> po_currency p \<or> sx_opened s \<noteq> po_opened p
     \<or> sx_business s \<noteq> po_business p \<or> sx_value s \<noteq> po_value p
     \<or> normalize_decimal (numeric_text (sx_balance s)) \<noteq> normalize_decimal (po_balance p)"

definition staged_key :: "staged_row \<Rightarrow> string \<times> string \<times> string \<times> string" where
  "staged_key r = (sx_batch r, sx_account r, sx_business r, sx_value r)"

definition stage_row :: "(string \<Rightarrow> string option) \<Rightarrow> string \<Rightarrow> nat \<times> position_row \<Rightarrow> cbs_db \<Rightarrow> cbs_db res" where
  "stage_row uuid i entry db = (case entry of (index, p) \<Rightarrow>
     and_then (as_uuid uuid (po_account p)) (\<lambda>account. and_then (as_date (po_opened p)) (\<lambda>opened.
     and_then (as_date (po_business p)) (\<lambda>business. and_then (as_date (po_value p)) (\<lambda>valued.
     and_then (numeric_of 30 (po_balance p)) (\<lambda>balance.
     let conflict = Failure (''CBS staging replay conflict at row '' @ digits_of (index + 1));
       row = \<lparr>sx_batch = i, sx_number = index + 1, sx_account = account, sx_reference = Some (po_reference p), sx_token = None,
         sx_product = po_product p, sx_currency = po_currency p, sx_opened = opened, sx_business = business,
         sx_value = valued, sx_balance = balance\<rparr> in
     case find (\<lambda>s. sx_batch s = i \<and> sx_number s = index + 1) (cb_staging db) of
       Some s \<Rightarrow> if staged_differs s p then Inl conflict else Inr db
     | None \<Rightarrow>
         if find_batch i db = None then Inl (Failure ''violates foreign key constraint'')
         else if staged_key row \<in> staged_key ` set (cb_staging db) then Inl unique_violation
         else if staged_differs row p then Inl conflict
         else Inr (db\<lparr>cb_staging := cb_staging db @ [row]\<rparr>)))))))"

fun stage_rows :: "(string \<Rightarrow> string option) \<Rightarrow> string \<Rightarrow> (nat \<times> position_row) list \<Rightarrow> cbs_db \<Rightarrow> cbs_db res" where
  "stage_rows uuid i [] db = Inr db"
| "stage_rows uuid i (e # es) db = and_then (stage_row uuid i e db) (stage_rows uuid i es)"

definition stage_batch :: "(string \<Rightarrow> string option) \<Rightarrow> string \<Rightarrow> position_row list \<Rightarrow> cbs_db \<Rightarrow> (unit \<times> cbs_db) res" where
  "stage_batch uuid batch ps db =
     and_then (as_uuid uuid batch) (\<lambda>i. and_then (stage_rows uuid i (enumerate 0 ps) db) (\<lambda>db'.
     move_batch uuid batch [Batch_Scanned, Batch_Staged] Batch_Staged (\<lambda>r. r) '' is not ready for staging'' db'))"

section \<open>Validation\<close>

definition known_currency :: "cbs_db \<Rightarrow> staged_row \<Rightarrow> bool" where
  "known_currency db r \<longleftrightarrow> (\<exists>(currency, from, until)\<in>set (cb_currencies db). currency = sx_currency r
     \<and> str_le from (sx_business r) \<and> (case until of None \<Rightarrow> True | Some u \<Rightarrow> str_less (sx_business r) u))"

definition chronology_broken :: "staged_row \<Rightarrow> bool" where
  "chronology_broken r \<longleftrightarrow> str_less (sx_value r) (sx_opened r) \<or> str_less (sx_business r) (sx_value r)"

definition row_tally :: "('a \<Rightarrow> bool) \<Rightarrow> 'a list \<Rightarrow> int" where
  "row_tally P xs = int (length (filter P xs))"

definition inspect_batch :: "(string \<Rightarrow> string option) \<Rightarrow> string \<Rightarrow> string \<Rightarrow> cbs_db \<Rightarrow> inspection res" where
  "inspect_batch uuid batch expected db = and_then (as_uuid uuid batch) (\<lambda>i. and_then (as_date expected) (\<lambda>date.
     let rows = staged_of i db in
     Inr (case find_batch i db of
       None \<Rightarrow> \<lparr>in_rows = 0, in_invalid_dates = 0, in_manifest_rows = 0, in_manifest_balance = ''0'', in_staged_balance = ''0'',
         in_unknown_currencies = 0, in_unknown_products = 0, in_invalid_chronology = 0\<rparr>
     | Some b \<Rightarrow> \<lparr>in_rows = int (length rows), in_invalid_dates = row_tally (\<lambda>r. sx_business r \<noteq> date) rows,
         in_manifest_rows = cb_rows b, in_manifest_balance = numeric_text (cb_balance b),
         in_staged_balance = (if rows = [] then ''0'' else numeric_text (sum_list (map sx_balance rows))),
         in_unknown_currencies = row_tally (\<lambda>r. \<not> known_currency db r) rows,
         in_unknown_products = row_tally (\<lambda>r. sx_product r \<notin> set (cb_products db)) rows,
         in_invalid_chronology = row_tally chronology_broken rows\<rparr>)))"

definition record_decision ::
  "(string \<Rightarrow> string option) \<Rightarrow> string \<Rightarrow> batch_state \<Rightarrow> string option \<Rightarrow> cbs_db \<Rightarrow> (unit \<times> cbs_db) res" where
  "record_decision uuid batch decision reason =
     move_batch uuid batch [Batch_Staged, decision] decision (\<lambda>_. reason) '' is not staged''"

section \<open>Publication\<close>

definition batch_published :: "(string \<Rightarrow> string option) \<Rightarrow> string \<Rightarrow> cbs_db \<Rightarrow> bool res" where
  "batch_published uuid batch db = and_then (as_uuid uuid batch) (\<lambda>i.
     Inr (map_option cb_state (find_batch i db) = Some Batch_Published))"

definition batch_references ::
  "(string \<Rightarrow> string option) \<Rightarrow> (string option \<Rightarrow> string option \<Rightarrow> int) \<Rightarrow> string \<Rightarrow> cbs_db \<Rightarrow> string option list res" where
  "batch_references uuid collate batch db = and_then (as_uuid uuid batch) (\<lambda>i.
     Inr (sort_by collate (first_occurrences (map sx_reference (staged_of i db)))))"

definition token_text :: "string \<Rightarrow> bool" where
  "token_text t \<longleftrightarrow> take 4 t = ''tok_'' \<and> run_of (\<lambda>c. is_alnum c \<or> c = CHR ''_'' \<or> c = CHR ''-'') 16 128 (drop 4 t)"

fun write_tokens :: "string \<Rightarrow> (string option \<times> string) list \<Rightarrow> cbs_db \<Rightarrow> cbs_db res" where
  "write_tokens i [] db = Inr db"
| "write_tokens i ((reference, token) # rest) db =
     (if \<not> token_text token then Inl (TypeError ''Invalid customer token for publication'')
      else write_tokens i rest (db\<lparr>cb_staging := map (\<lambda>r. if sx_batch r = i \<and> reference \<noteq> None \<and> sx_reference r = reference
        then r\<lparr>sx_token := Some token\<rparr> else r) (cb_staging db)\<rparr>))"

text \<open>\<open>INSERT ... ON CONFLICT (account_id) DO NOTHING\<close>\<close>

definition account_of :: "staged_row \<Rightarrow> account_row" where
  "account_of r = \<lparr>iv_id = sx_account r, iv_token = (case sx_token r of None \<Rightarrow> [] | Some t \<Rightarrow> t), iv_product = sx_product r,
     iv_currency = sx_currency r, iv_opened = sx_opened r\<rparr>"

fun open_accounts :: "staged_row list \<Rightarrow> account_row list \<Rightarrow> account_row list" where
  "open_accounts [] as = as"
| "open_accounts (r # rs) as =
     open_accounts rs (if sx_account r \<in> iv_id ` set as then as else as @ [account_of r])"

definition account_conflict :: "account_row list \<Rightarrow> staged_row \<Rightarrow> bool" where
  "account_conflict as r \<longleftrightarrow> (\<exists>a\<in>set as. iv_id a = sx_account r \<and> a \<noteq> account_of r)"

definition snapshot_of :: "staged_row \<Rightarrow> snapshot_row" where
  "snapshot_of r = \<lparr>sn_account = sx_account r, sn_business = sx_business r, sn_value = sx_value r, sn_currency = sx_currency r,
     sn_balance = sx_balance r, sn_batch = sx_batch r\<rparr>"

definition snapshot_key :: "snapshot_row \<Rightarrow> string \<times> string \<times> string \<times> string" where
  "snapshot_key s = (sn_batch s, sn_account s, sn_business s, sn_value s)"

fun add_snapshots :: "staged_row list \<Rightarrow> snapshot_row list \<Rightarrow> snapshot_row list" where
  "add_snapshots [] ss = ss"
| "add_snapshots (r # rs) ss =
     add_snapshots rs (if snapshot_key (snapshot_of r) \<in> snapshot_key ` set ss then ss else ss @ [snapshot_of r])"

definition published_event :: "string \<times> string \<Rightarrow> cbs_row \<Rightarrow> nat \<Rightarrow> outbox_message" where
  "published_event stamp b n = (case stamp of (event, now) \<Rightarrow>
     \<lparr>ms_event_id = event, ms_event_type = ''pms.cbs.batch.published.v1'', ms_schema_version = 1, ms_aggregate_type = ''CbsBatch'',
      ms_aggregate_id = cb_id b, ms_correlation = cb_id b, ms_causation = None, ms_occurred_at = now,
      ms_payload = [(''batchId'', J_String (cb_id b)), (''businessDate'', J_String (cb_date b)), (''flowType'', J_String (cb_flow b)),
        (''publishedRows'', J_Number (Num (of_nat n)))]\<rparr>)"

definition emit_published :: "string \<times> string \<Rightarrow> string \<Rightarrow> nat \<Rightarrow> cbs_db \<Rightarrow> cbs_db" where
  "emit_published stamp i n db = (case find_batch i db of
     None \<Rightarrow> db
   | Some b \<Rightarrow>
       if \<exists>m\<in>set (cb_outbox db). ms_aggregate_id m = i \<and> ms_event_type m = ''pms.cbs.batch.published.v1'' then db
       else db\<lparr>cb_outbox := cb_outbox db @ [published_event stamp b n]\<rparr>)"

definition forget_references :: "string \<Rightarrow> cbs_db \<Rightarrow> cbs_db" where
  "forget_references i db = db\<lparr>cb_staging := map (\<lambda>r. if sx_batch r = i \<and> sx_token r \<noteq> None
     then r\<lparr>sx_reference := None\<rparr> else r) (cb_staging db)\<rparr>"

definition write_positions ::
  "(string \<Rightarrow> string option) \<Rightarrow> string \<times> string \<Rightarrow> string \<Rightarrow> string \<Rightarrow> cbs_db \<Rightarrow> (nat \<times> cbs_db) res" where
  "write_positions uuid stamp batch i db =
     (let rows = staged_of i db; accounts = open_accounts rows (cb_accounts db);
        snapshots = add_snapshots rows (cb_snapshots db); n = length snapshots - length (cb_snapshots db) in
      if \<exists>r\<in>set rows. sx_token r = None then Inl (Failure ''CBS publication contains untokenized customers'')
      else if \<exists>r\<in>set rows. account_conflict accounts r then Inl (Failure ''Investment account publication conflict'')
      else and_then (move_batch uuid batch [Batch_Approved] Batch_Published (\<lambda>_. None) '' publication transition failed''
          (db\<lparr>cb_accounts := accounts, cb_snapshots := snapshots\<rparr>)) (\<lambda>moved.
        Inr (n, emit_published stamp i n (forget_references i (snd moved)))))"

definition publish_batch ::
  "(string \<Rightarrow> string option) \<Rightarrow> string \<times> string \<Rightarrow> string \<Rightarrow> (string option \<times> string) list \<Rightarrow> cbs_db \<Rightarrow> (nat \<times> cbs_db) res" where
  "publish_batch uuid stamp batch tokens db = and_then (as_uuid uuid batch) (\<lambda>i.
     if map_option cb_state (find_batch i db) = Some Batch_Published then Inr (0, db)
     else and_then (move_batch uuid batch [Batch_Validated, Batch_Approved] Batch_Approved (\<lambda>_. Some ''AUTO_QUALITY_CONTROLS'')
         '' is not validated'' db) (\<lambda>moved.
       and_then (write_tokens i tokens (snd moved)) (write_positions uuid stamp batch i)))"

section \<open>The worker on these repositories\<close>

record cbs_ports =
  pt_json :: json_lib
  pt_clock :: clock_lib
  pt_load :: "string \<Rightarrow> document_content res"
  pt_digest :: "string \<Rightarrow> string"
  pt_antivirus :: "document_content \<Rightarrow> scan_result res"
  pt_verify :: "string \<Rightarrow> string \<Rightarrow> string \<Rightarrow> bool res"
  pt_window :: "nat \<times> nat"
  pt_decode :: "string \<Rightarrow> string res"
  pt_quarantine :: "string \<Rightarrow> string \<Rightarrow> cbs_db \<Rightarrow> int res"
  pt_tokenize :: "string option list \<Rightarrow> string \<Rightarrow> string \<Rightarrow> string list res"
  pt_collate :: "string option \<Rightarrow> string option \<Rightarrow> int"
  pt_stamp :: "string \<times> string"

text \<open>A query changes nothing.\<close>

definition read_only :: "('s \<Rightarrow> 'a res) \<Rightarrow> ('s, 'a) action" where
  "read_only f s = (f s, s)"

definition cbs_worker_of :: "(string \<Rightarrow> string option) \<Rightarrow> cbs_ports \<Rightarrow> cbs_db cbs_worker" where
  "cbs_worker_of uuid p = \<lparr>wk_register = register_batch (\<lambda>b. transaction (register_received uuid b)),
     wk_scan = Some (scan_batch (pt_load p) (pt_digest p) (pt_antivirus p)
       (\<lambda>i expected to reason. transaction (transition_batch uuid i expected to reason))),
     wk_stage = Some (stage_positions (pt_decode p) (\<lambda>i rows. transaction (stage_batch uuid i rows))),
     wk_validate = Some (validate_positions (\<lambda>i date. read_only (inspect_batch uuid i date))
       (\<lambda>i date. read_only (pt_quarantine p i date)) (\<lambda>i decision reason. transaction (record_decision uuid i decision reason))),
     wk_publish = Some (publish_positions (\<lambda>i. read_only (batch_published uuid i))
       (\<lambda>i. read_only (batch_references uuid (pt_collate p) i)) (pt_tokenize p)
       (\<lambda>i tokens. transaction (publish_batch uuid (pt_stamp p) i tokens))),
     wk_authenticate = Some (authenticate_manifest (pt_json p) (pt_clock p) (pt_verify p)
       (\<lambda>i result reason. transaction (record_authentication uuid i result reason)) (pt_window p))\<rparr>"

text \<open>
  The handling of one message from its acquisition to its completion.  Its transactions follow each other
  without the transactions of another worker in between.
\<close>

definition ingest :: "(string \<Rightarrow> string option) \<Rightarrow> cbs_ports \<Rightarrow> outbox_message \<Rightarrow> (cbs_db, consumption) action" where
  "ingest uuid p = handle_cbs_message inbox_begin inbox_complete inbox_abandon (cbs_worker_of uuid p)"

end
