(* ===== verification/Lifecycle.thy ===== *)
theory Lifecycle
  imports Pms_Prelude
begin

text \<open>
  State machines that only move forward.  A component gives the table of allowed transitions; the
  locale promises that histories along it are short and end, once a rank that every transition
  raises is at hand.
\<close>

text \<open>A history of transitions, each starting where the one before ended.\<close>

fun lifecycle_path :: "('s \<Rightarrow> 's list) \<Rightarrow> 's \<Rightarrow> ('s \<times> 's) list \<Rightarrow> 's \<Rightarrow> bool" where
  "lifecycle_path step s [] t \<longleftrightarrow> s = t"
| "lifecycle_path step s ((a, b) # es) t \<longleftrightarrow> a = s \<and> b \<in> set (step a) \<and> lifecycle_path step b es t"

lemma lifecycle_path_snoc:
  "lifecycle_path step s (es @ [(a, b)]) t \<longleftrightarrow> lifecycle_path step s es a \<and> b \<in> set (step a) \<and> b = t"
  by (induction es arbitrary: s) auto

locale lifecycle =
  fixes step :: "'s \<Rightarrow> 's list" and rank :: "'s \<Rightarrow> nat"
  assumes forward: "t \<in> set (step s) \<Longrightarrow> rank s < rank t"
begin

lemma path_bound: "lifecycle_path step s es t \<Longrightarrow> rank s + length es \<le> rank t"
proof (induction es arbitrary: s)
  case (Cons e es)
  obtain a b where e: "e = (a, b)" by (cases e)
  with Cons.prems have "b \<in> set (step s)" "lifecycle_path step b es t" by auto
  with Cons.IH [of b] forward [of b s] show ?case by simp
qed simp

lemma final_stays: "lifecycle_path step s es t \<Longrightarrow> step s = [] \<Longrightarrow> es = [] \<and> t = s"
  by (cases es) auto

lemma no_return:
  assumes "lifecycle_path step s es s"
  shows "es = []"
  using path_bound [OF assms] by simp

lemma terminates: "wf {(t, s). t \<in> set (step s) \<and> rank t \<le> n}"
proof (rule wf_subset [OF wf_measure [of "\<lambda>s. n - rank s"]])
  show "{(t, s). t \<in> set (step s) \<and> rank t \<le> n} \<subseteq> measure (\<lambda>s. n - rank s)"
    using forward by fastforce
qed

end

end
