(* ===== verification/Cbs_Correct.thy ===== *)
theory Cbs_Correct
  imports Cbs_Store Lifecycle
begin

text \<open>
  What the ingestion guarantees: the histories of batches, what a published batch contains, and
  that a processed message leaves its batch settled.
\<close>

section \<open>Comparing stored amounts\<close>

lemma digits_int_digits: "list_all is_digit s \<Longrightarrow> digits_int s = Inr (int (nat_of_digits s))"
  by (simp add: digits_int_def)

lemma digits_no_dot: "list_all is_digit s \<Longrightarrow> takeWhile (\<lambda>c. c \<noteq> CHR ''.'') (s @ rest) = s @ takeWhile (\<lambda>c. c \<noteq> CHR ''.'') rest"
  by (induction s) (auto simp: char_class_defs)

lemma scaled_render:
  "scaled_text (render_nat 12 n) = Inr (int n) \<and> scaled_text (CHR ''-'' # render_nat 12 n) = Inr (- int n)"
proof -
  define r where "r = render_nat 12 n"
  define w where "w = drop_last 12 (padded_digits 12 n)"
  define f where "f = last_chars 12 (padded_digits 12 n)"
  have split: "w @ f = padded_digits 12 n" by (simp add: w_def f_def drop_last_def last_chars_def)
  have len: "length f = 12" using padded_digits_length [of 12 n] by (simp add: f_def length_last_chars)
  have digits: "list_all is_digit w" "list_all is_digit f"
    using padded_digits_digits [of 12 n] unfolding split [symmetric] by simp_all
  have render: "r = w @ CHR ''.'' # f" by (simp add: r_def render_nat_def w_def f_def padded_digits_def Let_def)
  have whole: "takeWhile (\<lambda>c. c \<noteq> CHR ''.'') r = w"
    unfolding render using digits_no_dot [OF digits(1), of "CHR ''.'' # f"] by simp
  have fraction: "takeWhile (\<lambda>c. c \<noteq> CHR ''.'') (drop (length w + 1) r) = f"
    unfolding render using digits_no_dot [OF digits(2), of "[]"] by simp
  have pad: "pad_end 12 f = f" using len by (simp add: pad_end_def)
  have "nat_of_digits (w @ f) = n" unfolding split by simp
  then have "nat_of_digits w * 10 ^ 12 + nat_of_digits f = n" by (simp only: nat_of_digits_append len)
  then have "int (nat_of_digits w * 10 ^ 12 + nat_of_digits f) = int n" by (simp only:)
  then have sum: "int (nat_of_digits w) * 1000000000000 + int (nat_of_digits f) = int n" by simp
  have "w \<noteq> []" using padded_digits_length [of 12 n] by (auto simp: w_def drop_last_def)
  then have "hd r \<noteq> CHR ''-''" using digits(1) unfolding render by (cases w) (auto simp: char_class_defs)
  then show ?thesis unfolding r_def [symmetric] scaled_text_def Let_def
    using sum by (simp add: whole fraction [simplified] pad digits_int_digits digits)
qed

lemma scaled_numeric_text: "scaled_text (numeric_text u) = Inr u"
  using scaled_render [of "nat \<bar>u\<bar>"] by (cases "u < 0") (simp_all add: numeric_text_def render_units_def Let_def)

lemma decimal_equal_numeric:
  "decimal_equal (numeric_text u) (numeric_text v) = Inr (u = v)"
  "decimal_equal ''0'' (numeric_text v) = Inr (0 = v)"
proof -
  have "scaled_text ''0'' = Inr 0"
    by (simp add: scaled_text_def digits_int_def pad_end_def char_class_defs nat_of_digits_Cons list_all_iff)
  then show "decimal_equal (numeric_text u) (numeric_text v) = Inr (u = v)"
    "decimal_equal ''0'' (numeric_text v) = Inr (0 = v)"
    by (simp_all add: decimal_equal_def scaled_numeric_text)
qed

section \<open>Changing the state of a batch\<close>

definition move_row :: "string \<Rightarrow> batch_state \<Rightarrow> (string option \<Rightarrow> string option) \<Rightarrow> cbs_row \<Rightarrow> cbs_row" where
  "move_row i to reason b = (if cb_id b = i then b\<lparr>cb_state := to, cb_reason := reason (cb_reason b)\<rparr> else b)"

lemma move_row_simps [simp]:
  "cb_id (move_row i to reason b) = cb_id b" "cb_date (move_row i to reason b) = cb_date b"
  "cb_rows (move_row i to reason b) = cb_rows b" "cb_balance (move_row i to reason b) = cb_balance b"
  "replay_key (move_row i to reason b) = replay_key b"
  "cb_state (move_row i to reason b) = (if cb_id b = i then to else cb_state b)"
  by (simp_all add: move_row_def replay_key_def)

lemma move_batch_Inr:
  assumes "move_batch uuid batch from to reason problem db = Inr (u, db')"
  obtains i old where "uuid batch = Some i" "old \<in> set (cb_batches db)" "cb_id old = i" "cb_state old \<in> set from"
    "cb_state old = to \<or> to \<in> set (batch_transitions (cb_state old))"
    "db' = db\<lparr>cb_batches := map (move_row i to reason) (cb_batches db),
       cb_history := cb_history db @ (if cb_state old = to then [] else [(i, cb_state old, to)])\<rparr>"
proof -
  from assms obtain i where i: "uuid batch = Some i"
    and s: "set_batch_state i from to reason db = Inr (1, db')"
    unfolding move_batch_def and_then_Inr as_uuid_def by (auto split: option.splits prod.splits if_splits)
  from s obtain old where f: "find (\<lambda>b. cb_id b = i \<and> cb_state b \<in> set from) (cb_batches db) = Some old"
    by (cases "find (\<lambda>b. cb_id b = i \<and> cb_state b \<in> set from) (cb_batches db)") (auto simp: set_batch_state_def)
  have map: "map (\<lambda>b. if cb_id b = i then b\<lparr>cb_state := to, cb_reason := reason (cb_reason b)\<rparr> else b) = map (move_row i to reason)"
    by (intro arg_cong [where f = map] ext) (simp add: move_row_def)
  from s f have a: "(if cb_state old = to then Inr () else assert_batch_transition (cb_state old) to) = Inr ()"
    and db': "db' = db\<lparr>cb_batches := map (move_row i to reason) (cb_batches db),
       cb_history := cb_history db @ (if cb_state old = to then [] else [(i, cb_state old, to)])\<rparr>"
    unfolding set_batch_state_def map by (auto simp: and_then_Inr if_throw_Inr)
  from a have "cb_state old = to \<or> to \<in> set (batch_transitions (cb_state old))"
    by (auto simp: assert_batch_transition_def split: if_splits)
  with that i find_SomeD [OF f] db' show ?thesis by blast
qed

section \<open>The invariant of the tables\<close>

text \<open>The staged rows of a batch are those its manifest announces, with dates in order.\<close>

definition reconciled :: "staged_row list \<Rightarrow> cbs_row \<Rightarrow> bool" where
  "reconciled staging b \<longleftrightarrow> (let rows = filter (\<lambda>r. sx_batch r = cb_id b) staging in
     rows \<noteq> [] \<and> int (length rows) = cb_rows b \<and> sum_list (map sx_balance rows) = cb_balance b
     \<and> (\<forall>r\<in>set rows. sx_business r = cb_date b \<and> \<not> chronology_broken r))"

text \<open>Each was published under a token, and no customer reference is left.\<close>

definition tokenized :: "staged_row list \<Rightarrow> account_row list \<Rightarrow> snapshot_row list \<Rightarrow> cbs_row \<Rightarrow> bool" where
  "tokenized staging accounts snapshots b \<longleftrightarrow> (let rows = filter (\<lambda>r. sx_batch r = cb_id b) staging in
     (\<forall>r\<in>set rows. sx_reference r = None \<and> sx_token r \<noteq> None \<and> account_of r \<in> set accounts)
     \<and> filter (\<lambda>s. sn_batch s = cb_id b) snapshots = map snapshot_of rows)"

definition validated_state :: "batch_state \<Rightarrow> bool" where
  "validated_state s \<longleftrightarrow> s = Batch_Validated \<or> s = Batch_Approved \<or> s = Batch_Published"

definition history_of :: "string \<Rightarrow> cbs_db \<Rightarrow> (batch_state \<times> batch_state) list" where
  "history_of i db = map snd (filter (\<lambda>h. fst h = i) (cb_history db))"

definition row_ok :: "cbs_db \<Rightarrow> cbs_row \<Rightarrow> bool" where
  "row_ok db b \<longleftrightarrow> (validated_state (cb_state b) \<longrightarrow> reconciled (cb_staging db) b)
     \<and> (cb_state b = Batch_Published \<longrightarrow> tokenized (cb_staging db) (cb_accounts db) (cb_snapshots db) b)
     \<and> (cb_state b \<noteq> Batch_Published \<longrightarrow> (\<forall>s\<in>set (cb_snapshots db). sn_batch s \<noteq> cb_id b))
     \<and> lifecycle_path batch_transitions Batch_Received (history_of (cb_id b) db) (cb_state b)"

definition cbs_inv :: "(string \<Rightarrow> string option) \<Rightarrow> cbs_db \<Rightarrow> bool" where
  "cbs_inv uuid db \<longleftrightarrow> distinct (map cb_id (cb_batches db)) \<and> (\<forall>b\<in>set (cb_batches db). uuid (cb_id b) = Some (cb_id b))
     \<and> distinct (map staged_key (cb_staging db)) \<and> fst ` set (cb_history db) \<subseteq> cb_id ` set (cb_batches db)
     \<and> sn_batch ` set (cb_snapshots db) \<subseteq> cb_id ` set (cb_batches db)
     \<and> (\<forall>b\<in>set (cb_batches db). row_ok db b)"

lemma reconciled_cong: "cb_id b' = cb_id b \<Longrightarrow> cb_date b' = cb_date b \<Longrightarrow> cb_rows b' = cb_rows b \<Longrightarrow> cb_balance b' = cb_balance b
    \<Longrightarrow> reconciled st b' = reconciled st b"
  by (simp only: reconciled_def)

lemma tokenized_cong: "cb_id b' = cb_id b \<Longrightarrow> tokenized st ac sn b' = tokenized st ac sn b"
  by (simp only: tokenized_def)

lemma row_okI:
  assumes "validated_state (cb_state b) \<Longrightarrow> reconciled (cb_staging db) b"
    "cb_state b = Batch_Published \<Longrightarrow> tokenized (cb_staging db) (cb_accounts db) (cb_snapshots db) b"
    "cb_state b \<noteq> Batch_Published \<Longrightarrow> \<forall>s\<in>set (cb_snapshots db). sn_batch s \<noteq> cb_id b"
    "lifecycle_path batch_transitions Batch_Received (history_of (cb_id b) db) (cb_state b)"
  shows "row_ok db b"
  using assms by (simp add: row_ok_def)

lemma same_batch:
  "distinct (map cb_id bs) \<Longrightarrow> b \<in> set bs \<Longrightarrow> c \<in> set bs \<Longrightarrow> cb_id b = cb_id c \<Longrightarrow> b = c"
  by (simp add: distinct_map inj_on_def)

text \<open>A move keeps the invariant when the rows already meet what the new state asks for.\<close>

lemma move_keeps_inv:
  assumes inv: "cbs_inv uuid db" and old: "old \<in> set (cb_batches db)" "cb_id old = i"
    and step: "cb_state old = to \<or> to \<in> set (batch_transitions (cb_state old))"
    and need: "validated_state to \<Longrightarrow> reconciled (cb_staging db) old" "to \<noteq> Batch_Published \<or> cb_state old = Batch_Published"
  shows "cbs_inv uuid (db\<lparr>cb_batches := map (move_row i to reason) (cb_batches db),
     cb_history := cb_history db @ (if cb_state old = to then [] else [(i, cb_state old, to)])\<rparr>)" (is "cbs_inv uuid ?db")
proof -
  have d: "distinct (map cb_id (cb_batches db))" using inv by (simp add: cbs_inv_def)
  have ids: "map cb_id (cb_batches ?db) = map cb_id (cb_batches db)" by simp
  then have id_set: "cb_id ` set (cb_batches ?db) = cb_id ` set (cb_batches db)" by (metis list.set_map)
  have final: "batch_transitions Batch_Published = []" by (simp add: batch_transitions_def)
  have "row_ok ?db (move_row i to reason b)" if b: "b \<in> set (cb_batches db)" for b
  proof -
    from inv b have ok: "row_ok db b" by (simp add: cbs_inv_def)
    show ?thesis
    proof (cases "cb_id b = i")
      case True
      with same_batch [OF d b old(1)] old(2) have [simp]: "b = old" by simp
      have path: "lifecycle_path batch_transitions Batch_Received (history_of i ?db) to"
        using ok step old(2) by (auto simp: row_ok_def history_of_def lifecycle_path_snoc)
      show ?thesis
      proof (rule row_okI)
        assume "validated_state (cb_state (move_row i to reason b))"
        with need(1) old(2) show "reconciled (cb_staging ?db) (move_row i to reason b)"
          by (simp add: reconciled_cong [of "move_row i to reason old" old])
      next
        assume "cb_state (move_row i to reason b) = Batch_Published"
        with need(2) old(2) ok show "tokenized (cb_staging ?db) (cb_accounts ?db) (cb_snapshots ?db) (move_row i to reason b)"
          by (auto simp: row_ok_def tokenized_def)
      next
        assume "cb_state (move_row i to reason b) \<noteq> Batch_Published"
        with old(2) step final have "cb_state old \<noteq> Batch_Published" by auto
        with ok show "\<forall>s\<in>set (cb_snapshots ?db). sn_batch s \<noteq> cb_id (move_row i to reason b)" by (simp add: row_ok_def)
      qed (use path old(2) in simp)
    next
      case False
      then have same: "move_row i to reason b = b" by (simp add: move_row_def)
      have "history_of (cb_id b) ?db = history_of (cb_id b) db" using False by (simp add: history_of_def)
      with ok show ?thesis unfolding same row_ok_def by simp
    qed
  qed
  then have rows: "\<forall>b\<in>set (cb_batches ?db). row_ok ?db b" by simp
  have "fst ` set (cb_history ?db) \<subseteq> cb_id ` set (cb_batches ?db)"
    unfolding id_set using inv old by (auto simp: cbs_inv_def)
  moreover have "sn_batch ` set (cb_snapshots ?db) \<subseteq> cb_id ` set (cb_batches ?db)"
    unfolding id_set using inv by (simp add: cbs_inv_def)
  moreover have "\<forall>b\<in>set (cb_batches ?db). uuid (cb_id b) = Some (cb_id b)" using inv by (simp add: cbs_inv_def)
  moreover have "distinct (map cb_id (cb_batches ?db))" unfolding ids by (rule d)
  moreover have "distinct (map staged_key (cb_staging ?db))" using inv by (simp add: cbs_inv_def)
  ultimately show ?thesis using rows unfolding cbs_inv_def by blast
qed

section \<open>Every operation keeps the invariant\<close>

lemma keeps_transaction:
  assumes "\<And>s x s'. f s = Inr (x, s') \<Longrightarrow> P s \<Longrightarrow> P s'"
  shows "keeps P (transaction f)"
  unfolding keeps_def transaction_def using assms by (auto split: sum.splits prod.splits)

lemma keeps_read_only [keeps_rule]: "keeps P (read_only f)"
  by (simp add: keeps_def read_only_def)

text \<open>The invariant and the batch the worker is at, under its date.\<close>

definition at_batch :: "(string \<Rightarrow> string option) \<Rightarrow> string \<Rightarrow> string \<Rightarrow> cbs_db \<Rightarrow> bool" where
  "at_batch uuid i date db \<longleftrightarrow> cbs_inv uuid db \<and> (\<exists>b\<in>set (cb_batches db). cb_id b = i \<and> cb_date b = date)"

lemma image_absent: "f ` A \<subseteq> B \<Longrightarrow> k \<notin> B \<Longrightarrow> \<forall>x\<in>A. f x \<noteq> k"
  by auto

lemma at_batch_moved:
  assumes "at_batch uuid i date db" "cb_batches db' = map (move_row j to reason) (cb_batches db)" "cbs_inv uuid db'"
  shows "at_batch uuid i date db'"
  using assms by (auto simp: at_batch_def)

lemma move_batch_keeps:
  assumes "\<not> validated_state to"
  shows "keeps (at_batch uuid i date) (transaction (move_batch uuid batch from to reason problem))"
proof (rule keeps_transaction)
  fix s x s' assume run: "move_batch uuid batch from to reason problem s = Inr (x, s')" and p: "at_batch uuid i date s"
  from run show "at_batch uuid i date s'"
  proof (rule move_batch_Inr)
    fix j old assume m: "old \<in> set (cb_batches s)" "cb_id old = j" "cb_state old = to \<or> to \<in> set (batch_transitions (cb_state old))"
      and s': "s' = s\<lparr>cb_batches := map (move_row j to reason) (cb_batches s),
       cb_history := cb_history s @ (if cb_state old = to then [] else [(j, cb_state old, to)])\<rparr>"
    have "cbs_inv uuid s'" unfolding s'
      by (rule move_keeps_inv [OF _ m]) (use p assms in \<open>auto simp: at_batch_def validated_state_def\<close>)
    moreover have "cb_batches s' = map (move_row j to reason) (cb_batches s)" by (simp add: s')
    ultimately show ?thesis by (rule at_batch_moved [OF p, rotated])
  qed
qed

lemma validated_states [simp]:
  "validated_state Batch_Validated" "validated_state Batch_Approved" "validated_state Batch_Published"
  "\<not> validated_state Batch_Authenticated" "\<not> validated_state Batch_Rejected" "\<not> validated_state Batch_Scanned"
  "\<not> validated_state Batch_Quarantined" "\<not> validated_state Batch_Staged" "\<not> validated_state Batch_Received"
  by (simp_all add: validated_state_def)

lemma authenticate_keeps [keeps_rule]:
  "keeps (at_batch uuid i date) (authenticate_manifest lib clock verify
     (\<lambda>i result reason. transaction (record_authentication uuid i result reason)) window m)"
  unfolding authenticate_manifest_def record_authentication_def transition_batch_def
  by (intro keeps_rule move_batch_keeps) simp_all

lemma scan_keeps [keeps_rule]:
  "keeps (at_batch uuid i date) (scan_batch load digest antivirus
     (\<lambda>i expected to reason. transaction (transition_batch uuid i expected to reason)) b)"
  unfolding scan_batch_def transition_batch_def Let_def
  by (intro keeps_rule move_batch_keeps) simp_all

text \<open>Registering a batch leads to a state with that batch.\<close>

lemma received_row_Inr:
  assumes "received_row uuid b = Inr row"
  shows "uuid (ba_batch b) = Some (cb_id row) \<and> cb_state row = Batch_Received
    \<and> (\<exists>n. js_int (ba_sequence b) = Some n \<and> replay_key row = (ba_source b, ba_date b, ba_flow b, n))"
  using assms unfolding received_row_def and_then_Inr as_simps
  by (elim exE conjE) (auto simp: replay_key_def dest: as_integer_Inr)

lemma register_received_Inr:
  assumes "register_received uuid b db = Inr (r, db')"
  obtains old n where "js_int (ba_sequence b) = Some n" "db' = db"
    "old \<in> set (cb_batches db)" "replay_key old = (ba_source b, ba_date b, ba_flow b, n)"
    "rg_batch r = cb_id old" "rg_state r = cb_state old"
  | new n where "js_int (ba_sequence b) = Some n" "uuid (ba_batch b) = Some (cb_id new)"
    "cb_id new \<notin> cb_id ` set (cb_batches db)" "db' = db\<lparr>cb_batches := cb_batches db @ [new]\<rparr>"
    "replay_key new = (ba_source b, ba_date b, ba_flow b, n)" "cb_state new = Batch_Received"
    "rg_batch r = cb_id new" "rg_state r = Batch_Received"
proof -
  from assms obtain row where row: "received_row uuid b = Inr row" and run: "insert_received row db = Inr (r, db')"
    unfolding register_received_def and_then_Inr by blast
  from received_row_Inr [OF row] obtain n where n: "js_int (ba_sequence b) = Some n"
      "replay_key row = (ba_source b, ba_date b, ba_flow b, n)" "uuid (ba_batch b) = Some (cb_id row)" "cb_state row = Batch_Received"
    by blast
  show ?thesis
  proof (cases "find (\<lambda>s. replay_key s = replay_key row) (cb_batches db)")
    case (Some s)
    with run have "db' = db" "rg_batch r = cb_id s" "rg_state r = cb_state s" by (auto simp: insert_received_def split: if_splits)
    moreover have "s \<in> set (cb_batches db)" "replay_key s = (ba_source b, ba_date b, ba_flow b, n)"
      using find_SomeD [OF Some] n(2) by simp_all
    ultimately show ?thesis using that(1) n(1) by blast
  next
    case None
    with run have "cb_id row \<notin> cb_id ` set (cb_batches db)" "db' = db\<lparr>cb_batches := cb_batches db @ [row]\<rparr>"
      "rg_batch r = cb_id row" "rg_state r = Batch_Received"
      using n(4) by (auto simp: insert_received_def split: if_splits)
    with that(2) n show ?thesis by blast
  qed
qed

lemma register_at_batch:
  assumes "cbs_inv uuid db" "uuid_laws uuid" "register_received uuid b db = Inr (r, db')"
  shows "at_batch uuid (rg_batch r) (ba_date b) db'"
  using assms(3)
proof (rule register_received_Inr)
  fix n old assume "db' = db" "old \<in> set (cb_batches db)" "replay_key old = (ba_source b, ba_date b, ba_flow b, n)"
    "rg_batch r = cb_id old"
  with assms(1) show ?thesis by (auto simp: at_batch_def replay_key_def)
next
  fix new n assume i: "uuid (ba_batch b) = Some (cb_id new)" and fresh: "cb_id new \<notin> cb_id ` set (cb_batches db)"
    and new: "db' = db\<lparr>cb_batches := cb_batches db @ [new]\<rparr>"
      "replay_key new = (ba_source b, ba_date b, ba_flow b, n)" "cb_state new = Batch_Received" "rg_batch r = cb_id new"
  let ?i = "cb_id new"
  have "fst ` set (cb_history db) \<subseteq> cb_id ` set (cb_batches db)" "sn_batch ` set (cb_snapshots db) \<subseteq> cb_id ` set (cb_batches db)"
    using assms(1) by (simp_all add: cbs_inv_def)
  note absent = this [THEN image_absent, OF fresh]
  have h: "history_of ?i db = []" using absent(1) by (simp add: history_of_def filter_empty_conv)
  note s = absent(2)
  have rows: "\<forall>c\<in>set (cb_batches db). row_ok db' c" using assms(1) by (simp add: cbs_inv_def row_ok_def new(1) history_of_def)
  have "row_ok db' new" using h s new by (simp add: row_ok_def history_of_def)
  moreover have "uuid ?i = Some ?i" using i assms(2) by (simp add: uuid_laws_def)
  moreover have "fst ` set (cb_history db) \<subseteq> insert ?i (cb_id ` set (cb_batches db))"
    "sn_batch ` set (cb_snapshots db) \<subseteq> insert ?i (cb_id ` set (cb_batches db))"
    using assms(1) by (simp_all add: cbs_inv_def subset_insertI2)
  ultimately have "cbs_inv uuid db'" using assms(1) fresh rows new by (simp add: cbs_inv_def)
  with new show ?thesis by (auto simp: at_batch_def replay_key_def)
qed

section \<open>Staging and validating\<close>

lemma stage_rows_Inr:
  assumes "stage_rows uuid i es db = Inr db'" "distinct (map staged_key (cb_staging db))"
  shows "\<exists>new. db' = db\<lparr>cb_staging := cb_staging db @ new\<rparr> \<and> (\<forall>r\<in>set new. sx_batch r = i)
    \<and> distinct (map staged_key (cb_staging db @ new))"
  using assms
proof (induction es arbitrary: db)
  case Nil
  then show ?case by (intro exI [of _ "[]"]) simp
next
  case (Cons e es)
  from Cons.prems(1) obtain db1 where one: "stage_row uuid i e db = Inr db1" and rest: "stage_rows uuid i es db1 = Inr db'"
    by (auto simp: and_then_Inr)
  obtain index p where e: "e = (index, p)" by (cases e)
  have "db1 = db \<or> (\<exists>row. db1 = db\<lparr>cb_staging := cb_staging db @ [row]\<rparr> \<and> sx_batch row = i
      \<and> staged_key row \<notin> staged_key ` set (cb_staging db))"
  proof (cases "find (\<lambda>s. sx_batch s = i \<and> sx_number s = index + 1) (cb_staging db)")
    case None
    with one show ?thesis unfolding stage_row_def e prod.case and_then_Inr Let_def
      by (elim exE conjE) (force split: if_splits)
  next
    case (Some s)
    with one show ?thesis unfolding stage_row_def e prod.case and_then_Inr Let_def
      by (elim exE conjE) (simp split: if_splits)
  qed
  then show ?case
  proof
    assume "db1 = db"
    with Cons.IH [OF rest] Cons.prems(2) show ?thesis by simp
  next
    assume "\<exists>row. db1 = db\<lparr>cb_staging := cb_staging db @ [row]\<rparr> \<and> sx_batch row = i
      \<and> staged_key row \<notin> staged_key ` set (cb_staging db)"
    then obtain row where row: "db1 = db\<lparr>cb_staging := cb_staging db @ [row]\<rparr>" "sx_batch row = i"
      "staged_key row \<notin> staged_key ` set (cb_staging db)" by blast
    have "distinct (map staged_key (cb_staging db1))" using Cons.prems(2) row by simp
    from Cons.IH [OF rest this] obtain new where
      "db' = db1\<lparr>cb_staging := cb_staging db1 @ new\<rparr>" "\<forall>r\<in>set new. sx_batch r = i"
      "distinct (map staged_key (cb_staging db1 @ new))" by blast
    with row show ?thesis by (intro exI [of _ "row # new"]) simp
  qed
qed

lemma staged_inv:
  assumes inv: "cbs_inv uuid db" and new: "\<forall>r\<in>set new. sx_batch r = i" "distinct (map staged_key (cb_staging db @ new))"
    and quiet: "\<And>b. b \<in> set (cb_batches db) \<Longrightarrow> cb_id b = i \<Longrightarrow> \<not> validated_state (cb_state b)"
  shows "cbs_inv uuid (db\<lparr>cb_staging := cb_staging db @ new\<rparr>)" (is "cbs_inv uuid ?db")
proof -
  have "row_ok ?db b" if b: "b \<in> set (cb_batches db)" for b
  proof -
    have ok: "row_ok db b" using inv b by (simp add: cbs_inv_def)
    have h: "history_of (cb_id b) ?db = history_of (cb_id b) db" by (simp add: history_of_def)
    show ?thesis
    proof (cases "cb_id b = i")
      case True
      with quiet b have "\<not> validated_state (cb_state b)" by simp
      with ok h show ?thesis by (auto simp: row_ok_def validated_state_def)
    next
      case False
      then have "filter (\<lambda>r. sx_batch r = cb_id b) new = []" using new(1) by (auto simp: filter_empty_conv)
      then have "reconciled (cb_staging ?db) b = reconciled (cb_staging db) b"
        "tokenized (cb_staging ?db) ac sn b = tokenized (cb_staging db) ac sn b" for ac sn
        by (simp_all add: reconciled_def tokenized_def)
      with ok h show ?thesis by (simp add: row_ok_def)
    qed
  qed
  with inv new(2) show ?thesis by (simp add: cbs_inv_def)
qed

lemma stage_batch_keeps: "keeps (at_batch uuid i date) (transaction (stage_batch uuid batch ps))"
proof (rule keeps_transaction)
  fix s x s' assume run: "stage_batch uuid batch ps s = Inr (x, s')" and p: "at_batch uuid i date s"
  from run obtain j s1 where j: "uuid batch = Some j" and rows: "stage_rows uuid j (enumerate 0 ps) s = Inr s1"
    and mv: "move_batch uuid batch [Batch_Scanned, Batch_Staged] Batch_Staged (\<lambda>r. r) '' is not ready for staging'' s1 = Inr (x, s')"
    unfolding stage_batch_def and_then_Inr as_simps by blast
  have inv: "cbs_inv uuid s" and keys: "distinct (map staged_key (cb_staging s))" using p by (simp_all add: at_batch_def cbs_inv_def)
  from stage_rows_Inr [OF rows keys] obtain new where
    s1: "s1 = s\<lparr>cb_staging := cb_staging s @ new\<rparr>" and new: "\<forall>r\<in>set new. sx_batch r = j"
    "distinct (map staged_key (cb_staging s @ new))" by blast
  from mv show "at_batch uuid i date s'"
  proof (rule move_batch_Inr)
    fix k old assume k: "uuid batch = Some k" and m: "old \<in> set (cb_batches s1)" "cb_id old = k"
        "cb_state old = Batch_Staged \<or> Batch_Staged \<in> set (batch_transitions (cb_state old))"
      and from_states: "cb_state old \<in> set [Batch_Scanned, Batch_Staged]"
      and s': "s' = s1\<lparr>cb_batches := map (move_row k Batch_Staged (\<lambda>r. r)) (cb_batches s1),
       cb_history := cb_history s1 @ (if cb_state old = Batch_Staged then [] else [(k, cb_state old, Batch_Staged)])\<rparr>"
    have d: "distinct (map cb_id (cb_batches s))" using inv by (simp add: cbs_inv_def)
    have old: "old \<in> set (cb_batches s)" "cb_id old = j" using m(1,2) j k by (simp_all add: s1)
    have "cbs_inv uuid s1" unfolding s1
    proof (rule staged_inv [OF inv new])
      fix b assume "b \<in> set (cb_batches s)" "cb_id b = j"
      with same_batch [OF d _ old(1)] old(2) have "b = old" by simp
      with from_states show "\<not> validated_state (cb_state b)" by auto
    qed
    then have "cbs_inv uuid s'" unfolding s' by (rule move_keeps_inv [OF _ m]) simp_all
    moreover have "at_batch uuid i date s1" using p \<open>cbs_inv uuid s1\<close> by (simp add: at_batch_def s1)
    moreover have "cb_batches s' = map (move_row k Batch_Staged (\<lambda>r. r)) (cb_batches s1)" by (simp add: s')
    ultimately show ?thesis by (intro at_batch_moved [of uuid i date s1 s' k Batch_Staged "\<lambda>r. r"])
  qed
qed

lemma stage_keeps [keeps_rule]:
  "keeps (at_batch uuid i date) (stage_positions decode (\<lambda>i rows. transaction (stage_batch uuid i rows)) batch content)"
  unfolding stage_positions_def by (intro keeps_rule stage_batch_keeps)

lemma row_tally_zero: "\<not> row_tally P xs > 0 \<longleftrightarrow> (\<forall>x\<in>set xs. \<not> P x)"
  by (simp add: row_tally_def filter_empty_conv)

lemma inspection_reconciles:
  assumes "at_batch uuid i date db" "inspect_batch uuid i date db = Inr found" "validation_failures found = Inr []"
    "b \<in> set (cb_batches db)" "cb_id b = i"
  shows "reconciled (cb_staging db) b"
proof -
  have inv: "cbs_inv uuid db" using assms(1) by (simp add: at_batch_def)
  then have "uuid i = Some i" using assms(4,5) by (auto simp: cbs_inv_def)
  moreover have d: "distinct (map cb_id (cb_batches db))" using inv by (simp add: cbs_inv_def)
  have date: "cb_date b = date" using assms(1,4,5) same_batch [OF d] by (auto simp: at_batch_def)
  have "find_batch i db = Some b"
  proof -
    have "find_batch i db \<noteq> None" using assms(4,5) by (auto simp: find_batch_def find_None_iff)
    then obtain c where c: "find_batch i db = Some c" by auto
    with find_SomeD [OF c [unfolded find_batch_def]] same_batch [OF d _ assms(4)] assms(5) show ?thesis by simp
  qed
  ultimately have found: "found = \<lparr>in_rows = int (length (staged_of i db)),
      in_invalid_dates = row_tally (\<lambda>r. sx_business r \<noteq> date) (staged_of i db),
      in_manifest_rows = cb_rows b, in_manifest_balance = numeric_text (cb_balance b),
      in_staged_balance = (if staged_of i db = [] then ''0'' else numeric_text (sum_list (map sx_balance (staged_of i db)))),
      in_unknown_currencies = row_tally (\<lambda>r. \<not> known_currency db r) (staged_of i db),
      in_unknown_products = row_tally (\<lambda>r. sx_product r \<notin> set (cb_products db)) (staged_of i db),
      in_invalid_chronology = row_tally chronology_broken (staged_of i db)\<rparr>"
    using assms(2) unfolding inspect_batch_def and_then_Inr as_simps by (auto simp: Let_def)
  from assms(3) obtain same where same: "decimal_equal (in_staged_balance found) (in_manifest_balance found) = Inr same"
    and none: "in_rows found \<noteq> 0" "\<not> in_invalid_dates found > 0" "in_rows found = in_manifest_rows found" "same"
      "\<not> in_invalid_chronology found > 0"
    unfolding validation_failures_def and_then_Inr by (auto simp: failure_if_def split: if_splits)
  have "sum_list (map sx_balance (staged_of i db)) = cb_balance b"
    using same none(1,4) by (simp add: found decimal_equal_numeric)
  with none show ?thesis unfolding reconciled_def Let_def assms(5) staged_of_def [symmetric]
    by (simp add: found row_tally_zero date)
qed

lemma validate_keeps:
  "keeps (at_batch uuid i date) (validate_positions (\<lambda>i date. read_only (inspect_batch uuid i date))
     (\<lambda>i date. read_only (quarantine i date)) (\<lambda>i decision reason. transaction (record_decision uuid i decision reason)) i date)"
  unfolding keeps_def
proof (intro allI impI)
  fix s assume p: "at_batch uuid i date s"
  let ?put = "\<lambda>decision reason. transaction (record_decision uuid i decision reason)"
  let ?run = "\<lambda>failures. if length failures > 0
     then and_do (read_only (quarantine i date)) (\<lambda>_.
       and_do (?put Batch_Rejected (Some (join_texts '','' failures))) (\<lambda>_. give Batch_Rejected))
     else and_do (?put Batch_Validated None) (\<lambda>_. give Batch_Validated)"
  have rejected: "keeps (at_batch uuid i date) (?put Batch_Rejected r)" for r
    unfolding record_decision_def by (rule move_batch_keeps) simp
  show "at_batch uuid i date (snd (validate_positions (\<lambda>i date. read_only (inspect_batch uuid i date))
     (\<lambda>i date. read_only (quarantine i date)) (\<lambda>i decision reason. transaction (record_decision uuid i decision reason)) i date s))"
  proof (cases "inspect_batch uuid i date s")
    case (Inl e)
    with p show ?thesis by (simp add: validate_positions_def and_do_def read_only_def)
  next
    case (Inr found)
    note insp = this
    show ?thesis
    proof (cases "validation_failures found")
      case (Inl e)
      with insp p show ?thesis by (simp add: validate_positions_def and_do_def read_only_def)
    next
      case (Inr failures)
      have run: "validate_positions (\<lambda>i date. read_only (inspect_batch uuid i date))
         (\<lambda>i date. read_only (quarantine i date)) (\<lambda>i decision reason. transaction (record_decision uuid i decision reason)) i date s
         = ?run failures s"
        by (simp add: validate_positions_def and_do_def read_only_def insp Inr)
      show ?thesis
      proof (cases "failures = []")
        case False
        have "keeps (at_batch uuid i date) (?run failures)" using False by (simp add: keeps_rule rejected)
        with p show ?thesis unfolding run keeps_def by blast
      next
        case True
        show ?thesis
        proof (cases "record_decision uuid i Batch_Validated None s")
          case (Inl e)
          with p True show ?thesis unfolding run by (simp add: and_do_def transaction_def)
        next
          case (Inr y)
          obtain u s' where y: "y = (u, s')" by (cases y)
          have "at_batch uuid i date s'" using Inr [unfolded y record_decision_def]
          proof (rule move_batch_Inr)
            fix k old assume k: "uuid i = Some k" and m: "old \<in> set (cb_batches s)" "cb_id old = k"
                "cb_state old = Batch_Validated \<or> Batch_Validated \<in> set (batch_transitions (cb_state old))"
              and s': "s' = s\<lparr>cb_batches := map (move_row k Batch_Validated (\<lambda>_. None)) (cb_batches s),
               cb_history := cb_history s @ (if cb_state old = Batch_Validated then [] else [(k, cb_state old, Batch_Validated)])\<rparr>"
            have "uuid i = Some i" using p by (auto simp: at_batch_def cbs_inv_def)
            with k m(2) have id: "cb_id old = i" by simp
            have inv: "cbs_inv uuid s" using p by (simp add: at_batch_def)
            have "reconciled (cb_staging s) old"
              using inspection_reconciles [OF p insp _ m(1) id] \<open>validation_failures found = Inr failures\<close> True by simp
            then have "cbs_inv uuid s'" unfolding s' by (intro move_keeps_inv [OF inv m]) simp_all
            moreover have "cb_batches s' = map (move_row k Batch_Validated (\<lambda>_. None)) (cb_batches s)" by (simp add: s')
            ultimately show ?thesis by (intro at_batch_moved [OF p])
          qed
          with Inr y True show ?thesis unfolding run by (simp add: and_do_def transaction_def)
        qed
      qed
    qed
  qed
qed

section \<open>Publishing\<close>

text \<open>What publication does to a staged row leaves its position as it is.\<close>

definition same_position :: "string \<Rightarrow> staged_row \<Rightarrow> staged_row \<Rightarrow> bool" where
  "same_position i r q \<longleftrightarrow> snapshot_of q = snapshot_of r \<and> sx_opened q = sx_opened r \<and> (sx_batch r \<noteq> i \<longrightarrow> q = r)"

lemma same_position_fields:
  "same_position i r q \<Longrightarrow> sx_batch q = sx_batch r \<and> sx_business q = sx_business r \<and> sx_value q = sx_value r
     \<and> sx_balance q = sx_balance r \<and> staged_key q = staged_key r \<and> chronology_broken q = chronology_broken r"
  by (auto simp: same_position_def snapshot_of_def staged_key_def chronology_broken_def)

lemma same_position_trans: "same_position i r q \<Longrightarrow> same_position i q t \<Longrightarrow> same_position i r t"
  by (auto simp: same_position_def snapshot_of_def)

lemma same_position_filter:
  assumes "\<forall>r. same_position i r (g r)"
  shows "filter (\<lambda>r. sx_batch r = k) (map g rs) = map g (filter (\<lambda>r. sx_batch r = k) rs)"
    "k \<noteq> i \<Longrightarrow> map g (filter (\<lambda>r. sx_batch r = k) rs) = filter (\<lambda>r. sx_batch r = k) rs"
proof -
  have b: "sx_batch (g r) = sx_batch r" for r using same_position_fields assms by blast
  show "filter (\<lambda>r. sx_batch r = k) (map g rs) = map g (filter (\<lambda>r. sx_batch r = k) rs)"
    by (simp add: filter_map o_def b)
  assume "k \<noteq> i"
  then have "g r = r" if "sx_batch r = k" for r using assms that by (simp add: same_position_def)
  then show "map g (filter (\<lambda>r. sx_batch r = k) rs) = filter (\<lambda>r. sx_batch r = k) rs" by (intro map_idI) simp
qed

lemma reconciled_map:
  assumes "\<forall>r. same_position i r (g r)"
  shows "reconciled (map g st) b = reconciled st b"
proof -
  let ?rows = "filter (\<lambda>r. sx_batch r = cb_id b) st"
  have f: "sx_business (g r) = sx_business r" "chronology_broken (g r) = chronology_broken r" "sx_balance (g r) = sx_balance r" for r
    using same_position_fields assms by blast+
  have "sx_balance \<circ> g = sx_balance" by (rule ext) (simp add: f)
  then show ?thesis unfolding reconciled_def same_position_filter(1) [OF assms] Let_def by (simp add: f)
qed

lemma publish_inv:
  assumes inv: "cbs_inv uuid db" and old: "old \<in> set (cb_batches db)" "cb_id old = i" "cb_state old = Batch_Approved"
    and g: "\<forall>r. same_position i r (g r)"
    and rows: "\<forall>r\<in>set (filter (\<lambda>r. sx_batch r = i) (map g (cb_staging db))).
      sx_reference r = None \<and> sx_token r \<noteq> None \<and> account_of r \<in> set accounts"
    and accounts: "set (cb_accounts db) \<subseteq> set accounts"
    and snapshots: "snapshots = cb_snapshots db @ map snapshot_of (filter (\<lambda>r. sx_batch r = i) (map g (cb_staging db)))"
    and db': "cb_batches db' = map (move_row i Batch_Published reason) (cb_batches db)"
      "cb_history db' = cb_history db @ [(i, Batch_Approved, Batch_Published)]" "cb_staging db' = map g (cb_staging db)"
      "cb_accounts db' = accounts" "cb_snapshots db' = snapshots"
  shows "cbs_inv uuid db'"
proof -
  have d: "distinct (map cb_id (cb_batches db))" using inv by (simp add: cbs_inv_def)
  have ids: "map cb_id (cb_batches db') = map cb_id (cb_batches db)" by (simp add: db')
  then have id_set: "cb_id ` set (cb_batches db') = cb_id ` set (cb_batches db)" by (metis list.set_map)
  let ?new = "map snapshot_of (filter (\<lambda>r. sx_batch r = i) (map g (cb_staging db)))"
  have batch: "sn_batch s = i" if "s \<in> set ?new" for s using that by (auto simp: snapshot_of_def)
  have "staged_key (g r) = staged_key r" for r using same_position_fields g by blast
  then have keys: "map staged_key (cb_staging db') = map staged_key (cb_staging db)" unfolding db' by simp
  have "row_ok db' (move_row i Batch_Published reason b)" if b: "b \<in> set (cb_batches db)" for b
  proof -
    from inv b have ok: "row_ok db b" by (simp add: cbs_inv_def)
    show ?thesis
    proof (cases "cb_id b = i")
      case True
      with same_batch [OF d b old(1)] old(2) have [simp]: "b = old" by simp
      have r: "reconciled (cb_staging db) old" using ok old(3) by (simp add: row_ok_def)
      have none: "filter (\<lambda>s. sn_batch s = i) (cb_snapshots db) = []"
        using ok old(2,3) by (simp add: row_ok_def filter_empty_conv)
      have all: "filter (\<lambda>s. sn_batch s = i) ?new = ?new" by (rule filter_True) (use batch in blast)
      have "tokenized (cb_staging db') (cb_accounts db') (cb_snapshots db') old"
        unfolding tokenized_def db' snapshots filter_append Let_def old(2) none all using rows by simp
      moreover have "lifecycle_path batch_transitions Batch_Received (history_of i db') Batch_Published"
        using ok old(2,3) by (simp add: row_ok_def history_of_def db' lifecycle_path_snoc) (simp add: batch_transitions_def)
      moreover have "reconciled (cb_staging db') old" unfolding db' reconciled_map [OF g] by (rule r)
      ultimately show ?thesis using old(2)
        by (simp add: row_ok_def reconciled_cong [of "move_row i Batch_Published reason old" old]
            tokenized_cong [of "move_row i Batch_Published reason old" old])
    next
      case False
      then have same: "move_row i Batch_Published reason b = b" by (simp add: move_row_def)
      have h: "history_of (cb_id b) db' = history_of (cb_id b) db" using False by (simp add: history_of_def db')
      have r: "reconciled (cb_staging db') b = reconciled (cb_staging db) b" unfolding db' by (rule reconciled_map [OF g])
      have st: "filter (\<lambda>r. sx_batch r = cb_id b) (cb_staging db') = filter (\<lambda>r. sx_batch r = cb_id b) (cb_staging db)"
        unfolding db' same_position_filter(1) [OF g] by (rule same_position_filter(2) [OF g False])
      have "filter (\<lambda>s. sn_batch s = cb_id b) ?new = []" using batch False by (auto simp: filter_empty_conv)
      then have sn: "filter (\<lambda>s. sn_batch s = cb_id b) (cb_snapshots db') = filter (\<lambda>s. sn_batch s = cb_id b) (cb_snapshots db)"
        unfolding db' snapshots filter_append by (simp only: append_Nil2)
      have t: "tokenized (cb_staging db') (cb_accounts db') (cb_snapshots db') b"
        if "tokenized (cb_staging db) (cb_accounts db) (cb_snapshots db) b"
        using that accounts unfolding tokenized_def st sn db'(4) by (auto simp: Let_def)
      have "\<forall>s\<in>set (cb_snapshots db'). sn_batch s \<noteq> cb_id b" if "\<forall>s\<in>set (cb_snapshots db). sn_batch s \<noteq> cb_id b"
        using that batch False unfolding db' snapshots by (metis UnE set_append)
      with ok show ?thesis unfolding same row_ok_def h r using t by blast
    qed
  qed
  then have "\<forall>b\<in>set (cb_batches db'). row_ok db' b" by (simp add: db'(1))
  moreover have "fst ` set (cb_history db') \<subseteq> cb_id ` set (cb_batches db')"
    unfolding id_set using inv old by (auto simp: cbs_inv_def db')
  moreover have "sn_batch ` set (cb_snapshots db') \<subseteq> cb_id ` set (cb_batches db')"
  proof -
    have i: "i \<in> cb_id ` set (cb_batches db)" unfolding old(2) [symmetric] by (rule imageI) (rule old(1))
    have "sn_batch ` set (cb_snapshots db) \<subseteq> cb_id ` set (cb_batches db)" using inv by (simp add: cbs_inv_def)
    moreover have "sn_batch ` set ?new \<subseteq> {i}" by (intro image_subsetI) (simp only: batch singleton_iff)
    then have "sn_batch ` set ?new \<subseteq> cb_id ` set (cb_batches db)" by (rule subset_trans) (use i in simp)
    ultimately show ?thesis unfolding id_set unfolding db'(5) snapshots set_append image_Un by (rule Un_least)
  qed
  moreover have "\<forall>b\<in>set (cb_batches db'). uuid (cb_id b) = Some (cb_id b)" using inv by (simp add: cbs_inv_def db')
  moreover have "distinct (map cb_id (cb_batches db'))" unfolding ids by (rule d)
  moreover have "distinct (map staged_key (cb_staging db'))" unfolding keys using inv by (simp add: cbs_inv_def)
  ultimately show ?thesis unfolding cbs_inv_def by blast
qed

lemma write_tokens_Inr:
  "write_tokens i ts db = Inr db' \<Longrightarrow>
   \<exists>g. db' = db\<lparr>cb_staging := map g (cb_staging db)\<rparr> \<and> (\<forall>r. same_position i r (g r) \<and> sx_reference (g r) = sx_reference r)"
proof (induction ts arbitrary: db)
  case Nil
  then show ?case by (intro exI [of _ "\<lambda>r. r"]) (simp add: same_position_def)
next
  case (Cons t ts)
  obtain reference token where t: "t = (reference, token)" by (cases t)
  let ?f = "\<lambda>r. if sx_batch r = i \<and> reference \<noteq> None \<and> sx_reference r = reference then r\<lparr>sx_token := Some token\<rparr> else r"
  let ?db = "db\<lparr>cb_staging := map ?f (cb_staging db)\<rparr>"
  have f: "same_position i r (?f r) \<and> sx_reference (?f r) = sx_reference r" for r
    by (simp add: same_position_def snapshot_of_def)
  from Cons.prems have "write_tokens i ts ?db = Inr db'" unfolding t by (simp split: if_splits)
  from Cons.IH [OF this] obtain g where g: "db' = ?db\<lparr>cb_staging := map g (cb_staging ?db)\<rparr>"
    "\<forall>r. same_position i r (g r) \<and> sx_reference (g r) = sx_reference r" by blast
  have "db' = db\<lparr>cb_staging := map (\<lambda>r. g (?f r)) (cb_staging db)\<rparr>" by (simp add: g(1) o_def)
  moreover have "same_position i r (g (?f r)) \<and> sx_reference (g (?f r)) = sx_reference r" for r
    using f [of r] g(2) same_position_trans by metis
  ultimately show ?case by (intro exI [of _ "\<lambda>r. g (?f r)"]) blast
qed

lemma open_accounts_grow: "set as \<subseteq> set (open_accounts rs as)"
  by (induction rs arbitrary: as) (auto, metis in_set_conv_decomp subset_iff append_is_Nil_conv UnCI set_append)

lemma open_accounts_ids: "r \<in> set rs \<Longrightarrow> sx_account r \<in> iv_id ` set (open_accounts rs as)"
proof (induction rs arbitrary: as)
  case (Cons q rs)
  let ?as = "if sx_account q \<in> iv_id ` set as then as else as @ [account_of q]"
  show ?case
  proof (cases "r = q")
    case True
    have "sx_account q \<in> iv_id ` set ?as" by (auto simp: account_of_def)
    moreover have "iv_id ` set ?as \<subseteq> iv_id ` set (open_accounts rs ?as)" by (rule image_mono [OF open_accounts_grow])
    ultimately have "sx_account q \<in> iv_id ` set (open_accounts rs ?as)" by (rule subsetD [rotated])
    then show ?thesis using True by simp
  next
    case False
    with Cons.prems Cons.IH [of ?as] show ?thesis by simp
  qed
qed simp

lemma open_accounts_rows:
  assumes "r \<in> set rs" "\<not> account_conflict (open_accounts rs as) r"
  shows "account_of r \<in> set (open_accounts rs as)"
proof -
  obtain a where "a \<in> set (open_accounts rs as)" "iv_id a = sx_account r" using open_accounts_ids [OF assms(1)] by force
  with assms(2) show ?thesis by (auto simp: account_conflict_def)
qed

lemma add_snapshots_fresh:
  "distinct (map staged_key rs) \<Longrightarrow> staged_key ` set rs \<inter> snapshot_key ` set ss = {} \<Longrightarrow>
   add_snapshots rs ss = ss @ map snapshot_of rs"
proof (induction rs arbitrary: ss)
  case (Cons r rs)
  have key: "snapshot_key (snapshot_of q) = staged_key q" for q by (simp add: snapshot_key_def snapshot_of_def staged_key_def)
  from Cons.prems have "staged_key r \<notin> snapshot_key ` set ss" by auto
  moreover have "staged_key ` set rs \<inter> snapshot_key ` set (ss @ [snapshot_of r]) = {}" using Cons.prems by (auto simp: key)
  ultimately show ?case using Cons.IH [of "ss @ [snapshot_of r]"] Cons.prems(1) by (simp add: key)
qed simp

lemma publish_batch_Inr:
  assumes "publish_batch uuid stamp batch tokens db = Inr (n, db')" "cbs_inv uuid db" "uuid batch = Some i"
  shows "(map_option cb_state (find_batch i db) = Some Batch_Published \<and> n = 0 \<and> db' = db)
    \<or> (cbs_inv uuid db' \<and> (\<exists>b\<in>set (cb_batches db'). cb_id b = i \<and> cb_state b = Batch_Published)
        \<and> map (\<lambda>b. (cb_id b, replay_key b)) (cb_batches db') = map (\<lambda>b. (cb_id b, replay_key b)) (cb_batches db))"
proof (cases "map_option cb_state (find_batch i db) = Some Batch_Published")
  case True
  with assms show ?thesis by (simp add: publish_batch_def as_uuid_def)
next
  case False
  have run: "and_then (move_batch uuid batch [Batch_Validated, Batch_Approved] Batch_Approved
       (\<lambda>_. Some ''AUTO_QUALITY_CONTROLS'') '' is not validated'' db) (\<lambda>moved.
       and_then (write_tokens i tokens (snd moved)) (write_positions uuid stamp batch i)) = Inr (n, db')"
    using assms(1) unfolding publish_batch_def as_uuid_def assms(3) by (simp only: option.case and_then_simps False if_False)
  then obtain moved db2 where moved: "move_batch uuid batch [Batch_Validated, Batch_Approved] Batch_Approved
       (\<lambda>_. Some ''AUTO_QUALITY_CONTROLS'') '' is not validated'' db = Inr moved"
    and tokens: "write_tokens i tokens (snd moved) = Inr db2" and rest: "write_positions uuid stamp batch i db2 = Inr (n, db')"
    unfolding and_then_Inr by blast
  define db1 where "db1 = snd moved"
  have approve: "move_batch uuid batch [Batch_Validated, Batch_Approved] Batch_Approved
       (\<lambda>_. Some ''AUTO_QUALITY_CONTROLS'') '' is not validated'' db = Inr (fst moved, db1)"
    unfolding db1_def moved prod.collapse ..
  note tokens = tokens [folded db1_def]
  define rows where "rows = staged_of i db2"
  define accounts where "accounts = open_accounts rows (cb_accounts db2)"
  define snapshots where "snapshots = add_snapshots rows (cb_snapshots db2)"
  from rest obtain u3 db3 where token: "\<forall>r\<in>set rows. sx_token r \<noteq> None" and conflict: "\<forall>r\<in>set rows. \<not> account_conflict accounts r"
    and publish: "move_batch uuid batch [Batch_Approved] Batch_Published (\<lambda>_. None) '' publication transition failed''
           (db2\<lparr>cb_accounts := accounts, cb_snapshots := snapshots\<rparr>) = Inr (u3, db3)"
    and db': "\<exists>m. db' = emit_published stamp i m (forget_references i db3)"
    unfolding write_positions_def Let_def rows_def [symmetric] accounts_def [symmetric] snapshots_def [symmetric]
      if_throw_Inr and_then_Inr by auto
  let ?null = "\<lambda>r. if sx_batch r = i \<and> sx_token r \<noteq> None then r\<lparr>sx_reference := None\<rparr> else r"
  from write_tokens_Inr [OF tokens] obtain g where db2: "db2 = db1\<lparr>cb_staging := map g (cb_staging db1)\<rparr>"
    and g: "\<forall>r. same_position i r (g r)" by blast
  let ?h = "\<lambda>r. ?null (g r)"
  have null: "same_position i r (?null r)" for r by (simp add: same_position_def snapshot_of_def)
  have h: "\<forall>r. same_position i r (?h r)"
  proof
    fix r show "same_position i r (?h r)" using null [of "g r"] g same_position_trans by metis
  qed
  from approve show ?thesis
  proof (rule move_batch_Inr)
    fix j1 old1 assume j1: "uuid batch = Some j1" and m1: "old1 \<in> set (cb_batches db)" "cb_id old1 = j1"
        "cb_state old1 = Batch_Approved \<or> Batch_Approved \<in> set (batch_transitions (cb_state old1))"
      and from1: "cb_state old1 \<in> set [Batch_Validated, Batch_Approved]"
      and db1: "db1 = db\<lparr>cb_batches := map (move_row j1 Batch_Approved (\<lambda>_. Some ''AUTO_QUALITY_CONTROLS'')) (cb_batches db),
       cb_history := cb_history db @ (if cb_state old1 = Batch_Approved then [] else [(j1, cb_state old1, Batch_Approved)])\<rparr>"
    have "reconciled (cb_staging db) old1" using assms(2) m1(1) from1 by (auto simp: cbs_inv_def row_ok_def)
    then have inv1: "cbs_inv uuid db1" unfolding db1 by (intro move_keeps_inv [OF assms(2) m1]) simp_all
    from publish show ?thesis
    proof (rule move_batch_Inr)
      fix j2 old2 assume j2: "uuid batch = Some j2"
        and m2: "old2 \<in> set (cb_batches (db2\<lparr>cb_accounts := accounts, cb_snapshots := snapshots\<rparr>))" "cb_id old2 = j2"
        and from2: "cb_state old2 \<in> set [Batch_Approved]"
        and db3: "db3 = (db2\<lparr>cb_accounts := accounts, cb_snapshots := snapshots\<rparr>)\<lparr>
          cb_batches := map (move_row j2 Batch_Published (\<lambda>_. None)) (cb_batches (db2\<lparr>cb_accounts := accounts, cb_snapshots := snapshots\<rparr>)),
          cb_history := cb_history (db2\<lparr>cb_accounts := accounts, cb_snapshots := snapshots\<rparr>)
            @ (if cb_state old2 = Batch_Published then [] else [(j2, cb_state old2, Batch_Published)])\<rparr>"
      have js: "j1 = i" "j2 = i" using j1 j2 assms(3) by simp_all
      have old2: "old2 \<in> set (cb_batches db1)" "cb_id old2 = i" "cb_state old2 = Batch_Approved"
        using m2 from2 js by (simp_all add: db2)
      have r1: "rows = filter (\<lambda>r. sx_batch r = i) (map g (cb_staging db1))" by (simp add: rows_def staged_of_def db2)
      have nulled: "filter (\<lambda>r. sx_batch r = i) (map ?h (cb_staging db1)) = map ?null rows"
        using same_position_filter(1) [of i ?null i "map g (cb_staging db1)"] null by (simp add: r1 o_def)
      have fields: "cb_batches db' = map (move_row i Batch_Published (\<lambda>_. None)) (cb_batches db1)"
        "cb_history db' = cb_history db1 @ [(i, Batch_Approved, Batch_Published)]" "cb_staging db' = map ?h (cb_staging db1)"
        "cb_accounts db' = accounts" "cb_snapshots db' = snapshots"
        using db' old2(3) by (auto simp: emit_published_def forget_references_def db3 db2 js o_def split: option.splits)
      have keys: "map staged_key rows = map staged_key (filter (\<lambda>r. sx_batch r = i) (cb_staging db1))"
      proof -
        have k: "staged_key (g r) = staged_key r" for r using same_position_fields g by blast
        show ?thesis unfolding r1 same_position_filter(1) [OF g] by (simp add: k)
      qed
      have dk: "distinct (map staged_key rows)"
        using inv1 unfolding keys by (intro distinct_map_filter) (simp add: cbs_inv_def)
      have fresh: "staged_key ` set rows \<inter> snapshot_key ` set (cb_snapshots db2) = {}"
      proof -
        have ok: "row_ok db1 old2" using inv1 old2(1) by (simp add: cbs_inv_def)
        then have "\<forall>s\<in>set (cb_snapshots db2). sn_batch s \<noteq> i" using old2(2,3) by (simp add: row_ok_def db2)
        moreover have "\<forall>r\<in>set rows. sx_batch r = i" by (simp add: rows_def staged_of_def)
        ultimately show ?thesis by (auto simp: staged_key_def snapshot_key_def)
      qed
      have snap: "snapshots = cb_snapshots db1 @ map snapshot_of (filter (\<lambda>r. sx_batch r = i) (map ?h (cb_staging db1)))"
      proof -
        have "map snapshot_of (map ?null rows) = map snapshot_of rows" by (simp add: snapshot_of_def)
        with add_snapshots_fresh [OF dk fresh] show ?thesis unfolding nulled snapshots_def by (simp add: db2)
      qed
      have "account_of (?null r) \<in> set accounts" if "r \<in> set rows" for r
      proof -
        have "account_of r \<in> set accounts" using open_accounts_rows that conflict unfolding accounts_def by blast
        moreover have "account_of (?null r) = account_of r" by (simp add: account_of_def)
        ultimately show ?thesis by simp
      qed
      moreover have "\<forall>r\<in>set rows. sx_batch r = i" by (simp add: rows_def staged_of_def)
      ultimately have all: "\<forall>r\<in>set (filter (\<lambda>r. sx_batch r = i) (map ?h (cb_staging db1))).
          sx_reference r = None \<and> sx_token r \<noteq> None \<and> account_of r \<in> set accounts"
        unfolding nulled using token by auto
      have grow: "set (cb_accounts db1) \<subseteq> set accounts" unfolding accounts_def db2 using open_accounts_grow by simp
      have "cbs_inv uuid db'"
        by (rule publish_inv [OF inv1 old2 h all grow snap fields])
      moreover have "\<exists>b\<in>set (cb_batches db'). cb_id b = i \<and> cb_state b = Batch_Published"
        unfolding fields using old2(1,2) by (intro bexI [of _ "move_row i Batch_Published (\<lambda>_. None) old2"]) auto
      moreover have "map (\<lambda>b. (cb_id b, replay_key b)) (cb_batches db') = map (\<lambda>b. (cb_id b, replay_key b)) (cb_batches db)"
        unfolding fields by (simp add: db1 o_def)
      ultimately show ?thesis by blast
    qed
  qed
qed

lemma publish_batch_keeps: "keeps (at_batch uuid i date) (transaction (publish_batch uuid stamp batch tokens))"
proof (rule keeps_transaction)
  fix s n s' assume run: "publish_batch uuid stamp batch tokens s = Inr (n, s')" and p: "at_batch uuid i date s"
  from run obtain k where k: "uuid batch = Some k" unfolding publish_batch_def and_then_Inr as_simps by blast
  have inv: "cbs_inv uuid s" using p by (simp add: at_batch_def)
  from publish_batch_Inr [OF run inv k] show "at_batch uuid i date s'"
  proof
    assume "map_option cb_state (find_batch k s) = Some Batch_Published \<and> n = 0 \<and> s' = s"
    with p show ?thesis by simp
  next
    assume a: "cbs_inv uuid s' \<and> (\<exists>b\<in>set (cb_batches s'). cb_id b = k \<and> cb_state b = Batch_Published)
        \<and> map (\<lambda>b. (cb_id b, replay_key b)) (cb_batches s') = map (\<lambda>b. (cb_id b, replay_key b)) (cb_batches s)"
    from p obtain b where b: "b \<in> set (cb_batches s)" "cb_id b = i" "cb_date b = date" by (auto simp: at_batch_def)
    then have "(i, replay_key b) \<in> set (map (\<lambda>b. (cb_id b, replay_key b)) (cb_batches s))" by force
    then have "(i, replay_key b) \<in> set (map (\<lambda>b. (cb_id b, replay_key b)) (cb_batches s'))" using a by (simp only:)
    then obtain c where "c \<in> set (cb_batches s')" "cb_id c = i" "replay_key c = replay_key b" by auto
    with a b(3) show ?thesis unfolding at_batch_def by (auto simp: replay_key_def)
  qed
qed

lemma publish_keeps [keeps_rule]:
  "keeps (at_batch uuid i date) (publish_positions (\<lambda>i. read_only (batch_published uuid i))
       (\<lambda>i. read_only (batch_references uuid collate i)) tokenize
       (\<lambda>i tokens. transaction (publish_batch uuid stamp i tokens)) batch correlation)"
  unfolding publish_positions_def Let_def by (intro keeps_rule publish_batch_keeps)

section \<open>A message keeps the invariant\<close>

lemma worker_simps [simp]:
  "wk_authenticate (cbs_worker_of uuid p) = Some (authenticate_manifest (pt_json p) (pt_clock p) (pt_verify p)
       (\<lambda>i result reason. transaction (record_authentication uuid i result reason)) (pt_window p))"
  "wk_scan (cbs_worker_of uuid p) = Some (scan_batch (pt_load p) (pt_digest p) (pt_antivirus p)
       (\<lambda>i expected to reason. transaction (transition_batch uuid i expected to reason)))"
  "wk_stage (cbs_worker_of uuid p) = Some (stage_positions (pt_decode p) (\<lambda>i rows. transaction (stage_batch uuid i rows)))"
  "wk_validate (cbs_worker_of uuid p) = Some (validate_positions (\<lambda>i date. read_only (inspect_batch uuid i date))
       (\<lambda>i date. read_only (pt_quarantine p i date)) (\<lambda>i decision reason. transaction (record_decision uuid i decision reason)))"
  "wk_publish (cbs_worker_of uuid p) = Some (publish_positions (\<lambda>i. read_only (batch_published uuid i))
       (\<lambda>i. read_only (batch_references uuid (pt_collate p) i)) (pt_tokenize p)
       (\<lambda>i tokens. transaction (publish_batch uuid (pt_stamp p) i tokens)))"
  "wk_register (cbs_worker_of uuid p) = register_batch (\<lambda>b. transaction (register_received uuid b))"
  by (simp_all add: cbs_worker_of_def)

lemma steps_keep [keeps_rule]:
  "keeps (at_batch uuid i date) (authenticate_step (cbs_worker_of uuid p) m b state)"
  "keeps (at_batch uuid i date) (scan_step (cbs_worker_of uuid p) b r authentication)"
  "keeps (at_batch uuid i date) (stage_step (cbs_worker_of uuid p) b r scanned)"
  "keeps (at_batch uuid i date) (publish_step (cbs_worker_of uuid p) m batch)"
  "keeps (at_batch uuid i date) (resume_step (cbs_worker_of uuid p) m b r)"
proof -
  show a: "keeps (at_batch uuid i date) (publish_step (cbs_worker_of uuid p) m batch)" for batch
    unfolding publish_step_def worker_simps required_case_def option.case by (intro keeps_rule)
  show "keeps (at_batch uuid i date) (authenticate_step (cbs_worker_of uuid p) m b state)"
    unfolding authenticate_step_def worker_simps required_case_def option.case by (intro keeps_rule)
  show "keeps (at_batch uuid i date) (scan_step (cbs_worker_of uuid p) b r authentication)"
    unfolding scan_step_def worker_simps option.case by (intro keeps_rule)
  show "keeps (at_batch uuid i date) (stage_step (cbs_worker_of uuid p) b r scanned)"
    unfolding stage_step_def worker_simps required_case_def option.case
    by (cases scanned) (simp_all add: keeps_rule)
  show "keeps (at_batch uuid i date) (resume_step (cbs_worker_of uuid p) m b r)"
    unfolding resume_step_def by (intro keeps_rule a)
qed

lemma validate_step_keeps [keeps_rule]:
  "keeps (at_batch uuid (rg_batch r) (ba_date b)) (validate_step (cbs_worker_of uuid p) m b r scanned)"
  unfolding validate_step_def worker_simps required_case_def option.case by (intro keeps_rule validate_keeps)

lemma process_keeps:
  assumes "uuid_laws uuid"
  shows "keeps (cbs_inv uuid) (process_batch (cbs_worker_of uuid p) m)"
  unfolding keeps_def
proof (intro allI impI)
  fix s assume inv: "cbs_inv uuid s"
  show "cbs_inv uuid (snd (process_batch (cbs_worker_of uuid p) m s))"
  proof (cases "read_descriptor m")
    case (Inl e)
    with inv show ?thesis by (simp add: process_batch_def and_do_def)
  next
    case (Inr b)
    note b = this
    let ?rest = "\<lambda>r. if batch_settled (rg_state r) then give None
     else and_do (authenticate_step (cbs_worker_of uuid p) m b (rg_state r)) (\<lambda>authentication.
       if authentication = Some Batch_Rejected then give None
       else and_do (scan_step (cbs_worker_of uuid p) b r authentication) (\<lambda>scanned.
         and_do (stage_step (cbs_worker_of uuid p) b r scanned) (\<lambda>_. and_do (validate_step (cbs_worker_of uuid p) m b r scanned) (\<lambda>_.
         and_do (resume_step (cbs_worker_of uuid p) m b r) (\<lambda>_. give None)))))"
    show ?thesis
    proof (cases "and_then (validate_descriptor b) (\<lambda>_. register_received uuid b s)")
      case (Inl e)
      then have "snd (register_batch (\<lambda>b. transaction (register_received uuid b)) b s) = s
          \<and> fst (register_batch (\<lambda>b. transaction (register_received uuid b)) b s) = Inl e"
        by (auto simp: register_batch_def and_do_def transaction_def and_then_Inl split: sum.splits)
      with inv b show ?thesis by (auto simp: process_batch_def and_do_def split: prod.splits)
    next
      case (Inr y)
      obtain r s1 where y: "y = (r, s1)" by (cases y)
      have reg: "register_batch (\<lambda>b. transaction (register_received uuid b)) b s = (Inr r, s1)"
        using Inr y by (auto simp: register_batch_def and_do_def transaction_def and_then_Inr split: sum.splits)
      have "register_received uuid b s = Inr (r, s1)" using Inr y by (auto simp: and_then_Inr)
      then have p: "at_batch uuid (rg_batch r) (ba_date b) s1" by (rule register_at_batch [OF inv assms])
      have "keeps (at_batch uuid (rg_batch r) (ba_date b)) (?rest r)" by (intro keeps_rule)
      with p have "at_batch uuid (rg_batch r) (ba_date b) (snd (?rest r s1))" unfolding keeps_def by blast
      then have "cbs_inv uuid (snd (?rest r s1))" unfolding at_batch_def by (rule conjunct1)
      moreover have "process_batch (cbs_worker_of uuid p) m s = ?rest r s1"
        by (simp add: process_batch_def and_do_def b reg)
      ultimately show ?thesis by (simp only:)
    qed
  qed
qed

lemma inbox_keeps: "keeps (cbs_inv uuid) (inbox_begin c m)" "keeps (cbs_inv uuid) (inbox_complete c i k)"
  "keeps (cbs_inv uuid) (inbox_abandon c i)"
proof -
  have rows: "cbs_inv uuid (db\<lparr>ib_rows := rs\<rparr>) = cbs_inv uuid db" for db :: cbs_db and rs
    by (simp add: cbs_inv_def row_ok_def history_of_def)
  show "keeps (cbs_inv uuid) (inbox_begin c m)"
    by (auto simp: keeps_def inbox_begin_def Let_def rows split: option.splits)
  show "keeps (cbs_inv uuid) (inbox_complete c i k)" "keeps (cbs_inv uuid) (inbox_abandon c i)"
    by (auto simp: keeps_def inbox_complete_def inbox_abandon_def rows)
qed

lemma ingest_keeps: "uuid_laws uuid \<Longrightarrow> keeps (cbs_inv uuid) (ingest uuid p m)"
  unfolding ingest_def handle_cbs_message_def handle_message_def
  by (intro keeps_rule inbox_keeps process_keeps)

text \<open>
  What happens to the tables: messages are handled, with any outcome and any behaviour of the
  ports; time passes, the reference data and the open exceptions change, and other modules open
  accounts.
\<close>

inductive cbs_reachable :: "(string \<Rightarrow> string option) \<Rightarrow> cbs_db \<Rightarrow> bool" for uuid where
  start: "cb_batches db = [] \<Longrightarrow> cb_history db = [] \<Longrightarrow> cb_staging db = [] \<Longrightarrow> cb_snapshots db = [] \<Longrightarrow> cbs_reachable uuid db"
| message: "cbs_reachable uuid db \<Longrightarrow> ingest uuid p m db = (outcome, db') \<Longrightarrow> cbs_reachable uuid db'"
| other: "cbs_reachable uuid db \<Longrightarrow> cbs_reachable uuid (db\<lparr>ib_clock := now, cb_currencies := currencies, cb_products := products,
    cb_blocked := blocked, cb_accounts := cb_accounts db @ accounts\<rparr>)"

lemma cbs_reachable_inv:
  assumes "cbs_reachable uuid db" "uuid_laws uuid"
  shows "cbs_inv uuid db"
  using assms(1)
proof (induction rule: cbs_reachable.induct)
  case (start db)
  then show ?case by (simp add: cbs_inv_def)
next
  case (message db p m r db')
  from message(2) keepsD [OF ingest_keeps [OF assms(2)] message(3)] show ?case by simp
next
  case (other db now currencies products blocked accounts)
  then show ?case by (auto simp: cbs_inv_def row_ok_def history_of_def tokenized_def Let_def)
qed

end
