(* ===== verification/Cbs_Pipeline.thy ===== *)
theory Cbs_Pipeline
  imports Cbs_Correct
begin

text \<open>
  What the ingestion guarantees of a batch from its message to its publication: it comes to an end
  of its life, in few steps, and what is published is what the manifest announced.
\<close>

section \<open>A processed message settles its batch\<close>

definition batch_in :: "string \<Rightarrow> batch_state \<Rightarrow> cbs_db \<Rightarrow> bool" where
  "batch_in i state db \<longleftrightarrow> (\<exists>b\<in>set (cb_batches db). cb_id b = i \<and> cb_state b = state)"

lemma move_done: "move_batch uuid batch from to reason problem db = Inr (u, db') \<Longrightarrow> uuid batch = Some i \<Longrightarrow> batch_in i to db'"
  by (erule move_batch_Inr) (force simp: batch_in_def)

lemma authenticate_done:
  assumes "authenticate_manifest lib clock verify (\<lambda>i result reason. transaction (record_authentication uuid i result reason)) w m s = (Inr x, s')"
    "uuid (ba_batch m) = Some i"
  shows "x = Batch_Authenticated \<or> x = Batch_Rejected \<and> batch_in i Batch_Rejected s'"
  using assms unfolding authenticate_manifest_def record_authentication_def transition_batch_def and_do_Inr
  by (auto simp: and_do_Inr transaction_Inr split: if_splits dest: move_done)

lemma scan_done:
  assumes "scan_batch load digest antivirus (\<lambda>i expected to reason. transaction (transition_batch uuid i expected to reason)) b s
      = (Inr None, s')" "uuid (ba_batch b) = Some i"
  shows "batch_in i Batch_Quarantined s'"
  using assms unfolding scan_batch_def transition_batch_def and_do_Inr
  by (auto simp: and_do_Inr transaction_Inr split: if_splits dest: move_done)

lemma publish_step_done:
  assumes "publish_step (cbs_worker_of uuid p) m i s = (Inr (), s')" "at_batch uuid i date s"
  shows "batch_in i Batch_Published s'"
proof -
  from assms(2) have inv: "cbs_inv uuid s" and u: "uuid i = Some i" by (auto simp: at_batch_def cbs_inv_def)
  from assms(1) obtain n where "publish_positions (\<lambda>i. read_only (batch_published uuid i))
       (\<lambda>i. read_only (batch_references uuid (pt_collate p) i)) (pt_tokenize p)
       (\<lambda>i tokens. transaction (publish_batch uuid (pt_stamp p) i tokens)) i (ms_correlation m) s = (Inr n, s')"
    by (auto simp: publish_step_def required_case_def and_do_Inr)
  then have "(batch_published uuid i s = Inr True \<and> s' = s) \<or> (\<exists>ts. publish_batch uuid (pt_stamp p) i ts s = Inr (n, s'))"
    unfolding publish_positions_def read_only_def and_do_Inr Let_def
    by (auto simp: and_do_Inr transaction_Inr split: if_splits)
  then show ?thesis
  proof (elim disjE exE conjE)
    assume "batch_published uuid i s = Inr True" "s' = s"
    then show ?thesis using u by (auto simp: batch_published_def as_uuid_def batch_in_def find_batch_def dest: find_SomeD)
  next
    fix ts assume "publish_batch uuid (pt_stamp p) i ts s = Inr (n, s')"
    from publish_batch_Inr [OF this inv u] show ?thesis
      by (auto simp: batch_in_def find_batch_def dest: find_SomeD)
  qed
qed

lemma validate_step_done:
  assumes "validate_step (cbs_worker_of uuid p) m b r scanned s = (Inr (), s')" "at_batch uuid (rg_batch r) (ba_date b) s"
    "positions_flow b" "rg_state r = Batch_Staged \<or> scanned \<noteq> None"
  shows "batch_in (rg_batch r) Batch_Rejected s' \<or> batch_in (rg_batch r) Batch_Published s'"
proof -
  let ?v = "validate_positions (\<lambda>i date. read_only (inspect_batch uuid i date))
       (\<lambda>i date. read_only (pt_quarantine p i date)) (\<lambda>i decision reason. transaction (record_decision uuid i decision reason))
       (rg_batch r) (ba_date b)"
  from assms(2) have u: "uuid (rg_batch r) = Some (rg_batch r)" by (auto simp: at_batch_def cbs_inv_def)
  from assms(1,3,4) obtain x s1 where v: "?v s = (Inr x, s1)"
    and rest: "(if x = Batch_Validated then publish_step (cbs_worker_of uuid p) m (rg_batch r) else give ()) s1 = (Inr (), s')"
    unfolding validate_step_def worker_simps required_case_def option.case by (auto simp: and_do_Inr)
  have "x = Batch_Validated \<or> x = Batch_Rejected \<and> batch_in (rg_batch r) Batch_Rejected s1"
    using v unfolding validate_positions_def record_decision_def and_do_Inr
    by (auto simp: and_do_Inr transaction_Inr split: if_splits dest: move_done [where uuid = uuid and i = "rg_batch r", OF _ u])
  moreover have "at_batch uuid (rg_batch r) (ba_date b) s1" by (rule keepsD [OF validate_keeps assms(2) v])
  ultimately show ?thesis using rest publish_step_done by (auto split: if_splits)
qed

lemma process_settles:
  assumes run: "process_batch (cbs_worker_of uuid p) m s = (Inr k, s')" and b: "read_descriptor m = Inr b"
    and flow: "positions_flow b" and inv: "cbs_inv uuid s" and laws: "uuid_laws uuid"
    and replay: "\<forall>q\<in>set (cb_batches s). \<forall>n. replay_key q = (ba_source b, ba_date b, ba_flow b, n) \<longrightarrow>
      js_int (ba_sequence b) = Some n \<longrightarrow> uuid (ba_batch b) = Some (cb_id q)"
  shows "\<exists>i t. uuid (ba_batch b) = Some i \<and> batch_in i t s' \<and> batch_settled t"
proof -
  let ?w = "cbs_worker_of uuid p"
  from run b obtain r s1 where reg: "register_received uuid b s = Inr (r, s1)"
    and rest: "(if batch_settled (rg_state r) then give None
     else and_do (authenticate_step ?w m b (rg_state r)) (\<lambda>authentication.
       if authentication = Some Batch_Rejected then give None
       else and_do (scan_step ?w b r authentication) (\<lambda>scanned.
         and_do (stage_step ?w b r scanned) (\<lambda>_. and_do (validate_step ?w m b r scanned) (\<lambda>_.
         and_do (resume_step ?w m b r) (\<lambda>_. give None)))))) s1 = (Inr k, s')"
    unfolding process_batch_def worker_simps register_batch_def and_do_Inr by (auto simp: transaction_Inr)
  let ?i = "rg_batch r"
  have at1: "at_batch uuid ?i (ba_date b) s1" by (rule register_at_batch [OF inv laws reg])
  have id: "uuid (ba_batch b) = Some ?i" and in1: "batch_in ?i (rg_state r) s1"
    using reg replay by (auto elim!: register_received_Inr simp: batch_in_def)
  have uuid: "uuid ?i = Some ?i" using at1 by (auto simp: at_batch_def cbs_inv_def)
  show ?thesis
  proof (cases "batch_settled (rg_state r)")
    case True
    with rest in1 id show ?thesis by auto
  next
    case unsettled: False
    from rest unsettled obtain authentication s2 where a: "authenticate_step ?w m b (rg_state r) s1 = (Inr authentication, s2)"
      and rest2: "(if authentication = Some Batch_Rejected then give None
       else and_do (scan_step ?w b r authentication) (\<lambda>scanned.
         and_do (stage_step ?w b r scanned) (\<lambda>_. and_do (validate_step ?w m b r scanned) (\<lambda>_.
         and_do (resume_step ?w m b r) (\<lambda>_. give None))))) s2 = (Inr k, s')"
      by (auto simp: and_do_Inr)
    have at2: "at_batch uuid ?i (ba_date b) s2" by (rule keepsD [OF steps_keep(1) at1 a])
    have auth: "if rg_state r = Batch_Received then authentication = Some Batch_Authenticated
          \<or> authentication = Some Batch_Rejected \<and> batch_in ?i Batch_Rejected s2
        else authentication = None"
      using a id unfolding authenticate_step_def worker_simps required_case_def option.case
      by (auto simp: and_do_Inr cbs_descriptor.extend_def dest!: authenticate_done split: if_splits)
    show ?thesis
    proof (cases "authentication = Some Batch_Rejected")
      case True
      with auth rest2 have "batch_in ?i Batch_Rejected s'" by (auto split: if_splits)
      with id show ?thesis by (intro exI [of _ ?i] exI [of _ Batch_Rejected]) (simp add: batch_settled_def)
    next
      case False
      with rest2 obtain scanned s3 s4 s5 where sc: "scan_step ?w b r authentication s2 = (Inr scanned, s3)"
        and st: "stage_step ?w b r scanned s3 = (Inr (), s4)" and va: "validate_step ?w m b r scanned s4 = (Inr (), s5)"
        and re: "resume_step ?w m b r s5 = (Inr (), s')"
        by (auto simp: and_do_Inr)
      have at3: "at_batch uuid ?i (ba_date b) s3" by (rule keepsD [OF steps_keep(2) at2 sc])
      have at4: "at_batch uuid ?i (ba_date b) s4" by (rule keepsD [OF steps_keep(3) at3 st])
      have at5: "at_batch uuid ?i (ba_date b) s5" by (rule keepsD [OF validate_step_keeps at4 va])
      let ?early = "rg_state r \<in> {Batch_Received, Batch_Authenticated, Batch_Scanned}"
      have states: "?early \<or> rg_state r \<in> {Batch_Staged, Batch_Validated, Batch_Approved}"
        using unsettled by (cases "rg_state r") (auto simp: batch_settled_def)
      show ?thesis
      proof (cases "?early \<and> scanned = None")
        case True
        then have "batch_in ?i Batch_Quarantined s3"
          using sc auth False uuid unfolding scan_step_def worker_simps option.case
          by (auto split: if_splits dest!: scan_done)
        moreover have "s4 = s3" "s5 = s4" "s' = s5" using st va re True
          by (auto simp: stage_step_def validate_step_def resume_step_def split: if_splits)
        ultimately show ?thesis using id by (intro exI [of _ ?i] exI [of _ Batch_Quarantined]) (simp add: batch_settled_def)
      next
        case late: False
        show ?thesis
        proof (cases "rg_state r \<in> {Batch_Validated, Batch_Approved}")
          case True
          with re flow have "publish_step ?w m ?i s5 = (Inr (), s')" by (auto simp: resume_step_def)
          from publish_step_done [OF this at5] id show ?thesis
            by (intro exI [of _ ?i] exI [of _ Batch_Published]) (simp add: batch_settled_def)
        next
          case other: False
          then have "rg_state r = Batch_Staged \<or> scanned \<noteq> None" using states late by auto
          from validate_step_done [OF va at4 flow this]
          have "batch_in ?i Batch_Rejected s5 \<or> batch_in ?i Batch_Published s5" .
          moreover have "s' = s5" using re other by (auto simp: resume_step_def)
          ultimately show ?thesis using id unfolding batch_settled_def by auto
        qed
      qed
    qed
  qed
qed

section \<open>The properties\<close>

definition batch_rank :: "batch_state \<Rightarrow> nat" where
  "batch_rank s = (case s of Batch_Received \<Rightarrow> 0 | Batch_Authenticated \<Rightarrow> 1 | Batch_Scanned \<Rightarrow> 2 | Batch_Staged \<Rightarrow> 3
     | Batch_Validated \<Rightarrow> 4 | Batch_Approved \<Rightarrow> 5 | _ \<Rightarrow> 6)"

lemma batch_rank_forward: "t \<in> set (batch_transitions s) \<Longrightarrow> batch_rank s < batch_rank t"
  by (cases s) (auto simp: batch_transitions_def batch_rank_def)

interpretation batch: lifecycle batch_transitions batch_rank
  by unfold_locales (rule batch_rank_forward)

lemma batch_rank_le: "batch_rank s \<le> 6"
  by (cases s) (simp_all add: batch_rank_def)

text \<open>
  C31. The life of a batch is short and ends: in every reachable state the recorded changes of state
  of a batch lead from RECEIVED to its present state along allowed transitions, at most six of them
  and never back to a state it was in; a settled state allows no further one, and the transition
  relation is well founded.
\<close>

theorem batch_history_terminates:
  assumes "cbs_reachable uuid db" "uuid_laws uuid" "b \<in> set (cb_batches db)"
  shows "lifecycle_path batch_transitions Batch_Received (history_of (cb_id b) db) (cb_state b)
    \<and> length (history_of (cb_id b) db) \<le> 6 \<and> (batch_settled (cb_state b) = (batch_transitions (cb_state b) = []))
    \<and> wf {(t, s). t \<in> set (batch_transitions s)}"
proof -
  have path: "lifecycle_path batch_transitions Batch_Received (history_of (cb_id b) db) (cb_state b)"
    using cbs_reachable_inv [OF assms(1,2)] assms(3) by (simp add: cbs_inv_def row_ok_def)
  have "length (history_of (cb_id b) db) \<le> 6" using batch.path_bound [OF path] batch_rank_le [of "cb_state b"] by simp
  moreover have "batch_settled (cb_state b) = (batch_transitions (cb_state b) = [])"
    by (cases "cb_state b") (simp_all add: batch_settled_def batch_transitions_def)
  moreover have "wf {(t, s). t \<in> set (batch_transitions s)}" using batch.terminates [of 6] by (simp add: batch_rank_le)
  ultimately show ?thesis using path by blast
qed

text \<open>
  C29. What is published is what the manifest announced: in every reachable state, messages being
  handled one after the other and each as one step with any outcome, the positions
  published from a batch are as many as its manifest says and add up to its balance total, to the
  last stored digit; they carry the business date of the batch, each belongs to an account that was
  opened under a token, and no customer reference of the batch is left in the staging table.
\<close>

theorem published_batch_reconciles:
  assumes "cbs_reachable uuid db" "uuid_laws uuid" "b \<in> set (cb_batches db)" "cb_state b = Batch_Published"
    "ps = filter (\<lambda>s. sn_batch s = cb_id b) (cb_snapshots db)"
  shows "ps \<noteq> [] \<and> int (length ps) = cb_rows b \<and> sum_list (map sn_balance ps) = cb_balance b
    \<and> (\<forall>s\<in>set ps. sn_business s = cb_date b
        \<and> (\<exists>a\<in>set (cb_accounts db). iv_id a = sn_account s \<and> iv_currency a = sn_currency s))
    \<and> (\<forall>r\<in>set (cb_staging db). sx_batch r = cb_id b \<longrightarrow> sx_reference r = None \<and> sx_token r \<noteq> None)"
proof -
  let ?rows = "filter (\<lambda>r. sx_batch r = cb_id b) (cb_staging db)"
  have "row_ok db b" using cbs_reachable_inv [OF assms(1,2)] assms(3) by (simp add: cbs_inv_def)
  then have r: "?rows \<noteq> []" "int (length ?rows) = cb_rows b" "sum_list (map sx_balance ?rows) = cb_balance b"
      "\<forall>r\<in>set ?rows. sx_business r = cb_date b"
    and t: "\<forall>r\<in>set ?rows. sx_reference r = None \<and> sx_token r \<noteq> None \<and> account_of r \<in> set (cb_accounts db)" "ps = map snapshot_of ?rows"
    using assms(4,5) by (auto simp: row_ok_def reconciled_def tokenized_def Let_def)
  have "map sn_balance ps = map sx_balance ?rows" by (simp add: t(2) snapshot_of_def)
  then have "sum_list (map sn_balance ps) = cb_balance b" by (simp only: r(3))
  moreover have "ps \<noteq> []" "int (length ps) = cb_rows b" using r(1,2) by (simp_all add: t(2))
  moreover have "\<forall>s\<in>set ps. sn_business s = cb_date b
      \<and> (\<exists>a\<in>set (cb_accounts db). iv_id a = sn_account s \<and> iv_currency a = sn_currency s)"
  proof
    fix s assume "s \<in> set ps"
    then obtain q where q: "q \<in> set ?rows" "s = snapshot_of q" by (auto simp: t(2))
    with t(1) have "account_of q \<in> set (cb_accounts db)" by blast
    with q r(4) show "sn_business s = cb_date b
        \<and> (\<exists>a\<in>set (cb_accounts db). iv_id a = sn_account s \<and> iv_currency a = sn_currency s)"
      by (intro conjI bexI [of _ "account_of q"]) (simp_all add: snapshot_of_def account_of_def)
  qed
  ultimately show ?thesis using t(1) by auto
qed

text \<open>
  C30. A processed message settles its batch: when the worker reports a batch of investment positions
  as processed, the batch the message names is published, rejected, quarantined or otherwise at the
  end of its life - provided a replayed manifest keeps the batch identifier it was first sent with -
  so no batch is left half way by a message that is not delivered again.  The handling of a message is
  one step here: runs of two workers are not interleaved.
\<close>

theorem processed_batch_settles:
  assumes "cbs_reachable uuid db" "uuid_laws uuid" "ingest uuid p m db = (Inr Processed, db')"
    "read_descriptor m = Inr b" "positions_flow b"
    "\<forall>q\<in>set (cb_batches db). \<forall>n. replay_key q = (ba_source b, ba_date b, ba_flow b, n) \<longrightarrow>
      js_int (ba_sequence b) = Some n \<longrightarrow> uuid (ba_batch b) = Some (cb_id q)"
  shows "\<exists>c\<in>set (cb_batches db'). uuid (ba_batch b) = Some (cb_id c) \<and> batch_settled (cb_state c)"
proof -
  from assms(3) obtain s1 s2 k where st: "inbox_begin ''ingestion-worker'' m db = (Inr True, s1)"
    and pr: "process_batch (cbs_worker_of uuid p) m s1 = (Inr k, s2)"
    and fi: "inbox_complete ''ingestion-worker'' (ms_event_id m) k s2 = (Inr (), db')"
    unfolding ingest_def handle_cbs_message_def handle_message_def
    by (auto simp: and_do_Inr recover_Inr split: if_splits)
  have "cb_batches s1 = cb_batches db" using st by (auto simp: inbox_begin_def Let_def split: option.splits if_splits)
  moreover have "cbs_inv uuid s1" by (rule keepsD [OF inbox_keeps(1) cbs_reachable_inv [OF assms(1,2)] st])
  ultimately obtain i t where "uuid (ba_batch b) = Some i" "batch_in i t s2" "batch_settled t"
    using process_settles [OF pr assms(4,5) _ assms(2)] assms(6) by auto
  moreover have "cb_batches db' = cb_batches s2" using fi by (auto simp: inbox_complete_def)
  ultimately show ?thesis by (auto simp: batch_in_def)
qed

section \<open>An example\<close>

definition example_text :: string where
  "example_text = positions_csv [CHR 0x0A] (\<lambda>f. \<not> plain_field f) [example_position]"

definition example_digest :: string where
  "example_digest = replicate 64 (CHR ''a'')"

definition example_cbs_message :: outbox_message where
  "example_cbs_message = \<lparr>ms_event_id = ''e1'', ms_event_type = ''pms.cbs.batch.received.v1'', ms_schema_version = 1,
     ms_aggregate_type = ''CbsBatch'', ms_aggregate_id = ''B1'', ms_correlation = ''c'', ms_causation = None, ms_occurred_at = ''t'',
     ms_payload = [(''batchId'', J_String ''B1''), (''source'', J_String ''CBS''), (''businessDate'', J_String ''2024-01-31''),
       (''flowType'', J_String ''INVESTMENT_POSITIONS''), (''sequence'', J_Number (Num 1)),
       (''checksumSha256'', J_String example_digest), (''objectKey'', J_String ''o''),
       (''manifestRowCount'', J_Number (Num 1)), (''manifestBalanceTotal'', J_String ''-12.5''),
       (''signatureBase64'', J_String (replicate 44 (CHR ''A''))), (''receivedAt'', J_String ''now'')]\<rparr>"

definition example_token :: string where
  "example_token = ''tok_'' @ replicate 16 (CHR ''x'')"

definition example_ports :: cbs_ports where
  "example_ports = \<lparr>pt_json = \<lparr>locale_compare = (\<lambda>_ _. 0), print_number = (\<lambda>_. []), sha256 = (\<lambda>t. t)\<rparr>,
     pt_clock = \<lparr>date_parse = (\<lambda>_. Some 0), print_instant = (\<lambda>_. ''now'')\<rparr>,
     pt_load = (\<lambda>_. Inr \<lparr>dc_bytes = example_text, dc_filename = ''f'', dc_media_type = ''text/csv''\<rparr>), pt_digest = (\<lambda>_. example_digest),
     pt_antivirus = (\<lambda>_. Inr \<lparr>sc_clean = True, sc_signature = None\<rparr>), pt_verify = (\<lambda>_ _ _. Inr True), pt_window = (0, 6),
     pt_decode = Inr, pt_quarantine = (\<lambda>_ _ _. Inr 0), pt_tokenize = (\<lambda>_ _ _. Inr [example_token]),
     pt_collate = (\<lambda>_ _. 0), pt_stamp = (''e2'', ''t'')\<rparr>"

definition example_cbs_db :: cbs_db where
  "example_cbs_db = \<lparr>ib_rows = [], ib_clock = 0, cb_batches = [], cb_history = [], cb_staging = [], cb_accounts = [],
     cb_snapshots = [], cb_outbox = [], cb_currencies = [(''EUR'', ''2000-01-01'', None)], cb_products = [''A,\"B\"''], cb_blocked = []\<rparr>"

definition example_descriptor :: cbs_descriptor where
  "example_descriptor = \<lparr>ba_batch = ''B1'', ba_source = ''CBS'', ba_date = ''2024-01-31'', ba_flow = ''INVESTMENT_POSITIONS'',
     ba_sequence = Num 1, ba_schema = Num 1, ba_checksum = example_digest, ba_object = ''o'', ba_rows = Num 1, ba_balance = ''-12.5''\<rparr>"

definition example_cbs_row :: "batch_state \<Rightarrow> string option \<Rightarrow> cbs_row" where
  "example_cbs_row state reason = \<lparr>cb_id = ''B1'', cb_source = ''CBS'', cb_date = ''2024-01-31'', cb_flow = ''INVESTMENT_POSITIONS'',
     cb_sequence = 1, cb_schema = 1, cb_checksum = example_digest, cb_object = ''o'', cb_rows = 1, cb_balance = - 12500000000000,
     cb_state = state, cb_reason = reason\<rparr>"

lemma example_read_descriptor: "read_descriptor example_cbs_message = Inr example_descriptor"
  by (simp add: read_descriptor_def example_cbs_message_def example_descriptor_def string_field_def integer_field_def
      Let_def example_digest_def)

lemma example_numbers:
  "numeric_of 30 ''-12.5'' = Inr (- 12500000000000)" "as_date ''2024-01-31'' = Inr ''2024-01-31''"
  "as_date ''2024-01-30'' = Inr ''2024-01-30''" "as_date ''2023-01-02'' = Inr ''2023-01-02''"
proof -
  have "decimal_value ''-12.5'' = Some (- 25 / 2)" by (simp add: text_eval)
  then show "numeric_of 30 ''-12.5'' = Inr (- 12500000000000)"
    using round_away_of_int [of "- 12500000000000"] by (simp add: numeric_of_def Let_def)
  show "as_date ''2024-01-31'' = Inr ''2024-01-31''" "as_date ''2024-01-30'' = Inr ''2024-01-30''" "as_date ''2023-01-02'' = Inr ''2023-01-02''"
    by (simp_all add: as_date_def calendar_date_iff iso_shape_def valid_date_def iso_year_def iso_month_def iso_day_def
        month_length_def leap_year_def char_class_defs digits_eval)
qed

lemma example_register:
  "register_batch (\<lambda>b. transaction (register_received Some b)) example_descriptor db0 =
     (Inr \<lparr>rg_created = True, rg_batch = ''B1'', rg_state = Batch_Received\<rparr>,
      db0\<lparr>cb_batches := [example_cbs_row Batch_Received None]\<rparr>)" if "cb_batches db0 = []" for db0
proof -
  have "validate_descriptor example_descriptor = Inr ()"
    by (simp add: validate_descriptor_def example_descriptor_def is_sha256_hex_def run_of_def example_digest_def list_all_iff
        iso_shape_def integer_from_def short_decimal_def text_eval trim_def js_space_def)
  moreover have "register_received Some example_descriptor db0 = Inr (\<lparr>rg_created = True, rg_batch = ''B1'', rg_state = Batch_Received\<rparr>,
      db0\<lparr>cb_batches := [example_cbs_row Batch_Received None]\<rparr>)"
    using that by (simp add: register_received_def received_row_def insert_received_def as_uuid_def example_descriptor_def
        as_integer_def example_numbers example_cbs_row_def)
  ultimately show ?thesis by (simp add: register_batch_def and_do_def transaction_def)
qed

text \<open>The tables while the batch passes through its states.\<close>

definition example_stage :: "batch_state \<Rightarrow> string option \<Rightarrow> (batch_state \<times> batch_state) list \<Rightarrow> staged_row list \<Rightarrow> cbs_db \<Rightarrow> cbs_db" where
  "example_stage state reason h staging db = db\<lparr>cb_batches := [example_cbs_row state reason],
     cb_history := map (Pair ''B1'') h, cb_staging := staging\<rparr>"

lemma example_move:
  assumes "state \<in> set from" "state \<noteq> to" "to \<in> set (batch_transitions state)" "cb_blocked db = []"
  shows "move_batch Some ''B1'' from to f problem (example_stage state reason h staging db) =
    Inr ((), example_stage to (f reason) (h @ [(state, to)]) staging db)"
  using assms by (simp add: move_batch_def as_uuid_def set_batch_state_def example_stage_def example_cbs_row_def
      assert_batch_transition_def)

lemma authenticate_accepts:
  assumes "validate_manifest clock m = Inr t" "inside_window (utc_hours t) w" "32 \<le> base64_length (mf_signature m)"
    "verify (canonical_manifest lib m) (mf_signature m) (ba_source m) = Inr True"
    "record (ba_batch m) Batch_Authenticated None s = (Inr (), s')"
  shows "authenticate_manifest lib clock verify record w m s = (Inr Batch_Authenticated, s')"
  using assms by (simp add: authenticate_manifest_def and_do_def)

lemma example_authenticate:
  assumes "cb_blocked db = []"
  shows "authenticate_step (cbs_worker_of Some example_ports) example_cbs_message example_descriptor Batch_Received
      (example_stage Batch_Received None [] [] db)
    = (Inr (Some Batch_Authenticated), example_stage Batch_Authenticated None [(Batch_Received, Batch_Authenticated)] [] db)"
proof -
  have v: "validate_manifest (pt_clock example_ports) m = Inr 0" if "mf_signature m = replicate 44 (CHR ''A'')" "mf_received m = ''now''" for m
    using that by (simp add: validate_manifest_def example_ports_def base64_text_def takeWhile_replicate dropWhile_replicate
        list_all_iff char_class_defs)
  have "record_authentication Some ''B1'' Batch_Authenticated None (example_stage Batch_Received None [] [] db)
      = Inr ((), example_stage Batch_Authenticated None [(Batch_Received, Batch_Authenticated)] [] db)"
    unfolding record_authentication_def transition_batch_def
    using assms by (subst example_move) (simp_all add: batch_transitions_def)
  note recorded = this
  let ?m = "cbs_descriptor.extend example_descriptor (signed_manifest.fields (replicate 44 (CHR ''A'')) ''now'')"
  have m: "mf_signature ?m = replicate 44 (CHR ''A'')" "mf_received ?m = ''now''" "ba_batch ?m = ''B1''"
    by (simp_all add: cbs_descriptor.extend_def signed_manifest.fields_def example_descriptor_def)
  have "authenticate_manifest (pt_json example_ports) (pt_clock example_ports) (pt_verify example_ports)
       (\<lambda>i result reason. transaction (record_authentication Some i result reason)) (pt_window example_ports) ?m
       (example_stage Batch_Received None [] [] db)
     = (Inr Batch_Authenticated, example_stage Batch_Authenticated None [(Batch_Received, Batch_Authenticated)] [] db)"
    by (rule authenticate_accepts [OF v]) (simp_all add: m recorded transaction_def, simp_all add: example_ports_def inside_window_def
        utc_hours_def base64_length_def takeWhile_replicate)
  moreover have "string_field (ms_payload example_cbs_message) ''signatureBase64'' = Inr (replicate 44 (CHR ''A''))"
    "string_field (ms_payload example_cbs_message) ''receivedAt'' = Inr ''now''"
    by (simp_all add: string_field_def example_cbs_message_def)
  ultimately show ?thesis
    unfolding authenticate_step_def worker_simps required_case_def option.case by (simp add: and_do_def)
qed

lemma example_scan:
  assumes "cb_blocked db = []"
  shows "scan_step (cbs_worker_of Some example_ports) example_descriptor
      \<lparr>rg_created = True, rg_batch = ''B1'', rg_state = Batch_Received\<rparr> (Some Batch_Authenticated)
      (example_stage Batch_Authenticated None h [] db)
    = (Inr (Some \<lparr>dc_bytes = example_text, dc_filename = ''f'', dc_media_type = ''text/csv''\<rparr>),
       example_stage Batch_Scanned None (h @ [(Batch_Authenticated, Batch_Scanned)]) [] db)"
proof -
  have "transition_batch Some ''B1'' Batch_Authenticated Batch_Scanned None (example_stage Batch_Authenticated None h [] db)
      = Inr ((), example_stage Batch_Scanned None (h @ [(Batch_Authenticated, Batch_Scanned)]) [] db)"
    unfolding transition_batch_def using assms by (subst example_move) (simp_all add: batch_transitions_def)
  then show ?thesis
    by (simp add: scan_step_def scan_batch_def and_do_def transaction_def example_ports_def example_descriptor_def)
qed

definition example_staged :: "string option \<Rightarrow> string option \<Rightarrow> staged_row" where
  "example_staged reference token = \<lparr>sx_batch = ''B1'', sx_number = 1, sx_account = po_account example_position,
     sx_reference = reference, sx_token = token, sx_product = ''A,\"B\"'', sx_currency = ''EUR'', sx_opened = ''2023-01-02'',
     sx_business = ''2024-01-31'', sx_value = ''2024-01-30'', sx_balance = - 12500000000000\<rparr>"

lemma example_same_balance: "normalize_decimal (numeric_text (- 12500000000000)) = normalize_decimal ''-12.5''"
  by (simp add: numeric_text_def render_units_def render_nat_def normalize_decimal_def digits_eval)

lemma example_stage_step:
  assumes "cb_blocked db = []"
  shows "stage_step (cbs_worker_of Some example_ports) example_descriptor
      \<lparr>rg_created = True, rg_batch = ''B1'', rg_state = Batch_Received\<rparr> (Some \<lparr>dc_bytes = example_text, dc_filename = ''f'', dc_media_type = ''text/csv''\<rparr>)
      (example_stage Batch_Scanned None h [] db)
    = (Inr (), example_stage Batch_Staged None (h @ [(Batch_Scanned, Batch_Staged)]) [example_staged (Some ''C-1'') None] db)"
proof -
  have parsed: "parse_positions example_text = Inr [example_position]"
    unfolding example_text_def using parse_written [of "[CHR 0x0A]" "\<lambda>f. \<not> plain_field f" "[example_position]" "[example_position]"]
      example_position_ok by (simp add: line_ending_def)
  have "stage_row Some ''B1'' (0, example_position) (example_stage Batch_Scanned None h [] db)
      = Inr (example_stage Batch_Scanned None h [example_staged (Some ''C-1'') None] db)"
    by (simp add: stage_row_def as_uuid_def example_position_def example_numbers Let_def example_stage_def find_batch_def
        example_cbs_row_def staged_differs_def example_same_balance example_staged_def)
  then have "stage_batch Some ''B1'' [example_position] (example_stage Batch_Scanned None h [] db)
      = Inr ((), example_stage Batch_Staged None (h @ [(Batch_Scanned, Batch_Staged)]) [example_staged (Some ''C-1'') None] db)"
    unfolding stage_batch_def as_uuid_def option.case and_then_simps
    using assms by (simp add: example_move batch_transitions_def)
  then show ?thesis
    by (simp add: stage_step_def required_case_def positions_flow_def example_descriptor_def stage_positions_def and_do_def parsed
        transaction_def example_ports_def)
qed

abbreviation example_registration :: registration where
  "example_registration \<equiv> \<lparr>rg_created = True, rg_batch = ''B1'', rg_state = Batch_Received\<rparr>"

lemma example_validate:
  assumes "cb_blocked db = []" "cb_currencies db = [(''EUR'', ''2000-01-01'', None)]" "cb_products db = [''A,\"B\"'']"
  shows "validate_positions (\<lambda>i date. read_only (inspect_batch Some i date)) quarantine
      (\<lambda>i decision reason. transaction (record_decision Some i decision reason)) ''B1'' ''2024-01-31''
      (example_stage Batch_Staged None h [example_staged (Some ''C-1'') None] db)
    = (Inr Batch_Validated, example_stage Batch_Validated None (h @ [(Batch_Staged, Batch_Validated)]) [example_staged (Some ''C-1'') None] db)"
proof -
  let ?db = "example_stage Batch_Staged None h [example_staged (Some ''C-1'') None] db"
  have rows: "staged_of ''B1'' ?db = [example_staged (Some ''C-1'') None]" by (simp add: staged_of_def example_stage_def example_staged_def)
  have batch: "find_batch ''B1'' ?db = Some (example_cbs_row Batch_Staged None)" by (simp add: find_batch_def example_stage_def example_cbs_row_def)
  have "known_currency ?db (example_staged (Some ''C-1'') None)" "\<not> chronology_broken (example_staged (Some ''C-1'') None)"
    "sx_product (example_staged (Some ''C-1'') None) \<in> set (cb_products ?db)"
    using assms by (simp_all add: known_currency_def chronology_broken_def example_staged_def example_stage_def)
  then have insp: "inspect_batch Some ''B1'' ''2024-01-31'' ?db = Inr \<lparr>in_rows = 1, in_invalid_dates = 0, in_manifest_rows = 1,
      in_manifest_balance = numeric_text (- 12500000000000), in_staged_balance = numeric_text (- 12500000000000),
      in_unknown_currencies = 0, in_unknown_products = 0, in_invalid_chronology = 0\<rparr>"
    unfolding inspect_batch_def as_uuid_def example_numbers Let_def rows batch option.case and_then_simps
    by (simp add: row_tally_def) (simp add: example_staged_def example_cbs_row_def)
  have "record_decision Some ''B1'' Batch_Validated None ?db
      = Inr ((), example_stage Batch_Validated None (h @ [(Batch_Staged, Batch_Validated)]) [example_staged (Some ''C-1'') None] db)"
    unfolding record_decision_def using assms by (subst example_move) (simp_all add: batch_transitions_def)
  then show ?thesis
    by (simp add: validate_positions_def and_do_def read_only_def insp validation_failures_def decimal_equal_numeric failure_if_def
        transaction_def)
qed

lemma write_positions_ok:
  assumes "staged_of i db = rows" "\<forall>r\<in>set rows. sx_token r \<noteq> None"
    "\<forall>r\<in>set rows. \<not> account_conflict (open_accounts rows (cb_accounts db)) r"
    "move_batch uuid batch [Batch_Approved] Batch_Published (\<lambda>_. None) '' publication transition failed''
       (db\<lparr>cb_accounts := open_accounts rows (cb_accounts db), cb_snapshots := add_snapshots rows (cb_snapshots db)\<rparr>) = Inr ((), db3)"
  shows "write_positions uuid stamp batch i db =
    (let n = length (add_snapshots rows (cb_snapshots db)) - length (cb_snapshots db)
     in Inr (n, emit_published stamp i n (forget_references i db3)))"
  using assms by (auto simp: write_positions_def Let_def)

lemma example_publish:
  assumes "cb_blocked db = []" "cb_accounts db = []" "cb_snapshots db = []"
  shows "\<exists>db'. publish_batch Some stamp ''B1'' [(Some ''C-1'', example_token)]
      (example_stage Batch_Validated None h [example_staged (Some ''C-1'') None] db) = Inr (1, db')
    \<and> cb_batches db' = [example_cbs_row Batch_Published None]
    \<and> cb_history db' = map (Pair ''B1'') (h @ [(Batch_Validated, Batch_Approved), (Batch_Approved, Batch_Published)])
    \<and> cb_snapshots db' = [snapshot_of (example_staged None (Some example_token))]"
proof -
  let ?db = "\<lambda>st r h s t. example_stage st r h [example_staged s t] db"
  have state: "map_option cb_state (find_batch ''B1'' (?db Batch_Validated None h (Some ''C-1'') None)) = Some Batch_Validated"
    by (simp add: find_batch_def example_stage_def example_cbs_row_def)
  have approve: "move_batch Some ''B1'' [Batch_Validated, Batch_Approved] Batch_Approved (\<lambda>_. Some ''AUTO_QUALITY_CONTROLS'')
      '' is not validated'' (?db Batch_Validated None h (Some ''C-1'') None)
      = Inr ((), ?db Batch_Approved (Some ''AUTO_QUALITY_CONTROLS'') (h @ [(Batch_Validated, Batch_Approved)]) (Some ''C-1'') None)"
    using assms by (subst example_move) (simp_all add: batch_transitions_def)
  have token: "token_text example_token" by (simp add: example_token_def token_text_def run_of_def char_class_defs list_all_iff)
  have tokens: "write_tokens ''B1'' [(Some ''C-1'', example_token)] (?db Batch_Approved reason h (Some ''C-1'') None)
      = Inr (?db Batch_Approved reason h (Some ''C-1'') (Some example_token))" for reason h
    using token by (simp add: example_stage_def example_staged_def)
  let ?db2 = "?db Batch_Approved (Some ''AUTO_QUALITY_CONTROLS'') (h @ [(Batch_Validated, Batch_Approved)]) (Some ''C-1'') (Some example_token)"
  let ?row = "example_staged (Some ''C-1'') (Some example_token)"
  have rows: "staged_of ''B1'' ?db2 = [?row]" by (simp add: staged_of_def example_stage_def example_staged_def)
  have tables: "cb_accounts ?db2 = []" "cb_snapshots ?db2 = []" using assms by (simp_all add: example_stage_def)
  have ok: "sx_token ?row \<noteq> None" "\<not> account_conflict [account_of ?row] ?row"
    by (simp_all add: example_staged_def account_conflict_def)
  let ?s = "example_stage Batch_Published None (h @ [(Batch_Validated, Batch_Approved), (Batch_Approved, Batch_Published)]) [?row]
      (db\<lparr>cb_accounts := [account_of ?row], cb_snapshots := [snapshot_of ?row]\<rparr>)"
  have over: "?db2\<lparr>cb_accounts := a, cb_snapshots := b\<rparr> = example_stage Batch_Approved (Some ''AUTO_QUALITY_CONTROLS'')
      (h @ [(Batch_Validated, Batch_Approved)]) [?row] (db\<lparr>cb_accounts := a, cb_snapshots := b\<rparr>)" for a b
    by (simp add: example_stage_def)
  have "move_batch Some ''B1'' [Batch_Approved] Batch_Published (\<lambda>_. None) '' publication transition failed''
      (?db2\<lparr>cb_accounts := [account_of ?row], cb_snapshots := [snapshot_of ?row]\<rparr>) = Inr ((), ?s)"
    unfolding over using assms(1) by (subst example_move) (simp_all add: batch_transitions_def)
  then have "write_positions Some stamp ''B1'' ''B1'' ?db2 = Inr (1, emit_published stamp ''B1'' 1 (forget_references ''B1'' ?s))"
    using write_positions_ok [OF rows, where uuid = Some and batch = "''B1''" and ?db3.0 = ?s and stamp = stamp] ok by (simp add: tables)
  moreover have "cb_batches (emit_published stamp ''B1'' 1 (forget_references ''B1'' ?s)) = [example_cbs_row Batch_Published None]"
    "cb_history (emit_published stamp ''B1'' 1 (forget_references ''B1'' ?s))
      = map (Pair ''B1'') (h @ [(Batch_Validated, Batch_Approved), (Batch_Approved, Batch_Published)])"
    "cb_snapshots (emit_published stamp ''B1'' 1 (forget_references ''B1'' ?s)) = [snapshot_of ?row]"
    by (simp_all add: emit_published_def forget_references_def example_stage_def split: option.splits)
  ultimately have "\<exists>db'. write_positions Some stamp ''B1'' ''B1'' ?db2 = Inr (1, db')
    \<and> cb_batches db' = [example_cbs_row Batch_Published None]
    \<and> cb_history db' = map (Pair ''B1'') (h @ [(Batch_Validated, Batch_Approved), (Batch_Approved, Batch_Published)])
    \<and> cb_snapshots db' = [snapshot_of ?row]" by blast
  moreover have "snapshot_of ?row = snapshot_of (example_staged None (Some example_token))" by (simp add: snapshot_of_def example_staged_def)
  ultimately show ?thesis
    unfolding publish_batch_def as_uuid_def option.case and_then_simps state
    by (simp only: approve tokens and_then_simps snd_conv option.inject batch_state.distinct if_False)
qed

lemma example_process:
  assumes "cb_batches db = []" "cb_history db = []" "cb_staging db = []" "cb_blocked db = []" "cb_accounts db = []"
    "cb_snapshots db = []" "cb_currencies db = [(''EUR'', ''2000-01-01'', None)]" "cb_products db = [''A,\"B\"'']"
  shows "\<exists>db'. process_batch (cbs_worker_of Some example_ports) example_cbs_message db = (Inr None, db')
    \<and> cb_batches db' = [example_cbs_row Batch_Published None] \<and> length (cb_history db') = 6
    \<and> cb_snapshots db' = [snapshot_of (example_staged None (Some example_token))]"
proof -
  let ?h3 = "[(Batch_Received, Batch_Authenticated), (Batch_Authenticated, Batch_Scanned), (Batch_Scanned, Batch_Staged)]"
  let ?h4 = "?h3 @ [(Batch_Staged, Batch_Validated)]"
  let ?c = "\<lparr>dc_bytes = example_text, dc_filename = ''f'', dc_media_type = ''text/csv''\<rparr>"
  have start: "db\<lparr>cb_batches := [example_cbs_row Batch_Received None]\<rparr> = example_stage Batch_Received None [] [] db"
    using assms(2,3) by (simp add: example_stage_def)
  have reg: "wk_register (cbs_worker_of Some example_ports) example_descriptor db
      = (Inr example_registration, example_stage Batch_Received None [] [] db)"
    using example_register [OF assms(1)] by (simp add: start)
  let ?v = "example_stage Batch_Validated None ?h4 [example_staged (Some ''C-1'') None] db"
  from example_publish [OF assms(4-6), of "(''e2'', ''t'')" ?h4] obtain db' where
    pub: "publish_batch Some (''e2'', ''t'') ''B1'' [(Some ''C-1'', example_token)] ?v = Inr (1, db')"
    and db': "cb_batches db' = [example_cbs_row Batch_Published None]" "length (cb_history db') = 6"
      "cb_snapshots db' = [snapshot_of (example_staged None (Some example_token))]"
    by auto
  have "find_batch ''B1'' ?v = Some (example_cbs_row Batch_Validated None)" "staged_of ''B1'' ?v = [example_staged (Some ''C-1'') None]"
    by (simp_all add: find_batch_def staged_of_def example_stage_def example_cbs_row_def example_staged_def)
  then have refs: "batch_published Some ''B1'' ?v = Inr False" "batch_references Some collate ''B1'' ?v = Inr [Some ''C-1'']" for collate
    by (simp_all add: batch_published_def batch_references_def as_uuid_def sort_by_def example_cbs_row_def example_staged_def)
  have "publish_step (cbs_worker_of Some example_ports) example_cbs_message ''B1'' ?v = (Inr (), db')"
    using pub refs unfolding publish_step_def worker_simps required_case_def option.case publish_positions_def read_only_def Let_def
    by (simp add: and_do_def transaction_def example_ports_def new_map_def set_all_def)
  moreover have "validate_positions (\<lambda>i date. read_only (inspect_batch Some i date))
       (\<lambda>i date. read_only (pt_quarantine example_ports i date)) (\<lambda>i decision reason. transaction (record_decision Some i decision reason))
       ''B1'' ''2024-01-31'' (example_stage Batch_Staged None ?h3 [example_staged (Some ''C-1'') None] db) = (Inr Batch_Validated, ?v)"
    by (rule example_validate [OF assms(4,7,8)])
  ultimately have val: "validate_step (cbs_worker_of Some example_ports) example_cbs_message example_descriptor example_registration (Some ?c)
      (example_stage Batch_Staged None ?h3 [example_staged (Some ''C-1'') None] db) = (Inr (), db')"
    unfolding validate_step_def worker_simps required_case_def option.case
    by (simp add: and_do_def positions_flow_def example_descriptor_def)
  have res: "resume_step (cbs_worker_of Some example_ports) example_cbs_message example_descriptor example_registration db' = (Inr (), db')"
    by (simp add: resume_step_def)
  have "process_batch (cbs_worker_of Some example_ports) example_cbs_message db = (Inr None, db')"
    using example_authenticate [OF assms(4)] example_scan [OF assms(4), of "[(Batch_Received, Batch_Authenticated)]"]
      example_stage_step [OF assms(4), of "[(Batch_Received, Batch_Authenticated), (Batch_Authenticated, Batch_Scanned)]"]
      val res reg by (simp add: process_batch_def and_do_def example_read_descriptor batch_settled_def del: worker_simps)
  with db' show ?thesis by blast
qed

lemma example_ingest:
  "\<exists>db'. ingest Some example_ports example_cbs_message example_cbs_db = (Inr Processed, db')
    \<and> cb_batches db' = [example_cbs_row Batch_Published None] \<and> length (cb_history db') = 6
    \<and> cb_snapshots db' = [snapshot_of (example_staged None (Some example_token))]"
proof -
  have "\<exists>rows. inbox_begin ''ingestion-worker'' example_cbs_message example_cbs_db = (Inr True, example_cbs_db\<lparr>ib_rows := rows\<rparr>)"
    by (simp add: inbox_begin_def example_cbs_db_def)
  then obtain rows where st: "inbox_begin ''ingestion-worker'' example_cbs_message example_cbs_db = (Inr True, example_cbs_db\<lparr>ib_rows := rows\<rparr>)" ..
  have "\<exists>db'. process_batch (cbs_worker_of Some example_ports) example_cbs_message (example_cbs_db\<lparr>ib_rows := rows\<rparr>) = (Inr None, db')
    \<and> cb_batches db' = [example_cbs_row Batch_Published None] \<and> length (cb_history db') = 6
    \<and> cb_snapshots db' = [snapshot_of (example_staged None (Some example_token))]"
    by (rule example_process) (simp_all add: example_cbs_db_def)
  then obtain db1 where p: "process_batch (cbs_worker_of Some example_ports) example_cbs_message (example_cbs_db\<lparr>ib_rows := rows\<rparr>) = (Inr None, db1)"
    and d: "cb_batches db1 = [example_cbs_row Batch_Published None]" "length (cb_history db1) = 6"
      "cb_snapshots db1 = [snapshot_of (example_staged None (Some example_token))]" by blast
  have "\<exists>db'. inbox_complete ''ingestion-worker'' (ms_event_id example_cbs_message) None db1 = (Inr (), db')
    \<and> cb_batches db' = cb_batches db1 \<and> cb_history db' = cb_history db1 \<and> cb_snapshots db' = cb_snapshots db1"
    by (simp add: inbox_complete_def)
  then obtain db2 where c: "inbox_complete ''ingestion-worker'' (ms_event_id example_cbs_message) None db1 = (Inr (), db2)"
    "cb_batches db2 = cb_batches db1" "cb_history db2 = cb_history db1" "cb_snapshots db2 = cb_snapshots db1" by blast
  have "ingest Some example_ports example_cbs_message example_cbs_db = (Inr Processed, db2)"
    unfolding ingest_def handle_cbs_message_def handle_message_def
    by (simp add: and_do_def recover_def st p c(1))
  with c(2-4) d show ?thesis by auto
qed

lemma example_cbs_reachable:
  "cbs_reachable Some example_cbs_db" "uuid_laws Some"
  by (rule cbs_reachable.start) (simp_all add: example_cbs_db_def uuid_laws_def)

theorem batch_history_terminates_witness:
  "\<exists>db b. cbs_reachable Some db \<and> b \<in> set (cb_batches db) \<and> cb_state b = Batch_Published
     \<and> lifecycle_path batch_transitions Batch_Received (history_of (cb_id b) db) Batch_Published"
proof -
  from example_ingest obtain db where run: "ingest Some example_ports example_cbs_message example_cbs_db = (Inr Processed, db)"
    and b: "cb_batches db = [example_cbs_row Batch_Published None]" by blast
  have r: "cbs_reachable Some db" by (rule cbs_reachable.message [OF example_cbs_reachable(1) run])
  have "example_cbs_row Batch_Published None \<in> set (cb_batches db)" "cb_state (example_cbs_row Batch_Published None) = Batch_Published"
    by (simp_all add: b example_cbs_row_def)
  with batch_history_terminates [OF r example_cbs_reachable(2) this(1)] r show ?thesis by auto
qed

theorem published_batch_reconciles_witness:
  "\<exists>db b. cbs_reachable Some db \<and> b \<in> set (cb_batches db) \<and> cb_state b = Batch_Published
     \<and> sum_list (map sn_balance (filter (\<lambda>s. sn_batch s = cb_id b) (cb_snapshots db))) = cb_balance b \<and> cb_balance b \<noteq> 0"
proof -
  from example_ingest obtain db where run: "ingest Some example_ports example_cbs_message example_cbs_db = (Inr Processed, db)"
    and b: "cb_batches db = [example_cbs_row Batch_Published None]" by blast
  have r: "cbs_reachable Some db" by (rule cbs_reachable.message [OF example_cbs_reachable(1) run])
  have s: "example_cbs_row Batch_Published None \<in> set (cb_batches db)" "cb_state (example_cbs_row Batch_Published None) = Batch_Published"
    by (simp_all add: b example_cbs_row_def)
  have "cb_balance (example_cbs_row Batch_Published None) \<noteq> 0" by (simp add: example_cbs_row_def)
  with published_batch_reconciles [OF r example_cbs_reachable(2) s refl] r s show ?thesis by blast
qed

theorem processed_batch_settles_witness:
  "\<exists>db' c. ingest Some example_ports example_cbs_message example_cbs_db = (Inr Processed, db')
     \<and> c \<in> set (cb_batches db') \<and> cb_id c = ''B1'' \<and> batch_settled (cb_state c)"
proof -
  from example_ingest obtain db where run: "ingest Some example_ports example_cbs_message example_cbs_db = (Inr Processed, db)" by blast
  have flow: "positions_flow example_descriptor" "ba_batch example_descriptor = ''B1''"
    by (simp_all add: positions_flow_def example_descriptor_def)
  have "\<forall>q\<in>set (cb_batches example_cbs_db). \<forall>n. replay_key q = (ba_source example_descriptor, ba_date example_descriptor,
      ba_flow example_descriptor, n) \<longrightarrow> js_int (ba_sequence example_descriptor) = Some n \<longrightarrow>
      Some (ba_batch example_descriptor) = Some (cb_id q)" by (simp add: example_cbs_db_def)
  from processed_batch_settles [OF example_cbs_reachable run example_read_descriptor flow(1) this] run flow(2)
  show ?thesis by auto
qed

end
