(* ===== verification/Composition.thy ===== *)
theory Composition
  imports Allocation Accounting Closing_Store
begin

text \<open>
  Components working together: the shares a calculation allocates, taken to the journal, and the
  approvals of the workflow, taken to the audit trail.
\<close>

section \<open>From an allocation to the journal\<close>

text \<open>The allocations of a run as the posting reads them.\<close>

definition posted_allocations :: "allocation_result list \<Rightarrow> posted_allocation list" where
  "posted_allocations rs = map (\<lambda>r. \<lparr>pa_participant = ar_participant r, pa_amount = ar_amount r, pa_currency = ar_currency r\<rparr>) rs"

lemma settled_units_nonneg:
  assumes "accepted_weights {} ws" "ws \<noteq> []" "0 < sum_list (map weight_units ws)" "0 \<le> amount"
    "\<And>w. w \<in> set ws \<Longrightarrow> 0 \<le> weight_units w" "u \<in> set (settled_units lc amount (map normalized_of ws))"
  shows "0 \<le> u"
proof -
  from assms(6) obtain i where i: "i < length ws" "u = settled_units lc amount (map normalized_of ws) ! i"
    by (auto simp: in_set_conv_nth)
  have "0 \<le> amount * snd (map normalized_of ws ! i) div sum_list (map snd (map normalized_of ws))"
    using assms(3-5) i(1) by (auto simp: normalized_of_def o_def intro!: pos_imp_zdiv_nonneg_iff [THEN iffD2])
  moreover have "0 < sum_list (map snd (map normalized_of ws))" using assms(3) by (simp add: normalized_of_def o_def)
  ultimately show ?thesis using settled_units_nth [of i "map normalized_of ws" lc amount] i by auto
qed

text \<open>
  An allocation can be posted exactly when it moves money for everybody: from whatever the
  proportional allocation returns, the journal lines of the run are built - and so balance - if and
  only if the amount is not zero, no participant's printed share is zero and every participant
  makes a valid account code.
\<close>

theorem allocation_posts:
  assumes "wf_money m" "allocate_proportionally lc m ws = Inr rs"
  shows "(\<exists>lines. allocation_journal_lines (posted_allocations rs) (to_decimal_string m) (money_currency m)
      (of_js (int (money_scale m))) = Inr lines)
    \<longleftrightarrow> money_units m \<noteq> 0 \<and> (\<forall>r\<in>set rs. decimal_value (ar_amount r) \<noteq> Some 0 \<and> is_account_code (''INVESTMENT:'' @ ar_participant r))"
proof -
  define sg :: int where "sg = (if money_units m < 0 then - 1 else 1)"
  define us where "us = settled_units lc \<bar>money_units m\<bar> (map normalized_of ws)"
  let ?c = "money_currency m" and ?s = "of_js (int (money_scale m))"
  have ne: "ws \<noteq> []" and acc: "accepted_weights {} ws" and nz: "sum_list (map weight_units ws) \<noteq> 0"
    and rs: "rs = map2 (\<lambda>w u. result_of m (aw_participant w) u) ws us"
    using assms(2) unfolding allocate_proportionally_Inr [OF assms(1)] us_def by auto
  have pos: "0 < sum_list (map weight_units ws)" using acc nz by (intro sum_list_pos_nonzero) (auto simp: accepted_weights_def)
  have nonneg: "0 \<le> u" if "u \<in> set us" for u
    by (rule settled_units_nonneg [OF acc ne pos _ _ that [unfolded us_def]]) (use acc in \<open>auto simp: accepted_weights_def\<close>)
  have sum: "sum_list us = \<bar>money_units m\<bar>" unfolding us_def
    by (rule settled_units_sum) (use ne pos in \<open>simp_all add: normalized_of_def o_def\<close>)
  have len: "length us = length ws" by (simp add: us_def)
  have amount: "money_parse (ar_amount (result_of m q u)) ?c ?s = Inr (m\<lparr>money_units := u * sg\<rparr>)" for q u
    using money_print_parse [of "m\<lparr>money_units := u * sg\<rparr>"] assms(1) by (simp add: result_of_def sg_def wf_money_def)
  note amount = amount amount [simplified]
  let ?as = "posted_allocations rs"
  have as: "?as = map2 (\<lambda>w u. \<lparr>pa_participant = aw_participant w, pa_amount = ar_amount (result_of m (aw_participant w) u),
      pa_currency = ?c\<rparr>) ws us"
    by (simp add: posted_allocations_def rs o_def split_def result_of_def)
  have units: "map (\<lambda>a. \<bar>allocation_units ?c ?s a\<bar>) ?as = us"
  proof -
    have "map (\<lambda>a. \<bar>allocation_units ?c ?s a\<bar>) ?as = map2 (\<lambda>w u. \<bar>u * sg\<bar>) ws us"
      by (simp add: as o_def split_def allocation_units_def side_units_def amount)
    also have "\<dots> = map2 (\<lambda>w u. u) ws us"
      by (intro map_cong refl) (auto simp: sg_def abs_mult dest!: set_zip_rightD nonneg)
    finally show ?thesis using len by (simp add: map_snd_zip [symmetric] split_def)
  qed
  have zero: "allocation_units ?c ?s \<lparr>pa_participant = ar_participant r, pa_amount = ar_amount r, pa_currency = ar_currency r\<rparr> = 0
      \<longleftrightarrow> decimal_value (ar_amount r) = Some 0" "ok (money_parse (ar_amount r) ?c ?s)" "ar_currency r = ?c" if "r \<in> set rs" for r
  proof -
    from that obtain q u where r: "r = result_of m q u" by (auto simp: rs)
    then show "ok (money_parse (ar_amount r) ?c ?s)" by (simp add: amount)
    from r show "ar_currency r = ?c" by (simp add: result_of_def)
    have "allocation_units ?c ?s \<lparr>pa_participant = ar_participant r, pa_amount = ar_amount r, pa_currency = ar_currency r\<rparr> = u * sg"
      using r by (simp add: allocation_units_def side_units_def amount)
    moreover have "decimal_value (ar_amount r) = Some (of_int (u * sg) / 10 ^ money_scale m)"
      using r to_decimal_string_value [of "m\<lparr>money_units := u * sg\<rparr>"] by (simp add: result_of_def sg_def money_value_def)
    ultimately show "allocation_units ?c ?s \<lparr>pa_participant = ar_participant r, pa_amount = ar_amount r, pa_currency = ar_currency r\<rparr> = 0
      \<longleftrightarrow> decimal_value (ar_amount r) = Some 0" by simp
  qed
  have "us \<noteq> []" using ne len by (cases us) auto
  then have "?as \<noteq> []" using ne by (simp add: as)
  then have "postable ?c ?s (money_units m) ?as \<longleftrightarrow> money_units m \<noteq> 0
      \<and> (\<forall>r\<in>set rs. decimal_value (ar_amount r) \<noteq> Some 0 \<and> is_account_code (''INVESTMENT:'' @ ar_participant r))"
    unfolding postable_def units sum using zero by (auto simp: posted_allocations_def readable_def)
  moreover have "money_parse (to_decimal_string m) ?c ?s = Inr m" by (rule money_print_parse [OF assms(1)])
  ultimately show ?thesis unfolding allocation_journal_lines_Inr [OF \<open>money_parse (to_decimal_string m) ?c ?s = Inr m\<close>] by auto
qed

lemma example_allocation:
  "allocate_proportionally code_unit_order \<lparr>money_currency = ''DZD'', money_units = 100, money_scale = 2\<rparr>
     [\<lparr>aw_participant = ''A'', aw_weight = ''1''\<rparr>]
   = Inr [\<lparr>ar_participant = ''A'', ar_amount = ''1.00'', ar_currency = ''DZD''\<rparr>]"
proof -
  let ?m = "\<lparr>money_currency = ''DZD'', money_units = 100, money_scale = 2\<rparr>"
  have "normalize_weights {} [\<lparr>aw_participant = ''A'', aw_weight = ''1''\<rparr>] = Inr [(''A'', 1000000000000)]"
    by (simp add: normalize_eval)
  moreover have "settle (remainder_priority code_unit_order) 100 (proportional_shares 100 [(''A'', 1000000000000)])
      = [\<lparr>share_id = ''A'', share_units = 100, share_remainder = 0\<rparr>]"
    by (simp add: settle_eval)
  moreover have "allocation_report ?m 1 [\<lparr>share_id = ''A'', share_units = 100, share_remainder = 0\<rparr>]
      = Inr [\<lparr>ar_participant = ''A'', ar_amount = ''1.00'', ar_currency = ''DZD''\<rparr>]"
    by (simp add: report_eval)
  ultimately show ?thesis by (intro allocate_stages) simp_all
qed

theorem allocation_posts_witness:
  "\<exists>rs lines. allocate_proportionally code_unit_order \<lparr>money_currency = ''DZD'', money_units = 100, money_scale = 2\<rparr>
       [\<lparr>aw_participant = ''A'', aw_weight = ''1''\<rparr>] = Inr rs
     \<and> allocation_journal_lines (posted_allocations rs) (to_decimal_string \<lparr>money_currency = ''DZD'', money_units = 100, money_scale = 2\<rparr>)
         ''DZD'' (Num 2) = Inr lines"
proof -
  let ?m = "\<lparr>money_currency = ''DZD'', money_units = 100, money_scale = 2\<rparr>"
  have wf: "wf_money ?m" by (simp add: wf_money_def is_currency_code_def run_of_def text_eval)
  have "decimal_value ''1.00'' = Some 1" by (simp add: text_eval)
  moreover have "is_account_code ''INVESTMENT:A''"
    by (simp add: is_account_code_def run_of_def account_char_def upper_digit_def char_class_defs)
  ultimately have "\<exists>lines. allocation_journal_lines (posted_allocations [\<lparr>ar_participant = ''A'', ar_amount = ''1.00'', ar_currency = ''DZD''\<rparr>])
      (to_decimal_string ?m) (money_currency ?m) (of_js (int (money_scale ?m))) = Inr lines"
    using allocation_posts [OF wf example_allocation] by simp
  then show ?thesis using example_allocation by auto
qed

section \<open>From an approval to the audit trail\<close>

lemma trim_id: "s = [] \<or> (\<not> js_space (hd s) \<and> \<not> js_space (List.last s)) \<Longrightarrow> trim s = s"
  by (cases s) (auto simp: trim_def last_rev [symmetric] dropWhile_eq_self_iff hd_rev)

lemma uuid_trim: "is_uuid s \<Longrightarrow> trim s = s \<and> s \<noteq> []"
proof -
  assume u: "is_uuid s"
  then have len: "length s = 36" and a: "list_all is_hex_ci (take 8 s)" and b: "list_all is_hex_ci (drop 24 s)"
    by (simp_all add: is_uuid_def uuid_of_def)
  have space: "is_hex_ci c \<Longrightarrow> \<not> js_space c" for c by (auto simp: char_class_defs js_space_def)
  have "hd s \<in> set (take 8 s)" using len by (cases s) auto
  moreover have "List.last s \<in> set (drop 24 s)" using len last_drop [of 24 s] last_in_set [of "drop 24 s"] by simp
  ultimately show ?thesis using a b len space by (intro conjI trim_id) (auto simp: list_all_iff)
qed

lemma iso_not_blank: "iso_shape d \<Longrightarrow> \<not> blank d"
  by (cases d) (auto simp: iso_shape_def blank_iff js_space_def char_class_defs)

lemma approval_date_state:
  "transition_calculation c db = Inr (state, date, db1) \<Longrightarrow>
     wf_outbox db1 = wf_outbox db \<and> date \<in> ca_date ` set (wf_runs db) \<and> state \<in> {''CONTROLLED'', ''APPROVED''}"
  "transition_closing c db = Inr (state, date, db1) \<Longrightarrow>
     wf_outbox db1 = wf_outbox db \<and> date \<in> cp_date ` set (wf_periods db) \<and> state \<in> {''ANOMALY'', ''APPROVED''}"
  by (auto simp: transition_calculation_def transition_closing_def find_period_def split: option.splits if_splits dest!: find_SomeD)

lemma audit_intent_payload:
  assumes "\<not> blank (wa_actor c)" "\<not> blank (wa_resource c)" "\<not> blank (wa_justification c)" "iso_shape date" "wa_session c \<noteq> Some []"
    "state \<in> {''CONTROLLED'', ''APPROVED'', ''ANOMALY''}"
  shows "workflow_action_payload (ms_payload (audit_intent stamp c state date)) = Inr
    \<lparr>wp_resource_type = resource_type_of (wa_action c), wp_resource = trim (wa_resource c), wp_action = action_name (wa_action c),
     wp_actor = trim (wa_actor c), wp_justification = trim (wa_justification c), wp_result_state = state,
     wp_business_date = date, wp_session = wa_session c, wp_address = None\<rparr>"
proof -
  obtain e t where stamp: "stamp = (e, t)" by (cases stamp)
  let ?p = "ms_payload (audit_intent stamp c state date)"
  have f: "payload_field ?p ''action'' = J_String (action_name (wa_action c))" "payload_field ?p ''actorId'' = J_String (wa_actor c)"
    "payload_field ?p ''resourceType'' = J_String (resource_type_of (wa_action c))" "payload_field ?p ''resourceId'' = J_String (wa_resource c)"
    "payload_field ?p ''businessDate'' = J_String date" "payload_field ?p ''justification'' = J_String (wa_justification c)"
    "payload_field ?p ''resultState'' = J_String state" "payload_field ?p ''sourceAddress'' = J_Undefined"
    "payload_field ?p ''sessionId'' = (case wa_session c of None \<Rightarrow> J_Undefined | Some s \<Rightarrow> J_String s)"
    by (auto simp: payload_field_def audit_intent_def stamp split: option.splits)
  have t: "trim (action_name (wa_action c)) = action_name (wa_action c)" "trim (resource_type_of (wa_action c)) = resource_type_of (wa_action c)"
    "trim state = state" "action_name (wa_action c) \<noteq> []" "resource_type_of (wa_action c) \<noteq> []" "state \<noteq> []"
    using assms(6) by (cases "wa_action c"; auto simp: action_name_def resource_type_of_def closing_action_def trim_def js_space_def)+
  have "each (check_required ?p) required_fields = Inr ()"
    using assms(1-4) iso_not_blank [OF assms(4)] t by (simp add: required_fields_def check_required_def f)
  moreover have "each (check_optional ?p) [''sessionId'', ''sourceAddress''] = Inr ()"
    using assms(5) by (auto simp: check_optional_def f split: option.splits)
  ultimately show ?thesis
    using assms(4) t by (simp add: workflow_action_payload_def f text_of_def optional_field_def Let_def split: option.splits)
qed

text \<open>
  C40. Every approval is recorded and reaches the audit trail as it was given: when a workflow approval succeeds
  under an idempotency key that is already stored, the stored approval under that key is the same one with
  the same resulting state, and no table changes; under a new key exactly one approval row is appended,
  and exactly one message is put into the outbox, and the audit worker accepts that message and appends an
  event with the actor, the resource, the action, the justification, the session and the resulting state of
  the approval - for a session that is absent or not empty, and business dates of the stored shape.
\<close>

theorem approvals_are_audited:
  assumes "execute_workflow_approval (\<lambda>c. approval_transition stamp c db) c = Inr (db', state)" "wa_session c \<noteq> Some []"
    "\<forall>d \<in> ca_date ` set (wf_runs db) \<union> cp_date ` set (wf_periods db). iso_shape d"
  shows "if trim (wa_key c) \<in> ap_key ` set (wf_approvals db)
    then db' = db \<and> (\<exists>a\<in>set (wf_approvals db). ap_key a = trim (wa_key c) \<and> ap_resource a = wa_resource c
        \<and> ap_action a = action_name (wa_action c) \<and> ap_actor a = trim (wa_actor c)
        \<and> ap_justification a = trim (wa_justification c) \<and> ap_result a = state)
    else wf_approvals db' = wf_approvals db @ [\<lparr>ap_key = trim (wa_key c), ap_resource_type = resource_type_of (wa_action c),
          ap_resource = wa_resource c, ap_action = action_name (wa_action c), ap_actor = trim (wa_actor c),
          ap_justification = trim (wa_justification c), ap_result = state\<rparr>]
      \<and> (\<exists>m d. wf_outbox db' = wf_outbox db @ [m]
        \<and> (\<forall>appender s. audit_effect appender m s = and_do (appender d) (\<lambda>e. give (Some (se_hash e))) s)
        \<and> ad_actor d = trim (wa_actor c) \<and> ad_resource d = wa_resource c \<and> ad_action d = action_name (wa_action c)
        \<and> ad_justification d = Some (trim (wa_justification c)) \<and> ad_session d = wa_session c \<and> ad_outcome d = Success
        \<and> ad_changes d = Some [(''state'', J_Object [(''after'', J_String state)])])"
proof -
  define c' where "c' = c\<lparr>wa_actor := trim (wa_actor c), wa_key := trim (wa_key c),
        wa_correlation := to_lower (trim (wa_correlation c)), wa_justification := trim (wa_justification c)\<rparr>"
  from assms(1) have run: "approval_transition stamp c' db = Inr (db', state)" and uuid: "is_uuid (wa_resource c)"
    and actor: "\<not> blank (wa_actor c)" and just: "\<not> length (trim (wa_justification c)) < 10"
    unfolding execute_workflow_approval_def if_throw_Inr c'_def by blast+
  have c': "wa_resource c' = wa_resource c" "wa_action c' = wa_action c" "wa_session c' = wa_session c" "wa_key c' = trim (wa_key c)"
    "wa_actor c' = trim (wa_actor c)" "wa_justification c' = trim (wa_justification c)" by (simp_all add: c'_def)
  have audited: "\<exists>d. (\<forall>appender s. audit_effect appender (audit_intent stamp c' state date) s
        = and_do (appender d) (\<lambda>e. give (Some (se_hash e))) s)
      \<and> ad_actor d = trim (wa_actor c) \<and> ad_resource d = wa_resource c \<and> ad_action d = action_name (wa_action c)
      \<and> ad_justification d = Some (trim (wa_justification c)) \<and> ad_session d = wa_session c \<and> ad_outcome d = Success
      \<and> ad_changes d = Some [(''state'', J_Object [(''after'', J_String state)])]"
    if "iso_shape date" "state \<in> {''CONTROLLED'', ''APPROVED'', ''ANOMALY''}" for date
  proof -
    let ?m = "audit_intent stamp c' state date"
    have j: "\<not> blank (wa_justification c)" using just by auto
    have p: "workflow_action_payload (ms_payload ?m) = Inr
      \<lparr>wp_resource_type = resource_type_of (wa_action c), wp_resource = wa_resource c, wp_action = action_name (wa_action c),
       wp_actor = trim (wa_actor c), wp_justification = trim (wa_justification c), wp_result_state = state,
       wp_business_date = date, wp_session = wa_session c, wp_address = None\<rparr>" (is "_ = Inr ?p")
      using audit_intent_payload [of c' date state stamp, OF _ _ _ that(1) _ that(2)] uuid_trim [OF uuid] actor j assms(2)
      by (simp add: c')
    have "audit_effect appender ?m s = and_do (appender (workflow_draft ?m ?p)) (\<lambda>e. give (Some (se_hash e))) s"
      for appender :: "audit_draft \<Rightarrow> ('b, signed_event) action" and s
      unfolding audit_effect_def p by (simp add: audit_intent_def and_do_def split: prod.splits)
    then show ?thesis by (intro exI [of _ "workflow_draft ?m ?p"]) (simp add: workflow_draft_def)
  qed
  have recorded: ?thesis if "wf_outbox db' = wf_outbox db @ [audit_intent stamp c' state date]" "iso_shape date"
      "state \<in> {''CONTROLLED'', ''APPROVED'', ''ANOMALY''}" "wa_key c' \<notin> ap_key ` set (wf_approvals db)"
      "wf_approvals db' = wf_approvals db @ [approval_of c' state]" for date
  proof -
    show ?thesis using that(1,4,5) audited [OF that(2,3)] by (simp add: approval_of_def c')
  qed
  from run show ?thesis
  proof (rule approval_transition_Inr)
    fix a assume "db' = db" "a \<in> set (wf_approvals db)" "answers_again c' state a"
    moreover from this have "trim (wa_key c) \<in> ap_key ` set (wf_approvals db)" by (force simp: answers_again_def c')
    ultimately show ?thesis by (auto simp: answers_again_def c')
  next
    fix date db1 assume t: "transition_calculation c' db = Inr (state, date, db1)"
      and w: "wf_outbox db' = wf_outbox db1 @ [audit_intent stamp c' state date]"
        "wa_key c' \<notin> ap_key ` set (wf_approvals db)" "wf_approvals db' = wf_approvals db @ [approval_of c' state]"
    from approval_date_state(1) [OF t] assms(3) have "iso_shape date" "state \<in> {''CONTROLLED'', ''APPROVED'', ''ANOMALY''}"
      "wf_outbox db1 = wf_outbox db" by auto
    with w show ?thesis by (intro recorded [of date]) simp_all
  next
    fix date db1 assume t: "transition_closing c' db = Inr (state, date, db1)"
      and w: "wf_outbox db' = wf_outbox db1 @ [audit_intent stamp c' state date]"
        "wa_key c' \<notin> ap_key ` set (wf_approvals db)" "wf_approvals db' = wf_approvals db @ [approval_of c' state]"
    from approval_date_state(2) [OF t] assms(3) have "iso_shape date" "state \<in> {''CONTROLLED'', ''APPROVED'', ''ANOMALY''}"
      "wf_outbox db1 = wf_outbox db" by auto
    with w show ?thesis by (intro recorded [of date]) simp_all
  qed
qed

definition example_decision :: approval_command where
  "example_decision = \<lparr>wa_action = Control_Calculation, wa_resource = ''0f8fad5b-d9cb-469f-a165-70867728950e'',
     wa_actor = ''checker'', wa_justification = ''figures checked'', wa_key = ''key-0123456789-ab'',
     wa_correlation = ''0f8fad5b-d9cb-469f-a165-70867728950e'', wa_session = Some ''s''\<rparr>"

definition example_review_db :: workflow_db where
  "example_review_db = empty_workflow\<lparr>wf_runs := [example_run\<lparr>ca_id := ''0f8fad5b-d9cb-469f-a165-70867728950e''\<rparr>]\<rparr>"

theorem approvals_are_audited_witness:
  "\<exists>db' m. execute_workflow_approval (\<lambda>c. approval_transition (''e'', ''t'') c example_review_db) example_decision = Inr (db', ''CONTROLLED'')
     \<and> wf_outbox db' = [m]
     \<and> audit_effect (\<lambda>d. throw (Failure (ad_actor d))) m () = (Inl (Failure ''checker''), ())"
proof -
  have "\<exists>db'. execute_workflow_approval (\<lambda>c. approval_transition (''e'', ''t'') c example_review_db) example_decision = Inr (db', ''CONTROLLED'')
      \<and> length (wf_outbox db') = 1"
    by (simp add: execute_workflow_approval_def example_decision_def is_uuid_def uuid_of_def char_class_defs trim_def js_space_def
        safe_key_def run_of_def safe_char_def to_lower_def lower_char_def approval_transition_def existing_action_def example_review_db_def
        empty_workflow_def closing_action_def transition_calculation_def example_run_def record_action_def update_run_def)
  then obtain db' where run: "execute_workflow_approval (\<lambda>c. approval_transition (''e'', ''t'') c example_review_db) example_decision
      = Inr (db', ''CONTROLLED'')" and len: "length (wf_outbox db') = 1" by blast
  have dates: "\<forall>d \<in> ca_date ` set (wf_runs example_review_db) \<union> cp_date ` set (wf_periods example_review_db). iso_shape d"
    by (simp add: example_review_db_def empty_workflow_def example_run_def iso_shape_def char_class_defs)
  have session: "wa_session example_decision \<noteq> Some []" by (simp add: example_decision_def)
  have old: "wf_outbox example_review_db = []" "wf_approvals example_review_db = []"
    by (simp_all add: example_review_db_def empty_workflow_def)
  from approvals_are_audited [OF run session dates, where 'a = unit] len old obtain m d where m: "wf_outbox db' = [m]"
    and a: "\<forall>appender s. audit_effect appender m (s :: unit) = and_do (appender d) (\<lambda>e. give (Some (se_hash e))) s"
    and d: "ad_actor d = trim (wa_actor example_decision)" by auto
  have "audit_effect (\<lambda>d. throw (Failure (ad_actor d))) m ()
      = and_do (throw (Failure (ad_actor d)) :: (unit, signed_event) action) (\<lambda>e. give (Some (se_hash e))) ()"
    using a [THEN spec, of "\<lambda>d. throw (Failure (ad_actor d))", THEN spec, of "()"] by simp
  moreover have "trim (wa_actor example_decision) = ''checker''" by (simp add: example_decision_def trim_def js_space_def)
  ultimately have "wf_outbox db' = [m]"
    "audit_effect (\<lambda>d. throw (Failure (ad_actor d))) m () = (Inl (Failure ''checker''), ())" using m d by (simp_all add: and_do_def)
  with run show ?thesis by - (rule exI [of _ db'], rule exI [of _ m], simp)
qed

end
