(* ===== verification/Tokenization.thy ===== *)
theory Tokenization
  imports Effects
begin

text \<open>
  Tokens in place of personal data: the checks of
  \<open>src/modules/tokenization/domain/tokenized-identity.ts\<close>, the client side
  (\<open>src/modules/tokenization/application/token-vault.ts\<close> and the adapter
  \<open>cbs-customer-tokenizer.adapter.ts\<close>) and the vault itself
  (\<open>src/modules/token-vault/application/token-vault-service.ts\<close>).  The remote vault, the
  key management, the blind index, the store of the vault, its audit and the random part of a
  token are ports of the source and parameters here.
\<close>

section \<open>Tokens\<close>

datatype personal_class = Customer_Id | National_Id | Holder_Name | Contact

record tokenized =
  tk_token :: string
  tk_class :: personal_class
  tk_key :: string

definition token_char :: "char \<Rightarrow> bool" where
  "token_char c \<longleftrightarrow> is_alnum c \<or> c = CHR ''_'' \<or> c = CHR ''-''"

definition vault_token :: "string \<Rightarrow> bool" where
  "vault_token s \<longleftrightarrow> take 4 s = ''tok_'' \<and> run_of token_char 16 128 (drop 4 s)"

definition assert_tokenized :: "tokenized \<Rightarrow> unit res" where
  "assert_tokenized v =
     (if \<not> vault_token (tk_token v) then Inl (TypeError ''Invalid vault token'')
      else if \<not> dotted_name 1 64 (tk_key v) then Inl (TypeError ''Invalid vault key version'')
      else Inr ())"

definition assert_purpose :: "string \<Rightarrow> unit res" where
  "assert_purpose s =
     (if headed_run is_upper (\<lambda>c. upper_digit c \<or> c = CHR ''_'') 4 63 s then Inr ()
      else Inl (TypeError ''Detokenization purpose is required and must be explicit''))"

section \<open>The client (\<open>ManageTokenization\<close>)\<close>

record tokenization_context =
  tc_actor :: string
  tc_correlation :: string
  tc_key :: string
  tc_purpose :: string

record 's token_vault =
  vl_tokenize :: "string \<Rightarrow> personal_class \<Rightarrow> tokenization_context \<Rightarrow> ('s, tokenized) action"
  vl_batch :: "string list \<Rightarrow> personal_class \<Rightarrow> tokenization_context \<Rightarrow> ('s, tokenized list) action"
  vl_detokenize :: "string \<Rightarrow> tokenization_context \<Rightarrow> ('s, string) action"
  vl_search :: "string \<Rightarrow> personal_class \<Rightarrow> tokenization_context \<Rightarrow> ('s, tokenized option) action"
  vl_rotate :: "string \<Rightarrow> tokenization_context \<Rightarrow> ('s, tokenized) action"

definition validate_context :: "tokenization_context \<Rightarrow> unit res" where
  "validate_context c =
     (if blank (tc_actor c) then Inl (TypeError ''Token Vault actor identity is required'')
      else if \<not> safe_key 16 128 (tc_key c) then Inl (TypeError ''Token Vault idempotency key is required'')
      else if \<not> is_uuid (tc_correlation c)
      then Inl (TypeError ''Token Vault correlation identifier must be a UUID'')
      else assert_purpose (tc_purpose c))"

definition assert_token :: "string \<Rightarrow> unit res" where
  "assert_token s = assert_tokenized \<lparr>tk_token = s, tk_class = Customer_Id, tk_key = ''validation''\<rparr>"

definition checked_token :: "tokenized \<Rightarrow> ('s, tokenized) action" where
  "checked_token v = and_do (lift_res (assert_tokenized v)) (\<lambda>_. give v)"

definition client_tokenize ::
  "'s token_vault \<Rightarrow> string \<Rightarrow> personal_class \<Rightarrow> tokenization_context \<Rightarrow> ('s, tokenized) action" where
  "client_tokenize vault value cls c =
     and_do (lift_res (validate_context c)) (\<lambda>_.
     if value = [] then throw (TypeError ''Value to tokenize is required'')
     else and_do (vl_tokenize vault value cls c) checked_token)"

definition client_tokenize_batch ::
  "'s token_vault \<Rightarrow> string list \<Rightarrow> personal_class \<Rightarrow> tokenization_context \<Rightarrow> ('s, tokenized list) action" where
  "client_tokenize_batch vault values cls c =
     and_do (lift_res (validate_context c)) (\<lambda>_.
     if length values < 1 \<or> length values > 1000 \<or> (\<exists>v\<in>set values. v = [])
     then throw (TypeError ''Tokenization batch must contain 1 to 1000 non-empty values'')
     else and_do (vl_batch vault values cls c) (\<lambda>results.
       if length results \<noteq> length values then throw (Failure ''Token Vault returned an incomplete batch'')
       else and_do (lift_res (each assert_tokenized results)) (\<lambda>_. give results)))"

definition client_detokenize :: "'s token_vault \<Rightarrow> string \<Rightarrow> tokenization_context \<Rightarrow> ('s, string) action" where
  "client_detokenize vault token c =
     and_do (lift_res (validate_context c)) (\<lambda>_. and_do (lift_res (assert_purpose (tc_purpose c))) (\<lambda>_.
     and_do (lift_res (assert_token token)) (\<lambda>_. and_do (vl_detokenize vault token c) (\<lambda>value.
     if value = [] then throw (Failure ''Token Vault returned an empty clear value'') else give value))))"

definition client_search ::
  "'s token_vault \<Rightarrow> string \<Rightarrow> personal_class \<Rightarrow> tokenization_context \<Rightarrow> ('s, tokenized option) action" where
  "client_search vault digest cls c =
     and_do (lift_res (validate_context c)) (\<lambda>_.
     if \<not> is_sha256_hex digest then throw (TypeError ''Search requires a keyed SHA-256 digest'')
     else and_do (vl_search vault digest cls c) (\<lambda>found. case found of
         None \<Rightarrow> give None
       | Some v \<Rightarrow> and_do (lift_res (assert_tokenized v)) (\<lambda>_. give (Some v))))"

definition client_rotate :: "'s token_vault \<Rightarrow> string \<Rightarrow> tokenization_context \<Rightarrow> ('s, tokenized) action" where
  "client_rotate vault token c =
     and_do (lift_res (validate_context c)) (\<lambda>_. and_do (lift_res (assert_purpose (tc_purpose c))) (\<lambda>_.
     and_do (lift_res (assert_token token)) (\<lambda>_. and_do (vl_rotate vault token c) checked_token)))"

definition cbs_tokenizer :: "'s token_vault \<Rightarrow> string list \<Rightarrow> string \<Rightarrow> string \<Rightarrow> ('s, string list) action" where
  "cbs_tokenizer vault values batch correlation =
     (if values = [] then give []
      else and_do (client_tokenize_batch vault values Customer_Id
          \<lparr>tc_actor = ''ingestion-worker'', tc_correlation = correlation, tc_key = ''cbs-publish:'' @ batch,
           tc_purpose = ''CBS_CORE_PUBLICATION''\<rparr>) (\<lambda>results. give (map tk_token results)))"

section \<open>The vault (\<open>TokenVaultService\<close>)\<close>

record payload =
  py_ciphertext :: string
  py_data_key :: string
  py_iv :: string
  py_tag :: string
  py_version :: string

record vault_record = payload +
  vr_token :: string
  vr_class :: personal_class
  vr_digest :: string
  vr_created :: string
  vr_rotated :: "string option"

datatype vault_outcome = Vault_Success | Vault_Denied | Vault_Failure

record vault_event =
  ve_token :: string
  ve_actor :: string
  ve_purpose :: string
  ve_correlation :: string
  ve_outcome :: vault_outcome
  ve_at :: string

record vault_context =
  vc_actor :: string
  vc_purpose :: string
  vc_correlation :: string

record 's vault_ports =
  vp_encrypt :: "string \<Rightarrow> ('s, payload) action"
  vp_decrypt :: "payload \<Rightarrow> ('s, string) action"
  vp_digest :: "string \<Rightarrow> personal_class \<Rightarrow> ('s, string) action"
  vp_random :: "('s, string) action"
  vp_now :: "('s, string) action"
  vp_insert :: "vault_record \<Rightarrow> ('s, unit) action"
  vp_find :: "string \<Rightarrow> ('s, vault_record option) action"
  vp_find_digest :: "string \<Rightarrow> personal_class \<Rightarrow> ('s, vault_record option) action"
  vp_replace :: "string \<Rightarrow> string \<Rightarrow> payload \<Rightarrow> ('s, unit) action"
  vp_audit :: "vault_event \<Rightarrow> ('s, unit) action"

definition payload_of :: "vault_record \<Rightarrow> payload" where
  "payload_of r = \<lparr>py_ciphertext = py_ciphertext r, py_data_key = py_data_key r, py_iv = py_iv r, py_tag = py_tag r,
     py_version = py_version r\<rparr>"

definition assert_digest :: "string \<Rightarrow> unit res" where
  "assert_digest s = (if is_sha256_hex s then Inr () else Inl (TypeError ''Blind index must be a SHA-256 digest''))"

definition assert_vault_context :: "vault_context \<Rightarrow> unit res" where
  "assert_vault_context c =
     (if blank (vc_actor c) then Inl (TypeError ''Vault actor is required'')
      else and_then (assert_purpose (vc_purpose c)) (\<lambda>_.
        if is_uuid (vc_correlation c) then Inr ()
        else Inl (TypeError ''Vault correlation identifier must be a UUID'')))"

definition vault_audit :: "'s vault_ports \<Rightarrow> string \<Rightarrow> vault_context \<Rightarrow> vault_outcome \<Rightarrow> ('s, unit) action" where
  "vault_audit p token c outcome =
     and_do (vp_now p) (\<lambda>now. vp_audit p \<lparr>ve_token = token, ve_actor = vc_actor c, ve_purpose = vc_purpose c,
       ve_correlation = vc_correlation c, ve_outcome = outcome, ve_at = now\<rparr>)"

definition vault_tokenize :: "'s vault_ports \<Rightarrow> string \<Rightarrow> personal_class \<Rightarrow> ('s, tokenized) action" where
  "vault_tokenize p value cls =
     (if value = [] then throw (TypeError ''Clear value is required inside the vault boundary'')
      else and_do (vp_encrypt p value) (\<lambda>body. and_do (vp_digest p value cls) (\<lambda>digest.
        and_do (lift_res (assert_digest digest)) (\<lambda>_. and_do (vp_random p) (\<lambda>random. and_do (vp_now p) (\<lambda>now.
        and_do (vp_insert p (payload.extend body \<lparr>vr_token = ''tok_'' @ random, vr_class = cls, vr_digest = digest,
            vr_created = now, vr_rotated = None\<rparr>)) (\<lambda>_.
        checked_token \<lparr>tk_token = ''tok_'' @ random, tk_class = cls, tk_key = py_version body\<rparr>)))))))"

definition vault_detokenize :: "'s vault_ports \<Rightarrow> string \<Rightarrow> vault_context \<Rightarrow> ('s, string) action" where
  "vault_detokenize p token c =
     and_do (lift_res (assert_vault_context c)) (\<lambda>_. and_do (vp_find p token) (\<lambda>found. case found of
       None \<Rightarrow> and_do (vault_audit p token c Vault_Denied) (\<lambda>_. throw (Failure ''Vault token not found''))
     | Some r \<Rightarrow> recover
         (and_do (vp_decrypt p (payload_of r)) (\<lambda>value.
           if value = [] then throw (Failure ''Vault returned an empty clear value'')
           else and_do (vault_audit p token c Vault_Success) (\<lambda>_. give value)))
         (\<lambda>e. and_do (vault_audit p token c Vault_Failure) (\<lambda>_. throw e))))"

definition vault_search :: "'s vault_ports \<Rightarrow> string \<Rightarrow> personal_class \<Rightarrow> ('s, tokenized option) action" where
  "vault_search p digest cls =
     and_do (lift_res (assert_digest digest)) (\<lambda>_. and_do (vp_find_digest p digest cls) (\<lambda>found.
     give (map_option (\<lambda>r. \<lparr>tk_token = vr_token r, tk_class = vr_class r, tk_key = py_version r\<rparr>) found)))"

definition vault_rotate :: "'s vault_ports \<Rightarrow> string \<Rightarrow> vault_context \<Rightarrow> ('s, tokenized) action" where
  "vault_rotate p token c =
     and_do (lift_res (assert_vault_context c)) (\<lambda>_. and_do (vp_find p token) (\<lambda>found. case found of
       None \<Rightarrow> and_do (vault_audit p token c Vault_Denied) (\<lambda>_. throw (Failure ''Vault token not found''))
     | Some r \<Rightarrow> recover
         (and_do (vp_decrypt p (payload_of r)) (\<lambda>value. and_do (vp_encrypt p value) (\<lambda>body.
           if py_version body = py_version r then throw (Failure ''KMS did not rotate to a new key version'')
           else and_do (vp_replace p token (py_version r) body) (\<lambda>_.
             and_do (vault_audit p token c Vault_Success) (\<lambda>_.
             give \<lparr>tk_token = token, tk_class = vr_class r, tk_key = py_version body\<rparr>)))))
         (\<lambda>e. and_do (recover (vault_audit p token c Vault_Failure) (\<lambda>_. give ())) (\<lambda>_. throw e))))"

section \<open>What the client accepts\<close>

lemma assert_tokenized_Inr [simp]: "assert_tokenized v = Inr u \<longleftrightarrow> vault_token (tk_token v) \<and> dotted_name 1 64 (tk_key v)"
  by (auto simp: assert_tokenized_def)

lemma checked_token_Inr: "checked_token v s = (Inr w, s') \<longleftrightarrow> w = v \<and> s' = s \<and> vault_token (tk_token v) \<and> dotted_name 1 64 (tk_key v)"
  by (auto simp: checked_token_def and_do_Inr)

text \<open>A batch comes back complete, in as many tokens as values, each of the promised form.\<close>

lemma client_tokenize_batch_Inr:
  assumes "client_tokenize_batch vault values cls c s = (Inr results, s')"
  shows "length results = length values \<and> (\<forall>v\<in>set results. vault_token (tk_token v))"
  using assms by (auto simp: client_tokenize_batch_def and_do_Inr each_Inr_iff split: if_splits)

lemma cbs_tokenizer_Inr:
  assumes "cbs_tokenizer vault values batch correlation s = (Inr tokens, s')"
  shows "length tokens = length values \<and> (\<forall>t\<in>set tokens. vault_token t)"
  using assms by (auto simp: cbs_tokenizer_def and_do_Inr dest!: client_tokenize_batch_Inr split: if_splits)

text \<open>The vault hands out a clear value only after the audit has taken the event.\<close>

lemma vault_detokenize_Inr:
  assumes "vault_detokenize p token c s = (Inr value, s')"
  shows "value \<noteq> [] \<and> (\<exists>now s1. vp_audit p \<lparr>ve_token = token, ve_actor = vc_actor c, ve_purpose = vc_purpose c,
      ve_correlation = vc_correlation c, ve_outcome = Vault_Success, ve_at = now\<rparr> s1 = (Inr (), s'))"
  using assms by (auto simp: vault_detokenize_def vault_audit_def and_do_Inr recover_Inr split: option.splits if_splits)

lemma vault_rotate_Inr:
  assumes "vault_rotate p token c s = (Inr v, s')"
  shows "tk_token v = token \<and> (\<exists>now s1. vp_audit p \<lparr>ve_token = token, ve_actor = vc_actor c, ve_purpose = vc_purpose c,
      ve_correlation = vc_correlation c, ve_outcome = Vault_Success, ve_at = now\<rparr> s1 = (Inr (), s'))"
  using assms by (auto simp: vault_rotate_def vault_audit_def and_do_Inr recover_Inr split: option.splits if_splits)

end
