(* ===== verification/Customers.thy ===== *)
theory Customers
  imports Tokenization Sql
begin

text \<open>
  Customer profiles and their legal restrictions
  (\<open>src/modules/customers/domain/customer-profile.ts\<close>), the use cases
  (\<open>manage-customer-profile.ts\<close>) and the tables
  (\<open>postgres-customer-profile.repository.ts\<close>).  An active restriction blocks every operation on
  the profit rights of the customer.
\<close>

section \<open>Profiles\<close>

datatype customer_segment = Retail | Sme | Corporate | Institutional

datatype kyc_status = Kyc_Pending | Kyc_Verified | Kyc_Expired | Kyc_Rejected

datatype restriction_kind = Seizure | Opposition | Block_Restriction

record restriction =
  lr_id :: string
  lr_kind :: restriction_kind
  lr_reason :: string
  lr_from :: string
  lr_lifted :: "string option"

record customer_profile =
  pf_id :: string
  pf_identity :: string
  pf_owners :: "string list"
  pf_representatives :: "string list"
  pf_segment :: customer_segment
  pf_kyc :: kyc_status
  pf_legal_form :: string
  pf_sector :: string
  pf_branch :: string
  pf_restrictions :: "restriction list"

definition kind_name :: "restriction_kind \<Rightarrow> string" where
  "kind_name k = (case k of Seizure \<Rightarrow> ''SEIZURE'' | Opposition \<Rightarrow> ''OPPOSITION'' | Block_Restriction \<Rightarrow> ''BLOCK'')"

text \<open>A string that is present and not empty.\<close>

definition truthy :: "string option \<Rightarrow> bool" where
  "truthy t \<longleftrightarrow> t \<noteq> None \<and> t \<noteq> Some []"

definition customer_token :: "string \<Rightarrow> unit res" where
  "customer_token s = (if vault_token s then Inr () else Inl (TypeError ''Customer personal data must be tokenized''))"

definition customer_date :: "string \<Rightarrow> unit res" where
  "customer_date s = (if parseable_date s then Inr () else Inl (TypeError ''Invalid business date''))"

definition validate_restriction :: "restriction \<Rightarrow> unit res" where
  "validate_restriction r =
     (if \<not> is_uuid (lr_id r) then Inl (TypeError ''Restriction identifier must be a UUID'')
      else if blank (lr_reason r) then Inl (TypeError ''Restriction reason is required'')
      else and_then (customer_date (lr_from r)) (\<lambda>_. case lr_lifted r of
          Some t \<Rightarrow> if t = [] then Inr () else customer_date t
        | None \<Rightarrow> Inr ()))"

definition validate_profile :: "customer_profile \<Rightarrow> unit res" where
  "validate_profile p =
     (if \<not> is_uuid (pf_id p) then Inl (TypeError ''Customer identifier must be a UUID'')
      else and_then (each customer_token (pf_identity p # pf_owners p @ pf_representatives p)) (\<lambda>_.
        if blank (pf_legal_form p) \<or> blank (pf_sector p) \<or> blank (pf_branch p)
        then Inl (TypeError ''Customer classification is incomplete'')
        else each validate_restriction (pf_restrictions p)))"

definition add_restriction :: "restriction \<Rightarrow> customer_profile \<Rightarrow> customer_profile res" where
  "add_restriction r p =
     and_then (validate_restriction r) (\<lambda>_.
     if \<exists>x\<in>set (pf_restrictions p). lr_id x = lr_id r then Inl (Failure ''Customer restriction already exists'')
     else Inr (p\<lparr>pf_restrictions := pf_restrictions p @ [r]\<rparr>))"

definition lift_restriction :: "string \<Rightarrow> string \<Rightarrow> customer_profile \<Rightarrow> customer_profile res" where
  "lift_restriction i lifted p =
     and_then (customer_date lifted) (\<lambda>_. case find (\<lambda>x. lr_id x = i) (pf_restrictions p) of
       None \<Rightarrow> Inl (Failure ''Customer restriction not found'')
     | Some r \<Rightarrow>
         if truthy (lr_lifted r) then Inl (Failure ''Customer restriction is already lifted'')
         else if str_less lifted (lr_from r) then Inl (Failure ''Restriction cannot be lifted before its effective date'')
         else Inr (p\<lparr>pf_restrictions := map (\<lambda>x. if lr_id x = i then x\<lparr>lr_lifted := Some lifted\<rparr> else x)
           (pf_restrictions p)\<rparr>))"

definition assert_profit_rights :: "customer_profile \<Rightarrow> unit res" where
  "assert_profit_rights p = (case find (\<lambda>x. \<not> truthy (lr_lifted x)) (pf_restrictions p) of
     Some r \<Rightarrow> Inl (Failure (''Customer profit rights blocked by active '' @ kind_name (lr_kind r) @ '' restriction''))
   | None \<Rightarrow> Inr ())"

section \<open>The tables\<close>

record customer_row =
  cx_id :: string
  cx_identity :: string
  cx_owners :: "string list"
  cx_representatives :: "string list"
  cx_segment :: customer_segment
  cx_kyc :: kyc_status
  cx_legal_form :: string
  cx_sector :: string
  cx_branch :: string
  cx_updated_by :: string

record restriction_row = restriction +
  lr_customer :: string

record customer_db =
  cm_profiles :: "customer_row list"
  cm_restrictions :: "restriction_row list"

text \<open>\<open>INSERT ... ON CONFLICT ... DO UPDATE\<close> on a table with a key.\<close>

definition upsert :: "('a \<Rightarrow> 'k) \<Rightarrow> ('a \<Rightarrow> 'a) \<Rightarrow> 'a \<Rightarrow> 'a list \<Rightarrow> 'a list" where
  "upsert key merge row rows =
     (if \<exists>r\<in>set rows. key r = key row then map (\<lambda>r. if key r = key row then merge r else r) rows else rows @ [row])"

definition save_restriction ::
  "(string \<Rightarrow> string option) \<Rightarrow> string \<Rightarrow> restriction \<Rightarrow> restriction_row list \<Rightarrow> restriction_row list res" where
  "save_restriction uuid customer r rows =
     and_then (as_uuid uuid (lr_id r)) (\<lambda>i. and_then (as_date (lr_from r)) (\<lambda>from.
     and_then (case lr_lifted r of None \<Rightarrow> Inr None | Some t \<Rightarrow> and_then (as_date t) (\<lambda>d. Inr (Some d))) (\<lambda>lifted.
     Inr (upsert lr_id (\<lambda>x. x\<lparr>lr_lifted := lifted\<rparr>)
       \<lparr>lr_id = i, lr_kind = lr_kind r, lr_reason = lr_reason r, lr_from = from, lr_lifted = lifted,
        lr_customer = customer\<rparr> rows))))"

fun save_restrictions ::
  "(string \<Rightarrow> string option) \<Rightarrow> string \<Rightarrow> restriction list \<Rightarrow> restriction_row list \<Rightarrow> restriction_row list res" where
  "save_restrictions uuid customer [] rows = Inr rows"
| "save_restrictions uuid customer (r # rs) rows =
     and_then (save_restriction uuid customer r rows) (save_restrictions uuid customer rs)"

definition save_profile ::
  "(string \<Rightarrow> string option) \<Rightarrow> customer_profile \<Rightarrow> string \<Rightarrow> 'a customer_db_scheme \<Rightarrow> (unit \<times> 'a customer_db_scheme) res" where
  "save_profile uuid p actor db =
     and_then (as_uuid uuid (pf_id p)) (\<lambda>i.
     let row = \<lparr>cx_id = i, cx_identity = pf_identity p, cx_owners = pf_owners p, cx_representatives = pf_representatives p,
         cx_segment = pf_segment p, cx_kyc = pf_kyc p, cx_legal_form = pf_legal_form p, cx_sector = pf_sector p,
         cx_branch = pf_branch p, cx_updated_by = actor\<rparr> in
     and_then (save_restrictions uuid i (pf_restrictions p) (cm_restrictions db)) (\<lambda>rows.
     Inr ((), db\<lparr>cm_profiles := upsert cx_id (\<lambda>_. row) row (cm_profiles db), cm_restrictions := rows\<rparr>)))"

definition later_first :: "restriction_row \<Rightarrow> restriction_row \<Rightarrow> int" where
  "later_first a b = (if str_less (lr_from b) (lr_from a) then - 1 else if lr_from a = lr_from b then 0 else 1)"

definition restriction_of :: "restriction_row \<Rightarrow> restriction" where
  "restriction_of r = \<lparr>lr_id = lr_id r, lr_kind = lr_kind r, lr_reason = lr_reason r, lr_from = lr_from r,
     lr_lifted = lr_lifted r\<rparr>"

definition find_profile :: "(string \<Rightarrow> string option) \<Rightarrow> string \<Rightarrow> 'a customer_db_scheme \<Rightarrow> customer_profile option res" where
  "find_profile uuid customer db =
     and_then (as_uuid uuid customer) (\<lambda>i. Inr (case find (\<lambda>r. cx_id r = i) (cm_profiles db) of
       None \<Rightarrow> None
     | Some r \<Rightarrow> Some \<lparr>pf_id = cx_id r, pf_identity = cx_identity r, pf_owners = cx_owners r,
         pf_representatives = cx_representatives r, pf_segment = cx_segment r, pf_kyc = cx_kyc r,
         pf_legal_form = cx_legal_form r, pf_sector = cx_sector r, pf_branch = cx_branch r,
         pf_restrictions = map restriction_of
           (sort_by later_first (filter (\<lambda>x. lr_customer x = i) (cm_restrictions db)))\<rparr>))"

section \<open>The use cases (\<open>ManageCustomerProfile\<close>)\<close>

definition customer_create ::
  "(string \<Rightarrow> string option) \<Rightarrow> customer_profile \<Rightarrow> string \<Rightarrow> ('a customer_db_scheme, customer_profile) action" where
  "customer_create uuid p actor =
     and_do (lift_res (validate_profile p)) (\<lambda>_. and_do (transaction (save_profile uuid p actor)) (\<lambda>_. give p))"

definition customer_get :: "(string \<Rightarrow> string option) \<Rightarrow> string \<Rightarrow> 'a customer_db_scheme \<Rightarrow> customer_profile res" where
  "customer_get uuid customer db =
     and_then (find_profile uuid customer db) (\<lambda>found. case found of
       None \<Rightarrow> Inl (Failure (''Customer not found: '' @ customer)) | Some p \<Rightarrow> Inr p)"

definition customer_change ::
  "(string \<Rightarrow> string option) \<Rightarrow> string \<Rightarrow> (customer_profile \<Rightarrow> customer_profile res) \<Rightarrow> string
     \<Rightarrow> ('a customer_db_scheme, customer_profile) action" where
  "customer_change uuid customer change actor = (\<lambda>db.
     and_do (lift_res (and_then (customer_get uuid customer db) (\<lambda>p. and_then (validate_profile p) (\<lambda>_. change p))))
       (\<lambda>p. and_do (transaction (save_profile uuid p actor)) (\<lambda>_. give p)) db)"

definition customer_restrict ::
  "(string \<Rightarrow> string option) \<Rightarrow> string \<Rightarrow> restriction \<Rightarrow> string \<Rightarrow> ('a customer_db_scheme, customer_profile) action" where
  "customer_restrict uuid customer r = customer_change uuid customer (add_restriction r)"

definition customer_lift ::
  "(string \<Rightarrow> string option) \<Rightarrow> string \<Rightarrow> string \<Rightarrow> string \<Rightarrow> string \<Rightarrow> ('a customer_db_scheme, customer_profile) action" where
  "customer_lift uuid customer i lifted = customer_change uuid customer (lift_restriction i lifted)"

definition customer_rights :: "(string \<Rightarrow> string option) \<Rightarrow> string \<Rightarrow> 'a customer_db_scheme \<Rightarrow> unit res" where
  "customer_rights uuid customer db =
     and_then (customer_get uuid customer db) (\<lambda>p. and_then (validate_profile p) (\<lambda>_. assert_profit_rights p))"

section \<open>Rights\<close>

lemma assert_profit_rights_Inr [simp]:
  "assert_profit_rights p = Inr u \<longleftrightarrow> (\<forall>r\<in>set (pf_restrictions p). truthy (lr_lifted r))"
  by (auto simp: assert_profit_rights_def find_None_iff split: option.splits dest: find_SomeD)

text \<open>The restrictions the database has for a customer that are still in force.\<close>

definition active_restrictions :: "string \<Rightarrow> 'a customer_db_scheme \<Rightarrow> restriction_row list" where
  "active_restrictions i db = filter (\<lambda>r. lr_customer r = i \<and> \<not> truthy (lr_lifted r)) (cm_restrictions db)"

lemma find_profile_Inr:
  assumes "find_profile uuid customer db = Inr (Some p)"
  obtains i where "uuid customer = Some i" "pf_id p = i" "i \<in> cx_id ` set (cm_profiles db)"
    "set (pf_restrictions p) = restriction_of ` {r \<in> set (cm_restrictions db). lr_customer r = i}"
proof -
  from assms obtain i r where i: "uuid customer = Some i" and r: "find (\<lambda>r. cx_id r = i) (cm_profiles db) = Some r"
    and p: "pf_restrictions p = map restriction_of (sort_by later_first (filter (\<lambda>x. lr_customer x = i) (cm_restrictions db)))"
    "pf_id p = cx_id r"
    by (auto simp: find_profile_def and_then_Inr as_simps split: option.splits)
  from find_SomeD [OF r] have key: "cx_id r = i" and "r \<in> set (cm_profiles db)" by auto
  then have "i \<in> cx_id ` set (cm_profiles db)" by auto
  with that [of i] i p key show ?thesis by simp
qed

lemma customer_rights_Inr:
  assumes "customer_rights uuid customer db = Inr u"
  obtains i where "uuid customer = Some i" "i \<in> cx_id ` set (cm_profiles db)" "active_restrictions i db = []"
proof -
  from assms obtain p where "find_profile uuid customer db = Inr (Some p)"
    and lifted: "\<forall>r\<in>set (pf_restrictions p). truthy (lr_lifted r)"
    by (auto simp: customer_rights_def customer_get_def and_then_Inr split: option.splits)
  from find_profile_Inr [OF this(1)] obtain i where i: "uuid customer = Some i" "i \<in> cx_id ` set (cm_profiles db)"
    and r: "set (pf_restrictions p) = restriction_of ` {r \<in> set (cm_restrictions db). lr_customer r = i}" by metis
  have "truthy (lr_lifted x)" if "x \<in> set (cm_restrictions db)" "lr_customer x = i" for x
  proof -
    have "restriction_of x \<in> set (pf_restrictions p)" using r that by auto
    with lifted show ?thesis by (auto simp: restriction_of_def)
  qed
  then have "active_restrictions i db = []" by (auto simp: active_restrictions_def filter_empty_conv)
  with that i show ?thesis by blast
qed

end
