(* ===== verification/Subscription.thy ===== *)
theory Subscription
  imports Customers Json
begin

text \<open>
  Investment subscriptions: the aggregate of
  \<open>src/modules/investment-accounts/domain/investment-subscription.ts\<close> and the commands of
  \<open>manage-investment-subscription.ts\<close>.  A method of the aggregate returns the changed state
  together with the events it recorded.
\<close>

section \<open>The aggregate\<close>

datatype sub_status = Sub_Simulation | Sub_Pending | Sub_Active | Sub_Blocked | Sub_Matured | Sub_Succession | Sub_Closed

datatype sub_event_type = Ev_Simulated | Ev_Started | Ev_Terms_Accepted | Ev_Activated | Ev_Deposit | Ev_Withdrawal
  | Ev_Blocked | Ev_Unblocked | Ev_Renewed | Ev_Matured | Ev_Succession | Ev_Closed

record terms_acceptance =
  ta_at :: string
  ta_by :: string
  ta_guarantee :: bool
  ta_method :: bool

record subscription =
  sb_account :: string
  sb_customer :: string
  sb_product :: string
  sb_terms :: string
  sb_version :: string
  sb_investor :: string
  sb_bank :: string
  sb_currency :: string
  sb_status :: sub_status
  sb_opened :: "string option"
  sb_maturity :: "string option"
  sb_closed :: "string option"
  sb_acceptance :: "terms_acceptance option"

record sub_event =
  ev_type :: sub_event_type
  ev_date :: string
  ev_actor :: string
  ev_details :: "(string \<times> string) list"

type_synonym aggregate = "subscription \<times> sub_event list"

definition sub_status_name :: "sub_status \<Rightarrow> string" where
  "sub_status_name s = (case s of Sub_Simulation \<Rightarrow> ''PRE_SIMULATION'' | Sub_Pending \<Rightarrow> ''PENDING_SUBSCRIPTION''
     | Sub_Active \<Rightarrow> ''ACTIVE'' | Sub_Blocked \<Rightarrow> ''BLOCKED'' | Sub_Matured \<Rightarrow> ''MATURED'' | Sub_Succession \<Rightarrow> ''SUCCESSION''
     | Sub_Closed \<Rightarrow> ''CLOSED'')"

subsection \<open>Checks\<close>

definition nisba_units :: "string \<Rightarrow> nat res" where
  "nisba_units s = (case unsigned_decimal s of
     Some (i, f) \<Rightarrow> if length (fraction_text f) \<le> 6 then Inr (units_of 6 i f)
       else Inl (TypeError ''Subscribed Nisba must use canonical decimal notation'')
   | None \<Rightarrow> Inl (TypeError ''Subscribed Nisba must use canonical decimal notation''))"

definition positive_amount :: "string \<Rightarrow> unit res" where
  "positive_amount s =
     (if short_decimal False 12 s \<and> 0 < nat_of_digits (filter (\<lambda>c. c \<noteq> CHR ''.'') s) then Inr ()
      else Inl (TypeError ''Amount must be a positive canonical decimal''))"

definition business_date :: "string \<Rightarrow> unit res" where
  "business_date s = (if calendar_date s then Inr () else Inl (TypeError ''Invalid business date''))"

text \<open>\<open>/^...T\\d{2}:\\d{2}:\\d{2}(?:\\.\\d{1,9})?(?:Z|[+-]\\d{2}:\\d{2})$/\<close> after the date.\<close>

definition zone_text :: "string \<Rightarrow> bool" where
  "zone_text z \<longleftrightarrow> z = ''Z'' \<or> (length z = 6 \<and> z ! 0 \<in> {CHR ''+'', CHR ''-''} \<and> z ! 3 = CHR '':''
     \<and> list_all is_digit (take 2 (drop 1 z)) \<and> list_all is_digit (drop 4 z))"

definition clock_text :: "string \<Rightarrow> bool" where
  "clock_text t \<longleftrightarrow> length t = 8 \<and> t ! 2 = CHR '':'' \<and> t ! 5 = CHR '':'' \<and> list_all is_digit (take 2 t)
     \<and> list_all is_digit (take 2 (drop 3 t)) \<and> list_all is_digit (drop 6 t)"

definition after_seconds :: "string \<Rightarrow> bool" where
  "after_seconds r \<longleftrightarrow> (if take 1 r = ''.'' then run_of is_digit 1 9 (takeWhile is_digit (tl r)) \<and> zone_text (dropWhile is_digit (tl r))
     else zone_text r)"

definition instant_shape :: "string \<Rightarrow> bool" where
  "instant_shape s \<longleftrightarrow> iso_shape (take 10 s) \<and> take 1 (drop 10 s) = ''T'' \<and> clock_text (take 8 (drop 11 s))
     \<and> after_seconds (drop 19 s)"

definition acceptance_instant :: "clock_lib \<Rightarrow> string \<Rightarrow> unit res" where
  "acceptance_instant clock s =
     (if instant_shape s \<and> date_parse clock s \<noteq> None \<and> calendar_date (take 10 s) then Inr ()
      else Inl (TypeError ''Invalid terms acceptance evidence''))"

definition validate_subscription :: "subscription \<Rightarrow> unit res" where
  "validate_subscription v =
     (if \<exists>i\<in>set [sb_account v, sb_customer v, sb_product v, sb_terms v]. \<not> is_uuid i
      then Inl (TypeError ''Subscription identifiers must be UUIDs'')
      else if blank (sb_version v) then Inl (TypeError ''Contract version is required'')
      else and_then (nisba_units (sb_investor v)) (\<lambda>investor. and_then (nisba_units (sb_bank v)) (\<lambda>bank.
        if investor + bank \<noteq> 100000000 then Inl (Failure ''Subscribed Nisba must total exactly 100'')
        else if \<not> is_currency_code (sb_currency v) then Inl (TypeError ''Invalid subscription currency'')
        else (case sb_maturity v of None \<Rightarrow> Inr () | Some d \<Rightarrow> if d = [] then Inr () else business_date d))))"

subsection \<open>Methods\<close>

definition require_status :: "sub_status list \<Rightarrow> aggregate \<Rightarrow> unit res" where
  "require_status states a =
     (if sb_status (fst a) \<in> set states then Inr ()
      else Inl (Failure (''Operation forbidden from '' @ sub_status_name (sb_status (fst a)))))"

definition record_event ::
  "sub_event_type \<Rightarrow> string \<Rightarrow> string \<Rightarrow> (string \<times> string) list \<Rightarrow> aggregate \<Rightarrow> aggregate res" where
  "record_event type date actor details a =
     and_then (business_date date) (\<lambda>_.
     if blank actor then Inl (TypeError ''Actor is required'')
     else Inr (fst a, snd a @ [\<lparr>ev_type = type, ev_date = date, ev_actor = actor, ev_details = details\<rparr>]))"

text \<open>Changing the state keeps the recorded events.\<close>

definition alter :: "(subscription \<Rightarrow> subscription) \<Rightarrow> aggregate \<Rightarrow> aggregate" where
  "alter f a = (f (fst a), snd a)"

definition presimulate :: "subscription \<Rightarrow> aggregate res" where
  "presimulate input =
     and_then (validate_subscription input) (\<lambda>_.
     Inr (input\<lparr>sb_status := Sub_Simulation, sb_opened := None, sb_closed := None, sb_acceptance := None,
       sb_maturity := (if truthy (sb_maturity input) then sb_maturity input else None)\<rparr>, []))"

definition restore :: "subscription \<Rightarrow> aggregate res" where
  "restore s = and_then (validate_subscription s) (\<lambda>_. Inr (s, []))"

definition start_subscription :: "string \<Rightarrow> string \<Rightarrow> aggregate \<Rightarrow> aggregate res" where
  "start_subscription date actor a =
     and_then (require_status [Sub_Simulation] a) (\<lambda>_.
     and_then (record_event Ev_Started date actor [] a) (\<lambda>a. Inr (alter (\<lambda>s. s\<lparr>sb_status := Sub_Pending\<rparr>) a)))"

definition accept_terms :: "clock_lib \<Rightarrow> terms_acceptance \<Rightarrow> string \<Rightarrow> aggregate \<Rightarrow> aggregate res" where
  "accept_terms clock t date a =
     and_then (require_status [Sub_Pending] a) (\<lambda>_.
     if \<not> ta_guarantee t \<or> \<not> ta_method t
     then Inl (Failure ''Explicit acceptance of non-guarantee and profit-sharing method is required'')
     else if blank (ta_by t) then Inl (TypeError ''Invalid terms acceptance evidence'')
     else and_then (acceptance_instant clock (ta_at t)) (\<lambda>_.
       record_event Ev_Terms_Accepted date (ta_by t) [] (alter (\<lambda>s. s\<lparr>sb_acceptance := Some t\<rparr>) a)))"

definition activate :: "string \<Rightarrow> string \<Rightarrow> aggregate \<Rightarrow> aggregate res" where
  "activate date actor a =
     and_then (require_status [Sub_Pending] a) (\<lambda>_.
     if sb_acceptance (fst a) = None then Inl (Failure ''Terms acceptance is required before activation'')
     else record_event Ev_Activated date actor [] (alter (\<lambda>s. s\<lparr>sb_status := Sub_Active, sb_opened := Some date\<rparr>) a))"

definition block :: "string \<Rightarrow> string \<Rightarrow> string \<Rightarrow> aggregate \<Rightarrow> aggregate res" where
  "block date actor reason a =
     and_then (require_status [Sub_Active] a) (\<lambda>_.
     record_event Ev_Blocked date actor [(''reason'', reason)] (alter (\<lambda>s. s\<lparr>sb_status := Sub_Blocked\<rparr>) a))"

definition unblock :: "string \<Rightarrow> string \<Rightarrow> string \<Rightarrow> aggregate \<Rightarrow> aggregate res" where
  "unblock date actor reason a =
     and_then (require_status [Sub_Blocked] a) (\<lambda>_.
     record_event Ev_Unblocked date actor [(''reason'', reason)] (alter (\<lambda>s. s\<lparr>sb_status := Sub_Active\<rparr>) a))"

definition deposit :: "string \<Rightarrow> string \<Rightarrow> string \<Rightarrow> aggregate \<Rightarrow> aggregate res" where
  "deposit date actor amount a =
     and_then (require_status [Sub_Active] a) (\<lambda>_. and_then (positive_amount amount) (\<lambda>_.
     record_event Ev_Deposit date actor [(''amount'', amount)] a))"

definition withdraw :: "string \<Rightarrow> string \<Rightarrow> string \<Rightarrow> aggregate \<Rightarrow> aggregate res" where
  "withdraw date actor amount a =
     and_then (require_status [Sub_Active] a) (\<lambda>_. and_then (positive_amount amount) (\<lambda>_.
     record_event Ev_Withdrawal date actor [(''amount'', amount)] a))"

definition renew :: "string \<Rightarrow> string \<Rightarrow> string \<Rightarrow> aggregate \<Rightarrow> aggregate res" where
  "renew date actor maturity a =
     and_then (require_status [Sub_Active, Sub_Matured] a) (\<lambda>_. and_then (business_date maturity) (\<lambda>_.
     record_event Ev_Renewed date actor [(''maturityDate'', maturity)]
       (alter (\<lambda>s. s\<lparr>sb_status := Sub_Active, sb_maturity := Some maturity\<rparr>) a)))"

definition mature :: "string \<Rightarrow> string \<Rightarrow> aggregate \<Rightarrow> aggregate res" where
  "mature date actor a =
     and_then (require_status [Sub_Active] a) (\<lambda>_.
     record_event Ev_Matured date actor [] (alter (\<lambda>s. s\<lparr>sb_status := Sub_Matured\<rparr>) a))"

definition open_succession :: "string \<Rightarrow> string \<Rightarrow> string \<Rightarrow> aggregate \<Rightarrow> aggregate res" where
  "open_succession date actor reference a =
     and_then (require_status [Sub_Active, Sub_Blocked, Sub_Matured] a) (\<lambda>_.
     if blank reference then Inl (TypeError ''Succession case reference is required'')
     else record_event Ev_Succession date actor [(''caseReference'', reference)]
       (alter (\<lambda>s. s\<lparr>sb_status := Sub_Succession\<rparr>) a))"

definition close :: "string \<Rightarrow> string \<Rightarrow> aggregate \<Rightarrow> aggregate res" where
  "close date actor a =
     and_then (require_status [Sub_Active, Sub_Blocked, Sub_Matured, Sub_Succession] a) (\<lambda>_.
     record_event Ev_Closed date actor [] (alter (\<lambda>s. s\<lparr>sb_status := Sub_Closed, sb_closed := Some date\<rparr>) a))"

section \<open>The commands (\<open>ManageInvestmentSubscription\<close>)\<close>

datatype sub_action_type = Act_Start | Act_Accept | Act_Activate | Act_Deposit | Act_Withdraw | Act_Block | Act_Unblock
  | Act_Renew | Act_Mature | Act_Succession | Act_Close

record sub_action =
  ac_type :: sub_action_type
  ac_date :: string
  ac_actor :: string
  ac_amount :: "string option"
  ac_reason :: "string option"
  ac_maturity :: "string option"
  ac_reference :: "string option"
  ac_accepted_at :: "string option"
  ac_guarantee :: "bool option"
  ac_method :: "bool option"

record sub_command =
  sc_key :: string
  sc_correlation :: string
  sc_operation :: string
  sc_hash :: string
  sc_actor :: string
  sc_justification :: string

definition action_type_name :: "sub_action_type \<Rightarrow> string" where
  "action_type_name t = (case t of Act_Start \<Rightarrow> ''START'' | Act_Accept \<Rightarrow> ''ACCEPT'' | Act_Activate \<Rightarrow> ''ACTIVATE''
     | Act_Deposit \<Rightarrow> ''DEPOSIT'' | Act_Withdraw \<Rightarrow> ''WITHDRAW'' | Act_Block \<Rightarrow> ''BLOCK'' | Act_Unblock \<Rightarrow> ''UNBLOCK''
     | Act_Renew \<Rightarrow> ''RENEW'' | Act_Mature \<Rightarrow> ''MATURE'' | Act_Succession \<Rightarrow> ''SUCCESSION'' | Act_Close \<Rightarrow> ''CLOSE'')"

definition or_empty :: "string option \<Rightarrow> string" where
  "or_empty t = (case t of None \<Rightarrow> [] | Some s \<Rightarrow> s)"

definition apply_action :: "clock_lib \<Rightarrow> sub_action \<Rightarrow> aggregate \<Rightarrow> aggregate res" where
  "apply_action clock c = (case ac_type c of
     Act_Start \<Rightarrow> start_subscription (ac_date c) (ac_actor c)
   | Act_Accept \<Rightarrow> accept_terms clock \<lparr>ta_at = or_empty (ac_accepted_at c), ta_by = ac_actor c,
       ta_guarantee = (ac_guarantee c = Some True), ta_method = (ac_method c = Some True)\<rparr> (ac_date c)
   | Act_Activate \<Rightarrow> activate (ac_date c) (ac_actor c)
   | Act_Deposit \<Rightarrow> deposit (ac_date c) (ac_actor c) (or_empty (ac_amount c))
   | Act_Withdraw \<Rightarrow> withdraw (ac_date c) (ac_actor c) (or_empty (ac_amount c))
   | Act_Block \<Rightarrow> block (ac_date c) (ac_actor c) (or_empty (ac_reason c))
   | Act_Unblock \<Rightarrow> unblock (ac_date c) (ac_actor c) (or_empty (ac_reason c))
   | Act_Renew \<Rightarrow> renew (ac_date c) (ac_actor c) (or_empty (ac_maturity c))
   | Act_Mature \<Rightarrow> mature (ac_date c) (ac_actor c)
   | Act_Succession \<Rightarrow> open_succession (ac_date c) (ac_actor c) (or_empty (ac_reference c))
   | Act_Close \<Rightarrow> close (ac_date c) (ac_actor c))"

definition assert_command_headers :: "string \<Rightarrow> string \<Rightarrow> string \<Rightarrow> unit res" where
  "assert_command_headers actor key correlation =
     (if blank actor then Inl (TypeError ''Subscription actor is required'')
      else if \<not> safe_key 16 128 key then Inl (TypeError ''Idempotency key is required'')
      else if \<not> is_uuid correlation then Inl (TypeError ''Subscription correlation identifier must be a UUID'')
      else Inr ())"

definition optional_text :: "string option \<Rightarrow> json" where
  "optional_text t = (case t of None \<Rightarrow> J_Undefined | Some s \<Rightarrow> J_String s)"

definition optional_flag :: "bool option \<Rightarrow> json" where
  "optional_flag t = (case t of None \<Rightarrow> J_Undefined | Some b \<Rightarrow> J_Bool b)"

definition normalized_action :: "sub_action \<Rightarrow> json" where
  "normalized_action c = J_Object [(''type'', J_String (action_type_name (ac_type c))), (''businessDate'', J_String (ac_date c)),
     (''actorId'', J_String (ac_actor c)), (''amount'', optional_text (ac_amount c)), (''reason'', optional_text (ac_reason c)),
     (''maturityDate'', optional_text (ac_maturity c)), (''caseReference'', optional_text (ac_reference c)),
     (''acceptedAt'', optional_text (ac_accepted_at c)), (''nonGuaranteeAccepted'', optional_flag (ac_guarantee c)),
     (''profitSharingMethodAccepted'', optional_flag (ac_method c))]"

definition input_json :: "subscription \<Rightarrow> json" where
  "input_json s = J_Object [(''accountId'', J_String (sb_account s)), (''customerId'', J_String (sb_customer s)),
     (''productId'', J_String (sb_product s)), (''productTermsVersionId'', J_String (sb_terms s)),
     (''contractVersion'', J_String (sb_version s)), (''investorNisba'', J_String (sb_investor s)),
     (''bankNisba'', J_String (sb_bank s)), (''currency'', J_String (sb_currency s)),
     (''maturityDate'', optional_text (sb_maturity s))]"

definition action_justification :: "sub_action \<Rightarrow> string" where
  "action_justification c =
     (if (ac_type c = Act_Block \<or> ac_type c = Act_Unblock) \<and> \<not> blank (or_empty (ac_reason c))
      then trim (or_empty (ac_reason c)) else ''Investment subscription action '' @ action_type_name (ac_type c))"

definition command_context ::
  "json_lib \<Rightarrow> string \<Rightarrow> string \<Rightarrow> string \<Rightarrow> string \<Rightarrow> json \<Rightarrow> string \<Rightarrow> sub_command res" where
  "command_context lib operation actor key correlation request justification =
     and_then (canonical_json lib request) (\<lambda>text.
     Inr \<lparr>sc_key = key, sc_correlation = correlation, sc_operation = operation, sc_hash = sha256 lib text,
       sc_actor = actor, sc_justification = justification\<rparr>)"

definition rights_action :: "sub_action_type \<Rightarrow> bool" where
  "rights_action t \<longleftrightarrow> t \<in> {Act_Activate, Act_Deposit, Act_Withdraw, Act_Renew, Act_Mature, Act_Succession, Act_Close}"

text \<open>The repository is a port of the use cases: \<open>create\<close> and \<open>transition\<close> with the callback it runs.\<close>

definition sub_create ::
  "json_lib \<Rightarrow> (subscription \<Rightarrow> sub_event list \<Rightarrow> sub_command \<Rightarrow> ('s, subscription) action) \<Rightarrow> string
     \<Rightarrow> subscription \<Rightarrow> string \<Rightarrow> string \<Rightarrow> string \<Rightarrow> ('s, subscription) action" where
  "sub_create lib repository today input actor key correlation =
     and_do (lift_res (assert_command_headers actor key correlation)) (\<lambda>_.
     and_do (lift_res (presimulate input)) (\<lambda>(state, _).
     and_do (lift_res (command_context lib ''CREATE_INVESTMENT_SUBSCRIPTION'' actor key correlation
         (J_Object [(''input'', input_json input), (''actorId'', J_String actor)])
         ''Investment subscription pre-simulation created'')) (\<lambda>command.
     repository state [\<lparr>ev_type = Ev_Simulated, ev_date = today, ev_actor = actor, ev_details = []\<rparr>] command)))"

definition mutate_subscription ::
  "clock_lib \<Rightarrow> (string \<Rightarrow> 's \<Rightarrow> unit res) \<Rightarrow> sub_action \<Rightarrow> 's \<Rightarrow> subscription \<Rightarrow> aggregate res" where
  "mutate_subscription clock rights c db state =
     and_then (if rights_action (ac_type c) then rights (sb_customer state) db else Inr ()) (\<lambda>_.
     and_then (restore state) (apply_action clock c))"

definition sub_act ::
  "json_lib \<Rightarrow> (string \<Rightarrow> sub_command \<Rightarrow> (subscription \<Rightarrow> aggregate res) \<Rightarrow> ('s, subscription) action)
     \<Rightarrow> clock_lib \<Rightarrow> (string \<Rightarrow> 's \<Rightarrow> unit res) \<Rightarrow> string \<Rightarrow> sub_action \<Rightarrow> string \<Rightarrow> string
     \<Rightarrow> ('s, subscription) action" where
  "sub_act lib repository clock rights account c key correlation =
     and_do (lift_res (assert_command_headers (ac_actor c) key correlation)) (\<lambda>_.
     and_do (lift_res (command_context lib (action_type_name (ac_type c) @ ''_INVESTMENT_SUBSCRIPTION'') (ac_actor c) key
         correlation (J_Object [(''accountId'', J_String account), (''action'', normalized_action c)])
         (action_justification c))) (\<lambda>command.
     (\<lambda>db. repository account command (mutate_subscription clock rights c db) db)))"

end
