(* ===== verification/Subscription_Store.thy ===== *)
theory Subscription_Store
  imports Subscription Inbox
begin

text \<open>
  The subscription tables and
  \<open>src/infrastructure/persistence/postgres-investment-subscription.repository.ts\<close>: contracts,
  their append-only events, the commands with their outcomes, and the operational accounts that an
  activation opens.  The amounts in the details of an event are added up by the database as exact
  numbers; the database's reading of identifiers and instants and the identifier and time of an
  outbox row are parameters.
\<close>

section \<open>Tables\<close>

datatype account_status = Oa_Active | Oa_Suspended | Oa_Closed

record sub_row =
  sr_account :: string
  sr_customer :: string
  sr_product :: string
  sr_terms :: string
  sr_version :: string
  sr_investor :: int
  sr_bank :: int
  sr_currency :: string
  sr_status :: sub_status
  sr_opened :: "string option"
  sr_maturity :: "string option"
  sr_closed :: "string option"
  sr_accepted_at :: "string option"
  sr_accepted_by :: "string option"
  sr_guarantee :: bool
  sr_method :: bool

record operational_row =
  oa_id :: string
  oa_token :: string
  oa_product :: string
  oa_currency :: string
  oa_opened :: string
  oa_status :: account_status
  oa_closed :: "string option"

record sub_event_row =
  er_account :: string
  er_event :: sub_event
  er_key :: string

record sub_command_row =
  cr_key :: string
  cr_account :: string
  cr_operation :: string
  cr_hash :: string
  cr_correlation :: string
  cr_result :: subscription

record subscription_db = customer_db +
  sd_rows :: "sub_row list"
  sd_events :: "sub_event_row list"
  sd_commands :: "sub_command_row list"
  sd_accounts :: "operational_row list"
  sd_products :: "(string \<times> string) list"
  sd_outbox :: "outbox_message list"

section \<open>Rows and states\<close>

definition map_subscription :: "sub_row \<Rightarrow> subscription" where
  "map_subscription r = \<lparr>sb_account = sr_account r, sb_customer = sr_customer r, sb_product = sr_product r,
     sb_terms = sr_terms r, sb_version = sr_version r, sb_investor = render_units 6 (sr_investor r),
     sb_bank = render_units 6 (sr_bank r), sb_currency = sr_currency r, sb_status = sr_status r,
     sb_opened = sr_opened r, sb_maturity = sr_maturity r, sb_closed = sr_closed r,
     sb_acceptance = map_option (\<lambda>t. \<lparr>ta_at = t, ta_by = or_empty (sr_accepted_by r), ta_guarantee = sr_guarantee r,
        ta_method = sr_method r\<rparr>) (sr_accepted_at r)\<rparr>"

definition state_row ::
  "(string \<Rightarrow> string option) \<Rightarrow> (string \<Rightarrow> string res) \<Rightarrow> subscription \<Rightarrow> sub_row res" where
  "state_row uuid instant s =
     and_then (as_uuid uuid (sb_account s)) (\<lambda>account. and_then (as_uuid uuid (sb_customer s)) (\<lambda>customer.
     and_then (as_uuid uuid (sb_product s)) (\<lambda>product. and_then (as_uuid uuid (sb_terms s)) (\<lambda>terms.
     and_then (numeric_cast 9 6 (sb_investor s)) (\<lambda>investor. and_then (numeric_cast 9 6 (sb_bank s)) (\<lambda>bank.
     and_then (nullable as_date (sb_opened s)) (\<lambda>opened. and_then (nullable as_date (sb_maturity s)) (\<lambda>maturity.
     and_then (nullable as_date (sb_closed s)) (\<lambda>closed.
     and_then (nullable instant (map_option ta_at (sb_acceptance s))) (\<lambda>accepted.
     Inr \<lparr>sr_account = account, sr_customer = customer, sr_product = product, sr_terms = terms,
       sr_version = sb_version s, sr_investor = investor, sr_bank = bank, sr_currency = sb_currency s,
       sr_status = sb_status s, sr_opened = opened, sr_maturity = maturity, sr_closed = closed,
       sr_accepted_at = accepted, sr_accepted_by = map_option ta_by (sb_acceptance s),
       sr_guarantee = (case sb_acceptance s of None \<Rightarrow> False | Some a \<Rightarrow> ta_guarantee a),
       sr_method = (case sb_acceptance s of None \<Rightarrow> False | Some a \<Rightarrow> ta_method a)\<rparr>))))))))))"

text \<open>The columns the update of a transition sets; the others keep their values.\<close>

definition updated_row :: "(string \<Rightarrow> string res) \<Rightarrow> subscription \<Rightarrow> sub_row \<Rightarrow> sub_row res" where
  "updated_row instant s old =
     and_then (nullable as_date (sb_opened s)) (\<lambda>opened. and_then (nullable as_date (sb_maturity s)) (\<lambda>maturity.
     and_then (nullable as_date (sb_closed s)) (\<lambda>closed.
     and_then (nullable instant (map_option ta_at (sb_acceptance s))) (\<lambda>accepted.
     Inr (old\<lparr>sr_status := sb_status s, sr_opened := opened, sr_maturity := maturity, sr_closed := closed,
       sr_accepted_at := accepted, sr_accepted_by := map_option ta_by (sb_acceptance s),
       sr_guarantee := (case sb_acceptance s of None \<Rightarrow> False | Some a \<Rightarrow> ta_guarantee a),
       sr_method := (case sb_acceptance s of None \<Rightarrow> False | Some a \<Rightarrow> ta_method a)\<rparr>)))))"

section \<open>Events and the balance\<close>

definition events_of :: "string \<Rightarrow> 'a subscription_db_scheme \<Rightarrow> sub_event list" where
  "events_of i db = map er_event (filter (\<lambda>r. er_account r = i) (sd_events db))"

text \<open>\<open>(details->>'amount')::numeric\<close>; a missing amount is \<open>NULL\<close>, which a sum leaves out.\<close>

definition event_amount :: "sub_event \<Rightarrow> rat res" where
  "event_amount e = (case map_of (ev_details e) ''amount'' of
     None \<Rightarrow> Inr 0
   | Some t \<Rightarrow> (case decimal_value t of
       None \<Rightarrow> Inl (Failure ''invalid input syntax for type numeric'') | Some q \<Rightarrow> Inr q))"

definition signed_amount :: "sub_event \<Rightarrow> rat res" where
  "signed_amount e = (case ev_type e of
     Ev_Deposit \<Rightarrow> event_amount e
   | Ev_Withdrawal \<Rightarrow> and_then (event_amount e) (\<lambda>q. Inr (- q))
   | _ \<Rightarrow> Inr 0)"

definition ledger_sum :: "sub_event list \<Rightarrow> rat res" where
  "ledger_sum es = and_then (traverse signed_amount es) (\<lambda>qs. Inr (sum_list qs))"

definition sum_of_type :: "sub_event_type \<Rightarrow> sub_event list \<Rightarrow> rat res" where
  "sum_of_type t es = and_then (traverse event_amount (filter (\<lambda>e. ev_type e = t) es)) (\<lambda>qs. Inr (sum_list qs))"

definition append_event_row ::
  "string \<Rightarrow> string \<Rightarrow> nat \<Rightarrow> sub_event \<Rightarrow> 'a subscription_db_scheme \<Rightarrow> 'a subscription_db_scheme res" where
  "append_event_row account key index e db =
     (let k = key @ '':'' @ digits_of index in
     and_then (as_date (ev_date e)) (\<lambda>_.
     if \<exists>r\<in>set (sd_events db). er_account r = account \<and> er_key r = k then Inl unique_violation
     else Inr (db\<lparr>sd_events := sd_events db @ [\<lparr>er_account = account, er_event = e, er_key = k\<rparr>]\<rparr>)))"

fun append_events ::
  "string \<Rightarrow> string \<Rightarrow> nat \<Rightarrow> sub_event list \<Rightarrow> 'a subscription_db_scheme \<Rightarrow> 'a subscription_db_scheme res" where
  "append_events account key index [] db = Inr db"
| "append_events account key index (e # es) db =
     and_then (append_event_row account key index e db) (append_events account key (Suc index) es)"

section \<open>Commands\<close>

definition find_replay ::
  "string \<Rightarrow> sub_command \<Rightarrow> 'a subscription_db_scheme \<Rightarrow> subscription option res" where
  "find_replay account c db = (case find (\<lambda>r. cr_key r = sc_key c) (sd_commands db) of
     None \<Rightarrow> Inr None
   | Some r \<Rightarrow>
       if cr_account r \<noteq> account \<or> cr_operation r \<noteq> sc_operation c \<or> cr_hash r \<noteq> sc_hash c
       then Inl (Failure ''Idempotency key was already used for a different subscription command'')
       else Inr (Some (cr_result r)))"

definition sub_audit_intent ::
  "string \<times> string \<Rightarrow> (string \<Rightarrow> string option) \<Rightarrow> subscription \<Rightarrow> sub_event list \<Rightarrow> sub_command
     \<Rightarrow> 'a subscription_db_scheme \<Rightarrow> 'a subscription_db_scheme res" where
  "sub_audit_intent stamp uuid s es c db = (case es of
     [] \<Rightarrow> Inl (Failure ''Subscription audit intent requires a business date'')
   | e # _ \<Rightarrow>
     if ev_date e = [] then Inl (Failure ''Subscription audit intent requires a business date'')
     else and_then (as_uuid uuid (sc_correlation c)) (\<lambda>correlation.
     Inr (db\<lparr>sd_outbox := sd_outbox db @ [\<lparr>ms_event_id = fst stamp,
       ms_event_type = ''pms.audit.workflow-action-recorded.v1'', ms_schema_version = 1,
       ms_aggregate_type = ''InvestmentSubscription'', ms_aggregate_id = sb_account s, ms_correlation = correlation,
       ms_causation = None, ms_occurred_at = snd stamp,
       ms_payload = [(''resourceType'', J_String ''InvestmentSubscription''), (''resourceId'', J_String (sb_account s)),
         (''action'', J_String (sc_operation c)), (''actorId'', J_String (sc_actor c)),
         (''justification'', J_String (sc_justification c)), (''resultState'', J_String (sub_status_name (sb_status s))),
         (''businessDate'', J_String (ev_date e))]\<rparr>]\<rparr>)))"

definition insert_command ::
  "(string \<Rightarrow> string option) \<Rightarrow> subscription \<Rightarrow> sub_command \<Rightarrow> 'a subscription_db_scheme
     \<Rightarrow> (subscription \<times> 'a subscription_db_scheme) res" where
  "insert_command uuid s c db =
     and_then (as_uuid uuid (sb_account s)) (\<lambda>account. and_then (as_uuid uuid (sc_correlation c)) (\<lambda>correlation.
     Inr (s, db\<lparr>sd_commands := sd_commands db @ [\<lparr>cr_key = sc_key c, cr_account = account, cr_operation = sc_operation c,
       cr_hash = sc_hash c, cr_correlation = correlation, cr_result = s\<rparr>]\<rparr>)))"

text \<open>What both operations write after the row itself.\<close>

definition record_command ::
  "string \<times> string \<Rightarrow> (string \<Rightarrow> string option) \<Rightarrow> string \<Rightarrow> subscription \<Rightarrow> sub_event list \<Rightarrow> sub_command
     \<Rightarrow> 'a subscription_db_scheme \<Rightarrow> (subscription \<times> 'a subscription_db_scheme) res" where
  "record_command stamp uuid account s es c db =
     and_then (append_events account (sc_key c) 0 es db) (\<lambda>db.
     and_then (sub_audit_intent stamp uuid s es c db) (insert_command uuid s c))"

definition create_subscription ::
  "string \<times> string \<Rightarrow> (string \<Rightarrow> string option) \<Rightarrow> (string \<Rightarrow> string res) \<Rightarrow> subscription \<Rightarrow> sub_event list \<Rightarrow> sub_command
     \<Rightarrow> 'a subscription_db_scheme \<Rightarrow> (subscription \<times> 'a subscription_db_scheme) res" where
  "create_subscription stamp uuid instant s es c db =
     and_then (find_replay (sb_account s) c db) (\<lambda>replay. case replay of
       Some result \<Rightarrow> Inr (result, db)
     | None \<Rightarrow> and_then (state_row uuid instant s) (\<lambda>row.
         if sr_account row \<in> sr_account ` set (sd_rows db) then Inl unique_violation
         else record_command stamp uuid (sr_account row) s es c (db\<lparr>sd_rows := sd_rows db @ [row]\<rparr>)))"

text \<open>An activation opens the operational account, or reopens it.\<close>

definition missing_reference :: js_error where
  "missing_reference = Failure ''Active subscription requires an existing customer and product operational reference''"

definition open_account ::
  "string \<Rightarrow> string \<Rightarrow> string \<Rightarrow> string \<Rightarrow> string \<Rightarrow> 'a subscription_db_scheme \<Rightarrow> 'a subscription_db_scheme res" where
  "open_account account day product customer currency db = (case find (\<lambda>x. cx_id x = customer) (cm_profiles db) of
     None \<Rightarrow> Inl missing_reference
   | Some profile \<Rightarrow> (case map_of (sd_products db) product of
       None \<Rightarrow> Inl missing_reference
     | Some product_code \<Rightarrow> Inr (db\<lparr>sd_accounts := upsert oa_id
         (\<lambda>a. a\<lparr>oa_status := Oa_Active, oa_closed := None\<rparr>)
         \<lparr>oa_id = account, oa_token = cx_identity profile, oa_product = product_code, oa_currency = currency,
          oa_opened = day, oa_status = Oa_Active, oa_closed = None\<rparr> (sd_accounts db)\<rparr>)))"

definition synchronize_account ::
  "(string \<Rightarrow> string option) \<Rightarrow> subscription \<Rightarrow> sub_event_type \<Rightarrow> 'a subscription_db_scheme
     \<Rightarrow> 'a subscription_db_scheme res" where
  "synchronize_account uuid s type db =
     (if type \<noteq> Ev_Activated \<or> sb_status s \<noteq> Sub_Active \<or> \<not> truthy (sb_opened s) then Inr db
      else and_then (as_uuid uuid (sb_account s)) (\<lambda>account. and_then (as_date (or_empty (sb_opened s))) (\<lambda>day.
        and_then (as_uuid uuid (sb_product s)) (\<lambda>product. and_then (as_uuid uuid (sb_customer s)) (\<lambda>customer.
        open_account account day product customer (sb_currency s) db)))))"

text \<open>A withdrawal must be covered by the events recorded before it.\<close>

definition withdrawal_covered ::
  "string \<Rightarrow> sub_event \<Rightarrow> 'a subscription_db_scheme \<Rightarrow> unit res" where
  "withdrawal_covered account e db =
     (if ev_type e \<noteq> Ev_Withdrawal then Inr ()
      else and_then (ledger_sum (events_of account db)) (\<lambda>available. and_then (event_amount e) (\<lambda>amount.
        if amount \<le> available then Inr () else Inl (Failure ''Insufficient subscription balance for withdrawal''))))"

definition apply_mutation ::
  "string \<times> string \<Rightarrow> (string \<Rightarrow> string option) \<Rightarrow> (string \<Rightarrow> string res) \<Rightarrow> sub_row \<Rightarrow> sub_command
     \<Rightarrow> aggregate \<Rightarrow> 'a subscription_db_scheme \<Rightarrow> (subscription \<times> 'a subscription_db_scheme) res" where
  "apply_mutation stamp uuid instant old c mutation db = (let i = sr_account old; s = fst mutation in
     case snd mutation of
       [e] \<Rightarrow> and_then (withdrawal_covered i e db) (\<lambda>_. and_then (updated_row instant s old) (\<lambda>row.
         and_then (synchronize_account uuid s (ev_type e)
           (db\<lparr>sd_rows := map (\<lambda>r. if sr_account r = i then row else r) (sd_rows db)\<rparr>)) (\<lambda>db1.
         record_command stamp uuid i s [e] c db1)))
     | _ \<Rightarrow> Inl (Failure ''A subscription command must emit exactly one domain event''))"

definition transition_subscription ::
  "string \<times> string \<Rightarrow> (string \<Rightarrow> string option) \<Rightarrow> (string \<Rightarrow> string res) \<Rightarrow> string \<Rightarrow> sub_command
     \<Rightarrow> (subscription \<Rightarrow> aggregate res) \<Rightarrow> 'a subscription_db_scheme \<Rightarrow> (subscription \<times> 'a subscription_db_scheme) res" where
  "transition_subscription stamp uuid instant account c mutate db =
     and_then (find_replay account c db) (\<lambda>replay. case replay of
       Some result \<Rightarrow> Inr (result, db)
     | None \<Rightarrow> and_then (as_uuid uuid account) (\<lambda>i. case find (\<lambda>r. sr_account r = i) (sd_rows db) of
         None \<Rightarrow> Inl (Failure (''Investment subscription not found: '' @ account))
       | Some old \<Rightarrow> and_then (mutate (map_subscription old)) (\<lambda>mutation.
           apply_mutation stamp uuid instant old c mutation db)))"

section \<open>Queries\<close>

record sub_balance =
  bl_state :: subscription
  bl_balance :: rat
  bl_deposits :: rat
  bl_withdrawals :: rat
  bl_terms_accepted :: bool

definition map_balance :: "sub_row \<Rightarrow> 'a subscription_db_scheme \<Rightarrow> sub_balance res" where
  "map_balance r db =
     and_then (sum_of_type Ev_Deposit (events_of (sr_account r) db)) (\<lambda>deposits.
     and_then (sum_of_type Ev_Withdrawal (events_of (sr_account r) db)) (\<lambda>withdrawals.
     Inr \<lparr>bl_state = map_subscription r, bl_balance = deposits - withdrawals, bl_deposits = deposits,
       bl_withdrawals = withdrawals, bl_terms_accepted = (truthy (sr_accepted_at r) \<and> sr_guarantee r \<and> sr_method r)\<rparr>))"

definition find_with_balance ::
  "(string \<Rightarrow> string option) \<Rightarrow> string \<Rightarrow> 'a subscription_db_scheme \<Rightarrow> sub_balance option res" where
  "find_with_balance uuid account db =
     and_then (as_uuid uuid account) (\<lambda>i. case find (\<lambda>r. sr_account r = i) (sd_rows db) of
       None \<Rightarrow> Inr None
     | Some r \<Rightarrow> and_then (map_balance r db) (\<lambda>b. Inr (Some b)))"

definition get_subscription ::
  "(string \<Rightarrow> string option) \<Rightarrow> string \<Rightarrow> 'a subscription_db_scheme \<Rightarrow> sub_balance res" where
  "get_subscription uuid account db =
     (if \<not> is_uuid account then Inl (TypeError ''Subscription identifier must be a UUID'')
      else and_then (find_with_balance uuid account db) (\<lambda>found. case found of
        None \<Rightarrow> Inl (Failure (''Investment subscription not found: '' @ account)) | Some b \<Rightarrow> Inr b))"

section \<open>The assembled service\<close>

definition subscription_service_create ::
  "(string \<Rightarrow> string option) \<Rightarrow> (string \<Rightarrow> string res) \<Rightarrow> string \<times> string \<Rightarrow> json_lib \<Rightarrow> string \<Rightarrow> subscription
     \<Rightarrow> string \<Rightarrow> string \<Rightarrow> string \<Rightarrow> ('a subscription_db_scheme, subscription) action" where
  "subscription_service_create uuid instant stamp lib today =
     sub_create lib (\<lambda>s es c. transaction (create_subscription stamp uuid instant s es c)) today"

definition subscription_service_act ::
  "(string \<Rightarrow> string option) \<Rightarrow> (string \<Rightarrow> string res) \<Rightarrow> string \<times> string \<Rightarrow> json_lib \<Rightarrow> clock_lib \<Rightarrow> string
     \<Rightarrow> sub_action \<Rightarrow> string \<Rightarrow> string \<Rightarrow> ('a subscription_db_scheme, subscription) action" where
  "subscription_service_act uuid instant stamp lib clock =
     sub_act lib (\<lambda>account c mutate. transaction (transition_subscription stamp uuid instant account c mutate)) clock
       (customer_rights uuid)"

end
