(* ===== verification/Subscription_Correct.thy ===== *)
theory Subscription_Correct
  imports Subscription_Store
begin

text \<open>
  What the subscription tables keep: the history of every contract is a path of its life, its
  withdrawals are covered by the deposits before them at every moment, an active contract has
  accepted terms and an operational account, and operations on profit rights wait for every
  restriction of the customer to be lifted.
\<close>

section \<open>The life of a contract\<close>

text \<open>The abstract life: which event leads where.\<close>

definition sub_moves :: "sub_status \<Rightarrow> (sub_event_type \<times> sub_status) list" where
  "sub_moves s = (case s of
     Sub_Simulation \<Rightarrow> [(Ev_Started, Sub_Pending)]
   | Sub_Pending \<Rightarrow> [(Ev_Terms_Accepted, Sub_Pending), (Ev_Activated, Sub_Active)]
   | Sub_Active \<Rightarrow> [(Ev_Deposit, Sub_Active), (Ev_Withdrawal, Sub_Active), (Ev_Blocked, Sub_Blocked),
       (Ev_Renewed, Sub_Active), (Ev_Matured, Sub_Matured), (Ev_Succession, Sub_Succession), (Ev_Closed, Sub_Closed)]
   | Sub_Blocked \<Rightarrow> [(Ev_Unblocked, Sub_Active), (Ev_Succession, Sub_Succession), (Ev_Closed, Sub_Closed)]
   | Sub_Matured \<Rightarrow> [(Ev_Renewed, Sub_Active), (Ev_Succession, Sub_Succession), (Ev_Closed, Sub_Closed)]
   | Sub_Succession \<Rightarrow> [(Ev_Closed, Sub_Closed)]
   | Sub_Closed \<Rightarrow> [])"

fun sub_path :: "sub_status \<Rightarrow> sub_event_type list \<Rightarrow> sub_status \<Rightarrow> bool" where
  "sub_path s [] t \<longleftrightarrow> s = t"
| "sub_path s (e # es) t \<longleftrightarrow> (\<exists>u\<in>snd ` {m \<in> set (sub_moves s). fst m = e}. sub_path u es t)"

lemma sub_path_snoc: "sub_path s (es @ [e]) t \<longleftrightarrow> (\<exists>u. sub_path s es u \<and> (e, t) \<in> set (sub_moves u))"
proof (induction es arbitrary: s)
  case Nil
  show ?case by force
next
  case (Cons a es)
  then show ?case by auto
qed

text \<open>An amount the aggregate accepts is a positive number.\<close>

lemma positive_amount_Inr:
  assumes "positive_amount a = Inr u"
  shows "\<exists>q. decimal_value a = Some q \<and> 0 < q"
proof -
  from assms obtain i f where m: "unsigned_decimal a = Some (i, f)"
    and pos: "0 < nat_of_digits (filter (\<lambda>c. c \<noteq> CHR ''.'') a)"
    by (auto simp: positive_amount_def short_decimal_def split: if_splits option.splits)
  from m have a: "a = i @ (case f of None \<Rightarrow> [] | Some g \<Rightarrow> CHR ''.'' # g)" by (simp add: unsigned_decimal_iff)
  from unsigned_decimal_SomeD [OF m] have digits: "list_all is_digit i" "list_all is_digit (fraction_text f)" by auto
  have keep: "filter (\<lambda>c. c \<noteq> CHR ''.'') s = s" if "list_all is_digit s" for s
    using that digit_not_dot by (induction s) auto
  have "filter (\<lambda>c. c \<noteq> CHR ''.'') a = i @ fraction_text f"
    unfolding a using keep digits by (cases f) simp_all
  with pos have "0 < nat_of_digits i \<or> 0 < nat_of_digits (fraction_text f)"
    by (auto simp: nat_of_digits_append)
  moreover have "0 \<le> rat_of_nat (nat_of_digits i)" "0 \<le> rat_of_nat (nat_of_digits (fraction_text f)) / 10 ^ length (fraction_text f)"
    by simp_all
  ultimately have "0 < text_value i f" unfolding text_value_def
    by (metis add_nonneg_pos add_pos_nonneg of_nat_0_less_iff zero_less_divide_iff zero_less_numeral zero_less_power)
  with signed_decimal_unsigned [OF m] show ?thesis by (simp add: decimal_value_def signed_value_def)
qed

text \<open>What an action does to a restored contract.\<close>

definition same_contract :: "subscription \<Rightarrow> subscription \<Rightarrow> bool" where
  "same_contract s t \<longleftrightarrow> sb_account t = sb_account s \<and> sb_customer t = sb_customer s \<and> sb_product t = sb_product s
     \<and> sb_terms t = sb_terms s \<and> sb_version t = sb_version s \<and> sb_investor t = sb_investor s \<and> sb_bank t = sb_bank s
     \<and> sb_currency t = sb_currency s"

definition accepted :: "terms_acceptance option \<Rightarrow> bool" where
  "accepted a \<longleftrightarrow> (\<exists>t. a = Some t \<and> ta_guarantee t \<and> ta_method t)"

definition sub_change :: "subscription \<Rightarrow> sub_event \<Rightarrow> subscription \<Rightarrow> bool" where
  "sub_change s e t \<longleftrightarrow> (ev_type e, sb_status t) \<in> set (sub_moves (sb_status s)) \<and> same_contract s t
     \<and> (sb_acceptance t = sb_acceptance s \<or> accepted (sb_acceptance t))
     \<and> (ev_type e = Ev_Activated \<longrightarrow> sb_acceptance s \<noteq> None \<and> sb_opened t = Some (ev_date e))
     \<and> (sb_status t = Sub_Closed \<longrightarrow> sb_closed t = Some (ev_date e))
     \<and> (ev_type e \<in> {Ev_Deposit, Ev_Withdrawal} \<longrightarrow>
          (\<exists>a q. map_of (ev_details e) ''amount'' = Some a \<and> decimal_value a = Some q \<and> 0 < q))
     \<and> calendar_date (ev_date e)"

lemmas method_defs = start_subscription_def accept_terms_def activate_def deposit_def withdraw_def block_def unblock_def
  renew_def mature_def open_succession_def close_def

lemma record_event_Inr:
  "record_event type date actor details a = Inr b \<longleftrightarrow> calendar_date date \<and> \<not> blank actor
     \<and> b = (fst a, snd a @ [\<lparr>ev_type = type, ev_date = date, ev_actor = actor, ev_details = details\<rparr>])"
  by (auto simp: record_event_def business_date_def)

lemma require_status_Inr: "require_status states a = Inr u \<longleftrightarrow> sb_status (fst a) \<in> set states"
  by (simp add: require_status_def)

lemma apply_action_change:
  assumes "apply_action clock c (s, []) = Inr (t, es)"
  shows "\<exists>e. es = [e] \<and> sub_change s e t"
  using assms
  by (cases "ac_type c")
    (auto simp: apply_action_def method_defs outcome record_event_Inr require_status_Inr alter_def sub_change_def
      same_contract_def accepted_def sub_moves_def dest: positive_amount_Inr split: sub_status.splits)

section \<open>The balance\<close>

text \<open>At every moment of the history the withdrawals are covered.\<close>

definition solvent :: "sub_event list \<Rightarrow> bool" where
  "solvent es \<longleftrightarrow> (\<forall>n. \<exists>q\<ge>0. ledger_sum (take n es) = Inr q)"

lemma traverse_snoc:
  "traverse f (xs @ [x]) = and_then (traverse f xs) (\<lambda>ys. and_then (f x) (\<lambda>y. Inr (ys @ [y])))"
  by (induction xs) (auto simp: and_then_assoc)

lemma ledger_sum_snoc:
  "ledger_sum (es @ [e]) = and_then (ledger_sum es) (\<lambda>q. and_then (signed_amount e) (\<lambda>x. Inr (q + x)))"
  by (simp add: ledger_sum_def traverse_snoc and_then_assoc)

lemma solvent_Nil: "solvent []"
  by (simp add: solvent_def ledger_sum_def)

lemma solvent_snoc: "solvent (es @ [e]) \<longleftrightarrow> solvent es \<and> (\<exists>q\<ge>0. ledger_sum (es @ [e]) = Inr q)"
proof
  assume s: "solvent (es @ [e])"
  have "\<exists>q\<ge>0. ledger_sum (take n es) = Inr q" for n
  proof -
    have "take (min n (length es)) (es @ [e]) = take n es" by (simp add: min_def)
    with s show ?thesis unfolding solvent_def by metis
  qed
  moreover have "\<exists>q\<ge>0. ledger_sum (es @ [e]) = Inr q"
    using s [unfolded solvent_def, rule_format, of "length (es @ [e])"] by simp
  ultimately show "solvent es \<and> (\<exists>q\<ge>0. ledger_sum (es @ [e]) = Inr q)" by (simp add: solvent_def)
next
  assume s: "solvent es \<and> (\<exists>q\<ge>0. ledger_sum (es @ [e]) = Inr q)"
  show "solvent (es @ [e])" unfolding solvent_def
  proof
    fix n
    show "\<exists>q\<ge>0. ledger_sum (take n (es @ [e])) = Inr q"
      using s by (cases "n \<le> length es") (auto simp: solvent_def)
  qed
qed

lemma solvent_sum: "solvent es \<Longrightarrow> \<exists>q\<ge>0. ledger_sum es = Inr q"
  unfolding solvent_def by (metis take_all order_refl)

text \<open>A recorded event keeps the history covered.\<close>

lemma solvent_change:
  assumes "solvent (events_of i db)" "withdrawal_covered i e db = Inr u" "sub_change s e t"
  shows "solvent (events_of i db @ [e])"
proof -
  from solvent_sum [OF assms(1)] obtain q where q: "0 \<le> q" "ledger_sum (events_of i db) = Inr q" by auto
  have amount: "\<exists>x>0. event_amount e = Inr x" if "ev_type e \<in> {Ev_Deposit, Ev_Withdrawal}"
    using assms(3) that by (force simp: sub_change_def event_amount_def)
  have "\<exists>x. signed_amount e = Inr x \<and> 0 \<le> q + x"
  proof (cases "ev_type e")
    case Ev_Deposit
    with amount obtain x where "0 < x" "event_amount e = Inr x" by auto
    with Ev_Deposit q(1) show ?thesis by (simp add: signed_amount_def)
  next
    case Ev_Withdrawal
    with amount obtain x where x: "event_amount e = Inr x" by auto
    with assms(2) Ev_Withdrawal q(2) have "x \<le> q" by (simp add: withdrawal_covered_def split: if_splits)
    with x Ev_Withdrawal show ?thesis by (simp add: signed_amount_def)
  qed (use q(1) in \<open>simp_all add: signed_amount_def\<close>)
  with assms(1) q(2) show ?thesis by (auto simp: solvent_snoc ledger_sum_snoc)
qed

section \<open>The invariant\<close>

definition operating :: "sub_status \<Rightarrow> bool" where
  "operating s \<longleftrightarrow> s \<noteq> Sub_Simulation \<and> s \<noteq> Sub_Pending"

definition history_of :: "string \<Rightarrow> 'a subscription_db_scheme \<Rightarrow> sub_status \<Rightarrow> bool" where
  "history_of i db s \<longleftrightarrow> (\<exists>ts. map ev_type (events_of i db) = Ev_Simulated # ts \<and> sub_path Sub_Simulation ts s)"

definition sub_row_ok :: "(string \<Rightarrow> string option) \<Rightarrow> 'a subscription_db_scheme \<Rightarrow> sub_row \<Rightarrow> bool" where
  "sub_row_ok uuid db r \<longleftrightarrow> uuid (sr_account r) = Some (sr_account r)
     \<and> history_of (sr_account r) db (sr_status r) \<and> solvent (events_of (sr_account r) db)
     \<and> (sr_accepted_at r \<noteq> None \<longrightarrow> sr_guarantee r \<and> sr_method r)
     \<and> (operating (sr_status r) \<longrightarrow> sr_accepted_at r \<noteq> None \<and> sr_account r \<in> oa_id ` set (sd_accounts db))
     \<and> (sr_status r = Sub_Closed \<longrightarrow> sr_closed r \<noteq> None)"

definition sub_inv :: "(string \<Rightarrow> string option) \<Rightarrow> 'a subscription_db_scheme \<Rightarrow> bool" where
  "sub_inv uuid db \<longleftrightarrow> distinct (map sr_account (sd_rows db)) \<and> er_account ` set (sd_events db) \<subseteq> sr_account ` set (sd_rows db)
     \<and> (\<forall>r\<in>set (sd_rows db). sub_row_ok uuid db r)"

lemma events_of_append:
  "events_of j (db\<lparr>sd_events := es @ [\<lparr>er_account = i, er_event = e, er_key = k\<rparr>]\<rparr>)
     = events_of j (db\<lparr>sd_events := es\<rparr>) @ (if i = j then [e] else [])"
  by (simp add: events_of_def)

text \<open>The rows written with a command.\<close>

definition command_row :: "sub_command_row \<Rightarrow> (string \<Rightarrow> string option) \<Rightarrow> sub_command \<Rightarrow> subscription \<Rightarrow> bool" where
  "command_row r uuid c x \<longleftrightarrow> cr_key r = sc_key c \<and> cr_result r = x \<and> cr_operation r = sc_operation c
     \<and> cr_hash r = sc_hash c \<and> uuid (sb_account x) = Some (cr_account r)"

lemma record_command_Inr:
  assumes "record_command stamp uuid i s [e] c db = Inr (x, db')"
  obtains k m r where "x = s" "db' = db\<lparr>sd_events := sd_events db @ [\<lparr>er_account = i, er_event = e, er_key = k\<rparr>],
      sd_outbox := sd_outbox db @ [m], sd_commands := sd_commands db @ [r]\<rparr>" "command_row r uuid c x"
proof -
  from assms have x: "x = s" by (auto simp: record_command_def sub_audit_intent_def insert_command_def outcome)
  from assms obtain m r where db': "db' = db\<lparr>sd_events := sd_events db @ [\<lparr>er_account = i, er_event = e,
      er_key = sc_key c @ '':'' @ digits_of 0\<rparr>], sd_outbox := sd_outbox db @ [m], sd_commands := sd_commands db @ [r]\<rparr>"
    and r: "cr_key r = sc_key c" "cr_result r = s" "cr_operation r = sc_operation c" "cr_hash r = sc_hash c"
      "uuid (sb_account s) = Some (cr_account r)"
    by (auto simp: record_command_def append_event_row_def sub_audit_intent_def insert_command_def Let_def outcome as_simps)
      (metis sub_command_row.select_convs)
  from r x have "command_row r uuid c x" by (simp add: command_row_def)
  with x db' show ?thesis by (rule that)
qed

lemma upsert_keys: "(\<And>a. key (f a) = key a) \<Longrightarrow> key ` set (upsert key f row rows) = insert (key row) (key ` set rows)"
proof -
  assume "\<And>a. key (f a) = key a"
  then have "key (if key r = key row then f r else r) = key r" for r by simp
  then have "key ` (\<lambda>r. if key r = key row then f r else r) ` set rows = key ` set rows" unfolding image_image by simp
  then show ?thesis by (cases "\<exists>r\<in>set rows. key r = key row") (auto simp: upsert_def intro: rev_image_eqI)
qed

lemma open_account_Inr:
  assumes "open_account account day product customer currency db = Inr db'"
  obtains as where "db' = db\<lparr>sd_accounts := as\<rparr>" "oa_id ` set as = insert account (oa_id ` set (sd_accounts db))"
  using assms by (cases "find (\<lambda>x. cx_id x = customer) (cm_profiles db)"; cases "map_of (sd_products db) product")
    (auto simp: open_account_def upsert_keys)

lemma synchronize_account_Inr:
  assumes "synchronize_account uuid s type db = Inr db'"
  obtains as where "db' = db\<lparr>sd_accounts := as\<rparr>" "oa_id ` set (sd_accounts db) \<subseteq> oa_id ` set as"
    "type = Ev_Activated \<and> sb_status s = Sub_Active \<and> truthy (sb_opened s) \<longrightarrow>
       (\<exists>i\<in>oa_id ` set as. uuid (sb_account s) = Some i)"
proof (cases "type = Ev_Activated \<and> sb_status s = Sub_Active \<and> truthy (sb_opened s)")
  case False
  with assms have "db' = db" by (auto simp: synchronize_account_def split: if_splits)
  with that [of "sd_accounts db"] False show ?thesis by auto
next
  case True
  with assms obtain i day product customer where i: "uuid (sb_account s) = Some i"
    and opened: "open_account i day product customer (sb_currency s) db = Inr db'"
    by (auto simp: synchronize_account_def and_then_Inr as_simps)
  from opened show ?thesis by (rule open_account_Inr) (rule that, auto simp: i)
qed

text \<open>A command that succeeds was either answered from the record or is a change of its contract.\<close>

lemma apply_mutation_Inr:
  assumes "apply_mutation stamp uuid instant old c mutation db = Inr (x, db')"
  obtains e row as k m r where "mutation = (x, [e])" "withdrawal_covered (sr_account old) e db = Inr ()"
    "updated_row instant x old = Inr row" "oa_id ` set (sd_accounts db) \<subseteq> oa_id ` set as"
    "ev_type e = Ev_Activated \<and> sb_status x = Sub_Active \<and> truthy (sb_opened x) \<longrightarrow>
       (\<exists>j\<in>oa_id ` set as. uuid (sb_account x) = Some j)"
    "db' = db\<lparr>sd_rows := map (\<lambda>r. if sr_account r = sr_account old then row else r) (sd_rows db), sd_accounts := as,
       sd_events := sd_events db @ [\<lparr>er_account = sr_account old, er_event = e, er_key = k\<rparr>], sd_outbox := sd_outbox db @ [m],
       sd_commands := sd_commands db @ [r]\<rparr>"
    "command_row r uuid c x"
proof -
  let ?i = "sr_account old" and ?s = "fst mutation"
  obtain e where e: "snd mutation = [e]"
    using assms by (cases "snd mutation" rule: remdups_adj.cases) (auto simp: apply_mutation_def)
  with assms obtain row db1 where w: "withdrawal_covered ?i e db = Inr ()" and row: "updated_row instant ?s old = Inr row"
    and sync: "synchronize_account uuid ?s (ev_type e)
      (db\<lparr>sd_rows := map (\<lambda>r. if sr_account r = ?i then row else r) (sd_rows db)\<rparr>) = Inr db1"
    and rec: "record_command stamp uuid ?i ?s [e] c db1 = Inr (x, db')"
    by (auto simp: apply_mutation_def and_then_Inr Let_def)
  from sync obtain as where db1: "db1 = db\<lparr>sd_rows := map (\<lambda>r. if sr_account r = ?i then row else r) (sd_rows db), sd_accounts := as\<rparr>"
    and keys: "oa_id ` set (sd_accounts db) \<subseteq> oa_id ` set as"
    and opened: "ev_type e = Ev_Activated \<and> sb_status ?s = Sub_Active \<and> truthy (sb_opened ?s) \<longrightarrow>
       (\<exists>j\<in>oa_id ` set as. uuid (sb_account ?s) = Some j)"
    by (rule synchronize_account_Inr) auto
  from rec obtain k m r where x: "x = ?s" and db': "db' = db1\<lparr>sd_events := sd_events db1 @ [\<lparr>er_account = ?i, er_event = e, er_key = k\<rparr>],
        sd_outbox := sd_outbox db1 @ [m], sd_commands := sd_commands db1 @ [r]\<rparr>" and r: "command_row r uuid c x"
    by (rule record_command_Inr)
  have mutation: "mutation = (x, [e])" using e x by (cases mutation) simp
  have tables: "db' = db\<lparr>sd_rows := map (\<lambda>r. if sr_account r = ?i then row else r) (sd_rows db), sd_accounts := as,
       sd_events := sd_events db @ [\<lparr>er_account = ?i, er_event = e, er_key = k\<rparr>], sd_outbox := sd_outbox db @ [m],
       sd_commands := sd_commands db @ [r]\<rparr>"
    unfolding db' db1 by simp
  show ?thesis by (rule that [OF mutation w row [folded x] keys opened [folded x] tables r])
qed

lemma transition_subscription_Inr:
  assumes "transition_subscription stamp uuid instant account c mutate db = Inr (x, db')"
  obtains (replay) "find_replay account c db = Inr (Some x)" "db' = db"
  | (fresh) old mutation where "find_replay account c db = Inr None" "uuid account = Some (sr_account old)"
    "old \<in> set (sd_rows db)" "mutate (map_subscription old) = Inr mutation"
    "apply_mutation stamp uuid instant old c mutation db = Inr (x, db')"
proof (cases "find_replay account c db = Inr None")
  case False
  with assms have "find_replay account c db = Inr (Some x)" "db' = db"
    by (auto simp: transition_subscription_def and_then_Inr split: option.splits)
  then show ?thesis by (rule replay)
next
  case True
  with assms obtain i where i: "uuid account = Some i"
    and rest: "(case find (\<lambda>r. sr_account r = i) (sd_rows db) of
         None \<Rightarrow> Inl (Failure (''Investment subscription not found: '' @ account))
       | Some old \<Rightarrow> and_then (mutate (map_subscription old)) (\<lambda>mutation.
           apply_mutation stamp uuid instant old c mutation db)) = Inr (x, db')"
    by (auto simp: transition_subscription_def and_then_Inr as_simps)
  then obtain old where old: "find (\<lambda>r. sr_account r = i) (sd_rows db) = Some old"
    by (cases "find (\<lambda>r. sr_account r = i) (sd_rows db)") auto
  with rest obtain mutation where "mutate (map_subscription old) = Inr mutation"
    "apply_mutation stamp uuid instant old c mutation db = Inr (x, db')" by (auto simp: and_then_Inr)
  with True i find_SomeD [OF old] show ?thesis by (intro fresh) auto
qed

lemma create_subscription_Inr:
  assumes "create_subscription stamp uuid instant s [e] c db = Inr (x, db')"
  obtains (replay) "find_replay (sb_account s) c db = Inr (Some x)" "db' = db"
  | (fresh) row k m r where "find_replay (sb_account s) c db = Inr None" "state_row uuid instant s = Inr row"
    "sr_account row \<notin> sr_account ` set (sd_rows db)" "x = s"
    "db' = db\<lparr>sd_rows := sd_rows db @ [row],
       sd_events := sd_events db @ [\<lparr>er_account = sr_account row, er_event = e, er_key = k\<rparr>], sd_outbox := sd_outbox db @ [m],
       sd_commands := sd_commands db @ [r]\<rparr>"
    "command_row r uuid c x"
proof (cases "find_replay (sb_account s) c db = Inr None")
  case False
  with assms have "find_replay (sb_account s) c db = Inr (Some x)" "db' = db"
    by (auto simp: create_subscription_def and_then_Inr split: option.splits)
  then show ?thesis by (rule replay)
next
  case True
  with assms obtain row where row: "state_row uuid instant s = Inr row" "sr_account row \<notin> sr_account ` set (sd_rows db)"
    and rec: "record_command stamp uuid (sr_account row) s [e] c (db\<lparr>sd_rows := sd_rows db @ [row]\<rparr>) = Inr (x, db')"
    by (auto simp: create_subscription_def and_then_Inr split: if_splits)
  from rec obtain k m r where "x = s" "db' = (db\<lparr>sd_rows := sd_rows db @ [row]\<rparr>)
        \<lparr>sd_events := sd_events (db\<lparr>sd_rows := sd_rows db @ [row]\<rparr>) @ [\<lparr>er_account = sr_account row, er_event = e, er_key = k\<rparr>],
        sd_outbox := sd_outbox (db\<lparr>sd_rows := sd_rows db @ [row]\<rparr>) @ [m],
        sd_commands := sd_commands (db\<lparr>sd_rows := sd_rows db @ [row]\<rparr>) @ [r]\<rparr>" "command_row r uuid c x"
    by (rule record_command_Inr)
  with True row show ?thesis by (intro fresh [where row = row and k = k and m = m and r = r]) simp_all
qed

section \<open>Every operation keeps the invariant\<close>

lemma and_thenE:
  assumes "and_then m f = Inr y"
  obtains x where "m = Inr x" "f x = Inr y"
  using assms by (auto simp: and_then_Inr)

lemma mutate_subscription_Inr:
  assumes "mutate_subscription clock rights c db s = Inr (t, es)"
  shows "(\<exists>e. es = [e] \<and> sub_change s e t) \<and> (rights_action (ac_type c) \<longrightarrow> rights (sb_customer s) db = Inr ())"
  using assms apply_action_change [of clock c s t es]
  by (auto simp: mutate_subscription_def restore_def and_then_Inr split: if_splits)

lemma map_subscription_simps [simp]:
  "sb_account (map_subscription r) = sr_account r" "sb_customer (map_subscription r) = sr_customer r"
  "sb_status (map_subscription r) = sr_status r" "sb_acceptance (map_subscription r) = None \<longleftrightarrow> sr_accepted_at r = None"
  by (simp_all add: map_subscription_def)

lemma sub_row_frame:
  assumes "sub_row_ok uuid db r" "events_of (sr_account r) db' = events_of (sr_account r) db"
    "oa_id ` set (sd_accounts db) \<subseteq> oa_id ` set (sd_accounts db')"
  shows "sub_row_ok uuid db' r"
  using assms by (auto simp: sub_row_ok_def history_of_def)

text \<open>The columns an update writes.\<close>

lemma updated_row_Inr:
  assumes "updated_row instant s old = Inr row"
  shows "sr_account row = sr_account old" "sr_status row = sb_status s"
    "sr_accepted_at row = None \<longleftrightarrow> sb_acceptance s = None" "sr_closed row = sb_closed s"
    "sb_acceptance s = Some a \<Longrightarrow> sr_guarantee row = ta_guarantee a \<and> sr_method row = ta_method a"
  using assms by (auto simp: updated_row_def nullable_def outcome as_simps split: option.splits)

lemma updated_row_accepted:
  assumes "updated_row instant t old = Inr row" "sub_change (map_subscription old) e t"
    "sr_accepted_at old \<noteq> None \<longrightarrow> sr_guarantee old \<and> sr_method old" "sr_accepted_at row \<noteq> None"
  shows "sr_guarantee row \<and> sr_method row"
proof -
  from assms(4) updated_row_Inr(3) [OF assms(1)] obtain a where a: "sb_acceptance t = Some a" by auto
  from assms(2) consider "sb_acceptance t = sb_acceptance (map_subscription old)" | "accepted (sb_acceptance t)"
    by (auto simp: sub_change_def)
  then have "ta_guarantee a \<and> ta_method a"
    using a assms(3) by cases (auto simp: map_subscription_def accepted_def)
  with updated_row_Inr(5) [OF assms(1) a] show ?thesis by simp
qed

lemma sub_change_operating:
  assumes "sub_change (map_subscription old) e t" "operating (sb_status t)" "\<not> operating (sr_status old)"
  shows "ev_type e = Ev_Activated \<and> sb_status t = Sub_Active \<and> truthy (sb_opened t) \<and> sr_accepted_at old \<noteq> None
     \<and> sb_acceptance t \<noteq> None"
proof -
  from assms have a: "ev_type e = Ev_Activated" "sb_status t = Sub_Active"
    by (auto simp: sub_change_def operating_def sub_moves_def split: sub_status.splits)
  with assms(1) have "sr_accepted_at old \<noteq> None" "sb_opened t = Some (ev_date e)" "calendar_date (ev_date e)"
    "sb_acceptance t = sb_acceptance (map_subscription old) \<or> accepted (sb_acceptance t)"
    by (auto simp: sub_change_def)
  moreover have "ev_date e \<noteq> []" using calculation(3) by (auto simp: calendar_date_def iso_shape_def)
  ultimately show ?thesis using a by (auto simp: truthy_def map_subscription_def accepted_def)
qed

lemma apply_mutation_row:
  assumes ok: "sub_row_ok uuid db old" and change: "sub_change (map_subscription old) e t"
    and w: "withdrawal_covered (sr_account old) e db = Inr ()" and row: "updated_row instant t old = Inr row"
    and keys: "oa_id ` set (sd_accounts db) \<subseteq> oa_id ` set (sd_accounts db')"
    and opened: "ev_type e = Ev_Activated \<and> sb_status t = Sub_Active \<and> truthy (sb_opened t) \<longrightarrow>
       (\<exists>j\<in>oa_id ` set (sd_accounts db'). uuid (sb_account t) = Some j)"
    and events: "events_of (sr_account old) db' = events_of (sr_account old) db @ [e]"
  shows "sub_row_ok uuid db' row"
proof -
  note cols = updated_row_Inr [OF row]
  have account: "sb_account t = sr_account old" using change by (simp add: sub_change_def same_contract_def)
  have history: "history_of (sr_account row) db' (sr_status row)"
    using ok change by (auto simp: cols history_of_def events sub_row_ok_def sub_change_def sub_path_snoc)
  have "solvent (events_of (sr_account row) db')"
    using ok solvent_change [OF _ w change] by (simp add: cols(1) events sub_row_ok_def)
  moreover have "sr_accepted_at row \<noteq> None \<longrightarrow> sr_guarantee row \<and> sr_method row"
    using updated_row_accepted [OF row change] ok by (auto simp: sub_row_ok_def)
  moreover have "sr_accepted_at row \<noteq> None \<and> sr_account row \<in> oa_id ` set (sd_accounts db')" if "operating (sr_status row)"
  proof (cases "operating (sr_status old)")
    case True
    with ok have "sr_accepted_at old \<noteq> None" "sr_account old \<in> oa_id ` set (sd_accounts db)" by (auto simp: sub_row_ok_def)
    with keys change show ?thesis by (auto simp: cols sub_change_def map_subscription_def accepted_def)
  next
    case False
    from sub_change_operating [OF change _ False] that have a: "ev_type e = Ev_Activated" "sb_status t = Sub_Active"
      "truthy (sb_opened t)" "sb_acceptance t \<noteq> None" by (auto simp: cols)
    from opened a(1-3) ok account have "sr_account old \<in> oa_id ` set (sd_accounts db')" by (auto simp: sub_row_ok_def)
    with a(4) show ?thesis by (simp add: cols)
  qed
  moreover have "sr_status row = Sub_Closed \<longrightarrow> sr_closed row \<noteq> None" using change by (auto simp: cols sub_change_def)
  moreover have "uuid (sr_account row) = Some (sr_account row)" using ok by (simp add: cols sub_row_ok_def)
  ultimately show ?thesis using history by (simp add: sub_row_ok_def)
qed

lemma sub_inv_transition:
  assumes inv: "sub_inv uuid db"
    and run: "transition_subscription stamp uuid instant account c (mutate_subscription clock rights a db0) db = Inr (x, db')"
  shows "sub_inv uuid db'"
  using run
proof (cases rule: transition_subscription_Inr)
  case replay
  with inv show ?thesis by simp
next
  case (fresh old mutation)
  let ?i = "sr_account old"
  from fresh(5) obtain e row as k m r where mutation: "mutation = (x, [e])" and w: "withdrawal_covered ?i e db = Inr ()"
    and row: "updated_row instant x old = Inr row" and keys: "oa_id ` set (sd_accounts db) \<subseteq> oa_id ` set as"
    and opened: "ev_type e = Ev_Activated \<and> sb_status x = Sub_Active \<and> truthy (sb_opened x) \<longrightarrow>
       (\<exists>j\<in>oa_id ` set as. uuid (sb_account x) = Some j)"
    and db': "db' = db\<lparr>sd_rows := map (\<lambda>r. if sr_account r = ?i then row else r) (sd_rows db), sd_accounts := as,
       sd_events := sd_events db @ [\<lparr>er_account = ?i, er_event = e, er_key = k\<rparr>], sd_outbox := sd_outbox db @ [m],
       sd_commands := sd_commands db @ [r]\<rparr>" and "command_row r uuid c x"
    by (rule apply_mutation_Inr)
  have change: "sub_change (map_subscription old) e x"
    using mutate_subscription_Inr fresh(4) mutation by fastforce
  have tables: "sd_rows db' = map (\<lambda>r. if sr_account r = ?i then row else r) (sd_rows db)" "sd_accounts db' = as"
    "sd_events db' = sd_events db @ [\<lparr>er_account = ?i, er_event = e, er_key = k\<rparr>]" by (simp_all add: db')
  have events: "events_of j db' = events_of j db @ (if ?i = j then [e] else [])" for j
    by (simp add: events_of_def tables(3))
  have ok: "sub_row_ok uuid db old" using inv fresh(3) by (simp add: sub_inv_def)
  have kept: "oa_id ` set (sd_accounts db) \<subseteq> oa_id ` set (sd_accounts db')" using keys by (simp only: tables(2))
  have opens: "ev_type e = Ev_Activated \<and> sb_status x = Sub_Active \<and> truthy (sb_opened x) \<longrightarrow>
      (\<exists>j\<in>oa_id ` set (sd_accounts db'). uuid (sb_account x) = Some j)" using opened by (simp only: tables(2))
  have history: "events_of ?i db' = events_of ?i db @ [e]" using events [of ?i] by simp
  have new: "sub_row_ok uuid db' row" by (rule apply_mutation_row [OF ok change w row kept opens history])
  have key: "sr_account row = ?i" by (rule updated_row_Inr(1) [OF row])
  then have same: "sr_account (if sr_account r = ?i then row else r) = sr_account r" for r by simp
  have rows: "sub_row_ok uuid db' r" if "r \<in> set (sd_rows db')" for r
  proof (cases "sr_account r = ?i")
    case True
    with that key have "r = row" by (auto simp: tables(1) split: if_splits)
    with new show ?thesis by simp
  next
    case False
    with that key have r: "r \<in> set (sd_rows db)" by (auto simp: tables(1) split: if_splits)
    have "events_of (sr_account r) db' = events_of (sr_account r) db" using False by (simp add: events)
    with inv r kept show ?thesis unfolding sub_inv_def by (blast intro: sub_row_frame)
  qed
  have accounts: "map sr_account (sd_rows db') = map sr_account (sd_rows db)" by (simp add: tables(1) same)
  then have ids: "sr_account ` set (sd_rows db') = sr_account ` set (sd_rows db)" by (metis set_map)
  have "er_account ` set (sd_events db') = insert ?i (er_account ` set (sd_events db))" by (simp add: tables(3))
  then have "er_account ` set (sd_events db') \<subseteq> sr_account ` set (sd_rows db')"
    using inv fresh(3) unfolding sub_inv_def ids by auto
  with accounts inv rows show ?thesis unfolding sub_inv_def by simp
qed

lemma state_row_Inr:
  assumes "state_row uuid instant s = Inr row"
  shows "uuid (sb_account s) = Some (sr_account row)" "sr_status row = sb_status s"
    "sb_acceptance s = None \<Longrightarrow> sr_accepted_at row = None"
  using assms unfolding state_row_def by (safe elim!: and_thenE) (simp_all add: as_simps nullable_def)

lemma sub_inv_create:
  assumes inv: "sub_inv uuid db" and laws: "uuid_laws uuid" and e: "ev_type e = Ev_Simulated"
    and s: "sb_status s = Sub_Simulation" "sb_acceptance s = None"
    and run: "create_subscription stamp uuid instant s [e] c db = Inr (x, db')"
  shows "sub_inv uuid db'"
  using run
proof (cases rule: create_subscription_Inr)
  case replay
  with inv show ?thesis by simp
next
  case (fresh row k m r)
  let ?i = "sr_account row"
  have "uuid (sb_account s) = Some ?i" and row: "sr_status row = Sub_Simulation" "sr_accepted_at row = None"
    using state_row_Inr [OF fresh(2)] s by simp_all
  then have id: "uuid ?i = Some ?i" using laws unfolding uuid_laws_def by blast
  have tables: "sd_rows db' = sd_rows db @ [row]" "sd_accounts db' = sd_accounts db"
    "sd_events db' = sd_events db @ [\<lparr>er_account = ?i, er_event = e, er_key = k\<rparr>]" using fresh(5) by simp_all
  have events: "events_of j db' = events_of j db @ (if ?i = j then [e] else [])" for j
    by (simp add: events_of_def tables(3))
  have owned: "er_account ` set (sd_events db) \<subseteq> sr_account ` set (sd_rows db)" using inv unfolding sub_inv_def by simp
  then have "\<forall>r\<in>set (sd_events db). er_account r \<noteq> ?i" using fresh(3) by (metis image_eqI subsetD)
  then have none: "events_of ?i db = []" by (simp add: events_of_def filter_empty_conv)
  have here: "events_of ?i db' = [e]" by (simp add: events none)
  have "ledger_sum [e] = Inr 0" using e by (simp add: signed_amount_def ledger_sum_def)
  then have "solvent (events_of ?i db')" using solvent_snoc [of "[]" e] by (simp add: here solvent_Nil)
  moreover have "history_of ?i db' Sub_Simulation" by (simp add: history_of_def here e)
  ultimately have new: "sub_row_ok uuid db' row" by (simp add: sub_row_ok_def row id operating_def)
  have "sub_row_ok uuid db' r" if r: "r \<in> set (sd_rows db)" for r
  proof -
    have "sr_account r \<noteq> ?i" using r fresh(3) by (metis image_eqI)
    then have same: "events_of (sr_account r) db' = events_of (sr_account r) db" by (simp add: events)
    have "sub_row_ok uuid db r" using inv r unfolding sub_inv_def by simp
    then show ?thesis using same by (rule sub_row_frame) (simp add: tables(2))
  qed
  with new have rows: "\<forall>r\<in>set (sd_rows db'). sub_row_ok uuid db' r" by (simp add: tables(1))
  have "distinct (map sr_account (sd_rows db'))" using inv fresh(3) by (simp add: tables(1) sub_inv_def)
  moreover have "er_account ` set (sd_events db') \<subseteq> sr_account ` set (sd_rows db')"
    using owned by (simp add: tables(1,3) subset_insertI2)
  ultimately show ?thesis using rows by (simp add: sub_inv_def)
qed

end
