(* ===== verification/Subscription_Life.thy ===== *)
theory Subscription_Life
  imports Subscription_Correct
begin

text \<open>
  The reachable states of the subscription tables: every command of the subscription and customer
  services, in any order, with any outcome, and any change of the product list.  The properties of
  the component are stated over them.
\<close>

section \<open>Reachable states\<close>

inductive sub_step :: "(string \<Rightarrow> string option) \<Rightarrow> (string \<Rightarrow> string res) \<Rightarrow> subscription_db \<Rightarrow> subscription_db \<Rightarrow> bool"
  for uuid instant where
  create: "subscription_service_create uuid instant stamp lib today input actor key correlation db = (out, db')
     \<Longrightarrow> sub_step uuid instant db db'"
| act: "subscription_service_act uuid instant stamp lib clock account c key correlation db = (out, db')
     \<Longrightarrow> sub_step uuid instant db db'"
| customer: "customer_create uuid p actor db = (profile, db') \<Longrightarrow> sub_step uuid instant db db'"
| restrict: "customer_restrict uuid customer r actor db = (profile, db') \<Longrightarrow> sub_step uuid instant db db'"
| lift: "customer_lift uuid customer i day actor db = (profile, db') \<Longrightarrow> sub_step uuid instant db db'"
| products: "sub_step uuid instant db (db\<lparr>sd_products := ps\<rparr>)"

definition empty_subscriptions :: "subscription_db \<Rightarrow> bool" where
  "empty_subscriptions db \<longleftrightarrow> sd_rows db = [] \<and> sd_events db = [] \<and> sd_commands db = []"

inductive sub_reachable :: "(string \<Rightarrow> string option) \<Rightarrow> (string \<Rightarrow> string res) \<Rightarrow> subscription_db \<Rightarrow> bool"
  for uuid instant where
  start: "empty_subscriptions db \<Longrightarrow> sub_reachable uuid instant db"
| step: "sub_reachable uuid instant db \<Longrightarrow> sub_step uuid instant db db' \<Longrightarrow> sub_reachable uuid instant db'"

inductive_cases sub_stepE: "sub_step uuid instant db db'"

text \<open>The customer operations leave the subscription tables alone.\<close>

definition same_contracts :: "'a subscription_db_scheme \<Rightarrow> 'b subscription_db_scheme \<Rightarrow> bool" where
  "same_contracts a b \<longleftrightarrow> sd_rows b = sd_rows a \<and> sd_events b = sd_events a \<and> sd_accounts b = sd_accounts a
     \<and> sd_commands b = sd_commands a"

lemma save_profile_same:
  assumes "save_profile uuid p actor db = Inr (u, db')"
  shows "same_contracts db db'"
  using assms by (auto simp: save_profile_def and_then_Inr Let_def same_contracts_def)

lemma saving_same: "and_do (transaction (save_profile uuid p actor)) (\<lambda>_. give p) db = (out, db') \<Longrightarrow> same_contracts db db'"
  by (cases "save_profile uuid p actor db")
    (auto simp: and_do_def transaction_def same_contracts_def dest: save_profile_same)

lemma customer_same:
  "customer_create uuid p actor db = (out, db') \<Longrightarrow> same_contracts db db'"
  "customer_change uuid customer f actor db = (out, db') \<Longrightarrow> same_contracts db db'"
proof -
  assume "customer_create uuid p actor db = (out, db')"
  then show "same_contracts db db'"
    by (cases "validate_profile p") (auto simp: customer_create_def and_do_simps same_contracts_def dest: saving_same)
next
  let ?r = "and_then (customer_get uuid customer db) (\<lambda>p. and_then (validate_profile p) (\<lambda>_. f p))"
  assume "customer_change uuid customer f actor db = (out, db')"
  then show "same_contracts db db'"
    by (cases ?r) (auto simp: customer_change_def and_do_simps same_contracts_def dest: saving_same)
qed

lemma same_contracts_inv: "same_contracts db db' \<Longrightarrow> sub_inv uuid db \<Longrightarrow> sub_inv uuid db'"
  by (auto simp: same_contracts_def sub_inv_def sub_row_ok_def history_of_def events_of_def)

text \<open>A command of the service either changed nothing or ran its transaction.\<close>

lemma service_create_cases:
  assumes "subscription_service_create uuid instant stamp lib today input actor key correlation db = (out, db')"
  shows "db' = db \<or> (\<exists>s e c x. create_subscription stamp uuid instant s [e] c db = Inr (x, db') \<and> out = Inr x
     \<and> ev_type e = Ev_Simulated \<and> sb_status s = Sub_Simulation \<and> sb_acceptance s = None)"
proof (cases out)
  case (Inl err)
  with assms show ?thesis by (auto simp: subscription_service_create_def sub_create_def outcome split: prod.splits)
next
  case (Inr x)
  with assms obtain s es c where "presimulate input = Inr (s, es)"
    and run: "create_subscription stamp uuid instant s
      [\<lparr>ev_type = Ev_Simulated, ev_date = today, ev_actor = actor, ev_details = []\<rparr>] c db = Inr (x, db')"
    by (auto simp: subscription_service_create_def sub_create_def outcome split: prod.splits)
  then have "sb_status s = Sub_Simulation" "sb_acceptance s = None" by (auto simp: presimulate_def outcome)
  with run Inr show ?thesis by (intro disjI2 exI conjI) (assumption | simp)+
qed

lemma service_act_Inr:
  assumes "subscription_service_act uuid instant stamp lib clock account a key correlation db = (Inr x, db')"
  obtains c where "transition_subscription stamp uuid instant account c
      (mutate_subscription clock (customer_rights uuid) a db) db = Inr (x, db')"
    "command_context lib (action_type_name (ac_type a) @ ''_INVESTMENT_SUBSCRIPTION'') (ac_actor a) key correlation
       (J_Object [(''accountId'', J_String account), (''action'', normalized_action a)]) (action_justification a) = Inr c"
  using assms by (auto simp: subscription_service_act_def sub_act_def outcome)

lemma service_act_Inl:
  "subscription_service_act uuid instant stamp lib clock account a key correlation db = (Inl err, db') \<Longrightarrow> db' = db"
  by (auto simp: subscription_service_act_def sub_act_def outcome)

lemma sub_step_inv:
  assumes "uuid_laws uuid" "sub_step uuid instant db db'" "sub_inv uuid db"
  shows "sub_inv uuid db'"
  using assms(2)
proof cases
  case create
  from service_create_cases [OF this] assms(1,3) show ?thesis by (elim disjE exE conjE) (auto intro: sub_inv_create)
next
  case (act stamp lib clock account c key correlation out)
  show ?thesis
  proof (cases out)
    case (Inr x)
    with act show ?thesis by (auto elim: service_act_Inr intro: sub_inv_transition [OF assms(3)])
  qed (use act assms(3) in \<open>auto dest: service_act_Inl\<close>)
next
  case customer
  from customer_same(1) [OF this] assms(3) show ?thesis by (rule same_contracts_inv)
next
  case restrict
  from customer_same(2) [OF this [unfolded customer_restrict_def]] assms(3) show ?thesis by (rule same_contracts_inv)
next
  case lift
  from customer_same(2) [OF this [unfolded customer_lift_def]] assms(3) show ?thesis by (rule same_contracts_inv)
next
  case products
  with assms(3) show ?thesis by (auto intro: same_contracts_inv simp: same_contracts_def)
qed

lemma sub_reachable_inv:
  assumes "uuid_laws uuid" "sub_reachable uuid instant db"
  shows "sub_inv uuid db"
  using assms(2)
proof induction
  case (start db)
  then show ?case by (simp add: empty_subscriptions_def sub_inv_def)
next
  case (step db db')
  with assms(1) show ?case by (blast intro: sub_step_inv)
qed

section \<open>Recorded commands\<close>

text \<open>The commands are only ever appended to, so an answer once recorded stays the answer.\<close>

definition commands_grow :: "subscription_db \<Rightarrow> subscription_db \<Rightarrow> bool" where
  "commands_grow a b \<longleftrightarrow> (\<exists>l. sd_commands b = sd_commands a @ l)"

lemma commands_grow_refl: "commands_grow a a"
  by (simp add: commands_grow_def)

lemma commands_grow_same: "same_contracts a b \<Longrightarrow> commands_grow a b"
  by (simp add: same_contracts_def commands_grow_def)

lemma create_grows:
  assumes "create_subscription stamp uuid instant s [e] c db = Inr (x, db')"
  shows "commands_grow db db'"
  using assms
proof (cases rule: create_subscription_Inr)
  case replay
  then show ?thesis by (simp add: commands_grow_refl)
next
  case fresh
  then show ?thesis by (simp add: commands_grow_def)
qed

lemma transition_grows:
  assumes "transition_subscription stamp uuid instant account c mutate db = Inr (x, db')"
  shows "commands_grow db db'"
  using assms
proof (cases rule: transition_subscription_Inr)
  case replay
  then show ?thesis by (simp add: commands_grow_refl)
next
  case (fresh old mutation)
  from fresh(5) show ?thesis by (rule apply_mutation_Inr) (simp add: commands_grow_def)
qed

lemma sub_step_grows: "sub_step uuid instant db db' \<Longrightarrow> commands_grow db db'"
proof (induction rule: sub_step.induct)
  case create
  from service_create_cases [OF this] show ?case by (auto intro: create_grows commands_grow_refl)
next
  case (act stamp lib clock account c key correlation db out db')
  show ?case
  proof (cases out)
    case (Inr x)
    with act show ?thesis by (auto elim: service_act_Inr intro: transition_grows)
  qed (use act in \<open>auto dest: service_act_Inl simp: commands_grow_refl\<close>)
next
  case customer
  from customer_same(1) [OF this] show ?case by (rule commands_grow_same)
next
  case restrict
  from customer_same(2) [OF this [unfolded customer_restrict_def]] show ?case by (rule commands_grow_same)
next
  case lift
  from customer_same(2) [OF this [unfolded customer_lift_def]] show ?case by (rule commands_grow_same)
next
  case products
  show ?case by (simp add: commands_grow_def)
qed

lemma sub_steps_grow: "(sub_step uuid instant)\<^sup>*\<^sup>* db db' \<Longrightarrow> commands_grow db db'"
proof (induction rule: rtranclp_induct)
  case (step b c)
  from sub_step_grows [OF step(2)] step(3) show ?case by (auto simp: commands_grow_def)
qed (rule commands_grow_refl)

lemma find_distinct: "distinct (map f xs) \<Longrightarrow> x \<in> set xs \<Longrightarrow> find (\<lambda>y. f y = f x) xs = Some x"
  by (induction xs) (auto simp: image_iff)

lemma find_replay_grows:
  assumes "find_replay account c db = Inr (Some x)" "commands_grow db db'"
  shows "find_replay account c db' = Inr (Some x)"
  using assms by (auto simp: find_replay_def commands_grow_def find_append split: option.splits if_splits)

lemma find_replay_None: "find_replay account c db = Inr None \<longleftrightarrow> find (\<lambda>r. cr_key r = sc_key c) (sd_commands db) = None"
  by (auto simp: find_replay_def split: option.splits if_splits)

lemma transition_recorded:
  assumes run: "transition_subscription stamp uuid instant account c (mutate_subscription clock rights a db0) db = Inr (x, db')"
    and id: "uuid account = Some account"
  shows "find_replay account c db' = Inr (Some x)"
  using run
proof (cases rule: transition_subscription_Inr)
  case replay
  then show ?thesis by simp
next
  case (fresh old mutation)
  from fresh(5) obtain e row as k m r where mutation: "mutation = (x, [e])"
    and db': "db' = db\<lparr>sd_rows := map (\<lambda>r. if sr_account r = sr_account old then row else r) (sd_rows db), sd_accounts := as,
       sd_events := sd_events db @ [\<lparr>er_account = sr_account old, er_event = e, er_key = k\<rparr>], sd_outbox := sd_outbox db @ [m],
       sd_commands := sd_commands db @ [r]\<rparr>" and r: "command_row r uuid c x"
    by (rule apply_mutation_Inr)
  have commands: "sd_commands db' = sd_commands db @ [r]" by (simp add: db')
  have "sub_change (map_subscription old) e x" using mutate_subscription_Inr fresh(4) mutation by fastforce
  then have "sb_account x = account" using fresh(2) id by (simp add: sub_change_def same_contract_def)
  with r id have row: "cr_key r = sc_key c" "cr_result r = x" "cr_operation r = sc_operation c" "cr_hash r = sc_hash c"
    "cr_account r = account" by (auto simp: command_row_def)
  have "find (\<lambda>r. cr_key r = sc_key c) (sd_commands db') = Some r"
    using fresh(1) by (simp add: find_replay_None commands find_append row(1))
  then show ?thesis by (simp add: find_replay_def row)
qed

lemma command_context_correlation:
  "command_context lib operation actor key correlation request justification = Inr c \<Longrightarrow>
   command_context lib operation actor key correlation2 request justification = Inr (c\<lparr>sc_correlation := correlation2\<rparr>)"
  by (auto simp: command_context_def outcome)

lemma service_act_replays:
  assumes run: "subscription_service_act uuid instant stamp lib clock account a key correlation db = (Inr x, db1)"
    and id: "uuid account = Some account" and later: "(sub_step uuid instant)\<^sup>*\<^sup>* db1 db2" and valid: "is_uuid correlation2"
  shows "subscription_service_act uuid instant2 stamp2 lib clock2 account a key correlation2 db2 = (Inr x, db2)"
proof -
  from run obtain c where t: "transition_subscription stamp uuid instant account c
      (mutate_subscription clock (customer_rights uuid) a db) db = Inr (x, db1)"
    and c: "command_context lib (action_type_name (ac_type a) @ ''_INVESTMENT_SUBSCRIPTION'') (ac_actor a) key correlation
       (J_Object [(''accountId'', J_String account), (''action'', normalized_action a)]) (action_justification a) = Inr c"
    by (rule service_act_Inr)
  from transition_recorded [OF t id] have "find_replay account c db2 = Inr (Some x)"
    by (rule find_replay_grows) (rule sub_steps_grow [OF later])
  then have known: "find_replay account (c\<lparr>sc_correlation := correlation2\<rparr>) db2 = Inr (Some x)"
    by (simp add: find_replay_def cong: option.case_cong)
  have heads: "assert_command_headers (ac_actor a) key correlation2 = Inr ()"
    using run valid by (auto simp: subscription_service_act_def sub_act_def outcome assert_command_headers_def)
  have "command_context lib (action_type_name (ac_type a) @ ''_INVESTMENT_SUBSCRIPTION'') (ac_actor a) key correlation2
       (J_Object [(''accountId'', J_String account), (''action'', normalized_action a)]) (action_justification a)
     = Inr (c\<lparr>sc_correlation := correlation2\<rparr>)"
    by (rule command_context_correlation [OF c])
  with heads known show ?thesis
    by (simp add: subscription_service_act_def sub_act_def and_do_simps transaction_def transition_subscription_def)
qed

lemma create_recorded:
  assumes "create_subscription stamp uuid instant s [e] c db = Inr (x, db')" and id: "uuid (sb_account s) = Some (sb_account s)"
  shows "find_replay (sb_account s) c db' = Inr (Some x)"
  using assms(1)
proof (cases rule: create_subscription_Inr)
  case replay
  then show ?thesis by simp
next
  case (fresh row k m r)
  with id have row: "cr_key r = sc_key c" "cr_result r = x" "cr_operation r = sc_operation c" "cr_hash r = sc_hash c"
    "cr_account r = sb_account s" by (auto simp: command_row_def)
  have "find (\<lambda>r. cr_key r = sc_key c) (sd_commands db') = Some r"
    using fresh by (simp add: find_replay_None find_append row(1))
  then show ?thesis by (simp add: find_replay_def row)
qed

lemma service_create_replays:
  assumes run: "subscription_service_create uuid instant stamp lib today input actor key correlation db = (Inr x, db1)"
    and id: "uuid (sb_account input) = Some (sb_account input)" and later: "(sub_step uuid instant)\<^sup>*\<^sup>* db1 db2"
    and valid: "is_uuid correlation2"
  shows "subscription_service_create uuid instant2 stamp2 lib today2 input actor key correlation2 db2 = (Inr x, db2)"
proof -
  let ?command = "\<lambda>correlation. command_context lib ''CREATE_INVESTMENT_SUBSCRIPTION'' actor key correlation
         (J_Object [(''input'', input_json input), (''actorId'', J_String actor)])
         ''Investment subscription pre-simulation created''"
  from run obtain s es c where s: "presimulate input = Inr (s, es)" and c: "?command correlation = Inr c"
    and t: "create_subscription stamp uuid instant s
      [\<lparr>ev_type = Ev_Simulated, ev_date = today, ev_actor = actor, ev_details = []\<rparr>] c db = Inr (x, db1)"
    by (auto simp: subscription_service_create_def sub_create_def outcome split: prod.splits)
  from s have account: "sb_account s = sb_account input" by (auto simp: presimulate_def outcome)
  from create_recorded [OF t] id account have "find_replay (sb_account s) c db2 = Inr (Some x)"
    by (intro find_replay_grows [OF _ sub_steps_grow [OF later]]) simp
  then have known: "find_replay (sb_account s) (c\<lparr>sc_correlation := correlation2\<rparr>) db2 = Inr (Some x)"
    by (simp add: find_replay_def cong: option.case_cong)
  have heads: "assert_command_headers actor key correlation2 = Inr ()"
    using run valid by (auto simp: subscription_service_create_def sub_create_def outcome assert_command_headers_def)
  have "?command correlation2 = Inr (c\<lparr>sc_correlation := correlation2\<rparr>)"
    by (rule command_context_correlation [OF c])
  with heads s known show ?thesis
    by (simp add: subscription_service_create_def sub_create_def and_do_simps transaction_def create_subscription_def)
qed

section \<open>Balances\<close>

text \<open>The two sums of the balance query are the ledger sum taken apart.\<close>

lemma event_amount_signed:
  "ev_type e = Ev_Deposit \<Longrightarrow> signed_amount e = event_amount e"
  "ev_type e = Ev_Withdrawal \<Longrightarrow> signed_amount e = and_then (event_amount e) (\<lambda>q. Inr (- q))"
  "ev_type e \<noteq> Ev_Deposit \<Longrightarrow> ev_type e \<noteq> Ev_Withdrawal \<Longrightarrow> signed_amount e = Inr 0"
  by (simp_all add: signed_amount_def split: sub_event_type.splits)

lemma ledger_sum_parts:
  assumes "ledger_sum es = Inr q"
  shows "\<exists>d w. sum_of_type Ev_Deposit es = Inr d \<and> sum_of_type Ev_Withdrawal es = Inr w \<and> q = d - w"
  using assms
proof (induction es arbitrary: q)
  case (Cons e es)
  from Cons.prems obtain x p where x: "signed_amount e = Inr x" and p: "ledger_sum es = Inr p" and q: "q = x + p"
    by (auto simp: ledger_sum_def and_then_Inr)
  from Cons.IH [OF p] obtain d w where dw: "sum_of_type Ev_Deposit es = Inr d" "sum_of_type Ev_Withdrawal es = Inr w"
    "p = d - w" by auto
  consider "ev_type e = Ev_Deposit" | "ev_type e = Ev_Withdrawal" | "ev_type e \<noteq> Ev_Deposit" "ev_type e \<noteq> Ev_Withdrawal"
    by blast
  then show ?case
  proof cases
    case 1
    with x have "event_amount e = Inr x" by (simp add: event_amount_signed)
    with 1 dw q have "sum_of_type Ev_Deposit (e # es) = Inr (x + d)" "sum_of_type Ev_Withdrawal (e # es) = Inr w"
      by (auto simp: sum_of_type_def and_then_Inr)
    with dw q show ?thesis by simp
  next
    case 2
    with x obtain y where "event_amount e = Inr y" "x = - y" by (auto simp: event_amount_signed and_then_Inr)
    with 2 dw q have "sum_of_type Ev_Deposit (e # es) = Inr d" "sum_of_type Ev_Withdrawal (e # es) = Inr (y + w)"
      by (auto simp: sum_of_type_def and_then_Inr)
    with dw q \<open>x = - y\<close> show ?thesis by simp
  next
    case 3
    with x dw q show ?thesis by (simp add: event_amount_signed sum_of_type_def)
  qed
qed (simp add: ledger_sum_def sum_of_type_def)

lemma solvent_balance:
  assumes "solvent (events_of (sr_account r) db)"
  shows "\<exists>b. map_balance r db = Inr b \<and> bl_state b = map_subscription r \<and> 0 \<le> bl_balance b
     \<and> bl_balance b = bl_deposits b - bl_withdrawals b \<and> ledger_sum (events_of (sr_account r) db) = Inr (bl_balance b)"
proof -
  from solvent_sum [OF assms] obtain q where q: "0 \<le> q" "ledger_sum (events_of (sr_account r) db) = Inr q" by auto
  from ledger_sum_parts [OF q(2)] q show ?thesis by (auto simp: map_balance_def)
qed

section \<open>Stored contracts are well formed\<close>

lemma nisba_units_read: "nisba_units s = (case read_units False 6 (TypeError ''Subscribed Nisba must use canonical decimal notation'')
    (TypeError ''Subscribed Nisba must use canonical decimal notation'') s of Inl e \<Rightarrow> Inl e | Inr u \<Rightarrow> Inr (nat u))"
  by (auto simp: nisba_units_def read_units_def split: option.splits)

lemma nisba_units_stored:
  assumes n: "nisba_units s = Inr n" and u: "numeric_cast 9 6 s = Inr u"
  shows "nisba_units (render_units 6 u) = Inr n"
proof -
  let ?e = "TypeError ''Subscribed Nisba must use canonical decimal notation''"
  from n obtain v where v: "read_units False 6 ?e ?e s = Inr v" "n = nat v"
    by (auto simp: nisba_units_read split: sum.splits)
  from read_units_value [OF v(1)] obtain q where "decimal_value s = Some q" "of_int v = q * 10 ^ 6" by auto
  moreover from this(2) have "round_away (q * 10 ^ 6) = v" by (metis round_away_of_int)
  ultimately have "u = v" using u by (simp add: numeric_cast_def Let_def split: if_splits)
  with v read_units_nonneg [OF v(1)] show ?thesis by (simp add: nisba_units_read read_units_render)
qed

definition well_formed :: "'a subscription_db_scheme \<Rightarrow> bool" where
  "well_formed db \<longleftrightarrow> (\<forall>r\<in>set (sd_rows db). validate_subscription (map_subscription r) = Inr ())"

definition maturity_ok :: "string option \<Rightarrow> bool" where
  "maturity_ok m \<longleftrightarrow> (case m of None \<Rightarrow> True | Some d \<Rightarrow> d = [] \<or> calendar_date d)"

lemma validate_subscription_Inr:
  "validate_subscription v = Inr u \<longleftrightarrow> is_uuid (sb_account v) \<and> is_uuid (sb_customer v) \<and> is_uuid (sb_product v)
     \<and> is_uuid (sb_terms v) \<and> \<not> blank (sb_version v)
     \<and> (\<exists>i b. nisba_units (sb_investor v) = Inr i \<and> nisba_units (sb_bank v) = Inr b \<and> i + b = 100000000)
     \<and> is_currency_code (sb_currency v) \<and> maturity_ok (sb_maturity v)"
  by (auto simp: validate_subscription_def and_then_Inr maturity_ok_def business_date_def split: option.splits if_splits)

lemma state_row_columns:
  assumes "state_row uuid instant s = Inr row"
  shows "uuid (sb_customer s) = Some (sr_customer row)" "uuid (sb_product s) = Some (sr_product row)"
    "uuid (sb_terms s) = Some (sr_terms row)" "numeric_cast 9 6 (sb_investor s) = Inr (sr_investor row)"
    "numeric_cast 9 6 (sb_bank s) = Inr (sr_bank row)" "sr_maturity row = sb_maturity s"
    "sr_version row = sb_version s" "sr_currency row = sb_currency s"
  using assms unfolding state_row_def
  by (safe elim!: and_thenE) (auto simp: as_simps nullable_def and_then_Inr split: option.splits)

lemma validate_stored:
  assumes "uuid_texts uuid" "validate_subscription s = Inr ()" "state_row uuid instant s = Inr row"
  shows "validate_subscription (map_subscription row) = Inr ()"
proof -
  note cols = state_row_Inr(1) [OF assms(3)] state_row_columns [OF assms(3)]
  from assms(2) obtain i b where ids: "is_uuid (sb_account s)" "is_uuid (sb_customer s)" "is_uuid (sb_product s)"
      "is_uuid (sb_terms s)"
    and nisba: "nisba_units (sb_investor s) = Inr i" "nisba_units (sb_bank s) = Inr b" "i + b = 100000000"
    and other: "\<not> blank (sb_version s)" "is_currency_code (sb_currency s)" "maturity_ok (sb_maturity s)"
    by (auto simp: validate_subscription_Inr)
  have "is_uuid (sr_account row) \<and> is_uuid (sr_customer row) \<and> is_uuid (sr_product row) \<and> is_uuid (sr_terms row)"
    using assms(1) ids cols(1-4) unfolding uuid_texts_def by blast
  moreover have "nisba_units (render_units 6 (sr_investor row)) = Inr i" "nisba_units (render_units 6 (sr_bank row)) = Inr b"
    using nisba_units_stored nisba(1,2) cols(5,6) by blast+
  ultimately show ?thesis using nisba(3) other cols(7-9)
    by (simp only: validate_subscription_Inr) (simp add: map_subscription_def)
qed

lemma apply_action_maturity:
  assumes "apply_action clock c (s, []) = Inr (t, es)"
  shows "sb_maturity t = sb_maturity s \<or> maturity_ok (sb_maturity t)"
  using assms
  by (cases "ac_type c")
    (auto simp: apply_action_def method_defs outcome record_event_Inr alter_def maturity_ok_def business_date_def)

lemma updated_row_kept:
  assumes "updated_row instant s old = Inr row"
  shows "sr_maturity row = sb_maturity s" "sr_account row = sr_account old" "sr_customer row = sr_customer old"
    "sr_product row = sr_product old" "sr_terms row = sr_terms old" "sr_version row = sr_version old"
    "sr_investor row = sr_investor old" "sr_bank row = sr_bank old" "sr_currency row = sr_currency old"
  using assms unfolding updated_row_def
  by (safe elim!: and_thenE) (auto simp: as_simps nullable_def and_then_Inr split: option.splits)

lemma validate_row: "validate_subscription (map_subscription r) = Inr () \<longleftrightarrow> is_uuid (sr_account r) \<and> is_uuid (sr_customer r)
    \<and> is_uuid (sr_product r) \<and> is_uuid (sr_terms r) \<and> \<not> blank (sr_version r)
    \<and> (\<exists>i b. nisba_units (render_units 6 (sr_investor r)) = Inr i \<and> nisba_units (render_units 6 (sr_bank r)) = Inr b
        \<and> i + b = 100000000)
    \<and> is_currency_code (sr_currency r) \<and> maturity_ok (sr_maturity r)"
  by (simp only: validate_subscription_Inr) (simp add: map_subscription_def)

lemma validate_updated:
  assumes old: "validate_subscription (map_subscription old) = Inr ()" and row: "updated_row instant s old = Inr row"
    and m: "sb_maturity s = sb_maturity (map_subscription old) \<or> maturity_ok (sb_maturity s)"
  shows "validate_subscription (map_subscription row) = Inr ()"
proof -
  from old have "maturity_ok (sr_maturity old)" unfolding validate_row by simp
  moreover have "sb_maturity (map_subscription old) = sr_maturity old" by (simp add: map_subscription_def)
  ultimately have "maturity_ok (sr_maturity row)" using m by (auto simp: updated_row_kept(1) [OF row])
  with old show ?thesis unfolding validate_row updated_row_kept(2-) [OF row] by simp
qed

lemma well_formed_transition:
  assumes wf: "well_formed db"
    and run: "transition_subscription stamp uuid instant account c (mutate_subscription clock rights a db0) db = Inr (x, db')"
  shows "well_formed db'"
  using run
proof (cases rule: transition_subscription_Inr)
  case replay
  with wf show ?thesis by simp
next
  case (fresh old mutation)
  from fresh(5) obtain e row as k m r where mutation: "mutation = (x, [e])" and row: "updated_row instant x old = Inr row"
    and db': "db' = db\<lparr>sd_rows := map (\<lambda>r. if sr_account r = sr_account old then row else r) (sd_rows db), sd_accounts := as,
       sd_events := sd_events db @ [\<lparr>er_account = sr_account old, er_event = e, er_key = k\<rparr>], sd_outbox := sd_outbox db @ [m],
       sd_commands := sd_commands db @ [r]\<rparr>"
    by (rule apply_mutation_Inr)
  have rows: "sd_rows db' = map (\<lambda>r. if sr_account r = sr_account old then row else r) (sd_rows db)" by (simp add: db')
  from fresh(4) mutation have "apply_action clock a (map_subscription old, []) = Inr (x, [e])"
    by (auto simp: mutate_subscription_def restore_def and_then_Inr split: if_splits)
  from apply_action_maturity [OF this] wf fresh(3) have "validate_subscription (map_subscription row) = Inr ()"
    by (intro validate_updated [OF _ row]) (simp_all add: well_formed_def)
  with wf show ?thesis by (auto simp: well_formed_def rows)
qed

lemma well_formed_create:
  assumes wf: "well_formed db" and texts: "uuid_texts uuid" and s: "validate_subscription s = Inr ()"
    and run: "create_subscription stamp uuid instant s [e] c db = Inr (x, db')"
  shows "well_formed db'"
  using run
proof (cases rule: create_subscription_Inr)
  case replay
  with wf show ?thesis by simp
next
  case (fresh row k m r)
  have "validate_subscription (map_subscription row) = Inr ()" by (rule validate_stored [OF texts s fresh(2)])
  with wf fresh(5) show ?thesis by (auto simp: well_formed_def)
qed

lemma presimulate_valid: "presimulate input = Inr (s, es) \<Longrightarrow> validate_subscription s = Inr ()"
  by (cases "sb_maturity input")
    (auto simp: presimulate_def and_then_Inr validate_subscription_Inr truthy_def maturity_ok_def)

lemma service_create_Inr:
  assumes "subscription_service_create uuid instant stamp lib today input actor key correlation db = (Inr x, db')"
  shows "\<exists>s e c. create_subscription stamp uuid instant s [e] c db = Inr (x, db') \<and> validate_subscription s = Inr ()"
  using assms
  by (auto simp: subscription_service_create_def sub_create_def outcome split: prod.splits dest!: presimulate_valid)

lemma service_create_Inl:
  "subscription_service_create uuid instant stamp lib today input actor key correlation db = (Inl err, db') \<Longrightarrow> db' = db"
  by (auto simp: subscription_service_create_def sub_create_def outcome split: prod.splits)

lemma same_contracts_wf: "same_contracts db db' \<Longrightarrow> well_formed db \<Longrightarrow> well_formed db'"
  by (simp add: same_contracts_def well_formed_def)

lemma sub_step_wf: "sub_step uuid instant db db' \<Longrightarrow> uuid_texts uuid \<Longrightarrow> well_formed db \<Longrightarrow> well_formed db'"
proof (induction rule: sub_step.induct)
  case (create stamp lib today input actor key correlation db out db')
  show ?case
  proof (cases out)
    case (Inr x)
    with service_create_Inr create show ?thesis by (metis well_formed_create)
  qed (use create in \<open>auto dest: service_create_Inl\<close>)
next
  case (act stamp lib clock account c key correlation db out db')
  show ?case
  proof (cases out)
    case (Inr x)
    with act show ?thesis by (auto elim: service_act_Inr intro: well_formed_transition)
  qed (use act in \<open>auto dest: service_act_Inl\<close>)
next
  case customer
  from customer_same(1) [OF customer(1)] customer(3) show ?case by (rule same_contracts_wf)
next
  case restrict
  from customer_same(2) [OF restrict(1) [unfolded customer_restrict_def]] restrict(3) show ?case by (rule same_contracts_wf)
next
  case lift
  from customer_same(2) [OF lift(1) [unfolded customer_lift_def]] lift(3) show ?case by (rule same_contracts_wf)
next
  case products
  then show ?case by (simp add: well_formed_def)
qed

lemma sub_reachable_wf:
  assumes "uuid_texts uuid" "sub_reachable uuid instant db"
  shows "well_formed db"
  using assms(2)
proof induction
  case (start db)
  then show ?case by (simp add: empty_subscriptions_def well_formed_def)
next
  case (step db db')
  with assms(1) show ?case by (blast intro: sub_step_wf)
qed

end
