(* ===== verification/Subscription_Properties.thy ===== *)
theory Subscription_Properties
  imports Subscription_Life
begin

text \<open>
  The properties of the investment subscriptions, each with an example evaluated on the whole
  service: a customer, a simulated contract and its commands up to a withdrawal.
\<close>

section \<open>An example\<close>

definition sub_example_uuid :: "string \<Rightarrow> string option" where
  "sub_example_uuid s = (if is_uuid s then Some s else None)"

definition sub_example_id :: "char \<Rightarrow> string" where
  "sub_example_id c = ''00000000-0000-4000-8000-00000000000'' @ [c]"

definition sub_example_json :: json_lib where
  "sub_example_json = \<lparr>locale_compare = (\<lambda>_ _. 0), print_number = (\<lambda>_. []), sha256 = (\<lambda>_. ''h'')\<rparr>"

definition sub_example_clock :: clock_lib where
  "sub_example_clock = \<lparr>date_parse = (\<lambda>_. Some 0), print_instant = (\<lambda>_. ''now'')\<rparr>"

definition sub_example_customer :: customer_profile where
  "sub_example_customer = \<lparr>pf_id = sub_example_id (CHR ''2''), pf_identity = ''tok_'' @ replicate 16 (CHR ''x''), pf_owners = [],
     pf_representatives = [], pf_segment = Retail, pf_kyc = Kyc_Verified, pf_legal_form = ''P'', pf_sector = ''S'',
     pf_branch = ''B'', pf_restrictions = []\<rparr>"

definition sub_example_input :: subscription where
  "sub_example_input = \<lparr>sb_account = sub_example_id (CHR ''1''), sb_customer = sub_example_id (CHR ''2''), sb_product = sub_example_id (CHR ''3''),
     sb_terms = sub_example_id (CHR ''4''), sb_version = ''V1'', sb_investor = ''60.5'', sb_bank = ''39.5'', sb_currency = ''TND'',
     sb_status = Sub_Simulation, sb_opened = None, sb_maturity = None, sb_closed = None, sb_acceptance = None\<rparr>"

definition sub_example_action :: "sub_action_type \<Rightarrow> string option \<Rightarrow> sub_action" where
  "sub_example_action t amount = \<lparr>ac_type = t, ac_date = ''2026-01-02'', ac_actor = ''teller'', ac_amount = amount, ac_reason = None,
     ac_maturity = None, ac_reference = None, ac_accepted_at = Some ''2026-01-02T10:00:00Z'', ac_guarantee = Some True,
     ac_method = Some True\<rparr>"

definition sub_example_key :: "char \<Rightarrow> string" where
  "sub_example_key c = ''command-00000000'' @ [c]"

definition sub_example_act :: "sub_action_type \<Rightarrow> string option \<Rightarrow> char \<Rightarrow> (subscription_db, subscription) action" where
  "sub_example_act t amount k = subscription_service_act sub_example_uuid Inr (''e'', ''t'') sub_example_json sub_example_clock
     (sub_example_id (CHR ''1'')) (sub_example_action t amount) (sub_example_key k) (sub_example_id (CHR ''9''))"

definition sub_example_start :: subscription_db where
  "sub_example_start = \<lparr>cm_profiles = [], cm_restrictions = [], sd_rows = [], sd_events = [], sd_commands = [], sd_accounts = [],
     sd_products = [(sub_example_id (CHR ''3''), ''MUD-12'')], sd_outbox = []\<rparr>"

lemma sub_example_ids: "is_uuid (sub_example_id (CHR ''1''))" "is_uuid (sub_example_id (CHR ''2''))" "is_uuid (sub_example_id (CHR ''3''))"
  "is_uuid (sub_example_id (CHR ''4''))" "is_uuid (sub_example_id (CHR ''9''))" by code_simp+

lemma sub_example_keys: "safe_key 16 128 (sub_example_key (CHR ''0''))" "safe_key 16 128 (sub_example_key (CHR ''1''))"
  "safe_key 16 128 (sub_example_key (CHR ''2''))" "safe_key 16 128 (sub_example_key (CHR ''3''))"
  "safe_key 16 128 (sub_example_key (CHR ''4''))" "safe_key 16 128 (sub_example_key (CHR ''5''))" by code_simp+

lemma sub_example_dates: "calendar_date ''2026-01-02''" "calendar_date ''2026-01-01''"
  "as_date ''2026-01-02'' = Inr ''2026-01-02''" "as_date ''2026-01-01'' = Inr ''2026-01-01''"
    by (simp_all add: as_date_def calendar_date_iff iso_shape_def valid_date_def iso_year_def iso_month_def iso_day_def
        month_length_def leap_year_def char_class_defs digits_eval)

lemma sub_example_texts: "blank ''V1'' = False" "blank ''teller'' = False" "is_currency_code ''TND''" "blank ''P'' = False" "blank ''B'' = False" "blank ''S'' = False" by code_simp+

lemma sub_example_nisba: "numeric_cast 9 6 ''60.5'' = Inr 60500000" "numeric_cast 9 6 ''39.5'' = Inr 39500000"
  "nisba_units ''60.5'' = Inr 60500000" "nisba_units ''39.5'' = Inr 39500000"
proof -
  have "decimal_value ''60.5'' = Some (121 / 2)" "decimal_value ''39.5'' = Some (79 / 2)" by (simp_all add: text_eval)
  then show "numeric_cast 9 6 ''60.5'' = Inr 60500000" "numeric_cast 9 6 ''39.5'' = Inr 39500000"
    using round_away_of_int [of "60500000"] round_away_of_int [of "39500000"] by (simp_all add: numeric_cast_def Let_def)
  show "nisba_units ''60.5'' = Inr 60500000" "nisba_units ''39.5'' = Inr 39500000"
    by (simp_all add: nisba_units_def text_eval)
qed

lemma sub_example_amounts: "decimal_value ''100'' = Some 100" "decimal_value ''40.25'' = Some (161 / 4)"
  "positive_amount ''100'' = Inr ()" "positive_amount ''40.25'' = Inr ()"
  by (simp_all add: text_eval positive_amount_def short_decimal_def)

lemma sub_example_profile_valid: "validate_profile sub_example_customer = Inr ()" by code_simp
lemma sub_example_instant: "acceptance_instant sub_example_clock ''2026-01-02T10:00:00Z'' = Inr ()"
proof -
  have "instant_shape ''2026-01-02T10:00:00Z''" by code_simp
  then show ?thesis using sub_example_dates(1) by (simp add: acceptance_instant_def sub_example_clock_def)
qed

lemma sub_example_uuids: "sub_example_uuid (sub_example_id (CHR ''1'')) = Some (sub_example_id (CHR ''1''))"
  "sub_example_uuid (sub_example_id (CHR ''2'')) = Some (sub_example_id (CHR ''2''))"
  "sub_example_uuid (sub_example_id (CHR ''3'')) = Some (sub_example_id (CHR ''3''))"
  "sub_example_uuid (sub_example_id (CHR ''4'')) = Some (sub_example_id (CHR ''4''))"
  "sub_example_uuid (sub_example_id (CHR ''9'')) = Some (sub_example_id (CHR ''9''))"
  by (simp_all add: sub_example_uuid_def sub_example_ids)

definition sub_example_profile :: customer_row where
  "sub_example_profile = \<lparr>cx_id = sub_example_id (CHR ''2''), cx_identity = ''tok_'' @ replicate 16 (CHR ''x''), cx_owners = [],
     cx_representatives = [], cx_segment = Retail, cx_kyc = Kyc_Verified, cx_legal_form = ''P'', cx_sector = ''S'',
     cx_branch = ''B'', cx_updated_by = ''officer''\<rparr>"

definition sub_example_db1 :: subscription_db where
  "sub_example_db1 = sub_example_start\<lparr>cm_profiles := [sub_example_profile]\<rparr>"

lemma sub_example_created_customer: "customer_create sub_example_uuid sub_example_customer ''officer'' sub_example_start = (Inr sub_example_customer, sub_example_db1)"
  using sub_example_profile_valid by (simp add: customer_create_def and_do_def transaction_def save_profile_def sub_example_uuids sub_example_customer_def as_uuid_def
    sub_example_start_def sub_example_db1_def upsert_def Let_def sub_example_profile_def)

definition sub_example_row :: "sub_status \<Rightarrow> string option \<Rightarrow> string option \<Rightarrow> sub_row" where
  "sub_example_row st day acc = \<lparr>sr_account = sub_example_id (CHR ''1''), sr_customer = sub_example_id (CHR ''2''), sr_product = sub_example_id (CHR ''3''),
     sr_terms = sub_example_id (CHR ''4''), sr_version = ''V1'', sr_investor = 60500000, sr_bank = 39500000, sr_currency = ''TND'',
     sr_status = st, sr_opened = day, sr_maturity = None, sr_closed = None, sr_accepted_at = acc, 
     sr_accepted_by = map_option (\<lambda>_. ''teller'') acc, sr_guarantee = (acc \<noteq> None), sr_method = (acc \<noteq> None)\<rparr>"

definition sub_example_event :: "sub_event_type \<Rightarrow> (string \<times> string) list \<Rightarrow> sub_event" where
  "sub_example_event t details = \<lparr>ev_type = t, ev_date = ''2026-01-02'', ev_actor = ''teller'', ev_details = details\<rparr>"

definition sub_example_state :: "subscription_db \<Rightarrow> sub_row \<Rightarrow> sub_event list \<Rightarrow> string list \<Rightarrow> bool" where
  "sub_example_state db row es ks \<longleftrightarrow> cm_profiles db = [sub_example_profile] \<and> cm_restrictions db = []
    \<and> sd_products db = [(sub_example_id (CHR ''3''), ''MUD-12'')] \<and> sd_rows db = [row] \<and> map er_event (sd_events db) = es
    \<and> (\<forall>r\<in>set (sd_events db). er_account r = sub_example_id (CHR ''1'') \<and> er_key r \<in> (\<lambda>k. k @ '':0'') ` set ks)
    \<and> map cr_key (sd_commands db) = ks"


lemma audit_intent_run:
  assumes "ev_date e \<noteq> []" "uuid (sc_correlation c) = Some k"
  shows "\<exists>m. sub_audit_intent stamp uuid s [e] c db = Inr (db\<lparr>sd_outbox := sd_outbox db @ [m]\<rparr>)"
  using assms by (simp add: sub_audit_intent_def as_uuid_def) (rule exI, rule refl)

lemma insert_command_run:
  assumes "uuid (sc_correlation c) = Some k" "uuid (sb_account s) = Some j"
  shows "\<exists>r. insert_command uuid s c db = Inr (s, db\<lparr>sd_commands := sd_commands db @ [r]\<rparr>) \<and> cr_key r = sc_key c"
  using assms by (simp add: insert_command_def as_uuid_def) (rule exI, rule conjI, rule refl, simp)

lemma record_command_run:
  assumes "as_date (ev_date e) = Inr (ev_date e)" "\<forall>r\<in>set (sd_events db). er_key r \<noteq> sc_key c @ '':0''"
    "uuid (sc_correlation c) = Some k" "uuid (sb_account s) = Some j"
  shows "\<exists>m r. record_command stamp uuid i s [e] c db = Inr (s, db\<lparr>sd_events := sd_events db @
      [\<lparr>er_account = i, er_event = e, er_key = sc_key c @ '':0''\<rparr>], sd_outbox := sd_outbox db @ [m],
      sd_commands := sd_commands db @ [r]\<rparr>) \<and> cr_key r = sc_key c"
proof -
  have d: "ev_date e \<noteq> []" using assms(1) by (auto simp: as_date_def calendar_date_def iso_shape_def split: if_splits)
  let ?db1 = "db\<lparr>sd_events := sd_events db @ [\<lparr>er_account = i, er_event = e, er_key = sc_key c @ '':0''\<rparr>]\<rparr>"
  have zero: "digits_of 0 = ''0''" by code_simp
  have rows: "append_events i (sc_key c) 0 [e] db = Inr ?db1"
    using assms(1,2) by (auto simp: append_event_row_def Let_def zero)
  from audit_intent_run [of e uuid c k stamp s ?db1] d assms(3) obtain m where
    m: "sub_audit_intent stamp uuid s [e] c ?db1 = Inr (?db1\<lparr>sd_outbox := sd_outbox db @ [m]\<rparr>)" by auto
  from insert_command_run [of uuid c k s j "?db1\<lparr>sd_outbox := sd_outbox db @ [m]\<rparr>"] assms(3,4) obtain r where
    r: "insert_command uuid s c (?db1\<lparr>sd_outbox := sd_outbox db @ [m]\<rparr>) = Inr (s, ?db1\<lparr>sd_outbox := sd_outbox db @ [m], sd_commands := sd_commands db @ [r]\<rparr>)"
    "cr_key r = sc_key c" by auto
  have "record_command stamp uuid i s [e] c db = Inr (s, ?db1\<lparr>sd_outbox := sd_outbox db @ [m], sd_commands := sd_commands db @ [r]\<rparr>)"
    by (simp only: record_command_def rows m r and_then_simps)
  with r(2) show ?thesis by (intro exI [where x = m] exI [where x = r]) simp
qed

lemma optional_json_ok:
  "is_undefined (optional_text t) \<or> ok (canonical_json lib (optional_text t))"
  "is_undefined (optional_flag b) \<or> ok (canonical_json lib (optional_flag b))"
  "ok (canonical_json lib (J_String s))"
  by (cases t; cases b; simp add: optional_text_def optional_flag_def is_undefined_def)+

lemma normalized_action_ok: "ok (canonical_json lib (normalized_action c))"
  unfolding normalized_action_def by (rule canonical_object_ok) (simp only: list.set image_insert snd_conv ball_simps optional_json_ok simp_thms image_empty)

lemma sub_example_canonical:
  "\<exists>text. canonical_json sub_example_json (J_Object [(''accountId'', J_String i), (''action'', normalized_action (sub_example_action t amount))]) = Inr text"
proof -
  have "ok (canonical_json sub_example_json (J_Object [(''accountId'', J_String i), (''action'', normalized_action (sub_example_action t amount))]))"
    by (rule canonical_object_ok) (simp only: list.set image_insert snd_conv ball_simps optional_json_ok normalized_action_ok simp_thms image_empty)
  then show ?thesis by (simp only: ok_iff)
qed

lemma sub_example_canonical_input:
  "\<exists>text. canonical_json sub_example_json (J_Object [(''input'', input_json sub_example_input), (''actorId'', J_String ''teller'')]) = Inr text"
proof -
  have "ok (canonical_json sub_example_json (input_json sub_example_input))"
    unfolding input_json_def by (rule canonical_object_ok) (simp only: list.set image_insert snd_conv ball_simps optional_json_ok simp_thms image_empty)
  then have "ok (canonical_json sub_example_json (J_Object [(''input'', input_json sub_example_input), (''actorId'', J_String ''teller'')]))"
    by (intro canonical_object_ok) (simp only: list.set image_insert snd_conv ball_simps optional_json_ok simp_thms image_empty)
  then show ?thesis by (simp only: ok_iff)
qed

lemma sub_example_context:
  "\<exists>t. canonical_json sub_example_json request = Inr t \<Longrightarrow> command_context sub_example_json operation actor key correlation request justification
     = Inr \<lparr>sc_key = key, sc_correlation = correlation, sc_operation = operation, sc_hash = ''h'',
       sc_actor = actor, sc_justification = justification\<rparr>"
  by (auto simp: command_context_def sub_example_json_def)

lemma sub_example_valid: "validate_subscription sub_example_input = Inr ()"
  by (simp add: validate_subscription_def sub_example_input_def sub_example_ids sub_example_texts sub_example_nisba)

lemma sub_example_create:
  "\<exists>db. subscription_service_create sub_example_uuid Inr (''e'', ''t'') sub_example_json ''2026-01-02'' sub_example_input ''teller''
        (sub_example_key (CHR ''0'')) (sub_example_id (CHR ''9'')) sub_example_db1 = (Inr sub_example_input, db)
   \<and> sub_example_state db (sub_example_row Sub_Simulation None None) [sub_example_event Ev_Simulated []] [sub_example_key (CHR ''0'')]"
proof -
  have pre: "presimulate sub_example_input = Inr (sub_example_input, [])"
    using sub_example_valid by (simp add: presimulate_def) (simp add: sub_example_input_def truthy_def)
  have row: "state_row sub_example_uuid Inr sub_example_input = Inr (sub_example_row Sub_Simulation None None)"
    by (simp add: state_row_def sub_example_input_def as_uuid_def sub_example_uuids sub_example_nisba nullable_def sub_example_row_def)
  let ?db = "sub_example_db1\<lparr>sd_rows := [sub_example_row Sub_Simulation None None]\<rparr>"
  let ?e = "sub_example_event Ev_Simulated []"
  let ?c = "\<lparr>sc_key = sub_example_key (CHR ''0''), sc_correlation = sub_example_id (CHR ''9''), sc_operation = ''CREATE_INVESTMENT_SUBSCRIPTION'',
    sc_hash = ''h'', sc_actor = ''teller'', sc_justification = ''Investment subscription pre-simulation created''\<rparr>"
  have acc: "sub_example_uuid (sb_account sub_example_input) = Some (sub_example_id (CHR ''1''))" by (simp add: sub_example_input_def sub_example_uuids)
  obtain m r where rec: "record_command (''e'', ''t'') sub_example_uuid (sub_example_id (CHR ''1'')) sub_example_input [?e] ?c ?db
    = Inr (sub_example_input, ?db\<lparr>sd_events := sd_events ?db @
      [\<lparr>er_account = sub_example_id (CHR ''1''), er_event = ?e, er_key = sc_key ?c @ '':0''\<rparr>], sd_outbox := sd_outbox ?db @ [m],
      sd_commands := sd_commands ?db @ [r]\<rparr>)" and r: "cr_key r = sc_key ?c"
    using record_command_run [of ?e ?db ?c sub_example_uuid "sub_example_id (CHR ''9'')" sub_example_input "sub_example_id (CHR ''1'')" "(''e'', ''t'')" "sub_example_id (CHR ''1'')"]
    by (auto simp: sub_example_event_def sub_example_dates sub_example_uuids acc sub_example_db1_def sub_example_start_def)
  have "create_subscription (''e'', ''t'') sub_example_uuid Inr sub_example_input [?e] ?c sub_example_db1 = record_command (''e'', ''t'') sub_example_uuid (sub_example_id (CHR ''1'')) sub_example_input [?e] ?c ?db"
    by (simp add: create_subscription_def find_replay_def row sub_example_db1_def sub_example_start_def) (simp add: sub_example_row_def)
  with rec have run: "create_subscription (''e'', ''t'') sub_example_uuid Inr sub_example_input [?e] ?c sub_example_db1 =  Inr (sub_example_input, ?db\<lparr>sd_events := sd_events ?db @
      [\<lparr>er_account = sub_example_id (CHR ''1''), er_event = ?e, er_key = sc_key ?c @ '':0''\<rparr>], sd_outbox := sd_outbox ?db @ [m],
      sd_commands := sd_commands ?db @ [r]\<rparr>)" by simp
  show ?thesis
    by (simp add: subscription_service_create_def sub_create_def and_do_def assert_command_headers_def sub_example_texts sub_example_keys sub_example_ids
      pre sub_example_context [OF sub_example_canonical_input] transaction_def run [unfolded sub_example_event_def])
     (simp add: sub_example_state_def sub_example_db1_def sub_example_start_def r sub_example_event_def)
qed


lemma sub_example_step:
  assumes st: "sub_example_state db old es ks" and a: "sr_account old = sub_example_id (CHR ''1'')" and k: "k \<in> {CHR ''1'', CHR ''2'', CHR ''3'', CHR ''4'', CHR ''5''}" "sub_example_key k \<notin> set ks"
    and mut: "mutate_subscription sub_example_clock (customer_rights sub_example_uuid) (sub_example_action t amount) db (map_subscription old) = Inr (x, [sub_example_event ty ds])"
    and cov: "withdrawal_covered (sr_account old) (sub_example_event ty ds) db = Inr ()"
    and row: "updated_row Inr x old = Inr row"
    and acc: "sb_account x = sub_example_id (CHR ''1'')"
    and sync: "synchronize_account sub_example_uuid x ty (db\<lparr>sd_rows := [row]\<rparr>) = Inr (db\<lparr>sd_rows := [row], sd_accounts := as\<rparr>)"
  shows "\<exists>db'. sub_example_act t amount k db = (Inr x, db') \<and> sub_example_state db' row (es @ [sub_example_event ty ds]) (ks @ [sub_example_key k])"
proof -
  let ?e = "sub_example_event ty ds"
  let ?db = "db\<lparr>sd_rows := [row], sd_accounts := as\<rparr>"
  let ?c = "\<lparr>sc_key = sub_example_key k, sc_correlation = sub_example_id (CHR ''9''), sc_operation = action_type_name t @ ''_INVESTMENT_SUBSCRIPTION'',
    sc_hash = ''h'', sc_actor = ''teller'', sc_justification = action_justification (sub_example_action t amount)\<rparr>"
  have rows: "sd_rows db = [old]" using st by (simp add: sub_example_state_def)
  have key: "cr_key ` set (sd_commands db) = set ks" using st unfolding sub_example_state_def by (metis set_map)
  then have new: "find (\<lambda>r. cr_key r = sub_example_key k) (sd_commands db) = None" using k(2) unfolding find_None_iff by (metis image_eqI)
  have "\<forall>r\<in>set (sd_events db). er_key r \<noteq> sub_example_key k @ '':0''" using st k(2) unfolding sub_example_state_def by auto
  then obtain m r where rec: "record_command (''e'', ''t'') sub_example_uuid (sr_account old) x [?e] ?c ?db
    = Inr (x, ?db\<lparr>sd_events := sd_events ?db @
      [\<lparr>er_account = sr_account old, er_event = ?e, er_key = sub_example_key k @ '':0''\<rparr>], sd_outbox := sd_outbox ?db @ [m],
      sd_commands := sd_commands ?db @ [r]\<rparr>)" and r: "cr_key r = sub_example_key k"
    using record_command_run [of ?e ?db ?c sub_example_uuid "sub_example_id (CHR ''9'')" x "sub_example_id (CHR ''1'')" "(''e'', ''t'')" "sr_account old"]
    by (auto simp: sub_example_event_def sub_example_dates sub_example_uuids acc)
  have "apply_mutation (''e'', ''t'') sub_example_uuid Inr old ?c (x, [?e]) db = record_command (''e'', ''t'') sub_example_uuid (sr_account old) x [?e] ?c ?db"
    using cov row sync by (simp add: apply_mutation_def rows sub_example_event_def)
  then have run: "transition_subscription (''e'', ''t'') sub_example_uuid Inr (sub_example_id (CHR ''1'')) ?c
      (mutate_subscription sub_example_clock (customer_rights sub_example_uuid) (sub_example_action t amount) db) db
    = Inr (x, ?db\<lparr>sd_events := sd_events ?db @
      [\<lparr>er_account = sr_account old, er_event = ?e, er_key = sub_example_key k @ '':0''\<rparr>], sd_outbox := sd_outbox ?db @ [m],
      sd_commands := sd_commands ?db @ [r]\<rparr>)"
    using new rows a mut rec by (simp add: transition_subscription_def find_replay_def as_uuid_def sub_example_uuids)
  have heads: "assert_command_headers ''teller'' (sub_example_key k) (sub_example_id (CHR ''9'')) = Inr ()"
    using k(1) by (auto simp: assert_command_headers_def sub_example_texts sub_example_keys sub_example_ids)
  have actor: "ac_actor (sub_example_action t amount) = ''teller''" "ac_type (sub_example_action t amount) = t" by (simp_all add: sub_example_action_def)
  have "sub_example_act t amount k db = (Inr x, ?db\<lparr>sd_events := sd_events ?db @
      [\<lparr>er_account = sr_account old, er_event = ?e, er_key = sub_example_key k @ '':0''\<rparr>], sd_outbox := sd_outbox ?db @ [m],
      sd_commands := sd_commands ?db @ [r]\<rparr>)"
    by (simp add: sub_example_act_def subscription_service_act_def sub_act_def and_do_def heads actor sub_example_context [OF sub_example_canonical] transaction_def run)
  moreover have "sub_example_state (?db\<lparr>sd_events := sd_events ?db @
      [\<lparr>er_account = sr_account old, er_event = ?e, er_key = sub_example_key k @ '':0''\<rparr>], sd_outbox := sd_outbox ?db @ [m],
      sd_commands := sd_commands ?db @ [r]\<rparr>) row (es @ [?e]) (ks @ [sub_example_key k])"
    using st a r by (auto simp: sub_example_state_def)
  ultimately show ?thesis by blast
qed


lemma sub_example_restored: "restore (map_subscription (sub_example_row st day acc)) = Inr (map_subscription (sub_example_row st day acc), [])"
proof -
  have "validate_subscription (map_subscription (sub_example_row st day acc)) = Inr ()"
    using nisba_units_stored [OF sub_example_nisba(3,1)] nisba_units_stored [OF sub_example_nisba(4,2)]
    by (simp add: validate_row sub_example_row_def sub_example_ids sub_example_texts maturity_ok_def)
  then show ?thesis by (simp add: restore_def)
qed

lemma sub_example_rights: "sub_example_state db row es ks \<Longrightarrow> customer_rights sub_example_uuid (sub_example_id (CHR ''2'')) db = Inr ()"
proof -
  assume "sub_example_state db row es ks"
  then have "find_profile sub_example_uuid (sub_example_id (CHR ''2'')) db = Inr (Some sub_example_customer)"
    by (simp add: sub_example_state_def find_profile_def as_uuid_def sub_example_uuids sub_example_profile_def sub_example_customer_def)
  then show ?thesis using sub_example_profile_valid by (simp add: customer_rights_def customer_get_def) (simp add: sub_example_customer_def assert_profit_rights_def)
qed

lemma sub_example_mutation:
  assumes "sub_example_state db row es ks"
  shows "mutate_subscription sub_example_clock (customer_rights sub_example_uuid) a db (map_subscription (sub_example_row st day acc))
    = apply_action sub_example_clock a (map_subscription (sub_example_row st day acc), [])"
  using sub_example_rights [OF assms] by (simp add: mutate_subscription_def sub_example_restored) (simp add: map_subscription_def sub_example_row_def)

lemmas sub_example_action_simps = apply_action_def method_defs require_status_def record_event_def business_date_def alter_def
  sub_example_action_def sub_example_dates sub_example_texts map_subscription_def sub_example_row_def sub_example_event_def or_empty_def

definition sub_example_moved :: "subscription_db \<Rightarrow> sub_action_type \<Rightarrow> string option \<Rightarrow> char \<Rightarrow> sub_row \<Rightarrow> sub_event list \<Rightarrow> string list \<Rightarrow> bool" where
  "sub_example_moved db t amount k row es ks \<longleftrightarrow>
    (\<exists>x db'. sub_example_act t amount k db = (Inr x, db') \<and> sub_example_state db' row es (ks @ [sub_example_key k]))"

lemma sub_example_move:
  assumes st: "sub_example_state db (sub_example_row s0 d0 a0) es ks"
    and k: "k \<in> {CHR ''1'', CHR ''2'', CHR ''3'', CHR ''4'', CHR ''5''} \<and> sub_example_key k \<notin> set ks"
    and mut: "apply_action sub_example_clock (sub_example_action t amount) (map_subscription (sub_example_row s0 d0 a0), []) = Inr (x, [sub_example_event ty ds])"
    and cov: "withdrawal_covered (sub_example_id (CHR ''1'')) (sub_example_event ty ds) db = Inr ()"
    and row: "updated_row Inr x (sub_example_row s0 d0 a0) = Inr (sub_example_row s1 d1 a1) \<and> sb_account x = sub_example_id (CHR ''1'')"
    and sync: "synchronize_account sub_example_uuid x ty (db\<lparr>sd_rows := [sub_example_row s1 d1 a1]\<rparr>) = Inr (db\<lparr>sd_rows := [sub_example_row s1 d1 a1], sd_accounts := as\<rparr>)"
  shows "sub_example_moved db t amount k (sub_example_row s1 d1 a1) (es @ [sub_example_event ty ds]) ks"
proof -
  have acc: "sr_account (sub_example_row s0 d0 a0) = sub_example_id (CHR ''1'')" by (simp add: sub_example_row_def)
  show ?thesis unfolding sub_example_moved_def
    using sub_example_step [OF st acc conjunct1 [OF k] conjunct2 [OF k] trans [OF sub_example_mutation [OF st] mut]
      cov [folded acc] conjunct1 [OF row] conjunct2 [OF row] sync] by blast
qed

lemma sub_example_started:
  assumes "sub_example_state db (sub_example_row Sub_Simulation None None) es ks" "sub_example_key (CHR ''1'') \<notin> set ks"
  shows "sub_example_moved db Act_Start None (CHR ''1'') (sub_example_row Sub_Pending None None) (es @ [sub_example_event Ev_Started []]) ks"
  by (rule sub_example_move [OF assms(1), where x = "(map_subscription (sub_example_row Sub_Simulation None None))\<lparr>sb_status := Sub_Pending\<rparr>" and as = "sd_accounts db"])
    (use assms(2) in \<open>simp_all add: sub_example_action_simps updated_row_def nullable_def withdrawal_covered_def synchronize_account_def\<close>)


lemma sub_example_accepted:
  assumes "sub_example_state db (sub_example_row Sub_Pending None None) es ks" "sub_example_key (CHR ''2'') \<notin> set ks"
  shows "sub_example_moved db Act_Accept None (CHR ''2'') (sub_example_row Sub_Pending None (Some ''2026-01-02T10:00:00Z''))
    (es @ [sub_example_event Ev_Terms_Accepted []]) ks"
  by (rule sub_example_move [OF assms(1), where x = "(map_subscription (sub_example_row Sub_Pending None None))\<lparr>sb_acceptance := Some \<lparr>ta_at = ''2026-01-02T10:00:00Z'',
      ta_by = ''teller'', ta_guarantee = True, ta_method = True\<rparr>\<rparr>" and as = "sd_accounts db"])
    (use assms(2) in \<open>simp_all add: sub_example_action_simps sub_example_instant updated_row_def nullable_def withdrawal_covered_def synchronize_account_def\<close>)

lemma sub_example_activated:
  assumes "sub_example_state db (sub_example_row Sub_Pending None (Some ''2026-01-02T10:00:00Z'')) es ks" "sub_example_key (CHR ''3'') \<notin> set ks"
  shows "sub_example_moved db Act_Activate None (CHR ''3'') (sub_example_row Sub_Active (Some ''2026-01-02'') (Some ''2026-01-02T10:00:00Z''))
    (es @ [sub_example_event Ev_Activated []]) ks"
proof -
  let ?x = "(map_subscription (sub_example_row Sub_Pending None (Some ''2026-01-02T10:00:00Z'')))\<lparr>sb_status := Sub_Active, sb_opened := Some ''2026-01-02''\<rparr>"
  have "cm_profiles db = [sub_example_profile]" "sd_products db = [(sub_example_id (CHR ''3''), ''MUD-12'')]"
    using assms(1) by (simp_all add: sub_example_state_def)
  then have "\<exists>as. synchronize_account sub_example_uuid ?x Ev_Activated (db\<lparr>sd_rows := rows\<rparr>) = Inr (db\<lparr>sd_rows := rows, sd_accounts := as\<rparr>)" for rows
    by (auto simp: synchronize_account_def truthy_def map_subscription_def sub_example_row_def as_uuid_def sub_example_uuids or_empty_def sub_example_dates
      open_account_def sub_example_profile_def)
  then obtain as where "synchronize_account sub_example_uuid ?x Ev_Activated (db\<lparr>sd_rows := [sub_example_row Sub_Active (Some ''2026-01-02'') (Some ''2026-01-02T10:00:00Z'')]\<rparr>)
    = Inr (db\<lparr>sd_rows := [sub_example_row Sub_Active (Some ''2026-01-02'') (Some ''2026-01-02T10:00:00Z'')], sd_accounts := as\<rparr>)" by blast
  with assms(2) show ?thesis
    by (intro sub_example_move [OF assms(1), where x = ?x]) (simp_all add: sub_example_action_simps updated_row_def nullable_def withdrawal_covered_def)
qed

lemma sub_example_deposited:
  assumes "sub_example_state db (sub_example_row Sub_Active (Some ''2026-01-02'') (Some ''2026-01-02T10:00:00Z'')) es ks" "sub_example_key (CHR ''4'') \<notin> set ks"
  shows "sub_example_moved db Act_Deposit (Some ''100'') (CHR ''4'') (sub_example_row Sub_Active (Some ''2026-01-02'') (Some ''2026-01-02T10:00:00Z''))
    (es @ [sub_example_event Ev_Deposit [(''amount'', ''100'')]]) ks"
  by (rule sub_example_move [OF assms(1), where x = "map_subscription (sub_example_row Sub_Active (Some ''2026-01-02'') (Some ''2026-01-02T10:00:00Z''))" and as = "sd_accounts db"])
    (use assms(2) in \<open>simp_all add: sub_example_action_simps sub_example_amounts updated_row_def nullable_def withdrawal_covered_def synchronize_account_def\<close>)


lemma sub_example_events: "sub_example_state db row es ks \<Longrightarrow> events_of (sub_example_id (CHR ''1'')) db = es"
proof -
  assume st: "sub_example_state db row es ks"
  then have "filter (\<lambda>r. er_account r = sub_example_id (CHR ''1'')) (sd_events db) = sd_events db"
    unfolding filter_id_conv sub_example_state_def by blast
  with st show ?thesis by (simp add: events_of_def sub_example_state_def)
qed

lemma sub_example_withdrawn:
  assumes "sub_example_state db (sub_example_row Sub_Active (Some ''2026-01-02'') (Some ''2026-01-02T10:00:00Z'')) es ks" "sub_example_key (CHR ''5'') \<notin> set ks"
    and q: "ledger_sum es = Inr 100"
  shows "sub_example_moved db Act_Withdraw (Some ''40.25'') (CHR ''5'') (sub_example_row Sub_Active (Some ''2026-01-02'') (Some ''2026-01-02T10:00:00Z''))
    (es @ [sub_example_event Ev_Withdrawal [(''amount'', ''40.25'')]]) ks"
  by (rule sub_example_move [OF assms(1), where x = "map_subscription (sub_example_row Sub_Active (Some ''2026-01-02'') (Some ''2026-01-02T10:00:00Z''))" and as = "sd_accounts db"])
    (use assms(2) q sub_example_events [OF assms(1)] in \<open>simp_all add: sub_example_action_simps sub_example_amounts updated_row_def nullable_def withdrawal_covered_def
      synchronize_account_def event_amount_def\<close>)

lemma sub_example_moved_reach:
  assumes "sub_reachable sub_example_uuid Inr db" "sub_example_moved db t amount k row es ks"
  shows "\<exists>db'. sub_reachable sub_example_uuid Inr db' \<and> sub_example_state db' row es (ks @ [sub_example_key k])"
proof -
  from assms(2) obtain x db' where "sub_example_act t amount k db = (Inr x, db')" "sub_example_state db' row es (ks @ [sub_example_key k])"
    by (auto simp: sub_example_moved_def)
  with assms(1) show ?thesis unfolding sub_example_act_def by (blast intro: sub_reachable.step sub_step.act)
qed

definition sub_example_history :: "sub_event list" where
  "sub_example_history = [sub_example_event Ev_Simulated [], sub_example_event Ev_Started [], sub_example_event Ev_Terms_Accepted []]"

definition sub_example_keys_used :: "string list" where
  "sub_example_keys_used = [sub_example_key (CHR ''0''), sub_example_key (CHR ''1''), sub_example_key (CHR ''2'')]"

lemma sub_example_ready:
  "\<exists>db. sub_reachable sub_example_uuid Inr db
     \<and> sub_example_state db (sub_example_row Sub_Pending None (Some ''2026-01-02T10:00:00Z'')) sub_example_history sub_example_keys_used"
proof -
  have "sub_reachable sub_example_uuid Inr sub_example_start"
    by (rule sub_reachable.start) (simp add: empty_subscriptions_def sub_example_start_def)
  then have "sub_reachable sub_example_uuid Inr sub_example_db1"
    by (rule sub_reachable.step) (rule sub_step.customer [OF sub_example_created_customer])
  moreover obtain db2 where run: "subscription_service_create sub_example_uuid Inr (''e'', ''t'') sub_example_json ''2026-01-02'' sub_example_input ''teller''
        (sub_example_key (CHR ''0'')) (sub_example_id (CHR ''9'')) sub_example_db1 = (Inr sub_example_input, db2)"
      and st: "sub_example_state db2 (sub_example_row Sub_Simulation None None) [sub_example_event Ev_Simulated []] [sub_example_key (CHR ''0'')]"
    using sub_example_create by blast
  ultimately have "sub_reachable sub_example_uuid Inr db2" by (blast intro: sub_reachable.step sub_step.create)
  from sub_example_moved_reach [OF this sub_example_started [OF st]] obtain db3 where db3: "sub_reachable sub_example_uuid Inr db3"
    "sub_example_state db3 (sub_example_row Sub_Pending None None) [sub_example_event Ev_Simulated [], sub_example_event Ev_Started []]
       [sub_example_key (CHR ''0''), sub_example_key (CHR ''1'')]" by (auto simp: sub_example_key_def)
  from sub_example_moved_reach [OF db3(1) sub_example_accepted [OF db3(2)]] show ?thesis
    by (auto simp: sub_example_key_def sub_example_history_def sub_example_keys_used_def)
qed

abbreviation sub_example_running :: sub_row where
  "sub_example_running \<equiv> sub_example_row Sub_Active (Some ''2026-01-02'') (Some ''2026-01-02T10:00:00Z'')"

definition sub_example_funded :: "sub_event list" where
  "sub_example_funded = sub_example_history @ [sub_example_event Ev_Activated [], sub_example_event Ev_Deposit [(''amount'', ''100'')],
     sub_example_event Ev_Withdrawal [(''amount'', ''40.25'')]]"

lemma sub_example_reached:
  "\<exists>db. sub_reachable sub_example_uuid Inr db \<and> sd_rows db = [sub_example_running] \<and> events_of (sub_example_id (CHR ''1'')) db = sub_example_funded"
proof -
  from sub_example_ready obtain db1 where r1: "sub_reachable sub_example_uuid Inr db1"
    and st1: "sub_example_state db1 (sub_example_row Sub_Pending None (Some ''2026-01-02T10:00:00Z'')) sub_example_history sub_example_keys_used" by blast
  have fresh: "sub_example_key (CHR ''3'') \<notin> set sub_example_keys_used" by (simp add: sub_example_keys_used_def sub_example_key_def)
  from sub_example_moved_reach [OF r1 sub_example_activated [OF st1 fresh]] obtain db2 where r2: "sub_reachable sub_example_uuid Inr db2"
    and st2: "sub_example_state db2 sub_example_running (sub_example_history @ [sub_example_event Ev_Activated []]) (sub_example_keys_used @ [sub_example_key (CHR ''3'')])"
    by blast
  have fresh2: "sub_example_key (CHR ''4'') \<notin> set (sub_example_keys_used @ [sub_example_key (CHR ''3'')])"
    by (simp add: sub_example_keys_used_def sub_example_key_def)
  from sub_example_moved_reach [OF r2 sub_example_deposited [OF st2 fresh2]] obtain db3 where r3: "sub_reachable sub_example_uuid Inr db3"
    and st3: "sub_example_state db3 sub_example_running ((sub_example_history @ [sub_example_event Ev_Activated []]) @ [sub_example_event Ev_Deposit [(''amount'', ''100'')]])
       ((sub_example_keys_used @ [sub_example_key (CHR ''3'')]) @ [sub_example_key (CHR ''4'')])"
    by blast
  have fresh3: "sub_example_key (CHR ''5'') \<notin> set ((sub_example_keys_used @ [sub_example_key (CHR ''3'')]) @ [sub_example_key (CHR ''4'')])"
    by (simp add: sub_example_keys_used_def sub_example_key_def)
  have sum: "ledger_sum ((sub_example_history @ [sub_example_event Ev_Activated []]) @ [sub_example_event Ev_Deposit [(''amount'', ''100'')]]) = Inr 100"
    by (simp add: sub_example_history_def ledger_sum_def signed_amount_def event_amount_def sub_example_event_def sub_example_amounts)
  from sub_example_moved_reach [OF r3 sub_example_withdrawn [OF st3 fresh3 sum]] obtain db4 where r4: "sub_reachable sub_example_uuid Inr db4"
    and st4: "sub_example_state db4 sub_example_running (((sub_example_history @ [sub_example_event Ev_Activated []]) @ [sub_example_event Ev_Deposit [(''amount'', ''100'')]])
        @ [sub_example_event Ev_Withdrawal [(''amount'', ''40.25'')]])
       (((sub_example_keys_used @ [sub_example_key (CHR ''3'')]) @ [sub_example_key (CHR ''4'')]) @ [sub_example_key (CHR ''5'')])"
    by blast
  from sub_example_events [OF st4] st4 r4 show ?thesis by (intro exI [where x = db4]) (simp add: sub_example_funded_def sub_example_state_def)
qed

lemma sub_example_laws: "uuid_laws sub_example_uuid" "uuid_texts sub_example_uuid"
  by (auto simp: uuid_laws_def uuid_texts_def sub_example_uuid_def split: if_splits)

section \<open>Properties\<close>

text \<open>
  C35. In every reachable state the events of a contract are its simulation followed by a path of the contract's
  life that ends in the stored status.  A contract that has been activated has evidence that the investor
  accepted both the missing guarantee and the profit-sharing method, and an operational account; a closed
  one has its closing date.
\<close>

theorem contract_history:
  assumes "uuid_laws uuid" "sub_reachable uuid instant db" "r \<in> set (sd_rows db)"
  shows "(\<exists>ts. map ev_type (events_of (sr_account r) db) = Ev_Simulated # ts \<and> sub_path Sub_Simulation ts (sr_status r))
     \<and> (operating (sr_status r) \<longrightarrow> sr_accepted_at r \<noteq> None \<and> sr_guarantee r \<and> sr_method r
         \<and> sr_account r \<in> oa_id ` set (sd_accounts db))
     \<and> (sr_status r = Sub_Closed \<longrightarrow> sr_closed r \<noteq> None)"
  using sub_reachable_inv [OF assms(1,2)] assms(3) by (auto simp: sub_inv_def sub_row_ok_def history_of_def)

theorem contract_history_witness:
  "\<exists>db. sub_reachable sub_example_uuid Inr db \<and> sd_rows db = [sub_example_running] \<and> sr_account sub_example_running \<in> oa_id ` set (sd_accounts db)
     \<and> (\<exists>ts. map ev_type (events_of (sr_account sub_example_running) db) = Ev_Simulated # ts \<and> sub_path Sub_Simulation ts Sub_Active)"
proof -
  obtain db where db: "sub_reachable sub_example_uuid Inr db" "sd_rows db = [sub_example_running]" using sub_example_reached by blast
  have "sr_status sub_example_running = Sub_Active" by (simp add: sub_example_row_def)
  with contract_history [OF sub_example_laws(1) db(1), of sub_example_running] db show ?thesis
    by (intro exI [where x = db]) (simp add: operating_def)
qed

text \<open>
  C36. The withdrawals of a contract are covered by the deposits before them at every moment of its history, and
  in every reachable state the balance query returns for each contract its deposits less its withdrawals,
  which is not negative.
\<close>

theorem balance_covered:
  assumes "uuid_laws uuid" "uuid_texts uuid" "sub_reachable uuid instant db" "r \<in> set (sd_rows db)"
  shows "(\<forall>n. \<exists>q\<ge>0. ledger_sum (take n (events_of (sr_account r) db)) = Inr q)
     \<and> (\<exists>b. get_subscription uuid (sr_account r) db = Inr b \<and> bl_state b = map_subscription r \<and> 0 \<le> bl_balance b
         \<and> bl_balance b = bl_deposits b - bl_withdrawals b
         \<and> ledger_sum (events_of (sr_account r) db) = Inr (bl_balance b))"
proof -
  note inv = sub_reachable_inv [OF assms(1,3)]
  from inv assms(4) have ok: "sub_row_ok uuid db r" and keys: "distinct (map sr_account (sd_rows db))" by (auto simp: sub_inv_def)
  from sub_reachable_wf [OF assms(2,3)] assms(4) have "is_uuid (sr_account r)" by (simp add: well_formed_def validate_row)
  moreover have "find (\<lambda>x. sr_account x = sr_account r) (sd_rows db) = Some r" using keys assms(4) by (rule find_distinct)
  ultimately have "get_subscription uuid (sr_account r) db = map_balance r db"
    using ok by (cases "map_balance r db") (simp_all add: get_subscription_def find_with_balance_def as_uuid_def sub_row_ok_def)
  with solvent_balance [of r db] ok show ?thesis by (auto simp: sub_row_ok_def solvent_def)
qed

theorem balance_covered_witness:
  "\<exists>db b. sub_reachable sub_example_uuid Inr db \<and> get_subscription sub_example_uuid (sub_example_id (CHR ''1'')) db = Inr b \<and> bl_balance b = 239 / 4"
proof -
  obtain db where db: "sub_reachable sub_example_uuid Inr db" "sd_rows db = [sub_example_running]"
    "events_of (sub_example_id (CHR ''1'')) db = sub_example_funded" using sub_example_reached by blast
  have id: "sr_account sub_example_running = sub_example_id (CHR ''1'')" by (simp add: sub_example_row_def)
  have sum: "ledger_sum sub_example_funded = Inr (239 / 4)"
    by (simp add: sub_example_funded_def sub_example_history_def ledger_sum_def signed_amount_def event_amount_def sub_example_event_def sub_example_amounts)
  from balance_covered [OF sub_example_laws db(1), of sub_example_running] db(2,3) id sum show ?thesis using db(1) by auto
qed

text \<open>
  C37. The fields of a stored contract are always of the shape the aggregate requires: identifiers, version, two
  Nisba of the stored scale that total exactly 100, currency and maturity.  So restoring a stored contract
  never fails and gives it unchanged, and no action is refused because of what the tables hold.
\<close>

theorem stored_contract_restores:
  assumes "uuid_texts uuid" "sub_reachable uuid instant db" "r \<in> set (sd_rows db)"
  shows "restore (map_subscription r) = Inr (map_subscription r, [])
     \<and> mutate_subscription clock rights c state (map_subscription r) =
         (if rights_action (ac_type c) then and_then (rights (sr_customer r) state) (\<lambda>_. apply_action clock c (map_subscription r, []))
          else apply_action clock c (map_subscription r, []))"
proof -
  have "restore (map_subscription r) = Inr (map_subscription r, [])"
    using sub_reachable_wf [OF assms(1,2)] assms(3) by (simp add: restore_def well_formed_def)
  then show ?thesis by (simp add: mutate_subscription_def)
qed

theorem stored_contract_restores_witness:
  "\<exists>db r. sub_reachable sub_example_uuid Inr db \<and> r \<in> set (sd_rows db) \<and> restore (map_subscription r) = Inr (map_subscription r, [])"
proof -
  obtain db where db: "sub_reachable sub_example_uuid Inr db" "sd_rows db = [sub_example_running]" using sub_example_reached by blast
  then have "restore (map_subscription sub_example_running) = Inr (map_subscription sub_example_running, [])"
    using conjunct1 [OF stored_contract_restores [OF sub_example_laws(2) db(1)]] by simp
  with db show ?thesis by (intro exI [where x = db] exI [where x = sub_example_running]) simp
qed

text \<open>
  C38. An action on profit rights (activation, deposit, withdrawal, renewal, maturity, succession, closing) that is
  carried out for the first time has found the customer of the contract in the customer table, with every
  seizure, opposition and block lifted.
\<close>

theorem rights_need_no_restriction:
  assumes "subscription_service_act uuid instant stamp lib clock account a key correlation db = (Inr x, db')"
    and "rights_action (ac_type a)" and "key \<notin> cr_key ` set (sd_commands db)"
  shows "\<exists>r\<in>set (sd_rows db). \<exists>i. uuid account = Some (sr_account r) \<and> uuid (sr_customer r) = Some i
     \<and> i \<in> cx_id ` set (cm_profiles db) \<and> active_restrictions i db = []"
proof -
  from assms(1) obtain c where run: "transition_subscription stamp uuid instant account c
      (mutate_subscription clock (customer_rights uuid) a db) db = Inr (x, db')" and c: "command_context lib
      (action_type_name (ac_type a) @ ''_INVESTMENT_SUBSCRIPTION'') (ac_actor a) key correlation
      (J_Object [(''accountId'', J_String account), (''action'', normalized_action a)]) (action_justification a) = Inr c"
    by (rule service_act_Inr)
  from c have "sc_key c = key" by (auto simp: command_context_def and_then_Inr)
  with assms(3) have new: "find_replay account c db = Inr None"
    unfolding find_replay_None find_None_iff by (metis image_eqI)
  from run show ?thesis
  proof (cases rule: transition_subscription_Inr)
    case (fresh old mutation)
    from fresh(4) obtain t es where "mutate_subscription clock (customer_rights uuid) a db (map_subscription old) = Inr (t, es)"
      by (cases mutation) auto
    from mutate_subscription_Inr [OF this] assms(2) have "customer_rights uuid (sr_customer old) db = Inr ()" by simp
    then obtain i where "uuid (sr_customer old) = Some i" "i \<in> cx_id ` set (cm_profiles db)" "active_restrictions i db = []"
      by (rule customer_rights_Inr)
    with fresh(2,3) show ?thesis by blast
  qed (use new in simp)
qed

theorem rights_need_no_restriction_witness:
  "\<exists>db x db'. sub_example_act Act_Activate None (CHR ''3'') db = (Inr x, db') \<and> active_restrictions (sub_example_id (CHR ''2'')) db = []"
proof -
  obtain db where st: "sub_example_state db (sub_example_row Sub_Pending None (Some ''2026-01-02T10:00:00Z'')) sub_example_history sub_example_keys_used"
    using sub_example_ready by blast
  have fresh: "sub_example_key (CHR ''3'') \<notin> set sub_example_keys_used" by (simp add: sub_example_keys_used_def sub_example_key_def)
  from sub_example_activated [OF st fresh] obtain x db' where run: "sub_example_act Act_Activate None (CHR ''3'') db = (Inr x, db')"
    unfolding sub_example_moved_def by blast
  have "sub_example_key (CHR ''3'') \<notin> cr_key ` set (sd_commands db)" using st fresh unfolding sub_example_state_def by (metis set_map)
  from rights_need_no_restriction [OF run [unfolded sub_example_act_def] _ this] st have "active_restrictions (sub_example_id (CHR ''2'')) db = []"
    by (auto simp: rights_action_def sub_example_action_def sub_example_state_def sub_example_row_def sub_example_uuids)
  with run show ?thesis by blast
qed

text \<open>
  C39. A creation or an action that succeeded for an account identifier in the spelling PostgreSQL prints
  (lower case) is answered with the same result whenever the same request is sent again under its key,
  whatever other commands changed the tables in between and whatever the clock, the day and the
  correlation identifier are then, and sending it again changes nothing.
\<close>

theorem subscription_command_replay:
  assumes "uuid account = Some account" and "is_uuid correlation2" and "(sub_step uuid instant)\<^sup>*\<^sup>* db1 db2"
  shows "(subscription_service_act uuid instant stamp lib clock account a key correlation db = (Inr x, db1)
      \<longrightarrow> subscription_service_act uuid instant2 stamp2 lib clock2 account a key correlation2 db2 = (Inr x, db2))
    \<and> (sb_account input = account
      \<longrightarrow> subscription_service_create uuid instant stamp lib today input actor key correlation db = (Inr x, db1)
      \<longrightarrow> subscription_service_create uuid instant2 stamp2 lib today2 input actor key correlation2 db2 = (Inr x, db2))"
  using service_act_replays service_create_replays assms by metis

theorem subscription_command_replay_witness:
  "(\<exists>db x db1 db2. sub_example_act Act_Activate None (CHR ''3'') db = (Inr x, db1) \<and> sd_products db2 = []
     \<and> sub_example_act Act_Activate None (CHR ''3'') db2 = (Inr x, db2))
   \<and> (\<exists>db :: subscription_db. sd_products db = [] \<and> sd_rows db \<noteq> [] \<and> subscription_service_create sub_example_uuid Inr (''e2'', ''t2'') sub_example_json
        ''2026-02-01'' sub_example_input ''teller'' (sub_example_key (CHR ''0'')) (sub_example_id (CHR ''9'')) db
      = (Inr sub_example_input, db))"
proof (rule conjI)
  have cleared: "(sub_step sub_example_uuid Inr)\<^sup>*\<^sup>* db (db\<lparr>sd_products := []\<rparr>)" for db
    by (rule r_into_rtranclp) (rule sub_step.products)
  obtain db where st: "sub_example_state db (sub_example_row Sub_Pending None (Some ''2026-01-02T10:00:00Z'')) sub_example_history sub_example_keys_used"
    using sub_example_ready by blast
  have fresh: "sub_example_key (CHR ''3'') \<notin> set sub_example_keys_used" by (simp add: sub_example_keys_used_def sub_example_key_def)
  from sub_example_activated [OF st fresh] obtain x db1 where run: "sub_example_act Act_Activate None (CHR ''3'') db = (Inr x, db1)"
    unfolding sub_example_moved_def by blast
  from subscription_command_replay [OF sub_example_uuids(1) sub_example_ids(5) cleared] run [unfolded sub_example_act_def]
  have "sub_example_act Act_Activate None (CHR ''3'') (db1\<lparr>sd_products := []\<rparr>) = (Inr x, db1\<lparr>sd_products := []\<rparr>)"
    unfolding sub_example_act_def by blast
  with run show "\<exists>db x db1 db2. sub_example_act Act_Activate None (CHR ''3'') db = (Inr x, db1) \<and> sd_products db2 = []
     \<and> sub_example_act Act_Activate None (CHR ''3'') db2 = (Inr x, db2)"
    by (intro exI [where x = db] exI [where x = x] exI [where x = db1] exI [where x = "db1\<lparr>sd_products := []\<rparr>"]) simp
  obtain db where made: "subscription_service_create sub_example_uuid Inr (''e'', ''t'') sub_example_json ''2026-01-02'' sub_example_input ''teller''
        (sub_example_key (CHR ''0'')) (sub_example_id (CHR ''9'')) sub_example_db1 = (Inr sub_example_input, db)"
      and st: "sub_example_state db (sub_example_row Sub_Simulation None None) [sub_example_event Ev_Simulated []] [sub_example_key (CHR ''0'')]"
    using sub_example_create by blast
  have account: "sb_account sub_example_input = sub_example_id (CHR ''1'')" by (simp add: sub_example_input_def)
  from subscription_command_replay [OF sub_example_uuids(1) sub_example_ids(5) cleared] made account
  have "subscription_service_create sub_example_uuid Inr (''e2'', ''t2'') sub_example_json ''2026-02-01'' sub_example_input ''teller''
        (sub_example_key (CHR ''0'')) (sub_example_id (CHR ''9'')) (db\<lparr>sd_products := []\<rparr>) = (Inr sub_example_input, db\<lparr>sd_products := []\<rparr>)"
    by blast
  moreover have "sd_rows (db\<lparr>sd_products := []\<rparr>) \<noteq> []" using st by (simp add: sub_example_state_def)
  ultimately show "\<exists>db :: subscription_db. sd_products db = [] \<and> sd_rows db \<noteq> [] \<and> subscription_service_create sub_example_uuid Inr (''e2'', ''t2'') sub_example_json
        ''2026-02-01'' sub_example_input ''teller'' (sub_example_key (CHR ''0'')) (sub_example_id (CHR ''9'')) db
      = (Inr sub_example_input, db)"
    by (intro exI [where x = "db\<lparr>sd_products := []\<rparr>"]) simp
qed

end
