(* ===== verification/Calculation.thy ===== *)
theory Calculation
  imports Allocation Decimal_Lib Json Js_Date Inbox
begin

text \<open>
  Profit calculation runs: the requests of \<open>initiate-profit-calculation.ts\<close> and
  \<open>execute-profit-calculation.ts\<close> (\<open>src/modules/profit-calculation/application\<close>), the computation
  of a run from its snapshot, the explanation of
  \<open>src/modules/profit-calculation/domain/profit-explanation.ts\<close> and the message of the
  calculation worker.  decimal.js (here at its default precision), which texts its constructor
  accepts, \<open>localeCompare\<close> and SHA-256 are parameters.
\<close>

section \<open>Requests\<close>

record calc_request =
  cq_run :: string
  cq_pool :: string
  cq_date :: string
  cq_rules :: string
  cq_correlation :: string
  cq_requester :: string
  cq_kind :: "string option"

record initiate_request = calc_request +
  cq_basis :: "(string \<times> string) option"

datatype initiation_code = Run_Conflict | Pool_Not_Active | Basis_Unavailable | Basis_Invalid | Income_Unavailable
  | Policy_Missing | Amount_Not_Positive

definition initiation_code_name :: "initiation_code \<Rightarrow> string" where
  "initiation_code_name c = (case c of Run_Conflict \<Rightarrow> ''CALCULATION_RUN_CONFLICT'' | Pool_Not_Active \<Rightarrow> ''POOL_NOT_ACTIVE''
     | Basis_Unavailable \<Rightarrow> ''PARTICIPANT_BASIS_UNAVAILABLE'' | Basis_Invalid \<Rightarrow> ''PARTICIPANT_BASIS_INVALID''
     | Income_Unavailable \<Rightarrow> ''RECOGNIZED_INCOME_UNAVAILABLE'' | Policy_Missing \<Rightarrow> ''CHARGE_POLICY_MISSING''
     | Amount_Not_Positive \<Rightarrow> ''DISTRIBUTABLE_AMOUNT_NOT_POSITIVE'')"

text \<open>An error of the initiation carries its code, its message and the action it asks for.\<close>

definition initiation_error :: "initiation_code \<Rightarrow> string \<Rightarrow> string \<Rightarrow> js_error" where
  "initiation_error c message action = Coded_Error (initiation_code_name c) message action"

definition run_kinds :: "string list" where
  "run_kinds = [''PARALLEL'', ''PRODUCTION'']"

definition kind_of :: "'a calc_request_scheme \<Rightarrow> string" where
  "kind_of r = (case cq_kind r of None \<Rightarrow> ''PARALLEL'' | Some k \<Rightarrow> k)"

definition pool_char :: "char \<Rightarrow> bool" where
  "pool_char c \<longleftrightarrow> is_upper c \<or> is_digit c \<or> c = CHR ''_'' \<or> c = CHR ''-''"

definition validate_initiation :: "initiate_request \<Rightarrow> unit res" where
  "validate_initiation r =
     (if \<not> is_uuid (cq_run r) \<or> \<not> is_uuid (cq_correlation r)
      then Inl (TypeError ''Calculation run and correlation identifiers must be UUIDs'')
      else if \<not> run_of pool_char 2 32 (cq_pool r) then Inl (TypeError ''Invalid calculation pool'')
      else if \<not> iso_shape (cq_date r) then Inl (TypeError ''Invalid calculation business date'')
      else if blank (cq_rules r) \<or> blank (cq_requester r)
      then Inl (TypeError ''Calculation rules version and requester are required'')
      else if (case cq_kind r of None \<Rightarrow> False | Some k \<Rightarrow> k \<notin> set run_kinds)
      then Inl (TypeError ''Invalid calculation run kind'')
      else (case cq_basis r of
          None \<Rightarrow> Inl (TypeError ''Calculation participant basis must be ACTIVE_SUBSCRIPTIONS'')
        | Some (type, weight) \<Rightarrow>
            if type \<noteq> ''ACTIVE_SUBSCRIPTIONS''
            then Inl (TypeError ''Calculation participant basis must be ACTIVE_SUBSCRIPTIONS'')
            else if weight \<notin> {''LATEST_POSITION'', ''SUBSCRIPTION_LEDGER_BALANCE''}
            then Inl (TypeError ''Invalid calculation participant weight basis'')
            else Inr ()))"

definition validate_request :: "'a calc_request_scheme \<Rightarrow> unit res" where
  "validate_request r =
     (if \<not> is_uuid (cq_run r) \<or> \<not> is_uuid (cq_correlation r) then Inl (TypeError ''Calculation identifiers must be UUIDs'')
      else if blank (cq_pool r) \<or> blank (cq_rules r) \<or> blank (cq_requester r)
      then Inl (TypeError ''Calculation pool, rules version and requester are required'')
      else if \<not> iso_shape (cq_date r) then Inl (TypeError ''Invalid calculation business date'')
      else if (case cq_kind r of None \<Rightarrow> False | Some k \<Rightarrow> k \<noteq> [] \<and> k \<notin> set run_kinds)
      then Inl (TypeError ''Invalid calculation run kind'')
      else Inr ())"

section \<open>The explanation of an allocation\<close>

record explanation_base =
  xb_account :: string
  xb_capital :: string
  xb_base :: string
  xb_from :: string
  xb_until :: string
  xb_weighting :: string
  xb_ratio :: string
  xb_reserves :: string
  xb_tax :: string
  xb_loss :: "string option"

record explanation_input = explanation_base +
  xi_pool_profit :: string
  xi_allocated :: string
  xi_currency :: string

record explanation =
  xo_account :: string
  xo_currency :: string
  xo_capital :: string
  xo_base :: string
  xo_from :: string
  xo_until :: string
  xo_weighting :: string
  xo_ratio :: string
  xo_pool_profit :: string
  xo_allocated :: string
  xo_reserves :: string
  xo_tax :: string
  xo_net :: string
  xo_realized :: string
  xo_distributed :: string
  xo_notice :: string
  xo_loss :: "string option"
  xo_mudarib :: string
  xo_per :: string
  xo_irr :: string
  xo_capacity :: string

text \<open>\<open>new Decimal(text)\<close> throws on a text it does not read.\<close>

definition new_decimal :: "'d decimal_lib \<Rightarrow> (string \<Rightarrow> bool) \<Rightarrow> string \<Rightarrow> 'd res" where
  "new_decimal lib reads s =
     (if reads s then Inr (of_text lib s) else Inl (Failure (''[DecimalError] Invalid argument: '' @ s)))"

definition non_guarantee_notice :: string where
  "non_guarantee_notice = ''Le capital et le rendement ne sont pas garantis.''"

definition zero_balance :: string where
  "zero_balance = ''0.000000000000''"

definition build_explanation :: "'d decimal_lib \<Rightarrow> (string \<Rightarrow> bool) \<Rightarrow> explanation_input \<Rightarrow> explanation res" where
  "build_explanation lib reads x =
     and_then (new_decimal lib reads (xb_capital x)) (\<lambda>capital.
     and_then (new_decimal lib reads (xi_allocated x)) (\<lambda>allocated.
     and_then (new_decimal lib reads (xb_tax x)) (\<lambda>tax.
     and_then (new_decimal lib reads (xb_base x)) (\<lambda>base.
     and_then (new_decimal lib reads (xi_pool_profit x)) (\<lambda>pool.
     and_then (new_decimal lib reads (xb_reserves x)) (\<lambda>reserves.
     let net = d_minus lib allocated tax;
       rate = (if d_is_zero lib capital then d_of_int lib 0
               else d_times lib (d_divided_by lib allocated capital) (d_of_int lib 100)) in
     Inr \<lparr>xo_account = xb_account x, xo_currency = xi_currency x, xo_capital = d_to_fixed lib 12 capital,
       xo_base = d_to_fixed lib 12 base, xo_from = xb_from x, xo_until = xb_until x, xo_weighting = xb_weighting x,
       xo_ratio = xb_ratio x, xo_pool_profit = d_to_fixed lib 12 pool, xo_allocated = d_to_fixed lib 12 allocated,
       xo_reserves = d_to_fixed lib 12 reserves, xo_tax = d_to_fixed lib 12 tax, xo_net = d_to_fixed lib 12 net,
       xo_realized = d_to_fixed lib 6 rate, xo_distributed = d_to_fixed lib 6 rate, xo_notice = non_guarantee_notice,
       xo_loss = xb_loss x, xo_mudarib = d_to_fixed lib 12 (d_minus lib pool allocated), xo_per = zero_balance,
       xo_irr = zero_balance, xo_capacity = zero_balance\<rparr>))))))"

text \<open>The simplified view leaves out the four fields that concern the bank.\<close>

definition explanation_fields :: "explanation \<Rightarrow> (string \<times> json) list" where
  "explanation_fields x = [(''accountId'', J_String (xo_account x)), (''currency'', J_String (xo_currency x)),
     (''capitalInvested'', J_String (xo_capital x)), (''participationBase'', J_String (xo_base x)),
     (''eligiblePeriod'', J_Object [(''from'', J_String (xo_from x)), (''to'', J_String (xo_until x))]),
     (''weighting'', J_String (xo_weighting x)), (''contractualRatio'', J_String (xo_ratio x)),
     (''poolProfit'', J_String (xo_pool_profit x)), (''allocatedShare'', J_String (xo_allocated x)),
     (''reservesUsed'', J_String (xo_reserves x)), (''taxAmount'', J_String (xo_tax x)), (''netPaid'', J_String (xo_net x)),
     (''realizedRatePercent'', J_String (xo_realized x)), (''distributedRatePercent'', J_String (xo_distributed x)),
     (''nonGuaranteedNotice'', J_String (xo_notice x)),
     (''lossExplanation'', case xo_loss x of None \<Rightarrow> J_Null | Some t \<Rightarrow> J_String t),
     (''mudaribNetShare'', J_String (xo_mudarib x)), (''perClosingBalance'', J_String (xo_per x)),
     (''irrClosingBalance'', J_String (xo_irr x)), (''lossAbsorptionCapacity'', J_String (xo_capacity x))]"

definition render_explanation :: "explanation \<Rightarrow> bool \<Rightarrow> (string \<times> json) list" where
  "render_explanation x detailed = (if detailed then explanation_fields x
     else filter (\<lambda>kv. fst kv \<notin> {''mudaribNetShare'', ''perClosingBalance'', ''irrClosingBalance'', ''lossAbsorptionCapacity''})
       (explanation_fields x))"

section \<open>The computation of a run\<close>

record calc_snapshot =
  sn_amount :: string
  sn_currency_code :: string
  sn_scale :: jsnum
  sn_source :: string
  sn_weights :: "allocation_weight list"
  sn_explanations :: "explanation_base list option"

record completed_calc =
  cc_input_checksum :: string
  cc_output_checksum :: string
  cc_allocations :: "allocation_result list"
  cc_explanations :: "explanation list"

definition weight_json :: "allocation_weight \<Rightarrow> json" where
  "weight_json w = J_Object [(''participantId'', J_String (aw_participant w)), (''weight'', J_String (aw_weight w))]"

definition base_json :: "explanation_base \<Rightarrow> json" where
  "base_json b = J_Object [(''accountId'', J_String (xb_account b)), (''capitalInvested'', J_String (xb_capital b)),
     (''participationBase'', J_String (xb_base b)), (''eligiblePeriodStart'', J_String (xb_from b)),
     (''eligiblePeriodEnd'', J_String (xb_until b)), (''weighting'', J_String (xb_weighting b)),
     (''contractualRatio'', J_String (xb_ratio b)), (''reservesUsed'', J_String (xb_reserves b)),
     (''taxAmount'', J_String (xb_tax b)),
     (''lossExplanation'', case xb_loss b of None \<Rightarrow> J_Undefined | Some t \<Rightarrow> J_String t)]"

definition snapshot_json :: "json_lib \<Rightarrow> 'a calc_request_scheme \<Rightarrow> calc_snapshot \<Rightarrow> json" where
  "snapshot_json lib r s = J_Object [(''distributableAmount'', J_String (sn_amount s)), (''currency'', J_String (sn_currency_code s)),
     (''amountScale'', J_Number (sn_scale s)), (''sourceReference'', J_String (sn_source s)),
     (''weights'', J_Array (map weight_json
        (sort_by (\<lambda>a b. locale_compare lib (aw_participant a) (aw_participant b)) (sn_weights s)))),
     (''explanationInputs'', case sn_explanations s of None \<Rightarrow> J_Undefined | Some bs \<Rightarrow> J_Array (map base_json bs)),
     (''poolId'', J_String (cq_pool r)), (''businessDate'', J_String (cq_date r)), (''rulesVersion'', J_String (cq_rules r))]"

definition allocation_json :: "allocation_result \<Rightarrow> json" where
  "allocation_json a = J_Object [(''participantId'', J_String (ar_participant a)), (''amount'', J_String (ar_amount a)),
     (''currency'', J_String (ar_currency a))]"

definition output_json :: "json_lib \<Rightarrow> allocation_result list \<Rightarrow> explanation list \<Rightarrow> json" where
  "output_json lib as xs = J_Object
     [(''allocations'', J_Array (map allocation_json
         (sort_by (\<lambda>a b. locale_compare lib (ar_participant a) (ar_participant b)) as))),
      (''explanations'', J_Array (map (\<lambda>x. J_Object (explanation_fields x))
         (sort_by (\<lambda>a b. locale_compare lib (xo_account a) (xo_account b)) xs)))]"

text \<open>Without explanation inputs each weight stands for capital and base, of the business date only.\<close>

definition default_base :: "'a calc_request_scheme \<Rightarrow> allocation_weight \<Rightarrow> explanation_base" where
  "default_base r w = \<lparr>xb_account = aw_participant w, xb_capital = aw_weight w, xb_base = aw_weight w, xb_from = cq_date r,
     xb_until = cq_date r, xb_weighting = aw_weight w, xb_ratio = ''100'', xb_reserves = ''0'', xb_tax = ''0'', xb_loss = None\<rparr>"

definition rich_inputs :: "'a calc_request_scheme \<Rightarrow> calc_snapshot \<Rightarrow> explanation_base list" where
  "rich_inputs r s = (case sn_explanations s of None \<Rightarrow> map (default_base r) (sn_weights s) | Some bs \<Rightarrow> bs)"

definition explain ::
  "'d decimal_lib \<Rightarrow> (string \<Rightarrow> bool) \<Rightarrow> calc_snapshot \<Rightarrow> explanation_base list \<Rightarrow> allocation_result \<Rightarrow> explanation res" where
  "explain lib reads s inputs a = (case find (\<lambda>b. xb_account b = ar_participant a) inputs of
     None \<Rightarrow> Inl (Failure (''Explanation input missing for '' @ ar_participant a))
   | Some b \<Rightarrow> build_explanation lib reads (explanation_base.extend b
       \<lparr>xi_pool_profit = sn_amount s, xi_allocated = ar_amount a, xi_currency = sn_currency_code s\<rparr>))"

definition calculate ::
  "'d decimal_lib \<Rightarrow> (string \<Rightarrow> bool) \<Rightarrow> json_lib \<Rightarrow> 'a calc_request_scheme \<Rightarrow> calc_snapshot \<Rightarrow> completed_calc res" where
  "calculate lib reads jl r s =
     and_then (canonical_json jl (snapshot_json jl r s)) (\<lambda>input.
     and_then (money_parse (sn_amount s) (sn_currency_code s) (sn_scale s)) (\<lambda>money.
     and_then (allocate_proportionally (locale_compare jl) money (sn_weights s)) (\<lambda>allocations.
     and_then (traverse (explain lib reads s (rich_inputs r s)) allocations) (\<lambda>explanations.
     and_then (canonical_json jl (output_json jl allocations explanations)) (\<lambda>output.
     Inr \<lparr>cc_input_checksum = sha256 jl input, cc_output_checksum = sha256 jl output, cc_allocations = allocations,
       cc_explanations = explanations\<rparr>)))))"

section \<open>The message of the worker (\<open>apps/calculation-worker/src/calculation-message-handler.ts\<close>)\<close>

definition calc_field_error :: "string \<Rightarrow> js_error" where
  "calc_field_error name = TypeError (''Invalid calculation event field: '' @ name)"

definition calc_field :: "(string \<times> json) list \<Rightarrow> string \<Rightarrow> string res" where
  "calc_field payload name = (case map_of payload name of
     Some (J_String t) \<Rightarrow> if t = [] then Inl (calc_field_error name) else Inr t
   | _ \<Rightarrow> Inl (calc_field_error name))"

definition optional_run_kind :: "json option \<Rightarrow> string option res" where
  "optional_run_kind v = (case v of None \<Rightarrow> Inr None | Some J_Undefined \<Rightarrow> Inr None
     | Some (J_String k) \<Rightarrow> if k \<in> set run_kinds then Inr (Some k) else Inl (calc_field_error ''runKind'')
     | _ \<Rightarrow> Inl (calc_field_error ''runKind''))"

definition calc_request_of :: "outbox_message \<Rightarrow> calc_request res" where
  "calc_request_of m = (let p = ms_payload m in
     and_then (calc_field p ''runId'') (\<lambda>run. and_then (calc_field p ''poolId'') (\<lambda>pool.
     and_then (calc_field p ''businessDate'') (\<lambda>date. and_then (calc_field p ''rulesVersion'') (\<lambda>rules.
     and_then (calc_field p ''requestedBy'') (\<lambda>requester. and_then (optional_run_kind (map_of p ''runKind'')) (\<lambda>kind.
     Inr \<lparr>cq_run = run, cq_pool = pool, cq_date = date, cq_rules = rules, cq_correlation = ms_correlation m,
       cq_requester = requester, cq_kind = kind\<rparr>)))))))"

section \<open>What a computation returns\<close>

lemma calculate_Inr:
  assumes "calculate lib reads jl r s = Inr c"
  obtains money where "money_parse (sn_amount s) (sn_currency_code s) (sn_scale s) = Inr money"
    "allocate_proportionally (locale_compare jl) money (sn_weights s) = Inr (cc_allocations c)"
    "traverse (explain lib reads s (rich_inputs r s)) (cc_allocations c) = Inr (cc_explanations c)"
  using assms by (auto simp: calculate_def and_then_Inr)

text \<open>A text with exactly twelve decimals is an amount of scale twelve and of no smaller one.\<close>

end
