(* ===== verification/Calculation_Store.thy ===== *)
theory Calculation_Store
  imports Calculation Subscription_Store
begin

text \<open>
  The tables of the calculation runs and the two transactions on them:
  \<open>postgres-calculation-initiation.repository.ts\<close> prepares the participants and the distributable
  amount of a pool and queues the run, \<open>postgres-calculation-execution.repository.ts\<close> loads the
  snapshot, calls the computation and stores its allocations
  (\<open>src/infrastructure/persistence\<close>).  Amounts are kept in units of \<open>10 ^ -12\<close>; the order of texts
  in the database is a parameter.
\<close>

section \<open>Tables\<close>

datatype pool_status = Pool_Active | Pool_Suspended | Pool_Closed

record pool_row =
  po_id :: string
  po_currency :: string
  po_scale :: nat
  po_status :: pool_status

record participant_row =
  pv_pool :: string
  pv_account :: string
  pv_currency :: string
  pv_weight :: int
  pv_from :: string
  pv_until :: "string option"

record distributable_row =
  dr_pool :: string
  dr_date :: string
  dr_amount :: int
  dr_currency :: string
  dr_source :: string

record position_row =
  ps_account :: string
  ps_business :: string
  ps_value :: string
  ps_created :: int
  ps_currency :: string
  ps_balance :: int

record income_row =
  ic_id :: string
  ic_pool :: string
  ic_date :: string
  ic_currency :: string
  ic_amount :: int
  ic_realized :: bool

record adjustment_row =
  aj_income :: string
  aj_amount :: int
  aj_date :: string

record charge_row =
  ch_id :: string
  ch_pool :: string
  ch_category :: string
  ch_date :: string
  ch_currency :: string
  ch_amount :: int
  ch_reference :: string

datatype charge_responsibility = Resp_Pool | Resp_Mudarib | Resp_Other

record policy_row =
  pl_category :: string
  pl_responsibility :: charge_responsibility
  pl_from :: string
  pl_until :: "string option"
  pl_version :: int

record calc_run =
  kr_id :: string
  kr_pool :: string
  kr_date :: string
  kr_rules :: string
  kr_revision :: nat
  kr_correlation :: string
  kr_maker :: "string option"
  kr_kind :: string
  kr_status :: run_status
  kr_input :: "string option"
  kr_output :: "string option"
  kr_snapshot :: "calc_snapshot option"
  kr_amount :: "int option"
  kr_currency :: "string option"

record explanation_row =
  xr_run :: string
  xr_account :: string
  xr_output :: explanation
  xr_checksum :: string

record calc_db = subscription_db +
  kd_pools :: "pool_row list"
  kd_participants :: "participant_row list"
  kd_results :: "distributable_row list"
  kd_positions :: "position_row list"
  kd_incomes :: "income_row list"
  kd_adjustments :: "adjustment_row list"
  kd_charges :: "charge_row list"
  kd_policies :: "policy_row list"
  kd_runs :: "calc_run list"
  kd_allocations :: "allocation_row list"
  kd_explanations :: "explanation_row list"

text \<open>Dates are ten characters long, so their order is that of the texts.\<close>

definition not_after :: "string \<Rightarrow> string \<Rightarrow> bool" where
  "not_after a b \<longleftrightarrow> \<not> str_less b a"

definition fit_numeric :: "rat \<Rightarrow> int res" where
  "fit_numeric q = (let u = round_away (q * 10 ^ 12) in
     if \<bar>u\<bar> < 10 ^ 30 then Inr u else Inl (Failure ''numeric field overflow''))"

section \<open>Queueing a run\<close>

datatype dispatch = Queued | Already_Queued

definition run_conflict :: "string \<Rightarrow> js_error" where
  "run_conflict message = initiation_error Run_Conflict message ''USE_EXISTING_RUN_OR_NEW_REVISION''"

text \<open>\<open>findReplay\<close>: a run of the same identifier, or the first revision of the same business basis.\<close>

definition same_run_request :: "initiate_request \<Rightarrow> calc_run \<Rightarrow> bool" where
  "same_run_request r run \<longleftrightarrow> kr_id run = cq_run r \<and> kr_pool run = cq_pool r \<and> kr_date run = cq_date r
     \<and> kr_rules run = cq_rules r \<and> kr_correlation run = cq_correlation r \<and> kr_maker run = Some (cq_requester r)
     \<and> kr_kind run = kind_of r"

definition find_queued ::
  "(string \<Rightarrow> string option) \<Rightarrow> initiate_request \<Rightarrow> 'a calc_db_scheme \<Rightarrow> (string \<times> dispatch) option res" where
  "find_queued uuid r db =
     and_then (as_uuid uuid (cq_run r)) (\<lambda>i. and_then (as_date (cq_date r)) (\<lambda>date.
     case find (\<lambda>x. kr_id x = i \<or> (kr_pool x = cq_pool r \<and> kr_date x = date \<and> kr_rules x = cq_rules r \<and> kr_revision x = 1))
         (kd_runs db) of
       None \<Rightarrow> Inr None
     | Some run \<Rightarrow>
         if \<not> same_run_request r run
         then Inl (run_conflict ''A calculation run already exists for this identifier or business basis'')
         else if kr_status run \<noteq> Run_Draft
         then Inl (run_conflict (''Calculation run cannot be queued from '' @ run_status_name (kr_status run)))
         else Inr (Some (kr_id run, Already_Queued))))"

definition load_active_pool :: "string \<Rightarrow> 'a calc_db_scheme \<Rightarrow> string res" where
  "load_active_pool pool db = (case find (\<lambda>p. po_id p = pool \<and> po_status p = Pool_Active) (kd_pools db) of
     None \<Rightarrow> Inl (initiation_error Pool_Not_Active (''Pool is missing or inactive: '' @ pool) ''ACTIVATE_POOL'')
   | Some p \<Rightarrow> Inr (po_currency p))"

subsection \<open>Participants\<close>

definition participant_valid :: "string \<Rightarrow> string \<Rightarrow> string \<Rightarrow> participant_row \<Rightarrow> bool" where
  "participant_valid pool date currency p \<longleftrightarrow> pv_pool p = pool \<and> pv_currency p = currency \<and> not_after (pv_from p) date
     \<and> (case pv_until p of None \<Rightarrow> True | Some u \<Rightarrow> str_less date u)"

text \<open>A contract that takes part on a date: active, accepted, opened and not matured.\<close>

definition contract_open :: "string \<Rightarrow> sub_row \<Rightarrow> bool" where
  "contract_open date s \<longleftrightarrow> sr_status s = Sub_Active \<and> sr_guarantee s \<and> sr_method s
     \<and> (case sr_opened s of None \<Rightarrow> False | Some d \<Rightarrow> not_after d date)
     \<and> (case sr_maturity s of None \<Rightarrow> True | Some d \<Rightarrow> not_after date d)"

definition eligible_participant :: "string \<Rightarrow> 'a calc_db_scheme \<Rightarrow> participant_row \<Rightarrow> bool" where
  "eligible_participant date db p \<longleftrightarrow> (\<exists>a\<in>set (sd_accounts db). oa_id a = pv_account p \<and> oa_status a = Oa_Active)
     \<and> (\<exists>s\<in>set (sd_rows db). sr_account s = pv_account p \<and> contract_open date s) \<and> pv_weight p > 0"

definition later_dates :: "position_row \<Rightarrow> position_row \<Rightarrow> int" where
  "later_dates a b =
     (if ps_business a \<noteq> ps_business b then if str_less (ps_business b) (ps_business a) then - 1 else 1
      else if ps_value a \<noteq> ps_value b then if str_less (ps_value b) (ps_value a) then - 1 else 1 else 0)"

definition later_position :: "position_row \<Rightarrow> position_row \<Rightarrow> int" where
  "later_position a b = (if later_dates a b \<noteq> 0 then later_dates a b
     else if ps_created b < ps_created a then - 1 else if ps_created a = ps_created b then 0 else 1)"

definition latest_balance :: "string \<Rightarrow> string \<Rightarrow> string \<Rightarrow> 'a calc_db_scheme \<Rightarrow> rat option" where
  "latest_balance account currency date db =
     (case sort_by later_position (filter (\<lambda>p. ps_account p = account \<and> ps_currency p = currency \<and> not_after (ps_business p) date)
        (kd_positions db)) of
        [] \<Rightarrow> None | p # _ \<Rightarrow> Some (of_int (ps_balance p) / 10 ^ 12))"

definition ledger_balance :: "string \<Rightarrow> string \<Rightarrow> 'a calc_db_scheme \<Rightarrow> rat res" where
  "ledger_balance account date db = ledger_sum (filter (\<lambda>e. not_after (ev_date e) date) (events_of account db))"

definition subscription_weight ::
  "string \<Rightarrow> string \<Rightarrow> sub_row \<times> operational_row \<Rightarrow> 'a calc_db_scheme \<Rightarrow> rat option res" where
  "subscription_weight basis date pair db = (let account = oa_id (snd pair) in
     if basis = ''LATEST_POSITION'' then Inr (latest_balance account (oa_currency (snd pair)) date db)
     else and_then (ledger_balance (sr_account (fst pair)) date db) (\<lambda>q. Inr (Some q)))"

definition active_pairs :: "string \<Rightarrow> string \<Rightarrow> 'a calc_db_scheme \<Rightarrow> (sub_row \<times> operational_row) list" where
  "active_pairs date currency db =
     [(s, a). s \<leftarrow> sd_rows db, a \<leftarrow> sd_accounts db, oa_id a = sr_account s \<and> contract_open date s \<and> sr_currency s = currency
        \<and> oa_status a = Oa_Active \<and> oa_currency a = sr_currency s \<and> not_after (oa_opened a) date
        \<and> (case oa_closed a of None \<Rightarrow> True | Some c \<Rightarrow> str_less date c)]"

definition positive_weights :: "(string \<times> rat option) list \<Rightarrow> (string \<times> rat) list" where
  "positive_weights ws = [(i, q). (i, Some q) \<leftarrow> ws, q > 0]"

definition load_active_subscriptions ::
  "string \<Rightarrow> string \<Rightarrow> string \<Rightarrow> 'a calc_db_scheme \<Rightarrow> (string \<times> rat) list res" where
  "load_active_subscriptions date currency basis db =
     and_then (traverse (\<lambda>pair. and_then (subscription_weight basis date pair db) (\<lambda>w. Inr (oa_id (snd pair), w)))
       (sort_by (\<lambda>x y. text_order (oa_id (snd x)) (oa_id (snd y))) (active_pairs date currency db))) (\<lambda>weighted.
     Inr (positive_weights weighted))"

definition insert_participant ::
  "string \<Rightarrow> string \<Rightarrow> string \<Rightarrow> string \<times> rat \<Rightarrow> 'a calc_db_scheme \<Rightarrow> 'a calc_db_scheme res" where
  "insert_participant pool currency date pq db =
     and_then (fit_numeric (snd pq)) (\<lambda>weight.
     if \<exists>p\<in>set (kd_participants db). pv_pool p = pool \<and> pv_account p = fst pq
         \<and> (case pv_until p of None \<Rightarrow> True | Some u \<Rightarrow> str_less date u)
     then Inl (Failure ''conflicting key value violates exclusion constraint'')
     else Inr (db\<lparr>kd_participants := kd_participants db @ [\<lparr>pv_pool = pool, pv_account = fst pq, pv_currency = currency,
       pv_weight = weight, pv_from = date, pv_until = None\<rparr>]\<rparr>))"

fun insert_participants ::
  "string \<Rightarrow> string \<Rightarrow> string \<Rightarrow> (string \<times> rat) list \<Rightarrow> 'a calc_db_scheme \<Rightarrow> 'a calc_db_scheme res" where
  "insert_participants pool currency date [] db = Inr db"
| "insert_participants pool currency date (pq # pqs) db =
     and_then (insert_participant pool currency date pq db) (insert_participants pool currency date pqs)"

definition basis_missing :: "string \<Rightarrow> js_error" where
  "basis_missing basis = initiation_error Basis_Unavailable
     (''No active accepted subscription with a positive '' @ basis @ '' weight'')
     (if basis = ''LATEST_POSITION'' then ''LOAD_INVESTMENT_POSITIONS'' else ''RECORD_SUBSCRIPTION_DEPOSITS'')"

definition prepare_participants ::
  "initiate_request \<Rightarrow> string \<Rightarrow> string \<Rightarrow> 'a calc_db_scheme \<Rightarrow> 'a calc_db_scheme res" where
  "prepare_participants r basis currency db =
     (let current = filter (participant_valid (cq_pool r) (cq_date r) currency) (kd_participants db) in
     if current \<noteq> [] then
       if \<exists>p\<in>set current. \<not> eligible_participant (cq_date r) db p
       then Inl (initiation_error Basis_Invalid ''Existing pool participants are not all active, accepted and positively weighted''
         ''REVIEW_POOL_PARTICIPANTS'')
       else Inr db
     else and_then (load_active_subscriptions (cq_date r) currency basis db) (\<lambda>participants.
       if participants = [] then Inl (basis_missing basis)
       else insert_participants (cq_pool r) currency (cq_date r) participants db))"

subsection \<open>The distributable amount\<close>

definition policy_effective :: "charge_row \<Rightarrow> policy_row \<Rightarrow> bool" where
  "policy_effective c p \<longleftrightarrow> pl_category p = ch_category c \<and> not_after (pl_from p) (ch_date c)
     \<and> (case pl_until p of None \<Rightarrow> True | Some u \<Rightarrow> not_after (ch_date c) u)"

definition charges_of :: "string \<Rightarrow> string \<Rightarrow> string \<Rightarrow> 'a calc_db_scheme \<Rightarrow> charge_row list" where
  "charges_of pool date currency db =
     filter (\<lambda>c. ch_pool c = pool \<and> ch_date c = date \<and> ch_currency c = currency) (kd_charges db)"

definition responsibility_of :: "charge_row \<Rightarrow> 'a calc_db_scheme \<Rightarrow> charge_responsibility option" where
  "responsibility_of c db =
     (case sort_by (\<lambda>p q. pl_version q - pl_version p) (filter (policy_effective c) (kd_policies db)) of
        [] \<Rightarrow> None | p # _ \<Rightarrow> Some (pl_responsibility p))"

definition incomes_of :: "string \<Rightarrow> string \<Rightarrow> string \<Rightarrow> 'a calc_db_scheme \<Rightarrow> income_row list" where
  "incomes_of pool date currency db =
     filter (\<lambda>i. ic_pool i = pool \<and> ic_date i = date \<and> ic_currency i = currency \<and> ic_realized i) (kd_incomes db)"

definition adjustments_of :: "string \<Rightarrow> income_row \<Rightarrow> 'a calc_db_scheme \<Rightarrow> adjustment_row list" where
  "adjustments_of date i db = filter (\<lambda>j. aj_income j = ic_id i \<and> not_after (aj_date j) date) (kd_adjustments db)"

definition adjusted_amount :: "string \<Rightarrow> 'a calc_db_scheme \<Rightarrow> income_row \<Rightarrow> int" where
  "adjusted_amount date db i = ic_amount i + sum_list (map aj_amount (adjustments_of date i db))"

definition income_total :: "string \<Rightarrow> string \<Rightarrow> string \<Rightarrow> 'a calc_db_scheme \<Rightarrow> int" where
  "income_total pool date currency db = sum_list (map (adjusted_amount date db) (incomes_of pool date currency db))"

definition pool_charges :: "string \<Rightarrow> string \<Rightarrow> string \<Rightarrow> 'a calc_db_scheme \<Rightarrow> charge_row list" where
  "pool_charges pool date currency db =
     filter (\<lambda>c. responsibility_of c db = Some Resp_Pool) (charges_of pool date currency db)"

definition charge_total :: "string \<Rightarrow> string \<Rightarrow> string \<Rightarrow> 'a calc_db_scheme \<Rightarrow> int" where
  "charge_total pool date currency db = sum_list (map ch_amount (pool_charges pool date currency db))"

text \<open>The text of \<open>jsonb\<close> values: a space after each comma and colon, the shorter key first.\<close>

definition jsonb_array :: "string list \<Rightarrow> string" where
  "jsonb_array ts = ''['' @ join_texts '', '' ts @ '']''"

definition responsibility_text :: "charge_responsibility option \<Rightarrow> string" where
  "responsibility_text v = (case v of None \<Rightarrow> ''null'' | Some Resp_Pool \<Rightarrow> quote_string ''POOL''
     | Some Resp_Mudarib \<Rightarrow> quote_string ''MUDARIB'' | Some Resp_Other \<Rightarrow> quote_string ''OTHER'')"

definition adjustment_text :: "string \<Rightarrow> income_row \<Rightarrow> 'a calc_db_scheme \<Rightarrow> string" where
  "adjustment_text date i db = (let js = adjustments_of date i db in
     if js = [] then ''0'' else render_units 12 (sum_list (map aj_amount js)))"

definition source_text :: "string \<Rightarrow> string \<Rightarrow> string \<Rightarrow> 'a calc_db_scheme \<Rightarrow> string" where
  "source_text pool date currency db =
     ''{'' @ quote_string ''income'' @ '': '' @ jsonb_array (map (\<lambda>i. jsonb_array [quote_string (ic_id i),
         quote_string (render_units 12 (ic_amount i)), quote_string (adjustment_text date i db)])
       (sort_by (\<lambda>a b. text_order (ic_id a) (ic_id b)) (incomes_of pool date currency db)))
     @ '', '' @ quote_string ''charges'' @ '': '' @ jsonb_array (map (\<lambda>c. jsonb_array [quote_string (ch_id c),
         quote_string (render_units 12 (ch_amount c)), responsibility_text (responsibility_of c db)])
       (sort_by (\<lambda>a b. text_order (ch_id a) (ch_id b)) (charges_of pool date currency db))) @ ''}''"

definition positive_decimal :: "string \<Rightarrow> bool" where
  "positive_decimal s \<longleftrightarrow> signed_decimal s \<noteq> None
     \<and> \<not> (s \<noteq> [] \<and> hd s = CHR ''-'')
     \<and> dropWhile (\<lambda>c. c = CHR ''0'') (filter (\<lambda>c. c \<noteq> CHR ''.'') (filter (\<lambda>c. c \<noteq> CHR ''-'') s)) \<noteq> []"

definition charge_text :: "string \<Rightarrow> string \<Rightarrow> string \<Rightarrow> 'a calc_db_scheme \<Rightarrow> string" where
  "charge_text pool date currency db =
     (if pool_charges pool date currency db = [] then ''0'' else render_units 12 (charge_total pool date currency db))"

definition compute_distributable ::
  "json_lib \<Rightarrow> string \<Rightarrow> string \<Rightarrow> string \<Rightarrow> 'a calc_db_scheme \<Rightarrow> distributable_row res" where
  "compute_distributable jl pool date currency db =
     (let text = render_units 12 (income_total pool date currency db - charge_total pool date currency db) in
     if incomes_of pool date currency db = []
     then Inl (initiation_error Income_Unavailable ''No realized recognized income exists for the pool and business date''
       ''RECOGNIZE_POOL_INCOME'')
     else if \<not> positive_decimal text
     then Inl (initiation_error Amount_Not_Positive
       (''Recognized income '' @ render_units 12 (income_total pool date currency db) @ '' minus pool charges ''
         @ charge_text pool date currency db @ '' is not positive'') ''REVIEW_RECOGNIZED_INCOME_AND_CHARGES'')
     else and_then (numeric_cast 30 12 text) (\<lambda>amount.
       Inr \<lparr>dr_pool = pool, dr_date = date, dr_amount = amount, dr_currency = currency,
         dr_source = ''REVENUE_CHARGES_SHA256:'' @ sha256 jl (source_text pool date currency db)\<rparr>))"

definition ungoverned_charges ::
  "(string \<Rightarrow> string \<Rightarrow> int) \<Rightarrow> string \<Rightarrow> string \<Rightarrow> string \<Rightarrow> 'a calc_db_scheme \<Rightarrow> string list" where
  "ungoverned_charges collate pool date currency db =
     sort_by collate (map ch_reference (filter (\<lambda>c. \<not> list_ex (policy_effective c) (kd_policies db))
       (charges_of pool date currency db)))"

definition prepare_distributable ::
  "json_lib \<Rightarrow> (string \<Rightarrow> string \<Rightarrow> int) \<Rightarrow> initiate_request \<Rightarrow> string \<Rightarrow> 'a calc_db_scheme \<Rightarrow> 'a calc_db_scheme res" where
  "prepare_distributable jl collate r currency db =
     (let pool = cq_pool r; date = cq_date r; ungoverned = ungoverned_charges collate pool date currency db in
     if \<exists>d\<in>set (kd_results db). dr_pool d = pool \<and> dr_date d = date \<and> dr_currency d = currency then Inr db
     else if ungoverned \<noteq> []
     then Inl (initiation_error Policy_Missing
       (''Charges have no effective accountability policy: '' @ join_texts '', '' ungoverned) ''CONFIGURE_CHARGE_POLICY'')
     else and_then (compute_distributable jl pool date currency db) (\<lambda>row.
       if \<exists>d\<in>set (kd_results db). dr_pool d = pool \<and> dr_date d = date then Inl unique_violation
       else Inr (db\<lparr>kd_results := kd_results db @ [row]\<rparr>)))"

subsection \<open>The run\<close>

definition insert_run ::
  "(string \<Rightarrow> string option) \<Rightarrow> 'b calc_request_scheme \<Rightarrow> 'a calc_db_scheme \<Rightarrow> 'a calc_db_scheme res" where
  "insert_run uuid r db =
     and_then (as_uuid uuid (cq_run r)) (\<lambda>i. and_then (as_date (cq_date r)) (\<lambda>date.
     and_then (as_uuid uuid (cq_correlation r)) (\<lambda>correlation.
     if cq_pool r \<notin> po_id ` set (kd_pools db) then Inl (Failure ''violates foreign key constraint'')
     else if kind_of r \<notin> set run_kinds then Inl (Failure ''violates check constraint'')
     else if \<exists>x\<in>set (kd_runs db). kr_id x = i
         \<or> (kr_pool x = cq_pool r \<and> kr_date x = date \<and> kr_rules x = cq_rules r \<and> kr_revision x = 1)
     then Inl unique_violation
     else Inr (db\<lparr>kd_runs := kd_runs db @ [\<lparr>kr_id = i, kr_pool = cq_pool r, kr_date = date, kr_rules = cq_rules r,
       kr_revision = 1, kr_correlation = correlation, kr_maker = Some (cq_requester r), kr_kind = kind_of r,
       kr_status = Run_Draft, kr_input = None, kr_output = None, kr_snapshot = None, kr_amount = None,
       kr_currency = None\<rparr>]\<rparr>))))"

definition requested_message :: "string \<times> string \<Rightarrow> string \<Rightarrow> initiate_request \<Rightarrow> outbox_message" where
  "requested_message stamp correlation r = \<lparr>ms_event_id = fst stamp, ms_event_type = ''pms.calculation.requested.v1'',
     ms_schema_version = 1, ms_aggregate_type = ''CalculationRun'', ms_aggregate_id = cq_run r, ms_correlation = correlation,
     ms_causation = None, ms_occurred_at = snd stamp,
     ms_payload = [(''runId'', J_String (cq_run r)), (''poolId'', J_String (cq_pool r)), (''businessDate'', J_String (cq_date r)),
       (''rulesVersion'', J_String (cq_rules r)), (''requestedBy'', J_String (cq_requester r)),
       (''runKind'', J_String (kind_of r))]\<rparr>"

definition insert_run_and_outbox ::
  "(string \<Rightarrow> string option) \<Rightarrow> string \<times> string \<Rightarrow> initiate_request \<Rightarrow> 'a calc_db_scheme \<Rightarrow> 'a calc_db_scheme res" where
  "insert_run_and_outbox uuid stamp r db =
     and_then (insert_run uuid r db) (\<lambda>db. and_then (as_uuid uuid (cq_correlation r)) (\<lambda>correlation.
     Inr (db\<lparr>sd_outbox := sd_outbox db @ [requested_message stamp correlation r]\<rparr>)))"

definition prepare_and_enqueue ::
  "(string \<Rightarrow> string option) \<Rightarrow> json_lib \<Rightarrow> (string \<Rightarrow> string \<Rightarrow> int) \<Rightarrow> string \<times> string \<Rightarrow> initiate_request
     \<Rightarrow> 'a calc_db_scheme \<Rightarrow> ((string \<times> dispatch) \<times> 'a calc_db_scheme) res" where
  "prepare_and_enqueue uuid jl collate stamp r db =
     and_then (find_queued uuid r db) (\<lambda>replay. case replay of
       Some result \<Rightarrow> Inr (result, db)
     | None \<Rightarrow>
         and_then (load_active_pool (cq_pool r) db) (\<lambda>currency.
         and_then (prepare_participants r (case cq_basis r of None \<Rightarrow> [] | Some b \<Rightarrow> snd b) currency db) (\<lambda>db1.
         and_then (prepare_distributable jl collate r currency db1) (\<lambda>db2.
         and_then (insert_run_and_outbox uuid stamp r db2) (\<lambda>db3. Inr ((cq_run r, Queued), db3))))))"

definition initiate_calculation ::
  "(string \<Rightarrow> string option) \<Rightarrow> json_lib \<Rightarrow> (string \<Rightarrow> string \<Rightarrow> int) \<Rightarrow> string \<times> string \<Rightarrow> initiate_request
     \<Rightarrow> ('a calc_db_scheme, string \<times> dispatch) action" where
  "initiate_calculation uuid jl collate stamp r =
     and_do (lift_res (validate_initiation r)) (\<lambda>_. transaction (prepare_and_enqueue uuid jl collate stamp r))"

section \<open>Executing a run\<close>

datatype execution = Calculated_Now | Already_Calculated

definition valid_participants :: "calc_request \<Rightarrow> string \<Rightarrow> 'a calc_db_scheme \<Rightarrow> participant_row list" where
  "valid_participants r currency db = sort_by (\<lambda>a b. text_order (pv_account a) (pv_account b))
     (filter (\<lambda>p. participant_valid (cq_pool r) (cq_date r) currency p
        \<and> (\<exists>a\<in>set (sd_accounts db). oa_id a = pv_account p \<and> oa_currency a = pv_currency p \<and> oa_status a = Oa_Active))
       (kd_participants db))"

definition latest_position_text :: "string \<Rightarrow> string \<Rightarrow> 'a calc_db_scheme \<Rightarrow> string" where
  "latest_position_text account date db =
     (case sort_by later_dates (filter (\<lambda>p. ps_account p = account \<and> not_after (ps_business p) date) (kd_positions db)) of
        [] \<Rightarrow> ''0'' | p # _ \<Rightarrow> render_units 12 (ps_balance p))"

definition contractual_ratio :: "string \<Rightarrow> 'a calc_db_scheme \<Rightarrow> string" where
  "contractual_ratio account db = (case find (\<lambda>s. sr_account s = account) (sd_rows db) of
     None \<Rightarrow> ''100'' | Some s \<Rightarrow> render_units 6 (sr_investor s))"

definition participant_base :: "calc_request \<Rightarrow> 'a calc_db_scheme \<Rightarrow> participant_row \<Rightarrow> explanation_base" where
  "participant_base r db p = (let weight = render_units 12 (pv_weight p) in
     \<lparr>xb_account = pv_account p, xb_capital = latest_position_text (pv_account p) (cq_date r) db, xb_base = weight,
      xb_from = pv_from p, xb_until = (case pv_until p of None \<Rightarrow> cq_date r | Some u \<Rightarrow> u), xb_weighting = weight,
      xb_ratio = contractual_ratio (pv_account p) db, xb_reserves = ''0'', xb_tax = ''0'', xb_loss = None\<rparr>)"

definition load_snapshot :: "calc_request \<Rightarrow> 'a calc_db_scheme \<Rightarrow> calc_snapshot res" where
  "load_snapshot r db =
     (case [(d, p). d \<leftarrow> kd_results db, p \<leftarrow> kd_pools db, po_id p = dr_pool d \<and> po_status p = Pool_Active
        \<and> dr_pool d = cq_pool r \<and> dr_date d = cq_date r] of
       [] \<Rightarrow> Inl (Failure ''No active pool distributable result for calculation'')
     | (d, p) # _ \<Rightarrow> (let ps = valid_participants r (dr_currency d) db in
         Inr \<lparr>sn_amount = render_units 12 (dr_amount d), sn_currency_code = dr_currency d, sn_scale = of_js (int (po_scale p)),
           sn_source = dr_source d,
           sn_weights = map (\<lambda>p. \<lparr>aw_participant = pv_account p, aw_weight = render_units 12 (pv_weight p)\<rparr>) ps,
           sn_explanations = Some (map (participant_base r db) ps)\<rparr>))"

definition insert_allocation ::
  "(string \<Rightarrow> string option) \<Rightarrow> string \<Rightarrow> allocation_result \<Rightarrow> 'a calc_db_scheme \<Rightarrow> 'a calc_db_scheme res" where
  "insert_allocation uuid run a db =
     and_then (as_uuid uuid (ar_participant a)) (\<lambda>participant. and_then (numeric_cast 30 12 (ar_amount a)) (\<lambda>amount.
     if \<exists>x\<in>set (kd_allocations db). al_run x = run \<and> al_participant x = participant then Inl unique_violation
     else Inr (db\<lparr>kd_allocations := kd_allocations db @ [\<lparr>al_run = run, al_participant = participant, al_amount = amount,
       al_currency = ar_currency a\<rparr>]\<rparr>)))"

definition insert_explanation ::
  "(string \<Rightarrow> string option) \<Rightarrow> string \<Rightarrow> string \<Rightarrow> explanation \<Rightarrow> 'a calc_db_scheme \<Rightarrow> 'a calc_db_scheme res" where
  "insert_explanation uuid run checksum x db =
     and_then (as_uuid uuid (xo_account x)) (\<lambda>account.
     if \<exists>y\<in>set (kd_explanations db). xr_run y = run \<and> xr_account y = account then Inl unique_violation
     else Inr (db\<lparr>kd_explanations := kd_explanations db @ [\<lparr>xr_run = run, xr_account = account, xr_output = x,
       xr_checksum = checksum\<rparr>]\<rparr>))"

fun insert_all :: "('b \<Rightarrow> 's \<Rightarrow> 's res) \<Rightarrow> 'b list \<Rightarrow> 's \<Rightarrow> 's res" where
  "insert_all f [] db = Inr db"
| "insert_all f (x # xs) db = and_then (f x db) (insert_all f xs)"

text \<open>The check the database makes on the stored allocations: their sum and their currency.\<close>

definition conserved :: "string \<Rightarrow> calc_snapshot \<Rightarrow> 'a calc_db_scheme \<Rightarrow> bool" where
  "conserved run s db = (let as = filter (\<lambda>a. al_run a = run) (kd_allocations db) in
     decimal_value (sn_amount s) = Some (of_int (sum_list (map al_amount as)) / 10 ^ 12)
     \<and> as \<noteq> [] \<and> list_all (\<lambda>a. al_currency a = sn_currency_code s) as)"

definition complete_run ::
  "string \<Rightarrow> calc_snapshot \<Rightarrow> completed_calc \<Rightarrow> int \<Rightarrow> calc_run \<Rightarrow> calc_run" where
  "complete_run run s c amount x =
     (if kr_id x = run \<and> kr_status x = Run_Draft
      then x\<lparr>kr_status := Run_Calculated, kr_input := Some (cc_input_checksum c), kr_output := Some (cc_output_checksum c),
        kr_snapshot := Some s, kr_amount := Some amount, kr_currency := Some (sn_currency_code s)\<rparr>
      else x)"

definition store_calculation ::
  "(string \<Rightarrow> string option) \<Rightarrow> string \<Rightarrow> calc_snapshot \<Rightarrow> completed_calc \<Rightarrow> 'a calc_db_scheme \<Rightarrow> 'a calc_db_scheme res" where
  "store_calculation uuid run s c db =
     and_then (insert_all (insert_allocation uuid run) (cc_allocations c) db) (\<lambda>db1.
     and_then (insert_all (insert_explanation uuid run (cc_output_checksum c)) (cc_explanations c) db1) (\<lambda>db2.
     if \<not> conserved run s db2 then Inl (Failure ''Calculation conservation invariant failed'')
     else and_then (numeric_cast 30 12 (sn_amount s)) (\<lambda>amount.
       Inr (db2\<lparr>kd_runs := map (complete_run run s c amount) (kd_runs db2)\<rparr>))))"

definition same_run_inputs :: "calc_request \<Rightarrow> calc_run \<Rightarrow> bool" where
  "same_run_inputs r run \<longleftrightarrow> kr_pool run = cq_pool r \<and> kr_date run = cq_date r \<and> kr_rules run = cq_rules r
     \<and> kr_maker run = Some (cq_requester r) \<and> kr_kind run = kind_of r"

definition run_from_draft ::
  "(string \<Rightarrow> string option) \<Rightarrow> (calc_snapshot \<Rightarrow> completed_calc res) \<Rightarrow> string \<Rightarrow> calc_request
     \<Rightarrow> 'a calc_db_scheme \<Rightarrow> ((execution \<times> string) \<times> 'a calc_db_scheme) res" where
  "run_from_draft uuid compute run r db =
     and_then (load_snapshot r db) (\<lambda>s. and_then (compute s) (\<lambda>c.
     and_then (store_calculation uuid run s c db) (\<lambda>db1. Inr ((Calculated_Now, cc_output_checksum c), db1))))"

definition execute_calculation_atomically ::
  "(string \<Rightarrow> string option) \<Rightarrow> (calc_snapshot \<Rightarrow> completed_calc res) \<Rightarrow> calc_request
     \<Rightarrow> 'a calc_db_scheme \<Rightarrow> ((execution \<times> string) \<times> 'a calc_db_scheme) res" where
  "execute_calculation_atomically uuid compute r db =
     and_then (as_uuid uuid (cq_run r)) (\<lambda>i. case find (\<lambda>x. kr_id x = i) (kd_runs db) of
       None \<Rightarrow> and_then (insert_run uuid r db) (run_from_draft uuid compute i r)
     | Some run \<Rightarrow>
         if \<not> same_run_inputs r run then Inl (Failure ''Calculation run identifier conflicts with different inputs'')
         else if kr_status run = Run_Calculated \<and> truthy (kr_output run)
         then Inr ((Already_Calculated, or_empty (kr_output run)), db)
         else if kr_status run \<noteq> Run_Draft
         then Inl (Failure (''Calculation run cannot execute from '' @ run_status_name (kr_status run)))
         else run_from_draft uuid compute i r db)"

definition execute_calculation ::
  "(string \<Rightarrow> string option) \<Rightarrow> 'd decimal_lib \<Rightarrow> (string \<Rightarrow> bool) \<Rightarrow> json_lib \<Rightarrow> calc_request
     \<Rightarrow> ('a calc_db_scheme, execution \<times> string) action" where
  "execute_calculation uuid lib reads jl r =
     and_do (lift_res (validate_request r)) (\<lambda>_.
       transaction (execute_calculation_atomically uuid (calculate lib reads jl r) r))"

text \<open>The effect of a message in the calculation worker; its inbox is the one of every consumer.\<close>

definition calculation_effect ::
  "(string \<Rightarrow> string option) \<Rightarrow> 'd decimal_lib \<Rightarrow> (string \<Rightarrow> bool) \<Rightarrow> json_lib \<Rightarrow> outbox_message
     \<Rightarrow> ('a calc_db_scheme, string option) action" where
  "calculation_effect uuid lib reads jl m =
     and_do (lift_res (calc_request_of m)) (\<lambda>r. and_do (execute_calculation uuid lib reads jl r) (\<lambda>result.
       give (Some (snd result))))"

end
