(* ===== verification/Calculation_Correct.thy ===== *)
theory Calculation_Correct
  imports Calculation_Store
begin

text \<open>
  What the calculation tables keep: a run leaves its draft state only with allocations that add up
  to exactly its amount and an explanation for each of them; what a queued run finds prepared; and
  the conditions under which a run can be calculated at all.
\<close>

section \<open>What the initiation writes\<close>

lemma insert_participants_Inr:
  assumes "insert_participants pool currency date pqs db = Inr db'"
  shows "\<exists>ps. db' = db\<lparr>kd_participants := kd_participants db @ ps\<rparr> \<and> map pv_account ps = map fst pqs
     \<and> list_all2 (\<lambda>p pq. participant_valid pool date currency p \<and> fit_numeric (snd pq) = Inr (pv_weight p)) ps pqs"
  using assms
proof (induction pqs arbitrary: db)
  case Nil
  then show ?case by simp
next
  case (Cons pq pqs)
  from Cons.prems obtain db1 where first: "insert_participant pool currency date pq db = Inr db1"
    and rest: "insert_participants pool currency date pqs db1 = Inr db'" by (auto simp: and_then_Inr)
  from first obtain w where w: "fit_numeric (snd pq) = Inr w" and db1: "db1 = db\<lparr>kd_participants := kd_participants db @
      [\<lparr>pv_pool = pool, pv_account = fst pq, pv_currency = currency, pv_weight = w, pv_from = date, pv_until = None\<rparr>]\<rparr>"
    by (auto simp: insert_participant_def and_then_Inr split: if_splits)
  from Cons.IH [OF rest] obtain ps where ps: "db' = db1\<lparr>kd_participants := kd_participants db1 @ ps\<rparr>"
    "map pv_account ps = map fst pqs"
    "list_all2 (\<lambda>p pq. participant_valid pool date currency p \<and> fit_numeric (snd pq) = Inr (pv_weight p)) ps pqs" by blast
  let ?p = "\<lparr>pv_pool = pool, pv_account = fst pq, pv_currency = currency, pv_weight = w, pv_from = date, pv_until = None\<rparr>"
  have "participant_valid pool date currency ?p" by (simp add: participant_valid_def not_after_def)
  with ps w show ?case by (intro exI [where x = "?p # ps"]) (simp add: db1)
qed

text \<open>The account and the contract behind a participant.\<close>

definition takes_part :: "string \<Rightarrow> 'a calc_db_scheme \<Rightarrow> string \<Rightarrow> bool" where
  "takes_part date db i \<longleftrightarrow> (\<exists>a\<in>set (sd_accounts db). oa_id a = i \<and> oa_status a = Oa_Active)
     \<and> (\<exists>s\<in>set (sd_rows db). sr_account s = i \<and> contract_open date s)"

lemma eligible_takes_part: "eligible_participant date db p \<longleftrightarrow> takes_part date db (pv_account p) \<and> pv_weight p > 0"
  by (auto simp: eligible_participant_def takes_part_def)

lemma traverse_mem: "traverse f xs = Inr ys \<Longrightarrow> y \<in> set ys \<Longrightarrow> \<exists>x\<in>set xs. f x = Inr y"
  by (induction xs arbitrary: ys) (auto simp: and_then_Inr)

lemma positive_weights_mem: "(i, q) \<in> set (positive_weights ws) \<longleftrightarrow> (i, Some q) \<in> set ws \<and> 0 < q"
  by (induction ws) (auto simp: positive_weights_def split: option.splits)

lemma active_pairs_take_part: "pair \<in> set (active_pairs date currency db) \<Longrightarrow> takes_part date db (oa_id (snd pair))"
  by (cases pair) (auto simp: active_pairs_def takes_part_def split: if_splits)

lemma load_active_Inr:
  assumes "load_active_subscriptions date currency basis db = Inr ps" "(i, q) \<in> set ps"
  shows "takes_part date db i \<and> 0 < q \<and> (basis = ''LATEST_POSITION'' \<longrightarrow> (\<exists>b. q = of_int b / 10 ^ 12))"
proof -
  let ?pairs = "sort_by (\<lambda>x y. text_order (oa_id (snd x)) (oa_id (snd y))) (active_pairs date currency db)"
  let ?f = "\<lambda>pair. and_then (subscription_weight basis date pair db) (\<lambda>w. Inr (oa_id (snd pair), w))"
  from assms(1) obtain weighted where w: "traverse ?f ?pairs = Inr weighted" and ps: "ps = positive_weights weighted"
    unfolding load_active_subscriptions_def and_then_Inr by blast
  from assms(2) have mem: "(i, Some q) \<in> set weighted" "0 < q" by (simp_all add: ps positive_weights_mem)
  from traverse_mem [OF w mem(1)] obtain pair where pair: "pair \<in> set ?pairs" "?f pair = Inr (i, Some q)" by blast
  from pair(1) have "takes_part date db (oa_id (snd pair))" by (simp add: active_pairs_take_part)
  moreover from pair(2) have "oa_id (snd pair) = i" "subscription_weight basis date pair db = Inr (Some q)"
    by (auto simp: and_then_Inr)
  ultimately show ?thesis using mem(2)
    by (auto simp: subscription_weight_def Let_def latest_balance_def split: list.splits) metis
qed

lemma fit_numeric_pos:
  assumes "fit_numeric q = Inr u" "0 < q"
  shows "0 \<le> u" "q = of_int b / 10 ^ 12 \<Longrightarrow> u = b"
proof -
  from assms(1) have u: "u = round_away (q * 10 ^ 12)" by (auto simp: fit_numeric_def Let_def split: if_splits)
  with assms(2) show "0 \<le> u" by (simp add: round_away_def)
  assume "q = of_int b / 10 ^ 12"
  then have "q * 10 ^ 12 = of_int b" by simp
  with u show "u = b" by (simp only: round_away_of_int)
qed

lemma prepare_participants_Inr:
  assumes run: "prepare_participants r basis currency db = Inr db'"
  defines "current d \<equiv> filter (participant_valid (cq_pool r) (cq_date r) currency) (kd_participants d)"
  shows "\<exists>ps. db' = db\<lparr>kd_participants := kd_participants db @ ps\<rparr>" "current db' \<noteq> []"
    "\<forall>p\<in>set (current db'). takes_part (cq_date r) db (pv_account p) \<and> 0 \<le> pv_weight p
       \<and> (current db \<noteq> [] \<or> basis = ''LATEST_POSITION'' \<longrightarrow> 0 < pv_weight p)"
proof -
  show "\<exists>ps. db' = db\<lparr>kd_participants := kd_participants db @ ps\<rparr>" "current db' \<noteq> []"
    "\<forall>p\<in>set (current db'). takes_part (cq_date r) db (pv_account p) \<and> 0 \<le> pv_weight p
       \<and> (current db \<noteq> [] \<or> basis = ''LATEST_POSITION'' \<longrightarrow> 0 < pv_weight p)"
  proof (atomize (full), cases "current db = []")
    case False
    with run have "db' = db" and all: "\<forall>p\<in>set (current db). eligible_participant (cq_date r) db p"
      by (auto simp: prepare_participants_def current_def Let_def split: if_splits)
    moreover have "\<exists>ps. db = db\<lparr>kd_participants := kd_participants db @ ps\<rparr>" by (rule exI [where x = "[]"]) simp
    ultimately show "(\<exists>ps. db' = db\<lparr>kd_participants := kd_participants db @ ps\<rparr>) \<and> current db' \<noteq> [] \<and>
      (\<forall>p\<in>set (current db'). takes_part (cq_date r) db (pv_account p) \<and> 0 \<le> pv_weight p
       \<and> (current db \<noteq> [] \<or> basis = ''LATEST_POSITION'' \<longrightarrow> 0 < pv_weight p))"
      using False by (auto simp: eligible_takes_part)
  next
    case True
    then have none: "filter (participant_valid (cq_pool r) (cq_date r) currency) (kd_participants db) = []"
      by (simp add: current_def)
    with run obtain pqs where pqs: "load_active_subscriptions (cq_date r) currency basis db = Inr pqs" "pqs \<noteq> []"
      and ins: "insert_participants (cq_pool r) currency (cq_date r) pqs db = Inr db'"
      by (auto simp: prepare_participants_def and_then_Inr Let_def split: if_splits)
    from insert_participants_Inr [OF ins] obtain ps where db': "db' = db\<lparr>kd_participants := kd_participants db @ ps\<rparr>"
      and accounts: "map pv_account ps = map fst pqs" and two: "list_all2 (\<lambda>p pq. participant_valid (cq_pool r) (cq_date r) currency p
        \<and> fit_numeric (snd pq) = Inr (pv_weight p)) ps pqs" by blast
    have valid: "participant_valid (cq_pool r) (cq_date r) currency p \<and> (\<exists>q. (pv_account p, q) \<in> set pqs \<and> fit_numeric q = Inr (pv_weight p))"
      if p: "p \<in> set ps" for p
    proof -
      from p obtain k where k: "k < length ps" "ps ! k = p" by (auto simp: in_set_conv_nth)
      have len: "length ps = length pqs" using two by (rule list_all2_lengthD)
      have "pv_account p = fst (pqs ! k)" using accounts k len by (metis nth_map)
      moreover have "pqs ! k \<in> set pqs" using k len by simp
      moreover have "participant_valid (cq_pool r) (cq_date r) currency p" "fit_numeric (snd (pqs ! k)) = Inr (pv_weight p)"
        using list_all2_nthD [OF two k(1)] k(2) by auto
      ultimately show ?thesis by (metis prod.collapse)
    qed
    then have cur: "current db' = ps" using none by (simp add: current_def db' filter_True)
    have "ps \<noteq> []" using accounts pqs(2) by auto
    moreover have "takes_part (cq_date r) db (pv_account p) \<and> 0 \<le> pv_weight p \<and> (basis = ''LATEST_POSITION'' \<longrightarrow> 0 < pv_weight p)"
      if p: "p \<in> set ps" for p
    proof -
      from valid [OF p] obtain q where q: "(pv_account p, q) \<in> set pqs" "fit_numeric q = Inr (pv_weight p)" by blast
      note load = load_active_Inr [OF pqs(1) q(1)]
      have "0 < pv_weight p" if "basis = ''LATEST_POSITION''"
      proof -
        from load that obtain b where b: "q = of_int b / 10 ^ 12" by blast
        with load have "0 < b" by (simp add: zero_less_divide_iff)
        with fit_numeric_pos(2) [OF q(2) _ b] load show ?thesis by simp
      qed
      with load fit_numeric_pos(1) [OF q(2)] show ?thesis by blast
    qed
    ultimately show "(\<exists>ps. db' = db\<lparr>kd_participants := kd_participants db @ ps\<rparr>) \<and> current db' \<noteq> [] \<and>
      (\<forall>p\<in>set (current db'). takes_part (cq_date r) db (pv_account p) \<and> 0 \<le> pv_weight p
       \<and> (current db \<noteq> [] \<or> basis = ''LATEST_POSITION'' \<longrightarrow> 0 < pv_weight p))"
      using True db' unfolding cur by blast
  qed
qed

text \<open>A printed amount is positive exactly when its units are.\<close>

lemma zero_digits: "list_all is_digit t \<Longrightarrow> dropWhile (\<lambda>c. c = CHR ''0'') t = [] \<longleftrightarrow> nat_of_digits t = 0"
proof (induction t)
  case (Cons c t)
  have "digit_val c = 0 \<longleftrightarrow> c = CHR ''0''" using Cons.prems digit_char_digit_val [of c] by (auto simp: digit_char_def)
  with Cons show ?case by (simp add: nat_of_digits_Cons)
qed simp

lemma positive_decimal_render: "positive_decimal (render_units 12 u) \<longleftrightarrow> 0 < u"
proof (cases "u < 0")
  case True
  then show ?thesis by (simp add: positive_decimal_def render_units_def Let_def)
next
  case False
  let ?p = "padded_digits 12 (nat u)"
  have digits: "list_all is_digit ?p" by simp
  then have keep: "filter (\<lambda>c. c \<noteq> d) ?p = ?p" if "d \<in> {CHR ''.'', CHR ''-''}" for d
    using that by (intro filter_True) (auto simp: list_all_iff is_digit_def between_def)
  have r: "render_units 12 u = drop_last 12 ?p @ CHR ''.'' # last_chars 12 ?p"
    using False by (simp add: render_units_def render_nat_def Let_def padded_digits_def)
  have split: "drop_last 12 ?p @ last_chars 12 ?p = ?p" by (simp add: drop_last_def last_chars_def)
  have both: "filter (\<lambda>c. c \<noteq> d) (drop_last 12 ?p) = drop_last 12 ?p \<and> filter (\<lambda>c. c \<noteq> d) (last_chars 12 ?p) = last_chars 12 ?p"
    if "d \<in> {CHR ''.'', CHR ''-''}" for d
  proof -
    have "\<forall>c\<in>set (drop_last 12 ?p @ last_chars 12 ?p). c \<noteq> d" unfolding split using keep [OF that] by (simp add: filter_id_conv)
    then show ?thesis by (simp add: filter_id_conv)
  qed
  have "filter (\<lambda>c. c \<noteq> CHR ''.'') (filter (\<lambda>c. c \<noteq> CHR ''-'') (render_units 12 u)) = drop_last 12 ?p @ last_chars 12 ?p"
    using both [of "CHR ''.''"] both [of "CHR ''-''"] unfolding r by simp
  then have "filter (\<lambda>c. c \<noteq> CHR ''.'') (filter (\<lambda>c. c \<noteq> CHR ''-'') (render_units 12 u)) = ?p" unfolding split .
  moreover have u: "unsigned_decimal (render_units 12 u) = Some (drop_last 12 ?p, Some (last_chars 12 ?p))"
    using unsigned_decimal_render_nat [of 12 "nat u"] False by (simp add: render_units_def Let_def)
  moreover have "signed_decimal (render_units 12 u) \<noteq> None" using signed_decimal_unsigned [OF u] by simp
  moreover have "\<not> (render_units 12 u \<noteq> [] \<and> hd (render_units 12 u) = CHR ''-'')"
    using unsigned_decimal_no_minus [OF u] by auto
  ultimately show ?thesis using False zero_digits [OF digits] by (simp add: positive_decimal_def) arith
qed


lemma numeric_cast_render: "numeric_cast 30 12 (render_units 12 u) = Inr v \<Longrightarrow> v = u \<and> \<bar>u\<bar> < 10 ^ 30"
  by (simp add: numeric_cast_def Let_def round_away_of_int split: if_splits)

lemma compute_distributable_Inr:
  assumes "compute_distributable jl pool date currency db = Inr row"
  shows "incomes_of pool date currency db \<noteq> []" "0 < dr_amount row"
    "dr_amount row = income_total pool date currency db - charge_total pool date currency db"
    "dr_pool row = pool" "dr_date row = date" "dr_currency row = currency"
proof -
  let ?u = "income_total pool date currency db - charge_total pool date currency db"
  from assms obtain a where a: "incomes_of pool date currency db \<noteq> []" "positive_decimal (render_units 12 ?u)"
    "numeric_cast 30 12 (render_units 12 ?u) = Inr a" and row: "dr_amount row = a" "dr_pool row = pool" "dr_date row = date"
      "dr_currency row = currency"
    unfolding compute_distributable_def Let_def by (auto simp: and_then_Inr split: if_splits)
  from numeric_cast_render [OF a(3)] have "a = ?u" by simp
  with a(1,2) row show "incomes_of pool date currency db \<noteq> []" "0 < dr_amount row" "dr_amount row = ?u"
    "dr_pool row = pool" "dr_date row = date" "dr_currency row = currency" by (simp_all add: positive_decimal_render)
qed

lemma ungoverned_Nil:
  assumes "ungoverned_charges collate pool date currency db = []" "c \<in> set (charges_of pool date currency db)"
  shows "responsibility_of c db \<noteq> None"
proof -
  from assms(1) have "length (ungoverned_charges collate pool date currency db) = 0" by simp
  then have "filter (\<lambda>c. \<not> list_ex (policy_effective c) (kd_policies db)) (charges_of pool date currency db) = []"
    by (simp only: ungoverned_charges_def length_sort_by length_map length_0_conv)
  with assms(2) have "list_ex (policy_effective c) (kd_policies db)" by (simp add: filter_empty_conv)
  then have "filter (policy_effective c) (kd_policies db) \<noteq> []" by (auto simp: list_ex_iff filter_empty_conv)
  then have "sort_by (\<lambda>p q. pl_version q - pl_version p) (filter (policy_effective c) (kd_policies db)) \<noteq> []"
    by (metis length_sort_by length_0_conv)
  then show ?thesis unfolding responsibility_of_def by (simp split: list.splits)
qed

lemma prepare_distributable_Inr:
  assumes "prepare_distributable jl collate r currency db = Inr db'"
  defines "key d \<equiv> dr_pool d = cq_pool r \<and> dr_date d = cq_date r"
  shows "\<exists>ds. db' = db\<lparr>kd_results := kd_results db @ ds\<rparr>
      \<and> (ds = [] \<and> (\<exists>d\<in>set (kd_results db). key d \<and> dr_currency d = currency)
         \<or> (\<exists>d. ds = [d] \<and> (\<forall>e\<in>set (kd_results db). \<not> key e) \<and> key d \<and> dr_currency d = currency \<and> 0 < dr_amount d
            \<and> dr_amount d = income_total (cq_pool r) (cq_date r) currency db - charge_total (cq_pool r) (cq_date r) currency db
            \<and> (\<forall>c\<in>set (charges_of (cq_pool r) (cq_date r) currency db). responsibility_of c db \<noteq> None)))"
proof (cases "\<exists>d\<in>set (kd_results db). dr_pool d = cq_pool r \<and> dr_date d = cq_date r \<and> dr_currency d = currency")
  case True
  with assms(1) have "db' = db" by (simp add: prepare_distributable_def Let_def)
  with True show ?thesis by (intro exI [where x = "[]"]) (auto simp: key_def)
next
  case False
  with assms(1) obtain row where none: "ungoverned_charges collate (cq_pool r) (cq_date r) currency db = []"
    and row: "compute_distributable jl (cq_pool r) (cq_date r) currency db = Inr row"
    and new: "\<not> (\<exists>d\<in>set (kd_results db). dr_pool d = cq_pool r \<and> dr_date d = cq_date r)"
    and db': "db' = db\<lparr>kd_results := kd_results db @ [row]\<rparr>"
    unfolding prepare_distributable_def Let_def by (auto simp: and_then_Inr split: if_splits)
  from compute_distributable_Inr [OF row] ungoverned_Nil [OF none] new db' show ?thesis
    by (intro exI [where x = "[row]"]) (auto simp: key_def)
qed

lemma insert_run_Inr:
  assumes "insert_run uuid r db = Inr db'"
  obtains i c where "uuid (cq_run r) = Some i" "uuid (cq_correlation r) = Some c" "calendar_date (cq_date r)"
    "i \<notin> kr_id ` set (kd_runs db)"
    "db' = db\<lparr>kd_runs := kd_runs db @ [\<lparr>kr_id = i, kr_pool = cq_pool r, kr_date = cq_date r, kr_rules = cq_rules r,
       kr_revision = 1, kr_correlation = c, kr_maker = Some (cq_requester r), kr_kind = kind_of r, kr_status = Run_Draft,
       kr_input = None, kr_output = None, kr_snapshot = None, kr_amount = None, kr_currency = None\<rparr>]\<rparr>"
  using assms by (auto simp: insert_run_def and_then_Inr as_simps split: if_splits)

text \<open>A request that was queued for the first time.\<close>

lemma prepare_and_enqueue_Inr:
  assumes "prepare_and_enqueue uuid jl collate stamp r db = Inr (result, db')"
  obtains (replay) "db' = db" "snd result = Already_Queued"
  | (queued) currency db1 db2 db3 c where "result = (cq_run r, Queued)" "load_active_pool (cq_pool r) db = Inr currency"
    "prepare_participants r (case cq_basis r of None \<Rightarrow> [] | Some b \<Rightarrow> snd b) currency db = Inr db1"
    "prepare_distributable jl collate r currency db1 = Inr db2" "insert_run uuid r db2 = Inr db3"
    "uuid (cq_correlation r) = Some c" "db' = db3\<lparr>sd_outbox := sd_outbox db3 @ [requested_message stamp c r]\<rparr>"
proof (cases "find_queued uuid r db")
  case (Inr replay)
  show ?thesis
  proof (cases replay)
    case None
    with Inr assms show ?thesis
      by (auto simp: prepare_and_enqueue_def insert_run_and_outbox_def and_then_Inr as_simps intro: queued)
  next
    case (Some x)
    with Inr assms have "db' = db" "result = x" by (simp_all add: prepare_and_enqueue_def)
    moreover have "snd x = Already_Queued" using Inr Some
      by (auto simp: find_queued_def and_then_Inr split: option.splits if_splits)
    ultimately show ?thesis by (intro replay) simp_all
  qed
qed (use assms in \<open>simp add: prepare_and_enqueue_def\<close>)

section \<open>The invariant of the runs\<close>

definition run_allocations :: "string \<Rightarrow> 'a calc_db_scheme \<Rightarrow> allocation_row list" where
  "run_allocations i db = filter (\<lambda>a. al_run a = i) (kd_allocations db)"

definition run_explanations :: "string \<Rightarrow> 'a calc_db_scheme \<Rightarrow> explanation_row list" where
  "run_explanations i db = filter (\<lambda>x. xr_run x = i) (kd_explanations db)"

text \<open>
  What the tables hold of a calculated run: its allocations name the participants of its snapshot,
  each once, in its currency, add up to exactly its amount, and each has an explanation.
\<close>

definition run_complete :: "(string \<Rightarrow> string option) \<Rightarrow> 'a calc_db_scheme \<Rightarrow> calc_run \<Rightarrow> bool" where
  "run_complete uuid db x \<longleftrightarrow> (\<exists>s u. kr_snapshot x = Some s \<and> kr_amount x = Some u \<and> kr_currency x = Some (sn_currency_code s)
     \<and> (let as = run_allocations (kr_id x) db in
         as \<noteq> [] \<and> sum_list (map al_amount as) = u \<and> decimal_value (sn_amount s) = Some (of_int u / 10 ^ 12)
       \<and> distinct (map al_participant as) \<and> list_all (\<lambda>a. al_currency a = sn_currency_code s) as
       \<and> map (\<lambda>w. uuid (aw_participant w)) (sn_weights s) = map (\<lambda>a. Some (al_participant a)) as
       \<and> map xr_account (run_explanations (kr_id x) db) = map al_participant as))"

definition run_ok :: "(string \<Rightarrow> string option) \<Rightarrow> 'a calc_db_scheme \<Rightarrow> calc_run \<Rightarrow> bool" where
  "run_ok uuid db x \<longleftrightarrow> (if kr_status x = Run_Draft then run_allocations (kr_id x) db = [] \<and> run_explanations (kr_id x) db = []
     else run_complete uuid db x)"

definition calc_inv :: "(string \<Rightarrow> string option) \<Rightarrow> 'a calc_db_scheme \<Rightarrow> bool" where
  "calc_inv uuid db \<longleftrightarrow> distinct (map kr_id (kd_runs db)) \<and> al_run ` set (kd_allocations db) \<subseteq> kr_id ` set (kd_runs db)
     \<and> xr_run ` set (kd_explanations db) \<subseteq> kr_id ` set (kd_runs db) \<and> (\<forall>x\<in>set (kd_runs db). run_ok uuid db x)"

definition same_calculations :: "'a calc_db_scheme \<Rightarrow> 'b calc_db_scheme \<Rightarrow> bool" where
  "same_calculations a b \<longleftrightarrow> kd_runs b = kd_runs a \<and> kd_allocations b = kd_allocations a \<and> kd_explanations b = kd_explanations a"

lemma run_ok_same:
  assumes "run_allocations (kr_id x) b = run_allocations (kr_id x) a" "run_explanations (kr_id x) b = run_explanations (kr_id x) a"
  shows "run_ok uuid b x \<longleftrightarrow> run_ok uuid a x"
  by (simp only: run_ok_def run_complete_def assms)

lemma same_calculations_inv:
  assumes same: "same_calculations a b" and inv: "calc_inv uuid a"
  shows "calc_inv uuid b"
proof -
  have "run_ok uuid b x \<longleftrightarrow> run_ok uuid a x" for x
    by (rule run_ok_same) (use same in \<open>simp_all add: same_calculations_def run_allocations_def run_explanations_def\<close>)
  with same inv show ?thesis by (simp add: same_calculations_def calc_inv_def)
qed

lemma calc_inv_new_run:
  assumes inv: "calc_inv uuid db" and new: "kr_id x \<notin> kr_id ` set (kd_runs db)" "kr_status x = Run_Draft"
    and db': "kd_runs db' = kd_runs db @ [x]" "kd_allocations db' = kd_allocations db" "kd_explanations db' = kd_explanations db"
  shows "calc_inv uuid db'"
proof -
  have same: "run_ok uuid db' y \<longleftrightarrow> run_ok uuid db y" for y
    by (rule run_ok_same) (simp_all add: run_allocations_def run_explanations_def db')
  have "al_run ` set (kd_allocations db) \<subseteq> kr_id ` set (kd_runs db)" "xr_run ` set (kd_explanations db) \<subseteq> kr_id ` set (kd_runs db)"
    using inv unfolding calc_inv_def by auto
  with new(1) have "\<forall>a\<in>set (kd_allocations db). al_run a \<noteq> kr_id x" "\<forall>e\<in>set (kd_explanations db). xr_run e \<noteq> kr_id x"
    by (metis image_eqI subsetD)+
  then have "run_ok uuid db x" using new(2) by (simp add: run_ok_def run_allocations_def run_explanations_def filter_empty_conv)
  with inv new(1) show ?thesis by (auto simp: calc_inv_def same db')
qed

lemma insert_run_inv:
  assumes "calc_inv uuid db" "insert_run uuid r db = Inr db'"
  shows "calc_inv uuid db'"
  using assms(2) by (rule insert_run_Inr) (rule calc_inv_new_run [OF assms(1)], auto)

lemma prepare_and_enqueue_inv:
  assumes "calc_inv uuid db" "prepare_and_enqueue uuid jl collate stamp r db = Inr (result, db')"
  shows "calc_inv uuid db'"
  using assms(2)
proof (cases rule: prepare_and_enqueue_Inr)
  case replay
  with assms(1) show ?thesis by simp
next
  case (queued currency db1 db2 db3 c)
  from prepare_participants_Inr(1) [OF queued(3)] have "same_calculations db db1" by (auto simp: same_calculations_def)
  moreover from prepare_distributable_Inr [OF queued(4)] have "same_calculations db1 db2" by (auto simp: same_calculations_def)
  ultimately have "calc_inv uuid db2" using assms(1) by (blast intro: same_calculations_inv)
  from insert_run_inv [OF this queued(5)] show ?thesis
    by (rule same_calculations_inv [rotated]) (simp add: same_calculations_def queued(7))
qed

subsection \<open>Storing a calculation\<close>

lemma insert_allocations_Inr:
  assumes "insert_all (insert_allocation uuid run) rs db = Inr db'"
  shows "\<exists>as. db' = db\<lparr>kd_allocations := kd_allocations db @ as\<rparr>
     \<and> list_all2 (\<lambda>a r. al_run a = run \<and> uuid (ar_participant r) = Some (al_participant a)
          \<and> numeric_cast 30 12 (ar_amount r) = Inr (al_amount a) \<and> al_currency a = ar_currency r) as rs
     \<and> (distinct (map al_participant (run_allocations run db)) \<longrightarrow> distinct (map al_participant (run_allocations run db @ as)))"
  using assms
proof (induction rs arbitrary: db)
  case Nil
  then show ?case by simp
next
  case (Cons r rs)
  from Cons.prems obtain db1 where first: "insert_allocation uuid run r db = Inr db1"
    and rest: "insert_all (insert_allocation uuid run) rs db1 = Inr db'" by (auto simp: and_then_Inr)
  from first obtain p u where p: "uuid (ar_participant r) = Some p" and u: "numeric_cast 30 12 (ar_amount r) = Inr u"
    and new: "\<forall>x\<in>set (kd_allocations db). al_run x = run \<longrightarrow> al_participant x \<noteq> p"
    and db1: "db1 = db\<lparr>kd_allocations := kd_allocations db @
       [\<lparr>al_run = run, al_participant = p, al_amount = u, al_currency = ar_currency r\<rparr>]\<rparr>"
    by (auto simp: insert_allocation_def and_then_Inr as_simps split: if_splits)
  let ?a = "\<lparr>al_run = run, al_participant = p, al_amount = u, al_currency = ar_currency r\<rparr>"
  from Cons.IH [OF rest] obtain as where as: "db' = db1\<lparr>kd_allocations := kd_allocations db1 @ as\<rparr>"
    "list_all2 (\<lambda>a r. al_run a = run \<and> uuid (ar_participant r) = Some (al_participant a)
          \<and> numeric_cast 30 12 (ar_amount r) = Inr (al_amount a) \<and> al_currency a = ar_currency r) as rs"
    "distinct (map al_participant (run_allocations run db1)) \<longrightarrow> distinct (map al_participant (run_allocations run db1 @ as))"
    by blast
  have here: "run_allocations run db1 = run_allocations run db @ [?a]" by (simp add: run_allocations_def db1)
  have "p \<notin> al_participant ` set (run_allocations run db)" using new by (auto simp: run_allocations_def)
  with as(3) have "distinct (map al_participant (run_allocations run db)) \<longrightarrow>
      distinct (map al_participant (run_allocations run db @ ?a # as))" by (simp add: here)
  with as(1,2) p u show ?case by (intro exI [where x = "?a # as"]) (simp add: db1)
qed

lemma insert_explanations_Inr:
  assumes "insert_all (insert_explanation uuid run checksum) xs db = Inr db'"
  shows "\<exists>es. db' = db\<lparr>kd_explanations := kd_explanations db @ es\<rparr>
     \<and> list_all2 (\<lambda>e x. xr_run e = run \<and> uuid (xo_account x) = Some (xr_account e)) es xs"
  using assms
proof (induction xs arbitrary: db)
  case Nil
  then show ?case by simp
next
  case (Cons x xs)
  from Cons.prems obtain db1 where first: "insert_explanation uuid run checksum x db = Inr db1"
    and rest: "insert_all (insert_explanation uuid run checksum) xs db1 = Inr db'" by (auto simp: and_then_Inr)
  from first obtain i where i: "uuid (xo_account x) = Some i" and db1: "db1 = db\<lparr>kd_explanations := kd_explanations db @
      [\<lparr>xr_run = run, xr_account = i, xr_output = x, xr_checksum = checksum\<rparr>]\<rparr>"
    by (auto simp: insert_explanation_def and_then_Inr as_simps split: if_splits)
  from Cons.IH [OF rest] obtain es where "db' = db1\<lparr>kd_explanations := kd_explanations db1 @ es\<rparr>"
    "list_all2 (\<lambda>e x. xr_run e = run \<and> uuid (xo_account x) = Some (xr_account e)) es xs" by blast
  with i show ?case
    by (intro exI [where x = "\<lparr>xr_run = run, xr_account = i, xr_output = x, xr_checksum = checksum\<rparr> # es"]) (simp add: db1)
qed

text \<open>The snapshot, the allocations and the explanations are about the same participants.\<close>

lemma money_parse_wf: "money_parse amount currency scale = Inr m \<Longrightarrow> wf_money m"
  using money_parse_SomeD by blast

lemma calculate_participants:
  assumes "calculate lib reads jl r s = Inr c"
  shows "map ar_participant (cc_allocations c) = map aw_participant (sn_weights s)"
    "\<forall>a\<in>set (cc_allocations c). ar_currency a = sn_currency_code s" "cc_allocations c \<noteq> []"
    "map xo_account (cc_explanations c) = map ar_participant (cc_allocations c)"
proof -
  from assms obtain money where m: "money_parse (sn_amount s) (sn_currency_code s) (sn_scale s) = Inr money"
    and alloc: "allocate_proportionally (locale_compare jl) money (sn_weights s) = Inr (cc_allocations c)"
    and xs: "traverse (explain lib reads s (rich_inputs r s)) (cc_allocations c) = Inr (cc_explanations c)"
    by (rule calculate_Inr)
  let ?us = "settled_units (locale_compare jl) \<bar>money_units money\<bar> (map normalized_of (sn_weights s))"
  from alloc have ne: "sn_weights s \<noteq> []" and rs: "cc_allocations c = map2 (\<lambda>w u. result_of money (aw_participant w) u) (sn_weights s) ?us"
    by (simp_all add: allocate_proportionally_Inr [OF money_parse_wf [OF m]])
  have len: "length ?us = length (sn_weights s)" by simp
  have "map ar_participant (map2 (\<lambda>w u. result_of money (aw_participant w) u) ws us) = map aw_participant ws"
    if "length us = length ws" for ws us using that by (induction ws us rule: list_induct2') (simp_all add: result_of_def)
  with len show parts: "map ar_participant (cc_allocations c) = map aw_participant (sn_weights s)" unfolding rs by blast
  then show "cc_allocations c \<noteq> []" using ne by auto
  have "money_currency money = sn_currency_code s" using money_parse_SomeD [OF m] by simp
  then show "\<forall>a\<in>set (cc_allocations c). ar_currency a = sn_currency_code s" unfolding rs by (auto simp: result_of_def)
  have "xo_account x = ar_participant a" if "explain lib reads s bs a = Inr x" for bs a x
  proof -
    from that obtain b where b: "find (\<lambda>b. xb_account b = ar_participant a) bs = Some b"
      and x: "build_explanation lib reads (explanation_base.extend b
        \<lparr>xi_pool_profit = sn_amount s, xi_allocated = ar_amount a, xi_currency = sn_currency_code s\<rparr>) = Inr x"
      by (auto simp: explain_def split: option.splits)
    from x have "xo_account x = xb_account b" by (auto simp: build_explanation_def and_then_Inr Let_def explanation_base.extend_def)
    with find_SomeD [OF b] show ?thesis by simp
  qed
  then have "list_all2 (\<lambda>a x. xo_account x = ar_participant a) (cc_allocations c) (cc_explanations c)"
    using xs unfolding traverse_Inr_iff by (rule list_all2_mono [rotated]) blast
  then show "map xo_account (cc_explanations c) = map ar_participant (cc_allocations c)"
    by (induction rule: list_all2_induct) simp_all
qed

lemma list_all2_maps: "list_all2 (\<lambda>x y. f x = g y) xs ys \<Longrightarrow> map f xs = map g ys"
  by (induction rule: list_all2_induct) simp_all

lemma conserved_amount:
  assumes "conserved run s db" "numeric_cast 30 12 (sn_amount s) = Inr u"
  shows "sum_list (map al_amount (run_allocations run db)) = u" "decimal_value (sn_amount s) = Some (of_int u / 10 ^ 12)"
proof -
  let ?u = "sum_list (map al_amount (run_allocations run db))"
  from assms(1) have d: "decimal_value (sn_amount s) = Some (of_int ?u / 10 ^ 12)"
    by (simp add: conserved_def Let_def run_allocations_def)
  have "round_away (of_int ?u / 10 ^ 12 * 10 ^ 12) = ?u" by (simp add: round_away_of_int)
  with d assms(2) have "u = ?u" by (simp add: numeric_cast_def Let_def split: if_splits)
  with d show "?u = u" "decimal_value (sn_amount s) = Some (of_int u / 10 ^ 12)" by simp_all
qed

lemma store_calculation_Inr:
  assumes run: "store_calculation uuid i s c db = Inr db'" and calc: "calculate lib reads jl r s = Inr c"
    and empty: "run_allocations i db = []" "run_explanations i db = []"
  obtains as es u where
    "db' = db\<lparr>kd_allocations := kd_allocations db @ as, kd_explanations := kd_explanations db @ es,
       kd_runs := map (complete_run i s c u) (kd_runs db)\<rparr>"
    "as \<noteq> []" "\<forall>a\<in>set as. al_run a = i \<and> al_currency a = sn_currency_code s" "\<forall>e\<in>set es. xr_run e = i"
    "distinct (map al_participant as)" "sum_list (map al_amount as) = u" "decimal_value (sn_amount s) = Some (of_int u / 10 ^ 12)"
    "map (\<lambda>w. uuid (aw_participant w)) (sn_weights s) = map (\<lambda>a. Some (al_participant a)) as"
    "map xr_account es = map al_participant as"
proof -
  from run obtain db1 db2 u where one: "insert_all (insert_allocation uuid i) (cc_allocations c) db = Inr db1"
    and two: "insert_all (insert_explanation uuid i (cc_output_checksum c)) (cc_explanations c) db1 = Inr db2"
    and check: "conserved i s db2" "numeric_cast 30 12 (sn_amount s) = Inr u"
    and db': "db' = db2\<lparr>kd_runs := map (complete_run i s c u) (kd_runs db2)\<rparr>"
    by (auto simp: store_calculation_def and_then_Inr split: if_splits)
  from insert_allocations_Inr [OF one] obtain as where db1: "db1 = db\<lparr>kd_allocations := kd_allocations db @ as\<rparr>"
    and as: "list_all2 (\<lambda>a r. al_run a = i \<and> uuid (ar_participant r) = Some (al_participant a)
          \<and> numeric_cast 30 12 (ar_amount r) = Inr (al_amount a) \<and> al_currency a = ar_currency r) as (cc_allocations c)"
    and dist: "distinct (map al_participant (run_allocations i db)) \<longrightarrow> distinct (map al_participant (run_allocations i db @ as))"
    by blast
  from insert_explanations_Inr [OF two] obtain es where db2: "db2 = db1\<lparr>kd_explanations := kd_explanations db1 @ es\<rparr>"
    and es: "list_all2 (\<lambda>e x. xr_run e = i \<and> uuid (xo_account x) = Some (xr_account e)) es (cc_explanations c)" by blast
  note parts = calculate_participants [OF calc]
  have a_run: "\<forall>a\<in>set as. al_run a = i"
  proof
    fix a assume "a \<in> set as"
    then obtain k where "k < length as" "as ! k = a" by (auto simp: in_set_conv_nth)
    with list_all2_nthD [OF as] show "al_run a = i" by blast
  qed
  have a_cur: "\<forall>a\<in>set as. al_currency a = sn_currency_code s"
  proof
    fix a assume "a \<in> set as"
    then obtain k where k: "k < length as" "as ! k = a" by (auto simp: in_set_conv_nth)
    with list_all2_nthD [OF as k(1)] have "al_currency a = ar_currency (cc_allocations c ! k)" by blast
    moreover have "cc_allocations c ! k \<in> set (cc_allocations c)" using k list_all2_lengthD [OF as] by simp
    ultimately show "al_currency a = sn_currency_code s" using parts(2) by simp
  qed
  have e_run: "\<forall>e\<in>set es. xr_run e = i"
  proof
    fix e assume "e \<in> set es"
    then obtain k where "k < length es" "es ! k = e" by (auto simp: in_set_conv_nth)
    with list_all2_nthD [OF es] show "xr_run e = i" by blast
  qed
  have mine: "run_allocations i db2 = as" using empty(1) a_run by (simp add: run_allocations_def db2 db1)
  have ids: "map (\<lambda>a. Some (al_participant a)) as = map (\<lambda>r. uuid (ar_participant r)) (cc_allocations c)"
    by (rule list_all2_maps, rule list_all2_mono [OF as]) simp
  also have "\<dots> = map uuid (map aw_participant (sn_weights s))" by (simp flip: parts(1) add: o_def)
  finally have weights: "map (\<lambda>w. uuid (aw_participant w)) (sn_weights s) = map (\<lambda>a. Some (al_participant a)) as" by (simp add: o_def)
  have "map (\<lambda>e. Some (xr_account e)) es = map (\<lambda>x. uuid (xo_account x)) (cc_explanations c)"
    by (rule list_all2_maps, rule list_all2_mono [OF es]) simp
  also have "\<dots> = map uuid (map xo_account (cc_explanations c))" by (simp add: o_def)
  also have "\<dots> = map (\<lambda>r. uuid (ar_participant r)) (cc_allocations c)" unfolding parts(4) by (simp add: o_def)
  also note ids [symmetric]
  finally have "map Some (map xr_account es) = map Some (map al_participant as)" by (simp only: map_map comp_def)
  then have accounts: "map xr_account es = map al_participant as" by (rule map_injective) simp
  have ne: "as \<noteq> []" using list_all2_lengthD [OF as] parts(3) by auto
  note amount = conserved_amount [OF check, unfolded mine]
  show ?thesis
    by (rule that [where as = as and es = es and u = u]) (use ne a_run a_cur e_run dist empty(1) amount weights accounts in \<open>simp_all add: db' db2 db1\<close>)
qed

lemma find_draft:
  assumes "find (\<lambda>x. kr_id x = i) (kd_runs db) = Some run" "calc_inv uuid db" "kr_status run = Run_Draft"
  shows "i \<in> kr_id ` set (kd_runs db)" "run_allocations i db = []" "run_explanations i db = []"
proof -
  from find_SomeD [OF assms(1)] have run: "run \<in> set (kd_runs db)" "kr_id run = i" by auto
  then show "i \<in> kr_id ` set (kd_runs db)" by auto
  from run assms(2,3) have "run_ok uuid db run" by (simp add: calc_inv_def)
  with assms(3) run(2) show "run_allocations i db = []" "run_explanations i db = []" by (simp_all add: run_ok_def)
qed

lemma run_from_draft_inv:
  assumes inv: "calc_inv uuid db" and known: "i \<in> kr_id ` set (kd_runs db)"
    and empty: "run_allocations i db = []" "run_explanations i db = []"
    and draft: "\<forall>x\<in>set (kd_runs db). kr_id x = i \<longrightarrow> kr_status x = Run_Draft"
    and run: "run_from_draft uuid (calculate lib reads jl r) i r db = Inr (result, db')"
  shows "calc_inv uuid db'"
proof -
  from run obtain s c where s: "calculate lib reads jl r s = Inr c" and store: "store_calculation uuid i s c db = Inr db'"
    by (auto simp: run_from_draft_def and_then_Inr)
  obtain as es u where
    db': "db' = db\<lparr>kd_allocations := kd_allocations db @ as, kd_explanations := kd_explanations db @ es,
       kd_runs := map (complete_run i s c u) (kd_runs db)\<rparr>"
    and as: "as \<noteq> []" "\<forall>a\<in>set as. al_run a = i \<and> al_currency a = sn_currency_code s" "\<forall>e\<in>set es. xr_run e = i"
      "distinct (map al_participant as)" "sum_list (map al_amount as) = u" "decimal_value (sn_amount s) = Some (of_int u / 10 ^ 12)"
      "map (\<lambda>w. uuid (aw_participant w)) (sn_weights s) = map (\<lambda>a. Some (al_participant a)) as"
      "map xr_account es = map al_participant as" by (rule store_calculation_Inr [OF store s empty])
  have ids: "kr_id (complete_run i s c u x) = kr_id x" for x by (simp add: complete_run_def)
  have keys: "map kr_id (kd_runs db') = map kr_id (kd_runs db)" by (simp add: db' ids)
  then have key_set: "kr_id ` set (kd_runs db') = kr_id ` set (kd_runs db)" by (metis set_map)
  have allocs: "run_allocations j db' = run_allocations j db @ (if j = i then as else [])" for j
    using as(2) by (auto simp: run_allocations_def db' filter_empty_conv)
  have expls: "run_explanations j db' = run_explanations j db @ (if j = i then es else [])" for j
    using as(3) by (auto simp: run_explanations_def db' filter_empty_conv)
  have "run_ok uuid db' x" if "x \<in> set (kd_runs db')" for x
  proof -
    from that obtain y where y: "y \<in> set (kd_runs db)" and x: "x = complete_run i s c u y" by (auto simp: db')
    show ?thesis
    proof (cases "kr_id y = i")
      case True
      with y draft have x: "kr_id x = i" "kr_status x = Run_Calculated" "kr_snapshot x = Some s" "kr_amount x = Some u"
        "kr_currency x = Some (sn_currency_code s)" by (simp_all add: x complete_run_def)
      have "run_complete uuid db' x"
        using as by (simp add: run_complete_def x allocs expls empty Let_def list_all_iff)
      then show ?thesis by (simp add: run_ok_def x)
    next
      case False
      then have x: "x = y" by (simp add: x complete_run_def)
      have "run_ok uuid db' y \<longleftrightarrow> run_ok uuid db y" by (rule run_ok_same) (simp_all add: allocs expls False)
      with inv y show ?thesis by (simp add: x calc_inv_def)
    qed
  qed
  moreover have "al_run ` set (kd_allocations db') \<subseteq> kr_id ` set (kd_runs db')"
    using inv as(2) known unfolding key_set by (auto simp: calc_inv_def db')
  moreover have "xr_run ` set (kd_explanations db') \<subseteq> kr_id ` set (kd_runs db')"
    using inv as(3) known unfolding key_set by (auto simp: calc_inv_def db')
  ultimately show ?thesis using inv keys by (simp add: calc_inv_def)
qed

lemma execute_inv:
  assumes inv: "calc_inv uuid db"
    and run: "execute_calculation_atomically uuid (calculate lib reads jl r) r db = Inr (result, db')"
  shows "calc_inv uuid db'"
proof -
  from run obtain i where i: "uuid (cq_run r) = Some i" by (auto simp: execute_calculation_atomically_def and_then_Inr as_simps)
  show ?thesis
  proof (cases "find (\<lambda>x. kr_id x = i) (kd_runs db)")
    case None
    with run i obtain db1 where ins: "insert_run uuid r db = Inr db1"
      and rest: "run_from_draft uuid (calculate lib reads jl r) i r db1 = Inr (result, db')"
      by (auto simp: execute_calculation_atomically_def as_uuid_def and_then_Inr)
    have inv1: "calc_inv uuid db1" by (rule insert_run_inv [OF inv ins])
    from ins obtain j c where "uuid (cq_run r) = Some j" "uuid (cq_correlation r) = Some c" "calendar_date (cq_date r)"
      and fresh: "j \<notin> kr_id ` set (kd_runs db)" and db1: "db1 = db\<lparr>kd_runs := kd_runs db @ [\<lparr>kr_id = j, kr_pool = cq_pool r,
        kr_date = cq_date r, kr_rules = cq_rules r, kr_revision = 1, kr_correlation = c, kr_maker = Some (cq_requester r),
        kr_kind = kind_of r, kr_status = Run_Draft, kr_input = None, kr_output = None, kr_snapshot = None, kr_amount = None,
        kr_currency = None\<rparr>]\<rparr>" by (rule insert_run_Inr)
    with i have j: "j = i" by simp
    note new = fresh [unfolded j]
    note db1 = db1 [unfolded j]
    have "find (\<lambda>x. kr_id x = i) (kd_runs db1) = Some (last (kd_runs db1))" using None by (simp add: db1 find_append)
    from find_draft [OF this inv1] have "i \<in> kr_id ` set (kd_runs db1)" "run_allocations i db1 = []" "run_explanations i db1 = []"
      by (simp_all add: db1)
    moreover have "\<forall>x\<in>set (kd_runs db1). kr_id x = i \<longrightarrow> kr_status x = Run_Draft" using new by (auto simp: db1)
    ultimately show ?thesis by (rule run_from_draft_inv [OF inv1 _ _ _ _ rest])
  next
    case (Some x)
    show ?thesis
    proof (cases "kr_status x = Run_Draft")
      case True
      with run i Some have rest: "run_from_draft uuid (calculate lib reads jl r) i r db = Inr (result, db')"
        by (auto simp: execute_calculation_atomically_def as_uuid_def split: if_splits)
      have "y = x" if "y \<in> set (kd_runs db)" "kr_id y = i" for y
        using that inv find_SomeD [OF Some] by (auto simp: calc_inv_def distinct_map inj_on_def)
      then have "\<forall>y\<in>set (kd_runs db). kr_id y = i \<longrightarrow> kr_status y = Run_Draft" using True by blast
      then show ?thesis by (rule run_from_draft_inv [OF inv find_draft [OF Some inv True] _ rest])
    next
      case False
      with run i Some have "db' = db" by (auto simp: execute_calculation_atomically_def as_uuid_def split: if_splits)
      with inv show ?thesis by simp
    qed
  qed
qed

end
