(* ===== verification/Calculation_Live.thy ===== *)
theory Calculation_Live
  imports Calculation_Correct
begin

text \<open>
  A run can be calculated: on tables that satisfy the constraints of their schema, with a pool of
  scale twelve and a participant of positive weight, no step of the execution throws.
\<close>

section \<open>The computation succeeds\<close>

definition reads_decimals :: "(string \<Rightarrow> bool) \<Rightarrow> bool" where
  "reads_decimals reads \<longleftrightarrow> (\<forall>s. signed_decimal s \<noteq> None \<longrightarrow> reads s)"

lemma money_parse_render:
  assumes "is_currency_code currency"
  shows "money_parse (render_units 12 u) currency (of_js 12) = Inr \<lparr>money_currency = currency, money_units = u, money_scale = 12\<rparr>"
  using assms by (simp add: money_parse_eq read_units_render)

lemma weight_render:
  assumes "0 \<le> u"
  shows "weight_to_units (render_units 12 u) weight_scale = Inr u"
  by (simp add: weight_to_units_eq weight_scale_def read_units_render)

lemma signed_render: "signed_decimal (render_units k u) \<noteq> None"
  using render_units_decimal [of k u] by (auto simp: decimal_value_def)

text \<open>Each allocated amount is at most the amount distributed.\<close>

lemma settled_units_bound:
  assumes "accepted_weights {} ws" "ws \<noteq> []" "0 < sum_list (map weight_units ws)" "u \<in> set (settled_units lc \<bar>n\<bar> (map normalized_of ws))"
  shows "0 \<le> u \<and> u \<le> \<bar>n\<bar>"
proof -
  let ?ns = "map normalized_of ws"
  let ?us = "settled_units lc \<bar>n\<bar> ?ns"
  have total: "sum_list (map snd ?ns) = sum_list (map weight_units ws)" by simp
  have pos: "0 \<le> v" if "v \<in> set ?us" for v
  proof -
    from that obtain i where i: "i < length ?us" "?us ! i = v" by (auto simp: in_set_conv_nth)
    then have w: "0 \<le> weight_units (ws ! i)" using assms(1) by (simp add: accepted_weights_def)
    have "0 \<le> \<bar>n\<bar> * snd (?ns ! i) div sum_list (map snd ?ns)"
      using i w assms(3) by (simp add: pos_imp_zdiv_nonneg_iff)
    moreover have "v = \<bar>n\<bar> * snd (?ns ! i) div sum_list (map snd ?ns) \<or> v = \<bar>n\<bar> * snd (?ns ! i) div sum_list (map snd ?ns) + 1"
      using settled_units_nth [of i ?ns lc "\<bar>n\<bar>"] i assms(3) by simp
    ultimately show ?thesis by auto
  qed
  have "sum_list ?us = \<bar>n\<bar>" using assms(2,3) by (intro settled_units_sum) simp_all
  moreover have "u \<le> sum_list ?us" using pos assms(4) by (intro member_le_sum_list) simp_all
  ultimately show ?thesis using pos [OF assms(4)] by simp
qed

lemma allocate_ok:
  fixes n :: int
  assumes currency: "is_currency_code currency" and weights: "\<forall>p\<in>set ps. 0 \<le> snd p \<and> fst p \<noteq> []" "distinct (map fst ps)"
    and total: "0 < sum_list (map snd ps)"
  defines "ws \<equiv> map (\<lambda>p. \<lparr>aw_participant = fst p, aw_weight = render_units 12 (snd p)\<rparr>) ps"
    and "m \<equiv> \<lparr>money_currency = currency, money_units = n, money_scale = 12\<rparr>"
  obtains us where "allocate_proportionally lc m ws =
      Inr (map2 (\<lambda>p u. \<lparr>ar_participant = fst p, ar_amount = render_units 12 u, ar_currency = currency\<rparr>) ps us)"
    "length us = length ps" "sum_list us = n" "\<forall>u\<in>set us. \<bar>u\<bar> \<le> \<bar>n\<bar>"
proof -
  have wf: "wf_money m" using currency by (simp add: m_def wf_money_def)
  have units: "weight_units \<lparr>aw_participant = fst p, aw_weight = render_units 12 (snd p)\<rparr> = snd p" if "p \<in> set ps" for p
    using that weights(1) by (simp add: weight_units_def weight_render)
  then have unit_list: "map weight_units ws = map snd ps" by (simp add: ws_def)
  have acc: "accepted_weights {} ws"
    using weights units by (auto simp: accepted_weights_def ws_def weight_render o_def)
  have ne: "ws \<noteq> []" using total by (auto simp: ws_def)
  let ?vs = "settled_units lc \<bar>n\<bar> (map normalized_of ws)"
  let ?sg = "if n < 0 then - 1 else 1 :: int"
  define us where "us = map (\<lambda>v. v * ?sg) ?vs"
  have len: "length ?vs = length ps" by (simp add: ws_def)
  have "allocate_proportionally lc m ws = Inr (map2 (\<lambda>w u. result_of m (aw_participant w) u) ws ?vs)"
    using ne acc total by (simp add: allocate_proportionally_Inr [OF wf] unit_list) (simp add: m_def)
  also have "map2 (\<lambda>w u. result_of m (aw_participant w) u) (map (\<lambda>p. \<lparr>aw_participant = fst p, aw_weight = render_units 12 (snd p)\<rparr>) qs) vs
      = map2 (\<lambda>p u. \<lparr>ar_participant = fst p, ar_amount = render_units 12 u, ar_currency = currency\<rparr>) qs (map (\<lambda>v. v * ?sg) vs)"
    if "length vs = length qs" for vs qs
    using that by (induction vs qs rule: list_induct2)
      (simp_all add: result_of_def m_def to_decimal_string_render)
  note this [OF len, folded ws_def us_def]
  finally have run: "allocate_proportionally lc m ws =
      Inr (map2 (\<lambda>p u. \<lparr>ar_participant = fst p, ar_amount = render_units 12 u, ar_currency = currency\<rparr>) ps us)" .
  have "sum_list ?vs = \<bar>n\<bar>" using ne total by (intro settled_units_sum) (simp_all add: unit_list)
  then have sum: "sum_list us = n" by (simp add: us_def sum_list_mult_const)
  have "\<bar>u\<bar> \<le> \<bar>n\<bar>" if "u \<in> set us" for u
  proof -
    from that obtain v where "v \<in> set ?vs" "u = v * ?sg" by (auto simp: us_def)
    with settled_units_bound [OF acc ne _ this(1)] total show ?thesis by (auto simp: unit_list)
  qed
  with run sum len show ?thesis by (intro that [of us]) (simp_all add: us_def)
qed

text \<open>The values that are hashed are texts, the scale and arrays of them.\<close>

lemma text_objects_ok:
  "ok (canonical_json jl (weight_json w))" "ok (canonical_json jl (base_json b))"
  "ok (canonical_json jl (allocation_json a))" "ok (canonical_json jl (J_Object (explanation_fields x)))"
proof -
  show "ok (canonical_json jl (weight_json w))" unfolding weight_json_def
    by (rule canonical_object_ok) (simp add: ok_def)
  show "ok (canonical_json jl (base_json b))" unfolding base_json_def
    by (rule canonical_object_ok) (simp add: ok_def is_undefined_def split: option.splits)
  show "ok (canonical_json jl (allocation_json a))" unfolding allocation_json_def
    by (rule canonical_object_ok) (simp add: ok_def)
  have "ok (canonical_json jl (J_Object [(''from'', J_String (xo_from x)), (''to'', J_String (xo_until x))]))"
    by (rule canonical_object_ok) (simp add: ok_def)
  moreover have "ok (canonical_json jl (J_String t))" "ok (canonical_json jl J_Null)" for t by (simp_all add: ok_def)
  ultimately show "ok (canonical_json jl (J_Object (explanation_fields x)))" unfolding explanation_fields_def
    by (intro canonical_object_ok) (simp del: canonical_json.simps split: option.splits)
qed

lemma canonical_leaf_ok:
  "ok (canonical_json jl (J_String t))" "ok (canonical_json jl (J_Number (of_js k)))" "ok (canonical_json jl J_Null)"
  by (simp_all add: ok_def)

lemma text_arrays_ok:
  "ok (canonical_json jl (J_Array (map weight_json ws)))" "ok (canonical_json jl (J_Array (map base_json bs)))"
  "ok (canonical_json jl (J_Array (map allocation_json as)))"
  "ok (canonical_json jl (J_Array (map (\<lambda>x. J_Object (explanation_fields x)) xs)))"
  by (rule canonical_array_ok, auto simp: text_objects_ok simp del: canonical_json.simps)+

lemma snapshot_json_ok:
  assumes "sn_scale s = of_js k"
  shows "ok (canonical_json jl (snapshot_json jl r s))"
  unfolding snapshot_json_def assms
  by (rule canonical_object_ok)
    (simp add: canonical_leaf_ok text_arrays_ok is_undefined_def del: canonical_json.simps split: option.splits)

lemma output_json_ok: "ok (canonical_json jl (output_json jl as xs))"
  unfolding output_json_def
  by (rule canonical_object_ok) (simp add: text_arrays_ok del: canonical_json.simps)

lemma new_decimal_ok: "reads_decimals reads \<Longrightarrow> signed_decimal t \<noteq> None \<Longrightarrow> new_decimal lib reads t = Inr (of_text lib t)"
  by (simp add: reads_decimals_def new_decimal_def)

lemma build_explanation_ok:
  assumes "reads_decimals reads" "signed_decimal (xb_capital x) \<noteq> None" "signed_decimal (xb_base x) \<noteq> None"
    "signed_decimal (xb_tax x) \<noteq> None" "signed_decimal (xb_reserves x) \<noteq> None"
    "signed_decimal (xi_pool_profit x) \<noteq> None" "signed_decimal (xi_allocated x) \<noteq> None"
  shows "ok (build_explanation lib reads x)"
  using assms by (simp add: build_explanation_def new_decimal_ok Let_def ok_def)

lemma calculate_ok:
  assumes currency: "is_currency_code currency" and reads: "reads_decimals reads"
    and weights: "\<forall>p\<in>set ps. 0 \<le> snd p \<and> fst p \<noteq> []" "distinct (map fst ps)" and total: "0 < sum_list (map snd ps)"
    and s: "sn_amount s = render_units 12 n" "sn_currency_code s = currency" "sn_scale s = of_js 12"
      "sn_weights s = map (\<lambda>p. \<lparr>aw_participant = fst p, aw_weight = render_units 12 (snd p)\<rparr>) ps"
      "sn_explanations s = Some bs"
    and bs: "map xb_account bs = map fst ps"
      "\<forall>b\<in>set bs. signed_decimal (xb_capital b) \<noteq> None \<and> signed_decimal (xb_base b) \<noteq> None \<and> signed_decimal (xb_tax b) \<noteq> None
         \<and> signed_decimal (xb_reserves b) \<noteq> None"
  shows "\<exists>c us. calculate lib reads jl r s = Inr c \<and> length us = length ps \<and> sum_list us = n \<and> (\<forall>u\<in>set us. \<bar>u\<bar> \<le> \<bar>n\<bar>)
    \<and> cc_allocations c = map2 (\<lambda>p u. \<lparr>ar_participant = fst p, ar_amount = render_units 12 u, ar_currency = currency\<rparr>) ps us"
proof -
  let ?m = "\<lparr>money_currency = currency, money_units = n, money_scale = 12\<rparr>"
  have "ok (canonical_json jl (snapshot_json jl r s))" by (rule snapshot_json_ok [OF s(3)])
  then obtain input where input: "canonical_json jl (snapshot_json jl r s) = Inr input" by (auto simp: ok_iff)
  obtain us where
    alloc: "allocate_proportionally (locale_compare jl) ?m (sn_weights s) =
      Inr (map2 (\<lambda>p u. \<lparr>ar_participant = fst p, ar_amount = render_units 12 u, ar_currency = currency\<rparr>) ps us)"
    and us: "length us = length ps" "sum_list us = n" "\<forall>u\<in>set us. \<bar>u\<bar> \<le> \<bar>n\<bar>"
    unfolding s(4) by (rule allocate_ok [OF currency weights total])
  let ?as = "map2 (\<lambda>p u. \<lparr>ar_participant = fst p, ar_amount = render_units 12 u, ar_currency = currency\<rparr>) ps us"
  have money: "money_parse (sn_amount s) (sn_currency_code s) (sn_scale s) = Inr ?m"
    unfolding s(1-3) by (rule money_parse_render [OF currency])
  have "ok (explain lib reads s bs a)" if "a \<in> set ?as" for a
  proof -
    from that obtain p u where p: "p \<in> set ps" and a: "a = \<lparr>ar_participant = fst p, ar_amount = render_units 12 u, ar_currency = currency\<rparr>"
      by (auto dest: set_zip_leftD)
    have "fst p \<in> xb_account ` set bs" using p bs(1) by (metis image_eqI set_map)
    then obtain b where b: "find (\<lambda>b. xb_account b = fst p) bs = Some b"
      by (cases "find (\<lambda>b. xb_account b = fst p) bs") (auto simp: find_None_iff)
    from find_SomeD [OF b] bs(2) have "signed_decimal (xb_capital b) \<noteq> None" "signed_decimal (xb_base b) \<noteq> None"
      "signed_decimal (xb_tax b) \<noteq> None" "signed_decimal (xb_reserves b) \<noteq> None" by auto
    then have "ok (build_explanation lib reads (explanation_base.extend b
        \<lparr>xi_pool_profit = render_units 12 n, xi_allocated = render_units 12 u, xi_currency = currency\<rparr>))"
      by (intro build_explanation_ok [OF reads]) (use signed_render [of 12 n] signed_render [of 12 u] in \<open>simp_all add: explanation_base.extend_def\<close>)
    then show ?thesis by (simp add: explain_def a b s(1,2))
  qed
  then have "ok (traverse (explain lib reads s (rich_inputs r s)) ?as)" by (simp add: traverse_ok_iff rich_inputs_def s(5))
  then obtain xs where xs: "traverse (explain lib reads s (rich_inputs r s)) ?as = Inr xs" by (auto simp: ok_iff)
  obtain printed where printed: "canonical_json jl (output_json jl ?as xs) = Inr printed"
    using output_json_ok [of jl ?as xs] by (auto simp: ok_iff)
  show ?thesis
    by (rule exI [where x = "\<lparr>cc_input_checksum = sha256 jl input, cc_output_checksum = sha256 jl printed, cc_allocations = ?as,
        cc_explanations = xs\<rparr>"], rule exI [where x = us])
      (simp add: calculate_def input money alloc xs printed us)
qed

section \<open>The results can be stored\<close>

definition allocation_rows :: "string \<Rightarrow> string \<Rightarrow> (string \<times> int) list \<Rightarrow> int list \<Rightarrow> allocation_row list" where
  "allocation_rows i currency ps us =
     map2 (\<lambda>p u. \<lparr>al_run = i, al_participant = fst p, al_amount = u, al_currency = currency\<rparr>) ps us"

lemma numeric_cast_fits: "\<bar>u\<bar> < 10 ^ 30 \<Longrightarrow> numeric_cast 30 12 (render_units 12 u) = Inr u"
  by (simp add: numeric_cast_def Let_def round_away_of_int)

lemma insert_allocations_ok:
  assumes "length us = length ps" "\<forall>p\<in>set ps. uuid (fst p) = Some (fst p)" "distinct (map fst ps)" "\<forall>u\<in>set us. \<bar>u\<bar> < 10 ^ 30"
    and "\<forall>x\<in>set (kd_allocations db). al_run x = i \<longrightarrow> al_participant x \<notin> fst ` set ps"
  shows "insert_all (insert_allocation uuid i)
      (map2 (\<lambda>p u. \<lparr>ar_participant = fst p, ar_amount = render_units 12 u, ar_currency = currency\<rparr>) ps us) db
    = Inr (db\<lparr>kd_allocations := kd_allocations db @ allocation_rows i currency ps us\<rparr>)"
  using assms
proof (induction us ps arbitrary: db rule: list_induct2)
  case Nil
  show ?case by (simp add: allocation_rows_def)
next
  case (Cons u us p ps)
  let ?a = "\<lparr>al_run = i, al_participant = fst p, al_amount = u, al_currency = currency\<rparr>"
  let ?db = "db\<lparr>kd_allocations := kd_allocations db @ [?a]\<rparr>"
  have first: "insert_allocation uuid i \<lparr>ar_participant = fst p, ar_amount = render_units 12 u, ar_currency = currency\<rparr> db = Inr ?db"
    using Cons.prems by (simp add: insert_allocation_def as_uuid_def numeric_cast_fits)
  have "insert_all (insert_allocation uuid i)
      (map2 (\<lambda>p u. \<lparr>ar_participant = fst p, ar_amount = render_units 12 u, ar_currency = currency\<rparr>) ps us) ?db
    = Inr (?db\<lparr>kd_allocations := kd_allocations ?db @ allocation_rows i currency ps us\<rparr>)"
    by (rule Cons.IH) (use Cons.prems in auto)
  with first show ?case by (simp add: allocation_rows_def)
qed

lemma insert_explanations_ok:
  assumes "\<forall>x\<in>set xs. uuid (xo_account x) = Some (xo_account x)" "distinct (map xo_account xs)"
    and "\<forall>y\<in>set (kd_explanations db). xr_run y = i \<longrightarrow> xr_account y \<notin> xo_account ` set xs"
  shows "\<exists>es. insert_all (insert_explanation uuid i checksum) xs db = Inr (db\<lparr>kd_explanations := kd_explanations db @ es\<rparr>)"
  using assms
proof (induction xs arbitrary: db)
  case Nil
  show ?case by (rule exI [where x = "[]"]) simp
next
  case (Cons x xs)
  let ?e = "\<lparr>xr_run = i, xr_account = xo_account x, xr_output = x, xr_checksum = checksum\<rparr>"
  let ?db = "db\<lparr>kd_explanations := kd_explanations db @ [?e]\<rparr>"
  have first: "insert_explanation uuid i checksum x db = Inr ?db"
    using Cons.prems by (simp add: insert_explanation_def as_uuid_def)
  have "\<exists>es. insert_all (insert_explanation uuid i checksum) xs ?db = Inr (?db\<lparr>kd_explanations := kd_explanations ?db @ es\<rparr>)"
    by (rule Cons.IH) (use Cons.prems in auto)
  then obtain es where "insert_all (insert_explanation uuid i checksum) xs ?db = Inr (?db\<lparr>kd_explanations := kd_explanations ?db @ es\<rparr>)"
    by blast
  with first show ?case by (intro exI [where x = "?e # es"]) simp
qed

lemma allocation_rows_sum:
  assumes "length us = length ps"
  shows "map al_amount (allocation_rows i currency ps us) = us" "\<forall>a\<in>set (allocation_rows i currency ps us). al_run a = i \<and> al_currency a = currency"
    "allocation_rows i currency ps us = [] \<longleftrightarrow> ps = []"
proof -
  show "map al_amount (allocation_rows i currency ps us) = us"
    using assms unfolding allocation_rows_def by (induction us ps rule: list_induct2) simp_all
  show "\<forall>a\<in>set (allocation_rows i currency ps us). al_run a = i \<and> al_currency a = currency" by (auto simp: allocation_rows_def)
  show "allocation_rows i currency ps us = [] \<longleftrightarrow> ps = []" using assms by (cases ps; cases us) (simp_all add: allocation_rows_def)
qed

lemma store_calculation_ok:
  fixes ps :: "(string \<times> int) list"
  assumes as: "cc_allocations c = map2 (\<lambda>p u. \<lparr>ar_participant = fst p, ar_amount = render_units 12 u, ar_currency = sn_currency_code s\<rparr>) ps us"
    and us: "length us = length ps" "sum_list us = n" "\<forall>u\<in>set us. \<bar>u\<bar> \<le> \<bar>n\<bar>" "\<bar>n\<bar> < 10 ^ 30"
    and ps: "ps \<noteq> []" "\<forall>p\<in>set ps. uuid (fst p) = Some (fst p)" "distinct (map fst ps)"
    and xs: "map xo_account (cc_explanations c) = map fst ps"
    and amount: "sn_amount s = render_units 12 n"
    and empty: "run_allocations i db = []" "run_explanations i db = []"
  shows "\<exists>as es. store_calculation uuid i s c db = Inr (db\<lparr>kd_allocations := kd_allocations db @ as,
     kd_explanations := kd_explanations db @ es, kd_runs := map (complete_run i s c n) (kd_runs db)\<rparr>)"
proof -
  let ?rows = "allocation_rows i (sn_currency_code s) ps us"
  let ?db1 = "db\<lparr>kd_allocations := kd_allocations db @ ?rows\<rparr>"
  note rows = allocation_rows_sum [OF us(1)]
  have none: "\<forall>x\<in>set (kd_allocations db). al_run x \<noteq> i" "\<forall>y\<in>set (kd_explanations db). xr_run y \<noteq> i"
    using empty by (simp_all add: run_allocations_def run_explanations_def filter_empty_conv)
  have small: "\<forall>u\<in>set us. \<bar>u\<bar> < 10 ^ 30" using us(3,4) by fastforce
  have one: "insert_all (insert_allocation uuid i) (cc_allocations c) db = Inr ?db1"
    unfolding as by (rule insert_allocations_ok [OF us(1) ps(2,3) small]) (use none in blast)
  have accounts: "xo_account ` set (cc_explanations c) = fst ` set ps" using xs by (metis set_map)
  have ids: "\<forall>x\<in>set (cc_explanations c). uuid (xo_account x) = Some (xo_account x)"
    using ps(2) accounts by (metis imageE image_eqI)
  have dist: "distinct (map xo_account (cc_explanations c))" unfolding xs by (rule ps(3))
  have "\<exists>es. insert_all (insert_explanation uuid i (cc_output_checksum c)) (cc_explanations c) ?db1
      = Inr (?db1\<lparr>kd_explanations := kd_explanations ?db1 @ es\<rparr>)"
    by (rule insert_explanations_ok [OF ids dist]) (use none in simp)
  then obtain es where two: "insert_all (insert_explanation uuid i (cc_output_checksum c)) (cc_explanations c) ?db1
      = Inr (?db1\<lparr>kd_explanations := kd_explanations db @ es\<rparr>)" by auto
  let ?db2 = "?db1\<lparr>kd_explanations := kd_explanations db @ es\<rparr>"
  have mine: "filter (\<lambda>a. al_run a = i) (kd_allocations ?db2) = ?rows"
    using none(1) rows(2) by (simp add: filter_empty_conv)
  have "conserved i s ?db2"
    unfolding conserved_def mine using rows ps(1) us(2) by (simp add: amount Let_def list_all_iff)
  then have "store_calculation uuid i s c db = Inr (?db2\<lparr>kd_runs := map (complete_run i s c n) (kd_runs ?db2)\<rparr>)"
    using us(4) by (simp add: store_calculation_def one two amount numeric_cast_fits)
  then show ?thesis by (intro exI [where x = ?rows] exI [where x = es]) simp
qed

section \<open>The constraints of the schema\<close>

text \<open>
  The keys, checks, foreign keys and the exclusion constraint that the tables of the pools declare:
  pools by identifier, results by pool and date with a valid currency and at most thirty digits,
  participants with a stored account of their currency, a weight that is not negative, and never two
  valid rows for one account on one date.
\<close>

definition schema_ok :: "(string \<Rightarrow> string option) \<Rightarrow> 'a calc_db_scheme \<Rightarrow> bool" where
  "schema_ok uuid db \<longleftrightarrow> distinct (map po_id (kd_pools db))
     \<and> distinct (map (\<lambda>d. (dr_pool d, dr_date d)) (kd_results db))
     \<and> (\<forall>d\<in>set (kd_results db). \<bar>dr_amount d\<bar> < 10 ^ 30 \<and> is_currency_code (dr_currency d))
     \<and> distinct (map oa_id (sd_accounts db))
     \<and> (\<forall>p\<in>set (kd_participants db). 0 \<le> pv_weight p \<and> uuid (pv_account p) = Some (pv_account p) \<and> pv_account p \<noteq> []
          \<and> (\<exists>a\<in>set (sd_accounts db). oa_id a = pv_account p \<and> oa_currency a = pv_currency p))
     \<and> (\<forall>pool date currency. distinct (map pv_account (filter (participant_valid pool date currency) (kd_participants db))))"

lemma distinct_key_eq: "distinct (map f xs) \<Longrightarrow> x \<in> set xs \<Longrightarrow> y \<in> set xs \<Longrightarrow> f x = f y \<Longrightarrow> x = y"
  by (auto simp: distinct_map inj_on_def)

text \<open>The snapshot of a run whose pool, result and participants are in place.\<close>

definition ready_participants :: "calc_request \<Rightarrow> string \<Rightarrow> 'a calc_db_scheme \<Rightarrow> (string \<times> int) list" where
  "ready_participants r currency db = map (\<lambda>p. (pv_account p, pv_weight p)) (valid_participants r currency db)"

lemma latest_position_text_decimal: "signed_decimal (latest_position_text account date db) \<noteq> None"
proof -
  have "signed_decimal ''0'' \<noteq> None" by (simp add: text_eval)
  then show ?thesis using signed_render [of 12] by (simp add: latest_position_text_def split: list.splits)
qed

lemma load_snapshot_ok:
  assumes schema: "schema_ok uuid db" and d: "d \<in> set (kd_results db)" "dr_pool d = cq_pool r" "dr_date d = cq_date r"
    and p: "p \<in> set (kd_pools db)" "po_id p = cq_pool r" "po_status p = Pool_Active"
  obtains s where "load_snapshot r db = Inr s" "sn_amount s = render_units 12 (dr_amount d)" "sn_currency_code s = dr_currency d"
    "sn_scale s = of_js (int (po_scale p))"
    "sn_weights s = map (\<lambda>q. \<lparr>aw_participant = fst q, aw_weight = render_units 12 (snd q)\<rparr>) (ready_participants r (dr_currency d) db)"
    "sn_explanations s = Some (map (participant_base r db) (valid_participants r (dr_currency d) db))"
proof -
  let ?pairs = "[(d, p). d \<leftarrow> kd_results db, p \<leftarrow> kd_pools db, po_id p = dr_pool d \<and> po_status p = Pool_Active
        \<and> dr_pool d = cq_pool r \<and> dr_date d = cq_date r]"
  have only: "x = (d, p)" if "x \<in> set ?pairs" for x
  proof -
    from that obtain e q where x: "x = (e, q)" and e: "e \<in> set (kd_results db)" "dr_pool e = cq_pool r" "dr_date e = cq_date r"
      and q: "q \<in> set (kd_pools db)" "po_id q = dr_pool e" by (auto split: if_splits)
    have "e = d" by (rule distinct_key_eq [of "\<lambda>d. (dr_pool d, dr_date d)" "kd_results db"]) (use schema d e in \<open>auto simp: schema_ok_def\<close>)
    moreover have "q = p" by (rule distinct_key_eq [of po_id "kd_pools db"]) (use schema p q e in \<open>auto simp: schema_ok_def\<close>)
    ultimately show ?thesis by (simp add: x)
  qed
  have "(d, p) \<in> set ?pairs" using d p by auto
  with only obtain rest where pairs: "?pairs = (d, p) # rest" by (cases ?pairs) auto
  let ?ps = "valid_participants r (dr_currency d) db"
  have "load_snapshot r db = Inr \<lparr>sn_amount = render_units 12 (dr_amount d), sn_currency_code = dr_currency d,
      sn_scale = of_js (int (po_scale p)), sn_source = dr_source d,
      sn_weights = map (\<lambda>p. \<lparr>aw_participant = pv_account p, aw_weight = render_units 12 (pv_weight p)\<rparr>) ?ps,
      sn_explanations = Some (map (participant_base r db) ?ps)\<rparr>"
    unfolding load_snapshot_def pairs by (simp add: Let_def)
  then show ?thesis by (rule that) (simp_all add: ready_participants_def)
qed

lemma ready_participants_ok:
  assumes "schema_ok uuid db"
  shows "\<forall>q\<in>set (ready_participants r currency db). 0 \<le> snd q \<and> fst q \<noteq> [] \<and> uuid (fst q) = Some (fst q)"
    "distinct (map fst (ready_participants r currency db))"
proof -
  show "\<forall>q\<in>set (ready_participants r currency db). 0 \<le> snd q \<and> fst q \<noteq> [] \<and> uuid (fst q) = Some (fst q)"
    using assms by (auto simp: ready_participants_def valid_participants_def schema_ok_def)
  let ?P = "\<lambda>p. \<exists>a\<in>set (sd_accounts db). oa_id a = pv_account p \<and> oa_currency a = pv_currency p \<and> oa_status a = Oa_Active"
  have "distinct (map pv_account (filter (participant_valid (cq_pool r) (cq_date r) currency) (kd_participants db)))"
    using assms unfolding schema_ok_def by blast
  then have "distinct (map pv_account (filter (\<lambda>p. participant_valid (cq_pool r) (cq_date r) currency p \<and> ?P p) (kd_participants db)))"
    unfolding filter_filter [symmetric] by (rule distinct_map_filter)
  then show "distinct (map fst (ready_participants r currency db))"
    by (auto simp: ready_participants_def valid_participants_def distinct_map inj_on_def o_def)
qed

lemma run_from_draft_ok:
  assumes schema: "schema_ok uuid db" and reads: "reads_decimals reads"
    and d: "d \<in> set (kd_results db)" "dr_pool d = cq_pool r" "dr_date d = cq_date r"
    and p: "p \<in> set (kd_pools db)" "po_id p = cq_pool r" "po_status p = Pool_Active" "po_scale p = 12"
    and weight: "q \<in> set (valid_participants r (dr_currency d) db)" "0 < pv_weight q"
    and empty: "run_allocations i db = []" "run_explanations i db = []"
  shows "\<exists>s c as es. run_from_draft uuid (calculate lib reads jl r) i r db = Inr ((Calculated_Now, cc_output_checksum c),
     db\<lparr>kd_allocations := kd_allocations db @ as, kd_explanations := kd_explanations db @ es,
       kd_runs := map (complete_run i s c (dr_amount d)) (kd_runs db)\<rparr>)"
proof -
  let ?ps = "ready_participants r (dr_currency d) db"
  obtain s where load: "load_snapshot r db = Inr s" and s: "sn_amount s = render_units 12 (dr_amount d)"
    "sn_currency_code s = dr_currency d" "sn_scale s = of_js (int (po_scale p))"
    "sn_weights s = map (\<lambda>q. \<lparr>aw_participant = fst q, aw_weight = render_units 12 (snd q)\<rparr>) ?ps"
    "sn_explanations s = Some (map (participant_base r db) (valid_participants r (dr_currency d) db))"
    by (rule load_snapshot_ok [OF schema d p(1-3)])
  note ready = ready_participants_ok [OF schema, of r "dr_currency d"]
  have nonneg: "\<forall>q\<in>set ?ps. 0 \<le> snd q \<and> fst q \<noteq> []" using ready(1) by blast
  have "pv_weight q \<in> set (map snd ?ps)" using weight(1) by (force simp: ready_participants_def)
  moreover have "\<forall>w\<in>set (map snd ?ps). 0 \<le> w" using nonneg by auto
  ultimately have total: "0 < sum_list (map snd ?ps)" using weight(2) by (metis member_le_sum_list less_le_trans)
  have currency: "is_currency_code (dr_currency d)" "\<bar>dr_amount d\<bar> < 10 ^ 30" using schema d(1) by (auto simp: schema_ok_def)
  have twelve: "sn_scale s = of_js 12" by (simp add: s(3) p(4))
  have accounts: "map xb_account (map (participant_base r db) (valid_participants r (dr_currency d) db)) = map fst ?ps"
    by (simp add: ready_participants_def participant_base_def Let_def o_def)
  have zero: "signed_decimal ''0'' \<noteq> None" by (simp add: text_eval)
  have position: "signed_decimal (latest_position_text a b db) \<noteq> None" for a b by (rule latest_position_text_decimal)
  have decimals: "\<forall>b\<in>set (map (participant_base r db) (valid_participants r (dr_currency d) db)). signed_decimal (xb_capital b) \<noteq> None
      \<and> signed_decimal (xb_base b) \<noteq> None \<and> signed_decimal (xb_tax b) \<noteq> None \<and> signed_decimal (xb_reserves b) \<noteq> None"
    using position signed_render zero unfolding participant_base_def Let_def by simp
  obtain c us where calc: "calculate lib reads jl r s = Inr c" and us: "length us = length ?ps" "sum_list us = dr_amount d"
      "\<forall>u\<in>set us. \<bar>u\<bar> \<le> \<bar>dr_amount d\<bar>"
    and as: "cc_allocations c = map2 (\<lambda>p u. \<lparr>ar_participant = fst p, ar_amount = render_units 12 u, ar_currency = dr_currency d\<rparr>) ?ps us"
    using calculate_ok [OF currency(1) reads nonneg ready(2) total s(1,2) twelve s(4,5) accounts decimals] by blast
  have "map xo_account (cc_explanations c) = map aw_participant (sn_weights s)"
    using calculate_participants [OF calc] by simp
  then have xs: "map xo_account (cc_explanations c) = map fst ?ps" by (simp add: s(4) o_def)
  have as_s: "cc_allocations c = map2 (\<lambda>p u. \<lparr>ar_participant = fst p, ar_amount = render_units 12 u,
      ar_currency = sn_currency_code s\<rparr>) ?ps us" unfolding s(2) by (rule as)
  have ne: "?ps \<noteq> []" using total by auto
  have ids: "\<forall>q\<in>set ?ps. uuid (fst q) = Some (fst q)" using ready(1) by blast
  obtain al es where "store_calculation uuid i s c db = Inr (db\<lparr>kd_allocations := kd_allocations db @ al,
     kd_explanations := kd_explanations db @ es, kd_runs := map (complete_run i s c (dr_amount d)) (kd_runs db)\<rparr>)"
    using store_calculation_ok [OF as_s us currency(2) ne ids ready(2) xs s(1) empty] by blast
  then have "run_from_draft uuid (calculate lib reads jl r) i r db = Inr ((Calculated_Now, cc_output_checksum c),
     db\<lparr>kd_allocations := kd_allocations db @ al, kd_explanations := kd_explanations db @ es,
       kd_runs := map (complete_run i s c (dr_amount d)) (kd_runs db)\<rparr>)"
    by (simp add: run_from_draft_def load calc)
  then show ?thesis by blast
qed

end
