(* ===== verification/Calculation_Properties.thy ===== *)
theory Calculation_Properties
  imports Calculation_Live
begin

text \<open>
  The properties of the calculation runs: what every reachable state keeps, what a queued run finds
  prepared, when a run can be calculated, and that the worker calculates a queued run.
\<close>

section \<open>Reachable states\<close>

text \<open>
  A run that left its draft state is moved on by approval, posting and archiving; every other table
  may change at any time.
\<close>

definition advance_run :: "string \<Rightarrow> run_status \<Rightarrow> 'a calc_db_scheme \<Rightarrow> 'a calc_db_scheme" where
  "advance_run i status db = db\<lparr>kd_runs := map (\<lambda>x. if kr_id x = i \<and> kr_status x \<noteq> Run_Draft \<and> status \<noteq> Run_Draft
     then x\<lparr>kr_status := status\<rparr> else x) (kd_runs db)\<rparr>"

inductive calc_step :: "(string \<Rightarrow> string option) \<Rightarrow> 'd decimal_lib \<Rightarrow> calc_db \<Rightarrow> calc_db \<Rightarrow> bool" for uuid lib where
  initiate: "initiate_calculation uuid jl collate stamp r db = (out, db') \<Longrightarrow> calc_step uuid lib db db'"
| execute: "execute_calculation uuid lib reads jl q db = (done, db') \<Longrightarrow> calc_step uuid lib db db'"
| advance: "calc_step uuid lib db (advance_run i status db)"
| other: "same_calculations db db' \<Longrightarrow> calc_step uuid lib db db'"

inductive calc_reachable :: "(string \<Rightarrow> string option) \<Rightarrow> 'd decimal_lib \<Rightarrow> calc_db \<Rightarrow> bool" for uuid lib where
  start: "kd_runs db = [] \<Longrightarrow> kd_allocations db = [] \<Longrightarrow> kd_explanations db = [] \<Longrightarrow> calc_reachable uuid lib db"
| step: "calc_reachable uuid lib db \<Longrightarrow> calc_step uuid lib db db' \<Longrightarrow> calc_reachable uuid lib db'"

lemma initiate_inv:
  assumes "initiate_calculation uuid jl collate stamp r db = (out, db')" "calc_inv uuid db"
  shows "calc_inv uuid db'"
proof (cases out)
  case (Inl e)
  with assms show ?thesis by (auto simp: initiate_calculation_def outcome)
next
  case (Inr x)
  with assms(1) have "prepare_and_enqueue uuid jl collate stamp r db = Inr (x, db')"
    by (auto simp: initiate_calculation_def outcome)
  from prepare_and_enqueue_inv [OF assms(2) this] show ?thesis .
qed

lemma execute_action_inv:
  assumes "execute_calculation uuid lib reads jl r db = (out, db')" "calc_inv uuid db"
  shows "calc_inv uuid db'"
proof (cases out)
  case (Inl e)
  with assms show ?thesis by (auto simp: execute_calculation_def outcome)
next
  case (Inr x)
  with assms(1) have "execute_calculation_atomically uuid (calculate lib reads jl r) r db = Inr (x, db')"
    by (auto simp: execute_calculation_def outcome)
  from execute_inv [OF assms(2) this] show ?thesis .
qed

lemma advance_inv:
  assumes inv: "calc_inv uuid db"
  shows "calc_inv uuid (advance_run i status db)"
proof -
  let ?f = "\<lambda>x. if kr_id x = i \<and> kr_status x \<noteq> Run_Draft \<and> status \<noteq> Run_Draft then x\<lparr>kr_status := status\<rparr> else x"
  have ids: "map kr_id (map ?f (kd_runs db)) = map kr_id (kd_runs db)" by simp
  then have id_set: "kr_id ` set (map ?f (kd_runs db)) = kr_id ` set (kd_runs db)" by (metis set_map)
  have "run_ok uuid (advance_run i status db) (?f x)" if "run_ok uuid db x" for x
  proof -
    have "run_ok uuid (advance_run i status db) (?f x) \<longleftrightarrow> run_ok uuid db (?f x)"
      by (rule run_ok_same) (simp_all add: run_allocations_def run_explanations_def advance_run_def)
    moreover have "run_ok uuid db (?f x)"
    proof (cases "kr_id x = i \<and> kr_status x \<noteq> Run_Draft \<and> status \<noteq> Run_Draft")
      case True
      have "run_complete uuid db (x\<lparr>kr_status := status\<rparr>) \<longleftrightarrow> run_complete uuid db x" by (simp add: run_complete_def)
      with True that show ?thesis by (simp add: run_ok_def)
    next
      case False
      then have "?f x = x" by (simp only: if_False)
      with that show ?thesis by (simp only:)
    qed
    ultimately show ?thesis by simp
  qed
  moreover have "\<forall>x\<in>set (kd_runs db). run_ok uuid db x" using inv by (simp add: calc_inv_def)
  ultimately have "\<forall>x\<in>set (map ?f (kd_runs db)). run_ok uuid (advance_run i status db) x"
    by (simp only: set_map ball_simps) blast
  moreover have runs: "kd_runs (advance_run i status db) = map ?f (kd_runs db)" "kd_allocations (advance_run i status db) = kd_allocations db"
    "kd_explanations (advance_run i status db) = kd_explanations db" by (simp_all add: advance_run_def)
  ultimately show ?thesis using inv unfolding calc_inv_def runs ids id_set by blast
qed

lemma calc_reachable_inv: "calc_reachable uuid lib db \<Longrightarrow> calc_inv uuid db"
proof (induction rule: calc_reachable.induct)
  case (start db)
  then show ?case by (simp add: calc_inv_def)
next
  case (step db db')
  from step(2,3) show ?case
    by (cases rule: calc_step.cases) (auto intro: initiate_inv execute_action_inv advance_inv same_calculations_inv)
qed

section \<open>A queued run\<close>

lemma initiate_queued:
  assumes "initiate_calculation uuid jl collate stamp r db = (Inr (i, Queued), db')"
  obtains currency db1 db2 db3 c where "validate_initiation r = Inr ()" "load_active_pool (cq_pool r) db = Inr currency"
    "prepare_participants r (case cq_basis r of None \<Rightarrow> [] | Some b \<Rightarrow> snd b) currency db = Inr db1"
    "prepare_distributable jl collate r currency db1 = Inr db2" "insert_run uuid r db2 = Inr db3"
    "uuid (cq_correlation r) = Some c" "db' = db3\<lparr>sd_outbox := sd_outbox db3 @ [requested_message stamp c r]\<rparr>"
proof -
  from assms have valid: "validate_initiation r = Inr ()"
    and run: "prepare_and_enqueue uuid jl collate stamp r db = Inr ((i, Queued), db')"
    by (auto simp: initiate_calculation_def outcome)
  from run show ?thesis by (cases rule: prepare_and_enqueue_Inr) (use that valid in auto)
qed

lemma load_active_pool_Inr:
  "load_active_pool pool db = Inr currency \<Longrightarrow> \<exists>p\<in>set (kd_pools db). po_id p = pool \<and> po_status p = Pool_Active \<and> po_currency p = currency"
  by (auto simp: load_active_pool_def split: option.splits dest: find_SomeD)

text \<open>The message of a valid request is read back as the request.\<close>

lemma run_of_not_blank: "run_of pool_char lo hi s \<Longrightarrow> 0 < lo \<Longrightarrow> \<not> blank s"
  by (cases s) (auto simp: run_of_def blank_iff pool_char_def js_space_def char_class_defs)

lemma is_uuid_not_Nil: "is_uuid s \<Longrightarrow> s \<noteq> []"
  by (auto simp: is_uuid_def uuid_of_def)

lemma validate_initiation_Inr:
  assumes "validate_initiation r = Inr ()"
  shows "is_uuid (cq_run r)" "is_uuid (cq_correlation r)" "\<not> blank (cq_pool r)" "iso_shape (cq_date r)" "\<not> blank (cq_rules r)"
    "\<not> blank (cq_requester r)" "kind_of r \<in> set run_kinds"
proof -
  from assms have "run_of pool_char 2 32 (cq_pool r)" by (auto simp: validate_initiation_def split: if_splits)
  then show "\<not> blank (cq_pool r)" by (rule run_of_not_blank) simp
  show "is_uuid (cq_run r)" "is_uuid (cq_correlation r)" "iso_shape (cq_date r)" "\<not> blank (cq_rules r)" "\<not> blank (cq_requester r)"
    using assms by (auto simp: validate_initiation_def split: if_splits)
  from assms have "\<not> (case cq_kind r of None \<Rightarrow> False | Some k \<Rightarrow> k \<notin> set run_kinds)"
    by (auto simp: validate_initiation_def split: if_splits)
  then show "kind_of r \<in> set run_kinds" by (cases "cq_kind r") (auto simp: kind_of_def run_kinds_def)
qed

definition worker_request :: "string \<Rightarrow> initiate_request \<Rightarrow> calc_request" where
  "worker_request correlation r = \<lparr>cq_run = cq_run r, cq_pool = cq_pool r, cq_date = cq_date r, cq_rules = cq_rules r,
     cq_correlation = correlation, cq_requester = cq_requester r, cq_kind = Some (kind_of r)\<rparr>"

lemma requested_message_read:
  assumes "validate_initiation r = Inr ()" "is_uuid c"
  shows "calc_request_of (requested_message stamp c r) = Inr (worker_request c r)" "validate_request (worker_request c r) = Inr ()"
proof -
  note v = validate_initiation_Inr [OF assms(1)]
  have ne: "cq_run r \<noteq> []" "cq_pool r \<noteq> []" "cq_date r \<noteq> []" "cq_rules r \<noteq> []" "cq_requester r \<noteq> []"
    using v is_uuid_not_Nil by (auto simp: iso_shape_def)
  from ne v(7) show "calc_request_of (requested_message stamp c r) = Inr (worker_request c r)"
    by (simp add: calc_request_of_def requested_message_def calc_field_def optional_run_kind_def worker_request_def)
  show "validate_request (worker_request c r) = Inr ()"
    using v assms(2) by (simp add: validate_request_def worker_request_def)
qed

text \<open>
  C32. In every reachable state a run that has left its draft state was calculated completely: its allocations
  name the participants of its snapshot, each once and in its currency, add up to exactly its amount,
  and each has its explanation; a draft run has none.
\<close>

theorem calculated_runs_conserve:
  assumes "calc_reachable uuid lib db" "x \<in> set (kd_runs db)"
  shows "if kr_status x = Run_Draft then run_allocations (kr_id x) db = [] \<and> run_explanations (kr_id x) db = []
     else (\<exists>s u. kr_snapshot x = Some s \<and> kr_amount x = Some u \<and> kr_currency x = Some (sn_currency_code s)
       \<and> (let as = run_allocations (kr_id x) db in
           as \<noteq> [] \<and> sum_list (map al_amount as) = u \<and> decimal_value (sn_amount s) = Some (of_int u / 10 ^ 12)
         \<and> distinct (map al_participant as) \<and> list_all (\<lambda>a. al_currency a = sn_currency_code s) as
         \<and> map (\<lambda>w. uuid (aw_participant w)) (sn_weights s) = map (\<lambda>a. Some (al_participant a)) as
         \<and> map xr_account (run_explanations (kr_id x) db) = map al_participant as))"
  using calc_reachable_inv [OF assms(1)] assms(2) unfolding calc_inv_def run_ok_def run_complete_def by blast

lemma queued_tables:
  assumes "initiate_calculation uuid jl collate stamp r db = (Inr (i, Queued), db')"
  defines "pool \<equiv> cq_pool r" and "date \<equiv> cq_date r"
  shows "\<exists>currency. (\<exists>p\<in>set (kd_pools db'). po_id p = pool \<and> po_status p = Pool_Active \<and> po_currency p = currency)
     \<and> filter (participant_valid pool date currency) (kd_participants db') \<noteq> []
     \<and> (\<forall>p\<in>set (filter (participant_valid pool date currency) (kd_participants db')).
          takes_part date db' (pv_account p) \<and> 0 \<le> pv_weight p
        \<and> (map_option snd (cq_basis r) = Some ''LATEST_POSITION'' \<longrightarrow> 0 < pv_weight p))
     \<and> (\<exists>d\<in>set (kd_results db'). dr_pool d = pool \<and> dr_date d = date \<and> dr_currency d = currency
        \<and> (d \<notin> set (kd_results db) \<longrightarrow> 0 < dr_amount d
           \<and> dr_amount d = income_total pool date currency db' - charge_total pool date currency db'
           \<and> (\<forall>c\<in>set (charges_of pool date currency db'). responsibility_of c db' \<noteq> None)))"
proof -
  from assms(1) obtain currency db1 db2 db3 c where q: "load_active_pool pool db = Inr currency"
    "prepare_participants r (case cq_basis r of None \<Rightarrow> [] | Some b \<Rightarrow> snd b) currency db = Inr db1"
    "prepare_distributable jl collate r currency db1 = Inr db2" "insert_run uuid r db2 = Inr db3"
    "db' = db3\<lparr>sd_outbox := sd_outbox db3 @ [requested_message stamp c r]\<rparr>"
    unfolding pool_def by (rule initiate_queued)
  note parts = prepare_participants_Inr [OF q(2), folded pool_def date_def]
  from parts(1) obtain ps where db1: "db1 = db\<lparr>kd_participants := kd_participants db @ ps\<rparr>" by blast
  from prepare_distributable_Inr [OF q(3), folded pool_def date_def] obtain ds where db2: "db2 = db1\<lparr>kd_results := kd_results db1 @ ds\<rparr>"
    and ds: "ds = [] \<and> (\<exists>d\<in>set (kd_results db1). (dr_pool d = pool \<and> dr_date d = date) \<and> dr_currency d = currency)
      \<or> (\<exists>d. ds = [d] \<and> (\<forall>e\<in>set (kd_results db1). \<not> (dr_pool e = pool \<and> dr_date e = date)) \<and> (dr_pool d = pool \<and> dr_date d = date)
        \<and> dr_currency d = currency \<and> 0 < dr_amount d
        \<and> dr_amount d = income_total pool date currency db1 - charge_total pool date currency db1
        \<and> (\<forall>c\<in>set (charges_of pool date currency db1). responsibility_of c db1 \<noteq> None))" by blast
  from q(4) obtain rows where db3: "db3 = db2\<lparr>kd_runs := kd_runs db2 @ rows\<rparr>" by (rule insert_run_Inr) blast
  have tables: "kd_participants db' = kd_participants db1" "kd_results db' = kd_results db @ ds" "kd_pools db' = kd_pools db"
    "kd_incomes db' = kd_incomes db1" "kd_adjustments db' = kd_adjustments db1" "kd_charges db' = kd_charges db1"
    "kd_policies db' = kd_policies db1" "sd_accounts db' = sd_accounts db" "sd_rows db' = sd_rows db"
    by (simp_all add: q(5) db3 db2 db1)
  have adjusted: "adjusted_amount date db' = adjusted_amount date db1"
    by (rule ext) (simp add: tables adjusted_amount_def adjustments_of_def)
  have governed: "responsibility_of e db' = responsibility_of e db1" for e by (simp add: tables responsibility_of_def)
  have same: "takes_part d db' j = takes_part d db j" "income_total pool date currency db' = income_total pool date currency db1"
    "charges_of pool date currency db' = charges_of pool date currency db1"
    "charge_total pool date currency db' = charge_total pool date currency db1" for d j
    by (simp_all add: tables takes_part_def income_total_def incomes_of_def adjusted charge_total_def pool_charges_def charges_of_def governed)
  have results: "kd_results db1 = kd_results db" by (simp add: db1)
  have basis: "map_option snd (cq_basis r) = Some ''LATEST_POSITION'' \<longrightarrow> (case cq_basis r of None \<Rightarrow> [] | Some b \<Rightarrow> snd b) = ''LATEST_POSITION''"
    by (cases "cq_basis r") simp_all
  have "\<exists>d\<in>set (kd_results db @ ds). dr_pool d = pool \<and> dr_date d = date \<and> dr_currency d = currency
        \<and> (d \<notin> set (kd_results db) \<longrightarrow> 0 < dr_amount d
           \<and> dr_amount d = income_total pool date currency db1 - charge_total pool date currency db1
           \<and> (\<forall>c\<in>set (charges_of pool date currency db1). responsibility_of c db1 \<noteq> None))"
    using ds unfolding results by auto
  then have "\<exists>d\<in>set (kd_results db'). dr_pool d = pool \<and> dr_date d = date \<and> dr_currency d = currency
        \<and> (d \<notin> set (kd_results db) \<longrightarrow> 0 < dr_amount d
           \<and> dr_amount d = income_total pool date currency db' - charge_total pool date currency db'
           \<and> (\<forall>c\<in>set (charges_of pool date currency db'). responsibility_of c db' \<noteq> None))"
    unfolding same tables governed .
  moreover have "\<exists>p\<in>set (kd_pools db'). po_id p = pool \<and> po_status p = Pool_Active \<and> po_currency p = currency"
    using load_active_pool_Inr [OF q(1)] by (simp add: tables)
  moreover have "filter (participant_valid pool date currency) (kd_participants db') \<noteq> []" using parts(2) by (simp add: tables)
  moreover have "\<forall>p\<in>set (filter (participant_valid pool date currency) (kd_participants db')).
          takes_part date db' (pv_account p) \<and> 0 \<le> pv_weight p
        \<and> (map_option snd (cq_basis r) = Some ''LATEST_POSITION'' \<longrightarrow> 0 < pv_weight p)"
    unfolding same tables(1) using parts(3) basis by blast
  ultimately show ?thesis by blast
qed

text \<open>The row of the run and its message.\<close>

lemma queued_row:
  assumes "initiate_calculation uuid jl collate stamp r db = (Inr (i, Queued), db')"
  obtains j c where "uuid (cq_run r) = Some j" "uuid (cq_correlation r) = Some c" "j \<notin> kr_id ` set (kd_runs db)"
    "last (sd_outbox db') = requested_message stamp c r"
    "kd_runs db' = kd_runs db @ [\<lparr>kr_id = j, kr_pool = cq_pool r, kr_date = cq_date r, kr_rules = cq_rules r,
       kr_revision = 1, kr_correlation = c, kr_maker = Some (cq_requester r), kr_kind = kind_of r, kr_status = Run_Draft,
       kr_input = None, kr_output = None, kr_snapshot = None, kr_amount = None, kr_currency = None\<rparr>]"
proof -
  from assms obtain currency db1 db2 db3 c where q: "load_active_pool (cq_pool r) db = Inr currency"
    "prepare_participants r (case cq_basis r of None \<Rightarrow> [] | Some b \<Rightarrow> snd b) currency db = Inr db1"
    "prepare_distributable jl collate r currency db1 = Inr db2" "insert_run uuid r db2 = Inr db3"
    "uuid (cq_correlation r) = Some c" "db' = db3\<lparr>sd_outbox := sd_outbox db3 @ [requested_message stamp c r]\<rparr>"
    by (rule initiate_queued)
  from prepare_participants_Inr(1) [OF q(2)] prepare_distributable_Inr [OF q(3)]
  have runs: "kd_runs db2 = kd_runs db" by fastforce
  show ?thesis
    by (rule insert_run_Inr [OF q(4)]) (rule that, use q(5,6) runs in auto)
qed

text \<open>
  C33. When a run is queued for the first time, its pool is active, its participants on the business date are
  present and all have an active account and an active accepted contract, and its distributable amount
  exists; one that was computed now is positive and is the realized income with its adjustments less the
  charges the pool answers for, every charge being governed by a policy.
\<close>

theorem queued_run_prepared:
  assumes "initiate_calculation uuid jl collate stamp r db = (Inr (i, Queued), db')"
  defines "pool \<equiv> cq_pool r" and "date \<equiv> cq_date r"
  shows "\<exists>currency. (\<exists>p\<in>set (kd_pools db'). po_id p = pool \<and> po_status p = Pool_Active \<and> po_currency p = currency)
     \<and> filter (participant_valid pool date currency) (kd_participants db') \<noteq> []
     \<and> (\<forall>p\<in>set (filter (participant_valid pool date currency) (kd_participants db')).
          takes_part date db' (pv_account p) \<and> 0 \<le> pv_weight p
        \<and> (map_option snd (cq_basis r) = Some ''LATEST_POSITION'' \<longrightarrow> 0 < pv_weight p))
     \<and> (\<exists>d\<in>set (kd_results db'). dr_pool d = pool \<and> dr_date d = date \<and> dr_currency d = currency
        \<and> (d \<notin> set (kd_results db) \<longrightarrow> 0 < dr_amount d
           \<and> dr_amount d = income_total pool date currency db' - charge_total pool date currency db'
           \<and> (\<forall>c\<in>set (charges_of pool date currency db'). responsibility_of c db' \<noteq> None)))"
  unfolding pool_def date_def by (rule queued_tables [OF assms(1)])

lemma load_snapshot_Inr:
  assumes "load_snapshot r db = Inr s"
  shows "\<exists>d\<in>set (kd_results db). \<exists>p\<in>set (kd_pools db). dr_pool d = cq_pool r \<and> dr_date d = cq_date r \<and> po_id p = cq_pool r
    \<and> po_status p = Pool_Active \<and> sn_amount s = render_units 12 (dr_amount d) \<and> sn_scale s = of_js (int (po_scale p))"
proof -
  let ?pairs = "[(d, p). d \<leftarrow> kd_results db, p \<leftarrow> kd_pools db, po_id p = dr_pool d \<and> po_status p = Pool_Active
        \<and> dr_pool d = cq_pool r \<and> dr_date d = cq_date r]"
  from assms obtain d p rest where pairs: "?pairs = (d, p) # rest"
    and s: "sn_amount s = render_units 12 (dr_amount d)" "sn_scale s = of_js (int (po_scale p))"
    unfolding load_snapshot_def by (cases ?pairs) (auto simp: Let_def)
  have "(d, p) \<in> set ?pairs" unfolding pairs by simp
  then have "d \<in> set (kd_results db)" "p \<in> set (kd_pools db)" "po_id p = dr_pool d" "po_status p = Pool_Active"
    "dr_pool d = cq_pool r" "dr_date d = cq_date r" by (auto split: if_splits)
  with s show ?thesis by auto
qed

text \<open>
  A run can be calculated only for a pool whose amounts have scale twelve: the amount is read from a column
  with twelve decimals, which every smaller scale refuses, so for such a pool the worker always fails.
\<close>

lemma calculation_needs_full_scale:
  assumes "execute_calculation uuid lib reads jl r db = (Inr (Calculated_Now, checksum), db')"
  shows "\<exists>p\<in>set (kd_pools db). po_id p = cq_pool r \<and> po_status p = Pool_Active \<and> po_scale p = 12"
proof -
  from assms have run: "execute_calculation_atomically uuid (calculate lib reads jl r) r db = Inr ((Calculated_Now, checksum), db')"
    by (auto simp: execute_calculation_def outcome)
  then obtain i db1 where draft: "run_from_draft uuid (calculate lib reads jl r) i r db1 = Inr ((Calculated_Now, checksum), db')"
    and pools: "kd_pools db1 = kd_pools db"
    by (auto simp: execute_calculation_atomically_def and_then_Inr insert_run_def as_simps split: option.splits if_splits)
  then obtain s c where s: "load_snapshot r db1 = Inr s" and "calculate lib reads jl r s = Inr c"
    by (auto simp: run_from_draft_def and_then_Inr)
  then obtain m where m: "money_parse (sn_amount s) (sn_currency_code s) (sn_scale s) = Inr m" by (auto elim: calculate_Inr)
  from load_snapshot_Inr [OF s] obtain d :: distributable_row and p where p: "p \<in> set (kd_pools db1)" "po_id p = cq_pool r" "po_status p = Pool_Active"
    and units: "sn_amount s = render_units 12 (dr_amount d)" "sn_scale s = of_js (int (po_scale p))" by blast
  have "po_scale p \<le> 12" using m units(2) by (auto simp: money_parse_def int_between_def split: if_splits)
  moreover have "\<not> po_scale p < 12"
    using numeric_text_unreadable [of "po_scale p" "dr_amount d" "sn_currency_code s"] m by (auto simp: numeric_text_def units ok_iff)
  ultimately show ?thesis using p pools by auto
qed

section \<open>The worker calculates a queued run\<close>

text \<open>An account is found with the currency and the status that the constraints give it.\<close>

lemma takes_part_valid:
  assumes schema: "schema_ok uuid db" and q: "q \<in> set (kd_participants db)" "participant_valid (cq_pool r) (cq_date r) currency q"
    and part: "takes_part (cq_date r) db (pv_account q)"
  shows "q \<in> set (valid_participants r currency db)"
proof -
  from part obtain a where a: "a \<in> set (sd_accounts db)" "oa_id a = pv_account q" "oa_status a = Oa_Active"
    by (auto simp: takes_part_def)
  from schema q(1) obtain b where b: "b \<in> set (sd_accounts db)" "oa_id b = pv_account q" "oa_currency b = pv_currency q"
    by (auto simp: schema_ok_def)
  have "a = b" by (rule distinct_key_eq [of oa_id "sd_accounts db"]) (use schema a b in \<open>auto simp: schema_ok_def\<close>)
  with a b q show ?thesis by (auto simp: valid_participants_def)
qed

text \<open>A draft is executed; executing the calculated run again returns what is stored.\<close>

lemma execute_draft:
  assumes "uuid (cq_run r) = Some i" "find (\<lambda>x. kr_id x = i) (kd_runs db) = Some run" "same_run_inputs r run"
    "kr_status run = Run_Draft" "run_from_draft uuid compute i r db = Inr (result, db')"
  shows "execute_calculation_atomically uuid compute r db = Inr (result, db')"
  using assms by (simp add: execute_calculation_atomically_def as_uuid_def)

lemma execute_again:
  assumes "uuid (cq_run r) = Some i" "find (\<lambda>x. kr_id x = i) (kd_runs db) = Some run" "same_run_inputs r run"
    "kr_status run = Run_Calculated" "kr_output run = Some checksum" "checksum \<noteq> []"
  shows "execute_calculation_atomically uuid compute r db = Inr ((Already_Calculated, checksum), db)"
  using assms by (simp add: execute_calculation_atomically_def as_uuid_def truthy_def or_empty_def)

lemma calculation_effect_Inr:
  assumes "calc_request_of m = Inr r" "validate_request r = Inr ()"
    "execute_calculation_atomically uuid (calculate lib reads jl r) r db = Inr ((e, checksum), db')"
  shows "calculation_effect uuid lib reads jl m db = (Inr (Some checksum), db')"
  using assms by (simp add: calculation_effect_def execute_calculation_def outcome)

lemma find_fresh: "k \<notin> f ` set xs \<Longrightarrow> f y = k \<Longrightarrow> find (\<lambda>x. f x = k) (xs @ [y]) = Some y"
  by (induction xs) auto

lemma queued_calculated:
  fixes lib :: "'d decimal_lib"
  assumes inv: "calc_inv uuid db'" and queued: "initiate_calculation uuid jl collate stamp r db = (Inr (i, Queued), db')"
    and basis: "map_option snd (cq_basis r) = Some ''LATEST_POSITION''"
    and schema: "schema_ok uuid db'" and texts: "uuid_texts uuid" and reads: "reads_decimals reads"
    and scale: "\<forall>p\<in>set (kd_pools db'). po_id p = cq_pool r \<longrightarrow> po_scale p = 12"
  defines "worker \<equiv> calculation_effect uuid lib reads jl (last (sd_outbox db'))"
  shows "\<exists>request checksum db2. execute_calculation uuid lib reads jl request db' = (Inr (Calculated_Now, checksum), db2)
     \<and> worker db' = (Inr (Some checksum), db2)
     \<and> (\<exists>x\<in>set (kd_runs db2). uuid (cq_run r) = Some (kr_id x) \<and> kr_status x = Run_Calculated \<and> kr_output x = Some checksum)
     \<and> (checksum \<noteq> [] \<longrightarrow> worker db2 = (Inr (Some checksum), db2))"
proof -
  have valid: "validate_initiation r = Inr ()" using queued by (auto simp: initiate_calculation_def outcome)
  let ?row = "\<lambda>j c. \<lparr>kr_id = j, kr_pool = cq_pool r, kr_date = cq_date r, kr_rules = cq_rules r,
       kr_revision = 1, kr_correlation = c, kr_maker = Some (cq_requester r), kr_kind = kind_of r, kr_status = Run_Draft,
       kr_input = None, kr_output = None, kr_snapshot = None, kr_amount = None, kr_currency = None\<rparr>"
  obtain j c where j: "uuid (cq_run r) = Some j" and c: "uuid (cq_correlation r) = Some c"
    and new: "j \<notin> kr_id ` set (kd_runs db)"
    and m: "last (sd_outbox db') = requested_message stamp c r" and runs: "kd_runs db' = kd_runs db @ [?row j c]"
    by (rule queued_row [OF queued])
  have "is_uuid c" using texts c validate_initiation_Inr(2) [OF valid] by (auto simp: uuid_texts_def)
  note msg = requested_message_read(1) [OF valid this, of stamp, folded m] requested_message_read(2) [OF valid this]
  let ?r = "worker_request c r"
  have r: "cq_run ?r = cq_run r" "cq_pool ?r = cq_pool r" "cq_date ?r = cq_date r" by (simp_all add: worker_request_def)
  have found: "find (\<lambda>x. kr_id x = j) (kd_runs db') = Some (?row j c)" unfolding runs by (rule find_fresh [OF new]) simp
  note draft = find_draft [OF found inv]
  have same: "same_run_inputs ?r (?row j c)" by (simp add: same_run_inputs_def worker_request_def kind_of_def)
  from queued_tables [OF queued] obtain currency p d where
    p: "p \<in> set (kd_pools db')" "po_id p = cq_pool ?r" "po_status p = Pool_Active"
    and ne: "filter (participant_valid (cq_pool r) (cq_date r) currency) (kd_participants db') \<noteq> []"
    and parts: "\<forall>p\<in>set (filter (participant_valid (cq_pool r) (cq_date r) currency) (kd_participants db')).
          takes_part (cq_date r) db' (pv_account p) \<and> 0 \<le> pv_weight p
        \<and> (map_option snd (cq_basis r) = Some ''LATEST_POSITION'' \<longrightarrow> 0 < pv_weight p)"
    and d: "d \<in> set (kd_results db')" "dr_pool d = cq_pool ?r" "dr_date d = cq_date ?r" "dr_currency d = currency"
    unfolding r by blast
  from ne obtain q where q: "q \<in> set (filter (participant_valid (cq_pool r) (cq_date r) currency) (kd_participants db'))"
    by (auto simp: filter_empty_conv)
  with parts basis have part: "takes_part (cq_date ?r) db' (pv_account q)" and pos: "0 < pv_weight q" unfolding r by blast+
  from q have q2: "q \<in> set (kd_participants db')" "participant_valid (cq_pool ?r) (cq_date ?r) (dr_currency d) q" by (simp_all add: r d(4))
  note qv = takes_part_valid [OF schema q2 part]
  have twelve: "po_scale p = 12" using scale p by (simp add: r)
  obtain s cc as es where run: "run_from_draft uuid (calculate lib reads jl ?r) j ?r db' = Inr ((Calculated_Now, cc_output_checksum cc),
     db'\<lparr>kd_allocations := kd_allocations db' @ as, kd_explanations := kd_explanations db' @ es,
       kd_runs := map (complete_run j s cc (dr_amount d)) (kd_runs db')\<rparr>)"
    using run_from_draft_ok [OF schema reads d(1-3) p twelve qv pos draft(2,3)] by fastforce
  obtain db2 where db2: "run_from_draft uuid (calculate lib reads jl ?r) j ?r db' = Inr ((Calculated_Now, cc_output_checksum cc), db2)"
    and runs1: "kd_runs db2 = map (complete_run j s cc (dr_amount d)) (kd_runs db')" using run by simp
  obtain x where x: "x = complete_run j s cc (dr_amount d) (?row j c)" by blast
  have finished: "kr_id x = j" "same_run_inputs ?r x" "kr_status x = Run_Calculated" "kr_output x = Some (cc_output_checksum cc)"
    using same by (simp_all add: x complete_run_def same_run_inputs_def)
  have keep: "map (complete_run j s cc (dr_amount d)) (kd_runs db) = kd_runs db"
    by (rule map_idI) (use new in \<open>auto simp: complete_run_def\<close>)
  have runs2: "kd_runs db2 = kd_runs db @ [x]" by (simp add: runs1 runs keep x)
  have found2: "find (\<lambda>x. kr_id x = j) (kd_runs db2) = Some x" unfolding runs2 by (rule find_fresh [OF new finished(1)])
  have jr: "uuid (cq_run ?r) = Some j" by (simp add: r j)
  have "execute_calculation_atomically uuid (calculate lib reads jl ?r) ?r db' = Inr ((Calculated_Now, cc_output_checksum cc), db2)"
    by (rule execute_draft [OF jr found same _ db2]) simp
  with msg(2) have now: "execute_calculation uuid lib reads jl ?r db' = (Inr (Calculated_Now, cc_output_checksum cc), db2)"
    and effect: "calculation_effect uuid lib reads jl (last (sd_outbox db')) db' = (Inr (Some (cc_output_checksum cc)), db2)"
    using calculation_effect_Inr [OF msg] by (simp_all add: execute_calculation_def outcome)
  have first: "worker db' = (Inr (Some (cc_output_checksum cc)), db2)" using effect by (simp add: worker_def)
  have again: "worker db2 = (Inr (Some (cc_output_checksum cc)), db2)" if "cc_output_checksum cc \<noteq> []"
    unfolding worker_def
    by (rule calculation_effect_Inr [OF msg]) (rule execute_again [where uuid = uuid, OF jr found2 finished(2-4) that])
  have "x \<in> set (kd_runs db2)" unfolding runs2 by simp
  with now first again finished j show ?thesis by blast
qed

text \<open>
  C34. A run that was queued for the first time, on the latest positions and for a pool of scale twelve, is
  calculated when its message is delivered: no step throws, the run is calculated with the checksum that
  is returned, and delivering the message again returns the same and changes nothing.
\<close>

theorem queued_run_is_calculated:
  assumes "calc_reachable uuid lib db" "initiate_calculation uuid jl collate stamp r db = (Inr (i, Queued), db')"
    and "map_option snd (cq_basis r) = Some ''LATEST_POSITION''" "schema_ok uuid db'" "uuid_texts uuid" "reads_decimals reads"
    and "\<forall>p\<in>set (kd_pools db'). po_id p = cq_pool r \<longrightarrow> po_scale p = 12"
  shows "\<exists>checksum db2. calculation_effect uuid lib reads jl (last (sd_outbox db')) db' = (Inr (Some checksum), db2)
     \<and> (\<exists>x\<in>set (kd_runs db2). uuid (cq_run r) = Some (kr_id x) \<and> kr_status x = Run_Calculated \<and> kr_output x = Some checksum)
     \<and> (checksum \<noteq> [] \<longrightarrow>
        calculation_effect uuid lib reads jl (last (sd_outbox db')) db2 = (Inr (Some checksum), db2))"
  using queued_calculated [OF initiate_inv [OF assms(2) calc_reachable_inv [OF assms(1)]] assms(2-), where lib = lib] by blast

section \<open>An example\<close>

definition run_example_id :: "char \<Rightarrow> string" where
  "run_example_id c = ''00000000-0000-4000-8000-00000000000'' @ [c]"

definition run_example_uuid :: "string \<Rightarrow> string option" where
  "run_example_uuid s = (if is_uuid s then Some s else None)"

definition run_example_json :: json_lib where
  "run_example_json = \<lparr>locale_compare = (\<lambda>_ _. 0), print_number = (\<lambda>_. []), sha256 = (\<lambda>_. ''h'')\<rparr>"

definition run_example_date :: string where
  "run_example_date = ''2026-01-02''"

definition run_example_request :: initiate_request where
  "run_example_request = \<lparr>cq_run = run_example_id (CHR ''1''), cq_pool = ''P1'', cq_date = run_example_date, cq_rules = ''R1'',
     cq_correlation = run_example_id (CHR ''2''), cq_requester = ''maker'', cq_kind = None,
     cq_basis = Some (''ACTIVE_SUBSCRIPTIONS'', ''LATEST_POSITION'')\<rparr>"

definition run_example_participant :: participant_row where
  "run_example_participant = \<lparr>pv_pool = ''P1'', pv_account = run_example_id (CHR ''3''), pv_currency = ''TND'', pv_weight = 7 * 10 ^ 12,
     pv_from = run_example_date, pv_until = None\<rparr>"

definition run_example_account :: operational_row where
  "run_example_account = \<lparr>oa_id = run_example_id (CHR ''3''), oa_token = ''t'', oa_product = ''MUD'', oa_currency = ''TND'',
     oa_opened = run_example_date, oa_status = Oa_Active, oa_closed = None\<rparr>"

definition run_example_contract :: sub_row where
  "run_example_contract = \<lparr>sr_account = run_example_id (CHR ''3''), sr_customer = run_example_id (CHR ''4''),
     sr_product = run_example_id (CHR ''5''), sr_terms = run_example_id (CHR ''6''), sr_version = ''V1'', sr_investor = 60000000,
     sr_bank = 40000000, sr_currency = ''TND'', sr_status = Sub_Active, sr_opened = Some run_example_date, sr_maturity = None,
     sr_closed = None, sr_accepted_at = Some ''now'', sr_accepted_by = Some ''client'', sr_guarantee = True, sr_method = True\<rparr>"

definition run_example_db :: calc_db where
  "run_example_db = \<lparr>cm_profiles = [], cm_restrictions = [], sd_rows = [run_example_contract], sd_events = [], sd_commands = [],
     sd_accounts = [run_example_account], sd_products = [], sd_outbox = [],
     kd_pools = [\<lparr>po_id = ''P1'', po_currency = ''TND'', po_scale = 12, po_status = Pool_Active\<rparr>], kd_participants = [], kd_results = [],
     kd_positions = [\<lparr>ps_account = run_example_id (CHR ''3''), ps_business = run_example_date, ps_value = run_example_date, ps_created = 0,
       ps_currency = ''TND'', ps_balance = 7 * 10 ^ 12\<rparr>],
     kd_incomes = [\<lparr>ic_id = run_example_id (CHR ''7''), ic_pool = ''P1'', ic_date = run_example_date, ic_currency = ''TND'',
       ic_amount = 10 ^ 14, ic_realized = True\<rparr>],
     kd_adjustments = [], kd_charges = [], kd_policies = [], kd_runs = [], kd_allocations = [], kd_explanations = []\<rparr>"

definition run_example_result :: distributable_row where
  "run_example_result = \<lparr>dr_pool = ''P1'', dr_date = run_example_date, dr_amount = 10 ^ 14, dr_currency = ''TND'',
     dr_source = ''REVENUE_CHARGES_SHA256:h''\<rparr>"

definition run_example_row :: calc_run where
  "run_example_row = \<lparr>kr_id = run_example_id (CHR ''1''), kr_pool = ''P1'', kr_date = run_example_date, kr_rules = ''R1'',
     kr_revision = 1, kr_correlation = run_example_id (CHR ''2''), kr_maker = Some ''maker'', kr_kind = ''PARALLEL'',
     kr_status = Run_Draft, kr_input = None, kr_output = None, kr_snapshot = None, kr_amount = None, kr_currency = None\<rparr>"

definition run_example_queued :: calc_db where
  "run_example_queued = run_example_db\<lparr>kd_participants := [run_example_participant], kd_results := [run_example_result],
     kd_runs := [run_example_row],
     sd_outbox := [requested_message (''e'', ''t'') (run_example_id (CHR ''2'')) run_example_request]\<rparr>"

lemma run_example_ids: "is_uuid (run_example_id (CHR ''1''))" "is_uuid (run_example_id (CHR ''2''))" "is_uuid (run_example_id (CHR ''3''))"
  by code_simp+

lemma run_example_as_date: "calendar_date run_example_date" "as_date run_example_date = Inr run_example_date" "iso_shape run_example_date"
  by (simp_all add: run_example_date_def as_date_def calendar_date_iff iso_shape_def valid_date_def iso_year_def iso_month_def iso_day_def
      month_length_def leap_year_def char_class_defs digits_eval)

lemma run_example_valid: "validate_initiation run_example_request = Inr ()"
proof -
  have "run_of pool_char 2 32 ''P1''" "\<not> blank ''R1''" "\<not> blank ''maker''" by code_simp+
  then show ?thesis by (simp add: validate_initiation_def run_example_request_def run_example_ids run_example_as_date)
qed

lemma run_example_participants:
  "prepare_participants run_example_request ''LATEST_POSITION'' ''TND'' run_example_db
     = Inr (run_example_db\<lparr>kd_participants := [run_example_participant]\<rparr>)"
proof -
  have "load_active_subscriptions run_example_date ''TND'' ''LATEST_POSITION'' run_example_db = Inr [(run_example_id (CHR ''3''), 7)]"
    by (simp add: load_active_subscriptions_def active_pairs_def run_example_db_def run_example_contract_def run_example_account_def
      contract_open_def not_after_def subscription_weight_def latest_balance_def Let_def positive_weights_def)
  moreover have "fit_numeric 7 = Inr (7 * 10 ^ 12)" using round_away_of_int [of "7 * 10 ^ 12"] by (simp add: fit_numeric_def Let_def)
  ultimately show ?thesis
    by (simp add: prepare_participants_def run_example_request_def run_example_db_def insert_participant_def
      run_example_participant_def Let_def)
qed

lemma run_example_distributable:
  "prepare_distributable run_example_json text_order run_example_request ''TND'' (run_example_db\<lparr>kd_participants := [run_example_participant]\<rparr>)
     = Inr (run_example_db\<lparr>kd_participants := [run_example_participant], kd_results := [run_example_result]\<rparr>)"
proof -
  let ?db = "run_example_db\<lparr>kd_participants := [run_example_participant]\<rparr>"
  have income: "income_total ''P1'' run_example_date ''TND'' ?db = 10 ^ 14"
    by (simp add: income_total_def incomes_of_def adjusted_amount_def adjustments_of_def run_example_db_def)
  have charge: "charge_total ''P1'' run_example_date ''TND'' ?db = 0" "ungoverned_charges text_order ''P1'' run_example_date ''TND'' ?db = []"
    by (simp_all add: charge_total_def pool_charges_def ungoverned_charges_def charges_of_def run_example_db_def)
  have "compute_distributable run_example_json ''P1'' run_example_date ''TND'' ?db = Inr run_example_result"
    unfolding compute_distributable_def income charge
    using numeric_cast_fits [of "10 ^ 14"] positive_decimal_render [of "10 ^ 14"]
    by (simp add: Let_def incomes_of_def run_example_db_def run_example_result_def run_example_json_def)
  with charge show ?thesis
    by (simp add: prepare_distributable_def Let_def run_example_request_def) (simp add: run_example_db_def)
qed

lemma run_example_initiated:
  "initiate_calculation run_example_uuid run_example_json text_order (''e'', ''t'') run_example_request run_example_db
     = (Inr (run_example_id (CHR ''1''), Queued), run_example_queued)"
proof -
  let ?db = "run_example_db\<lparr>kd_participants := [run_example_participant], kd_results := [run_example_result]\<rparr>"
  have uuids: "run_example_uuid (run_example_id (CHR ''1'')) = Some (run_example_id (CHR ''1''))"
    "run_example_uuid (run_example_id (CHR ''2'')) = Some (run_example_id (CHR ''2''))" by (simp_all add: run_example_uuid_def run_example_ids)
  have none: "find_queued run_example_uuid run_example_request run_example_db = Inr None"
    by (simp add: find_queued_def run_example_request_def as_uuid_def uuids run_example_as_date run_example_db_def)
  have pool: "load_active_pool (cq_pool run_example_request) run_example_db = Inr ''TND''"
    by (simp add: load_active_pool_def run_example_request_def run_example_db_def)
  have basis: "(case cq_basis run_example_request of None \<Rightarrow> [] | Some b \<Rightarrow> snd b) = ''LATEST_POSITION''"
    by (simp add: run_example_request_def)
  have "insert_run_and_outbox run_example_uuid (''e'', ''t'') run_example_request ?db = Inr run_example_queued"
    by (simp add: insert_run_and_outbox_def insert_run_def run_example_request_def as_uuid_def uuids run_example_as_date
      run_example_row_def kind_of_def run_kinds_def run_example_queued_def run_example_db_def)
  moreover have "cq_run run_example_request = run_example_id (CHR ''1'')" by (simp add: run_example_request_def)
  ultimately have "prepare_and_enqueue run_example_uuid run_example_json text_order (''e'', ''t'') run_example_request run_example_db
      = Inr ((run_example_id (CHR ''1''), Queued), run_example_queued)"
    by (simp add: prepare_and_enqueue_def none pool basis run_example_participants run_example_distributable)
  then show ?thesis by (simp add: initiate_calculation_def outcome run_example_valid)
qed

lemma run_example_texts: "is_currency_code ''TND''" "run_example_id c \<noteq> []"
  by (code_simp, simp add: run_example_id_def)

lemma run_example_schema: "schema_ok run_example_uuid run_example_queued"
  by (simp add: schema_ok_def run_example_queued_def run_example_db_def run_example_result_def run_example_participant_def
    run_example_account_def run_example_uuid_def run_example_ids run_example_texts)

lemma run_example_laws: "uuid_texts run_example_uuid" "reads_decimals (\<lambda>_. True)"
  by (auto simp: uuid_texts_def run_example_uuid_def reads_decimals_def)

lemma run_example_start: "calc_reachable run_example_uuid exact_lib run_example_db"
  by (rule calc_reachable.start) (simp_all add: run_example_db_def)

lemma run_example_ready: "map_option snd (cq_basis run_example_request) = Some ''LATEST_POSITION''"
  "\<forall>p\<in>set (kd_pools run_example_queued). po_id p = cq_pool run_example_request \<longrightarrow> po_scale p = 12"
  by (simp_all add: run_example_request_def run_example_queued_def run_example_db_def)

lemma run_example_inv: "calc_inv run_example_uuid run_example_queued"
  by (rule initiate_inv [OF run_example_initiated calc_reachable_inv [OF run_example_start]])

text \<open>The run of the example is calculated.\<close>

lemma run_example_calculated:
  obtains request checksum db2 x where
    "execute_calculation run_example_uuid exact_lib (\<lambda>_. True) run_example_json request run_example_queued
       = (Inr (Calculated_Now, checksum), db2)"
    "calc_reachable run_example_uuid exact_lib db2" "x \<in> set (kd_runs db2)" "kr_status x = Run_Calculated"
proof -
  from queued_calculated [OF run_example_inv run_example_initiated run_example_ready(1) run_example_schema run_example_laws
    run_example_ready(2), where lib = exact_lib]
  obtain request checksum db2 x where run: "execute_calculation run_example_uuid exact_lib (\<lambda>_. True) run_example_json request
      run_example_queued = (Inr (Calculated_Now, checksum), db2)" and x: "x \<in> set (kd_runs db2)" "kr_status x = Run_Calculated" by blast
  have "calc_reachable run_example_uuid exact_lib run_example_queued"
    by (rule calc_reachable.step [OF run_example_start calc_step.initiate [OF run_example_initiated]])
  then have "calc_reachable run_example_uuid exact_lib db2" by (rule calc_reachable.step) (rule calc_step.execute [OF run])
  with run x show ?thesis by (intro that)
qed

theorem calculated_runs_conserve_witness:
  "\<exists>db x. calc_reachable run_example_uuid exact_lib db \<and> x \<in> set (kd_runs db) \<and> kr_status x = Run_Calculated
     \<and> (\<exists>u. kr_amount x = Some u \<and> sum_list (map al_amount (run_allocations (kr_id x) db)) = u)"
proof (rule run_example_calculated)
  fix request checksum db x
  assume "calc_reachable run_example_uuid exact_lib db" "x \<in> set (kd_runs db)" "kr_status x = Run_Calculated"
  with calculated_runs_conserve [OF this(1,2)] show ?thesis by (auto simp: Let_def)
qed

theorem queued_run_prepared_witness:
  "\<exists>currency. (\<exists>p\<in>set (kd_pools run_example_queued). po_id p = cq_pool run_example_request \<and> po_currency p = currency)
     \<and> filter (participant_valid (cq_pool run_example_request) (cq_date run_example_request) currency)
         (kd_participants run_example_queued) \<noteq> []"
  using queued_run_prepared [OF run_example_initiated] by blast

theorem queued_run_is_calculated_witness:
  "\<exists>checksum db. calculation_effect run_example_uuid exact_lib (\<lambda>_. True) run_example_json
       (last (sd_outbox run_example_queued)) run_example_queued = (Inr (Some checksum), db)"
  using queued_run_is_calculated [OF run_example_start run_example_initiated run_example_ready(1) run_example_schema
    run_example_laws run_example_ready(2)] by blast

end
