(* ===== verification/Product.thy ===== *)
theory Product
  imports Subscription
begin

text \<open>
  Investment products, the versions of their terms and the references they rest on: the aggregates of
  \<open>src/modules/products/domain\<close> and the checks and commands of \<open>src/modules/products/application\<close>.
  SHA-256 is a parameter.
\<close>

section \<open>Percentages\<close>

text \<open>\<open>/^(?:0|[1-9]\d{0,2})(?:\.\d{1,6})?$/\<close>, in millionths and at most one hundred.\<close>

definition millionths :: "js_error \<Rightarrow> js_error \<Rightarrow> string \<Rightarrow> nat res" where
  "millionths bad_shape bad_range s = (case unsigned_decimal s of
     None \<Rightarrow> Inl bad_shape
   | Some (i, f) \<Rightarrow>
       if length i > 3 \<or> length (fraction_text f) > 6 then Inl bad_shape
       else if units_of 6 i f > 100000000 then Inl bad_range else Inr (units_of 6 i f))"

definition to_millionths :: "string \<Rightarrow> nat res" where
  "to_millionths = millionths (TypeError ''Nisba must be a decimal percentage'') (RangeError ''Nisba must be between 0 and 100'')"

definition percentage :: "string \<Rightarrow> nat res" where
  "percentage = millionths (TypeError ''Percentage must be a decimal between 0 and 100'')
     (RangeError ''Percentage must be a decimal between 0 and 100'')"

text \<open>The shares are read first, both, and then compared with one hundred.\<close>

definition shares_total :: "(string \<Rightarrow> nat res) \<Rightarrow> string \<Rightarrow> string \<Rightarrow> unit res" where
  "shares_total read investor bank =
     and_then (read investor) (\<lambda>i. and_then (read bank) (\<lambda>b.
     if i + b \<noteq> 100000000 then Inl (Failure ''Investor and bank Nisba must total 100%'') else Inr ()))"

section \<open>The product\<close>

datatype product_status = Pr_Draft | Pr_Validated | Pr_Published | Pr_Suspended | Pr_Closed

record invest_product =
  ip_id :: string
  ip_code :: string
  ip_name :: string
  ip_investor :: string
  ip_bank :: string
  ip_sharia :: "string option"
  ip_validator :: "string option"
  ip_status :: product_status

record product_move =
  mv_from :: product_status
  mv_to :: product_status
  mv_actor :: string
  mv_justification :: string

definition product_status_name :: "product_status \<Rightarrow> string" where
  "product_status_name s = (case s of Pr_Draft \<Rightarrow> ''DRAFT'' | Pr_Validated \<Rightarrow> ''VALIDATED'' | Pr_Published \<Rightarrow> ''PUBLISHED''
     | Pr_Suspended \<Rightarrow> ''SUSPENDED'' | Pr_Closed \<Rightarrow> ''CLOSED'')"

definition product_code_char :: "char \<Rightarrow> bool" where
  "product_code_char c \<longleftrightarrow> is_upper c \<or> is_digit c \<or> c = CHR ''_'' \<or> c = CHR ''-''"

text \<open>\<open>!text?.trim()\<close>\<close>

definition missing_text :: "string option \<Rightarrow> bool" where
  "missing_text t = (case t of None \<Rightarrow> True | Some s \<Rightarrow> blank s)"

definition validate_draft :: "invest_product \<Rightarrow> unit res" where
  "validate_draft p =
     (if \<not> is_uuid (ip_id p) then Inl (TypeError ''Product identifier must be a UUID'')
      else if \<not> run_of product_code_char 2 32 (ip_code p) then Inl (TypeError ''Invalid product code'')
      else if length (trim (ip_name p)) < 3 then Inl (TypeError ''Product name must contain at least 3 characters'')
      else and_then (to_millionths (ip_investor p)) (\<lambda>_. and_then (to_millionths (ip_bank p)) (\<lambda>_. Inr ())))"

definition validate_product :: "invest_product \<Rightarrow> unit res" where
  "validate_product p =
     and_then (validate_draft p) (\<lambda>_.
     if ip_status p = Pr_Draft then Inr ()
     else if missing_text (ip_validator p) then Inl (Failure ''Validated product requires a validator identity'')
     else and_then (shares_total to_millionths (ip_investor p) (ip_bank p)) (\<lambda>_.
       if missing_text (ip_sharia p) then Inl (Failure ''Sharia reference is required for publication'') else Inr ()))"

definition product_draft :: "invest_product \<Rightarrow> invest_product res" where
  "product_draft input = and_then (validate_draft input) (\<lambda>_. Inr (input\<lparr>ip_status := Pr_Draft\<rparr>))"

definition product_restore :: "invest_product \<Rightarrow> invest_product res" where
  "product_restore p = and_then (validate_product p) (\<lambda>_. Inr p)"

definition move_product ::
  "product_status \<Rightarrow> string \<Rightarrow> string \<Rightarrow> product_status list \<Rightarrow> invest_product \<Rightarrow> (invest_product \<times> product_move) res" where
  "move_product to actor justification allowed p =
     (if ip_status p \<notin> set allowed
      then Inl (Failure (''Cannot transition product from '' @ product_status_name (ip_status p) @ '' to '' @ product_status_name to))
      else if blank actor then Inl (TypeError ''Transition actor is required'')
      else if length (trim justification) < 10
      then Inl (TypeError ''Transition justification must contain at least 10 characters'')
      else Inr (p\<lparr>ip_status := to\<rparr>,
        \<lparr>mv_from = ip_status p, mv_to = to, mv_actor = trim actor, mv_justification = trim justification\<rparr>))"

datatype product_action = Do_Validate | Do_Publish | Do_Suspend | Do_Resume | Do_Close

definition product_action_name :: "product_action \<Rightarrow> string" where
  "product_action_name a = (case a of Do_Validate \<Rightarrow> ''VALIDATE'' | Do_Publish \<Rightarrow> ''PUBLISH'' | Do_Suspend \<Rightarrow> ''SUSPEND''
     | Do_Resume \<Rightarrow> ''RESUME'' | Do_Close \<Rightarrow> ''CLOSE'')"

definition product_validate :: "string \<Rightarrow> string \<Rightarrow> invest_product \<Rightarrow> (invest_product \<times> product_move) res" where
  "product_validate actor justification p =
     and_then (move_product Pr_Validated actor justification [Pr_Draft] p) (\<lambda>(q, m).
     Inr (q\<lparr>ip_validator := Some (trim actor)\<rparr>, m))"

definition product_publish :: "string \<Rightarrow> string \<Rightarrow> invest_product \<Rightarrow> (invest_product \<times> product_move) res" where
  "product_publish actor justification p =
     and_then (shares_total to_millionths (ip_investor p) (ip_bank p)) (\<lambda>_.
     if missing_text (ip_sharia p) then Inl (Failure ''Sharia reference is required for publication'')
     else if ip_validator p = Some (trim actor) then Inl (Failure ''Product publication requires an independent checker'')
     else move_product Pr_Published actor justification [Pr_Validated] p)"

definition apply_product_action ::
  "product_action \<Rightarrow> string \<Rightarrow> string \<Rightarrow> invest_product \<Rightarrow> (invest_product \<times> product_move) res" where
  "apply_product_action a actor justification p = (case a of
     Do_Validate \<Rightarrow> product_validate actor justification p
   | Do_Publish \<Rightarrow> product_publish actor justification p
   | Do_Suspend \<Rightarrow> move_product Pr_Suspended actor justification [Pr_Published] p
   | Do_Resume \<Rightarrow> move_product Pr_Published actor justification [Pr_Suspended] p
   | Do_Close \<Rightarrow> move_product Pr_Closed actor justification [Pr_Published, Pr_Suspended] p)"

section \<open>Commands\<close>

record product_command =
  pc_key :: string
  pc_hash :: string
  pc_operation :: string

definition product_command_for :: "json_lib \<Rightarrow> string \<Rightarrow> string \<Rightarrow> string \<Rightarrow> string list \<Rightarrow> product_command res" where
  "product_command_for jl key operation actor values =
     (if \<not> safe_key 8 128 key then Inl (TypeError ''Idempotency-Key must contain 8 to 128 safe characters'')
      else Inr \<lparr>pc_key = key,
        pc_hash = sha256 jl (stringify jl (J_Array (map J_String ([operation, trim actor] @ values)))), pc_operation = operation\<rparr>)"

definition normalize_page :: "jsnum option \<Rightarrow> jsnum option \<Rightarrow> (int \<times> int) res" where
  "normalize_page limit offset =
     (let l = (case limit of None \<Rightarrow> of_js 50 | Some x \<Rightarrow> x); k = (case offset of None \<Rightarrow> of_js 0 | Some x \<Rightarrow> x) in
     case js_int l of
       None \<Rightarrow> Inl (RangeError ''limit must be an integer between 1 and 100'')
     | Some n \<Rightarrow> if n < 1 \<or> n > 100 then Inl (RangeError ''limit must be an integer between 1 and 100'')
         else (case js_int k of
             None \<Rightarrow> Inl (RangeError ''offset must be a non-negative integer'')
           | Some m \<Rightarrow> if m < 0 then Inl (RangeError ''offset must be a non-negative integer'') else Inr (n, m)))"

section \<open>Versions of the terms\<close>

datatype terms_status = Tv_Draft | Tv_Published | Tv_Retired

record terms_input =
  tv_product :: string
  tv_from :: string
  tv_until :: "string option"
  tv_investor :: string
  tv_bank :: string
  tv_target :: "string option"

record product_terms = terms_input +
  tv_id :: string
  tv_version :: jsnum
  tv_creator :: string
  tv_status :: terms_status
  tv_checksum :: "string option"
  tv_retroactive :: "string option"

definition terms_status_name :: "terms_status \<Rightarrow> string" where
  "terms_status_name s = (case s of Tv_Draft \<Rightarrow> ''DRAFT'' | Tv_Published \<Rightarrow> ''PUBLISHED'' | Tv_Retired \<Rightarrow> ''RETIRED'')"

definition effective_date :: "string \<Rightarrow> unit res" where
  "effective_date s = (if calendar_date s then Inr () else Inl (TypeError ''Invalid effective date''))"

definition validate_terms_draft :: "product_terms \<Rightarrow> unit res" where
  "validate_terms_draft t =
     (if \<not> is_uuid (tv_id t) \<or> \<not> is_uuid (tv_product t) then Inl (TypeError ''Product terms identifiers must be UUIDs'')
      else if blank (tv_creator t) then Inl (TypeError ''Product terms creator is required'')
      else if (case js_int (tv_version t) of None \<Rightarrow> True | Some n \<Rightarrow> n < 1)
      then Inl (TypeError ''Product terms version must be a positive integer'')
      else and_then (effective_date (tv_from t)) (\<lambda>_.
        and_then (if truthy (tv_until t)
          then and_then (effective_date (or_empty (tv_until t))) (\<lambda>_.
            if str_less (or_empty (tv_until t)) (tv_from t) then Inl (Failure ''Terms end date cannot precede start date'') else Inr ())
          else Inr ()) (\<lambda>_.
        and_then (shares_total percentage (tv_investor t) (tv_bank t)) (\<lambda>_.
        case tv_target t of None \<Rightarrow> Inr () | Some r \<Rightarrow> and_then (percentage r) (\<lambda>_. Inr ())))))"

definition validate_terms :: "product_terms \<Rightarrow> unit res" where
  "validate_terms t =
     and_then (validate_terms_draft t) (\<lambda>_.
     if tv_status t \<noteq> Tv_Draft \<and> \<not> is_sha256_hex (or_empty (tv_checksum t))
     then Inl (TypeError ''Published product terms require a valid simulation checksum'') else Inr ())"

record terms_publication =
  tp_date :: string
  tp_checksum :: string
  tp_retroactive :: "string option"
  tp_actor :: string
  tp_justification :: string
  tp_key :: string

definition terms_publish :: "terms_publication \<Rightarrow> product_terms \<Rightarrow> product_terms res" where
  "terms_publish x t =
     (if tv_status t \<noteq> Tv_Draft then Inl (Failure (''Cannot publish product terms from '' @ terms_status_name (tv_status t)))
      else and_then (effective_date (tp_date x)) (\<lambda>_.
        if \<not> is_sha256_hex (tp_checksum x) then Inl (TypeError ''A valid simulation checksum is required'')
        else if blank (tp_actor x) \<or> trim (tp_actor x) = tv_creator t
        then Inl (Failure ''Product terms require an independent checker'')
        else if str_less (tv_from t) (tp_date x) \<and> \<not> safe_key 16 128 (or_empty (tp_retroactive x))
        then Inl (Failure ''Retroactive product terms require a double approval'')
        else Inr (t\<lparr>tv_status := Tv_Published, tv_checksum := Some (tp_checksum x), tv_retroactive := tp_retroactive x\<rparr>)))"

definition retire_terms :: "product_terms \<Rightarrow> product_terms res" where
  "retire_terms t =
     (if tv_status t \<noteq> Tv_Published then Inl (Failure (''Cannot retire product terms from '' @ terms_status_name (tv_status t)))
      else Inr (t\<lparr>tv_status := Tv_Retired\<rparr>))"

definition simulation_id :: string where
  "simulation_id = ''550e8400-e29b-41d4-a716-446655440000''"

definition null_text :: "string option \<Rightarrow> json" where
  "null_text t = (case t of None \<Rightarrow> J_Null | Some s \<Rightarrow> J_String s)"

definition simulation_text :: "json_lib \<Rightarrow> 'a terms_input_scheme \<Rightarrow> string" where
  "simulation_text jl t = stringify jl (J_Array [J_String (tv_product t), J_String (tv_from t), null_text (tv_until t),
     J_String (tv_investor t), J_String (tv_bank t), null_text (tv_target t)])"

definition draft_terms :: "string \<Rightarrow> jsnum \<Rightarrow> string \<Rightarrow> 'a terms_input_scheme \<Rightarrow> product_terms" where
  "draft_terms i version creator t = \<lparr>tv_product = tv_product t, tv_from = tv_from t, tv_until = tv_until t,
     tv_investor = tv_investor t, tv_bank = tv_bank t, tv_target = tv_target t, tv_id = i, tv_version = version,
     tv_creator = creator, tv_status = Tv_Draft, tv_checksum = None, tv_retroactive = None\<rparr>"

definition simulate_terms :: "json_lib \<Rightarrow> 'a terms_input_scheme \<Rightarrow> string res" where
  "simulate_terms jl t =
     (if \<not> is_uuid (tv_product t) then Inl (TypeError ''Product identifier must be a UUID'')
      else and_then (validate_terms_draft (draft_terms simulation_id (of_js 1) ''simulation'' t)) (\<lambda>_.
        Inr (sha256 jl (simulation_text jl t))))"

section \<open>References\<close>

datatype compliance_source = Src_BA | Src_Committee | Src_AAOIFI | Src_IFSB

datatype reference_kind = Kind_Contractual | Kind_Regulatory | Kind_Sharia | Kind_Accounting

record compliance_ref =
  rf_id :: string
  rf_source :: compliance_source
  rf_code :: string
  rf_version :: string
  rf_title :: string
  rf_from :: string
  rf_until :: "string option"
  rf_creator :: string

definition reference_kinds :: "reference_kind list" where
  "reference_kinds = [Kind_Contractual, Kind_Regulatory, Kind_Sharia, Kind_Accounting]"

definition reference_kind_name :: "reference_kind \<Rightarrow> string" where
  "reference_kind_name k = (case k of Kind_Contractual \<Rightarrow> ''CONTRACTUAL_DOCUMENT'' | Kind_Regulatory \<Rightarrow> ''REGULATORY_DOCUMENT''
     | Kind_Sharia \<Rightarrow> ''SHARIA_DOCUMENT'' | Kind_Accounting \<Rightarrow> ''ACCOUNTING_SCHEMA'')"

definition compliance_priority :: "compliance_source \<Rightarrow> nat" where
  "compliance_priority s = (case s of Src_BA \<Rightarrow> 4 | Src_Committee \<Rightarrow> 3 | Src_AAOIFI \<Rightarrow> 2 | Src_IFSB \<Rightarrow> 1)"

definition reference_code_char :: "char \<Rightarrow> bool" where
  "reference_code_char c \<longleftrightarrow> is_alnum c \<or> c \<in> {CHR ''.'', CHR ''_'', CHR ''/'', CHR ''-''}"

definition reference_date :: "string \<Rightarrow> string \<Rightarrow> unit res" where
  "reference_date s field =
     (if \<not> iso_shape s then Inl (TypeError (field @ '' must use YYYY-MM-DD''))
      else if calendar_date s then Inr () else Inl (TypeError (field @ '' is invalid'')))"

definition create_compliance_ref :: "compliance_ref \<Rightarrow> compliance_ref res" where
  "create_compliance_ref r =
     (if \<not> is_uuid (rf_id r) then Inl (TypeError ''Compliance reference identifier must be a UUID'')
      else if \<not> run_of reference_code_char 2 80 (rf_code r) then Inl (TypeError ''Invalid compliance reference code'')
      else if blank (rf_version r) \<or> length (trim (rf_title r)) < 3
      then Inl (TypeError ''Compliance reference version and title are required'')
      else and_then (reference_date (rf_from r) ''effectiveFrom'') (\<lambda>_.
        and_then (if truthy (rf_until r)
          then and_then (reference_date (or_empty (rf_until r)) ''effectiveTo'') (\<lambda>_.
            if str_less (or_empty (rf_until r)) (rf_from r) then Inl (RangeError ''Compliance reference validity period is invalid'')
            else Inr ())
          else Inr ()) (\<lambda>_.
        if blank (rf_creator r) then Inl (TypeError ''Compliance reference creator is required'') else Inr r)))"

definition effective_on :: "string \<Rightarrow> compliance_ref \<Rightarrow> bool res" where
  "effective_on date r =
     and_then (reference_date date ''businessDate'') (\<lambda>_.
     Inr (\<not> str_less date (rf_from r) \<and> (truthy (rf_until r) \<longrightarrow> \<not> str_less (or_empty (rf_until r)) date)))"

end
