(* ===== verification/Product_Store.thy ===== *)
theory Product_Store
  imports Product Sql Inbox
begin

text \<open>
  The tables of products, terms and references and the operations of
  \<open>postgres-investment-product.repository.ts\<close>, \<open>postgres-product-terms.repository.ts\<close> and
  \<open>postgres-product-reference.repository.ts\<close> on them (\<open>src/infrastructure/persistence\<close>), with the use
  cases that call them.  Shares are kept in millionths.  The database's reading of a UUID, fresh
  identifiers, the current date and the order of texts in the database are parameters.
\<close>

section \<open>Tables\<close>

record product_row =
  pr_id :: string
  pr_code :: string
  pr_name :: string
  pr_investor :: int
  pr_bank :: int
  pr_sharia :: "string option"
  pr_validator :: "string option"
  pr_status :: product_status

record command_row =
  co_key :: string
  co_hash :: string
  co_operation :: string
  co_target :: string

record terms_row =
  tr_id :: string
  tr_product :: string
  tr_version :: int
  tr_from :: string
  tr_until :: "string option"
  tr_investor :: int
  tr_bank :: int
  tr_target :: "int option"
  tr_status :: terms_status
  tr_checksum :: "string option"
  tr_retroactive :: "string option"
  tr_creator :: string

record reference_link =
  lk_product :: string
  lk_reference :: string
  lk_kind :: reference_kind
  lk_actor :: string

record arbitration_row =
  ab_product :: string
  ab_selected :: string
  ab_rejected :: string
  ab_rationale :: string
  ab_actor :: string

record product_db =
  pd_products :: "product_row list"
  pd_moves :: "(string \<times> product_move) list"
  pd_commands :: "command_row list"
  pd_terms :: "terms_row list"
  pd_terms_commands :: "command_row list"
  pd_references :: "compliance_ref list"
  pd_links :: "reference_link list"
  pd_arbitrations :: "arbitration_row list"
  pd_approvals :: "approval_row list"
  pd_outbox :: "outbox_message list"

definition check_error :: js_error where
  "check_error = Failure ''violates check constraint''"

definition insert_command_row :: "product_command \<Rightarrow> string \<Rightarrow> command_row list \<Rightarrow> command_row list res" where
  "insert_command_row c target rows =
     (if pc_key c \<in> co_key ` set rows then Inl unique_violation
      else Inr (rows @ [\<lparr>co_key = pc_key c, co_hash = pc_hash c, co_operation = pc_operation c, co_target = target\<rparr>]))"

section \<open>Products\<close>

definition map_product :: "product_row \<Rightarrow> invest_product" where
  "map_product r = \<lparr>ip_id = pr_id r, ip_code = pr_code r, ip_name = pr_name r, ip_investor = render_units 6 (pr_investor r),
     ip_bank = render_units 6 (pr_bank r), ip_sharia = pr_sharia r, ip_validator = pr_validator r, ip_status = pr_status r\<rparr>"

definition find_product_command :: "string \<Rightarrow> string \<Rightarrow> 'a product_db_scheme \<Rightarrow> invest_product option res" where
  "find_product_command key hash db =
     (case [(c, p). c \<leftarrow> pd_commands db, co_key c = key, p \<leftarrow> pd_products db, pr_id p = co_target c] of
       [] \<Rightarrow> Inr None
     | (c, p) # _ \<Rightarrow>
         if co_hash c \<noteq> hash then Inl (Failure ''Idempotency-Key was already used for a different product command'')
         else Inr (Some (map_product p)))"

definition insert_product :: "(string \<Rightarrow> string option) \<Rightarrow> invest_product \<Rightarrow> 'a product_db_scheme \<Rightarrow> 'a product_db_scheme res" where
  "insert_product uuid p db =
     and_then (as_uuid uuid (ip_id p)) (\<lambda>i. and_then (numeric_cast 9 6 (ip_investor p)) (\<lambda>investor.
     and_then (numeric_cast 9 6 (ip_bank p)) (\<lambda>bank.
     if investor < 0 \<or> investor > 100000000 \<or> bank < 0 \<or> bank > 100000000 then Inl check_error
     else if \<exists>r\<in>set (pd_products db). pr_id r = i \<or> pr_code r = ip_code p then Inl unique_violation
     else Inr (db\<lparr>pd_products := pd_products db @ [\<lparr>pr_id = i, pr_code = ip_code p, pr_name = ip_name p, pr_investor = investor,
       pr_bank = bank, pr_sharia = ip_sharia p, pr_validator = None, pr_status = Pr_Draft\<rparr>]\<rparr>))))"

definition insert_move ::
  "(string \<Rightarrow> string option) \<Rightarrow> string \<Rightarrow> product_move \<Rightarrow> 'a product_db_scheme \<Rightarrow> 'a product_db_scheme res" where
  "insert_move uuid product m db =
     and_then (as_uuid uuid product) (\<lambda>i.
     if i \<notin> pr_id ` set (pd_products db) then Inl (Failure ''violates foreign key constraint'')
     else Inr (db\<lparr>pd_moves := pd_moves db @ [(i, m)]\<rparr>))"

definition insert_product_command ::
  "(string \<Rightarrow> string option) \<Rightarrow> string \<Rightarrow> product_command \<Rightarrow> 'a product_db_scheme \<Rightarrow> 'a product_db_scheme res" where
  "insert_product_command uuid product c db =
     and_then (as_uuid uuid product) (\<lambda>i. and_then (insert_command_row c i (pd_commands db)) (\<lambda>rows.
     Inr (db\<lparr>pd_commands := rows\<rparr>)))"

definition creation_move :: "string \<Rightarrow> product_move" where
  "creation_move actor = \<lparr>mv_from = Pr_Draft, mv_to = Pr_Draft, mv_actor = actor, mv_justification = ''Initial product draft creation''\<rparr>"

definition create_product ::
  "(string \<Rightarrow> string option) \<Rightarrow> invest_product \<Rightarrow> string \<Rightarrow> product_command \<Rightarrow> 'a product_db_scheme
     \<Rightarrow> (invest_product \<times> 'a product_db_scheme) res" where
  "create_product uuid p actor c db =
     and_then (find_product_command (pc_key c) (pc_hash c) db) (\<lambda>replay. case replay of
       Some q \<Rightarrow> Inr (q, db)
     | None \<Rightarrow> and_then (insert_product uuid p db) (\<lambda>db1. and_then (insert_move uuid (ip_id p) (creation_move actor) db1) (\<lambda>db2.
         and_then (insert_product_command uuid (ip_id p) c db2) (\<lambda>db3. Inr (p, db3)))))"

definition find_product :: "(string \<Rightarrow> string option) \<Rightarrow> string \<Rightarrow> 'a product_db_scheme \<Rightarrow> invest_product option res" where
  "find_product uuid product db =
     and_then (as_uuid uuid product) (\<lambda>i. Inr (map_option map_product (find (\<lambda>r. pr_id r = i) (pd_products db))))"

definition list_products ::
  "(string \<Rightarrow> string \<Rightarrow> int) \<Rightarrow> int \<times> int \<Rightarrow> 'a product_db_scheme \<Rightarrow> invest_product list \<times> nat" where
  "list_products collate page db =
     (map map_product (take (nat (fst page)) (drop (nat (snd page))
        (sort_by (\<lambda>a b. let c = collate (pr_code a) (pr_code b) in if c \<noteq> 0 then c else text_order (pr_id a) (pr_id b))
          (pd_products db)))), length (pd_products db))"

text \<open>\<open>assertProductPublishable\<close>: the kinds of the references of the product that are in force.\<close>

definition admissible_kinds :: "string \<Rightarrow> string \<Rightarrow> 'a product_db_scheme \<Rightarrow> reference_kind list" where
  "admissible_kinds product date db = map lk_kind (filter (\<lambda>l. lk_product l = product
     \<and> (\<exists>r\<in>set (pd_references db). rf_id r = lk_reference l \<and> \<not> str_less date (rf_from r)
          \<and> (case rf_until r of None \<Rightarrow> True | Some u \<Rightarrow> \<not> str_less u date))) (pd_links db))"

definition assert_publishable ::
  "(string \<Rightarrow> string option) \<Rightarrow> string \<Rightarrow> string \<Rightarrow> 'a product_db_scheme \<Rightarrow> unit res" where
  "assert_publishable uuid product date db =
     and_then (as_uuid uuid product) (\<lambda>i. and_then (as_date date) (\<lambda>d.
     let missing = filter (\<lambda>k. k \<notin> set (admissible_kinds i d db)) reference_kinds in
     if missing = [] then Inr ()
     else Inl (Failure (''Product publication requires admissible references: ''
       @ join_texts '', '' (map reference_kind_name missing)))))"

definition update_product ::
  "(string \<Rightarrow> string option) \<Rightarrow> invest_product \<Rightarrow> product_move \<Rightarrow> 'a product_db_scheme \<Rightarrow> 'a product_db_scheme res" where
  "update_product uuid p m db =
     and_then (as_uuid uuid (ip_id p)) (\<lambda>i.
     if \<not> (\<exists>r\<in>set (pd_products db). pr_id r = i \<and> pr_status r = mv_from m)
     then Inl (Failure ''Investment product was concurrently modified'')
     else Inr (db\<lparr>pd_products := map (\<lambda>r. if pr_id r = i \<and> pr_status r = mv_from m
       then r\<lparr>pr_status := mv_to m, pr_validator := ip_validator p\<rparr> else r) (pd_products db)\<rparr>))"

definition save_transition ::
  "(string \<Rightarrow> string option) \<Rightarrow> string \<Rightarrow> invest_product \<Rightarrow> product_move \<Rightarrow> product_command \<Rightarrow> 'a product_db_scheme
     \<Rightarrow> (invest_product \<times> 'a product_db_scheme) res" where
  "save_transition uuid today p m c db =
     and_then (find_product_command (pc_key c) (pc_hash c) db) (\<lambda>replay. case replay of
       Some q \<Rightarrow> Inr (q, db)
     | None \<Rightarrow>
         and_then (if mv_to m = Pr_Published then assert_publishable uuid (ip_id p) today db else Inr ()) (\<lambda>_.
         and_then (update_product uuid p m db) (\<lambda>db1. and_then (insert_move uuid (ip_id p) m db1) (\<lambda>db2.
         and_then (insert_product_command uuid (ip_id p) c db2) (\<lambda>db3. Inr (p, db3))))))"

text \<open>Queries outside a transaction read the store and may throw.\<close>

definition query :: "('s \<Rightarrow> 'a res) \<Rightarrow> ('s, 'a) action" where
  "query f s = (f s, s)"

definition product_service_create ::
  "json_lib \<Rightarrow> (string \<Rightarrow> string option) \<Rightarrow> string \<Rightarrow> invest_product \<Rightarrow> string \<Rightarrow> string \<Rightarrow> ('a product_db_scheme, invest_product) action" where
  "product_service_create jl uuid fresh input actor key =
     and_do (lift_res (if blank actor then Inl (TypeError ''Product creator is required'') else Inr ())) (\<lambda>_.
     and_do (lift_res (product_command_for jl key ''CREATE'' actor [ip_code input, ip_name input, ip_investor input, ip_bank input,
         or_empty (ip_sharia input)])) (\<lambda>c.
     and_do (query (find_product_command (pc_key c) (pc_hash c))) (\<lambda>replay. case replay of
       Some q \<Rightarrow> give q
     | None \<Rightarrow> and_do (lift_res (product_draft (input\<lparr>ip_id := fresh\<rparr>))) (\<lambda>p.
         transaction (create_product uuid p (trim actor) c)))))"

definition product_service_get :: "(string \<Rightarrow> string option) \<Rightarrow> string \<Rightarrow> ('a product_db_scheme, invest_product) action" where
  "product_service_get uuid product =
     and_do (query (find_product uuid product)) (\<lambda>found. case found of
       None \<Rightarrow> throw (Failure (''Investment product not found: '' @ product))
     | Some p \<Rightarrow> give p)"

text \<open>The write of a transition, from a state of the product that was read before.\<close>

definition product_service_save ::
  "(string \<Rightarrow> string option) \<Rightarrow> string \<Rightarrow> product_action \<Rightarrow> string \<Rightarrow> string \<Rightarrow> product_command \<Rightarrow> invest_product
     \<Rightarrow> ('a product_db_scheme, invest_product) action" where
  "product_service_save uuid today a actor justification c p =
     and_do (lift_res (product_restore p)) (\<lambda>q.
     and_do (lift_res (apply_product_action a actor justification q)) (\<lambda>(state, m).
     transaction (save_transition uuid today state m c)))"

definition product_service_transition ::
  "json_lib \<Rightarrow> (string \<Rightarrow> string option) \<Rightarrow> string \<Rightarrow> string \<Rightarrow> product_action \<Rightarrow> string \<Rightarrow> string \<Rightarrow> string
     \<Rightarrow> ('a product_db_scheme, invest_product) action" where
  "product_service_transition jl uuid today product a actor justification key =
     and_do (lift_res (product_command_for jl key (product_action_name a) actor [product, justification])) (\<lambda>c.
     and_do (query (find_product_command (pc_key c) (pc_hash c))) (\<lambda>replay. case replay of
       Some q \<Rightarrow> give q
     | None \<Rightarrow> and_do (product_service_get uuid product) (product_service_save uuid today a actor justification c)))"

section \<open>Terms\<close>

definition map_terms :: "terms_row \<Rightarrow> product_terms" where
  "map_terms r = \<lparr>tv_product = tr_product r, tv_from = tr_from r, tv_until = tr_until r, tv_investor = render_units 6 (tr_investor r),
     tv_bank = render_units 6 (tr_bank r), tv_target = map_option (render_units 6) (tr_target r), tv_id = tr_id r,
     tv_version = of_js (tr_version r), tv_creator = tr_creator r, tv_status = tr_status r, tv_checksum = tr_checksum r,
     tv_retroactive = tr_retroactive r\<rparr>"

definition find_terms_command :: "string \<Rightarrow> string \<Rightarrow> 'a product_db_scheme \<Rightarrow> product_terms option res" where
  "find_terms_command key hash db =
     (case [(c, t). c \<leftarrow> pd_terms_commands db, co_key c = key, t \<leftarrow> pd_terms db, tr_id t = co_target c] of
       [] \<Rightarrow> Inr None
     | (c, t) # _ \<Rightarrow>
         if co_hash c \<noteq> hash then Inl (Failure ''Idempotency-Key was already used for a different product terms command'')
         else Inr (Some (map_terms t)))"

definition next_version :: "string \<Rightarrow> 'a product_db_scheme \<Rightarrow> int" where
  "next_version product db = foldr max (map tr_version (filter (\<lambda>t. tr_product t = product) (pd_terms db))) 0 + 1"

text \<open>Products are referenced by every version of their terms; a fresh identifier is a new key.\<close>

definition insert_terms ::
  "string \<Rightarrow> string \<Rightarrow> string \<Rightarrow> 'b terms_input_scheme \<Rightarrow> 'a product_db_scheme \<Rightarrow> (terms_row \<times> 'a product_db_scheme) res" where
  "insert_terms fresh product actor t db =
     and_then (as_date (tv_from t)) (\<lambda>from_date. and_then (nullable as_date (tv_until t)) (\<lambda>until.
     and_then (numeric_cast 9 6 (tv_investor t)) (\<lambda>investor. and_then (numeric_cast 9 6 (tv_bank t)) (\<lambda>bank.
     and_then (nullable (numeric_cast 9 6) (tv_target t)) (\<lambda>rate.
     if (case until of None \<Rightarrow> False | Some u \<Rightarrow> str_less u from_date) \<or> investor + bank \<noteq> 100000000
       \<or> investor < 0 \<or> bank < 0 \<or> (case rate of None \<Rightarrow> False | Some x \<Rightarrow> x < 0 \<or> x > 100000000)
     then Inl check_error
     else if fresh \<in> tr_id ` set (pd_terms db) then Inl unique_violation
     else (let r = \<lparr>tr_id = fresh, tr_product = product, tr_version = next_version product db, tr_from = from_date, tr_until = until,
         tr_investor = investor, tr_bank = bank, tr_target = rate, tr_status = Tv_Draft, tr_checksum = None,
         tr_retroactive = None, tr_creator = actor\<rparr> in
       Inr (r, db\<lparr>pd_terms := pd_terms db @ [r]\<rparr>)))))))"

definition terms_message ::
  "string \<times> string \<Rightarrow> string \<Rightarrow> string \<Rightarrow> string \<Rightarrow> (string \<times> json) list \<Rightarrow> outbox_message" where
  "terms_message stamp type terms correlation payload = \<lparr>ms_event_id = fst stamp, ms_event_type = type, ms_schema_version = 1,
     ms_aggregate_type = ''ProductTerms'', ms_aggregate_id = terms, ms_correlation = correlation, ms_causation = None,
     ms_occurred_at = snd stamp, ms_payload = payload\<rparr>"

definition create_terms ::
  "string \<times> string \<Rightarrow> (string \<Rightarrow> string option) \<Rightarrow> string \<Rightarrow> string \<Rightarrow> 'b terms_input_scheme \<Rightarrow> string \<Rightarrow> product_command
     \<Rightarrow> 'a product_db_scheme \<Rightarrow> (product_terms \<times> 'a product_db_scheme) res" where
  "create_terms stamp uuid fresh correlation t actor c db =
     and_then (find_terms_command (pc_key c) (pc_hash c) db) (\<lambda>replay. case replay of
       Some q \<Rightarrow> Inr (q, db)
     | None \<Rightarrow> and_then (as_uuid uuid (tv_product t)) (\<lambda>i.
         if i \<notin> pr_id ` set (pd_products db) then Inl (Failure (''Investment product not found: '' @ tv_product t))
         else and_then (insert_terms fresh i actor t db) (\<lambda>(r, db1).
           and_then (insert_command_row c (tr_id r) (pd_terms_commands db1)) (\<lambda>rows.
           Inr (map_terms r, db1\<lparr>pd_terms_commands := rows, pd_outbox := pd_outbox db1 @ [terms_message stamp ''ProductTermsDrafted''
             (tr_id r) correlation [(''version'', J_Number (of_js (tr_version r))), (''actorId'', J_String actor)]]\<rparr>)))))"

definition find_terms :: "(string \<Rightarrow> string option) \<Rightarrow> string \<Rightarrow> 'a product_db_scheme \<Rightarrow> product_terms option res" where
  "find_terms uuid i db = and_then (as_uuid uuid i) (\<lambda>i. Inr (map_option map_terms (find (\<lambda>r. tr_id r = i) (pd_terms db))))"

definition list_terms :: "(string \<Rightarrow> string option) \<Rightarrow> string \<Rightarrow> 'a product_db_scheme \<Rightarrow> product_terms list res" where
  "list_terms uuid product db = and_then (as_uuid uuid product) (\<lambda>i.
     Inr (map map_terms (sort_by (\<lambda>a b. tr_version b - tr_version a) (filter (\<lambda>t. tr_product t = i) (pd_terms db)))))"

definition assert_retroactive_approval :: "product_terms \<Rightarrow> string \<Rightarrow> 'a product_db_scheme \<Rightarrow> unit res" where
  "assert_retroactive_approval t actor db =
     (case find (\<lambda>a. ap_key a = or_empty (tv_retroactive t) \<and> ap_resource_type a = ''ProductTerms'' \<and> ap_resource a = tv_id t
        \<and> ap_action a = ''APPROVE_RETROACTIVE_PRODUCT_TERMS'' \<and> ap_result a = ''APPROVED'') (pd_approvals db) of
       None \<Rightarrow> Inl (Failure ''Valid independent retroactive approval not found'')
     | Some a \<Rightarrow> if ap_actor a = actor then Inl (Failure ''Valid independent retroactive approval not found'') else Inr ())"

text \<open>Two periods, the ends included, have a date in common; no end is the end of time.\<close>

definition periods_meet :: "terms_row \<Rightarrow> terms_row \<Rightarrow> bool" where
  "periods_meet a b \<longleftrightarrow> (case tr_until a of None \<Rightarrow> True | Some u \<Rightarrow> \<not> str_less u (tr_from b))
     \<and> (case tr_until b of None \<Rightarrow> True | Some u \<Rightarrow> \<not> str_less u (tr_from a))"

text \<open>The update of a publication, with the foreign key of the approval and the exclusion constraint of the periods.\<close>

definition publish_row :: "product_terms \<Rightarrow> terms_row \<Rightarrow> terms_row" where
  "publish_row t r = r\<lparr>tr_status := Tv_Published, tr_checksum := tv_checksum t, tr_retroactive := tv_retroactive t\<rparr>"

definition update_terms ::
  "(string \<Rightarrow> string option) \<Rightarrow> product_terms \<Rightarrow> string \<Rightarrow> 'a product_db_scheme \<Rightarrow> 'a product_db_scheme res" where
  "update_terms uuid t actor db =
     and_then (as_uuid uuid (tv_id t)) (\<lambda>i.
     case find (\<lambda>r. tr_id r = i \<and> tr_status r = Tv_Draft \<and> tr_creator r \<noteq> actor) (pd_terms db) of
       None \<Rightarrow> Inl (Failure ''Product terms were concurrently modified or checker is not independent'')
     | Some r \<Rightarrow>
         if (case tv_retroactive t of None \<Rightarrow> False | Some k \<Rightarrow> k \<notin> ap_key ` set (pd_approvals db))
         then Inl (Failure ''violates foreign key constraint'')
         else if \<exists>x\<in>set (pd_terms db). tr_id x \<noteq> i \<and> tr_product x = tr_product r \<and> tr_status x = Tv_Published \<and> periods_meet x r
         then Inl (Failure ''conflicting key value violates exclusion constraint'')
         else Inr (db\<lparr>pd_terms := map (\<lambda>r. if tr_id r = i then publish_row t r else r) (pd_terms db)\<rparr>))"

definition publish_terms ::
  "string \<times> string \<Rightarrow> (string \<Rightarrow> string option) \<Rightarrow> product_terms \<Rightarrow> string \<Rightarrow> string \<Rightarrow> string \<Rightarrow> product_command
     \<Rightarrow> 'a product_db_scheme \<Rightarrow> (unit \<times> 'a product_db_scheme) res" where
  "publish_terms stamp uuid t actor justification correlation c db =
     and_then (find_terms_command (pc_key c) (pc_hash c) db) (\<lambda>replay. case replay of
       Some _ \<Rightarrow> Inr ((), db)
     | None \<Rightarrow>
         and_then (if truthy (tv_retroactive t) then assert_retroactive_approval t actor db else Inr ()) (\<lambda>_.
         and_then (update_terms uuid t actor db) (\<lambda>db1. and_then (as_uuid uuid (tv_id t)) (\<lambda>i.
         and_then (insert_command_row c i (pd_terms_commands db1)) (\<lambda>rows.
         Inr ((), db1\<lparr>pd_terms_commands := rows, pd_outbox := pd_outbox db1 @ [terms_message stamp ''ProductTermsPublished'' (tv_id t)
           correlation [(''productId'', J_String (tv_product t)), (''version'', J_Number (tv_version t)), (''actorId'', J_String actor),
             (''justification'', J_String justification), (''criticalChange'', J_Bool True)]]\<rparr>))))))"

definition require_uuid :: "string \<Rightarrow> string \<Rightarrow> unit res" where
  "require_uuid s label = (if is_uuid s then Inr () else Inl (TypeError (label @ '' identifier must be a UUID'')))"

definition terms_service_list :: "(string \<Rightarrow> string option) \<Rightarrow> string \<Rightarrow> ('a product_db_scheme, product_terms list) action" where
  "terms_service_list uuid product = and_do (lift_res (require_uuid product ''Product'')) (\<lambda>_. query (list_terms uuid product))"

definition terms_service_create ::
  "string \<times> string \<Rightarrow> json_lib \<Rightarrow> (string \<Rightarrow> string option) \<Rightarrow> string \<Rightarrow> string \<Rightarrow> terms_input \<Rightarrow> string \<Rightarrow> string
     \<Rightarrow> ('a product_db_scheme, product_terms) action" where
  "terms_service_create stamp jl uuid fresh correlation t actor key =
     and_do (lift_res (if blank actor then Inl (TypeError ''Product terms creator is required'') else Inr ())) (\<lambda>_.
     and_do (lift_res (simulate_terms jl t)) (\<lambda>_.
     and_do (lift_res (product_command_for jl key ''CREATE_TERMS'' actor [tv_product t, tv_from t, or_empty (tv_until t),
         tv_investor t, tv_bank t, or_empty (tv_target t)])) (\<lambda>c.
     and_do (query (find_terms_command (pc_key c) (pc_hash c))) (\<lambda>replay. case replay of
       Some q \<Rightarrow> give q
     | None \<Rightarrow> transaction (create_terms stamp uuid fresh correlation t (trim actor) c)))))"

text \<open>The write of a publication, from a version that was read before.\<close>

definition terms_service_save ::
  "string \<times> string \<Rightarrow> json_lib \<Rightarrow> (string \<Rightarrow> string option) \<Rightarrow> string \<Rightarrow> string \<Rightarrow> terms_publication \<Rightarrow> product_command
     \<Rightarrow> product_terms \<Rightarrow> ('a product_db_scheme, product_terms) action" where
  "terms_service_save stamp jl uuid correlation product x c t =
     and_do (lift_res (if tv_product t \<noteq> product then Inl (Failure ''Product terms do not belong to the requested product'') else Inr ())) (\<lambda>_.
     and_do (lift_res (simulate_terms jl t)) (\<lambda>expected.
     and_do (lift_res (if tp_checksum x \<noteq> expected then Inl (Failure ''Simulation checksum does not match the product terms'') else Inr ())) (\<lambda>_.
     and_do (lift_res (validate_terms t)) (\<lambda>_.
     and_do (lift_res (terms_publish x t)) (\<lambda>published.
     and_do (transaction (publish_terms stamp uuid published (tp_actor x) (trim (tp_justification x)) correlation c)) (\<lambda>_.
     give published))))))"

definition terms_service_publish ::
  "string \<times> string \<Rightarrow> json_lib \<Rightarrow> (string \<Rightarrow> string option) \<Rightarrow> string \<Rightarrow> string \<Rightarrow> string \<Rightarrow> terms_publication
     \<Rightarrow> ('a product_db_scheme, product_terms) action" where
  "terms_service_publish stamp jl uuid correlation product terms x =
     and_do (lift_res (require_uuid product ''Product'')) (\<lambda>_.
     and_do (lift_res (require_uuid terms ''Product terms version'')) (\<lambda>_.
     and_do (lift_res (if blank (tp_actor x) then Inl (TypeError ''Product terms checker is required'')
       else if length (trim (tp_justification x)) < 10 then Inl (TypeError ''Publication justification must contain at least 10 characters'')
       else Inr ())) (\<lambda>_.
     and_do (lift_res (product_command_for jl (tp_key x) ''PUBLISH_TERMS'' (tp_actor x) [product, terms, tp_date x, tp_checksum x,
         or_empty (tp_retroactive x), trim (tp_justification x)])) (\<lambda>c.
     and_do (query (find_terms_command (pc_key c) (pc_hash c))) (\<lambda>replay. case replay of
       Some q \<Rightarrow> give q
     | None \<Rightarrow> and_do (query (find_terms uuid terms)) (\<lambda>found. case found of
           None \<Rightarrow> throw (Failure (''Product terms not found: '' @ terms))
         | Some t \<Rightarrow> terms_service_save stamp jl uuid correlation product x c t))))))"

section \<open>References\<close>

definition insert_reference ::
  "(string \<Rightarrow> string option) \<Rightarrow> compliance_ref \<Rightarrow> 'a product_db_scheme \<Rightarrow> (compliance_ref \<times> 'a product_db_scheme) res" where
  "insert_reference uuid r db =
     and_then (as_uuid uuid (rf_id r)) (\<lambda>i. and_then (as_date (rf_from r)) (\<lambda>from_date. and_then (nullable as_date (rf_until r)) (\<lambda>until.
     if \<exists>x\<in>set (pd_references db). rf_id x = i \<or> (rf_source x = rf_source r \<and> rf_code x = rf_code r \<and> rf_version x = rf_version r)
     then Inl unique_violation
     else if (case until of None \<Rightarrow> False | Some u \<Rightarrow> str_less u from_date) then Inl check_error
     else Inr (r, db\<lparr>pd_references := pd_references db @ [r\<lparr>rf_id := i\<rparr>]\<rparr>))))"

text \<open>
  \<open>ON CONFLICT DO NOTHING\<close>, and the unique index on the product and the reference (migration 024): a reference
  that is already associated with the product, under whatever kind, is left as it is.
\<close>

definition insert_link ::
  "(string \<Rightarrow> string option) \<Rightarrow> string \<Rightarrow> string \<Rightarrow> reference_kind \<Rightarrow> string \<Rightarrow> 'a product_db_scheme
     \<Rightarrow> (unit \<times> 'a product_db_scheme) res" where
  "insert_link uuid product reference kind actor db =
     and_then (as_uuid uuid product) (\<lambda>p. and_then (as_uuid uuid reference) (\<lambda>r.
     if \<exists>l\<in>set (pd_links db). lk_product l = p \<and> lk_reference l = r then Inr ((), db)
     else if p \<notin> pr_id ` set (pd_products db) \<or> r \<notin> rf_id ` set (pd_references db)
     then Inl (Failure ''violates foreign key constraint'')
     else Inr ((), db\<lparr>pd_links := pd_links db @ [\<lparr>lk_product = p, lk_reference = r, lk_kind = kind, lk_actor = actor\<rparr>]\<rparr>)))"

definition list_references ::
  "(string \<Rightarrow> string option) \<Rightarrow> string \<Rightarrow> 'a product_db_scheme \<Rightarrow> (compliance_ref \<times> reference_link) list res" where
  "list_references uuid product db = and_then (as_uuid uuid product) (\<lambda>i.
     Inr (sort_by (\<lambda>(a, _) (b, _). if rf_source a \<noteq> rf_source b
         then int (compliance_priority (rf_source b)) - int (compliance_priority (rf_source a))
         else if str_less (rf_from b) (rf_from a) then - 1 else if rf_from a = rf_from b then 0 else 1)
       [(r, l). l \<leftarrow> pd_links db, r \<leftarrow> pd_references db, lk_product l = i \<and> rf_id r = lk_reference l]))"

text \<open>
  Both references are associated with the product (foreign keys of migration 024), and the trigger of that
  migration compares their priorities as they are stored.
\<close>

definition stored_priority :: "string \<Rightarrow> 'a product_db_scheme \<Rightarrow> nat option" where
  "stored_priority i db = map_option (\<lambda>r. compliance_priority (rf_source r)) (find (\<lambda>r. rf_id r = i) (pd_references db))"

definition insert_arbitration ::
  "(string \<Rightarrow> string option) \<Rightarrow> string \<Rightarrow> arbitration_row \<Rightarrow> 'a product_db_scheme \<Rightarrow> (string \<times> 'a product_db_scheme) res" where
  "insert_arbitration uuid fresh a db =
     and_then (as_uuid uuid (ab_product a)) (\<lambda>p. and_then (as_uuid uuid (ab_selected a)) (\<lambda>s.
     and_then (as_uuid uuid (ab_rejected a)) (\<lambda>r.
     if (case (stored_priority s db, stored_priority r db) of (Some x, Some y) \<Rightarrow> x < y | _ \<Rightarrow> False) then Inl (Failure ''Arbitration cannot override normative compliance priority'')
     else if s = r then Inl check_error
     else if p \<notin> pr_id ` set (pd_products db) \<or> (\<forall>l\<in>set (pd_links db). lk_product l = p \<longrightarrow> lk_reference l \<noteq> s)
       \<or> (\<forall>l\<in>set (pd_links db). lk_product l = p \<longrightarrow> lk_reference l \<noteq> r)
     then Inl (Failure ''violates foreign key constraint'')
     else Inr (fresh, db\<lparr>pd_arbitrations := pd_arbitrations db @ [a\<lparr>ab_product := p, ab_selected := s, ab_rejected := r\<rparr>]\<rparr>))))"

definition reference_service_create ::
  "(string \<Rightarrow> string option) \<Rightarrow> string \<Rightarrow> compliance_ref \<Rightarrow> ('a product_db_scheme, compliance_ref) action" where
  "reference_service_create uuid fresh r =
     and_do (lift_res (create_compliance_ref (r\<lparr>rf_id := fresh\<rparr>))) (\<lambda>r. transaction (insert_reference uuid r))"

definition reference_service_associate ::
  "(string \<Rightarrow> string option) \<Rightarrow> string \<Rightarrow> string \<Rightarrow> reference_kind \<Rightarrow> string \<Rightarrow> ('a product_db_scheme, unit) action" where
  "reference_service_associate uuid product reference kind actor =
     and_do (lift_res (require_uuid product ''Product'')) (\<lambda>_.
     and_do (lift_res (require_uuid reference ''Compliance reference'')) (\<lambda>_.
     and_do (lift_res (if blank actor then Inl (TypeError ''Association actor is required'') else Inr ())) (\<lambda>_.
     transaction (insert_link uuid product reference kind (trim actor)))))"

text \<open>The selected reference has at least the priority of the rejected one; both belong to the product.\<close>

definition choose_reference :: "arbitration_row \<Rightarrow> compliance_ref list \<Rightarrow> unit res" where
  "choose_reference a refs =
     (case (find (\<lambda>r. rf_id r = ab_selected a) refs, find (\<lambda>r. rf_id r = ab_rejected a) refs) of
       (Some s, Some r) \<Rightarrow>
         if compliance_priority (rf_source s) < compliance_priority (rf_source r)
         then Inl (Failure (''Arbitration cannot override BA > Comit'' @ [CHR 0xE9] @ '' Charia > AAOIFI > IFSB priority''))
         else if length (trim (ab_rationale a)) < 20
         then Inl (TypeError ''Arbitration rationale must contain at least 20 characters'') else Inr ()
     | _ \<Rightarrow> Inl (Failure ''Arbitration references must be associated with the product''))"

definition reference_service_arbitrate ::
  "(string \<Rightarrow> string option) \<Rightarrow> string \<Rightarrow> arbitration_row \<Rightarrow> ('a product_db_scheme, string) action" where
  "reference_service_arbitrate uuid fresh a =
     and_do (lift_res (require_uuid (ab_product a) ''Product'')) (\<lambda>_.
     and_do (lift_res (require_uuid (ab_selected a) ''Selected compliance reference'')) (\<lambda>_.
     and_do (lift_res (require_uuid (ab_rejected a) ''Rejected compliance reference'')) (\<lambda>_.
     and_do (lift_res (if ab_selected a = ab_rejected a then Inl (TypeError ''Arbitration references must be different'')
       else if blank (ab_actor a) then Inl (TypeError ''Arbitration actor is required'') else Inr ())) (\<lambda>_.
     and_do (query (list_references uuid (ab_product a))) (\<lambda>refs.
     and_do (lift_res (choose_reference a (map fst refs))) (\<lambda>_.
     transaction (insert_arbitration uuid fresh
       (a\<lparr>ab_rationale := trim (ab_rationale a), ab_actor := trim (ab_actor a)\<rparr>))))))))"

end
