(* ===== verification/Product_Correct.thy ===== *)
theory Product_Correct
  imports Product_Store
begin

text \<open>
  What the tables of the products keep: the recorded moves of a product are a path of its life, it was
  published by someone other than the person who validated it, and it came to the market only with
  shares of one hundred percent, a Sharia reference and references of all four kinds.
\<close>

section \<open>The life of a product\<close>

definition product_edges :: "(product_status \<times> product_status) list" where
  "product_edges = [(Pr_Draft, Pr_Validated), (Pr_Validated, Pr_Published), (Pr_Published, Pr_Suspended),
     (Pr_Suspended, Pr_Published), (Pr_Published, Pr_Closed), (Pr_Suspended, Pr_Closed)]"

text \<open>The status and the validator after a list of moves; the validator may not publish.\<close>

definition life_move :: "product_status \<Rightarrow> string option \<Rightarrow> product_move \<Rightarrow> bool" where
  "life_move s v m \<longleftrightarrow> mv_from m = s \<and> (s, mv_to m) \<in> set product_edges \<and> (s = Pr_Validated \<longrightarrow> v \<noteq> Some (mv_actor m))"

fun product_life :: "product_status \<Rightarrow> string option \<Rightarrow> product_move list \<Rightarrow> (product_status \<times> string option) option" where
  "product_life s v [] = Some (s, v)"
| "product_life s v (m # ms) =
     (if life_move s v m then product_life (mv_to m) (if s = Pr_Draft then Some (mv_actor m) else v) ms else None)"

definition on_market :: "product_status \<Rightarrow> bool" where
  "on_market s \<longleftrightarrow> s \<in> {Pr_Published, Pr_Suspended, Pr_Closed}"

lemma product_life_append:
  "product_life s v (ms @ ns) = (case product_life s v ms of None \<Rightarrow> None | Some (t, w) \<Rightarrow> product_life t w ns)"
  by (induction s v ms rule: product_life.induct) simp_all

lemma product_life_not_draft: "product_life s v ms = Some (Pr_Draft, w) \<Longrightarrow> ms = [] \<and> s = Pr_Draft \<and> w = v"
proof (induction s v ms rule: product_life.induct)
  case (2 s v m ms)
  from 2(2) have edge: "(s, mv_to m) \<in> set product_edges"
    and rest: "product_life (mv_to m) (if s = Pr_Draft then Some (mv_actor m) else v) ms = Some (Pr_Draft, w)"
    by (auto simp: life_move_def split: if_splits)
  from 2(1) [OF _ rest] 2(2) have "mv_to m = Pr_Draft" by (auto split: if_splits)
  with edge show ?case by (simp add: product_edges_def)
qed simp

lemma product_life_keeps:
  "product_life s v ms = Some (t, w) \<Longrightarrow> s \<noteq> Pr_Draft \<Longrightarrow> w = v"
proof (induction s v ms rule: product_life.induct)
  case (2 s v m ms)
  then show ?case by (auto simp: life_move_def product_edges_def split: if_splits)
qed simp

text \<open>A product on the market was validated and then published by another person.\<close>

lemma product_life_market:
  assumes "product_life Pr_Draft None ms = Some (s, v)" "on_market s"
  obtains a b ns where "ms = a # b # ns" "mv_to a = Pr_Validated" "mv_to b = Pr_Published" "v = Some (mv_actor a)"
    "mv_actor b \<noteq> mv_actor a"
proof (cases ms)
  case Nil
  with assms show ?thesis by (auto simp: on_market_def)
next
  case (Cons a ms')
  from assms(1) Cons have a: "mv_to a = Pr_Validated" and rest: "product_life Pr_Validated (Some (mv_actor a)) ms' = Some (s, v)"
    by (auto simp: life_move_def product_edges_def split: if_splits)
  show ?thesis
  proof (cases ms')
    case Nil
    with rest assms(2) show ?thesis by (auto simp: on_market_def)
  next
    case (Cons b ns)
    from rest Cons have b: "mv_to b = Pr_Published" "mv_actor b \<noteq> mv_actor a"
      and more: "product_life Pr_Published (Some (mv_actor a)) ns = Some (s, v)"
      by (auto simp: life_move_def product_edges_def split: if_splits)
    from product_life_keeps [OF more] have "v = Some (mv_actor a)" by simp
    with a b \<open>ms = a # ms'\<close> Cons show ?thesis by (intro that [of a b ns]) simp_all
  qed
qed

text \<open>What an accepted action says about its move.\<close>

lemma move_product_Inr:
  "move_product to actor j allowed p = Inr (q, m) \<longleftrightarrow> ip_status p \<in> set allowed \<and> \<not> blank actor \<and> 10 \<le> length (trim j)
     \<and> q = p\<lparr>ip_status := to\<rparr> \<and> m = \<lparr>mv_from = ip_status p, mv_to = to, mv_actor = trim actor, mv_justification = trim j\<rparr>"
  by (auto simp: move_product_def)

lemma apply_product_action_Inr:
  assumes "apply_product_action a actor j p = Inr (q, m)"
  shows "mv_from m = ip_status p" "(mv_from m, mv_to m) \<in> set product_edges" "ip_id q = ip_id p"
    "ip_validator q = (if ip_status p = Pr_Draft then Some (mv_actor m) else ip_validator p)"
    "ip_status p = Pr_Validated \<Longrightarrow> mv_to m = Pr_Published \<and> ip_validator p \<noteq> Some (mv_actor m) \<and> \<not> missing_text (ip_sharia p)
       \<and> shares_total to_millionths (ip_investor p) (ip_bank p) = Inr ()"
  using assms by (cases a; auto simp: apply_product_action_def product_validate_def product_publish_def move_product_Inr
    and_then_Inr product_edges_def split: prod.splits if_splits)+

section \<open>Shares\<close>

lemma millionths_units: "millionths e1 e2 s = Inr n \<Longrightarrow> read_units False 6 e e s = Inr (int n)"
  by (auto simp: millionths_def read_units_def split: option.splits if_splits)

lemma millionths_render: "millionths e1 e2 (render_units 6 u) = Inr n \<Longrightarrow> 0 \<le> u \<Longrightarrow> int n = u"
  using millionths_units [where e = e1] read_units_render [of False u 6 e1 e1] by fastforce

lemma shares_total_render:
  assumes "shares_total to_millionths (render_units 6 u) (render_units 6 v) = Inr ()" "0 \<le> u" "0 \<le> v"
  shows "u + v = 100000000"
proof -
  from assms(1) obtain i b where "to_millionths (render_units 6 u) = Inr i" "to_millionths (render_units 6 v) = Inr b" "i + b = 100000000"
    by (auto simp: shares_total_def and_then_Inr split: if_splits)
  from this(1,2) assms(2,3) have "int i = u" "int b = v" by (auto simp: to_millionths_def dest: millionths_render)
  with \<open>i + b = 100000000\<close> show ?thesis by linarith
qed

section \<open>The invariant of the products\<close>

definition moves_of :: "string \<Rightarrow> 'a product_db_scheme \<Rightarrow> product_move list" where
  "moves_of i db = map snd (filter (\<lambda>m. fst m = i) (pd_moves db))"

definition product_ok :: "(string \<Rightarrow> string option) \<Rightarrow> 'a product_db_scheme \<Rightarrow> product_row \<Rightarrow> bool" where
  "product_ok uuid db r \<longleftrightarrow> uuid (pr_id r) = Some (pr_id r) \<and> 0 \<le> pr_investor r \<and> 0 \<le> pr_bank r
     \<and> (\<exists>actor ms. moves_of (pr_id r) db = creation_move actor # ms
          \<and> product_life Pr_Draft None ms = Some (pr_status r, pr_validator r))
     \<and> (on_market (pr_status r) \<longrightarrow> pr_investor r + pr_bank r = 100000000 \<and> \<not> missing_text (pr_sharia r)
          \<and> (\<forall>k\<in>set reference_kinds. \<exists>l\<in>set (pd_links db). lk_product l = pr_id r \<and> lk_kind l = k))"

text \<open>A state of a product that was read earlier: what it says of the row stays true while the row moves on.\<close>

definition read_before :: "product_row \<Rightarrow> invest_product \<Rightarrow> bool" where
  "read_before r p \<longleftrightarrow> ip_id p = pr_id r \<and> ip_investor p = render_units 6 (pr_investor r) \<and> ip_bank p = render_units 6 (pr_bank r)
     \<and> ip_sharia p = pr_sharia r
     \<and> (if ip_status p = Pr_Draft then ip_validator p = None else pr_status r \<noteq> Pr_Draft \<and> ip_validator p = pr_validator r)"

definition products_inv :: "(string \<Rightarrow> string option) \<Rightarrow> 'a product_db_scheme \<Rightarrow> invest_product list \<Rightarrow> bool" where
  "products_inv uuid db ps \<longleftrightarrow> distinct (map pr_id (pd_products db)) \<and> fst ` set (pd_moves db) \<subseteq> pr_id ` set (pd_products db)
     \<and> (\<forall>r\<in>set (pd_products db). product_ok uuid db r) \<and> (\<forall>p\<in>set ps. \<exists>r\<in>set (pd_products db). read_before r p)"

lemma product_draft_validator:
  assumes "product_ok uuid db r" "pr_status r = Pr_Draft"
  shows "pr_validator r = None"
proof -
  from assms obtain ms where "product_life Pr_Draft None ms = Some (Pr_Draft, pr_validator r)" unfolding product_ok_def by auto
  from product_life_not_draft [OF this] show ?thesis by simp
qed

text \<open>Operations that leave products and moves alone and keep the links.\<close>

lemma products_inv_frame:
  assumes "products_inv uuid db ps" "pd_products db' = pd_products db" "pd_moves db' = pd_moves db" "set (pd_links db) \<subseteq> set (pd_links db')"
  shows "products_inv uuid db' ps"
proof -
  have "product_ok uuid db' r" if r: "product_ok uuid db r" for r
  proof -
    have "moves_of (pr_id r) db' = moves_of (pr_id r) db" using assms(3) by (simp add: moves_of_def)
    with r assms(4) show ?thesis unfolding product_ok_def by (metis subsetD)
  qed
  with assms(1-3) show ?thesis by (simp add: products_inv_def)
qed

lemma read_product:
  assumes "products_inv uuid db ps" "find_product uuid i db = Inr (Some p)"
  shows "products_inv uuid db (p # ps)"
proof -
  from assms(2) obtain j r where r: "find (\<lambda>r. pr_id r = j) (pd_products db) = Some r" and p: "p = map_product r"
    by (auto simp: find_product_def and_then_Inr)
  from find_SomeD [OF r] have mem: "r \<in> set (pd_products db)" by simp
  with assms(1) have "product_ok uuid db r" by (simp add: products_inv_def)
  with product_draft_validator [OF this] have "read_before r p" by (auto simp: read_before_def p map_product_def)
  with mem assms(1) show ?thesis by (auto simp: products_inv_def)
qed

lemma moves_of_append: "pd_moves db' = pd_moves db @ [(i, m)] \<Longrightarrow> moves_of j db' = moves_of j db @ (if j = i then [m] else [])"
  by (simp add: moves_of_def)

lemma create_product_inv:
  assumes inv: "products_inv uuid db ps" and laws: "uuid_laws uuid" and run: "create_product uuid p actor c db = Inr (q, db')"
  shows "products_inv uuid db' ps"
proof (cases "db' = db")
  case False
  with run obtain db1 db2 db3 where one: "insert_product uuid p db = Inr db1" and two: "insert_move uuid (ip_id p) (creation_move actor) db1 = Inr db2"
    and three: "insert_product_command uuid (ip_id p) c db2 = Inr db3" and db': "db' = db3"
    by (auto simp: create_product_def and_then_Inr split: option.splits)
  from one obtain i u v where i: "uuid (ip_id p) = Some i" and uv0: "\<not> u < 0" "\<not> v < 0"
    and new0: "\<forall>r\<in>set (pd_products db). pr_id r \<noteq> i \<and> pr_code r \<noteq> ip_code p"
    and db1: "db1 = db\<lparr>pd_products := pd_products db @ [\<lparr>pr_id = i, pr_code = ip_code p, pr_name = ip_name p, pr_investor = u,
       pr_bank = v, pr_sharia = ip_sharia p, pr_validator = None, pr_status = Pr_Draft\<rparr>]\<rparr>"
    by (auto simp: insert_product_def and_then_Inr as_simps split: if_splits)
  from uv0 new0 have uv: "0 \<le> u" "0 \<le> v" and new: "i \<notin> pr_id ` set (pd_products db)" by auto
  let ?r = "\<lparr>pr_id = i, pr_code = ip_code p, pr_name = ip_name p, pr_investor = u,
       pr_bank = v, pr_sharia = ip_sharia p, pr_validator = None, pr_status = Pr_Draft\<rparr>"
  from two i have db2: "db2 = db1\<lparr>pd_moves := pd_moves db1 @ [(i, creation_move actor)]\<rparr>"
    by (auto simp: insert_move_def and_then_Inr as_simps split: if_splits)
  from three have rest: "pd_products db3 = pd_products db2" "pd_moves db3 = pd_moves db2" "pd_links db3 = pd_links db2"
    by (auto simp: insert_product_command_def and_then_Inr)
  have tables: "pd_products db' = pd_products db @ [?r]" "pd_moves db' = pd_moves db @ [(i, creation_move actor)]" "pd_links db' = pd_links db"
    by (simp_all add: db' rest db2 db1)
  note moves = moves_of_append [OF tables(2)]
  have fresh: "moves_of i db = []" using inv new by (auto simp: products_inv_def moves_of_def filter_empty_conv)
  have "product_ok uuid db' ?r" using laws i uv fresh by (auto simp: product_ok_def moves uuid_laws_def on_market_def)
  moreover have "product_ok uuid db' r" if r: "r \<in> set (pd_products db)" for r
  proof -
    from new r have "pr_id r \<noteq> i" by auto
    then have "moves_of (pr_id r) db' = moves_of (pr_id r) db" by (simp add: moves)
    moreover from inv r have "product_ok uuid db r" by (simp add: products_inv_def)
    ultimately show ?thesis by (simp add: product_ok_def tables(3))
  qed
  ultimately show ?thesis using inv new by (auto simp: products_inv_def tables)
qed (use inv in simp)

lemma publishable_links:
  assumes "assert_publishable uuid i date db = Inr ()" "uuid i = Some i" "k \<in> set reference_kinds"
  shows "\<exists>l\<in>set (pd_links db). lk_product l = i \<and> lk_kind l = k"
proof -
  from assms(1,2) obtain d where "filter (\<lambda>k. k \<notin> set (admissible_kinds i d db)) reference_kinds = []"
    by (auto simp: assert_publishable_def and_then_Inr as_simps Let_def split: if_splits)
  with assms(3) have "k \<in> set (admissible_kinds i d db)" by (auto simp: filter_empty_conv)
  then show ?thesis by (auto simp: admissible_kinds_def)
qed

lemma save_product_inv:
  assumes inv: "products_inv uuid db ps" and p: "p \<in> set ps"
    and act: "apply_product_action a actor j p = Inr (q, m)" and run: "save_transition uuid today q m c db = Inr (out, db')"
  shows "products_inv uuid db' ps"
proof (cases "db' = db")
  case False
  note move = apply_product_action_Inr [OF act]
  from inv p obtain r where r: "r \<in> set (pd_products db)" and snap: "read_before r p" by (auto simp: products_inv_def)
  from inv r have ok: "product_ok uuid db r" by (simp add: products_inv_def)
  then have id: "uuid (pr_id r) = Some (pr_id r)" by (simp add: product_ok_def)
  from move(3) snap have q: "ip_id q = pr_id r" by (simp add: read_before_def)
  from run False obtain db1 db2 where pub: "mv_to m = Pr_Published \<Longrightarrow> assert_publishable uuid (pr_id r) today db = Inr ()"
    and one: "update_product uuid q m db = Inr db1" and two: "insert_move uuid (pr_id r) m db1 = Inr db2"
    and three: "insert_product_command uuid (pr_id r) c db2 = Inr db'"
    unfolding save_transition_def q by (auto simp: and_then_Inr split: option.splits if_splits)
  let ?f = "\<lambda>x. if pr_id x = pr_id r \<and> pr_status x = mv_from m then x\<lparr>pr_status := mv_to m, pr_validator := ip_validator q\<rparr> else x"
  from one q id have hit: "\<exists>x\<in>set (pd_products db). pr_id x = pr_id r \<and> pr_status x = mv_from m"
    and db1: "db1 = db\<lparr>pd_products := map ?f (pd_products db)\<rparr>"
    by (auto simp: update_product_def and_then_Inr as_simps split: if_splits)
  from two id have db2: "db2 = db1\<lparr>pd_moves := pd_moves db1 @ [(pr_id r, m)]\<rparr>"
    by (auto simp: insert_move_def and_then_Inr as_simps split: if_splits)
  from three have rest: "pd_products db' = pd_products db2" "pd_moves db' = pd_moves db2" "pd_links db' = pd_links db2"
    by (auto simp: insert_product_command_def and_then_Inr)
  have tables: "pd_products db' = map ?f (pd_products db)" "pd_moves db' = pd_moves db @ [(pr_id r, m)]" "pd_links db' = pd_links db"
    by (simp_all add: rest db2 db1)
  note moves = moves_of_append [OF tables(2)]
  have only: "x = r" if "x \<in> set (pd_products db)" "pr_id x = pr_id r" for x
    using inv r that by (auto simp: products_inv_def distinct_map inj_on_def)
  with hit have status: "pr_status r = mv_from m" by blast
  then have same: "ip_status p = pr_status r" using move(1) by simp
  have validator: "ip_validator p = pr_validator r"
    using snap product_draft_validator [OF ok] same by (auto simp: read_before_def split: if_splits)
  have fr: "?f r = r\<lparr>pr_status := mv_to m, pr_validator := ip_validator q\<rparr>" by (simp add: status)
  have new: "product_ok uuid db' (?f r)"
  proof -
    from ok obtain actor0 ms where ms: "moves_of (pr_id r) db = creation_move actor0 # ms"
      "product_life Pr_Draft None ms = Some (pr_status r, pr_validator r)" by (auto simp: product_ok_def)
    have "product_life (pr_status r) (pr_validator r) [m] = Some (mv_to m, ip_validator q)"
      using move same validator status by (auto simp: life_move_def)
    then have "product_life Pr_Draft None (ms @ [m]) = Some (mv_to m, ip_validator q)" by (simp add: product_life_append ms(2))
    moreover have "moves_of (pr_id r) db' = creation_move actor0 # ms @ [m]" by (simp add: moves ms(1))
    moreover have "pr_investor r + pr_bank r = 100000000 \<and> \<not> missing_text (pr_sharia r)
        \<and> (\<forall>k\<in>set reference_kinds. \<exists>l\<in>set (pd_links db). lk_product l = pr_id r \<and> lk_kind l = k)" if "on_market (mv_to m)"
    proof (cases "on_market (pr_status r)")
      case True
      with ok show ?thesis by (simp add: product_ok_def)
    next
      case False
      with move(2) status that have v: "pr_status r = Pr_Validated" by (auto simp: product_edges_def on_market_def)
      with move(5) same have pub2: "mv_to m = Pr_Published" "\<not> missing_text (pr_sharia r)"
        "shares_total to_millionths (ip_investor p) (ip_bank p) = Inr ()" using snap by (auto simp: read_before_def)
      have "pr_investor r + pr_bank r = 100000000"
        by (rule shares_total_render) (use pub2 snap ok in \<open>auto simp: read_before_def product_ok_def\<close>)
      with publishable_links [OF pub [OF pub2(1)] id] pub2 show ?thesis by blast
    qed
    ultimately show ?thesis using ok unfolding fr by (auto simp: product_ok_def tables(3))
  qed
  have other: "product_ok uuid db' x" if x: "x \<in> set (pd_products db)" "pr_id x \<noteq> pr_id r" for x
  proof -
    from x(2) have "moves_of (pr_id x) db' = moves_of (pr_id x) db" by (simp add: moves)
    moreover from inv x have "product_ok uuid db x" by (simp add: products_inv_def)
    ultimately show ?thesis by (simp add: product_ok_def tables(3))
  qed
  have all: "product_ok uuid db' (?f x)" if x: "x \<in> set (pd_products db)" for x
  proof (cases "x = r")
    case False
    with only x have "pr_id x \<noteq> pr_id r" by blast
    with other [OF x] show ?thesis by simp
  qed (use new status in simp)
  have ids: "map pr_id (map ?f (pd_products db)) = map pr_id (pd_products db)" by simp
  then have id_set: "pr_id ` set (map ?f (pd_products db)) = pr_id ` set (pd_products db)" by (metis set_map)
  have reads: "\<exists>y\<in>set (pd_products db'). read_before y s" if "s \<in> set ps" for s
  proof -
    from that inv obtain x where x: "x \<in> set (pd_products db)" "read_before x s" by (auto simp: products_inv_def)
    have "read_before (?f x) s"
    proof (cases "x = r")
      case True
      have "mv_to m \<noteq> Pr_Draft" using move(2) by (auto simp: product_edges_def)
      moreover have "ip_validator q = pr_validator r" if "pr_status r \<noteq> Pr_Draft" using move(4) same validator that by simp
      ultimately show ?thesis using x(2) unfolding True fr by (auto simp: read_before_def split: if_splits)
    next
      case False
      with only x have "pr_id x \<noteq> pr_id r" by blast
      with x(2) show ?thesis by simp
    qed
    moreover have "?f x \<in> set (pd_products db')" unfolding tables by (simp only: set_map) (rule imageI [OF x(1)])
    ultimately show ?thesis by blast
  qed
  have "fst ` set (pd_moves db') \<subseteq> pr_id ` set (pd_products db')"
    using inv r unfolding tables id_set by (auto simp: products_inv_def)
  moreover have "\<forall>x\<in>set (pd_products db'). product_ok uuid db' x" unfolding tables(1) set_map using all by blast
  moreover have "distinct (map pr_id (pd_products db'))" unfolding tables ids using inv by (simp add: products_inv_def)
  ultimately show ?thesis using reads unfolding products_inv_def by blast
qed (use inv in simp)

end
