(* ===== verification/Product_Terms.thy ===== *)
theory Product_Terms
  imports Product_Correct
begin

text \<open>
  What the tables keep of the terms and of the arbitrations: published versions of one product never
  apply on the same day and carry the checksum of their own contents, and an arbitration never
  prefers the weaker source.
\<close>

section \<open>Terms\<close>

definition in_force :: "string \<Rightarrow> terms_row \<Rightarrow> bool" where
  "in_force date r \<longleftrightarrow> tr_status r = Tv_Published \<and> \<not> str_less date (tr_from r)
     \<and> (case tr_until r of None \<Rightarrow> True | Some u \<Rightarrow> \<not> str_less u date)"

lemma str_not_less_trans: "\<not> str_less b a \<Longrightarrow> \<not> str_less c b \<Longrightarrow> \<not> str_less c a"
  using str_less_linear str_less_trans by metis

lemma in_force_meet: "in_force date a \<Longrightarrow> in_force date b \<Longrightarrow> periods_meet a b"
  by (auto simp: in_force_def periods_meet_def split: option.splits) (metis str_not_less_trans)+

lemma periods_meet_sym: "periods_meet a b \<longleftrightarrow> periods_meet b a"
  by (auto simp: periods_meet_def)

definition terms_ok :: "json_lib \<Rightarrow> terms_row \<Rightarrow> bool" where
  "terms_ok jl r \<longleftrightarrow> tr_investor r + tr_bank r = 100000000
     \<and> (tr_status r = Tv_Published \<longrightarrow> tr_checksum r = Some (sha256 jl (simulation_text jl (map_terms r))))"

definition terms_read_before :: "terms_row \<Rightarrow> product_terms \<Rightarrow> bool" where
  "terms_read_before r t \<longleftrightarrow>
     tv_id t = tr_id r \<and> tv_product t = tr_product r \<and> tv_from t = tr_from r \<and> tv_until t = tr_until r
     \<and> tv_investor t = render_units 6 (tr_investor r) \<and> tv_bank t = render_units 6 (tr_bank r)
     \<and> tv_target t = map_option (render_units 6) (tr_target r) \<and> tv_creator t = tr_creator r"

definition terms_inv :: "(string \<Rightarrow> string option) \<Rightarrow> json_lib \<Rightarrow> 'a product_db_scheme \<Rightarrow> product_terms list \<Rightarrow> bool" where
  "terms_inv uuid jl db ts \<longleftrightarrow> distinct (map tr_id (pd_terms db)) \<and> (\<forall>r\<in>set (pd_terms db). terms_ok jl r \<and> uuid (tr_id r) = Some (tr_id r))
     \<and> (\<forall>r\<in>set (pd_terms db). \<forall>s\<in>set (pd_terms db). tr_id r \<noteq> tr_id s \<longrightarrow> tr_product r = tr_product s
          \<longrightarrow> tr_status r = Tv_Published \<longrightarrow> tr_status s = Tv_Published \<longrightarrow> \<not> periods_meet r s)
     \<and> (\<forall>t\<in>set ts. \<exists>r\<in>set (pd_terms db). terms_read_before r t)"

lemma terms_inv_frame: "terms_inv uuid jl db ts \<Longrightarrow> pd_terms db' = pd_terms db \<Longrightarrow> terms_inv uuid jl db' ts"
  by (simp add: terms_inv_def)

lemma read_terms:
  assumes "terms_inv uuid jl db ts" "find_terms uuid i db = Inr (Some t)"
  shows "terms_inv uuid jl db (t # ts)"
proof -
  from assms(2) obtain j r where r: "find (\<lambda>r. tr_id r = j) (pd_terms db) = Some r" and t: "t = map_terms r"
    by (auto simp: find_terms_def and_then_Inr)
  from find_SomeD [OF r] have "r \<in> set (pd_terms db)" by simp
  moreover have "terms_read_before r t" by (simp add: terms_read_before_def t map_terms_def)
  ultimately show ?thesis using assms(1) by (auto simp: terms_inv_def)
qed

lemma simulation_text_read: "terms_read_before r t \<Longrightarrow> simulation_text jl t = simulation_text jl (map_terms r)"
  by (simp add: terms_read_before_def simulation_text_def map_terms_def)

lemma insert_terms_Inr:
  assumes "insert_terms fresh product actor t db = Inr (r, db')"
  shows "db' = db\<lparr>pd_terms := pd_terms db @ [r]\<rparr>" "tr_id r = fresh" "fresh \<notin> tr_id ` set (pd_terms db)"
    "tr_investor r + tr_bank r = 100000000" "tr_status r = Tv_Draft" "tr_product r = product" "tr_creator r = actor"
    "numeric_cast 9 6 (tv_investor t) = Inr (tr_investor r)"
  using assms by (auto simp: insert_terms_def and_then_Inr Let_def split: if_splits)

lemma create_terms_inv:
  assumes inv: "terms_inv uuid jl db ts" and fresh: "uuid fresh = Some fresh"
    and run: "create_terms stamp uuid fresh correlation t actor c db = Inr (out, db')"
  shows "terms_inv uuid jl db' ts"
proof (cases "db' = db")
  case False
  with run obtain i r db1 rows where ins: "insert_terms fresh i actor t db = Inr (r, db1)" and db': "pd_terms db' = pd_terms db1"
    by (auto simp: create_terms_def and_then_Inr split: option.splits if_splits)
  note r = insert_terms_Inr [OF ins]
  have terms: "pd_terms db' = pd_terms db @ [r]" by (simp add: db' r(1))
  have "terms_ok jl r" by (simp add: terms_ok_def r(4,5))
  then show ?thesis using inv r fresh unfolding terms_inv_def terms by auto
qed (use inv in simp)

lemma terms_publish_Inr:
  "terms_publish x t = Inr u \<longleftrightarrow> tv_status t = Tv_Draft \<and> calendar_date (tp_date x) \<and> is_sha256_hex (tp_checksum x)
     \<and> \<not> blank (tp_actor x) \<and> trim (tp_actor x) \<noteq> tv_creator t
     \<and> (str_less (tv_from t) (tp_date x) \<longrightarrow> safe_key 16 128 (or_empty (tp_retroactive x)))
     \<and> u = t\<lparr>tv_status := Tv_Published, tv_checksum := Some (tp_checksum x), tv_retroactive := tp_retroactive x\<rparr>"
  by (auto simp: terms_publish_def and_then_Inr effective_date_def split: if_splits)

lemma publish_fields:
  "tr_id (if b then publish_row t r else r) = tr_id r" "tr_product (if b then publish_row t r else r) = tr_product r"
  "tr_from (if b then publish_row t r else r) = tr_from r" "tr_until (if b then publish_row t r else r) = tr_until r"
  "tr_investor (if b then publish_row t r else r) = tr_investor r" "tr_bank (if b then publish_row t r else r) = tr_bank r"
  "tr_target (if b then publish_row t r else r) = tr_target r" "tr_creator (if b then publish_row t r else r) = tr_creator r"
  by (simp_all add: publish_row_def)

lemma update_terms_Inr:
  assumes "update_terms uuid t actor db = Inr db'"
  obtains i r where "uuid (tv_id t) = Some i"
    "find (\<lambda>r. tr_id r = i \<and> tr_status r = Tv_Draft \<and> tr_creator r \<noteq> actor) (pd_terms db) = Some r"
    "\<forall>y\<in>set (pd_terms db). tr_id y \<noteq> i \<longrightarrow> tr_product y = tr_product r \<longrightarrow> tr_status y = Tv_Published \<longrightarrow> \<not> periods_meet y r"
    "db' = db\<lparr>pd_terms := map (\<lambda>y. if tr_id y = i then publish_row t y else y) (pd_terms db)\<rparr>"
proof -
  from assms obtain i where i: "uuid (tv_id t) = Some i" by (auto simp: update_terms_def and_then_Inr as_simps)
  let ?find = "find (\<lambda>r. tr_id r = i \<and> tr_status r = Tv_Draft \<and> tr_creator r \<noteq> actor) (pd_terms db)"
  from assms i obtain r where r: "?find = Some r" by (cases ?find) (simp_all add: update_terms_def as_uuid_def)
  with assms i have "\<not> (\<exists>x\<in>set (pd_terms db). tr_id x \<noteq> i \<and> tr_product x = tr_product r \<and> tr_status x = Tv_Published \<and> periods_meet x r)"
    and "db' = db\<lparr>pd_terms := map (\<lambda>y. if tr_id y = i then publish_row t y else y) (pd_terms db)\<rparr>"
    by (auto simp: update_terms_def as_uuid_def split: if_splits)
  then have "\<forall>y\<in>set (pd_terms db). tr_id y \<noteq> i \<longrightarrow> tr_product y = tr_product r \<longrightarrow> tr_status y = Tv_Published \<longrightarrow> \<not> periods_meet y r"
    and "db' = db\<lparr>pd_terms := map (\<lambda>y. if tr_id y = i then publish_row t y else y) (pd_terms db)\<rparr>" by blast+
  from that [OF i r this] show ?thesis .
qed

text \<open>A publication that changes the tables.\<close>

lemma terms_save_Inr:
  assumes run: "terms_service_save stamp jl uuid correlation product x c t db = (out, db')" and change: "db' \<noteq> db"
  obtains i r where "tv_product t = product" "tp_checksum x = sha256 jl (simulation_text jl t)" "terms_publish x t = Inr
      (t\<lparr>tv_status := Tv_Published, tv_checksum := Some (tp_checksum x), tv_retroactive := tp_retroactive x\<rparr>)"
    "uuid (tv_id t) = Some i" "r \<in> set (pd_terms db)" "tr_id r = i" "tr_status r = Tv_Draft" "tr_creator r \<noteq> tp_actor x"
    "truthy (tp_retroactive x) \<Longrightarrow> \<exists>a\<in>set (pd_approvals db). ap_key a = or_empty (tp_retroactive x) \<and> ap_resource a = tv_id t
       \<and> ap_action a = ''APPROVE_RETROACTIVE_PRODUCT_TERMS'' \<and> ap_result a = ''APPROVED'' \<and> ap_actor a \<noteq> tp_actor x"
    "\<forall>y\<in>set (pd_terms db). tr_id y \<noteq> i \<longrightarrow> tr_product y = tr_product r \<longrightarrow> tr_status y = Tv_Published \<longrightarrow> \<not> periods_meet y r"
    "pd_terms db' = map (\<lambda>y. if tr_id y = i then publish_row (t\<lparr>tv_status := Tv_Published, tv_checksum := Some (tp_checksum x),
       tv_retroactive := tp_retroactive x\<rparr>) y else y) (pd_terms db)"
    "pd_products db' = pd_products db" "pd_moves db' = pd_moves db" "pd_links db' = pd_links db" "pd_arbitrations db' = pd_arbitrations db"
    "pd_references db' = pd_references db"
proof -
  from run change obtain expected u where guards: "tv_product t = product" "simulate_terms jl t = Inr expected" "tp_checksum x = expected"
    "terms_publish x t = Inr u" and pub: "publish_terms stamp uuid u (tp_actor x) (trim (tp_justification x)) correlation c db = Inr ((), db')"
    by (cases out) (auto simp: terms_service_save_def outcome split: if_splits)
  let ?u = "t\<lparr>tv_status := Tv_Published, tv_checksum := Some (tp_checksum x), tv_retroactive := tp_retroactive x\<rparr>"
  have u: "u = ?u" using guards(4) unfolding terms_publish_Inr by blast
  from pub change obtain db1 rows where
    retro: "(if truthy (tp_retroactive x) then assert_retroactive_approval ?u (tp_actor x) db else Inr ()) = Inr ()"
    and upd: "update_terms uuid ?u (tp_actor x) db = Inr db1"
    and db': "pd_terms db' = pd_terms db1" "pd_products db' = pd_products db1" "pd_moves db' = pd_moves db1" "pd_links db' = pd_links db1"
      "pd_arbitrations db' = pd_arbitrations db1" "pd_references db' = pd_references db1"
    unfolding publish_terms_def u by (auto simp: and_then_Inr split: option.splits if_splits)
  obtain i r where i: "uuid (tv_id t) = Some i"
    and r: "find (\<lambda>r. tr_id r = i \<and> tr_status r = Tv_Draft \<and> tr_creator r \<noteq> tp_actor x) (pd_terms db) = Some r"
    and free: "\<forall>y\<in>set (pd_terms db). tr_id y \<noteq> i \<longrightarrow> tr_product y = tr_product r \<longrightarrow> tr_status y = Tv_Published \<longrightarrow> \<not> periods_meet y r"
    and db1: "db1 = db\<lparr>pd_terms := map (\<lambda>y. if tr_id y = i then publish_row ?u y else y) (pd_terms db)\<rparr>"
    by (rule update_terms_Inr [OF upd]) (rule that, simp_all)
  have approved: "\<exists>a\<in>set (pd_approvals db). ap_key a = or_empty (tp_retroactive x) \<and> ap_resource a = tv_id t
       \<and> ap_action a = ''APPROVE_RETROACTIVE_PRODUCT_TERMS'' \<and> ap_result a = ''APPROVED'' \<and> ap_actor a \<noteq> tp_actor x"
    if "truthy (tp_retroactive x)"
    using retro that by (auto simp: assert_retroactive_approval_def split: option.splits if_splits dest: find_SomeD)
  have sha: "tp_checksum x = sha256 jl (simulation_text jl t)"
    using guards(2,3) by (auto simp: simulate_terms_def and_then_Inr split: if_splits)
  from find_SomeD [OF r] show ?thesis
    by (intro that [of i r]) (use guards(1,4) u sha i free approved db' db1 in auto)
qed

lemma save_terms_inv:
  assumes inv: "terms_inv uuid jl db ts" and t: "t \<in> set ts"
    and run: "terms_service_save stamp jl uuid correlation product x c t db = (out, db')"
  shows "terms_inv uuid jl db' ts"
proof (cases "db' = db")
  case False
  let ?u = "t\<lparr>tv_status := Tv_Published, tv_checksum := Some (tp_checksum x), tv_retroactive := tp_retroactive x\<rparr>"
  obtain i r where sha: "tp_checksum x = sha256 jl (simulation_text jl t)" and i: "uuid (tv_id t) = Some i"
    and r: "r \<in> set (pd_terms db)" "tr_id r = i"
    and free: "\<forall>y\<in>set (pd_terms db). tr_id y \<noteq> i \<longrightarrow> tr_product y = tr_product r \<longrightarrow> tr_status y = Tv_Published \<longrightarrow> \<not> periods_meet y r"
    and terms: "pd_terms db' = map (\<lambda>y. if tr_id y = i then publish_row ?u y else y) (pd_terms db)"
    by (rule terms_save_Inr [OF run False])
  let ?f = "\<lambda>y. if tr_id y = i then publish_row ?u y else y"
  have only: "y = r" if "y \<in> set (pd_terms db)" "tr_id y = i" for y
    using inv r that by (auto simp: terms_inv_def distinct_map inj_on_def)
  from inv t obtain r0 where r0: "r0 \<in> set (pd_terms db)" "terms_read_before r0 t" by (auto simp: terms_inv_def)
  have "tr_id r0 = tv_id t" using r0(2) by (auto simp: terms_read_before_def map_terms_def)
  with inv r0(1) i have "tr_id r0 = i" by (auto simp: terms_inv_def)
  with only r0 have read: "terms_read_before r t" by blast
  have f_id: "tr_id (?f y) = tr_id y" "tr_product (?f y) = tr_product y" "terms_read_before (?f y) s = terms_read_before y s"
    "periods_meet (?f y) z = periods_meet y z" "periods_meet z (?f y) = periods_meet z y" for y s z
    unfolding terms_read_before_def periods_meet_def publish_fields by (rule refl)+
  have oks: "terms_ok jl (?f y)" if "y \<in> set (pd_terms db)" for y
  proof (cases "tr_id y = i")
    case True
    with only that have y: "y = r" by blast
    have "terms_read_before (publish_row ?u r) t" using f_id(3) [of r t] read r(2) by simp
    from simulation_text_read [OF this]
    have digest: "sha256 jl (simulation_text jl t) = sha256 jl (simulation_text jl (map_terms (publish_row ?u r)))" by (rule arg_cong)
    have "tr_checksum (publish_row ?u r) = Some (sha256 jl (simulation_text jl t))" by (simp add: publish_row_def sha)
    also note digest
    finally have "tr_checksum (publish_row ?u r) = Some (sha256 jl (simulation_text jl (map_terms (publish_row ?u r))))" .
    moreover have "tr_investor (publish_row ?u r) + tr_bank (publish_row ?u r) = 100000000"
      using inv r(1) by (simp add: terms_inv_def terms_ok_def publish_row_def)
    moreover have "?f y = publish_row ?u r" using r(2) by (simp add: y)
    ultimately show ?thesis unfolding terms_ok_def by (simp only: simp_thms)
  next
    case False
    with inv that show ?thesis by (simp add: terms_inv_def)
  qed
  have apart: "\<not> periods_meet (?f y) (?f z)"
    if y: "y \<in> set (pd_terms db)" and z: "z \<in> set (pd_terms db)" and ne: "tr_id y \<noteq> tr_id z" and more: "tr_product y = tr_product z"
      "tr_status (?f y) = Tv_Published" "tr_status (?f z) = Tv_Published" for y z
  proof -
    consider "tr_id y = i" "tr_id z \<noteq> i" | "tr_id z = i" "tr_id y \<noteq> i" | "tr_id y \<noteq> i" "tr_id z \<noteq> i" using ne by blast
    then have "\<not> periods_meet y z"
    proof cases
      case 1
      with only y have "y = r" by blast
      with free z 1 more show ?thesis by (auto simp: periods_meet_sym [of r])
    next
      case 2
      with only z have "z = r" by blast
      with free y 2 more show ?thesis by auto
    next
      case 3
      with inv y z ne more show ?thesis unfolding terms_inv_def by auto
    qed
    then show ?thesis unfolding f_id .
  qed
  have ids: "uuid (tr_id (?f y)) = Some (tr_id (?f y))" if "y \<in> set (pd_terms db)" for y
    using inv that unfolding f_id by (simp add: terms_inv_def)
  have reads: "\<exists>y\<in>set (pd_terms db). terms_read_before (?f y) s" if "s \<in> set ts" for s
    using inv that unfolding f_id by (simp add: terms_inv_def)
  have image: "\<exists>z\<in>set (pd_terms db). y = ?f z" if "y \<in> set (pd_terms db')" for y
    using that unfolding terms set_map by (rule imageE) blast
  show ?thesis unfolding terms_inv_def
  proof (intro conjI ballI impI)
    have "map tr_id (map ?f (pd_terms db)) = map tr_id (pd_terms db)" by (simp add: publish_fields)
    then show "distinct (map tr_id (pd_terms db'))" using inv unfolding terms by (simp only: terms_inv_def)
  next
    fix y assume "y \<in> set (pd_terms db')"
    from image [OF this] oks ids show "terms_ok jl y" "uuid (tr_id y) = Some (tr_id y)" by blast+
  next
    fix y z assume y: "y \<in> set (pd_terms db')" and z: "z \<in> set (pd_terms db')" and ne: "tr_id y \<noteq> tr_id z"
      and same: "tr_product y = tr_product z" and pub: "tr_status y = Tv_Published" "tr_status z = Tv_Published"
    from image [OF y] obtain a where a: "a \<in> set (pd_terms db)" "y = ?f a" by blast
    from image [OF z] obtain b where b: "b \<in> set (pd_terms db)" "z = ?f b" by blast
    have "tr_id a \<noteq> tr_id b" using ne unfolding a(2) b(2) f_id .
    moreover have "tr_product a = tr_product b" using same unfolding a(2) b(2) f_id .
    ultimately show "\<not> periods_meet y z" using apart [OF a(1) b(1)] pub unfolding a(2) b(2) by blast
  next
    fix s assume "s \<in> set ts"
    from reads [OF this] obtain y where y: "y \<in> set (pd_terms db)" "terms_read_before (?f y) s" by blast
    have "?f y \<in> set (pd_terms db')" unfolding terms set_map by (rule imageI [OF y(1)])
    with y(2) show "\<exists>r\<in>set (pd_terms db'). terms_read_before r s" by blast
  qed
qed (use inv in simp)

section \<open>Arbitrations\<close>

definition arbitrations_ok :: "'a product_db_scheme \<Rightarrow> bool" where
  "arbitrations_ok db \<longleftrightarrow> (\<forall>a\<in>set (pd_arbitrations db). \<exists>s\<in>set (pd_references db). \<exists>r\<in>set (pd_references db).
     rf_id s = ab_selected a \<and> rf_id r = ab_rejected a \<and> compliance_priority (rf_source r) \<le> compliance_priority (rf_source s)
     \<and> \<not> blank (ab_actor a) \<and> 20 \<le> length (ab_rationale a))"

lemma arbitrations_frame:
  "arbitrations_ok db \<Longrightarrow> pd_arbitrations db' = pd_arbitrations db \<Longrightarrow> set (pd_references db) \<subseteq> set (pd_references db')
     \<Longrightarrow> arbitrations_ok db'"
  unfolding arbitrations_ok_def by (metis subsetD)

definition references_ok :: "(string \<Rightarrow> string option) \<Rightarrow> 'a product_db_scheme \<Rightarrow> bool" where
  "references_ok uuid db \<longleftrightarrow> (\<forall>r\<in>set (pd_references db). uuid (rf_id r) = Some (rf_id r))"

lemma list_references_mem: "list_references uuid product db = Inr refs \<Longrightarrow> fst ` set refs \<subseteq> set (pd_references db)"
  by (auto simp: list_references_def and_then_Inr split: if_splits)

lemma choose_Inr:
  assumes "choose_reference a refs = Inr ()"
  obtains s r where "s \<in> set refs" "r \<in> set refs" "rf_id s = ab_selected a" "rf_id r = ab_rejected a"
    "compliance_priority (rf_source r) \<le> compliance_priority (rf_source s)" "20 \<le> length (trim (ab_rationale a))"
  using assms by (auto simp: choose_reference_def split: option.splits if_splits dest!: find_SomeD)

lemma arbitrate_ok:
  assumes run: "reference_service_arbitrate uuid fresh a db = (out, db')" and ok: "arbitrations_ok db" "references_ok uuid db"
  shows "arbitrations_ok db'"
proof (cases "db' = db")
  case False
  with run obtain refs out' where actor: "\<not> blank (ab_actor a)" and refs: "list_references uuid (ab_product a) db = Inr refs"
    and chosen: "choose_reference a (map fst refs) = Inr ()"
    and ins: "insert_arbitration uuid fresh (a\<lparr>ab_rationale := trim (ab_rationale a), ab_actor := trim (ab_actor a)\<rparr>) db = Inr (out', db')"
    by (cases out) (auto simp: reference_service_arbitrate_def outcome query_def split: if_splits)
  obtain s r where mem: "s \<in> set (map fst refs)" "r \<in> set (map fst refs)" and sr: "rf_id s = ab_selected a" "rf_id r = ab_rejected a"
    "compliance_priority (rf_source r) \<le> compliance_priority (rf_source s)" "20 \<le> length (trim (ab_rationale a))"
    by (rule choose_Inr [OF chosen])
  from mem list_references_mem [OF refs] have sub: "s \<in> set (pd_references db)" "r \<in> set (pd_references db)" by (simp_all add: subset_iff)
  with ok(2) sr have ids: "uuid (ab_selected a) = Some (rf_id s)" "uuid (ab_rejected a) = Some (rf_id r)"
    by (auto simp: references_ok_def)
  from ins ids obtain p where db': "db' = db\<lparr>pd_arbitrations := pd_arbitrations db
      @ [a\<lparr>ab_rationale := trim (ab_rationale a), ab_actor := trim (ab_actor a), ab_product := p, ab_selected := rf_id s, ab_rejected := rf_id r\<rparr>]\<rparr>"
    by (auto simp: insert_arbitration_def and_then_Inr as_simps split: if_splits)
  have "\<not> blank (trim (ab_actor a))" using actor by simp
  with ok(1) sr sub show ?thesis unfolding arbitrations_ok_def db' by auto
qed (use ok in simp)

section \<open>Simulated texts\<close>

lemma quote_string_prefix:
  assumes "quote_string a @ x = quote_string b @ y"
  shows "a = b \<and> x = y"
proof -
  have "concat (map escape_char a) @ CHR 0x22 # x = concat (map escape_char b) @ CHR 0x22 # y \<Longrightarrow> a = b \<and> x = y"
  proof (induction a arbitrary: b)
    case Nil
    show ?case
    proof (cases b)
      case (Cons d b')
      obtain c' cs where "escape_char d = c' # cs" "c' \<noteq> CHR 0x22" using escape_char_head by blast
      with Nil Cons show ?thesis by simp
    qed (use Nil in simp)
  next
    case (Cons c a)
    obtain c' cs where "escape_char c = c' # cs" "c' \<noteq> CHR 0x22" using escape_char_head by blast
    with Cons.prems obtain d b' where b: "b = d # b'" by (cases b) auto
    with Cons.prems have "escape_char c @ (concat (map escape_char a) @ CHR 0x22 # x) = escape_char d @ (concat (map escape_char b') @ CHR 0x22 # y)"
      by simp
    from escape_char_prefix [OF this] Cons.IH [of b'] b show ?case by blast
  qed
  with assms show ?thesis by (simp add: quote_string_def)
qed

lemma null_text_prefix: "stringify jl (null_text a) @ x = stringify jl (null_text b) @ y \<Longrightarrow> x = y"
  by (cases a; cases b) (auto simp: null_text_def dest: quote_string_prefix, auto simp: quote_string_def)

lemma simulation_text_investor: "simulation_text jl s = simulation_text jl t \<Longrightarrow> tv_investor s = tv_investor t"
  by (auto simp: simulation_text_def dest!: quote_string_prefix null_text_prefix)

end
