(* ===== verification/Product_Properties.thy ===== *)
theory Product_Properties
  imports Product_Terms
begin

text \<open>
  The reachable states of the products, their terms and their references, with requests that read at
  one moment and write at a later one, and the properties of them.
\<close>

section \<open>Reachable states\<close>

text \<open>The tables with the products and the versions of terms that pending requests have read.\<close>

type_synonym product_world = "product_db \<times> invest_product list \<times> product_terms list"

inductive product_step :: "(string \<Rightarrow> string option) \<Rightarrow> json_lib \<Rightarrow> product_world \<Rightarrow> product_world \<Rightarrow> bool" for uuid jl where
  create: "product_service_create jl uuid fresh input actor key db = (out, db') \<Longrightarrow> product_step uuid jl (db, ps, ts) (db', ps, ts)"
| read: "find_product uuid i db = Inr (Some p) \<Longrightarrow> product_step uuid jl (db, ps, ts) (db, p # ps, ts)"
| save: "p \<in> set ps \<Longrightarrow> product_service_save uuid today a actor j c p db = (out, db')
    \<Longrightarrow> product_step uuid jl (db, ps, ts) (db', ps, ts)"
| draft: "uuid fresh = Some fresh \<Longrightarrow> terms_service_create stamp jl uuid fresh correlation t actor key db = (drafted, db')
    \<Longrightarrow> product_step uuid jl (db, ps, ts) (db', ps, ts)"
| read_draft: "find_terms uuid i db = Inr (Some t) \<Longrightarrow> product_step uuid jl (db, ps, ts) (db, ps, t # ts)"
| publish: "t \<in> set ts \<Longrightarrow> terms_service_save stamp jl uuid correlation product x c t db = (published, db')
    \<Longrightarrow> product_step uuid jl (db, ps, ts) (db', ps, ts)"
| reference: "reference_service_create uuid fresh r db = (created, db') \<Longrightarrow> product_step uuid jl (db, ps, ts) (db', ps, ts)"
| associate: "reference_service_associate uuid product r k actor db = (linked, db') \<Longrightarrow> product_step uuid jl (db, ps, ts) (db', ps, ts)"
| arbitrate: "reference_service_arbitrate uuid fresh ab db = (decided, db') \<Longrightarrow> product_step uuid jl (db, ps, ts) (db', ps, ts)"
| approve: "product_step uuid jl (db, ps, ts) (db\<lparr>pd_approvals := pd_approvals db @ rows, pd_outbox := messages\<rparr>, ps, ts)"

definition empty_products :: product_db where
  "empty_products = \<lparr>pd_products = [], pd_moves = [], pd_commands = [], pd_terms = [], pd_terms_commands = [], pd_references = [],
     pd_links = [], pd_arbitrations = [], pd_approvals = [], pd_outbox = []\<rparr>"

inductive product_reachable :: "(string \<Rightarrow> string option) \<Rightarrow> json_lib \<Rightarrow> product_world \<Rightarrow> bool" for uuid jl where
  start: "product_reachable uuid jl (empty_products, [], [])"
| step: "product_reachable uuid jl w \<Longrightarrow> product_step uuid jl w w' \<Longrightarrow> product_reachable uuid jl w'"

definition world_inv :: "(string \<Rightarrow> string option) \<Rightarrow> json_lib \<Rightarrow> product_world \<Rightarrow> bool" where
  "world_inv uuid jl w \<longleftrightarrow> (case w of (db, ps, ts) \<Rightarrow>
     products_inv uuid db ps \<and> terms_inv uuid jl db ts \<and> arbitrations_ok db \<and> references_ok uuid db)"

text \<open>The tables an operation on products leaves alone.\<close>

definition same_references :: "product_db \<Rightarrow> product_db \<Rightarrow> bool" where
  "same_references db db' \<longleftrightarrow> pd_references db' = pd_references db \<and> pd_arbitrations db' = pd_arbitrations db"

lemma references_frame: "same_references db db' \<Longrightarrow> arbitrations_ok db \<and> references_ok uuid db \<Longrightarrow> arbitrations_ok db' \<and> references_ok uuid db'"
  by (simp add: same_references_def arbitrations_ok_def references_ok_def)

lemma create_product_frame:
  assumes "product_service_create jl uuid fresh input actor key db = (out, db')"
  shows "db' = db \<or> (\<exists>p actor c q. create_product uuid p actor c db = Inr (q, db'))"
    "pd_terms db' = pd_terms db" "same_references db db'"
proof -
  show *: "db' = db \<or> (\<exists>p actor c q. create_product uuid p actor c db = Inr (q, db'))"
    using assms by (cases out) (auto simp: product_service_create_def outcome query_def split: option.splits)
  have "pd_terms db' = pd_terms db \<and> same_references db db'" if "create_product uuid p actor c db = Inr (q, db')" for p actor c q
    using that by (auto simp: create_product_def insert_product_def insert_move_def insert_product_command_def and_then_Inr
      same_references_def split: option.splits if_splits)
  with * show "pd_terms db' = pd_terms db" "same_references db db'" by (auto simp: same_references_def)
qed

lemma save_product_frame:
  assumes "product_service_save uuid today a actor j c p db = (out, db')"
  shows "db' = db \<or> (\<exists>q m o'. apply_product_action a actor j p = Inr (q, m) \<and> save_transition uuid today q m c db = Inr (o', db'))"
    "pd_terms db' = pd_terms db" "same_references db db'"
proof -
  show *: "db' = db \<or> (\<exists>q m o'. apply_product_action a actor j p = Inr (q, m) \<and> save_transition uuid today q m c db = Inr (o', db'))"
    using assms by (cases out) (auto simp: product_service_save_def product_restore_def outcome and_then_Inr split: prod.splits)
  have "pd_terms db' = pd_terms db \<and> same_references db db'" if "save_transition uuid today q m c db = Inr (o', db')" for q m o'
    using that by (auto simp: save_transition_def update_product_def insert_move_def insert_product_command_def and_then_Inr
      same_references_def split: option.splits if_splits)
  with * show "pd_terms db' = pd_terms db" "same_references db db'" by (auto simp: same_references_def)
qed


lemma create_terms_frame:
  assumes "terms_service_create stamp jl uuid fresh correlation t actor key db = (out, db')"
  shows "db' = db \<or> (\<exists>t actor c q. create_terms stamp uuid fresh correlation (t :: terms_input) actor c db = Inr (q, db'))"
    "pd_products db' = pd_products db" "pd_moves db' = pd_moves db" "pd_links db' = pd_links db" "same_references db db'"
proof -
  show *: "db' = db \<or> (\<exists>t actor c q. create_terms stamp uuid fresh correlation (t :: terms_input) actor c db = Inr (q, db'))"
    using assms by (cases out) (auto simp: terms_service_create_def outcome query_def split: option.splits)
  have "pd_products db' = pd_products db \<and> pd_moves db' = pd_moves db \<and> pd_links db' = pd_links db \<and> same_references db db'"
    if "create_terms stamp uuid fresh correlation (t :: terms_input) actor c db = Inr (q, db')" for t actor c q
  proof (cases "db' = db")
    case False
    with that obtain i r db1 where ins: "insert_terms fresh i actor t db = Inr (r, db1)"
      and rest: "pd_products db' = pd_products db1" "pd_moves db' = pd_moves db1" "pd_links db' = pd_links db1"
        "pd_references db' = pd_references db1" "pd_arbitrations db' = pd_arbitrations db1"
      by (auto simp: create_terms_def and_then_Inr split: option.splits if_splits)
    from insert_terms_Inr(1) [OF ins] rest show ?thesis by (simp add: same_references_def)
  qed (simp add: same_references_def)
  with * show "pd_products db' = pd_products db" "pd_moves db' = pd_moves db" "pd_links db' = pd_links db" "same_references db db'"
    by (auto simp: same_references_def)
qed

lemma create_reference_frame:
  assumes "reference_service_create uuid fresh r db = (out, db')" and laws: "uuid_laws uuid" and ok: "references_ok uuid db" "arbitrations_ok db"
  shows "pd_products db' = pd_products db" "pd_moves db' = pd_moves db" "pd_links db' = pd_links db" "pd_terms db' = pd_terms db"
    "references_ok uuid db'" "arbitrations_ok db'"
proof -
  have "db' = db \<or> (\<exists>i r. uuid (rf_id r) = Some i \<and> db' = db\<lparr>pd_references := pd_references db @ [r\<lparr>rf_id := i\<rparr>]\<rparr>)"
    using assms(1) by (cases out) (auto simp: reference_service_create_def outcome insert_reference_def and_then_Inr as_simps split: if_splits)
  then show "pd_products db' = pd_products db" "pd_moves db' = pd_moves db" "pd_links db' = pd_links db" "pd_terms db' = pd_terms db"
    "references_ok uuid db'" "arbitrations_ok db'"
    using ok laws by (auto simp: references_ok_def uuid_laws_def intro: arbitrations_frame)
qed

lemma associate_frame:
  assumes "reference_service_associate uuid product r k actor db = (out, db')"
  shows "pd_products db' = pd_products db" "pd_moves db' = pd_moves db" "set (pd_links db) \<subseteq> set (pd_links db')" "pd_terms db' = pd_terms db"
    "same_references db db'"
  using assms by (cases out; auto simp: reference_service_associate_def outcome insert_link_def and_then_Inr same_references_def split: if_splits)+

lemma arbitrate_frame:
  assumes "reference_service_arbitrate uuid fresh a db = (out, db')"
  shows "pd_products db' = pd_products db" "pd_moves db' = pd_moves db" "pd_links db' = pd_links db" "pd_terms db' = pd_terms db"
    "pd_references db' = pd_references db"
  using assms by (cases out; auto simp: reference_service_arbitrate_def outcome query_def insert_arbitration_def and_then_Inr split: if_splits)+

lemma product_step_inv:
  assumes laws: "uuid_laws uuid" and step: "product_step uuid jl w w'" and inv: "world_inv uuid jl w"
  shows "world_inv uuid jl w'"
  using step
proof cases
  case (create fresh input actor key db out db' ps ts)
  note frame = create_product_frame [OF create(3)]
  have "products_inv uuid db' ps" using frame(1) create_product_inv [OF _ laws] inv create(1) by (auto simp: world_inv_def)
  with inv create frame show ?thesis by (auto simp: world_inv_def same_references_def references_ok_def arbitrations_ok_def intro: terms_inv_frame)
next
  case (read i db p ps ts)
  with inv show ?thesis by (auto simp: world_inv_def intro: read_product)
next
  case (save p ps today a actor j c db out db' ts)
  note frame = save_product_frame [OF save(4)]
  have "products_inv uuid db' ps" using frame(1) save_product_inv [OF _ save(3)] inv save(1) by (auto simp: world_inv_def)
  with inv save frame show ?thesis by (auto simp: world_inv_def same_references_def references_ok_def arbitrations_ok_def intro: terms_inv_frame)
next
  case (draft fresh stamp correlation t actor key db drafted db' ps ts)
  note frame = create_terms_frame [OF draft(4)]
  have kept: "terms_inv uuid jl db ts" using inv draft(1) by (simp add: world_inv_def)
  from frame(1) have "terms_inv uuid jl db' ts"
  proof (elim disjE exE)
    fix t actor c q assume "create_terms stamp uuid fresh correlation (t :: terms_input) actor c db = Inr (q, db')"
    from create_terms_inv [where uuid = uuid and fresh = fresh, OF kept draft(3) this] show ?thesis .
  qed (use kept in simp)
  with inv draft frame show ?thesis by (auto simp: world_inv_def same_references_def references_ok_def arbitrations_ok_def intro: products_inv_frame)
next
  case (read_draft i db t ps ts)
  with inv show ?thesis by (auto simp: world_inv_def intro: read_terms)
next
  case (publish t ts stamp correlation product x c db published db' ps)
  have "terms_inv uuid jl db' ts" using save_terms_inv [OF _ publish(3,4)] inv publish(1) by (auto simp: world_inv_def)
  moreover have "products_inv uuid db' ps \<and> arbitrations_ok db' \<and> references_ok uuid db'"
  proof (cases "db' = db")
    case False
    show ?thesis
      by (rule terms_save_Inr [OF publish(4) False])
        (use inv publish(1) in \<open>auto simp: world_inv_def references_ok_def arbitrations_ok_def intro: products_inv_frame\<close>)
  qed (use inv publish(1) in \<open>auto simp: world_inv_def\<close>)
  ultimately show ?thesis using publish(2) by (simp add: world_inv_def)
next
  case (reference fresh r db created db' ps ts)
  have ok: "references_ok uuid db" "arbitrations_ok db" using inv reference(1) by (auto simp: world_inv_def)
  note frame = create_reference_frame [OF reference(3) laws ok]
  with inv reference show ?thesis by (auto simp: world_inv_def intro: products_inv_frame terms_inv_frame)
next
  case (associate product r k actor db linked db' ps ts)
  note frame = associate_frame [OF associate(3)]
  with inv associate show ?thesis
    by (auto simp: world_inv_def same_references_def references_ok_def arbitrations_ok_def intro: products_inv_frame terms_inv_frame)
next
  case (arbitrate fresh ab db decided db' ps ts)
  note frame = arbitrate_frame [OF arbitrate(3)]
  have "arbitrations_ok db'" by (rule arbitrate_ok [OF arbitrate(3)]) (use inv arbitrate(1) in \<open>auto simp: world_inv_def\<close>)
  with inv arbitrate frame show ?thesis by (auto simp: world_inv_def references_ok_def intro: products_inv_frame terms_inv_frame)
next
  case (approve db ps ts rows messages)
  with inv show ?thesis
    by (auto simp: world_inv_def references_ok_def arbitrations_ok_def intro: products_inv_frame terms_inv_frame)
qed

lemma product_reachable_inv:
  assumes "uuid_laws uuid" "product_reachable uuid jl w"
  shows "world_inv uuid jl w"
  using assms(2)
proof induction
  case start
  show ?case by (simp add: world_inv_def products_inv_def terms_inv_def arbitrations_ok_def references_ok_def empty_products_def)
next
  case (step w w')
  from product_step_inv [OF assms(1) step(2,3)] show ?case .
qed

section \<open>Properties\<close>

text \<open>
  C16. In every reachable state, however requests interleave, a product that came to the market has shares of
  exactly one hundred percent, a Sharia reference and an associated reference of each of the four kinds,
  and its recorded moves begin with its creation, its validation and its publication by somebody other
  than its validator.
\<close>

theorem market_products_checked:
  assumes "uuid_laws uuid" "product_reachable uuid jl (db, ps, ts)" "r \<in> set (pd_products db)" "on_market (pr_status r)"
  shows "pr_investor r + pr_bank r = 100000000 \<and> \<not> missing_text (pr_sharia r)
     \<and> (\<forall>k\<in>set reference_kinds. \<exists>l\<in>set (pd_links db). lk_product l = pr_id r \<and> lk_kind l = k)
     \<and> (\<exists>actor v p ms. moves_of (pr_id r) db = creation_move actor # v # p # ms \<and> mv_to v = Pr_Validated \<and> mv_to p = Pr_Published
         \<and> pr_validator r = Some (mv_actor v) \<and> mv_actor p \<noteq> mv_actor v)"
proof -
  from product_reachable_inv [OF assms(1,2)] assms(3) have ok: "product_ok uuid db r" by (simp add: world_inv_def products_inv_def)
  then obtain actor ms where ms: "moves_of (pr_id r) db = creation_move actor # ms"
    and life: "product_life Pr_Draft None ms = Some (pr_status r, pr_validator r)" by (auto simp: product_ok_def)
  from product_life_market [OF life assms(4)] obtain v p ns where "ms = v # p # ns" "mv_to v = Pr_Validated" "mv_to p = Pr_Published"
    "pr_validator r = Some (mv_actor v)" "mv_actor p \<noteq> mv_actor v" .
  with ms ok assms(4) show ?thesis by (auto simp: product_ok_def)
qed

text \<open>
  A product that was validated although its shares do not add up to one hundred percent, or without a
  Sharia reference, is stuck: no action of anybody ever changes it, since reading it back is refused.
\<close>

theorem unready_product_stuck:
  assumes "uuid_laws uuid" "product_reachable uuid jl (db, ps, ts)" "r \<in> set (pd_products db)" "pr_status r = Pr_Validated"
    and "pr_investor r + pr_bank r \<noteq> 100000000 \<or> missing_text (pr_sharia r)" "uuid product = Some (pr_id r)"
  shows "snd (product_service_transition jl uuid today product a actor j key db) = db"
proof -
  from product_reachable_inv [OF assms(1,2)] have inv: "products_inv uuid db ps" by (simp add: world_inv_def)
  with assms(3) have ok: "product_ok uuid db r" by (simp add: products_inv_def)
  have "x = r" if "x \<in> set (pd_products db)" "pr_id x = pr_id r" for x
    using inv assms(3) that by (auto simp: products_inv_def distinct_map inj_on_def)
  then have found: "find (\<lambda>x. pr_id x = pr_id r) (pd_products db) = Some r"
    using assms(3) by (cases "find (\<lambda>x. pr_id x = pr_id r) (pd_products db)") (auto simp: find_None_iff dest: find_SomeD)
  have refused: "product_restore (map_product r) \<noteq> Inr q" for q
  proof
    assume "product_restore (map_product r) = Inr q"
    then have "shares_total to_millionths (render_units 6 (pr_investor r)) (render_units 6 (pr_bank r)) = Inr ()" "\<not> missing_text (pr_sharia r)"
      using assms(4) by (auto simp: product_restore_def validate_product_def and_then_Inr map_product_def split: if_splits)
    with shares_total_render [of "pr_investor r" "pr_bank r"] ok assms(5) show False by (auto simp: product_ok_def)
  qed
  have "snd (product_service_save uuid today a actor j c (map_product r) db) = db" for c
    using refused by (cases "product_restore (map_product r)") (auto simp: product_service_save_def and_do_def)
  then show ?thesis using found assms(6)
    by (auto simp: product_service_transition_def product_service_get_def and_do_def query_def find_product_def as_uuid_def
      split: prod.splits sum.splits option.splits)
qed

text \<open>
  In every reachable state at most one version of the terms of a product is in force on any day, and every
  published version splits exactly one hundred percent and carries the checksum of its own contents.
\<close>

theorem terms_in_force_unique:
  assumes "uuid_laws uuid" "product_reachable uuid jl (db, ps, ts)"
  shows "length (filter (\<lambda>r. tr_product r = product \<and> in_force date r) (pd_terms db)) \<le> 1
     \<and> list_all (\<lambda>r. tr_investor r + tr_bank r = 100000000 \<and> (tr_status r = Tv_Published
          \<longrightarrow> tr_checksum r = Some (sha256 jl (simulation_text jl (map_terms r))))) (pd_terms db)"
proof
  from product_reachable_inv [OF assms] have inv: "terms_inv uuid jl db ts" by (simp add: world_inv_def)
  let ?rs = "filter (\<lambda>r. tr_product r = product \<and> in_force date r) (pd_terms db)"
  have same: "tr_id a = tr_id b" if "a \<in> set ?rs" "b \<in> set ?rs" for a b
  proof (rule ccontr)
    assume ne: "tr_id a \<noteq> tr_id b"
    from that have ab: "a \<in> set (pd_terms db)" "b \<in> set (pd_terms db)" "tr_product a = tr_product b" "in_force date a" "in_force date b"
      by auto
    then have "tr_status a = Tv_Published" "tr_status b = Tv_Published" by (simp_all add: in_force_def)
    with inv ab(1-3) ne have "\<not> periods_meet a b" unfolding terms_inv_def by blast
    with in_force_meet [OF ab(4,5)] show False by contradiction
  qed
  have dist: "distinct (map tr_id ?rs)" using inv unfolding terms_inv_def by (intro distinct_map_filter) simp
  show "length ?rs \<le> 1"
  proof (cases ?rs)
    case (Cons a as)
    show ?thesis
    proof (cases as)
      case (Cons b bs)
      with \<open>?rs = a # as\<close> have "a \<in> set ?rs" "b \<in> set ?rs" by (metis list.set_intros)+
      from same [OF this] dist show ?thesis unfolding \<open>?rs = a # as\<close> Cons by simp
    qed (simp add: Cons)
  qed simp
  from inv show "list_all (\<lambda>r. tr_investor r + tr_bank r = 100000000 \<and> (tr_status r = Tv_Published
          \<longrightarrow> tr_checksum r = Some (sha256 jl (simulation_text jl (map_terms r))))) (pd_terms db)"
    by (simp add: terms_inv_def terms_ok_def list_all_iff)
qed

text \<open>The draft that was created is the one that is read back.\<close>

lemma created_terms_found:
  assumes "terms_service_create stamp jl uuid fresh correlation t actor key db = (Inr d, db1)" "db1 \<noteq> db" "uuid fresh = Some fresh"
  shows "find_terms uuid (tv_id d) db1 = Inr (Some d)"
proof -
  from assms(1,2) obtain c where "create_terms stamp uuid fresh correlation t (trim actor) c db = Inr (d, db1)"
    by (auto simp: terms_service_create_def outcome query_def split: option.splits)
  with assms(2) obtain i r db2 where ins: "insert_terms fresh i (trim actor) t db = Inr (r, db2)" and d: "d = map_terms r"
    and rest: "pd_terms db1 = pd_terms db2" by (auto simp: create_terms_def and_then_Inr split: option.splits if_splits)
  note r = insert_terms_Inr [OF ins]
  have "find (\<lambda>x. tr_id x = fresh) (pd_terms db) = None" using r(3) by (auto simp: find_None_iff)
  then have "find (\<lambda>x. tr_id x = fresh) (pd_terms db1) = Some r" by (simp add: rest r(1,2) find_append)
  moreover have "tv_id d = fresh" by (simp add: d map_terms_def r(2))
  ultimately show ?thesis using assms(3) by (simp add: find_terms_def as_uuid_def d)
qed

text \<open>
  The checksum that the simulation returns for a draft as it was entered cannot publish this draft when a
  share was entered without all of its six decimals: the check recomputes it from the stored text, so
  every publication with it is refused and nothing changes.
\<close>

theorem entered_checksum_refused:
  assumes "terms_service_create stamp jl uuid fresh correlation t actor key db = (Inr d, db1)" "db1 \<noteq> db" "uuid fresh = Some fresh"
    and "simulate_terms jl t = Inr checksum" "tv_investor t \<noteq> tv_investor d" "tp_checksum x = checksum"
    and "\<And>a b. sha256 jl a = sha256 jl b \<Longrightarrow> a = b"
  shows "snd (terms_service_publish stamp2 jl uuid correlation2 product (tv_id d) x db1) = db1"
proof -
  have saved: "snd (terms_service_save stamp2 jl uuid correlation2 product x c d db1) = db1" for c
  proof (rule ccontr)
    assume change: "snd (terms_service_save stamp2 jl uuid correlation2 product x c d db1) \<noteq> db1"
    obtain out db2 where run: "terms_service_save stamp2 jl uuid correlation2 product x c d db1 = (out, db2)" by fastforce
    with change have "tp_checksum x = sha256 jl (simulation_text jl d)" by (auto elim: terms_save_Inr)
    moreover have "checksum = sha256 jl (simulation_text jl t)"
      using assms(4) by (auto simp: simulate_terms_def and_then_Inr split: if_splits)
    ultimately have "simulation_text jl t = simulation_text jl d" using assms(6,7) by simp
    from simulation_text_investor [OF this] assms(5) show False by simp
  qed
  from created_terms_found [OF assms(1-3)] have "find_terms uuid (tv_id d) db1 = Inr (Some d)" .
  with saved show ?thesis
    by (auto simp: terms_service_publish_def and_do_def query_def split: prod.splits sum.splits option.splits)
qed

end
