(* ===== verification/Product_Examples.thy ===== *)
theory Product_Examples
  imports Product_Properties
begin

text \<open>A concrete run of the products: a product that is created, gets its four references, is validated and published.\<close>

definition prod_example_id :: "char \<Rightarrow> string" where
  "prod_example_id c = ''00000000-0000-4000-8000-00000000000'' @ [c]"

definition prod_example_uuid :: "string \<Rightarrow> string option" where
  "prod_example_uuid s = (if is_uuid s then Some s else None)"

definition prod_example_hash :: string where
  "prod_example_hash = replicate 64 (CHR ''a'')"

definition prod_example_json :: json_lib where
  "prod_example_json = \<lparr>locale_compare = (\<lambda>_ _. 0), print_number = (\<lambda>_. []), sha256 = (\<lambda>_. prod_example_hash)\<rparr>"

definition prod_example_date :: string where
  "prod_example_date = ''2026-01-02''"

definition prod_example_key :: "char \<Rightarrow> string" where
  "prod_example_key c = ''command-0'' @ [c]"

definition prod_example_input :: "string option \<Rightarrow> invest_product" where
  "prod_example_input s = \<lparr>ip_id = [], ip_code = ''MUD'', ip_name = ''Mudaraba'', ip_investor = ''60'', ip_bank = ''40'', ip_sharia = s,
     ip_validator = None, ip_status = Pr_Draft\<rparr>"

definition prod_example_row :: "string option \<Rightarrow> string option \<Rightarrow> product_status \<Rightarrow> product_row" where
  "prod_example_row s v t = \<lparr>pr_id = prod_example_id (CHR ''1''), pr_code = ''MUD'', pr_name = ''Mudaraba'', pr_investor = 60000000,
     pr_bank = 40000000, pr_sharia = s, pr_validator = v, pr_status = t\<rparr>"

definition prod_example_command :: "char \<Rightarrow> string \<Rightarrow> product_command" where
  "prod_example_command c t = \<lparr>pc_key = prod_example_key c, pc_hash = prod_example_hash, pc_operation = t\<rparr>"

definition prod_example_command_row :: "char \<Rightarrow> string \<Rightarrow> command_row" where
  "prod_example_command_row c t = \<lparr>co_key = prod_example_key c, co_hash = prod_example_hash, co_operation = t,
     co_target = prod_example_id (CHR ''1'')\<rparr>"

definition prod_example_created :: "string option \<Rightarrow> product_db" where
  "prod_example_created s = empty_products\<lparr>pd_products := [prod_example_row s None Pr_Draft],
     pd_moves := [(prod_example_id (CHR ''1''), creation_move ''maker'')], pd_commands := [prod_example_command_row (CHR ''1'') ''CREATE'']\<rparr>"

lemma prod_example_ids: "is_uuid (prod_example_id (CHR ''1''))" "is_uuid (prod_example_id (CHR ''2''))" "is_uuid (prod_example_id (CHR ''3''))"
  "is_uuid (prod_example_id (CHR ''4''))" "is_uuid (prod_example_id (CHR ''5''))"
  by code_simp+

lemma prod_example_uuids: "prod_example_uuid (prod_example_id (CHR ''1'')) = Some (prod_example_id (CHR ''1''))"
  "prod_example_uuid (prod_example_id (CHR ''2'')) = Some (prod_example_id (CHR ''2''))"
  "prod_example_uuid (prod_example_id (CHR ''3'')) = Some (prod_example_id (CHR ''3''))"
  "prod_example_uuid (prod_example_id (CHR ''4'')) = Some (prod_example_id (CHR ''4''))"
  "prod_example_uuid (prod_example_id (CHR ''5'')) = Some (prod_example_id (CHR ''5''))"
  by (simp_all add: prod_example_uuid_def prod_example_ids)

lemma prod_example_laws: "uuid_laws prod_example_uuid"
  by (auto simp: uuid_laws_def prod_example_uuid_def)

lemma prod_example_dates: "calendar_date prod_example_date" "as_date prod_example_date = Inr prod_example_date" "iso_shape prod_example_date"
  by (simp_all add: prod_example_date_def as_date_def calendar_date_iff iso_shape_def valid_date_def iso_year_def iso_month_def iso_day_def
      month_length_def leap_year_def char_class_defs digits_eval)

lemma prod_example_keys: "safe_key 8 128 (prod_example_key (CHR ''1''))" "safe_key 8 128 (prod_example_key (CHR ''2''))"
  "safe_key 8 128 (prod_example_key (CHR ''3''))"
  by code_simp+

lemma prod_example_texts: "\<not> blank ''maker''" "trim ''maker'' = ''maker''" "\<not> blank ''checker''" "trim ''checker'' = ''checker''"
  "\<not> blank ''officer''" "trim ''officer'' = ''officer''" "\<not> blank ''FATWA-1''"
  "run_of product_code_char 2 32 ''MUD''" "length (trim ''Mudaraba'') = 8" "length (trim ''all controls passed'') = 19"
  by code_simp+

lemma prod_example_numbers: "numeric_cast 9 6 ''60'' = Inr 60000000" "numeric_cast 9 6 ''40'' = Inr 40000000"
proof -
  have "decimal_value ''60'' = Some 60" "decimal_value ''40'' = Some 40" by (simp_all add: text_eval)
  then show "numeric_cast 9 6 ''60'' = Inr 60000000" "numeric_cast 9 6 ''40'' = Inr 40000000"
    using round_away_of_int [of 60000000] round_away_of_int [of 40000000] by (simp_all add: numeric_cast_def Let_def)
qed

lemma prod_example_shares: "to_millionths ''60'' = Inr 60000000" "to_millionths ''40'' = Inr 40000000"
  by (simp_all add: to_millionths_def millionths_def text_eval)

lemma prod_example_stored: "render_units 6 60000000 = ''60.000000''" "render_units 6 40000000 = ''40.000000''"
  by (simp_all add: render_units_def render_nat_def Let_def text_eval digits_eval)

lemma prod_example_stored_shares: "to_millionths ''60.000000'' = Inr 60000000" "to_millionths ''40.000000'' = Inr 40000000"
  by (simp_all add: to_millionths_def millionths_def text_eval)

section \<open>A product that reaches the market\<close>

lemma prod_example_create:
  "product_service_create prod_example_json prod_example_uuid (prod_example_id (CHR ''1'')) (prod_example_input s) ''maker'' (prod_example_key (CHR ''1''))
     empty_products = (Inr (prod_example_input s\<lparr>ip_id := prod_example_id (CHR ''1'')\<rparr>), prod_example_created s)"
proof -
  let ?c = "prod_example_command (CHR ''1'') ''CREATE''"
  let ?p = "prod_example_input s\<lparr>ip_id := prod_example_id (CHR ''1'')\<rparr>"
  have command: "product_command_for prod_example_json (prod_example_key (CHR ''1'')) t ''maker'' vs = Inr (prod_example_command (CHR ''1'') t)" for t vs
    by (simp add: product_command_for_def prod_example_keys prod_example_json_def prod_example_command_def)
  have drafted: "product_draft ?p = Inr ?p"
    by (simp add: product_draft_def validate_draft_def prod_example_input_def prod_example_ids prod_example_texts prod_example_shares)
  have none: "find_product_command k h empty_products = Inr None" for k h by (simp add: find_product_command_def empty_products_def)
  have "create_product prod_example_uuid ?p ''maker'' ?c empty_products = Inr (?p, prod_example_created s)"
    unfolding create_product_def none
    by (simp add: insert_product_def prod_example_input_def as_uuid_def prod_example_uuids prod_example_numbers
      insert_move_def insert_product_command_def insert_command_row_def prod_example_created_def empty_products_def prod_example_row_def
      prod_example_command_def prod_example_command_row_def)
  then show ?thesis
    by (simp add: product_service_create_def and_do_def query_def transaction_def prod_example_texts command none drafted)
qed

definition prod_example_references :: "(reference_kind \<times> char) list" where
  "prod_example_references = [(Kind_Contractual, CHR ''2''), (Kind_Regulatory, CHR ''3''), (Kind_Sharia, CHR ''4''), (Kind_Accounting, CHR ''5'')]"

definition prod_example_reference :: "char \<Rightarrow> compliance_ref" where
  "prod_example_reference c = \<lparr>rf_id = prod_example_id c, rf_source = Src_BA, rf_code = ''CIRC-1'', rf_version = [c], rf_title = ''Circular'',
     rf_from = prod_example_date, rf_until = None, rf_creator = ''maker''\<rparr>"

definition prod_example_link :: "reference_kind \<times> char \<Rightarrow> reference_link" where
  "prod_example_link x = \<lparr>lk_product = prod_example_id (CHR ''1''), lk_reference = prod_example_id (snd x), lk_kind = fst x, lk_actor = ''maker''\<rparr>"

lemma prod_example_id_eq [simp]: "prod_example_id a = prod_example_id b \<longleftrightarrow> a = b"
  by (simp add: prod_example_id_def)

lemma prod_example_referenced:
  assumes "pd_references db = map prod_example_reference cs" "c \<notin> set cs" "c \<in> snd ` set prod_example_references"
  shows "reference_service_create prod_example_uuid (prod_example_id c) (prod_example_reference c) db
     = (Inr (prod_example_reference c), db\<lparr>pd_references := map prod_example_reference (cs @ [c])\<rparr>)"
proof -
  have "run_of reference_code_char 2 80 ''CIRC-1''" "length (trim ''Circular'') = 8" by code_simp+
  moreover have c: "is_uuid (prod_example_id c)" "prod_example_uuid (prod_example_id c) = Some (prod_example_id c)" "\<not> blank [c]"
    using assms(3) by (auto simp: prod_example_references_def prod_example_ids prod_example_uuids trim_def js_space_def)
  ultimately have "create_compliance_ref (prod_example_reference c) = Inr (prod_example_reference c)"
    by (simp add: create_compliance_ref_def prod_example_reference_def prod_example_texts reference_date_def prod_example_dates truthy_def)
  moreover have "insert_reference prod_example_uuid (prod_example_reference c) db
      = Inr (prod_example_reference c, db\<lparr>pd_references := map prod_example_reference (cs @ [c])\<rparr>)"
    using assms(1,2) c by (auto simp: insert_reference_def prod_example_reference_def as_uuid_def prod_example_dates nullable_def)
  moreover have "prod_example_reference c\<lparr>rf_id := prod_example_id c\<rparr> = prod_example_reference c" by (simp add: prod_example_reference_def)
  ultimately show ?thesis by (simp add: reference_service_create_def and_do_def transaction_def)
qed

lemma prod_example_linked:
  assumes "pd_products db = [prod_example_row s v t]" "pd_references db = map prod_example_reference cs" "snd x \<in> set cs"
    "pd_links db = map prod_example_link xs" "snd x \<notin> snd ` set xs" "x \<in> set prod_example_references"
  shows "reference_service_associate prod_example_uuid (prod_example_id (CHR ''1'')) (prod_example_id (snd x)) (fst x) ''maker'' db
     = (Inr (), db\<lparr>pd_links := map prod_example_link (xs @ [x])\<rparr>)"
proof -
  have x: "is_uuid (prod_example_id (snd x))" "prod_example_uuid (prod_example_id (snd x)) = Some (prod_example_id (snd x))"
    using assms(6) by (auto simp: prod_example_references_def prod_example_ids prod_example_uuids)
  have fresh: "\<not> (\<exists>l\<in>set (pd_links db). lk_product l = prod_example_id (CHR ''1'') \<and> lk_reference l = prod_example_id (snd x))"
    using assms(5) by (auto simp: assms(4) prod_example_link_def) (metis imageI snd_conv)
  have "pr_id (prod_example_row s v t) = prod_example_id (CHR ''1'')" "rf_id (prod_example_reference c) = prod_example_id c" for c
    by (simp_all add: prod_example_row_def prod_example_reference_def)
  then have known: "prod_example_id (CHR ''1'') \<in> pr_id ` set (pd_products db)" "prod_example_id (snd x) \<in> rf_id ` set (pd_references db)"
    using assms(3) by (auto simp: assms(1,2) image_image)
  have "insert_link prod_example_uuid (prod_example_id (CHR ''1'')) (prod_example_id (snd x)) (fst x) ''maker'' db
      = Inr ((), db\<lparr>pd_links := map prod_example_link (xs @ [x])\<rparr>)"
    using fresh known by (simp add: insert_link_def as_uuid_def x prod_example_uuids) (simp add: assms(4) prod_example_link_def)
  then show ?thesis
    by (simp add: reference_service_associate_def and_do_def transaction_def require_uuid_def prod_example_ids x prod_example_texts)
qed

text \<open>The product is read, and a move is written with a fresh command.\<close>

lemma prod_example_read:
  "pd_products db = [prod_example_row s v t] \<Longrightarrow> find_product prod_example_uuid (prod_example_id (CHR ''1'')) db = Inr (Some (map_product (prod_example_row s v t)))"
  by (simp add: find_product_def as_uuid_def prod_example_uuids) (simp add: prod_example_row_def)

lemma prod_example_saved:
  assumes "pd_products db = [prod_example_row s v t]" "pc_key c \<notin> co_key ` set (pd_commands db)"
    and "product_restore (map_product (prod_example_row s v t)) = Inr p" "apply_product_action a actor j p = Inr (q, m)"
    and "mv_from m = t" "ip_id q = prod_example_id (CHR ''1'')" "mv_to m = Pr_Published \<longrightarrow> assert_publishable prod_example_uuid (ip_id q) today db = Inr ()"
  shows "\<exists>rows. product_service_save prod_example_uuid today a actor j c (map_product (prod_example_row s v t)) db = (Inr q,
     db\<lparr>pd_products := [prod_example_row s (ip_validator q) (mv_to m)], pd_moves := pd_moves db @ [(prod_example_id (CHR ''1''), m)],
        pd_commands := rows\<rparr>) \<and> co_key ` set rows = insert (pc_key c) (co_key ` set (pd_commands db))"
proof -
  have "[(x, p). x \<leftarrow> pd_commands db, co_key x = pc_key c, p \<leftarrow> pd_products db, pr_id p = co_target x] = []"
    using assms(2) by (force simp: concat_eq_Nil_conv)
  then have none: "find_product_command (pc_key c) (pc_hash c) db = Inr None" unfolding find_product_command_def by (simp only: list.case)
  have row: "pr_id (prod_example_row s x y) = prod_example_id (CHR ''1'')" "pr_status (prod_example_row s v t) = t"
    "(prod_example_row s v t)\<lparr>pr_status := mv_to m, pr_validator := ip_validator q\<rparr> = prod_example_row s (ip_validator q) (mv_to m)" for x y
    by (simp_all add: prod_example_row_def)
  let ?row = "\<lparr>co_key = pc_key c, co_hash = pc_hash c, co_operation = pc_operation c, co_target = prod_example_id (CHR ''1'')\<rparr>"
  have "save_transition prod_example_uuid today q m c db = Inr (q, db\<lparr>pd_products := [prod_example_row s (ip_validator q) (mv_to m)],
      pd_moves := pd_moves db @ [(prod_example_id (CHR ''1''), m)], pd_commands := pd_commands db @ [?row]\<rparr>)"
    using assms(2,5,6,7) row by (simp add: save_transition_def none update_product_def insert_move_def insert_product_command_def
      insert_command_row_def as_uuid_def prod_example_uuids assms(1))
  then show ?thesis using assms(3,4)
    by (intro exI [of _ "pd_commands db @ [?row]"]) (simp add: product_service_save_def and_do_def transaction_def)
qed

definition prod_example_move :: "product_status \<Rightarrow> product_status \<Rightarrow> string \<Rightarrow> product_move" where
  "prod_example_move f t actor = \<lparr>mv_from = f, mv_to = t, mv_actor = actor, mv_justification = ''all controls passed''\<rparr>"

lemma prod_example_validated:
  assumes "pd_products db = [prod_example_row s None Pr_Draft]" "pc_key c \<notin> co_key ` set (pd_commands db)"
  shows "\<exists>q rows. product_service_save prod_example_uuid today Do_Validate ''checker'' ''all controls passed'' c
      (map_product (prod_example_row s None Pr_Draft)) db = (Inr q,
     db\<lparr>pd_products := [prod_example_row s (Some ''checker'') Pr_Validated],
       pd_moves := pd_moves db @ [(prod_example_id (CHR ''1''), prod_example_move Pr_Draft Pr_Validated ''checker'')],
       pd_commands := rows\<rparr>) \<and> co_key ` set rows = insert (pc_key c) (co_key ` set (pd_commands db))"
proof -
  let ?p = "map_product (prod_example_row s None Pr_Draft)"
  have p: "?p = \<lparr>ip_id = prod_example_id (CHR ''1''), ip_code = ''MUD'', ip_name = ''Mudaraba'', ip_investor = ''60.000000'',
     ip_bank = ''40.000000'', ip_sharia = s, ip_validator = None, ip_status = Pr_Draft\<rparr>"
    by (simp add: map_product_def prod_example_row_def prod_example_stored)
  have r: "product_restore ?p = Inr ?p"
    by (simp add: p product_restore_def validate_product_def validate_draft_def prod_example_ids prod_example_texts prod_example_stored_shares)
  have "trim ''all controls passed'' = ''all controls passed''" by code_simp
  then have a: "apply_product_action Do_Validate ''checker'' ''all controls passed'' ?p
      = Inr (?p\<lparr>ip_status := Pr_Validated, ip_validator := Some ''checker''\<rparr>, prod_example_move Pr_Draft Pr_Validated ''checker'')"
    by (simp add: p apply_product_action_def product_validate_def move_product_def prod_example_texts prod_example_move_def)
  have m: "mv_from (prod_example_move Pr_Draft Pr_Validated ''checker'') = Pr_Draft" "mv_to (prod_example_move Pr_Draft Pr_Validated ''checker'') = Pr_Validated"
    by (simp_all add: prod_example_move_def)
  then have n: "mv_to (prod_example_move Pr_Draft Pr_Validated ''checker'') = Pr_Published \<longrightarrow>
      assert_publishable prod_example_uuid (ip_id (?p\<lparr>ip_status := Pr_Validated, ip_validator := Some ''checker''\<rparr>)) today db = Inr ()" by simp
  have "ip_id (?p\<lparr>ip_status := Pr_Validated, ip_validator := Some ''checker''\<rparr>) = prod_example_id (CHR ''1'')" by (simp add: p)
  from prod_example_saved [OF assms r a m(1) this n] show ?thesis unfolding m(2) by auto
qed

lemma prod_example_published:
  assumes "pd_products db = [prod_example_row (Some ''FATWA-1'') (Some ''checker'') Pr_Validated]" "pc_key c \<notin> co_key ` set (pd_commands db)"
    "pd_references db = map (prod_example_reference \<circ> snd) prod_example_references" "pd_links db = map prod_example_link prod_example_references"
  shows "\<exists>q rows. product_service_save prod_example_uuid prod_example_date Do_Publish ''officer'' ''all controls passed'' c
      (map_product (prod_example_row (Some ''FATWA-1'') (Some ''checker'') Pr_Validated)) db = (Inr q,
     db\<lparr>pd_products := [prod_example_row (Some ''FATWA-1'') (Some ''checker'') Pr_Published],
       pd_moves := pd_moves db @ [(prod_example_id (CHR ''1''), prod_example_move Pr_Validated Pr_Published ''officer'')],
       pd_commands := rows\<rparr>) \<and> co_key ` set rows = insert (pc_key c) (co_key ` set (pd_commands db))"
proof -
  let ?p = "map_product (prod_example_row (Some ''FATWA-1'') (Some ''checker'') Pr_Validated)"
  have p: "?p = \<lparr>ip_id = prod_example_id (CHR ''1''), ip_code = ''MUD'', ip_name = ''Mudaraba'', ip_investor = ''60.000000'',
     ip_bank = ''40.000000'', ip_sharia = Some ''FATWA-1'', ip_validator = Some ''checker'', ip_status = Pr_Validated\<rparr>"
    by (simp add: map_product_def prod_example_row_def prod_example_stored)
  have total: "shares_total to_millionths ''60.000000'' ''40.000000'' = Inr ()"
    by (simp add: shares_total_def prod_example_stored_shares)
  have r: "product_restore ?p = Inr ?p"
    by (simp add: p product_restore_def validate_product_def validate_draft_def prod_example_ids prod_example_texts prod_example_stored_shares
      total missing_text_def)
  have "trim ''all controls passed'' = ''all controls passed''" by code_simp
  then have a: "apply_product_action Do_Publish ''officer'' ''all controls passed'' ?p
      = Inr (?p\<lparr>ip_status := Pr_Published\<rparr>, prod_example_move Pr_Validated Pr_Published ''officer'')"
    by (simp add: p apply_product_action_def product_publish_def move_product_def prod_example_texts prod_example_move_def total missing_text_def)
  have "rf_id (prod_example_reference e) = prod_example_id e" "rf_until (prod_example_reference e) = None"
    "\<not> str_less prod_example_date (rf_from (prod_example_reference e))" for e by (simp_all add: prod_example_reference_def)
  then have "set (admissible_kinds (prod_example_id (CHR ''1'')) prod_example_date db) = set reference_kinds"
    by (simp add: admissible_kinds_def assms(3,4) reference_kinds_def prod_example_link_def prod_example_references_def)
  then have "assert_publishable prod_example_uuid (prod_example_id (CHR ''1'')) prod_example_date db = Inr ()"
    by (simp add: assert_publishable_def as_uuid_def prod_example_uuids prod_example_dates filter_empty_conv)
  then have n: "mv_to (prod_example_move Pr_Validated Pr_Published ''officer'') = Pr_Published \<longrightarrow>
      assert_publishable prod_example_uuid (ip_id (?p\<lparr>ip_status := Pr_Published\<rparr>)) prod_example_date db = Inr ()" by (simp add: p)
  have m: "mv_from (prod_example_move Pr_Validated Pr_Published ''officer'') = Pr_Validated" "mv_to (prod_example_move Pr_Validated Pr_Published ''officer'') = Pr_Published"
    by (simp_all add: prod_example_move_def)
  have i: "ip_id (?p\<lparr>ip_status := Pr_Published\<rparr>) = prod_example_id (CHR ''1'')"
    "ip_validator (?p\<lparr>ip_status := Pr_Published\<rparr>) = Some ''checker''" by (simp_all add: p)
  from prod_example_saved [OF assms(1,2) r a m(1) i(1) n] show ?thesis unfolding m(2) i(2) by blast
qed

lemma prod_example_ready:
  "\<exists>db ps. product_reachable prod_example_uuid prod_example_json (db, ps, [])
     \<and> pd_products db = [prod_example_row (Some ''FATWA-1'') None Pr_Draft]
     \<and> pd_references db = map (prod_example_reference \<circ> snd) prod_example_references \<and> pd_links db = map prod_example_link prod_example_references
     \<and> co_key ` set (pd_commands db) = {prod_example_key (CHR ''1'')}"
proof -
  let ?db1 = "prod_example_created (Some ''FATWA-1'')"
  let ?row = "prod_example_row (Some ''FATWA-1'') None Pr_Draft"
  define good where "good db xs ys \<longleftrightarrow> product_reachable prod_example_uuid prod_example_json (db, [], []) \<and> pd_products db = [?row]
      \<and> pd_commands db = pd_commands ?db1 \<and> pd_references db = map prod_example_reference (map snd xs) \<and> pd_links db = map prod_example_link ys"
    for db and xs ys :: "(reference_kind \<times> char) list"
  have refer: "\<exists>db'. good db' (xs @ [x]) []" if "good db xs []" "snd x \<notin> snd ` set xs" "x \<in> set prod_example_references" for db xs x
  proof -
    have "snd x \<notin> set (map snd xs)" "snd x \<in> snd ` set prod_example_references" using that by auto
    from prod_example_referenced [OF _ this, of db] that(1) have "reference_service_create prod_example_uuid (prod_example_id (snd x))
        (prod_example_reference (snd x)) db = (Inr (prod_example_reference (snd x)),
          db\<lparr>pd_references := map prod_example_reference (map snd xs @ [snd x])\<rparr>)" by (simp add: good_def)
    from product_step.reference [OF this] that(1) show ?thesis
      by (intro exI [of _ "db\<lparr>pd_references := map prod_example_reference (map snd xs @ [snd x])\<rparr>"])
        (auto simp: good_def intro: product_reachable.step)
  qed
  have link: "\<exists>db'. good db' prod_example_references (ys @ [y])" if "good db prod_example_references ys" "snd y \<notin> snd ` set ys" "y \<in> set prod_example_references" for db ys y
  proof -
    have "snd y \<in> set (map snd prod_example_references)" using that(3) by simp
    from prod_example_linked [OF _ _ this _ that(2,3), of db] that(1) have "reference_service_associate prod_example_uuid
        (prod_example_id (CHR ''1'')) (prod_example_id (snd y)) (fst y) ''maker'' db = (Inr (), db\<lparr>pd_links := map prod_example_link (ys @ [y])\<rparr>)"
      by (simp add: good_def)
    from product_step.associate [OF this] that(1) show ?thesis
      by (intro exI [of _ "db\<lparr>pd_links := map prod_example_link (ys @ [y])\<rparr>"]) (auto simp: good_def intro: product_reachable.step)
  qed
  have "product_reachable prod_example_uuid prod_example_json (?db1, [], [])"
    by (rule product_reachable.step [OF product_reachable.start product_step.create [OF prod_example_create]])
  then have "good ?db1 [] []" by (simp add: good_def) (simp add: prod_example_created_def empty_products_def)
  then have "\<exists>db. good db prod_example_references []"
    using refer [of _ "[]" "(Kind_Contractual, CHR ''2'')"] refer [of _ "[(Kind_Contractual, CHR ''2'')]" "(Kind_Regulatory, CHR ''3'')"]
      refer [of _ "[(Kind_Contractual, CHR ''2''), (Kind_Regulatory, CHR ''3'')]" "(Kind_Sharia, CHR ''4'')"]
      refer [of _ "[(Kind_Contractual, CHR ''2''), (Kind_Regulatory, CHR ''3''), (Kind_Sharia, CHR ''4'')]" "(Kind_Accounting, CHR ''5'')"]
    by (simp add: prod_example_references_def) blast
  then obtain db where "good db prod_example_references prod_example_references"
    using link [of _ "[]" "(Kind_Contractual, CHR ''2'')"] link [of _ "[(Kind_Contractual, CHR ''2'')]" "(Kind_Regulatory, CHR ''3'')"]
      link [of _ "[(Kind_Contractual, CHR ''2''), (Kind_Regulatory, CHR ''3'')]" "(Kind_Sharia, CHR ''4'')"]
      link [of _ "[(Kind_Contractual, CHR ''2''), (Kind_Regulatory, CHR ''3''), (Kind_Sharia, CHR ''4'')]" "(Kind_Accounting, CHR ''5'')"]
    by (simp add: prod_example_references_def) blast
  moreover have "co_key ` set (pd_commands ?db1) = {prod_example_key (CHR ''1'')}"
    by (simp add: prod_example_created_def prod_example_command_row_def empty_products_def)
  ultimately show ?thesis by (intro exI [of _ db] exI [of _ "[]"]) (simp add: good_def)
qed

lemma prod_example_on_market:
  "\<exists>db ps. product_reachable prod_example_uuid prod_example_json (db, ps, [])
     \<and> pd_products db = [prod_example_row (Some ''FATWA-1'') (Some ''checker'') Pr_Published]"
proof -
  let ?reach = "\<lambda>db ps. product_reachable prod_example_uuid prod_example_json (db, ps, [])"
  obtain db ps where db: "?reach db ps" and p: "pd_products db = [prod_example_row (Some ''FATWA-1'') None Pr_Draft]"
    and refs: "pd_references db = map (prod_example_reference \<circ> snd) prod_example_references" "pd_links db = map prod_example_link prod_example_references"
    and keys: "co_key ` set (pd_commands db) = {prod_example_key (CHR ''1'')}" using prod_example_ready by blast
  let ?p = "map_product (prod_example_row (Some ''FATWA-1'') None Pr_Draft)" and ?q = "map_product (prod_example_row (Some ''FATWA-1'') (Some ''checker'') Pr_Validated)"
  have fresh: "pc_key (prod_example_command (CHR ''2'') t) = prod_example_key (CHR ''2'')"
      "pc_key (prod_example_command (CHR ''3'') t) = prod_example_key (CHR ''3'')"
      "prod_example_key (CHR ''2'') \<noteq> prod_example_key (CHR ''1'')" "prod_example_key (CHR ''3'') \<noteq> prod_example_key (CHR ''1'')"
      "prod_example_key (CHR ''3'') \<noteq> prod_example_key (CHR ''2'')" for t
    by (simp_all add: prod_example_command_def prod_example_key_def)
  from product_reachable.step [OF db product_step.read [OF prod_example_read [OF p]]] have r: "?reach db (?p # ps)" .
  have "pc_key (prod_example_command (CHR ''2'') ''VALIDATE'') \<notin> co_key ` set (pd_commands db)" using fresh keys by simp
  from prod_example_validated [OF p this, of prod_example_date] keys obtain q rows where
    v: "product_service_save prod_example_uuid prod_example_date Do_Validate ''checker'' ''all controls passed'' (prod_example_command (CHR ''2'') ''VALIDATE'')
      ?p db = (Inr q, db\<lparr>pd_products := [prod_example_row (Some ''FATWA-1'') (Some ''checker'') Pr_Validated],
       pd_moves := pd_moves db @ [(prod_example_id (CHR ''1''), prod_example_move Pr_Draft Pr_Validated ''checker'')], pd_commands := rows\<rparr>)"
      "co_key ` set rows = {prod_example_key (CHR ''2''), prod_example_key (CHR ''1'')}"
    unfolding fresh keys by blast
  let ?db2 = "db\<lparr>pd_products := [prod_example_row (Some ''FATWA-1'') (Some ''checker'') Pr_Validated],
       pd_moves := pd_moves db @ [(prod_example_id (CHR ''1''), prod_example_move Pr_Draft Pr_Validated ''checker'')], pd_commands := rows\<rparr>"
  from product_reachable.step [OF r product_step.save [OF _ v(1)]] have "?reach ?db2 (?p # ps)" by simp
  moreover have p2: "pd_products ?db2 = [prod_example_row (Some ''FATWA-1'') (Some ''checker'') Pr_Validated]"
    and refs2: "pd_references ?db2 = map (prod_example_reference \<circ> snd) prod_example_references" "pd_links ?db2 = map prod_example_link prod_example_references"
    and keys2: "pc_key (prod_example_command (CHR ''3'') ''PUBLISH'') \<notin> co_key ` set (pd_commands ?db2)"
    using refs fresh v(2) by simp_all
  ultimately have r2: "?reach ?db2 (?q # ?p # ps)"
    using product_reachable.step product_step.read [OF prod_example_read [OF p2]] by blast
  from prod_example_published [OF p2 keys2 refs2] obtain o' rows2 where
    w: "product_service_save prod_example_uuid prod_example_date Do_Publish ''officer'' ''all controls passed'' (prod_example_command (CHR ''3'') ''PUBLISH'')
      ?q ?db2 = (Inr o', ?db2\<lparr>pd_products := [prod_example_row (Some ''FATWA-1'') (Some ''checker'') Pr_Published],
       pd_moves := pd_moves ?db2 @ [(prod_example_id (CHR ''1''), prod_example_move Pr_Validated Pr_Published ''officer'')], pd_commands := rows2\<rparr>)"
      (is "_ = (_, ?db3)")
    by blast
  from product_reachable.step [OF r2 product_step.save [OF _ w]] have "?reach ?db3 (?q # ?p # ps)" by simp
  then show ?thesis by (intro exI conjI) (assumption, simp)
qed

theorem market_products_checked_witness:
  "\<exists>db actor v p ms. moves_of (prod_example_id (CHR ''1'')) (db :: product_db) = creation_move actor # v # p # ms
     \<and> mv_to p = Pr_Published \<and> mv_actor p \<noteq> mv_actor v"
proof -
  obtain db ps where r: "product_reachable prod_example_uuid prod_example_json (db, ps, [])"
    and p: "pd_products db = [prod_example_row (Some ''FATWA-1'') (Some ''checker'') Pr_Published]"
    using prod_example_on_market by blast
  have "on_market (pr_status (prod_example_row (Some ''FATWA-1'') (Some ''checker'') Pr_Published))"
    by (simp add: on_market_def prod_example_row_def)
  from market_products_checked [OF prod_example_laws r _ this] p have "\<exists>actor v p ms. moves_of (prod_example_id (CHR ''1'')) db = creation_move actor # v # p # ms
     \<and> mv_to p = Pr_Published \<and> mv_actor p \<noteq> mv_actor v"
    by (auto simp: prod_example_row_def)
  then show ?thesis by blast
qed

end
