(* ===== verification/Spec2Isabelle.thy ===== *)
theory Spec2Isabelle
  imports Money Allocation Loss Wakala Moudaraba Pool_Profit Musharaka Profit_Target Participation Reserves Risk
    Journal Accounting Reconciliation Accounting_Store Reconciliation_Store Authorization Effects Json Inbox Outbox
    Audit_Trail Closing Closing_Store Csv Cbs Cbs_Store
    Lifecycle Cbs_Correct Cbs_Pipeline Composition
    Tokenization Customers Subscription Subscription_Store Subscription_Correct Subscription_Life Subscription_Properties
    Calculation Calculation_Store Calculation_Correct Calculation_Live Calculation_Properties
    Product Product_Store Product_Correct Product_Terms Product_Properties Product_Examples
begin

text \<open>
  A model of the core of the profit management system for participative investment accounts (\<open>src/\<close> is the root
  of the repository): the calculations of profit and loss shares, the calculation runs, the accounting with its
  reconciliation, the workflow of closings and approvals, the ingestion of positions from the core banking system,
  the investment subscriptions, the products, the authorization, and the messaging and auditing that connects them.

  \<^bold>\<open>How the parts work together.\<close>  A request passes the guard (theory Authorization) and reaches a use case, which
  checks its input with the functions and aggregates of the domain and calls a repository.  A repository runs one
  transaction on the PostgreSQL tables and, where others must hear of it, inserts a message into the outbox table in
  the same transaction.  The relay (Outbox) leases the due messages, publishes them and records the outcome.  A worker
  takes a delivered message through the inbox (Inbox), which turns redeliveries into one effect: the calculation
  worker computes a queued run, the ingestion worker takes a batch of positions through its states, the audit worker
  appends a signed event to the hash chain.  An approved calculation is posted as a balanced journal, which
  is acknowledged, reversed and reconciled.

  \<^bold>\<open>Shared theories.\<close>
  \<^item> \<open>Pms_Prelude\<close>: thrown errors as values of a sum type, \<open>and_then\<close> for a call whose error is passed on, JavaScript
    numbers, \<open>trim\<close> and the character classes of the regular expressions, decimal digits, sorting with a comparator,
    and the collection \<open>outcome\<close> of the facts that take a successful run apart.
  \<^item> \<open>Decimal_Text\<close>: decimal texts read as scaled integers and printed back; the locale \<open>units_codec\<close> states what the
    reader promises of the printer and is interpreted for signed and unsigned amounts.
  \<^item> \<open>Decimal_Lib\<close>: the package decimal.js as a record of functions (\<open>decimal_lib\<close>) with its documented behaviour
    (\<open>decimal_laws\<close>: results rounded to the given number of digits, exact comparison, printing to a number of places); a
    concrete library \<open>exact_lib\<close> satisfies the laws and runs the examples.
  \<^item> \<open>Js_Date\<close> and Json: calendar dates, instants and \<open>Date.parse\<close>; JSON values, their quoting, and the canonical text
    that is hashed.
  \<^item> Effects and Sql: actions that change a store and may throw, transactions, and the casts and columns of PostgreSQL.
  \<^item> \<open>Largest_Remainder\<close> and Lifecycle: the locale \<open>largest_remainder\<close> (conservation and the bound of one unit, interpreted
    for both allocation routines) and the locale \<open>lifecycle\<close> (histories along ranked transitions are short, interpreted
    for the batches of the ingestion).

  \<^bold>\<open>Amounts and calculations.\<close>
  \<^item> Money (\<open>src/shared-kernel/money.ts\<close>), Allocation (\<open>proportional-allocation.ts\<close>) and Participation, Loss, Wakala,
    Moudaraba, Musharaka, \<open>Pool_Profit\<close> and \<open>Profit_Target\<close> (the files of those names under \<open>libs/engine/src\<close>): one
    definition per function, in the order of the code.  The theorems show what is printed: conservation to the
    last minor unit, shares within one unit of the exact ones, the loss waterfall, and the bounds of each contract.
  \<^item> Reserves and Risk (\<open>src/modules/reserves/domain\<close>, \<open>src/modules/risk-alm\<close>): reserve movements with their guards and
    approvals, the displaced commercial risk ratio and the stress scenarios.
  \<^item> Calculation and \<open>Calculation_Store\<close> (\<open>initiate-\<close> and \<open>execute-profit-calculation.ts\<close>, the two calculation repositories
    and the worker): queueing a run and computing it.  \<open>Calculation_Correct\<close> holds the invariant of the tables,
    \<open>Calculation_Live\<close> the progress (no step of the execution throws on prepared tables), \<open>Calculation_Properties\<close>
    the theorems.

  \<^bold>\<open>Accounting.\<close>
  \<^item> Journal and Accounting (\<open>src/modules/accounting\<close>): balanced journals and their specification \<open>balanced\<close>, reversal,
    the lines of an allocation, the event lifecycle.
  \<^item> \<open>Accounting_Store\<close> (the posting, reversal and event repositories): the ledger tables, the reachable ledgers, balance of every
    entry and acknowledgement histories; and two proofs that an operation cannot succeed.
  \<^item> Reconciliation and \<open>Reconciliation_Store\<close>: the comparison, discrepancies, certification of opening balances, and the
    stored reconciliation with its replay.

  \<^bold>\<open>Workflow, access, messages and audit.\<close>
  \<^item> Closing and \<open>Closing_Store\<close> (\<open>src/modules/closing-workflow\<close> and its three repositories): the steps of a closing, its
    controls and evidence, approvals, and the invariants of the reachable workflow tables.
  \<^item> Authorization (\<open>src/modules/identity-access/domain/authorization.ts\<close> and the guard of the API): the decision, the
    claims, the guard; \<open>denial_due\<close> is the specification of the reasons.
  \<^item> Inbox and Outbox (\<open>src/infrastructure/messaging\<close> and the two repositories): \<open>once\<close> is the specification of
    redelivery; the locale \<open>inbox_store\<close> states what a consumer needs of its store and is interpreted for the tables.
    Interleaved consumers are the runs of \<open>inbox_exclusive\<close>.
  \<^item> \<open>Audit_Trail\<close> (\<open>src/modules/audit\<close>, its repositories and the audit worker): appending, the chain, its verification.
  \<^item> Composition: properties across components - allocated shares posted as a journal, approvals that reach the audit trail.

  \<^bold>\<open>Ingestion, subscriptions, products.\<close>
  \<^item> Csv, Cbs and \<open>Cbs_Store\<close> (\<open>src/modules/cbs-ingestion\<close>, \<open>apps/ingestion-worker\<close> and four repositories): the file
    format, the use cases, the tables; \<open>Cbs_Correct\<close> and \<open>Cbs_Pipeline\<close> hold the invariant and the theorems of a batch.
  \<^item> Tokenization and Customers: the token vault with its client, customer profiles and their restrictions.
  \<^item> Subscription and \<open>Subscription_Store\<close> (\<open>src/modules/investment-accounts\<close>): the contract aggregate, its commands and
    events, the balance; \<open>Subscription_Correct\<close>, \<open>Subscription_Life\<close> and \<open>Subscription_Properties\<close>: the invariant, the
    reachable states, the theorems with a run of the whole service.
  \<^item> Product and \<open>Product_Store\<close> (\<open>src/modules/products\<close> and three repositories): products, versions of terms, compliance
    references; \<open>Product_Correct\<close>, \<open>Product_Terms\<close>, \<open>Product_Properties\<close> and \<open>Product_Examples\<close>: invariants over requests that
    read at one moment and write at a later one, the theorems, a run to the market.

  \<^bold>\<open>How code is translated.\<close>  An enum or union is a datatype, an object a record, a thrown error the left side of
  a sum (\<open>'a res\<close>) with its class and message, \<open>undefined\<close> or \<open>NULL\<close> the value \<open>None\<close>.  Texts are character lists; a
  \<open>bigint\<close> is an integer.  Asynchronous code is an \<open>action\<close>, a function from the state to an outcome and a state, so that
  what was changed before a throw stays changed; a transaction is a function on the tables whose error leaves them as
  they were.  The database is a record of lists of rows; a numeric column holds an integer number of its last digit,
  and the constraints of the schema (unique keys, foreign keys, checks, triggers and the exclusion constraint of the
  terms) are branches that fail the statement.  Reachable states are inductive predicates over all operations, in any
  order, with any outcome.

  \<^bold>\<open>Parameters.\<close>  Code that is not in the repository is an argument, and a theorem that relies on it names its
  documented behaviour as a hypothesis: decimal.js (\<open>decimal_laws\<close>), \<open>localeCompare\<close> and the order of texts in the database,
  SHA-256 and the signer (\<open>json_lib\<close>, \<open>audit_signer\<close>), the clock and \<open>Date.parse\<close> (\<open>clock_laws\<close>), fresh identifiers, the cast
  to \<open>uuid\<close> (\<open>uuid_laws\<close>), the reading of \<open>timestamptz\<close> texts (\<open>timestamptz_laws\<close>), the columns of the audit table, among them
  \<open>jsonb\<close> and \<open>inet\<close> (\<open>column_laws\<close>), the broker, the encryption of the vault, and the ports of the ingestion (object
  storage, antivirus, signature).  Whether PostgreSQL finds a type for a parameter without a cast is the field
  \<open>pg_infers_types\<close> of \<open>postgres_lib\<close>; it is modelled for the statement of the reconciliation only.  The statements of the posting,
  the reversal and the emission have the same form; a refusal there rolls the transaction back, so the
  invariants of the ledger hold with it as well.

  \<^bold>\<open>Bounds.\<close>  No loop of the model needs fuel beyond what its data gives: the loop of the largest remainder
  runs as often as there are units left over, which its invariant bounds by the number of participants;
  the relay and the workers recurse on the claimed or delivered lists.  Musharaka shares are
  within one unit of their exact part for results below \<open>10 ^ 48\<close>, since decimal.js keeps sixty digits.

  \<^bold>\<open>What is left out.\<close>  The request mapping of the API, dependency injection, process start, logging and metrics, and the
  protocols of other systems are input and output only.  Paged lists and dashboards only read.  The handling of
  one ingestion message is one step, so the interleaving of two ingestion workers inside a message is not covered; the
  interleaving of inbox consumers and of pending product requests is, and elsewhere a step is one transaction
  or one command.  The modules of pools, revenue,
  reporting, documents, exceptions, compliance reviews and reference data are not modelled; the calculation reads
  what they maintain from its tables as given rows.
\<close>

end
